(* ===== verification/Prelude.thy ===== *)
theory Prelude
  imports Main "HOL-Library.Word" "HOL-Library.Monad_Syntax"
begin

text \<open>
  Shared vocabulary of the development: the machine integer types of the C code, the
  return codes of \<open>include/yangutil/YangErrorCode.h\<close> that the modelled functions use, the
  byte-addressed memory the C pointers point into, and the generic facts on options, lists
  and words that the component theories share.

  A C pointer into a byte array is an offset into a list that is the whole allocation.
  A load or store outside the allocation is undefined behaviour in C; the model gives it the
  value \<open>None\<close>, so that every function of the development that touches memory has an option
  result and \<open>None\<close> means a memory fault. An error code that the C code returns is a value
  (\<open>Some\<close> of the code and of the state it leaves behind), never \<open>None\<close>.
\<close>

unbundle bit_operations_syntax

section \<open>Machine integers\<close>

type_synonym u8 = "8 word"
type_synonym u16 = "16 word"
type_synonym u32 = "32 word"
type_synonym u64 = "64 word"

text \<open>
  A signed C integer that the code only uses as a count, an offset or an error code is an
  \<open>int\<close>. Where the code narrows a value to a signed width, the narrowing is written out
  with \<open>signed_take_bit\<close>.
\<close>

type_synonym errcode = int

section \<open>Return codes (YangErrorCode.h)\<close>

abbreviation (input) Yang_Ok :: errcode where "Yang_Ok \<equiv> 0"
abbreviation (input) ERROR_RTC_RTP :: errcode where "ERROR_RTC_RTP \<equiv> 5006"
abbreviation (input) ERROR_RTC_RTCP :: errcode where "ERROR_RTC_RTCP \<equiv> 5007"
abbreviation (input) ERROR_RTC_STUN :: errcode where "ERROR_RTC_STUN \<equiv> 5008"
abbreviation (input) ERROR_RTC_RTP_MUXER :: errcode where "ERROR_RTC_RTP_MUXER \<equiv> 5011"
abbreviation (input) ERROR_RTC_RTCP_EMPTY_RR :: errcode where "ERROR_RTC_RTCP_EMPTY_RR \<equiv> 5031"
abbreviation (input) ERROR_RTC_NACK_BUFFER :: errcode where "ERROR_RTC_NACK_BUFFER \<equiv> 5032"
abbreviation (input) ERROR_RTC_PUBLISH :: errcode where "ERROR_RTC_PUBLISH \<equiv> 5034"

section \<open>Collections of rules\<close>

named_theorems mem_simps \<open>loads, stores and copies in a byte array\<close>
named_theorems wire_simps \<open>how the reads and writes of a buffer act on its bytes\<close>

section \<open>Arrays and memory\<close>

text \<open>One element of an array; \<open>None\<close> outside it.\<close>

definition mem_load :: "'a list \<Rightarrow> int \<Rightarrow> 'a option" where
  "mem_load m i = (if 0 \<le> i \<and> i < int (length m) then Some (m ! nat i) else None)"

definition mem_store :: "'a list \<Rightarrow> int \<Rightarrow> 'a \<Rightarrow> 'a list option" where
  "mem_store m i v = (if 0 \<le> i \<and> i < int (length m) then Some (m[nat i := v]) else None)"

text \<open>
  The source and the target of a \<open>memcpy\<close>, \<open>memmove\<close> or \<open>memset\<close> of \<open>n\<close> elements.
  A negative C count becomes a huge \<open>size_t\<close>, so it faults.
\<close>

definition mem_read :: "'a list \<Rightarrow> int \<Rightarrow> int \<Rightarrow> 'a list option" where
  "mem_read m i n =
     (if n = 0 then Some []
      else if 0 < n \<and> 0 \<le> i \<and> i + n \<le> int (length m) then Some (take (nat n) (drop (nat i) m))
      else None)"

definition mem_write :: "'a list \<Rightarrow> int \<Rightarrow> 'a list \<Rightarrow> 'a list option" where
  "mem_write m i bs =
     (if bs = [] then Some m
      else if 0 \<le> i \<and> i + int (length bs) \<le> int (length m)
      then Some (take (nat i) m @ bs @ drop (nat i + length bs) m)
      else None)"

lemma mem_load_Some_iff [mem_simps]:
  "mem_load m i = Some v \<longleftrightarrow> 0 \<le> i \<and> i < int (length m) \<and> m ! nat i = v"
  by (auto simp: mem_load_def)

lemma mem_load_None_iff [mem_simps]:
  "mem_load m i = None \<longleftrightarrow> i < 0 \<or> int (length m) \<le> i"
  by (auto simp: mem_load_def)

lemma length_mem_store: "mem_store m i v = Some m' \<Longrightarrow> length m' = length m"
  by (auto simp: mem_store_def split: if_splits)

lemma length_mem_write: "mem_write m i bs = Some m' \<Longrightarrow> length m' = length m"
  by (auto simp: mem_write_def split: if_splits)

lemma mem_read_write_same:
  assumes "mem_write m i bs = Some m'"
  shows "mem_read m' i (int (length bs)) = Some bs"
  using assms by (auto simp: mem_write_def mem_read_def min_def split: if_splits)

section \<open>Fields packed into a byte\<close>

lemma byte_masks:
  "(0x0F :: u8) = mask 4" "(0xF0 :: u8) = push_bit 4 (mask 4)"
  "(0x1F :: u8) = mask 5" "(0x7F :: u8) = mask 7"
  by (simp_all add: mask_eq_exp_minus_1 push_bit_eq_mult)

lemma high_nibble_packed:
  "drop_bit 4 ((push_bit 4 (x AND 0x0F) OR y) AND 0xF0) = (x AND 0x0F :: u8) OR drop_bit 4 y"
  by (rule bit_word_eqI) (auto simp: byte_masks bit_simps dest: bit_imp_le_length)

lemma low_nibble_packed: "(push_bit 4 (x AND 0x0F) OR y) AND 0x0F = (y AND 0x0F :: u8)"
  by (rule bit_word_eqI) (auto simp: byte_masks bit_simps)

lemma take_bit_less: "unat (x :: 'a::len word) < 2 ^ n \<Longrightarrow> take_bit n x = x"
  by (simp add: word_unat_eq_iff unsigned_take_bit_eq take_bit_nat_eq_self_iff)

lemma and_0x0F: "(x :: u8) < 16 \<Longrightarrow> x AND 0x0F = x"
  by (simp add: byte_masks take_bit_less word_less_nat_alt flip: take_bit_eq_mask)

lemma and_0x7F: "(x :: u8) < 128 \<Longrightarrow> x AND 0x7F = x"
  by (simp add: byte_masks take_bit_less word_less_nat_alt flip: take_bit_eq_mask)

lemma nibble_shift: "(x :: u8) < 16 \<Longrightarrow> drop_bit 4 (push_bit 4 x) AND 0x0F = x"
  using high_nibble_packed [of x 0] by (simp add: and_0x0F)

lemma nibble_low: "(push_bit 4 x OR 1) AND 0x0F = (1 :: u8)" "push_bit 4 x AND 0x0F = (0 :: u8)"
  by (rule bit_word_eqI; auto simp: byte_masks bit_simps)+

lemma ucast_ucast_less: "(x :: u32) < 16 \<Longrightarrow> ucast (ucast x :: u8) = x" "(x :: u32) < 16 \<Longrightarrow> (ucast x :: u8) < 16"
   "(x :: u32) < 16 \<Longrightarrow> (ucast x :: u8) = 0 \<longleftrightarrow> x = 0"
  by (simp_all add: word_unat_eq_iff word_less_nat_alt unsigned_ucast_eq unsigned_take_bit_eq take_bit_nat_eq_self)

lemma and_high_0:
  assumes "(c :: u8) < 16"
  shows "c AND 0x20 = 0" "c AND 0x10 = 0"
  using assms and.assoc [of c "0x0F" "0x20"] and.assoc [of c "0x0F" "0x10"] by (simp_all add: and_0x0F)

lemma first_byte:
  fixes c :: u8
  assumes "c < 16"
  shows "(0x80 OR c OR (if p then 0x20 else 0) OR (if x then 0x10 else 0)) AND 0x0F = c"
    and "(0x80 OR c OR (if p then 0x20 else 0) OR (if x then 0x10 else 0)) AND 0x20 \<noteq> 0 \<longleftrightarrow> p"
    and "(0x80 OR c OR (if p then 0x20 else 0) OR (if x then 0x10 else 0)) AND 0x10 \<noteq> 0 \<longleftrightarrow> x"
  using assms by (simp_all add: and_high_0 and_0x0F bit.conj_disj_distrib2)

lemma and_0x80: "(c :: u8) < 128 \<Longrightarrow> c AND 0x80 = 0"
  using and.assoc [of c "0x7F" "0x80"] by (simp add: and_0x7F)

lemma second_byte:
  fixes c :: u8
  assumes "c < 128"
  shows "(c OR (if m then 0x80 else 0)) AND 0x7F = c"
    and "(c OR (if m then 0x80 else 0)) AND 0x80 \<noteq> 0 \<longleftrightarrow> m"
  using assms by (simp_all add: and_0x80 and_0x7F bit.conj_disj_distrib2)


section \<open>Words as bytes\<close>

text \<open>
  Byte \<open>i\<close> of an integer in memory on the little-endian hosts the library targets, that is
  \<open>((char*)&value)[i]\<close>, and the integer whose bytes are given, lowest first.
\<close>

definition word_byte :: "'a::len word \<Rightarrow> nat \<Rightarrow> u8" where
  "word_byte w i = ucast (drop_bit (8 * i) w)"

primrec le_word :: "u8 list \<Rightarrow> 'a::len word" where
  "le_word [] = 0"
| "le_word (b # bs) = ucast b OR push_bit 8 (le_word bs)"

lemma bit_word_byte [bit_simps]: "bit (word_byte w i) n \<longleftrightarrow> n < 8 \<and> bit w (8 * i + n)"
  by (simp add: word_byte_def bit_simps)

lemma bit_le_word [bit_simps]:
  "bit (le_word bs :: 'a::len word) n \<longleftrightarrow>
     n < LENGTH('a) \<and> n div 8 < length bs \<and> bit (bs ! (n div 8)) (n mod 8)"
proof (induction bs arbitrary: n)
  case Nil
  then show ?case by simp
next
  case (Cons b bs)
  show ?case
  proof (cases "n < 8")
    case True
    then show ?thesis by (auto simp: bit_simps)
  next
    case False
    then obtain m where n: "n = m + 8" by (metis add.commute le_add_diff_inverse not_less)
    have "(m + 8) div 8 = Suc (m div 8)" by simp
    then show ?thesis by (auto simp: n bit_simps Cons.IH dest: bit_imp_le_length)
  qed
qed

lemma word_byte_le_word:
  "i < length bs \<Longrightarrow> 8 * i + 8 \<le> LENGTH('a) \<Longrightarrow> word_byte (le_word bs :: 'a::len word) i = bs ! i"
  by (rule bit_word_eqI) (auto simp: bit_simps)

text \<open>Taking an integer apart and putting it together again loses only the bytes left out.\<close>

lemma le_word_word_bytes:
  "le_word (map (word_byte w) [0..<k]) = (take_bit (8 * k) w :: 'a::len word)"
  by (rule bit_word_eqI) (auto simp: bit_simps less_mult_imp_div_less)

lemma le_word_16 [wire_simps]: "le_word [word_byte w 0, word_byte w (Suc 0)] = (w :: u16)"
  using le_word_word_bytes [of w 2]
  by (simp add: upt_rec numeral_eq_Suc take_bit_word_eq_self)

lemma le_word_24 [wire_simps]:
  "le_word [word_byte w 0, word_byte w (Suc 0), word_byte w 2] = (take_bit 24 w :: u32)"
  using le_word_word_bytes [of w 3] by (simp add: upt_rec eval_nat_numeral)

lemma le_word_32 [wire_simps]:
  "le_word [word_byte w 0, word_byte w (Suc 0), word_byte w 2, word_byte w 3] = (w :: u32)"
  using le_word_word_bytes [of w 4]
  by (simp add: upt_rec eval_nat_numeral take_bit_word_eq_self)

lemma le_word_64 [wire_simps]:
  "le_word [word_byte w 0, word_byte w (Suc 0), word_byte w 2, word_byte w 3,
            word_byte w 4, word_byte w 5, word_byte w 6, word_byte w 7] = (w :: u64)"
  using le_word_word_bytes [of w 8]
  by (simp add: upt_rec eval_nat_numeral take_bit_word_eq_self)

declare le_word.simps [simp del]

lemma narrow_word: "(ucast (word_of_int x :: 64 word) :: 32 word) = word_of_int x"
  by (simp add: unsigned_of_int word_of_int_eq_iff take_bit_take_bit)

lemma narrow_plus_one: "(ucast (f + 1 :: 64 word) :: 32 word) = ucast f + 1"
proof -
  have "(ucast (f + 1) :: 32 word) = ucast (word_of_int (uint f + 1) :: 64 word)" by simp
  also have "\<dots> = word_of_int (uint f + 1)" by (rule narrow_word)
  finally show ?thesis by (simp flip: ucast_eq)
qed

lemma unat_word_of_nat_small: "n < 2 ^ 32 \<Longrightarrow> unat (word_of_nat n :: 32 word) = n"
  by (simp add: unsigned_of_nat take_bit_nat_eq_self)

lemma sint_of_nonneg:
  assumes "0 \<le> sint (x :: 16 word)"
  shows "sint x = uint x"
proof -
  have s: "sint x = (uint x + 32768) mod 65536 - 32768"
    by (simp add: sint_uint signed_take_bit_eq_take_bit_shift take_bit_eq_mod)
  have x: "0 \<le> uint x" "uint x < 65536" using unsigned_less [of x, where 'a = int] by simp_all
  show ?thesis
  proof (cases "uint x < 32768")
    case True
    with x show ?thesis by (simp add: s)
  next
    case False
    with x have "(uint x + 32768) mod 65536 = uint x - 32768"
      using mod_add_self2 [of "uint x - 32768" 65536] by (simp add: add.commute)
    with x assms show ?thesis by (simp add: s)
  qed
qed

end
