(* ===== verification/Buffer.thy ===== *)
theory Buffer
  imports Prelude
begin

text \<open>
  The byte buffer of \<open>libmetartccore5/src/yangutil/sys/YangBuffer.c\<close>, through which every
  packet of the library is parsed and built.

  A \<open>YangBuffer\<close> holds two pointers into one allocation and a size. The record keeps the
  bytes of the whole allocation (\<open>buf_mem\<close>) and the two pointers as offsets into it. The C
  functions do not check the size before they read or write: they rely on their caller
  having asked \<open>yang_buffer_require\<close>. An access outside the allocation is a fault (\<open>None\<close>).

  After the operations, in the order of the C file, come their specifications. Each read is
  a function of the next bytes (\<open>peek\<close>) and each write puts a fixed byte string, its wire
  image, at the head (\<open>put_bytes\<close>); the locale \<open>wire_int\<close> states that contract once and is
  interpreted on every pair of the C file that keeps it.
\<close>

section \<open>The state and its observers\<close>

record yang_buffer =
  buf_mem :: "u8 list"
  buf_data :: int
  buf_head :: int
  buf_size :: int

text \<open>\<open>yang_init_buffer(buf, b, nn)\<close>, with the pointer \<open>b\<close> given as its allocation and offset.\<close>

definition yang_init_buffer :: "u8 list \<Rightarrow> int \<Rightarrow> int \<Rightarrow> yang_buffer" where
  "yang_init_buffer m p nn = \<lparr>buf_mem = m, buf_data = p, buf_head = p, buf_size = nn\<rparr>"

definition yang_buffer_pos :: "yang_buffer \<Rightarrow> int" where
  "yang_buffer_pos b = buf_head b - buf_data b"

definition yang_buffer_left :: "yang_buffer \<Rightarrow> int" where
  "yang_buffer_left b = buf_size b - (buf_head b - buf_data b)"

definition yang_buffer_empty :: "yang_buffer \<Rightarrow> bool" where
  "yang_buffer_empty b \<longleftrightarrow> buf_head b \<ge> buf_data b + buf_size b"

definition yang_buffer_require :: "yang_buffer \<Rightarrow> int \<Rightarrow> bool" where
  "yang_buffer_require b required_size =
     (if required_size < 0 then False
      else required_size \<le> buf_size b - (buf_head b - buf_data b))"

definition yang_buffer_skip :: "yang_buffer \<Rightarrow> int \<Rightarrow> yang_buffer" where
  "yang_buffer_skip b n = b\<lparr>buf_head := buf_head b + n\<rparr>"

section \<open>Reading\<close>

definition yang_read_1bytes :: "yang_buffer \<Rightarrow> (u8 \<times> yang_buffer) option" where
  "yang_read_1bytes b = do {
     v \<leftarrow> mem_load (buf_mem b) (buf_head b);
     Some (v, b\<lparr>buf_head := buf_head b + 1\<rparr>)
   }"

text \<open>
  The multi-byte reads fill the bytes \<open>pp[i]\<close> of the result one by one; \<open>le_word\<close> lists them
  from \<open>pp[0]\<close>. The C results are signed types of the same width; the model returns the
  bits as an unsigned word.
\<close>

definition yang_read_2bytes :: "yang_buffer \<Rightarrow> (u16 \<times> yang_buffer) option" where
  "yang_read_2bytes b = do {
     (p1, b) \<leftarrow> yang_read_1bytes b;
     (p0, b) \<leftarrow> yang_read_1bytes b;
     Some (le_word [p0, p1], b)
   }"

definition yang_readchar_2bytes :: "u8 list \<Rightarrow> int \<Rightarrow> u16 option" where
  "yang_readchar_2bytes m p = do {
     p1 \<leftarrow> mem_load m p;
     p0 \<leftarrow> mem_load m (p + 1);
     Some (le_word [p0, p1])
   }"

text \<open>The C body of \<open>yang_read_le2bytes\<close> is the one of \<open>yang_read_2bytes\<close>, byte for byte.\<close>

definition yang_read_le2bytes :: "yang_buffer \<Rightarrow> (u16 \<times> yang_buffer) option" where
  "yang_read_le2bytes b = do {
     (p1, b) \<leftarrow> yang_read_1bytes b;
     (p0, b) \<leftarrow> yang_read_1bytes b;
     Some (le_word [p0, p1], b)
   }"

definition yang_read_3bytes :: "yang_buffer \<Rightarrow> (u32 \<times> yang_buffer) option" where
  "yang_read_3bytes b = do {
     (p2, b) \<leftarrow> yang_read_1bytes b;
     (p1, b) \<leftarrow> yang_read_1bytes b;
     (p0, b) \<leftarrow> yang_read_1bytes b;
     Some (le_word [p0, p1, p2], b)
   }"

definition yang_read_le3bytes :: "yang_buffer \<Rightarrow> (u32 \<times> yang_buffer) option" where
  "yang_read_le3bytes b = do {
     (p0, b) \<leftarrow> yang_read_1bytes b;
     (p1, b) \<leftarrow> yang_read_1bytes b;
     (p2, b) \<leftarrow> yang_read_1bytes b;
     Some (le_word [p0, p1, p2], b)
   }"

definition yang_read_4bytes :: "yang_buffer \<Rightarrow> (u32 \<times> yang_buffer) option" where
  "yang_read_4bytes b = do {
     (p3, b) \<leftarrow> yang_read_1bytes b;
     (p2, b) \<leftarrow> yang_read_1bytes b;
     (p1, b) \<leftarrow> yang_read_1bytes b;
     (p0, b) \<leftarrow> yang_read_1bytes b;
     Some (le_word [p0, p1, p2, p3], b)
   }"

definition yang_readchar_4bytes :: "u8 list \<Rightarrow> int \<Rightarrow> u32 option" where
  "yang_readchar_4bytes m p = do {
     p3 \<leftarrow> mem_load m p;
     p2 \<leftarrow> mem_load m (p + 1);
     p1 \<leftarrow> mem_load m (p + 2);
     p0 \<leftarrow> mem_load m (p + 3);
     Some (le_word [p0, p1, p2, p3])
   }"

definition yang_read_le4bytes :: "yang_buffer \<Rightarrow> (u32 \<times> yang_buffer) option" where
  "yang_read_le4bytes b = do {
     (p0, b) \<leftarrow> yang_read_1bytes b;
     (p1, b) \<leftarrow> yang_read_1bytes b;
     (p2, b) \<leftarrow> yang_read_1bytes b;
     (p3, b) \<leftarrow> yang_read_1bytes b;
     Some (le_word [p0, p1, p2, p3], b)
   }"

definition yang_read_8bytes :: "yang_buffer \<Rightarrow> (u64 \<times> yang_buffer) option" where
  "yang_read_8bytes b = do {
     (p7, b) \<leftarrow> yang_read_1bytes b;
     (p6, b) \<leftarrow> yang_read_1bytes b;
     (p5, b) \<leftarrow> yang_read_1bytes b;
     (p4, b) \<leftarrow> yang_read_1bytes b;
     (p3, b) \<leftarrow> yang_read_1bytes b;
     (p2, b) \<leftarrow> yang_read_1bytes b;
     (p1, b) \<leftarrow> yang_read_1bytes b;
     (p0, b) \<leftarrow> yang_read_1bytes b;
     Some (le_word [p0, p1, p2, p3, p4, p5, p6, p7], b)
   }"

definition yang_read_le8bytes :: "yang_buffer \<Rightarrow> (u64 \<times> yang_buffer) option" where
  "yang_read_le8bytes b = do {
     (p0, b) \<leftarrow> yang_read_1bytes b;
     (p1, b) \<leftarrow> yang_read_1bytes b;
     (p2, b) \<leftarrow> yang_read_1bytes b;
     (p3, b) \<leftarrow> yang_read_1bytes b;
     (p4, b) \<leftarrow> yang_read_1bytes b;
     (p5, b) \<leftarrow> yang_read_1bytes b;
     (p6, b) \<leftarrow> yang_read_1bytes b;
     (p7, b) \<leftarrow> yang_read_1bytes b;
     Some (le_word [p0, p1, p2, p3, p4, p5, p6, p7], b)
   }"

text \<open>\<open>memcpy\<close> out of the buffer; the result is the copied block.\<close>

definition yang_read_bytes :: "yang_buffer \<Rightarrow> int \<Rightarrow> (u8 list \<times> yang_buffer) option" where
  "yang_read_bytes b n = do {
     bs \<leftarrow> mem_read (buf_mem b) (buf_head b) n;
     Some (bs, b\<lparr>buf_head := buf_head b + n\<rparr>)
   }"

section \<open>Writing\<close>

definition yang_write_1bytes :: "yang_buffer \<Rightarrow> u8 \<Rightarrow> yang_buffer option" where
  "yang_write_1bytes b v = do {
     m \<leftarrow> mem_store (buf_mem b) (buf_head b) v;
     Some (b\<lparr>buf_mem := m, buf_head := buf_head b + 1\<rparr>)
   }"

definition yang_write_2bytes :: "yang_buffer \<Rightarrow> u16 \<Rightarrow> yang_buffer option" where
  "yang_write_2bytes b v = do {
     b \<leftarrow> yang_write_1bytes b (word_byte v 1);
     yang_write_1bytes b (word_byte v 0)
   }"

definition yang_write_le2bytes :: "yang_buffer \<Rightarrow> u16 \<Rightarrow> yang_buffer option" where
  "yang_write_le2bytes b v = do {
     b \<leftarrow> yang_write_1bytes b (word_byte v 0);
     yang_write_1bytes b (word_byte v 1)
   }"

definition yang_write_4bytes :: "yang_buffer \<Rightarrow> u32 \<Rightarrow> yang_buffer option" where
  "yang_write_4bytes b v = do {
     b \<leftarrow> yang_write_1bytes b (word_byte v 3);
     b \<leftarrow> yang_write_1bytes b (word_byte v 2);
     b \<leftarrow> yang_write_1bytes b (word_byte v 1);
     yang_write_1bytes b (word_byte v 0)
   }"

definition yang_write_le4bytes :: "yang_buffer \<Rightarrow> u32 \<Rightarrow> yang_buffer option" where
  "yang_write_le4bytes b v = do {
     b \<leftarrow> yang_write_1bytes b (word_byte v 0);
     b \<leftarrow> yang_write_1bytes b (word_byte v 1);
     b \<leftarrow> yang_write_1bytes b (word_byte v 2);
     yang_write_1bytes b (word_byte v 3)
   }"

definition yang_write_3bytes :: "yang_buffer \<Rightarrow> u32 \<Rightarrow> yang_buffer option" where
  "yang_write_3bytes b v = do {
     b \<leftarrow> yang_write_1bytes b (word_byte v 2);
     b \<leftarrow> yang_write_1bytes b (word_byte v 1);
     yang_write_1bytes b (word_byte v 0)
   }"

definition yang_write_le3bytes :: "yang_buffer \<Rightarrow> u32 \<Rightarrow> yang_buffer option" where
  "yang_write_le3bytes b v = do {
     b \<leftarrow> yang_write_1bytes b (word_byte v 0);
     b \<leftarrow> yang_write_1bytes b (word_byte v 1);
     yang_write_1bytes b (word_byte v 2)
   }"

definition yang_write_8bytes :: "yang_buffer \<Rightarrow> u64 \<Rightarrow> yang_buffer option" where
  "yang_write_8bytes b v = do {
     b \<leftarrow> yang_write_1bytes b (word_byte v 7);
     b \<leftarrow> yang_write_1bytes b (word_byte v 6);
     b \<leftarrow> yang_write_1bytes b (word_byte v 5);
     b \<leftarrow> yang_write_1bytes b (word_byte v 4);
     b \<leftarrow> yang_write_1bytes b (word_byte v 3);
     b \<leftarrow> yang_write_1bytes b (word_byte v 2);
     b \<leftarrow> yang_write_1bytes b (word_byte v 1);
     yang_write_1bytes b (word_byte v 0)
   }"

definition yang_write_le8bytes :: "yang_buffer \<Rightarrow> u64 \<Rightarrow> yang_buffer option" where
  "yang_write_le8bytes b v = do {
     b \<leftarrow> yang_write_1bytes b (word_byte v 0);
     b \<leftarrow> yang_write_1bytes b (word_byte v 1);
     b \<leftarrow> yang_write_1bytes b (word_byte v 2);
     b \<leftarrow> yang_write_1bytes b (word_byte v 3);
     b \<leftarrow> yang_write_1bytes b (word_byte v 4);
     b \<leftarrow> yang_write_1bytes b (word_byte v 5);
     b \<leftarrow> yang_write_1bytes b (word_byte v 6);
     yang_write_1bytes b (word_byte v 7)
   }"

text \<open>
  \<open>yang_write_bytes(buf, data, size)\<close>: the source block is given as the bytes of its
  allocation from \<open>data\<close> on, so a copy of more bytes than it holds faults too.
\<close>

definition yang_write_bytes :: "yang_buffer \<Rightarrow> u8 list \<Rightarrow> int \<Rightarrow> yang_buffer option" where
  "yang_write_bytes b src n = do {
     bs \<leftarrow> mem_read src 0 n;
     m \<leftarrow> mem_write (buf_mem b) (buf_head b) bs;
     Some (b\<lparr>buf_mem := m, buf_head := buf_head b + n\<rparr>)
   }"

text \<open>A C string: the bytes before the first zero byte; no zero byte in the allocation is a fault.\<close>

fun c_strlen :: "u8 list \<Rightarrow> int option" where
  "c_strlen [] = None"
| "c_strlen (c # cs) = (if c = 0 then Some 0 else map_option (\<lambda>n. n + 1) (c_strlen cs))"

definition yang_write_cstring :: "yang_buffer \<Rightarrow> u8 list \<Rightarrow> yang_buffer option" where
  "yang_write_cstring b src = do {
     n \<leftarrow> c_strlen src;
     yang_write_bytes b src n
   }"

section \<open>Specification: bytes ahead, and room for bytes\<close>

text \<open>\<open>room b n\<close>: the next \<open>n\<close> bytes at the head are inside the allocation.\<close>

definition room :: "yang_buffer \<Rightarrow> nat \<Rightarrow> bool" where
  "room b n \<longleftrightarrow> 0 \<le> buf_head b \<and> buf_head b + int n \<le> int (length (buf_mem b))"

definition peek :: "yang_buffer \<Rightarrow> nat \<Rightarrow> u8 list" where
  "peek b n = take n (drop (nat (buf_head b)) (buf_mem b))"

definition adv :: "yang_buffer \<Rightarrow> nat \<Rightarrow> yang_buffer" where
  "adv b n = b\<lparr>buf_head := buf_head b + int n\<rparr>"

definition ahead :: "yang_buffer \<Rightarrow> u8 list \<Rightarrow> bool" where
  "ahead b bs \<longleftrightarrow> room b (length bs) \<and> peek b (length bs) = bs"

definition put :: "yang_buffer \<Rightarrow> u8 list \<Rightarrow> yang_buffer" where
  "put b bs = b\<lparr>buf_mem := take (nat (buf_head b)) (buf_mem b) @ bs
                             @ drop (nat (buf_head b) + length bs) (buf_mem b),
                buf_head := buf_head b + int (length bs)\<rparr>"

definition put_bytes :: "yang_buffer \<Rightarrow> u8 list \<Rightarrow> yang_buffer option" where
  "put_bytes b bs = (if room b (length bs) then Some (put b bs) else None)"

lemma room_mono: "room b n \<Longrightarrow> m \<le> n \<Longrightarrow> room b m"
  by (simp add: room_def)

lemma room_addD: "room b (m + n) \<Longrightarrow> room b m"
  by (simp add: room_def)

lemma room_adv [wire_simps]: "room b n \<Longrightarrow> room (adv b n) m \<longleftrightarrow> room b (n + m)"
  by (auto simp: room_def adv_def)

lemma length_peek [wire_simps]: "room b n \<Longrightarrow> length (peek b n) = n"
  by (auto simp: room_def peek_def)

lemma adv_adv [wire_simps]: "adv (adv b m) n = adv b (m + n)"
  by (simp add: adv_def)

lemma adv_0 [wire_simps]: "adv b 0 = b"
  by (simp add: adv_def)

lemma adv_sel [wire_simps]:
  "buf_mem (adv b n) = buf_mem b" "buf_data (adv b n) = buf_data b"
  "buf_head (adv b n) = buf_head b + int n" "buf_size (adv b n) = buf_size b"
  by (simp_all add: adv_def)

lemma peek_add: "room b m \<Longrightarrow> peek b (m + n) = peek b m @ peek (adv b m) n"
  by (simp add: peek_def adv_def take_add room_def nat_add_distrib add.commute)

lemma ahead_append [wire_simps]:
  "ahead b (xs @ ys) \<longleftrightarrow> ahead b xs \<and> ahead (adv b (length xs)) ys"
proof (cases "room b (length xs)")
  case True
  then have "length (peek b (length xs)) = length xs" by (simp add: wire_simps)
  with True show ?thesis
    by (auto simp: ahead_def peek_add wire_simps append_eq_append_conv)
next
  case False
  then show ?thesis by (auto simp: ahead_def dest: room_addD)
qed

lemma ahead_room: "ahead b bs \<Longrightarrow> room b (length bs)"
  by (simp add: ahead_def)

lemma ahead_peek: "ahead b bs \<Longrightarrow> peek b (length bs) = bs"
  by (simp add: ahead_def)

lemma put_sel [wire_simps]:
  "buf_data (put b bs) = buf_data b" "buf_head (put b bs) = buf_head b + int (length bs)"
  "buf_size (put b bs) = buf_size b"
  by (simp_all add: put_def)

lemma length_put [wire_simps]: "room b (length bs) \<Longrightarrow> length (buf_mem (put b bs)) = length (buf_mem b)"
  by (auto simp: put_def room_def)

lemma room_put [wire_simps]:
  "room b (length bs) \<Longrightarrow> room (put b bs) n \<longleftrightarrow> room b (length bs + n)"
  by (simp add: room_def wire_simps) (auto simp: put_def)

lemma put_put [wire_simps]: "room b (length xs) \<Longrightarrow> put (put b xs) ys = put b (xs @ ys)"
  by (auto simp: put_def room_def nat_add_distrib ac_simps)

lemma put_bytes_append [wire_simps]:
  "put_bytes b xs \<bind> (\<lambda>b. put_bytes b ys) = put_bytes b (xs @ ys)"
  by (auto simp: put_bytes_def wire_simps dest: room_addD)

lemma put_bytes_append_bind [wire_simps]:
  "put_bytes b xs \<bind> (\<lambda>b. put_bytes b ys \<bind> f) = put_bytes b (xs @ ys) \<bind> f"
  by (auto simp: put_bytes_def wire_simps dest: room_addD)

text \<open>What has been put at the head is ahead of a reader that starts where the writer did.\<close>

lemma ahead_put:
  assumes "room b (length bs)"
  shows "ahead (put b bs\<lparr>buf_head := buf_head b\<rparr>) bs"
    and "adv (put b bs\<lparr>buf_head := buf_head b\<rparr>) (length bs) = put b bs"
  using assms by (auto simp: ahead_def put_def room_def peek_def adv_def)

text \<open>
  \<open>moved b b' k\<close>: \<open>b'\<close> is \<open>b\<close> with the head moved by \<open>k\<close> and nothing else changed, which is all
  a parser may do to its buffer.
\<close>

definition moved :: "yang_buffer \<Rightarrow> yang_buffer \<Rightarrow> int \<Rightarrow> bool" where
  "moved b b' k \<longleftrightarrow> b' = b\<lparr>buf_head := buf_head b + k\<rparr>"

lemma moved_refl [simp]: "moved b b 0"
  by (simp add: moved_def)

lemma moved_trans: "moved b b' j \<Longrightarrow> moved b' b'' k \<Longrightarrow> moved b b'' (j + k)"
  by (simp add: moved_def)

lemma moved_adv [simp]: "moved b (adv b n) (int n)"
  by (simp add: moved_def adv_def)

lemma moved_skip [simp]: "moved b (yang_buffer_skip b k) k"
  by (simp add: moved_def yang_buffer_skip_def)

lemma moved_sel:
  "moved b b' k \<Longrightarrow> buf_head b' = buf_head b + k" "moved b b' k \<Longrightarrow> buf_data b' = buf_data b"
  "moved b b' k \<Longrightarrow> buf_size b' = buf_size b" "moved b b' k \<Longrightarrow> buf_mem b' = buf_mem b"
  by (simp_all add: moved_def)

text \<open>\<open>forward b b' k\<close>: the same with a lower bound \<open>k\<close> on the distance, not negative itself.\<close>

definition forward :: "yang_buffer \<Rightarrow> yang_buffer \<Rightarrow> int \<Rightarrow> bool" where
  "forward b b' k \<longleftrightarrow> b' = b\<lparr>buf_head := buf_head b'\<rparr> \<and> 0 \<le> k \<and> buf_head b + k \<le> buf_head b'"

lemma forward_refl [simp]: "forward b b 0"
  by (simp add: forward_def)

lemma forward_skip [simp]: "forward b (yang_buffer_skip b j) k \<longleftrightarrow> 0 \<le> k \<and> k \<le> j"
  by (auto simp: forward_def yang_buffer_skip_def)

lemma forward_weaken: "forward b b' k \<Longrightarrow> 0 \<le> j \<Longrightarrow> j \<le> k \<Longrightarrow> forward b b' j"
  by (auto simp: forward_def)

lemma forward_trans: "forward b b' j \<Longrightarrow> forward b' b'' k \<Longrightarrow> forward b b'' (j + k)"
  by (auto simp: forward_def) (metis yang_buffer.update_convs(3) yang_buffer.fold_congs(3) yang_buffer.surjective)

lemma moved_forward: "moved b b' k \<Longrightarrow> 0 \<le> k \<Longrightarrow> forward b b' k"
  by (simp add: moved_def forward_def)

lemma forward_sel:
  assumes "forward b b' k"
  shows "buf_data b' = buf_data b" "buf_size b' = buf_size b" "buf_mem b' = buf_mem b"
    "buf_head b + k \<le> buf_head b'"
  using assms by (auto simp: forward_def) (metis yang_buffer.select_convs yang_buffer.update_convs(3) yang_buffer.surjective)+

text \<open>The bytes before the end decrease, which ends every parsing loop that moves forward.\<close>

lemma forward_less:
  assumes "forward b b' 1"
  shows "buf_data b' + buf_size b' - buf_head b' < buf_data b + buf_size b - buf_head b"
  using forward_sel [OF assms] by simp

text \<open>Single bytes.\<close>

lemma write_1_put [wire_simps]: "yang_write_1bytes b v = put_bytes b [v]"
  by (auto simp: yang_write_1bytes_def mem_store_def put_bytes_def put_def room_def
        upd_conv_take_nth_drop nat_add_distrib)

text \<open>The byte \<open>i\<close> places after the head.\<close>

definition byte_at :: "yang_buffer \<Rightarrow> nat \<Rightarrow> u8" where
  "byte_at b i = buf_mem b ! nat (buf_head b + int i)"

lemma peek_byte_at: "room b n \<Longrightarrow> peek b n = map (byte_at b) [0..<n]"
  by (rule nth_equalityI) (auto simp: peek_def room_def byte_at_def nat_add_distrib)

lemma byte_at_adv [wire_simps]: "byte_at (adv b m) i = byte_at b (m + i)"
  by (simp add: byte_at_def adv_def add.assoc)

lemma read_1_byte_at [wire_simps]:
  "yang_read_1bytes b = (if room b (Suc 0) then Some (byte_at b 0, adv b (Suc 0)) else None)"
  by (auto simp: yang_read_1bytes_def mem_load_def room_def byte_at_def adv_def)

lemma room_Suc_0: "room b (Suc n) \<Longrightarrow> room b (Suc 0)"
  by (simp add: room_def)

lemma room_later: "\<not> room b m \<Longrightarrow> m \<le> n \<Longrightarrow> \<not> room b n"
  using room_mono by blast

lemma ahead_Cons [wire_simps]:
  "ahead b (x # xs) \<longleftrightarrow> room b (Suc 0) \<and> byte_at b 0 = x \<and> ahead (adv b (Suc 0)) xs"
  using ahead_append [of b "[x]" xs] by (auto simp: ahead_def peek_byte_at)

lemma left_adv [wire_simps]: "yang_buffer_left (adv b n) = yang_buffer_left b - int n"
  by (simp add: yang_buffer_left_def adv_def)

lemma empty_left: "yang_buffer_empty b \<longleftrightarrow> yang_buffer_left b \<le> 0"
  by (auto simp: yang_buffer_left_def yang_buffer_empty_def)

lemma require_left: "yang_buffer_require b n \<longleftrightarrow> 0 \<le> n \<and> n \<le> yang_buffer_left b"
  by (auto simp: yang_buffer_left_def yang_buffer_require_def)

lemma skip_adv [wire_simps]: "0 \<le> n \<Longrightarrow> yang_buffer_skip b n = adv b (nat n)"
  by (simp add: yang_buffer_skip_def adv_def)

lemma load_head [wire_simps]: "room b (Suc 0) \<Longrightarrow> mem_load (buf_mem b) (buf_head b) = Some (byte_at b 0)"
  by (simp add: mem_load_def room_def byte_at_def)

lemma left_put [wire_simps]: "yang_buffer_left (put b bs) = yang_buffer_left b - int (length bs)"
  by (simp add: yang_buffer_left_def wire_simps)

lemma put_bytes_room: "room b (length bs) \<Longrightarrow> put_bytes b bs = Some (put b bs)"
  by (simp add: put_bytes_def)

lemma init_buffer_same:
  "room (yang_init_buffer (buf_mem b) (buf_head b) n) = room b"
  "ahead (yang_init_buffer (buf_mem b) (buf_head b) n) = ahead b"
  "yang_buffer_left (yang_init_buffer (buf_mem b) (buf_head b) n) = n"
  by (simp_all add: yang_init_buffer_def room_def ahead_def peek_def yang_buffer_left_def fun_eq_iff)

text \<open>Reads of a block, and writes of a block that is there to be read.\<close>

lemma read_bytes_peek [wire_simps]:
  "0 \<le> n \<Longrightarrow> room b (nat n) \<Longrightarrow> yang_read_bytes b n = Some (peek b (nat n), adv b (nat n))"
  by (auto simp: yang_read_bytes_def mem_read_def room_def peek_def adv_def)

lemma read_bytes_fault: "n \<noteq> 0 \<Longrightarrow> \<not> (0 \<le> n \<and> room b (nat n)) \<Longrightarrow> yang_read_bytes b n = None"
  by (auto simp: yang_read_bytes_def mem_read_def room_def)

lemma write_bytes_put [wire_simps]:
  assumes "room b (nat n)" "0 \<le> n" "n \<le> int (length src)"
  shows "yang_write_bytes b src n = Some (put b (take (nat n) src))"
  using assms
  by (auto simp: yang_write_bytes_def mem_read_def mem_write_def room_def put_def min_def)

section \<open>The contract of a fixed-width integer on the wire\<close>

text \<open>
  \<open>rd\<close> and \<open>wr\<close> are a read and a write of the C file, \<open>n\<close> the number of bytes, \<open>enc\<close> the
  wire image and \<open>dec\<close> its inverse up to \<open>norm\<close>, which is the identity unless the image is
  narrower than the C type (the 3-byte forms). Packet formats rest on the consequences
  below, never on the byte order itself.
\<close>

locale wire_int =
  fixes rd :: "yang_buffer \<Rightarrow> ('a \<times> yang_buffer) option"
    and wr :: "yang_buffer \<Rightarrow> 'a \<Rightarrow> yang_buffer option"
    and enc :: "'a \<Rightarrow> u8 list"
    and dec :: "u8 list \<Rightarrow> 'a"
    and norm :: "'a \<Rightarrow> 'a"
    and n :: nat
  assumes rd_spec: "rd b = (if room b n then Some (dec (peek b n), adv b n) else None)"
    and wr_spec: "wr b v = put_bytes b (enc v)"
    and dec_enc: "dec (enc v) = norm v"
    and len_enc: "length (enc v) = n"
begin

lemma rd_ahead: "ahead b (enc v) \<Longrightarrow> rd b = Some (norm v, adv b n)"
  using ahead_room [of b "enc v"] ahead_peek [of b "enc v"] by (simp add: rd_spec len_enc dec_enc)

lemma rd_fault_iff: "rd b = None \<longleftrightarrow> \<not> room b n"
  by (simp add: rd_spec)

lemma rd_room: "room b n \<Longrightarrow> rd b = Some (dec (peek b n), adv b n)"
  by (simp add: rd_spec)

lemma wr_room: "room b n \<Longrightarrow> wr b v = Some (put b (enc v))"
  by (simp add: wr_spec put_bytes_def len_enc)

lemma wr_fault_iff: "wr b v = None \<longleftrightarrow> \<not> room b n"
  by (simp add: wr_spec put_bytes_def len_enc)

lemma rd_after_wr:
  assumes "wr b v = Some b'"
  shows "rd (b'\<lparr>buf_head := buf_head b\<rparr>) = Some (norm v, b')"
proof -
  from assms have r: "room b (length (enc v))" and b': "b' = put b (enc v)"
    by (auto simp: wr_spec put_bytes_def split: if_splits)
  from ahead_put [OF r] show ?thesis by (simp add: rd_ahead b' len_enc)
qed

end

section \<open>The interpretations\<close>

definition be16 :: "u16 \<Rightarrow> u8 list" where
  "be16 v = [word_byte v 1, word_byte v 0]"

definition be24 :: "u32 \<Rightarrow> u8 list" where
  "be24 v = [word_byte v 2, word_byte v 1, word_byte v 0]"

definition be32 :: "u32 \<Rightarrow> u8 list" where
  "be32 v = [word_byte v 3, word_byte v 2, word_byte v 1, word_byte v 0]"

definition be64 :: "u64 \<Rightarrow> u8 list" where
  "be64 v = [word_byte v 7, word_byte v 6, word_byte v 5, word_byte v 4,
             word_byte v 3, word_byte v 2, word_byte v 1, word_byte v 0]"

definition be_dec :: "u8 list \<Rightarrow> 'a::len word" where
  "be_dec bs = le_word (rev bs)"

definition le_enc16 :: "u16 \<Rightarrow> u8 list" where "le_enc16 v = rev (be16 v)"
definition le_enc24 :: "u32 \<Rightarrow> u8 list" where "le_enc24 v = rev (be24 v)"
definition le_enc32 :: "u32 \<Rightarrow> u8 list" where "le_enc32 v = rev (be32 v)"
definition le_enc64 :: "u64 \<Rightarrow> u8 list" where "le_enc64 v = rev (be64 v)"

lemmas enc_defs = be16_def be24_def be32_def be64_def le_enc16_def le_enc24_def le_enc32_def le_enc64_def

lemma length_enc [simp]:
  "length (be16 v) = 2" "length (be24 w) = 3" "length (be32 w) = 4" "length (be64 x) = 8"
  "length (le_enc16 v) = 2" "length (le_enc24 w) = 3" "length (le_enc32 w) = 4" "length (le_enc64 x) = 8"
  by (simp_all add: enc_defs)

lemma upt_small:
  "[0..<2] = [0, Suc 0]" "[0..<3] = [0, Suc 0, 2]" "[0..<4] = [0, Suc 0, 2, 3]"
  "[0..<8] = [0, Suc 0, 2, 3, 4, 5, 6, 7]"
  by (simp_all add: upt_rec eval_nat_numeral)

lemmas read_int_rules =
  be_dec_def enc_defs peek_byte_at byte_at_def upt_small yang_read_1bytes_def mem_load_def room_def adv_def

lemmas write_int_rules = enc_defs be_dec_def wire_simps

interpretation w16: wire_int yang_read_2bytes yang_write_2bytes be16 be_dec id 2
proof unfold_locales
  fix b show "yang_read_2bytes b = (if room b 2 then Some (be_dec (peek b 2), adv b 2) else None)"
    by (simp add: yang_read_2bytes_def read_int_rules add.commute [of _ "buf_head b"])
qed (simp_all add: yang_write_2bytes_def write_int_rules)

interpretation w24: wire_int yang_read_3bytes yang_write_3bytes be24 be_dec "take_bit 24" 3
proof unfold_locales
  fix b show "yang_read_3bytes b = (if room b 3 then Some (be_dec (peek b 3), adv b 3) else None)"
    by (simp add: yang_read_3bytes_def read_int_rules add.commute [of _ "buf_head b"])
qed (simp_all add: yang_write_3bytes_def write_int_rules)

interpretation w32: wire_int yang_read_4bytes yang_write_4bytes be32 be_dec id 4
proof unfold_locales
  fix b show "yang_read_4bytes b = (if room b 4 then Some (be_dec (peek b 4), adv b 4) else None)"
    by (simp add: yang_read_4bytes_def read_int_rules add.commute [of _ "buf_head b"])
qed (simp_all add: yang_write_4bytes_def write_int_rules)

interpretation w64: wire_int yang_read_8bytes yang_write_8bytes be64 be_dec id 8
proof unfold_locales
  fix b show "yang_read_8bytes b = (if room b 8 then Some (be_dec (peek b 8), adv b 8) else None)"
    by (simp add: yang_read_8bytes_def read_int_rules add.commute [of _ "buf_head b"])
qed (simp_all add: yang_write_8bytes_def write_int_rules)

interpretation le24: wire_int yang_read_le3bytes yang_write_le3bytes le_enc24 le_word "take_bit 24" 3
proof unfold_locales
  fix b show "yang_read_le3bytes b = (if room b 3 then Some (le_word (peek b 3), adv b 3) else None)"
    by (simp add: yang_read_le3bytes_def read_int_rules add.commute [of _ "buf_head b"])
qed (simp_all add: yang_write_le3bytes_def write_int_rules)

interpretation le32: wire_int yang_read_le4bytes yang_write_le4bytes le_enc32 le_word id 4
proof unfold_locales
  fix b show "yang_read_le4bytes b = (if room b 4 then Some (le_word (peek b 4), adv b 4) else None)"
    by (simp add: yang_read_le4bytes_def read_int_rules add.commute [of _ "buf_head b"])
qed (simp_all add: yang_write_le4bytes_def write_int_rules)

interpretation le64: wire_int yang_read_le8bytes yang_write_le8bytes le_enc64 le_word id 8
proof unfold_locales
  fix b show "yang_read_le8bytes b = (if room b 8 then Some (le_word (peek b 8), adv b 8) else None)"
    by (simp add: yang_read_le8bytes_def read_int_rules add.commute [of _ "buf_head b"])
qed (simp_all add: yang_write_le8bytes_def write_int_rules)

text \<open>How far each read moves the head.\<close>

lemma read_moved:
  "yang_read_1bytes b = Some (v1, b') \<Longrightarrow> moved b b' 1"
  "yang_read_2bytes b = Some (v2, b') \<Longrightarrow> moved b b' 2"
  "yang_read_3bytes b = Some (v3, b') \<Longrightarrow> moved b b' 3"
  "yang_read_4bytes b = Some (v4, b') \<Longrightarrow> moved b b' 4"
  "yang_read_8bytes b = Some (v8, b') \<Longrightarrow> moved b b' 8"
  "yang_read_bytes b n = Some (bs, b') \<Longrightarrow> moved b b' n"
  by (auto simp: w16.rd_spec w24.rd_spec w32.rd_spec w64.rd_spec wire_simps moved_def adv_def
        yang_read_bytes_def split: if_splits Option.bind_splits)

end
