(* ===== verification/Rtp_Header.thy ===== *)
theory Rtp_Header
  imports Buffer
begin

text \<open>
  RTP headers and their one-byte header extensions: \<open>yangrtp/YangRtp.c\<close> and
  \<open>yangrtp/YangRtpHeader.c\<close>, with the types of \<open>YangRtp.h\<close>, \<open>YangRtpHeader.h\<close>.

  A parser returns the return code, the structure it filled and the buffer it left, because
  the C callers go on with both after an error. The wire images and the round trips follow
  the operations.
\<close>

section \<open>Types\<close>

datatype YangRtpExtensionType =
  kRtpExtensionNone | kRtpExtensionTransportSequenceNumber | kRtpExtensionAudioLevel

record rtp_ext_twcc =
  has_twcc :: bool
  tw_id :: u8
  tw_sn :: u16

record rtp_ext_one_byte =
  ob_has_ext :: bool
  ob_id :: u32
  ob_value :: u8

text \<open>The pointer \<open>types\<close> is NULL (\<open>None\<close>) or points to the three ids, one per extension type.\<close>

record rtp_extensions =
  has_ext :: bool
  decode_twcc_extension :: bool
  ext_twcc :: rtp_ext_twcc
  audio_level :: rtp_ext_one_byte
  ext_types :: "u8 list option"

record rtp_header =
  padding_length :: u8
  cc :: u8
  payload_type :: u8
  version :: u8
  sequence :: u16
  timestamp :: u32
  ssrc :: u32
  marker :: bool
  ignore_padding :: bool
  extensions :: "rtp_extensions option"
  csrc :: "u32 list"

text \<open>A zeroed \<open>YangRtpExtensions\<close>, as \<open>calloc\<close> returns it.\<close>

definition zero_extensions :: rtp_extensions where
  "zero_extensions =
     \<lparr>has_ext = False, decode_twcc_extension = False,
      ext_twcc = \<lparr>has_twcc = False, tw_id = 0, tw_sn = 0\<rparr>,
      audio_level = \<lparr>ob_has_ext = False, ob_id = 0, ob_value = 0\<rparr>,
      ext_types = None\<rparr>"

section \<open>Fast parsing (YangRtp.c)\<close>

definition yang_rtp_fast_parse_ssrc :: "u8 list \<Rightarrow> int \<Rightarrow> u32 option" where
  "yang_rtp_fast_parse_ssrc buf sz =
     (if sz < 12 then Some 0
      else do {
        p3 \<leftarrow> mem_load buf 8;
        p2 \<leftarrow> mem_load buf 9;
        p1 \<leftarrow> mem_load buf 10;
        p0 \<leftarrow> mem_load buf 11;
        Some (le_word [p0, p1, p2, p3])
      })"

definition yang_rtp_fast_parse_pt :: "u8 list \<Rightarrow> int \<Rightarrow> u8 option" where
  "yang_rtp_fast_parse_pt buf sz =
     (if sz < 12 then Some 0
      else do { v \<leftarrow> mem_load buf 1; Some (v AND 0x7f) })"

text \<open>\<open>ntohs\<close> of the 16-bit value at a byte offset: the big-endian reading of the two bytes.\<close>

definition load_ntohs :: "u8 list \<Rightarrow> int \<Rightarrow> u16 option" where
  "load_ntohs m p = do {
     hi \<leftarrow> mem_load m p;
     lo \<leftarrow> mem_load m (p + 1);
     Some (le_word [lo, hi])
   }"

text \<open>
  The element loop of \<open>yang_rtp_fast_parse_twcc\<close>. \<open>extension_length\<close> is a \<open>uint16_t\<close>, so
  \<open>extension_length -= len\<close> wraps around. The pointer grows in every round, so the loop ends
  at the end of the allocation at the latest. The result is the return code and \<open>*twcc_sn\<close>.
\<close>

function fast_parse_twcc_loop :: "u8 list \<Rightarrow> u8 \<Rightarrow> int \<Rightarrow> u16 \<Rightarrow> u16 \<Rightarrow> (errcode \<times> u16) option" where
  "fast_parse_twcc_loop m twcc_id p extension_length twcc_sn =
     (if extension_length > 0 then
        case mem_load m p of
          None \<Rightarrow> None
        | Some v \<Rightarrow>
            if v = 0 then fast_parse_twcc_loop m twcc_id (p + 1) (extension_length - 1) twcc_sn
            else let ident = drop_bit 4 (v AND 0xF0); len = (v AND 0x0F) + 1 in
              if ident = twcc_id then
                do { sn \<leftarrow> load_ntohs m (p + 1); Some (Yang_Ok, sn) }
              else fast_parse_twcc_loop m twcc_id (p + 1 + uint len)
                     (extension_length - 1 - ucast len) twcc_sn
      else Some (Yang_Ok, twcc_sn))"
  by pat_completeness auto
termination
proof (relation "measure (\<lambda>(m, t, p, e, s). nat (int (length m) - p))")
  fix m :: "u8 list" and t :: u8 and p :: int and e s :: u16 and v :: u8
  assume load: "mem_load m p = Some v"
  then have p: "p < int (length m)" by (simp add: mem_simps)
  then show "((m, t, p + 1, e - 1, s), m, t, p, e, s)
      \<in> measure (\<lambda>(m, t, p, e, s). nat (int (length m) - p))"
    by simp
  fix ident len :: u8
  show "((m, t, p + 1 + uint len, e - 1 - ucast len, s), m, t, p, e, s)
      \<in> measure (\<lambda>(m, t, p, e, s). nat (int (length m) - p))"
    using p unsigned_greater_eq [of len] by (simp add: order_less_le_trans [OF _ unsigned_greater_eq])
qed simp

declare fast_parse_twcc_loop.simps [simp del]

definition yang_rtp_fast_parse_twcc :: "u8 list \<Rightarrow> int \<Rightarrow> u8 \<Rightarrow> u16 \<Rightarrow> (errcode \<times> u16) option" where
  "yang_rtp_fast_parse_twcc buf sz twcc_id twcc_sn =
     (let need_size = 12 + 4 + 3 in
      if sz < need_size then Some (ERROR_RTC_RTP_MUXER, twcc_sn)
      else do {
        first \<leftarrow> mem_load buf 0;
        let extension = (first AND 0x10 \<noteq> 0);
        let cc = first AND 0x0F;
        if \<not> extension then Some (ERROR_RTC_RTP, twcc_sn)
        else do {
          let need_size = need_size + uint cc * 4;
          if sz < need_size then Some (ERROR_RTC_RTP_MUXER, twcc_sn)
          else do {
            let p = 12 + 4 * uint cc;
            val \<leftarrow> load_ntohs buf p;
            if val \<noteq> 0xBEDE then Some (ERROR_RTC_RTP_MUXER, twcc_sn)
            else do {
              extension_length \<leftarrow> load_ntohs buf (p + 2);
              let extension_length = extension_length * 4;
              let need_size = need_size + uint extension_length;
              if sz < need_size then Some (ERROR_RTC_RTP_MUXER, twcc_sn)
              else fast_parse_twcc_loop buf twcc_id (p + 4) extension_length twcc_sn
            }
          }
        }
      })"

section \<open>Sequence number order (YangMath.h, YangRtp.c)\<close>

text \<open>\<open>(int16_t)(value - prev_value)\<close>\<close>

definition yang_rtp_seq_distance :: "u16 \<Rightarrow> u16 \<Rightarrow> int" where
  "yang_rtp_seq_distance prev_value val = sint (val - prev_value)"

definition yang_seq_is_newer :: "u16 \<Rightarrow> u16 \<Rightarrow> bool" where
  "yang_seq_is_newer val pre_value \<longleftrightarrow> yang_rtp_seq_distance pre_value val > 0"

definition yang_seq_is_rollback :: "u16 \<Rightarrow> u16 \<Rightarrow> bool" where
  "yang_seq_is_rollback val pre_value =
     (if yang_seq_is_newer val pre_value then pre_value > val else False)"

definition yang_seq_distance :: "u16 \<Rightarrow> u16 \<Rightarrow> int" where
  "yang_seq_distance val pre_value = yang_rtp_seq_distance pre_value val"

section \<open>Header extensions (YangRtp.c)\<close>

definition yang_rtpExtensionOneByte_nb :: "rtp_ext_one_byte \<Rightarrow> int" where
  "yang_rtpExtensionOneByte_nb one = 2"

definition yang_rtpExtensionTwcc_nb :: "rtp_ext_twcc \<Rightarrow> int" where
  "yang_rtpExtensionTwcc_nb twcc = 3"

definition yang_encode_rtpExtensionsOneByte ::
    "rtp_ext_one_byte \<Rightarrow> yang_buffer \<Rightarrow> (errcode \<times> yang_buffer) option" where
  "yang_encode_rtpExtensionsOneByte one b =
     (if \<not> yang_buffer_require b 2 then Some (ERROR_RTC_RTP_MUXER, b)
      else do {
        let id_len = ucast (push_bit 4 (ob_id one AND 0x0F) OR 0x00);
        b \<leftarrow> yang_write_1bytes b id_len;
        b \<leftarrow> yang_write_1bytes b (ob_value one);
        Some (Yang_Ok, b)
      })"

definition yang_encode_rtpExtensionsTwcc ::
    "rtp_ext_twcc \<Rightarrow> yang_buffer \<Rightarrow> (errcode \<times> yang_buffer) option" where
  "yang_encode_rtpExtensionsTwcc twcc b =
     (if \<not> yang_buffer_require b 3 then Some (ERROR_RTC_RTP_MUXER, b)
      else do {
        let id_len = push_bit 4 (tw_id twcc AND 0x0F) OR 0x01;
        b \<leftarrow> yang_write_1bytes b id_len;
        b \<leftarrow> yang_write_2bytes b (tw_sn twcc);
        Some (Yang_Ok, b)
      })"

text \<open>\<open>memset(buf->head, 0, n); yang_buffer_skip(buf, n)\<close>\<close>

definition fill_bytes :: "yang_buffer \<Rightarrow> u8 \<Rightarrow> int \<Rightarrow> yang_buffer option" where
  "fill_bytes b v n = do {
     m \<leftarrow> mem_write (buf_mem b) (buf_head b) (replicate (nat n) v);
     Some (yang_buffer_skip (b\<lparr>buf_mem := m\<rparr>) n)
   }"

definition yang_encode_rtpExtensions ::
    "rtp_extensions \<Rightarrow> yang_buffer \<Rightarrow> (errcode \<times> yang_buffer) option" where
  "yang_encode_rtpExtensions ext b = do {
     b \<leftarrow> yang_write_2bytes b 0xBEDE;
     let len = (if has_twcc (ext_twcc ext) then yang_rtpExtensionTwcc_nb (ext_twcc ext) else 0);
     let len = len + (if ob_has_ext (audio_level ext)
                      then yang_rtpExtensionOneByte_nb (audio_level ext) else 0);
     let padding_count = (if len mod 4 = 0 then 0 else 4 - len mod 4);
     let len = len + padding_count;
     if \<not> yang_buffer_require b len then Some (ERROR_RTC_RTP_MUXER, b)
     else do {
       b \<leftarrow> yang_write_2bytes b (word_of_int (len div 4));
       (err, b) \<leftarrow> (if has_twcc (ext_twcc ext) then yang_encode_rtpExtensionsTwcc (ext_twcc ext) b
                    else Some (Yang_Ok, b));
       if err \<noteq> Yang_Ok then Some (err, b)
       else do {
         (err, b) \<leftarrow> (if ob_has_ext (audio_level ext)
                      then yang_encode_rtpExtensionsOneByte (audio_level ext) b
                      else Some (Yang_Ok, b));
         if err \<noteq> Yang_Ok then Some (err, b)
         else if padding_count \<noteq> 0 then do {
           b \<leftarrow> fill_bytes b 0 padding_count;
           Some (Yang_Ok, b)
         }
         else Some (Yang_Ok, b)
       }
     }
   }"

definition yang_get_rtpExtensionType :: "u8 list \<Rightarrow> u8 \<Rightarrow> YangRtpExtensionType option" where
  "yang_get_rtpExtensionType ids ident = do {
     x1 \<leftarrow> mem_load ids 1;
     if x1 = ident then Some kRtpExtensionTransportSequenceNumber
     else do {
       x2 \<leftarrow> mem_load ids 2;
       if x2 = ident then Some kRtpExtensionAudioLevel else Some kRtpExtensionNone
     }
   }"

definition yang_decode_rtpExtensionsTwcc ::
    "rtp_ext_twcc \<Rightarrow> yang_buffer \<Rightarrow> (errcode \<times> rtp_ext_twcc \<times> yang_buffer) option" where
  "yang_decode_rtpExtensionsTwcc twcc b =
     (if \<not> yang_buffer_require b 1 then Some (ERROR_RTC_RTP_MUXER, twcc, b)
      else do {
        (v, b) \<leftarrow> yang_read_1bytes b;
        let twcc = twcc\<lparr>tw_id := drop_bit 4 (v AND 0xF0)\<rparr>;
        let len = v AND 0x0F;
        if tw_id twcc = 0 \<or> len \<noteq> 1 then Some (ERROR_RTC_RTP, twcc, b)
        else if \<not> yang_buffer_require b 2 then Some (ERROR_RTC_RTP_MUXER, twcc, b)
        else do {
          (sn, b) \<leftarrow> yang_read_2bytes b;
          Some (Yang_Ok, twcc\<lparr>tw_sn := sn, has_twcc := True\<rparr>, b)
        }
      })"

definition yang_decode_rtpExtensionsOneByte ::
    "rtp_ext_one_byte \<Rightarrow> yang_buffer \<Rightarrow> (errcode \<times> rtp_ext_one_byte \<times> yang_buffer) option" where
  "yang_decode_rtpExtensionsOneByte one b =
     (if \<not> yang_buffer_require b 2 then Some (ERROR_RTC_RTP_MUXER, one, b)
      else do {
        (v, b) \<leftarrow> yang_read_1bytes b;
        let one = one\<lparr>ob_id := ucast (drop_bit 4 (v AND 0xF0))\<rparr>;
        let len = v AND 0x0F;
        if ob_id one = 0 \<or> len \<noteq> 0 then Some (ERROR_RTC_RTP, one, b)
        else do {
          (x, b) \<leftarrow> yang_read_1bytes b;
          Some (Yang_Ok, one\<lparr>ob_value := x, ob_has_ext := True\<rparr>, b)
        }
      })"

text \<open>
  One round of the loop of \<open>yang_decode_0xbede\<close> on a buffer that is not empty. The first
  component says whether the loop goes on (\<open>None\<close>) or returns the code.
\<close>

definition decode_0xbede_step ::
    "rtp_extensions \<Rightarrow> yang_buffer \<Rightarrow> (errcode option \<times> rtp_extensions \<times> yang_buffer) option" where
  "decode_0xbede_step ext b =
     (if \<not> yang_buffer_require b 1 then Some (Some ERROR_RTC_RTP_MUXER, ext, b)
      else do {
        v \<leftarrow> mem_load (buf_mem b) (buf_head b);
        if v = 0 then Some (None, ext, yang_buffer_skip b 1)
        else do {
          let ident = drop_bit 4 (v AND 0xF0);
          let len = (v AND 0x0F) + 1;
          xtype \<leftarrow> (case ext_types ext of
                      Some ids \<Rightarrow> yang_get_rtpExtensionType ids ident
                    | None \<Rightarrow> Some kRtpExtensionNone);
          case xtype of
            kRtpExtensionTransportSequenceNumber \<Rightarrow>
              if decode_twcc_extension ext then do {
                (err, t, b) \<leftarrow> yang_decode_rtpExtensionsTwcc (ext_twcc ext) b;
                let ext = ext\<lparr>ext_twcc := t\<rparr>;
                if err \<noteq> Yang_Ok then Some (Some err, ext, b)
                else Some (None, ext\<lparr>has_ext := True\<rparr>, b)
              }
              else if \<not> yang_buffer_require b (uint len + 1)
              then Some (Some ERROR_RTC_RTP_MUXER, ext, b)
              else Some (None, ext, yang_buffer_skip b (uint len + 1))
          | kRtpExtensionAudioLevel \<Rightarrow> do {
              (err, a, b) \<leftarrow> yang_decode_rtpExtensionsOneByte (audio_level ext) b;
              let ext = ext\<lparr>audio_level := a\<rparr>;
              if err \<noteq> Yang_Ok then Some (Some err, ext, b)
              else Some (None, ext\<lparr>has_ext := True\<rparr>, b)
            }
          | kRtpExtensionNone \<Rightarrow> Some (None, ext, yang_buffer_skip b (1 + uint len))
        }
      })"

text \<open>Every parser of this file only moves the head forward.\<close>

lemma decode_twcc_forward:
  assumes "yang_decode_rtpExtensionsTwcc t b = Some (err, t', b')"
  shows "forward b b' (if err = Yang_Ok then 3 else 0)"
  using assms
  by (auto simp: yang_decode_rtpExtensionsTwcc_def Let_def forward_def moved_def
        dest!: read_moved split: if_splits Option.bind_splits)

lemma decode_one_byte_forward:
  assumes "yang_decode_rtpExtensionsOneByte t b = Some (err, t', b')"
  shows "forward b b' (if err = Yang_Ok then 2 else 0)"
  using assms
  by (auto simp: yang_decode_rtpExtensionsOneByte_def Let_def forward_def moved_def
        dest!: read_moved split: if_splits Option.bind_splits)

lemma uint_add_pos [simp]: "0 < 1 + uint (w :: 'a::len word)" "0 < uint w + 1" "0 \<le> uint w + 1"
  by (simp_all add: add_nonneg_pos add_pos_nonneg)

lemma decode_0xbede_step_forward:
  assumes "decode_0xbede_step ext b = Some (r, ext', b')"
  shows "forward b b' (if r = None then 1 else 0)"
  using assms
  by (auto simp: decode_0xbede_step_def Let_def
        dest!: decode_twcc_forward decode_one_byte_forward
        intro: forward_skip forward_weaken
        split: if_splits Option.bind_splits option.splits YangRtpExtensionType.splits)

function yang_decode_0xbede ::
    "rtp_extensions \<Rightarrow> yang_buffer \<Rightarrow> (errcode \<times> rtp_extensions \<times> yang_buffer) option" where
  "yang_decode_0xbede ext b =
     (if yang_buffer_empty b then Some (Yang_Ok, ext, b)
      else case decode_0xbede_step ext b of
        None \<Rightarrow> None
      | Some (Some err, ext, b) \<Rightarrow> Some (err, ext, b)
      | Some (None, ext, b) \<Rightarrow> yang_decode_0xbede ext b)"
  by pat_completeness auto
termination
  by (relation "measure (\<lambda>(ext, b). nat (buf_data b + buf_size b - buf_head b))")
    (auto simp: yang_buffer_empty_def dest!: decode_0xbede_step_forward intro: forward_less)

declare yang_decode_0xbede.simps [simp del]

text \<open>
  The sub-buffer \<open>xbuf\<close> shares the allocation of \<open>buf\<close>: its pointer is the head and its size
  the announced length, which is not compared with what is left of \<open>buf\<close>.
\<close>

definition yang_decode_rtpExtensions ::
    "rtp_extensions \<Rightarrow> yang_buffer \<Rightarrow> (errcode \<times> rtp_extensions \<times> yang_buffer) option" where
  "yang_decode_rtpExtensions ext b =
     (if \<not> yang_buffer_require b 4 then Some (ERROR_RTC_RTP_MUXER, ext, b)
      else do {
        (profile_id, b) \<leftarrow> yang_read_2bytes b;
        (extension_length, b) \<leftarrow> yang_read_2bytes b;
        if profile_id = 0xBEDE then do {
          let xbuf = yang_init_buffer (buf_mem b) (buf_head b) (uint extension_length * 4);
          let b = yang_buffer_skip b (uint extension_length * 4);
          (err, ext, xbuf) \<leftarrow> yang_decode_0xbede ext xbuf;
          Some (err, ext, b)
        }
        else if profile_id = 0x1000
        then Some (Yang_Ok, ext, yang_buffer_skip b (uint extension_length * 4))
        else Some (ERROR_RTC_RTP_MUXER, ext, b)
      })"

section \<open>The RTP header (YangRtpHeader.c)\<close>

text \<open>\<open>for (i = 0; i < header->cc; ++i) yang_write_4bytes(buf, header->csrc[i])\<close>\<close>

primrec encode_csrc :: "nat \<Rightarrow> nat \<Rightarrow> u32 list \<Rightarrow> yang_buffer \<Rightarrow> yang_buffer option" where
  "encode_csrc 0 i cs b = Some b"
| "encode_csrc (Suc n) i cs b = do {
     v \<leftarrow> mem_load cs (int i);
     b \<leftarrow> yang_write_4bytes b v;
     encode_csrc n (Suc i) cs b
   }"

primrec decode_csrc :: "nat \<Rightarrow> nat \<Rightarrow> u32 list \<Rightarrow> yang_buffer \<Rightarrow> (u32 list \<times> yang_buffer) option" where
  "decode_csrc 0 i cs b = Some (cs, b)"
| "decode_csrc (Suc n) i cs b = do {
     (v, b) \<leftarrow> yang_read_4bytes b;
     cs \<leftarrow> mem_store cs (int i) v;
     decode_csrc n (Suc i) cs b
   }"

definition yang_encode_rtpHeader :: "yang_buffer \<Rightarrow> rtp_header \<Rightarrow> (errcode \<times> yang_buffer) option" where
  "yang_encode_rtpHeader b header = do {
     let ext_on = (case extensions header of None \<Rightarrow> False | Some e \<Rightarrow> has_ext e);
     let v = 0x80 OR cc header;
     let v = (if padding_length header > 0 then v OR 0x20 else v);
     let v = (if ext_on then v OR 0x10 else v);
     b \<leftarrow> yang_write_1bytes b v;
     let v = payload_type header;
     let v = (if marker header then v OR 0x80 else v);
     b \<leftarrow> yang_write_1bytes b v;
     b \<leftarrow> yang_write_2bytes b (sequence header);
     b \<leftarrow> yang_write_4bytes b (timestamp header);
     b \<leftarrow> yang_write_4bytes b (ssrc header);
     b \<leftarrow> encode_csrc (unat (cc header)) 0 (csrc header) b;
     case extensions header of
       None \<Rightarrow> Some (Yang_Ok, b)
     | Some e \<Rightarrow>
         if has_ext e then yang_encode_rtpExtensions e b else Some (Yang_Ok, b)
   }"

definition parse_extensions ::
    "yang_buffer \<Rightarrow> rtp_extensions \<Rightarrow> (errcode \<times> rtp_extensions \<times> yang_buffer) option" where
  "parse_extensions b ext = do {
     (err, ext, b) \<leftarrow> yang_decode_rtpExtensions ext b;
     Some (err, ext, b)
   }"

definition yang_decode_rtpHeader ::
    "yang_buffer \<Rightarrow> rtp_header \<Rightarrow> (errcode \<times> rtp_header \<times> yang_buffer) option" where
  "yang_decode_rtpHeader b header =
     (if \<not> yang_buffer_require b 12 then Some (ERROR_RTC_RTP_MUXER, header, b)
      else do {
        (first, b) \<leftarrow> yang_read_1bytes b;
        let padding = (first AND 0x20 \<noteq> 0);
        let extension = (first AND 0x10 \<noteq> 0);
        let header = header\<lparr>cc := first AND 0x0F\<rparr>;
        (second, b) \<leftarrow> yang_read_1bytes b;
        let header = header\<lparr>marker := (second AND 0x80 \<noteq> 0), payload_type := second AND 0x7F\<rparr>;
        (x, b) \<leftarrow> yang_read_2bytes b;
        let header = header\<lparr>sequence := x\<rparr>;
        (x, b) \<leftarrow> yang_read_4bytes b;
        let header = header\<lparr>timestamp := x\<rparr>;
        (x, b) \<leftarrow> yang_read_4bytes b;
        let header = header\<lparr>ssrc := x\<rparr>;
        (cs, b) \<leftarrow> decode_csrc (unat (cc header)) 0 (csrc header) b;
        let header = header\<lparr>csrc := cs\<rparr>;
        (err, header, b) \<leftarrow>
          (if extension then do {
             (err, e, b) \<leftarrow> parse_extensions b
               (case extensions header of None \<Rightarrow> zero_extensions | Some e \<Rightarrow> e);
             Some (err, header\<lparr>extensions := Some e\<rparr>, b)
           }
           else Some (Yang_Ok, header, b));
        if err \<noteq> Yang_Ok then Some (err, header, b)
        else if padding \<and> \<not> ignore_padding header \<and> \<not> yang_buffer_empty b then do {
          p \<leftarrow> mem_load (buf_mem b) (buf_data b + buf_size b - 1);
          let header = header\<lparr>padding_length := p\<rparr>;
          if \<not> yang_buffer_require b (uint p) then Some (ERROR_RTC_RTP_MUXER, header, b)
          else Some (Yang_Ok, header, b)
        }
        else Some (Yang_Ok, header, b)
      })"

section \<open>Wire images and round trips\<close>

text \<open>
  The bytes of a header, written down from RFC 3550 and RFC 8285 and independent of the order
  in which the encoder writes them.
\<close>

definition twcc_wire :: "rtp_ext_twcc \<Rightarrow> u8 list" where
  "twcc_wire t = (push_bit 4 (tw_id t AND 0x0F) OR 1) # be16 (tw_sn t)"

definition one_byte_wire :: "rtp_ext_one_byte \<Rightarrow> u8 list" where
  "one_byte_wire a = [push_bit 4 (ucast (ob_id a) AND 0x0F), ob_value a]"

definition ext_body :: "rtp_extensions \<Rightarrow> u8 list" where
  "ext_body e = (if has_twcc (ext_twcc e) then twcc_wire (ext_twcc e) else [])
              @ (if ob_has_ext (audio_level e) then one_byte_wire (audio_level e) else [])"

definition ext_pad :: "rtp_extensions \<Rightarrow> nat" where
  "ext_pad e = (if length (ext_body e) mod 4 = 0 then 0 else 4 - length (ext_body e) mod 4)"

definition ext_wire :: "rtp_extensions \<Rightarrow> u8 list" where
  "ext_wire e = be16 0xBEDE @ be16 (word_of_nat ((length (ext_body e) + ext_pad e) div 4))
              @ ext_body e @ replicate (ext_pad e) 0"

definition ext_on :: "rtp_header \<Rightarrow> bool" where
  "ext_on h = (case extensions h of None \<Rightarrow> False | Some e \<Rightarrow> has_ext e)"

definition rtp_wire :: "rtp_header \<Rightarrow> u8 list" where
  "rtp_wire h =
     [0x80 OR cc h OR (if padding_length h > 0 then 0x20 else 0) OR (if ext_on h then 0x10 else 0),
      payload_type h OR (if marker h then 0x80 else 0)]
     @ be16 (sequence h) @ be32 (timestamp h) @ be32 (ssrc h)
     @ concat (map be32 (take (unat (cc h)) (csrc h)))
     @ (if ext_on h then ext_wire (the (extensions h)) else [])"

text \<open>Padding bytes are skipped one by one.\<close>

lemma decode_0xbede_zeros:
  "ahead b (replicate k 0) \<Longrightarrow> yang_buffer_left b = int k \<Longrightarrow>
   yang_decode_0xbede ext b = Some (Yang_Ok, ext, adv b k)"
proof (induction k arbitrary: b)
  case 0
  then show ?case by (simp add: yang_decode_0xbede.simps empty_left wire_simps)
next
  case (Suc k)
  then have "decode_0xbede_step ext b = Some (None, ext, adv b 1)"
    by (simp add: decode_0xbede_step_def require_left wire_simps)
  with Suc show ?case
    by (simp add: yang_decode_0xbede.simps [of ext b] empty_left wire_simps)
qed


text \<open>The encoder writes the wire image.\<close>

lemma fill_bytes_put: "0 \<le> n \<Longrightarrow> room b (nat n) \<Longrightarrow> fill_bytes b v n = Some (put b (replicate (nat n) v))"
  by (cases "n = 0")
    (auto simp: fill_bytes_def mem_write_def room_def put_def yang_buffer_skip_def)

lemma encode_twcc_put:
  assumes "room b 3" "3 \<le> yang_buffer_left b"
  shows "yang_encode_rtpExtensionsTwcc t b = Some (Yang_Ok, put b (twcc_wire t))"
  using assms
  by (simp add: yang_encode_rtpExtensionsTwcc_def require_left wire_simps w16.wr_spec put_bytes_room twcc_wire_def)

lemma encode_one_byte_put:
  assumes "room b 2" "2 \<le> yang_buffer_left b"
  shows "yang_encode_rtpExtensionsOneByte a b = Some (Yang_Ok, put b (one_byte_wire a))"
proof -
  have "ucast (push_bit 4 (w AND 0x0F)) = (push_bit 4 (ucast w AND 0x0F) :: u8)" for w :: u32
    by (rule bit_word_eqI) (auto simp: bit_simps)
  with assms show ?thesis
    by (simp add: yang_encode_rtpExtensionsOneByte_def require_left wire_simps put_bytes_def one_byte_wire_def
        room_mono numeral_2_eq_2)
qed

lemma length_ext: "length (twcc_wire t) = 3" "length (one_byte_wire a) = 2"
  by (simp_all add: twcc_wire_def one_byte_wire_def)

lemma ext_wires_nonempty: "twcc_wire t \<noteq> []" "one_byte_wire a \<noteq> []"
  by (simp_all add: twcc_wire_def one_byte_wire_def)


lemmas encode_ext_rules =
  yang_encode_rtpExtensions_def Let_def w16.wr_room put_put left_put room_put require_left
  encode_twcc_put encode_one_byte_put fill_bytes_put length_ext
  yang_rtpExtensionTwcc_nb_def yang_rtpExtensionOneByte_nb_def

lemma encode_ext_put:
  assumes "room b (length (ext_wire e))" "int (length (ext_wire e)) \<le> yang_buffer_left b"
  shows "yang_encode_rtpExtensions e b = Some (Yang_Ok, put b (ext_wire e))"
proof -
  let ?n = "length (ext_body e) + ext_pad e"
  have "?n = (if has_twcc (ext_twcc e) then if ob_has_ext (audio_level e) then 8 else 4
              else if ob_has_ext (audio_level e) then 4 else 0)"
    by (simp add: ext_body_def ext_pad_def length_ext ext_wires_nonempty)
  with assms show ?thesis
    using room_mono [OF assms(1)]
    by (cases "has_twcc (ext_twcc e)"; cases "ob_has_ext (audio_level e)")
      (simp_all add: encode_ext_rules ext_wire_def ext_body_def ext_pad_def)
qed

lemma encode_csrc_put:
  "i + n \<le> length cs \<Longrightarrow> room b (4 * n) \<Longrightarrow>
   encode_csrc n i cs b = Some (put b (concat (map be32 (take n (drop i cs)))))"
proof (induction n arbitrary: i b)
  case 0
  then show ?case by (simp add: put_def room_def)
next
  case (Suc n)
  then show ?case
    by (simp add: mem_load_def w32.wr_room room_mono wire_simps flip: Cons_nth_drop_Suc)
qed

lemma length_concat_be32: "length (concat (map be32 ws)) = 4 * length ws"
  by (induction ws) simp_all

lemma encode_rtpHeader_put:
  assumes "unat (cc h) \<le> length (csrc h)" "room b (length (rtp_wire h))"
    and "int (length (rtp_wire h)) \<le> yang_buffer_left b"
  shows "yang_encode_rtpHeader b h = Some (Yang_Ok, put b (rtp_wire h))"
proof -
  let ?cs = "concat (map be32 (take (unat (cc h)) (csrc h)))"
  have len: "length ?cs = 4 * unat (cc h)"
    using assms(1) by (simp add: length_concat_be32)
  have r: "room b (12 + 4 * unat (cc h))"
    using assms(2) by (auto simp: rtp_wire_def len intro: room_mono split: if_splits)
  note rules = yang_encode_rtpHeader_def rtp_wire_def ext_on_def Let_def put_put room_put left_put w16.wr_room
      w32.wr_room encode_csrc_put write_1_put put_bytes_room encode_ext_put
  show ?thesis
  proof (cases "ext_on h")
    case True
    then obtain e where e: "extensions h = Some e" "has_ext e" by (auto simp: ext_on_def split: option.splits)
    then have r2: "room b (12 + 4 * unat (cc h) + length (ext_wire e))"
       "int (12 + 4 * unat (cc h) + length (ext_wire e)) \<le> yang_buffer_left b" 
      using assms(2,3) True by (simp_all add: rtp_wire_def len add.assoc)
    with e assms(1) show ?thesis
      by (simp add: rules len or.assoc room_mono [OF r2(1)])
  next
    case False
    then have "(case extensions h of None \<Rightarrow> Some (Yang_Ok, b') | Some e \<Rightarrow>
         if has_ext e then yang_encode_rtpExtensions e b' else Some (Yang_Ok, b')) = Some (Yang_Ok, b')" for b'
       by (simp add: ext_on_def split: option.splits)
    with False assms(1) show ?thesis
      by (simp add: rules len or.assoc room_mono [OF r])
  qed
qed

section \<open>Decoding an encoded header\<close>

lemma decode_csrc_ahead:
  "i + length ws \<le> length cs \<Longrightarrow> ahead b (concat (map be32 ws)) \<Longrightarrow>
   decode_csrc (length ws) i cs b
     = Some (take i cs @ ws @ drop (i + length ws) cs, adv b (4 * length ws))"
proof (induction ws arbitrary: i cs b)
  case Nil
  then show ?case by (simp add: wire_simps)
next
  case (Cons w ws)
  have "decode_csrc (length ws) (Suc i) (cs[i := w]) (adv b 4)
      = Some (take (Suc i) (cs[i := w]) @ ws @ drop (Suc i + length ws) (cs[i := w]), adv (adv b 4) (4 * length ws))"
    using Cons.prems by (intro Cons.IH) (simp_all add: wire_simps)
  moreover have "take (Suc i) (cs[i := w]) = take i cs @ [w]"
    using Cons.prems by (simp add: take_Suc_conv_app_nth)
  ultimately show ?case
    using Cons.prems
    by (simp add: wire_simps w32.rd_ahead [of b w] mem_store_def)
qed

definition ids_ok :: "u8 list \<Rightarrow> rtp_extensions \<Rightarrow> bool" where
  "ids_ok ids e \<longleftrightarrow> length ids = 3
     \<and> (has_twcc (ext_twcc e) \<longrightarrow> 0 < tw_id (ext_twcc e) \<and> tw_id (ext_twcc e) < 16 \<and> ids ! 1 = tw_id (ext_twcc e))
     \<and> (ob_has_ext (audio_level e) \<longrightarrow> 0 < ob_id (audio_level e) \<and> ob_id (audio_level e) < 16
          \<and> ids ! 2 = ucast (ob_id (audio_level e)) \<and> ids ! 1 \<noteq> ids ! 2)"

lemma decode_twcc_ahead:
  assumes "ahead b (twcc_wire u)" "3 \<le> yang_buffer_left b" "0 < tw_id u" "tw_id u < 16"
  shows "yang_decode_rtpExtensionsTwcc t b
    = Some (Yang_Ok, t\<lparr>tw_id := tw_id u, tw_sn := tw_sn u, has_twcc := True\<rparr>, adv b 3)"
  using assms
  by (simp add: yang_decode_rtpExtensionsTwcc_def require_left twcc_wire_def wire_simps and_0x0F
        w16.rd_ahead [of _ "tw_sn u"] word_gt_0 nibble_shift nibble_low)

lemma decode_one_byte_ahead:
  assumes "ahead b (one_byte_wire u)" "2 \<le> yang_buffer_left b" "0 < ob_id u" "ob_id u < 16"
  shows "yang_decode_rtpExtensionsOneByte t b
    = Some (Yang_Ok, t\<lparr>ob_id := ob_id u, ob_value := ob_value u, ob_has_ext := True\<rparr>, adv b 2)"
  using assms
  by (simp add: yang_decode_rtpExtensionsOneByte_def require_left one_byte_wire_def wire_simps 
         word_gt_0 nibble_shift ucast_ucast_less and_0x0F nibble_low
     flip: numeral_2_eq_2)


lemma extension_type_of:
  "length ids = 3 \<Longrightarrow> yang_get_rtpExtensionType ids i
     = Some (if ids ! 1 = i then kRtpExtensionTransportSequenceNumber
             else if ids ! 2 = i then kRtpExtensionAudioLevel else kRtpExtensionNone)"
  by (simp add: yang_get_rtpExtensionType_def mem_load_def)

lemma step_twcc_ahead:
  assumes "ahead b (twcc_wire u)" "3 \<le> yang_buffer_left b" "0 < tw_id u" "tw_id u < 16"
    and "ext_types e = Some ids" "length ids = 3" "ids ! 1 = tw_id u" "decode_twcc_extension e"
  shows "decode_0xbede_step e b
    = Some (None, e\<lparr>ext_twcc := (ext_twcc e)\<lparr>tw_id := tw_id u, tw_sn := tw_sn u, has_twcc := True\<rparr>,
                     has_ext := True\<rparr>, adv b 3)"
proof -
  have h: "byte_at b 0 = push_bit 4 (tw_id u) OR 1" "room b (Suc 0)"
    using assms(1,4) by (simp_all add: twcc_wire_def wire_simps and_0x0F)
  have n0: "push_bit 4 (tw_id u) OR 1 \<noteq> 0"
    using nibble_low(1) [of "tw_id u"] by auto
  have "drop_bit 4 ((push_bit 4 (tw_id u) OR 1) AND 0xF0) = tw_id u"
    using high_nibble_packed [of "tw_id u" 1] assms(4) by (simp add: and_0x0F)
  with h n0 assms decode_twcc_ahead [OF assms(1-4), of "ext_twcc e"] show ?thesis
    by (simp add: decode_0xbede_step_def require_left wire_simps extension_type_of Let_def)
qed

lemma step_one_byte_ahead:
  assumes "ahead b (one_byte_wire u)" "2 \<le> yang_buffer_left b" "0 < ob_id u" "ob_id u < 16"
    and "ext_types e = Some ids" "length ids = 3" "ids ! 2 = ucast (ob_id u)" "ids ! 1 \<noteq> ids ! 2"
  shows "decode_0xbede_step e b
    = Some (None, e\<lparr>audio_level := (audio_level e)\<lparr>ob_id := ob_id u, ob_value := ob_value u, ob_has_ext := True\<rparr>,
                     has_ext := True\<rparr>, adv b 2)"
proof -
  have h: "byte_at b 0 = push_bit 4 (ucast (ob_id u))" "room b (Suc 0)"
    using assms(1,4) by (simp_all add: one_byte_wire_def wire_simps and_0x0F ucast_ucast_less)
  have "drop_bit 4 (push_bit 4 (ucast (ob_id u) :: u8) AND 0xF0) = ucast (ob_id u)"
    using nibble_shift [of "ucast (ob_id u)"] assms(4) by (simp add: ucast_ucast_less)
  moreover from this assms(3,4) have "push_bit 4 (ucast (ob_id u) :: u8) \<noteq> 0"
    by (auto simp: ucast_ucast_less)
  ultimately show ?thesis
    using h assms decode_one_byte_ahead [OF assms(1-4), of "audio_level e"]
    by (simp add: decode_0xbede_step_def require_left wire_simps extension_type_of Let_def)
qed

definition ext_decoded :: "rtp_extensions \<Rightarrow> rtp_extensions \<Rightarrow> rtp_extensions" where
  "ext_decoded e e0 =
     (let e1 = (if has_twcc (ext_twcc e)
                then e0\<lparr>ext_twcc := (ext_twcc e0)\<lparr>tw_id := tw_id (ext_twcc e), tw_sn := tw_sn (ext_twcc e),
                                              has_twcc := True\<rparr>, has_ext := True\<rparr>
                else e0)
      in if ob_has_ext (audio_level e)
         then e1\<lparr>audio_level := (audio_level e1)\<lparr>ob_id := ob_id (audio_level e),
                     ob_value := ob_value (audio_level e), ob_has_ext := True\<rparr>, has_ext := True\<rparr>
         else e1)"

definition ids_match :: "rtp_extensions \<Rightarrow> rtp_extensions \<Rightarrow> bool" where
  "ids_match e e0 = (case ext_types e0 of None \<Rightarrow> False | Some ids \<Rightarrow> ids_ok ids e \<and> decode_twcc_extension e0)"

lemma decode_0xbede_body:
  assumes "ahead b (ext_body e @ replicate k 0)" "yang_buffer_left b = int (length (ext_body e) + k)"
    and "ids_match e e0"
  shows "yang_decode_0xbede e0 b = Some (Yang_Ok, ext_decoded e e0, adv b (length (ext_body e) + k))"
proof -
  obtain ids where ids: "ext_types e0 = Some ids" "ids_ok ids e" "decode_twcc_extension e0"
    using assms(3) by (auto simp: ids_match_def split: option.splits)
  show ?thesis
  proof (cases "has_twcc (ext_twcc e)"; cases "ob_has_ext (audio_level e)")
    assume c: "has_twcc (ext_twcc e)" "ob_has_ext (audio_level e)"
    with assms ids show ?thesis
      by (clarsimp simp add: yang_decode_0xbede.simps [of _ b] yang_decode_0xbede.simps [of _ "adv b 3"]
         empty_left ext_body_def length_ext wire_simps
           step_twcc_ahead [where u="ext_twcc e" and ids=ids] step_one_byte_ahead [where u="audio_level e" and ids=ids]
          ids_ok_def decode_0xbede_zeros ext_decoded_def)
  next
    assume c: "\<not> has_twcc (ext_twcc e)" "ob_has_ext (audio_level e)"
    with assms ids show ?thesis
      by (clarsimp simp add: yang_decode_0xbede.simps [of _ b]
         empty_left ext_body_def length_ext wire_simps
          step_one_byte_ahead [where u="audio_level e" and ids=ids]
          ids_ok_def decode_0xbede_zeros ext_decoded_def)
  next
    assume c: "has_twcc (ext_twcc e)" "\<not> ob_has_ext (audio_level e)"
    with assms ids show ?thesis
      by (clarsimp simp add: yang_decode_0xbede.simps [of _ b]
         empty_left ext_body_def length_ext wire_simps
          step_twcc_ahead [where u="ext_twcc e" and ids=ids]
          ids_ok_def decode_0xbede_zeros ext_decoded_def)
  next
    assume c: "\<not> has_twcc (ext_twcc e)" "\<not> ob_has_ext (audio_level e)"
    with assms ids show ?thesis
      by (simp add: ext_body_def decode_0xbede_zeros ext_decoded_def)
  qed
qed


lemma ext_body_small: "length (ext_body e) + ext_pad e \<in> {0, 4, 8}"
  by (simp add: ext_body_def ext_pad_def length_ext ext_wires_nonempty)

lemma decode_ext_ahead:
  assumes "ahead b (ext_wire e)" "int (length (ext_wire e)) \<le> yang_buffer_left b" "ids_match e e0"
  shows "yang_decode_rtpExtensions e0 b = Some (Yang_Ok, ext_decoded e e0, adv b (length (ext_wire e)))"
proof -
  let ?n = "length (ext_body e) + ext_pad e"
  have n: "uint (word_of_nat (?n div 4) :: u16) * 4 = int ?n"
    using ext_body_small [of e] by auto
  have a: "ahead b (be16 0xBEDE)" "ahead (adv b 2) (be16 (word_of_nat (?n div 4)))"
    "ahead (adv b 4) (ext_body e @ replicate (ext_pad e) 0)"
    using assms(1) by (simp_all add: ext_wire_def wire_simps)
  let ?x = "yang_init_buffer (buf_mem (adv b 4)) (buf_head (adv b 4)) (int ?n)"
  have "yang_decode_0xbede e0 ?x = Some (Yang_Ok, ext_decoded e e0, adv ?x ?n)"
    by (rule decode_0xbede_body) (use a(3) assms(3) in \<open>simp_all only: init_buffer_same\<close>)
  with assms a n show ?thesis
    by (simp add: yang_decode_rtpExtensions_def require_left ext_wire_def w16.rd_ahead [OF a(1)] w16.rd_ahead [OF a(2)]
        wire_simps)
qed


definition header_decoded :: "rtp_header \<Rightarrow> rtp_header \<Rightarrow> rtp_header" where
  "header_decoded h h0 = h0\<lparr>
     cc := cc h, marker := marker h, payload_type := payload_type h, sequence := sequence h,
     timestamp := timestamp h, ssrc := ssrc h,
     csrc := take (unat (cc h)) (csrc h) @ drop (unat (cc h)) (csrc h0),
     extensions := (if ext_on h
                    then Some (ext_decoded (the (extensions h))
                           (case extensions h0 of None \<Rightarrow> zero_extensions | Some e \<Rightarrow> e))
                    else extensions h0),
     padding_length := (if padding_length h > 0 \<and> \<not> ignore_padding h0 then padding_length h
                        else padding_length h0)\<rparr>"

text \<open>What a header must satisfy to fit the fields of the wire format.\<close>

definition header_fits :: "rtp_header \<Rightarrow> rtp_header \<Rightarrow> bool" where
  "header_fits h h0 \<longleftrightarrow>
     cc h < 16 \<and> unat (cc h) \<le> length (csrc h) \<and> unat (cc h) \<le> length (csrc h0) \<and> payload_type h < 128
     \<and> (ext_on h \<longrightarrow> ids_match (the (extensions h))
           (case extensions h0 of None \<Rightarrow> zero_extensions | Some e \<Rightarrow> e))"

text \<open>The padding announced by the header is there, its length in the last byte.\<close>

definition padding_there :: "yang_buffer \<Rightarrow> rtp_header \<Rightarrow> bool" where
  "padding_there b h \<longleftrightarrow>
     padding_length h > 0 \<longrightarrow>
       mem_load (buf_mem b) (buf_data b + buf_size b - 1) = Some (padding_length h)
       \<and> int (length (rtp_wire h)) + uint (padding_length h) \<le> yang_buffer_left b"

lemma decode_rtpHeader_ahead:
  assumes "ahead b (rtp_wire h)" "int (length (rtp_wire h)) \<le> yang_buffer_left b"
    and "header_fits h h0" "padding_there b h"
  shows "yang_decode_rtpHeader b h0 = Some (Yang_Ok, header_decoded h h0, adv b (length (rtp_wire h)))"
proof -
  let ?cs = "take (unat (cc h)) (csrc h)"
  let ?e0 = "case extensions h0 of None \<Rightarrow> zero_extensions | Some e \<Rightarrow> e"
  from assms(3) have fits: "cc h < 16" "payload_type h < 128" "length ?cs = unat (cc h)"
     "unat (cc h) \<le> length (csrc h0)" "min (length (csrc h)) (unat (cc h)) = unat (cc h)" and ids: "ext_on h \<Longrightarrow> ids_match (the (extensions h)) ?e0"
    by (auto simp: header_fits_def)
  let ?k = "12 + 4 * unat (cc h)"
  have n: "length (rtp_wire h) = ?k + (if ext_on h then length (ext_wire (the (extensions h))) else 0)"
    by (simp add: rtp_wire_def length_concat_be32 fits)
  have a: "room b (Suc 0)" "byte_at b 0 = 0x80 OR cc h OR (if padding_length h > 0 then 0x20 else 0) OR (if ext_on h then 0x10 else 0)"
    "room (adv b 1) (Suc 0)" "byte_at (adv b 1) 0 = payload_type h OR (if marker h then 0x80 else 0)"
    "ahead (adv b 2) (be16 (sequence h))" "ahead (adv b 4) (be32 (timestamp h))" "ahead (adv b 8) (be32 (ssrc h))"
    "ahead (adv b 12) (concat (map be32 ?cs))"
    "ext_on h \<Longrightarrow> ahead (adv b ?k) (ext_wire (the (extensions h)))"
    using assms(1)
    by (simp_all add: rtp_wire_def wire_simps length_concat_be32 fits Suc_numeral
        del: split_paired_All flip: numeral_2_eq_2)
  have cs: "decode_csrc (unat (cc h)) 0 (csrc h0) (adv b 12)
      = Some (?cs @ drop (unat (cc h)) (csrc h0), adv b ?k)"
    using decode_csrc_ahead [of 0 ?cs "csrc h0" "adv b 12"] a(8) fits by (simp add: wire_simps)
  have left: "int ?k \<le> yang_buffer_left b"
    "ext_on h \<Longrightarrow> int (?k + length (ext_wire (the (extensions h)))) \<le> yang_buffer_left b"
    using assms(2) n by (auto split: if_splits)
  have ext: "ext_on h \<Longrightarrow> parse_extensions (adv b ?k) ?e0
      = Some (Yang_Ok, ext_decoded (the (extensions h)) ?e0, adv b (length (rtp_wire h)))"
    using decode_ext_ahead [OF a(9), of ?e0] ids left n by (simp add: parse_extensions_def wire_simps)
  obtain f where f: "yang_read_1bytes b = Some (f, adv b 1)" "f AND 0x0F = cc h"
    "f AND 0x20 \<noteq> 0 \<longleftrightarrow> padding_length h > 0" "f AND 0x10 \<noteq> 0 \<longleftrightarrow> ext_on h"
    using a(1,2) first_byte [OF fits(1)] by (simp add: wire_simps)
  obtain g where g: "yang_read_1bytes (adv b 1) = Some (g, adv b 2)" "g AND 0x7F = payload_type h"
    "g AND 0x80 \<noteq> 0 \<longleftrightarrow> marker h"
    using a(3,4) second_byte [OF fits(2)] by (simp add: wire_simps flip: numeral_2_eq_2)
  have rd: "yang_read_2bytes (adv b 2) = Some (sequence h, adv b 4)"
    "yang_read_4bytes (adv b 4) = Some (timestamp h, adv b 8)"
    "yang_read_4bytes (adv b 8) = Some (ssrc h, adv b 12)"
    using w16.rd_ahead [OF a(5)] w32.rd_ahead [OF a(6)] w32.rd_ahead [OF a(7)] by (simp_all add: wire_simps)
  from left(1) have "12 \<le> yang_buffer_left b" by linarith
  then have req: "yang_buffer_require b 12" by (simp add: require_left)
  let ?h = "header_decoded h h0\<lparr>padding_length := padding_length h0\<rparr>"
  have "yang_decode_rtpHeader b h0 = 
     (let b = adv b (length (rtp_wire h)) in
      if padding_length h > 0 \<and> \<not> ignore_padding h0 \<and> \<not> yang_buffer_empty b then do {
          p \<leftarrow> mem_load (buf_mem b) (buf_data b + buf_size b - 1);
          let header = ?h\<lparr>padding_length := p\<rparr>;
          if \<not> yang_buffer_require b (uint p) then Some (ERROR_RTC_RTP_MUXER, header, b)
          else Some (Yang_Ok, header, b)
        }
        else Some (Yang_Ok, ?h, b))"
    by (cases "ext_on h")
      (simp_all add: yang_decode_rtpHeader_def req f g rd cs ext Let_def header_decoded_def n del: One_nat_def)
  moreover have "0 < padding_length h \<Longrightarrow> 0 < uint (padding_length h)"
    by (simp add: word_less_def)
  ultimately show ?thesis
    using assms(2,4)
    by (cases "0 < padding_length h"; cases "ignore_padding h0")
      (simp_all add: padding_there_def wire_simps Let_def empty_left require_left header_decoded_def)
qed

section \<open>Properties\<close>

text \<open>The encoder of an RTP header writes exactly its wire image (RFC 3550 fixed header, CSRC list,
  RFC 8285 one-byte extensions padded to a multiple of four), for every header whose CSRC list is in
  its array and every buffer with room for the image.\<close>

theorem rtp_header_encode_wire:
  assumes "unat (cc h) \<le> length (csrc h)" "room b (length (rtp_wire h))"
    and "int (length (rtp_wire h)) \<le> yang_buffer_left b"
  shows "yang_encode_rtpHeader b h = Some (Yang_Ok, put b (rtp_wire h))"
  using assms by (rule encode_rtpHeader_put)

definition sample_ext :: rtp_extensions where
  "sample_ext = \<lparr>has_ext = True, decode_twcc_extension = True,
     ext_twcc = \<lparr>has_twcc = True, tw_id = 3, tw_sn = 0xABCD\<rparr>,
     audio_level = \<lparr>ob_has_ext = True, ob_id = 5, ob_value = 77\<rparr>, ext_types = Some [0, 3, 5]\<rparr>"

definition sample_header :: rtp_header where
  "sample_header = \<lparr>padding_length = 0, cc = 2, payload_type = 96, version = 0, sequence = 0x1234,
     timestamp = 0xDEADBEEF, ssrc = 0x01020304, marker = True, ignore_padding = False,
     extensions = Some sample_ext, csrc = [7, 8] @ replicate 13 0\<rparr>"

definition sample_empty :: rtp_header where
  "sample_empty = \<lparr>padding_length = 0, cc = 0, payload_type = 0, version = 0, sequence = 0,
     timestamp = 0, ssrc = 0, marker = False, ignore_padding = False,
     extensions = Some (zero_extensions\<lparr>ext_types := Some [0, 3, 5], decode_twcc_extension := True\<rparr>),
     csrc = replicate 15 0\<rparr>"

definition sample_buffer :: "nat \<Rightarrow> yang_buffer" where
  "sample_buffer n = yang_init_buffer (replicate n 0) 0 (int n)"

lemma sample_wire_length: "length (rtp_wire sample_header) = 32"
  by (simp add: rtp_wire_def sample_header_def sample_ext_def ext_on_def ext_wire_def ext_body_def ext_pad_def
      length_ext ext_wires_nonempty length_concat_be32)

lemma sample_buffer_room: "room (sample_buffer n) n" "yang_buffer_left (sample_buffer n) = int n"
  by (simp_all add: sample_buffer_def yang_init_buffer_def room_def yang_buffer_left_def)

theorem rtp_header_encode_wire_witness:
  "yang_encode_rtpHeader (sample_buffer 32) sample_header
     = Some (Yang_Ok, put (sample_buffer 32) (rtp_wire sample_header))"
  by (rule rtp_header_encode_wire)
    (simp_all add: sample_wire_length sample_buffer_room, simp add: sample_header_def)

text \<open>C28: Decoding an encoded RTP header gives back every field, the CSRC list and the extensions included,
  leaves the buffer exactly behind the header and returns Yang_Ok.\<close>

theorem rtp_header_roundtrip:
  assumes "header_fits h h0" "room b (length (rtp_wire h))"
    and "int (length (rtp_wire h)) \<le> yang_buffer_left b"
    and "padding_there (put b (rtp_wire h)\<lparr>buf_head := buf_head b\<rparr>) h"
  shows "\<exists>b'. yang_encode_rtpHeader b h = Some (Yang_Ok, b')
     \<and> yang_decode_rtpHeader (b'\<lparr>buf_head := buf_head b\<rparr>) h0 = Some (Yang_Ok, header_decoded h h0, b')"
proof -
  let ?b = "put b (rtp_wire h)\<lparr>buf_head := buf_head b\<rparr>"
  have "yang_buffer_left ?b = yang_buffer_left b"
    by (simp add: yang_buffer_left_def wire_simps)
  then have "yang_decode_rtpHeader ?b h0 = Some (Yang_Ok, header_decoded h h0, put b (rtp_wire h))"
    using decode_rtpHeader_ahead [of ?b h h0] ahead_put [OF assms(2)] assms by simp
  with assms show ?thesis
    by (auto simp: encode_rtpHeader_put header_fits_def)
qed

theorem rtp_header_roundtrip_witness:
  "\<exists>b'. yang_encode_rtpHeader (sample_buffer 32) sample_header = Some (Yang_Ok, b')
     \<and> yang_decode_rtpHeader (b'\<lparr>buf_head := buf_head (sample_buffer 32)\<rparr>) sample_empty
         = Some (Yang_Ok, header_decoded sample_header sample_empty, b')"
proof (rule rtp_header_roundtrip)
  show "header_fits sample_header sample_empty"
    by (simp add: header_fits_def sample_header_def sample_empty_def sample_ext_def ext_on_def ids_match_def ids_ok_def)
qed (simp_all add: sample_wire_length sample_buffer_room padding_there_def, simp add: sample_header_def)

lemma decode_csrc_none_iff:
  "i + n \<le> length cs \<Longrightarrow> room b 0 \<Longrightarrow> decode_csrc n i cs b = None \<longleftrightarrow> \<not> room b (4 * n)"
proof (induction n arbitrary: i cs b)
  case (Suc n)
  show ?case
  proof (cases "room b 4")
    case True
    then have "room (adv b 4) 0" by (simp add: wire_simps)
    with Suc True show ?thesis
      by (simp add: w32.rd_spec mem_store_def wire_simps)
  next
    case False
    then show ?thesis by (auto simp: w32.rd_spec intro: room_mono)
  qed
qed simp

lemma decode_csrc_Some:
  "decode_csrc n i cs b = Some (cs', b') \<Longrightarrow> b' = adv b (4 * n)"
proof (induction n arbitrary: i cs b)
  case (Suc n)
  then show ?case
    by (fastforce simp: w32.rd_spec wire_simps split: if_splits Option.bind_splits)
qed (simp add: wire_simps)

lemma low_nibble_less: "unat (x AND 0x0F :: u8) < 16"
proof -
  have "x AND 0x0F = take_bit 4 x" by (simp add: byte_masks take_bit_eq_mask)
  then have "unat (x AND 0x0F) = take_bit 4 (unat x)" by (simp add: unsigned_take_bit_eq)
  then show ?thesis using take_bit_nat_less_exp [of 4 "unat x"] by simp
qed

text \<open>C35: The fixed part of a header is decoded after checking twelve bytes only. Without an extension
  the decoder faults exactly when the CSRC entries announced by the first byte reach beyond the allocation.\<close>

theorem rtp_header_overread:
  assumes "yang_buffer_require b 12" "0 \<le> buf_data b" "buf_data b \<le> buf_head b"
    and "buf_data b + buf_size b \<le> int (length (buf_mem b))"
    and "byte_at b 0 AND 0x10 = 0" "15 \<le> length (csrc h)"
  shows "yang_decode_rtpHeader b h = None
     \<longleftrightarrow> int (length (buf_mem b)) < buf_head b + 12 + 4 * uint (byte_at b 0 AND 0x0F)"
proof -
  let ?n = "unat (byte_at b 0 AND 0x0F)"
  have r: "room b 12" using assms(1-4) by (simp add: room_def yang_buffer_require_def)
  have n: "?n \<le> length (csrc h)"
    using assms(6) low_nibble_less [of "byte_at b 0"] by linarith
  have pad: "mem_load (buf_mem c) (buf_data c + buf_size c - 1) \<noteq> None"
    if "c = adv b k" "\<not> yang_buffer_empty c" for c k
    using that assms(2-4) by (auto simp: mem_simps wire_simps yang_buffer_empty_def)
  have "yang_decode_rtpHeader b h = None \<longleftrightarrow> decode_csrc ?n 0 (csrc h) (adv b 12) = None"
  proof (cases "decode_csrc ?n 0 (csrc h) (adv b 12)")
    case None
    with assms(1,5) room_mono [OF r] show ?thesis
      by (simp add: yang_decode_rtpHeader_def wire_simps w16.rd_spec w32.rd_spec Let_def)
  next
    case (Some r')
    then obtain cs where c: "decode_csrc ?n 0 (csrc h) (adv b 12) = Some (cs, adv b (12 + 4 * ?n))"
      using decode_csrc_Some by (cases r') (fastforce simp: wire_simps)
    with assms(1,5) room_mono [OF r] pad [OF refl, of "12 + 4 * ?n"] show ?thesis
      by (auto simp add: yang_decode_rtpHeader_def wire_simps w16.rd_spec w32.rd_spec Let_def
          split: Option.bind_splits)
  qed
  also have "\<dots> \<longleftrightarrow> \<not> room (adv b 12) (4 * ?n)"
    using r n by (intro decode_csrc_none_iff) (simp_all add: wire_simps)
  finally show ?thesis using r by (auto simp: room_adv) (auto simp: room_def)
qed

theorem rtp_header_overread_witness:
  "yang_decode_rtpHeader (yang_init_buffer (0x8F # replicate 11 0) 0 12) sample_empty = None"
  by (subst rtp_header_overread)
    (simp_all add: yang_init_buffer_def yang_buffer_require_def byte_at_def sample_empty_def)

lemma sint_diff_window:
  assumes "unat (x :: u16) < 2 ^ 15" "unat y < 2 ^ 15"
  shows "sint (x - y) = int (unat x) - int (unat y)"
proof -
  have xy: "uint x < 32768" "uint y < 32768" using assms by (simp_all flip: nat_uint_eq)
  then have d: "- 32768 \<le> uint x - uint y" "uint x - uint y < 32768"
    using uint_ge_0 [of x] uint_ge_0 [of y] by linarith+
  have "x - y = word_of_int (int (unat x) - int (unat y))" by simp
  then have "sint (x - y) = signed_take_bit 15 (int (unat x) - int (unat y))"
    by (simp only: signed_of_int) simp
  also have "\<dots> = int (unat x) - int (unat y)"
    using d by (intro signed_take_bit_int_eq_self) simp_all
  finally show ?thesis .
qed

text \<open>Within any window of half the sequence space the order test on RTP sequence numbers is the
  order of the distances from the start of the window, across the wrap-around.\<close>

theorem seq_newer_window:
  assumes "unat (a - base) < 2 ^ 15" "unat (b - base) < 2 ^ 15"
  shows "yang_seq_is_newer a b \<longleftrightarrow> unat (b - base) < unat (a - base)"
proof -
  from sint_diff_window [OF assms] have "sint (a - b) = int (unat (a - base)) - int (unat (b - base))"
    by simp
  then show ?thesis
    by (simp del: of_nat_unat add: yang_seq_is_newer_def yang_rtp_seq_distance_def)
qed

theorem seq_newer_window_witness: "yang_seq_is_newer 2 0xFFFE"
  by (subst seq_newer_window [of _ 65520]) simp_all

lemma load_ntohs_ahead:
  assumes "ahead (adv b k) (be16 v)" "p = buf_head b + int k"
  shows "load_ntohs (buf_mem b) p = Some v"
proof -
  have "yang_read_2bytes (adv b k) = Some (v, adv b (k + 2))"
    using w16.rd_ahead [OF assms(1)] by (simp add: wire_simps)
  then show ?thesis
    using assms(2) by (auto simp: load_ntohs_def yang_read_2bytes_def yang_read_1bytes_def wire_simps
       split: Option.bind_splits)
qed

text \<open>The fast scan for the transport-wide sequence number agrees with the encoder: on a packet that
  begins with the wire image of a header with that extension it returns Yang_Ok and the number, whatever
  follows the header, when the packet is at least as long as the scan asks for.\<close>

theorem fast_parse_twcc_agrees:
  assumes "ahead b (rtp_wire h)" "buf_head b = 0" "header_fits h h0"
    and "extensions h = Some e" "has_ext e" "has_twcc (ext_twcc e)"
    and "int (length (rtp_wire h)) + 3 \<le> sz"
  shows "yang_rtp_fast_parse_twcc (buf_mem b) sz (tw_id (ext_twcc e)) sn0
    = Some (Yang_Ok, tw_sn (ext_twcc e))"
proof -
  let ?cs = "take (unat (cc h)) (csrc h)"
  let ?n = "length (ext_body e) + ext_pad e"
  let ?t = "ext_twcc e"
  let ?k = "12 + 4 * unat (cc h)"
  have on: "ext_on h" using assms(4,5) by (simp add: ext_on_def)
  from assms(3,4,6) on have fits: "cc h < 16" "length ?cs = unat (cc h)"
    "min (length (csrc h)) (unat (cc h)) = unat (cc h)" and id: "0 < tw_id ?t" "tw_id ?t < 16"
    by (auto simp: header_fits_def ids_match_def ids_ok_def split: option.splits)
  have len: "length (rtp_wire h) = ?k + 4 + ?n"
    using on assms(4) by (simp add: rtp_wire_def length_concat_be32 fits ext_wire_def)
  have a: "room b (Suc 0)"
    "byte_at b 0 = 0x80 OR cc h OR (if padding_length h > 0 then 0x20 else 0) OR (if ext_on h then 0x10 else 0)"
    "ahead (adv b ?k) (be16 0xBEDE)" "ahead (adv b (?k + 2)) (be16 (word_of_nat (?n div 4)))"
    and "ahead (adv b (?k + 4)) (ext_body e)"
    using assms(1,4) on
    by (simp_all add: rtp_wire_def ext_wire_def wire_simps length_concat_be32 fits
        Suc_numeral flip: numeral_2_eq_2)
  then have a': "room (adv b (?k + 4)) (Suc 0)"
    "byte_at (adv b (?k + 4)) 0 = push_bit 4 (tw_id ?t AND 0x0F) OR 1"
    "ahead (adv b (?k + 5)) (be16 (tw_sn ?t))"
    using assms(6) by (simp_all add: ext_body_def twcc_wire_def wire_simps Suc_numeral)
  obtain f where f: "mem_load (buf_mem b) 0 = Some f" "f AND 0x0F = cc h" "f AND 0x10 \<noteq> 0"
  proof (rule that)
    show "mem_load (buf_mem b) 0 = Some (byte_at b 0)" using load_head [OF a(1)] assms(2) by simp
    show "byte_at b 0 AND 0x0F = cc h" unfolding a(2) by (rule first_byte(1) [OF fits(1)])
    show "byte_at b 0 AND 0x10 \<noteq> 0" unfolding a(2) first_byte(3) [OF fits(1)] by (rule on)
  qed
  obtain v where v: "mem_load (buf_mem b) (int ?k + 4) = Some v" "drop_bit 4 (v AND 0xF0) = tw_id ?t" "v \<noteq> 0"
  proof -
    let ?v = "push_bit 4 (tw_id ?t AND 0x0F) OR 1 :: u8"
    have "mem_load (buf_mem b) (int ?k + 4) = Some ?v"
      using a'(2) load_head [OF a'(1)] assms(2) by (simp add: wire_simps)
    moreover have "drop_bit 4 (?v AND 0xF0) = tw_id ?t"
      unfolding high_nibble_packed using id by (simp add: and_0x0F)
    moreover have "?v \<noteq> 0" using nibble_low(1) [of "tw_id ?t AND 0x0F"] by auto
    ultimately show ?thesis by (rule that)
  qed
  have l: "load_ntohs (buf_mem b) (int ?k) = Some 0xBEDE"
    "load_ntohs (buf_mem b) (int ?k + 2) = Some (word_of_nat (?n div 4))"
    "load_ntohs (buf_mem b) (int ?k + 5) = Some (tw_sn ?t)"
    using load_ntohs_ahead [OF a(3)] load_ntohs_ahead [OF a(4)] load_ntohs_ahead [OF a'(3)] assms(2)
    by simp_all
  have n: "?n = 4 \<or> ?n = 8"
    using ext_body_small [of e] assms(6) by (auto simp: ext_body_def length_ext)
  have "fast_parse_twcc_loop (buf_mem b) (tw_id ?t) (int ?k + 4) (word_of_nat (?n div 4) * 4) sn0
    = Some (Yang_Ok, tw_sn ?t)"
    using n v l(3) by (auto simp: fast_parse_twcc_loop.simps)
  moreover have "\<not> sz < 19" "\<not> sz < 19 + uint (cc h) * 4" "\<not> sz < 19 + uint (cc h) * 4 + int ?n"
    unfolding uint_nat using assms(7) len by linarith+
  ultimately show ?thesis
    using f l(1,2) n
    by (auto simp: yang_rtp_fast_parse_twcc_def Let_def)
qed

theorem fast_parse_twcc_agrees_witness:
  "yang_rtp_fast_parse_twcc (rtp_wire sample_header @ [1, 2, 3]) 35 3 0 = Some (Yang_Ok, 0xABCD)"
proof -
  let ?b = "yang_init_buffer (rtp_wire sample_header @ [1, 2, 3]) 0 35"
  have "yang_rtp_fast_parse_twcc (buf_mem ?b) 35 (tw_id (ext_twcc sample_ext)) 0
      = Some (Yang_Ok, tw_sn (ext_twcc sample_ext))"
  proof (rule fast_parse_twcc_agrees [where b = ?b and h = sample_header and h0 = sample_empty])
    show "ahead ?b (rtp_wire sample_header)"
      by (simp add: ahead_def room_def peek_def yang_init_buffer_def)
    show "header_fits sample_header sample_empty"
      by (simp add: header_fits_def sample_header_def sample_empty_def sample_ext_def ext_on_def ids_match_def ids_ok_def)
  qed (simp_all add: yang_init_buffer_def sample_wire_length,
       simp_all add: sample_header_def sample_ext_def)
  then show ?thesis by (simp add: yang_init_buffer_def sample_ext_def)
qed

end
