(* ===== verification/Vector.thy ===== *)
theory Vector
  imports Prelude
begin

text \<open>
  The growing arrays of \<open>include/yangutil/sys/YangVector.h\<close>: the functions that the macro
  \<open>yang_vector_impl\<close> generates for an element type, and the macro \<open>yang_vector_impl2\<close> for
  pointers. The record keeps the allocated array (its length is the capacity) and the number
  of elements in use; \<open>vec_list\<close> is the abstract value. The locale \<open>container\<close> states what the
  clients rely on: an insertion appends, a removal deletes, a clear empties.
\<close>

record 'a yang_vector =
  capacity :: int
  vsize :: int
  payload :: "'a list"

section \<open>Operations\<close>

text \<open>\<open>z\<close> is the element whose bytes are all zero, which is what \<open>calloc\<close> and \<open>memset\<close> leave.\<close>

definition yang_create_Vector :: "'a \<Rightarrow> 'a yang_vector" where
  "yang_create_Vector z = \<lparr>capacity = 5, vsize = 0, payload = replicate 5 z\<rparr>"

definition yang_destroy_Vector :: "'a yang_vector \<Rightarrow> 'a yang_vector" where
  "yang_destroy_Vector vec = vec\<lparr>vsize := 0, capacity := 0, payload := []\<rparr>"

definition yang_clear_Vector :: "'a \<Rightarrow> 'a yang_vector \<Rightarrow> 'a yang_vector option" where
  "yang_clear_Vector z vec = do {
     p \<leftarrow> mem_write (payload vec) 0 (replicate (nat (capacity vec)) z);
     Some (vec\<lparr>payload := p, vsize := 0\<rparr>)
   }"

definition grow_Vector :: "'a \<Rightarrow> 'a yang_vector \<Rightarrow> 'a yang_vector option" where
  "grow_Vector z vec = do {
     src \<leftarrow> mem_read (payload vec) 0 (vsize vec);
     tmp \<leftarrow> mem_write (replicate (nat (capacity vec + 5)) z) 0 src;
     Some (vec\<lparr>payload := tmp, capacity := capacity vec + 5\<rparr>)
   }"

definition yang_insert_Vector :: "'a \<Rightarrow> 'a yang_vector \<Rightarrow> 'a option \<Rightarrow> 'a yang_vector option" where
  "yang_insert_Vector z vec val = do {
     vec \<leftarrow> (if vsize vec \<ge> capacity vec then grow_Vector z vec else Some vec);
     p \<leftarrow> mem_store (payload vec) (vsize vec) (case val of Some v \<Rightarrow> v | None \<Rightarrow> z);
     Some (vec\<lparr>payload := p, vsize := vsize vec + 1\<rparr>)
   }"

definition yang_remove_Vector :: "'a \<Rightarrow> 'a yang_vector \<Rightarrow> int \<Rightarrow> 'a yang_vector option" where
  "yang_remove_Vector z vec index =
     (if vsize vec = 0 \<or> index \<ge> vsize vec then Some vec
      else if vsize vec = 1 then yang_clear_Vector z vec
      else do {
        p \<leftarrow> (if vsize vec \<noteq> index + 1 then do {
                src \<leftarrow> mem_read (payload vec) (index + 1) (vsize vec - index - 1);
                mem_write (payload vec) index src
              }
              else Some (payload vec));
        Some (vec\<lparr>payload := p, vsize := vsize vec - 1\<rparr>)
      })"

text \<open>The pointer vectors of \<open>yang_vector_impl2\<close> ignore a NULL value instead of storing a zero.\<close>

definition yang_insert_Vector2 :: "'a \<Rightarrow> 'a yang_vector \<Rightarrow> 'a option \<Rightarrow> 'a yang_vector option" where
  "yang_insert_Vector2 z vec val = do {
     vec \<leftarrow> (if vsize vec \<ge> capacity vec then grow_Vector z vec else Some vec);
     case val of
       None \<Rightarrow> Some vec
     | Some v \<Rightarrow> do {
         p \<leftarrow> mem_store (payload vec) (vsize vec) v;
         Some (vec\<lparr>payload := p, vsize := vsize vec + 1\<rparr>)
       }
   }"

definition yang_clear_Vector2 :: "'a \<Rightarrow> 'a yang_vector \<Rightarrow> 'a yang_vector option" where
  "yang_clear_Vector2 z vec = do {
     p \<leftarrow> mem_write (payload vec) 0 (replicate (nat (capacity vec)) z);
     Some (vec\<lparr>payload := p, vsize := 0\<rparr>)
   }"

definition yang_remove_Vector2 :: "'a \<Rightarrow> 'a yang_vector \<Rightarrow> int \<Rightarrow> 'a yang_vector option" where
  "yang_remove_Vector2 z vec index =
     (if vsize vec = 0 \<or> index \<ge> vsize vec then Some vec
      else if vsize vec = 1 then yang_clear_Vector2 z vec
      else do {
        p \<leftarrow> (if vsize vec \<noteq> index + 1 then do {
                src \<leftarrow> mem_read (payload vec) (index + 1) (vsize vec - index - 1);
                mem_write (payload vec) index src
              }
              else Some (payload vec));
        Some (vec\<lparr>payload := p, vsize := vsize vec - 1\<rparr>)
      })"

definition yang_create_Vector2 :: "'a \<Rightarrow> 'a yang_vector" where
  "yang_create_Vector2 z = \<lparr>capacity = 5, vsize = 0, payload = replicate 5 z\<rparr>"

section \<open>Abstraction and contract\<close>

definition vec_ok :: "'a yang_vector \<Rightarrow> bool" where
  "vec_ok vec \<longleftrightarrow> 0 \<le> vsize vec \<and> vsize vec \<le> capacity vec \<and> capacity vec = int (length (payload vec))"

definition vec_list :: "'a yang_vector \<Rightarrow> 'a list" where
  "vec_list vec = take (nat (vsize vec)) (payload vec)"

lemma length_vec_list: "vec_ok vec \<Longrightarrow> int (length (vec_list vec)) = vsize vec"
  by (auto simp: vec_ok_def vec_list_def min_def)

lemma create_Vector_ok:
  "vec_ok (yang_create_Vector z)" "vec_list (yang_create_Vector z) = []"
  "vec_ok (yang_create_Vector2 z)" "vec_list (yang_create_Vector2 z) = []"
  by (simp_all add: yang_create_Vector_def yang_create_Vector2_def vec_ok_def vec_list_def)

lemma vec_load:
  "vec_ok vec \<Longrightarrow> 0 \<le> i \<Longrightarrow> i < vsize vec \<Longrightarrow> mem_load (payload vec) i = Some (vec_list vec ! nat i)"
  by (simp add: vec_ok_def vec_list_def mem_load_def)

locale container =
  fixes ok :: "'c \<Rightarrow> bool"
    and elems :: "'c \<Rightarrow> 'a list"
    and empty_c :: "'c"
    and insert_c :: "'c \<Rightarrow> 'a \<Rightarrow> 'c option"
    and remove_c :: "'c \<Rightarrow> int \<Rightarrow> 'c option"
    and clear_c :: "'c \<Rightarrow> 'c option"
  assumes empty_ok: "ok empty_c" and empty_elems: "elems empty_c = []"
    and insert_elems: "ok c \<Longrightarrow> \<exists>c'. insert_c c x = Some c' \<and> ok c' \<and> elems c' = elems c @ [x]"
    and remove_elems: "ok c \<Longrightarrow> 0 \<le> i \<Longrightarrow>
      \<exists>c'. remove_c c i = Some c' \<and> ok c' \<and> elems c' = take (nat i) (elems c) @ drop (Suc (nat i)) (elems c)"
    and clear_elems: "ok c \<Longrightarrow> \<exists>c'. clear_c c = Some c' \<and> ok c' \<and> elems c' = []"
begin

primrec insert_all :: "'c \<Rightarrow> 'a list \<Rightarrow> 'c option" where
  "insert_all c [] = Some c"
| "insert_all c (x # xs) = insert_c c x \<bind> (\<lambda>c. insert_all c xs)"

lemma insert_all_elems:
  "ok c \<Longrightarrow> \<exists>c'. insert_all c xs = Some c' \<and> ok c' \<and> elems c' = elems c @ xs"
proof (induction xs arbitrary: c)
  case (Cons x xs)
  from insert_elems [OF Cons.prems, of x] obtain c1
    where c1: "insert_c c x = Some c1" "ok c1" "elems c1 = elems c @ [x]" by blast
  from Cons.IH [OF c1(2)] c1 show ?case by auto
qed simp

lemma insert_all_empty: "\<exists>c'. insert_all empty_c xs = Some c' \<and> ok c' \<and> elems c' = xs"
  using insert_all_elems [OF empty_ok] empty_elems by simp

end

lemma grow_Vector_ok:
  assumes "vec_ok vec"
  shows "\<exists>vec'. grow_Vector z vec = Some vec' \<and> vec_ok vec' \<and> vec_list vec' = vec_list vec
     \<and> vsize vec' = vsize vec \<and> vsize vec' < capacity vec'"
  using assms
  by (auto simp: grow_Vector_def mem_read_def mem_write_def vec_ok_def vec_list_def min_def nat_add_distrib)

lemma store_at_vsize:
  assumes "vec_ok vec" "vsize vec < capacity vec"
  shows "\<exists>p. mem_store (payload vec) (vsize vec) v = Some p
    \<and> vec_ok (vec\<lparr>payload := p, vsize := vsize vec + 1\<rparr>)
    \<and> vec_list (vec\<lparr>payload := p, vsize := vsize vec + 1\<rparr>) = vec_list vec @ [v]"
  using assms
  by (auto simp: mem_store_def vec_ok_def vec_list_def nat_add_distrib take_Suc_conv_app_nth)

lemma insert_Vector_elems:
  assumes "vec_ok vec"
  shows "\<exists>vec'. yang_insert_Vector z vec (Some v) = Some vec' \<and> vec_ok vec' \<and> vec_list vec' = vec_list vec @ [v]"
proof (cases "vsize vec \<ge> capacity vec")
  case True
  from grow_Vector_ok [OF assms, of z] obtain vec1
    where g: "grow_Vector z vec = Some vec1" "vec_ok vec1" "vec_list vec1 = vec_list vec"
      "vsize vec1 < capacity vec1" by metis
  from store_at_vsize [OF g(2,4), of v] g True show ?thesis
    by (auto simp: yang_insert_Vector_def)
next
  case False
  with store_at_vsize [OF assms, of v] show ?thesis
    by (auto simp: yang_insert_Vector_def)
qed

lemma clear_Vector_elems:
  "vec_ok vec \<Longrightarrow> \<exists>vec'. yang_clear_Vector z vec = Some vec' \<and> vec_ok vec' \<and> vec_list vec' = []"
  by (auto simp: yang_clear_Vector_def mem_write_def vec_ok_def vec_list_def)

lemma remove_Vector_elems:
  assumes "vec_ok vec" "0 \<le> i"
  shows "\<exists>vec'. yang_remove_Vector z vec i = Some vec' \<and> vec_ok vec'
     \<and> vec_list vec' = take (nat i) (vec_list vec) @ drop (Suc (nat i)) (vec_list vec)"
proof -
  consider (out) "vsize vec = 0 \<or> i \<ge> vsize vec" | (one) "vsize vec = 1" "i = 0"
    | (last) "vsize vec > 1" "vsize vec = i + 1" | (mid) "vsize vec > i + 1"
    using assms by (auto simp: vec_ok_def) linarith
  then show ?thesis
  proof cases
    case out
    then show ?thesis
      using assms by (auto simp: yang_remove_Vector_def vec_list_def)
  next
    case one
    with clear_Vector_elems [OF assms(1)] show ?thesis
      by (simp add: yang_remove_Vector_def vec_list_def)
  next
    case last
    with assms show ?thesis
      by (auto simp: yang_remove_Vector_def vec_ok_def vec_list_def nat_add_distrib)
  next
    case mid
    obtain n where n: "i = int n" using assms(2) by (metis nat_0_le)
    define k where "k = nat (vsize vec - i - 2)"
    with mid n have k: "vsize vec = int (Suc (Suc (n + k)))" by simp
    have nats: "nat (1 + (int n + int k)) = Suc (n + k)" "nat (2 + (int n + int k)) = Suc (Suc (n + k))"
      by simp_all
    let ?p = "payload vec"
    have len: "Suc (Suc (n + k)) \<le> length ?p" using assms(1) k by (simp add: vec_ok_def)
    let ?q = "take n ?p @ take (Suc k) (drop (Suc n) ?p) @ drop (n + Suc k) ?p"
    have "mem_read ?p (i + 1) (vsize vec - i - 1) = Some (take (Suc k) (drop (Suc n) ?p))"
      using len by (simp add: mem_read_def n k nat_add_distrib)
    moreover have "mem_write ?p i (take (Suc k) (drop (Suc n) ?p)) = Some ?q"
      using len
      by (auto simp: mem_write_def n min_def intro!: arg_cong [where f = "\<lambda>m. drop m (payload vec)"])
    ultimately have "yang_remove_Vector z vec i = Some (vec\<lparr>payload := ?q, vsize := int (Suc (n + k))\<rparr>)"
      by (simp add: yang_remove_Vector_def n k)
    moreover have "take (Suc (n + k)) ?q = take n ?p @ drop (Suc n) (take (Suc (Suc (n + k))) ?p)"
      using len by (auto simp: drop_take min_def Suc_diff_le)
    ultimately show ?thesis
      using assms(1) len by (auto simp: vec_ok_def vec_list_def n k nats min_def)
  qed
qed

interpretation vec: container vec_ok vec_list "yang_create_Vector z"
  "\<lambda>vec v. yang_insert_Vector z vec (Some v)" "yang_remove_Vector z" "yang_clear_Vector z"
  for z :: 'a
  by unfold_locales
    (simp_all add: create_Vector_ok insert_Vector_elems remove_Vector_elems clear_Vector_elems)

lemma clear_Vector2_same: "yang_clear_Vector2 = yang_clear_Vector"
  by (simp add: fun_eq_iff yang_clear_Vector2_def yang_clear_Vector_def)

lemma remove_Vector2_same: "yang_remove_Vector2 = yang_remove_Vector"
  by (simp add: fun_eq_iff yang_remove_Vector2_def yang_remove_Vector_def clear_Vector2_same)

lemma insert_Vector2_same: "yang_insert_Vector2 z vec (Some v) = yang_insert_Vector z vec (Some v)"
  by (simp add: yang_insert_Vector2_def yang_insert_Vector_def)

interpretation pvec: container vec_ok vec_list "yang_create_Vector2 z"
  "\<lambda>vec v. yang_insert_Vector2 z vec (Some v)" "yang_remove_Vector2 z" "yang_clear_Vector2 z"
  for z :: 'a
  by unfold_locales
    (simp_all add: create_Vector_ok insert_Vector2_same remove_Vector2_same clear_Vector2_same
      insert_Vector_elems remove_Vector_elems clear_Vector_elems)

end
