(* ===== verification/Rtp_Payload.thy ===== *)
theory Rtp_Payload
  imports Rtp_Header Vector
begin

text \<open>
  RTP packets and the payload formats of H.264 and H.265: \<open>yangrtp/YangRtpPacket.c\<close>,
  \<open>YangRtpBuffer.c\<close>, \<open>YangRtpRawPayload.c\<close>, \<open>YangRtpSTAPPayload.c\<close> and \<open>YangRtpFUAPayload2.c\<close>.

  A \<open>char*\<close> in a structure is an allocation and an offset into it. Enumeration values that are
  masked bytes (the NAL unit types) are kept as bytes.
\<close>

section \<open>Samples and aggregation packets (YangRtpSTAPPayload)\<close>

record yang_sample =
  smp_mem :: "u8 list"
  smp_bytes :: int
  smp_nb :: int

definition null_sample :: yang_sample where
  "null_sample = \<lparr>smp_mem = [], smp_bytes = 0, smp_nb = 0\<rparr>"

record rtp_stap_data =
  stap_nri :: int
  stap_nb :: u32
  stap_payload :: "int option"
  stap_nalus :: "yang_sample yang_vector"

definition yang_create_stap :: "rtp_stap_data \<Rightarrow> rtp_stap_data" where
  "yang_create_stap stap = stap\<lparr>stap_nalus := yang_create_Vector null_sample\<rparr>"

definition yang_destroy_stap :: "rtp_stap_data \<Rightarrow> rtp_stap_data" where
  "yang_destroy_stap stap = stap\<lparr>stap_nalus := yang_destroy_Vector (stap_nalus stap)\<rparr>"

definition yang_reset_h2645_stap :: "rtp_stap_data \<Rightarrow> rtp_stap_data option" where
  "yang_reset_h2645_stap data =
     (if vsize (stap_nalus data) = 0 then Some data
      else do {
        v \<leftarrow> yang_clear_Vector null_sample (stap_nalus data);
        Some (data\<lparr>stap_nb := 0, stap_nri := 0, stap_payload := None, stap_nalus := v\<rparr>)
      })"

abbreviation (input) kNalTypeMask :: u8 where "kNalTypeMask \<equiv> 0x1F"
abbreviation (input) YangAvcNaluTypeSPS :: u8 where "YangAvcNaluTypeSPS \<equiv> 7"
abbreviation (input) YangAvcNaluTypePPS :: u8 where "YangAvcNaluTypePPS \<equiv> 8"
abbreviation (input) YANG_NAL_UNIT_VPS :: u8 where "YANG_NAL_UNIT_VPS \<equiv> 32"
abbreviation (input) YANG_NAL_UNIT_SPS :: u8 where "YANG_NAL_UNIT_SPS \<equiv> 33"
abbreviation (input) YANG_NAL_UNIT_PPS :: u8 where "YANG_NAL_UNIT_PPS \<equiv> 34"

definition YANG_HEVC_NALU_TYPE :: "u8 \<Rightarrow> u8" where
  "YANG_HEVC_NALU_TYPE code = drop_bit 1 code AND 0x3F"

text \<open>
  The search loops over the NAL units: \<open>m\<close> rounds left at index \<open>i\<close>. \<open>None\<close> inside the result is
  the NULL pointer; a found element is its index, which is what the returned pointer denotes.
\<close>

primrec find_nalu :: "(u8 \<Rightarrow> bool) \<Rightarrow> yang_sample list \<Rightarrow> nat \<Rightarrow> int \<Rightarrow> int option option" where
  "find_nalu is_type ps 0 i = Some None"
| "find_nalu is_type ps (Suc m) i = do {
     p \<leftarrow> mem_load ps i;
     if smp_nb p = 0 then find_nalu is_type ps m (i + 1)
     else do {
       v \<leftarrow> mem_load (smp_mem p) (smp_bytes p);
       if is_type v then Some (Some i) else find_nalu is_type ps m (i + 1)
     }
   }"

definition yang_get_h264_stap_sps :: "rtp_stap_data \<Rightarrow> int option option" where
  "yang_get_h264_stap_sps data =
     find_nalu (\<lambda>v. v AND kNalTypeMask = YangAvcNaluTypeSPS)
       (payload (stap_nalus data)) (nat (vsize (stap_nalus data))) 0"

definition yang_get_h264_stap_pps :: "rtp_stap_data \<Rightarrow> int option option" where
  "yang_get_h264_stap_pps data =
     find_nalu (\<lambda>v. v AND kNalTypeMask = YangAvcNaluTypePPS)
       (payload (stap_nalus data)) (nat (vsize (stap_nalus data))) 0"

definition yang_get_h265_stap_sps :: "rtp_stap_data \<Rightarrow> int option option" where
  "yang_get_h265_stap_sps data =
     (if vsize (stap_nalus data) = 0 then Some None
      else find_nalu (\<lambda>v. YANG_HEVC_NALU_TYPE v = YANG_NAL_UNIT_SPS)
             (payload (stap_nalus data)) (nat (vsize (stap_nalus data))) 0)"

definition yang_get_h265_stap_pps :: "rtp_stap_data \<Rightarrow> int option option" where
  "yang_get_h265_stap_pps data =
     (if vsize (stap_nalus data) = 0 then Some None
      else find_nalu (\<lambda>v. YANG_HEVC_NALU_TYPE v = YANG_NAL_UNIT_PPS)
             (payload (stap_nalus data)) (nat (vsize (stap_nalus data))) 0)"

definition yang_get_h265_stap_vps :: "rtp_stap_data \<Rightarrow> int option option" where
  "yang_get_h265_stap_vps data =
     (if vsize (stap_nalus data) = 0 then Some None
      else find_nalu (\<lambda>v. YANG_HEVC_NALU_TYPE v = YANG_NAL_UNIT_VPS)
             (payload (stap_nalus data)) (nat (vsize (stap_nalus data))) 0)"

text \<open>
  One round of the loop over the NAL units on a buffer that is not empty. \<open>yang_read_2bytes\<close> returns
  an \<open>int16_t\<close>, so a size of 32768 or more is negative. The first component is \<open>None\<close> when the
  loop goes on.
\<close>

definition stap_step ::
    "yang_sample yang_vector \<Rightarrow> yang_buffer \<Rightarrow>
     (errcode option \<times> yang_sample yang_vector \<times> yang_buffer) option" where
  "stap_step vec b =
     (if \<not> yang_buffer_require b 2 then Some (Some ERROR_RTC_RTP_MUXER, vec, b)
      else do {
        (w, b) \<leftarrow> yang_read_2bytes b;
        let sz = sint w;
        if \<not> yang_buffer_require b sz then Some (Some ERROR_RTC_RTP_MUXER, vec, b)
        else do {
          let sample = \<lparr>smp_mem = buf_mem b, smp_bytes = buf_head b, smp_nb = sz\<rparr>;
          let b = yang_buffer_skip b sz;
          vec \<leftarrow> yang_insert_Vector null_sample vec (Some sample);
          Some (None, vec, b)
        }
      })"

lemma stap_step_forward:
  assumes "stap_step vec b = Some (r, vec', b')"
  shows "forward b b' (if r = None then 1 else 0)"
  using assms
  by (auto simp: stap_step_def Let_def forward_def moved_def yang_buffer_require_def yang_buffer_skip_def
      dest!: read_moved split: if_splits Option.bind_splits)

function stap_loop ::
    "yang_sample yang_vector \<Rightarrow> yang_buffer \<Rightarrow>
     (errcode \<times> yang_sample yang_vector \<times> yang_buffer) option" where
  "stap_loop vec b =
     (if yang_buffer_empty b then Some (Yang_Ok, vec, b)
      else case stap_step vec b of
        None \<Rightarrow> None
      | Some (Some err, vec, b) \<Rightarrow> Some (err, vec, b)
      | Some (None, vec, b) \<Rightarrow> stap_loop vec b)"
  by pat_completeness auto
termination
  by (relation "measure (\<lambda>(vec, b). nat (buf_data b + buf_size b - buf_head b))")
    (auto simp: yang_buffer_empty_def dest!: stap_step_forward intro: forward_less)

declare stap_loop.simps [simp del]

definition yang_decode_h264_stap ::
    "yang_buffer \<Rightarrow> rtp_stap_data \<Rightarrow> (errcode \<times> rtp_stap_data \<times> yang_buffer) option" where
  "yang_decode_h264_stap b data =
     (if \<not> yang_buffer_require b 1 then Some (ERROR_RTC_RTP_MUXER, data, b)
      else do {
        (v, b) \<leftarrow> yang_read_1bytes b;
        let f = v AND 0x80;
        if f = 0x80 then Some (ERROR_RTC_RTP_MUXER, data, b)
        else do {
          let data = data\<lparr>stap_nri := uint (v AND NOT kNalTypeMask)\<rparr>;
          (err, vec, b) \<leftarrow> stap_loop (stap_nalus data) b;
          Some (err, data\<lparr>stap_nalus := vec\<rparr>, b)
        }
      })"

definition yang_decode_h265_stap ::
    "yang_buffer \<Rightarrow> rtp_stap_data \<Rightarrow> (errcode \<times> rtp_stap_data \<times> yang_buffer) option" where
  "yang_decode_h265_stap b data =
     (if \<not> yang_buffer_require b 1 then Some (ERROR_RTC_RTP_MUXER, data, b)
      else do {
        (v, b) \<leftarrow> yang_read_1bytes b;
        (_, b) \<leftarrow> yang_read_1bytes b;
        let data = data\<lparr>stap_nri := uint (YANG_HEVC_NALU_TYPE v)\<rparr>;
        (err, vec, b) \<leftarrow> stap_loop (stap_nalus data) b;
        Some (err, data\<lparr>stap_nalus := vec\<rparr>, b)
      })"

primrec stap_encode_loop ::
    "yang_sample list \<Rightarrow> nat \<Rightarrow> int \<Rightarrow> yang_buffer \<Rightarrow> (errcode \<times> yang_buffer) option" where
  "stap_encode_loop ps 0 i b = Some (Yang_Ok, b)"
| "stap_encode_loop ps (Suc m) i b = do {
     p \<leftarrow> mem_load ps i;
     if \<not> yang_buffer_require b (2 + smp_nb p) then Some (ERROR_RTC_RTP_MUXER, b)
     else do {
       b \<leftarrow> yang_write_2bytes b (word_of_int (smp_nb p));
       src \<leftarrow> mem_read (smp_mem p) (smp_bytes p) (smp_nb p);
       b \<leftarrow> yang_write_bytes b src (smp_nb p);
       stap_encode_loop ps m (i + 1) b
     }
   }"

definition yang_encode_h264_stap :: "yang_buffer \<Rightarrow> rtp_stap_data \<Rightarrow> (errcode \<times> yang_buffer) option" where
  "yang_encode_h264_stap b data =
     (if \<not> yang_buffer_require b 1 then Some (ERROR_RTC_RTP_MUXER, b)
      else do {
        let v = 24 OR (word_of_int (stap_nri data) AND NOT kNalTypeMask);
        b \<leftarrow> yang_write_1bytes b v;
        stap_encode_loop (payload (stap_nalus data)) (nat (vsize (stap_nalus data))) 0 b
      })"

abbreviation (input) kStapA :: u8 where "kStapA \<equiv> 24"
abbreviation (input) H265_kStapA :: u8 where "H265_kStapA \<equiv> 48"

definition yang_encode_h265_stap :: "yang_buffer \<Rightarrow> rtp_stap_data \<Rightarrow> (errcode \<times> yang_buffer) option" where
  "yang_encode_h265_stap b data =
     (if \<not> yang_buffer_require b 1 then Some (ERROR_RTC_RTP_MUXER, b)
      else do {
        let v = push_bit 1 H265_kStapA;
        b \<leftarrow> yang_write_1bytes b v;
        b \<leftarrow> yang_write_1bytes b 0;
        stap_encode_loop (payload (stap_nalus data)) (nat (vsize (stap_nalus data))) 0 b
      })"

section \<open>Raw payloads (YangRtpRawPayload)\<close>

record rtp_raw_data =
  raw_nb :: int
  raw_mem :: "u8 list"
  raw_payload :: int

definition yang_encode_h264_raw :: "yang_buffer \<Rightarrow> rtp_raw_data \<Rightarrow> (errcode \<times> yang_buffer) option" where
  "yang_encode_h264_raw b pkt =
     (if raw_nb pkt \<le> 0 then Some (Yang_Ok, b)
      else if \<not> yang_buffer_require b (raw_nb pkt) then Some (ERROR_RTC_RTP_MUXER, b)
      else do {
        src \<leftarrow> mem_read (raw_mem pkt) (raw_payload pkt) (raw_nb pkt);
        b \<leftarrow> yang_write_bytes b src (raw_nb pkt);
        Some (Yang_Ok, b)
      })"

definition yang_decode_h264_raw :: "yang_buffer \<Rightarrow> rtp_raw_data \<Rightarrow> errcode \<times> rtp_raw_data" where
  "yang_decode_h264_raw b pkt =
     (if yang_buffer_empty b then (Yang_Ok, pkt)
      else (Yang_Ok, pkt\<lparr>raw_mem := buf_mem b, raw_payload := buf_head b, raw_nb := yang_buffer_left b\<rparr>))"

section \<open>Fragmentation units (YangRtpFUAPayload2)\<close>

abbreviation (input) kFuA :: u8 where "kFuA \<equiv> 28"
abbreviation (input) H265_kFuA :: u8 where "H265_kFuA \<equiv> 49"
abbreviation (input) kStart :: u8 where "kStart \<equiv> 0x80"
abbreviation (input) kEnd :: u8 where "kEnd \<equiv> 0x40"

record fua2_cache =
  fc_start :: int
  fc_end :: int
  fc_nri :: u8
  fc_nalu_type :: u8

record fua2_data =
  fu_start :: int
  fu_end :: int
  fu_nri :: u8
  fu_nalu_type :: u8
  fu_nb :: int
  fu_mem :: "u8 list"
  fu_payload :: int

definition yang_decode_h264_fua2 ::
    "yang_buffer \<Rightarrow> fua2_cache \<Rightarrow> (errcode \<times> fua2_cache \<times> yang_buffer) option" where
  "yang_decode_h264_fua2 b pkt =
     (if \<not> yang_buffer_require b 2 then Some (ERROR_RTC_RTP_MUXER, pkt, b)
      else do {
        (v, b) \<leftarrow> yang_read_1bytes b;
        let pkt = pkt\<lparr>fc_nri := v AND NOT kNalTypeMask\<rparr>;
        (v, b) \<leftarrow> yang_read_1bytes b;
        let pkt = pkt\<lparr>fc_start := uint (v AND kStart), fc_end := uint (v AND kEnd),
                      fc_nalu_type := v AND kNalTypeMask\<rparr>;
        if \<not> yang_buffer_require b 1 then Some (ERROR_RTC_RTP_MUXER, pkt, b)
        else Some (Yang_Ok, pkt, b)
      })"

definition yang_encode_h264_fua2 :: "yang_buffer \<Rightarrow> fua2_data \<Rightarrow> (errcode \<times> yang_buffer) option" where
  "yang_encode_h264_fua2 b pkt =
     (if \<not> yang_buffer_require b (2 + fu_nb pkt) then Some (ERROR_RTC_RTP_MUXER, b)
      else do {
        let p = buf_head b;
        let fu_indicate = kFuA OR (fu_nri pkt AND NOT kNalTypeMask);
        m \<leftarrow> mem_store (buf_mem b) p fu_indicate;
        let fu_header = fu_nalu_type pkt;
        let fu_header = (if fu_start pkt \<noteq> 0 then fu_header OR kStart else fu_header);
        let fu_header = (if fu_end pkt \<noteq> 0 then fu_header OR kEnd else fu_header);
        m \<leftarrow> mem_store m (p + 1) fu_header;
        src \<leftarrow> mem_read (fu_mem pkt) (fu_payload pkt) (fu_nb pkt);
        m \<leftarrow> mem_write m (p + 2) src;
        Some (Yang_Ok, yang_buffer_skip (b\<lparr>buf_mem := m\<rparr>) (2 + fu_nb pkt))
      })"

definition yang_decode_h265_fua2 ::
    "yang_buffer \<Rightarrow> fua2_cache \<Rightarrow> (errcode \<times> fua2_cache \<times> yang_buffer) option" where
  "yang_decode_h265_fua2 b pkt =
     (if \<not> yang_buffer_require b 3 then Some (ERROR_RTC_RTP_MUXER, pkt, b)
      else do {
        (v, b) \<leftarrow> yang_read_1bytes b;
        let pkt = pkt\<lparr>fc_nri := drop_bit 1 v AND 0x3F\<rparr>;
        (v, b) \<leftarrow> yang_read_1bytes b;
        (v, b) \<leftarrow> yang_read_1bytes b;
        let pkt = pkt\<lparr>fc_start := uint (v AND kStart), fc_end := uint (v AND kEnd),
                      fc_nalu_type := v AND 0x3F\<rparr>;
        if \<not> yang_buffer_require b 1 then Some (ERROR_RTC_RTP_MUXER, pkt, b)
        else Some (Yang_Ok, pkt, b)
      })"

definition yang_encode_h265_fua2 :: "yang_buffer \<Rightarrow> fua2_data \<Rightarrow> (errcode \<times> yang_buffer) option" where
  "yang_encode_h265_fua2 b pkt =
     (if \<not> yang_buffer_require b (3 + fu_nb pkt) then Some (ERROR_RTC_RTP_MUXER, b)
      else do {
        let p = buf_head b;
        m \<leftarrow> mem_store (buf_mem b) p (push_bit 1 H265_kFuA);
        m \<leftarrow> mem_store m (p + 1) 1;
        let fu_header = fu_nalu_type pkt;
        let fu_header = (if fu_start pkt \<noteq> 0 then fu_header OR kStart else fu_header);
        let fu_header = (if fu_end pkt \<noteq> 0 then fu_header OR kEnd else fu_header);
        m \<leftarrow> mem_store m (p + 2) fu_header;
        src \<leftarrow> mem_read (fu_mem pkt) (fu_payload pkt) (fu_nb pkt);
        m \<leftarrow> mem_write m (p + 3) src;
        Some (Yang_Ok, yang_buffer_skip (b\<lparr>buf_mem := m\<rparr>) (3 + fu_nb pkt))
      })"

section \<open>The ring of packet slots (YangRtpBuffer)\<close>

abbreviation (input) kRtpPacketSize :: int where "kRtpPacketSize \<equiv> 1500"

record rtp_buffer =
  rb_buffer :: "u8 list"
  rb_bufLen :: int
  rb_index :: int

definition yang_create_rtpBuffer :: "int \<Rightarrow> int \<Rightarrow> rtp_buffer" where
  "yang_create_rtpBuffer pbuflen unitsize =
     \<lparr>rb_buffer = replicate (nat (unitsize * pbuflen)) 0, rb_bufLen = pbuflen, rb_index = 0\<rparr>"

definition yang_destroy_rtpBuffer :: "rtp_buffer \<Rightarrow> rtp_buffer" where
  "yang_destroy_rtpBuffer rb = rb\<lparr>rb_buffer := []\<rparr>"

definition yang_get_rtpBuffer :: "rtp_buffer \<Rightarrow> int \<times> rtp_buffer" where
  "yang_get_rtpBuffer rb =
     (let rb = rb\<lparr>rb_index := rb_index rb + 1\<rparr>;
          rb = (if rb_index rb \<ge> rb_bufLen rb then rb\<lparr>rb_index := 0\<rparr> else rb)
      in (kRtpPacketSize * rb_index rb, rb))"

section \<open>RTP packets (YangRtpPacket)\<close>

abbreviation (input) YangRtspPacketPayloadTypeUnknown :: int where "YangRtspPacketPayloadTypeUnknown \<equiv> 5"
abbreviation (input) YangAvcNaluTypeReserved :: int where "YangAvcNaluTypeReserved \<equiv> 0"
abbreviation (input) YangFrameTypeAudio :: int where "YangFrameTypeAudio \<equiv> 8"
abbreviation (input) YangRtspPacketPayloadTypeRaw :: int where "YangRtspPacketPayloadTypeRaw \<equiv> 0"

record rtp_packet =
  pk_actual_buffer_size :: int
  pk_nalu_type :: int
  pk_frame_type :: int
  pk_payload_type :: int
  pk_nb :: int
  pk_cached_payload_size :: int
  pk_payload :: "int option"
  pk_header :: rtp_header

definition zero_header :: rtp_header where
  "zero_header =
     \<lparr>padding_length = 0, cc = 0, payload_type = 0, version = 0, sequence = 0, timestamp = 0, ssrc = 0,
      marker = False, ignore_padding = False, extensions = None, csrc = replicate 15 0\<rparr>"

definition yang_create_rtpPacket :: "rtp_packet \<Rightarrow> rtp_packet" where
  "yang_create_rtpPacket pkt = pkt\<lparr>
     pk_header := zero_header, pk_payload_type := YangRtspPacketPayloadTypeUnknown,
     pk_actual_buffer_size := 0, pk_nalu_type := YangAvcNaluTypeReserved,
     pk_frame_type := YangFrameTypeAudio, pk_cached_payload_size := 0, pk_payload := None, pk_nb := 0\<rparr>"

definition yang_destroy_rtpPacket :: "rtp_packet \<Rightarrow> rtp_packet" where
  "yang_destroy_rtpPacket pkt = pkt\<lparr>pk_header := (pk_header pkt)\<lparr>extensions := None\<rparr>\<rparr>"

definition yang_reset_rtpPacket :: "rtp_packet \<Rightarrow> rtp_packet" where
  "yang_reset_rtpPacket pkt = pkt\<lparr>
     pk_header := zero_header, pk_payload_type := YangRtspPacketPayloadTypeUnknown,
     pk_actual_buffer_size := 0, pk_nalu_type := YangAvcNaluTypeReserved,
     pk_frame_type := YangFrameTypeAudio, pk_cached_payload_size := 0, pk_payload := None, pk_nb := 0\<rparr>"

definition yang_decode_rtpPacket ::
    "rtp_packet \<Rightarrow> yang_buffer \<Rightarrow> (errcode \<times> rtp_packet \<times> yang_buffer) option" where
  "yang_decode_rtpPacket pkt b = do {
     (err, h, b) \<leftarrow> yang_decode_rtpHeader b (pk_header pkt);
     let pkt = pkt\<lparr>pk_header := h\<rparr>;
     if err \<noteq> Yang_Ok then Some (err, pkt, b)
     else do {
       let padding = uint (padding_length h);
       if \<not> yang_buffer_require b padding then Some (err, pkt, b)
       else do {
         let b = b\<lparr>buf_size := buf_size b - padding\<rparr>;
         Some (err, pkt\<lparr>pk_payload := Some (buf_head b), pk_nb := yang_buffer_left b,
                        pk_payload_type := YangRtspPacketPayloadTypeRaw\<rparr>, b)
       }
     }
   }"

definition yang_wrap_rtpPacket ::
    "rtp_packet \<Rightarrow> rtp_buffer \<Rightarrow> u8 list \<Rightarrow> int \<Rightarrow> (int \<times> rtp_packet \<times> rtp_buffer) option" where
  "yang_wrap_rtpPacket pkt rb data nb = do {
     let pkt = pkt\<lparr>pk_actual_buffer_size := nb\<rparr>;
     let (p, rb) = yang_get_rtpBuffer rb;
     src \<leftarrow> mem_read data 0 nb;
     m \<leftarrow> mem_write (rb_buffer rb) p src;
     Some (p, pkt, rb\<lparr>rb_buffer := m\<rparr>)
   }"

definition yang_rtpPacket_set_padding :: "rtp_packet \<Rightarrow> int \<Rightarrow> rtp_packet" where
  "yang_rtpPacket_set_padding pkt n =
     (let pkt = pkt\<lparr>pk_header := (pk_header pkt)\<lparr>padding_length := word_of_int n\<rparr>\<rparr>
      in if pk_cached_payload_size pkt \<noteq> 0
         then pkt\<lparr>pk_cached_payload_size :=
                    pk_cached_payload_size pkt + (n - uint (padding_length (pk_header pkt)))\<rparr>
         else pkt)"

definition yang_rtpPacket_add_padding :: "rtp_packet \<Rightarrow> int \<Rightarrow> rtp_packet" where
  "yang_rtpPacket_add_padding pkt n =
     (let pkt = pkt\<lparr>pk_header := (pk_header pkt)
                     \<lparr>padding_length := word_of_int (uint (padding_length (pk_header pkt)) + n)\<rparr>\<rparr>
      in if pk_cached_payload_size pkt \<noteq> 0
         then pkt\<lparr>pk_cached_payload_size := pk_cached_payload_size pkt + n\<rparr>
         else pkt)"

section \<open>Aggregation packets: wire image and round trip\<close>

definition sample_content :: "yang_sample \<Rightarrow> u8 list option" where
  "sample_content s = mem_read (smp_mem s) (smp_bytes s) (smp_nb s)"

definition nalu_wire :: "u8 list \<Rightarrow> u8 list" where
  "nalu_wire bs = be16 (word_of_nat (length bs)) @ bs"

definition nalus_wire :: "u8 list list \<Rightarrow> u8 list" where
  "nalus_wire nss = concat (map nalu_wire nss)"

text \<open>The samples of a vector denote the NAL units \<open>nss\<close>.\<close>

definition vec_denotes :: "yang_sample yang_vector \<Rightarrow> u8 list list \<Rightarrow> bool" where
  "vec_denotes vec nss \<longleftrightarrow> vec_ok vec \<and> list_all2 (\<lambda>s bs. sample_content s = Some bs \<and> smp_nb s = int (length bs)) (vec_list vec) nss"

lemma length_nalus_wire: "length (nalus_wire (bs # nss)) = 2 + length bs + length (nalus_wire nss)"
  by (simp add: nalus_wire_def nalu_wire_def)

lemma stap_encode_loop_put:
  assumes "list_all2 (\<lambda>s bs. sample_content s = Some bs \<and> smp_nb s = int (length bs)) ss nss"
    and "ps = pre @ ss @ rest" "i = int (length pre)" "room b (length (nalus_wire nss))"
    and "int (length (nalus_wire nss)) \<le> yang_buffer_left b"
  shows "stap_encode_loop ps (length ss) i b = Some (Yang_Ok, put b (nalus_wire nss))"
  using assms
proof (induction ss nss arbitrary: pre i b rule: list_all2_induct)
  case Nil
  then show ?case by (simp add: nalus_wire_def put_def room_def)
next
  case (Cons s ss bs nss)
  let ?b1 = "put b (nalu_wire bs)"
  from Cons.prems(3,4) have r: "room b (length (nalu_wire bs) + length (nalus_wire nss))"
      "int (length (nalu_wire bs) + length (nalus_wire nss)) \<le> yang_buffer_left b"
    by (simp_all add: length_nalus_wire nalu_wire_def)
  from room_addD [OF r(1)] r(1) have r1: "room ?b1 (length (nalus_wire nss))" by (simp add: room_put)
  have "stap_encode_loop ps (length ss) (i + 1) ?b1 = Some (Yang_Ok, put ?b1 (nalus_wire nss))"
    using Cons.prems(1,2) r r1 by (intro Cons.IH [of "pre @ [s]"]) (auto simp: wire_simps)
  moreover have "yang_write_2bytes b (word_of_int (smp_nb s)) = Some (put b (be16 (word_of_nat (length bs))))"
    using Cons.hyps r(1) by (simp add: w16.wr_room room_mono nalu_wire_def)
  moreover have "yang_write_bytes (put b (be16 (word_of_nat (length bs)))) bs (int (length bs)) = Some ?b1"
    using r(1) by (subst write_bytes_put) (auto simp: wire_simps room_mono nalu_wire_def)
  moreover have "mem_load ps i = Some s" using Cons.prems(1,2) by (simp add: mem_load_def)
  moreover have "smp_nb s = int (length bs)" "mem_read (smp_mem s) (smp_bytes s) (int (length bs)) = Some bs"
    using Cons.hyps by (auto simp: sample_content_def)
  moreover have "put ?b1 (nalus_wire nss) = put b (nalus_wire (bs # nss))"
    using room_addD [OF r(1)] by (simp add: put_put nalus_wire_def)
  moreover have "2 + int (length bs) \<le> yang_buffer_left b"
    using r(2) by (simp add: nalu_wire_def)
  ultimately show ?case by (simp add: require_left)
qed


lemma sint_small: "n < 2 ^ 15 \<Longrightarrow> sint (word_of_nat n :: u16) = int n"
  by (simp add: signed_of_nat signed_take_bit_int_eq_self)

lemma stap_loop_ahead:
  assumes "vec_denotes vec nss0" "ahead b (nalus_wire nss)" "yang_buffer_left b = int (length (nalus_wire nss))"
    and "\<forall>bs\<in>set nss. length bs < 2 ^ 15"
  shows "\<exists>vec'. stap_loop vec b = Some (Yang_Ok, vec', adv b (length (nalus_wire nss)))
     \<and> vec_denotes vec' (nss0 @ nss)"
  using assms
proof (induction nss arbitrary: vec nss0 b)
  case Nil
  then show ?case by (simp add: stap_loop.simps empty_left nalus_wire_def wire_simps)
next
  case (Cons bs nss)
  let ?n = "length bs"
  from Cons.prems(2) have a: "ahead b (be16 (word_of_nat ?n))" "ahead (adv b 2) bs"
    "ahead (adv b (2 + ?n)) (nalus_wire nss)"
    by (simp_all add: nalus_wire_def nalu_wire_def wire_simps)
  let ?s = "\<lparr>smp_mem = buf_mem b, smp_bytes = buf_head b + 2, smp_nb = int ?n\<rparr>"
  have content: "sample_content ?s = Some bs"
    using a(2) by (auto simp: sample_content_def mem_read_def ahead_def room_def peek_def adv_def nat_add_distrib)
  from insert_Vector_elems [of vec null_sample ?s] Cons.prems(1) obtain vec1
    where v: "yang_insert_Vector null_sample vec (Some ?s) = Some vec1" "vec_ok vec1" "vec_list vec1 = vec_list vec @ [?s]"
    by (auto simp: vec_denotes_def)
  have d1: "vec_denotes vec1 (nss0 @ [bs])"
    using v Cons.prems(1) content by (simp add: vec_denotes_def list_all2_appendI)
  have left: "2 + int ?n \<le> yang_buffer_left b"
    using Cons.prems(3) by (simp add: length_nalus_wire)
  have "stap_step vec b = Some (None, vec1, adv b (2 + ?n))"
    using left v(1) Cons.prems(4)
    by (simp add: stap_step_def require_left w16.rd_ahead [OF a(1)] sint_small wire_simps)
  moreover have "\<exists>vec'. stap_loop vec1 (adv b (2 + ?n)) = Some (Yang_Ok, vec', adv (adv b (2 + ?n)) (length (nalus_wire nss)))
     \<and> vec_denotes vec' ((nss0 @ [bs]) @ nss)"
    using Cons.prems(3,4) d1 a(3) by (intro Cons.IH) (auto simp: length_nalus_wire wire_simps)
  moreover have "\<not> yang_buffer_empty b" using left by (simp add: empty_left)
  ultimately show ?case
    by (auto simp: stap_loop.simps [of vec b] length_nalus_wire wire_simps add.assoc)
qed

definition h264_stap_wire :: "int \<Rightarrow> u8 list list \<Rightarrow> u8 list" where
  "h264_stap_wire nri nss = (24 OR (word_of_int nri AND NOT kNalTypeMask)) # nalus_wire nss"

lemma encode_h264_stap_put:
  assumes "vec_denotes (stap_nalus data) nss" "room b (Suc (length (nalus_wire nss)))"
    and "int (Suc (length (nalus_wire nss))) \<le> yang_buffer_left b"
  shows "yang_encode_h264_stap b data = Some (Yang_Ok, put b (h264_stap_wire (stap_nri data) nss))"
proof -
  let ?v = "stap_nalus data"
  let ?w = "24 OR (word_of_int (stap_nri data) AND NOT kNalTypeMask) :: u8"
  have v: "payload ?v = [] @ vec_list ?v @ drop (nat (vsize ?v)) (payload ?v)" "length (vec_list ?v) = nat (vsize ?v)"
    using assms(1) length_vec_list [of ?v] by (auto simp: vec_denotes_def vec_list_def)
  have r: "room b (Suc 0)" using assms(2) by (rule room_Suc_0)
  have w: "yang_write_1bytes b ?w = Some (put b [?w])"
    using r by (simp add: write_1_put put_bytes_def)
  have "stap_encode_loop (payload ?v) (length (vec_list ?v)) 0 (put b [?w]) = Some (Yang_Ok, put (put b [?w]) (nalus_wire nss))"
    using assms v(1) r by (intro stap_encode_loop_put [of _ _ _ "[]"]) (auto simp: vec_denotes_def wire_simps)
  then show ?thesis
    using assms(3) w r by (simp add: yang_encode_h264_stap_def require_left v(2) h264_stap_wire_def put_put)
qed

lemma stap_byte:
  "(24 OR (w AND NOT kNalTypeMask) :: u8) AND NOT kNalTypeMask = w AND NOT kNalTypeMask"
  "(24 OR (w AND NOT kNalTypeMask) :: u8) AND 0x80 = w AND 0x80"
  by (simp_all add: bit.conj_disj_distrib2 and.assoc)

lemma decode_h264_stap_ahead:
  assumes "vec_denotes (stap_nalus data) nss0" "ahead b (h264_stap_wire nri nss)"
    and "yang_buffer_left b = int (length (h264_stap_wire nri nss))"
    and "\<forall>bs\<in>set nss. length bs < 2 ^ 15" "(word_of_int nri :: u8) AND 0x80 = 0"
  shows "\<exists>data'. yang_decode_h264_stap b data = Some (Yang_Ok, data', adv b (length (h264_stap_wire nri nss)))
     \<and> vec_denotes (stap_nalus data') (nss0 @ nss)
     \<and> stap_nri data' = uint (word_of_int nri AND NOT kNalTypeMask :: u8)"
proof -
  let ?w = "24 OR (word_of_int nri AND NOT kNalTypeMask) :: u8"
  have a: "room b (Suc 0)" "byte_at b 0 = ?w" "ahead (adv b 1) (nalus_wire nss)"
    using assms(2) by (simp_all add: h264_stap_wire_def wire_simps)
  have left: "yang_buffer_left (adv b 1) = int (length (nalus_wire nss))"
    using assms(3) by (simp add: wire_simps h264_stap_wire_def)
  from stap_loop_ahead [OF assms(1) a(3) left assms(4)] obtain vec'
    where "stap_loop (stap_nalus data) (adv b 1) = Some (Yang_Ok, vec', adv (adv b 1) (length (nalus_wire nss)))"
      "vec_denotes vec' (nss0 @ nss)"
    by blast
  moreover have "yang_read_1bytes b = Some (?w, adv b 1)" using a by (simp add: wire_simps)
  ultimately show ?thesis
    using assms(3,5) stap_byte [of "word_of_int nri"]
    by (simp add: yang_decode_h264_stap_def require_left wire_simps h264_stap_wire_def)
qed

section \<open>Properties\<close>

text \<open>C29: A STAP-A packet built from a vector of NAL units decodes to the same NAL units in the same order, with the
  same importance bits and Yang_Ok, when every unit is shorter than 32768 bytes and the packet fills the buffer.\<close>

theorem h264_stap_roundtrip:
  assumes "vec_denotes (stap_nalus data) nss" "\<forall>bs\<in>set nss. length bs < 2 ^ 15"
    and "(word_of_int (stap_nri data) :: u8) AND 0x80 = 0" "vec_denotes (stap_nalus data0) []"
    and "room b (length (h264_stap_wire (stap_nri data) nss))"
    and "yang_buffer_left b = int (length (h264_stap_wire (stap_nri data) nss))"
  shows "\<exists>b' data'. yang_encode_h264_stap b data = Some (Yang_Ok, b')
     \<and> yang_decode_h264_stap (b'\<lparr>buf_head := buf_head b\<rparr>) data0 = Some (Yang_Ok, data', b')
     \<and> vec_denotes (stap_nalus data') nss
     \<and> stap_nri data' = uint (word_of_int (stap_nri data) AND NOT kNalTypeMask :: u8)"
proof -
  let ?w = "h264_stap_wire (stap_nri data) nss"
  let ?b = "put b ?w\<lparr>buf_head := buf_head b\<rparr>"
  have enc: "yang_encode_h264_stap b data = Some (Yang_Ok, put b ?w)"
    using assms(1,5,6) by (intro encode_h264_stap_put) (simp_all add: h264_stap_wire_def)
  have left: "yang_buffer_left ?b = int (length ?w)"
    using assms(6) by (simp add: yang_buffer_left_def wire_simps)
  from decode_h264_stap_ahead [OF assms(4) ahead_put(1) [OF assms(5)] left assms(2,3)]
  show ?thesis unfolding ahead_put(2) [OF assms(5)] using enc by auto
qed

definition sample_stap :: rtp_stap_data where
  "sample_stap = \<lparr>stap_nri = 0x60, stap_nb = 0, stap_payload = None,
     stap_nalus = \<lparr>capacity = 5, vsize = 2,
       payload = [\<lparr>smp_mem = [9, 0x67, 1, 2], smp_bytes = 1, smp_nb = 3\<rparr>,
                  \<lparr>smp_mem = [0x68, 7], smp_bytes = 0, smp_nb = 2\<rparr>] @ replicate 3 null_sample\<rparr>\<rparr>"

theorem h264_stap_roundtrip_witness:
  "\<exists>b' data'. yang_encode_h264_stap (sample_buffer 10) sample_stap = Some (Yang_Ok, b')
     \<and> yang_decode_h264_stap (b'\<lparr>buf_head := buf_head (sample_buffer 10)\<rparr>)
         (yang_create_stap sample_stap) = Some (Yang_Ok, data', b')
     \<and> vec_denotes (stap_nalus data') [[0x67, 1, 2], [0x68, 7]]
     \<and> stap_nri data' = uint (word_of_int (stap_nri sample_stap) AND NOT kNalTypeMask :: u8)"
proof (rule h264_stap_roundtrip)
  show "vec_denotes (stap_nalus sample_stap) [[0x67, 1, 2], [0x68, 7]]"
    by (simp add: vec_denotes_def vec_ok_def vec_list_def sample_stap_def sample_content_def mem_read_def
        numeral_2_eq_2)
  show "vec_denotes (stap_nalus (yang_create_stap sample_stap)) []"
    by (simp add: vec_denotes_def yang_create_stap_def create_Vector_ok)
qed (simp_all add: sample_stap_def sample_buffer_room h264_stap_wire_def nalus_wire_def nalu_wire_def)

text \<open>A NAL unit whose announced length is 32768 or more is always rejected, although the encoder writes such
  lengths: the length is read as a signed 16-bit integer.\<close>

theorem stap_large_nalu_rejected:
  assumes "ahead b (be16 w)" "2 \<le> yang_buffer_left b" "0x8000 \<le> w"
  shows "stap_step vec b = Some (Some ERROR_RTC_RTP_MUXER, vec, adv b 2)"
proof -
  have "sint w < 0"
  proof -
    have "32768 \<le> unat w" "unat w < 65536"
      using assms(3) unsigned_less [of w] by (simp_all add: word_le_nat_alt)
    then have "unat w div 32768 = 1" by (intro div_nat_eqI) simp_all
    then have "bit (unat w) 15" by (simp add: bit_iff_odd)
    then have "bit w 15" by (simp add: bit_unsigned_iff)
    then show ?thesis using bit_last_iff [of w] by simp
  qed
  then show ?thesis
    using assms by (simp add: stap_step_def require_left w16.rd_ahead [OF assms(1)])
qed

definition fua2_wire :: "fua2_data \<Rightarrow> u8 list \<Rightarrow> u8 list" where
  "fua2_wire pkt bs =
     (28 OR (fu_nri pkt AND NOT kNalTypeMask))
     # (fu_nalu_type pkt OR (if fu_start pkt \<noteq> 0 then 0x80 else 0) OR (if fu_end pkt \<noteq> 0 then 0x40 else 0))
     # bs"

lemma store_store_write:
  assumes "0 \<le> p" "p + 2 + int (length bs) \<le> int (length m)"
  shows "(mem_store m p x \<bind> (\<lambda>m. mem_store m (p + 1) y \<bind> (\<lambda>m. mem_write m (p + 2) bs)))
    = Some (take (nat p) m @ x # y # bs @ drop (nat p + 2 + length bs) m)"
proof -
  obtain i where i: "p = int i" using assms(1) by (metis nat_0_le)
  obtain pre c d post where m: "m = pre @ c # d # post" "length pre = i"
  proof -
    have "m = take i m @ m ! i # m ! Suc i # drop (Suc (Suc i)) m" "length (take i m) = i"
      using assms(2) i by (simp_all add: Cons_nth_drop_Suc)
    then show ?thesis using that by blast
  qed
  have "mem_store m p x = Some (pre @ x # d # post)"
    using m i by (simp add: mem_store_def list_update_append)
  moreover have "mem_store (pre @ x # d # post) (p + 1) y = Some (pre @ x # y # post)"
    using m i by (simp add: mem_store_def nat_add_distrib list_update_append)
  moreover have "mem_write (pre @ x # y # post) (p + 2) bs = Some (pre @ x # y # bs @ drop (length bs) post)"
    using m i assms(2) by (auto simp: mem_write_def nat_add_distrib)
  ultimately show ?thesis using m i by simp
qed

lemma store_store_write_bind:
  assumes "0 \<le> p" "p + 2 + int (length bs) \<le> int (length m)"
  shows "mem_store m p x \<bind> (\<lambda>m. mem_store m (p + 1) y \<bind> (\<lambda>m. mem_write m (p + 2) bs \<bind> f))
    = f (take (nat p) m @ x # y # bs @ drop (nat p + 2 + length bs) m)"
  using store_store_write [OF assms, of x y, THEN arg_cong, of "\<lambda>r. r \<bind> f"]
  by (simp add: Option.bind_assoc)

lemma encode_h264_fua2_put:
  assumes "mem_read (fu_mem pkt) (fu_payload pkt) (fu_nb pkt) = Some bs" "fu_nb pkt = int (length bs)"
    and "room b (2 + length bs)" "2 + int (length bs) \<le> yang_buffer_left b"
  shows "yang_encode_h264_fua2 b pkt = Some (Yang_Ok, put b (fua2_wire pkt bs))"
  using assms
  by (simp add: yang_encode_h264_fua2_def Let_def require_left store_store_write_bind room_def)
    (simp add: fua2_wire_def yang_buffer_skip_def put_def ac_simps)

theorem stap_large_nalu_rejected_witness:
  "stap_step (yang_create_Vector null_sample) (yang_init_buffer (be16 0x8001 @ replicate 40000 1) 0 40002)
    = Some (Some ERROR_RTC_RTP_MUXER, yang_create_Vector null_sample,
            adv (yang_init_buffer (be16 0x8001 @ replicate 40000 1) 0 40002) 2)"
  by (rule stap_large_nalu_rejected [where w = "0x8001"])
    (simp_all add: ahead_def room_def peek_def yang_init_buffer_def yang_buffer_left_def)

lemma fu_indicator: "(28 OR (x AND NOT kNalTypeMask) :: u8) AND NOT kNalTypeMask = x AND NOT kNalTypeMask"
  by (simp add: bit.conj_disj_distrib2 and.assoc)

lemma fu_header_bits:
  assumes "(t :: u8) < 32"
  shows "(t OR (if s then 0x80 else 0) OR (if e then 0x40 else 0)) AND kNalTypeMask = t"
    and "(t OR (if s then 0x80 else 0) OR (if e then 0x40 else 0)) AND kStart = (if s then 0x80 else 0)"
    and "(t OR (if s then 0x80 else 0) OR (if e then 0x40 else 0)) AND kEnd = (if e then 0x40 else 0)"
proof -
  have t: "t AND 0x1F = t"
    using assms by (simp add: byte_masks take_bit_less word_less_nat_alt flip: take_bit_eq_mask)
  have "t AND 0x80 = 0" "t AND 0x40 = 0"
    using t and.assoc [of t "0x1F" "0x80"] and.assoc [of t "0x1F" "0x40"] by simp_all
  with t show "(t OR (if s then 0x80 else 0) OR (if e then 0x40 else 0)) AND kNalTypeMask = t"
    "(t OR (if s then 0x80 else 0) OR (if e then 0x40 else 0)) AND kStart = (if s then 0x80 else 0)"
    "(t OR (if s then 0x80 else 0) OR (if e then 0x40 else 0)) AND kEnd = (if e then 0x40 else 0)"
    by (simp_all add: bit.conj_disj_distrib2)
qed

lemma decode_h264_fua2_ahead:
  assumes "ahead b (fua2_wire pkt bs)" "int (length (fua2_wire pkt bs)) \<le> yang_buffer_left b" "bs \<noteq> []"
    and "fu_nalu_type pkt < 32"
  shows "yang_decode_h264_fua2 b c = Some (Yang_Ok, c\<lparr>fc_nri := fu_nri pkt AND NOT kNalTypeMask,
      fc_start := (if fu_start pkt \<noteq> 0 then 0x80 else 0), fc_end := (if fu_end pkt \<noteq> 0 then 0x40 else 0),
      fc_nalu_type := fu_nalu_type pkt\<rparr>, adv b 2)"
proof -
  let ?i = "28 OR (fu_nri pkt AND NOT kNalTypeMask) :: u8"
  let ?h = "fu_nalu_type pkt OR (if fu_start pkt \<noteq> 0 then 0x80 else 0) OR (if fu_end pkt \<noteq> 0 then 0x40 else 0)"
  obtain i where i: "yang_read_1bytes b = Some (i, adv b 1)" "i AND NOT kNalTypeMask = fu_nri pkt AND NOT kNalTypeMask"
    using assms(1) fu_indicator [of "fu_nri pkt"] by (simp add: fua2_wire_def wire_simps)
  have "yang_read_1bytes (adv b 1) = Some (?h, adv b 2)"
    using assms(1) by (simp add: fua2_wire_def wire_simps flip: numeral_2_eq_2)
  then obtain h where h: "yang_read_1bytes (adv b 1) = Some (h, adv b 2)" "h AND kNalTypeMask = fu_nalu_type pkt"
    "h AND kStart = (if fu_start pkt \<noteq> 0 then 0x80 else 0)" "h AND kEnd = (if fu_end pkt \<noteq> 0 then 0x40 else 0)"
    using fu_header_bits [OF assms(4)] by blast
  have left: "2 \<le> yang_buffer_left b" "1 \<le> yang_buffer_left (adv b 2)"
    using assms(2,3) by (simp_all add: fua2_wire_def wire_simps Suc_le_eq) (cases bs; simp)+
  show ?thesis
    using left i h by (simp add: yang_decode_h264_fua2_def require_left Let_def)
qed

text \<open>C34: An H.264 fragmentation unit decodes to the type, the importance bits and the start and end marks it was
  built from, and leaves the buffer at its payload.\<close>

theorem h264_fua2_roundtrip:
  assumes "mem_read (fu_mem pkt) (fu_payload pkt) (fu_nb pkt) = Some bs" "fu_nb pkt = int (length bs)"
    and "bs \<noteq> []" "fu_nalu_type pkt < 32" "room b (2 + length bs)" "2 + int (length bs) \<le> yang_buffer_left b"
  shows "\<exists>b' c'. yang_encode_h264_fua2 b pkt = Some (Yang_Ok, b')
     \<and> yang_decode_h264_fua2 (b'\<lparr>buf_head := buf_head b\<rparr>) c
        = Some (Yang_Ok, c', adv (b'\<lparr>buf_head := buf_head b\<rparr>) 2)
     \<and> ahead (adv (b'\<lparr>buf_head := buf_head b\<rparr>) 2) bs
     \<and> fc_nri c' = fu_nri pkt AND NOT kNalTypeMask \<and> fc_nalu_type c' = fu_nalu_type pkt
     \<and> (fc_start c' \<noteq> 0 \<longleftrightarrow> fu_start pkt \<noteq> 0) \<and> (fc_end c' \<noteq> 0 \<longleftrightarrow> fu_end pkt \<noteq> 0)"
proof -
  let ?w = "fua2_wire pkt bs"
  let ?b = "put b ?w\<lparr>buf_head := buf_head b\<rparr>"
  have room: "room b (length ?w)" using assms(5) by (simp add: fua2_wire_def)
  have left: "int (length ?w) \<le> yang_buffer_left ?b"
    using assms(6) by (simp add: fua2_wire_def yang_buffer_left_def wire_simps)
  have "ahead (adv ?b 2) bs"
    using ahead_put(1) [OF room] by (simp add: fua2_wire_def wire_simps flip: numeral_2_eq_2)
  with decode_h264_fua2_ahead [OF ahead_put(1) [OF room] left assms(3,4), of c] encode_h264_fua2_put [OF assms(1,2,5,6)]
  show ?thesis by simp
qed

theorem h264_fua2_roundtrip_witness:
  "let pkt = \<lparr>fu_start = 1, fu_end = 0, fu_nri = 0x60, fu_nalu_type = 5, fu_nb = 3, fu_mem = [9, 8, 7, 6], fu_payload = 1\<rparr>;
       b = sample_buffer 8; c = \<lparr>fc_start = 0, fc_end = 0, fc_nri = 0, fc_nalu_type = 0\<rparr> in
   \<exists>b' c'. yang_encode_h264_fua2 b pkt = Some (Yang_Ok, b')
     \<and> yang_decode_h264_fua2 (b'\<lparr>buf_head := buf_head b\<rparr>) c
        = Some (Yang_Ok, c', adv (b'\<lparr>buf_head := buf_head b\<rparr>) 2)
     \<and> ahead (adv (b'\<lparr>buf_head := buf_head b\<rparr>) 2) [8, 7, 6]
     \<and> fc_nri c' = fu_nri pkt AND NOT kNalTypeMask \<and> fc_nalu_type c' = fu_nalu_type pkt
     \<and> (fc_start c' \<noteq> 0 \<longleftrightarrow> fu_start pkt \<noteq> 0) \<and> (fc_end c' \<noteq> 0 \<longleftrightarrow> fu_end pkt \<noteq> 0)"
  unfolding Let_def
  by (rule h264_fua2_roundtrip) (simp_all add: mem_read_def sample_buffer_room room_mono [OF sample_buffer_room(1)])

text \<open>\<open>k\<close> requests for a slot, one after the other: the offsets handed out.\<close>

primrec rtp_slots :: "nat \<Rightarrow> rtp_buffer \<Rightarrow> int list" where
  "rtp_slots 0 rb = []"
| "rtp_slots (Suc k) rb = (let (p, rb) = yang_get_rtpBuffer rb in p # rtp_slots k rb)"

lemma rtp_slots_eq:
  assumes "0 \<le> rb_index rb" "rb_index rb < rb_bufLen rb"
  shows "rtp_slots k rb = map (\<lambda>j. 1500 * ((rb_index rb + 1 + int j) mod rb_bufLen rb)) [0..<k]"
  using assms
proof (induction k arbitrary: rb)
  case (Suc k)
  let ?n = "rb_bufLen rb" and ?i = "(rb_index rb + 1) mod rb_bufLen rb"
  have next_index: "(if rb_index rb + 1 \<ge> ?n then 0 else rb_index rb + 1) = ?i"
    using Suc.prems by (auto simp: mod_pos_pos_trivial) (metis add.commute antisym_conv less_le_not_le mod_self zle_add1_eq_le)
  have get: "yang_get_rtpBuffer rb = (1500 * ?i, rb\<lparr>rb_index := ?i\<rparr>)"
    using next_index by (auto simp: yang_get_rtpBuffer_def Let_def)
  have "rtp_slots k (rb\<lparr>rb_index := ?i\<rparr>) = map (\<lambda>j. 1500 * ((?i + 1 + int j) mod ?n)) [0..<k]"
    using Suc.IH [of "rb\<lparr>rb_index := ?i\<rparr>"] Suc.prems by simp
  also have "\<dots> = map (\<lambda>j. 1500 * ((rb_index rb + 1 + int (Suc j)) mod ?n)) [0..<k]"
    using mod_add_left_eq [of "rb_index rb + 1" ?n] by (simp add: add.assoc)
  finally show ?case
    by (simp add: get upt_conv_Cons map_Suc_upt [symmetric] del: upt_Suc)
qed simp

text \<open>The slots that a ring of n packet slots hands out one after the other are pairwise different for n requests,
  and each lies inside the allocation when its unit size is at least the packet size.\<close>

theorem rtp_ring_no_alias:
  assumes "0 < n" "1500 \<le> unit" "k \<le> nat n"
  shows "distinct (rtp_slots k (yang_create_rtpBuffer n unit))
     \<and> (\<forall>p\<in>set (rtp_slots k (yang_create_rtpBuffer n unit)).
          0 \<le> p \<and> p + 1500 \<le> int (length (rb_buffer (yang_create_rtpBuffer n unit))))"
proof -
  let ?rb = "yang_create_rtpBuffer n unit"
  have eq: "rtp_slots k ?rb = map (\<lambda>j. 1500 * ((1 + int j) mod n)) [0..<k]"
    using rtp_slots_eq [of ?rb k] assms(1) by (simp add: yang_create_rtpBuffer_def)
  have "inj_on (\<lambda>j. 1500 * ((1 + int j) mod n)) {0..<k}"
  proof (rule inj_onI)
    fix i j assume ij: "i \<in> {0..<k}" "j \<in> {0..<k}" "1500 * ((1 + int i) mod n) = 1500 * ((1 + int j) mod n)"
    then have "(1 + int i - (1 + int j)) mod n = 0" by (metis mod_eq_dvd_iff mod_0_imp_dvd dvd_imp_mod_0 mult_cancel_left zero_neq_numeral)
    then have "n dvd (int i - int j)" by (simp add: mod_0_imp_dvd)
    moreover have "\<bar>int i - int j\<bar> < n" using ij(1,2) assms(1,3) by auto
    ultimately show "i = j" using zdvd_not_zless [of "\<bar>int i - int j\<bar>" n] by force
  qed
  moreover have "0 \<le> 1500 * (x mod n) \<and> 1500 * (x mod n) + 1500 \<le> unit * n" for x
  proof -
    have "0 \<le> x mod n" "x mod n < n" using assms(1) by simp_all
    then have "0 \<le> x mod n" "x mod n + 1 \<le> n" by linarith+
    then have "1500 * (x mod n + 1) \<le> unit * n" using assms(2) by (intro mult_mono) simp_all
    with \<open>0 \<le> x mod n\<close> show ?thesis by simp
  qed
  ultimately show ?thesis
    using assms(1,2) unfolding eq by (auto simp: distinct_map yang_create_rtpBuffer_def)
qed

theorem rtp_ring_no_alias_witness:
  "distinct (rtp_slots 3 (yang_create_rtpBuffer 3 1500)) \<and> 0 \<le> hd (rtp_slots 3 (yang_create_rtpBuffer 3 1500))
     \<and> hd (rtp_slots 3 (yang_create_rtpBuffer 3 1500)) + 1500 \<le> int (length (rb_buffer (yang_create_rtpBuffer 3 1500)))"
proof -
  have "rtp_slots 3 (yang_create_rtpBuffer 3 1500) \<noteq> []" by (simp add: numeral_3_eq_3 split_def Let_def)
  from hd_in_set [OF this] show ?thesis using rtp_ring_no_alias [of 3 1500 3] by auto
qed

definition sample_packet :: rtp_packet where
  "sample_packet =
     \<lparr>pk_actual_buffer_size = 0, pk_nalu_type = 0, pk_frame_type = 8, pk_payload_type = 5, pk_nb = 0,
      pk_cached_payload_size = 0, pk_payload = None, pk_header = zero_header\<rparr>"

text \<open>Setting the padding never updates the cached payload size, because the padding length is overwritten before
  the difference is taken; adding padding does update it.\<close>

theorem set_padding_keeps_cached_size:
  assumes "0 \<le> n" "n < 256"
  shows "pk_cached_payload_size (yang_rtpPacket_set_padding pkt n) = pk_cached_payload_size pkt
    \<and> (pk_cached_payload_size pkt \<noteq> 0 \<longrightarrow>
        pk_cached_payload_size (yang_rtpPacket_add_padding pkt n) = pk_cached_payload_size pkt + n)"
  using assms
  by (simp add: yang_rtpPacket_set_padding_def yang_rtpPacket_add_padding_def Let_def unsigned_of_int
      take_bit_int_eq_self)

theorem set_padding_keeps_cached_size_witness:
  "pk_cached_payload_size (yang_rtpPacket_set_padding (sample_packet\<lparr>pk_cached_payload_size := 100\<rparr>) 8) = 100
    \<and> pk_cached_payload_size (yang_rtpPacket_add_padding (sample_packet\<lparr>pk_cached_payload_size := 100\<rparr>) 8) = 108"
  using set_padding_keeps_cached_size [of 8 "sample_packet\<lparr>pk_cached_payload_size := 100\<rparr>"] by simp

end
