(* ===== verification/Rtcp_Common.thy ===== *)
theory Rtcp_Common
  imports Buffer
begin

text \<open>
  RTCP packets: the types of \<open>yangrtp/YangRtcp.h\<close>, the common header of \<open>YangRtcpCommon.c\<close> and the
  packet types whose body has a fixed layout (\<open>YangRtcpSR.c\<close>, \<open>YangRtcpRR.c\<close>, \<open>YangRtcpPli.c\<close>,
  \<open>YangRtcpPsfbCommon.c\<close>, \<open>YangRtcpRpsi.c\<close>, \<open>YangRtcpSli.c\<close>, \<open>YangRtcpXr.c\<close>, \<open>YangRtcpApp.c\<close>,
  \<open>YangRtcpBye.c\<close>).

  The bit fields of \<open>YangRtcpHeader\<close> are words of their width; the header is copied from and to the
  wire as its four bytes in memory, with the bit-field layout of the little-endian ABI. A structure
  behind a pointer that may be NULL is an option; using a NULL pointer is a fault (\<open>None\<close>). Freeing
  a structure sets its pointer to \<open>None\<close>.
\<close>

section \<open>Types (YangRtcp.h)\<close>

record rtcp_header =
  rh_rc :: "5 word"
  rh_padding :: "1 word"
  rh_version :: "2 word"
  rh_type :: u8
  rh_length :: u16

abbreviation (input) YangRtcpType_sr :: u8 where "YangRtcpType_sr \<equiv> 200"
abbreviation (input) YangRtcpType_rr :: u8 where "YangRtcpType_rr \<equiv> 201"
abbreviation (input) YangRtcpType_bye :: u8 where "YangRtcpType_bye \<equiv> 203"
abbreviation (input) YangRtcpType_app :: u8 where "YangRtcpType_app \<equiv> 204"
abbreviation (input) YangRtcpType_rtpfb :: u8 where "YangRtcpType_rtpfb \<equiv> 205"
abbreviation (input) YangRtcpType_psfb :: u8 where "YangRtcpType_psfb \<equiv> 206"
abbreviation (input) YangRtcpType_xr :: u8 where "YangRtcpType_xr \<equiv> 207"
abbreviation (input) kRtcpVersion :: "2 word" where "kRtcpVersion \<equiv> 2"
abbreviation (input) kRtcpPacketSize :: int where "kRtcpPacketSize \<equiv> 1500"
abbreviation (input) kPLI :: "5 word" where "kPLI \<equiv> 1"
abbreviation (input) kSLI :: "5 word" where "kSLI \<equiv> 2"
abbreviation (input) kRPSI :: "5 word" where "kRPSI \<equiv> 3"

record rtcp_sr =
  sr_ntp :: u64
  sr_rtp_ts :: u32
  sr_send_rtp_packets :: u32
  sr_send_rtp_bytes :: u32

record rtcp_rb =
  rb_ssrc :: u32
  rb_fraction_lost :: u8
  rb_lost_packets :: u32
  rb_highest_sn :: u32
  rb_jitter :: u32
  rb_lsr :: u32
  rb_dlsr :: u32

record rtcp_nack =
  nk_mediaSsrc :: u32
  nk_vsize :: u32
  nk_capacity :: u32
  nk_nacks :: "u16 list option"

record rtcp_rpsi =
  rp_pb :: u8
  rp_payload_type :: u8
  rp_mediaSsrc :: u32
  rp_nb_native_rpsi :: int
  rp_native_rpsi :: "u8 list option"

record rtcp_sli =
  sl_first :: u16
  sl_number :: u16
  sl_picture :: u8

text \<open>The \<open>data\<close> pointer is the offset of the packet in the buffer it was read from.\<close>

record rtcp_common =
  rc_ssrc :: u32
  rc_mediaSsrc :: u32
  rc_payloadLen :: int
  rc_nb_data :: int
  rc_data :: "int option"
  rc_rb :: "rtcp_rb option"
  rc_sr :: "rtcp_sr option"
  rc_nack :: "rtcp_nack option"
  rc_rpsi :: "rtcp_rpsi option"
  rc_sli :: "rtcp_sli option"
  rc_appName :: "u8 list option"
  rc_payload :: "u8 list"
  rc_header :: rtcp_header

text \<open>A \<open>YangRtcpCommon\<close> from \<open>calloc\<close>.\<close>

definition zero_rtcp :: rtcp_common where
  "zero_rtcp =
     \<lparr>rc_ssrc = 0, rc_mediaSsrc = 0, rc_payloadLen = 0, rc_nb_data = 0, rc_data = None, rc_rb = None,
      rc_sr = None, rc_nack = None, rc_rpsi = None, rc_sli = None, rc_appName = None,
      rc_payload = replicate 1500 0,
      rc_header = \<lparr>rh_rc = 0, rh_padding = 0, rh_version = 0, rh_type = 0, rh_length = 0\<rparr>\<rparr>"

section \<open>The common header (YangRtcpCommon.c)\<close>

text \<open>The four bytes of a header in memory, and the header at four bytes.\<close>

definition header_bytes :: "rtcp_header \<Rightarrow> u8 list" where
  "header_bytes h =
     [push_bit 6 (ucast (rh_version h)) OR push_bit 5 (ucast (rh_padding h)) OR ucast (rh_rc h), rh_type h]
     @ [word_byte (rh_length h) 0, word_byte (rh_length h) 1]"

definition header_of_bytes :: "u8 list \<Rightarrow> rtcp_header" where
  "header_of_bytes bs =
     \<lparr>rh_rc = ucast (bs ! 0), rh_padding = ucast (drop_bit 5 (bs ! 0)), rh_version = ucast (drop_bit 6 (bs ! 0)),
      rh_type = bs ! 1, rh_length = le_word [bs ! 2, bs ! 3]\<rparr>"

text \<open>\<open>htons\<close> and \<open>ntohs\<close> on a little-endian host.\<close>

definition byte_swap16 :: "u16 \<Rightarrow> u16" where
  "byte_swap16 w = le_word [word_byte w 1, word_byte w 0]"

definition yang_decode_header_rtcpCommon ::
    "rtcp_common \<Rightarrow> yang_buffer \<Rightarrow> (errcode \<times> rtcp_common \<times> yang_buffer) option" where
  "yang_decode_header_rtcpCommon comm b =
     (if \<not> yang_buffer_require b 8 then Some (ERROR_RTC_RTCP, comm, b)
      else do {
        (bs, b) \<leftarrow> yang_read_bytes b 4;
        let h = header_of_bytes bs;
        let h = h\<lparr>rh_length := byte_swap16 (rh_length h)\<rparr>;
        let comm = comm\<lparr>rc_header := h\<rparr>;
        let payload_len = uint (rh_length h) * 4;
        if payload_len > yang_buffer_left b then Some (ERROR_RTC_RTCP, comm, b)
        else do {
          (v, b) \<leftarrow> yang_read_4bytes b;
          Some (Yang_Ok, comm\<lparr>rc_ssrc := v\<rparr>, b)
        }
      })"

definition yang_decode_rtcpCommon ::
    "rtcp_common \<Rightarrow> yang_buffer \<Rightarrow> (errcode \<times> rtcp_common \<times> yang_buffer) option" where
  "yang_decode_rtcpCommon comm b =
     (if \<not> yang_buffer_require b 8 then Some (ERROR_RTC_RTCP, comm, b)
      else do {
        (bs, b) \<leftarrow> yang_read_bytes b 4;
        let h = header_of_bytes bs;
        let h = h\<lparr>rh_length := byte_swap16 (rh_length h)\<rparr>;
        let comm = comm\<lparr>rc_header := h\<rparr>;
        let payload_len = uint (rh_length h) * 4;
        if payload_len > yang_buffer_left b then Some (ERROR_RTC_RTCP, comm, b)
        else do {
          (v, b) \<leftarrow> yang_read_4bytes b;
          Some (Yang_Ok, comm\<lparr>rc_ssrc := v\<rparr>, b)
        }
      })"

definition yang_encode_rtcpCommon ::
    "rtcp_common \<Rightarrow> yang_buffer \<Rightarrow> (errcode \<times> rtcp_common \<times> yang_buffer) option" where
  "yang_encode_rtcpCommon comm b = Some (ERROR_RTC_RTCP, comm, b)"

text \<open>The length is swapped in the structure itself, which stays swapped.\<close>

definition yang_encode_header_rtcpCommon ::
    "rtcp_common \<Rightarrow> yang_buffer \<Rightarrow> (errcode \<times> rtcp_common \<times> yang_buffer) option" where
  "yang_encode_header_rtcpCommon comm b =
     (if \<not> yang_buffer_require b 8 then Some (ERROR_RTC_RTCP, comm, b)
      else do {
        let h = (rc_header comm)\<lparr>rh_length := byte_swap16 (rh_length (rc_header comm))\<rparr>;
        let comm = comm\<lparr>rc_header := h\<rparr>;
        b \<leftarrow> yang_write_bytes b (header_bytes h) 4;
        b \<leftarrow> yang_write_4bytes b (rc_ssrc comm);
        Some (Yang_Ok, comm, b)
      })"

definition yang_encode_header_rtcpHeader ::
    "rtcp_header \<Rightarrow> u32 \<Rightarrow> yang_buffer \<Rightarrow> (errcode \<times> rtcp_header \<times> yang_buffer) option" where
  "yang_encode_header_rtcpHeader h ssrc b =
     (if \<not> yang_buffer_require b 8 then Some (ERROR_RTC_RTCP, h, b)
      else do {
        let h = h\<lparr>rh_length := byte_swap16 (rh_length h)\<rparr>;
        b \<leftarrow> yang_write_bytes b (header_bytes h) 4;
        b \<leftarrow> yang_write_4bytes b ssrc;
        Some (Yang_Ok, h, b)
      })"

definition yang_get_rtcpCommon_nb_bytes :: "rtcp_common \<Rightarrow> int" where
  "yang_get_rtcpCommon_nb_bytes comm = 4 + 4 + rc_payloadLen comm"

definition yang_create_rtcpCommon :: "rtcp_common \<Rightarrow> rtcp_common" where
  "yang_create_rtcpCommon comm = comm"

text \<open>\<open>comm->data = buffer->head; comm->nb_data = yang_buffer_left(buffer)\<close>\<close>

definition note_data :: "rtcp_common \<Rightarrow> yang_buffer \<Rightarrow> rtcp_common" where
  "note_data comm b = comm\<lparr>rc_data := Some (buf_head b), rc_nb_data := yang_buffer_left b\<rparr>"

text \<open>The header of a fresh packet of a type; \<open>set_header\<close> keeps the length the structure had.\<close>

definition set_header :: "rtcp_common \<Rightarrow> u8 \<Rightarrow> 5 word \<Rightarrow> rtcp_common" where
  "set_header comm t rc =
     comm\<lparr>rc_header := (rc_header comm)\<lparr>rh_padding := 0, rh_type := t, rh_rc := rc, rh_version := kRtcpVersion\<rparr>\<rparr>"

section \<open>Sender reports (YangRtcpSR.c)\<close>

definition yang_create_rtcpSR :: "rtcp_common \<Rightarrow> rtcp_common" where
  "yang_create_rtcpSR comm =
     (let comm = set_header comm YangRtcpType_sr 0;
          comm = comm\<lparr>rc_header := (rc_header comm)\<lparr>rh_length := 6\<rparr>\<rparr>
      in comm\<lparr>rc_sr := Some \<lparr>sr_ntp = 0, sr_rtp_ts = 0, sr_send_rtp_packets = 0, sr_send_rtp_bytes = 0\<rparr>,
               rc_ssrc := 0\<rparr>)"

text \<open>The guard is \<open>comm || comm->sr == NULL\<close>: with a valid \<open>comm\<close> the function always returns at once.\<close>

definition yang_destroy_rtcpSR :: "rtcp_common \<Rightarrow> rtcp_common" where
  "yang_destroy_rtcpSR comm = comm"

definition yang_get_rtcpSR_nb_bytes :: "rtcp_common \<Rightarrow> int" where
  "yang_get_rtcpSR_nb_bytes comm = (uint (rh_length (rc_header comm)) + 1) * 4"

definition yang_decode_rtcpSR ::
    "rtcp_common \<Rightarrow> yang_buffer \<Rightarrow> (errcode \<times> rtcp_common \<times> yang_buffer) option" where
  "yang_decode_rtcpSR comm b = do {
     let comm = note_data comm b;
     (err, comm, b) \<leftarrow> yang_decode_header_rtcpCommon comm b;
     if err \<noteq> Yang_Ok then Some (err, comm, b)
     else do {
       sr \<leftarrow> rc_sr comm;
       (ntp, b) \<leftarrow> yang_read_8bytes b;
       (ts, b) \<leftarrow> yang_read_4bytes b;
       (pkts, b) \<leftarrow> yang_read_4bytes b;
       (bytes, b) \<leftarrow> yang_read_4bytes b;
       let comm = comm\<lparr>rc_sr := Some (sr\<lparr>sr_ntp := ntp, sr_rtp_ts := ts, sr_send_rtp_packets := pkts,
                                         sr_send_rtp_bytes := bytes\<rparr>)\<rparr>;
       if rh_rc (rc_header comm) > 0 then do {
         (_, b) \<leftarrow> yang_read_bytes b (uint (rh_rc (rc_header comm)) * 24);
         Some (err, comm, b)
       }
       else Some (err, comm, b)
     }
   }"

definition yang_encode_rtcpSR ::
    "rtcp_common \<Rightarrow> yang_buffer \<Rightarrow> (errcode \<times> rtcp_common \<times> yang_buffer) option" where
  "yang_encode_rtcpSR comm b =
     (if \<not> yang_buffer_require b (yang_get_rtcpSR_nb_bytes comm) then Some (ERROR_RTC_RTCP, comm, b)
      else do {
        (err, comm, b) \<leftarrow> yang_encode_header_rtcpCommon comm b;
        if err \<noteq> Yang_Ok then Some (err, comm, b)
        else do {
          sr \<leftarrow> rc_sr comm;
          b \<leftarrow> yang_write_8bytes b (sr_ntp sr);
          b \<leftarrow> yang_write_4bytes b (sr_rtp_ts sr);
          b \<leftarrow> yang_write_4bytes b (sr_send_rtp_packets sr);
          b \<leftarrow> yang_write_4bytes b (sr_send_rtp_bytes sr);
          Some (err, comm, b)
        }
      })"

section \<open>Receiver reports (YangRtcpRR.c)\<close>

definition yang_create_rtcpRR :: "rtcp_common \<Rightarrow> rtcp_common" where
  "yang_create_rtcpRR comm =
     (let comm = set_header comm YangRtcpType_rr 0;
          comm = comm\<lparr>rc_header := (rc_header comm)\<lparr>rh_length := 7\<rparr>, rc_ssrc := 0\<rparr>
      in case rc_rb comm of
           None \<Rightarrow> comm\<lparr>rc_rb := Some \<lparr>rb_ssrc = 0, rb_fraction_lost = 0, rb_lost_packets = 0,
                       rb_highest_sn = 0, rb_jitter = 0, rb_lsr = 0, rb_dlsr = 0\<rparr>\<rparr>
         | Some _ \<Rightarrow> comm)"

definition yang_destroy_rtcpRR :: "rtcp_common \<Rightarrow> rtcp_common" where
  "yang_destroy_rtcpRR comm = comm\<lparr>rc_rb := None\<rparr>"

definition yang_rtcpRR_nb_bytes :: "rtcp_common \<Rightarrow> int" where
  "yang_rtcpRR_nb_bytes comm = (uint (rh_length (rc_header comm)) + 1) * 4"

definition yang_decode_rtcpRR ::
    "rtcp_common \<Rightarrow> yang_buffer \<Rightarrow> (errcode \<times> rtcp_common \<times> yang_buffer) option" where
  "yang_decode_rtcpRR comm b =
     (case rc_rb comm of
        None \<Rightarrow> Some (1, comm, b)
      | Some rb \<Rightarrow> do {
          let comm = note_data comm b;
          (err, comm, b) \<leftarrow> yang_decode_header_rtcpCommon comm b;
          if err \<noteq> Yang_Ok then Some (err, comm, b)
          else if rh_rc (rc_header comm) = 0 then Some (ERROR_RTC_RTCP_EMPTY_RR, comm, b)
          else do {
            (x1, b) \<leftarrow> yang_read_4bytes b;
            (x2, b) \<leftarrow> yang_read_1bytes b;
            (x3, b) \<leftarrow> yang_read_3bytes b;
            (x4, b) \<leftarrow> yang_read_4bytes b;
            (x5, b) \<leftarrow> yang_read_4bytes b;
            (x6, b) \<leftarrow> yang_read_4bytes b;
            (x7, b) \<leftarrow> yang_read_4bytes b;
            let comm = comm\<lparr>rc_rb := Some (rb\<lparr>rb_ssrc := x1, rb_fraction_lost := x2, rb_lost_packets := x3,
                         rb_highest_sn := x4, rb_jitter := x5, rb_lsr := x6, rb_dlsr := x7\<rparr>)\<rparr>;
            if rh_rc (rc_header comm) > 1 then do {
              (_, b) \<leftarrow> yang_read_bytes b ((uint (rh_rc (rc_header comm)) - 1) * 24);
              Some (err, comm, b)
            }
            else Some (err, comm, b)
          }
        })"

definition yang_encode_rtcpRR ::
    "rtcp_common \<Rightarrow> yang_buffer \<Rightarrow> (errcode \<times> rtcp_common \<times> yang_buffer) option" where
  "yang_encode_rtcpRR comm b =
     (case rc_rb comm of
        None \<Rightarrow> Some (1, comm, b)
      | Some rb \<Rightarrow>
          if \<not> yang_buffer_require b (yang_rtcpRR_nb_bytes comm) then Some (ERROR_RTC_RTCP, comm, b)
          else do {
            let comm = comm\<lparr>rc_header := (rc_header comm)\<lparr>rh_rc := 1\<rparr>\<rparr>;
            (err, comm, b) \<leftarrow> yang_encode_header_rtcpCommon comm b;
            if err \<noteq> Yang_Ok then Some (err, comm, b)
            else do {
              b \<leftarrow> yang_write_4bytes b (rb_ssrc rb);
              b \<leftarrow> yang_write_1bytes b (rb_fraction_lost rb);
              b \<leftarrow> yang_write_3bytes b (rb_lost_packets rb);
              b \<leftarrow> yang_write_4bytes b (rb_highest_sn rb);
              b \<leftarrow> yang_write_4bytes b (rb_jitter rb);
              b \<leftarrow> yang_write_4bytes b (rb_lsr rb);
              b \<leftarrow> yang_write_4bytes b (rb_dlsr rb);
              Some (err, comm, b)
            }
          })"

definition yang_rtcpRR_set_sender_ntp :: "rtcp_common \<Rightarrow> u64 \<Rightarrow> rtcp_common" where
  "yang_rtcpRR_set_sender_ntp comm ntp =
     (case rc_rb comm of
        None \<Rightarrow> comm
      | Some rb \<Rightarrow> comm\<lparr>rc_rb := Some (rb\<lparr>rb_lsr := ucast (drop_bit 16 ntp AND 0xFFFFFFFF)\<rparr>)\<rparr>)"

definition yang_set_sender_ntp :: "rtcp_common \<Rightarrow> u64 \<Rightarrow> rtcp_common" where
  "yang_set_sender_ntp comm ntp =
     (case rc_rb comm of
        None \<Rightarrow> comm
      | Some rb \<Rightarrow> comm\<lparr>rc_rb := Some (rb\<lparr>rb_lsr := ucast (drop_bit 16 ntp AND 0xFFFFFFFF)\<rparr>)\<rparr>)"

section \<open>Picture loss indications (YangRtcpPli.c)\<close>

definition yang_create_rtcpPli :: "rtcp_common \<Rightarrow> rtcp_common" where
  "yang_create_rtcpPli comm = (set_header comm YangRtcpType_psfb kPLI)\<lparr>rc_ssrc := 0\<rparr>"

definition yang_encode_rtcpPli ::
    "rtcp_common \<Rightarrow> yang_buffer \<Rightarrow> (errcode \<times> rtcp_common \<times> yang_buffer) option" where
  "yang_encode_rtcpPli comm b =
     (if \<not> yang_buffer_require b (yang_get_rtcpCommon_nb_bytes comm) then Some (ERROR_RTC_RTCP, comm, b)
      else do {
        let comm = comm\<lparr>rc_header := (rc_header comm)\<lparr>rh_length := 2\<rparr>\<rparr>;
        (err, comm, b) \<leftarrow> yang_encode_header_rtcpCommon comm b;
        if err \<noteq> Yang_Ok then Some (err, comm, b)
        else do {
          b \<leftarrow> yang_write_4bytes b (rc_mediaSsrc comm);
          Some (err, comm, b)
        }
      })"

definition yang_decode_rtcpPli ::
    "rtcp_common \<Rightarrow> yang_buffer \<Rightarrow> (errcode \<times> rtcp_common \<times> yang_buffer) option" where
  "yang_decode_rtcpPli comm b = do {
     let comm = note_data comm b;
     (err, comm, b) \<leftarrow> yang_decode_header_rtcpCommon comm b;
     if err \<noteq> Yang_Ok then Some (err, comm, b)
     else do {
       (v, b) \<leftarrow> yang_read_4bytes b;
       Some (err, comm\<lparr>rc_mediaSsrc := v\<rparr>, b)
     }
   }"

definition yang_rtcpPli_nb_bytes :: "rtcp_common \<Rightarrow> int" where
  "yang_rtcpPli_nb_bytes comm = 12"

section \<open>Other payload-specific feedback (YangRtcpPsfbCommon.c, YangRtcpRpsi.c, YangRtcpSli.c)\<close>

text \<open>The body is skipped by the announced length, which may be negative: \<open>(length + 1) * 4 - 12\<close>.\<close>

definition skip_rest :: "rtcp_common \<Rightarrow> int \<Rightarrow> yang_buffer \<Rightarrow> yang_buffer" where
  "skip_rest comm k b = yang_buffer_skip b ((uint (rh_length (rc_header comm)) + 1) * 4 - k)"

definition yang_create_rtcpPsfb :: "rtcp_common \<Rightarrow> rtcp_common" where
  "yang_create_rtcpPsfb comm = set_header comm YangRtcpType_psfb 1"

definition yang_decode_rtcpPsfb ::
    "rtcp_common \<Rightarrow> yang_buffer \<Rightarrow> (errcode \<times> rtcp_common \<times> yang_buffer) option" where
  "yang_decode_rtcpPsfb comm b = do {
     let comm = note_data comm b;
     (err, comm, b) \<leftarrow> yang_decode_header_rtcpCommon comm b;
     if err \<noteq> Yang_Ok then Some (err, comm, b)
     else do {
       (v, b) \<leftarrow> yang_read_4bytes b;
       let comm = comm\<lparr>rc_mediaSsrc := v\<rparr>;
       Some (err, comm, skip_rest comm 12 b)
     }
   }"

definition yang_encode_rtcpPsfb ::
    "rtcp_common \<Rightarrow> yang_buffer \<Rightarrow> (errcode \<times> rtcp_common \<times> yang_buffer) option" where
  "yang_encode_rtcpPsfb comm b = Some (ERROR_RTC_RTCP, comm, b)"

definition yang_rtcpPsfb_nb_bytes :: "rtcp_common \<Rightarrow> int" where
  "yang_rtcpPsfb_nb_bytes comm = kRtcpPacketSize"

text \<open>
  A fresh \<open>YangRtcpRpsi\<close> comes from \<open>malloc\<close>; the field that is not set, \<open>mediaSsrc\<close>, is written
  before it is read, and is zero in the model.
\<close>

definition yang_create_rtcpRpsi :: "rtcp_common \<Rightarrow> rtcp_common" where
  "yang_create_rtcpRpsi comm =
     (let r = (case rc_rpsi comm of
                 None \<Rightarrow> \<lparr>rp_pb = 0, rp_payload_type = 0, rp_mediaSsrc = 0, rp_nb_native_rpsi = 0,
                          rp_native_rpsi = None\<rparr>
               | Some r \<Rightarrow> r\<lparr>rp_pb := 0, rp_payload_type := 0, rp_native_rpsi := None, rp_nb_native_rpsi := 0\<rparr>)
      in (set_header (comm\<lparr>rc_rpsi := Some r\<rparr>) YangRtcpType_psfb kRPSI)\<lparr>rc_ssrc := 0\<rparr>)"

definition yang_destroy_rtcpRpsi :: "rtcp_common \<Rightarrow> rtcp_common" where
  "yang_destroy_rtcpRpsi comm = comm\<lparr>rc_rpsi := None\<rparr>"

definition yang_decode_rtcpRpsi ::
    "rtcp_common \<Rightarrow> yang_buffer \<Rightarrow> (errcode \<times> rtcp_common \<times> yang_buffer) option" where
  "yang_decode_rtcpRpsi comm b = do {
     let comm = note_data comm b;
     (err, comm, b) \<leftarrow> yang_decode_header_rtcpCommon comm b;
     if err \<noteq> Yang_Ok then Some (err, comm, b)
     else do {
       r \<leftarrow> rc_rpsi comm;
       (v, b) \<leftarrow> yang_read_4bytes b;
       let comm = comm\<lparr>rc_rpsi := Some (r\<lparr>rp_mediaSsrc := v\<rparr>)\<rparr>;
       Some (err, comm, skip_rest comm 12 b)
     }
   }"

definition yang_encode_rtcpRpsi ::
    "rtcp_common \<Rightarrow> yang_buffer \<Rightarrow> (errcode \<times> rtcp_common \<times> yang_buffer) option" where
  "yang_encode_rtcpRpsi comm b = Some (Yang_Ok, comm, b)"

definition yang_rtcpRpsi_nb_bytes :: int where
  "yang_rtcpRpsi_nb_bytes = kRtcpPacketSize"

definition yang_create_rtcpSli :: "rtcp_common \<Rightarrow> u32 \<Rightarrow> rtcp_common" where
  "yang_create_rtcpSli comm sender_ssrc =
     (set_header (comm\<lparr>rc_sli := Some \<lparr>sl_first = 0, sl_number = 0, sl_picture = 0\<rparr>\<rparr>) YangRtcpType_psfb kSLI)
       \<lparr>rc_ssrc := sender_ssrc\<rparr>"

definition yang_destroy_rtcpSli :: "rtcp_common \<Rightarrow> rtcp_common" where
  "yang_destroy_rtcpSli comm = comm\<lparr>rc_sli := None\<rparr>"

definition yang_encode_rtcpSli ::
    "rtcp_common \<Rightarrow> yang_buffer \<Rightarrow> (errcode \<times> rtcp_common \<times> yang_buffer) option" where
  "yang_encode_rtcpSli comm b = Some (Yang_Ok, comm, b)"

definition yang_decode_rtcpSli ::
    "rtcp_common \<Rightarrow> yang_buffer \<Rightarrow> (errcode \<times> rtcp_common \<times> yang_buffer) option" where
  "yang_decode_rtcpSli comm b = do {
     let comm = note_data comm b;
     (err, comm, b) \<leftarrow> yang_decode_header_rtcpCommon comm b;
     if err \<noteq> Yang_Ok then Some (err, comm, b)
     else do {
       (v, b) \<leftarrow> yang_read_4bytes b;
       let comm = comm\<lparr>rc_mediaSsrc := v\<rparr>;
       Some (err, comm, skip_rest comm 12 b)
     }
   }"

section \<open>Extended reports (YangRtcpXr.c)\<close>

definition yang_create_rtcpXr :: "rtcp_common \<Rightarrow> rtcp_common" where
  "yang_create_rtcpXr comm = (set_header comm YangRtcpType_xr 0)\<lparr>rc_ssrc := 0\<rparr>"

definition yang_decode_rtcpXr ::
    "rtcp_common \<Rightarrow> yang_buffer \<Rightarrow> (errcode \<times> rtcp_common \<times> yang_buffer) option" where
  "yang_decode_rtcpXr comm b = do {
     let comm = note_data comm b;
     (err, comm, b) \<leftarrow> yang_decode_header_rtcpCommon comm b;
     if err \<noteq> Yang_Ok then Some (err, comm, b)
     else Some (err, comm, skip_rest comm 8 b)
   }"

definition yang_encode_rtcpXr ::
    "rtcp_common \<Rightarrow> yang_buffer \<Rightarrow> (errcode \<times> rtcp_common \<times> yang_buffer) option" where
  "yang_encode_rtcpXr comm b = Some (ERROR_RTC_RTCP, comm, b)"

definition yang_get_rtcpXr_nb_bytes :: "rtcp_common \<Rightarrow> int" where
  "yang_get_rtcpXr_nb_bytes comm = kRtcpPacketSize"

section \<open>Application packets and goodbyes (YangRtcpApp.c, YangRtcpBye.c)\<close>

definition yang_create_rtcpApp :: "rtcp_common \<Rightarrow> rtcp_common" where
  "yang_create_rtcpApp comm =
     (let comm = (set_header comm YangRtcpType_app 0)\<lparr>rc_ssrc := 0\<rparr>
      in case rc_appName comm of None \<Rightarrow> comm\<lparr>rc_appName := Some (replicate 4 0)\<rparr> | Some _ \<Rightarrow> comm)"

definition yang_destroy_rtcpApp :: "rtcp_common \<Rightarrow> rtcp_common" where
  "yang_destroy_rtcpApp comm = comm\<lparr>rc_appName := None\<rparr>"

text \<open>\<open>sizeof(comm->appName)\<close> is the size of a pointer, eight bytes on the 64-bit targets.\<close>

definition yang_rtcpapp_nb_bytes :: "rtcp_common \<Rightarrow> int" where
  "yang_rtcpapp_nb_bytes comm = 4 + 4 + 8 + rc_payloadLen comm"

definition yang_encode_rtcpApp ::
    "rtcp_common \<Rightarrow> yang_buffer \<Rightarrow> (errcode \<times> rtcp_common \<times> yang_buffer) option" where
  "yang_encode_rtcpApp comm b =
     (if \<not> yang_buffer_require b (yang_rtcpapp_nb_bytes comm) then Some (ERROR_RTC_RTCP, comm, b)
      else do {
        (err, comm, b) \<leftarrow> yang_encode_header_rtcpCommon comm b;
        if err \<noteq> Yang_Ok then Some (err, comm, b)
        else do {
          name \<leftarrow> rc_appName comm;
          b \<leftarrow> yang_write_bytes b name 8;
          b \<leftarrow> yang_write_bytes b (rc_payload comm) (rc_payloadLen comm);
          Some (Yang_Ok, comm, b)
        }
      })"

definition yang_decode_rtcpApp ::
    "rtcp_common \<Rightarrow> yang_buffer \<Rightarrow> (errcode \<times> rtcp_common \<times> yang_buffer) option" where
  "yang_decode_rtcpApp comm b = do {
     let comm = note_data comm b;
     (err, comm, b) \<leftarrow> yang_decode_header_rtcpCommon comm b;
     if err \<noteq> Yang_Ok then Some (err, comm, b)
     else if rh_type (rc_header comm) \<noteq> YangRtcpType_app \<or> \<not> yang_buffer_require b 4
     then Some (ERROR_RTC_RTCP, comm, b)
     else do {
       (appname, b) \<leftarrow> yang_read_bytes b 128;
       n \<leftarrow> c_strlen appname;
       let old = (case rc_appName comm of None \<Rightarrow> replicate (nat (n + 1)) 0 | Some s \<Rightarrow> s);
       name \<leftarrow> mem_write old 0 (take (nat (min n 4)) appname);
       let comm = comm\<lparr>rc_appName := Some name,
                       rc_payloadLen := (uint (rh_length (rc_header comm)) + 1) * 4 - 8 - 128\<rparr>;
       if rc_payloadLen comm > 0 then do {
         (bs, b) \<leftarrow> yang_read_bytes b (rc_payloadLen comm);
         p \<leftarrow> mem_write (rc_payload comm) 0 bs;
         Some (Yang_Ok, comm\<lparr>rc_payload := p\<rparr>, b)
       }
       else Some (Yang_Ok, comm, b)
     }
   }"

definition yang_rtcpapp_isApp :: "u8 list \<Rightarrow> int \<Rightarrow> bool option" where
  "yang_rtcpapp_isApp data nb_data =
     (if nb_data < 12 then Some False
      else do {
        bs \<leftarrow> mem_read data 0 4;
        let h = header_of_bytes bs;
        Some (rh_version h = kRtcpVersion \<and> rh_type h = YangRtcpType_app \<and> byte_swap16 (rh_length h) \<ge> 2)
      })"

definition yang_rtcpapp_set_payload :: "rtcp_common \<Rightarrow> u8 list \<Rightarrow> int \<Rightarrow> (errcode \<times> rtcp_common) option" where
  "yang_rtcpapp_set_payload comm p len =
     (if len > kRtcpPacketSize - 12 then Some (ERROR_RTC_RTCP, comm)
      else do {
        let comm = comm\<lparr>rc_payloadLen := (len + 3) div 4 * 4\<rparr>;
        src \<leftarrow> mem_read p 0 len;
        q \<leftarrow> mem_write (rc_payload comm) 0 src;
        q \<leftarrow> (if rc_payloadLen comm > len
             then mem_write q len (replicate (nat (rc_payloadLen comm - len)) 0)
             else Some q);
        let comm = comm\<lparr>rc_payload := q,
                        rc_header := (rc_header comm)\<lparr>rh_length := word_of_int (rc_payloadLen comm div 4 + 3 - 1)\<rparr>\<rparr>;
        Some (Yang_Ok, comm)
      })"

definition yang_create_rtcpBye :: "rtcp_common \<Rightarrow> rtcp_common" where
  "yang_create_rtcpBye comm = (set_header comm YangRtcpType_bye 0)\<lparr>rc_ssrc := 0\<rparr>"

definition yang_encode_rtcpBye ::
    "rtcp_common \<Rightarrow> yang_buffer \<Rightarrow> (errcode \<times> rtcp_common \<times> yang_buffer) option" where
  "yang_encode_rtcpBye comm b = yang_encode_header_rtcpCommon comm b"

definition yang_decode_rtcpBye ::
    "rtcp_common \<Rightarrow> yang_buffer \<Rightarrow> (errcode \<times> rtcp_common \<times> yang_buffer) option" where
  "yang_decode_rtcpBye comm b = yang_decode_header_rtcpCommon (note_data comm b) b"

section \<open>Wire image of the header\<close>

lemma ucast_low: "ucast (push_bit 6 (ucast v) OR push_bit 5 (ucast p) OR ucast r :: u8) = (r :: 5 word)"
  by (rule bit_word_eqI) (auto simp: bit_simps)

lemma header_round [simp]: "header_of_bytes (header_bytes h) = h"
proof -
  have p: "ucast (drop_bit 5 (push_bit 6 (ucast (v :: 2 word))) OR drop_bit 5 (push_bit 5 (ucast p)) OR drop_bit 5 (ucast (r :: 5 word)) :: u8)
      = (p :: 1 word)" for v p r
    by (rule bit_word_eqI) (auto simp: bit_simps dest: bit_imp_le_length)
  have v: "ucast (drop_bit 6 (push_bit 6 (ucast v)) OR drop_bit 6 (push_bit 5 (ucast (p :: 1 word))) OR drop_bit 6 (ucast (r :: 5 word)) :: u8)
      = (v :: 2 word)" for v p r
    by (rule bit_word_eqI) (auto simp: bit_simps dest: bit_imp_le_length)
  show ?thesis
    by (cases h) (simp add: header_of_bytes_def header_bytes_def ucast_low p v le_word_16)
qed

lemma word_byte_swap [simp]:
  "word_byte (byte_swap16 w) 0 = word_byte w 1" "word_byte (byte_swap16 w) (Suc 0) = word_byte w 0"
  by (simp_all add: byte_swap16_def word_byte_le_word)

lemma byte_swap16_swap [simp]: "byte_swap16 (byte_swap16 w) = w"
  by (simp add: byte_swap16_def [of "byte_swap16 w"] le_word_16)

lemma header_bytes_swap:
  "header_bytes (h\<lparr>rh_length := byte_swap16 (rh_length h)\<rparr>) = take 2 (header_bytes h) @ be16 (rh_length h)"
  by (simp add: header_bytes_def be16_def)

lemma length_header_bytes [simp]: "length (header_bytes h) = 4"
  by (simp add: header_bytes_def)

definition rtcp_header_wire :: "rtcp_header \<Rightarrow> u32 \<Rightarrow> u8 list" where
  "rtcp_header_wire h ssrc = take 2 (header_bytes h) @ be16 (rh_length h) @ be32 ssrc"

lemma length_rtcp_header_wire [simp]: "length (rtcp_header_wire h s) = 8"
  by (simp add: rtcp_header_wire_def)

definition swapped :: "rtcp_common \<Rightarrow> rtcp_common" where
  "swapped comm = comm\<lparr>rc_header := (rc_header comm)\<lparr>rh_length := byte_swap16 (rh_length (rc_header comm))\<rparr>\<rparr>"

lemma encode_header_put:
  assumes "room b 8" "8 \<le> yang_buffer_left b"
  shows "yang_encode_header_rtcpCommon comm b
    = Some (Yang_Ok, swapped comm, put b (rtcp_header_wire (rc_header comm) (rc_ssrc comm)))"
proof -
  have r: "room b 4" using assms(1) by (rule room_mono) simp
  have "yang_write_bytes b (header_bytes h) 4 = Some (put b (header_bytes h))" for h
    using r by (subst write_bytes_put) simp_all
  with assms r show ?thesis
    by (simp add: yang_encode_header_rtcpCommon_def Let_def require_left w32.wr_room room_put put_put
        header_bytes_swap rtcp_header_wire_def swapped_def)
qed

lemma decode_header_ahead:
  assumes "ahead b (rtcp_header_wire h s)" "8 \<le> yang_buffer_left b"
    and "uint (rh_length h) * 4 + 4 \<le> yang_buffer_left b"
  shows "yang_decode_header_rtcpCommon comm b = Some (Yang_Ok, comm\<lparr>rc_header := h, rc_ssrc := s\<rparr>, adv b 8)"
proof -
  let ?bs = "take 2 (header_bytes h) @ be16 (rh_length h)"
  have a: "ahead b ?bs" "ahead (adv b 4) (be32 s)"
    using assms(1) by (simp_all add: rtcp_header_wire_def wire_simps)
  have "header_of_bytes ?bs = h\<lparr>rh_length := byte_swap16 (rh_length h)\<rparr>"
    unfolding header_bytes_swap [symmetric] by simp
  moreover have "yang_read_bytes b 4 = Some (?bs, adv b 4)"
    using ahead_peek [OF a(1)] ahead_room [OF a(1)] by (simp add: read_bytes_peek)
  ultimately show ?thesis
    using assms(2,3) w32.rd_ahead [OF a(2)]
    by (simp add: yang_decode_header_rtcpCommon_def require_left wire_simps Let_def)
qed

section \<open>Reports: wire images and round trips\<close>

definition sr_body :: "rtcp_sr \<Rightarrow> u8 list" where
  "sr_body sr = be64 (sr_ntp sr) @ be32 (sr_rtp_ts sr) @ be32 (sr_send_rtp_packets sr) @ be32 (sr_send_rtp_bytes sr)"

definition rb_body :: "rtcp_rb \<Rightarrow> u8 list" where
  "rb_body rb = be32 (rb_ssrc rb) @ [rb_fraction_lost rb] @ be24 (rb_lost_packets rb) @ be32 (rb_highest_sn rb)
     @ be32 (rb_jitter rb) @ be32 (rb_lsr rb) @ be32 (rb_dlsr rb)"

lemma length_bodies [simp]: "length (sr_body sr) = 20" "length (rb_body rb) = 24"
  by (simp_all add: sr_body_def rb_body_def)

lemma encode_SR_put:
  assumes "rc_sr comm = Some sr" "room b 28" "28 \<le> yang_buffer_left b" "rh_length (rc_header comm) = 6"
  shows "yang_encode_rtcpSR comm b
    = Some (Yang_Ok, swapped comm, put b (rtcp_header_wire (rc_header comm) (rc_ssrc comm) @ sr_body sr))"
proof -
  have "rc_sr (swapped comm) = Some sr" using assms(1) by (simp add: swapped_def)
  with assms(3,4) room_mono [OF assms(2)] show ?thesis
    by (simp add: yang_encode_rtcpSR_def yang_get_rtcpSR_nb_bytes_def require_left encode_header_put
        w64.wr_room w32.wr_room room_put put_put sr_body_def)
qed

lemma decode_SR_ahead:
  assumes "ahead b (rtcp_header_wire h s @ sr_body sr)" "rc_sr comm = Some sr0" "rh_rc h = 0"
    and "rh_length h = 6" "28 \<le> yang_buffer_left b"
  shows "yang_decode_rtcpSR comm b = Some (Yang_Ok, (note_data comm b)\<lparr>rc_header := h, rc_ssrc := s, rc_sr := Some sr\<rparr>, adv b 28)"
proof -
  from assms(1) have a: "ahead b (rtcp_header_wire h s)" "ahead (adv b 8) (be64 (sr_ntp sr))"
    "ahead (adv b 16) (be32 (sr_rtp_ts sr))" "ahead (adv b 20) (be32 (sr_send_rtp_packets sr))"
    "ahead (adv b 24) (be32 (sr_send_rtp_bytes sr))"
    by (simp_all add: wire_simps sr_body_def)
  note rd = decode_header_ahead [OF a(1)] w64.rd_ahead [OF a(2)] w32.rd_ahead [OF a(3)] w32.rd_ahead [OF a(4)] w32.rd_ahead [OF a(5)]
  show ?thesis
    using assms(2-5) by (cases sr) (simp add: yang_decode_rtcpSR_def rd wire_simps note_data_def)
qed

lemma encode_RR_put:
  assumes "rc_rb comm = Some rb" "room b 32" "32 \<le> yang_buffer_left b" "rh_length (rc_header comm) = 7"
  shows "yang_encode_rtcpRR comm b
    = Some (Yang_Ok, swapped (comm\<lparr>rc_header := (rc_header comm)\<lparr>rh_rc := 1\<rparr>\<rparr>),
            put b (rtcp_header_wire ((rc_header comm)\<lparr>rh_rc := 1\<rparr>) (rc_ssrc comm) @ rb_body rb))"
  using assms(1,3,4) room_mono [OF assms(2)]
  by (simp add: yang_encode_rtcpRR_def yang_rtcpRR_nb_bytes_def require_left encode_header_put Let_def
        w24.wr_room w32.wr_room write_1_put put_bytes_room room_put put_put rb_body_def)

lemma decode_RR_ahead:
  assumes "ahead b (rtcp_header_wire h s @ rb_body rb)" "rc_rb comm = Some rb0" "rh_rc h = 1"
    and "rh_length h = 7" "32 \<le> yang_buffer_left b"
  shows "yang_decode_rtcpRR comm b = Some (Yang_Ok, (note_data comm b)\<lparr>rc_header := h, rc_ssrc := s,
       rc_rb := Some (rb\<lparr>rb_lost_packets := take_bit 24 (rb_lost_packets rb)\<rparr>)\<rparr>, adv b 32)"
proof -
  from assms(1) have a: "ahead b (rtcp_header_wire h s)" "ahead (adv b 8) (be32 (rb_ssrc rb))"
    "room (adv b 12) (Suc 0)" "byte_at b 12 = rb_fraction_lost rb" "ahead (adv b 13) (be24 (rb_lost_packets rb))"
    "ahead (adv b 16) (be32 (rb_highest_sn rb))" "ahead (adv b 20) (be32 (rb_jitter rb))"
    "ahead (adv b 24) (be32 (rb_lsr rb))" "ahead (adv b 28) (be32 (rb_dlsr rb))"
    by (simp_all add: wire_simps rb_body_def)
  note rd = decode_header_ahead [OF a(1)] w32.rd_ahead [OF a(2)] w24.rd_ahead [OF a(5)] w32.rd_ahead [OF a(6)]
    w32.rd_ahead [OF a(7)] w32.rd_ahead [OF a(8)] w32.rd_ahead [OF a(9)]
  show ?thesis
    using assms(2-5) a(3,4)
    by (cases rb) (simp add: yang_decode_rtcpRR_def rd wire_simps note_data_def)
qed

section \<open>Properties\<close>

text \<open>A sender report that is encoded and decoded again gives back its header, source and all four statistics, and
  the decoder stops right behind it.\<close>

theorem rtcpSR_roundtrip:
  assumes "rc_sr comm = Some sr" "rh_length (rc_header comm) = 6" "rh_rc (rc_header comm) = 0"
    and "room b 28" "28 \<le> yang_buffer_left b" "rc_sr comm0 = Some sr0"
  shows "\<exists>comm' b' comm1. yang_encode_rtcpSR comm b = Some (Yang_Ok, comm', b')
     \<and> yang_decode_rtcpSR comm0 (b'\<lparr>buf_head := buf_head b\<rparr>) = Some (Yang_Ok, comm1, b')
     \<and> rc_header comm1 = rc_header comm \<and> rc_ssrc comm1 = rc_ssrc comm \<and> rc_sr comm1 = Some sr"
proof -
  let ?w = "rtcp_header_wire (rc_header comm) (rc_ssrc comm) @ sr_body sr"
  have room: "room b (length ?w)" using assms(4) by simp
  have left: "28 \<le> yang_buffer_left (put b ?w\<lparr>buf_head := buf_head b\<rparr>)"
    using assms(5) by (simp add: yang_buffer_left_def wire_simps)
  have adv: "adv (put b ?w\<lparr>buf_head := buf_head b\<rparr>) 28 = put b ?w"
    using ahead_put(2) [OF room] by simp
  from decode_SR_ahead [OF ahead_put(1) [OF room] assms(6,3,2) left] encode_SR_put [OF assms(1,4,5,2)]
  show ?thesis unfolding adv by auto
qed

definition sample_sr :: rtcp_common where
  "sample_sr = (yang_create_rtcpSR zero_rtcp)\<lparr>rc_ssrc := 0x11223344,
     rc_sr := Some \<lparr>sr_ntp = 0x0102030405060708, sr_rtp_ts = 9, sr_send_rtp_packets = 10, sr_send_rtp_bytes = 11\<rparr>\<rparr>"

theorem rtcpSR_roundtrip_witness:
  "\<exists>comm' b' comm1. yang_encode_rtcpSR sample_sr (yang_init_buffer (replicate 28 0) 0 28) = Some (Yang_Ok, comm', b')
     \<and> yang_decode_rtcpSR (yang_create_rtcpSR zero_rtcp) (b'\<lparr>buf_head := buf_head (yang_init_buffer (replicate 28 0) 0 28)\<rparr>)
         = Some (Yang_Ok, comm1, b')
     \<and> rc_header comm1 = rc_header sample_sr \<and> rc_ssrc comm1 = rc_ssrc sample_sr
     \<and> rc_sr comm1 = Some \<lparr>sr_ntp = 0x0102030405060708, sr_rtp_ts = 9, sr_send_rtp_packets = 10, sr_send_rtp_bytes = 11\<rparr>"
  by (rule rtcpSR_roundtrip)
    (simp_all add: sample_sr_def yang_create_rtcpSR_def set_header_def Let_def room_def yang_init_buffer_def
      yang_buffer_left_def zero_rtcp_def)

text \<open>A receiver report that is encoded and decoded again gives back its report block, with the count of lost
  packets cut to the 24 bits of the wire format.\<close>

theorem rtcpRR_roundtrip:
  assumes "rc_rb comm = Some rb" "rh_length (rc_header comm) = 7"
    and "room b 32" "32 \<le> yang_buffer_left b" "rc_rb comm0 = Some rb0"
  shows "\<exists>comm' b' comm1. yang_encode_rtcpRR comm b = Some (Yang_Ok, comm', b')
     \<and> yang_decode_rtcpRR comm0 (b'\<lparr>buf_head := buf_head b\<rparr>) = Some (Yang_Ok, comm1, b')
     \<and> rc_header comm1 = (rc_header comm)\<lparr>rh_rc := 1\<rparr> \<and> rc_ssrc comm1 = rc_ssrc comm
     \<and> rc_rb comm1 = Some (rb\<lparr>rb_lost_packets := take_bit 24 (rb_lost_packets rb)\<rparr>)"
proof -
  let ?w = "rtcp_header_wire ((rc_header comm)\<lparr>rh_rc := 1\<rparr>) (rc_ssrc comm) @ rb_body rb"
  have room: "room b (length ?w)" using assms(3) by simp
  have left: "32 \<le> yang_buffer_left (put b ?w\<lparr>buf_head := buf_head b\<rparr>)"
    using assms(4) by (simp add: yang_buffer_left_def wire_simps)
  have adv: "adv (put b ?w\<lparr>buf_head := buf_head b\<rparr>) 32 = put b ?w"
    using ahead_put(2) [OF room] by simp
  have "yang_decode_rtcpRR comm0 (put b ?w\<lparr>buf_head := buf_head b\<rparr>)
      = Some (Yang_Ok, (note_data comm0 (put b ?w\<lparr>buf_head := buf_head b\<rparr>))\<lparr>rc_header := (rc_header comm)\<lparr>rh_rc := 1\<rparr>,
          rc_ssrc := rc_ssrc comm, rc_rb := Some (rb\<lparr>rb_lost_packets := take_bit 24 (rb_lost_packets rb)\<rparr>)\<rparr>, put b ?w)"
    using decode_RR_ahead [OF ahead_put(1) [OF room] assms(5) _ _ left] assms(2) unfolding adv by simp
  then show ?thesis using encode_RR_put [OF assms(1,3,4,2)] by auto
qed

theorem rtcpRR_roundtrip_witness:
  "\<exists>comm' b' comm1. yang_encode_rtcpRR (yang_create_rtcpRR zero_rtcp) (yang_init_buffer (replicate 32 0) 0 32) = Some (Yang_Ok, comm', b')
     \<and> yang_decode_rtcpRR (yang_create_rtcpRR zero_rtcp) (b'\<lparr>buf_head := buf_head (yang_init_buffer (replicate 32 0) 0 32)\<rparr>)
         = Some (Yang_Ok, comm1, b')
     \<and> rc_header comm1 = (rc_header (yang_create_rtcpRR zero_rtcp))\<lparr>rh_rc := 1\<rparr>
     \<and> rc_ssrc comm1 = rc_ssrc (yang_create_rtcpRR zero_rtcp)
     \<and> rc_rb comm1 = Some (the (rc_rb (yang_create_rtcpRR zero_rtcp))
         \<lparr>rb_lost_packets := take_bit 24 (rb_lost_packets (the (rc_rb (yang_create_rtcpRR zero_rtcp))))\<rparr>)"
  by (rule rtcpRR_roundtrip)
    (simp_all add: yang_create_rtcpRR_def set_header_def Let_def room_def yang_init_buffer_def
      yang_buffer_left_def zero_rtcp_def)

text \<open>Encoding swaps the length inside the structure, so the same sender report cannot be encoded a second time into
  a buffer of less than 6148 bytes: the size check then asks for (1536 + 1) words.\<close>

theorem rtcpSR_second_encode_fails:
  assumes "rc_sr comm = Some sr" "rh_length (rc_header comm) = 6" "room b 28" "28 \<le> yang_buffer_left b"
    and "yang_buffer_left c < 6148"
  shows "\<exists>comm' b'. yang_encode_rtcpSR comm b = Some (Yang_Ok, comm', b')
     \<and> yang_encode_rtcpSR comm' c = Some (ERROR_RTC_RTCP, comm', c)"
proof -
  have "byte_swap16 6 = 0x600" by (simp add: byte_swap16_def word_byte_def le_word.simps)
  then show ?thesis
    using encode_SR_put [OF assms(1,3,4,2)] assms(2,5)
    by (simp add: yang_encode_rtcpSR_def [of _ c] yang_get_rtcpSR_nb_bytes_def swapped_def require_left)
qed

theorem rtcpSR_second_encode_fails_witness:
  "\<exists>comm' b'. yang_encode_rtcpSR sample_sr (yang_init_buffer (replicate 28 0) 0 28) = Some (Yang_Ok, comm', b')
     \<and> yang_encode_rtcpSR comm' (yang_init_buffer (replicate 1500 0) 0 1500)
         = Some (ERROR_RTC_RTCP, comm', yang_init_buffer (replicate 1500 0) 0 1500)"
  by (rule rtcpSR_second_encode_fails)
    (simp_all add: sample_sr_def yang_create_rtcpSR_def set_header_def Let_def room_def yang_init_buffer_def
      yang_buffer_left_def zero_rtcp_def)

text \<open>The picture loss encoder asks for eight bytes and writes twelve: on a buffer that ends with its allocation and
  has between eight and eleven bytes left it passes its own check and writes past the allocation.\<close>

theorem rtcpPli_overflow:
  assumes "rc_payloadLen comm = 0" "8 \<le> yang_buffer_left b" "yang_buffer_left b < 12"
    and "0 \<le> buf_head b" "buf_data b + buf_size b = int (length (buf_mem b))"
  shows "yang_encode_rtcpPli comm b = None"
proof -
  have r: "room b 8" "\<not> room b 12"
    using assms(2-5) by (auto simp: room_def yang_buffer_left_def)
  then have "yang_write_4bytes (put b (rtcp_header_wire h s)) v = None" for h s v
    by (simp add: w32.wr_fault_iff room_put)
  with r(1) assms(1,2) show ?thesis
    by (simp add: yang_encode_rtcpPli_def yang_get_rtcpCommon_nb_bytes_def require_left encode_header_put Let_def)
qed

theorem rtcpPli_overflow_witness:
  "yang_encode_rtcpPli (yang_create_rtcpPli zero_rtcp) (yang_init_buffer (replicate 8 0) 0 8) = None"
  by (rule rtcpPli_overflow)
    (simp_all add: yang_create_rtcpPli_def set_header_def zero_rtcp_def yang_init_buffer_def yang_buffer_left_def)

text \<open>An application packet made by its constructor cannot be encoded: the encoder copies the size of a pointer, eight
  bytes, out of the four bytes allocated for the name.\<close>

theorem rtcpApp_encode_overread:
  assumes "rc_appName comm = None" "yang_buffer_require b (yang_rtcpapp_nb_bytes comm)" "0 \<le> rc_payloadLen comm"
    and "0 \<le> buf_data b" "buf_data b \<le> buf_head b" "buf_data b + buf_size b \<le> int (length (buf_mem b))"
  shows "yang_encode_rtcpApp (yang_create_rtcpApp comm) b = None"
proof -
  let ?c = "yang_create_rtcpApp comm"
  have len: "rc_payloadLen ?c = rc_payloadLen comm"
    by (simp add: yang_create_rtcpApp_def set_header_def Let_def assms(1))
  have r: "room b 8" "8 \<le> yang_buffer_left b"
    using assms(2-6) by (auto simp: room_def require_left yang_buffer_left_def yang_rtcpapp_nb_bytes_def)
  have "rc_appName (swapped ?c) = Some (replicate 4 0)"
    by (simp add: yang_create_rtcpApp_def set_header_def Let_def assms(1) swapped_def)
  moreover have "yang_write_bytes b' (replicate 4 0) 8 = None" for b'
    by (simp add: yang_write_bytes_def mem_read_def)
  moreover have "yang_buffer_require b (yang_rtcpapp_nb_bytes ?c)"
    using assms(2) len by (simp add: yang_rtcpapp_nb_bytes_def)
  ultimately show ?thesis
    using encode_header_put [OF r, of ?c] by (simp add: yang_encode_rtcpApp_def)
qed

theorem rtcpApp_encode_overread_witness:
  "yang_encode_rtcpApp (yang_create_rtcpApp zero_rtcp) (yang_init_buffer (replicate 1500 0) 0 1500) = None"
  by (rule rtcpApp_encode_overread)
    (simp_all add: zero_rtcp_def yang_init_buffer_def yang_buffer_require_def yang_rtcpapp_nb_bytes_def)

end
