(* ===== verification/Seq_Sort.thy ===== *)
theory Seq_Sort
  imports Rtp_Header "HOL-Library.Multiset"
begin

text \<open>
  Lists of RTP sequence numbers kept in sequence order: \<open>yangutil/sys/YangMath.c\<close> and the
  \<open>YangUint16Sort\<close> part of \<open>yangutil/sys/YangVector.c\<close>.

  The binary search and the sorted insertion exist twice in the library, for plain numbers here and
  for the entries of the NACK list in \<open>Recv_Nack\<close>. The locale \<open>seq_search\<close> proves the search
  correct once, from the equation both loops satisfy, and is interpreted on both.
\<close>

section \<open>Operations (YangMath.c)\<close>

text \<open>
  The inner loop of \<open>yang_insertSort\<close> has no lower bound for \<open>j\<close>. Reading \<open>a[-1]\<close> is a fault.
\<close>

function insertSort_shift :: "int list \<Rightarrow> int \<Rightarrow> int \<Rightarrow> (int list \<times> int) option" where
  "insertSort_shift a x j =
     (case mem_load a j of
        None \<Rightarrow> None
      | Some y \<Rightarrow>
          if x < y then
            (case mem_store a (j + 1) y of
               None \<Rightarrow> None
             | Some a \<Rightarrow> insertSort_shift a x (j - 1))
          else Some (a, j))"
  by pat_completeness auto
termination
  by (relation "measure (\<lambda>(a, x, j). nat (j + 1))") (auto simp: mem_simps)

declare insertSort_shift.simps [simp del]

text \<open>The outer loop with \<open>m\<close> rounds left, at index \<open>i\<close>.\<close>

primrec insertSort_from :: "nat \<Rightarrow> int \<Rightarrow> int list \<Rightarrow> int list option" where
  "insertSort_from 0 i a = Some a"
| "insertSort_from (Suc m) i a = do {
     x \<leftarrow> mem_load a i;
     y \<leftarrow> mem_load a (i - 1);
     a \<leftarrow> (if x < y then do {
             a \<leftarrow> mem_store a i y;
             (a, j) \<leftarrow> insertSort_shift a x (i - 1);
             mem_store a (j + 1) x
           }
           else Some a);
     insertSort_from m (i + 1) a
   }"

definition yang_insertSort :: "int list \<Rightarrow> int \<Rightarrow> int list option" where
  "yang_insertSort a n = insertSort_from (nat (n - 1)) 1 a"

function uint16_index_loop :: "u16 list \<Rightarrow> u16 \<Rightarrow> int \<Rightarrow> int \<Rightarrow> int option" where
  "uint16_index_loop a val low high =
     (if low \<le> high then
        let mid = (high + low) div 2 in
        case mem_load a mid of
          None \<Rightarrow> None
        | Some x \<Rightarrow>
            if val = x then Some (- 1)
            else if yang_rtp_seq_distance val x > 0 then uint16_index_loop a val low (mid - 1)
            else if yang_rtp_seq_distance x val > 0 then uint16_index_loop a val (mid + 1) high
            else Some mid
      else Some low)"
  by pat_completeness auto
termination
  by (relation "measure (\<lambda>(a, v, low, high). nat (high - low + 1))") auto

declare uint16_index_loop.simps [simp del]

definition yang_get_uint16_index :: "u16 list \<Rightarrow> u16 \<Rightarrow> int \<Rightarrow> int option" where
  "yang_get_uint16_index a val alen = uint16_index_loop a val 0 alen"

text \<open>The result is the return code, the array and \<open>*palen\<close>.\<close>

definition yang_insert_uint16_sort :: "u16 list \<Rightarrow> u16 \<Rightarrow> u32 \<Rightarrow> (errcode \<times> u16 list \<times> u32) option" where
  "yang_insert_uint16_sort a val len =
     (let alen = sint len in
      if alen = 0 then do {
        a \<leftarrow> mem_store a 0 val;
        Some (Yang_Ok, a, 1)
      }
      else do {
        last \<leftarrow> mem_load a (alen - 1);
        if yang_rtp_seq_distance last val > 0 then do {
          a \<leftarrow> mem_store a alen val;
          Some (Yang_Ok, a, word_of_int (alen + 1))
        }
        else do {
          index \<leftarrow> yang_get_uint16_index a val alen;
          if index = - 1 then Some (1, a, len)
          else do {
            src \<leftarrow> mem_read a index (alen - index);
            a \<leftarrow> mem_write a (index + 1) src;
            a \<leftarrow> mem_store a index val;
            Some (Yang_Ok, a, word_of_int (alen + 1))
          }
        }
      })"

section \<open>The sorted array (YangVector.c)\<close>

record yang_uint16_sort =
  us_vsize :: u32
  us_capacity :: u32
  us_payload :: "u16 list option"

definition yang_insert_uint16Sort :: "yang_uint16_sort \<Rightarrow> u16 \<Rightarrow> yang_uint16_sort option" where
  "yang_insert_uint16Sort ps val = do {
     p \<leftarrow> us_payload ps;
     ps \<leftarrow> (if us_vsize ps \<ge> us_capacity ps - 1 then do {
              src \<leftarrow> mem_read p 0 (uint (us_vsize ps));
              tmp \<leftarrow> mem_write (replicate (unat (us_capacity ps + 50)) 0) 0 src;
              Some (ps\<lparr>us_payload := Some tmp, us_capacity := us_capacity ps + 50\<rparr>)
            }
            else Some ps);
     p \<leftarrow> us_payload ps;
     (err, p, n) \<leftarrow> yang_insert_uint16_sort p val (us_vsize ps);
     Some (ps\<lparr>us_payload := Some p, us_vsize := n\<rparr>)
   }"

definition yang_create_uint16Sort2 :: "yang_uint16_sort \<Rightarrow> int \<Rightarrow> yang_uint16_sort" where
  "yang_create_uint16Sort2 ps pcapacity =
     (let ps = ps\<lparr>us_capacity := word_of_int pcapacity\<rparr>
      in case us_payload ps of
           None \<Rightarrow> ps\<lparr>us_payload := Some (replicate (unat (us_capacity ps)) 0)\<rparr>
         | Some _ \<Rightarrow> ps)"

definition yang_create_uint16Sort :: "yang_uint16_sort \<Rightarrow> yang_uint16_sort" where
  "yang_create_uint16Sort ps = yang_create_uint16Sort2 ps 50"

definition yang_destroy_uint16Sort :: "yang_uint16_sort \<Rightarrow> yang_uint16_sort" where
  "yang_destroy_uint16Sort ps = ps\<lparr>us_payload := None, us_capacity := 0, us_vsize := 0\<rparr>"

definition yang_clear_uint16Sort :: "yang_uint16_sort \<Rightarrow> yang_uint16_sort" where
  "yang_clear_uint16Sort ps = ps\<lparr>us_vsize := 0\<rparr>"

definition yang_clear_uint16Sort2 :: "yang_uint16_sort \<Rightarrow> int \<Rightarrow> yang_uint16_sort option" where
  "yang_clear_uint16Sort2 ps index =
     (if us_vsize ps = 0 then Some ps
      else do {
        p \<leftarrow> us_payload ps;
        let n = sint (us_vsize ps - word_of_int index - 1);
        src \<leftarrow> mem_read p index n;
        p \<leftarrow> mem_write p 0 src;
        Some (ps\<lparr>us_payload := Some p, us_vsize := word_of_int n\<rparr>)
      })"

section \<open>The order within a window\<close>

text \<open>The distance of a sequence number from the start of a window of half the sequence space.\<close>

definition seq_rank :: "u16 \<Rightarrow> u16 \<Rightarrow> nat" where
  "seq_rank base x = unat (x - base)"

definition in_window :: "u16 \<Rightarrow> u16 \<Rightarrow> bool" where
  "in_window base x \<longleftrightarrow> seq_rank base x < 2 ^ 15"

lemma distance_window:
  assumes "in_window base x" "in_window base y"
  shows "yang_rtp_seq_distance x y = int (seq_rank base y) - int (seq_rank base x)"
  using sint_diff_window [of "y - base" "x - base"] assms
  by (simp add: yang_rtp_seq_distance_def seq_rank_def in_window_def)

lemma seq_rank_inj [simp]: "seq_rank base x = seq_rank base y \<longleftrightarrow> x = y"
  by (simp add: seq_rank_def word_unat_eq_iff [symmetric])

text \<open>
  A list in sequence order: inside the window of \<open>base\<close>, and strictly newer from left to right.
\<close>

definition seq_sorted :: "u16 \<Rightarrow> u16 list \<Rightarrow> bool" where
  "seq_sorted base xs \<longleftrightarrow> (\<forall>x\<in>set xs. in_window base x) \<and> sorted_wrt (<) (map (seq_rank base) xs)"

lemma seq_sorted_nth:
  "seq_sorted base xs \<Longrightarrow> i < j \<Longrightarrow> j < length xs \<Longrightarrow> seq_rank base (xs ! i) < seq_rank base (xs ! j)"
  by (auto simp: seq_sorted_def sorted_wrt_iff_nth_less)

lemma seq_sorted_nth_mono:
  "seq_sorted base xs \<Longrightarrow> i \<le> j \<Longrightarrow> j < length xs \<Longrightarrow> seq_rank base (xs ! i) \<le> seq_rank base (xs ! j)"
  using seq_sorted_nth [of base xs i j] by (cases "i = j") auto

definition seq_insert :: "u16 \<Rightarrow> u16 \<Rightarrow> u16 list \<Rightarrow> u16 list" where
  "seq_insert base v xs = (if v \<in> set xs then xs else insort_key (seq_rank base) v xs)"

text \<open>\<open>p\<close> is the place of \<open>v\<close> in a sorted list.\<close>

definition seq_place :: "u16 \<Rightarrow> u16 \<Rightarrow> u16 list \<Rightarrow> nat \<Rightarrow> bool" where
  "seq_place base v xs p \<longleftrightarrow> p \<le> length xs
     \<and> (\<forall>j<p. seq_rank base (xs ! j) < seq_rank base v)
     \<and> (\<forall>j<length xs. p \<le> j \<longrightarrow> seq_rank base v < seq_rank base (xs ! j))"

lemma insort_key_place:
  assumes "seq_place base v xs p"
  shows "insort_key (seq_rank base) v xs = take p xs @ v # drop p xs"
  using assms
proof (induction xs arbitrary: p)
  case (Cons x xs)
  show ?case
  proof (cases p)
    case 0
    with Cons.prems show ?thesis by (auto simp: seq_place_def dest: spec [of _ 0])
  next
    case (Suc q)
    from Cons.prems Suc have "seq_place base v xs q" "seq_rank base x < seq_rank base v"
      by (force simp: seq_place_def)+
    with Cons.IH Suc show ?thesis by simp
  qed
qed (simp add: seq_place_def)

lemma seq_insert_sorted:
  assumes "seq_sorted base xs" "in_window base v"
  shows "seq_sorted base (seq_insert base v xs)" "set (seq_insert base v xs) = insert v (set xs)"
proof -
  have "sorted_wrt (<) (map (seq_rank base) (insort_key (seq_rank base) v xs))" if "v \<notin> set xs"
    using assms that
    by (auto simp: seq_sorted_def strict_sorted_iff sorted_insort_key distinct_map inj_on_def distinct_insort)
  with assms show "seq_sorted base (seq_insert base v xs)" "set (seq_insert base v xs) = insert v (set xs)"
    by (auto simp: seq_insert_def seq_sorted_def set_insort_key)
qed

section \<open>The binary search\<close>

locale seq_search =
  fixes key :: "'a \<Rightarrow> u16"
    and search :: "'a list \<Rightarrow> u16 \<Rightarrow> int \<Rightarrow> int \<Rightarrow> int option"
  assumes search_unfold:
    "search a val low high =
       (if low \<le> high then
          let mid = (high + low) div 2 in
          case mem_load a mid of
            None \<Rightarrow> None
          | Some x \<Rightarrow>
              if val = key x then Some (- 1)
              else if yang_rtp_seq_distance val (key x) > 0 then search a val low (mid - 1)
              else if yang_rtp_seq_distance (key x) val > 0 then search a val (mid + 1) high
              else Some mid
        else Some low)"
begin

text \<open>The invariant of the loop: what lies left of \<open>low\<close> is older, what lies right of \<open>high\<close> newer.\<close>

lemma search_correct:
  assumes sorted: "seq_sorted base (map key xs)" and win: "in_window base v"
    and xs: "xs = take n a" "n \<le> length a" "0 < n"
    and last: "seq_rank base v \<le> seq_rank base (key (xs ! (n - 1)))"
    and lo: "0 \<le> low" "low < int n" "\<forall>j<nat low. seq_rank base (key (xs ! j)) < seq_rank base v"
    and hi: "low - 1 \<le> high" "high \<le> int n" "\<forall>j<n. high < int j \<longrightarrow> seq_rank base v < seq_rank base (key (xs ! j))"
  shows "\<exists>i. search a v low high = Some i
     \<and> (if v \<in> set (map key xs) then i = - 1 else 0 \<le> i \<and> seq_place base v (map key xs) (nat i))"
  using lo hi
proof (induction "nat (high - low + 1)" arbitrary: low high rule: less_induct)
  case less
  let ?r = "seq_rank base"
  have len: "length xs = n" using xs by simp
  show ?case
  proof (cases "low \<le> high")
    case False
    then have h: "high = low - 1" using less.prems by simp
    have "v \<notin> set (map key xs)"
    proof
      assume "v \<in> set (map key xs)"
      then obtain j where j: "j < n" "key (xs ! j) = v" by (auto simp: in_set_conv_nth len)
      then show False using less.prems(3,6) h by (cases "j < nat low") auto
    qed
    moreover have "seq_place base v (map key xs) (nat low)"
      using less.prems h by (auto simp: seq_place_def len)
    ultimately show ?thesis
      using False less.prems(1) by (subst search_unfold) auto
  next
    case True
    define mid where "mid = (high + low) div 2"
    have mid: "low \<le> mid" "mid \<le> high" "mid < int n" "0 \<le> mid"
      using True less.prems by (auto simp: mid_def)
    let ?x = "xs ! nat mid"
    have load: "mem_load a mid = Some ?x"
      using mid xs by (simp add: mem_load_def)
    have m: "nat mid < n" using mid by simp
    have kw: "in_window base (key ?x)"
      using sorted m len by (auto simp: seq_sorted_def)
    have mono: "?r (key (xs ! i)) \<le> ?r (key (xs ! j))" if "i \<le> j" "j < n" for i j
      using seq_sorted_nth_mono [OF sorted, of i j] that len by simp
    consider "v = key ?x" | "?r v < ?r (key ?x)" | "?r (key ?x) < ?r v"
      using seq_rank_inj [of base v "key ?x"] by (metis linorder_neqE_nat)
    then show ?thesis
    proof cases
      case 1
      moreover have "v \<in> set (map key xs)" using 1 m len by auto
      ultimately show ?thesis
        using True load by (subst search_unfold) (simp add: Let_def flip: mid_def)
    next
      case 2
      then have "search a v low high = search a v low (mid - 1)"
        using True load distance_window [OF win kw]
        by (subst search_unfold) (auto simp: Let_def simp flip: mid_def)
      moreover have "\<forall>j<n. mid - 1 < int j \<longrightarrow> ?r v < ?r (key (xs ! j))"
      proof (intro allI impI)
        fix j assume "j < n" "mid - 1 < int j"
        then have "nat mid \<le> j" by simp
        from mono [OF this \<open>j < n\<close>] 2 show "?r v < ?r (key (xs ! j))" by simp
      qed
      ultimately show ?thesis
        using less.hyps [of "mid - 1" low] less.prems mid True by auto
    next
      case 3
      then have "search a v low high = search a v (mid + 1) high"
        using True load distance_window [OF kw win] distance_window [OF win kw]
        by (subst search_unfold) (auto simp: Let_def simp flip: mid_def)
      moreover have "\<forall>j<nat (mid + 1). ?r (key (xs ! j)) < ?r v"
      proof (intro allI impI)
        fix j assume "j < nat (mid + 1)"
        then have "j \<le> nat mid" by simp
        from mono [OF this m] 3 show "?r (key (xs ! j)) < ?r v" by simp
      qed
      moreover have "mid + 1 < int n"
      proof (rule ccontr)
        assume "\<not> ?thesis"
        with m have "nat mid = n - 1" by simp
        with last 3 show False by simp
      qed
      ultimately show ?thesis
        using less.hyps [of high "mid + 1"] less.prems mid True by auto
    qed
  qed
qed

end

interpretation u16_search: seq_search "\<lambda>x. x" uint16_index_loop
  by unfold_locales (subst uint16_index_loop.simps, simp)

section \<open>Sorted insertion is correct\<close>

lemma sint_len: "n < 2 ^ 31 \<Longrightarrow> sint (word_of_nat n :: u32) = int n"
  by (simp add: signed_of_nat signed_take_bit_int_eq_self)

lemma load_last:
  assumes "take n a = xs" "0 < n" "n \<le> length a"
  shows "mem_load a (int n - 1) = Some (last xs)"
proof -
  have "nat (int n - 1) = n - 1" by simp
  moreover have "a ! (n - 1) = xs ! (n - 1)" using assms by (metis diff_less nth_take zero_less_one)
  moreover have "last xs = xs ! (n - 1)" using assms last_conv_nth [of xs] by (cases a) auto
  ultimately show ?thesis using assms by (simp add: mem_load_def)
qed

lemma insert_uint16_sort_newest:
  assumes "n = length xs" "0 < n" "n < length a" "n < 2 ^ 31 - 1" "take n a = xs"
    and "yang_rtp_seq_distance (last xs) v > 0"
  shows "yang_insert_uint16_sort a v (word_of_nat n) = Some (Yang_Ok, a[n := v], word_of_nat (Suc n))"
proof -
  have "mem_load a (int n - 1) = Some (last xs)"
    using assms by (simp add: load_last)
  then show ?thesis
    using assms by (simp add: yang_insert_uint16_sort_def sint_len mem_store_def Let_def)
qed

lemma move_up:
  assumes "p \<le> n" "n < length a"
  shows "mem_read a (int p) (int n - int p) = Some (take (n - p) (drop p a))"
    and "mem_write a (int p + 1) (take (n - p) (drop p a))
      = Some (take (Suc p) a @ take (n - p) (drop p a) @ drop (Suc n) a)"
  using assms by (auto simp: mem_read_def mem_write_def nat_diff_distrib nat_add_distrib min_def
      simp flip: of_nat_diff)

lemma list_insert_at:
  assumes "p \<le> n" "n < length a"
  shows "(take (Suc p) a @ take (n - p) (drop p a) @ drop (Suc n) a)[p := v]
       = take p a @ v # drop p (take n a) @ drop (Suc n) a"
  using assms by (simp add: take_Suc_conv_app_nth list_update_append drop_take)

lemma insertion_result:
  assumes sorted: "seq_sorted base xs" and win: "in_window base v"
    and a: "take n a = xs" "n < length a" "n < 2 ^ 31 - 1" "n = length xs"
  shows "\<exists>a'. yang_insert_uint16_sort a v (word_of_nat n)
           = Some (if v \<in> set xs then 1 else Yang_Ok, a', word_of_nat (length (seq_insert base v xs)))
       \<and> length a' = length a \<and> take (length (seq_insert base v xs)) a' = seq_insert base v xs"
proof (cases "n = 0")
  case True
  with a show ?thesis
    by (cases a) (auto simp: yang_insert_uint16_sort_def seq_insert_def mem_store_def)
next
  case False
  let ?r = "seq_rank base"
  have last: "last xs = xs ! (n - 1)" and lw: "in_window base (last xs)"
    using False a(4) sorted by (auto simp: last_conv_nth seq_sorted_def)
  show ?thesis
  proof (cases "?r (last xs) < ?r v")
    case True
    have pl: "seq_place base v xs n"
      unfolding seq_place_def
    proof (intro conjI allI impI)
      fix j assume "j < n"
      then have "?r (xs ! j) \<le> ?r (xs ! (n - 1))"
        using a(4) by (intro seq_sorted_nth_mono [OF sorted]) auto
      then show "?r (xs ! j) < ?r v" using True last by simp
    qed (use a(4) in auto)
    have "v \<notin> set xs" using pl a(4) by (auto simp: seq_place_def in_set_conv_nth)
    moreover have "insort_key ?r v xs = xs @ [v]"
      using insort_key_place [OF pl] a(4) by simp
    moreover have "take (Suc n) (a[n := v]) = xs @ [v]"
      using a by (simp add: take_Suc_conv_app_nth)
    ultimately show ?thesis
      using insert_uint16_sort_newest [of n xs a v] False True a distance_window [OF lw win]
      by (simp add: seq_insert_def)
  next
    case nl: False
    then have old: "?r v \<le> ?r (xs ! (n - 1))" using last by simp
    have load: "mem_load a (int n - 1) = Some (last xs)"
        using a False by (simp add: load_last)
    have nd: "\<not> yang_rtp_seq_distance (last xs) v > 0"
      using distance_window [OF lw win] nl by simp
    have "\<exists>i. uint16_index_loop a v 0 (int n) = Some i
      \<and> (if v \<in> set (map (\<lambda>x. x) xs) then i = - 1 else 0 \<le> i \<and> seq_place base v (map (\<lambda>x. x) xs) (nat i))"
      by (rule u16_search.search_correct [where n = n])
        (use sorted win a(1) [symmetric] a(2) False old in simp_all)
    then obtain i where i: "yang_get_uint16_index a v (int n) = Some i"
      "if v \<in> set xs then i = - 1 else 0 \<le> i \<and> seq_place base v xs (nat i)"
      unfolding yang_get_uint16_index_def by (auto split: if_splits)
    show ?thesis
    proof (cases "v \<in> set xs")
      case True
      with i load nd False have "yang_insert_uint16_sort a v (word_of_nat n) = Some (1, a, word_of_nat n)"
        using a(3) by (simp add: yang_insert_uint16_sort_def sint_len)
      with True a show ?thesis by (simp add: seq_insert_def)
    next
      case new: False
      then obtain p where p: "i = int p" "seq_place base v xs p"
        using i by (metis nat_0_le)
      then have pn: "p \<le> n" using a(4) by (simp add: seq_place_def)
      let ?a' = "take p a @ v # drop p (take n a) @ drop (Suc n) a"
      have "mem_store (take (Suc p) a @ take (n - p) (drop p a) @ drop (Suc n) a) (int p) v = Some ?a'"
        using list_insert_at [OF pn a(2), of v] pn a(2) by (simp add: mem_store_def)
      with i p load nd False a(3) move_up [OF pn a(2)] new
      have "yang_insert_uint16_sort a v (word_of_nat n) = Some (Yang_Ok, ?a', word_of_nat (Suc n))"
        by (simp add: yang_insert_uint16_sort_def sint_len)
      moreover have "take (Suc n) ?a' = take p xs @ v # drop p xs"
      proof -
        have "?a' = (take p xs @ v # drop p xs) @ drop (Suc n) a"
          using a(1) pn by (metis append.assoc append_Cons min.absorb1 take_take)
        moreover have "length (take p xs @ v # drop p xs) = Suc n" using a(4) pn by simp
        ultimately show ?thesis by (metis append_eq_conv_conj)
      qed
      ultimately show ?thesis
        using new insort_key_place [OF p(2)] a pn by (simp add: seq_insert_def)
    qed
  qed
qed


section \<open>The unguarded insertion sort\<close>

lemma insort_snoc:
  "sorted (qs @ [y]) \<Longrightarrow> insort x (qs @ [y]) = (if x < y then insort x qs @ [y] else qs @ [y, x :: int])"
proof (cases "x < y")
  case True
  moreover assume "sorted (qs @ [y])"
  ultimately show ?thesis by (induction qs) auto
next
  case False
  moreover assume "sorted (qs @ [y])"
  ultimately show ?thesis
    using sorted_insort_is_snoc [of "qs @ [y]" x] by (fastforce simp: sorted_append)
qed

lemma shift_correct:
  assumes "sorted ps"
  shows "(insertSort_shift (ps @ z # rest) x (int (length ps) - 1) \<bind> (\<lambda>(a, j). mem_store a (j + 1) x))
    = (if \<exists>y\<in>set ps. y \<le> x then Some (insort x ps @ rest) else None)"
  using assms
proof (induction ps arbitrary: z rest rule: rev_induct)
  case Nil
  then show ?case by (simp add: insertSort_shift.simps mem_load_def)
next
  case (snoc y qs)
  let ?a = "qs @ y # z # rest" and ?j = "int (length qs)"
  have load: "mem_load ?a ?j = Some y" by (simp add: mem_load_def)
  have store: "mem_store ?a (?j + 1) w = Some (qs @ y # w # rest)" for w
    by (simp add: mem_store_def nat_add_distrib list_update_append)
  show ?case
  proof (cases "x < y")
    case True
    have "insertSort_shift ?a x ?j = insertSort_shift (qs @ y # y # rest) x (?j - 1)"
      using True load store by (simp add: insertSort_shift.simps [of ?a])
    with snoc True show ?thesis
      by (auto simp: insort_snoc sorted_append)
  next
    case False
    then have "insertSort_shift ?a x ?j = Some (?a, ?j)"
      using load by (simp add: insertSort_shift.simps [of ?a])
    with store False snoc.prems show ?thesis by (simp add: insort_snoc not_less)
  qed
qed

lemma sort_snoc: "sort (xs @ [x]) = insort x (sort (xs :: int list))"
  by (rule properties_for_sort) (simp_all add: sorted_insort)

lemma insertSort_from_correct:
  assumes "length a0 = n" "0 < i" "i + m = n" "\<forall>k<i. a0 ! 0 \<le> a0 ! k"
  shows "insertSort_from m (int i) (sort (take i a0) @ drop i a0)
    = (if \<forall>k<n. a0 ! 0 \<le> a0 ! k then Some (sort a0) else None)"
  using assms(2-4)
proof (induction m arbitrary: i)
  case 0
  with assms(1) show ?case by simp
next
  case (Suc m)
  let ?s = "sort (take i a0)" and ?x = "a0 ! i" and ?m = "a0 ! 0"
  let ?a = "?s @ drop i a0"
  have i: "i < n" and len: "length ?s = i" using Suc.prems assms(1) by auto
  then have dr: "drop i a0 = ?x # drop (Suc i) a0" using assms(1) by (simp add: Cons_nth_drop_Suc)
  have ne: "?s \<noteq> []" using len Suc.prems(1) by (metis length_0_conv less_irrefl)
  have lx: "mem_load ?a (int i) = Some ?x" using len i assms(1) by (simp add: mem_load_def nth_append)
  have ly: "mem_load ?a (int i - 1) = Some (last ?s)"
    using len ne Suc.prems(1) i assms(1) by (intro load_last) auto
  have m: "?m \<in> set ?s" "\<forall>y\<in>set ?s. ?m \<le> y"
    using Suc.prems assms(1) i by (auto simp: in_set_conv_nth)
  have step: "sort (take (Suc i) a0) = insort ?x ?s"
    using i assms(1) by (simp add: take_Suc_conv_app_nth sort_snoc)
  have big: "?x < last ?s \<longleftrightarrow> insort ?x ?s \<noteq> ?s @ [?x]"
    using insort_snoc [of "butlast ?s" "last ?s" ?x] ne by auto
  show ?case
  proof (cases "?x < last ?s")
    case True
    have "mem_store ?a (int i) (last ?s) = Some (?s @ last ?s # drop (Suc i) a0)"
      using len i assms(1) dr by (simp add: mem_store_def list_update_append)
    with lx ly True have "insertSort_from (Suc m) (int i) ?a
        = (insertSort_shift (?s @ last ?s # drop (Suc i) a0) ?x (int (length ?s) - 1)
             \<bind> (\<lambda>(a, j). mem_store a (j + 1) ?x)) \<bind> insertSort_from m (int i + 1)"
      using len by (simp add: split_def Option.bind_assoc)
    also have "\<dots> = (if ?m \<le> ?x then insertSort_from m (int (Suc i)) (insort ?x ?s @ drop (Suc i) a0) else None)"
      using shift_correct [of ?s "last ?s" "drop (Suc i) a0" ?x] m by (auto simp: add.commute)
    finally show ?thesis
      using Suc.IH [of "Suc i"] Suc.prems i step by (auto simp: less_Suc_eq add.commute)
  next
    case False
    with big have "insort ?x ?s @ drop (Suc i) a0 = ?a" using dr by simp
    moreover have "?m \<le> ?x" using False m(2) ne by (meson last_in_set not_less order_trans)
    ultimately show ?thesis
      using False lx ly Suc.IH [of "Suc i"] Suc.prems i step by (auto simp: less_Suc_eq add.commute)
  qed
qed

text \<open>The insertion sort has no sentinel: it sorts exactly the arrays whose first element is a minimum, and on
  every other array it reads below the array.\<close>

theorem insertSort_correct:
  assumes "a \<noteq> []"
  shows "yang_insertSort a (int (length a)) = (if \<forall>k<length a. a ! 0 \<le> a ! k then Some (sort a) else None)"
  using insertSort_from_correct [of a "length a" 1 "length a - 1"] assms
  by (cases a) (auto simp: yang_insertSort_def nat_diff_distrib)

theorem insertSort_correct_witness: "yang_insertSort [2, 1] 2 = None \<and> yang_insertSort [1, 3, 2] 3 = Some [1, 2, 3]"
  using insertSort_correct [of "[2, 1]"] insertSort_correct [of "[1, 3, 2]"]
  by (auto simp: less_Suc_eq numeral_2_eq_2 numeral_3_eq_3 All_less_Suc)

text \<open>The array object represents the list \<open>xs\<close>.\<close>

definition us_repr :: "u16 \<Rightarrow> yang_uint16_sort \<Rightarrow> u16 list \<Rightarrow> bool" where
  "us_repr base ps xs \<longleftrightarrow>
     seq_sorted base xs \<and> us_vsize ps = word_of_nat (length xs)
     \<and> (case us_payload ps of None \<Rightarrow> False
        | Some p \<Rightarrow> take (length xs) p = xs \<and> length xs < length p
                  \<and> length p = unat (us_capacity ps) \<and> length p < 2 ^ 31 - 50)"

lemma uint16Sort_grow:
  assumes "us_repr base ps xs" "us_payload ps = Some p" "us_vsize ps \<ge> us_capacity ps - 1"
  shows "\<exists>tmp. mem_read p 0 (uint (us_vsize ps)) = Some xs
    \<and> mem_write (replicate (unat (us_capacity ps + 50)) 0) 0 xs = Some tmp
    \<and> take (length xs) tmp = xs \<and> length tmp = unat (us_capacity ps) + 50
    \<and> unat (us_capacity ps + 50) = unat (us_capacity ps) + 50"
proof -
  let ?n = "length xs" and ?c = "unat (us_capacity ps)"
  from assms have r: "take ?n p = xs" "?n < length p" "length p = ?c" "length p < 2 ^ 31 - 50"
    "us_vsize ps = word_of_nat ?n"
    by (auto simp: us_repr_def)
  have c: "unat (us_capacity ps + 50) = ?c + 50"
    using r(3,4) by (simp add: unat_word_ariths)
  have u: "uint (us_vsize ps) = int ?n"
    using r(2-5) by (simp add: unsigned_of_nat take_bit_nat_eq_self)
  have "mem_read p 0 (int ?n) = Some xs" using r(1,2) by (auto simp: mem_read_def)
  moreover have "\<exists>tmp. mem_write (replicate (?c + 50) 0) 0 xs = Some tmp
      \<and> take ?n tmp = xs \<and> length tmp = ?c + 50"
    using r(2,3) by (auto simp: mem_write_def simp del: of_nat_unat)
  ultimately show ?thesis using c u by simp
qed

lemma uint16Sort_insert_repr:
  assumes "us_repr base ps xs" "in_window base v" "unat (us_capacity ps) < 2 ^ 31 - 100"
  shows "\<exists>ps'. yang_insert_uint16Sort ps v = Some ps' \<and> us_repr base ps' (seq_insert base v xs)
     \<and> unat (us_capacity ps') \<le> unat (us_capacity ps) + 50"
proof -
  let ?n = "length xs"
  from assms(1) obtain p where r: "us_payload ps = Some p" "take ?n p = xs" "?n < length p"
    "length p = unat (us_capacity ps)" "length p < 2 ^ 31 - 50" "us_vsize ps = word_of_nat ?n"
    "seq_sorted base xs"
    by (auto simp: us_repr_def split: option.splits)
  have len: "length (seq_insert base v xs) \<le> Suc ?n" by (simp add: seq_insert_def)
  show ?thesis
  proof (cases "us_vsize ps \<ge> us_capacity ps - 1")
    case True
    from uint16Sort_grow [OF assms(1) r(1) True] obtain tmp
      where tmp: "mem_read p 0 (uint (us_vsize ps)) = Some xs"
        "mem_write (replicate (unat (us_capacity ps + 50)) 0) 0 xs = Some tmp"
        "take ?n tmp = xs" "length tmp = unat (us_capacity ps) + 50"
        "unat (us_capacity ps + 50) = unat (us_capacity ps) + 50" by blast
    from insertion_result [OF r(7) assms(2) tmp(3)] tmp(4) r(3-5)
    obtain a' where "yang_insert_uint16_sort tmp v (word_of_nat ?n)
        = Some (if v \<in> set xs then 1 else Yang_Ok, a', word_of_nat (length (seq_insert base v xs)))"
      "length a' = length tmp" "take (length (seq_insert base v xs)) a' = seq_insert base v xs"
      by auto
    with r tmp True len assms(3) seq_insert_sorted [OF r(7) assms(2)] show ?thesis
      by (auto simp: yang_insert_uint16Sort_def us_repr_def)
  next
    case False
    then have room: "Suc ?n < length p"
    proof -
      have "us_capacity ps \<noteq> 0" using r(3,4) by auto
      then have "unat (us_capacity ps - 1) = length p - 1" using r(4) by (simp add: unat_minus_one)
      moreover have "unat (us_vsize ps) = ?n"
        using r(3,5,6) by (simp add: unsigned_of_nat take_bit_nat_eq_self)
      ultimately show ?thesis using False by (simp add: word_le_nat_alt)
    qed
    from insertion_result [OF r(7) assms(2) r(2,3)] r(5) room
    obtain a' where "yang_insert_uint16_sort p v (word_of_nat ?n)
        = Some (if v \<in> set xs then 1 else Yang_Ok, a', word_of_nat (length (seq_insert base v xs)))"
      "length a' = length p" "take (length (seq_insert base v xs)) a' = seq_insert base v xs"
      by auto
    with r False len room seq_insert_sorted [OF r(7) assms(2)] show ?thesis
      by (auto simp: yang_insert_uint16Sort_def us_repr_def)
  qed
qed

text \<open>Inserting a sequence number into a sorted array keeps it sorted, adds the number unless it is already
  there, never leaves the array whatever its fill level, and grows the array when it is full.\<close>

theorem uint16Sort_insert:
  assumes "us_repr base ps xs" "in_window base v" "unat (us_capacity ps) < 2 ^ 31 - 100"
  shows "\<exists>ps'. yang_insert_uint16Sort ps v = Some ps' \<and> us_repr base ps' (seq_insert base v xs)"
  using uint16Sort_insert_repr [OF assms] by blast

theorem uint16Sort_insert_witness:
  "\<exists>ps'. yang_insert_uint16Sort \<lparr>us_vsize = 2, us_capacity = 50, us_payload = Some (65535 # 3 # replicate 48 0)\<rparr> 1 = Some ps'
    \<and> us_repr 65530 ps' (seq_insert 65530 1 [65535, 3])"
  by (rule uint16Sort_insert) (simp_all add: us_repr_def seq_sorted_def in_window_def seq_rank_def)

end
