(* ===== verification/Rtcp_Nack.thy ===== *)
theory Rtcp_Nack
  imports Rtcp_Common Seq_Sort
begin

text \<open>
  Generic NACK packets: \<open>yangrtp/YangRtcpNack.c\<close>. The structure keeps the missing sequence numbers in
  a sorted array; the packet carries them as chunks of a packet id and a bit mask of the sixteen
  numbers that follow it.
\<close>

section \<open>Operations\<close>

definition yang_rtcpNack_clear :: "rtcp_nack \<Rightarrow> rtcp_nack option" where
  "yang_rtcpNack_clear nack =
     (if nk_vsize nack = 0 then Some nack
      else do {
        p \<leftarrow> nk_nacks nack;
        p \<leftarrow> mem_write p 0 (replicate (unat (nk_vsize nack)) 0);
        Some (nack\<lparr>nk_nacks := Some p, nk_vsize := 0\<rparr>)
      })"

definition yang_rtcpNack_addSn :: "rtcp_nack \<Rightarrow> u16 \<Rightarrow> rtcp_nack option" where
  "yang_rtcpNack_addSn nack sn = do {
     p \<leftarrow> nk_nacks nack;
     nack \<leftarrow> (if nk_vsize nack \<ge> nk_capacity nack - 1 then do {
                src \<leftarrow> mem_read p 0 (uint (nk_vsize nack));
                tmp \<leftarrow> mem_write (replicate (unat (nk_capacity nack + 50)) 0) 0 src;
                Some (nack\<lparr>nk_nacks := Some tmp, nk_capacity := nk_capacity nack + 50\<rparr>)
              }
              else Some nack);
     p \<leftarrow> nk_nacks nack;
     (err, p, n) \<leftarrow> yang_insert_uint16_sort p sn (nk_vsize nack);
     Some (nack\<lparr>nk_nacks := Some p, nk_vsize := n\<rparr>)
   }"

text \<open>The loop over the sixteen bits of a mask; \<open>js\<close> lists the bits still to look at.\<close>

primrec add_blp_bits :: "rtcp_nack \<Rightarrow> u16 \<Rightarrow> u16 \<Rightarrow> nat list \<Rightarrow> rtcp_nack option" where
  "add_blp_bits nack pid blp [] = Some nack"
| "add_blp_bits nack pid blp (j # js) = do {
     nack \<leftarrow> (if bit blp j then yang_rtcpNack_addSn nack (pid + word_of_nat j + 1) else Some nack);
     add_blp_bits nack pid blp js
   }"

primrec decode_nack_chunks :: "nat \<Rightarrow> rtcp_nack \<Rightarrow> yang_buffer \<Rightarrow> (rtcp_nack \<times> yang_buffer) option" where
  "decode_nack_chunks 0 nack b = Some (nack, b)"
| "decode_nack_chunks (Suc n) nack b = do {
     (pid, b) \<leftarrow> yang_read_2bytes b;
     (blp, b) \<leftarrow> yang_read_2bytes b;
     nack \<leftarrow> yang_rtcpNack_addSn nack pid;
     nack \<leftarrow> add_blp_bits nack pid blp [0..<16];
     decode_nack_chunks n nack b
   }"

definition yang_decode_rtcpNack ::
    "rtcp_common \<Rightarrow> yang_buffer \<Rightarrow> (errcode \<times> rtcp_common \<times> yang_buffer) option" where
  "yang_decode_rtcpNack comm b = do {
     let comm = note_data comm b;
     (err, comm, b) \<leftarrow> yang_decode_header_rtcpCommon comm b;
     if err \<noteq> Yang_Ok then Some (err, comm, b)
     else do {
       nack \<leftarrow> rc_nack comm;
       (v, b) \<leftarrow> yang_read_4bytes b;
       let nack = nack\<lparr>nk_mediaSsrc := v\<rparr>;
       (nack, b) \<leftarrow> decode_nack_chunks (nat (uint (rh_length (rc_header comm)) - 2)) nack b;
       Some (err, comm\<lparr>rc_nack := Some nack\<rparr>, b)
     }
   }"

definition yang_rtcpNack_nb_bytes :: int where
  "yang_rtcpNack_nb_bytes = 1500"

record pid_blp =
  pb_pid :: u16
  pb_blp :: u16
  pb_in_use :: bool

text \<open>
  The state of the chunk loop: the open chunk, the \<open>pid\<close> the distances are taken from (\<open>uint16_t\<close>
  values, subtracted as \<open>int\<close>) and the chunks closed so far, the last one first.
\<close>

record nack_enc =
  ne_chunk :: pid_blp
  ne_pid :: u16
  ne_done :: "pid_blp list"

definition nack_enc_step :: "nack_enc \<Rightarrow> u16 \<Rightarrow> nack_enc" where
  "nack_enc_step e sn =
     (if \<not> pb_in_use (ne_chunk e)
      then e\<lparr>ne_chunk := \<lparr>pb_pid = sn, pb_blp = 0, pb_in_use = True\<rparr>, ne_pid := sn\<rparr>
      else let d = uint sn - uint (ne_pid e) in
        if d < 1 then e
        else if d > 16
        then e\<lparr>ne_done := ne_chunk e # ne_done e, ne_chunk := (ne_chunk e)\<lparr>pb_in_use := False\<rparr>\<rparr>
        else e\<lparr>ne_chunk := (ne_chunk e)\<lparr>pb_blp := pb_blp (ne_chunk e) OR push_bit (nat (d - 1)) 1\<rparr>\<rparr>)"

definition nack_chunks :: "u16 list \<Rightarrow> pid_blp list" where
  "nack_chunks sns =
     (let e = foldl nack_enc_step
                \<lparr>ne_chunk = \<lparr>pb_pid = 0, pb_blp = 0, pb_in_use = False\<rparr>, ne_pid = 0, ne_done = []\<rparr> sns
      in rev (if pb_in_use (ne_chunk e) then ne_chunk e # ne_done e else ne_done e))"

primrec write_nack_chunks :: "pid_blp list \<Rightarrow> yang_buffer \<Rightarrow> yang_buffer option" where
  "write_nack_chunks [] b = Some b"
| "write_nack_chunks (c # cs) b = do {
     b \<leftarrow> yang_write_2bytes b (pb_pid c);
     b \<leftarrow> yang_write_2bytes b (pb_blp c);
     write_nack_chunks cs b
   }"

definition yang_encode_rtcpNack ::
    "rtcp_common \<Rightarrow> yang_buffer \<Rightarrow> (errcode \<times> rtcp_common \<times> yang_buffer) option" where
  "yang_encode_rtcpNack comm b =
     (if \<not> yang_buffer_require b yang_rtcpNack_nb_bytes then Some (ERROR_RTC_RTCP, comm, b)
      else do {
        nack \<leftarrow> rc_nack comm;
        sns \<leftarrow> (if nk_vsize nack = 0 then Some []
               else do { p \<leftarrow> nk_nacks nack; mem_read p 0 (uint (nk_vsize nack)) });
        let chunks = nack_chunks sns;
        let comm = comm\<lparr>rc_header := (rc_header comm)\<lparr>rh_length := word_of_nat (2 + length chunks)\<rparr>\<rparr>;
        (err, comm, b) \<leftarrow> yang_encode_header_rtcpCommon comm b;
        if err \<noteq> Yang_Ok then Some (err, comm, b)
        else do {
          b \<leftarrow> yang_write_4bytes b (nk_mediaSsrc nack);
          b \<leftarrow> write_nack_chunks chunks b;
          Some (err, comm, b)
        }
      })"

definition yang_rtcpNack_init :: "rtcp_common \<Rightarrow> u32 \<Rightarrow> rtcp_common" where
  "yang_rtcpNack_init comm pssrc =
     (let comm = set_header comm YangRtcpType_rtpfb 1;
          comm = comm\<lparr>rc_header := (rc_header comm)\<lparr>rh_length := 0\<rparr>, rc_ssrc := pssrc\<rparr>
      in case rc_nack comm of
           None \<Rightarrow> comm
         | Some nack \<Rightarrow> comm\<lparr>rc_nack := Some (nack\<lparr>nk_mediaSsrc := pssrc\<rparr>)\<rparr>)"

text \<open>
  The array of a new NACK comes from \<open>malloc\<close>; its elements beyond the size are never used, and are
  zero in the model.
\<close>

definition yang_create_rtcpNack :: "rtcp_common \<Rightarrow> u32 \<Rightarrow> rtcp_common" where
  "yang_create_rtcpNack comm pssrc =
     (let nack = (case rc_nack comm of
                    None \<Rightarrow> \<lparr>nk_mediaSsrc = 0, nk_vsize = 0, nk_capacity = 0, nk_nacks = None\<rparr>
                  | Some n \<Rightarrow> n);
          nack = nack\<lparr>nk_capacity := 50\<rparr>;
          nack = (case nk_nacks nack of
                    None \<Rightarrow> nack\<lparr>nk_nacks := Some (replicate 50 0)\<rparr>
                  | Some _ \<Rightarrow> nack)
      in yang_rtcpNack_init (comm\<lparr>rc_nack := Some nack\<rparr>) pssrc)"

definition yang_destroy_rtcpNack :: "rtcp_common \<Rightarrow> rtcp_common" where
  "yang_destroy_rtcpNack comm = comm\<lparr>rc_nack := None\<rparr>"

text \<open>The clean-up of a whole RTCP structure (\<open>YangRtcpCommon.c\<close>).\<close>

definition yang_destroy_rtcpCommon :: "rtcp_common \<Rightarrow> rtcp_common" where
  "yang_destroy_rtcpCommon comm =
     (let comm = yang_destroy_rtcpSR comm;
          comm = yang_destroy_rtcpRR comm;
          comm = yang_destroy_rtcpNack comm;
          comm = yang_destroy_rtcpRpsi comm
      in comm\<lparr>rc_data := None\<rparr>)"

section \<open>The set of numbers a packet asks for\<close>

definition chunk_set :: "pid_blp \<Rightarrow> u16 set" where
  "chunk_set c = insert (pb_pid c) {pb_pid c + word_of_nat j + 1 | j. j < 16 \<and> bit (pb_blp c) j}"

definition chunks_set :: "pid_blp list \<Rightarrow> u16 set" where
  "chunks_set cs = (\<Union>c\<in>set cs. chunk_set c)"

definition enc_set :: "nack_enc \<Rightarrow> u16 set" where
  "enc_set e = chunks_set (ne_done e) \<union> (if pb_in_use (ne_chunk e) then chunk_set (ne_chunk e) else {})"

text \<open>The open chunk starts at the reference number.\<close>

definition enc_ok :: "nack_enc \<Rightarrow> bool" where
  "enc_ok e \<longleftrightarrow> (pb_in_use (ne_chunk e) \<longrightarrow> ne_pid e = pb_pid (ne_chunk e))"

lemma chunk_set_set_bit:
  assumes "1 \<le> d" "d \<le> (16::int)" "uint sn = uint pid + d"
  shows "chunk_set \<lparr>pb_pid = pid, pb_blp = blp OR push_bit (nat (d - 1)) 1, pb_in_use = u\<rparr>
    = insert sn (chunk_set \<lparr>pb_pid = pid, pb_blp = blp, pb_in_use = u\<rparr>)"
proof -
  have "sn = pid + word_of_nat (nat (d - 1)) + 1"
  proof -
    define k where "k = nat (d - 1)"
    have d: "d = int k + 1" using assms(1) by (simp add: k_def)
    have "sn = word_of_int (uint pid + (int k + 1))"
      using assms(3) unfolding d [symmetric] by (metis word_of_int_uint)
    then show ?thesis by (simp add: add.assoc flip: k_def)
  qed
  moreover have "bit (blp OR push_bit (nat (d - 1)) (1::u16)) j \<longleftrightarrow> bit blp j \<or> j = nat (d - 1)" if "j < 16" for j
    using that by (auto simp: bit_simps)
  moreover have "nat (d - 1) < 16" using assms by simp
  ultimately show ?thesis by (auto simp: chunk_set_def)
qed

lemma enc_step_set:
  assumes "enc_ok e"
  shows "enc_ok (nack_enc_step e sn)"
    and "enc_set (nack_enc_step e sn) \<subseteq> insert sn (enc_set e)"
    and "enc_set e \<subseteq> enc_set (nack_enc_step e sn)"
proof -
  obtain p blp u where c: "ne_chunk e = \<lparr>pb_pid = p, pb_blp = blp, pb_in_use = u\<rparr>" by (cases "ne_chunk e") auto
  let ?d = "uint sn - uint (ne_pid e)"
  have pid: "u \<Longrightarrow> ne_pid e = p" using assms c by (simp add: enc_ok_def)
  have new: "chunk_set \<lparr>pb_pid = sn, pb_blp = 0, pb_in_use = True\<rparr> = {sn}" by (simp add: chunk_set_def)
  consider "\<not> u" | "u" "?d < 1" | "u" "?d > 16" | "u" "1 \<le> ?d" "?d \<le> 16" by linarith
  then have *: "enc_ok (nack_enc_step e sn) \<and> enc_set (nack_enc_step e sn) \<subseteq> insert sn (enc_set e)
     \<and> enc_set e \<subseteq> enc_set (nack_enc_step e sn)"
  proof cases
    case 4
    then have "chunk_set \<lparr>pb_pid = p, pb_blp = blp OR push_bit (nat (?d - 1)) 1, pb_in_use = True\<rparr>
       = insert sn (chunk_set \<lparr>pb_pid = p, pb_blp = blp, pb_in_use = True\<rparr>)"
      using pid by (intro chunk_set_set_bit) simp_all
    with 4 c pid show ?thesis
      by (auto simp: nack_enc_step_def enc_ok_def enc_set_def Let_def)
  qed (use c pid new in \<open>auto simp: nack_enc_step_def enc_ok_def enc_set_def chunks_set_def Let_def\<close>)
  then show "enc_ok (nack_enc_step e sn)" "enc_set (nack_enc_step e sn) \<subseteq> insert sn (enc_set e)"
    "enc_set e \<subseteq> enc_set (nack_enc_step e sn)" by auto
qed

lemma enc_fold_set:
  "enc_ok e \<Longrightarrow> enc_ok (foldl nack_enc_step e sns) \<and> enc_set (foldl nack_enc_step e sns) \<subseteq> set sns \<union> enc_set e"
proof (induction sns arbitrary: e)
  case (Cons sn sns)
  from enc_step_set(1,2) [OF Cons.prems, of sn] Cons.IH [of "nack_enc_step e sn"] show ?case by auto
qed simp

lemma nack_chunks_subset: "chunks_set (nack_chunks sns) \<subseteq> set sns"
proof -
  let ?e0 = "\<lparr>ne_chunk = \<lparr>pb_pid = 0, pb_blp = 0, pb_in_use = False\<rparr>, ne_pid = 0, ne_done = []\<rparr>"
  have "enc_ok ?e0" "enc_set ?e0 = {}" by (simp_all add: enc_ok_def enc_set_def chunks_set_def)
  with enc_fold_set [of ?e0 sns] show ?thesis
    by (auto simp: nack_chunks_def Let_def enc_set_def chunks_set_def split: if_splits)
qed

text \<open>Numbers within sixteen of the first one all end up in one chunk.\<close>

lemma enc_fold_near:
  assumes "pb_in_use (ne_chunk e)" "enc_ok e" "ne_done e = []"
    and "\<forall>x\<in>set sns. 1 \<le> uint x - uint (ne_pid e) \<and> uint x - uint (ne_pid e) \<le> 16"
  shows "\<exists>c. foldl nack_enc_step e sns = e\<lparr>ne_chunk := c\<rparr> \<and> pb_in_use c
     \<and> chunk_set c = chunk_set (ne_chunk e) \<union> set sns"
  using assms
proof (induction sns arbitrary: e)
  case Nil
  then show ?case by (intro exI [of _ "ne_chunk e"]) simp
next
  case (Cons sn sns)
  obtain p blp u where c: "ne_chunk e = \<lparr>pb_pid = p, pb_blp = blp, pb_in_use = u\<rparr>" by (cases "ne_chunk e") auto
  let ?d = "uint sn - uint (ne_pid e)"
  let ?c = "\<lparr>pb_pid = p, pb_blp = blp OR push_bit (nat (?d - 1)) 1, pb_in_use = True\<rparr>"
  have step: "nack_enc_step e sn = e\<lparr>ne_chunk := ?c\<rparr>"
    using Cons.prems c by (auto simp: nack_enc_step_def Let_def)
  have "chunk_set ?c = insert sn (chunk_set (ne_chunk e))"
    using Cons.prems c by (subst chunk_set_set_bit) (auto simp: enc_ok_def)
  with Cons.IH [of "e\<lparr>ne_chunk := ?c\<rparr>"] Cons.prems c step show ?case
    by (auto simp: enc_ok_def)
qed

lemma nack_chunks_near:
  assumes "\<forall>y\<in>set sns. 1 \<le> uint y - uint x \<and> uint y - uint x \<le> 16"
  shows "chunks_set (nack_chunks (x # sns)) = set (x # sns) \<and> length (nack_chunks (x # sns)) = 1"
proof -
  let ?e1 = "\<lparr>ne_chunk = \<lparr>pb_pid = x, pb_blp = 0, pb_in_use = True\<rparr>, ne_pid = x, ne_done = []\<rparr>"
  from enc_fold_near [of ?e1 sns] assms obtain c
    where "foldl nack_enc_step ?e1 sns = ?e1\<lparr>ne_chunk := c\<rparr>" "pb_in_use c"
      "chunk_set c = chunk_set (ne_chunk ?e1) \<union> set sns"
    by (auto simp: enc_ok_def)
  then show ?thesis
    by (simp add: nack_chunks_def nack_enc_step_def Let_def chunks_set_def) (simp add: chunk_set_def)
qed

section \<open>The sorted array inside a NACK\<close>

definition nack_array :: "rtcp_nack \<Rightarrow> yang_uint16_sort" where
  "nack_array n = \<lparr>us_vsize = nk_vsize n, us_capacity = nk_capacity n, us_payload = nk_nacks n\<rparr>"

definition nack_repr :: "u16 \<Rightarrow> rtcp_nack \<Rightarrow> u16 list \<Rightarrow> bool" where
  "nack_repr base n xs \<longleftrightarrow> us_repr base (nack_array n) xs"

text \<open>\<open>yang_rtcpNack_addSn\<close> is the insertion of \<open>YangVector.c\<close> on the fields of the NACK.\<close>

lemma addSn_array:
  "yang_rtcpNack_addSn n sn = map_option
     (\<lambda>ps. n\<lparr>nk_vsize := us_vsize ps, nk_capacity := us_capacity ps, nk_nacks := us_payload ps\<rparr>)
     (yang_insert_uint16Sort (nack_array n) sn)"
  by (cases "nk_nacks n")
    (auto simp: yang_rtcpNack_addSn_def yang_insert_uint16Sort_def nack_array_def split: Option.bind_splits)

lemma addSn_repr:
  assumes "nack_repr base n xs" "in_window base v" "unat (nk_capacity n) < 2 ^ 31 - 100"
  shows "\<exists>n'. yang_rtcpNack_addSn n v = Some n' \<and> nack_repr base n' (seq_insert base v xs)
     \<and> unat (nk_capacity n') \<le> unat (nk_capacity n) + 50 \<and> nk_mediaSsrc n' = nk_mediaSsrc n"
proof -
  from uint16Sort_insert_repr [of base "nack_array n" xs v] assms obtain ps
    where "yang_insert_uint16Sort (nack_array n) v = Some ps" "us_repr base ps (seq_insert base v xs)"
      "unat (us_capacity ps) \<le> unat (nk_capacity n) + 50"
    by (auto simp: nack_repr_def nack_array_def)
  then show ?thesis by (cases ps) (simp add: addSn_array nack_repr_def nack_array_def)
qed

lemma seq_insert_set:
  "nack_repr base n xs \<Longrightarrow> in_window base v \<Longrightarrow> set (seq_insert base v xs) = insert v (set xs)"
  by (rule seq_insert_sorted(2)) (auto simp: nack_repr_def us_repr_def)

lemma add_blp_bits_repr:
  assumes "nack_repr base n xs" "\<forall>j\<in>set js. bit blp j \<longrightarrow> in_window base (pid + word_of_nat j + 1)"
    and "unat (nk_capacity n) + 50 * length js < 2 ^ 31 - 100"
  shows "\<exists>n' ys. add_blp_bits n pid blp js = Some n' \<and> nack_repr base n' ys
     \<and> set ys = set xs \<union> {pid + word_of_nat j + 1 | j. j \<in> set js \<and> bit blp j}
     \<and> unat (nk_capacity n') \<le> unat (nk_capacity n) + 50 * length js \<and> nk_mediaSsrc n' = nk_mediaSsrc n"
  using assms
proof (induction js arbitrary: n xs)
  case (Cons j js)
  let ?v = "pid + word_of_nat j + 1"
  show ?case
  proof (cases "bit blp j")
    case True
    then have w: "in_window base ?v" using Cons.prems(2) by simp
    from addSn_repr [OF Cons.prems(1) w] Cons.prems(3) obtain n1
      where n1: "yang_rtcpNack_addSn n ?v = Some n1" "nack_repr base n1 (seq_insert base ?v xs)"
        "unat (nk_capacity n1) \<le> unat (nk_capacity n) + 50" "nk_mediaSsrc n1 = nk_mediaSsrc n"
      by auto
    from Cons.IH [OF n1(2)] Cons.prems(2,3) n1(3) obtain n' ys
      where n': "add_blp_bits n1 pid blp js = Some n'" "nack_repr base n' ys"
        "set ys = set (seq_insert base ?v xs) \<union> {pid + word_of_nat j + 1 | j. j \<in> set js \<and> bit blp j}"
        "unat (nk_capacity n') \<le> unat (nk_capacity n1) + 50 * length js" "nk_mediaSsrc n' = nk_mediaSsrc n1"
      by auto
    have "set ys = set xs \<union> {pid + word_of_nat i + 1 | i. i \<in> set (j # js) \<and> bit blp i}"
      using n'(3) True by (auto simp: seq_insert_set [OF Cons.prems(1) w])
    with n' n1 True show ?thesis by (intro exI [of _ n'] exI [of _ ys]) simp
  next
    case False
    from Cons.IH [OF Cons.prems(1)] Cons.prems(2,3) obtain n' ys
      where n': "add_blp_bits n pid blp js = Some n'" "nack_repr base n' ys"
        "set ys = set xs \<union> {pid + word_of_nat j + 1 | j. j \<in> set js \<and> bit blp j}"
        "unat (nk_capacity n') \<le> unat (nk_capacity n) + 50 * length js" "nk_mediaSsrc n' = nk_mediaSsrc n"
      by auto
    have "set ys = set xs \<union> {pid + word_of_nat i + 1 | i. i \<in> set (j # js) \<and> bit blp i}"
      using n'(3) False by auto
    with n' False show ?thesis by (intro exI [of _ n'] exI [of _ ys]) simp
  qed
qed auto

definition chunk_wire :: "pid_blp \<Rightarrow> u8 list" where
  "chunk_wire c = be16 (pb_pid c) @ be16 (pb_blp c)"

lemma length_chunks_wire [simp]: "length (concat (map chunk_wire cs)) = 4 * length cs"
  by (induction cs) (simp_all add: chunk_wire_def)

lemma decode_chunks_repr:
  assumes "nack_repr base n xs" "ahead b (concat (map chunk_wire cs))"
    and "\<forall>x\<in>chunks_set cs. in_window base x"
    and "unat (nk_capacity n) + 900 * length cs < 2 ^ 31 - 100"
  shows "\<exists>n' ys. decode_nack_chunks (length cs) n b = Some (n', adv b (4 * length cs)) \<and> nack_repr base n' ys
     \<and> set ys = set xs \<union> chunks_set cs \<and> nk_mediaSsrc n' = nk_mediaSsrc n"
  using assms
proof (induction cs arbitrary: n xs b)
  case Nil
  then show ?case by (auto simp: chunks_set_def wire_simps)
next
  case (Cons c cs)
  let ?p = "pb_pid c" and ?m = "pb_blp c"
  from Cons.prems(2) have a: "ahead b (be16 ?p)" "ahead (adv b 2) (be16 ?m)" "ahead (adv b 4) (concat (map chunk_wire cs))"
    by (simp_all add: chunk_wire_def [of c] wire_simps)
  have w: "in_window base ?p" "\<forall>j\<in>set [0..<16]. bit ?m j \<longrightarrow> in_window base (?p + word_of_nat j + 1)"
  proof -
    have sub: "x \<in> chunk_set c \<Longrightarrow> in_window base x" for x
      using Cons.prems(3) by (auto simp: chunks_set_def)
    show "in_window base ?p" by (rule sub) (simp add: chunk_set_def)
    show "\<forall>j\<in>set [0..<16]. bit ?m j \<longrightarrow> in_window base (?p + word_of_nat j + 1)"
    proof (intro ballI impI)
      fix j :: nat assume "j \<in> set [0..<16]" "bit ?m j"
      then show "in_window base (?p + word_of_nat j + 1)"
        by (intro sub) (auto simp: chunk_set_def)
    qed
  qed
  from addSn_repr [OF Cons.prems(1) w(1)] Cons.prems(4) obtain n1
    where n1: "yang_rtcpNack_addSn n ?p = Some n1" "nack_repr base n1 (seq_insert base ?p xs)"
      "unat (nk_capacity n1) \<le> unat (nk_capacity n) + 50" "nk_mediaSsrc n1 = nk_mediaSsrc n"
    by auto
  from add_blp_bits_repr [OF n1(2) w(2)] n1(3) Cons.prems(4) obtain n2 ys
    where n2: "add_blp_bits n1 ?p ?m [0..<16] = Some n2" "nack_repr base n2 ys"
      "set ys = set (seq_insert base ?p xs) \<union> {?p + word_of_nat j + 1 | j. j \<in> set [0..<16] \<and> bit ?m j}"
      "unat (nk_capacity n2) \<le> unat (nk_capacity n1) + 50 * length [0..<16::nat]" "nk_mediaSsrc n2 = nk_mediaSsrc n1"
    by auto
  have ys: "set ys = set xs \<union> chunk_set c"
    unfolding n2(3) seq_insert_set [OF Cons.prems(1) w(1)] chunk_set_def by auto
  from Cons.IH [OF n2(2) a(3)] Cons.prems(3,4) n1(3) n2(4) obtain n' zs
    where n': "decode_nack_chunks (length cs) n2 (adv b 4) = Some (n', adv (adv b 4) (4 * length cs))"
      "nack_repr base n' zs" "set zs = set ys \<union> chunks_set cs" "nk_mediaSsrc n' = nk_mediaSsrc n2"
    by (auto simp: chunks_set_def)
  have "set zs = set xs \<union> chunks_set (c # cs)" using n'(3) ys by (auto simp: chunks_set_def)
  moreover have "decode_nack_chunks (length (c # cs)) n b = Some (n', adv b (4 * length (c # cs)))"
    using n1(1) n2(1) n'(1)
    by (simp add: w16.rd_ahead [OF a(1)] w16.rd_ahead [OF a(2)] wire_simps del: upt.simps upt_conv_Cons)
  ultimately show ?case using n'(2,4) n1(4) n2(5) by auto
qed

section \<open>Properties\<close>

text \<open>C32: A decoded NACK packet holds exactly the numbers its chunks name, pid and masked successors, besides those it
  held before, in sequence order; the packet is read to its end.\<close>

theorem rtcpNack_decode_set:
  assumes "ahead b (rtcp_header_wire h s @ be32 m @ concat (map chunk_wire cs))"
    and "uint (rh_length h) = 2 + int (length cs)" "12 + 4 * int (length cs) \<le> yang_buffer_left b"
    and "rc_nack comm = Some n" "nack_repr base n xs" "\<forall>x\<in>chunks_set cs. in_window base x"
    and "unat (nk_capacity n) + 900 * length cs < 2 ^ 31 - 100"
  shows "\<exists>comm' n' ys. yang_decode_rtcpNack comm b = Some (Yang_Ok, comm', adv b (12 + 4 * length cs))
     \<and> rc_nack comm' = Some n' \<and> nk_mediaSsrc n' = m \<and> nack_repr base n' ys \<and> set ys = set xs \<union> chunks_set cs"
proof -
  from assms(1) have a: "ahead b (rtcp_header_wire h s)" "ahead (adv b 8) (be32 m)"
    "ahead (adv b 12) (concat (map chunk_wire cs))"
    by (simp_all add: wire_simps)
  have "nack_repr base (n\<lparr>nk_mediaSsrc := m\<rparr>) xs" using assms(5) by (simp add: nack_repr_def nack_array_def)
  from decode_chunks_repr [OF this a(3) assms(6)] assms(7) obtain n' ys
    where n': "decode_nack_chunks (length cs) (n\<lparr>nk_mediaSsrc := m\<rparr>) (adv b 12) = Some (n', adv (adv b 12) (4 * length cs))"
      "nack_repr base n' ys" "set ys = set xs \<union> chunks_set cs" "nk_mediaSsrc n' = m"
    by auto
  have "nat (uint (rh_length h) - 2) = length cs" using assms(2) by simp
  moreover have "yang_decode_header_rtcpCommon (note_data comm b) b
      = Some (Yang_Ok, (note_data comm b)\<lparr>rc_header := h, rc_ssrc := s\<rparr>, adv b 8)"
    using assms(2,3) by (intro decode_header_ahead [OF a(1)]) simp_all
  ultimately show ?thesis
    using n' assms(4)
    by (auto simp: yang_decode_rtcpNack_def w32.rd_ahead [OF a(2)] wire_simps note_data_def)
qed

definition sample_nack_header :: rtcp_header where
  "sample_nack_header = \<lparr>rh_rc = 1, rh_padding = 0, rh_version = 2, rh_type = 205, rh_length = 3\<rparr>"

definition sample_nack_packet :: yang_buffer where
  "sample_nack_packet = yang_init_buffer (rtcp_header_wire sample_nack_header 7
     @ be32 9 @ concat (map chunk_wire [\<lparr>pb_pid = 65535, pb_blp = 3, pb_in_use = True\<rparr>])) 0 16"

lemma chunk_near:
  assumes "x \<in> chunk_set c" 
  shows "in_window (pb_pid c) x"
proof -
  have "unat (word_of_nat j + 1 :: u16) < 2 ^ 15" if "j < 16" for j
    using that by (simp add: unat_word_ariths unsigned_of_nat take_bit_nat_eq_self)
  then show ?thesis using assms by (auto simp: chunk_set_def in_window_def seq_rank_def algebra_simps)
qed

theorem rtcpNack_decode_set_witness:
  "\<exists>comm' n' ys. yang_decode_rtcpNack (yang_create_rtcpNack zero_rtcp 0) sample_nack_packet
        = Some (Yang_Ok, comm', adv sample_nack_packet (12 + 4 * length [\<lparr>pb_pid = 65535, pb_blp = 3, pb_in_use = True\<rparr>]))
     \<and> rc_nack comm' = Some n' \<and> nk_mediaSsrc n' = 9 \<and> nack_repr 65535 n' ys
     \<and> set ys = set [] \<union> chunks_set [\<lparr>pb_pid = 65535, pb_blp = 3, pb_in_use = True\<rparr>]"
proof (rule rtcpNack_decode_set)
  show "ahead sample_nack_packet (rtcp_header_wire sample_nack_header 7 @ be32 9
      @ concat (map chunk_wire [\<lparr>pb_pid = 65535, pb_blp = 3, pb_in_use = True\<rparr>]))"
    by (simp add: ahead_def room_def peek_def sample_nack_packet_def yang_init_buffer_def chunk_wire_def)
  show "uint (rh_length sample_nack_header) = 2 + int (length [\<lparr>pb_pid = 65535, pb_blp = 3, pb_in_use = True\<rparr>])"
    by (simp add: sample_nack_header_def)
  show "12 + 4 * int (length [\<lparr>pb_pid = 65535, pb_blp = 3, pb_in_use = True\<rparr>]) \<le> yang_buffer_left sample_nack_packet"
    by (simp add: sample_nack_packet_def yang_init_buffer_def yang_buffer_left_def)
  show "\<forall>x\<in>chunks_set [\<lparr>pb_pid = 65535, pb_blp = 3, pb_in_use = True\<rparr>]. in_window 65535 x"
    using chunk_near [of _ "\<lparr>pb_pid = 65535, pb_blp = 3, pb_in_use = True\<rparr>"] by (simp add: chunks_set_def)
  show "rc_nack (yang_create_rtcpNack zero_rtcp 0)
      = Some \<lparr>nk_mediaSsrc = 0, nk_vsize = 0, nk_capacity = 50, nk_nacks = Some (replicate 50 0)\<rparr>"
    by (simp add: yang_create_rtcpNack_def yang_rtcpNack_init_def Let_def zero_rtcp_def set_header_def)
qed (simp_all add: nack_repr_def nack_array_def us_repr_def seq_sorted_def)
text \<open>The encoder never asks for a packet that is not in the list, and a list whose numbers all lie within sixteen
  of the first one becomes a single chunk that asks for exactly the list.\<close>

theorem nack_chunks_sound:
  "chunks_set (nack_chunks sns) \<subseteq> set sns
   \<and> ((\<forall>y\<in>set sns. 1 \<le> uint y - uint x \<and> uint y - uint x \<le> 16)
        \<longrightarrow> chunks_set (nack_chunks (x # sns)) = set (x # sns) \<and> length (nack_chunks (x # sns)) = 1)"
  using nack_chunks_subset nack_chunks_near by blast

theorem nack_chunks_sound_witness:
  "chunks_set (nack_chunks [10, 12, 26]) = {10, 12, 26} \<and> length (nack_chunks [10, 12, 26]) = 1"
  using nack_chunks_sound [of "[12, 26]" 10] by simp

text \<open>A number that is more than sixteen after the start of the open chunk is lost: it closes the chunk and opens
  none, so the packet does not ask for it; and a number after the wrap-around is skipped.\<close>

theorem nack_gap_lost:
  assumes "uint y - uint x > 16 \<or> uint y < uint x"
  shows "nack_chunks [x, y] = [\<lparr>pb_pid = x, pb_blp = 0, pb_in_use = True\<rparr>] \<and> y \<notin> chunks_set (nack_chunks [x, y])"
proof -
  have "nack_chunks [x, y] = [\<lparr>pb_pid = x, pb_blp = 0, pb_in_use = True\<rparr>]"
    using assms by (auto simp: nack_chunks_def nack_enc_step_def Let_def)
  moreover have "y \<noteq> x" using assms by auto
  ultimately show ?thesis by (simp add: chunks_set_def chunk_set_def)
qed

theorem nack_gap_lost_witness:
  "100 \<notin> chunks_set (nack_chunks [1, 100]) \<and> 0 \<notin> chunks_set (nack_chunks [65535, 0])"
  by (rule conjI; rule nack_gap_lost [THEN conjunct2]) simp_all

end
