(* ===== verification/Rtcp_Compound.thy ===== *)
theory Rtcp_Compound
  imports Rtcp_Nack Vector
begin

text \<open>
  Compound RTCP packets: \<open>yangrtp/YangRtcpCompound.c\<close>. The decoder walks over the packets of a
  datagram and calls the decoder of each type. Several branches consume nothing, so the walk may
  not end: the loop takes fuel and its result says whether it ended, faulted or ran out of fuel.

  The locale \<open>rtcp_decoder\<close> states what the walk needs from a decoder, namely that it moves the
  buffer forward by at least one word when it succeeds, and is interpreted on every decoder.
\<close>

section \<open>Operations\<close>

record rtcp_compound =
  cp_nb_bytes :: int
  cp_nb_data :: int
  cp_data :: "int option"
  cp_rtcpVector :: "rtcp_common yang_vector"

definition yang_create_rtcpCompound :: "rtcp_compound \<Rightarrow> rtcp_compound" where
  "yang_create_rtcpCompound rtcp = rtcp\<lparr>cp_rtcpVector := yang_create_Vector zero_rtcp\<rparr>"

definition yang_rtcpCompound_add_rtcp :: "rtcp_compound \<Rightarrow> rtcp_common \<Rightarrow> (errcode \<times> rtcp_compound) option" where
  "yang_rtcpCompound_add_rtcp rtcps rtcp = do {
     v \<leftarrow> yang_insert_Vector zero_rtcp (cp_rtcpVector rtcps) (Some rtcp);
     Some (Yang_Ok, rtcps\<lparr>cp_rtcpVector := v\<rparr>)
   }"

text \<open>Destroying the elements in place before the vector is cleared.\<close>

primrec destroy_elements :: "nat \<Rightarrow> int \<Rightarrow> rtcp_common list \<Rightarrow> rtcp_common list option" where
  "destroy_elements 0 i p = Some p"
| "destroy_elements (Suc n) i p = do {
     c \<leftarrow> mem_load p i;
     p \<leftarrow> mem_store p i (yang_destroy_rtcpCommon c);
     destroy_elements n (i + 1) p
   }"

definition yang_rtcpCompound_clear :: "rtcp_compound \<Rightarrow> rtcp_compound option" where
  "yang_rtcpCompound_clear rtcps =
     (let v = cp_rtcpVector rtcps in
      if vsize v = 0 then Some rtcps
      else do {
        p \<leftarrow> destroy_elements (nat (vsize v)) 0 (payload v);
        v \<leftarrow> yang_clear_Vector zero_rtcp (v\<lparr>payload := p\<rparr>);
        Some (rtcps\<lparr>cp_rtcpVector := v\<rparr>)
      })"

definition yang_destroy_rtcpCompound :: "rtcp_compound \<Rightarrow> rtcp_compound option" where
  "yang_destroy_rtcpCompound rtcp = yang_rtcpCompound_clear rtcp"

definition yang_rtcpCompound_nb_bytes :: int where
  "yang_rtcpCompound_nb_bytes = kRtcpPacketSize"

text \<open>
  The body of the loop up to the test of \<open>err\<close>, on a fresh zeroed structure: the type and the \<open>rc\<close>
  field are peeked at the head. \<open>err\<close> is \<open>Yang_Ok\<close> before each round; the NACK and RPSI branches drop
  the code of their decoder, the SLI branch and the other transport feedback formats decode nothing
  (the TWCC branch is compiled out, \<open>Yang_Enable_TWCC\<close> is 0).
\<close>

definition decode_one_rtcp :: "yang_buffer \<Rightarrow> (errcode \<times> rtcp_common \<times> yang_buffer) option" where
  "decode_one_rtcp b = do {
     t \<leftarrow> mem_load (buf_mem b) (buf_head b + 1);
     b0 \<leftarrow> mem_load (buf_mem b) (buf_head b);
     let rc = b0 AND 0x1F;
     let rtcp = zero_rtcp;
     if t = YangRtcpType_sr then yang_decode_rtcpSR (yang_create_rtcpSR rtcp) b
     else if t = YangRtcpType_rr then yang_decode_rtcpRR (yang_create_rtcpRR rtcp) b
     else if t = YangRtcpType_rtpfb then
       (if rc = 1 then do {
          (_, rtcp, b) \<leftarrow> yang_decode_rtcpNack (yang_create_rtcpNack rtcp 0) b;
          Some (Yang_Ok, rtcp, b)
        }
        else Some (Yang_Ok, rtcp, b))
     else if t = YangRtcpType_psfb then
       (if rc = 1 then yang_decode_rtcpPli (yang_create_rtcpPli rtcp) b
        else if rc = 2 then Some (Yang_Ok, rtcp, b)
        else if rc = 3 then do {
          (_, rtcp, b) \<leftarrow> yang_decode_rtcpRpsi (yang_create_rtcpRpsi rtcp) b;
          Some (Yang_Ok, rtcp, b)
        }
        else yang_decode_rtcpPsfb (yang_create_rtcpPsfb rtcp) b)
     else if t = YangRtcpType_xr then yang_decode_rtcpXr (yang_create_rtcpXr rtcp) b
     else yang_decode_rtcpCommon (yang_create_rtcpCommon rtcp) b
   }"

datatype 'a outcome = Done 'a | Fault | Out_of_fuel

primrec decode_rtcp_loop :: "nat \<Rightarrow> rtcp_compound \<Rightarrow> yang_buffer \<Rightarrow> (errcode \<times> rtcp_compound \<times> yang_buffer) outcome" where
  "decode_rtcp_loop 0 rtcps b = Out_of_fuel"
| "decode_rtcp_loop (Suc n) rtcps b =
     (if yang_buffer_empty b then Done (Yang_Ok, rtcps, b)
      else case decode_one_rtcp b of
        None \<Rightarrow> Fault
      | Some (err, rtcp, b) \<Rightarrow>
          if err \<noteq> Yang_Ok then
            (if err = ERROR_RTC_RTCP_EMPTY_RR then decode_rtcp_loop n rtcps b
             else Done (err, rtcps, b))
          else case yang_rtcpCompound_add_rtcp rtcps rtcp of
            None \<Rightarrow> Fault
          | Some (_, rtcps) \<Rightarrow> decode_rtcp_loop n rtcps b)"

definition yang_decode_rtcpCompound ::
    "nat \<Rightarrow> rtcp_compound \<Rightarrow> yang_buffer \<Rightarrow> (errcode \<times> rtcp_compound \<times> yang_buffer) outcome" where
  "yang_decode_rtcpCompound fuel rtcps b =
     decode_rtcp_loop fuel (rtcps\<lparr>cp_data := Some (buf_data b), cp_nb_data := buf_size b\<rparr>) b"

definition encode_one_rtcp ::
    "errcode \<Rightarrow> rtcp_common \<Rightarrow> yang_buffer \<Rightarrow> (errcode \<times> rtcp_common \<times> yang_buffer) option" where
  "encode_one_rtcp err rtcp b =
     (let t = rh_type (rc_header rtcp); rc = rh_rc (rc_header rtcp) in
      if t = YangRtcpType_sr then yang_encode_rtcpSR rtcp b
      else if t = YangRtcpType_rr then yang_encode_rtcpRR rtcp b
      else if t = YangRtcpType_rtpfb then
        (if rc = 1 then yang_encode_rtcpNack rtcp b else Some (err, rtcp, b))
      else if t = YangRtcpType_psfb then
        (if rc = 1 then yang_encode_rtcpPli rtcp b
         else if rc = 2 then Some (err, rtcp, b)
         else if rc = 3 then yang_encode_rtcpRpsi rtcp b
         else yang_encode_rtcpPsfb rtcp b)
      else if t = YangRtcpType_xr then yang_encode_rtcpXr rtcp b
      else yang_encode_rtcpCommon rtcp b)"

text \<open>The loop goes on after an error; the code returned is the one of the last packet.\<close>

primrec encode_rtcp_loop ::
    "nat \<Rightarrow> int \<Rightarrow> errcode \<Rightarrow> rtcp_common list \<Rightarrow> yang_buffer \<Rightarrow>
     (errcode \<times> rtcp_common list \<times> yang_buffer) option" where
  "encode_rtcp_loop 0 i err p b = Some (err, p, b)"
| "encode_rtcp_loop (Suc n) i err p b = do {
     c \<leftarrow> mem_load p i;
     (err, c, b) \<leftarrow> encode_one_rtcp err c b;
     p \<leftarrow> mem_store p i c;
     encode_rtcp_loop n (i + 1) err p b
   }"

definition yang_encode_rtcpCompound ::
    "rtcp_compound \<Rightarrow> yang_buffer \<Rightarrow> (errcode \<times> rtcp_compound \<times> yang_buffer) option" where
  "yang_encode_rtcpCompound rtcps b =
     (if \<not> yang_buffer_require b (cp_nb_bytes rtcps) then Some (ERROR_RTC_RTCP, rtcps, b)
      else do {
        let v = cp_rtcpVector rtcps;
        (err, p, b) \<leftarrow> encode_rtcp_loop (nat (vsize v)) 0 Yang_Ok (payload v) b;
        rtcps \<leftarrow> yang_rtcpCompound_clear (rtcps\<lparr>cp_rtcpVector := v\<lparr>payload := p\<rparr>\<rparr>);
        Some (err, rtcps, b)
      })"

section \<open>The contract of a decoder\<close>

locale rtcp_decoder =
  fixes dec :: "rtcp_common \<Rightarrow> yang_buffer \<Rightarrow> (errcode \<times> rtcp_common \<times> yang_buffer) option"
  assumes dec_forward: "dec comm b = Some (err, comm', b') \<Longrightarrow>
    forward b b' (if err = Yang_Ok \<or> err = ERROR_RTC_RTCP_EMPTY_RR then 4 else 0)"
begin

lemma dec_keeps:
  assumes "dec comm b = Some (err, comm', b')"
  shows "buf_mem b' = buf_mem b" "buf_data b' = buf_data b" "buf_size b' = buf_size b" "buf_head b \<le> buf_head b'"
  using forward_sel [OF dec_forward [OF assms]] by (auto split: if_splits)

lemma dec_left:
  assumes "dec comm b = Some (err, comm', b')"
  shows "yang_buffer_left b' \<le> yang_buffer_left b - (if err = Yang_Ok \<or> err = ERROR_RTC_RTCP_EMPTY_RR then 4 else 0)"
  using forward_sel [OF dec_forward [OF assms]] by (auto simp: yang_buffer_left_def)

lemma dec_ok_progress:
  "dec comm b = Some (Yang_Ok, comm', b') \<Longrightarrow> b' \<noteq> b"
  by (auto dest!: dec_left)

end

lemma decode_header_forward:
  assumes "yang_decode_header_rtcpCommon comm b = Some (err, comm', b')"
  shows "(err = Yang_Ok \<longrightarrow> moved b b' 8) \<and> (err = Yang_Ok \<or> err = ERROR_RTC_RTCP) \<and> forward b b' 0"
  using assms
  by (auto simp: yang_decode_header_rtcpCommon_def Let_def moved_def forward_def
      dest!: read_moved split: if_splits Option.bind_splits)

lemma decode_common_same: "yang_decode_rtcpCommon = yang_decode_header_rtcpCommon"
  by (simp add: fun_eq_iff yang_decode_rtcpCommon_def yang_decode_header_rtcpCommon_def)

lemma moved_less_forward: "moved b b' k \<Longrightarrow> 0 \<le> j \<Longrightarrow> j \<le> k \<Longrightarrow> forward b b' j"
  by (simp add: moved_def forward_def)

lemma skip_rest_moved: "moved b b' k \<Longrightarrow> 0 \<le> k \<Longrightarrow> moved b (skip_rest comm k b') ((uint (rh_length (rc_header comm)) + 1) * 4)"
  by (simp add: moved_def skip_rest_def yang_buffer_skip_def)

lemma chunks_moved: "decode_nack_chunks n nack b = Some (nack', b') \<Longrightarrow> moved b b' (4 * int n)"
proof (induction n arbitrary: nack b)
  case (Suc n)
  from Suc.prems obtain pid b1 blp b2 n1 n2 where
    "yang_read_2bytes b = Some (pid, b1)" "yang_read_2bytes b1 = Some (blp, b2)"
    "decode_nack_chunks n n2 b2 = Some (nack', b')"
    by (auto split: Option.bind_splits)
  then have "moved b b1 2" "moved b1 b2 2" "moved b2 b' (4 * int n)"
    using Suc.IH by (auto dest: read_moved)
  then show ?case by (simp add: moved_def)
qed (simp add: moved_def)

interpretation sr_dec: rtcp_decoder yang_decode_rtcpSR
proof unfold_locales
  fix comm b err comm' b' assume "yang_decode_rtcpSR comm b = Some (err, comm', b')"
  then show "forward b b' (if err = Yang_Ok \<or> err = ERROR_RTC_RTCP_EMPTY_RR then 4 else 0)"
    by (auto simp: yang_decode_rtcpSR_def Let_def moved_def forward_def uint_add_pos
        dest!: decode_header_forward read_moved split: if_splits Option.bind_splits)
qed

interpretation rr_dec: rtcp_decoder yang_decode_rtcpRR
proof unfold_locales
  fix comm b err comm' b' assume "yang_decode_rtcpRR comm b = Some (err, comm', b')"
  then show "forward b b' (if err = Yang_Ok \<or> err = ERROR_RTC_RTCP_EMPTY_RR then 4 else 0)"
    by (auto simp: yang_decode_rtcpRR_def Let_def moved_def forward_def
        dest!: decode_header_forward read_moved split: if_splits Option.bind_splits option.splits)
qed

interpretation nack_dec: rtcp_decoder yang_decode_rtcpNack
proof unfold_locales
  fix comm b err comm' b' assume "yang_decode_rtcpNack comm b = Some (err, comm', b')"
  then show "forward b b' (if err = Yang_Ok \<or> err = ERROR_RTC_RTCP_EMPTY_RR then 4 else 0)"
    by (auto simp: yang_decode_rtcpNack_def Let_def moved_def forward_def
        dest!: decode_header_forward read_moved chunks_moved split: if_splits Option.bind_splits)
qed

interpretation pli_dec: rtcp_decoder yang_decode_rtcpPli
proof unfold_locales
  fix comm b err comm' b' assume "yang_decode_rtcpPli comm b = Some (err, comm', b')"
  then show "forward b b' (if err = Yang_Ok \<or> err = ERROR_RTC_RTCP_EMPTY_RR then 4 else 0)"
    by (auto simp: yang_decode_rtcpPli_def Let_def moved_def forward_def
        dest!: decode_header_forward read_moved split: if_splits Option.bind_splits)
qed

interpretation rpsi_dec: rtcp_decoder yang_decode_rtcpRpsi
proof unfold_locales
  fix comm b err comm' b' assume "yang_decode_rtcpRpsi comm b = Some (err, comm', b')"
  then show "forward b b' (if err = Yang_Ok \<or> err = ERROR_RTC_RTCP_EMPTY_RR then 4 else 0)"
    by (auto simp: yang_decode_rtcpRpsi_def Let_def moved_def forward_def skip_rest_def yang_buffer_skip_def
        dest!: decode_header_forward read_moved split: if_splits Option.bind_splits)
qed

interpretation psfb_dec: rtcp_decoder yang_decode_rtcpPsfb
proof unfold_locales
  fix comm b err comm' b' assume "yang_decode_rtcpPsfb comm b = Some (err, comm', b')"
  then show "forward b b' (if err = Yang_Ok \<or> err = ERROR_RTC_RTCP_EMPTY_RR then 4 else 0)"
    by (auto simp: yang_decode_rtcpPsfb_def Let_def moved_def forward_def skip_rest_def yang_buffer_skip_def
        dest!: decode_header_forward read_moved split: if_splits Option.bind_splits)
qed

interpretation xr_dec: rtcp_decoder yang_decode_rtcpXr
proof unfold_locales
  fix comm b err comm' b' assume "yang_decode_rtcpXr comm b = Some (err, comm', b')"
  then show "forward b b' (if err = Yang_Ok \<or> err = ERROR_RTC_RTCP_EMPTY_RR then 4 else 0)"
    by (auto simp: yang_decode_rtcpXr_def Let_def moved_def forward_def skip_rest_def yang_buffer_skip_def
        dest!: decode_header_forward split: if_splits Option.bind_splits)
qed

interpretation common_dec: rtcp_decoder yang_decode_rtcpCommon
  by unfold_locales
    (auto simp: decode_common_same moved_def forward_def dest!: decode_header_forward)

section \<open>When the walk ends\<close>

text \<open>A position is stuck when the round succeeds there and leaves the buffer where it was.\<close>

definition stuck :: "yang_buffer \<Rightarrow> bool" where
  "stuck b \<longleftrightarrow> \<not> yang_buffer_empty b \<and>
     (case decode_one_rtcp b of Some (err, _, b') \<Rightarrow> err = Yang_Ok \<and> b' = b | None \<Rightarrow> False)"

lemma forward_4_cases: "forward b b' 0 \<Longrightarrow> b' = b \<or> forward b b' 1"
  by (cases b; cases b') (auto simp: forward_def)

lemma forward_41: "forward b b' 4 \<Longrightarrow> forward b b' 1"
  by (simp add: forward_def)

lemma decode_one_forward:
  assumes "decode_one_rtcp b = Some (err, rtcp, b')" "err = Yang_Ok \<or> err = ERROR_RTC_RTCP_EMPTY_RR"
  shows "(err = Yang_Ok \<and> b' = b) \<or> forward b b' 1"
  using assms
  by (auto simp: decode_one_rtcp_def Let_def dest!: sr_dec.dec_forward rr_dec.dec_forward nack_dec.dec_forward
      pli_dec.dec_forward rpsi_dec.dec_forward psfb_dec.dec_forward xr_dec.dec_forward common_dec.dec_forward
      dest: forward_4_cases forward_41
      split: if_splits Option.bind_splits)


lemma forward_left: "forward b b' k \<Longrightarrow> yang_buffer_left b' \<le> yang_buffer_left b - k"
  using forward_sel by (fastforce simp: yang_buffer_left_def)

lemma loop_diverges_when_stuck:
  assumes "stuck b"
  shows "vec_ok (cp_rtcpVector cs) \<Longrightarrow> decode_rtcp_loop n cs b = Out_of_fuel"
proof (induction n arbitrary: cs)
  case (Suc n)
  from assms obtain rtcp where one: "decode_one_rtcp b = Some (Yang_Ok, rtcp, b)" and ne: "\<not> yang_buffer_empty b"
    by (auto simp: stuck_def split: option.splits)
  from insert_Vector_elems [OF Suc.prems, of zero_rtcp rtcp] obtain v
    where "yang_insert_Vector zero_rtcp (cp_rtcpVector cs) (Some rtcp) = Some v" "vec_ok v" by blast
  with one ne Suc.IH show ?case by (simp add: yang_rtcpCompound_add_rtcp_def)
qed simp

text \<open>The positions the walk can reach.\<close>

inductive reaches :: "yang_buffer \<Rightarrow> yang_buffer \<Rightarrow> bool" where
  reaches_refl: "reaches b b"
| reaches_step: "reaches b b' \<Longrightarrow> \<not> yang_buffer_empty b' \<Longrightarrow> decode_one_rtcp b' = Some (err, rtcp, b'')
    \<Longrightarrow> err = Yang_Ok \<or> err = ERROR_RTC_RTCP_EMPTY_RR \<Longrightarrow> reaches b b''"

lemma reaches_trans: "reaches b' b'' \<Longrightarrow> reaches b b' \<Longrightarrow> reaches b b''"
  by (induction rule: reaches.induct) (auto intro: reaches_step)

lemma loop_ends_unless_stuck:
  assumes "decode_rtcp_loop n cs b = Out_of_fuel" "nat (yang_buffer_left b) < n"
  shows "\<exists>b'. reaches b b' \<and> stuck b'"
  using assms
proof (induction n arbitrary: cs b)
  case (Suc n)
  from Suc.prems(1) have ne: "\<not> yang_buffer_empty b" by auto
  from Suc.prems(1) ne obtain err rtcp b' cs' where one: "decode_one_rtcp b = Some (err, rtcp, b')"
    and ok: "err = Yang_Ok \<or> err = ERROR_RTC_RTCP_EMPTY_RR" and rest: "decode_rtcp_loop n cs' b' = Out_of_fuel"
    by (auto split: option.splits if_splits)
  show ?case
  proof (cases "err = Yang_Ok \<and> b' = b")
    case True
    with one ne have "stuck b" by (simp add: stuck_def)
    then show ?thesis using reaches_refl by blast
  next
    case False
    with decode_one_forward [OF one ok] have "yang_buffer_left b' \<le> yang_buffer_left b - 1"
      by (auto dest: forward_left)
    with ne Suc.prems(2) have "nat (yang_buffer_left b') < n" by (simp add: empty_left)
    from Suc.IH [OF rest this] obtain b'' where "reaches b' b''" "stuck b''" by blast
    moreover have "reaches b b'" using reaches_step [OF reaches_refl ne one ok] .
    ultimately show ?thesis using reaches_trans by blast
  qed
qed simp

section \<open>Properties\<close>

text \<open>C33: The walk over a compound packet ends, with a result or a fault, within as many rounds as there are bytes left and
  one more, unless it reaches a position where a round consumes nothing; at such a position it never ends.\<close>

theorem rtcpCompound_termination:
  assumes "vec_ok (cp_rtcpVector cs)" "nat (yang_buffer_left b) < fuel"
  shows "(yang_decode_rtcpCompound fuel cs b = Out_of_fuel \<longrightarrow> (\<exists>b'. reaches b b' \<and> stuck b'))
    \<and> (stuck b \<longrightarrow> yang_decode_rtcpCompound fuel cs b = Out_of_fuel)"
  using assms loop_ends_unless_stuck loop_diverges_when_stuck
  by (auto simp: yang_decode_rtcpCompound_def)

text \<open>A slice loss indication (PSFB with FMT 2) or a transport feedback with a format other than 1 hangs the receiver: the
  walk stays at the packet and runs for ever, for every amount of fuel.\<close>

theorem rtcpCompound_hangs:
  assumes "vec_ok (cp_rtcpVector cs)" "room b 2" "0 < yang_buffer_left b"
    and "byte_at b 1 = YangRtcpType_psfb \<and> byte_at b 0 AND 0x1F = 2
       \<or> byte_at b 1 = YangRtcpType_rtpfb \<and> byte_at b 0 AND 0x1F \<noteq> 1"
  shows "yang_decode_rtcpCompound fuel cs b = Out_of_fuel"
proof -
  have "mem_load (buf_mem b) (buf_head b) = Some (byte_at b 0)" "mem_load (buf_mem b) (buf_head b + 1) = Some (byte_at b 1)"
    using assms(2) by (simp_all add: mem_load_def room_def byte_at_def nat_add_distrib)
  with assms(3,4) have "stuck b"
    by (auto simp: stuck_def empty_left decode_one_rtcp_def Let_def)
  then show ?thesis
    using assms(1) by (simp add: yang_decode_rtcpCompound_def loop_diverges_when_stuck)
qed

definition sample_compound :: rtcp_compound where
  "sample_compound = \<lparr>cp_nb_bytes = 1500, cp_nb_data = 0, cp_data = None, cp_rtcpVector = yang_create_Vector zero_rtcp\<rparr>"

definition sample_sli_packet :: "u8 list" where
  "sample_sli_packet = [0x82, 206, 0, 2, 0, 0, 0, 1, 0, 0, 0, 2]"

theorem rtcpCompound_hangs_witness:
  "yang_decode_rtcpCompound 1000 sample_compound (yang_init_buffer sample_sli_packet 0 12) = Out_of_fuel"
  by (rule rtcpCompound_hangs)
    (simp_all add: sample_compound_def create_Vector_ok room_def yang_init_buffer_def sample_sli_packet_def
      yang_buffer_left_def byte_at_def)

lemma sample_sli_stuck: "stuck (yang_init_buffer sample_sli_packet 0 12)"
  by (simp add: stuck_def yang_init_buffer_def yang_buffer_empty_def decode_one_rtcp_def mem_load_def
      sample_sli_packet_def Let_def)

theorem rtcpCompound_termination_witness:
  "yang_decode_rtcpCompound 13 sample_compound (yang_init_buffer sample_sli_packet 0 12) = Out_of_fuel"
  using rtcpCompound_termination [of sample_compound "yang_init_buffer sample_sli_packet 0 12" 13] sample_sli_stuck
  by (simp add: sample_compound_def create_Vector_ok yang_init_buffer_def yang_buffer_left_def)

end
