(* ===== verification/Recv_Nack.thy ===== *)
theory Recv_Nack
  imports Rtcp_Nack Seq_Sort
begin

text \<open>
  Loss bookkeeping: the receive window of \<open>yangrtp/YangReceiveNackBuffer.c\<close>, the store of sent packets of
  \<open>YangPublishNackBuffer.c\<close> and the list of missing packets of \<open>YangRtpRecvNack.c\<close>.

  Both stores keep one slot per sequence number modulo the capacity; the locale \<open>slot_store\<close>
  states that contract and is interpreted on both. The binary search over the list of missing
  packets is a second interpretation of \<open>seq_search\<close>. The clock is an argument (\<open>now\<close>).
\<close>

section \<open>The receive window (YangReceiveNackBuffer.c)\<close>

record recv_nack_buffer =
  nb_begin :: u16
  nb_end :: u16
  nb_capacity :: u16
  nb_init :: bool
  nb_queue :: "int list"
  nb_flip_backs :: u64

definition yang_create_nackBuffer :: "int \<Rightarrow> recv_nack_buffer" where
  "yang_create_nackBuffer cap =
     \<lparr>nb_begin = 0, nb_end = 0, nb_capacity = word_of_int cap, nb_init = False,
      nb_queue = replicate (unat (word_of_int cap :: u16)) 0, nb_flip_backs = 0\<rparr>"

definition yang_destroy_nackBuffer :: "recv_nack_buffer \<Rightarrow> recv_nack_buffer" where
  "yang_destroy_nackBuffer nb = nb\<lparr>nb_queue := []\<rparr>"

definition yang_nackbuffer_empty :: "recv_nack_buffer \<Rightarrow> int" where
  "yang_nackbuffer_empty nb = (if nb_begin nb = nb_end nb then 1 else 0)"

definition yang_nackbuffer_size :: "recv_nack_buffer \<Rightarrow> int" where
  "yang_nackbuffer_size nb = yang_rtp_seq_distance (nb_begin nb) (nb_end nb)"

definition yang_nackbuffer_advance_to :: "recv_nack_buffer \<Rightarrow> u16 \<Rightarrow> recv_nack_buffer" where
  "yang_nackbuffer_advance_to nb seq = nb\<lparr>nb_begin := seq\<rparr>"

text \<open>A zero capacity makes the remainder a division by zero.\<close>

definition slot_index :: "u16 \<Rightarrow> u16 \<Rightarrow> int option" where
  "slot_index at cap = (if cap = 0 then None else Some (uint (at mod cap)))"

definition yang_nackbuffer_set :: "recv_nack_buffer \<Rightarrow> u16 \<Rightarrow> u16 \<Rightarrow> recv_nack_buffer option" where
  "yang_nackbuffer_set nb at pkt = do {
     i \<leftarrow> slot_index at (nb_capacity nb);
     q \<leftarrow> mem_store (nb_queue nb) i (uint pkt);
     Some (nb\<lparr>nb_queue := q\<rparr>)
   }"

definition yang_nackbuffer_remove :: "recv_nack_buffer \<Rightarrow> u16 \<Rightarrow> recv_nack_buffer option" where
  "yang_nackbuffer_remove nb at = do {
     i \<leftarrow> slot_index at (nb_capacity nb);
     q \<leftarrow> mem_store (nb_queue nb) i (- 1);
     Some (nb\<lparr>nb_queue := q\<rparr>)
   }"

definition yang_nackbuffer_get_extended_highest_sequence :: "recv_nack_buffer \<Rightarrow> u32" where
  "yang_nackbuffer_get_extended_highest_sequence nb = ucast (nb_flip_backs nb * 65536 + ucast (nb_end nb) - 1)"

definition yang_nackbuffer_update :: "recv_nack_buffer \<Rightarrow> u16 \<Rightarrow> errcode \<times> recv_nack_buffer" where
  "yang_nackbuffer_update nb seq =
     (if \<not> nb_init nb
      then (Yang_Ok, nb\<lparr>nb_init := True, nb_begin := seq, nb_end := seq + 1\<rparr>)
      else if yang_rtp_seq_distance (nb_end nb) seq \<ge> 0
      then let nb = (if seq < nb_end nb then nb\<lparr>nb_flip_backs := nb_flip_backs nb + 1\<rparr> else nb)
           in (Yang_Ok, nb\<lparr>nb_end := seq + 1\<rparr>)
      else if yang_rtp_seq_distance seq (nb_begin nb) > 0
      then (ERROR_RTC_NACK_BUFFER, nb\<lparr>nb_begin := seq\<rparr>)
      else (ERROR_RTC_NACK_BUFFER, nb))"

text \<open>\<open>*nack_first\<close> and \<open>*nack_last\<close> are passed in and out.\<close>

definition yang_nackbuffer_update2 ::
    "recv_nack_buffer \<Rightarrow> u16 \<Rightarrow> u16 \<Rightarrow> u16 \<Rightarrow> errcode \<times> recv_nack_buffer \<times> u16 \<times> u16" where
  "yang_nackbuffer_update2 nb seq nack_first nack_last =
     (if \<not> nb_init nb
      then (Yang_Ok, nb\<lparr>nb_init := True, nb_begin := seq, nb_end := seq + 1\<rparr>, nack_first, nack_last)
      else if yang_rtp_seq_distance (nb_end nb) seq \<ge> 0
      then let nack_first = nb_end nb; nack_last = seq;
               nb = (if seq < nb_end nb then nb\<lparr>nb_flip_backs := nb_flip_backs nb + 1\<rparr> else nb)
           in (Yang_Ok, nb\<lparr>nb_end := seq + 1\<rparr>, nack_first, nack_last)
      else if yang_rtp_seq_distance seq (nb_begin nb) > 0
      then (ERROR_RTC_NACK_BUFFER, nb\<lparr>nb_begin := seq\<rparr>, seq, nb_begin nb)
      else (ERROR_RTC_NACK_BUFFER, nb, nack_first, nack_last))"

definition yang_nackbuffer_at :: "recv_nack_buffer \<Rightarrow> u16 \<Rightarrow> int option" where
  "yang_nackbuffer_at nb seq = do {
     i \<leftarrow> slot_index seq (nb_capacity nb);
     mem_load (nb_queue nb) i
   }"

text \<open>The loops of the two clearing functions, on the \<open>capacity\<close> slots of the queue.\<close>

definition yang_nackbuffer_clear_histroy :: "recv_nack_buffer \<Rightarrow> u16 \<Rightarrow> recv_nack_buffer option" where
  "yang_nackbuffer_clear_histroy nb seq = do {
     q \<leftarrow> mem_read (nb_queue nb) 0 (uint (nb_capacity nb));
     q \<leftarrow> mem_write (nb_queue nb) 0 (map (\<lambda>x. if x < uint seq then - 1 else x) q);
     Some (nb\<lparr>nb_queue := q\<rparr>)
   }"

definition yang_nackbuffer_clear_all_histroy :: "recv_nack_buffer \<Rightarrow> recv_nack_buffer option" where
  "yang_nackbuffer_clear_all_histroy nb = do {
     q \<leftarrow> mem_write (nb_queue nb) 0 (replicate (unat (nb_capacity nb)) (- 1));
     Some (nb\<lparr>nb_queue := q\<rparr>)
   }"

definition yang_nackbuffer_notify_nack_list_full :: "recv_nack_buffer \<Rightarrow> recv_nack_buffer option" where
  "yang_nackbuffer_notify_nack_list_full nb = do {
     nb \<leftarrow> yang_nackbuffer_clear_all_histroy nb;
     Some (nb\<lparr>nb_begin := 0, nb_end := 0, nb_init := False\<rparr>)
   }"

definition yang_nackbuffer_notify_drop_seq :: "recv_nack_buffer \<Rightarrow> u16 \<Rightarrow> recv_nack_buffer option" where
  "yang_nackbuffer_notify_drop_seq nb seq = do {
     nb \<leftarrow> yang_nackbuffer_remove nb seq;
     Some (yang_nackbuffer_advance_to nb (seq + 1))
   }"

section \<open>The store of sent packets (YangPublishNackBuffer.c)\<close>

text \<open>The payload is a pointer into the ring of packets to send: NULL or the offset there, not a copy of the bytes.\<close>

record send_nack_slot =
  ss_seq :: u16
  ss_nb :: int
  ss_payload :: "int option"

record publish_nack_buffer =
  pn_capacityIndex :: u32
  pn_capacity :: u32
  pn_queue :: "send_nack_slot list"

definition yang_create_pubNackbuffer :: "int \<Rightarrow> publish_nack_buffer" where
  "yang_create_pubNackbuffer cap =
     \<lparr>pn_capacityIndex = word_of_int (cap - 1), pn_capacity = word_of_int cap,
      pn_queue = replicate (unat (word_of_int cap :: u32)) \<lparr>ss_seq = 0, ss_nb = 0, ss_payload = None\<rparr>\<rparr>"

definition yang_destroy_pubNackbuffer :: "publish_nack_buffer \<Rightarrow> publish_nack_buffer" where
  "yang_destroy_pubNackbuffer nb = nb\<lparr>pn_queue := []\<rparr>"

definition pub_index :: "publish_nack_buffer \<Rightarrow> u16 \<Rightarrow> int" where
  "pub_index nb seq = uint (ucast seq AND pn_capacityIndex nb)"

definition yang_pubnackbuffer_at :: "publish_nack_buffer \<Rightarrow> u16 \<Rightarrow> send_nack_slot option" where
  "yang_pubnackbuffer_at nb seq = mem_load (pn_queue nb) (pub_index nb seq)"

definition yang_pubnackbuffer_set ::
    "publish_nack_buffer \<Rightarrow> u16 \<Rightarrow> int option \<Rightarrow> int \<Rightarrow> publish_nack_buffer option" where
  "yang_pubnackbuffer_set nb at data plen =
     (case data of
        None \<Rightarrow> Some nb
      | Some _ \<Rightarrow> do {
          q \<leftarrow> mem_store (pn_queue nb) (pub_index nb at) \<lparr>ss_seq = at, ss_nb = plen, ss_payload = data\<rparr>;
          Some (nb\<lparr>pn_queue := q\<rparr>)
        })"

definition yang_pubnackbuffer_remove :: "publish_nack_buffer \<Rightarrow> u16 \<Rightarrow> publish_nack_buffer option" where
  "yang_pubnackbuffer_remove nb at = yang_pubnackbuffer_set nb at None 0"

section \<open>The list of missing packets (YangRtpRecvNack.c)\<close>

record nack_option =
  no_maxReqCount :: int
  no_maxAliveTime :: int
  no_firstNackInterval :: int
  no_nackInterval :: int
  no_maxNackInterval :: int
  no_minNackInterval :: int
  no_nackCheckInterval :: int

record nack_info =
  ni_sn :: u16
  ni_generateTime :: int
  ni_preReqNackTime :: int
  ni_reqNackCount :: int

definition zero_info :: nack_info where
  "zero_info = \<lparr>ni_sn = 0, ni_generateTime = 0, ni_preReqNackTime = 0, ni_reqNackCount = 0\<rparr>"

record nack_info_list =
  nl_vsize :: u32
  nl_capacity :: u32
  nl_nackinfos :: "nack_info list"

record recv_nack =
  rn_rtt :: int
  rn_preCheckTime :: int
  rn_maxQueueSize :: int
  rn_rtp :: recv_nack_buffer
  rn_opts :: nack_option
  rn_rtcp :: rtcp_common
  rn_queue :: nack_info_list

definition yang_create_nackinfo :: "int \<Rightarrow> u16 \<Rightarrow> nack_info" where
  "yang_create_nackinfo now seq =
     \<lparr>ni_sn = seq, ni_generateTime = now, ni_preReqNackTime = 0, ni_reqNackCount = 0\<rparr>"

function nackinfo_index_loop :: "nack_info list \<Rightarrow> u16 \<Rightarrow> int \<Rightarrow> int \<Rightarrow> int option" where
  "nackinfo_index_loop a val low high =
     (if low \<le> high then
        let mid = (high + low) div 2 in
        case mem_load a mid of
          None \<Rightarrow> None
        | Some x \<Rightarrow>
            if val = ni_sn x then Some (- 1)
            else if yang_rtp_seq_distance val (ni_sn x) > 0 then nackinfo_index_loop a val low (mid - 1)
            else if yang_rtp_seq_distance (ni_sn x) val > 0 then nackinfo_index_loop a val (mid + 1) high
            else Some mid
      else Some low)"
  by pat_completeness auto
termination
  by (relation "measure (\<lambda>(a, v, low, high). nat (high - low + 1))") auto

declare nackinfo_index_loop.simps [simp del]

definition yang_get_nackinfo_index :: "nack_info list \<Rightarrow> u16 \<Rightarrow> int \<Rightarrow> int option" where
  "yang_get_nackinfo_index a val alen = nackinfo_index_loop a val 0 alen"

definition yang_nackinfo_insert :: "int \<Rightarrow> nack_info_list \<Rightarrow> u16 \<Rightarrow> (errcode \<times> nack_info_list) option" where
  "yang_nackinfo_insert now vec val = do {
     let alen = sint (nl_vsize vec);
     vec \<leftarrow> (if (word_of_int alen :: u32) \<ge> nl_capacity vec then do {
               src \<leftarrow> mem_read (nl_nackinfos vec) 0 (uint (nl_capacity vec));
               tmp \<leftarrow> mem_write (replicate (unat (nl_capacity vec + 50)) zero_info) 0 src;
               Some (vec\<lparr>nl_nackinfos := tmp, nl_capacity := nl_capacity vec + 50\<rparr>)
             }
             else Some vec);
     let nacks = nl_nackinfos vec;
     if alen = 0 then do {
       p \<leftarrow> mem_store nacks 0 (yang_create_nackinfo now val);
       Some (Yang_Ok, vec\<lparr>nl_nackinfos := p, nl_vsize := nl_vsize vec + 1\<rparr>)
     }
     else do {
       last \<leftarrow> mem_load nacks (alen - 1);
       if yang_rtp_seq_distance (ni_sn last) val > 0 then do {
         p \<leftarrow> mem_store nacks alen (yang_create_nackinfo now val);
         Some (Yang_Ok, vec\<lparr>nl_nackinfos := p, nl_vsize := nl_vsize vec + 1\<rparr>)
       }
       else do {
         index \<leftarrow> yang_get_nackinfo_index nacks val alen;
         if index = - 1 then Some (1, vec)
         else do {
           src \<leftarrow> mem_read nacks index (alen - index);
           p \<leftarrow> mem_write nacks (index + 1) src;
           p \<leftarrow> mem_store p index (yang_create_nackinfo now val);
           Some (Yang_Ok, vec\<lparr>nl_nackinfos := p, nl_vsize := nl_vsize vec + 1\<rparr>)
         }
       }
     }
   }"

text \<open>The search loop of \<open>yang_nackinfo_remove\<close>, \<open>m\<close> rounds left at index \<open>i\<close>.\<close>

primrec nackinfo_remove_loop :: "nat \<Rightarrow> int \<Rightarrow> int \<Rightarrow> nack_info list \<Rightarrow> u16 \<Rightarrow> u32 \<Rightarrow> (nack_info list \<times> u32) option" where
  "nackinfo_remove_loop 0 i alen a val len = Some (a, len)"
| "nackinfo_remove_loop (Suc m) i alen a val len = do {
     x \<leftarrow> mem_load a i;
     if ni_sn x = val then do {
       a \<leftarrow> (if i \<noteq> alen - 1 then do {
               src \<leftarrow> mem_read a (i + 1) (alen - i - 1);
               mem_write a i src
             }
             else Some a);
       Some (a, word_of_int (alen - 1))
     }
     else nackinfo_remove_loop m (i + 1) alen a val len
   }"

definition yang_nackinfo_remove :: "nack_info list \<Rightarrow> u16 \<Rightarrow> u32 \<Rightarrow> (errcode \<times> nack_info list \<times> u32) option" where
  "yang_nackinfo_remove a val len =
     (if len = 0 then Some (1, a, len)
      else let alen = sint len in
        if alen = 1 then do {
          x \<leftarrow> mem_load a 0;
          if ni_sn x \<noteq> val then Some (Yang_Ok, a, len)
          else Some (Yang_Ok, a, word_of_int (alen - 1))
        }
        else do {
          (a, len) \<leftarrow> nackinfo_remove_loop (nat alen) 0 alen a val len;
          Some (Yang_Ok, a, len)
        })"

definition yang_create_nackinfovec :: "nack_info_list \<Rightarrow> u32 \<Rightarrow> nack_info_list" where
  "yang_create_nackinfovec v cap =
     (if cap = 0 then v else v\<lparr>nl_capacity := cap, nl_nackinfos := replicate (unat cap) zero_info\<rparr>)"

definition yang_destroy_nackinfovec :: "nack_info_list \<Rightarrow> nack_info_list" where
  "yang_destroy_nackinfovec v = v\<lparr>nl_nackinfos := []\<rparr>"

definition yang_recvnack_initvec :: "recv_nack \<Rightarrow> u32 \<Rightarrow> recv_nack" where
  "yang_recvnack_initvec nack media_ssrc =
     (if rc_nack (rn_rtcp nack) = None
      then nack\<lparr>rn_rtcp := yang_create_rtcpNack (rn_rtcp nack) media_ssrc\<rparr>
      else nack)"

text \<open>\<open>YANG_UTIME_MILLISECONDS\<close> is 1000; the times are in microseconds.\<close>

definition yang_create_recvnack :: "recv_nack \<Rightarrow> recv_nack_buffer \<Rightarrow> int \<Rightarrow> recv_nack" where
  "yang_create_recvnack nack rtp queue_size =
     nack\<lparr>rn_opts := \<lparr>no_maxReqCount = 10, no_maxAliveTime = 1000 * 1000, no_firstNackInterval = 10 * 1000,
              no_nackInterval = 50 * 1000, no_maxNackInterval = 500 * 1000, no_minNackInterval = 15 * 1000,
              no_nackCheckInterval = 15 * 1000\<rparr>,
          rn_queue := yang_create_nackinfovec (rn_queue nack) 100,
          rn_maxQueueSize := queue_size, rn_rtp := rtp, rn_preCheckTime := 0, rn_rtt := 0,
          rn_rtcp := zero_rtcp\<rparr>"

definition yang_destroy_recvnack :: "recv_nack \<Rightarrow> recv_nack" where
  "yang_destroy_recvnack nack =
     nack\<lparr>rn_rtcp := yang_destroy_rtcpNack (rn_rtcp nack),
          rn_queue := yang_destroy_nackinfovec (rn_queue nack)\<rparr>"

text \<open>\<open>for (s = first; s != last; ++s)\<close>: \<open>last - first\<close> rounds, modulo the sequence space.\<close>

primrec recvnack_insert_loop :: "nat \<Rightarrow> int \<Rightarrow> recv_nack \<Rightarrow> u16 \<Rightarrow> recv_nack option" where
  "recvnack_insert_loop 0 now nack s = Some nack"
| "recvnack_insert_loop (Suc m) now nack s = do {
     (_, q) \<leftarrow> yang_nackinfo_insert now (rn_queue nack) s;
     recvnack_insert_loop m now (nack\<lparr>rn_queue := q\<rparr>) (s + 1)
   }"

definition yang_recvnack_insert :: "int \<Rightarrow> recv_nack \<Rightarrow> u16 \<Rightarrow> u16 \<Rightarrow> recv_nack option" where
  "yang_recvnack_insert now nack s1 s2 = recvnack_insert_loop (unat (s2 - s1)) now nack s1"

definition yang_recvnack_remove :: "recv_nack \<Rightarrow> u16 \<Rightarrow> recv_nack option" where
  "yang_recvnack_remove nack seq = do {
     (_, a, n) \<leftarrow> yang_nackinfo_remove (nl_nackinfos (rn_queue nack)) seq (nl_vsize (rn_queue nack));
     Some (nack\<lparr>rn_queue := (rn_queue nack)\<lparr>nl_nackinfos := a, nl_vsize := n\<rparr>\<rparr>)
   }"

primrec recvnack_find_loop :: "nat \<Rightarrow> int \<Rightarrow> nack_info list \<Rightarrow> u16 \<Rightarrow> int option option" where
  "recvnack_find_loop 0 i a seq = Some None"
| "recvnack_find_loop (Suc m) i a seq = do {
     x \<leftarrow> mem_load a i;
     if ni_sn x = seq then Some (Some i) else recvnack_find_loop m (i + 1) a seq
   }"

text \<open>The pointer found is the index of the entry; NULL is \<open>None\<close> inside.\<close>

definition yang_recvnack_find :: "recv_nack \<Rightarrow> u16 \<Rightarrow> int option option" where
  "yang_recvnack_find nack seq =
     recvnack_find_loop (unat (nl_vsize (rn_queue nack))) 0 (nl_nackinfos (rn_queue nack)) seq"

definition yang_recvnack_check_queue_size :: "recv_nack \<Rightarrow> recv_nack option" where
  "yang_recvnack_check_queue_size nack =
     (if uint (nl_vsize (rn_queue nack)) \<ge> rn_maxQueueSize nack then do {
        rtp \<leftarrow> yang_nackbuffer_notify_nack_list_full (rn_rtp nack);
        Some (nack\<lparr>rn_rtp := rtp, rn_queue := (rn_queue nack)\<lparr>nl_vsize := 0\<rparr>\<rparr>)
      }
      else Some nack)"

definition yang_recvnack_isEmpty :: "recv_nack \<Rightarrow> int" where
  "yang_recvnack_isEmpty nack = (if nl_vsize (rn_queue nack) = 0 then 1 else 0)"

text \<open>
  The loop of \<open>yang_recvnack_get_nack_seqs\<close> at index \<open>i\<close>. An entry that is given up is removed and the
  loop goes on with the next index, so the entry that moved into its place is skipped. Every
  round increases \<open>i\<close> and none adds an entry, so \<open>m\<close> = the size at the start is enough rounds.
\<close>

primrec get_nack_seqs_loop ::
    "nat \<Rightarrow> int \<Rightarrow> int \<Rightarrow> recv_nack \<Rightarrow> rtcp_nack \<Rightarrow> u32 \<Rightarrow> (recv_nack \<times> rtcp_nack \<times> u32) option" where
  "get_nack_seqs_loop 0 i now rn nack timeouts = Some (rn, nack, timeouts)"
| "get_nack_seqs_loop (Suc m) i now rn nack timeouts =
     (if i \<ge> uint (nl_vsize (rn_queue rn)) then Some (rn, nack, timeouts)
      else do {
        x \<leftarrow> mem_load (nl_nackinfos (rn_queue rn)) i;
        let alive_time = signed_take_bit 31 (now - ni_generateTime x);
        if alive_time > no_maxAliveTime (rn_opts rn) \<or> ni_reqNackCount x > no_maxReqCount (rn_opts rn)
        then do {
          rtp \<leftarrow> yang_nackbuffer_notify_drop_seq (rn_rtp rn) (ni_sn x);
          rn \<leftarrow> yang_recvnack_remove (rn\<lparr>rn_rtp := rtp\<rparr>) (ni_sn x);
          get_nack_seqs_loop m (i + 1) now rn nack (timeouts + 1)
        }
        else if now - ni_generateTime x < no_firstNackInterval (rn_opts rn) then Some (rn, nack, timeouts)
        else do {
          let opts = rn_opts rn;
          let nack_interval = max (no_minNackInterval opts) (no_nackInterval opts div 3);
          let nack_interval = (if no_nackInterval opts < 50 * 1000
                               then max (no_minNackInterval opts) (no_nackInterval opts) else nack_interval);
          if now - ni_preReqNackTime x \<ge> nack_interval then do {
            a \<leftarrow> mem_store (nl_nackinfos (rn_queue rn)) i
                   (x\<lparr>ni_reqNackCount := ni_reqNackCount x + 1, ni_preReqNackTime := now\<rparr>);
            nack \<leftarrow> yang_rtcpNack_addSn nack (ni_sn x);
            get_nack_seqs_loop m (i + 1) now (rn\<lparr>rn_queue := (rn_queue rn)\<lparr>nl_nackinfos := a\<rparr>\<rparr>) nack timeouts
          }
          else get_nack_seqs_loop m (i + 1) now rn nack timeouts
        }
      })"

definition yang_recvnack_get_nack_seqs ::
    "int \<Rightarrow> recv_nack \<Rightarrow> rtcp_nack \<Rightarrow> u32 \<Rightarrow> (recv_nack \<times> rtcp_nack \<times> u32) option" where
  "yang_recvnack_get_nack_seqs now rn nack timeouts =
     (if now - rn_preCheckTime rn < no_nackCheckInterval (rn_opts rn) then Some (rn, nack, timeouts)
      else get_nack_seqs_loop (unat (nl_vsize (rn_queue rn))) 0 now (rn\<lparr>rn_preCheckTime := now\<rparr>) nack timeouts)"

section \<open>Stores with one slot per sequence number\<close>

text \<open>The effect of storing a sequence of values.\<close>

primrec store_all :: "('s \<Rightarrow> u16 \<Rightarrow> 'v \<Rightarrow> 's option) \<Rightarrow> 's \<Rightarrow> (u16 \<times> 'v) list \<Rightarrow> 's option" where
  "store_all store s [] = Some s"
| "store_all store s (kv # kvs) = store s (fst kv) (snd kv) \<bind> (\<lambda>s. store_all store s kvs)"

locale slot_store =
  fixes ok :: "'s \<Rightarrow> bool"
    and slot :: "'s \<Rightarrow> u16 \<Rightarrow> int"
    and store :: "'s \<Rightarrow> u16 \<Rightarrow> 'v \<Rightarrow> 's option"
    and load :: "'s \<Rightarrow> u16 \<Rightarrow> 'r option"
    and stored :: "u16 \<Rightarrow> 'v \<Rightarrow> 'r"
  assumes put_law:
    "ok s \<Longrightarrow> \<exists>s'. store s k v = Some s' \<and> ok s' \<and> slot s' = slot s
       \<and> (\<forall>k'. load s' k' = (if slot s k' = slot s k then Some (stored k v) else load s k'))"
begin

lemma get_put: "ok s \<Longrightarrow> store s k v = Some s' \<Longrightarrow> load s' k = Some (stored k v)"
  using put_law [of s k v] by auto

lemma store_all_other:
  assumes "ok s" "slot s k \<notin> slot s ` fst ` set kvs"
  shows "\<exists>s'. store_all store s kvs = Some s' \<and> ok s' \<and> slot s' = slot s \<and> load s' k = load s k"
  using assms
proof (induction kvs arbitrary: s)
  case (Cons kv kvs)
  from put_law [OF Cons.prems(1), of "fst kv" "snd kv"] obtain s1 where
    s1: "store s (fst kv) (snd kv) = Some s1" "ok s1" "slot s1 = slot s" "load s1 k = load s k"
    using Cons.prems(2) by auto
  with Cons.IH [of s1] Cons.prems(2) show ?case by auto
qed simp

lemma store_all_get:
  assumes "ok s" "inj_on (slot s) (fst ` set kvs)" "distinct (map fst kvs)" "(k, v) \<in> set kvs"
  shows "\<exists>s'. store_all store s kvs = Some s' \<and> ok s' \<and> slot s' = slot s \<and> load s' k = Some (stored k v)"
  using assms
proof (induction kvs arbitrary: s)
  case (Cons kv kvs)
  from put_law [OF Cons.prems(1), of "fst kv" "snd kv"] obtain s1 where
    s1: "store s (fst kv) (snd kv) = Some s1" "ok s1" "slot s1 = slot s"
      "load s1 (fst kv) = Some (stored (fst kv) (snd kv))"
    by auto
  show ?case
  proof (cases "kv = (k, v)")
    case True
    then have "k \<notin> fst ` set kvs" using Cons.prems(3) by auto
    then have "slot s1 k \<notin> slot s1 ` fst ` set kvs"
      using Cons.prems(2) True s1(3) by (force simp: inj_on_def)
    from store_all_other [OF s1(2) this] s1 True show ?thesis by auto
  next
    case False
    then have "(k, v) \<in> set kvs" "inj_on (slot s1) (fst ` set kvs)" "distinct (map fst kvs)"
      using Cons.prems s1(3) by (auto simp: inj_on_def)
    from Cons.IH [OF s1(2) this(2,3,1)] s1 show ?thesis by auto
  qed
qed simp

end

lemma slot_written:
  assumes "0 \<le> i" "nat i < length m"
  shows "\<exists>m'. mem_store m i x = Some m' \<and> length m' = length m
    \<and> (\<forall>j\<ge>0. mem_load m' j = (if j = i then Some x else mem_load m j))"
  using assms by (auto simp: mem_store_def mem_load_def nth_list_update nat_eq_iff2 eq_nat_nat_iff)

text \<open>A created and not yet destroyed queue has \<open>capacity\<close> slots.\<close>

definition nackbuffer_ok :: "recv_nack_buffer \<Rightarrow> bool" where
  "nackbuffer_ok nb \<longleftrightarrow> nb_capacity nb \<noteq> 0 \<and> length (nb_queue nb) = unat (nb_capacity nb)"

definition pubnackbuffer_ok :: "publish_nack_buffer \<Rightarrow> bool" where
  "pubnackbuffer_ok nb \<longleftrightarrow> pn_capacity nb \<noteq> 0 \<and> pn_capacityIndex nb = pn_capacity nb - 1
     \<and> length (pn_queue nb) = unat (pn_capacity nb)"

lemma nackbuffer_slot:
  assumes "nackbuffer_ok nb"
  shows "slot_index k (nb_capacity nb) = Some (uint (k mod nb_capacity nb))"
    "nat (uint (k mod nb_capacity nb)) < length (nb_queue nb)"
proof -
  have "k mod nb_capacity nb < nb_capacity nb"
    using assms by (intro word_mod_less_divisor) (simp add: nackbuffer_ok_def word_gt_0)
  then show "nat (uint (k mod nb_capacity nb)) < length (nb_queue nb)"
    using assms by (simp add: nackbuffer_ok_def word_less_nat_alt)
  show "slot_index k (nb_capacity nb) = Some (uint (k mod nb_capacity nb))"
    using assms by (simp add: nackbuffer_ok_def slot_index_def)
qed

lemma pubnackbuffer_slot:
  assumes "pubnackbuffer_ok nb"
  shows "0 \<le> pub_index nb k" "nat (pub_index nb k) < length (pn_queue nb)"
proof -
  have "ucast k AND pn_capacityIndex nb \<le> pn_capacityIndex nb"
    by (metis and.commute word_and_le1)
  moreover have "pn_capacityIndex nb < pn_capacity nb"
    using assms by (auto simp: pubnackbuffer_ok_def word_less_nat_alt unat_minus_one unat_gt_0)
  ultimately have "unat (ucast k AND pn_capacityIndex nb) < unat (pn_capacity nb)"
    by (metis order_le_less_trans word_less_nat_alt)
  then show "nat (pub_index nb k) < length (pn_queue nb)"
    using assms by (simp add: pub_index_def pubnackbuffer_ok_def)
qed (simp add: pub_index_def)

interpretation nackbuffer: slot_store nackbuffer_ok "\<lambda>nb k. uint (k mod nb_capacity nb)"
    yang_nackbuffer_set yang_nackbuffer_at "\<lambda>_. uint"
proof unfold_locales
  fix nb k and v :: u16
  assume ok: "nackbuffer_ok nb"
  obtain q where "mem_store (nb_queue nb) (uint (k mod nb_capacity nb)) (uint v) = Some q"
    "length q = length (nb_queue nb)"
    "\<forall>j\<ge>0. mem_load q j = (if j = uint (k mod nb_capacity nb) then Some (uint v) else mem_load (nb_queue nb) j)"
    using slot_written [OF _ nackbuffer_slot(2) [OF ok], of k "uint v"] by auto
  then show "\<exists>s'. yang_nackbuffer_set nb k v = Some s' \<and> nackbuffer_ok s'
      \<and> (\<lambda>k. uint (k mod nb_capacity s')) = (\<lambda>k. uint (k mod nb_capacity nb))
      \<and> (\<forall>k'. yang_nackbuffer_at s' k' =
            (if uint (k' mod nb_capacity nb) = uint (k mod nb_capacity nb) then Some (uint v) else yang_nackbuffer_at nb k'))"
    using nackbuffer_slot(1) [OF ok] ok
    by (simp add: yang_nackbuffer_set_def yang_nackbuffer_at_def nackbuffer_ok_def)
qed

interpretation pubnackbuffer: slot_store pubnackbuffer_ok pub_index
    "\<lambda>nb k v. yang_pubnackbuffer_set nb k (Some (fst v)) (snd v)" yang_pubnackbuffer_at
    "\<lambda>k v. \<lparr>ss_seq = k, ss_nb = snd v, ss_payload = Some (fst v)\<rparr>"
proof unfold_locales
  fix nb k and v :: "int \<times> int"
  assume ok: "pubnackbuffer_ok nb"
  let ?x = "\<lparr>ss_seq = k, ss_nb = snd v, ss_payload = Some (fst v)\<rparr>"
  obtain q where "mem_store (pn_queue nb) (pub_index nb k) ?x = Some q"
    "length q = length (pn_queue nb)"
    "\<forall>j\<ge>0. mem_load q j = (if j = pub_index nb k then Some ?x else mem_load (pn_queue nb) j)"
    using slot_written [OF pubnackbuffer_slot [OF ok], of k ?x] by auto
  moreover have "pub_index (nb\<lparr>pn_queue := q\<rparr>) = pub_index nb" by (simp add: pub_index_def fun_eq_iff)
  ultimately show "\<exists>s'. yang_pubnackbuffer_set nb k (Some (fst v)) (snd v) = Some s' \<and> pubnackbuffer_ok s'
      \<and> pub_index s' = pub_index nb
      \<and> (\<forall>k'. yang_pubnackbuffer_at s' k' = (if pub_index nb k' = pub_index nb k then Some ?x else yang_pubnackbuffer_at nb k'))"
    using pubnackbuffer_slot(1) [OF ok] ok
    by (simp add: yang_pubnackbuffer_set_def yang_pubnackbuffer_at_def pubnackbuffer_ok_def)
qed

lemma pub_index_mod:
  assumes "pn_capacityIndex nb = 2 ^ e - 1" "e \<le> 16"
  shows "pub_index nb k = uint k mod 2 ^ e"
proof -
  have "pub_index nb k = uint (take_bit e (ucast k :: u32))"
    using assms(1) by (simp add: pub_index_def take_bit_eq_mask mask_eq_exp_minus_1)
  also have "\<dots> = take_bit e (uint k)"
    using assms(2) by (simp add: unsigned_take_bit_eq unsigned_ucast_eq min_def)
  finally show ?thesis by (simp add: take_bit_eq_mod)
qed

text \<open>The packets of \<open>n\<close> consecutive sequence numbers from \<open>s\<close> on.\<close>

definition seq_run :: "u16 \<Rightarrow> nat \<Rightarrow> u16 list" where
  "seq_run s n = map (\<lambda>i. s + word_of_nat i) [0..<n]"

lemma seq_run_slots:
  assumes "n \<le> 2 ^ e" "e \<le> 16"
  shows "inj_on (\<lambda>k. uint k mod 2 ^ e) (set (seq_run s n))" "distinct (seq_run s n)"
proof -
  have slot: "uint (s + word_of_nat i) mod 2 ^ e = (uint s + int i) mod 2 ^ e" for i
  proof -
    have "(2 ^ e :: int) dvd 2 ^ 16" using assms(2) by (rule le_imp_power_dvd)
    then have cancel: "x mod 65536 mod 2 ^ e = x mod 2 ^ e" for x :: int by (simp add: mod_mod_cancel)
    show ?thesis by (simp add: uint_word_ariths unsigned_of_nat take_bit_eq_mod cancel zmod_int mod_add_right_eq)
  qed
  have inj: "i = j" if "i < n" "j < n" "(uint s + int i) mod 2 ^ e = (uint s + int j) mod 2 ^ e" for i j
  proof -
    have "(2 ^ e :: int) dvd int i - int j" using that(3) by (metis add_diff_cancel_left mod_eq_dvd_iff)
    moreover have "int i < 2 ^ e" "int j < 2 ^ e"
      using that(1,2) assms(1) by (metis less_le_trans of_nat_less_iff of_nat_numeral of_nat_power)+
    then have "\<bar>int i - int j\<bar> < 2 ^ e" by linarith
    ultimately have "int i - int j = 0"
      using dvd_imp_le_int [of "int i - int j" "2 ^ e"] by (cases "int i = int j") auto
    then show ?thesis by simp
  qed
  show "inj_on (\<lambda>k. uint k mod 2 ^ e) (set (seq_run s n))"
    using inj by (fastforce simp: seq_run_def inj_on_def slot simp del: add_left_cancel)
  have "i = j" if "i < n" "j < n" "s + word_of_nat i = s + word_of_nat j" for i j
    using inj [OF that(1,2)] that(3) by (metis slot)
  note inj' = this
  then show "distinct (seq_run s n)"
    unfolding seq_run_def distinct_map inj_on_def by (metis atLeastLessThan_iff distinct_upt set_upt)
qed


section \<open>Runs of packets and the window\<close>

lemma store_run:
  assumes "pubnackbuffer_ok nb" "unat (pn_capacity nb) = 2 ^ e" "e \<le> 16" "length ps \<le> 2 ^ e" "i < length ps"
  shows "\<exists>nb'. store_all (\<lambda>nb k v. yang_pubnackbuffer_set nb k (Some (fst v)) (snd v)) nb
             (zip (seq_run s (length ps)) ps) = Some nb'
     \<and> yang_pubnackbuffer_at nb' (s + word_of_nat i)
         = Some \<lparr>ss_seq = s + word_of_nat i, ss_nb = snd (ps ! i), ss_payload = Some (fst (ps ! i))\<rparr>"
proof -
  let ?kvs = "zip (seq_run s (length ps)) ps"
  have len: "length (seq_run s (length ps)) = length ps" by (simp add: seq_run_def)
  have "unat (pn_capacityIndex nb) = 2 ^ e - 1"
    using assms(1,2) by (simp add: pubnackbuffer_ok_def unat_minus_one)
  moreover have "unat ((2 :: u32) ^ e) = 2 ^ e"
  proof -
    have "unat (word_of_nat (2 ^ e) :: u32) = 2 ^ e"
      using assms(3) power_increasing [of e 16 "2 :: nat"] by (intro unat_word_of_nat_small) simp
    then show ?thesis by simp
  qed
  then have "unat (2 ^ e - 1 :: u32) = 2 ^ e - 1"
    by (metis power_not_zero unat_0 unat_minus_one zero_neq_numeral)
  ultimately have "pn_capacityIndex nb = 2 ^ e - 1"
    by (metis word_unat_eq_iff)
  note slots = pub_index_mod [OF this assms(3)]
  have "inj_on (pub_index nb) (fst ` set ?kvs)" "distinct (map fst ?kvs)"
    using seq_run_slots [OF assms(4,3), of s] len
    by (auto simp: slots inj_on_def simp flip: set_map)
  moreover have "(s + word_of_nat i, ps ! i) \<in> set ?kvs"
    using assms(5) len by (auto simp: in_set_zip seq_run_def intro!: exI [of _ i])
  ultimately show ?thesis
    using pubnackbuffer.store_all_get [OF assms(1)] by fastforce
qed

text \<open>The store of sent packets keeps every packet of a run of sequence numbers no longer than its capacity, a power
  of two, also when the run wraps around; and asking it to remove a packet changes nothing, because the
  removal stores a null payload and storing ignores null payloads.\<close>

theorem pubnackbuffer_keeps_run:
  assumes "pubnackbuffer_ok nb" "unat (pn_capacity nb) = 2 ^ e" "e \<le> 16" "length ps \<le> 2 ^ e" "i < length ps"
  shows "\<exists>nb'. store_all (\<lambda>nb k v. yang_pubnackbuffer_set nb k (Some (fst v)) (snd v)) nb
             (zip (seq_run s (length ps)) ps) = Some nb'
     \<and> (\<forall>k. yang_pubnackbuffer_remove nb' k = Some nb')
     \<and> yang_pubnackbuffer_at nb' (s + word_of_nat i)
         = Some \<lparr>ss_seq = s + word_of_nat i, ss_nb = snd (ps ! i), ss_payload = Some (fst (ps ! i))\<rparr>"
  using store_run [OF assms] by (simp add: yang_pubnackbuffer_remove_def yang_pubnackbuffer_set_def)

theorem pubnackbuffer_keeps_run_witness:
  "\<exists>nb'. store_all (\<lambda>nb k v. yang_pubnackbuffer_set nb k (Some (fst v)) (snd v)) (yang_create_pubNackbuffer 512)
             (zip (seq_run 65535 (length [(0 :: int, 20 :: int), (1500, 30)])) [(0 :: int, 20 :: int), (1500, 30)]) = Some nb'
     \<and> (\<forall>k. yang_pubnackbuffer_remove nb' k = Some nb')
     \<and> yang_pubnackbuffer_at nb' (65535 + word_of_nat 1)
         = Some \<lparr>ss_seq = 65535 + word_of_nat 1, ss_nb = snd ([(0 :: int, 20 :: int), (1500, 30)] ! 1),
                  ss_payload = Some (fst ([(0 :: int, 20 :: int), (1500, 30)] ! 1))\<rparr>"
  by (rule pubnackbuffer_keeps_run [where e = 9]) (simp_all add: pubnackbuffer_ok_def yang_create_pubNackbuffer_def)

lemma extended_sequence:
  "yang_nackbuffer_get_extended_highest_sequence nb = ucast (nb_flip_backs nb) * 65536 + ucast (nb_end nb) - 1"
proof -
  let ?x = "uint (nb_flip_backs nb) * 65536 + uint (nb_end nb) - 1"
  have "nb_flip_backs nb * 65536 + ucast (nb_end nb) - 1 = (word_of_int ?x :: u64)"
    by (simp flip: ucast_eq)
  then have "yang_nackbuffer_get_extended_highest_sequence nb = word_of_int ?x"
    unfolding yang_nackbuffer_get_extended_highest_sequence_def by (simp only: narrow_word)
  then show ?thesis by (simp flip: ucast_eq)
qed

lemma ucast_next: "(ucast (seq + 1 :: u16) :: u32) = (if seq = 65535 then 0 else ucast seq + 1)"
proof (cases "seq = 65535")
  case False
  then have "unat seq \<noteq> 65535" by (simp add: word_unat_eq_iff)
  then have "unat seq + 1 < 2 ^ 16" using unsigned_less [of seq, where 'a = nat] by simp
  then have n: "unat (seq + 1) = unat seq + 1" by (simp add: unat_word_ariths)
  have "(ucast (seq + 1) :: u32) = word_of_nat (unat (seq + 1))" by (simp add: word_unat_eq_iff unsigned_ucast_eq)
  also have "\<dots> = ucast seq + 1" unfolding n by (simp add: add.commute)
  finally show ?thesis using False by simp
qed simp

lemma uint_ahead:
  assumes "yang_rtp_seq_distance e seq \<ge> 0"
  shows "uint seq = uint e + yang_rtp_seq_distance e seq - (if seq < e then 65536 else 0)"
proof -
  have "sint (seq - e) = uint (seq - e)"
    using assms by (simp add: yang_rtp_seq_distance_def sint_of_nonneg)
  then show ?thesis
    by (auto simp: yang_rtp_seq_distance_def uint_sub_if' word_less_def)
qed

lemma ucast_ahead:
  assumes "yang_rtp_seq_distance e seq \<ge> 0"
  shows "(ucast seq :: u32) = ucast e + word_of_int (yang_rtp_seq_distance e seq) - (if seq < e then 65536 else 0)"
proof -
  have "(ucast seq :: u32) = word_of_int (uint e + yang_rtp_seq_distance e seq - (if seq < e then 65536 else 0))"
    unfolding uint_ahead [OF assms, symmetric] by (simp add: unsigned_of_int)
  then show ?thesis by (simp split: if_splits)
qed

text \<open>A packet at or after the end of the receive window reports exactly the gap in front of it, moves the end behind
  it and advances the extended sequence number by the distance; but when the packet is number 65535 the
  extended number falls back by 65536, because the end wraps to zero without a counted cycle.\<close>

theorem nackbuffer_update2_forward:
  assumes "nb_init nb" "yang_rtp_seq_distance (nb_end nb) seq \<ge> 0"
  shows "\<exists>nb'. yang_nackbuffer_update2 nb seq nack_first nack_last = (Yang_Ok, nb', nb_end nb, seq)
     \<and> nb_end nb' = seq + 1 \<and> nb_begin nb' = nb_begin nb \<and> nb_queue nb' = nb_queue nb
     \<and> yang_nackbuffer_get_extended_highest_sequence nb'
         = yang_nackbuffer_get_extended_highest_sequence nb + word_of_int (yang_rtp_seq_distance (nb_end nb) seq + 1)
           - (if seq = 65535 then 65536 else 0)"
proof -
  have "\<not> (65535 :: u16) < nb_end nb" using unsigned_less [of "nb_end nb", where 'a = nat] by (simp add: word_less_nat_alt)
  then show ?thesis
    using assms(1,2) ucast_ahead [OF assms(2)] narrow_plus_one [of "nb_flip_backs nb"]
    by (cases "seq < nb_end nb"; cases "seq = 65535")
      (simp_all add: yang_nackbuffer_update2_def Let_def extended_sequence ucast_next)
qed

theorem nackbuffer_update2_forward_witness:
  "\<exists>nb'. yang_nackbuffer_update2 ((yang_create_nackBuffer 100)\<lparr>nb_init := True, nb_end := 65533\<rparr>) 65535 1 2
      = (Yang_Ok, nb', 65533, 65535) \<and> nb_end nb' = 0
     \<and> yang_nackbuffer_get_extended_highest_sequence nb'
         = yang_nackbuffer_get_extended_highest_sequence ((yang_create_nackBuffer 100)\<lparr>nb_init := True, nb_end := 65533\<rparr>) + 3 - 65536"
  using nackbuffer_update2_forward [of "(yang_create_nackBuffer 100)\<lparr>nb_init := True, nb_end := 65533\<rparr>" 65535 1 2]
  by (auto simp: yang_rtp_seq_distance_def)

section \<open>The sorted list of missing packets\<close>

interpretation nack_search: seq_search ni_sn nackinfo_index_loop
  by unfold_locales (subst nackinfo_index_loop.simps, simp)

text \<open>The list object holds the sequence numbers \<open>xs\<close>, in order.\<close>

definition nl_repr :: "u16 \<Rightarrow> nack_info_list \<Rightarrow> u16 list \<Rightarrow> bool" where
  "nl_repr base q xs \<longleftrightarrow>
     seq_sorted base xs \<and> nl_vsize q = word_of_nat (length xs)
     \<and> map ni_sn (take (length xs) (nl_nackinfos q)) = xs \<and> length xs \<le> length (nl_nackinfos q)
     \<and> length (nl_nackinfos q) = unat (nl_capacity q) \<and> length (nl_nackinfos q) \<le> 2 ^ 16"

lemma seq_sorted_length:
  assumes "seq_sorted base xs"
  shows "length xs \<le> 2 ^ 15"
proof -
  have "distinct (map (seq_rank base) xs)"
    using assms by (auto simp: seq_sorted_def strict_sorted_iff)
  moreover have "set (map (seq_rank base) xs) \<subseteq> {..<2 ^ 15}"
    using assms by (auto simp: seq_sorted_def in_window_def)
  ultimately have "length (map (seq_rank base) xs) \<le> card {..<(2 :: nat) ^ 15}"
    by (metis card_mono distinct_card finite_lessThan)
  then show ?thesis by simp
qed

lemma ni_sn_created [simp]: "ni_sn (yang_create_nackinfo now v) = v"
  by (simp add: yang_create_nackinfo_def)

text \<open>The part of the insertion after the list has been grown.\<close>

lemma nackinfo_newest:
  assumes "n < length a" "length a \<le> 2 ^ 16"
    and q: "nl_vsize q = word_of_nat n" "nl_nackinfos q = a" "unat (nl_capacity q) = length a"
    and new: "n = 0 \<or> yang_rtp_seq_distance (ni_sn (last (take n a))) v > 0"
  shows "yang_nackinfo_insert now q v
    = Some (Yang_Ok, q\<lparr>nl_nackinfos := a[n := yang_create_nackinfo now v], nl_vsize := word_of_nat (Suc n)\<rparr>)"
proof -
  have grow: "\<not> (word_of_nat n :: u32) \<ge> nl_capacity q"
    using assms by (simp add: word_le_nat_alt unsigned_of_nat take_bit_nat_eq_self)
  have sn: "sint (word_of_nat n :: u32) = int n" using assms by (intro sint_len) auto
  have ld: "mem_load a (int n - 1) = Some (last (take n a))" if "n \<noteq> 0"
    using that assms by (intro load_last) auto
  show ?thesis
    using assms(1) q new grow ld
    by (cases "n = 0") (simp_all add: yang_nackinfo_insert_def Let_def sn mem_store_def add.commute)
qed

lemma nackinfo_sorted_in:
  assumes "n < length a" "length a \<le> 2 ^ 16" "0 < n"
    and q: "nl_vsize q = word_of_nat n" "nl_nackinfos q = a" "unat (nl_capacity q) = length a"
    and old: "\<not> yang_rtp_seq_distance (ni_sn (last (take n a))) v > 0"
    and i: "yang_get_nackinfo_index a v (int n) = Some i" "i = - 1 \<or> 0 \<le> i \<and> nat i \<le> n"
  shows "yang_nackinfo_insert now q v
    = (if i = - 1 then Some (1, q)
       else Some (Yang_Ok, q\<lparr>nl_nackinfos := take (nat i) a @ yang_create_nackinfo now v # drop (nat i) (take n a) @ drop (Suc n) a,
              nl_vsize := word_of_nat (Suc n)\<rparr>))"
proof -
  have grow: "\<not> (word_of_nat n :: u32) \<ge> nl_capacity q"
    using assms by (simp add: word_le_nat_alt unsigned_of_nat take_bit_nat_eq_self)
  have sn: "sint (word_of_nat n :: u32) = int n" using assms by (intro sint_len) auto
  have ld: "mem_load a (int n - 1) = Some (last (take n a))"
    using assms by (intro load_last) auto
  show ?thesis
  proof (cases "i = - 1")
    case True
    with assms grow ld show ?thesis by (simp add: yang_nackinfo_insert_def Let_def sn)
  next
    case False
    then obtain p where p: "i = int p" "p \<le> n" using i(2) by (metis nat_0_le)
    let ?x = "yang_create_nackinfo now v"
    have "mem_store (take (Suc p) a @ take (n - p) (drop p a) @ drop (Suc n) a) (int p) ?x
        = Some (take p a @ ?x # drop p (take n a) @ drop (Suc n) a)"
      using list_insert_at [OF p(2) assms(1), of ?x] p assms(1) by (simp add: mem_store_def)
    with assms grow ld p move_up [OF p(2) assms(1)] show ?thesis
      by (simp add: yang_nackinfo_insert_def Let_def sn add.commute)
  qed
qed

lemma nackinfo_placed:
  assumes sorted: "seq_sorted base xs" and win: "in_window base v"
    and a: "n = length xs" "map ni_sn (take n a) = xs" "n < length a" "length a \<le> 2 ^ 16"
    and q: "nl_vsize q = word_of_nat n" "nl_nackinfos q = a" "unat (nl_capacity q) = length a"
  shows "\<exists>r a'. yang_nackinfo_insert now q v
        = Some (r, q\<lparr>nl_nackinfos := a', nl_vsize := word_of_nat (length (seq_insert base v xs))\<rparr>)
     \<and> length a' = length a \<and> map ni_sn (take (length (seq_insert base v xs)) a') = seq_insert base v xs"
proof (cases "n = 0 \<or> yang_rtp_seq_distance (last xs) v > 0")
  case True
  have lsn: "n = 0 \<or> yang_rtp_seq_distance (ni_sn (last (take n a))) v > 0"
    using True a by (metis last_map list.map_disc_iff length_0_conv)
  have "seq_place base v xs n"
  proof (cases "n = 0")
    case False
    then have "in_window base (last xs)" using sorted a(1) by (simp add: seq_sorted_def)
    then have lt: "seq_rank base (last xs) < seq_rank base v"
      using True False distance_window [OF _ win] by auto
    have "seq_rank base (xs ! j) < seq_rank base v" if "j < n" for j
    proof -
      have "xs ! (n - 1) = last xs" using False a(1) by (subst last_conv_nth) auto
      with seq_sorted_nth_mono [OF sorted, of j "n - 1"] that a(1) lt show ?thesis by fastforce
    qed
    then show ?thesis using a(1) by (auto simp: seq_place_def)
  qed (use a(1) in \<open>simp add: seq_place_def\<close>)
  moreover from this have "v \<notin> set xs" using a(1) by (auto simp: seq_place_def in_set_conv_nth)
  ultimately have "seq_insert base v xs = xs @ [v]"
    using insort_key_place [of base v xs n] a(1) by (simp add: seq_insert_def)
  moreover have "map ni_sn (take (Suc n) (a[n := yang_create_nackinfo now v])) = xs @ [v]"
    using a by (simp add: take_Suc_conv_app_nth)
  ultimately show ?thesis
    using nackinfo_newest [OF a(3,4) q lsn, of now] a(1) by auto
next
  case False
  then have n0: "0 < n" and last: "last xs = xs ! (n - 1)" and lw: "in_window base (last xs)"
    using a(1) sorted by (auto simp: last_conv_nth seq_sorted_def)
  then have old: "seq_rank base v \<le> seq_rank base (ni_sn (take n a ! (n - 1)))"
    using False distance_window [OF lw win] a(2,3) by (metis (no_types, lifting) diff_less length_map nth_map a(1)
        zero_less_one not_le_imp_less of_nat_less_iff diff_gt_0_iff_gt)
  have "\<exists>i. nackinfo_index_loop a v 0 (int n) = Some i
      \<and> (if v \<in> set (map ni_sn (take n a)) then i = - 1 else 0 \<le> i \<and> seq_place base v (map ni_sn (take n a)) (nat i))"
    by (rule nack_search.search_correct [where n = n]) (use sorted win a n0 old in simp_all)
  then obtain i where i: "yang_get_nackinfo_index a v (int n) = Some i"
    "if v \<in> set xs then i = - 1 else 0 \<le> i \<and> seq_place base v xs (nat i)"
    unfolding yang_get_nackinfo_index_def a(2) by auto
  then have bound: "i = - 1 \<or> 0 \<le> i \<and> nat i \<le> n" using a(1) by (auto simp: seq_place_def split: if_splits)
  have nd: "\<not> yang_rtp_seq_distance (ni_sn (last (take n a))) v > 0"
    using False n0 a by (metis last_map list.map_disc_iff length_0_conv less_irrefl)
  note res = nackinfo_sorted_in [OF a(3,4) n0 q nd i(1) bound, of now]
  show ?thesis
  proof (cases "v \<in> set xs")
    case True
    moreover have "q = q\<lparr>nl_nackinfos := a, nl_vsize := word_of_nat n\<rparr>" using q by (cases q) simp
    ultimately show ?thesis using res i(2) a q by (auto simp: seq_insert_def intro!: exI [of _ a])
  next
    case new: False
    let ?p = "nat i" and ?x = "yang_create_nackinfo now v"
    let ?a' = "take ?p a @ ?x # drop ?p (take n a) @ drop (Suc n) a"
    from new i(2) have pl: "seq_place base v xs ?p" and "i \<noteq> - 1" by auto
    then have pn: "?p \<le> n" using a(1) by (simp add: seq_place_def)
    have ins: "seq_insert base v xs = take ?p xs @ v # drop ?p xs"
      using new insort_key_place [OF pl] by (simp add: seq_insert_def)
    have "?a' = (take ?p (take n a) @ ?x # drop ?p (take n a)) @ drop (Suc n) a"
      using pn by (simp add: min_def)
    moreover have "length (take ?p (take n a) @ ?x # drop ?p (take n a)) = Suc n" using a pn by simp
    ultimately have "take (Suc n) ?a' = take ?p (take n a) @ ?x # drop ?p (take n a)"
      by (metis append_eq_conv_conj)
    then have "map ni_sn (take (Suc n) ?a') = take ?p xs @ v # drop ?p xs"
      using take_map [of ?p ni_sn "take n a"] drop_map [of ?p ni_sn "take n a"]
      unfolding a(2) by (simp only: map_append list.map ni_sn_created)
    with res \<open>i \<noteq> - 1\<close> ins a pn show ?thesis by auto
  qed
qed

lemma mem_read_all: "mem_read a 0 (int (length a)) = Some a"
  by (simp add: mem_read_def)

lemma nackinfo_insert_repr:
  assumes "nl_repr base q xs" "in_window base v"
  shows "\<exists>r q'. yang_nackinfo_insert now q v = Some (r, q') \<and> nl_repr base q' (seq_insert base v xs)"
proof -
  let ?n = "length xs" and ?a = "nl_nackinfos q"
  from assms(1) have r: "seq_sorted base xs" "nl_vsize q = word_of_nat ?n" "map ni_sn (take ?n ?a) = xs"
    "?n \<le> length ?a" "length ?a = unat (nl_capacity q)" "length ?a \<le> 2 ^ 16"
    by (auto simp: nl_repr_def)
  have n: "?n \<le> 2 ^ 15" by (rule seq_sorted_length [OF r(1)])
  have sorted: "seq_sorted base (seq_insert base v xs)" using seq_insert_sorted [OF r(1) assms(2)] by simp
  have len: "length (seq_insert base v xs) \<le> Suc ?n" by (simp add: seq_insert_def)
  show ?thesis
  proof (cases "?n < length ?a")
    case True
    from nackinfo_placed [OF r(1) assms(2) refl r(3) True r(6) r(2) refl r(5) [symmetric], of now] sorted r(5,6) len True
    show ?thesis by (auto simp: nl_repr_def)
  next
    case False
    let ?t = "take ?n ?a @ replicate 50 zero_info"
    let ?q = "q\<lparr>nl_nackinfos := ?t, nl_capacity := nl_capacity q + 50\<rparr>"
    have full: "length ?a = ?n" "unat (nl_capacity q) = ?n" using False r(4,5) by auto
    have int_of_cap: "uint (nl_capacity q) = int ?n" using full(2) by (metis uint_nat)
    have cap: "unat (nl_capacity q + 50) = ?n + 50" using full n by (simp add: unat_word_ariths)
    have sn: "sint (word_of_nat ?n :: u32) = int ?n" using n by (intro sint_len) auto
    have grown: "yang_nackinfo_insert now q v = yang_nackinfo_insert now ?q v"
    proof -
      have "mem_read ?a 0 (uint (nl_capacity q)) = Some (take ?n ?a)" "?n = length ?a"
        using mem_read_all [of ?a] full by (simp_all add: int_of_cap)
      moreover have "mem_write (replicate (unat (nl_capacity q + 50)) zero_info) 0 (take ?n ?a) = Some ?t"
        using full cap length_0_conv [of xs] length_0_conv [of ?a] by (simp add: mem_write_def)
      moreover have "(word_of_nat ?n :: u32) \<ge> nl_capacity q" "\<not> (word_of_nat ?n :: u32) \<ge> nl_capacity q + 50"
        using full cap n by (simp_all add: word_le_nat_alt unsigned_of_nat take_bit_nat_eq_self)
      ultimately show ?thesis
        using r(2) by (simp add: yang_nackinfo_insert_def Let_def sn)
    qed
    have t: "?n < length ?t" "length ?t \<le> 2 ^ 16" "map ni_sn (take ?n ?t) = xs" "unat (nl_capacity ?q) = length ?t"
      using full n cap r(3) by auto
    have vs: "nl_vsize ?q = word_of_nat ?n" "nl_nackinfos ?q = ?t" using r(2) by simp_all
    from nackinfo_placed [OF r(1) assms(2) refl t(3,1,2) vs t(4), of now] obtain e a' where
      a': "yang_nackinfo_insert now ?q v = Some (e, ?q\<lparr>nl_nackinfos := a', nl_vsize := word_of_nat (length (seq_insert base v xs))\<rparr>)"
      "length a' = length ?t" "map ni_sn (take (length (seq_insert base v xs)) a') = seq_insert base v xs"
      by blast
    have "nl_repr base (?q\<lparr>nl_nackinfos := a', nl_vsize := word_of_nat (length (seq_insert base v xs))\<rparr>) (seq_insert base v xs)"
      using a'(2,3) t(1,2,4) sorted len by (simp add: nl_repr_def)
    with grown a'(1) show ?thesis by auto
  qed
qed

lemma recvnack_insert_run:
  assumes "nl_repr base (rn_queue nack) xs" "seq_rank base s + m \<le> 2 ^ 15"
  shows "\<exists>nack' ys. recvnack_insert_loop m now nack s = Some nack' \<and> nl_repr base (rn_queue nack') ys
     \<and> set ys = set xs \<union> {v. seq_rank base s \<le> seq_rank base v \<and> seq_rank base v < seq_rank base s + m}
     \<and> nack'\<lparr>rn_queue := rn_queue nack\<rparr> = nack"
  using assms
proof (induction m arbitrary: s nack xs)
  case (Suc m)
  have win: "in_window base s" using Suc.prems(2) by (simp add: in_window_def)
  from nackinfo_insert_repr [OF Suc.prems(1) win, of now] obtain r q where
    q: "yang_nackinfo_insert now (rn_queue nack) s = Some (r, q)" "nl_repr base q (seq_insert base s xs)" by blast
  have ss: "seq_sorted base xs" using Suc.prems(1) by (simp add: nl_repr_def)
  have rank: "seq_rank base (s + 1) = Suc (seq_rank base s)" if "m \<noteq> 0 \<or> True"
  proof -
    have "unat (s - base) < 2 ^ 15" using win by (simp add: in_window_def seq_rank_def)
    then have "unat (s - base + 1) = Suc (unat (s - base))" by (simp add: unat_word_ariths)
    then show ?thesis by (simp add: seq_rank_def algebra_simps)
  qed
  from Suc.IH [of "nack\<lparr>rn_queue := q\<rparr>" "seq_insert base s xs" "s + 1"] q(2) rank Suc.prems(2)
  obtain nack' ys where "recvnack_insert_loop m now (nack\<lparr>rn_queue := q\<rparr>) (s + 1) = Some nack'"
    "nl_repr base (rn_queue nack') ys"
    "set ys = set (seq_insert base s xs) \<union> {v. Suc (seq_rank base s) \<le> seq_rank base v \<and> seq_rank base v < Suc (seq_rank base s) + m}"
    "nack'\<lparr>rn_queue := q\<rparr> = nack\<lparr>rn_queue := q\<rparr>"
    by auto
  moreover have "insert s {v. Suc (seq_rank base s) \<le> seq_rank base v \<and> seq_rank base v < Suc (seq_rank base s) + m}
      = {v. seq_rank base s \<le> seq_rank base v \<and> seq_rank base v < seq_rank base s + Suc m}"
    using seq_rank_inj [of base s] by (auto simp: le_Suc_eq less_Suc_eq_le Suc_le_eq order_le_less)
  moreover have "nack'\<lparr>rn_queue := rn_queue nack\<rparr> = nack" if "nack'\<lparr>rn_queue := q\<rparr> = nack\<lparr>rn_queue := q\<rparr>"
    using that by (cases nack; cases nack') simp
  ultimately show ?case using q(1) seq_insert_sorted(2) [OF ss win] by auto
qed auto

text \<open>C31: Registering the missing packets from s1 up to but not including s2 keeps the list sorted and free of duplicates,
  adds exactly those sequence numbers, grows the list as needed without leaving it, and touches nothing else.\<close>

theorem recvnack_insert_range:
  assumes "nl_repr base (rn_queue nack) xs" "seq_rank base s1 \<le> seq_rank base s2" "in_window base s2"
  shows "\<exists>nack' ys. yang_recvnack_insert now nack s1 s2 = Some nack' \<and> nl_repr base (rn_queue nack') ys
     \<and> set ys = set xs \<union> {v. seq_rank base s1 \<le> seq_rank base v \<and> seq_rank base v < seq_rank base s2}
     \<and> nack'\<lparr>rn_queue := rn_queue nack\<rparr> = nack"
proof -
  have "unat (s2 - base - (s1 - base)) = unat (s2 - base) - unat (s1 - base)"
    using assms(2) by (intro unat_sub) (simp add: seq_rank_def word_le_nat_alt)
  then have "seq_rank base s2 = seq_rank base s1 + unat (s2 - s1)"
    using assms(2) by (simp add: seq_rank_def)
  with recvnack_insert_run [OF assms(1), of s1 "unat (s2 - s1)" now] assms(3) show ?thesis
    by (simp add: yang_recvnack_insert_def in_window_def)
qed

definition sample_recvnack :: recv_nack where
  "sample_recvnack = yang_create_recvnack
     \<lparr>rn_rtt = 0, rn_preCheckTime = 0, rn_maxQueueSize = 0, rn_rtp = yang_create_nackBuffer 1000,
      rn_opts = \<lparr>no_maxReqCount = 0, no_maxAliveTime = 0, no_firstNackInterval = 0, no_nackInterval = 0,
                 no_maxNackInterval = 0, no_minNackInterval = 0, no_nackCheckInterval = 0\<rparr>,
      rn_rtcp = zero_rtcp, rn_queue = \<lparr>nl_vsize = 0, nl_capacity = 0, nl_nackinfos = []\<rparr>\<rparr>
     (yang_create_nackBuffer 1000) 666"

theorem recvnack_insert_range_witness:
  "\<exists>nack' ys. yang_recvnack_insert 7 sample_recvnack 65535 2 = Some nack' \<and> nl_repr 65530 (rn_queue nack') ys
     \<and> set ys = set [] \<union> {v. seq_rank 65530 65535 \<le> seq_rank 65530 v \<and> seq_rank 65530 v < seq_rank 65530 2}
     \<and> nack'\<lparr>rn_queue := rn_queue sample_recvnack\<rparr> = sample_recvnack"
  by (rule recvnack_insert_range) (simp_all add: sample_recvnack_def yang_create_recvnack_def yang_create_nackinfovec_def
      nl_repr_def seq_sorted_def in_window_def seq_rank_def)

section \<open>Removing packets from the list\<close>

lemma nackinfo_remove_loop_found:
  assumes "take n a = ps @ rs @ x # qs" "n = length (ps @ rs @ x # qs)" "n \<le> length a" "ni_sn x \<notin> ni_sn ` set rs" "length rs < m"
  shows "\<exists>a'. nackinfo_remove_loop m (int (length ps)) (int n) a (ni_sn x) len = Some (a', word_of_int (int n - 1))
     \<and> length a' = length a \<and> take (n - 1) a' = ps @ rs @ qs"
  using assms
proof (induction m arbitrary: ps rs)
  case (Suc m)
  have at: "a ! i = take n a ! i" if "i < n" for i using that by simp
  show ?case
  proof (cases rs)
    case Nil
    have ld: "mem_load a (int (length ps)) = Some x"
      using Suc.prems at [of "length ps"] Nil by (simp add: mem_load_def nth_append)
    have split: "a = ps @ x # qs @ drop n a"
      using Suc.prems(1) Nil by (metis append.assoc append_Cons append_Nil append_take_drop_id)
    have rd: "mem_read a (int (length ps) + 1) (int n - int (length ps) - 1) = Some qs"
      using Suc.prems(2,3) Nil by (subst split) (simp add: mem_read_def nat_add_distrib)
    have wr: "mem_write a (int (length ps)) qs = Some (ps @ qs @ drop (length qs) (x # qs @ drop n a))"
      by (subst split) (simp add: mem_write_def)
    show ?thesis
    proof (cases qs)
      case Nil
      with ld Suc.prems \<open>rs = []\<close> show ?thesis by (auto simp: take_Suc_conv_app_nth)
    next
      case (Cons y ys)
      with ld rd wr Suc.prems Nil show ?thesis by auto
    qed
  next
    case (Cons r rs')
    have "mem_load a (int (length ps)) = Some r"
      using Suc.prems at [of "length ps"] Cons by (simp add: mem_load_def nth_append)
    with Suc.IH [of "ps @ [r]" rs'] Suc.prems Cons show ?thesis by (auto simp: add.commute)
  qed
qed simp

lemma nackinfo_remove_loop_absent:
  assumes "v \<notin> ni_sn ` set (take n a)" "n \<le> length a" "i + m = n"
  shows "nackinfo_remove_loop m (int i) alen a v len = Some (a, len)"
  using assms(3)
proof (induction m arbitrary: i)
  case (Suc m)
  have "take n a ! i \<in> set (take n a)" using Suc.prems assms(2) by (intro nth_mem) simp
  then have "a ! i \<in> set (take n a)" using Suc.prems by simp
  then have "mem_load a (int i) = Some (a ! i)" "ni_sn (a ! i) \<noteq> v"
    using assms(1,2) Suc.prems by (auto simp: mem_load_def)
  with Suc.IH [of "Suc i"] Suc.prems show ?case by (simp add: add.commute)
qed simp

lemma nackinfo_remove_at:
  assumes "take n a = rs @ x # qs" "n = length (rs @ x # qs)" "n \<le> length a" "n < 2 ^ 31" "ni_sn x \<notin> ni_sn ` set rs"
  shows "\<exists>a'. yang_nackinfo_remove a (ni_sn x) (word_of_nat n) = Some (Yang_Ok, a', word_of_nat (n - 1))
     \<and> length a' = length a \<and> take (n - 1) a' = rs @ qs"
proof -
  have sn: "sint (word_of_nat n :: u32) = int n" using assms(4) by (rule sint_len)
  have n0: "(word_of_nat n :: u32) \<noteq> 0" using sn assms(2) by (metis add_is_0 length_Cons length_append nat.distinct(1) of_nat_eq_0_iff signed_0)
  have wn: "word_of_int (int n - 1) = (word_of_nat (n - 1) :: u32)" using assms(2) by (simp flip: of_nat_diff)
  show ?thesis
  proof (cases "n = 1")
    case True
    with assms have "rs = []" "qs = []" "mem_load a 0 = Some x"
      by (auto simp: mem_load_def) (cases a; simp)+
    with True show ?thesis using sn n0 by (auto simp: yang_nackinfo_remove_def)
  next
    case False
    have "length rs < n" using assms(2) by simp
    from nackinfo_remove_loop_found [of n a "[]" rs x qs n "word_of_nat n", unfolded append_Nil list.size(3) semiring_1_class.of_nat_0 wn,
        OF assms(1,2,3,5) this] obtain a' where "nackinfo_remove_loop n 0 (int n) a (ni_sn x) (word_of_nat n) = Some (a', word_of_nat (n - 1))"
      "length a' = length a" "take (n - 1) a' = rs @ qs"
      by auto
    with False sn n0 show ?thesis by (auto simp: yang_nackinfo_remove_def Let_def)
  qed
qed

lemma nackinfo_remove_absent:
  assumes "v \<notin> ni_sn ` set (take n a)" "n \<le> length a" "n < 2 ^ 31"
  shows "\<exists>r. yang_nackinfo_remove a v (word_of_nat n) = Some (r, a, word_of_nat n)"
proof -
  have sn: "sint (word_of_nat n :: u32) = int n" using assms(3) by (rule sint_len)
  show ?thesis
  proof (cases "n = 1")
    case True
    with assms have "mem_load a 0 = Some (hd a)" "ni_sn (hd a) \<noteq> v"
      by (cases a; auto simp: mem_load_def)+
    with True show ?thesis using sn by (auto simp: yang_nackinfo_remove_def)
  next
    case False
    with nackinfo_remove_loop_absent [OF assms(1,2), of 0 n] sn show ?thesis
      by (auto simp: yang_nackinfo_remove_def)
  qed
qed

lemma seq_sorted_distinct: "seq_sorted base xs \<Longrightarrow> distinct xs"
  by (auto simp: seq_sorted_def strict_sorted_iff distinct_map)

lemma recvnack_remove_repr:
  assumes "nl_repr base (rn_queue nack) xs"
  shows "\<exists>nack'. yang_recvnack_remove nack v = Some nack' \<and> nl_repr base (rn_queue nack') (remove1 v xs)
     \<and> nack'\<lparr>rn_queue := rn_queue nack\<rparr> = nack"
proof -
  let ?n = "length xs" and ?a = "nl_nackinfos (rn_queue nack)"
  from assms have r: "seq_sorted base xs" "nl_vsize (rn_queue nack) = word_of_nat ?n" "map ni_sn (take ?n ?a) = xs"
    "?n \<le> length ?a" "length ?a = unat (nl_capacity (rn_queue nack))" "length ?a \<le> 2 ^ 16"
    by (auto simp: nl_repr_def)
  have n: "?n < 2 ^ 31" using r(4,6) by simp
  show ?thesis
  proof (cases "v \<in> set xs")
    case False
    then have "v \<notin> ni_sn ` set (take ?n ?a)" using r(3) by (metis set_map)
    from nackinfo_remove_absent [OF this r(4) n] obtain e where
      "yang_nackinfo_remove ?a v (word_of_nat ?n) = Some (e, ?a, word_of_nat ?n)" by blast
    with r assms False show ?thesis
      by (auto simp: yang_recvnack_remove_def nl_repr_def remove1_idem)
  next
    case True
    then have "v \<in> ni_sn ` set (take ?n ?a)" using r(3) by (metis set_map)
    then obtain rs x qs where s: "take ?n ?a = rs @ x # qs" "ni_sn x = v" "v \<notin> ni_sn ` set rs"
      using split_list_first_prop [of "take ?n ?a" "\<lambda>x. ni_sn x = v"] by fastforce
    have len: "?n = length (rs @ x # qs)" using s(1) r(4) by (metis length_take min.absorb2)
    from nackinfo_remove_at [OF s(1) len r(4) n] s(2,3) obtain a' where
      a': "yang_nackinfo_remove ?a v (word_of_nat ?n) = Some (Yang_Ok, a', word_of_nat (?n - 1))"
      "length a' = length ?a" "take (?n - 1) a' = rs @ qs" by auto
    have xs: "xs = map ni_sn rs @ v # map ni_sn qs" using r(3) s(1,2) by simp
    then have rem: "remove1 v xs = map ni_sn rs @ map ni_sn qs" using s(3) by (simp add: remove1_append)
    have "seq_sorted base (remove1 v xs)"
      using r(1) unfolding rem unfolding xs by (auto simp: seq_sorted_def sorted_wrt_append)
    moreover have "length (remove1 v xs) = ?n - 1" using True by (simp add: length_remove1)
    moreover have "map ni_sn (take (?n - 1) a') = remove1 v xs" using a'(3) rem by simp
    moreover have "yang_recvnack_remove nack v = Some (nack\<lparr>rn_queue := (rn_queue nack)\<lparr>nl_nackinfos := a', nl_vsize := word_of_nat (?n - 1)\<rparr>\<rparr>)"
      using a'(1) r(2) by (simp add: yang_recvnack_remove_def)
    moreover have "?n - 1 \<le> length ?a" using r(4) by simp
    ultimately show ?thesis
      using a'(2) r(5,6) by (simp add: nl_repr_def)
  qed
qed

text \<open>Removing a sequence number from the list of missing packets removes it wherever it stands, keeps the order of
  the others, and leaves the list alone when the number is not in it.\<close>

theorem recvnack_remove_list:
  assumes "nl_repr base (rn_queue nack) xs"
  shows "\<exists>nack'. yang_recvnack_remove nack v = Some nack' \<and> nl_repr base (rn_queue nack') (remove1 v xs)
     \<and> nack'\<lparr>rn_queue := rn_queue nack\<rparr> = nack"
  by (rule recvnack_remove_repr [OF assms])

definition sample_missing :: recv_nack where
  "sample_missing = sample_recvnack\<lparr>rn_queue := (rn_queue sample_recvnack)\<lparr>nl_vsize := 3,
     nl_nackinfos := map (yang_create_nackinfo 0) [65535, 0, 1] @ replicate 97 zero_info\<rparr>\<rparr>"

lemma sample_missing_repr: "nl_repr 65530 (rn_queue sample_missing) [65535, 0, 1]"
  by (simp add: sample_missing_def sample_recvnack_def yang_create_recvnack_def yang_create_nackinfovec_def
      nl_repr_def seq_sorted_def in_window_def seq_rank_def)

theorem recvnack_remove_list_witness:
  "\<exists>nack'. yang_recvnack_remove sample_missing 0 = Some nack' \<and> nl_repr 65530 (rn_queue nack') (remove1 0 [65535, 0, 1])
     \<and> nack'\<lparr>rn_queue := rn_queue sample_missing\<rparr> = sample_missing"
  by (rule recvnack_remove_list [OF sample_missing_repr])

section \<open>Giving up packets\<close>

fun skip_even :: "'a list \<Rightarrow> 'a list" where
  "skip_even [] = []"
| "skip_even [x] = []"
| "skip_even (x # y # zs) = y # skip_even zs"

lemma length_skip_even: "length (skip_even xs) = length xs div 2"
  by (induction xs rule: skip_even.induct) auto

lemma map_skip_even: "map f (skip_even xs) = skip_even (map f xs)"
  by (induction xs rule: skip_even.induct) auto

lemma nackbuffer_drop:
  assumes "nackbuffer_ok nb"
  shows "\<exists>nb'. yang_nackbuffer_notify_drop_seq nb s = Some nb' \<and> nackbuffer_ok nb'"
  using slot_written [OF _ nackbuffer_slot(2) [OF assms], of s "- 1"] nackbuffer_slot(1) [OF assms, of s] assms
  by (auto simp: yang_nackbuffer_notify_drop_seq_def yang_nackbuffer_remove_def yang_nackbuffer_advance_to_def
      nackbuffer_ok_def)

definition expired :: "int \<Rightarrow> nack_option \<Rightarrow> nack_info \<Rightarrow> bool" where
  "expired now opts x \<longleftrightarrow> signed_take_bit 31 (now - ni_generateTime x) > no_maxAliveTime opts \<or> ni_reqNackCount x > no_maxReqCount opts"

lemma drop_one:
  assumes a: "take n (nl_nackinfos (rn_queue rn)) = ks @ x # rest" "n = length (ks @ x # rest)"
      "n \<le> length (nl_nackinfos (rn_queue rn))" "n < 2 ^ 31" "ni_sn x \<notin> ni_sn ` set ks"
    and rn: "nl_vsize (rn_queue rn) = word_of_nat n" "nackbuffer_ok (rn_rtp rn)" "expired now (rn_opts rn) x"
  shows "\<exists>rtp' a'. get_nack_seqs_loop (Suc m) (int (length ks)) now rn nack t
      = get_nack_seqs_loop m (int (Suc (length ks))) now
          (rn\<lparr>rn_rtp := rtp', rn_queue := (rn_queue rn)\<lparr>nl_nackinfos := a', nl_vsize := word_of_nat (n - 1)\<rparr>\<rparr>) nack (t + 1)
    \<and> nackbuffer_ok rtp' \<and> length a' = length (nl_nackinfos (rn_queue rn)) \<and> take (n - 1) a' = ks @ rest"
proof -
  let ?a = "nl_nackinfos (rn_queue rn)"
  obtain rtp' where rtp: "yang_nackbuffer_notify_drop_seq (rn_rtp rn) (ni_sn x) = Some rtp'" "nackbuffer_ok rtp'"
    using nackbuffer_drop [OF rn(2)] by blast
  obtain a' where a': "yang_nackinfo_remove ?a (ni_sn x) (word_of_nat n) = Some (Yang_Ok, a', word_of_nat (n - 1))"
    "length a' = length ?a" "take (n - 1) a' = ks @ rest"
    using nackinfo_remove_at [OF a(1,2,3,4,5)] by blast
  have "?a ! length ks = x" using a(1,2) by (metis add_Suc_right length_Cons length_append less_add_Suc1 nth_append_length nth_take)
  then have ld: "mem_load ?a (int (length ks)) = Some x" using a(2,3) by (simp add: mem_load_def)
  have "uint (word_of_nat n :: u32) = int n" using a(4) by (simp add: unsigned_of_nat take_bit_nat_eq_self)
  moreover have "length ks < n" using a(2) by simp
  ultimately have more: "\<not> int (length ks) \<ge> uint (word_of_nat n :: u32)" by simp
  show ?thesis
    using rtp a' rn(1,3) ld more
    by (auto simp: Let_def yang_recvnack_remove_def expired_def add.commute simp del: of_nat_diff)
qed

lemma none_left:
  assumes "nl_vsize (rn_queue rn) = word_of_nat n" "n < 2 ^ 31" "n \<le> k"
  shows "get_nack_seqs_loop m (int k) now rn nack t = Some (rn, nack, t)"
proof -
  have "uint (word_of_nat n :: u32) = int n" using assms(2) by (simp add: unsigned_of_nat take_bit_nat_eq_self)
  then show ?thesis using assms by (cases m) simp_all
qed

lemma give_up_loop:
  assumes "take n (nl_nackinfos (rn_queue rn)) = ks @ rest" "n = length (ks @ rest)"
      "n \<le> length (nl_nackinfos (rn_queue rn))" "n < 2 ^ 31" "distinct (map ni_sn (ks @ rest))" "length rest \<le> m"
    and "nl_vsize (rn_queue rn) = word_of_nat n" "nackbuffer_ok (rn_rtp rn)" "\<forall>x\<in>set rest. expired now (rn_opts rn) x"
  shows "\<exists>rtp' a'. get_nack_seqs_loop m (int (length ks)) now rn nack t
      = Some (rn\<lparr>rn_rtp := rtp', rn_queue := (rn_queue rn)\<lparr>nl_nackinfos := a',
                nl_vsize := word_of_nat (length ks + length rest div 2)\<rparr>\<rparr>, nack, t + word_of_nat ((length rest + 1) div 2))
    \<and> length a' = length (nl_nackinfos (rn_queue rn)) \<and> take (length ks + length rest div 2) a' = ks @ skip_even rest"
  using assms
proof (induction rest arbitrary: m ks n rn t rule: skip_even.induct)
  case 1
  then show ?case using none_left [of rn n "length ks" m now nack t]
    by (auto intro!: exI [of _ "rn_rtp rn"] exI [of _ "nl_nackinfos (rn_queue rn)"])
next
  case (2 x)
  then obtain m' where m: "m = Suc m'" by (cases m) auto
  have "\<exists>rtp' a'. get_nack_seqs_loop (Suc m') (int (length ks)) now rn nack t
      = get_nack_seqs_loop m' (int (Suc (length ks))) now
          (rn\<lparr>rn_rtp := rtp', rn_queue := (rn_queue rn)\<lparr>nl_nackinfos := a', nl_vsize := word_of_nat (n - 1)\<rparr>\<rparr>) nack (t + 1)
    \<and> nackbuffer_ok rtp' \<and> length a' = length (nl_nackinfos (rn_queue rn)) \<and> take (n - 1) a' = ks @ []"
    using "2.prems" by (intro drop_one) auto
  then obtain rtp' a' where "get_nack_seqs_loop m (int (length ks)) now rn nack t
      = get_nack_seqs_loop m' (int (Suc (length ks))) now
          (rn\<lparr>rn_rtp := rtp', rn_queue := (rn_queue rn)\<lparr>nl_nackinfos := a', nl_vsize := word_of_nat (n - 1)\<rparr>\<rparr>) nack (t + 1)"
    "length a' = length (nl_nackinfos (rn_queue rn))" "take (n - 1) a' = ks"
    using m by auto
  moreover have "n - 1 = length ks" using "2.prems"(2) by simp
  ultimately show ?case
    using none_left [of "rn\<lparr>rn_rtp := rtp', rn_queue := (rn_queue rn)\<lparr>nl_nackinfos := a', nl_vsize := word_of_nat (n - 1)\<rparr>\<rparr>"
        "n - 1" "Suc (length ks)" m' now nack "t + 1"] "2.prems"(4)
    by (auto simp del: get_nack_seqs_loop.simps)
next
  case (3 x y zs)
  from "3.prems"(6) obtain m' where m: "m = Suc m'" "length zs \<le> m'" by (cases m) auto
  have "\<exists>rtp' a'. get_nack_seqs_loop (Suc m') (int (length ks)) now rn nack t
      = get_nack_seqs_loop m' (int (Suc (length ks))) now
          (rn\<lparr>rn_rtp := rtp', rn_queue := (rn_queue rn)\<lparr>nl_nackinfos := a', nl_vsize := word_of_nat (n - 1)\<rparr>\<rparr>) nack (t + 1)
    \<and> nackbuffer_ok rtp' \<and> length a' = length (nl_nackinfos (rn_queue rn)) \<and> take (n - 1) a' = ks @ y # zs"
    using "3.prems" by (intro drop_one) auto
  then obtain rtp' a' where step: "get_nack_seqs_loop m (int (length ks)) now rn nack t
      = get_nack_seqs_loop m' (int (length (ks @ [y]))) now
          (rn\<lparr>rn_rtp := rtp', rn_queue := (rn_queue rn)\<lparr>nl_nackinfos := a', nl_vsize := word_of_nat (n - 1)\<rparr>\<rparr>) nack (t + 1)"
    "nackbuffer_ok rtp'" "length a' = length (nl_nackinfos (rn_queue rn))" "take (n - 1) a' = (ks @ [y]) @ zs"
    using m by auto
  let ?rn = "rn\<lparr>rn_rtp := rtp', rn_queue := (rn_queue rn)\<lparr>nl_nackinfos := a', nl_vsize := word_of_nat (n - 1)\<rparr>\<rparr>"
  have "\<exists>rtp'' a''. get_nack_seqs_loop m' (int (length (ks @ [y]))) now ?rn nack (t + 1)
      = Some (?rn\<lparr>rn_rtp := rtp'', rn_queue := (rn_queue ?rn)\<lparr>nl_nackinfos := a'',
                nl_vsize := word_of_nat (length (ks @ [y]) + length zs div 2)\<rparr>\<rparr>, nack, t + 1 + word_of_nat ((length zs + 1) div 2))
    \<and> length a'' = length (nl_nackinfos (rn_queue ?rn)) \<and> take (length (ks @ [y]) + length zs div 2) a'' = (ks @ [y]) @ skip_even zs"
    using "3.prems" step(2-) m(2) by (intro "3.IH" [where n = "n - 1"]) (simp_all)
  then show ?case using step(1,3) by (fastforce simp: algebra_simps)
qed

text \<open>When every registered packet has timed out, one pass of the sender of negative acknowledgements gives up only every
  other one: removing an entry moves its successor into its place, and the loop steps over it. It requests nothing.\<close>

theorem get_nack_seqs_skips:
  assumes "nl_repr base (rn_queue rn) xs" "nackbuffer_ok (rn_rtp rn)"
    and "now - rn_preCheckTime rn \<ge> no_nackCheckInterval (rn_opts rn)"
    and "\<forall>x\<in>set (take (length xs) (nl_nackinfos (rn_queue rn))). expired now (rn_opts rn) x"
  shows "\<exists>rn'. yang_recvnack_get_nack_seqs now rn nack t = Some (rn', nack, t + word_of_nat ((length xs + 1) div 2))
    \<and> rn_preCheckTime rn' = now
    \<and> nl_vsize (rn_queue rn') = word_of_nat (length (skip_even xs))
    \<and> map ni_sn (take (length (skip_even xs)) (nl_nackinfos (rn_queue rn'))) = skip_even xs"
proof -
  let ?n = "length xs" and ?a = "nl_nackinfos (rn_queue rn)" and ?rn = "rn\<lparr>rn_preCheckTime := now\<rparr>"
  from assms(1) have r: "seq_sorted base xs" "nl_vsize (rn_queue rn) = word_of_nat ?n" "map ni_sn (take ?n ?a) = xs"
    "?n \<le> length ?a" "length ?a \<le> 2 ^ 16"
    by (auto simp: nl_repr_def)
  have len: "length (take ?n ?a) = ?n" using r(4) by simp
  have n: "unat (word_of_nat ?n :: u32) = ?n" "?n < 2 ^ 31" using r(4,5) by (auto intro: unat_word_of_nat_small)
  have "\<exists>rtp' a'. get_nack_seqs_loop ?n (int (length ([] :: nack_info list))) now ?rn nack t
      = Some (?rn\<lparr>rn_rtp := rtp', rn_queue := (rn_queue ?rn)\<lparr>nl_nackinfos := a',
                nl_vsize := word_of_nat (length ([] :: nack_info list) + length (take ?n ?a) div 2)\<rparr>\<rparr>, nack, t + word_of_nat ((length (take ?n ?a) + 1) div 2))
    \<and> length a' = length (nl_nackinfos (rn_queue ?rn)) \<and> take (length ([] :: nack_info list) + length (take ?n ?a) div 2) a' = [] @ skip_even (take ?n ?a)"
    using r n len assms(2,4) seq_sorted_distinct [OF r(1)] by (intro give_up_loop) simp_all
  then obtain rtp' a' where "get_nack_seqs_loop ?n 0 now ?rn nack t
      = Some (?rn\<lparr>rn_rtp := rtp', rn_queue := (rn_queue rn)\<lparr>nl_nackinfos := a', nl_vsize := word_of_nat (?n div 2)\<rparr>\<rparr>, nack,
              t + word_of_nat ((?n + 1) div 2))"
    "take (?n div 2) a' = skip_even (take ?n ?a)"
    unfolding len by auto
  then show ?thesis
    using assms(3) r(2) n(1) by (auto simp: yang_recvnack_get_nack_seqs_def length_skip_even map_skip_even r(3))
qed

theorem get_nack_seqs_skips_witness:
  "\<exists>rn'. yang_recvnack_get_nack_seqs 2000000 sample_missing \<lparr>nk_mediaSsrc = 1, nk_vsize = 0, nk_capacity = 50, nk_nacks = None\<rparr> 0
      = Some (rn', \<lparr>nk_mediaSsrc = 1, nk_vsize = 0, nk_capacity = 50, nk_nacks = None\<rparr>, 0 + word_of_nat ((length [65535, 0, 1 :: u16] + 1) div 2))
    \<and> rn_preCheckTime rn' = 2000000
    \<and> nl_vsize (rn_queue rn') = word_of_nat (length (skip_even [65535, 0, 1 :: u16]))
    \<and> map ni_sn (take (length (skip_even [65535, 0, 1 :: u16])) (nl_nackinfos (rn_queue rn'))) = skip_even [65535, 0, 1]"
  by (rule get_nack_seqs_skips [OF sample_missing_repr])
    (simp_all add: sample_missing_def sample_recvnack_def yang_create_recvnack_def nackbuffer_ok_def
      yang_create_nackBuffer_def expired_def yang_create_nackinfo_def signed_take_bit_int_eq_self)

end
