(* ===== verification/Video_Meta.thy ===== *)
theory Video_Meta
  imports Rtp_Payload
begin

text \<open>
  Parameter sets of H.264 and H.265: the big-endian stores of \<open>yangutil/sys/YangEndian.c\<close> and the
  configuration records of \<open>yangavutil/YangMeta.c\<close>.

  A \<open>uint8_t *\<close> argument is the array it points into and, where the code moves it, its offset. A run of
  constant stores \<open>p[0] = \<dots>; p[1] = \<dots>\<close> is one \<open>mem_write\<close>: both fault when a byte is outside the array.
\<close>

section \<open>Big-endian stores (YangEndian.c)\<close>

text \<open>The result pointer is the offset behind the bytes stored.\<close>

definition yang_put_byte :: "u8 list \<Rightarrow> int \<Rightarrow> u8 \<Rightarrow> (u8 list \<times> int) option" where
  "yang_put_byte m p v = do {
     m \<leftarrow> mem_store m p v;
     Some (m, p + 1)
   }"

definition yang_put_be16 :: "u8 list \<Rightarrow> int \<Rightarrow> u16 \<Rightarrow> (u8 list \<times> int) option" where
  "yang_put_be16 m p v = do {
     m \<leftarrow> mem_store m (p + 1) (ucast (v AND 0xFF));
     m \<leftarrow> mem_store m p (ucast (drop_bit 8 v));
     Some (m, p + 2)
   }"

definition yang_put_be24 :: "u8 list \<Rightarrow> int \<Rightarrow> u32 \<Rightarrow> (u8 list \<times> int) option" where
  "yang_put_be24 m p v = do {
     m \<leftarrow> mem_store m (p + 2) (ucast (v AND 0xFF));
     m \<leftarrow> mem_store m (p + 1) (ucast (drop_bit 8 v));
     m \<leftarrow> mem_store m p (ucast (drop_bit 16 v));
     Some (m, p + 3)
   }"

definition yang_put_be32 :: "u8 list \<Rightarrow> int \<Rightarrow> u32 \<Rightarrow> (u8 list \<times> int) option" where
  "yang_put_be32 m p v = do {
     m \<leftarrow> mem_store m (p + 3) (ucast (v AND 0xFF));
     m \<leftarrow> mem_store m (p + 2) (ucast (drop_bit 8 v));
     m \<leftarrow> mem_store m (p + 1) (ucast (drop_bit 16 v));
     m \<leftarrow> mem_store m p (ucast (drop_bit 24 v));
     Some (m, p + 4)
   }"

definition yang_put_be64 :: "u8 list \<Rightarrow> int \<Rightarrow> u64 \<Rightarrow> (u8 list \<times> int) option" where
  "yang_put_be64 m p v = do {
     (m, p) \<leftarrow> yang_put_be32 m p (ucast (drop_bit 32 v));
     yang_put_be32 m p (ucast v)
   }"

text \<open>The string is NUL-terminated; its length is cut to an \<open>unsigned short\<close>. A double is its bit pattern.\<close>

definition yang_put_amf_string :: "u8 list \<Rightarrow> int \<Rightarrow> u8 list \<Rightarrow> (u8 list \<times> int) option" where
  "yang_put_amf_string m c str = do {
     n \<leftarrow> c_strlen str;
     let len = (word_of_int n :: u16);
     (m, c) \<leftarrow> yang_put_be16 m c len;
     src \<leftarrow> mem_read str 0 (uint len);
     m \<leftarrow> mem_write m c src;
     Some (m, c + uint len)
   }"

definition yang_put_amf_double :: "u8 list \<Rightarrow> int \<Rightarrow> u64 \<Rightarrow> (u8 list \<times> int) option" where
  "yang_put_amf_double m c d = do {
     m \<leftarrow> mem_store m c 0;
     m \<leftarrow> mem_write m (c + 1) (be64 d);
     Some (m, c + 1 + 8)
   }"

definition yang_get_be32 :: "u8 list \<Rightarrow> int \<Rightarrow> u32 option" where
  "yang_get_be32 m p = do {
     b3 \<leftarrow> mem_load m (p + 3);
     b2 \<leftarrow> mem_load m (p + 2);
     b1 \<leftarrow> mem_load m (p + 1);
     b0 \<leftarrow> mem_load m p;
     Some (ucast b3 OR push_bit 8 (ucast b2) OR push_bit 16 (ucast b1) OR push_bit 24 (ucast b0))
   }"

definition yang_get_be16 :: "u8 list \<Rightarrow> int \<Rightarrow> u16 option" where
  "yang_get_be16 m p = do {
     b1 \<leftarrow> mem_load m (p + 1);
     b0 \<leftarrow> mem_load m p;
     Some (ucast b1 OR push_bit 8 (ucast b0))
   }"

section \<open>Start codes (YangMeta.c)\<close>

datatype YangVideoCodec = Yang_VED_264 | Yang_VED_265 | Yang_VED_AV1 | Yang_VED_VP9

text \<open>The test for 0, 0, 0, 1 at \<open>i\<close>, with the short circuit of \<open>&&\<close>.\<close>

definition start_code_at :: "u8 list \<Rightarrow> int \<Rightarrow> bool option" where
  "start_code_at buf i = do {
     x \<leftarrow> mem_load buf i;
     if x \<noteq> 0 then Some False
     else do {
       x \<leftarrow> mem_load buf (i + 1);
       if x \<noteq> 0 then Some False
       else do {
         x \<leftarrow> mem_load buf (i + 2);
         if x \<noteq> 0 then Some False
         else do {
           x \<leftarrow> mem_load buf (i + 3);
           Some (x = 1)
         }
       }
     }
   }"

text \<open>The search loops from \<open>i\<close>: the position of the next start code, or \<open>None\<close> inside when there is none.\<close>

function find_code :: "u8 list \<Rightarrow> int \<Rightarrow> int \<Rightarrow> int option option" where
  "find_code buf bufLen i =
     (if i < bufLen - 3 then
        case start_code_at buf i of
          None \<Rightarrow> None
        | Some True \<Rightarrow> Some (Some i)
        | Some False \<Rightarrow> find_code buf bufLen (i + 1)
      else Some None)"
  by pat_completeness auto
termination
  by (relation "measure (\<lambda>(buf, n, i). nat (n - i))") auto

declare find_code.simps [simp del]

record start_codes =
  sc_vpsPos :: int
  sc_vpsLen :: int
  sc_spsPos :: int
  sc_spsLen :: int
  sc_ppsPos :: int
  sc_ppsLen :: int

text \<open>The six output arguments are passed in and out. After a failed search the index is past the last position.\<close>

definition after_code :: "int \<Rightarrow> int option \<Rightarrow> int" where
  "after_code bufLen r = (case r of None \<Rightarrow> bufLen | Some i \<Rightarrow> i + 4)"

definition yang_find_start_code ::
    "YangVideoCodec \<Rightarrow> u8 list \<Rightarrow> int \<Rightarrow> start_codes \<Rightarrow> start_codes option" where
  "yang_find_start_code pve buf bufLen out = do {
     let out = out\<lparr>sc_spsPos := 0, sc_ppsPos := 0\<rparr>;
     (out, i) \<leftarrow> (if pve = Yang_VED_265 then do {
         let out = out\<lparr>sc_vpsPos := 0\<rparr>;
         r \<leftarrow> find_code buf bufLen 0;
         Some (case r of None \<Rightarrow> out | Some i \<Rightarrow> out\<lparr>sc_vpsPos := i + 4\<rparr>, after_code bufLen r)
       }
       else Some (out, 0));
     r \<leftarrow> find_code buf bufLen i;
     let out = (case r of
                  None \<Rightarrow> out
                | Some i \<Rightarrow>
                    (if pve = Yang_VED_265 then out\<lparr>sc_vpsLen := i - 4\<rparr> else out)\<lparr>sc_spsPos := i + 4\<rparr>);
     let i = after_code bufLen r;
     r \<leftarrow> find_code buf bufLen i;
     Some (case r of
             None \<Rightarrow> out
           | Some i \<Rightarrow> out\<lparr>sc_spsLen := i - sc_spsPos out, sc_ppsPos := i + 4, sc_ppsLen := bufLen - (i + 4)\<rparr>)
   }"

definition yang_find_pre_start_code :: "u8 list \<Rightarrow> int \<Rightarrow> int option" where
  "yang_find_pre_start_code buf bufLen = do {
     r \<leftarrow> find_code buf bufLen 0;
     Some (case r of None \<Rightarrow> - 1 | Some i \<Rightarrow> i)
   }"

section \<open>Parameter sets\<close>

record h2645_conf =
  cf_vpsLen :: int
  cf_spsLen :: int
  cf_ppsLen :: int
  cf_vps :: "u8 list"
  cf_sps :: "u8 list"
  cf_pps :: "u8 list"

record rtmp_meta =
  rm_buffer :: "u8 list"
  rm_bufLen :: int

record video_meta =
  vm_isInit :: int
  vm_mp4Meta :: h2645_conf
  vm_livingMeta :: rtmp_meta

text \<open>The payload of a frame points into \<open>fr_mem\<close>.\<close>

record yang_frame =
  fr_mediaType :: int
  fr_uid :: int
  fr_frametype :: int
  fr_nb :: int
  fr_pts :: int
  fr_dts :: int
  fr_mem :: "u8 list"
  fr_payload :: int

definition zero_conf :: h2645_conf where
  "zero_conf = \<lparr>cf_vpsLen = 0, cf_spsLen = 0, cf_ppsLen = 0, cf_vps = replicate 128 0, cf_sps = replicate 128 0,
     cf_pps = replicate 64 0\<rparr>"

definition zero_meta :: video_meta where
  "zero_meta = \<lparr>vm_isInit = 0, vm_mp4Meta = zero_conf,
     vm_livingMeta = \<lparr>rm_buffer = replicate 128 0, rm_bufLen = 0\<rparr>\<rparr>"

text \<open>The lengths are \<open>uint32_t\<close> values; the copy goes into arrays of 128 and 64 bytes.\<close>

definition yang_createH264Meta :: "yang_frame \<Rightarrow> video_meta option" where
  "yang_createH264Meta fr = do {
     let p = fr_payload fr;
     l \<leftarrow> yang_get_be32 (fr_mem fr) p;
     let spslen = uint l;
     l \<leftarrow> yang_get_be32 (fr_mem fr) (p + spslen + 4);
     let ppslen = uint l;
     src \<leftarrow> mem_read (fr_mem fr) (p + 4) spslen;
     sps \<leftarrow> mem_write (cf_sps zero_conf) 0 src;
     src \<leftarrow> mem_read (fr_mem fr) (p + 4 + spslen + 4) ppslen;
     pps \<leftarrow> mem_write (cf_pps zero_conf) 0 src;
     Some (zero_meta\<lparr>vm_mp4Meta := zero_conf\<lparr>cf_spsLen := signed_take_bit 31 spslen,
             cf_ppsLen := signed_take_bit 31 ppslen, cf_sps := sps, cf_pps := pps\<rparr>\<rparr>)
   }"

definition yang_createH265Meta :: "yang_frame \<Rightarrow> video_meta option" where
  "yang_createH265Meta fr = do {
     let p = fr_payload fr;
     l \<leftarrow> yang_get_be32 (fr_mem fr) p;
     let vpslen = uint l;
     l \<leftarrow> yang_get_be32 (fr_mem fr) (p + vpslen + 4);
     let spslen = uint l;
     l \<leftarrow> yang_get_be32 (fr_mem fr) (p + vpslen + 4 + spslen + 4);
     let ppslen = uint l;
     src \<leftarrow> mem_read (fr_mem fr) (p + 4) vpslen;
     vps \<leftarrow> mem_write (cf_vps zero_conf) 0 src;
     src \<leftarrow> mem_read (fr_mem fr) (p + 4 + vpslen + 4) spslen;
     sps \<leftarrow> mem_write (cf_sps zero_conf) 0 src;
     src \<leftarrow> mem_read (fr_mem fr) (p + 4 + vpslen + 4 + spslen + 4) ppslen;
     pps \<leftarrow> mem_write (cf_pps zero_conf) 0 src;
     Some (zero_meta\<lparr>vm_mp4Meta := zero_conf\<lparr>cf_vpsLen := signed_take_bit 31 vpslen,
             cf_spsLen := signed_take_bit 31 spslen, cf_ppsLen := signed_take_bit 31 ppslen,
             cf_vps := vps, cf_sps := sps, cf_pps := pps\<rparr>\<rparr>)
   }"

section \<open>Writing configuration records\<close>

text \<open>The record and its length. The FLV form writes one byte of each length, the other form two.\<close>

definition yang_getConfig_Flv_H264 :: "h2645_conf \<Rightarrow> u8 list \<Rightarrow> (u8 list \<times> int) option" where
  "yang_getConfig_Flv_H264 c buf = do {
     s1 \<leftarrow> mem_load (cf_sps c) 1;
     s2 \<leftarrow> mem_load (cf_sps c) 2;
     s3 \<leftarrow> mem_load (cf_sps c) 3;
     buf \<leftarrow> mem_write buf 0 [0x17, 0, 0, 0, 0, 1, s1, s2, s3, 0xff, 0xe1];
     buf \<leftarrow> mem_write buf 11 [0, word_of_int (cf_spsLen c)];
     src \<leftarrow> mem_read (cf_sps c) 0 (cf_spsLen c);
     buf \<leftarrow> mem_write buf 13 src;
     let t = 13 + cf_spsLen c;
     buf \<leftarrow> mem_store buf t 1;
     buf \<leftarrow> mem_write buf (t + 1) [0, word_of_int (cf_ppsLen c)];
     src \<leftarrow> mem_read (cf_pps c) 0 (cf_ppsLen c);
     buf \<leftarrow> mem_write buf (t + 3) src;
     Some (buf, t + 3 + cf_ppsLen c)
   }"

definition yang_getConfig_Meta_H264 :: "yang_sample \<Rightarrow> yang_sample \<Rightarrow> u8 list \<Rightarrow> int \<Rightarrow> (u8 list \<times> int) option" where
  "yang_getConfig_Meta_H264 sps pps buf p = do {
     s1 \<leftarrow> mem_load (smp_mem sps) (smp_bytes sps + 1);
     s2 \<leftarrow> mem_load (smp_mem sps) (smp_bytes sps + 2);
     s3 \<leftarrow> mem_load (smp_mem sps) (smp_bytes sps + 3);
     buf \<leftarrow> mem_write buf p [0x17, 0, 0, 0, 0, 1, s1, s2, s3, 0xff, 0xe1];
     (buf, t) \<leftarrow> yang_put_be16 buf (p + 11) (word_of_int (smp_nb sps));
     src \<leftarrow> mem_read (smp_mem sps) (smp_bytes sps) (smp_nb sps);
     buf \<leftarrow> mem_write buf t src;
     let t = t + smp_nb sps;
     buf \<leftarrow> mem_store buf t 1;
     (buf, t) \<leftarrow> yang_put_be16 buf (t + 1) (word_of_int (smp_nb pps));
     src \<leftarrow> mem_read (smp_mem pps) (smp_bytes pps) (smp_nb pps);
     buf \<leftarrow> mem_write buf t src;
     Some (buf, t + smp_nb pps - p)
   }"

text \<open>One array of the H.265 record at \<open>i\<close>: type, count 1, length and bytes.\<close>

definition put_array :: "u8 list \<Rightarrow> int \<Rightarrow> u8 \<Rightarrow> u8 list \<Rightarrow> int \<Rightarrow> int \<Rightarrow> (u8 list \<times> int) option" where
  "put_array buf i t m p len = do {
     buf \<leftarrow> mem_write buf i [t, 0, 1, word_of_int (len div 2 ^ 8), word_of_int len];
     src \<leftarrow> mem_read m p len;
     buf \<leftarrow> mem_write buf (i + 5) src;
     Some (buf, i + 5 + len)
   }"

text \<open>The fixed part of the record, from twelve bytes of the sequence parameter set.\<close>

definition put_h265_head :: "u8 list \<Rightarrow> int \<Rightarrow> u8 list \<Rightarrow> int \<Rightarrow> (u8 list \<times> int) option" where
  "put_h265_head buf i m p = do {
     prof \<leftarrow> mem_read m (p + 1) 12;
     buf \<leftarrow> mem_write buf i ([0x1C, 0, 0, 0, 0, 0] @ prof @ [0, 0, 0, 0, 0, 0, 0, 0, 0, 3]);
     Some (buf, i + 28)
   }"

definition yang_getConfig_Flv_H265 :: "h2645_conf \<Rightarrow> u8 list \<Rightarrow> (u8 list \<times> int) option" where
  "yang_getConfig_Flv_H265 c buf = do {
     (buf, i) \<leftarrow> put_h265_head buf 0 (cf_sps c) 0;
     (buf, i) \<leftarrow> put_array buf i 0x20 (cf_vps c) 0 (cf_vpsLen c);
     (buf, i) \<leftarrow> put_array buf i 0x21 (cf_sps c) 0 (cf_spsLen c);
     put_array buf i 0x22 (cf_pps c) 0 (cf_ppsLen c)
   }"

definition yang_getConfig_Meta_H265 ::
    "yang_sample \<Rightarrow> yang_sample \<Rightarrow> yang_sample \<Rightarrow> u8 list \<Rightarrow> int \<Rightarrow> (u8 list \<times> int) option" where
  "yang_getConfig_Meta_H265 vps sps pps buf p = do {
     (buf, i) \<leftarrow> put_h265_head buf p (smp_mem sps) (smp_bytes sps);
     (buf, i) \<leftarrow> put_array buf i 0x20 (smp_mem vps) (smp_bytes vps) (smp_nb vps);
     (buf, i) \<leftarrow> put_array buf i 0x21 (smp_mem sps) (smp_bytes sps) (smp_nb sps);
     (buf, i) \<leftarrow> put_array buf i 0x22 (smp_mem pps) (smp_bytes pps) (smp_nb pps);
     Some (buf, i - p)
   }"

section \<open>Reading configuration records\<close>

text \<open>
  \<open>buf\<close> is a \<open>uint8_t *\<close>, the bytes of a sample are a \<open>char *\<close>: the first length is read as an unsigned byte,
  the second as a signed one.
\<close>

definition yang_decodeMetaH264 :: "u8 list \<Rightarrow> int \<Rightarrow> (yang_sample \<times> yang_sample) option" where
  "yang_decodeMetaH264 buf p = do {
     l \<leftarrow> mem_load buf (p + 12);
     let sps = \<lparr>smp_mem = buf, smp_bytes = p + 13, smp_nb = uint l + 1\<rparr>;
     l \<leftarrow> mem_load buf (smp_bytes sps + smp_nb sps + 1);
     Some (sps, \<lparr>smp_mem = buf, smp_bytes = p + 13 + smp_nb sps + 2, smp_nb = sint l + 1\<rparr>)
   }"

definition yang_decodeMetaH265 :: "u8 list \<Rightarrow> int \<Rightarrow> (yang_sample \<times> yang_sample \<times> yang_sample) option" where
  "yang_decodeMetaH265 meta p = do {
     v \<leftarrow> mem_load meta (p + 32);
     let vpsLen = uint v;
     s \<leftarrow> mem_load meta (p + 32 + vpsLen + 5);
     let spsLen = uint s;
     l \<leftarrow> mem_load meta (p + 32 + vpsLen + 5 + spsLen + 5);
     Some (\<lparr>smp_mem = meta, smp_bytes = p + 33, smp_nb = vpsLen\<rparr>,
           \<lparr>smp_mem = meta, smp_bytes = p + 32 + vpsLen + 5 + 1, smp_nb = spsLen\<rparr>,
           \<lparr>smp_mem = meta, smp_bytes = p + 32 + vpsLen + 5 + spsLen + 5 + 1, smp_nb = uint l\<rparr>)
   }"

text \<open>The parameter sets behind start codes; the array \<open>src\<close> is apart from \<open>meta\<close>.\<close>

definition yang_getH265RtmpHeader :: "u8 list \<Rightarrow> u8 list \<Rightarrow> (u8 list \<times> int) option" where
  "yang_getH265RtmpHeader meta src = do {
     v \<leftarrow> mem_load meta 32;
     let vpsLen = uint v;
     s \<leftarrow> mem_load meta (32 + vpsLen + 5);
     let spsLen = uint s;
     l \<leftarrow> mem_load meta (32 + vpsLen + 5 + spsLen + 5);
     let ppsLen = uint l;
     src \<leftarrow> mem_write src 0 [0, 0, 0, 1];
     bs \<leftarrow> mem_read meta 33 vpsLen;
     src \<leftarrow> mem_write src 4 bs;
     let pos = 4 + vpsLen;
     src \<leftarrow> mem_write src pos [0, 0, 0, 1];
     let pos = pos + 4;
     bs \<leftarrow> mem_read meta (32 + vpsLen + 5 + 1) spsLen;
     src \<leftarrow> mem_write src pos bs;
     let pos = pos + spsLen;
     src \<leftarrow> mem_write src pos [0, 0, 0, 1];
     let pos = pos + 4;
     bs \<leftarrow> mem_read meta (32 + vpsLen + 5 + spsLen + 5 + 1) ppsLen;
     src \<leftarrow> mem_write src pos bs;
     Some (src, pos + ppsLen)
   }"

definition yang_getH264RtmpHeader :: "u8 list \<Rightarrow> u8 list \<Rightarrow> (u8 list \<times> int) option" where
  "yang_getH264RtmpHeader buf src = do {
     s \<leftarrow> mem_load buf 12;
     let spsLen = uint s + 1;
     l \<leftarrow> mem_load buf (13 + spsLen + 1);
     let ppsLen = uint l + 1;
     src \<leftarrow> mem_store src 3 1;
     bs \<leftarrow> mem_read buf 13 spsLen;
     src \<leftarrow> mem_write src 4 bs;
     src \<leftarrow> mem_store src (4 + spsLen + 3) 1;
     bs \<leftarrow> mem_read buf (13 + spsLen + 2) ppsLen;
     src \<leftarrow> mem_write src (4 + spsLen + 4) bs;
     Some (src, 8 + spsLen + ppsLen)
   }"

section \<open>The records as byte strings\<close>

lemma store_write: "mem_store m p v = mem_write m p [v]"
proof (cases "0 \<le> p \<and> p < int (length m)")
  case True
  then obtain n where "p = int n" "n < length m" by (metis nat_0_le nat_less_iff)
  then show ?thesis by (simp add: mem_store_def mem_write_def upd_conv_take_nth_drop)
qed (auto simp: mem_store_def mem_write_def)

lemma write_write:
  "mem_write m p xs \<bind> (\<lambda>m. mem_write m (p + int (length xs)) ys \<bind> f) = mem_write m p (xs @ ys) \<bind> f"
proof (cases "xs = [] \<or> ys = []")
  case False
  then show ?thesis
    by (cases "0 \<le> p \<and> p + int (length xs) \<le> int (length m)")
      (auto simp: mem_write_def nat_add_distrib min_def ac_simps)
qed (auto simp: mem_write_def)

lemma low_byte: "(ucast (v AND 0xFF) :: u8) = ucast (v :: 'a::len word)"
proof -
  have m: "(0xFF :: 'a word) = mask 8" by (simp add: mask_eq_exp_minus_1)
  show ?thesis unfolding m by (rule bit_word_eqI) (auto simp: bit_simps dest: bit_imp_le_length)
qed

lemma be16_bytes: "be16 v = [ucast (drop_bit 8 v), ucast v]"
  by (simp add: be16_def word_byte_def)

lemma put_be16_write: "yang_put_be16 m p v = map_option (\<lambda>m. (m, p + 2)) (mem_write m p (be16 v))"
proof (cases "0 \<le> p \<and> p + 2 \<le> int (length m)")
  case True
  then obtain n where n: "p = int n" "n + 2 \<le> length m" by (metis nat_0_le of_nat_add of_nat_le_iff of_nat_numeral)
  have p1: "int n + 1 = int (Suc n)" by simp
  from n have "m[Suc n := x, n := y] = take n m @ [y, x] @ drop (n + 2) m" for x y
    by (intro nth_equalityI) (auto simp: nth_append nth_list_update nth_Cons' intro!: arg_cong [of _ _ "(!) m"])
  with n show ?thesis
    unfolding yang_put_be16_def n(1) p1 by (simp add: mem_store_def be16_bytes mem_write_def low_byte nat_add_distrib)
next
  case False
  then show ?thesis
    by (auto simp: yang_put_be16_def be16_bytes mem_store_def mem_write_def)
qed


lemma load_written:
  assumes "mem_write m p bs = Some m'" "i < length bs"
  shows "mem_load m' (p + int i) = Some (bs ! i)"
  using assms by (auto simp: mem_write_def mem_load_def nth_append nat_add_distrib min_def split: if_splits)

lemma load_behind:
  assumes "mem_write m p bs = Some m'" "0 \<le> p"
  shows "mem_load m' (p + int (length bs)) = mem_load m (p + int (length bs))"
  using assms by (auto simp: mem_write_def mem_load_def nth_append nat_add_distrib min_def split: if_splits)

lemma read_written:
  assumes "mem_write m p bs = Some m'" "take n (drop i bs) = xs" "i + n \<le> length bs"
  shows "mem_read m' (p + int i) (int n) = Some xs"
  using assms by (auto simp: mem_write_def mem_read_def nat_add_distrib min_def split: if_splits)

lemma read_snoc:
  assumes "mem_read m p (int n) = Some bs" "0 \<le> p"
  shows "mem_read m p (int n + 1) = map_option (\<lambda>x. bs @ [x]) (mem_load m (p + int n))"
  using assms
  by (auto simp: mem_read_def mem_load_def nat_add_distrib take_Suc_conv_app_nth nth_append split: if_splits)

lemma write_fits: "0 \<le> p \<Longrightarrow> p + int (length bs) \<le> int (length m) \<Longrightarrow> \<exists>m'. mem_write m p bs = Some m'"
  by (simp add: mem_write_def)

lemma content_length: "sample_content s = Some bs \<Longrightarrow> smp_nb s = int (length bs)"
  by (auto simp: sample_content_def mem_read_def min_def split: if_splits)

lemma content_load:
  assumes "sample_content s = Some bs" "i < length bs"
  shows "mem_load (smp_mem s) (smp_bytes s + int i) = Some (bs ! i)"
  using assms by (auto simp: sample_content_def mem_read_def mem_load_def nat_add_distrib split: if_splits)

text \<open>The records as byte strings.\<close>

definition h264_record :: "u8 list \<Rightarrow> u8 list \<Rightarrow> u8 list" where
  "h264_record s p = [0x17, 0, 0, 0, 0, 1, s ! 1, s ! 2, s ! 3, 0xff, 0xe1] @
     be16 (word_of_nat (length s)) @ s @ [1] @ be16 (word_of_nat (length p)) @ p"

definition h265_array :: "u8 \<Rightarrow> u8 list \<Rightarrow> u8 list" where
  "h265_array t v = [t, 0, 1, word_of_nat (length v div 256), word_of_nat (length v)] @ v"

definition h265_head :: "u8 list \<Rightarrow> u8 list" where
  "h265_head s = [0x1C, 0, 0, 0, 0, 0] @ take 12 (drop 1 s) @ [0, 0, 0, 0, 0, 0, 0, 0, 0, 3]"

definition h265_record :: "u8 list \<Rightarrow> u8 list \<Rightarrow> u8 list \<Rightarrow> u8 list" where
  "h265_record v s p = h265_head s @ h265_array 0x20 v @ h265_array 0x21 s @ h265_array 0x22 p"

lemma writes_bind:
  "mem_write m p (xs @ ys) = mem_write m p xs \<bind> (\<lambda>m. mem_write m (p + int (length xs)) ys)"
  using write_write [of m p xs ys Some] by (cases "mem_write m p (xs @ ys)") auto

lemma bind_map: "map_option g x \<bind> f = x \<bind> (\<lambda>y. f (g y))"
  by (cases x) auto

lemma map_bind: "map_option g (x \<bind> f) = x \<bind> (\<lambda>y. map_option g (f y))"
  by (cases x) auto

lemma bind_Some_map: "x \<bind> (\<lambda>y. Some (g y)) = map_option g x"
  by (cases x) auto

lemmas write_seq = writes_bind store_write put_be16_write bind_map map_bind bind_Some_map option.map_comp comp_def
  Let_def prod.case add.assoc

lemma content_read: "sample_content s = Some bs \<Longrightarrow> mem_read (smp_mem s) (smp_bytes s) (int (length bs)) = Some bs"
  using content_length [of s bs] by (simp add: sample_content_def)

lemma h264_config_write:
  assumes "sample_content sps = Some s" "sample_content pps = Some p" "4 \<le> length s"
  shows "yang_getConfig_Meta_H264 sps pps buf a =
    map_option (\<lambda>m. (m, int (length (h264_record s p)))) (mem_write buf a (h264_record s p))"
proof -
  have l: "mem_load (smp_mem sps) (smp_bytes sps + 1) = Some (s ! 1)"
    "mem_load (smp_mem sps) (smp_bytes sps + 2) = Some (s ! 2)"
    "mem_load (smp_mem sps) (smp_bytes sps + 3) = Some (s ! 3)"
    using content_load [OF assms(1), of 1] content_load [OF assms(1), of 2] content_load [OF assms(1), of 3] assms(3)
    by simp_all
  define h :: "u8 list" where "h = [0x17, 0, 0, 0, 0, 1, s ! 1, s ! 2, s ! 3, 0xff, 0xe1]"
  define x where "x = be16 (word_of_nat (length s))"
  define y where "y = be16 (word_of_nat (length p))"
  define c where "c = [1 :: u8]"
  have len: "int (length h) = 11" "int (length x) = 2" "int (length y) = 2" "int (length c) = 1"
    by (simp_all add: h_def x_def y_def c_def be16_def)
  have rec: "h264_record s p = h @ x @ s @ c @ y @ p" by (simp add: h264_record_def h_def x_def y_def c_def)
  show ?thesis unfolding rec
    by (simp add: yang_getConfig_Meta_H264_def l content_read [OF assms(1)] content_read [OF assms(2)] 
       content_length [OF assms(1)] content_length [OF assms(2)] write_seq len
        del: One_nat_def flip: h_def x_def y_def c_def)
qed


lemma put_array_write:
  assumes "mem_read m q (int (length v)) = Some v"
  shows "put_array buf i t m q (int (length v)) =
    map_option (\<lambda>b. (b, i + int (length (h265_array t v)))) (mem_write buf i (h265_array t v))"
proof -
  define h where "h = [t, 0, 1, word_of_nat (length v div 256), word_of_nat (length v)]"
  have "word_of_int (int (length v) div 256) = (word_of_nat (length v div 256) :: u8)"
    by (metis of_int_of_nat_eq of_nat_numeral zdiv_int)
  then have "[t, 0, 1, word_of_int (int (length v) div 2 ^ 8), word_of_int (int (length v))] = h"
    by (simp add: h_def)
  moreover have "h265_array t v = h @ v" "int (length h) = 5" by (simp_all add: h_def h265_array_def)
  ultimately show ?thesis using assms
    by (simp add: put_array_def write_seq)
qed

lemma h265_head_write:
  assumes "mem_read m q (int (length s)) = Some s" "13 \<le> length s"
  shows "put_h265_head buf i m q = map_option (\<lambda>b. (b, i + 28)) (mem_write buf i (h265_head s))"
proof -
  from assms have q: "0 \<le> q" "q + int (length s) \<le> int (length m)" and s: "take (length s) (drop (nat q) m) = s"
    by (auto simp: mem_read_def split: if_splits)
  have "take 12 (drop 1 s) = take 12 (drop 1 (take (length s) (drop (nat q) m)))" by (simp only: s)
  also have "\<dots> = take 12 (drop (nat (q + 1)) m)"
    using assms(2) q by (simp add: drop_take min_def nat_add_distrib)
  finally have "mem_read m (q + 1) 12 = Some (take 12 (drop 1 s))"
    using q assms(2) by (simp add: mem_read_def)
  then show ?thesis by (simp add: put_h265_head_def h265_head_def bind_Some_map)
qed

lemma h265_head_length: "13 \<le> length s \<Longrightarrow> length (h265_head s) = 28"
  by (simp add: h265_head_def)

lemma h265_config_write:
  assumes "sample_content vps = Some v" "sample_content sps = Some s" "sample_content pps = Some p" "13 \<le> length s"
  shows "yang_getConfig_Meta_H265 vps sps pps buf a =
    map_option (\<lambda>m. (m, int (length (h265_record v s p)))) (mem_write buf a (h265_record v s p))"
  by (simp add: yang_getConfig_Meta_H265_def content_length [OF assms(1)] content_length [OF assms(2)]
      content_length [OF assms(3)] put_array_write content_read assms h265_head_write [OF content_read [OF assms(2)] assms(4)]
      write_seq h265_record_def h265_head_length algebra_simps)

lemma h265_record_nth:
  assumes "13 \<le> length s"
  shows "length (h265_record v s p) = 43 + length v + length s + length p"
    and "h265_record v s p ! 32 = word_of_nat (length v)"
    and "h265_record v s p ! (37 + length v) = word_of_nat (length s)"
    and "h265_record v s p ! (42 + length v + length s) = word_of_nat (length p)"
    and "take (length v) (drop 33 (h265_record v s p)) = v"
    and "take (length s) (drop (38 + length v) (h265_record v s p)) = s"
    and "take (length p) (drop (43 + length v + length s) (h265_record v s p)) = p"
  using assms by (simp_all add: h265_record_def h265_array_def h265_head_length nth_append nth_Cons' drop_Cons')

lemma uint_small_u8: "n < 256 \<Longrightarrow> uint (word_of_nat n :: u8) = int n"
  by (simp add: unsigned_of_nat take_bit_nat_eq_self)

lemma sint_small_u8: "n < 128 \<Longrightarrow> sint (word_of_nat n :: u8) = int n"
  by (simp add: signed_of_nat signed_take_bit_int_eq_self)

text \<open>
  The H.265 configuration record is as long as its header and three arrays, and decoding it gives back the three
  parameter sets it was built from, as long as each is shorter than 256 bytes (the decoder reads one byte of each
  length).
\<close>
theorem h265_record_roundtrip:
  assumes "sample_content vps = Some v" "sample_content sps = Some s" "sample_content pps = Some p"
    and "13 \<le> length s" "length v < 256" "length s < 256" "length p < 256"
    and "0 \<le> a" "a + 43 + int (length v + length s + length p) \<le> int (length buf)"
  shows "\<exists>buf' vps' sps' pps'. yang_getConfig_Meta_H265 vps sps pps buf a =
       Some (buf', 43 + int (length v + length s + length p)) \<and>
     yang_decodeMetaH265 buf' a = Some (vps', sps', pps') \<and>
     sample_content vps' = Some v \<and> sample_content sps' = Some s \<and> sample_content pps' = Some p"
proof -
  let ?r = "h265_record v s p"
  note n = h265_record_nth [OF assms(4), where v = v and p = p]
  obtain m where m: "mem_write buf a ?r = Some m"
    using write_fits [of a ?r buf] assms by (auto simp: n)
  have l: "mem_load m (a + int 32) = Some (word_of_nat (length v))"
    "mem_load m (a + int (37 + length v)) = Some (word_of_nat (length s))"
    "mem_load m (a + int (42 + length v + length s)) = Some (word_of_nat (length p))"
    using load_written [OF m, of 32] load_written [OF m, of "37 + length v"]
      load_written [OF m, of "42 + length v + length s"] by (simp_all add: n del: of_nat_add)
  have r: "mem_read m (a + int 33) (int (length v)) = Some v"
    "mem_read m (a + int (38 + length v)) (int (length s)) = Some s"
    "mem_read m (a + int (43 + length v + length s)) (int (length p)) = Some p"
    using n(1) by (simp_all only: read_written [OF m n(5)] read_written [OF m n(6)] read_written [OF m n(7)])
  have c: "yang_getConfig_Meta_H265 vps sps pps buf a = Some (m, 43 + int (length v + length s + length p))"
    using h265_config_write [OF assms(1-4), of buf a] by (simp add: m n(1))
  have l': "mem_load m (a + 32) = Some (word_of_nat (length v))"
    "mem_load m (a + 32 + int (length v) + 5) = Some (word_of_nat (length s))"
    "mem_load m (a + 32 + int (length v) + 5 + int (length s) + 5) = Some (word_of_nat (length p))"
    using l by (simp_all add: add.commute add.left_commute)
  have d: "yang_decodeMetaH265 m a = Some (\<lparr>smp_mem = m, smp_bytes = a + int 33, smp_nb = int (length v)\<rparr>,
      \<lparr>smp_mem = m, smp_bytes = a + int (38 + length v), smp_nb = int (length s)\<rparr>,
      \<lparr>smp_mem = m, smp_bytes = a + int (43 + length v + length s), smp_nb = int (length p)\<rparr>)"
    unfolding yang_decodeMetaH265_def Let_def l' Option.bind.bind_lunit uint_small_u8 [OF assms(5)] uint_small_u8 [OF assms(6)]
      uint_small_u8 [OF assms(7)] by (simp add: ac_simps)
  show ?thesis
    by (intro exI conjI, rule c, rule d) (simp_all only: sample_content_def yang_sample.select_convs r)
qed

lemma h264_record_nth:
  assumes "length s < 256" "length p < 256"
  shows "length (h264_record s p) = 16 + length s + length p"
    and "h264_record s p ! 12 = word_of_nat (length s)"
    and "h264_record s p ! (15 + length s) = word_of_nat (length p)"
    and "take (length s + 1) (drop 13 (h264_record s p)) = s @ [1]"
    and "take (length p) (drop (16 + length s) (h264_record s p)) = p"
  using assms by (simp_all add: h264_record_def be16_def word_byte_def nth_append nth_Cons' drop_Cons' unsigned_of_nat take_bit_nat_eq_self)

text \<open>
  The decoder of the H.264 record takes one byte too many of each parameter set: the sequence parameter set comes
  back with the count byte 1 behind it, and the picture parameter set with the byte behind the record, or as a range
  that leaves the allocation when the record fills it.
\<close>
theorem h264_record_one_too_long:
  assumes "sample_content sps = Some s" "sample_content pps = Some p"
    and "4 \<le> length s" "length s < 256" "length p < 128"
    and "0 \<le> a" "a + 16 + int (length s + length p) \<le> int (length buf)"
  shows "\<exists>buf' sps' pps'. yang_getConfig_Meta_H264 sps pps buf a = Some (buf', 16 + int (length s + length p)) \<and>
     yang_decodeMetaH264 buf' a = Some (sps', pps') \<and>
     sample_content sps' = Some (s @ [1]) \<and>
     sample_content pps' = map_option (\<lambda>x. p @ [x]) (mem_load buf (a + 16 + int (length s + length p)))"
proof -
  let ?r = "h264_record s p"
  have sp: "length s < 256" "length p < 256" using assms by simp_all
  note n = h264_record_nth [OF sp]
  obtain m where m: "mem_write buf a ?r = Some m"
    using write_fits [of a ?r buf] assms by (auto simp: n)
  have l: "mem_load m (a + int 12) = Some (word_of_nat (length s))"
    "mem_load m (a + int (15 + length s)) = Some (word_of_nat (length p))"
    using load_written [OF m, of 12] load_written [OF m, of "15 + length s"] by (simp_all add: n del: of_nat_add)
  have b: "mem_load m (a + (int (length s) + (int (length p) + 16))) = mem_load buf (a + (int (length s) + (int (length p) + 16)))"
    using load_behind [OF m] assms by (simp add: n ac_simps)
  have r: "mem_read m (a + int 13) (int (length s + 1)) = Some (s @ [1])"
    "mem_read m (a + int (16 + length s)) (int (length p)) = Some p"
    using n(1) by (simp_all only: read_written [OF m n(4)] read_written [OF m n(5)])
  have r': "mem_read m (a + int (16 + length s)) (int (length p) + 1) =
      map_option (\<lambda>x. p @ [x]) (mem_load buf (a + 16 + int (length s + length p)))"
    using read_snoc [OF r(2)] b assms(6) by (simp add: ac_simps)
  have c: "yang_getConfig_Meta_H264 sps pps buf a = Some (m, 16 + int (length s + length p))"
    using h264_config_write [OF assms(1-3), of buf a] by (simp add: m n(1))
  have d: "yang_decodeMetaH264 m a = Some (\<lparr>smp_mem = m, smp_bytes = a + int 13, smp_nb = int (length s + 1)\<rparr>,
      \<lparr>smp_mem = m, smp_bytes = a + int (16 + length s), smp_nb = int (length p) + 1\<rparr>)"
    using l assms(4,5) by (simp add: yang_decodeMetaH264_def uint_small_u8 sint_small_u8 ac_simps)
  show ?thesis
    by (intro exI conjI, rule c, rule d) (simp_all only: sample_content_def yang_sample.select_convs r(1) r')
qed


theorem h265_record_roundtrip_witness:
  "\<exists>buf' vps' sps' pps'. yang_getConfig_Meta_H265 \<lparr>smp_mem = [64, 1], smp_bytes = 0, smp_nb = 2\<rparr>
       \<lparr>smp_mem = replicate 13 7, smp_bytes = 0, smp_nb = 13\<rparr> \<lparr>smp_mem = [68, 5], smp_bytes = 1, smp_nb = 1\<rparr>
       (replicate 64 0) 1 = Some (buf', 59) \<and>
     yang_decodeMetaH265 buf' 1 = Some (vps', sps', pps') \<and>
     sample_content vps' = Some [64, 1] \<and> sample_content sps' = Some (replicate 13 7) \<and> sample_content pps' = Some [5]"
  using h265_record_roundtrip [of "\<lparr>smp_mem = [64, 1], smp_bytes = 0, smp_nb = 2\<rparr>" "[64, 1]"
      "\<lparr>smp_mem = replicate 13 7, smp_bytes = 0, smp_nb = 13\<rparr>" "replicate 13 7"
      "\<lparr>smp_mem = [68, 5], smp_bytes = 1, smp_nb = 1\<rparr>" "[5]" 1 "replicate 64 0"]
  by (simp add: sample_content_def mem_read_def)

theorem h264_record_one_too_long_witness:
  "\<exists>buf' sps' pps'. yang_getConfig_Meta_H264 \<lparr>smp_mem = [103, 66, 0, 31], smp_bytes = 0, smp_nb = 4\<rparr>
       \<lparr>smp_mem = [104, 5], smp_bytes = 0, smp_nb = 2\<rparr> (replicate 24 9) 0 = Some (buf', 22) \<and>
     yang_decodeMetaH264 buf' 0 = Some (sps', pps') \<and>
     sample_content sps' = Some ([103, 66, 0, 31] @ [1]) \<and> sample_content pps' = Some [104, 5, 9]"
  using h264_record_one_too_long [of "\<lparr>smp_mem = [103, 66, 0, 31], smp_bytes = 0, smp_nb = 4\<rparr>" "[103, 66, 0, 31]"
      "\<lparr>smp_mem = [104, 5], smp_bytes = 0, smp_nb = 2\<rparr>" "[104, 5]" 0 "replicate 24 9"]
  by (simp add: sample_content_def mem_read_def mem_load_def)

section \<open>The search for start codes\<close>

abbreviation start_code :: "u8 list" where "start_code \<equiv> [0, 0, 0, 1]"

text \<open>No start code before the one that follows \<open>v\<close>.\<close>

definition clean :: "u8 list \<Rightarrow> bool" where
  "clean v = list_all (\<lambda>k. take 4 (drop k (v @ start_code)) \<noteq> start_code) [0..<length v]"

lemma start_code_at_take:
  assumes "k + 4 \<le> length buf"
  shows "start_code_at buf (int k) = Some (take 4 (drop k buf) = start_code)"
proof -
  have "take 4 (drop k buf) = [buf ! k, buf ! (k + 1), buf ! (k + 2), buf ! (k + 3)]"
    using assms by (intro nth_equalityI) (auto simp: nth_Cons' less_Suc_eq eval_nat_numeral)
  with assms show ?thesis by (simp add: start_code_at_def mem_load_def nat_add_distrib)
qed

lemma find_code_first:
  assumes "i \<le> j" "j + 4 \<le> n" "n \<le> length buf" "take 4 (drop j buf) = start_code"
    and "\<And>k. i \<le> k \<Longrightarrow> k < j \<Longrightarrow> take 4 (drop k buf) \<noteq> start_code"
  shows "find_code buf (int n) (int i) = Some (Some (int j))"
  using assms
proof (induction i rule: inc_induct)
  case base
  then show ?case by (subst find_code.simps) (simp add: start_code_at_take)
next
  case (step i)
  have "int i + 1 = int (Suc i)" by simp
  with step have "find_code buf (int n) (int i + 1) = Some (Some (int j))" by (simp only:) simp
  moreover have "start_code_at buf (int i) = Some False" using step by (simp add: start_code_at_take)
  ultimately show ?case using step by (subst find_code.simps) simp
qed

lemma take4_append:
  assumes "i < length v"
  shows "take 4 (drop (length u + i) (u @ v @ start_code @ w)) = take 4 (drop i (v @ start_code))"
proof -
  have "drop i (v @ start_code @ w) = drop i (v @ start_code) @ w" using assms by simp
  moreover have "4 \<le> length (drop i (v @ start_code))" using assms by simp
  moreover have "drop (length u + i) (u @ v @ start_code @ w) = drop i (v @ start_code @ w)" by simp
  ultimately show ?thesis by (simp only: take_append) simp
qed

lemma find_next:
  assumes "clean v" "buf = u @ v @ start_code @ w"
  shows "find_code buf (int (length buf)) (int (length u)) = Some (Some (int (length u + length v)))"
proof (rule find_code_first)
  fix k assume k: "length u \<le> k" "k < length u + length v"
  then obtain i where i: "k = length u + i" "i < length v" by (metis add_less_cancel_left le_Suc_ex)
  then have "take 4 (drop k buf) = take 4 (drop i (v @ start_code))"
    unfolding assms(2) by (simp only: take4_append)
  with assms(1) i show "take 4 (drop k buf) \<noteq> start_code" by (simp add: clean_def list_all_iff)
qed (use assms in simp_all)

text \<open>
  In an H.265 access unit with a start code before each of the video, sequence and picture parameter sets and
  none inside them, the search finds the three sets. The length it gives for the video parameter set counts from
  the start of the buffer: it is right only when the first start code stands there.
\<close>
theorem find_start_code_h265:
  assumes "buf = u @ start_code @ v @ start_code @ s @ start_code @ p" "clean u" "clean v" "clean s"
  shows "yang_find_start_code Yang_VED_265 buf (int (length buf)) out = Some
    \<lparr>sc_vpsPos = int (length u) + 4, sc_vpsLen = int (length u + length v),
     sc_spsPos = int (length u + length v) + 8, sc_spsLen = int (length s),
     sc_ppsPos = int (length u + length v + length s) + 12, sc_ppsLen = int (length p)\<rparr>"
proof -
  have 1: "find_code buf (int (length buf)) 0 = Some (Some (int (length u)))"
    using find_next [of u buf "[]" "v @ start_code @ s @ start_code @ p"] assms by simp
  have 2: "find_code buf (int (length buf)) (int (length u) + 4) = Some (Some (int (length u) + int (length v) + 4))"
    using find_next [of v buf "u @ start_code" "s @ start_code @ p"] assms(1,3) by (simp add: ac_simps)
  have 3: "find_code buf (int (length buf)) (int (length u) + int (length v) + 4 + 4) =
      Some (Some (int (length u) + int (length v) + int (length s) + 8))"
    using find_next [of s buf "u @ start_code @ v @ start_code" p] assms(1,4) by (simp add: ac_simps)
  have len: "int (length buf) = int (length u) + int (length v) + int (length s) + int (length p) + 12"
    by (simp add: assms(1))
  show ?thesis
    by (simp only: yang_find_start_code_def Let_def 1 2 3 after_code_def option.case prod.case if_True refl
        Option.bind.bind_lunit start_codes.simps) (simp add: len)
qed

theorem find_start_code_h265_witness:
  "yang_find_start_code Yang_VED_265 [9, 0, 0, 0, 1, 64, 0, 0, 0, 1, 66, 1, 0, 0, 0, 1, 68] 17
    \<lparr>sc_vpsPos = 0, sc_vpsLen = 0, sc_spsPos = 0, sc_spsLen = 0, sc_ppsPos = 0, sc_ppsLen = 0\<rparr> = Some
    \<lparr>sc_vpsPos = 5, sc_vpsLen = 2, sc_spsPos = 10, sc_spsLen = 2, sc_ppsPos = 16, sc_ppsLen = 1\<rparr>"
  using find_start_code_h265 [of "[9, 0, 0, 0, 1, 64, 0, 0, 0, 1, 66, 1, 0, 0, 0, 1, 68]" "[9]" "[64]" "[66, 1]" "[68]"
    "\<lparr>sc_vpsPos = 0, sc_vpsLen = 0, sc_spsPos = 0, sc_spsLen = 0, sc_ppsPos = 0, sc_ppsLen = 0\<rparr>"]
  by (simp add: clean_def upt_rec)

end
