(* ===== verification/Rtc_Context.thy ===== *)
theory Rtc_Context
  imports Recv_Nack Rtp_Payload Video_Meta "HOL-Library.Signed_Division"
begin

text \<open>
  The state that a session's streams share (\<open>yangrtc/YangRtcContextH.h\<close>, \<open>YangRtcContext.c\<close>), the
  protection of packets (\<open>yangutil/sys/YangSRtp.c\<close>), the statistics (\<open>yangrtc/YangRtcStats.c\<close>,
  \<open>YangBandwidth.c\<close>) and the clock conversions (\<open>yangutil/sys/YangTime.c\<close>).

  What lies outside the repository (the SRTP library, the socket, the clock and the application's
  callbacks) is a parameter: a record of functions on a state \<open>'w\<close> of the outside world.
\<close>

abbreviation (input) ERROR_RTC_SRTP_PROTECT :: errcode where "ERROR_RTC_SRTP_PROTECT \<equiv> 5014"
abbreviation (input) ERROR_RTC_SRTP_UNPROTECT :: errcode where "ERROR_RTC_SRTP_UNPROTECT \<equiv> 5015"
abbreviation (input) ERROR_RTC_RTCP_CHECK :: errcode where "ERROR_RTC_RTCP_CHECK \<equiv> 5016"
abbreviation (input) ERROR_RTC_PLAY :: errcode where "ERROR_RTC_PLAY \<equiv> 5033"

datatype YangRequestType =
  Yang_Req_Sendkeyframe | Yang_Req_HighLostPacketRate | Yang_Req_LowLostPacketRate
  | Yang_Req_Connected | Yang_Req_Disconnected

section \<open>The outside world\<close>

text \<open>
  \<open>srtp_protect\<close> and its three relatives take the packet as the memory from its first byte on and its
  length; they give a status (0 is \<open>srtp_err_status_ok\<close>), that memory and the new length.
\<close>

record 'w rtc_net =
  net_srtp_protect :: "'w \<Rightarrow> u8 list \<Rightarrow> int \<Rightarrow> int \<times> 'w \<times> u8 list \<times> int"
  net_srtp_protect_rtcp :: "'w \<Rightarrow> u8 list \<Rightarrow> int \<Rightarrow> int \<times> 'w \<times> u8 list \<times> int"
  net_srtp_unprotect :: "'w \<Rightarrow> u8 list \<Rightarrow> int \<Rightarrow> int \<times> 'w \<times> u8 list \<times> int"
  net_srtp_unprotect_rtcp :: "'w \<Rightarrow> u8 list \<Rightarrow> int \<Rightarrow> int \<times> 'w \<times> u8 list \<times> int"
  net_send :: "'w \<Rightarrow> u8 list \<Rightarrow> errcode \<times> 'w"
  net_time :: "'w \<Rightarrow> u64 \<times> 'w"
  net_request :: "('w \<Rightarrow> int \<Rightarrow> u32 \<Rightarrow> YangRequestType \<Rightarrow> 'w) option"
  net_receiveVideo :: "('w \<Rightarrow> yang_frame \<Rightarrow> 'w) option"
  net_receiveAudio :: "('w \<Rightarrow> yang_frame \<Rightarrow> 'w) option"

section \<open>Protection of packets (YangSRtp.c)\<close>

text \<open>The contexts are handles of the library, present or not; a lock is held or not.\<close>

record yang_srtp =
  sr_recvCtx :: bool
  sr_sendCtx :: bool
  sr_rtpLock :: bool
  sr_rtcpLock :: bool

text \<open>
  Locking a mutex that the thread already holds is undefined behaviour (on the targets the thread
  waits for ever): \<open>None\<close>. The packet is the part of the array \<open>m\<close> from \<open>p\<close> on.
\<close>

definition protect_at ::
    "('w \<Rightarrow> u8 list \<Rightarrow> int \<Rightarrow> int \<times> 'w \<times> u8 list \<times> int) \<Rightarrow> 'w \<Rightarrow> u8 list \<Rightarrow> int \<Rightarrow> int \<Rightarrow>
     (int \<times> 'w \<times> u8 list \<times> int) option" where
  "protect_at f w m p nb = do {
     packet \<leftarrow> mem_read m p (int (length m) - p);
     let (r, w, packet, nb) = f w packet nb;
     m \<leftarrow> mem_write m p packet;
     Some (r, w, m, nb)
   }"

definition yang_enc_rtp ::
    "'w rtc_net \<Rightarrow> 'w \<Rightarrow> yang_srtp \<Rightarrow> u8 list \<Rightarrow> int \<Rightarrow> int \<Rightarrow> (errcode \<times> 'w \<times> yang_srtp \<times> u8 list \<times> int) option" where
  "yang_enc_rtp net w srtp m p nb =
     (if \<not> sr_sendCtx srtp then Some (ERROR_RTC_SRTP_PROTECT, w, srtp, m, nb)
      else if sr_rtpLock srtp then None
      else do {
        let srtp = srtp\<lparr>sr_rtpLock := True\<rparr>;
        (r, w, m, nb) \<leftarrow> protect_at (net_srtp_protect net) w m p nb;
        if r \<noteq> 0 then Some (ERROR_RTC_SRTP_PROTECT, w, srtp, m, nb)
        else Some (Yang_Ok, w, srtp\<lparr>sr_rtpLock := False\<rparr>, m, nb)
      })"

definition yang_enc_rtcp ::
    "'w rtc_net \<Rightarrow> 'w \<Rightarrow> yang_srtp \<Rightarrow> u8 list \<Rightarrow> int \<Rightarrow> int \<Rightarrow> (errcode \<times> 'w \<times> yang_srtp \<times> u8 list \<times> int) option" where
  "yang_enc_rtcp net w srtp m p nb =
     (if \<not> sr_sendCtx srtp then Some (ERROR_RTC_SRTP_PROTECT, w, srtp, m, nb)
      else if sr_rtcpLock srtp then None
      else do {
        let srtp = srtp\<lparr>sr_rtcpLock := True\<rparr>;
        (r, w, m, nb) \<leftarrow> protect_at (net_srtp_protect_rtcp net) w m p nb;
        if r \<noteq> 0 then Some (ERROR_RTC_SRTP_PROTECT, w, srtp, m, nb)
        else Some (Yang_Ok, w, srtp\<lparr>sr_rtcpLock := False\<rparr>, m, nb)
      })"

text \<open>\<open>srtp_err_status_replay_fail\<close> is 9.\<close>

abbreviation (input) srtp_err_status_replay_fail :: int where "srtp_err_status_replay_fail \<equiv> 9"

definition yang_dec_rtp ::
    "'w rtc_net \<Rightarrow> 'w \<Rightarrow> yang_srtp \<Rightarrow> u8 list \<Rightarrow> int \<Rightarrow> int \<Rightarrow> (errcode \<times> 'w \<times> u8 list \<times> int) option" where
  "yang_dec_rtp net w srtp m p nb =
     (if \<not> sr_recvCtx srtp then Some (ERROR_RTC_SRTP_UNPROTECT, w, m, nb)
      else do {
        (r, w, m, nb) \<leftarrow> protect_at (net_srtp_unprotect net) w m p nb;
        if r \<noteq> 0 then
          if r = srtp_err_status_replay_fail then Some (r, w, m, nb)
          else Some (ERROR_RTC_SRTP_UNPROTECT, w, m, nb)
        else Some (Yang_Ok, w, m, nb)
      })"

definition yang_dec_rtcp ::
    "'w rtc_net \<Rightarrow> 'w \<Rightarrow> yang_srtp \<Rightarrow> u8 list \<Rightarrow> int \<Rightarrow> int \<Rightarrow> (errcode \<times> 'w \<times> u8 list \<times> int) option" where
  "yang_dec_rtcp net w srtp m p nb =
     (if \<not> sr_recvCtx srtp then Some (ERROR_RTC_SRTP_UNPROTECT, w, m, nb)
      else do {
        (r, w, m, nb) \<leftarrow> protect_at (net_srtp_unprotect_rtcp net) w m p nb;
        if r \<noteq> 0 then
          if r = srtp_err_status_replay_fail then Some (Yang_Ok, w, m, nb)
          else Some (ERROR_RTC_SRTP_UNPROTECT, w, m, nb)
        else Some (Yang_Ok, w, m, nb)
      })"

section \<open>The clock (YangTime.c)\<close>

text \<open>
  The fraction is computed in \<open>double\<close> as \<open>(ms % 1000 / 1000.0) * 2^32\<close> and cut to an integer. The quotient is off by
  at most \<open>2^-53\<close>, so the product by at most \<open>2^-21\<close>; the exact product is an integer only where the quotient is
  exact (multiples of 125) and is otherwise at least 1/125 away from one: the cut gives the exact floor.
  The field \<open>system_ms\<close> of the C structure, which nothing reads, is left out.
\<close>

record yang_ntp =
  ntp_ntp :: u64
  ntp_second :: u32
  ntp_fractions :: u32

definition ntp_fraction :: "u64 \<Rightarrow> u32" where
  "ntp_fraction ms = word_of_int ((uint ms mod 1000 * 2 ^ 32) div 1000)"

definition yang_ntp_from_time_ms :: "u64 \<Rightarrow> yang_ntp" where
  "yang_ntp_from_time_ms ms =
     (let sec = word_of_int (uint ms div 1000) :: u32; fr = ntp_fraction ms
      in \<lparr>ntp_ntp = push_bit 32 (ucast sec) OR ucast fr, ntp_second = sec, ntp_fractions = fr\<rparr>)"

definition yang_get_ntptime_fromms :: "u64 \<Rightarrow> u64" where
  "yang_get_ntptime_fromms ms = push_bit 32 (word_of_int (uint ms div 1000)) OR ucast (ntp_fraction ms)"

definition yang_ntp_to_time_ms :: "u64 \<Rightarrow> yang_ntp" where
  "yang_ntp_to_time_ms pntp =
     \<lparr>ntp_ntp = pntp, ntp_second = ucast (drop_bit 32 (pntp AND 0xFFFFFFFF00000000)),
      ntp_fractions = ucast (pntp AND 0x00000000FFFFFFFF)\<rparr>"

section \<open>Statistics (YangRtcStats.c)\<close>

text \<open>The loss fraction is a \<open>double\<close> that only ever holds an integer: the quotient of two integers.\<close>

record remote_recv_stats =
  rs_startSn :: u16
  rs_maxSn :: u16
  rs_cycleCount :: u16
  rs_lastSn :: u16
  rs_lastExpected :: u32
  rs_lastLost :: u32
  rs_rtpPacketCount :: u64
  rs_lastRtpPcackCount :: u64
  rs_rtt :: u64
  rs_totalRtt :: u64
  rs_fractionLost :: int
  rs_reportsReceived :: u64
  rs_lostVideoPacketCount :: u64
  rs_preLostVideoPacketCount :: u64

record recv_stats =
  vs_audio :: remote_recv_stats
  vs_video :: remote_recv_stats

record send_stats =
  st_frameCount :: u32
  st_pliCount :: u32
  st_nackCount :: u32
  st_reSenndNackPacketCount :: u32
  st_videoRtpPacketCount :: u64
  st_videoRtpBytes :: u64
  st_audioRtpPacketCount :: u64
  st_audioRtpBytes :: u64
  st_preVideoRtpPacketCount :: u64
  st_preAudioRtpPacketCount :: u64
  st_lastVideoSendTime :: u64
  st_lastAudioSendTime :: u64
  st_audioStartTime :: u64
  st_videoStartTime :: u64

record rtc_stats =
  sendStats :: send_stats
  recvStats :: recv_stats

text \<open>The clock is read once, or twice when the start time is still missing.\<close>

definition yang_stats_on_pub_video_rtp ::
    "'w rtc_net \<Rightarrow> 'w \<Rightarrow> send_stats \<Rightarrow> yang_buffer \<Rightarrow> 'w \<times> send_stats" where
  "yang_stats_on_pub_video_rtp net w st b =
     (let st = st\<lparr>st_videoRtpPacketCount := st_videoRtpPacketCount st + 1,
                  st_videoRtpBytes := st_videoRtpBytes st + word_of_int (yang_buffer_pos b)\<rparr>;
          (t, w) = net_time net w;
          st = st\<lparr>st_lastVideoSendTime := t\<rparr>
      in if st_videoStartTime st = 0
         then let (t, w) = net_time net w in (w, st\<lparr>st_videoStartTime := t\<rparr>)
         else (w, st))"

definition yang_stats_on_pub_audio_rtp ::
    "'w rtc_net \<Rightarrow> 'w \<Rightarrow> send_stats \<Rightarrow> yang_buffer \<Rightarrow> 'w \<times> send_stats" where
  "yang_stats_on_pub_audio_rtp net w st b =
     (let st = st\<lparr>st_audioRtpPacketCount := st_audioRtpPacketCount st + 1,
                  st_audioRtpBytes := st_audioRtpBytes st + word_of_int (yang_buffer_pos b)\<rparr>;
          (t, w) = net_time net w;
          st = st\<lparr>st_lastAudioSendTime := t\<rparr>
      in if st_audioStartTime st = 0
         then let (t, w) = net_time net w in (w, st\<lparr>st_audioStartTime := t\<rparr>)
         else (w, st))"

text \<open>
  \<open>uint16_t\<close> operands are promoted to \<open>int\<close>: a cycle count of 32768 or more is shifted into the sign bit, and a
  sum of 2^31 overflows (both undefined).
\<close>

definition expected_packets :: "remote_recv_stats \<Rightarrow> int option" where
  "expected_packets st =
     (let n = uint (rs_cycleCount st) * 0x10000 + uint (rs_maxSn st) - uint (rs_startSn st) + 1
      in if uint (rs_cycleCount st) < 0x8000 \<and> n < 0x80000000 then Some n else None)"

text \<open>The difference is taken in \<open>uint64_t\<close> and stored in an \<open>int64_t\<close>.\<close>

definition yang_stats_getLostCount :: "remote_recv_stats \<Rightarrow> u64 option" where
  "yang_stats_getLostCount st = do {
     expected \<leftarrow> expected_packets st;
     let ret = word_of_int expected - rs_rtpPacketCount st;
     Some (if sint ret > 0 then ret else 0)
   }"

definition yang_stats_geLostInterval :: "remote_recv_stats \<Rightarrow> (u32 \<times> remote_recv_stats) option" where
  "yang_stats_geLostInterval st = do {
     n \<leftarrow> yang_stats_getLostCount st;
     let lost = (ucast n :: u32);
     if lost < rs_lastLost st then Some (0, st)
     else Some (lost - rs_lastLost st, st\<lparr>rs_lastLost := lost\<rparr>)
   }"

definition yang_stats_getExpectedPacketsInterval :: "remote_recv_stats \<Rightarrow> (int \<times> remote_recv_stats) option" where
  "yang_stats_getExpectedPacketsInterval st = do {
     expected \<leftarrow> expected_packets st;
     Some (signed_take_bit 31 (expected - uint (rs_lastExpected st)), st\<lparr>rs_lastExpected := word_of_int expected\<rparr>)
   }"

text \<open>The shift binds less than the division: the shift count is \<open>8 / expected_interval\<close>, truncated; a negative one is undefined.\<close>

definition yang_stats_getFractionLost :: "remote_recv_stats \<Rightarrow> (u8 \<times> remote_recv_stats) option" where
  "yang_stats_getFractionLost st = do {
     (expected_interval, st) \<leftarrow> yang_stats_getExpectedPacketsInterval st;
     if expected_interval \<noteq> 0 then do {
       (lostInterval, st) \<leftarrow> yang_stats_geLostInterval st;
       let n = 8 sdiv expected_interval;
       if n < 0 then None
       else Some (ucast (push_bit (nat n) lostInterval), st)
     }
     else Some (0, st)
   }"

definition yang_stats_on_play_rtp :: "remote_recv_stats \<Rightarrow> u16 \<Rightarrow> remote_recv_stats" where
  "yang_stats_on_play_rtp st seq =
     (let st = (if rs_lastSn st > 0xFF00 \<and> seq < 0xFF
                  \<and> (rs_cycleCount st = 0 \<or> rs_rtpPacketCount st - rs_lastRtpPcackCount st > 0x1FFF)
                then st\<lparr>rs_cycleCount := rs_cycleCount st + 1, rs_lastRtpPcackCount := rs_rtpPacketCount st,
                        rs_maxSn := seq\<rparr>
                else if seq > rs_maxSn st then st\<lparr>rs_maxSn := seq\<rparr>
                else st);
          st = (if rs_rtpPacketCount st = 0 then st\<lparr>rs_startSn := seq\<rparr>
                else if rs_cycleCount st = 0 \<and> seq < rs_startSn st then st\<lparr>rs_startSn := seq\<rparr>
                else st)
      in st\<lparr>rs_lastSn := seq, rs_rtpPacketCount := rs_rtpPacketCount st + 1\<rparr>)"

definition yang_stats_on_play_video_rtp :: "recv_stats \<Rightarrow> rtp_packet \<Rightarrow> recv_stats" where
  "yang_stats_on_play_video_rtp st pkt = st\<lparr>vs_video := yang_stats_on_play_rtp (vs_video st) (sequence (pk_header pkt))\<rparr>"

definition yang_stats_on_play_audio_rtp :: "recv_stats \<Rightarrow> rtp_packet \<Rightarrow> recv_stats" where
  "yang_stats_on_play_audio_rtp st pkt =
     st\<lparr>vs_audio := (vs_audio st)\<lparr>rs_rtpPacketCount := rs_rtpPacketCount (vs_audio st) + 1\<rparr>\<rparr>"

text \<open>\<open>fraction_lost / 255\<close> divides integers. The pointer \<open>rtcp->rb\<close> is NULL (a fault) or a report block.\<close>

definition yang_stats_on_recvRR ::
    "'w rtc_net \<Rightarrow> 'w \<Rightarrow> bool \<Rightarrow> recv_stats \<Rightarrow> send_stats \<Rightarrow> rtcp_common \<Rightarrow> (errcode \<times> 'w \<times> recv_stats) option" where
  "yang_stats_on_recvRR net w isAudio rst sst rtcp = do {
     rb \<leftarrow> rc_rb rtcp;
     let stats = (if isAudio then vs_audio rst else vs_video rst);
     let (t, w) = net_time net w;
     let currTime = (word_of_int (uint (t - (if isAudio then st_audioStartTime sst else st_videoStartTime sst)) div 1000) :: u32);
     let currNtp = (ucast (drop_bit 16 (yang_get_ntptime_fromms (ucast currTime)) AND 0xffffffff) :: u32);
     let fractionLost = uint (rb_fraction_lost rb) div 255;
     let rtt = (word_of_int (uint ((currNtp - rb_lsr rb - rb_dlsr rb) * 1000) div 65536) :: u32);
     let stats = stats\<lparr>rs_fractionLost := fractionLost, rs_totalRtt := rs_totalRtt stats + ucast rtt,
                        rs_rtt := (if rtt > 0 then ucast rtt else 1),
                        rs_reportsReceived := rs_reportsReceived stats + 1\<rparr>;
     Some (Yang_Ok, w, if isAudio then rst\<lparr>vs_audio := stats\<rparr> else rst\<lparr>vs_video := stats\<rparr>)
   }"

section \<open>Bandwidth (YangBandwidth.c)\<close>

text \<open>The loss rate is a \<open>double\<close> that only ever holds the quotient of two \<open>int32_t\<close>.\<close>

record bandwidth_session =
  bw_lastCheckSn :: int
  bw_preCheckSn :: int
  bw_lossPacketCount :: int
  bw_request :: YangRequestType
  bw_lastPacketCount :: u64
  bw_lostRate :: int

definition yang_bandwidth_checkByRR :: "bandwidth_session \<Rightarrow> rtc_stats \<Rightarrow> errcode \<times> bandwidth_session \<times> rtc_stats" where
  "yang_bandwidth_checkByRR bw stats =
     (let video = vs_video (recvStats stats); send = sendStats stats;
          lostCount = sint (ucast (rs_lostVideoPacketCount video - rs_preLostVideoPacketCount video) :: u32);
          sendCount = sint (ucast (st_videoRtpPacketCount send - st_preVideoRtpPacketCount send) :: u32);
          bw = (if sendCount > 0 then bw\<lparr>bw_lostRate := lostCount sdiv sendCount\<rparr> else bw);
          video = video\<lparr>rs_preLostVideoPacketCount := rs_lostVideoPacketCount video\<rparr>;
          send = send\<lparr>st_preVideoRtpPacketCount := st_videoRtpPacketCount send\<rparr>
      in (Yang_Ok, bw, stats\<lparr>recvStats := (recvStats stats)\<lparr>vs_video := video\<rparr>, sendStats := send\<rparr>))"

section \<open>The context (YangRtcContext.c)\<close>

record rtc_track =
  tr_ssrc :: u32
  tr_rtxSsrc :: u32
  tr_fecSsrc :: u32
  tr_twccId :: u32

definition yang_has_ssrc :: "rtc_track \<Rightarrow> u32 \<Rightarrow> int" where
  "yang_has_ssrc track s = (if s = tr_ssrc track \<or> s = tr_rtxSsrc track \<or> s = tr_fecSsrc track then 1 else 0)"

datatype YangStreamOptType = Yang_Stream_Play | Yang_Stream_Publish | Yang_Stream_Both

text \<open>\<open>cx_uid\<close> and \<open>cx_streamOptType\<close> are fields of the stream configuration, \<open>cx_audioSample\<close> of the audio settings.\<close>

record 'w rtc_context =
  cx_codec :: YangVideoCodec
  cx_audioSsrc :: u32
  cx_videoSsrc :: u32
  cx_state :: int
  cx_twccId :: int
  cx_uid :: int
  cx_streamOptType :: YangStreamOptType
  cx_audioSample :: int
  cx_enableAudioBuffer :: int
  cx_srtp :: yang_srtp
  cx_audioTrack :: rtc_track
  cx_videoTracks :: "rtc_track yang_vector"
  cx_bandwidth :: bandwidth_session
  cx_stats :: rtc_stats
  cx_world :: 'w

end
