(* ===== verification/Rtc_Rtcp.thy ===== *)
theory Rtc_Rtcp
  imports Rtc_Context
begin

text \<open>
  The senders of \<open>yangrtc/YangRtcRtcp.c\<close>: RTCP packets built in a local array, protected and
  sent. The local array is uninitialised in C; the model fills it with zeros, and only the bytes written are sent.
\<close>

abbreviation (input) kRtcpPacketSize :: int where "kRtcpPacketSize \<equiv> 1500"

definition rtcp_stream :: yang_buffer where
  "rtcp_stream = yang_init_buffer (replicate 1500 0) 0 kRtcpPacketSize"

text \<open>\<open>sendData\<close> on the first \<open>nb\<close> bytes from \<open>p\<close>.\<close>

definition udp_send :: "'w rtc_net \<Rightarrow> 'w \<Rightarrow> u8 list \<Rightarrow> int \<Rightarrow> int \<Rightarrow> (errcode \<times> 'w) option" where
  "udp_send net w m p nb = do {
     bytes \<leftarrow> mem_read m p nb;
     Some (net_send net w bytes)
   }"

definition yang_send_rtcppacket ::
    "'w rtc_net \<Rightarrow> 'w rtc_context \<Rightarrow> u8 list \<Rightarrow> int \<Rightarrow> int \<Rightarrow> (errcode \<times> 'w rtc_context) option" where
  "yang_send_rtcppacket net context m p nb = do {
     (err, w, srtp, m, nn_encrypt) \<leftarrow> yang_enc_rtcp net (cx_world context) (cx_srtp context) m p nb;
     let context = context\<lparr>cx_world := w, cx_srtp := srtp\<rparr>;
     if err \<noteq> Yang_Ok then Some (err, context)
     else do {
       (err, w) \<leftarrow> udp_send net (cx_world context) m p nn_encrypt;
       Some (err, context\<lparr>cx_world := w\<rparr>)
     }
   }"

definition yang_do_request_keyframe :: "'w rtc_net \<Rightarrow> 'w rtc_context \<Rightarrow> u32 \<Rightarrow> 'w rtc_context" where
  "yang_do_request_keyframe net context s =
     (case net_request net of
        None \<Rightarrow> context
      | Some f \<Rightarrow> context\<lparr>cx_world := f (cx_world context) (cx_uid context) s Yang_Req_Sendkeyframe\<rparr>)"

definition yang_send_rtcp_fb_pli ::
    "'w rtc_net \<Rightarrow> 'w rtc_context \<Rightarrow> u32 \<Rightarrow> (errcode \<times> 'w rtc_context) option" where
  "yang_send_rtcp_fb_pli net context s = do {
     b \<leftarrow> yang_write_1bytes rtcp_stream 0x81;
     b \<leftarrow> yang_write_1bytes b 206;
     b \<leftarrow> yang_write_2bytes b 2;
     b \<leftarrow> yang_write_4bytes b s;
     b \<leftarrow> yang_write_4bytes b s;
     yang_send_rtcppacket net context (buf_mem b) (buf_data b) (yang_buffer_pos b)
   }"

text \<open>\<open>stamp\<close> is a \<open>uint64_t\<close>; the product with the sample rate wraps.\<close>

definition yang_send_rtcp_sr ::
    "'w rtc_net \<Rightarrow> 'w rtc_context \<Rightarrow> bool \<Rightarrow> u32 \<Rightarrow> (errcode \<times> 'w rtc_context) option" where
  "yang_send_rtcp_sr net context isAudio s =
     (let stats = sendStats (cx_stats context)
      in if isAudio \<and> st_audioStartTime stats = 0 then Some (Yang_Ok, context)
         else if \<not> isAudio \<and> st_videoStartTime stats = 0 then Some (Yang_Ok, context)
         else do {
           let (now, w) = net_time net (cx_world context);
           let context = context\<lparr>cx_world := w\<rparr>;
           let stamp = now - (if isAudio then st_audioStartTime stats else st_videoStartTime stats);
           let ntp = yang_get_ntptime_fromms (word_of_int (uint stamp div 1000));
           let rate = (if isAudio then word_of_int (cx_audioSample context) else 90000 :: u64);
           let ts = (word_of_int (uint (stamp * rate) div 1000000) :: u32);
           b \<leftarrow> yang_write_1bytes rtcp_stream 0x80;
           b \<leftarrow> yang_write_1bytes b 200;
           b \<leftarrow> yang_write_2bytes b 6;
           b \<leftarrow> yang_write_4bytes b s;
           b \<leftarrow> yang_write_8bytes b ntp;
           b \<leftarrow> yang_write_4bytes b ts;
           b \<leftarrow> yang_write_4bytes b (ucast (if isAudio then st_audioRtpPacketCount stats else st_videoRtpPacketCount stats));
           b \<leftarrow> yang_write_4bytes b (ucast (if isAudio then st_audioRtpBytes stats else st_videoRtpBytes stats));
           yang_send_rtcppacket net context (buf_mem b) (buf_data b) (yang_buffer_pos b)
         })"

text \<open>The fraction and the count of lost packets, with the statistics they update.\<close>

definition loss_report :: "rtc_stats \<Rightarrow> bool \<Rightarrow> (u8 \<times> u32 \<times> rtc_stats) option" where
  "loss_report stats isAudio =
     (if isAudio then Some (0, 0, stats)
      else do {
        (fraction_lost, video) \<leftarrow> yang_stats_getFractionLost (vs_video (recvStats stats));
        let stats = stats\<lparr>recvStats := (recvStats stats)\<lparr>vs_video := video\<rparr>\<rparr>;
        n \<leftarrow> yang_stats_getLostCount video;
        Some (fraction_lost, ucast (n AND 0x7FFFFF), stats)
      })"

definition yang_send_rtcp_rr ::
    "'w rtc_net \<Rightarrow> 'w rtc_context \<Rightarrow> bool \<Rightarrow> u32 \<Rightarrow> recv_nack_buffer \<Rightarrow> u64 \<Rightarrow> yang_ntp \<Rightarrow>
     (errcode \<times> 'w rtc_context) option" where
  "yang_send_rtcp_rr net context isAudio s rtp_queue last_send_systime last_send_ntp = do {
     let extended_highest_sequence = yang_nackbuffer_get_extended_highest_sequence rtp_queue;
     b \<leftarrow> yang_write_1bytes rtcp_stream 0x81;
     b \<leftarrow> yang_write_1bytes b 201;
     b \<leftarrow> yang_write_2bytes b 7;
     b \<leftarrow> yang_write_4bytes b s;
     (fraction_lost, lost, stats) \<leftarrow> loss_report (cx_stats context) isAudio;
     let context = context\<lparr>cx_stats := stats\<rparr>;
     let (rr_lsr, rr_dlsr, w) =
       (if last_send_systime > 0 then
          let rr_lsr = push_bit 16 (ntp_second last_send_ntp) OR drop_bit 16 (ntp_fractions last_send_ntp);
              (now, w) = net_time net (cx_world context);
              dlsr = (word_of_int (uint (now - last_send_systime) div 1000) :: u32);
              sec = (word_of_int (uint dlsr div 1000) :: u32);
              ms = (word_of_int (uint dlsr mod 1000) :: u32)
          in (rr_lsr, push_bit 16 sec OR word_of_int (uint (ms * 65536) div 1000), w)
        else (0, 0, cx_world context));
     let context = context\<lparr>cx_world := w\<rparr>;
     b \<leftarrow> yang_write_4bytes b s;
     b \<leftarrow> yang_write_1bytes b fraction_lost;
     b \<leftarrow> yang_write_3bytes b lost;
     b \<leftarrow> yang_write_4bytes b extended_highest_sequence;
     b \<leftarrow> yang_write_4bytes b 0;
     b \<leftarrow> yang_write_4bytes b rr_lsr;
     b \<leftarrow> yang_write_4bytes b rr_dlsr;
     yang_send_rtcppacket net context (buf_mem b) (buf_data b) (yang_buffer_pos b)
   }"

definition yang_send_rtcp_xr_rrtr ::
    "'w rtc_net \<Rightarrow> 'w rtc_context \<Rightarrow> u32 \<Rightarrow> (errcode \<times> 'w rtc_context) option" where
  "yang_send_rtcp_xr_rrtr net context s = do {
     let (now, w) = net_time net (cx_world context);
     let context = context\<lparr>cx_world := w\<rparr>;
     let cur_ntp = yang_ntp_from_time_ms (word_of_int (sint now sdiv 1000));
     b \<leftarrow> yang_write_1bytes rtcp_stream 0x80;
     b \<leftarrow> yang_write_1bytes b 207;
     b \<leftarrow> yang_write_2bytes b 4;
     b \<leftarrow> yang_write_4bytes b s;
     b \<leftarrow> yang_write_1bytes b 4;
     b \<leftarrow> yang_write_1bytes b 0;
     b \<leftarrow> yang_write_2bytes b 2;
     b \<leftarrow> yang_write_4bytes b (ntp_second cur_ntp);
     b \<leftarrow> yang_write_4bytes b (ntp_fractions cur_ntp);
     yang_send_rtcppacket net context (buf_mem b) (buf_data b) (yang_buffer_pos b)
   }"

text \<open>
  The NACK structure of the receiver; its pointer is NULL (a fault) unless \<open>yang_recvnack_initvec\<close> has set it.
  The return code of \<open>sendData\<close> is ignored.
\<close>

definition yang_check_send_nacks ::
    "'w rtc_net \<Rightarrow> 'w rtc_context \<Rightarrow> recv_nack \<Rightarrow> u32 \<Rightarrow> u32 \<Rightarrow>
     (errcode \<times> 'w rtc_context \<times> recv_nack \<times> u32) option" where
  "yang_check_send_nacks net context nack s timeout_nacks = do {
     let nack = yang_recvnack_initvec nack s;
     n \<leftarrow> rc_nack (rn_rtcp nack);
     n \<leftarrow> yang_rtcpNack_clear n;
     let (now, w) = net_time net (cx_world context);
     let context = context\<lparr>cx_world := w\<rparr>;
     (nack, n, timeout_nacks) \<leftarrow> yang_recvnack_get_nack_seqs (sint now) nack n timeout_nacks;
     let nack = nack\<lparr>rn_rtcp := (rn_rtcp nack)\<lparr>rc_nack := Some n\<rparr>\<rparr>;
     if nk_vsize n = 0 then Some (Yang_Ok, context, nack, timeout_nacks)
     else do {
       let comm = yang_rtcpNack_init (rn_rtcp nack) s;
       (_, comm, b) \<leftarrow> yang_encode_rtcpNack comm rtcp_stream;
       n \<leftarrow> rc_nack comm;
       (err, w, srtp, m, nb) \<leftarrow>
         yang_enc_rtcp net (cx_world context) (cx_srtp context) (buf_mem b) (buf_data b) (yang_buffer_pos b);
       let context = context\<lparr>cx_world := w, cx_srtp := srtp\<rparr>;
       n \<leftarrow> yang_rtcpNack_clear n;
       let nack = nack\<lparr>rn_rtcp := comm\<lparr>rc_nack := Some n\<rparr>\<rparr>;
       if err \<noteq> Yang_Ok then Some (err, context, nack, timeout_nacks)
       else do {
         (_, w) \<leftarrow> udp_send net (cx_world context) m (buf_data b) nb;
         Some (Yang_Ok, context\<lparr>cx_world := w\<rparr>, nack, timeout_nacks)
       }
     }
   }"

end
