(* ===== verification/Push_Stream.thy ===== *)
theory Push_Stream
  imports Rtc_Rtcp
begin

text \<open>
  The sending side of a session: \<open>yangrtc/YangPush.c\<close> and \<open>YangPushStream.c\<close>. Sent packets stay in two packet
  rings (\<open>YangRtpBuffer\<close>); the two stores of sent packets point into them.
\<close>

section \<open>State\<close>

record push_stream =
  ps_audioSsrc :: u32
  ps_videoSsrc :: u32
  ps_mw_msgs :: int
  ps_realtime :: int
  ps_audio_queue :: publish_nack_buffer
  ps_video_queue :: publish_nack_buffer

text \<open>The memory of the session's two rings of packets to send (\<open>pushAudioRtpBuffer\<close>, \<open>pushVideoRtpBuffer\<close>).\<close>

record packet_rings =
  pr_audio :: "u8 list"
  pr_video :: "u8 list"

abbreviation (input) Yang_AUDIO_Publish_NackBuffer_Count :: int where "Yang_AUDIO_Publish_NackBuffer_Count \<equiv> 128"
abbreviation (input) Yang_Video_Publish_NackBuffer_Count :: int where "Yang_Video_Publish_NackBuffer_Count \<equiv> 1024"

definition yang_create_rtcpush :: "u32 \<Rightarrow> u32 \<Rightarrow> push_stream" where
  "yang_create_rtcpush aSsrc vSsrc =
     \<lparr>ps_audioSsrc = aSsrc, ps_videoSsrc = vSsrc, ps_mw_msgs = 0, ps_realtime = 1,
      ps_audio_queue = yang_create_pubNackbuffer Yang_AUDIO_Publish_NackBuffer_Count,
      ps_video_queue = yang_create_pubNackbuffer Yang_Video_Publish_NackBuffer_Count\<rparr>"

definition yang_destroy_rtcpush :: "push_stream \<Rightarrow> push_stream" where
  "yang_destroy_rtcpush pub =
     pub\<lparr>ps_audio_queue := yang_destroy_pubNackbuffer (ps_audio_queue pub),
         ps_video_queue := yang_destroy_pubNackbuffer (ps_video_queue pub)\<rparr>"

section \<open>Sending media packets (YangPush.c)\<close>

text \<open>The pointer \<open>p\<close> is an offset into the ring of the packet's kind.\<close>

definition yang_rtcpush_cache_nack :: "push_stream \<Rightarrow> rtp_packet \<Rightarrow> int \<Rightarrow> int \<Rightarrow> (errcode \<times> push_stream) option" where
  "yang_rtcpush_cache_nack pub pkt p plen = do {
     let seq = sequence (pk_header pkt);
     if pk_frame_type pkt = YangFrameTypeAudio then do {
       q \<leftarrow> yang_pubnackbuffer_set (ps_audio_queue pub) seq (Some p) plen;
       Some (Yang_Ok, pub\<lparr>ps_audio_queue := q\<rparr>)
     }
     else do {
       q \<leftarrow> yang_pubnackbuffer_set (ps_video_queue pub) seq (Some p) plen;
       Some (Yang_Ok, pub\<lparr>ps_video_queue := q\<rparr>)
     }
   }"

text \<open>
  \<open>session->push\<close> is absent or a push stream. The memory of the buffer is the packet ring: the stream notes the
  place of the packet there, and the packet is then protected in place.
\<close>

definition yang_send_avpacket ::
    "'w rtc_net \<Rightarrow> 'w rtc_context \<Rightarrow> push_stream option \<Rightarrow> rtp_packet \<Rightarrow> yang_buffer \<Rightarrow>
     (errcode \<times> 'w rtc_context \<times> push_stream option \<times> yang_buffer) option" where
  "yang_send_avpacket net context push pkt b = do {
     let nn_encrypt = yang_buffer_pos b;
     push \<leftarrow> (case push of
               None \<Rightarrow> Some None
             | Some pub \<Rightarrow> map_option (Some \<circ> snd) (yang_rtcpush_cache_nack pub pkt (buf_data b) nn_encrypt));
     (err, w, srtp, m, nn_encrypt) \<leftarrow>
       yang_enc_rtp net (cx_world context) (cx_srtp context) (buf_mem b) (buf_data b) nn_encrypt;
     let context = context\<lparr>cx_world := w, cx_srtp := srtp\<rparr>;
     let b = b\<lparr>buf_mem := m\<rparr>;
     if err \<noteq> Yang_Ok then Some (err, context, push, b)
     else do {
       (err, w) \<leftarrow> udp_send net (cx_world context) (buf_mem b) (buf_data b) nn_encrypt;
       Some (err, context\<lparr>cx_world := w\<rparr>, push, b)
     }
   }"

text \<open>
  The stored packet lies in the ring \<open>m\<close> and is protected there. A slot that was never filled has a NULL payload:
  the library then gets an empty packet.
\<close>

definition yang_send_nackpacket ::
    "'w rtc_net \<Rightarrow> 'w rtc_context \<Rightarrow> u8 list \<Rightarrow> int option \<Rightarrow> int \<Rightarrow> (errcode \<times> 'w rtc_context \<times> u8 list) option" where
  "yang_send_nackpacket net context ring data nb = do {
     let (m, p) = (case data of None \<Rightarrow> ([], 0) | Some p \<Rightarrow> (ring, p));
     (err, w, srtp, m, nn_encrypt) \<leftarrow> yang_enc_rtp net (cx_world context) (cx_srtp context) m p nb;
     let context = context\<lparr>cx_world := w, cx_srtp := srtp\<rparr>;
     let ring = (if data = None then ring else m);
     if err \<noteq> Yang_Ok then Some (err, context, ring)
     else do {
       (err, w) \<leftarrow> udp_send net (cx_world context) m p nn_encrypt;
       Some (err, context\<lparr>cx_world := w\<rparr>, ring)
     }
   }"

section \<open>Retransmission (YangPushStream.c)\<close>

definition yang_rtcpush_fetch_rtp_packet :: "publish_nack_buffer \<Rightarrow> u16 \<Rightarrow> send_nack_slot option option" where
  "yang_rtcpush_fetch_rtp_packet que seq = do {
     pkt \<leftarrow> yang_pubnackbuffer_at que seq;
     Some (if ss_seq pkt = seq then Some pkt else None)
   }"

text \<open>The loop over the numbers asked for; it stops at the first packet that cannot be sent.\<close>

fun recv_nack_loop ::
    "'w rtc_net \<Rightarrow> 'w rtc_context \<Rightarrow> publish_nack_buffer \<Rightarrow> u8 list \<Rightarrow> u16 list \<Rightarrow>
     (errcode \<times> 'w rtc_context \<times> u8 list) option" where
  "recv_nack_loop net context que ring [] = Some (Yang_Ok, context, ring)"
| "recv_nack_loop net context que ring (seq # sns) = do {
     pkt \<leftarrow> yang_rtcpush_fetch_rtp_packet que seq;
     case pkt of
       None \<Rightarrow> recv_nack_loop net context que ring sns
     | Some pkt \<Rightarrow> do {
         let stats = cx_stats context;
         let send = sendStats stats;
         let context = context\<lparr>cx_stats := stats\<lparr>sendStats := send\<lparr>st_nackCount := st_nackCount send + 1\<rparr>\<rparr>\<rparr>;
         (err, context, ring) \<leftarrow> yang_send_nackpacket net context ring (ss_payload pkt) (ss_nb pkt);
         if err \<noteq> Yang_Ok then Some (err, context, ring)
         else recv_nack_loop net context que ring sns
       }
   }"

definition yang_rtcpush_on_recv_nack ::
    "'w rtc_net \<Rightarrow> 'w rtc_context \<Rightarrow> publish_nack_buffer \<Rightarrow> u8 list \<Rightarrow> rtcp_nack \<Rightarrow>
     (errcode \<times> 'w rtc_context \<times> u8 list) option" where
  "yang_rtcpush_on_recv_nack net context que ring nack = do {
     sns \<leftarrow> (if nk_vsize nack = 0 then Some []
            else do { p \<leftarrow> nk_nacks nack; mem_read p 0 (uint (nk_vsize nack)) });
     recv_nack_loop net context que ring sns
   }"

text \<open>The video queue wins when both numbers are the same. The wrapped error of a zero source is the code 0.\<close>

definition yang_rtcpush_on_rtcp_nack ::
    "'w rtc_net \<Rightarrow> 'w rtc_context \<Rightarrow> push_stream \<Rightarrow> packet_rings \<Rightarrow> rtcp_common \<Rightarrow>
     (errcode \<times> 'w rtc_context \<times> packet_rings) option" where
  "yang_rtcpush_on_rtcp_nack net context pub rings rtcp = do {
     nack \<leftarrow> rc_nack rtcp;
     let s = nk_mediaSsrc nack;
     if s = 0 then Some (Yang_Ok, context, rings)
     else if s = ps_videoSsrc pub then do {
       (err, context, ring) \<leftarrow> yang_rtcpush_on_recv_nack net context (ps_video_queue pub) (pr_video rings) nack;
       Some (err, context, rings\<lparr>pr_video := ring\<rparr>)
     }
     else if s = ps_audioSsrc pub then do {
       (err, context, ring) \<leftarrow> yang_rtcpush_on_recv_nack net context (ps_audio_queue pub) (pr_audio rings) nack;
       Some (err, context, rings\<lparr>pr_audio := ring\<rparr>)
     }
     else Some (Yang_Ok, context, rings)
   }"

section \<open>Reports and feedback (YangPushStream.c)\<close>

definition yang_rtcpush_on_rtcp_rr ::
    "'w rtc_net \<Rightarrow> 'w rtc_context \<Rightarrow> push_stream \<Rightarrow> rtcp_common \<Rightarrow> (errcode \<times> 'w rtc_context) option" where
  "yang_rtcpush_on_rtcp_rr net context pub rtcp =
     (if rc_ssrc rtcp = ps_audioSsrc pub \<or> rc_ssrc rtcp = ps_videoSsrc pub then do {
        let stats = cx_stats context;
        (err, w, rst) \<leftarrow> yang_stats_on_recvRR net (cx_world context) (rc_ssrc rtcp = ps_audioSsrc pub)
                          (recvStats stats) (sendStats stats) rtcp;
        Some (err, context\<lparr>cx_world := w, cx_stats := stats\<lparr>recvStats := rst\<rparr>\<rparr>)
      }
      else Some (Yang_Ok, context))"

definition yang_rtcpush_on_rtcp_xr :: "'w rtc_context \<Rightarrow> errcode \<times> 'w rtc_context" where
  "yang_rtcpush_on_rtcp_xr context = (Yang_Ok, context)"

text \<open>The rate is an integer: it is above 0.1 when it is positive and below 0.02 when it is not.\<close>

definition yang_rtcpush_check_rrt ::
    "'w rtc_net \<Rightarrow> 'w rtc_context \<Rightarrow> push_stream \<Rightarrow> (errcode \<times> 'w rtc_context) option" where
  "yang_rtcpush_check_rrt net context pub =
     (let (err, bw, stats) = yang_bandwidth_checkByRR (cx_bandwidth context) (cx_stats context);
          context = context\<lparr>cx_bandwidth := bw, cx_stats := stats\<rparr>
      in if bw_lostRate bw \<ge> 1 then
           if bw_request bw = Yang_Req_HighLostPacketRate then Some (err, context)
           else let w = (case net_request net of
                           None \<Rightarrow> cx_world context
                         | Some f \<Rightarrow> f (cx_world context) (cx_uid context) (ps_videoSsrc pub) Yang_Req_HighLostPacketRate)
                in Some (err, context\<lparr>cx_world := w, cx_bandwidth := bw\<lparr>bw_request := Yang_Req_HighLostPacketRate\<rparr>\<rparr>)
         else
           if bw_request bw = Yang_Req_LowLostPacketRate then Some (err, context)
           else do {
             f \<leftarrow> net_request net;
             let w = f (cx_world context) (cx_uid context) (ps_videoSsrc pub) Yang_Req_LowLostPacketRate;
             Some (err, context\<lparr>cx_world := w, cx_bandwidth := bw\<lparr>bw_request := Yang_Req_LowLostPacketRate\<rparr>\<rparr>)
           })"

definition yang_rtcpush_do_request_keyframe :: "'w rtc_net \<Rightarrow> 'w rtc_context \<Rightarrow> u32 \<Rightarrow> errcode \<times> 'w rtc_context" where
  "yang_rtcpush_do_request_keyframe net context s = (Yang_Ok, yang_do_request_keyframe net context s)"

definition yang_rtcpush_on_rtcp_ps_feedback ::
    "'w rtc_net \<Rightarrow> 'w rtc_context \<Rightarrow> push_stream \<Rightarrow> rtcp_common \<Rightarrow> errcode \<times> 'w rtc_context" where
  "yang_rtcpush_on_rtcp_ps_feedback net context pub rtcp =
     (let fmt = rh_rc (rc_header rtcp)
      in if fmt = kPLI then
           let s = ps_videoSsrc pub
           in if s \<noteq> 0 then (Yang_Ok, snd (yang_rtcpush_do_request_keyframe net context s)) else (Yang_Ok, context)
         else if fmt = kSLI \<or> fmt = kRPSI \<or> fmt = 15 then (Yang_Ok, context)
         else (ERROR_RTC_RTCP, context))"

definition yang_rtcpush_on_rtcp ::
    "'w rtc_net \<Rightarrow> 'w rtc_context \<Rightarrow> push_stream \<Rightarrow> packet_rings \<Rightarrow> rtcp_common \<Rightarrow>
     (errcode \<times> 'w rtc_context \<times> packet_rings) option" where
  "yang_rtcpush_on_rtcp net context pub rings rtcp =
     (let ty = rh_type (rc_header rtcp)
      in if ty = YangRtcpType_rr then
           map_option (\<lambda>(err, c). (err, c, rings)) (yang_rtcpush_on_rtcp_rr net context pub rtcp)
         else if ty = YangRtcpType_rtpfb then yang_rtcpush_on_rtcp_nack net context pub rings rtcp
         else if ty = YangRtcpType_psfb then
           (case yang_rtcpush_on_rtcp_ps_feedback net context pub rtcp of (err, c) \<Rightarrow> Some (err, c, rings))
         else if ty = YangRtcpType_xr then
           (case yang_rtcpush_on_rtcp_xr context of (err, c) \<Rightarrow> Some (err, c, rings))
         else Some (Yang_Ok, context, rings))"

text \<open>A failed send is reported as 1.\<close>

definition yang_rtcpush_send_rtcp_sr ::
    "'w rtc_net \<Rightarrow> 'w rtc_context \<Rightarrow> push_stream \<Rightarrow> (errcode \<times> 'w rtc_context) option" where
  "yang_rtcpush_send_rtcp_sr net context pub = do {
     (err, context) \<leftarrow> yang_send_rtcp_sr net context True (ps_audioSsrc pub);
     if err \<noteq> Yang_Ok then Some (1, context)
     else do {
       (err, context) \<leftarrow> yang_send_rtcp_sr net context False (ps_videoSsrc pub);
       if err \<noteq> Yang_Ok then Some (1, context) else Some (Yang_Ok, context)
     }
   }"

end
