(* ===== verification/Push_Media.thy ===== *)
theory Push_Media
  imports Push_Stream
begin

text \<open>
  The packetisers of \<open>yangrtc/YangPushH264.c\<close> and \<open>YangPushH265.c\<close>. The two files differ in the payload coders, the
  length of the NAL unit header and the payload type; what they share is defined once, over these parameters, and
  each function of either file is an instance.

  \<open>videoBuf\<close> is an array of \<open>kRtpPacketSize\<close> bytes; the raw and fragment structures point to it.
\<close>

section \<open>State\<close>

abbreviation (input) kRtpMaxPayloadSize :: int where "kRtpMaxPayloadSize \<equiv> 1300"
abbreviation (input) YangRtspPacketPayloadTypeFUA2 :: int where "YangRtspPacketPayloadTypeFUA2 \<equiv> 1"
abbreviation (input) YangRtspPacketPayloadTypeSTAP :: int where "YangRtspPacketPayloadTypeSTAP \<equiv> 4"
abbreviation (input) YangFrameTypeVideo :: int where "YangFrameTypeVideo \<equiv> 9"
abbreviation (input) YangAudioPayloadType :: u8 where "YangAudioPayloadType \<equiv> 111"
abbreviation (input) YangH264PayloadType :: u8 where "YangH264PayloadType \<equiv> 125"
abbreviation (input) YangH265PayloadType :: u8 where "YangH265PayloadType \<equiv> 126"

text \<open>\<open>YangPushH264Rtp\<close> and \<open>YangPushH265Rtp\<close> have the same fields.\<close>

record push_rtp =
  pu_videoSeq :: u16
  pu_audioSeq :: u16
  pu_twccSeq :: u16
  pu_videoSsrc :: u32
  pu_audioSsrc :: u32
  pu_videoBuf :: "u8 list"
  pu_videoRtpBuffer :: rtp_buffer
  pu_audioRtpBuffer :: rtp_buffer
  pu_videoFua2Data :: fua2_data
  pu_videoRawData :: rtp_raw_data
  pu_audioRawData :: rtp_raw_data
  pu_stapData :: rtp_stap_data
  pu_buf :: yang_buffer
  pu_videoFuaPacket :: rtp_packet
  pu_videoRawPacket :: rtp_packet
  pu_videoStapPacket :: rtp_packet
  pu_audioRawPacket :: rtp_packet

text \<open>What the functions use of \<open>YangRtcSession\<close>.\<close>

record 'w push_session =
  se_context :: "'w rtc_context"
  se_push :: "push_stream option"

definition note_video :: "push_rtp \<Rightarrow> rtp_buffer \<Rightarrow> yang_buffer \<Rightarrow> push_rtp" where
  "note_video rtp rb b = rtp\<lparr>pu_buf := b, pu_videoRtpBuffer := rb\<lparr>rb_buffer := buf_mem b\<rparr>\<rparr>"

definition note_audio :: "push_rtp \<Rightarrow> rtp_buffer \<Rightarrow> yang_buffer \<Rightarrow> push_rtp" where
  "note_audio rtp rb b = rtp\<lparr>pu_buf := b, pu_audioRtpBuffer := rb\<lparr>rb_buffer := buf_mem b\<rparr>\<rparr>"

section \<open>Encoding and sending one packet\<close>

definition push_padding :: "rtp_packet \<Rightarrow> yang_buffer \<Rightarrow> (errcode \<times> yang_buffer) option" where
  "push_padding pkt b =
     (let padding = padding_length (pk_header pkt)
      in if padding = 0 then Some (Yang_Ok, b)
         else if \<not> yang_buffer_require b (uint padding) then Some (ERROR_RTC_RTP_MUXER, b)
         else do {
           m \<leftarrow> mem_write (buf_mem b) (buf_head b) (replicate (unat padding) padding);
           Some (Yang_Ok, yang_buffer_skip (b\<lparr>buf_mem := m\<rparr>) (uint padding))
         })"

text \<open>The payload coder chosen by the payload type; a STAP payload is reset after it.\<close>

definition encode_payload ::
    "(yang_buffer \<Rightarrow> fua2_data \<Rightarrow> (errcode \<times> yang_buffer) option) \<Rightarrow>
     (yang_buffer \<Rightarrow> rtp_stap_data \<Rightarrow> (errcode \<times> yang_buffer) option) \<Rightarrow>
     push_rtp \<Rightarrow> rtp_packet \<Rightarrow> yang_buffer \<Rightarrow> (errcode \<times> push_rtp \<times> yang_buffer) option" where
  "encode_payload encode_fua2 encode_stap rtp pkt b =
     (if pk_payload_type pkt = YangRtspPacketPayloadTypeRaw then do {
        (err, b) \<leftarrow> yang_encode_h264_raw b (pu_videoRawData rtp);
        Some (err, rtp, b)
      }
      else if pk_payload_type pkt = YangRtspPacketPayloadTypeFUA2 then do {
        (err, b) \<leftarrow> encode_fua2 b (pu_videoFua2Data rtp);
        Some (err, rtp, b)
      }
      else if pk_payload_type pkt = YangRtspPacketPayloadTypeSTAP then do {
        (err, b) \<leftarrow> encode_stap b (pu_stapData rtp);
        stap \<leftarrow> yang_reset_h2645_stap (pu_stapData rtp);
        Some (err, rtp\<lparr>pu_stapData := stap\<rparr>, b)
      }
      else Some (Yang_Ok, rtp, b))"

definition push_encodeVideo ::
    "(yang_buffer \<Rightarrow> fua2_data \<Rightarrow> (errcode \<times> yang_buffer) option) \<Rightarrow>
     (yang_buffer \<Rightarrow> rtp_stap_data \<Rightarrow> (errcode \<times> yang_buffer) option) \<Rightarrow>
     'w rtc_net \<Rightarrow> 'w push_session \<Rightarrow> push_rtp \<Rightarrow> rtp_packet \<Rightarrow> (errcode \<times> 'w push_session \<times> push_rtp) option" where
  "push_encodeVideo encode_fua2 encode_stap net session rtp pkt = do {
     let (p, rb) = yang_get_rtpBuffer (pu_videoRtpBuffer rtp);
     let b = yang_init_buffer (rb_buffer rb) p kRtpPacketSize;
     (err, b) \<leftarrow> yang_encode_rtpHeader b (pk_header pkt);
     if err \<noteq> Yang_Ok then Some (err, session, note_video rtp rb b)
     else do {
       (err, rtp, b) \<leftarrow> encode_payload encode_fua2 encode_stap rtp pkt b;
       if err \<noteq> Yang_Ok then Some (err, session, note_video rtp rb b)
       else do {
         (err, b) \<leftarrow> push_padding pkt b;
         if err \<noteq> Yang_Ok then Some (err, session, note_video rtp rb b)
         else do {
           let context = se_context session;
           let stats = cx_stats context;
           let (w, send) = yang_stats_on_pub_video_rtp net (cx_world context) (sendStats stats) b;
           let context = context\<lparr>cx_world := w, cx_stats := stats\<lparr>sendStats := send\<rparr>\<rparr>;
           (err, context, push, b) \<leftarrow> yang_send_avpacket net context (se_push session) pkt b;
           Some (err, \<lparr>se_context = context, se_push = push\<rparr>, note_video rtp rb b)
         }
       }
     }
   }"

definition push_encodeAudio ::
    "'w rtc_net \<Rightarrow> 'w push_session \<Rightarrow> push_rtp \<Rightarrow> rtp_packet \<Rightarrow> (errcode \<times> 'w push_session \<times> push_rtp) option" where
  "push_encodeAudio net session rtp pkt = do {
     let (p, rb) = yang_get_rtpBuffer (pu_audioRtpBuffer rtp);
     let b = yang_init_buffer (rb_buffer rb) p kRtpPacketSize;
     (err, b) \<leftarrow> yang_encode_rtpHeader b (pk_header pkt);
     if err \<noteq> Yang_Ok then Some (err, session, note_audio rtp rb b)
     else do {
       (err, b) \<leftarrow> yang_encode_h264_raw b (pu_audioRawData rtp);
       if err \<noteq> Yang_Ok then Some (err, session, note_audio rtp rb b)
       else do {
         (err, b) \<leftarrow> push_padding pkt b;
         if err \<noteq> Yang_Ok then Some (err, session, note_audio rtp rb b)
         else do {
           let context = se_context session;
           let stats = cx_stats context;
           let (w, send) = yang_stats_on_pub_audio_rtp net (cx_world context) (sendStats stats) b;
           let context = context\<lparr>cx_world := w, cx_stats := stats\<lparr>sendStats := send\<rparr>\<rparr>;
           (err, context, push, b) \<leftarrow> yang_send_avpacket net context (se_push session) pkt b;
           Some (err, \<lparr>se_context = context, se_push = push\<rparr>, note_audio rtp rb b)
         }
       }
     }
   }"

definition yang_push_h264_encodeVideo ::
    "'w rtc_net \<Rightarrow> 'w push_session \<Rightarrow> push_rtp \<Rightarrow> rtp_packet \<Rightarrow> (errcode \<times> 'w push_session \<times> push_rtp) option" where
  "yang_push_h264_encodeVideo = push_encodeVideo yang_encode_h264_fua2 yang_encode_h264_stap"

definition yang_h265_encodeVideo ::
    "'w rtc_net \<Rightarrow> 'w push_session \<Rightarrow> push_rtp \<Rightarrow> rtp_packet \<Rightarrow> (errcode \<times> 'w push_session \<times> push_rtp) option" where
  "yang_h265_encodeVideo = push_encodeVideo yang_encode_h265_fua2 yang_encode_h265_stap"

definition yang_push_h264_encodeAudio ::
    "'w rtc_net \<Rightarrow> 'w push_session \<Rightarrow> push_rtp \<Rightarrow> rtp_packet \<Rightarrow> (errcode \<times> 'w push_session \<times> push_rtp) option" where
  "yang_push_h264_encodeAudio = push_encodeAudio"

definition yang_h265_encodeAudio ::
    "'w rtc_net \<Rightarrow> 'w push_session \<Rightarrow> push_rtp \<Rightarrow> rtp_packet \<Rightarrow> (errcode \<times> 'w push_session \<times> push_rtp) option" where
  "yang_h265_encodeAudio = push_encodeAudio"

section \<open>Packets\<close>

text \<open>
  The header of a new packet: reset, then type, source, frame type, the next number and the time. Only the fields
  named in the code are set afterwards.
\<close>

definition new_packet :: "rtp_packet \<Rightarrow> u8 \<Rightarrow> u32 \<Rightarrow> int \<Rightarrow> u16 \<Rightarrow> int \<Rightarrow> bool \<Rightarrow> int \<Rightarrow> rtp_packet" where
  "new_packet pkt pt src frame seq ts mark pl =
     (let pkt = yang_reset_rtpPacket pkt
      in pkt\<lparr>pk_header := (pk_header pkt)\<lparr>payload_type := pt, ssrc := src, sequence := seq,
               timestamp := word_of_int ts, marker := mark\<rparr>,
             pk_frame_type := frame, pk_payload_type := pl\<rparr>)"

definition push_stap_samples :: "push_rtp \<Rightarrow> yang_sample list \<Rightarrow> u8 \<Rightarrow> push_rtp option" where
  "push_stap_samples rtp samples header = do {
     stap \<leftarrow> yang_reset_h2645_stap (pu_stapData rtp);
     let stap = stap\<lparr>stap_nri := uint header\<rparr>;
     v \<leftarrow> foldl (\<lambda>v s. v \<bind> (\<lambda>v. yang_insert_Vector null_sample v (Some s))) (Some (stap_nalus stap)) samples;
     Some (rtp\<lparr>pu_stapData := stap\<lparr>stap_nalus := v\<rparr>\<rparr>)
   }"

definition stap_packet :: "push_rtp \<Rightarrow> u8 \<Rightarrow> yang_frame \<Rightarrow> push_rtp" where
  "stap_packet rtp pt fr =
     rtp\<lparr>pu_videoStapPacket :=
           (new_packet (pu_videoStapPacket rtp) pt (pu_videoSsrc rtp) YangFrameTypeVideo (pu_videoSeq rtp)
              (fr_pts fr) False YangRtspPacketPayloadTypeSTAP)\<lparr>pk_nalu_type := uint kStapA\<rparr>,
         pu_videoSeq := pu_videoSeq rtp + 1\<rparr>"

definition yang_push_h264_package_stap_a ::
    "'w rtc_net \<Rightarrow> 'w push_session \<Rightarrow> push_rtp \<Rightarrow> yang_frame \<Rightarrow> (errcode \<times> 'w push_session \<times> push_rtp) option" where
  "yang_push_h264_package_stap_a net session rtp fr = do {
     let rtp = stap_packet rtp YangH264PayloadType fr;
     (sps, pps) \<leftarrow> yang_decodeMetaH264 (fr_mem fr) (fr_payload fr);
     header \<leftarrow> mem_load (smp_mem sps) (smp_bytes sps);
     rtp \<leftarrow> push_stap_samples rtp [sps, pps] header;
     yang_push_h264_encodeVideo net session rtp (pu_videoStapPacket rtp)
   }"

definition yang_push_h265_package_stap_a ::
    "'w rtc_net \<Rightarrow> 'w push_session \<Rightarrow> push_rtp \<Rightarrow> yang_frame \<Rightarrow> (errcode \<times> 'w push_session \<times> push_rtp) option" where
  "yang_push_h265_package_stap_a net session rtp fr = do {
     let rtp = stap_packet rtp YangH265PayloadType fr;
     (vps, sps, pps) \<leftarrow> yang_decodeMetaH265 (fr_mem fr) (fr_payload fr);
     header \<leftarrow> mem_load (smp_mem sps) (smp_bytes sps);
     rtp \<leftarrow> push_stap_samples rtp [vps, sps, pps] header;
     yang_h265_encodeVideo net session rtp (pu_videoStapPacket rtp)
   }"

text \<open>A frame in one packet: the bytes are copied to \<open>videoBuf\<close>.\<close>

definition single_packet :: "push_rtp \<Rightarrow> u8 \<Rightarrow> u8 list \<Rightarrow> int \<Rightarrow> int \<Rightarrow> int \<Rightarrow> bool \<Rightarrow> push_rtp option" where
  "single_packet rtp pt m p nb ts mark = do {
     let rtp = rtp\<lparr>pu_videoRawPacket :=
           new_packet (pu_videoRawPacket rtp) pt (pu_videoSsrc rtp) YangFrameTypeVideo (pu_videoSeq rtp) ts mark
             YangRtspPacketPayloadTypeRaw,
         pu_videoSeq := pu_videoSeq rtp + 1\<rparr>;
     src \<leftarrow> mem_read m p nb;
     buf \<leftarrow> mem_write (pu_videoBuf rtp) 0 src;
     Some (rtp\<lparr>pu_videoBuf := buf, pu_videoRawData := \<lparr>raw_nb = nb, raw_mem = buf, raw_payload = 0\<rparr>\<rparr>)
   }"

definition yang_push_h264_package_single_nalu2 ::
    "'w rtc_net \<Rightarrow> 'w push_session \<Rightarrow> push_rtp \<Rightarrow> yang_frame \<Rightarrow> (errcode \<times> 'w push_session \<times> push_rtp) option" where
  "yang_push_h264_package_single_nalu2 net session rtp fr = do {
     rtp \<leftarrow> single_packet rtp YangH264PayloadType (fr_mem fr) (fr_payload fr) (fr_nb fr) (fr_pts fr) True;
     yang_push_h264_encodeVideo net session rtp (pu_videoRawPacket rtp)
   }"

definition yang_h265_package_single_nalu2 ::
    "'w rtc_net \<Rightarrow> 'w push_session \<Rightarrow> push_rtp \<Rightarrow> yang_frame \<Rightarrow> (errcode \<times> 'w push_session \<times> push_rtp) option" where
  "yang_h265_package_single_nalu2 net session rtp fr = do {
     rtp \<leftarrow> single_packet rtp YangH265PayloadType (fr_mem fr) (fr_payload fr) (fr_nb fr) (fr_pts fr) True;
     yang_h265_encodeVideo net session rtp (pu_videoRawPacket rtp)
   }"

definition yang_push_h264_package_single_nalu ::
    "'w rtc_net \<Rightarrow> 'w push_session \<Rightarrow> push_rtp \<Rightarrow> u8 list \<Rightarrow> int \<Rightarrow> int \<Rightarrow> int \<Rightarrow>
     (errcode \<times> 'w push_session \<times> push_rtp) option" where
  "yang_push_h264_package_single_nalu net session rtp m p plen ts = do {
     rtp \<leftarrow> single_packet rtp YangH264PayloadType m p plen ts False;
     yang_push_h264_encodeVideo net session rtp (pu_videoRawPacket rtp)
   }"

definition yang_h265_package_single_nalu ::
    "'w rtc_net \<Rightarrow> 'w push_session \<Rightarrow> push_rtp \<Rightarrow> u8 list \<Rightarrow> int \<Rightarrow> int \<Rightarrow> int \<Rightarrow>
     (errcode \<times> 'w push_session \<times> push_rtp) option" where
  "yang_h265_package_single_nalu net session rtp m p plen ts = do {
     rtp \<leftarrow> single_packet rtp YangH265PayloadType m p plen ts False;
     yang_h265_encodeVideo net session rtp (pu_videoRawPacket rtp)
   }"

section \<open>Fragments\<close>

text \<open>The conditional binds less than the sum: no packet at all when the remainder is zero.\<close>

definition num_of_packet :: "int \<Rightarrow> int \<Rightarrow> int" where
  "num_of_packet plen fu_payload_size =
     (if (plen - 1) smod fu_payload_size = 0 then 0 else 1 + (plen - 1) sdiv fu_payload_size)"

text \<open>One round: packet \<open>i\<close> of \<open>n\<close> with \<open>packet_size\<close> bytes from \<open>p\<close>.\<close>

definition fragment ::
    "push_rtp \<Rightarrow> u8 \<Rightarrow> yang_frame \<Rightarrow> u8 \<Rightarrow> u8 \<Rightarrow> int \<Rightarrow> int \<Rightarrow> int \<Rightarrow> int \<Rightarrow> push_rtp option" where
  "fragment rtp pt fr header nal_type n i p packet_size = do {
     let rtp = rtp\<lparr>pu_videoFuaPacket :=
           new_packet (pu_videoFuaPacket rtp) pt (pu_videoSsrc rtp) YangFrameTypeVideo (pu_videoSeq rtp)
             (fr_pts fr) (i = n - 1) YangRtspPacketPayloadTypeFUA2,
         pu_videoSeq := pu_videoSeq rtp + 1\<rparr>;
     src \<leftarrow> mem_read (fr_mem fr) p packet_size;
     buf \<leftarrow> mem_write (pu_videoBuf rtp) 0 src;
     Some (rtp\<lparr>pu_videoBuf := buf,
       pu_videoFua2Data := \<lparr>fu_start = (if i = 0 then 1 else 0), fu_end = (if i = n - 1 then 1 else 0),
         fu_nri = header, fu_nalu_type = nal_type, fu_nb = packet_size, fu_mem = buf, fu_payload = 0\<rparr>\<rparr>)
   }"

text \<open>The loop: \<open>k\<close> rounds left, the next one is \<open>i\<close>.\<close>

primrec fu_a_loop ::
    "nat \<Rightarrow> ('w push_session \<Rightarrow> push_rtp \<Rightarrow> rtp_packet \<Rightarrow> (errcode \<times> 'w push_session \<times> push_rtp) option) \<Rightarrow>
     u8 \<Rightarrow> yang_frame \<Rightarrow> u8 \<Rightarrow> u8 \<Rightarrow> int \<Rightarrow> int \<Rightarrow> int \<Rightarrow> int \<Rightarrow> int \<Rightarrow> 'w push_session \<Rightarrow> push_rtp \<Rightarrow>
     (errcode \<times> 'w push_session \<times> push_rtp) option" where
  "fu_a_loop 0 encode pt fr header nal_type sz n i p nb_left session rtp = Some (Yang_Ok, session, rtp)"
| "fu_a_loop (Suc k) encode pt fr header nal_type sz n i p nb_left session rtp = do {
     let packet_size = min nb_left sz;
     rtp \<leftarrow> fragment rtp pt fr header nal_type n i p packet_size;
     (err, session, rtp) \<leftarrow> encode session rtp (pu_videoFuaPacket rtp);
     if err \<noteq> Yang_Ok then Some (err, session, rtp)
     else fu_a_loop k encode pt fr header nal_type sz n (i + 1) (p + packet_size) (nb_left - packet_size) session rtp
   }"

definition yang_push_h264_package_fu_a ::
    "'w rtc_net \<Rightarrow> 'w push_session \<Rightarrow> push_rtp \<Rightarrow> yang_frame \<Rightarrow> int \<Rightarrow>
     (errcode \<times> 'w push_session \<times> push_rtp) option" where
  "yang_push_h264_package_fu_a net session rtp fr sz = do {
     header \<leftarrow> mem_load (fr_mem fr) (fr_payload fr);
     let n = num_of_packet (fr_nb fr) sz;
     fu_a_loop (nat n) (yang_push_h264_encodeVideo net) YangH264PayloadType fr header (header AND kNalTypeMask) sz n 0
       (fr_payload fr + 1) (fr_nb fr - 1) session rtp
   }"

definition yang_h265_package_fu_a ::
    "'w rtc_net \<Rightarrow> 'w push_session \<Rightarrow> push_rtp \<Rightarrow> yang_frame \<Rightarrow> int \<Rightarrow>
     (errcode \<times> 'w push_session \<times> push_rtp) option" where
  "yang_h265_package_fu_a net session rtp fr sz = do {
     header \<leftarrow> mem_load (fr_mem fr) (fr_payload fr);
     let n = num_of_packet (fr_nb fr) sz;
     fu_a_loop (nat n) (yang_h265_encodeVideo net) YangH265PayloadType fr header (YANG_HEVC_NALU_TYPE header) sz n 0
       (fr_payload fr + 2) (fr_nb fr - 2) session rtp
   }"

section \<open>Frames\<close>

definition count_audio :: "'w push_session \<Rightarrow> 'w push_session" where
  "count_audio session =
     (let context = se_context session; stats = cx_stats context; send = sendStats stats
      in session\<lparr>se_context := context\<lparr>cx_stats := stats\<lparr>sendStats :=
           send\<lparr>st_audioRtpPacketCount := st_audioRtpPacketCount send + 1\<rparr>\<rparr>\<rparr>\<rparr>)"

definition count_frame :: "nat \<Rightarrow> 'w push_session \<Rightarrow> 'w push_session" where
  "count_frame packets session =
     (let context = se_context session; stats = cx_stats context; send = sendStats stats
      in session\<lparr>se_context := context\<lparr>cx_stats := stats\<lparr>sendStats :=
           send\<lparr>st_videoRtpPacketCount := st_videoRtpPacketCount send + word_of_nat packets,
                st_frameCount := st_frameCount send + 1\<rparr>\<rparr>\<rparr>\<rparr>)"

text \<open>Audio takes its raw structure to \<open>videoBuf\<close> too.\<close>

definition push_audio ::
    "'w rtc_net \<Rightarrow> 'w push_session \<Rightarrow> push_rtp \<Rightarrow> yang_frame \<Rightarrow> (errcode \<times> 'w push_session \<times> push_rtp) option" where
  "push_audio net session rtp fr = do {
     let rtp = rtp\<lparr>pu_audioRawPacket :=
           new_packet (pu_audioRawPacket rtp) YangAudioPayloadType (pu_audioSsrc rtp) YangFrameTypeAudio
             (pu_audioSeq rtp) (fr_pts fr) True YangRtspPacketPayloadTypeRaw,
         pu_audioSeq := pu_audioSeq rtp + 1\<rparr>;
     src \<leftarrow> mem_read (fr_mem fr) (fr_payload fr) (fr_nb fr);
     buf \<leftarrow> mem_write (pu_videoBuf rtp) 0 src;
     let rtp = rtp\<lparr>pu_videoBuf := buf, pu_audioRawData := \<lparr>raw_nb = fr_nb fr, raw_mem = buf, raw_payload = 0\<rparr>\<rparr>;
     (err, session, rtp) \<leftarrow> push_encodeAudio net session rtp (pu_audioRawPacket rtp);
     if err \<noteq> Yang_Ok then Some (err, session, rtp)
     else Some (err, count_audio session, rtp)
   }"

definition yang_push_h264_audio ::
    "'w rtc_net \<Rightarrow> 'w push_session \<Rightarrow> push_rtp \<Rightarrow> yang_frame \<Rightarrow> (errcode \<times> 'w push_session \<times> push_rtp) option" where
  "yang_push_h264_audio = push_audio"

definition yang_push_h265_audio ::
    "'w rtc_net \<Rightarrow> 'w push_session \<Rightarrow> push_rtp \<Rightarrow> yang_frame \<Rightarrow> (errcode \<times> 'w push_session \<times> push_rtp) option" where
  "yang_push_h265_audio = push_audio"

definition yang_push_h264_video ::
    "'w rtc_net \<Rightarrow> 'w push_session \<Rightarrow> push_rtp \<Rightarrow> yang_frame \<Rightarrow> (errcode \<times> 'w push_session \<times> push_rtp) option" where
  "yang_push_h264_video net session rtp fr =
     (if fr_nb fr \<le> kRtpMaxPayloadSize then do {
        (err, session, rtp) \<leftarrow> yang_push_h264_package_single_nalu2 net session rtp fr;
        if err \<noteq> Yang_Ok then Some (err, session, rtp) else Some (err, count_frame 1 session, rtp)
      }
      else do {
        (err, session, rtp) \<leftarrow> yang_push_h264_package_fu_a net session rtp fr kRtpMaxPayloadSize;
        if err \<noteq> Yang_Ok then Some (err, session, rtp) else Some (err, count_frame 0 session, rtp)
      })"

definition yang_push_h265_video ::
    "'w rtc_net \<Rightarrow> 'w push_session \<Rightarrow> push_rtp \<Rightarrow> yang_frame \<Rightarrow> (errcode \<times> 'w push_session \<times> push_rtp) option" where
  "yang_push_h265_video net session rtp fr =
     (if fr_nb fr \<le> kRtpMaxPayloadSize then do {
        (err, session, rtp) \<leftarrow> yang_h265_package_single_nalu2 net session rtp fr;
        if err \<noteq> Yang_Ok then Some (err, session, rtp) else Some (err, count_frame 1 session, rtp)
      }
      else do {
        (err, session, rtp) \<leftarrow> yang_h265_package_fu_a net session rtp fr kRtpMaxPayloadSize;
        if err \<noteq> Yang_Ok then Some (err, session, rtp) else Some (err, count_frame 0 session, rtp)
      })"

section \<open>Creation\<close>

definition zero_packet :: rtp_packet where
  "zero_packet = \<lparr>pk_actual_buffer_size = 0, pk_nalu_type = 0, pk_frame_type = 0, pk_payload_type = 0, pk_nb = 0,
     pk_cached_payload_size = 0, pk_payload = None, pk_header = zero_header\<rparr>"

definition create_push :: "rtp_buffer \<Rightarrow> rtp_buffer \<Rightarrow> push_rtp" where
  "create_push aring vring =
     \<lparr>pu_videoSeq = 0, pu_audioSeq = 0, pu_twccSeq = 0, pu_videoSsrc = 0, pu_audioSsrc = 0,
      pu_videoBuf = replicate 1500 0, pu_videoRtpBuffer = vring, pu_audioRtpBuffer = aring,
      pu_videoFua2Data = \<lparr>fu_start = 0, fu_end = 0, fu_nri = 0, fu_nalu_type = 0, fu_nb = 0, fu_mem = [], fu_payload = 0\<rparr>,
      pu_videoRawData = \<lparr>raw_nb = 0, raw_mem = [], raw_payload = 0\<rparr>,
      pu_audioRawData = \<lparr>raw_nb = 0, raw_mem = [], raw_payload = 0\<rparr>,
      pu_stapData = yang_create_stap \<lparr>stap_nri = 0, stap_nb = 0, stap_payload = None,
        stap_nalus = \<lparr>capacity = 0, vsize = 0, payload = []\<rparr>\<rparr>,
      pu_buf = yang_init_buffer [] 0 0,
      pu_videoFuaPacket = zero_packet, pu_videoRawPacket = zero_packet, pu_videoStapPacket = zero_packet,
      pu_audioRawPacket = zero_packet\<rparr>"

definition yang_create_pushH264 :: "rtp_buffer \<Rightarrow> rtp_buffer \<Rightarrow> push_rtp" where
  "yang_create_pushH264 = create_push"

definition yang_create_pushH265 :: "rtp_buffer \<Rightarrow> rtp_buffer \<Rightarrow> push_rtp" where
  "yang_create_pushH265 = create_push"

end
