(* ===== verification/Push_Facts.thy ===== *)
theory Push_Facts
  imports Push_Media
begin

text \<open>
  What the sending side does as a whole: a frame becomes packets, the packets are protected and sent in order, a lost
  packet is looked up and sent again. The outside functions are either arbitrary, or those of a network that keeps the
  list of the datagrams it was given (\<open>log_net\<close>), which stands for any SRTP context and socket that do not fail.
  The first sections carry one packet through the coder, the ring and the socket (\<open>encodeVideo_log\<close>) and then a list of
  pieces through the fragment loop (\<open>fu_a_loop_log\<close>); the properties follow.
\<close>

section \<open>A network that keeps a log\<close>

text \<open>
  The outside world as the list of the datagrams sent: every packet is protected by \<open>P\<close> and sent. This stands for
  any SRTP context and socket that do not fail.
\<close>

definition log_net :: "(u8 list \<Rightarrow> u8 list) \<Rightarrow> u64 \<Rightarrow> u8 list list rtc_net" where
  "log_net P t =
     (let protect = (\<lambda>w m nb. let x = P (take (nat nb) m) in (0, w, x @ drop (length x) m, int (length x)))
      in \<lparr>net_srtp_protect = protect, net_srtp_protect_rtcp = protect,
          net_srtp_unprotect = protect, net_srtp_unprotect_rtcp = protect,
          net_send = (\<lambda>w bs. (Yang_Ok, w @ [bs])), net_time = (\<lambda>w. (t, w)),
          net_request = Some (\<lambda>w _ _ _. w), net_receiveVideo = None, net_receiveAudio = None\<rparr>)"

lemma log_send: "net_send (log_net P t) w bs = (Yang_Ok, w @ [bs])"
  by (simp add: log_net_def Let_def)

text \<open>\<open>SRTP_MAX_TRAILER_LEN\<close> is 144.\<close>

definition trailer_ok :: "(u8 list \<Rightarrow> u8 list) \<Rightarrow> bool" where
  "trailer_ok P \<longleftrightarrow> (\<forall>x. length (P x) \<le> length x + 144)"

definition ring_ok :: "rtp_buffer \<Rightarrow> bool" where
  "ring_ok rb \<longleftrightarrow> 0 \<le> rb_index rb \<and> rb_index rb < rb_bufLen rb \<and> int (length (rb_buffer rb)) = 1500 * rb_bufLen rb"

definition ready :: "'w push_session \<Rightarrow> bool" where
  "ready se \<longleftrightarrow> sr_sendCtx (cx_srtp (se_context se)) \<and> \<not> sr_rtpLock (cx_srtp (se_context se)) \<and>
     (\<forall>pub. se_push se = Some pub \<longrightarrow> pubnackbuffer_ok (ps_audio_queue pub) \<and> pubnackbuffer_ok (ps_video_queue pub))"

abbreviation sent :: "'w push_session \<Rightarrow> 'w" where "sent se \<equiv> cx_world (se_context se)"

definition sent_at :: "yang_buffer \<Rightarrow> u8 list" where
  "sent_at b = take (nat (yang_buffer_pos b)) (drop (nat (buf_data b)) (buf_mem b))"

lemma cache_ok:
  assumes "pubnackbuffer_ok (ps_audio_queue pub)" "pubnackbuffer_ok (ps_video_queue pub)"
  shows "\<exists>pub'. yang_rtcpush_cache_nack pub pkt p n = Some (Yang_Ok, pub')
     \<and> pubnackbuffer_ok (ps_audio_queue pub') \<and> pubnackbuffer_ok (ps_video_queue pub')"
proof -
  obtain q1 q2 where "yang_pubnackbuffer_set (ps_audio_queue pub) (sequence (pk_header pkt)) (Some p) n = Some q1"
    "pubnackbuffer_ok q1"
    "yang_pubnackbuffer_set (ps_video_queue pub) (sequence (pk_header pkt)) (Some p) n = Some q2" "pubnackbuffer_ok q2"
    using pubnackbuffer.put_law [OF assms(1), of "sequence (pk_header pkt)" "(p, n)"]
      pubnackbuffer.put_law [OF assms(2), of "sequence (pk_header pkt)" "(p, n)"] by auto
  with assms show ?thesis by (simp add: yang_rtcpush_cache_nack_def Let_def)
qed

lemma enc_rtp_log:
  assumes "sr_sendCtx srtp" "\<not> sr_rtpLock srtp" "trailer_ok P"
    and "0 \<le> p" "0 \<le> n" "p + n + 144 \<le> int (length m)"
  shows "\<exists>m'. yang_enc_rtp (log_net P t) w srtp m p n
       = Some (Yang_Ok, w, srtp, m', int (length (P (take (nat n) (drop (nat p) m)))))
     \<and> length m' = length m \<and> take (nat p) m' = take (nat p) m
     \<and> mem_read m' p (int (length (P (take (nat n) (drop (nat p) m))))) = Some (P (take (nat n) (drop (nat p) m)))"
proof -
  obtain i where i: "p = int i" using assms(4) by (metis nat_0_le)
  obtain j where j: "n = int j" using assms(5) by (metis nat_0_le)
  define x where "x = P (take j (drop i m))"
  have len: "i + j + 144 \<le> length m" using assms(6) by (simp add: i j)
  have "length x \<le> length (take j (drop i m)) + 144" using assms(3) unfolding trailer_ok_def x_def by blast
  with len have fit: "i + length x \<le> length m" by simp
  define m' where "m' = take i m @ x @ drop (i + length x) m"
  have "mem_read m p (int (length m) - p) = Some (drop i m)"
    using len by (auto simp: mem_read_def i)
  moreover have "mem_write m p (x @ drop (length x) (drop i m)) = Some m'"
    using fit len by (auto simp: mem_write_def i m'_def add.commute)
  ultimately have "protect_at (net_srtp_protect (log_net P t)) w m p n = Some (0, w, m', int (length x))"
    by (simp add: protect_at_def log_net_def Let_def j x_def)
  moreover have "srtp\<lparr>sr_rtpLock := True, sr_rtpLock := False\<rparr> = srtp" using assms(2) by simp
  moreover have "mem_read m' p (int (length x)) = Some x"
    using fit by (simp add: mem_read_def i m'_def)
  ultimately show ?thesis
    using assms(1,2) fit by (simp add: yang_enc_rtp_def i j m'_def flip: x_def)
qed

lemma send_avpacket_log:
  assumes "ready se" "trailer_ok P" "0 \<le> buf_data b" "buf_data b \<le> buf_head b"
    and "buf_head b + 144 \<le> int (length (buf_mem b))"
  shows "\<exists>push' b'. yang_send_avpacket (log_net P t) (se_context se) (se_push se) pkt b =
       Some (Yang_Ok, (se_context se)\<lparr>cx_world := sent se @ [P (sent_at b)]\<rparr>, push', b')
     \<and> length (buf_mem b') = length (buf_mem b)
     \<and> ready (se\<lparr>se_context := (se_context se)\<lparr>cx_world := sent se @ [P (sent_at b)]\<rparr>, se_push := push'\<rparr>)"
proof -
  let ?n = "yang_buffer_pos b"
  have n: "0 \<le> ?n" "buf_data b + ?n + 144 \<le> int (length (buf_mem b))"
    using assms(4,5) by (simp_all add: yang_buffer_pos_def)
  obtain push' where push: "(case se_push se of None \<Rightarrow> Some None
       | Some pub \<Rightarrow> map_option (Some \<circ> snd) (yang_rtcpush_cache_nack pub pkt (buf_data b) ?n)) = Some push'"
    "\<forall>pub. push' = Some pub \<longrightarrow> pubnackbuffer_ok (ps_audio_queue pub) \<and> pubnackbuffer_ok (ps_video_queue pub)"
  proof (cases "se_push se")
    case (Some pub)
    with assms(1) cache_ok [of pub pkt "buf_data b" ?n] that show ?thesis by (auto simp: ready_def)
  qed (use that in auto)
  from enc_rtp_log [OF _ _ assms(2,3) n, of "cx_srtp (se_context se)" t "sent se"] assms(1)
  obtain m' where "yang_enc_rtp (log_net P t) (sent se) (cx_srtp (se_context se)) (buf_mem b) (buf_data b) ?n
      = Some (Yang_Ok, sent se, cx_srtp (se_context se), m', int (length (P (sent_at b))))"
    "length m' = length (buf_mem b)" "mem_read m' (buf_data b) (int (length (P (sent_at b)))) = Some (P (sent_at b))"
    by (auto simp: ready_def sent_at_def)
  then show ?thesis using push assms(1)
    by (simp add: yang_send_avpacket_def udp_send_def log_net_def Let_def ready_def)
qed

lemma sent_at_put: "room b (length w) \<Longrightarrow> buf_head b = buf_data b \<Longrightarrow> sent_at (put b w) = w"
  by (auto simp: sent_at_def put_def room_def yang_buffer_pos_def)

text \<open>A packet whose header has no contributing sources, extensions or padding.\<close>

definition plain_header :: "rtp_header \<Rightarrow> bool" where
  "plain_header h \<longleftrightarrow> cc h = 0 \<and> extensions h = None \<and> padding_length h = 0"

lemma plain_wire_length: "plain_header h \<Longrightarrow> length (rtp_wire h) = 12"
  by (simp add: plain_header_def rtp_wire_def ext_on_def)

lemma next_slot:
  assumes "ring_ok rb"
  shows "\<exists>p rb'. yang_get_rtpBuffer rb = (p, rb') \<and> ring_ok rb' \<and> rb_buffer rb' = rb_buffer rb
     \<and> 0 \<le> p \<and> p + 1500 \<le> int (length (rb_buffer rb))"
  using assms by (auto simp: yang_get_rtpBuffer_def Let_def ring_ok_def)

lemma log_net_stats: "\<exists>send. yang_stats_on_pub_video_rtp (log_net P t) w st b = (w, send)"
proof -
  have "net_time (log_net P t) w = (t, w)" for w by (simp add: log_net_def Let_def)
  then show ?thesis by (simp add: yang_stats_on_pub_video_rtp_def Let_def)
qed

lemma encodeVideo_log:
  assumes "ready se" "trailer_ok P" "ring_ok (pu_videoRtpBuffer rtp)" "plain_header (pk_header pkt)"
    and "length w \<le> 1344"
    and "\<And>b. room b (length w) \<Longrightarrow> int (length w) \<le> yang_buffer_left b \<Longrightarrow>
            encode_payload f g rtp pkt b = Some (Yang_Ok, rtp', put b w)"
    and "pu_videoRtpBuffer rtp' = pu_videoRtpBuffer rtp"
  shows "\<exists>se' rb' b'. push_encodeVideo f g (log_net P t) se rtp pkt =
       Some (Yang_Ok, se', rtp'\<lparr>pu_buf := b', pu_videoRtpBuffer := rb'\<rparr>)
     \<and> sent se' = sent se @ [P (rtp_wire (pk_header pkt) @ w)] \<and> ready se' \<and> ring_ok rb'"
proof -
  obtain p rb where slot: "yang_get_rtpBuffer (pu_videoRtpBuffer rtp) = (p, rb)" "ring_ok rb"
    "0 \<le> p" "p + 1500 \<le> int (length (rb_buffer rb))"
    using next_slot [OF assms(3)] by auto
  let ?h = "pk_header pkt"
  let ?b0 = "yang_init_buffer (rb_buffer rb) p 1500"
  let ?b1 = "put ?b0 (rtp_wire ?h)"
  let ?b2 = "put ?b0 (rtp_wire ?h @ w)"
  note h = plain_wire_length [OF assms(4)]
  have r: "room ?b0 (length (rtp_wire ?h @ w))" "room ?b0 (length (rtp_wire ?h))" "yang_buffer_left ?b0 = 1500"
    using slot(3,4) assms(5) h by (simp_all add: room_def yang_init_buffer_def yang_buffer_left_def)
  have e1: "yang_encode_rtpHeader ?b0 ?h = Some (Yang_Ok, ?b1)"
    using assms(4) r h by (intro encode_rtpHeader_put) (simp_all add: plain_header_def)
  have e2: "encode_payload f g rtp pkt ?b1 = Some (Yang_Ok, rtp', ?b2)"
    using assms(5) r h assms(6) [of ?b1] by (simp add: wire_simps left_put)
  have e3: "push_padding pkt ?b2 = Some (Yang_Ok, ?b2)"
    using assms(4) by (simp add: push_padding_def plain_header_def)
  have len: "length (buf_mem ?b2) = length (rb_buffer rb)"
    using r by (simp add: wire_simps yang_init_buffer_def)
  let ?st = "cx_stats (se_context se)"
  obtain send where stats: "yang_stats_on_pub_video_rtp (log_net P t) (sent se) (sendStats ?st) ?b2 = (sent se, send)"
    using log_net_stats by blast
  let ?se = "se\<lparr>se_context := (se_context se)\<lparr>cx_stats := ?st\<lparr>sendStats := send\<rparr>\<rparr>\<rparr>"
  have "ready ?se" using assms(1) by (simp add: ready_def)
  moreover have "buf_head ?b2 + 144 \<le> int (length (buf_mem ?b2))" "0 \<le> buf_data ?b2" "buf_data ?b2 \<le> buf_head ?b2"
    using slot(3,4) len assms(5) h by (simp_all add: wire_simps yang_init_buffer_def)
  moreover have "sent_at ?b2 = rtp_wire ?h @ w"
    using r by (intro sent_at_put) (simp_all add: yang_init_buffer_def)
  ultimately obtain push' b' where s:
    "yang_send_avpacket (log_net P t) (se_context ?se) (se_push ?se) pkt ?b2 =
       Some (Yang_Ok, (se_context ?se)\<lparr>cx_world := sent se @ [P (rtp_wire ?h @ w)]\<rparr>, push', b')"
    "length (buf_mem b') = length (rb_buffer rb)"
    "ready (?se\<lparr>se_context := (se_context ?se)\<lparr>cx_world := sent se @ [P (rtp_wire ?h @ w)]\<rparr>, se_push := push'\<rparr>)"
    using send_avpacket_log [OF _ assms(2), of ?se ?b2 t pkt] len by auto
  then show ?thesis
    using slot(1,2) assms(7) stats
    by (auto simp: push_encodeVideo_def e1 e2 e3 Let_def note_video_def ring_ok_def ready_def)
qed

section \<open>Fragments of a frame\<close>

lemma mem_read_append:
  assumes "mem_read m p (int (length (xs @ ys))) = Some (xs @ ys)"
  shows "mem_read m p (int (length xs)) = Some xs" "mem_read m (p + int (length xs)) (int (length ys)) = Some ys"
proof -
  have "mem_read m p (int (length xs)) = Some xs \<and> mem_read m (p + int (length xs)) (int (length ys)) = Some ys"
  proof (cases "xs = [] \<or> ys = []")
    case False
    with assms have p: "0 \<le> p" "p + int (length xs) + int (length ys) \<le> int (length m)"
      and t: "take (length xs + length ys) (drop (nat p) m) = xs @ ys"
      by (auto simp: mem_read_def nat_add_distrib split: if_splits)
    from arg_cong [OF t, of "take (length xs)"] arg_cong [OF t, of "drop (length xs)"]
    have "take (length xs) (drop (nat p) m) = xs" "take (length ys) (drop (nat p + length xs) m) = ys"
      by (simp_all add: drop_take add.commute min_def split: if_splits)
    with p False show ?thesis by (auto simp: mem_read_def nat_add_distrib)
  next
    case True
    moreover have "mem_read m q 0 = Some []" for q by (simp add: mem_read_def)
    ultimately show ?thesis using assms by auto
  qed
  then show "mem_read m p (int (length xs)) = Some xs" "mem_read m (p + int (length xs)) (int (length ys)) = Some ys"
    by simp_all
qed

text \<open>Fragment \<open>j\<close> of \<open>n\<close> of an H.264 NAL unit with header byte \<open>h\<close>, as it is sent.\<close>

definition h264_fragment :: "u32 \<Rightarrow> u16 \<Rightarrow> int \<Rightarrow> u8 \<Rightarrow> nat \<Rightarrow> nat \<Rightarrow> u8 list \<Rightarrow> u8 list" where
  "h264_fragment src seq ts h n j c =
     rtp_wire (zero_header\<lparr>payload_type := 125, sequence := seq + word_of_nat j, timestamp := word_of_int ts,
                 ssrc := src, marker := (Suc j = n)\<rparr>)
     @ [28 OR (h AND NOT 0x1F), (h AND 0x1F) OR (if j = 0 then 0x80 else 0) OR (if Suc j = n then 0x40 else 0)] @ c"

definition push_ok :: "push_rtp \<Rightarrow> bool" where
  "push_ok rtp \<longleftrightarrow> ring_ok (pu_videoRtpBuffer rtp) \<and> length (pu_videoBuf rtp) = 1500"

lemma fragment_step:
  assumes "push_ok rtp" "ready se" "trailer_ok P" "length c \<le> 1300" "mem_read (fr_mem fr) p (int (length c)) = Some c"
    and "pu_videoSsrc rtp = src" "pu_videoSeq rtp = seq + word_of_nat j" "j < n"
  shows "\<exists>rtp1 se' rtp'. fragment rtp 125 fr h (h AND 0x1F) (int n) (int j) p (int (length c)) = Some rtp1
     \<and> yang_push_h264_encodeVideo (log_net P t) se rtp1 (pu_videoFuaPacket rtp1) = Some (Yang_Ok, se', rtp')
     \<and> sent se' = sent se @ [P (h264_fragment src seq (fr_pts fr) h n j c)]
     \<and> ready se' \<and> push_ok rtp' \<and> pu_videoSsrc rtp' = src \<and> pu_videoSeq rtp' = seq + word_of_nat (Suc j)"
proof -
  define buf where "buf = c @ drop (length c) (pu_videoBuf rtp)"
  have w: "mem_write (pu_videoBuf rtp) 0 c = Some buf"
    using assms(1,4) by (simp add: mem_write_def buf_def push_ok_def)
  have len: "length buf = 1500" using assms(1,4) by (simp add: buf_def push_ok_def)
  have last: "int j = int n - 1 \<longleftrightarrow> Suc j = n" using assms(8) by auto
  define d where "d = \<lparr>fu_start = (if j = 0 then 1 else 0), fu_end = (if Suc j = n then 1 else 0),
     fu_nri = h, fu_nalu_type = h AND 0x1F, fu_nb = int (length c), fu_mem = buf, fu_payload = 0\<rparr>"
  define pkt where "pkt = new_packet (pu_videoFuaPacket rtp) 125 src 9 (seq + word_of_nat j) (fr_pts fr) (Suc j = n) 1"
  define rtp1 where "rtp1 = rtp\<lparr>pu_videoFuaPacket := pkt, pu_videoSeq := seq + word_of_nat (Suc j), pu_videoBuf := buf,
    pu_videoFua2Data := d\<rparr>"
  have f: "fragment rtp 125 fr h (h AND 0x1F) (int n) (int j) p (int (length c)) = Some rtp1"
    using assms(5-7) w by (simp add: fragment_def rtp1_def pkt_def d_def last ac_simps)
  have hd: "pk_header pkt = zero_header\<lparr>payload_type := 125, sequence := seq + word_of_nat j,
      timestamp := word_of_int (fr_pts fr), ssrc := src, marker := (Suc j = n)\<rparr>" "pk_payload_type pkt = 1"
    by (simp_all add: pkt_def new_packet_def yang_reset_rtpPacket_def Let_def)
  have pl: "plain_header (pk_header pkt)" by (simp add: hd plain_header_def zero_header_def)
  have data: "mem_read (fu_mem d) (fu_payload d) (fu_nb d) = Some c" "fu_nb d = int (length c)"
    using len assms(4) by (auto simp: d_def mem_read_def buf_def)
  have enc: "encode_payload yang_encode_h264_fua2 yang_encode_h264_stap rtp1 pkt b = Some (Yang_Ok, rtp1, put b (fua2_wire d c))"
    if "room b (length (fua2_wire d c))" "int (length (fua2_wire d c)) \<le> yang_buffer_left b" for b
    using that encode_h264_fua2_put [OF data, of b] by (simp add: encode_payload_def hd rtp1_def fua2_wire_def)
  have "\<exists>se' rb' b'. push_encodeVideo yang_encode_h264_fua2 yang_encode_h264_stap (log_net P t) se rtp1 pkt =
       Some (Yang_Ok, se', rtp1\<lparr>pu_buf := b', pu_videoRtpBuffer := rb'\<rparr>)
     \<and> sent se' = sent se @ [P (rtp_wire (pk_header pkt) @ fua2_wire d c)] \<and> ready se' \<and> ring_ok rb'"
    by (rule encodeVideo_log [OF assms(2,3) _ pl _ enc])
      (use assms(1,4) in \<open>simp_all add: rtp1_def push_ok_def fua2_wire_def\<close>)
  moreover have "rtp_wire (pk_header pkt) @ fua2_wire d c = h264_fragment src seq (fr_pts fr) h n j c"
    by (simp add: hd h264_fragment_def fua2_wire_def d_def)
  moreover have "pu_videoFuaPacket rtp1 = pkt" by (simp add: rtp1_def)
  ultimately show ?thesis
    using f assms(6) len by (auto simp: yang_push_h264_encodeVideo_def push_ok_def rtp1_def)
qed

text \<open>A list of pieces: each but the last has 1300 bytes, the last at most so many.\<close>

definition pieces :: "u8 list list \<Rightarrow> bool" where
  "pieces cs \<longleftrightarrow> (\<forall>c\<in>set (butlast cs). length c = 1300) \<and> (cs \<noteq> [] \<longrightarrow> length (last cs) \<le> 1300)"

lemma pieces_Cons: "pieces (c # cs) \<longleftrightarrow> (if cs = [] then length c \<le> 1300 else length c = 1300 \<and> pieces cs)"
  by (auto simp: pieces_def)

lemma fu_a_loop_log:
  assumes "push_ok rtp" "ready se" "trailer_ok P" "pieces cs" "mem_read (fr_mem fr) p (int (length (concat cs))) = Some (concat cs)"
    and "pu_videoSsrc rtp = src" "pu_videoSeq rtp = seq + word_of_nat i" "i + length cs = n"
  shows "\<exists>se' rtp'. fu_a_loop (length cs) (yang_push_h264_encodeVideo (log_net P t)) 125 fr h (h AND 0x1F) 1300 (int n) (int i) p
       (int (length (concat cs))) se rtp = Some (Yang_Ok, se', rtp')
     \<and> sent se' = sent se @ map (\<lambda>(j, c). P (h264_fragment src seq (fr_pts fr) h n j c)) (enumerate i cs)
     \<and> ready se' \<and> push_ok rtp' \<and> pu_videoSeq rtp' = seq + word_of_nat n"
  using assms
proof (induction cs arbitrary: i p se rtp)
  case (Cons c cs)
  have c: "length c \<le> 1300" "min (int (length (concat (c # cs)))) 1300 = int (length c)"
    using Cons.prems(4) by (auto simp: pieces_Cons split: if_splits)
  have m: "mem_read (fr_mem fr) p (int (length c)) = Some c"
    "mem_read (fr_mem fr) (p + int (length c)) (int (length (concat cs))) = Some (concat cs)"
    using mem_read_append [of "fr_mem fr" p c "concat cs"] Cons.prems(5) by simp_all
  from fragment_step [OF Cons.prems(1-3) c(1) m(1) Cons.prems(6,7), of n h t] Cons.prems(8) obtain rtp1 se1 rtp2 where
    s: "fragment rtp 125 fr h (h AND 0x1F) (int n) (int i) p (int (length c)) = Some rtp1"
      "yang_push_h264_encodeVideo (log_net P t) se rtp1 (pu_videoFuaPacket rtp1) = Some (Yang_Ok, se1, rtp2)"
      "sent se1 = sent se @ [P (h264_fragment src seq (fr_pts fr) h n i c)]"
      "ready se1" "push_ok rtp2" "pu_videoSsrc rtp2 = src" "pu_videoSeq rtp2 = seq + word_of_nat (Suc i)"
    by auto
  have "pieces cs" using Cons.prems(4) by (auto simp: pieces_Cons pieces_def split: if_splits)
  from Cons.IH [OF s(5,4) Cons.prems(3) this m(2) s(6,7)] Cons.prems(8) obtain se' rtp' where
    r: "fu_a_loop (length cs) (yang_push_h264_encodeVideo (log_net P t)) 125 fr h (h AND 0x1F) 1300 (int n) (int (Suc i))
        (p + int (length c)) (int (length (concat cs))) se1 rtp2 = Some (Yang_Ok, se', rtp')"
      "sent se' = sent se1 @ map (\<lambda>(j, c). P (h264_fragment src seq (fr_pts fr) h n j c)) (enumerate (Suc i) cs)"
      "ready se'" "push_ok rtp'" "pu_videoSeq rtp' = seq + word_of_nat n"
    by auto
  have i: "int i + 1 = int (Suc i)" by simp
  have left: "int (length (concat (c # cs))) - int (length c) = int (length (concat cs))" by simp
  have "fu_a_loop (length (c # cs)) (yang_push_h264_encodeVideo (log_net P t)) 125 fr h (h AND 0x1F) 1300 (int n) (int i) p
       (int (length (concat (c # cs)))) se rtp = Some (Yang_Ok, se', rtp')"
    unfolding length_Cons fu_a_loop.simps Let_def c(2) s(1,2) i left by (simp add: s r del: of_nat_Suc)
  then show ?case using r(2-5) s(3) by (intro exI conjI) (assumption, simp_all)
qed (simp add: add.commute)

text \<open>The pieces of at most 1300 bytes a byte string is cut into.\<close>

function chunks :: "u8 list \<Rightarrow> u8 list list" where
  "chunks d = (if d = [] then [] else take 1300 d # chunks (drop 1300 d))"
  by pat_completeness auto
termination by (relation "measure length") auto

declare chunks.simps [simp del]

lemma chunks_Nil: "chunks [] = []"
  by (simp add: chunks.simps)

lemma chunks_Cons: "d \<noteq> [] \<Longrightarrow> chunks d = take 1300 d # chunks (drop 1300 d)"
  by (simp add: chunks.simps)

lemma concat_chunks: "concat (chunks d) = d"
proof (induction d rule: chunks.induct)
  case (1 d)
  then show ?case by (subst chunks.simps) simp
qed

lemma chunks_pieces: "pieces (chunks d)"
proof (induction d rule: chunks.induct)
  case (1 d)
  show ?case
  proof (cases "d = []")
    case False
    then have "length (take 1300 d) = 1300" if "drop 1300 d \<noteq> []" using that by simp
    moreover have "chunks (drop 1300 d) = [] \<longleftrightarrow> drop 1300 d = []"
      by (metis chunks_Nil chunks_Cons list.distinct(1))
    ultimately show ?thesis
      using False 1 by (auto simp: chunks_Cons [OF False] pieces_Cons)
  qed (simp add: chunks_Nil pieces_def)
qed

lemma length_chunks: "length (chunks d) = length d div 1300 + (if length d mod 1300 = 0 then 0 else 1)"
proof (induction d rule: chunks.induct)
  case (1 d)
  show ?case
  proof (cases "length d \<le> 1300")
    case True
    then show ?thesis
      by (cases "d = []"; cases "length d = 1300") (auto simp: chunks_Cons chunks_Nil)
  next
    case False
    then have "d \<noteq> []" by auto
    with 1 False show ?thesis by (auto simp: chunks_Cons le_div_geq le_mod_geq)
  qed
qed

lemma mem_read_1: "mem_read m p 1 = Some [h] \<Longrightarrow> mem_load m p = Some h"
  by (auto simp: mem_read_def mem_load_def take_Suc hd_drop_conv_nth split: if_splits)

lemma frame_read:
  assumes "mem_read m p n = Some (h # d)"
  shows "n = int (Suc (length d))" "mem_load m p = Some h" "mem_read m (p + 1) (int (length d)) = Some d"
proof -
  show n: "n = int (Suc (length d))"
    using arg_cong [OF assms, of "map_option length"] by (auto simp: mem_read_def min_def split: if_splits)
  from assms have "mem_read m p (int (length ([h] @ d))) = Some ([h] @ d)" by (simp add: n)
  from mem_read_append [OF this] show "mem_load m p = Some h" "mem_read m (p + 1) (int (length d)) = Some d"
    by (simp_all add: mem_read_1)
qed

lemma packet_count: "num_of_packet (1 + int k) 1300 = (if k mod 1300 = 0 then 0 else int (k div 1300) + 1)"
proof -
  have "int k smod 1300 = int (k mod 1300)" "int k sdiv 1300 = int (k div 1300)"
    by (simp_all add: signed_modulo_int_def signed_divide_int_def zmod_int zdiv_int sgn_if)
  then show ?thesis by (simp add: num_of_packet_def del: of_nat_mod of_nat_div)
qed

section \<open>Samples\<close>

definition sample_context :: "'w \<Rightarrow> 'w rtc_context" where
  "sample_context w =
     (let rs = \<lparr>rs_startSn = 0, rs_maxSn = 0, rs_cycleCount = 0, rs_lastSn = 0, rs_lastExpected = 0, rs_lastLost = 0,
                rs_rtpPacketCount = 0, rs_lastRtpPcackCount = 0, rs_rtt = 0, rs_totalRtt = 0, rs_fractionLost = 0,
                rs_reportsReceived = 0, rs_lostVideoPacketCount = 0, rs_preLostVideoPacketCount = 0\<rparr>;
          tr = \<lparr>tr_ssrc = 0, tr_rtxSsrc = 0, tr_fecSsrc = 0, tr_twccId = 0\<rparr>
      in \<lparr>cx_codec = Yang_VED_264, cx_audioSsrc = 1, cx_videoSsrc = 2, cx_state = 0, cx_twccId = - 1, cx_uid = 0,
          cx_streamOptType = Yang_Stream_Both, cx_audioSample = 48000, cx_enableAudioBuffer = 0,
          cx_srtp = \<lparr>sr_recvCtx = True, sr_sendCtx = True, sr_rtpLock = False, sr_rtcpLock = False\<rparr>,
          cx_audioTrack = tr, cx_videoTracks = yang_create_Vector tr,
          cx_bandwidth = \<lparr>bw_lastCheckSn = 0, bw_preCheckSn = 0, bw_lossPacketCount = 0, bw_request = Yang_Req_Connected,
            bw_lastPacketCount = 0, bw_lostRate = 0\<rparr>,
          cx_stats = \<lparr>sendStats = \<lparr>st_frameCount = 0, st_pliCount = 0, st_nackCount = 0, st_reSenndNackPacketCount = 0,
              st_videoRtpPacketCount = 0, st_videoRtpBytes = 0, st_audioRtpPacketCount = 0, st_audioRtpBytes = 0,
              st_preVideoRtpPacketCount = 0, st_preAudioRtpPacketCount = 0, st_lastVideoSendTime = 0,
              st_lastAudioSendTime = 0, st_audioStartTime = 0, st_videoStartTime = 0\<rparr>,
            recvStats = \<lparr>vs_audio = rs, vs_video = rs\<rparr>\<rparr>,
          cx_world = w\<rparr>)"

definition sample_session :: "'w \<Rightarrow> 'w push_session" where
  "sample_session w = \<lparr>se_context = sample_context w, se_push = Some (yang_create_rtcpush 1 2)\<rparr>"

definition sample_push :: push_rtp where
  "sample_push = yang_create_pushH264 (yang_create_rtpBuffer 4 1500) (yang_create_rtpBuffer 8 1500)"

definition sample_frame :: "u8 list \<Rightarrow> yang_frame" where
  "sample_frame bs = \<lparr>fr_mediaType = 0, fr_uid = 0, fr_frametype = 1, fr_nb = int (length bs), fr_pts = 90, fr_dts = 90,
     fr_mem = bs, fr_payload = 0\<rparr>"

lemma sample_ready: "ready (sample_session w)"
  by (simp add: ready_def sample_session_def sample_context_def Let_def yang_create_rtcpush_def pubnackbuffer_ok_def
      yang_create_pubNackbuffer_def)

lemma sample_push_ok: "push_ok sample_push"
  by (simp add: push_ok_def sample_push_def yang_create_pushH264_def create_push_def ring_ok_def yang_create_rtpBuffer_def)

section \<open>Frames as packets\<close>

text \<open>
  C36: an H.264 frame of more than 1300 bytes whose length without the header byte is not a multiple of 1300 is sent
  as fragments: the pieces concatenate to the frame without its header byte, the numbers are consecutive, the first
  fragment carries the start mark and the last the end mark and the marker bit. The state stays ready for the next
  frame.
\<close>
theorem h264_video_fragments:
  assumes "push_ok rtp" "ready se" "trailer_ok P"
    and "mem_read (fr_mem fr) (fr_payload fr) (fr_nb fr) = Some (h # d)" "1300 \<le> length d" "length d mod 1300 \<noteq> 0"
  shows "concat (chunks d) = d \<and>
    (\<exists>se' rtp'. yang_push_h264_video (log_net P t) se rtp fr = Some (Yang_Ok, se', rtp')
       \<and> sent se' = sent se @
           map (\<lambda>(j, c). P (h264_fragment (pu_videoSsrc rtp) (pu_videoSeq rtp) (fr_pts fr) h (length (chunks d)) j c))
             (enumerate 0 (chunks d))
       \<and> pu_videoSeq rtp' = pu_videoSeq rtp + word_of_nat (length (chunks d))
       \<and> push_ok rtp' \<and> ready se')"
proof -
  let ?n = "length (chunks d)"
  note f = frame_read [OF assms(4)]
  have n: "num_of_packet (1 + int (length d)) 1300 = int ?n"
    using assms(6) packet_count [of "length d"] by (simp add: length_chunks)
  from fu_a_loop_log [OF assms(1-3) chunks_pieces [of d], where fr = fr and
      p = "fr_payload fr + 1" and src = "pu_videoSsrc rtp" and seq = "pu_videoSeq rtp" and i = 0 and n = ?n and t = t and h = h]
  obtain se' rtp' where r: "fu_a_loop ?n (yang_push_h264_encodeVideo (log_net P t)) 125 fr h (h AND 0x1F) 1300 (int ?n) 0
        (fr_payload fr + 1) (int (length d)) se rtp = Some (Yang_Ok, se', rtp')"
      "sent se' = sent se @ map (\<lambda>(j, c). P (h264_fragment (pu_videoSsrc rtp) (pu_videoSeq rtp) (fr_pts fr) h ?n j c)) (enumerate 0 (chunks d))"
      "ready se'" "push_ok rtp'" "pu_videoSeq rtp' = pu_videoSeq rtp + word_of_nat ?n"
    using f(3) by (auto simp: concat_chunks)
  have "yang_push_h264_package_fu_a (log_net P t) se rtp fr 1300 = Some (Yang_Ok, se', rtp')"
    using r(1) f(1) by (simp add: yang_push_h264_package_fu_a_def f(2) n Let_def)
  moreover have "\<not> fr_nb fr \<le> 1300" using f(1) assms(5) by simp
  moreover have "sent (count_frame 0 se') = sent se'" "ready (count_frame 0 se') = ready se'"
    by (simp_all add: count_frame_def ready_def Let_def)
  ultimately show ?thesis
    using r(2-5) concat_chunks by (simp add: yang_push_h264_video_def)
qed

text \<open>
  An H.264 frame of 1 + 1300 k bytes, k at least 1, is silently dropped: the number of packets is computed as 0,
  nothing is sent, and the function counts the frame and reports success.
\<close>
theorem h264_frame_dropped:
  assumes "mem_read (fr_mem fr) (fr_payload fr) (fr_nb fr) = Some (h # d)" "1300 \<le> length d" "length d mod 1300 = 0"
  shows "yang_push_h264_video net se rtp fr = Some (Yang_Ok, count_frame 0 se, rtp)"
proof -
  note f = frame_read [OF assms(1)]
  have "num_of_packet (fr_nb fr) 1300 = 0"
    using assms(3) packet_count [of "length d"] f(1) by simp
  then show ?thesis
    using f(1,2) assms(2) by (simp add: yang_push_h264_video_def yang_push_h264_package_fu_a_def Let_def)
qed

theorem h264_video_fragments_witness:
  "concat (chunks (replicate 2000 7)) = replicate 2000 7 \<and>
    (\<exists>se' rtp'. yang_push_h264_video (log_net (\<lambda>x. x @ replicate 10 0) 5) (sample_session []) sample_push
        (sample_frame (0x65 # replicate 2000 7)) = Some (Yang_Ok, se', rtp')
       \<and> sent se' = sent (sample_session []) @
           map (\<lambda>(j, c). h264_fragment (pu_videoSsrc sample_push) (pu_videoSeq sample_push)
               (fr_pts (sample_frame (0x65 # replicate 2000 7))) 0x65 (length (chunks (replicate 2000 7))) j c @ replicate 10 0)
             (enumerate 0 (chunks (replicate 2000 7)))
       \<and> pu_videoSeq rtp' = pu_videoSeq sample_push + word_of_nat (length (chunks (replicate 2000 7)))
       \<and> push_ok rtp' \<and> ready se')"
  by (rule h264_video_fragments [OF sample_push_ok sample_ready])
    (simp_all add: trailer_ok_def sample_frame_def mem_read_def)

theorem h264_frame_dropped_witness:
  "yang_push_h264_video (log_net (\<lambda>x. x) 5) (sample_session []) sample_push (sample_frame (0x65 # replicate 2600 7))
    = Some (Yang_Ok, count_frame 0 (sample_session []), sample_push)"
  by (rule h264_frame_dropped [of _ "0x65" "replicate 2600 7"]) (simp_all add: sample_frame_def mem_read_def)

section \<open>Protection and the lock\<close>

lemma failed_protect_blocks:
  assumes "sr_sendCtx srtp" "sr_rtpLock srtp"
  shows "yang_enc_rtp net w srtp m p nb = None"
  using assms by (simp add: yang_enc_rtp_def)

text \<open>
  A NACK that asks for number 0 of the video stream before any packet was sent makes the fresh stream find an empty
  slot, whose number field is 0, and hand an empty packet to the library. The library rejects it (no packet is
  shorter than the RTP header), the lock stays held, and no packet can be sent any more.
\<close>
theorem nack_zero_blocks:
  assumes "sr_sendCtx (cx_srtp context)" "\<not> sr_rtpLock (cx_srtp context)"
    and "net_srtp_protect net (cx_world context) [] 0 = (r, w, [], nb)" "r \<noteq> 0"
    and "rc_nack rtcp = Some \<lparr>nk_mediaSsrc = v, nk_vsize = 1, nk_capacity = 50, nk_nacks = Some (0 # rest)\<rparr>" "v \<noteq> 0"
  shows "\<exists>context'. yang_rtcpush_on_rtcp_nack net context (yang_create_rtcpush a v) rings rtcp
       = Some (ERROR_RTC_SRTP_PROTECT, context', rings)
     \<and> (\<forall>push pkt b. yang_send_avpacket net context' push pkt b = None)"
proof -
  let ?c = "context\<lparr>cx_world := w, cx_srtp := (cx_srtp context)\<lparr>sr_rtpLock := True\<rparr>,
    cx_stats := (cx_stats context)\<lparr>sendStats := (sendStats (cx_stats context))\<lparr>st_nackCount := st_nackCount (sendStats (cx_stats context)) + 1\<rparr>\<rparr>\<rparr>"
  have slot: "yang_rtcpush_fetch_rtp_packet (ps_video_queue (yang_create_rtcpush a v)) 0
      = Some (Some \<lparr>ss_seq = 0, ss_nb = 0, ss_payload = None\<rparr>)"
    by (simp add: yang_rtcpush_fetch_rtp_packet_def yang_pubnackbuffer_at_def yang_create_rtcpush_def
        yang_create_pubNackbuffer_def pub_index_def mem_load_def)
  have "yang_rtcpush_on_rtcp_nack net context (yang_create_rtcpush a v) rings rtcp = Some (ERROR_RTC_SRTP_PROTECT, ?c, rings)"
  proof -
    have "mem_read (0 # rest) 0 1 = Some [0]" by (simp add: mem_read_def)
    then show ?thesis
    using assms slot
    by (simp add: yang_rtcpush_on_rtcp_nack_def yang_rtcpush_on_recv_nack_def yang_send_nackpacket_def
        yang_enc_rtp_def protect_at_def mem_read_def mem_write_def Let_def yang_create_rtcpush_def)
  qed
  moreover have "yang_send_avpacket net ?c push pkt b = None" for push pkt b
    using assms(1)
    by (cases push) (auto simp: yang_send_avpacket_def failed_protect_blocks split: Option.bind_splits)
  ultimately show ?thesis by blast
qed

text \<open>A library that rejects a packet without a full header, as libsrtp does.\<close>

definition strict_net :: "u8 list list rtc_net" where
  "strict_net = (log_net (\<lambda>x. x) 5)\<lparr>net_srtp_protect := (\<lambda>w m nb. if nb < 12 then (2, w, m, nb) else (0, w, m, nb))\<rparr>"

theorem nack_zero_blocks_witness:
  "\<exists>context'. yang_rtcpush_on_rtcp_nack strict_net (sample_context []) (yang_create_rtcpush 1 2)
       \<lparr>pr_audio = [], pr_video = []\<rparr> (zero_rtcp\<lparr>rc_nack := Some \<lparr>nk_mediaSsrc = 2, nk_vsize = 1, nk_capacity = 50, nk_nacks = Some [0]\<rparr>\<rparr>)
       = Some (ERROR_RTC_SRTP_PROTECT, context', \<lparr>pr_audio = [], pr_video = []\<rparr>)
     \<and> (\<forall>push pkt b. yang_send_avpacket strict_net context' push pkt b = None)"
  by (rule nack_zero_blocks [where r = 2 and w = "[]" and nb = 0])
    (simp_all add: strict_net_def sample_context_def Let_def zero_rtcp_def)

section \<open>Retransmission\<close>

lemma cache_nack_slot:
  assumes "pubnackbuffer_ok (ps_video_queue pub)" "pk_frame_type pkt \<noteq> 8"
    and "yang_rtcpush_cache_nack pub pkt p n = Some (Yang_Ok, pub')"
  shows "yang_pubnackbuffer_at (ps_video_queue pub') (sequence (pk_header pkt))
    = Some \<lparr>ss_seq = sequence (pk_header pkt), ss_nb = n, ss_payload = Some p\<rparr>"
  using assms pubnackbuffer.get_put [OF assms(1), of "sequence (pk_header pkt)" "(p, n)"]
  by (auto simp: yang_rtcpush_cache_nack_def Let_def split: Option.bind_splits)

text \<open>
  C38: a packet sent again is protected twice. The store of sent packets keeps the pointer to the ring slot that
  yang_send_avpacket then protects in place; so answering a NACK runs the cipher over the cipher text. When
  the cipher is its own inverse, as a key stream that is added (crypt) is, the retransmission carries the plain packet. That is the case of
  the code: yang_create_srtp chooses AES in counter mode, whose key stream depends on the header only, which it leaves as it is, and
  has the library accept a sequence number again (allow_repeat_tx).
\<close>
theorem resend_protects_again:
  assumes "sr_sendCtx (cx_srtp context)" "\<not> sr_rtpLock (cx_srtp context)" "trailer_ok P"
    and "pubnackbuffer_ok (ps_audio_queue pub)" "pubnackbuffer_ok (ps_video_queue pub)" "pk_frame_type pkt \<noteq> YangFrameTypeAudio"
    and "0 \<le> buf_data b" "buf_data b \<le> buf_head b" "buf_head b + 144 \<le> int (length (buf_mem b))"
    and "\<And>x. take (length x) (P x) = crypt x \<and> length (crypt x) = length x \<and> crypt (crypt x) = x"
    and "nk_nacks nack = Some (sequence (pk_header pkt) # rest)" "nk_vsize nack = 1"
  shows "\<exists>context1 pub1 b1 context2 ring.
    yang_send_avpacket (log_net P t) context (Some pub) pkt b = Some (Yang_Ok, context1, Some pub1, b1)
    \<and> cx_world context1 = cx_world context @ [P (sent_at b)]
    \<and> yang_rtcpush_on_recv_nack (log_net P t) context1 (ps_video_queue pub1) (buf_mem b1) nack = Some (Yang_Ok, context2, ring)
    \<and> cx_world context2 = cx_world context1 @ [P (crypt (sent_at b))]
    \<and> take (length (sent_at b)) (P (crypt (sent_at b))) = sent_at b"
proof -
  let ?n = "yang_buffer_pos b" and ?x = "sent_at b" and ?seq = "sequence (pk_header pkt)"
  have n: "0 \<le> ?n" "buf_data b + ?n + 144 \<le> int (length (buf_mem b))"
    using assms(8,9) by (simp_all add: yang_buffer_pos_def)
  have len: "int (length ?x) = ?n" using assms(7) n by (simp add: sent_at_def)
  have Px: "length ?x \<le> length (P ?x)" "take (length ?x) (P ?x) = crypt ?x"
    using assms(10) [of ?x] by (metis length_take min.absorb_iff1 min.commute nat_le_linear) (use assms(10) in blast)
  obtain pub1 where pub1: "yang_rtcpush_cache_nack pub pkt (buf_data b) ?n = Some (Yang_Ok, pub1)"
    using cache_ok [OF assms(4,5)] by blast
  from enc_rtp_log [OF assms(1-3,7) n, of t "cx_world context"] obtain m where m:
    "yang_enc_rtp (log_net P t) (cx_world context) (cx_srtp context) (buf_mem b) (buf_data b) ?n
      = Some (Yang_Ok, cx_world context, cx_srtp context, m, int (length (P ?x)))"
    "length m = length (buf_mem b)" "mem_read m (buf_data b) (int (length (P ?x))) = Some (P ?x)"
    by (auto simp: sent_at_def)
  define context1 where "context1 = context\<lparr>cx_world := cx_world context @ [P ?x]\<rparr>"
  have s1: "yang_send_avpacket (log_net P t) context (Some pub) pkt b
      = Some (Yang_Ok, context1, Some pub1, b\<lparr>buf_mem := m\<rparr>)"
    using m by (simp add: yang_send_avpacket_def pub1 Let_def udp_send_def log_send context1_def)
  have slot: "yang_rtcpush_fetch_rtp_packet (ps_video_queue pub1) ?seq
      = Some (Some \<lparr>ss_seq = ?seq, ss_nb = ?n, ss_payload = Some (buf_data b)\<rparr>)"
    using cache_nack_slot [OF assms(5) _ pub1] assms(6) by (simp add: yang_rtcpush_fetch_rtp_packet_def)
  have body: "take (nat ?n) (drop (nat (buf_data b)) m) = crypt ?x"
  proof -
    have "take (length (P ?x)) (drop (nat (buf_data b)) m) = P ?x"
      using m(3) by (auto simp: mem_read_def split: if_splits)
    from arg_cong [OF this, of "take (length ?x)"] show ?thesis
      using Px len by (simp add: min_def) (metis nat_int)
  qed
  define context1' where "context1' = context1\<lparr>cx_stats := (cx_stats context1)\<lparr>sendStats := (sendStats (cx_stats context1))
     \<lparr>st_nackCount := st_nackCount (sendStats (cx_stats context1)) + 1\<rparr>\<rparr>\<rparr>"
  from enc_rtp_log [of "cx_srtp context1'" P "buf_data b" ?n m t "cx_world context1'"] assms(1-3,7) n m(2) body
  obtain m2 where m2: "yang_enc_rtp (log_net P t) (cx_world context1') (cx_srtp context1') m (buf_data b) ?n
      = Some (Yang_Ok, cx_world context1', cx_srtp context1', m2, int (length (P (crypt ?x))))"
    "mem_read m2 (buf_data b) (int (length (P (crypt ?x)))) = Some (P (crypt ?x))"
    by (auto simp: context1'_def context1_def)
  have same: "cx_world context1' = cx_world context1" "cx_srtp context1' = cx_srtp context1"
    by (simp_all add: context1'_def)
  have "mem_read (?seq # rest) 0 1 = Some [?seq]" by (simp add: mem_read_def)
  then have s2: "yang_rtcpush_on_recv_nack (log_net P t) context1 (ps_video_queue pub1) m nack
      = Some (Yang_Ok, context1'\<lparr>cx_world := cx_world context1 @ [P (crypt ?x)]\<rparr>, m2)"
    using assms(11,12) m2 [unfolded same]
    by (simp add: yang_rtcpush_on_recv_nack_def slot yang_send_nackpacket_def Let_def udp_send_def log_send)
      (simp add: context1'_def)
  moreover have "take (length ?x) (P (crypt ?x)) = ?x"
    using assms(10) [of "crypt ?x"] assms(10) [of ?x] by simp
  ultimately show ?thesis
    using s1 by (intro exI conjI) (assumption | simp add: context1_def context1'_def)+
qed

definition masked :: "u8 list \<Rightarrow> u8 list" where
  "masked x = map (\<lambda>b. b XOR 0x55) x @ replicate 10 0"

theorem resend_protects_again_witness:
  "\<exists>context1 pub1 b1 context2 ring.
    yang_send_avpacket (log_net masked 5) (sample_context []) (Some (yang_create_rtcpush 1 2)) (pu_videoFuaPacket sample_push)
        \<lparr>buf_mem = [1, 2, 3] @ replicate 1497 0, buf_data = 0, buf_head = 3, buf_size = 1500\<rparr>
      = Some (Yang_Ok, context1, Some pub1, b1)
    \<and> cx_world context1 = cx_world (sample_context []) @
        [masked (sent_at \<lparr>buf_mem = [1, 2, 3] @ replicate 1497 0, buf_data = 0, buf_head = 3, buf_size = 1500\<rparr>)]
    \<and> yang_rtcpush_on_recv_nack (log_net masked 5) context1 (ps_video_queue pub1) (buf_mem b1)
        \<lparr>nk_mediaSsrc = 2, nk_vsize = 1, nk_capacity = 50, nk_nacks = Some [sequence (pk_header (pu_videoFuaPacket sample_push))]\<rparr>
      = Some (Yang_Ok, context2, ring)
    \<and> cx_world context2 = cx_world context1 @ [masked (map (\<lambda>b. b XOR 0x55) (sent_at
        \<lparr>buf_mem = [1, 2, 3] @ replicate 1497 0, buf_data = 0, buf_head = 3, buf_size = 1500\<rparr>))]
    \<and> take (length (sent_at \<lparr>buf_mem = [1, 2, 3] @ replicate 1497 0, buf_data = 0, buf_head = 3, buf_size = 1500\<rparr>))
        (masked (map (\<lambda>b. b XOR 0x55) (sent_at \<lparr>buf_mem = [1, 2, 3] @ replicate 1497 0, buf_data = 0, buf_head = 3, buf_size = 1500\<rparr>)))
      = sent_at \<lparr>buf_mem = [1, 2, 3] @ replicate 1497 0, buf_data = 0, buf_head = 3, buf_size = 1500\<rparr>"
  by (rule resend_protects_again [where rest = "[]"])
    (simp_all add: sample_context_def Let_def trailer_ok_def masked_def yang_create_rtcpush_def pubnackbuffer_ok_def
      yang_create_pubNackbuffer_def sample_push_def yang_create_pushH264_def create_push_def zero_packet_def o_def xor.assoc)

end
