(* ===== verification/Rtc_Loss.thy ===== *)
theory Rtc_Loss
  imports Rtc_Context
begin

text \<open>
  What the receive statistics of \<open>YangRtcStats.c\<close> count. The packets of a stream are given by their extended
  numbers, natural numbers whose low 16 bits are in the packet; the statistics recover the extended number as long as
  packets arrive in order with small gaps. The fraction of lost packets, in contrast, is not computed.
\<close>

section \<open>Counting\<close>

definition zero_recv :: remote_recv_stats where
  "zero_recv = \<lparr>rs_startSn = 0, rs_maxSn = 0, rs_cycleCount = 0, rs_lastSn = 0, rs_lastExpected = 0, rs_lastLost = 0,
     rs_rtpPacketCount = 0, rs_lastRtpPcackCount = 0, rs_rtt = 0, rs_totalRtt = 0, rs_fractionLost = 0,
     rs_reportsReceived = 0, rs_lostVideoPacketCount = 0, rs_preLostVideoPacketCount = 0\<rparr>"

definition on_play_all :: "remote_recv_stats \<Rightarrow> nat list \<Rightarrow> remote_recv_stats" where
  "on_play_all st xs = foldl (\<lambda>st x. yang_stats_on_play_rtp st (word_of_nat x)) st xs"

text \<open>Numbers that rise by at most seven.\<close>

primrec close_after :: "nat \<Rightarrow> nat list \<Rightarrow> bool" where
  "close_after x [] \<longleftrightarrow> True"
| "close_after x (y # ys) \<longleftrightarrow> x < y \<and> y \<le> x + 7 \<and> close_after y ys"

text \<open>After \<open>n\<close> packets from \<open>x\<close> to \<open>q * 65536 + r\<close>.\<close>

definition counted :: "nat \<Rightarrow> nat \<Rightarrow> nat \<Rightarrow> nat \<Rightarrow> remote_recv_stats \<Rightarrow> bool" where
  "counted x q r n st \<longleftrightarrow> unat (rs_startSn st) = x \<and> unat (rs_maxSn st) = r \<and> rs_lastSn st = rs_maxSn st \<and>
     unat (rs_cycleCount st) = q \<and> unat (rs_rtpPacketCount st) = n \<and> 0 < n \<and> x + n \<le> q * 65536 + r + 1 \<and>
     (0 < q \<longrightarrow> unat (rs_lastRtpPcackCount st) \<le> n \<and> r \<le> 7 * (n - unat (rs_lastRtpPcackCount st)))"

lemma u16_of_nat: "unat (word_of_nat y :: u16) = y mod 65536"
  by (simp add: unat_of_nat take_bit_eq_mod)

lemma counted_first: "x < 65536 \<Longrightarrow> counted x 0 x 1 (yang_stats_on_play_rtp zero_recv (word_of_nat x))"
  by (auto simp: counted_def yang_stats_on_play_rtp_def zero_recv_def Let_def word_less_nat_alt u16_of_nat)

lemma word_zero_iff: "(w :: 'a::len word) = 0 \<longleftrightarrow> unat w = 0"
  by (simp add: unat_eq_zero)

lemma count_up: "unat (w :: u64) = n \<Longrightarrow> n < 2 ^ 48 \<Longrightarrow> unat (w + 1) = Suc n"
  by (simp add: unat_word_ariths)

lemma cycle_up: "unat (w :: u16) = n \<Longrightarrow> n < 2 ^ 15 \<Longrightarrow> unat (w + 1) = Suc n"
  by (simp add: unat_word_ariths)

lemma counted_same_cycle:
  assumes "counted x q r n st" "r < r'" "r' \<le> r + 7" "r' < 65536" "q < 2 ^ 15" "unat seq = r'"
  shows "counted x q r' (Suc n) (yang_stats_on_play_rtp st seq)"
proof -
  from assms(1) have c: "unat (rs_startSn st) = x" "unat (rs_maxSn st) = r" "rs_lastSn st = rs_maxSn st"
     "unat (rs_cycleCount st) = q" "unat (rs_rtpPacketCount st) = n" "0 < n" "x + n \<le> q * 65536 + r + 1"
     "0 < q \<Longrightarrow> unat (rs_lastRtpPcackCount st) \<le> n" "0 < q \<Longrightarrow> r \<le> 7 * (n - unat (rs_lastRtpPcackCount st))"
    by (simp_all add: counted_def)
  have n: "n < 2 ^ 48" using c(7) assms(2,4,5) by simp
  have "\<not> rs_lastSn st > 0xFF00 \<or> \<not> seq < 0xFF" using c assms(2,6) by (simp add: word_less_nat_alt)
  moreover have "rs_maxSn st < seq" using c assms(2,6) by (simp add: word_less_nat_alt)
  moreover have "rs_rtpPacketCount st \<noteq> 0" using c by (simp add: word_zero_iff)
  moreover have "\<not> (rs_cycleCount st = 0 \<and> seq < rs_startSn st)"
    using c assms(2,6) by (auto simp: word_less_nat_alt word_zero_iff)
  ultimately have "yang_stats_on_play_rtp st seq = st\<lparr>rs_maxSn := seq, rs_lastSn := seq,
      rs_rtpPacketCount := rs_rtpPacketCount st + 1\<rparr>"
    by (auto simp: yang_stats_on_play_rtp_def Let_def)
  moreover have "0 < q \<Longrightarrow> unat (rs_lastRtpPcackCount st) \<le> Suc n" using c(8) by simp
  moreover have "0 < q \<Longrightarrow> r' \<le> 7 * (Suc n - unat (rs_lastRtpPcackCount st))" using c(8,9) assms(3) by linarith
  ultimately show ?thesis
    using c(1-7) assms(2,6) count_up [OF c(5) n] by (simp add: counted_def)
qed

lemma counted_next_cycle:
  assumes "counted x q r n st" "65529 \<le> r" "r' \<le> 6" "r < 65536" "q < 2 ^ 15 - 1" "unat seq = r'"
  shows "counted x (Suc q) r' (Suc n) (yang_stats_on_play_rtp st seq)"
proof -
  from assms(1) have c: "unat (rs_startSn st) = x" "unat (rs_maxSn st) = r" "rs_lastSn st = rs_maxSn st"
     "unat (rs_cycleCount st) = q" "unat (rs_rtpPacketCount st) = n" "0 < n" "x + n \<le> q * 65536 + r + 1"
     "0 < q \<Longrightarrow> unat (rs_lastRtpPcackCount st) \<le> n" "0 < q \<Longrightarrow> r \<le> 7 * (n - unat (rs_lastRtpPcackCount st))"
    by (simp_all add: counted_def)
  have n: "n < 2 ^ 48" using c(7) assms(4,5) by simp
  have cyc: "rs_cycleCount st = 0 \<or> rs_rtpPacketCount st - rs_lastRtpPcackCount st > 0x1FFF"
  proof (cases "q = 0")
    case True
    then show ?thesis using c(4) by (simp add: word_zero_iff)
  next
    case False
    then have "unat (rs_rtpPacketCount st - rs_lastRtpPcackCount st) = n - unat (rs_lastRtpPcackCount st)"
      using c(5,8) by (simp add: unat_sub word_le_nat_alt)
    then show ?thesis using False c(9) assms(2) by (simp add: word_less_nat_alt)
  qed
  have u: "unat (rs_cycleCount st + 1) = Suc q" using c(4) assms(5) by (intro cycle_up) simp_all
  then have "rs_cycleCount st + 1 \<noteq> 0" by (simp add: word_zero_iff del: unat_eq_zero)
  moreover have "rs_lastSn st > 0xFF00" "seq < 0xFF" using c assms(2,3,6) by (simp_all add: word_less_nat_alt)
  moreover have "rs_rtpPacketCount st \<noteq> 0" using c by (simp add: word_zero_iff)
  ultimately have "yang_stats_on_play_rtp st seq = st\<lparr>rs_cycleCount := rs_cycleCount st + 1,
      rs_lastRtpPcackCount := rs_rtpPacketCount st, rs_maxSn := seq, rs_lastSn := seq,
      rs_rtpPacketCount := rs_rtpPacketCount st + 1\<rparr>"
    using cyc by (auto simp: yang_stats_on_play_rtp_def Let_def)
  then show ?thesis
    using c(1-7) assms(2-4,6) u count_up [OF c(5) n] by (simp add: counted_def)
qed

lemma counted_step:
  assumes "counted x (y div 65536) (y mod 65536) n st" "y < z" "z \<le> y + 7" "z < 2 ^ 31"
  shows "counted x (z div 65536) (z mod 65536) (Suc n) (yang_stats_on_play_rtp st (word_of_nat z))"
proof -
  obtain q r q' r' where qr: "q = y div 65536" "r = y mod 65536" "q' = z div 65536" "r' = z mod 65536" by simp
  have "q * 65536 + r = y" "q' * 65536 + r' = z" "r < 65536" "r' < 65536" "q' < 2 ^ 15"
    using assms(4) by (simp_all add: qr div_less_iff_less_mult)
  note f = this u16_of_nat [of z, folded qr] assms(1) [folded qr]
  consider "q' = q" | "q' = Suc q" using f assms(2,3) by linarith
  then show ?thesis
  proof cases
    case 1
    then have "r < r'" "r' \<le> r + 7" using f assms(2,3) by linarith+
    with 1 f show ?thesis by (auto simp flip: qr intro: counted_same_cycle)
  next
    case 2
    then have "65529 \<le> r" "r' \<le> 6" "q < 2 ^ 15 - 1" using f assms(2,3) by linarith+
    with 2 f show ?thesis by (auto simp flip: qr intro: counted_next_cycle)
  qed
qed

lemma counted_all:
  assumes "counted x (y div 65536) (y mod 65536) n st" "close_after y ys" "last (y # ys) < 2 ^ 31"
  shows "counted x (last (y # ys) div 65536) (last (y # ys) mod 65536) (n + length ys) (on_play_all st ys)"
  using assms
proof (induction ys arbitrary: y n st)
  case (Cons z zs)
  have "z \<le> last (z # zs)" if "close_after z zs" for z zs
    using that by (induction zs arbitrary: z) (auto, fastforce)
  with Cons.prems have "z < 2 ^ 31" by fastforce
  with Cons.prems have "counted x (z div 65536) (z mod 65536) (Suc n) (yang_stats_on_play_rtp st (word_of_nat z))"
    by (intro counted_step) auto
  from Cons.IH [OF this] Cons.prems show ?case by (simp add: on_play_all_def)
qed (simp add: on_play_all_def)

lemma counted_expected:
  assumes "counted x q r n st" "q < 2 ^ 15" "q * 65536 + r < 2 ^ 31 - 1"
  shows "expected_packets st = Some (int (q * 65536 + r) - int x + 1)"
proof -
  have "uint (rs_cycleCount st) = int q" "uint (rs_maxSn st) = int r" "uint (rs_startSn st) = int x"
    using assms(1) unfolding counted_def uint_nat by simp_all
  moreover have "int q * 65536 + int r < 0x7FFFFFFF" using assms(3) by simp
  ultimately show ?thesis using assms(2) by (simp add: expected_packets_def)
qed

lemma close_after_le: "close_after x ys \<Longrightarrow> x + length ys \<le> last (x # ys)"
  by (induction ys arbitrary: x) (auto, fastforce+)

lemma received_all:
  assumes "x < 65536" "close_after x ys" "last (x # ys) < 2 ^ 31 - 1"
  shows "counted x (last (x # ys) div 65536) (last (x # ys) mod 65536) (Suc (length ys)) (on_play_all zero_recv (x # ys))"
    and "expected_packets (on_play_all zero_recv (x # ys)) = Some (int (last (x # ys)) - int x + 1)"
proof -
  have "counted x (x div 65536) (x mod 65536) 1 (yang_stats_on_play_rtp zero_recv (word_of_nat x))"
    using counted_first [OF assms(1)] assms(1) by simp
  from counted_all [OF this assms(2)] assms(3)
  show c: "counted x (last (x # ys) div 65536) (last (x # ys) mod 65536) (Suc (length ys)) (on_play_all zero_recv (x # ys))"
    by (simp add: on_play_all_def)
  from counted_expected [OF c] assms(3)
  show "expected_packets (on_play_all zero_recv (x # ys)) = Some (int (last (x # ys)) - int x + 1)"
    by (simp add: div_less_iff_less_mult del: of_nat_add of_nat_mult)
qed

lemma ucast_of_nat:
  "(ucast (word_of_nat k :: u64) :: u32) = word_of_nat k" "(ucast (word_of_nat k :: u32) :: u8) = word_of_nat k"
  by (simp_all add: unsigned_of_nat word_of_nat_eq_iff)

lemma lost_count:
  assumes "expected_packets st = Some (int e)" "unat (rs_rtpPacketCount st) + k = e" "e < 2 ^ 31"
  shows "yang_stats_getLostCount st = Some (word_of_nat k)"
proof -
  have "rs_rtpPacketCount st = word_of_nat (unat (rs_rtpPacketCount st))" by simp
  then have "word_of_int (int e) - rs_rtpPacketCount st = word_of_nat k"
    by (metis assms(2) add_diff_cancel_left' of_nat_add of_int_of_nat_eq)
  moreover have "sint (word_of_nat k :: u64) = int k"
    using assms(2,3) by (simp add: sint_uint unsigned_of_nat take_bit_nat_eq_self signed_take_bit_int_eq_self)
  ultimately show ?thesis by (cases "k = 0") (simp_all add: yang_stats_getLostCount_def assms(1))
qed

section \<open>Properties\<close>

text \<open>
  C37: the receive statistics count the lost packets of a stream exactly. When the extended numbers of the packets that
  arrive rise by at most seven, over as many wrap-arounds of the 16-bit number as fit into 31 bits, the lost count is
  the number of numbers that were skipped.
\<close>
theorem lost_count_exact:
  assumes "x < 65536" "close_after x ys" "last (x # ys) < 2 ^ 31 - 1"
  shows "yang_stats_getLostCount (on_play_all zero_recv (x # ys)) = Some (word_of_nat (last (x # ys) - x - length ys))"
proof (rule lost_count)
  note r = received_all [OF assms]
  note l = close_after_le [OF assms(2)]
  show "expected_packets (on_play_all zero_recv (x # ys)) = Some (int (last (x # ys) - x + 1))"
    using r(2) l by simp
  show "unat (rs_rtpPacketCount (on_play_all zero_recv (x # ys))) + (last (x # ys) - x - length ys) = last (x # ys) - x + 1"
    using r(1) l by (simp add: counted_def)
  show "last (x # ys) - x + 1 < 2 ^ 31" using assms(3) by simp
qed

text \<open>
  The loss fraction of a receiver report is not a fraction. The code shifts the number of lost packets by
  8 / expected_interval; with more than eight packets expected that shift is by 0, so the first report carries the low
  byte of the number of lost packets, whatever the number of packets was.
\<close>
theorem fraction_lost_is_count:
  assumes "x < 65536" "close_after x ys" "last (x # ys) < 2 ^ 31 - 1" "x + 8 \<le> last (x # ys)"
  shows "\<exists>st. yang_stats_getFractionLost (on_play_all zero_recv (x # ys))
    = Some (word_of_nat (last (x # ys) - x - length ys), st)"
proof -
  let ?st = "on_play_all zero_recv (x # ys)" and ?e = "last (x # ys) - x + 1" and ?k = "last (x # ys) - x - length ys"
  note r = received_all [OF assms(1-3)]
  note l = close_after_le [OF assms(2)]
  have e: "expected_packets ?st = Some (int ?e)" using r(2) l by simp
  have keep: "rs_lastExpected (on_play_all st zs) = rs_lastExpected st \<and> rs_lastLost (on_play_all st zs) = rs_lastLost st" for st zs
    by (induction zs arbitrary: st) (auto simp: on_play_all_def yang_stats_on_play_rtp_def Let_def)
  then have z: "rs_lastExpected ?st = 0" "rs_lastLost ?st = 0" by (simp_all add: zero_recv_def)
  let ?st' = "?st\<lparr>rs_lastExpected := word_of_int (int ?e)\<rparr>"
  have i: "yang_stats_getExpectedPacketsInterval ?st = Some (int ?e, ?st')"
    using e z assms(3) by (simp add: yang_stats_getExpectedPacketsInterval_def signed_take_bit_int_eq_self del: of_nat_Suc of_nat_add)
  have "expected_packets ?st' = Some (int ?e)" using e by (simp add: expected_packets_def)
  moreover have "unat (rs_rtpPacketCount ?st') + ?k = ?e" using r(1) l by (simp add: counted_def)
  ultimately have "yang_stats_getLostCount ?st' = Some (word_of_nat ?k)"
    using assms(3) by (intro lost_count) auto
  then obtain st where "yang_stats_geLostInterval ?st' = Some (word_of_nat ?k, st)"
    using z by (simp add: yang_stats_geLostInterval_def Let_def ucast_of_nat)
  moreover have "int ?e > 8" using assms(4) by simp
  then have "8 sdiv int ?e = 0" by (simp add: signed_divide_int_def)
  ultimately show ?thesis using i assms(4)
    by (simp add: yang_stats_getFractionLost_def ucast_of_nat)
qed

theorem lost_count_exact_witness:
  "yang_stats_getLostCount (on_play_all zero_recv (65530 # [65532, 65535, 65537, 65544]))
    = Some (word_of_nat (last (65530 # [65532, 65535, 65537, 65544]) - 65530 - length [65532, 65535, 65537, 65544 :: nat]))"
  by (rule lost_count_exact) simp_all

theorem fraction_lost_is_count_witness:
  "\<exists>st. yang_stats_getFractionLost (on_play_all zero_recv (65530 # [65532, 65535, 65537, 65544]))
    = Some (word_of_nat (last (65530 # [65532, 65535, 65537, 65544]) - 65530 - length [65532, 65535, 65537, 65544 :: nat]), st)"
  by (rule fraction_lost_is_count) simp_all

end
