(* ===== verification/Nalu.thy ===== *)
theory Nalu
  imports Video_Meta
begin

text \<open>
  NAL units with length prefixes: \<open>yangavutil/YangNalu.c\<close>. A frame is a sequence of units, each after four bytes
  of big-endian length; the functions look for the parameter sets and the key frame in it.

  The positions are \<open>int32_t\<close> and the lengths \<open>uint32_t\<close>. Frames have at most 2^20 bytes (the callers check), so the
  sums do not wrap; they are computed as integers.
\<close>

section \<open>Units with a length prefix\<close>

abbreviation (input) YangAvcNaluTypeNonIDR :: u8 where "YangAvcNaluTypeNonIDR \<equiv> 1"
abbreviation (input) YangAvcNaluTypeIDR :: u8 where "YangAvcNaluTypeIDR \<equiv> 5"
abbreviation (input) YANG_NAL_UNIT_CODED_SLICE_BLA :: u8 where "YANG_NAL_UNIT_CODED_SLICE_BLA \<equiv> 16"
abbreviation (input) YANG_NAL_UNIT_CODED_SLICE_CRA :: u8 where "YANG_NAL_UNIT_CODED_SLICE_CRA \<equiv> 21"
abbreviation (input) Yang_Nalu_SpsppsBufferLen :: int where "Yang_Nalu_SpsppsBufferLen \<equiv> 256"

lemma unit_length: "- uint (n :: u32) < 4"
  using uint_nonnegative [of n] by linarith

text \<open>
  The loop that finds the key frame: the frame starts at \<open>p\<close> and has \<open>len\<close> bytes. The first byte of a unit is read
  before its length is looked at.
\<close>

function keyframe_loop :: "u8 list \<Rightarrow> int \<Rightarrow> int \<Rightarrow> int \<Rightarrow> int option option" where
  "keyframe_loop m p len pos =
     (if \<not> pos < len then Some None
      else case mem_load m (p + pos + 4) of
        None \<Rightarrow> None
      | Some v \<Rightarrow>
          if v AND kNalTypeMask = YangAvcNaluTypeIDR then Some (Some pos)
          else case yang_get_be32 m (p + pos) of
            None \<Rightarrow> None
          | Some n \<Rightarrow> if uint n > len then Some None else keyframe_loop m p len (pos + uint n + 4))"
  by pat_completeness auto
termination
  by (relation "measure (\<lambda>(m, p, len, pos). nat (len - pos))") (auto simp: unit_length)

declare keyframe_loop.simps [simp del]

definition yang_getH264KeyframeNalu :: "yang_frame \<Rightarrow> (errcode \<times> yang_frame) option" where
  "yang_getH264KeyframeNalu fr = do {
     r \<leftarrow> keyframe_loop (fr_mem fr) (fr_payload fr) (fr_nb fr) 0;
     Some (case r of
             None \<Rightarrow> (1, fr)
           | Some pos \<Rightarrow> (Yang_Ok, fr\<lparr>fr_payload := fr_payload fr + pos, fr_nb := fr_nb fr - pos\<rparr>))
   }"

definition yang_hasH264Pframe :: "u8 list \<Rightarrow> int \<Rightarrow> bool option" where
  "yang_hasH264Pframe m p = do {
     v \<leftarrow> mem_load m (p + 4);
     Some (v AND kNalTypeMask = YangAvcNaluTypeNonIDR)
   }"

record nalu_data =
  nd_spsppsPos :: int
  nd_keyframePos :: int

text \<open>The loop of both parsers; \<open>key\<close> and \<open>param\<close> are the tests on the first byte of a unit.\<close>

function parse_loop ::
    "(u8 \<Rightarrow> bool) \<Rightarrow> (u8 \<Rightarrow> bool) \<Rightarrow> u8 list \<Rightarrow> int \<Rightarrow> int \<Rightarrow> int \<Rightarrow> nalu_data \<Rightarrow> nalu_data option" where
  "parse_loop key param m p len pos nd =
     (if \<not> pos < len then Some nd
      else case mem_load m (p + pos + 4) of
        None \<Rightarrow> None
      | Some v \<Rightarrow>
          if key v then Some (nd\<lparr>nd_keyframePos := pos\<rparr>)
          else case yang_get_be32 m (p + pos) of
            None \<Rightarrow> None
          | Some n \<Rightarrow>
              let nd = (if param v then nd\<lparr>nd_spsppsPos := pos\<rparr> else nd)
              in if uint n > len then Some nd else parse_loop key param m p len (pos + uint n + 4) nd)"
  by pat_completeness auto
termination
  by (relation "measure (\<lambda>(key, param, m, p, len, pos, nd). nat (len - pos))") (auto simp: unit_length)

declare parse_loop.simps [simp del]

definition h264_key :: "u8 \<Rightarrow> bool" where "h264_key v \<longleftrightarrow> v AND kNalTypeMask = YangAvcNaluTypeIDR"
definition h264_param :: "u8 \<Rightarrow> bool" where "h264_param v \<longleftrightarrow> v AND kNalTypeMask = YangAvcNaluTypeSPS"
definition h265_key :: "u8 \<Rightarrow> bool" where
  "h265_key v \<longleftrightarrow> YANG_NAL_UNIT_CODED_SLICE_BLA \<le> YANG_HEVC_NALU_TYPE v \<and> YANG_HEVC_NALU_TYPE v \<le> YANG_NAL_UNIT_CODED_SLICE_CRA"
definition h265_param :: "u8 \<Rightarrow> bool" where "h265_param v \<longleftrightarrow> YANG_HEVC_NALU_TYPE v = YANG_NAL_UNIT_VPS"

definition yang_parseH264Nalu :: "yang_frame \<Rightarrow> (errcode \<times> nalu_data) option" where
  "yang_parseH264Nalu fr = do {
     nd \<leftarrow> parse_loop h264_key h264_param (fr_mem fr) (fr_payload fr) (fr_nb fr) 0 \<lparr>nd_spsppsPos = - 1, nd_keyframePos = - 1\<rparr>;
     Some (Yang_Ok, nd)
   }"

definition yang_parseH265Nalu :: "yang_frame \<Rightarrow> (errcode \<times> nalu_data) option" where
  "yang_parseH265Nalu fr = do {
     nd \<leftarrow> parse_loop h265_key h265_param (fr_mem fr) (fr_payload fr) (fr_nb fr) 0 \<lparr>nd_spsppsPos = - 1, nd_keyframePos = - 1\<rparr>;
     Some (Yang_Ok, nd)
   }"

section \<open>Units after start codes\<close>

text \<open>\<open>k\<close> rounds left at \<open>i\<close>.\<close>

primrec nalupos_loop :: "nat \<Rightarrow> int \<Rightarrow> u8 list \<Rightarrow> int \<Rightarrow> int option" where
  "nalupos_loop 0 i m p = Some (- 1)"
| "nalupos_loop (Suc k) i m p = do {
     found \<leftarrow> start_code_at m (p + i);
     if found then Some (i + 4) else nalupos_loop k (i + 1) m p
   }"

definition yang_getNalupos :: "u8 list \<Rightarrow> int \<Rightarrow> int \<Rightarrow> int option" where
  "yang_getNalupos m p plen = nalupos_loop (nat (plen - 4)) 0 m p"

record nalu_data2 =
  n2_spsPos :: int
  n2_ppsPos :: int
  n2_spsLen :: int
  n2_ppsLen :: int
  n2_keyframePos :: int

text \<open>What the kind of the unit before (0 for SPS, 1 for PPS) does with the distance to the next start code.\<close>

definition close_unit :: "int \<Rightarrow> int \<Rightarrow> nalu_data2 \<Rightarrow> nalu_data2" where
  "close_unit preType tmpPos nd =
     (if preType = 0 then nd\<lparr>n2_spsLen := tmpPos - 4\<rparr>
      else if preType = 1 then nd\<lparr>n2_ppsLen := tmpPos - 4\<rparr> else nd)"

lemma nalupos_range: "nalupos_loop k i m p = Some r \<Longrightarrow> r = - 1 \<or> i + 4 \<le> r"
  by (induction k arbitrary: i) (fastforce split: if_splits Option.bind_splits)+

function parse2_loop ::
    "u8 list \<Rightarrow> int \<Rightarrow> int \<Rightarrow> int \<Rightarrow> int \<Rightarrow> int \<Rightarrow> nalu_data2 \<Rightarrow> (errcode \<times> nalu_data2) option" where
  "parse2_loop m p len pos tmpLen preType nd =
     (if \<not> pos < len then Some (1, nd)
      else case yang_getNalupos m (p + pos) tmpLen of
        None \<Rightarrow> None
      | Some tmpPos \<Rightarrow>
          if tmpPos = - 1 then Some (1, nd)
          else let nd = close_unit preType tmpPos nd;
                   preType = (if preType = 0 \<or> preType = 1 then - 1 else preType);
                   q = pos + tmpPos
               in case mem_load m (p + q) of
                    None \<Rightarrow> None
                  | Some v \<Rightarrow>
                      if v AND kNalTypeMask = YangAvcNaluTypeIDR then Some (Yang_Ok, nd\<lparr>n2_keyframePos := q\<rparr>)
                      else if v AND kNalTypeMask = YangAvcNaluTypeSPS then
                        parse2_loop m p len q (tmpLen - tmpPos) 0 (nd\<lparr>n2_spsPos := q\<rparr>)
                      else if v AND kNalTypeMask = YangAvcNaluTypePPS then
                        parse2_loop m p len q (tmpLen - tmpPos) 1 (nd\<lparr>n2_ppsPos := q\<rparr>)
                      else parse2_loop m p len q (tmpLen - tmpPos) preType nd)"
  by pat_completeness auto
termination
  by (relation "measure (\<lambda>(m, p, len, pos, tmpLen, preType, nd). nat (len - pos))")
    (auto simp: yang_getNalupos_def dest: nalupos_range)

declare parse2_loop.simps [simp del]

definition yang_parseH264Nalu2 :: "yang_frame \<Rightarrow> (errcode \<times> nalu_data2) option" where
  "yang_parseH264Nalu2 fr =
     parse2_loop (fr_mem fr) (fr_payload fr) (fr_nb fr) 0 (fr_nb fr) (- 1)
       \<lparr>n2_spsPos = - 1, n2_ppsPos = - 1, n2_spsLen = 0, n2_ppsLen = 0, n2_keyframePos = - 1\<rparr>"

section \<open>Configuration records from parameter sets\<close>

text \<open>
  \<open>pnaludata\<close> is the pointer to the first parameter set, in the memory \<open>m\<close> at \<open>p\<close>; the record is written to the
  payload of the frame. The lengths are converted to \<open>int32_t\<close>; a sum that overflows is undefined.
\<close>

definition int32 :: "int \<Rightarrow> int option" where
  "int32 x = (if - (2 ^ 31) \<le> x \<and> x < 2 ^ 31 then Some x else None)"

definition yang_getH264SpsppseNalu :: "yang_frame \<Rightarrow> u8 list \<Rightarrow> int \<Rightarrow> (errcode \<times> yang_frame) option" where
  "yang_getH264SpsppseNalu fr m p = do {
     l \<leftarrow> yang_get_be32 m p;
     let spsLen = sint l;
     l \<leftarrow> yang_get_be32 m (p + 4 + spsLen);
     let ppsLen = sint l;
     n \<leftarrow> int32 (spsLen + ppsLen + 8);
     if n > Yang_Nalu_SpsppsBufferLen then Some (1, fr)
     else if spsLen > fr_nb fr \<or> ppsLen > fr_nb fr then Some (1, fr)
     else do {
       (buf, nb) \<leftarrow> yang_getConfig_Meta_H264
          \<lparr>smp_mem = m, smp_bytes = p + 4, smp_nb = spsLen\<rparr>
          \<lparr>smp_mem = m, smp_bytes = p + 4 + spsLen + 4, smp_nb = ppsLen\<rparr> (fr_mem fr) (fr_payload fr);
       Some (Yang_Ok, fr\<lparr>fr_mem := buf, fr_nb := nb\<rparr>)
     }
   }"

definition yang_getH265SpsppseNalu :: "yang_frame \<Rightarrow> u8 list \<Rightarrow> int \<Rightarrow> (errcode \<times> yang_frame) option" where
  "yang_getH265SpsppseNalu fr m p = do {
     l \<leftarrow> yang_get_be32 m p;
     let vpsLen = sint l;
     l \<leftarrow> yang_get_be32 m (p + 4 + vpsLen);
     let spsLen = sint l;
     l \<leftarrow> yang_get_be32 m (p + 4 + vpsLen + 4 + spsLen);
     let ppsLen = sint l;
     n \<leftarrow> int32 (vpsLen + spsLen);
     n \<leftarrow> int32 (n + ppsLen);
     n \<leftarrow> int32 (n + 8);
     if n > Yang_Nalu_SpsppsBufferLen then Some (1, fr)
     else if spsLen > fr_nb fr \<or> ppsLen > fr_nb fr then Some (1, fr)
     else do {
       (buf, nb) \<leftarrow> yang_getConfig_Meta_H265
          \<lparr>smp_mem = m, smp_bytes = p + 4, smp_nb = vpsLen\<rparr>
          \<lparr>smp_mem = m, smp_bytes = p + 4 + vpsLen + 4, smp_nb = spsLen\<rparr>
          \<lparr>smp_mem = m, smp_bytes = p + 4 + vpsLen + 4 + spsLen + 4, smp_nb = ppsLen\<rparr> (fr_mem fr) (fr_payload fr);
       Some (Yang_Ok, fr\<lparr>fr_mem := buf, fr_nb := nb\<rparr>)
     }
   }"

end
