(* ===== verification/Play_Media.thy ===== *)
theory Play_Media
  imports Rtc_Rtcp Nalu
begin

text \<open>
  Frames from packets: \<open>yangrtc/YangPlayTrackH264.c\<close> and \<open>YangPlayTrackH265.c\<close>, and the delivery of a frame to the
  application (\<open>yang_playtrack_receiveVideo\<close> of \<open>YangPlayTrack.c\<close>). The two files differ in the NAL unit types, the
  payload decoders and the first byte of a frame; what they share is defined once over a record of these
  (\<open>track_codec\<close>), and each function of either file is an instance.

  A packet waits in a cache of 1024 slots, indexed by the low bits of its number. Its payload is a pointer into the
  ring of received packets, an offset into \<open>ring\<close>.
\<close>

section \<open>Delivery of a frame (YangPlayTrack.c)\<close>

abbreviation (input) YANG_VIDEO_ENCODE_BUFFER_LEN :: int where "YANG_VIDEO_ENCODE_BUFFER_LEN \<equiv> 1048576"
abbreviation (input) YANG_Frametype_Spspps :: int where "YANG_Frametype_Spspps \<equiv> 9"
abbreviation (input) YANG_Frametype_I :: int where "YANG_Frametype_I \<equiv> 1"
abbreviation (input) YANG_Frametype_P :: int where "YANG_Frametype_P \<equiv> 0"

definition receive_callback :: "'w rtc_net \<Rightarrow> 'w \<Rightarrow> yang_frame \<Rightarrow> 'w" where
  "receive_callback net w fr = (case net_receiveVideo net of None \<Rightarrow> w | Some f \<Rightarrow> f w fr)"

text \<open>The label \<open>sendevideo\<close>.\<close>

definition send_video :: "'w rtc_net \<Rightarrow> 'w rtc_context \<Rightarrow> yang_frame \<Rightarrow> 'w rtc_context \<times> yang_frame" where
  "send_video net context fr =
     (let fr = fr\<lparr>fr_uid := cx_uid context\<rparr>
      in (context\<lparr>cx_world := receive_callback net (cx_world context) fr\<rparr>, fr))"

text \<open>
  A key frame: the parameter sets before it are delivered first, as a configuration record in a local array, then the
  frame from its key unit on. \<open>m\<close> and \<open>t\<close> are the memory and the first byte of the frame as it came.
\<close>

definition receive_key ::
    "(yang_frame \<Rightarrow> (errcode \<times> nalu_data) option) \<Rightarrow> (yang_frame \<Rightarrow> u8 list \<Rightarrow> int \<Rightarrow> (errcode \<times> yang_frame) option) \<Rightarrow>
     'w rtc_net \<Rightarrow> 'w rtc_context \<Rightarrow> yang_frame \<Rightarrow> u8 list \<Rightarrow> int \<Rightarrow> int \<Rightarrow> ('w rtc_context \<times> yang_frame) option" where
  "receive_key parse get_meta net context fr m t videoLen = do {
     let fr = fr\<lparr>fr_payload := t + 5, fr_nb := videoLen - 5\<rparr>;
     (_, nalu) \<leftarrow> parse fr;
     (ok, context, fr) \<leftarrow>
       (if nd_spsppsPos nalu > - 1 \<and> nd_keyframePos nalu > - 1 then do {
          let fr = fr\<lparr>fr_mem := replicate 256 0, fr_payload := 0\<rparr>;
          (err, fr) \<leftarrow> get_meta fr m (t + 5 + nd_spsppsPos nalu);
          if err \<noteq> Yang_Ok then Some (False, context, fr)
          else do {
            let fr = fr\<lparr>fr_frametype := YANG_Frametype_Spspps\<rparr>;
            Some (True, context\<lparr>cx_world := receive_callback net (cx_world context) fr\<rparr>, fr)
          }
        }
        else Some (True, context, fr));
     if ok \<and> nd_keyframePos nalu > - 1
     then Some (send_video net context (fr\<lparr>fr_mem := m, fr_payload := t + 5 + nd_keyframePos nalu,
            fr_nb := videoLen - 5 - nd_keyframePos nalu, fr_frametype := YANG_Frametype_I\<rparr>))
     else Some (context, fr)
   }"

definition yang_playtrack_receiveVideo ::
    "'w rtc_net \<Rightarrow> 'w rtc_context \<Rightarrow> yang_frame \<Rightarrow> ('w rtc_context \<times> yang_frame) option" where
  "yang_playtrack_receiveVideo net context fr =
     (if fr_nb fr > YANG_VIDEO_ENCODE_BUFFER_LEN then Some (context, fr)
      else do {
        let m = fr_mem fr;
        let t = fr_payload fr;
        let videoLen = fr_nb fr;
        let fr = fr\<lparr>fr_dts := fr_pts fr\<rparr>;
        b0 \<leftarrow> mem_load m t;
        b1 \<leftarrow> (if b0 \<in> {0x27, 0x17, 0x2c, 0x1c} then mem_load m (t + 1) else Some 0);
        if b0 = 0x27 \<and> b1 = 1 then do {
          let fr = fr\<lparr>fr_payload := t + 5, fr_nb := videoLen - 5, fr_frametype := YANG_Frametype_P\<rparr>;
          p \<leftarrow> yang_hasH264Pframe m (fr_payload fr);
          Some (if p then send_video net context fr else (context, fr))
        }
        else if b0 = 0x17 \<and> b1 = 0 then Some (send_video net context (fr\<lparr>fr_frametype := YANG_Frametype_Spspps\<rparr>))
        else if b0 = 0x17 \<and> b1 = 1 then receive_key yang_parseH264Nalu yang_getH264SpsppseNalu net context fr m t videoLen
        else if b0 = 0x2c \<and> b1 = 1 then
          Some (send_video net context (fr\<lparr>fr_payload := t + 5, fr_nb := videoLen - 5, fr_frametype := YANG_Frametype_P\<rparr>))
        else if b0 = 0x1c \<and> b1 = 0 then Some (send_video net context (fr\<lparr>fr_frametype := YANG_Frametype_Spspps\<rparr>))
        else if b0 = 0x1c \<and> b1 = 1 then receive_key yang_parseH265Nalu yang_getH265SpsppseNalu net context fr m t videoLen
        else Some (context, fr)
      })"

section \<open>The track\<close>

abbreviation (input) YANG_RTC_RECV_BUFFER_COUNT :: nat where "YANG_RTC_RECV_BUFFER_COUNT \<equiv> 1024"

text \<open>\<open>YangH264PacketCache\<close> and \<open>YangH265PacketCache\<close>.\<close>

record packet_cache =
  ca_in_use :: bool
  ca_end :: bool
  ca_sn :: u16
  ca_ts :: u32
  ca_nalu_type :: int
  ca_nb :: int
  ca_fua2 :: fua2_cache
  ca_payload :: "int option"

definition zero_cache :: packet_cache where
  "zero_cache = \<lparr>ca_in_use = False, ca_end = False, ca_sn = 0, ca_ts = 0, ca_nalu_type = 0, ca_nb = 0,
     ca_fua2 = \<lparr>fc_start = 0, fc_end = 0, fc_nri = 0, fc_nalu_type = 0\<rparr>, ca_payload = None\<rparr>"

text \<open>\<open>YangPlayTrackH264\<close> and \<open>YangPlayTrackH265\<close>.\<close>

record play_media =
  pm_header_sn :: u16
  pm_lost_sn :: u16
  pm_hasReceiveStap :: int
  pm_uid :: int
  pm_hasRequestKeyframe :: int
  pm_key_frame_ts :: int
  pm_stapData :: rtp_stap_data
  pm_buf :: yang_buffer
  pm_videoFrame :: yang_frame
  pm_video_buffer :: "u8 list"
  pm_cache :: "packet_cache list"

text \<open>
  What the two files differ in. \<open>tc_packet_key\<close> and \<open>tc_cache_key\<close> are the tests for a key frame: of the type, of the
  memory and the pointer (NULL or not). \<open>tc_fu_head\<close> are the header bytes of a unit put together from fragments.
\<close>

record track_codec =
  tc_stap :: int
  tc_fua :: int
  tc_nal_type :: "u8 \<Rightarrow> u8"
  tc_packet_key :: "int \<Rightarrow> u8 list \<Rightarrow> int option \<Rightarrow> bool option"
  tc_cache_key :: "int \<Rightarrow> u8 list \<Rightarrow> int option \<Rightarrow> bool option"
  tc_decode_fua2 :: "yang_buffer \<Rightarrow> fua2_cache \<Rightarrow> (errcode \<times> fua2_cache \<times> yang_buffer) option"
  tc_decode_stap :: "yang_buffer \<Rightarrow> rtp_stap_data \<Rightarrow> (errcode \<times> rtp_stap_data \<times> yang_buffer) option"
  tc_key_byte :: u8
  tc_inter_byte :: u8
  tc_fu_head :: "fua2_cache \<Rightarrow> u8 list"

definition cache_index :: "u16 \<Rightarrow> int" where
  "cache_index sn = uint (sn AND 1023)"

definition create_play_media :: "'w rtc_context \<Rightarrow> play_media" where
  "create_play_media context =
     \<lparr>pm_header_sn = 0, pm_lost_sn = 0, pm_hasReceiveStap = - 1, pm_uid = cx_uid context, pm_hasRequestKeyframe = 0,
      pm_key_frame_ts = - 1,
      pm_stapData = yang_create_stap \<lparr>stap_nri = 0, stap_nb = 0, stap_payload = None,
        stap_nalus = \<lparr>capacity = 0, vsize = 0, payload = []\<rparr>\<rparr>,
      pm_buf = yang_init_buffer [] 0 0,
      pm_videoFrame = \<lparr>fr_mediaType = 0, fr_uid = 0, fr_frametype = 0, fr_nb = 0, fr_pts = 0, fr_dts = 0,
        fr_mem = [], fr_payload = 0\<rparr>,
      pm_video_buffer = replicate (nat YANG_VIDEO_ENCODE_BUFFER_LEN) 0,
      pm_cache = replicate YANG_RTC_RECV_BUFFER_COUNT zero_cache\<rparr>"

definition clear_cached_video :: "play_media \<Rightarrow> play_media" where
  "clear_cached_video track =
     track\<lparr>pm_cache := map (\<lambda>c. if ca_in_use c then zero_cache else c) (pm_cache track)\<rparr>"

text \<open>
  The copy of a packet into its slot; the result of the fragment decoder is ignored.
\<close>

definition copy_packet ::
    "track_codec \<Rightarrow> u8 list \<Rightarrow> play_media \<Rightarrow> rtp_packet \<Rightarrow> packet_cache \<Rightarrow> (play_media \<times> packet_cache) option" where
  "copy_packet tc ring track src pkt = do {
     let pkt = pkt\<lparr>ca_sn := sequence (pk_header src), ca_end := marker (pk_header src),
                   ca_ts := timestamp (pk_header src), ca_nalu_type := pk_nalu_type src,
                   ca_payload := pk_payload src, ca_nb := pk_nb src\<rparr>;
     if ca_nalu_type pkt = tc_fua tc then do {
       p \<leftarrow> pk_payload src;
       let b = yang_init_buffer ring p (pk_nb src);
       (_, fua, b) \<leftarrow> tc_decode_fua2 tc b (ca_fua2 pkt);
       Some (track\<lparr>pm_buf := b\<rparr>, pkt\<lparr>ca_fua2 := fua, ca_payload := Some (buf_head b), ca_nb := yang_buffer_left b\<rparr>)
     }
     else Some (track, pkt)
   }"

text \<open>A packet is put into the slot of its number.\<close>

definition store_packet :: "track_codec \<Rightarrow> u8 list \<Rightarrow> play_media \<Rightarrow> rtp_packet \<Rightarrow> play_media option" where
  "store_packet tc ring track src = do {
     let i = cache_index (sequence (pk_header src));
     c \<leftarrow> mem_load (pm_cache track) i;
     (track, c) \<leftarrow> copy_packet tc ring track src (c\<lparr>ca_in_use := True\<rparr>);
     cache \<leftarrow> mem_store (pm_cache track) i c;
     Some (track\<lparr>pm_cache := cache\<rparr>)
   }"

definition put_frame_video ::
    "'w rtc_net \<Rightarrow> 'w rtc_context \<Rightarrow> play_media \<Rightarrow> int \<Rightarrow> int \<Rightarrow> (errcode \<times> 'w rtc_context \<times> play_media) option" where
  "put_frame_video net context track ts nb =
     (if nb > YANG_VIDEO_ENCODE_BUFFER_LEN then Some (Yang_Ok, context, track)
      else do {
        let fr = (pm_videoFrame track)\<lparr>fr_uid := pm_uid track, fr_mem := pm_video_buffer track, fr_payload := 0,
                   fr_nb := nb, fr_pts := ts\<rparr>;
        (context, fr) \<leftarrow> yang_playtrack_receiveVideo net context fr;
        Some (Yang_Ok, context, track\<lparr>pm_videoFrame := fr\<rparr>)
      })"

section \<open>Complete frames\<close>

text \<open>The count of start and end marks: \<open>k\<close> packets left from \<open>sn\<close>.\<close>

primrec count_marks :: "int \<Rightarrow> packet_cache list \<Rightarrow> nat \<Rightarrow> u16 \<Rightarrow> u16 \<Rightarrow> u16 \<Rightarrow> bool option" where
  "count_marks fua cache 0 sn s e = Some (s = e)"
| "count_marks fua cache (Suc k) sn s e = do {
     c \<leftarrow> mem_load cache (cache_index sn);
     if ca_nalu_type c = fua
     then count_marks fua cache k (sn + 1)
            (if fc_start (ca_fua2 c) \<noteq> 0 then s + 1 else s) (if fc_end (ca_fua2 c) \<noteq> 0 then e + 1 else e)
     else count_marks fua cache k (sn + 1) s e
   }"

definition check_frame_complete :: "track_codec \<Rightarrow> play_media \<Rightarrow> u16 \<Rightarrow> u16 \<Rightarrow> bool option" where
  "check_frame_complete tc track start stop =
     count_marks (tc_fua tc) (pm_cache track) (unat (stop - start + 1)) start 0 0"

text \<open>The next number that is missing, or -1 and the end of the frame, or -2; \<open>k\<close> rounds left.\<close>

primrec find_lost_loop :: "packet_cache list \<Rightarrow> u32 \<Rightarrow> nat \<Rightarrow> u16 \<Rightarrow> u16 \<Rightarrow> (int \<times> u16) option" where
  "find_lost_loop cache last_ts 0 sn end_sn = Some (- 2, end_sn)"
| "find_lost_loop cache last_ts (Suc k) sn end_sn = do {
     c \<leftarrow> mem_load cache (cache_index sn);
     if \<not> ca_in_use c then Some (uint sn, end_sn)
     else if last_ts \<noteq> ca_ts c then Some (- 1, sn - 1)
     else if ca_end c then Some (- 1, sn)
     else find_lost_loop cache last_ts k (sn + 1) end_sn
   }"

definition find_next_lost_sn :: "play_media \<Rightarrow> u16 \<Rightarrow> u16 \<Rightarrow> (int \<times> u16) option" where
  "find_next_lost_sn track current_sn end_sn = do {
     h \<leftarrow> mem_load (pm_cache track) (cache_index (pm_header_sn track));
     find_lost_loop (pm_cache track) (ca_ts h) YANG_RTC_RECV_BUFFER_COUNT current_sn end_sn
   }"

section \<open>Writing a frame\<close>

text \<open>The buffer and the position in it; \<open>nalu_len\<close> counts the unit that is put together from fragments.\<close>

record frame_out =
  fo_mem :: "u8 list"
  fo_p :: int
  fo_nalu_len :: int

definition out_bytes :: "frame_out \<Rightarrow> u8 list \<Rightarrow> frame_out option" where
  "out_bytes out bs = do {
     m \<leftarrow> mem_write (fo_mem out) (fo_p out) bs;
     Some (out\<lparr>fo_mem := m, fo_p := fo_p out + int (length bs)\<rparr>)
   }"

text \<open>A unit with its length before it.\<close>

definition out_unit :: "frame_out \<Rightarrow> u8 list \<Rightarrow> int \<Rightarrow> int \<Rightarrow> frame_out option" where
  "out_unit out m p nb = do {
     (fm, q) \<leftarrow> yang_put_be32 (fo_mem out) (fo_p out) (word_of_int nb);
     bs \<leftarrow> mem_read m p nb;
     out_bytes (out\<lparr>fo_mem := fm, fo_p := q\<rparr>) bs
   }"

text \<open>A fragment: the first leaves four bytes for the length, the last writes it.\<close>

definition out_fragment :: "track_codec \<Rightarrow> u8 list \<Rightarrow> frame_out \<Rightarrow> packet_cache \<Rightarrow> frame_out option" where
  "out_fragment tc ring out pkt = do {
     p \<leftarrow> ca_payload pkt;
     bs \<leftarrow> mem_read ring p (ca_nb pkt);
     if fc_start (ca_fua2 pkt) \<noteq> 0 then do {
       let head = tc_fu_head tc (ca_fua2 pkt);
       out \<leftarrow> out_bytes (out\<lparr>fo_p := fo_p out + 4, fo_nalu_len := ca_nb pkt + int (length head)\<rparr>) head;
       out_bytes out bs
     }
     else do {
       out \<leftarrow> out_bytes (out\<lparr>fo_nalu_len := fo_nalu_len out + ca_nb pkt\<rparr>) bs;
       if fc_end (ca_fua2 pkt) \<noteq> 0 then do {
         (m, _) \<leftarrow> yang_put_be32 (fo_mem out) (fo_p out - (4 + fo_nalu_len out)) (word_of_int (fo_nalu_len out));
         Some (out\<lparr>fo_mem := m\<rparr>)
       }
       else Some out
     }
   }"

text \<open>The units of an aggregation packet: \<open>k\<close> left from \<open>j\<close>.\<close>

primrec out_samples :: "nat \<Rightarrow> int \<Rightarrow> yang_sample list \<Rightarrow> frame_out \<Rightarrow> frame_out option" where
  "out_samples 0 j ps out = Some out"
| "out_samples (Suc k) j ps out = do {
     s \<leftarrow> mem_load ps j;
     out \<leftarrow> (if smp_nb s > 0 then out_unit out (smp_mem s) (smp_bytes s) (smp_nb s) else Some out);
     out_samples k (j + 1) ps out
   }"

definition out_stap ::
    "track_codec \<Rightarrow> u8 list \<Rightarrow> rtp_stap_data \<Rightarrow> frame_out \<Rightarrow> packet_cache \<Rightarrow> (rtp_stap_data \<times> frame_out) option" where
  "out_stap tc ring stap out pkt = do {
     p \<leftarrow> ca_payload pkt;
     stap \<leftarrow> yang_reset_h2645_stap stap;
     (_, stap, _) \<leftarrow> tc_decode_stap tc (yang_init_buffer ring p (ca_nb pkt)) stap;
     out \<leftarrow> out_samples (nat (vsize (stap_nalus stap))) 0 (payload (stap_nalus stap)) out;
     stap \<leftarrow> yang_reset_h2645_stap stap;
     Some (stap, out)
   }"

text \<open>
  One round of the loop over the packets of a frame, at place \<open>i\<close> of it. A packet with nothing to write clears the slot
  numbered \<open>i\<close>, not its own.
\<close>

definition pack_step ::
    "track_codec \<Rightarrow> u8 list \<Rightarrow> u16 \<Rightarrow> u16 \<Rightarrow> play_media \<Rightarrow> frame_out \<Rightarrow> (play_media \<times> frame_out) option" where
  "pack_step tc ring start i track out = do {
     let index = cache_index (start + i);
     pkt \<leftarrow> mem_load (pm_cache track) index;
     let pkt = pkt\<lparr>ca_in_use := False\<rparr>;
     cache \<leftarrow> mem_store (pm_cache track) index pkt;
     let track = track\<lparr>pm_cache := cache\<rparr>;
     if ca_nalu_type pkt = tc_fua tc \<and> ca_nb pkt > 0 then do {
       out \<leftarrow> out_fragment tc ring out pkt;
       let pkt = pkt\<lparr>ca_fua2 := \<lparr>fc_start = 0, fc_end = 0, fc_nri = 0, fc_nalu_type = 0\<rparr>\<rparr>;
       cache \<leftarrow> mem_store (pm_cache track) index pkt;
       Some (track\<lparr>pm_cache := cache\<rparr>, out)
     }
     else if ca_nalu_type pkt = tc_stap tc then do {
       (stap, out) \<leftarrow> out_stap tc ring (pm_stapData track) out pkt;
       Some (track\<lparr>pm_stapData := stap\<rparr>, out)
     }
     else if ca_payload pkt \<noteq> None \<and> ca_nb pkt > 0 then do {
       p \<leftarrow> ca_payload pkt;
       out \<leftarrow> out_unit out ring p (ca_nb pkt);
       cache \<leftarrow> mem_store (pm_cache track) index (pkt\<lparr>ca_payload := None\<rparr>);
       Some (track\<lparr>pm_cache := cache\<rparr>, out)
     }
     else do {
       cache \<leftarrow> mem_store (pm_cache track) (uint i) zero_cache;
       Some (track\<lparr>pm_cache := cache\<rparr>, out)
     }
   }"

primrec pack_loop ::
    "track_codec \<Rightarrow> u8 list \<Rightarrow> u16 \<Rightarrow> nat \<Rightarrow> u16 \<Rightarrow> play_media \<Rightarrow> frame_out \<Rightarrow> (play_media \<times> frame_out) option" where
  "pack_loop tc ring start 0 i track out = Some (track, out)"
| "pack_loop tc ring start (Suc k) i track out = do {
     (track, out) \<leftarrow> pack_step tc ring start i track out;
     pack_loop tc ring start k (i + 1) track out
   }"

definition write_frame ::
    "track_codec \<Rightarrow> 'w rtc_net \<Rightarrow> 'w rtc_context \<Rightarrow> u8 list \<Rightarrow> play_media \<Rightarrow> u16 \<Rightarrow> u16 \<Rightarrow>
     (errcode \<times> 'w rtc_context \<times> play_media) option" where
  "write_frame tc net context ring track start stop = do {
     header \<leftarrow> mem_load (pm_cache track) (cache_index start);
     key \<leftarrow> tc_cache_key tc (ca_nalu_type header) ring (ca_payload header);
     let track = (if key then track\<lparr>pm_key_frame_ts := - 1\<rparr> else track);
     m \<leftarrow> mem_write (pm_video_buffer track) 0 [if key then tc_key_byte tc else tc_inter_byte tc, 1, 0, 0, 0];
     (track, out) \<leftarrow> pack_loop tc ring start (unat (stop - start + 1)) 0 track \<lparr>fo_mem = m, fo_p = 5, fo_nalu_len = 0\<rparr>;
     put_frame_video net context (track\<lparr>pm_video_buffer := fo_mem out\<rparr>) (uint (ca_ts header)) (fo_p out)
   }"

text \<open>
  After a frame the next one is looked for, from number \<open>sn\<close> on. The last component is its range when it is complete.
\<close>

definition after_frame ::
    "track_codec \<Rightarrow> errcode \<Rightarrow> play_media \<Rightarrow> u16 \<Rightarrow> (errcode \<times> play_media \<times> (u16 \<times> u16) option) option" where
  "after_frame tc err track header_sn = do {
     let track = track\<lparr>pm_header_sn := header_sn\<rparr>;
     (sn, tail_sn) \<leftarrow> find_next_lost_sn track header_sn 0;
     if sn = - 1 then do {
       complete \<leftarrow> check_frame_complete tc track header_sn tail_sn;
       Some (err, track, if complete then Some (header_sn, tail_sn) else None)
     }
     else if sn = - 2 then Some (ERROR_RTC_RTP_MUXER, track, None)
     else Some (err, track\<lparr>pm_lost_sn := word_of_int sn\<rparr>, None)
   }"

text \<open>How many slots are in use; every frame that follows another starts with one.\<close>

definition used :: "play_media \<Rightarrow> nat" where
  "used track = length (filter ca_in_use (pm_cache track))"

definition slot_used :: "play_media \<Rightarrow> u16 \<Rightarrow> bool" where
  "slot_used track sn \<longleftrightarrow> (\<exists>c. mem_load (pm_cache track) (cache_index sn) = Some c \<and> ca_in_use c)"

lemma used_store:
  assumes "mem_store cache i c = Some cache'" "\<not> ca_in_use c"
  shows "length (filter ca_in_use cache') \<le> length (filter ca_in_use cache)"
    and "mem_load cache i = Some d \<Longrightarrow> ca_in_use d \<Longrightarrow> length (filter ca_in_use cache') < length (filter ca_in_use cache)"
proof -
  have i: "cache = take (nat i) cache @ cache ! nat i # drop (Suc (nat i)) cache"
    "cache' = take (nat i) cache @ c # drop (Suc (nat i)) cache"
    using assms(1) by (auto simp: mem_store_def upd_conv_take_nth_drop id_take_nth_drop split: if_splits)
  show "length (filter ca_in_use cache') \<le> length (filter ca_in_use cache)"
    by (subst i(1), subst i(2)) (simp add: assms(2))
  assume "mem_load cache i = Some d" "ca_in_use d"
  then have "ca_in_use (cache ! nat i)" by (simp add: mem_load_def split: if_splits)
  then show "length (filter ca_in_use cache') < length (filter ca_in_use cache)"
    by (subst i(1), subst i(2)) (simp add: assms(2))
qed

lemma pack_step_used:
  assumes "pack_step tc ring start i track out = Some (track', out')"
  shows "used track' \<le> used track" "slot_used track (start + i) \<Longrightarrow> used track' < used track"
proof -
  obtain pkt where load: "mem_load (pm_cache track) (cache_index (start + i)) = Some pkt"
    using assms by (auto simp: pack_step_def Let_def split: Option.bind_splits)
  obtain cache where store: "mem_store (pm_cache track) (cache_index (start + i)) (pkt\<lparr>ca_in_use := False\<rparr>) = Some cache"
    using assms load by (auto simp: pack_step_def Let_def split: Option.bind_splits)
  note p = load store
  have r: "used track' \<le> length (filter ca_in_use cache)"
    using assms
    by (auto simp: pack_step_def used_def Let_def load store zero_cache_def split: if_splits Option.bind_splits)
      (erule used_store(1), simp)+
  show "used track' \<le> used track" using r used_store(1) [OF p(2)] by (simp add: used_def)
  assume "slot_used track (start + i)"
  with p(1) have "ca_in_use pkt" by (simp add: slot_used_def)
  then show "used track' < used track" using r used_store(2) [OF p(2) _ p(1)] by (simp add: used_def)
qed

lemma pack_loop_used:
  assumes "pack_loop tc ring start k i track out = Some (track', out')"
  shows "used track' \<le> used track \<and> (0 < k \<longrightarrow> slot_used track (start + i) \<longrightarrow> used track' < used track)"
  using assms
proof (induction k arbitrary: i track out)
  case (Suc k)
  then obtain track1 out1 where s: "pack_step tc ring start i track out = Some (track1, out1)"
    "pack_loop tc ring start k (i + 1) track1 out1 = Some (track', out')"
    by (auto split: Option.bind_splits)
  show ?case using pack_step_used [OF s(1)] Suc.IH [OF s(2)] by fastforce
qed simp

lemma find_lost_1024:
  "find_lost_loop cache last_ts 1024 sn end_sn = do {
     c \<leftarrow> mem_load cache (cache_index sn);
     if \<not> ca_in_use c then Some (uint sn, end_sn)
     else if last_ts \<noteq> ca_ts c then Some (- 1, sn - 1)
     else if ca_end c then Some (- 1, sn)
     else find_lost_loop cache last_ts 1023 (sn + 1) end_sn
   }"
  using find_lost_loop.simps(2) [of cache last_ts 1023] by simp

lemma uint_not_neg: "uint (x :: u16) \<noteq> - 1"
  using uint_nonnegative [of x] by linarith

lemma find_lost_range:
  assumes "find_lost_loop cache last_ts k sn end_sn = Some (- 1, stop)" "sn = start + word_of_nat j" "0 < j" "j + k \<le> 1024"
  shows "unat (stop - start + 1) \<noteq> 0"
  using assms
proof (induction k arbitrary: sn j)
  case (Suc k)
  show ?case
  proof (cases "stop = sn - 1 \<or> stop = sn")
    case True
    then consider "stop - start + 1 = word_of_nat j" | "stop - start + 1 = word_of_nat (Suc j)"
      using Suc.prems(2) by fastforce
    moreover have "unat (word_of_nat n :: u16) = n" if "n \<le> 1024" for n
      using that by (simp add: unat_of_nat take_bit_nat_eq_self)
    ultimately have "unat (stop - start + 1) = j \<or> unat (stop - start + 1) = Suc j"
      using Suc.prems(3,4) by cases (simp_all del: of_nat_Suc)
    with Suc.prems(3) show ?thesis by linarith
  next
    case False
    with Suc.prems(1) have "find_lost_loop cache last_ts k (sn + 1) end_sn = Some (- 1, stop)"
      by (auto simp: uint_not_neg split: if_splits Option.bind_splits)
    from Suc.IH [OF this, of "Suc j"] show ?thesis using Suc.prems(2,4) by simp
  qed
qed simp

lemma find_next_starts_used:
  assumes "find_next_lost_sn track (pm_header_sn track) e = Some (- 1, stop)"
  shows "slot_used track (pm_header_sn track)" "unat (stop - pm_header_sn track + 1) \<noteq> 0"
proof -
  let ?h = "pm_header_sn track"
  obtain c where c: "mem_load (pm_cache track) (cache_index ?h) = Some c"
    and r: "find_lost_loop (pm_cache track) (ca_ts c) 1024 ?h e = Some (- 1, stop)"
    using assms by (auto simp: find_next_lost_sn_def split: Option.bind_splits)
  show "slot_used track ?h"
    using c r unfolding find_lost_1024 slot_used_def by (simp split: if_splits add: uint_not_neg)
  then have "stop = ?h \<or> find_lost_loop (pm_cache track) (ca_ts c) 1023 (?h + 1) e = Some (- 1, stop)"
    using c r unfolding find_lost_1024 by (simp split: if_splits add: uint_not_neg)
  then show "unat (stop - ?h + 1) \<noteq> 0"
  proof
    assume "stop = ?h"
    then show ?thesis by simp
  next
    assume "find_lost_loop (pm_cache track) (ca_ts c) 1023 (?h + 1) e = Some (- 1, stop)"
    from find_lost_range [OF this, of ?h 1] show ?thesis by simp
  qed
qed

lemma write_frame_used:
  assumes "write_frame tc net context ring track start stop = Some (err, context', track')"
  shows "used track' \<le> used track"
    and "slot_used track start \<Longrightarrow> unat (stop - start + 1) \<noteq> 0 \<Longrightarrow> used track' < used track"
proof -
  define t0 where "t0 key = (if key then track\<lparr>pm_key_frame_ts := - 1\<rparr> else track)" for key
  obtain key m track1 out nb p where
    l: "pack_loop tc ring start (unat (stop - start + 1)) 0 (t0 key) \<lparr>fo_mem = m, fo_p = 5, fo_nalu_len = 0\<rparr>
        = Some (track1, out)"
    and q: "put_frame_video net context (track1\<lparr>pm_video_buffer := fo_mem out\<rparr>) nb p = Some (err, context', track')"
    using assms unfolding write_frame_def Let_def t0_def
    by (auto split: Option.bind_splits)
  have t: "pm_cache track' = pm_cache track1"
    using q by (auto simp: put_frame_video_def Let_def split: if_splits Option.bind_splits)
  have "used (t0 key) = used track" "slot_used (t0 key) sn = slot_used track sn" for key sn
    by (simp_all add: t0_def used_def slot_used_def)
  with pack_loop_used [OF l] t show "used track' \<le> used track"
    "slot_used track start \<Longrightarrow> unat (stop - start + 1) \<noteq> 0 \<Longrightarrow> used track' < used track"
    by (auto simp: used_def)
qed

lemma after_frame_next:
  assumes "after_frame tc err track sn = Some (err', track', next)"
  shows "pm_cache track' = pm_cache track"
    and "next = Some (a, b) \<Longrightarrow> slot_used track' a \<and> unat (b - a + 1) \<noteq> 0"
proof -
  show "pm_cache track' = pm_cache track"
    using assms by (auto simp: after_frame_def Let_def split: if_splits Option.bind_splits)
  assume "next = Some (a, b)"
  then have n: "find_next_lost_sn (track\<lparr>pm_header_sn := sn\<rparr>) sn 0 = Some (- 1, b)" "a = sn" "track' = track\<lparr>pm_header_sn := sn\<rparr>"
    using assms by (auto simp: after_frame_def Let_def split: if_splits Option.bind_splits)
  then show "slot_used track' a \<and> unat (b - a + 1) \<noteq> 0"
    using find_next_starts_used [of "track\<lparr>pm_header_sn := sn\<rparr>" 0 b] by simp
qed

text \<open>
  The recursion of \<open>packet_video\<close> ends: every frame that follows starts with a slot in use, and using it up frees the slot.
\<close>

function packet_video ::
    "track_codec \<Rightarrow> 'w rtc_net \<Rightarrow> 'w rtc_context \<Rightarrow> u8 list \<Rightarrow> play_media \<Rightarrow> u16 \<Rightarrow> u16 \<Rightarrow>
     (errcode \<times> 'w rtc_context \<times> play_media) option" where
  "packet_video tc net context ring track start stop =
     (case write_frame tc net context ring track start stop of
        None \<Rightarrow> None
      | Some (err, context1, track1) \<Rightarrow>
          (case after_frame tc err track1 (stop + 1) of
             None \<Rightarrow> None
           | Some (err, track2, None) \<Rightarrow> Some (err, context1, track2)
           | Some (err, track2, Some (a, b)) \<Rightarrow> packet_video tc net context1 ring track2 a b))"
  by pat_completeness auto
termination
proof (relation "measure (\<lambda>(tc, net, context, ring, track, start, stop).
    2 * used track + (if slot_used track start \<and> unat (stop - start + 1) \<noteq> 0 then 0 else 1))", goal_cases)
  case (2 tc net ctxt ring track start stop x2 err y context1 track1 x2a err' ya track2 x2b ab a b)
  then have w: "write_frame tc net ctxt ring track start stop = Some (err, context1, track1)"
    and f: "after_frame tc err track1 (stop + 1) = Some (err', track2, Some (a, b))" by simp_all
  have "used track2 = used track1" using after_frame_next(1) [OF f] by (simp add: used_def)
  moreover have "slot_used track2 a" "unat (b - a + 1) \<noteq> 0" using after_frame_next(2) [OF f] by simp_all
  ultimately show ?case using write_frame_used [OF w] by auto
qed simp

declare packet_video.simps [simp del]

text \<open>What the search for the next missing number leads to; \<open>start\<close> is the first number of the frame.\<close>

definition after_search ::
    "track_codec \<Rightarrow> 'w rtc_net \<Rightarrow> 'w rtc_context \<Rightarrow> u8 list \<Rightarrow> play_media \<Rightarrow> int \<Rightarrow> u16 \<Rightarrow>
     (errcode \<times> 'w rtc_context \<times> play_media) option" where
  "after_search tc net context ring track sn tail_sn =
     (if sn = - 1 then do {
        complete \<leftarrow> check_frame_complete tc track (pm_header_sn track) tail_sn;
        if complete then packet_video tc net context ring track (pm_header_sn track) tail_sn
        else Some (Yang_Ok, context, track)
      }
      else if sn = - 2 then Some (ERROR_RTC_RTP_MUXER, context, track)
      else Some (Yang_Ok, context, track\<lparr>pm_lost_sn := word_of_int sn\<rparr>))"

definition packet_video_key_frame ::
    "track_codec \<Rightarrow> 'w rtc_net \<Rightarrow> 'w rtc_context \<Rightarrow> u8 list \<Rightarrow> play_media \<Rightarrow> rtp_packet \<Rightarrow>
     (errcode \<times> 'w rtc_context \<times> play_media) option" where
  "packet_video_key_frame tc net context ring track pkt = do {
     let seq = sequence (pk_header pkt);
     let ts = uint (timestamp (pk_header pkt));
     let track = (if pm_key_frame_ts track = - 1 \<or> pm_key_frame_ts track \<noteq> ts
       then clear_cached_video (track\<lparr>pm_key_frame_ts := ts, pm_header_sn := seq, pm_lost_sn := seq + 1\<rparr>)
       else track);
     track \<leftarrow> store_packet tc ring track pkt;
     let sn = uint (pm_lost_sn track);
     (track, sn, tail_sn) \<leftarrow>
       (if yang_rtp_seq_distance (pm_header_sn track) seq < 0 then do {
          let track = track\<lparr>pm_header_sn := seq\<rparr>;
          (sn, tail_sn) \<leftarrow> find_next_lost_sn track seq 0;
          Some (track, sn, tail_sn)
        }
        else if pm_lost_sn track = seq then do {
          (sn, tail_sn) \<leftarrow> find_next_lost_sn track (pm_lost_sn track) 0;
          Some (track, sn, tail_sn)
        }
        else Some (track, sn, 0));
     after_search tc net context ring track sn tail_sn
   }"

definition packet_video_Raw ::
    "track_codec \<Rightarrow> 'w rtc_net \<Rightarrow> 'w rtc_context \<Rightarrow> u8 list \<Rightarrow> play_media \<Rightarrow> rtp_packet \<Rightarrow>
     (errcode \<times> 'w rtc_context \<times> play_media) option" where
  "packet_video_Raw tc net context ring track pkt = do {
     m \<leftarrow> mem_write (pm_video_buffer track) 0 [tc_inter_byte tc, 1, 0, 0, 0];
     (m, p) \<leftarrow> yang_put_be32 m 5 (word_of_int (pk_nb pkt));
     src \<leftarrow> pk_payload pkt;
     bs \<leftarrow> mem_read ring src (pk_nb pkt);
     m \<leftarrow> mem_write m p bs;
     (err, context, track) \<leftarrow>
       put_frame_video net context (track\<lparr>pm_video_buffer := m\<rparr>) (uint (timestamp (pk_header pkt))) (p + pk_nb pkt);
     (err, track, next) \<leftarrow> after_frame tc err track (sequence (pk_header pkt) + 1);
     case next of
       None \<Rightarrow> Some (err, context, track)
     | Some (a, b) \<Rightarrow> packet_video tc net context ring track a b
   }"

text \<open>The requests for a key frame, one per video track of the peer; their return codes are ignored.\<close>

primrec request_keyframes ::
    "nat \<Rightarrow> int \<Rightarrow> 'w rtc_net \<Rightarrow> 'w rtc_context \<Rightarrow> 'w rtc_context option" where
  "request_keyframes 0 i net context = Some context"
| "request_keyframes (Suc k) i net context = do {
     tr \<leftarrow> mem_load (payload (cx_videoTracks context)) i;
     (_, context) \<leftarrow> yang_send_rtcp_fb_pli net context (tr_ssrc tr);
     request_keyframes k (i + 1) net context
   }"

definition track_on_rtp ::
    "track_codec \<Rightarrow> 'w rtc_net \<Rightarrow> 'w rtc_context \<Rightarrow> u8 list \<Rightarrow> play_media \<Rightarrow> rtp_packet \<Rightarrow>
     (errcode \<times> 'w rtc_context \<times> play_media \<times> rtp_packet) option" where
  "track_on_rtp tc net context ring track src = do {
     context \<leftarrow> (if pm_hasRequestKeyframe track = 0
       then request_keyframes (nat (vsize (cx_videoTracks context))) 0 net context else Some context);
     p \<leftarrow> pk_payload src;
     v \<leftarrow> mem_load ring p;
     let src = src\<lparr>pk_nalu_type := uint (tc_nal_type tc v)\<rparr>;
     key \<leftarrow> tc_packet_key tc (pk_nalu_type src) ring (pk_payload src);
     if key then do {
       (err, context, track) \<leftarrow>
         packet_video_key_frame tc net context ring (track\<lparr>pm_hasRequestKeyframe := 1\<rparr>) src;
       Some (err, context, track, src)
     }
     else do {
       let seq = sequence (pk_header src);
       track \<leftarrow> store_packet tc ring track src;
       (err, context, track) \<leftarrow>
         (if pm_lost_sn track = seq then do {
            (sn, tail_sn) \<leftarrow> find_next_lost_sn track (pm_lost_sn track) 0;
            after_search tc net context ring track sn tail_sn
          }
          else Some (Yang_Ok, context, track));
       Some (err, context, track, src)
     }
   }"

section \<open>H.264\<close>

definition load_at :: "u8 list \<Rightarrow> int option \<Rightarrow> int \<Rightarrow> u8 option" where
  "load_at ring p i = do { p \<leftarrow> p; mem_load ring (p + i) }"

definition yang_playtrackH264_is_keyframe :: "int \<Rightarrow> u8 list \<Rightarrow> int option \<Rightarrow> bool option" where
  "yang_playtrackH264_is_keyframe nalu_type ring p =
     (if nalu_type = uint kStapA then do {
        v \<leftarrow> load_at ring p 3;
        Some (v AND kNalTypeMask = YangAvcNaluTypeSPS \<or> v AND kNalTypeMask = YangAvcNaluTypePPS)
      }
      else if nalu_type = uint kFuA then do {
        v \<leftarrow> load_at ring p 1;
        Some (v AND kNalTypeMask = YangAvcNaluTypeIDR)
      }
      else Some (nalu_type = uint YangAvcNaluTypeIDR \<or> nalu_type = uint YangAvcNaluTypeSPS
                 \<or> nalu_type = uint YangAvcNaluTypePPS))"

text \<open>The payload of a cached fragment starts after the fragment header.\<close>

definition yang_playtrackH264_is_keyframe2 :: "int \<Rightarrow> u8 list \<Rightarrow> int option \<Rightarrow> bool option" where
  "yang_playtrackH264_is_keyframe2 nalu_type ring p =
     (if nalu_type = uint kStapA then do {
        v \<leftarrow> load_at ring p 3;
        Some (v AND kNalTypeMask = YangAvcNaluTypeSPS \<or> v AND kNalTypeMask = YangAvcNaluTypePPS)
      }
      else if nalu_type = uint kFuA then do {
        v \<leftarrow> load_at ring p 0;
        Some (v AND kNalTypeMask = YangAvcNaluTypeIDR)
      }
      else Some (nalu_type = uint YangAvcNaluTypeIDR \<or> nalu_type = uint YangAvcNaluTypeSPS
                 \<or> nalu_type = uint YangAvcNaluTypePPS))"

definition h264_track :: track_codec where
  "h264_track =
     \<lparr>tc_stap = uint kStapA, tc_fua = uint kFuA, tc_nal_type = (\<lambda>v. v AND kNalTypeMask),
      tc_packet_key = yang_playtrackH264_is_keyframe, tc_cache_key = yang_playtrackH264_is_keyframe2,
      tc_decode_fua2 = yang_decode_h264_fua2, tc_decode_stap = yang_decode_h264_stap,
      tc_key_byte = 0x17, tc_inter_byte = 0x27,
      tc_fu_head = (\<lambda>f. [fc_nri f OR fc_nalu_type f])\<rparr>"

definition yang_create_playTrackH264 :: "'w rtc_context \<Rightarrow> play_media" where
  "yang_create_playTrackH264 = create_play_media"

definition yang_destroy_playTrackH264 :: "play_media \<Rightarrow> play_media option" where
  "yang_destroy_playTrackH264 track = do {
     stap \<leftarrow> yang_reset_h2645_stap (pm_stapData track);
     Some (track\<lparr>pm_video_buffer := [], pm_stapData := yang_destroy_stap stap\<rparr>)
   }"

definition yang_playtrackH264_clear_cached_video :: "play_media \<Rightarrow> play_media" where
  "yang_playtrackH264_clear_cached_video = clear_cached_video"

definition yang_playtrackH264_copy ::
    "u8 list \<Rightarrow> play_media \<Rightarrow> rtp_packet \<Rightarrow> packet_cache \<Rightarrow> (play_media \<times> packet_cache) option" where
  "yang_playtrackH264_copy = copy_packet h264_track"

definition yang_playtrackH264_put_frame_video ::
    "'w rtc_net \<Rightarrow> 'w rtc_context \<Rightarrow> play_media \<Rightarrow> int \<Rightarrow> int \<Rightarrow> (errcode \<times> 'w rtc_context \<times> play_media) option" where
  "yang_playtrackH264_put_frame_video = put_frame_video"

definition yang_playtrackH264_check_frame_complete :: "play_media \<Rightarrow> u16 \<Rightarrow> u16 \<Rightarrow> bool option" where
  "yang_playtrackH264_check_frame_complete = check_frame_complete h264_track"

definition yang_playtrackH264_find_next_lost_sn :: "play_media \<Rightarrow> u16 \<Rightarrow> u16 \<Rightarrow> (int \<times> u16) option" where
  "yang_playtrackH264_find_next_lost_sn = find_next_lost_sn"

definition yang_playtrackH264_packet_video ::
    "'w rtc_net \<Rightarrow> 'w rtc_context \<Rightarrow> u8 list \<Rightarrow> play_media \<Rightarrow> u16 \<Rightarrow> u16 \<Rightarrow>
     (errcode \<times> 'w rtc_context \<times> play_media) option" where
  "yang_playtrackH264_packet_video = packet_video h264_track"

definition yang_playtrackH264_packet_video_key_frame ::
    "'w rtc_net \<Rightarrow> 'w rtc_context \<Rightarrow> u8 list \<Rightarrow> play_media \<Rightarrow> rtp_packet \<Rightarrow>
     (errcode \<times> 'w rtc_context \<times> play_media) option" where
  "yang_playtrackH264_packet_video_key_frame = packet_video_key_frame h264_track"

definition yang_playtrackH264_packet_video_Raw ::
    "'w rtc_net \<Rightarrow> 'w rtc_context \<Rightarrow> u8 list \<Rightarrow> play_media \<Rightarrow> rtp_packet \<Rightarrow>
     (errcode \<times> 'w rtc_context \<times> play_media) option" where
  "yang_playtrackH264_packet_video_Raw = packet_video_Raw h264_track"

definition yang_playtrackH264_on_rtp ::
    "'w rtc_net \<Rightarrow> 'w rtc_context \<Rightarrow> u8 list \<Rightarrow> play_media \<Rightarrow> rtp_packet \<Rightarrow>
     (errcode \<times> 'w rtc_context \<times> play_media \<times> rtp_packet) option" where
  "yang_playtrackH264_on_rtp = track_on_rtp h264_track"

section \<open>H.265\<close>

text \<open>The third alternative of the aggregation case repeats the first.\<close>

definition yang_playtrackH265_is_keyframe :: "int \<Rightarrow> u8 list \<Rightarrow> int option \<Rightarrow> bool option" where
  "yang_playtrackH265_is_keyframe nalu_type ring p =
     (if nalu_type = uint H265_kStapA then do {
        v \<leftarrow> load_at ring p 4;
        let t = YANG_HEVC_NALU_TYPE v;
        Some (t = YANG_NAL_UNIT_VPS \<or> t = YANG_NAL_UNIT_SPS \<or> t = YANG_NAL_UNIT_VPS)
      }
      else if nalu_type = uint H265_kFuA then do {
        v \<leftarrow> load_at ring p 2;
        let t = YANG_HEVC_NALU_TYPE v;
        Some (YANG_NAL_UNIT_CODED_SLICE_BLA \<le> t \<and> t \<le> YANG_NAL_UNIT_CODED_SLICE_CRA)
      }
      else Some (nalu_type = uint YANG_NAL_UNIT_VPS \<or> nalu_type = uint YANG_NAL_UNIT_SPS
                 \<or> nalu_type = uint YANG_NAL_UNIT_PPS))"

definition yang_playtrackH265_is_keyframe2 :: "int \<Rightarrow> u8 list \<Rightarrow> int option \<Rightarrow> bool option" where
  "yang_playtrackH265_is_keyframe2 nalu_type ring p =
     (if nalu_type = uint H265_kStapA then do {
        v \<leftarrow> load_at ring p 4;
        let t = YANG_HEVC_NALU_TYPE v;
        Some (t = YANG_NAL_UNIT_VPS \<or> t = YANG_NAL_UNIT_SPS \<or> t = YANG_NAL_UNIT_VPS)
      }
      else if nalu_type = uint H265_kFuA then do {
        v \<leftarrow> load_at ring p 0;
        Some (v AND kNalTypeMask = YangAvcNaluTypeIDR)
      }
      else Some (nalu_type = uint YANG_NAL_UNIT_VPS \<or> nalu_type = uint YANG_NAL_UNIT_SPS
                 \<or> nalu_type = uint YANG_NAL_UNIT_PPS))"

definition h265_track :: track_codec where
  "h265_track =
     \<lparr>tc_stap = uint H265_kStapA, tc_fua = uint H265_kFuA, tc_nal_type = YANG_HEVC_NALU_TYPE,
      tc_packet_key = yang_playtrackH265_is_keyframe, tc_cache_key = yang_playtrackH265_is_keyframe2,
      tc_decode_fua2 = yang_decode_h265_fua2, tc_decode_stap = yang_decode_h265_stap,
      tc_key_byte = 0x1c, tc_inter_byte = 0x2c,
      tc_fu_head = (\<lambda>f. [push_bit 1 (fc_nalu_type f), 1])\<rparr>"

definition yang_create_playTrackH265 :: "'w rtc_context \<Rightarrow> play_media" where
  "yang_create_playTrackH265 = create_play_media"

definition yang_destroy_playTrackH265 :: "play_media \<Rightarrow> play_media option" where
  "yang_destroy_playTrackH265 track = do {
     stap \<leftarrow> yang_reset_h2645_stap (pm_stapData track);
     Some (track\<lparr>pm_video_buffer := [], pm_stapData := yang_destroy_stap stap\<rparr>)
   }"

definition yang_playtrackH265_clear_cached_video :: "play_media \<Rightarrow> play_media" where
  "yang_playtrackH265_clear_cached_video = clear_cached_video"

definition yang_playtrackH265_copy ::
    "u8 list \<Rightarrow> play_media \<Rightarrow> rtp_packet \<Rightarrow> packet_cache \<Rightarrow> (play_media \<times> packet_cache) option" where
  "yang_playtrackH265_copy = copy_packet h265_track"

definition yang_playtrackH265_put_frame_video ::
    "'w rtc_net \<Rightarrow> 'w rtc_context \<Rightarrow> play_media \<Rightarrow> int \<Rightarrow> int \<Rightarrow> (errcode \<times> 'w rtc_context \<times> play_media) option" where
  "yang_playtrackH265_put_frame_video = put_frame_video"

definition yang_playtrackH265_check_frame_complete :: "play_media \<Rightarrow> u16 \<Rightarrow> u16 \<Rightarrow> bool option" where
  "yang_playtrackH265_check_frame_complete = check_frame_complete h265_track"

definition yang_playtrackH265_find_next_lost_sn :: "play_media \<Rightarrow> u16 \<Rightarrow> u16 \<Rightarrow> (int \<times> u16) option" where
  "yang_playtrackH265_find_next_lost_sn = find_next_lost_sn"

definition yang_playtrackH265_packet_video ::
    "'w rtc_net \<Rightarrow> 'w rtc_context \<Rightarrow> u8 list \<Rightarrow> play_media \<Rightarrow> u16 \<Rightarrow> u16 \<Rightarrow>
     (errcode \<times> 'w rtc_context \<times> play_media) option" where
  "yang_playtrackH265_packet_video = packet_video h265_track"

definition yang_playtrackH265_packet_video_key_frame ::
    "'w rtc_net \<Rightarrow> 'w rtc_context \<Rightarrow> u8 list \<Rightarrow> play_media \<Rightarrow> rtp_packet \<Rightarrow>
     (errcode \<times> 'w rtc_context \<times> play_media) option" where
  "yang_playtrackH265_packet_video_key_frame = packet_video_key_frame h265_track"

definition yang_playtrackH265_packet_video_Raw ::
    "'w rtc_net \<Rightarrow> 'w rtc_context \<Rightarrow> u8 list \<Rightarrow> play_media \<Rightarrow> rtp_packet \<Rightarrow>
     (errcode \<times> 'w rtc_context \<times> play_media) option" where
  "yang_playtrackH265_packet_video_Raw = packet_video_Raw h265_track"

definition yang_playtrackH265_on_rtp ::
    "'w rtc_net \<Rightarrow> 'w rtc_context \<Rightarrow> u8 list \<Rightarrow> play_media \<Rightarrow> rtp_packet \<Rightarrow>
     (errcode \<times> 'w rtc_context \<times> play_media \<times> rtp_packet) option" where
  "yang_playtrackH265_on_rtp = track_on_rtp h265_track"

end
