(* ===== verification/Sort_Buffer.thy ===== *)
theory Sort_Buffer
  imports Video_Meta
begin

text \<open>
  The buffer that is meant to sort audio frames by their time: \<open>yangutil/buffer2/YangSortBuffer.c\<close>, with the frame
  copies of \<open>yangutil/sys/YangAvtype.c\<close>. \<open>frames\<close> is an array of pointers to allocated frames; a pointer is the number of
  the allocation (\<open>sb_store\<close>), so two entries of the array may be the same frame. The payloads of the frames all
  lie in one array (\<open>sb_bufferManager\<close>); a frame of the store therefore has an offset but no memory of its own.
\<close>

section \<open>Copies of frames (YangAvtype.c)\<close>

definition yang_frame_copy_nobuffer :: "yang_frame \<Rightarrow> yang_frame \<Rightarrow> yang_frame" where
  "yang_frame_copy_nobuffer src dst =
     dst\<lparr>fr_mediaType := fr_mediaType src, fr_uid := fr_uid src, fr_frametype := fr_frametype src,
         fr_nb := fr_nb src, fr_pts := fr_pts src, fr_dts := fr_dts src\<rparr>"

definition yang_frame_copy :: "yang_frame \<Rightarrow> yang_frame \<Rightarrow> yang_frame" where
  "yang_frame_copy src dst =
     (yang_frame_copy_nobuffer src dst)\<lparr>fr_mem := fr_mem src, fr_payload := fr_payload src\<rparr>"

text \<open>The payload of the target lies in \<open>m\<close>.\<close>

definition yang_frame_copy_buffer :: "yang_frame \<Rightarrow> yang_frame \<Rightarrow> u8 list \<Rightarrow> (yang_frame \<times> u8 list) option" where
  "yang_frame_copy_buffer src dst m = do {
     let dst = yang_frame_copy_nobuffer src dst;
     bs \<leftarrow> mem_read (fr_mem src) (fr_payload src) (fr_nb src);
     m \<leftarrow> mem_write m (fr_payload dst) bs;
     Some (dst, m)
   }"

section \<open>The buffer\<close>

record sort_frame =
  sf_pts :: int
  sf_frame :: yang_frame

text \<open>Before the frames are allocated the array is empty, which stands for the NULL pointer.\<close>

record sort_buffer =
  sb_capacity :: u32
  sb_cacheNum :: int
  sb_vsize :: u32
  sb_lastPts :: int
  sb_frames :: "nat list"
  sb_store :: "sort_frame list"
  sb_bufferManager :: "u8 list"

definition frame_at :: "sort_buffer \<Rightarrow> int \<Rightarrow> (nat \<times> sort_frame) option" where
  "frame_at sb i = do {
     p \<leftarrow> mem_load (sb_frames sb) i;
     f \<leftarrow> mem_load (sb_store sb) (int p);
     Some (p, f)
   }"

text \<open>The search: both inner conditions of the C code are the same, so it never goes to the right.\<close>

function sort_index_loop :: "sort_buffer \<Rightarrow> int \<Rightarrow> int \<Rightarrow> int \<Rightarrow> int option" where
  "sort_index_loop sb value low high =
     (if low \<le> high then
        case frame_at sb ((high + low) div 2) of
          None \<Rightarrow> None
        | Some (_, f) \<Rightarrow>
            if value = sf_pts f then Some (- 1)
            else if sf_pts f > value then sort_index_loop sb value low ((high + low) div 2 - 1)
            else Some ((high + low) div 2)
      else Some low)"
  by pat_completeness auto
termination
  by (relation "measure (\<lambda>(sb, v, low, high). nat (high - low + 1))") auto

declare sort_index_loop.simps [simp del]

definition yang_get_sortBuffer_index :: "sort_buffer \<Rightarrow> int \<Rightarrow> int \<Rightarrow> int option" where
  "yang_get_sortBuffer_index sb value alen = sort_index_loop sb value 0 alen"

text \<open>\<open>vec[i]->pts = value\<close>, then the frame is copied, then the new size.\<close>

definition set_frame :: "sort_buffer \<Rightarrow> int \<Rightarrow> int \<Rightarrow> yang_frame \<Rightarrow> u32 \<Rightarrow> sort_buffer option" where
  "set_frame sb i value fr n = do {
     (p, f) \<leftarrow> frame_at sb i;
     (dst, m) \<leftarrow> yang_frame_copy_buffer fr (sf_frame f) (sb_bufferManager sb);
     store \<leftarrow> mem_store (sb_store sb) (int p) \<lparr>sf_pts = value, sf_frame = dst\<rparr>;
     Some (sb\<lparr>sb_store := store, sb_bufferManager := m, sb_vsize := n\<rparr>)
   }"

definition yang_sortBuffer_insert :: "sort_buffer \<Rightarrow> int \<Rightarrow> yang_frame \<Rightarrow> (errcode \<times> sort_buffer) option" where
  "yang_sortBuffer_insert sb value fr =
     (if sb_frames sb = [] then Some (1, sb)
      else do {
        let alen = sint (sb_vsize sb);
        if alen = 0 then do {
          sb \<leftarrow> set_frame sb 0 value fr 1;
          Some (Yang_Ok, sb)
        }
        else do {
          (_, last) \<leftarrow> frame_at sb (alen - 1);
          if value > sf_pts last then do {
            sb \<leftarrow> set_frame sb alen value fr (word_of_int (alen + 1));
            Some (Yang_Ok, sb)
          }
          else do {
            index \<leftarrow> yang_get_sortBuffer_index sb value alen;
            if index = - 1 then Some (1, sb)
            else do {
              ps \<leftarrow> mem_read (sb_frames sb) index (alen - index);
              frames \<leftarrow> mem_write (sb_frames sb) (index + 1) ps;
              sb \<leftarrow> set_frame (sb\<lparr>sb_frames := frames\<rparr>) index value fr (word_of_int (alen + 1));
              Some (Yang_Ok, sb)
            }
          }
        }
      })"

definition zero_frame :: yang_frame where
  "zero_frame = \<lparr>fr_mediaType = 0, fr_uid = 0, fr_frametype = 0, fr_nb = 0, fr_pts = 0, fr_dts = 0,
     fr_mem = [], fr_payload = 0\<rparr>"

definition yang_sortBuffer_initFrames :: "sort_buffer \<Rightarrow> int \<Rightarrow> int \<Rightarrow> sort_buffer" where
  "yang_sortBuffer_initFrames sb pnum unitsize =
     (let sb = sb\<lparr>sb_capacity := word_of_int pnum\<rparr>;
          sb = (if sb_bufferManager sb = [] then sb\<lparr>sb_bufferManager := replicate (nat (unitsize * pnum)) 0\<rparr> else sb)
      in if sb_frames sb = []
         then sb\<lparr>sb_frames := [0..<nat pnum],
                 sb_store := map (\<lambda>i. \<lparr>sf_pts = 0, sf_frame = zero_frame\<lparr>fr_payload := int i * unitsize\<rparr>\<rparr>) [0..<nat pnum]\<rparr>
         else sb)"

definition yang_sortBuffer_putFrame :: "sort_buffer \<Rightarrow> int \<Rightarrow> yang_frame \<Rightarrow> sort_buffer option" where
  "yang_sortBuffer_putFrame sb pts fr =
     (if sb_vsize sb \<ge> sb_capacity sb then Some sb
      else if pts \<le> sb_lastPts sb then Some sb
      else do {
        (_, sb) \<leftarrow> yang_sortBuffer_insert sb pts fr;
        Some sb
      })"

text \<open>\<open>vsize - cacheNum\<close> is a \<open>uint32_t\<close>: it is less than 1 only when it is 0.\<close>

definition yang_sortBuffer_removeFirst :: "sort_buffer \<Rightarrow> sort_buffer option" where
  "yang_sortBuffer_removeFirst sb =
     (if sb_vsize sb - word_of_int (sb_cacheNum sb) < 1 \<or> sb_vsize sb < 1 then Some sb
      else do {
        (_, f) \<leftarrow> frame_at sb 0;
        let n = uint (sb_vsize sb) - 1;
        ps \<leftarrow> mem_read (sb_frames sb) 1 n;
        frames \<leftarrow> mem_write (sb_frames sb) 0 ps;
        Some (sb\<lparr>sb_lastPts := sf_pts f, sb_frames := frames, sb_vsize := sb_vsize sb - 1\<rparr>)
      })"

text \<open>NULL is \<open>None\<close> inside.\<close>

definition yang_sortBuffer_getCurFrameRef :: "sort_buffer \<Rightarrow> yang_frame option option" where
  "yang_sortBuffer_getCurFrameRef sb =
     (if sb_vsize sb - word_of_int (sb_cacheNum sb) < 1 then Some None
      else do {
        (_, f) \<leftarrow> frame_at sb 0;
        Some (Some ((sf_frame f)\<lparr>fr_mem := sb_bufferManager sb\<rparr>))
      })"

text \<open>\<open>calloc\<close> has set \<open>lastPts\<close> to 0.\<close>

definition yang_create_sortBuffer :: "int \<Rightarrow> sort_buffer" where
  "yang_create_sortBuffer cacheNum =
     \<lparr>sb_capacity = 5, sb_cacheNum = cacheNum, sb_vsize = 0, sb_lastPts = 0, sb_frames = [], sb_store = [],
      sb_bufferManager = []\<rparr>"

definition yang_destroy_sortBuffer :: "sort_buffer \<Rightarrow> sort_buffer" where
  "yang_destroy_sortBuffer sb = sb\<lparr>sb_frames := [], sb_store := [], sb_bufferManager := []\<rparr>"

end
