(* ===== verification/Play_Stream.thy ===== *)
theory Play_Stream
  imports Play_Media Sort_Buffer Rtcp_Compound
begin

text \<open>
  The receiving side of a session: the tracks (\<open>yangrtc/YangPlayTrack.c\<close>, \<open>YangPlayTrackAudio.c\<close>,
  \<open>YangPlayTrackVideo.c\<close>) and the stream that dispatches packets to them (\<open>YangPlayStream.c\<close>).

  The receive window of a track is shared with its list of missing packets; the model keeps it there (\<open>rn_rtp\<close>).
  \<open>ring\<close> is the memory of the ring of received packets.
\<close>

section \<open>Tracks (YangPlayTrack.c)\<close>

record play_track =
  tk_last_seq :: u16
  tk_isAudio :: bool
  tk_uid :: int
  tk_ssrc :: u32
  tk_hasAudioBuffer :: int
  tk_last_sender_report_rtp_time :: int
  tk_last_sender_report_sys_time :: u64
  tk_nack_receiver :: recv_nack
  tk_audioFrame :: yang_frame
  tk_last_sender_report_ntp :: yang_ntp
  tk_sortBuffer :: "sort_buffer option"

text \<open>The structure of the missing packets as \<open>calloc\<close> leaves it.\<close>

definition zero_recvnack :: recv_nack where
  "zero_recvnack =
     \<lparr>rn_rtt = 0, rn_preCheckTime = 0, rn_maxQueueSize = 0, rn_rtp = yang_create_nackBuffer 0,
      rn_opts = \<lparr>no_maxReqCount = 0, no_maxAliveTime = 0, no_firstNackInterval = 0, no_nackInterval = 0,
        no_maxNackInterval = 0, no_minNackInterval = 0, no_nackCheckInterval = 0\<rparr>,
      rn_rtcp = zero_rtcp, rn_queue = \<lparr>nl_vsize = 0, nl_capacity = 0, nl_nackinfos = []\<rparr>\<rparr>"

definition yang_create_playTrack :: "'w rtc_context \<Rightarrow> bool \<Rightarrow> play_track option" where
  "yang_create_playTrack context is_audio = do {
     s \<leftarrow> (if is_audio then Some (tr_ssrc (cx_audioTrack context))
          else if vsize (cx_videoTracks context) > 0
          then do { tr \<leftarrow> mem_load (payload (cx_videoTracks context)) 0; Some (tr_ssrc tr) }
          else Some 0);
     let n = (if is_audio then 100 else 1000);
     Some \<lparr>tk_last_seq = 0, tk_isAudio = is_audio, tk_uid = cx_uid context, tk_ssrc = s,
        tk_hasAudioBuffer = cx_enableAudioBuffer context, tk_last_sender_report_rtp_time = 0,
        tk_last_sender_report_sys_time = 0,
        tk_nack_receiver = yang_create_recvnack zero_recvnack (yang_create_nackBuffer n) (n * 2 div 3),
        tk_audioFrame = zero_frame, tk_last_sender_report_ntp = \<lparr>ntp_ntp = 0, ntp_second = 0, ntp_fractions = 0\<rparr>,
        tk_sortBuffer = None\<rparr>
   }"

definition yang_destroy_playTrack :: "play_track \<Rightarrow> play_track" where
  "yang_destroy_playTrack track =
     (let nack = tk_nack_receiver track
      in track\<lparr>tk_nack_receiver := yang_destroy_recvnack (nack\<lparr>rn_rtp := yang_destroy_nackBuffer (rn_rtp nack)\<rparr>)\<rparr>)"

text \<open>The loop over the video tracks: \<open>k\<close> left from \<open>i\<close>.\<close>

primrec any_has_ssrc :: "nat \<Rightarrow> int \<Rightarrow> rtc_track list \<Rightarrow> u32 \<Rightarrow> int option" where
  "any_has_ssrc 0 i ts s = Some 0"
| "any_has_ssrc (Suc k) i ts s = do {
     tr \<leftarrow> mem_load ts i;
     if yang_has_ssrc tr s \<noteq> 0 then Some 1 else any_has_ssrc k (i + 1) ts s
   }"

definition yang_playtrack_has_ssrc :: "'w rtc_context \<Rightarrow> play_track \<Rightarrow> u32 \<Rightarrow> int option" where
  "yang_playtrack_has_ssrc context track s =
     (if tk_isAudio track then Some (if yang_has_ssrc (cx_audioTrack context) s \<noteq> 0 then 1 else 0)
      else any_has_ssrc (nat (vsize (cx_videoTracks context))) 0 (payload (cx_videoTracks context)) s)"

text \<open>
  \<open>nackInterval * 0.8 + rtt * 0.2\<close> is computed in \<open>double\<close> and cut to an integer: the parameter \<open>mix\<close> of the interval
  and the round-trip time. The product with 1000 is an \<open>int32_t\<close>.
\<close>

definition yang_recvnack_update_rtt :: "(int \<Rightarrow> int \<Rightarrow> int) \<Rightarrow> recv_nack \<Rightarrow> int \<Rightarrow> recv_nack option" where
  "yang_recvnack_update_rtt mix nack rtt = do {
     rtt \<leftarrow> int32 (rtt * 1000);
     let opts = rn_opts nack;
     let n = (if rtt > no_nackInterval opts then mix (no_nackInterval opts) rtt else rtt);
     Some (nack\<lparr>rn_rtt := rtt, rn_opts := opts\<lparr>no_nackInterval := min n (no_maxNackInterval opts)\<rparr>\<rparr>)
   }"

definition yang_playtrack_update_rtt :: "(int \<Rightarrow> int \<Rightarrow> int) \<Rightarrow> play_track \<Rightarrow> int \<Rightarrow> play_track option" where
  "yang_playtrack_update_rtt mix track rtt = do {
     nack \<leftarrow> yang_recvnack_update_rtt mix (tk_nack_receiver track) rtt;
     Some (track\<lparr>tk_nack_receiver := nack\<rparr>)
   }"

definition yang_playtrack_update_send_report_time ::
    "'w rtc_net \<Rightarrow> 'w \<Rightarrow> play_track \<Rightarrow> yang_ntp \<Rightarrow> u32 \<Rightarrow> 'w \<times> play_track" where
  "yang_playtrack_update_send_report_time net w track ntp rtp_time =
     (let (now, w) = net_time net w
      in (w, track\<lparr>tk_last_sender_report_ntp := ntp, tk_last_sender_report_rtp_time := uint rtp_time,
                   tk_last_sender_report_sys_time := now\<rparr>))"

definition yang_playtrack_send_rtcp_rr ::
    "'w rtc_net \<Rightarrow> 'w rtc_context \<Rightarrow> bool \<Rightarrow> play_track \<Rightarrow> (errcode \<times> 'w rtc_context) option" where
  "yang_playtrack_send_rtcp_rr net context isAudio track =
     yang_send_rtcp_rr net context isAudio (tk_ssrc track) (rn_rtp (tk_nack_receiver track))
       (tk_last_sender_report_sys_time track) (tk_last_sender_report_ntp track)"

definition yang_playtrack_send_rtcp_xr_rrtr ::
    "'w rtc_net \<Rightarrow> 'w rtc_context \<Rightarrow> play_track \<Rightarrow> (errcode \<times> 'w rtc_context) option" where
  "yang_playtrack_send_rtcp_xr_rrtr net context track = yang_send_rtcp_xr_rrtr net context (tk_ssrc track)"

definition yang_playtrack_do_check_send_nacks ::
    "'w rtc_net \<Rightarrow> 'w rtc_context \<Rightarrow> play_track \<Rightarrow> u32 \<Rightarrow> (errcode \<times> 'w rtc_context \<times> play_track \<times> u32) option" where
  "yang_playtrack_do_check_send_nacks net context track timeout_nacks = do {
     (err, context, nack, timeout_nacks) \<leftarrow>
       yang_check_send_nacks net context (tk_nack_receiver track) (tk_ssrc track) timeout_nacks;
     Some (err, context, track\<lparr>tk_nack_receiver := nack\<rparr>, timeout_nacks)
   }"

text \<open>
  A packet that was missing is taken off the list. Any other one moves the window, and the gap it reveals is put on
  the list; the clock that stamps the entries of a gap is read once here, once per entry in C. The return code of the
  NACK sender is ignored.
\<close>

definition yang_playtrack_on_nack ::
    "'w rtc_net \<Rightarrow> 'w rtc_context \<Rightarrow> play_track \<Rightarrow> rtp_packet \<Rightarrow> (errcode \<times> 'w rtc_context \<times> play_track) option" where
  "yang_playtrack_on_nack net context track pkt = do {
     let seq = sequence (pk_header pkt);
     let nack = tk_nack_receiver track;
     found \<leftarrow> (if nl_vsize (rn_queue nack) > 0 then yang_recvnack_find nack seq else Some None);
     if found \<noteq> None then do {
       nack \<leftarrow> yang_recvnack_remove nack seq;
       Some (Yang_Ok, context, track\<lparr>tk_nack_receiver := nack\<rparr>)
     }
     else do {
       let (_, q, nack_first, nack_last) = yang_nackbuffer_update2 (rn_rtp nack) seq 0 0;
       let nack = nack\<lparr>rn_rtp := q\<rparr>;
       (nack, w) \<leftarrow>
         (if yang_rtp_seq_distance nack_first nack_last > 0 then do {
            let (now, w) = net_time net (cx_world context);
            nack \<leftarrow> yang_recvnack_insert (sint now) nack nack_first nack_last;
            nack \<leftarrow> yang_recvnack_check_queue_size nack;
            Some (nack, w)
          }
          else Some (nack, cx_world context));
       let context = context\<lparr>cx_world := w\<rparr>;
       q \<leftarrow> yang_nackbuffer_set (rn_rtp nack) seq seq;
       let track = track\<lparr>tk_nack_receiver := nack\<lparr>rn_rtp := q\<rparr>\<rparr>;
       if yang_recvnack_isEmpty (tk_nack_receiver track) = 0 then do {
         (_, context, track, _) \<leftarrow> yang_playtrack_do_check_send_nacks net context track 0;
         Some (Yang_Ok, context, track)
       }
       else Some (Yang_Ok, context, track)
     }
   }"

section \<open>Audio (YangPlayTrackAudio.c)\<close>

definition receive_audio :: "'w rtc_net \<Rightarrow> 'w rtc_context \<Rightarrow> yang_frame \<Rightarrow> 'w rtc_context" where
  "receive_audio net context fr =
     (case net_receiveAudio net of None \<Rightarrow> context | Some f \<Rightarrow> context\<lparr>cx_world := f (cx_world context) fr\<rparr>)"

text \<open>A frame through the sort buffer: put, take the first, deliver it, remove it.\<close>

definition sorted_audio ::
    "'w rtc_net \<Rightarrow> 'w rtc_context \<Rightarrow> sort_buffer \<Rightarrow> yang_frame \<Rightarrow> ('w rtc_context \<times> sort_buffer) option" where
  "sorted_audio net context sb fr = do {
     sb \<leftarrow> yang_sortBuffer_putFrame sb (fr_pts fr) fr;
     r \<leftarrow> yang_sortBuffer_getCurFrameRef sb;
     case r of
       None \<Rightarrow> Some (context, sb)
     | Some f \<Rightarrow> do {
         sb \<leftarrow> yang_sortBuffer_removeFirst sb;
         Some (receive_audio net context f, sb)
       }
   }"

definition yang_playtrackAudio_on_rtp ::
    "'w rtc_net \<Rightarrow> 'w rtc_context \<Rightarrow> u8 list \<Rightarrow> play_track \<Rightarrow> rtp_packet \<Rightarrow>
     (errcode \<times> 'w rtc_context \<times> play_track) option" where
  "yang_playtrackAudio_on_rtp net context ring track pkt =
     (case pk_payload pkt of
        None \<Rightarrow> Some (Yang_Ok, context, track)
      | Some p \<Rightarrow> do {
          let fr = (tk_audioFrame track)\<lparr>fr_uid := cx_uid context, fr_mem := ring, fr_payload := p,
                     fr_nb := pk_nb pkt, fr_pts := uint (timestamp (pk_header pkt))\<rparr>;
          let track = track\<lparr>tk_audioFrame := fr\<rparr>;
          case tk_sortBuffer track of
            None \<Rightarrow> Some (Yang_Ok, receive_audio net context fr, track)
          | Some sb \<Rightarrow> do {
              (context, sb) \<leftarrow> sorted_audio net context sb fr;
              Some (Yang_Ok, context, track\<lparr>tk_sortBuffer := Some sb\<rparr>)
            }
        })"

definition yang_playtrackAudio_check_send_nacks ::
    "'w rtc_net \<Rightarrow> 'w rtc_context \<Rightarrow> play_track \<Rightarrow> (errcode \<times> 'w rtc_context \<times> play_track) option" where
  "yang_playtrackAudio_check_send_nacks net context track = do {
     (err, context, track, _) \<leftarrow> yang_playtrack_do_check_send_nacks net context track 0;
     Some (err, context, track)
   }"

definition yang_playtrackAudio_send_rtcp_rr ::
    "'w rtc_net \<Rightarrow> 'w rtc_context \<Rightarrow> play_track \<Rightarrow> (errcode \<times> 'w rtc_context) option" where
  "yang_playtrackAudio_send_rtcp_rr net context track = yang_playtrack_send_rtcp_rr net context True track"

definition yang_create_playTrackAudio :: "'w rtc_context \<Rightarrow> play_track option" where
  "yang_create_playTrackAudio context = do {
     track \<leftarrow> yang_create_playTrack context True;
     Some (if tk_hasAudioBuffer track \<noteq> 0 \<and> tk_sortBuffer track = None
           then track\<lparr>tk_sortBuffer := Some (yang_sortBuffer_initFrames (yang_create_sortBuffer 3) 8 1500)\<rparr>
           else track)
   }"

definition yang_destroy_playTrackAudio :: "play_track \<Rightarrow> play_track" where
  "yang_destroy_playTrackAudio track = yang_destroy_playTrack (track\<lparr>tk_sortBuffer := None\<rparr>)"

section \<open>Video (YangPlayTrackVideo.c)\<close>

text \<open>\<open>YangPlayTrackSession\<close>: at most one of the two tracks is there.\<close>

record video_track =
  vt_track :: play_track
  vt_h264Track :: "play_media option"
  vt_h265Track :: "play_media option"

text \<open>The return codes of the two tracks are ignored; the second one gets the packet with the type the first one set.\<close>

definition yang_playvideoTrack_on_rtp ::
    "'w rtc_net \<Rightarrow> 'w rtc_context \<Rightarrow> u8 list \<Rightarrow> video_track \<Rightarrow> rtp_packet \<Rightarrow>
     (errcode \<times> 'w rtc_context \<times> video_track \<times> rtp_packet) option" where
  "yang_playvideoTrack_on_rtp net context ring vt src = do {
     (context, t264, src) \<leftarrow>
       (case vt_h264Track vt of
          None \<Rightarrow> Some (context, None, src)
        | Some t \<Rightarrow> do {
            (_, context, t, src) \<leftarrow> yang_playtrackH264_on_rtp net context ring t src;
            Some (context, Some t, src)
          });
     (context, t265, src) \<leftarrow>
       (case vt_h265Track vt of
          None \<Rightarrow> Some (context, None, src)
        | Some t \<Rightarrow> do {
            (_, context, t, src) \<leftarrow> yang_playtrackH265_on_rtp net context ring t src;
            Some (context, Some t, src)
          });
     Some (Yang_Ok, context, vt\<lparr>vt_h264Track := t264, vt_h265Track := t265\<rparr>, src)
   }"

definition yang_playvideoTrack_check_send_nacks ::
    "'w rtc_net \<Rightarrow> 'w rtc_context \<Rightarrow> video_track \<Rightarrow> (errcode \<times> 'w rtc_context \<times> video_track) option" where
  "yang_playvideoTrack_check_send_nacks net context vt = do {
     (err, context, track, _) \<leftarrow> yang_playtrack_do_check_send_nacks net context (vt_track vt) 0;
     Some (err, context, vt\<lparr>vt_track := track\<rparr>)
   }"

definition yang_playvideoTrack_setRequestKeyframeState :: "video_track \<Rightarrow> int \<Rightarrow> video_track" where
  "yang_playvideoTrack_setRequestKeyframeState vt state =
     vt\<lparr>vt_h264Track := map_option (pm_hasRequestKeyframe_update (\<lambda>_. state)) (vt_h264Track vt),
        vt_h265Track := map_option (pm_hasRequestKeyframe_update (\<lambda>_. state)) (vt_h265Track vt)\<rparr>"

definition yang_playvideoTrack_send_rtcp_rr ::
    "'w rtc_net \<Rightarrow> 'w rtc_context \<Rightarrow> play_track \<Rightarrow> (errcode \<times> 'w rtc_context) option" where
  "yang_playvideoTrack_send_rtcp_rr net context track = yang_playtrack_send_rtcp_rr net context False track"

definition yang_create_playvideoTrack :: "'w rtc_context \<Rightarrow> video_track option" where
  "yang_create_playvideoTrack context = do {
     track \<leftarrow> yang_create_playTrack context False;
     Some \<lparr>vt_track = track,
        vt_h264Track = (if cx_codec context = Yang_VED_264 then Some (yang_create_playTrackH264 context) else None),
        vt_h265Track = (if cx_codec context = Yang_VED_265 then Some (yang_create_playTrackH265 context) else None)\<rparr>
   }"

definition yang_destroy_playvideoTrack :: "video_track \<Rightarrow> video_track" where
  "yang_destroy_playvideoTrack vt =
     vt\<lparr>vt_track := yang_destroy_playTrack (vt_track vt), vt_h264Track := None, vt_h265Track := None\<rparr>"

section \<open>The stream (YangPlayStream.c)\<close>

text \<open>The state of the congestion control, which is compiled out, is left out.\<close>

record play_stream =
  py_request_keyframe :: u8
  py_twccFbCount :: u8
  py_twccEnabled :: u16
  py_rtpBuffer :: rtp_buffer
  py_rtp :: rtp_packet
  py_buf :: yang_buffer
  py_audioTrack :: play_track
  py_videoTrack :: video_track

definition yang_rtcplay_on_twcc :: "play_stream \<Rightarrow> u16 \<Rightarrow> errcode \<times> play_stream" where
  "yang_rtcplay_on_twcc play sn = (Yang_Ok, play)"

text \<open>The tracks are found by the source of a packet: whether the track is the one.\<close>

definition yang_rtcplay_get_video_track :: "'w rtc_context \<Rightarrow> play_stream \<Rightarrow> u32 \<Rightarrow> bool option" where
  "yang_rtcplay_get_video_track context play s = do {
     r \<leftarrow> yang_playtrack_has_ssrc context (vt_track (py_videoTrack play)) s;
     Some (r \<noteq> 0)
   }"

definition yang_rtcplay_get_audio_track :: "'w rtc_context \<Rightarrow> play_stream \<Rightarrow> u32 \<Rightarrow> bool option" where
  "yang_rtcplay_get_audio_track context play s = do {
     r \<leftarrow> yang_playtrack_has_ssrc context (py_audioTrack play) s;
     Some (r \<noteq> 0)
   }"

definition yang_rtcplay_update_rtt ::
    "(int \<Rightarrow> int \<Rightarrow> int) \<Rightarrow> 'w rtc_context \<Rightarrow> play_stream \<Rightarrow> u32 \<Rightarrow> int \<Rightarrow> play_stream option" where
  "yang_rtcplay_update_rtt mix context play s rtt = do {
     video \<leftarrow> yang_rtcplay_get_video_track context play s;
     if video then do {
       t \<leftarrow> yang_playtrack_update_rtt mix (vt_track (py_videoTrack play)) rtt;
       Some (play\<lparr>py_videoTrack := (py_videoTrack play)\<lparr>vt_track := t\<rparr>\<rparr>)
     }
     else do {
       audio \<leftarrow> yang_rtcplay_get_audio_track context play s;
       if audio then do {
         t \<leftarrow> yang_playtrack_update_rtt mix (py_audioTrack play) rtt;
         Some (play\<lparr>py_audioTrack := t\<rparr>)
       }
       else Some play
     }
   }"

definition yang_rtcplay_update_send_report_time ::
    "'w rtc_net \<Rightarrow> 'w rtc_context \<Rightarrow> play_stream \<Rightarrow> u32 \<Rightarrow> yang_ntp \<Rightarrow> u32 \<Rightarrow> ('w rtc_context \<times> play_stream) option" where
  "yang_rtcplay_update_send_report_time net context play s ntp rtp_time = do {
     video \<leftarrow> yang_rtcplay_get_video_track context play s;
     let (w, t) = (if video then yang_playtrack_update_send_report_time net (cx_world context)
                       (vt_track (py_videoTrack play)) ntp rtp_time
                   else (cx_world context, vt_track (py_videoTrack play)));
     let play = play\<lparr>py_videoTrack := (py_videoTrack play)\<lparr>vt_track := t\<rparr>\<rparr>;
     audio \<leftarrow> yang_rtcplay_get_audio_track context play s;
     let (w, t) = (if audio then yang_playtrack_update_send_report_time net w (py_audioTrack play) ntp rtp_time
                   else (w, py_audioTrack play));
     Some (context\<lparr>cx_world := w\<rparr>, play\<lparr>py_audioTrack := t\<rparr>)
   }"

definition yang_rtcplay_send_rtcp_rr ::
    "'w rtc_net \<Rightarrow> 'w rtc_context \<Rightarrow> play_stream \<Rightarrow> (errcode \<times> 'w rtc_context) option" where
  "yang_rtcplay_send_rtcp_rr net context play = do {
     (err, context) \<leftarrow> yang_playvideoTrack_send_rtcp_rr net context (vt_track (py_videoTrack play));
     if err \<noteq> Yang_Ok then Some (err, context)
     else yang_playtrackAudio_send_rtcp_rr net context (py_audioTrack play)
   }"

definition yang_rtcplay_send_rtcp_xr_rrtr ::
    "'w rtc_net \<Rightarrow> 'w rtc_context \<Rightarrow> play_stream \<Rightarrow> (errcode \<times> 'w rtc_context) option" where
  "yang_rtcplay_send_rtcp_xr_rrtr net context play = do {
     (err, context) \<leftarrow> yang_playtrack_send_rtcp_xr_rrtr net context (vt_track (py_videoTrack play));
     if err \<noteq> Yang_Ok then Some (err, context)
     else yang_playtrack_send_rtcp_xr_rrtr net context (py_audioTrack play)
   }"

text \<open>
  A packet that cannot be unprotected: its header is decoded, only for the log. The structure is zero but for the flag.
\<close>

definition log_header :: "u8 list \<Rightarrow> int \<Rightarrow> unit option" where
  "log_header data nb = do {
     _ \<leftarrow> yang_decode_rtpHeader (yang_init_buffer data 0 nb) (zero_header\<lparr>ignore_padding := True\<rparr>);
     Some ()
   }"

text \<open>What the tracks do with a decoded packet, and the statistics; the last component tells which track it was.\<close>

definition track_packet ::
    "'w rtc_net \<Rightarrow> 'w rtc_context \<Rightarrow> play_stream \<Rightarrow> (errcode \<times> 'w rtc_context \<times> play_stream \<times> bool) option" where
  "track_packet net context play = do {
     let s = ssrc (pk_header (py_rtp play));
     let ring = rb_buffer (py_rtpBuffer play);
     audio \<leftarrow> yang_rtcplay_get_audio_track context play s;
     video \<leftarrow> yang_rtcplay_get_video_track context play s;
     if audio then do {
       let rtp = (py_rtp play)\<lparr>pk_frame_type := YangFrameTypeAudio\<rparr>;
       (err, context, t) \<leftarrow> yang_playtrackAudio_on_rtp net context ring (py_audioTrack play) rtp;
       let play = play\<lparr>py_rtp := rtp, py_audioTrack := t\<rparr>;
       if err \<noteq> Yang_Ok then Some (err, context, play, True)
       else do {
         let stats = cx_stats context;
         Some (err, context\<lparr>cx_stats := stats\<lparr>recvStats := yang_stats_on_play_audio_rtp (recvStats stats) rtp\<rparr>\<rparr>, play, True)
       }
     }
     else if video then do {
       let rtp = (py_rtp play)\<lparr>pk_frame_type := 9\<rparr>;
       (err, context, t, rtp) \<leftarrow> yang_playvideoTrack_on_rtp net context ring (py_videoTrack play) rtp;
       let play = play\<lparr>py_rtp := rtp, py_videoTrack := t\<rparr>;
       if err \<noteq> Yang_Ok then Some (err, context, play, False)
       else do {
         let stats = cx_stats context;
         Some (err, context\<lparr>cx_stats := stats\<lparr>recvStats := yang_stats_on_play_video_rtp (recvStats stats) rtp\<rparr>\<rparr>, play, False)
       }
     }
     else Some (ERROR_RTC_RTP, context, play, False)
   }"

definition track_nack ::
    "'w rtc_net \<Rightarrow> 'w rtc_context \<Rightarrow> play_stream \<Rightarrow> bool \<Rightarrow> (errcode \<times> 'w rtc_context \<times> play_stream) option" where
  "track_nack net context play audio =
     (if audio then do {
        (err, context, t) \<leftarrow> yang_playtrack_on_nack net context (py_audioTrack play) (py_rtp play);
        Some (err, context, play\<lparr>py_audioTrack := t\<rparr>)
      }
      else do {
        (err, context, t) \<leftarrow> yang_playtrack_on_nack net context (vt_track (py_videoTrack play)) (py_rtp play);
        Some (err, context, play\<lparr>py_videoTrack := (py_videoTrack play)\<lparr>vt_track := t\<rparr>\<rparr>)
      })"

text \<open>\<open>data\<close> is the received datagram, of which \<open>nb_data\<close> bytes are valid. It is unprotected in place.\<close>

definition yang_rtcplay_on_rtp ::
    "'w rtc_net \<Rightarrow> 'w rtc_context \<Rightarrow> play_stream \<Rightarrow> u8 list \<Rightarrow> int \<Rightarrow> (errcode \<times> 'w rtc_context \<times> play_stream) option" where
  "yang_rtcplay_on_rtp net context play data nb_data = do {
     (err, w, plaintext, nb_plaintext) \<leftarrow> yang_dec_rtp net (cx_world context) (cx_srtp context) data 0 nb_data;
     let context = context\<lparr>cx_world := w\<rparr>;
     if err \<noteq> Yang_Ok then
       if err = srtp_err_status_replay_fail then Some (Yang_Ok, context, play)
       else do {
         _ \<leftarrow> log_header plaintext nb_data;
         Some (err, context, play)
       }
     else do {
       let rtp = yang_reset_rtpPacket (py_rtp play);
       (p, rtp, rb) \<leftarrow> yang_wrap_rtpPacket rtp (py_rtpBuffer play) plaintext nb_plaintext;
       let b = yang_init_buffer (rb_buffer rb) p nb_plaintext;
       let rtp = rtp\<lparr>pk_header := (pk_header rtp)\<lparr>ignore_padding := False\<rparr>\<rparr>;
       (err, rtp, b) \<leftarrow> yang_decode_rtpPacket rtp b;
       let play = play\<lparr>py_rtpBuffer := rb, py_rtp := rtp, py_buf := b\<rparr>;
       if err \<noteq> Yang_Ok then Some (err, context, play)
       else do {
         (err, context, play, audio) \<leftarrow> track_packet net context play;
         if err \<noteq> Yang_Ok then Some (err, context, play)
         else track_nack net context play audio
       }
     }
   }"

definition yang_rtcplay_check_send_nacks ::
    "'w rtc_net \<Rightarrow> 'w rtc_context \<Rightarrow> play_stream \<Rightarrow> (errcode \<times> 'w rtc_context \<times> play_stream) option" where
  "yang_rtcplay_check_send_nacks net context play = do {
     (err, context, v) \<leftarrow> yang_playvideoTrack_check_send_nacks net context (py_videoTrack play);
     let play = play\<lparr>py_videoTrack := v\<rparr>;
     if err \<noteq> Yang_Ok then Some (err, context, play)
     else do {
       (err, context, a) \<leftarrow> yang_playtrackAudio_check_send_nacks net context (py_audioTrack play);
       Some (err, context, play\<lparr>py_audioTrack := a\<rparr>)
     }
   }"

definition yang_rtcplay_send_periodic_twcc :: "play_stream \<Rightarrow> errcode \<times> play_stream" where
  "yang_rtcplay_send_periodic_twcc play = (Yang_Ok, play)"

section \<open>Extended reports (YangPlayStream.c)\<close>

text \<open>
  One entry of a block of type 5: the round-trip time in \<open>int32_t\<close> arithmetic, where \<open>>>\<close> on a negative number rounds down.
\<close>

definition rtt_of :: "u32 \<Rightarrow> int option" where
  "rtt_of rtt_ntp = do {
     let n = sint rtt_ntp;
     m \<leftarrow> int32 (n * 1000);
     k \<leftarrow> int32 (n div 65536 * 1000);
     int32 (m div 65536 + k)
   }"

text \<open>The entries of a block: \<open>k\<close> left.\<close>

primrec xr_entries ::
    "(int \<Rightarrow> int \<Rightarrow> int) \<Rightarrow> 'w rtc_net \<Rightarrow> nat \<Rightarrow> 'w rtc_context \<Rightarrow> play_stream \<Rightarrow> yang_buffer \<Rightarrow>
     ('w rtc_context \<times> play_stream \<times> yang_buffer) option" where
  "xr_entries mix net 0 context play b = Some (context, play, b)"
| "xr_entries mix net (Suc k) context play b = do {
     (s, b) \<leftarrow> yang_read_4bytes b;
     (lrr, b) \<leftarrow> yang_read_4bytes b;
     (dlrr, b) \<leftarrow> yang_read_4bytes b;
     let (now, w) = net_time net (cx_world context);
     let context = context\<lparr>cx_world := w\<rparr>;
     let cur = yang_ntp_from_time_ms (word_of_int (sint now sdiv 1000));
     let compact_ntp = push_bit 16 (ntp_second cur) OR drop_bit 16 (ntp_fractions cur);
     rtt \<leftarrow> rtt_of (compact_ntp - lrr - dlrr);
     play \<leftarrow> (if cx_streamOptType context = Yang_Stream_Play then yang_rtcplay_update_rtt mix context play s rtt
             else Some play);
     xr_entries mix net k context play b
   }"

text \<open>
  One block. The lengths are \<open>uint16_t\<close>; \<open>yang_read_2bytes\<close> is signed. The first component is an error that ends the
  loop.
\<close>

definition xr_block ::
    "(int \<Rightarrow> int \<Rightarrow> int) \<Rightarrow> 'w rtc_net \<Rightarrow> int \<Rightarrow> 'w rtc_context \<Rightarrow> play_stream \<Rightarrow> yang_buffer \<Rightarrow>
     (errcode option \<times> 'w rtc_context \<times> play_stream \<times> yang_buffer) option" where
  "xr_block mix net nb_data context play b = do {
     (bt, b) \<leftarrow> yang_read_1bytes b;
     let b = yang_buffer_skip b 1;
     (n, b) \<leftarrow> yang_read_2bytes b;
     let block_length = uint (word_of_int ((sint n + 1) * 4) :: u16);
     if yang_buffer_pos b + block_length - 4 > nb_data then Some (Some ERROR_RTC_RTCP_CHECK, context, play, b)
     else if bt = 5 then do {
       (context, play, b) \<leftarrow> xr_entries mix net (nat ((block_length - 4 + 11) div 12)) context play b;
       Some (None, context, play, b)
     }
     else if bt = 4 then Some (None, context, play, yang_buffer_skip (yang_buffer_skip b 4) 4)
     else Some (None, context, play, b)
   }"

lemma xr_entries_forward:
  "xr_entries mix net k context play b = Some (context', play', b') \<Longrightarrow> forward b b' 0"
proof (induction k arbitrary: "context" play b)
  case (Suc k)
  then obtain c p b1 b2 b3 s l d where
    "yang_read_4bytes b = Some (s, b1)" "yang_read_4bytes b1 = Some (l, b2)" "yang_read_4bytes b2 = Some (d, b3)"
    "xr_entries mix net k c p b3 = Some (context', play', b')"
    by (auto simp: Let_def split: prod.splits Option.bind_splits)
  with Suc.IH [of c p b3] show ?case
    by (auto dest!: read_moved simp: moved_def forward_def)
qed simp

lemma xr_block_forward:
  assumes "xr_block mix net nb context play b = Some (r, context', play', b')"
  shows "forward b b' 4"
proof -
  have skip: "forward c (yang_buffer_skip (yang_buffer_skip c 4) 4) 0" for c
    by (simp add: forward_def yang_buffer_skip_def)
  obtain v b1 where r1: "yang_read_1bytes b = Some (v, b1)"
    using assms by (auto simp: xr_block_def split: Option.bind_splits)
  obtain n b2 where r2: "yang_read_2bytes (yang_buffer_skip b1 1) = Some (n, b2)"
    using assms r1 by (auto simp: xr_block_def Let_def split: Option.bind_splits)
  have "forward b2 b' 0"
    using assms skip unfolding xr_block_def r1 r2 Let_def
    by (auto simp: r2 Let_def dest: xr_entries_forward split: if_splits Option.bind_splits)
  then show ?thesis using r1 r2 by (auto dest!: read_moved simp: moved_def forward_def yang_buffer_skip_def)
qed

lemma xr_block_pos:
  "xr_block mix net nb context play b = Some (r, context', play', b') \<Longrightarrow> yang_buffer_pos b < yang_buffer_pos b'"
  using forward_sel [OF xr_block_forward] by (fastforce simp: yang_buffer_pos_def)

function xr_loop ::
    "(int \<Rightarrow> int \<Rightarrow> int) \<Rightarrow> 'w rtc_net \<Rightarrow> int \<Rightarrow> int \<Rightarrow> 'w rtc_context \<Rightarrow> play_stream \<Rightarrow> yang_buffer \<Rightarrow>
     (errcode \<times> 'w rtc_context \<times> play_stream) option" where
  "xr_loop mix net len nb_data context play b =
     (if \<not> yang_buffer_pos b + 4 < len then Some (Yang_Ok, context, play)
      else case xr_block mix net nb_data context play b of
        None \<Rightarrow> None
      | Some (Some err, context, play, b) \<Rightarrow> Some (err, context, play)
      | Some (None, context, play, b) \<Rightarrow> xr_loop mix net len nb_data context play b)"
  by pat_completeness auto
termination
  by (relation "measure (\<lambda>(mix, net, len, nb_data, cx, play, b). nat (len - yang_buffer_pos b))")
    (auto dest!: xr_block_pos)

declare xr_loop.simps [simp del]

text \<open>\<open>rtcp->data\<close> is a pointer into the received packet \<open>m\<close>.\<close>

definition yang_rtcplay_on_rtcp_xr ::
    "(int \<Rightarrow> int \<Rightarrow> int) \<Rightarrow> 'w rtc_net \<Rightarrow> 'w rtc_context \<Rightarrow> play_stream \<Rightarrow> u8 list \<Rightarrow> rtcp_common \<Rightarrow>
     (errcode \<times> 'w rtc_context \<times> play_stream) option" where
  "yang_rtcplay_on_rtcp_xr mix net context play m rtcp = do {
     p \<leftarrow> rc_data rtcp;
     let b = yang_init_buffer m p (rc_nb_data rtcp);
     (_, b) \<leftarrow> yang_read_1bytes b;
     (pt, b) \<leftarrow> yang_read_1bytes b;
     if pt \<noteq> YangRtcpType_xr then Some (ERROR_RTC_RTCP_CHECK, context, play)
     else do {
       (n, b) \<leftarrow> yang_read_2bytes b;
       let len = uint (word_of_int ((sint n + 1) * 4) :: u16);
       (_, b) \<leftarrow> yang_read_4bytes b;
       if len > rc_nb_data rtcp then Some (ERROR_RTC_RTCP_CHECK, context, play)
       else xr_loop mix net len (rc_nb_data rtcp) context play b
     }
   }"

definition yang_rtcplay_on_rtcp_sr ::
    "'w rtc_net \<Rightarrow> 'w rtc_context \<Rightarrow> play_stream \<Rightarrow> rtcp_common \<Rightarrow> (errcode \<times> 'w rtc_context \<times> play_stream) option" where
  "yang_rtcplay_on_rtcp_sr net context play rtcp = do {
     sr \<leftarrow> rc_sr rtcp;
     (context, play) \<leftarrow>
       yang_rtcplay_update_send_report_time net context play (rc_ssrc rtcp) (yang_ntp_to_time_ms (sr_ntp sr)) (sr_rtp_ts sr);
     Some (Yang_Ok, context, play)
   }"

definition yang_rtcplay_on_rtcp ::
    "(int \<Rightarrow> int \<Rightarrow> int) \<Rightarrow> 'w rtc_net \<Rightarrow> 'w rtc_context \<Rightarrow> play_stream \<Rightarrow> u8 list \<Rightarrow> rtcp_common \<Rightarrow>
     (errcode \<times> 'w rtc_context \<times> play_stream) option" where
  "yang_rtcplay_on_rtcp mix net context play m rtcp =
     (if rh_type (rc_header rtcp) = YangRtcpType_sr then yang_rtcplay_on_rtcp_sr net context play rtcp
      else if rh_type (rc_header rtcp) = YangRtcpType_xr then yang_rtcplay_on_rtcp_xr mix net context play m rtcp
      else Some (Yang_Ok, context, play))"

section \<open>Creation\<close>

definition yang_create_rtcplay :: "'w rtc_context \<Rightarrow> rtp_buffer \<Rightarrow> play_stream option" where
  "yang_create_rtcplay context rtpBuffer = do {
     audio \<leftarrow> yang_create_playTrackAudio context;
     video \<leftarrow> yang_create_playvideoTrack context;
     Some \<lparr>py_request_keyframe = 0, py_twccFbCount = 0, py_twccEnabled = (if cx_twccId context > 0 then 1 else 0),
        py_rtpBuffer = rtpBuffer,
        py_rtp = yang_create_rtpPacket \<lparr>pk_actual_buffer_size = 0, pk_nalu_type = 0, pk_frame_type = 0,
          pk_payload_type = 0, pk_nb = 0, pk_cached_payload_size = 0, pk_payload = None, pk_header = zero_header\<rparr>,
        py_buf = yang_init_buffer [] 0 0, py_audioTrack = audio, py_videoTrack = video\<rparr>
   }"

definition yang_destroy_rtcplay :: "play_stream \<Rightarrow> play_stream" where
  "yang_destroy_rtcplay play =
     play\<lparr>py_audioTrack := yang_destroy_playTrackAudio (py_audioTrack play),
          py_videoTrack := yang_destroy_playvideoTrack (py_videoTrack play),
          py_rtp := yang_destroy_rtpPacket (py_rtp play)\<rparr>"

end
