(* ===== verification/Play_Facts.thy ===== *)
theory Play_Facts
  imports Play_Stream Push_Facts
begin

text \<open>
  What the receiving side makes of the fragments of a frame. The abstract state is the set of the fragments that have
  arrived; the cache implements it (\<open>holds\<close>), whatever the order of arrival and however often a fragment comes.
\<close>

section \<open>The slots of a frame\<close>

lemma cache_index_mod: "cache_index x = int (unat x mod 1024)"
proof -
  have "(1023 :: int) = mask 10" by (simp add: mask_eq_exp_minus_1)
  then have "uint x AND 1023 = take_bit 10 (uint x)" by (simp only: take_bit_eq_mask)
  then have "uint x AND 1023 = uint x mod 1024" by (simp add: take_bit_eq_mod)
  moreover have "int (unat x mod 1024) = uint x mod 1024" by (simp add: of_nat_mod)
  ultimately show ?thesis by (simp add: cache_index_def unsigned_and_eq)
qed

lemma cache_index_nat: "cache_index (sn + word_of_nat j) = int ((unat sn + j) mod 1024)"
proof -
  have "unat (sn + word_of_nat j) = (unat sn + j) mod 65536"
    by (simp add: unat_word_ariths unat_of_nat take_bit_eq_mod mod_add_right_eq)
  moreover have "x mod 65536 mod 1024 = x mod 1024" for x :: nat
    by (rule mod_mod_cancel) simp
  ultimately show ?thesis by (simp add: cache_index_mod)
qed

lemma mod_shift_inj:
  fixes a i j n :: nat
  assumes "(a + i) mod n = (a + j) mod n" "i \<le> j" "j < n"
  shows "i = j"
proof -
  have "n dvd (a + j) - (a + i)" using assms(1,2) mod_eq_dvd_iff_nat [of "a + i" "a + j" n] by simp
  then have "n dvd j - i" by simp
  with assms(2,3) show ?thesis using dvd_imp_le [of n "j - i"] by fastforce
qed

lemma cache_index_inj:
  assumes "i < 1024" "j < 1024"
  shows "cache_index (sn + word_of_nat i) = cache_index (sn + word_of_nat j) \<longleftrightarrow> i = j"
proof (cases "i \<le> j")
  case True
  then show ?thesis using mod_shift_inj [of "unat sn" i 1024 j] assms by (auto simp: cache_index_nat)
next
  case False
  then show ?thesis using mod_shift_inj [of "unat sn" j 1024 i] assms by (auto simp: cache_index_nat)
qed

text \<open>The slot of number \<open>sn + j\<close>.\<close>

definition slot :: "play_media \<Rightarrow> u16 \<Rightarrow> nat \<Rightarrow> packet_cache" where
  "slot track sn j = pm_cache track ! nat (cache_index (sn + word_of_nat j))"

definition track_ok :: "play_media \<Rightarrow> bool" where
  "track_ok track \<longleftrightarrow> length (pm_cache track) = 1024 \<and> length (pm_video_buffer track) = 1048576"

lemma load_slot: "track_ok track \<Longrightarrow> mem_load (pm_cache track) (cache_index (sn + word_of_nat j)) = Some (slot track sn j)"
  by (simp add: mem_load_def slot_def track_ok_def cache_index_nat)

lemma store_slot:
  assumes "track_ok track" "j < 1024"
  shows "\<exists>cache. mem_store (pm_cache track) (cache_index (sn + word_of_nat j)) c = Some cache \<and>
    track_ok (track\<lparr>pm_cache := cache\<rparr>) \<and>
    (\<forall>i<1024. slot (track\<lparr>pm_cache := cache\<rparr>) sn i = (if i = j then c else slot track sn i))"
proof -
  let ?i = "nat (cache_index (sn + word_of_nat j))"
  have "mem_store (pm_cache track) (cache_index (sn + word_of_nat j)) c = Some ((pm_cache track)[?i := c])"
    using assms(1) by (simp add: mem_store_def track_ok_def cache_index_nat)
  moreover have "slot (track\<lparr>pm_cache := (pm_cache track)[?i := c]\<rparr>) sn i = (if i = j then c else slot track sn i)" if "i < 1024" for i
  proof -
    have "?i = nat (cache_index (sn + word_of_nat i)) \<longleftrightarrow> i = j"
      using cache_index_inj [OF that assms(2), of sn] by (auto simp: cache_index_nat)
    moreover have "?i < length (pm_cache track)" using assms(1) by (simp add: track_ok_def cache_index_nat)
    ultimately show ?thesis by (auto simp: slot_def nth_list_update)
  qed
  ultimately show ?thesis using assms(1) by (simp add: track_ok_def)
qed

section \<open>Fragments\<close>

text \<open>
  Fragment \<open>j\<close> of a frame with the pieces \<open>cs\<close> behind the header byte \<open>h\<close>, as a decoded packet whose payload lies in
  the ring.
\<close>

definition frag_data :: "u8 \<Rightarrow> nat \<Rightarrow> nat \<Rightarrow> fua2_data" where
  "frag_data h n j = \<lparr>fu_start = (if j = 0 then 1 else 0), fu_end = (if Suc j = n then 1 else 0),
     fu_nri = h, fu_nalu_type = h AND 0x1F, fu_nb = 0, fu_mem = [], fu_payload = 0\<rparr>"

definition frag_packet :: "u8 list \<Rightarrow> u16 \<Rightarrow> u32 \<Rightarrow> u8 \<Rightarrow> u8 list list \<Rightarrow> nat \<Rightarrow> rtp_packet \<Rightarrow> bool" where
  "frag_packet ring sn ts h cs j pkt \<longleftrightarrow>
     sequence (pk_header pkt) = sn + word_of_nat j \<and> timestamp (pk_header pkt) = ts \<and>
     marker (pk_header pkt) = (Suc j = length cs) \<and> pk_nb pkt = int (length (cs ! j)) + 2 \<and>
     (\<exists>p. pk_payload pkt = Some p \<and>
       mem_read ring p (int (length (cs ! j)) + 2) = Some (fua2_wire (frag_data h (length cs) j) (cs ! j)))"

text \<open>A slot that holds fragment \<open>j\<close>.\<close>

definition holds :: "u8 list \<Rightarrow> u32 \<Rightarrow> u8 \<Rightarrow> u8 list list \<Rightarrow> nat \<Rightarrow> packet_cache \<Rightarrow> bool" where
  "holds ring ts h cs j c \<longleftrightarrow>
     ca_in_use c \<and> ca_end c = (Suc j = length cs) \<and> ca_ts c = ts \<and> ca_nalu_type c = 28 \<and>
     ca_nb c = int (length (cs ! j)) \<and>
     ca_fua2 c = \<lparr>fc_start = (if j = 0 then 0x80 else 0), fc_end = (if Suc j = length cs then 0x40 else 0),
       fc_nri = h AND NOT 0x1F, fc_nalu_type = h AND 0x1F\<rparr> \<and>
     (\<exists>p. ca_payload c = Some p \<and> mem_read ring p (int (length (cs ! j))) = Some (cs ! j))"

lemma nal_type_small: "(h :: u8) AND 0x1F < 32"
proof -
  have "unat (h AND 0x1F) \<le> unat (0x1F :: u8)" by (rule word_le_nat_alt [THEN iffD1]) (rule word_and_le1)
  then show ?thesis by (simp add: word_less_nat_alt)
qed

lemma read_ahead:
  assumes "mem_read m p (int (length bs)) = Some bs" "bs \<noteq> []"
  shows "ahead (yang_init_buffer m p (int (length bs))) bs" "yang_buffer_left (yang_init_buffer m p (int (length bs))) = int (length bs)"
  using assms by (auto simp: ahead_def room_def peek_def mem_read_def yang_init_buffer_def yang_buffer_left_def split: if_splits)

lemma copy_fragment:
  assumes "frag_packet ring sn ts h cs j pkt" "cs ! j \<noteq> []" "pk_nalu_type pkt = 28" "ca_in_use c"
  shows "\<exists>b c'. copy_packet h264_track ring track pkt c = Some (track\<lparr>pm_buf := b\<rparr>, c') \<and> holds ring ts h cs j c'"
proof -
  let ?w = "fua2_wire (frag_data h (length cs) j) (cs ! j)"
  obtain p where p: "pk_payload pkt = Some p" "mem_read ring p (int (length ?w)) = Some ?w" "pk_nb pkt = int (length ?w)"
    using assms(1) by (auto simp: frag_packet_def fua2_wire_def add.commute)
  have wire: "?w = [28 OR (h AND NOT 0x1F), (h AND 0x1F) OR (if j = 0 then 0x80 else 0) OR (if Suc j = length cs then 0x40 else 0)] @ cs ! j"
    by (simp add: fua2_wire_def frag_data_def)
  have body: "mem_read ring (p + 2) (int (length (cs ! j))) = Some (cs ! j)"
    using mem_read_append(2) [of ring p "[28 OR (h AND NOT 0x1F),
        (h AND 0x1F) OR (if j = 0 then 0x80 else 0) OR (if Suc j = length cs then 0x40 else 0)]" "cs ! j"] p(2)
    by (simp add: wire)
  define b where "b = yang_init_buffer ring p (pk_nb pkt)"
  have ah: "ahead b ?w" "yang_buffer_left b = int (length ?w)"
    using read_ahead [OF p(2)] by (simp_all add: b_def p(3) fua2_wire_def)
  have dec: "yang_decode_h264_fua2 b f = Some (Yang_Ok,
      f\<lparr>fc_nri := h AND NOT 0x1F, fc_start := (if j = 0 then 0x80 else 0), fc_end := (if Suc j = length cs then 0x40 else 0),
        fc_nalu_type := h AND 0x1F\<rparr>, adv b 2)" for f
    using decode_h264_fua2_ahead [of b "frag_data h (length cs) j" "cs ! j" f] ah assms(2)
    by (simp add: frag_data_def nal_type_small)
  have hd: "buf_head (adv b 2) = p + 2" "yang_buffer_left (adv b 2) = int (length (cs ! j))"
    by (simp_all add: b_def adv_def yang_init_buffer_def yang_buffer_left_def p(3) wire)
  have "copy_packet h264_track ring track pkt c = Some (track\<lparr>pm_buf := adv b 2\<rparr>, c\<lparr>ca_sn := sequence (pk_header pkt),
      ca_end := marker (pk_header pkt), ca_ts := timestamp (pk_header pkt), ca_nalu_type := 28, ca_payload := Some (p + 2),
      ca_nb := int (length (cs ! j)), ca_fua2 := \<lparr>fc_start = (if j = 0 then 0x80 else 0),
        fc_end = (if Suc j = length cs then 0x40 else 0), fc_nri = h AND NOT 0x1F, fc_nalu_type = h AND 0x1F\<rparr>\<rparr>)"
    using assms(3) p(1) hd by (simp add: copy_packet_def Let_def h264_track_def dec flip: b_def)
  moreover have "holds ring ts h cs j (c\<lparr>ca_sn := sequence (pk_header pkt),
      ca_end := marker (pk_header pkt), ca_ts := timestamp (pk_header pkt), ca_nalu_type := 28, ca_payload := Some (p + 2),
      ca_nb := int (length (cs ! j)), ca_fua2 := \<lparr>fc_start = (if j = 0 then 0x80 else 0),
        fc_end = (if Suc j = length cs then 0x40 else 0), fc_nri = h AND NOT 0x1F, fc_nalu_type = h AND 0x1F\<rparr>\<rparr>)"
    using assms(1,4) body by (simp add: holds_def frag_packet_def)
  ultimately show ?thesis by blast
qed

section \<open>The set of fragments that have arrived\<close>

definition slots_of :: "u8 list \<Rightarrow> u16 \<Rightarrow> u32 \<Rightarrow> u8 \<Rightarrow> u8 list list \<Rightarrow> nat set \<Rightarrow> play_media \<Rightarrow> bool" where
  "slots_of ring sn ts h cs R track \<longleftrightarrow>
     (\<forall>j<1024. (j \<in> R \<longrightarrow> holds ring ts h cs j (slot track sn j)) \<and> (j \<notin> R \<longrightarrow> \<not> ca_in_use (slot track sn j)))"

text \<open>The track while it waits for the fragments of the frame from \<open>sn\<close> on; it knows the first that is missing.\<close>

definition collecting :: "u8 list \<Rightarrow> u16 \<Rightarrow> u32 \<Rightarrow> u8 \<Rightarrow> u8 list list \<Rightarrow> nat set \<Rightarrow> play_media \<Rightarrow> bool" where
  "collecting ring sn ts h cs R track \<longleftrightarrow>
     track_ok track \<and> pm_hasRequestKeyframe track \<noteq> 0 \<and> pm_header_sn track = sn \<and> R \<subset> {..<length cs} \<and>
     slots_of ring sn ts h cs R track \<and>
     (\<exists>m<length cs. m \<notin> R \<and> {..<m} \<subseteq> R \<and> pm_lost_sn track = sn + word_of_nat m)"

definition idle :: "u16 \<Rightarrow> play_media \<Rightarrow> bool" where
  "idle sn track \<longleftrightarrow> track_ok track \<and> pm_hasRequestKeyframe track \<noteq> 0 \<and> pm_header_sn track = sn \<and> pm_lost_sn track = sn \<and>
     (\<forall>j<1024. \<not> ca_in_use (slot track sn j))"

lemma idle_collecting: "idle sn track \<Longrightarrow> cs \<noteq> [] \<Longrightarrow> collecting ring sn ts h cs {} track"
  by (auto simp: idle_def collecting_def slots_of_def intro!: exI [of _ 0])

lemma next_sn: "sn + word_of_nat j + 1 = sn + word_of_nat (Suc j)"
  by simp

lemma find_missing:
  assumes "track_ok track" "slots_of ring sn ts h cs R track" "length cs \<le> 1024"
    and "{j..<m} \<subseteq> R" "m \<notin> R" "j \<le> m" "m < length cs" "m - j < n"
  shows "find_lost_loop (pm_cache track) ts n (sn + word_of_nat j) e = Some (uint (sn + word_of_nat m), e)"
  using assms(4,6,8)
proof (induction n arbitrary: j)
  case (Suc n)
  have j: "j < 1024" using Suc.prems assms(3,7) by simp
  show ?case
  proof (cases "j = m")
    case True
    then have "\<not> ca_in_use (slot track sn j)" using assms(2,5) j by (simp add: slots_of_def)
    with True show ?thesis by (simp add: load_slot [OF assms(1)])
  next
    case False
    then have "j \<in> R" "j < m" using Suc.prems by auto
    then have "holds ring ts h cs j (slot track sn j)" using assms(2) j by (simp add: slots_of_def)
    moreover have "Suc j \<noteq> length cs" using \<open>j < m\<close> assms(7) by simp
    moreover have "find_lost_loop (pm_cache track) ts n (sn + word_of_nat (Suc j)) e = Some (uint (sn + word_of_nat m), e)"
      using Suc.prems \<open>j < m\<close> by (intro Suc.IH) auto
    ultimately show ?thesis by (simp add: load_slot [OF assms(1)] holds_def next_sn del: of_nat_Suc)
  qed
qed simp

lemma find_end:
  assumes "track_ok track" "slots_of ring sn ts h cs R track" "length cs \<le> 1024"
    and "{j..<length cs} \<subseteq> R" "j < length cs" "length cs - j \<le> n"
  shows "find_lost_loop (pm_cache track) ts n (sn + word_of_nat j) e = Some (- 1, sn + word_of_nat (length cs - 1))"
  using assms(4-6)
proof (induction n arbitrary: j)
  case (Suc n)
  have "j \<in> R" "j < 1024" using Suc.prems assms(3) by auto
  then have h: "holds ring ts h cs j (slot track sn j)" using assms(2) by (simp add: slots_of_def)
  show ?case
  proof (cases "Suc j = length cs")
    case True
    then have "length cs - 1 = j" by simp
    with h True show ?thesis by (simp add: load_slot [OF assms(1)] holds_def)
  next
    case False
    moreover have "find_lost_loop (pm_cache track) ts n (sn + word_of_nat (Suc j)) e = Some (- 1, sn + word_of_nat (length cs - 1))"
      using Suc.prems False by (intro Suc.IH) auto
    ultimately show ?thesis using h by (simp add: load_slot [OF assms(1)] holds_def next_sn del: of_nat_Suc)
  qed
qed simp

lemma count_rest:
  assumes "track_ok track" "slots_of ring sn ts h cs {..<length cs} track" "length cs \<le> 1024"
    and "0 < j" "0 < n" "j + n = length cs"
  shows "count_marks 28 (pm_cache track) n (sn + word_of_nat j) s e = Some (s = e + 1)"
  using assms(4-6)
proof (induction n arbitrary: j)
  case (Suc n)
  have "holds ring ts h cs j (slot track sn j)" using assms(2,3) Suc.prems by (simp add: slots_of_def)
  moreover have "count_marks 28 (pm_cache track) n (sn + word_of_nat (Suc j)) s e = Some (s = e + 1)" if "n \<noteq> 0"
    using Suc.prems that by (intro Suc.IH) auto
  ultimately show ?case using Suc.prems
    by (cases "n = 0") (simp_all add: load_slot [OF assms(1)] holds_def next_sn del: of_nat_Suc)
qed simp

lemma complete_frame:
  assumes "track_ok track" "slots_of ring sn ts h cs {..<length cs} track" "length cs \<le> 1024" "2 \<le> length cs"
  shows "check_frame_complete h264_track track sn (sn + word_of_nat (length cs - 1)) = Some True"
proof -
  obtain n where l: "length cs = Suc n" "0 < n" using assms(4) by (cases "length cs") auto
  have "sn + word_of_nat n - sn + 1 = word_of_nat (Suc n)" by simp
  moreover have "unat (word_of_nat (Suc n) :: u16) = Suc n"
    using assms(3) l by (simp add: unat_of_nat take_bit_nat_eq_self del: of_nat_Suc)
  ultimately have n: "unat (sn + word_of_nat n - sn + 1) = Suc n" by metis
  have "holds ring ts h cs 0 (slot track sn 0)"
    using assms(2) [unfolded slots_of_def, rule_format, of 0] assms(4) by (cases cs) simp_all
  moreover have "count_marks 28 (pm_cache track) n (sn + word_of_nat 1) 1 0 = Some (1 = (0 :: u16) + 1)"
    using l by (intro count_rest [OF assms(1-3)]) auto
  ultimately show ?thesis using l load_slot [OF assms(1), of sn 0] n
    by (simp add: check_frame_complete_def h264_track_def holds_def)
qed


lemma store_fragment:
  assumes "track_ok track" "slots_of ring sn ts h cs R track" "length cs \<le> 1024" "j < length cs"
    and "frag_packet ring sn ts h cs j pkt" "cs ! j \<noteq> []" "pk_nalu_type pkt = 28"
  shows "\<exists>b cache. store_packet h264_track ring track pkt = Some (track\<lparr>pm_buf := b, pm_cache := cache\<rparr>) \<and>
    track_ok (track\<lparr>pm_buf := b, pm_cache := cache\<rparr>) \<and>
    slots_of ring sn ts h cs (insert j R) (track\<lparr>pm_buf := b, pm_cache := cache\<rparr>)"
proof -
  have j: "j < 1024" "sequence (pk_header pkt) = sn + word_of_nat j" using assms(3-5) by (simp_all add: frag_packet_def)
  obtain b c where c: "copy_packet h264_track ring track pkt (slot track sn j\<lparr>ca_in_use := True\<rparr>) = Some (track\<lparr>pm_buf := b\<rparr>, c)"
      "holds ring ts h cs j c"
    using copy_fragment [OF assms(5-7), of "slot track sn j\<lparr>ca_in_use := True\<rparr>" track] by auto
  obtain cache where s: "mem_store (pm_cache track) (cache_index (sn + word_of_nat j)) c = Some cache"
      "track_ok (track\<lparr>pm_cache := cache\<rparr>)" "\<forall>i<1024. slot (track\<lparr>pm_cache := cache\<rparr>) sn i = (if i = j then c else slot track sn i)"
    using store_slot [OF assms(1) j(1)] by blast
  then have "slots_of ring sn ts h cs (insert j R) (track\<lparr>pm_buf := b, pm_cache := cache\<rparr>)"
    using assms(2) c(2) by (simp add: slots_of_def slot_def)
  moreover have "track_ok (track\<lparr>pm_buf := b, pm_cache := cache\<rparr>)" using s(2) by (simp add: track_ok_def)
  ultimately show ?thesis using load_slot [OF assms(1), of sn j] c s(1) j(2) by (auto simp: store_packet_def Let_def)
qed

section \<open>The frame that is written\<close>

lemma out_bytes_at:
  assumes "fo_mem out = a @ x @ r" "fo_p out = int (length a)" "length bs = length x"
  shows "out_bytes out bs = Some (out\<lparr>fo_mem := a @ bs @ r, fo_p := int (length a) + int (length bs)\<rparr>)"
proof -
  have "mem_write (fo_mem out) (fo_p out) bs = Some (a @ bs @ r)"
    using assms by (cases "bs = []") (simp_all add: mem_write_def)
  then show ?thesis by (simp add: out_bytes_def assms(2))
qed

lemma put_be32_at:
  assumes "length g = 4"
  shows "yang_put_be32 (a @ g @ r) (int (length a)) v =
    Some (a @ be32 v @ r, int (length a) + 4)"
proof -
  have "(0xFF :: u32) = mask 8" by (simp add: mask_eq_exp_minus_1)
  then have "v AND 0xFF = take_bit 8 v" by (simp only: take_bit_eq_mask)
  then have "ucast (v AND 0xFF) = (ucast v :: u8)" by (simp only:) (rule bit_word_eqI, simp add: bit_simps)
  moreover obtain w x y z where "g = [w, x, y, z]" using assms by (auto simp: length_Suc_conv eval_nat_numeral)
  moreover have "nat (int (length a) + 3) = length a + 3" "nat (int (length a) + 2) = length a + 2" "nat (int (length a) + 1) = length a + 1"
    by simp_all
  ultimately show ?thesis
    by (simp add: yang_put_be32_def be32_def word_byte_def mem_store_def list_update_append eval_nat_numeral)
qed

text \<open>The output after the bytes \<open>x\<close> of a unit: five bytes, a gap of four for the length, the unit.\<close>

definition written :: "u8 list \<Rightarrow> u8 list \<Rightarrow> frame_out \<Rightarrow> bool" where
  "written pre x out \<longleftrightarrow> length pre = 5 \<and> fo_p out = 9 + int (length x) \<and> fo_nalu_len out = int (length x) \<and>
     (\<exists>g r. length g = 4 \<and> fo_mem out = pre @ g @ x @ r \<and> length (fo_mem out) = 1048576)"

lemma first_fragment:
  assumes "holds ring ts h cs 0 c" "length pre = 5" "fo_mem out = pre @ r" "fo_p out = 5" "length (fo_mem out) = 1048576"
    and "length (cs ! 0) + 10 \<le> 1048576"
  shows "\<exists>out'. out_fragment h264_track ring out c = Some out' \<and> written pre (h # cs ! 0) out'"
proof -
  let ?x = "h # cs ! 0"
  define g where "g = take 4 r"
  define y where "y = take (length (cs ! 0)) (drop 5 r)"
  define z where "z = drop (length (cs ! 0)) (drop 5 r)"
  have l: "length r = 1048571" using assms(2,3,5) by simp
  have "r = g @ drop 4 r" "drop 4 r = r ! 4 # drop 5 r" "drop 5 r = y @ z"
    using l Cons_nth_drop_Suc [of 4 r] by (simp_all add: g_def y_def z_def del: drop_drop)
  moreover have n: "length y = length (cs ! 0)"
    unfolding y_def length_take length_drop by (rule min_absorb2) (use assms(6) l in linarith)
  ultimately have r: "r = g @ [r ! 4] @ y @ z" "length g = 4" "length y = length (cs ! 0)"
    by (metis append_Cons append_Nil) (simp_all add: g_def l n)
  have head: "tc_fu_head h264_track (ca_fua2 c) = [h]" 
    using assms(1) by (simp add: holds_def h264_track_def disj_ac flip: bit.conj_disj_distrib)
  obtain p where c: "ca_payload c = Some p" "mem_read ring p (int (length (cs ! 0))) = Some (cs ! 0)"
      "ca_nb c = int (length (cs ! 0))" "fc_start (ca_fua2 c) \<noteq> 0"
    using assms(1) by (auto simp: holds_def)
  define out1 where "out1 = out\<lparr>fo_p := 9, fo_nalu_len := int (length ?x)\<rparr>"
  have "out_bytes out1 [h] = Some (out1\<lparr>fo_mem := (pre @ g) @ [h] @ y @ z, fo_p := 10\<rparr>)"
    using out_bytes_at [of out1 "pre @ g" "[r ! 4]" "y @ z" "[h]"] assms(2,3) r by (simp add: out1_def)
  moreover have "out_bytes (out1\<lparr>fo_mem := (pre @ g) @ [h] @ y @ z, fo_p := 10\<rparr>) (cs ! 0) =
      Some (out1\<lparr>fo_mem := (pre @ g @ [h]) @ cs ! 0 @ z, fo_p := 10 + int (length (cs ! 0))\<rparr>)"
    using out_bytes_at [of "out1\<lparr>fo_mem := (pre @ g) @ [h] @ y @ z, fo_p := 10\<rparr>" "pre @ g @ [h]" y z "cs ! 0"] assms(2) r by simp
  ultimately have "out_fragment h264_track ring out c = Some (out1\<lparr>fo_mem := (pre @ g @ [h]) @ cs ! 0 @ z, fo_p := 10 + int (length (cs ! 0))\<rparr>)"
    using c assms(4) by (simp add: out_fragment_def head out1_def add.commute)
  moreover have "written pre ?x (out1\<lparr>fo_mem := (pre @ g @ [h]) @ cs ! 0 @ z, fo_p := 10 + int (length (cs ! 0))\<rparr>)"
    using assms(2,6) r l by (auto simp: written_def out1_def z_def)
  ultimately show ?thesis by blast
qed

lemma next_fragment:
  assumes "holds ring ts h cs j c" "0 < j" "written pre x out" "length x + length (cs ! j) + 9 \<le> 1048576"
  shows "\<exists>out'. out_fragment h264_track ring out c = Some out' \<and> written pre (x @ cs ! j) out' \<and>
    (Suc j = length cs \<longrightarrow> (\<exists>r. fo_mem out' = pre @ be32 (word_of_nat (length (x @ cs ! j))) @ x @ cs ! j @ r))"
proof -
  obtain g r where o: "length pre = 5" "fo_p out = 9 + int (length x)" "fo_nalu_len out = int (length x)" "length g = 4"
      "fo_mem out = pre @ g @ x @ r" "length (fo_mem out) = 1048576"
    using assms(3) by (auto simp: written_def)
  define y where "y = take (length (cs ! j)) r"
  define z where "z = drop (length (cs ! j)) r"
  have r: "r = y @ z" "length y = length (cs ! j)" using assms(4) o(1,4,5,6) by (auto simp: y_def z_def)
  define out1 where "out1 = out\<lparr>fo_mem := (pre @ g @ x) @ cs ! j @ z, fo_p := 9 + int (length (x @ cs ! j)),
     fo_nalu_len := int (length (x @ cs ! j))\<rparr>"
  have b: "out_bytes (out\<lparr>fo_nalu_len := fo_nalu_len out + int (length (cs ! j))\<rparr>) (cs ! j) = Some out1"
    by (subst out_bytes_at [of _ "pre @ g @ x" y z]) (simp_all add: o(1-5) r out1_def)
  have w1: "written pre (x @ cs ! j) out1" using o r by (auto simp: written_def out1_def)
  have f: "out_fragment h264_track ring out c = (if Suc j = length cs then do {
      (m, _) \<leftarrow> yang_put_be32 (fo_mem out1) (fo_p out1 - (4 + fo_nalu_len out1)) (word_of_int (fo_nalu_len out1));
      Some (out1\<lparr>fo_mem := m\<rparr>)
    } else Some out1)"
    using assms(1,2) b by (auto simp: out_fragment_def holds_def)
  show ?thesis
  proof (cases "Suc j = length cs")
    case True
    have "yang_put_be32 (fo_mem out1) (fo_p out1 - (4 + fo_nalu_len out1)) (word_of_int (fo_nalu_len out1)) =
        Some (pre @ be32 (word_of_nat (length (x @ cs ! j))) @ x @ cs ! j @ z, 9)"
      using put_be32_at [OF o(4), of pre "x @ cs ! j @ z" "word_of_nat (length (x @ cs ! j))"] o(1)
      by (simp add: out1_def)
    then have "out_fragment h264_track ring out c = Some (out1\<lparr>fo_mem := pre @ be32 (word_of_nat (length (x @ cs ! j))) @ x @ cs ! j @ z\<rparr>)"
      using True by (simp only: f) simp
    moreover have "written pre (x @ cs ! j) (out1\<lparr>fo_mem := pre @ be32 (word_of_nat (length (x @ cs ! j))) @ x @ cs ! j @ z\<rparr>)"
      using o r w1 unfolding written_def
      by (intro conjI exI [of _ "be32 (word_of_nat (length (x @ cs ! j)))"] exI [of _ z]) (auto simp: out1_def)
    ultimately show ?thesis by auto
  next
    case False
    then have "out_fragment h264_track ring out c = Some out1"
      by (simp add: f)
    with w1 False show ?thesis by blast
  qed
qed


text \<open>One round of the packing of fragments.\<close>

lemma pack_fragment:
  assumes "track_ok track" "slots_of ring sn ts h cs {i..<length cs} track" "length cs \<le> 1024" "i < length cs" "cs ! i \<noteq> []"
    and "out_fragment h264_track ring out (slot track sn i\<lparr>ca_in_use := False\<rparr>) = Some out'"
  shows "\<exists>cache. pack_step h264_track ring sn (word_of_nat i) track out = Some (track\<lparr>pm_cache := cache\<rparr>, out') \<and>
    track_ok (track\<lparr>pm_cache := cache\<rparr>) \<and> slots_of ring sn ts h cs {Suc i..<length cs} (track\<lparr>pm_cache := cache\<rparr>)"
proof -
  have i: "i < 1024" using assms(3,4) by simp
  let ?c = "slot track sn i\<lparr>ca_in_use := False\<rparr>"
  let ?d = "?c\<lparr>ca_fua2 := \<lparr>fc_start = 0, fc_end = 0, fc_nri = 0, fc_nalu_type = 0\<rparr>\<rparr>"
  have h: "holds ring ts h cs i (slot track sn i)" using assms(2,4) i by (simp add: slots_of_def)
  obtain cache1 where s1: "mem_store (pm_cache track) (cache_index (sn + word_of_nat i)) ?c = Some cache1"
      "track_ok (track\<lparr>pm_cache := cache1\<rparr>)"
      "\<forall>j<1024. slot (track\<lparr>pm_cache := cache1\<rparr>) sn j = (if j = i then ?c else slot track sn j)"
    using store_slot [OF assms(1) i] by blast
  obtain cache where s2: "mem_store cache1 (cache_index (sn + word_of_nat i)) ?d = Some cache"
      "track_ok (track\<lparr>pm_cache := cache\<rparr>)"
      "\<forall>j<1024. slot (track\<lparr>pm_cache := cache\<rparr>) sn j = (if j = i then ?d else slot (track\<lparr>pm_cache := cache1\<rparr>) sn j)"
    using store_slot [OF s1(2) i, of sn ?d] by auto
  have "slots_of ring sn ts h cs {Suc i..<length cs} (track\<lparr>pm_cache := cache\<rparr>)"
    using assms(2) s1(3) s2(3) by (auto simp: slots_of_def)
  moreover have "ca_nalu_type ?c = 28" "ca_nb ?c > 0" using h assms(5) by (simp_all add: holds_def)
  moreover have "tc_fua h264_track = 28" by (simp add: h264_track_def)
  ultimately show ?thesis using load_slot [OF assms(1), of sn i] s1(1) s2(1,2) assms(6)
    by (intro exI [of _ cache]) (simp add: pack_step_def Let_def)
qed

lemma out_fragment_in_use: "out_fragment tc ring out (c\<lparr>ca_in_use := u\<rparr>) = out_fragment tc ring out c"
  by (simp add: out_fragment_def cong: if_cong)

lemma pack_rest:
  assumes "\<forall>c \<in> set cs. c \<noteq> []" "length cs \<le> 1024" "length (concat cs) + 10 \<le> 1048576"
    and "track_ok track" "slots_of ring sn ts h cs {i..<length cs} track" "0 < i" "0 < k" "i + k = length cs"
    and "written pre (h # concat (take i cs)) out"
  shows "\<exists>cache out' r. pack_loop h264_track ring sn k (word_of_nat i) track out = Some (track\<lparr>pm_cache := cache\<rparr>, out') \<and>
    track_ok (track\<lparr>pm_cache := cache\<rparr>) \<and> slots_of ring sn ts h cs {} (track\<lparr>pm_cache := cache\<rparr>) \<and>
    written pre (h # concat cs) out' \<and> fo_mem out' = pre @ be32 (word_of_nat (length (h # concat cs))) @ (h # concat cs) @ r"
  using assms(4-9)
proof (induction k arbitrary: i track out)
  case (Suc k)
  define x where "x j = h # concat (take j cs)" for j
  have i: "i < length cs" using Suc.prems by simp
  then have t: "x i @ cs ! i = x (Suc i)" by (simp add: x_def take_Suc_conv_app_nth)
  have "concat cs = concat (take (Suc i) cs) @ concat (drop (Suc i) cs)" by (simp flip: concat_append)
  then have "length (x (Suc i)) \<le> length (concat cs) + 1" unfolding x_def by (metis Suc_eq_plus1 add_le_cancel_right length_Cons length_append le_add1)
  then have l: "length (x i) + length (cs ! i) + 9 \<le> 1048576" using assms(3) by (simp flip: t)
  have hi: "holds ring ts h cs i (slot track sn i)" using Suc.prems(2) i assms(2) by (simp add: slots_of_def)
  obtain out1 where o: "out_fragment h264_track ring out (slot track sn i) = Some out1" "written pre (x (Suc i)) out1"
      "Suc i = length cs \<longrightarrow> (\<exists>r. fo_mem out1 = pre @ be32 (word_of_nat (length (x (Suc i)))) @ x (Suc i) @ r)"
    using next_fragment [OF hi Suc.prems(3) Suc.prems(6) [folded x_def] l] t by (metis append.assoc)
  obtain cache where c: "pack_step h264_track ring sn (word_of_nat i) track out = Some (track\<lparr>pm_cache := cache\<rparr>, out1)"
      "track_ok (track\<lparr>pm_cache := cache\<rparr>)" "slots_of ring sn ts h cs {Suc i..<length cs} (track\<lparr>pm_cache := cache\<rparr>)"
    using pack_fragment [OF Suc.prems(1,2) assms(2) i, of out out1] assms(1) i o(1) nth_mem [OF i] by (auto simp: out_fragment_in_use)
  have w: "word_of_nat i + 1 = (word_of_nat (Suc i) :: u16)" by simp
  show ?case
  proof (cases "k = 0")
    case True
    then have e: "Suc i = length cs" using Suc.prems by simp
    then have "x (Suc i) = h # concat cs" by (simp add: x_def)
    with True c o e show ?thesis by auto
  next
    case False
    then show ?thesis
      using Suc.IH [OF c(2,3) _ _ _ o(2) [unfolded x_def]] Suc.prems c(1) by (auto simp: w simp del: of_nat_Suc)
  qed
qed simp


lemma slots_ok_upd [simp]:
  "track_ok (track\<lparr>pm_key_frame_ts := k\<rparr>) = track_ok track"
  "slot (track\<lparr>pm_key_frame_ts := k\<rparr>) sn j = slot track sn j"
  "slots_of ring sn ts h cs R (track\<lparr>pm_key_frame_ts := k\<rparr>) = slots_of ring sn ts h cs R track"
  by (simp_all add: track_ok_def slot_def slots_of_def)

lemma pack_all:
  assumes "\<forall>c \<in> set cs. c \<noteq> []" "2 \<le> length cs" "length cs \<le> 1024" "length (concat cs) + 10 \<le> 1048576"
    and "track_ok track" "slots_of ring sn ts h cs {..<length cs} track" "length pre = 5" "length m = 1048571"
  shows "\<exists>cache out r. pack_loop h264_track ring sn (length cs) 0 track \<lparr>fo_mem = pre @ m, fo_p = 5, fo_nalu_len = 0\<rparr>
      = Some (track\<lparr>pm_cache := cache\<rparr>, out) \<and>
    track_ok (track\<lparr>pm_cache := cache\<rparr>) \<and> slots_of ring sn ts h cs {} (track\<lparr>pm_cache := cache\<rparr>) \<and>
    fo_p out = 9 + int (length (h # concat cs)) \<and> length (fo_mem out) = 1048576 \<and>
    fo_mem out = pre @ be32 (word_of_nat (length (h # concat cs))) @ (h # concat cs) @ r"
proof -
  let ?o = "\<lparr>fo_mem = pre @ m, fo_p = 5, fo_nalu_len = 0\<rparr>"
  obtain c0 rest where cs: "cs = c0 # rest" "rest \<noteq> []" using assms(2) by (cases cs) (auto simp: Suc_le_eq)
  have "holds ring ts h cs 0 (slot track sn 0)" using assms(6) cs by (simp add: slots_of_def)
  then obtain out1 where o: "out_fragment h264_track ring ?o (slot track sn 0) = Some out1" "written pre (h # cs ! 0) out1"
    using first_fragment [of ring ts h cs "slot track sn 0" pre ?o m] assms(4,7,8) cs by auto
  obtain cache1 where c1: "pack_step h264_track ring sn (word_of_nat 0) track ?o = Some (track\<lparr>pm_cache := cache1\<rparr>, out1)"
      "track_ok (track\<lparr>pm_cache := cache1\<rparr>)" "slots_of ring sn ts h cs {Suc 0..<length cs} (track\<lparr>pm_cache := cache1\<rparr>)"
    using pack_fragment [OF assms(5) _ assms(3), of ring sn ts h 0 ?o out1] assms(1,6) cs o(1)
    by (auto simp: out_fragment_in_use atLeast0LessThan)
  obtain cache out r where c2:
    "pack_loop h264_track ring sn (length rest) (word_of_nat 1) (track\<lparr>pm_cache := cache1\<rparr>) out1 = Some (track\<lparr>pm_cache := cache\<rparr>, out)"
      "track_ok (track\<lparr>pm_cache := cache\<rparr>)" "slots_of ring sn ts h cs {} (track\<lparr>pm_cache := cache\<rparr>)" "written pre (h # concat cs) out"
      "fo_mem out = pre @ be32 (word_of_nat (length (h # concat cs))) @ (h # concat cs) @ r"
    using pack_rest [OF assms(1,3,4) c1(2), where i = 1 and k = "length rest" and h = h and pre = pre and out = out1 and sn = sn and ts = ts and ring = ring]
      c1(3) o(2) cs by auto
  show ?thesis
    using c1(1) c2 cs(1) by (intro exI [of _ cache] exI [of _ out] exI [of _ r]) (auto simp: written_def)
qed

text \<open>The first byte of the frame: the key frame test looks at the first byte behind the fragment header.\<close>

definition frame_head :: "u8 list list \<Rightarrow> u8 list" where
  "frame_head cs = [if hd (cs ! 0) AND 0x1F = 5 then 0x17 else 0x27, 1, 0, 0, 0]"

lemma frame_length:
  assumes "2 \<le> length cs" "length cs \<le> 1024"
  shows "unat (sn + word_of_nat (length cs - 1) - sn + 1 :: u16) = length cs"
proof -
  obtain n where l: "length cs = Suc n" using assms(1) by (cases "length cs") auto
  have "sn + word_of_nat n - sn + 1 = word_of_nat (Suc n)" by simp
  moreover have "unat (word_of_nat (Suc n) :: u16) = Suc n"
    using assms(2) l by (simp add: unat_of_nat take_bit_nat_eq_self del: of_nat_Suc)
  ultimately show ?thesis using l by (metis diff_Suc_1)
qed

lemma write_fragments:
  assumes "\<forall>c \<in> set cs. c \<noteq> []" "2 \<le> length cs" "length cs \<le> 1024" "length (concat cs) + 10 \<le> 1048576"
    and "track_ok track" "slots_of ring sn ts h cs {..<length cs} track"
  shows "\<exists>track' r. write_frame h264_track net context ring track sn (sn + word_of_nat (length cs - 1)) =
      put_frame_video net context track' (uint ts) (9 + int (length (h # concat cs))) \<and>
    track_ok track' \<and> slots_of ring sn ts h cs {} track' \<and> pm_hasRequestKeyframe track' = pm_hasRequestKeyframe track \<and>
    pm_video_buffer track' = frame_head cs @ be32 (word_of_nat (length (h # concat cs))) @ (h # concat cs) @ r"
proof -
  let ?x = "h # concat cs"
  have h: "holds ring ts h cs 0 (slot track sn 0)" using assms(2,6) by (cases cs) (auto simp: slots_of_def)
  then obtain p where c: "ca_nalu_type (slot track sn 0) = 28" "ca_ts (slot track sn 0) = ts" "ca_payload (slot track sn 0) = Some p"
      "mem_read ring p (int (length (cs ! 0))) = Some (cs ! 0)"
    by (auto simp: holds_def)
  obtain b bs where b: "cs ! 0 = b # bs" using assms(1,2) by (cases cs; cases "hd cs") auto
  have "mem_load ring p = Some b"
    using mem_read_append(1) [of ring p "[b]" bs] c(4) b by (simp add: mem_read_1)
  then have key: "tc_cache_key h264_track 28 ring (Some p) = Some (hd (cs ! 0) AND 0x1F = 5)"
    by (simp add: h264_track_def yang_playtrackH264_is_keyframe2_def load_at_def b)
  have [simp]: "tc_key_byte h264_track = 0x17" "tc_inter_byte h264_track = 0x27" by (simp_all add: h264_track_def)
  define t where "t = (if hd (cs ! 0) AND 0x1F = 5 then track\<lparr>pm_key_frame_ts := - 1\<rparr> else track)"
  have t: "track_ok t" "slots_of ring sn ts h cs {..<length cs} t" "pm_video_buffer t = pm_video_buffer track"
      "pm_hasRequestKeyframe t = pm_hasRequestKeyframe track"
    using assms(5,6) by (simp_all add: t_def)
  define m where "m = drop (length (frame_head cs)) (pm_video_buffer track)"
  have m: "mem_write (pm_video_buffer track) 0 (frame_head cs) = Some (frame_head cs @ m)" "length m = 1048571" "length (frame_head cs) = 5"
    using assms(5) by (simp_all add: mem_write_def m_def frame_head_def track_ok_def)
  obtain cache out r where l: "pack_loop h264_track ring sn (length cs) 0 t \<lparr>fo_mem = frame_head cs @ m, fo_p = 5, fo_nalu_len = 0\<rparr>
        = Some (t\<lparr>pm_cache := cache\<rparr>, out)"
      "track_ok (t\<lparr>pm_cache := cache\<rparr>)" "slots_of ring sn ts h cs {} (t\<lparr>pm_cache := cache\<rparr>)"
      "fo_p out = 9 + int (length ?x)" "length (fo_mem out) = 1048576" "fo_mem out = frame_head cs @ be32 (word_of_nat (length ?x)) @ ?x @ r"
    using pack_all [OF assms(1-4) t(1,2) m(3,2)] by blast
  define track' where "track' = t\<lparr>pm_cache := cache, pm_video_buffer := fo_mem out\<rparr>"
  have "write_frame h264_track net context ring track sn (sn + word_of_nat (length cs - 1)) =
      put_frame_video net context track' (uint ts) (9 + int (length ?x))"
    using load_slot [OF assms(5), of sn 0] c(1-3) key m(1) l(1,4) frame_length [OF assms(2,3), of sn] t(3)
    by (simp add: write_frame_def Let_def frame_head_def track'_def flip: t_def cong: if_cong split del: if_split)
  moreover have "track_ok track'" using l(2,5) by (simp add: track_ok_def track'_def)
  moreover have "slots_of ring sn ts h cs {} track'" using l(3) by (simp add: slots_of_def slot_def track'_def)
  ultimately show ?thesis using l(6) t(4) by (intro exI [of _ track'] exI [of _ r]) (simp add: track'_def)
qed


section \<open>Delivery\<close>

lemma get_be32_at: "yang_get_be32 (a @ be32 v @ r) (int (length a)) = Some v"
proof -
  have "nat (int (length a) + 3) = length a + 3" "nat (int (length a) + 2) = length a + 2" "nat (int (length a) + 1) = length a + 1"
    by simp_all
  moreover have "ucast (word_byte v 0) OR push_bit 8 (ucast (word_byte v 1)) OR push_bit 16 (ucast (word_byte v 2))
      OR push_bit 24 (ucast (word_byte v 3)) = v"
    using le_word_32 [of v] by (simp add: le_word.simps push_bit_or ac_simps)
  ultimately show ?thesis
    by (simp add: yang_get_be32_def be32_def mem_load_def nth_append)
qed


text \<open>A frame of one unit of type 1: only the first byte decides whether it is delivered.\<close>

lemma one_unit:
  assumes "m = [b, 1, 0, 0, 0] @ be32 (word_of_nat (length x)) @ x @ r" "x = h # d"
  shows "mem_load m 0 = Some b" "mem_load m 1 = Some 1" "mem_load m 9 = Some h"
    and "mem_read m 5 (4 + int (length x)) = Some (be32 (word_of_nat (length x)) @ x)"
proof -
  have l: "length (be32 (word_of_nat (length x))) = 4" by simp
  show "mem_load m 0 = Some b" "mem_load m 1 = Some 1" using assms by (simp_all add: mem_load_def)
  show "mem_load m 9 = Some h" using assms l by (simp add: mem_load_def nth_append)
  show "mem_read m 5 (4 + int (length x)) = Some (be32 (word_of_nat (length x)) @ x)"
    using assms l by (simp add: mem_read_def nat_add_distrib)
qed

lemma parse_one_unit:
  assumes "m = pre @ be32 (word_of_nat (length x)) @ x @ r" "length pre = 5" "x = h # d" "h AND 0x1F = 1" "length x < 2 ^ 32"
  shows "parse_loop h264_key h264_param m 5 (4 + int (length x)) 0 nd = Some nd"
proof -
  have v: "mem_load m 9 = Some h" using assms(1-3) by (simp add: mem_load_def nth_append)
  have n: "yang_get_be32 m 5 = Some (word_of_nat (length x))"
    using get_be32_at [of pre "word_of_nat (length x)" "x @ r"] assms(1,2) by simp
  have u: "uint (word_of_nat (length x) :: u32) = int (length x)"
    using assms(5) by (simp add: uint_nat unat_of_nat take_bit_nat_eq_self)
  have "\<not> h264_key h" "\<not> h264_param h" using assms(4) by (simp_all add: h264_key_def h264_param_def)
  then show ?thesis
    by (subst parse_loop.simps, subst parse_loop.simps) (simp add: v n u)
qed

definition p_frame :: "'w rtc_context \<Rightarrow> u32 \<Rightarrow> u8 list \<Rightarrow> yang_frame \<Rightarrow> bool" where
  "p_frame context ts x fr \<longleftrightarrow> fr_frametype fr = YANG_Frametype_P \<and> fr_uid fr = cx_uid context \<and> fr_pts fr = uint ts \<and>
     fr_dts fr = uint ts \<and> mem_read (fr_mem fr) (fr_payload fr) (fr_nb fr) = Some (be32 (word_of_nat (length x)) @ x)"

lemma receive_inter:
  assumes "mem_load (fr_mem fr) 0 = Some 0x27" "mem_load (fr_mem fr) 1 = Some 1" "mem_load (fr_mem fr) 9 = Some h" "h AND 0x1F = 1"
    and "fr_payload fr = 0" "fr_nb fr \<le> 1048576"
  shows "yang_playtrack_receiveVideo net context fr = Some (send_video net context (fr\<lparr>fr_dts := fr_pts fr, fr_payload := 5,
     fr_nb := fr_nb fr - 5, fr_frametype := YANG_Frametype_P\<rparr>))"
  using assms by (simp add: yang_playtrack_receiveVideo_def Let_def yang_hasH264Pframe_def)

lemma receive_no_key:
  assumes "mem_load (fr_mem fr) 0 = Some 0x17" "mem_load (fr_mem fr) 1 = Some 1"
    and "\<And>nd. parse_loop h264_key h264_param (fr_mem fr) 5 (fr_nb fr - 5) 0 nd = Some nd"
    and "fr_payload fr = 0" "fr_nb fr \<le> 1048576"
  shows "\<exists>fr'. yang_playtrack_receiveVideo net context fr = Some (context, fr')"
  using assms by (simp add: yang_playtrack_receiveVideo_def Let_def receive_key_def yang_parseH264Nalu_def)

lemma put_one_unit:
  assumes "pm_video_buffer track = [b, 1, 0, 0, 0] @ be32 (word_of_nat (length x)) @ x @ r" "x = h # d" "h AND 0x1F = 1"
    and "9 + length x \<le> 1048576"
  shows "b = 0x27 \<Longrightarrow> \<exists>fr fr'. put_frame_video net context track (uint ts) (9 + int (length x)) =
      Some (Yang_Ok, context\<lparr>cx_world := receive_callback net (cx_world context) fr\<rparr>, track\<lparr>pm_videoFrame := fr'\<rparr>)
      \<and> p_frame context ts x fr"
    and "b = 0x17 \<Longrightarrow> \<exists>fr'. put_frame_video net context track (uint ts) (9 + int (length x)) =
      Some (Yang_Ok, context, track\<lparr>pm_videoFrame := fr'\<rparr>)"
proof -
  define n where "n = 9 + int (length x)"
  have n: "n \<le> 1048576" "n - 5 = 4 + int (length x)" using assms(4) by (simp_all add: n_def)
  define fr where "fr = (pm_videoFrame track)\<lparr>fr_uid := pm_uid track, fr_mem := pm_video_buffer track, fr_payload := 0, fr_nb := n,
     fr_pts := uint ts\<rparr>"
  have f: "fr_mem fr = pm_video_buffer track" "fr_payload fr = 0" "fr_nb fr = n" "fr_pts fr = uint ts" by (simp_all add: fr_def)
  note u = one_unit [OF assms(1,2)]
  have put: "put_frame_video net context track (uint ts) n = do {
      (context, fr) \<leftarrow> yang_playtrack_receiveVideo net context fr;
      Some (Yang_Ok, context, track\<lparr>pm_videoFrame := fr\<rparr>)
    }"
    using n(1) by (simp add: put_frame_video_def fr_def)
  {
    assume "b = 0x27"
    then have r: "yang_playtrack_receiveVideo net context fr = Some (send_video net context (fr\<lparr>fr_dts := uint ts, fr_payload := 5,
        fr_nb := n - 5, fr_frametype := YANG_Frametype_P\<rparr>))"
      using receive_inter [of fr h net "context"] u(1-3) n(1) assms(3) f by simp
    show "\<exists>fr fr'. put_frame_video net context track (uint ts) (9 + int (length x)) =
      Some (Yang_Ok, context\<lparr>cx_world := receive_callback net (cx_world context) fr\<rparr>, track\<lparr>pm_videoFrame := fr'\<rparr>)
      \<and> p_frame context ts x fr"
      unfolding n_def [symmetric] put r
      by (intro exI [of _ "fr\<lparr>fr_dts := uint ts, fr_payload := 5, fr_nb := n - 5, fr_frametype := YANG_Frametype_P, fr_uid := cx_uid context\<rparr>"])
        (simp add: send_video_def Let_def p_frame_def f u(4) n(2))
  next
    assume "b = 0x17"
    moreover have "parse_loop h264_key h264_param (fr_mem fr) 5 (fr_nb fr - 5) 0 nd = Some nd" for nd
      using parse_one_unit [of "pm_video_buffer track" "[b, 1, 0, 0, 0]" x r h d nd] assms n(2) by (simp add: f)
    ultimately obtain fr' where "yang_playtrack_receiveVideo net context fr = Some (context, fr')"
      using receive_no_key [of fr net "context"] u(1,2) n(1) f by auto
    then show "\<exists>fr'. put_frame_video net context track (uint ts) (9 + int (length x)) =
        Some (Yang_Ok, context, track\<lparr>pm_videoFrame := fr'\<rparr>)"
      unfolding n_def [symmetric] put by auto
  }
qed


section \<open>The arrival of a fragment\<close>

lemma slots_empty: "slots_of ring sn ts h cs {} track \<longleftrightarrow> (\<forall>j<1024. \<not> ca_in_use (slot track sn j))"
  by (simp add: slots_of_def)

text \<open>No slot in use from one number on is no slot in use from any other.\<close>

lemma all_free:
  assumes "\<forall>j<1024. \<not> ca_in_use (slot track sn j)"
  shows "\<not> ca_in_use (slot track sn' j')"
proof -
  define i where "i = (unat sn' + j') mod 1024"
  define j where "j = (i + (1024 - unat sn mod 1024)) mod 1024"
  have "(unat sn + j) mod 1024 = (unat sn mod 1024 + (i + (1024 - unat sn mod 1024))) mod 1024"
    unfolding j_def by (metis mod_add_eq mod_add_left_eq mod_add_right_eq)
  also have "unat sn mod 1024 + (i + (1024 - unat sn mod 1024)) = i + 1024"
    using mod_less_divisor [of 1024 "unat sn"] by simp
  finally have "(unat sn + j) mod 1024 = i" by (simp add: i_def)
  then have "slot track sn j = slot track sn' j'" by (simp add: slot_def cache_index_nat i_def)
  moreover have "j < 1024" by (simp add: j_def)
  ultimately show ?thesis using assms by metis
qed

lemma after_frame_idle:
  assumes "track_ok track" "\<forall>j<1024. \<not> ca_in_use (slot track sn j)" "pm_hasRequestKeyframe track \<noteq> 0"
  shows "\<exists>track'. after_frame tc err track sn' = Some (err, track', None) \<and> idle sn' track'"
proof -
  let ?t = "track\<lparr>pm_header_sn := sn'\<rparr>"
  have l: "mem_load (pm_cache track) (cache_index sn') = Some (slot track sn' 0)"
    using load_slot [OF assms(1), of sn' 0] by simp
  have f: "\<not> ca_in_use (slot track sn' j)" for j by (rule all_free [OF assms(2)])
  then have "find_next_lost_sn ?t sn' 0 = Some (uint sn', 0)"
    using l by (simp add: find_next_lost_sn_def find_lost_1024)
  moreover have "uint sn' \<noteq> - 1" "uint sn' \<noteq> - 2" using uint_nonnegative [of sn'] by linarith+
  ultimately have "after_frame tc err track sn' = Some (err, ?t\<lparr>pm_lost_sn := sn'\<rparr>, None)"
    by (simp add: after_frame_def)
  moreover have "idle sn' (?t\<lparr>pm_lost_sn := sn'\<rparr>)"
    using assms(1,3) f by (simp add: idle_def track_ok_def slot_def)
  ultimately show ?thesis by blast
qed

text \<open>What a completed frame of type 1 does to the outside: it is delivered, but for the wrong key frame test.\<close>

definition delivered :: "'w rtc_net \<Rightarrow> 'w rtc_context \<Rightarrow> u32 \<Rightarrow> u8 \<Rightarrow> u8 list list \<Rightarrow> 'w rtc_context \<Rightarrow> bool" where
  "delivered net context ts h cs context' \<longleftrightarrow>
     (if hd (cs ! 0) AND 0x1F = 5 then context' = context
      else \<exists>fr. p_frame context ts (h # concat cs) fr \<and> context' = context\<lparr>cx_world := receive_callback net (cx_world context) fr\<rparr>)"

text \<open>A frame whose fragments fit into the cache and into the buffer.\<close>

definition frame_ok :: "u8 \<Rightarrow> u8 list list \<Rightarrow> bool" where
  "frame_ok h cs \<longleftrightarrow> h AND 0x1F = 1 \<and> (\<forall>c \<in> set cs. c \<noteq> []) \<and> 2 \<le> length cs \<and> length cs \<le> 1024 \<and> length (concat cs) + 10 \<le> 1048576"

lemma packet_complete:
  assumes "frame_ok h cs" "track_ok track" "slots_of ring sn ts h cs {..<length cs} track" "pm_hasRequestKeyframe track \<noteq> 0"
  shows "\<exists>context' track'. packet_video h264_track net context ring track sn (sn + word_of_nat (length cs - 1)) =
      Some (Yang_Ok, context', track') \<and> delivered net context ts h cs context' \<and> idle (sn + word_of_nat (length cs)) track'"
proof -
  let ?x = "h # concat cs"
  define stop where "stop = sn + word_of_nat (length cs - 1)"
  have nx: "stop + 1 = sn + word_of_nat (length cs)"
    using assms(1) by (cases "length cs") (auto simp: frame_ok_def stop_def)
  obtain track1 r where w: "write_frame h264_track net context ring track sn stop =
      put_frame_video net context track1 (uint ts) (9 + int (length ?x))"
      "track_ok track1" "slots_of ring sn ts h cs {} track1" "pm_hasRequestKeyframe track1 = pm_hasRequestKeyframe track"
      "pm_video_buffer track1 = frame_head cs @ be32 (word_of_nat (length ?x)) @ ?x @ r"
    using write_fragments [OF _ _ _ _ assms(2,3), of net "context"] assms(1) unfolding frame_ok_def stop_def by blast
  obtain context' fr' where put: "put_frame_video net context track1 (uint ts) (9 + int (length ?x)) =
      Some (Yang_Ok, context', track1\<lparr>pm_videoFrame := fr'\<rparr>)" "delivered net context ts h cs context'"
  proof (cases "hd (cs ! 0) AND 0x1F = 5")
    case True
    then show ?thesis
      using put_one_unit(2) [of track1 "0x17" ?x r h "concat cs" net "context" ts] w(5) assms(1) that
      by (auto simp: frame_head_def delivered_def frame_ok_def)
  next
    case False
    then show ?thesis
      using put_one_unit(1) [of track1 "0x27" ?x r h "concat cs" net "context" ts] w(5) assms(1) that
      by (auto simp: frame_head_def delivered_def frame_ok_def)
  qed
  have "track_ok (track1\<lparr>pm_videoFrame := fr'\<rparr>)" "\<forall>j<1024. \<not> ca_in_use (slot (track1\<lparr>pm_videoFrame := fr'\<rparr>) sn j)"
      "pm_hasRequestKeyframe (track1\<lparr>pm_videoFrame := fr'\<rparr>) \<noteq> 0"
    using w(2-4) assms(4) by (simp_all add: track_ok_def slots_of_def slot_def)
  then obtain track' where a: "after_frame h264_track Yang_Ok (track1\<lparr>pm_videoFrame := fr'\<rparr>) (stop + 1)
      = Some (Yang_Ok, track', None)" "idle (stop + 1) track'"
    using after_frame_idle [of "track1\<lparr>pm_videoFrame := fr'\<rparr>" sn] by blast
  show ?thesis
    using w(1) put a nx unfolding stop_def [symmetric] by (subst packet_video.simps) auto
qed

lemma first_missing:
  assumes "R \<subset> {..<n :: nat}"
  obtains m where "m < n" "m \<notin> R" "{..<m} \<subseteq> R"
proof -
  from assms obtain k where k: "k < n" "k \<notin> R" by auto
  let ?m = "LEAST x. x \<notin> R"
  have "?m \<notin> R" "?m \<le> k"
    using k(2) by (rule LeastI [of "\<lambda>x. x \<notin> R"], rule Least_le [of "\<lambda>x. x \<notin> R"])
  moreover have "{..<?m} \<subseteq> R" using not_less_Least by blast
  ultimately show ?thesis using k(1) that [of ?m] by simp
qed

lemma sn_inj: "i < 65536 \<Longrightarrow> j < 65536 \<Longrightarrow> sn + word_of_nat i = (sn + word_of_nat j :: u16) \<longleftrightarrow> i = j"
  by (simp add: word_of_nat_eq_iff take_bit_nat_eq_self)

text \<open>What the search finds after the arrival of a fragment that was the first missing one.\<close>

lemma search_after:
  assumes "track_ok track" "slots_of ring sn ts h cs R track" "2 \<le> length cs" "length cs \<le> 1024" "pm_header_sn track = sn"
    and "R \<subseteq> {..<length cs}" "{..m} \<subseteq> R" "m < length cs"
  shows "R = {..<length cs} \<Longrightarrow>
      find_next_lost_sn track (sn + word_of_nat m) 0 = Some (- 1, sn + word_of_nat (length cs - 1))"
    and "R \<noteq> {..<length cs} \<Longrightarrow> \<exists>m'<length cs. m' \<notin> R \<and> {..<m'} \<subseteq> R \<and>
      find_next_lost_sn track (sn + word_of_nat m) 0 = Some (uint (sn + word_of_nat m'), 0)"
proof -
  have "0 \<in> R" using assms(7) by auto
  then have "holds ring ts h cs 0 (slot track sn 0)" using assms(2) by (simp add: slots_of_def)
  then have f: "find_next_lost_sn track (sn + word_of_nat m) 0 = find_lost_loop (pm_cache track) ts 1024 (sn + word_of_nat m) 0"
    using load_slot [OF assms(1), of sn 0] assms(5) by (simp add: find_next_lost_sn_def holds_def)
  show "find_next_lost_sn track (sn + word_of_nat m) 0 = Some (- 1, sn + word_of_nat (length cs - 1))"
    if "R = {..<length cs}"
    unfolding f by (rule find_end [OF assms(1,2,4)]) (use that assms(4,8) in auto)
  show "\<exists>m'<length cs. m' \<notin> R \<and> {..<m'} \<subseteq> R \<and> find_next_lost_sn track (sn + word_of_nat m) 0 = Some (uint (sn + word_of_nat m'), 0)"
    if ne: "R \<noteq> {..<length cs}"
  proof -
    obtain m' where m': "m' < length cs" "m' \<notin> R" "{..<m'} \<subseteq> R" by (rule first_missing [OF psubsetI [OF assms(6) ne]])
    moreover have "\<not> m' \<le> m" using m'(2) assms(7) by auto
    then have "find_lost_loop (pm_cache track) ts 1024 (sn + word_of_nat m) 0 = Some (uint (sn + word_of_nat m'), 0)"
      by (intro find_missing [OF assms(1,2,4)]) (use m' assms(4) in auto)
    ultimately show ?thesis using f by auto
  qed
qed

text \<open>
  The step of the abstract receiver, a set of fragments: the new one is added, and a set that is complete is delivered.
\<close>

lemma fragment_arrives:
  assumes "frame_ok h cs" "collecting ring sn ts h cs R track" "j < length cs" "frag_packet ring sn ts h cs j pkt"
  shows "\<exists>context' track' pkt'. yang_playtrackH264_on_rtp net context ring track pkt = Some (Yang_Ok, context', track', pkt') \<and>
    (if insert j R = {..<length cs}
     then delivered net context ts h cs context' \<and> idle (sn + word_of_nat (length cs)) track'
     else context' = context \<and> collecting ring sn ts h cs (insert j R) track')"
proof -
  have fr: "h AND 0x1F = 1" "\<forall>c \<in> set cs. c \<noteq> []" "2 \<le> length cs" "length cs \<le> 1024" using assms(1) by (simp_all add: frame_ok_def)
  have c: "track_ok track" "pm_hasRequestKeyframe track \<noteq> 0" "pm_header_sn track = sn" "R \<subset> {..<length cs}"
      "slots_of ring sn ts h cs R track"
    using assms(2) by (simp_all add: collecting_def)
  obtain m where m: "m < length cs" "m \<notin> R" "{..<m} \<subseteq> R" "pm_lost_sn track = sn + word_of_nat m"
    using assms(2) by (auto simp: collecting_def)
  obtain p where p: "pk_payload pkt = Some p"
      "mem_read ring p (int (length (fua2_wire (frag_data h (length cs) j) (cs ! j)))) = Some (fua2_wire (frag_data h (length cs) j) (cs ! j))"
    using assms(4) by (auto simp: frag_packet_def fua2_wire_def add.commute)
  define b0 b1 where "b0 = 28 OR (h AND NOT 0x1F)" and "b1 = (h AND 0x1F) OR (if j = 0 then 0x80 else 0) OR (if Suc j = length cs then 0x40 else 0)"
  have w: "fua2_wire (frag_data h (length cs) j) (cs ! j) = [b0] @ b1 # cs ! j"
    by (simp add: fua2_wire_def frag_data_def b0_def b1_def)
  have "mem_read ring p (int (length [b0])) = Some [b0]" "mem_read ring (p + int (length [b0])) (int (length (b1 # cs ! j))) = Some (b1 # cs ! j)"
    using mem_read_append [of ring p "[b0]" "b1 # cs ! j"] p(2) by (simp_all add: w)
  then have b: "mem_load ring p = Some b0" "mem_load ring (p + 1) = Some b1"
    using mem_read_append(1) [of ring "p + 1" "[b1]" "cs ! j"] by (simp_all add: mem_read_1)
  have k: "b0 AND 0x1F = 28" "b1 AND 0x1F \<noteq> 5"
    by (simp_all add: b0_def b1_def fr(1) bit.conj_disj_distrib2 and.assoc)
  define src where "src = pkt\<lparr>pk_nalu_type := 28\<rparr>"
  have src: "frag_packet ring sn ts h cs j src" "pk_nalu_type src = 28" "sequence (pk_header src) = sn + word_of_nat j"
    using assms(4) by (simp_all add: frag_packet_def src_def)
  obtain b cache where s: "store_packet h264_track ring track src = Some (track\<lparr>pm_buf := b, pm_cache := cache\<rparr>)"
      "track_ok (track\<lparr>pm_buf := b, pm_cache := cache\<rparr>)" "slots_of ring sn ts h cs (insert j R) (track\<lparr>pm_buf := b, pm_cache := cache\<rparr>)"
    using store_fragment [OF c(1,5) fr(4) assms(3) src(1) _ src(2)] fr(2) assms(3) by auto
  define t where "t = track\<lparr>pm_buf := b, pm_cache := cache\<rparr>"
  have t: "pm_header_sn t = sn" "pm_lost_sn t = sn + word_of_nat m" "pm_hasRequestKeyframe t \<noteq> 0" "track_ok t"
      "slots_of ring sn ts h cs (insert j R) t"
    using c m(4) s(2,3) by (simp_all add: t_def)
  have n: "uint (tc_nal_type h264_track b0) = 28" "tc_packet_key h264_track 28 ring (Some p) = Some False"
    using b k by (simp_all add: h264_track_def yang_playtrackH264_is_keyframe_def load_at_def)
  have pp: "pk_payload src = Some p" by (simp add: src_def p(1))
  have on: "yang_playtrackH264_on_rtp net context ring track pkt = do {
      (err, context, track) \<leftarrow>
         (if sn + word_of_nat m = sn + word_of_nat j then do {
            (sn, tail_sn) \<leftarrow> find_next_lost_sn t (sn + word_of_nat m) 0;
            after_search h264_track net context ring t sn tail_sn
          }
          else Some (Yang_Ok, context, t));
      Some (err, context, track, src)
    }"
    using c(2) p(1) b(1) s(1) src(2,3) t(2)
    by (simp add: yang_playtrackH264_on_rtp_def track_on_rtp_def Let_def n pp flip: t_def src_def)
  show ?thesis
  proof (cases "m = j")
    case False
    then have "insert j R \<noteq> {..<length cs}" using m(1,2) by blast
    moreover have "sn + word_of_nat m \<noteq> sn + word_of_nat j" using False sn_inj [of m j sn] m(1) assms(3) fr(4) by simp
    moreover have "collecting ring sn ts h cs (insert j R) t"
      using t m calculation(1) c(4) assms(3) False by (auto simp: collecting_def intro!: exI [of _ m])
    ultimately show ?thesis by (auto simp: on)
  next
    case True
    have i: "insert j R \<subseteq> {..<length cs}" "{..m} \<subseteq> insert j R" using c(4) assms(3) m(3) True by (auto simp: le_less)
    note f = search_after [OF t(4,5) fr(3,4) t(1) i m(1)]
    show ?thesis
    proof (cases "insert j R = {..<length cs}")
      case full: True
      then have "check_frame_complete h264_track t sn (sn + word_of_nat (length cs - 1)) = Some True"
        using complete_frame [OF t(4) _ fr(4,3)] t(5) by simp
      then show ?thesis
        using packet_complete [OF assms(1) t(4) _ t(3), of ring sn ts net "context"] t(5) full f(1) True t(1)
        by (auto simp: on after_search_def)
    next
      case part: False
      then obtain m' where m': "m' < length cs" "m' \<notin> insert j R" "{..<m'} \<subseteq> insert j R"
          "find_next_lost_sn t (sn + word_of_nat m) 0 = Some (uint (sn + word_of_nat m'), 0)"
        using f(2) by blast
      have "uint (sn + word_of_nat m') \<noteq> - 1" "uint (sn + word_of_nat m') \<noteq> - 2"
        using uint_nonnegative [of "sn + word_of_nat m'"] by linarith+
      moreover have "collecting ring sn ts h cs (insert j R) (t\<lparr>pm_lost_sn := sn + word_of_nat m'\<rparr>)"
        using t m'(1-3) i(1) part by (auto simp: collecting_def track_ok_def slots_of_def slot_def)
      ultimately show ?thesis using m'(4) part True by (simp add: on after_search_def)
    qed
  qed
qed


text \<open>Packets one after the other.\<close>

primrec arrive ::
    "'w rtc_net \<Rightarrow> u8 list \<Rightarrow> rtp_packet list \<Rightarrow> 'w rtc_context \<Rightarrow> play_media \<Rightarrow> ('w rtc_context \<times> play_media) option" where
  "arrive net ring [] context track = Some (context, track)"
| "arrive net ring (pkt # pkts) context track = do {
     (_, context, track, _) \<leftarrow> yang_playtrackH264_on_rtp net context ring track pkt;
     arrive net ring pkts context track
   }"

lemma arrive_append:
  "arrive net ring (xs @ ys) context track =
     (case arrive net ring xs context track of None \<Rightarrow> None | Some (context, track) \<Rightarrow> arrive net ring ys context track)"
  by (induction xs arbitrary: "context" track) (auto split: Option.bind_splits)

lemma fragments_collect:
  assumes "frame_ok h cs" "collecting ring sn ts h cs R track" "\<forall>j<length cs. frag_packet ring sn ts h cs j (pkt j)"
    and "R \<union> set js \<subset> {..<length cs}"
  shows "\<exists>track'. arrive net ring (map pkt js) context track = Some (context, track') \<and> collecting ring sn ts h cs (R \<union> set js) track'"
  using assms(2,4)
proof (induction js arbitrary: R track)
  case (Cons j js)
  have i: "insert j R \<union> set js \<subset> {..<length cs}" using Cons.prems(2) by simp
  then have j: "j < length cs" "insert j R \<noteq> {..<length cs}" by (blast, metis Un_upper1 psubset_eq subset_psubset_trans)
  obtain track1 pkt' where s: "yang_playtrackH264_on_rtp net context ring track (pkt j) = Some (Yang_Ok, context, track1, pkt')"
      "collecting ring sn ts h cs (insert j R) track1"
    using fragment_arrives [OF assms(1) Cons.prems(1) j(1) assms(3) [rule_format, OF j(1)], of net "context"] unfolding if_not_P [OF j(2)] by blast
  then show ?case using Cons.IH [OF s(2) i] by simp
qed simp

lemma fragments_complete:
  assumes "frame_ok h cs" "idle sn track" "\<forall>j<length cs. frag_packet ring sn ts h cs j (pkt j)"
    and "set js \<union> {l} = {..<length cs}" "l \<notin> set js"
  shows "(\<exists>track'. arrive net ring (map pkt js) context track = Some (context, track')) \<and>
    (\<exists>context' track'. arrive net ring (map pkt (js @ [l])) context track = Some (context', track') \<and>
       delivered net context ts h cs context' \<and> idle (sn + word_of_nat (length cs)) track')"
proof -
  have "cs \<noteq> []" using assms(1) by (auto simp: frame_ok_def)
  have "l < length cs" using assms(4) by blast
  have s: "{} \<union> set js \<subset> {..<length cs}" using assms(4,5) by blast
  obtain track1 where a: "arrive net ring (map pkt js) context track = Some (context, track1)"
      "collecting ring sn ts h cs (set js) track1"
    using fragments_collect [OF assms(1) idle_collecting [OF assms(2) \<open>cs \<noteq> []\<close>] assms(3) s, of net "context"] by auto
  have "insert l (set js) = {..<length cs}" using assms(4) by simp
  then obtain context' track' pkt' where "yang_playtrackH264_on_rtp net context ring track1 (pkt l) = Some (Yang_Ok, context', track', pkt')"
      "delivered net context ts h cs context'" "idle (sn + word_of_nat (length cs)) track'"
    using fragment_arrives [OF assms(1) a(2) \<open>l < length cs\<close> assms(3) [rule_format, OF \<open>l < length cs\<close>], of net "context"]
    unfolding if_P [OF \<open>insert l (set js) = {..<length cs}\<close>] by blast
  with a(1) show ?thesis by (simp add: arrive_append)
qed


text \<open>
  An inter frame whose slice data happens to start with a byte whose low five bits are 5 is never delivered: the
  test for a key frame (is_keyframe2) looks at the byte behind the fragment header, which is data, so the frame is
  written as a key frame, and a key frame without key unit is dropped.
\<close>
theorem fragments_dropped:
  assumes "frame_ok h cs" "hd (cs ! 0) AND 0x1F = 5" "idle sn track" "\<forall>j<length cs. frag_packet ring sn ts h cs j (pkt j)"
    and "set js \<union> {l} = {..<length cs}" "l \<notin> set js"
  shows "\<exists>track'. arrive net ring (map pkt (js @ [l])) context track = Some (context, track') \<and>
    idle (sn + word_of_nat (length cs)) track'"
  using fragments_complete [OF assms(1,3-6), of net "context"] assms(2) by (auto simp: delivered_def)


section \<open>A sample\<close>

text \<open>Two fragments, numbers 65535 and 0, in a ring of seven bytes; \<open>x\<close> is the first data byte.\<close>

definition sample_track :: play_media where
  "sample_track = (create_play_media (sample_context ()))\<lparr>pm_hasRequestKeyframe := 1, pm_header_sn := 65535, pm_lost_sn := 65535\<rparr>"

definition sample_ring :: "u8 \<Rightarrow> u8 list" where
  "sample_ring x = [0x5C, 0x81, x, 2, 0x5C, 0x41, 3]"

definition sample_packet :: "nat \<Rightarrow> rtp_packet" where
  "sample_packet j = \<lparr>pk_actual_buffer_size = 1500, pk_nalu_type = 0, pk_frame_type = 9, pk_payload_type = 0,
     pk_nb = (if j = 0 then 4 else 3), pk_cached_payload_size = 0, pk_payload = Some (if j = 0 then 0 else 4),
     pk_header = zero_header\<lparr>sequence := 65535 + word_of_nat j, timestamp := 90, marker := (j = 1)\<rparr>\<rparr>"

lemma sample_idle: "idle 65535 sample_track"
proof -
  have "nat (cache_index (65535 + word_of_nat j)) < 1024" for j by (simp add: cache_index_nat)
  then have "slot sample_track 65535 j = zero_cache" for j
    by (simp add: slot_def sample_track_def create_play_media_def)
  then show ?thesis
    by (simp add: idle_def track_ok_def zero_cache_def) (simp add: sample_track_def create_play_media_def)
qed

lemma sample_frame_ok: "frame_ok 0x41 [[x, 2], [3]]"
  by (simp add: frame_ok_def)

lemma sample_packets: "\<forall>j<length [[x, 2], [3]]. frag_packet (sample_ring x) 65535 90 0x41 [[x, 2], [3]] j (sample_packet j)"
  by (auto simp: less_Suc_eq frag_packet_def sample_packet_def sample_ring_def mem_read_def fua2_wire_def frag_data_def)


definition frame_net :: "u8 list list rtc_net" where
  "frame_net = (log_net (\<lambda>x. x) 5)\<lparr>net_receiveVideo := Some (\<lambda>w fr. w @ [fr_mem fr])\<rparr>"


theorem fragments_dropped_witness:
  "\<exists>track'. arrive frame_net (sample_ring 5) (map sample_packet ([1, 1] @ [0])) (sample_context []) sample_track
     = Some (sample_context [], track') \<and> idle (65535 + word_of_nat (length [[5 :: u8, 2], [3]])) track'"
  by (rule fragments_dropped [OF sample_frame_ok _ sample_idle sample_packets]) auto

end
