(* ===== verification/Play_Frame.thy ===== *)
theory Play_Frame
  imports Play_Facts
begin

text \<open>
  Frames of packets that hold one unit each: the image that is written for them, and what becomes of a frame that is larger than the
  frame buffer. The size is looked at only after the frame has been written.
\<close>


text \<open>The units, each with its length before it.\<close>

definition unit_image :: "u8 list \<Rightarrow> u8 list" where
  "unit_image u = be32 (word_of_nat (length u)) @ u"

definition frame_image :: "u8 list list \<Rightarrow> u8 list" where
  "frame_image us = concat (map unit_image us)"

lemma frame_image_simps [simp]: "frame_image [] = []" "frame_image (u # us) = unit_image u @ frame_image us"
  by (simp_all add: frame_image_def)

lemma length_unit_image [simp]: "length (unit_image u) = 4 + length u"
  by (simp add: unit_image_def)

section \<open>Units are written while they fit\<close>







section \<open>A whole frame\<close>














end
