(* ===== verification/Sort_Facts.thy ===== *)
theory Sort_Facts
  imports Play_Facts
begin

text \<open>
  What the audio track makes of its sort buffer. The number of frames is 0 between two packets: a frame is put, taken
  and removed again, because the difference of the unsigned number of frames and the signed number of frames to hold
  back wraps around.
\<close>

definition sort_ok :: "sort_buffer \<Rightarrow> bool" where
  "sort_ok sb \<longleftrightarrow> sb_vsize sb = 0 \<and> sb_cacheNum sb = 3 \<and> sb_capacity sb = 8 \<and>
     (\<exists>p f. frame_at sb 0 = Some (p, f) \<and> 0 \<le> fr_payload (sf_frame f) \<and>
        fr_payload (sf_frame f) + 1500 \<le> int (length (sb_bufferManager sb)))"

text \<open>The frame the buffer gives out next, whether it has been given out before or not.\<close>

definition head_frame :: "sort_buffer \<Rightarrow> yang_frame option" where
  "head_frame sb = map_option (\<lambda>(_, f). (sf_frame f)\<lparr>fr_mem := sb_bufferManager sb\<rparr>) (frame_at sb 0)"

lemma created_sort_ok: "sort_ok (yang_sortBuffer_initFrames (yang_create_sortBuffer 3) 8 1500)"
  by (simp add: sort_ok_def yang_sortBuffer_initFrames_def yang_create_sortBuffer_def frame_at_def mem_load_def Let_def
      upt_rec [of 0])

lemma late_frame:
  assumes "sort_ok sb" "fr_pts fr \<le> sb_lastPts sb"
  shows "\<exists>g. head_frame sb = Some g \<and> sorted_audio net context sb fr = Some (receive_audio net context g, sb)"
  using assms
  by (auto simp: sort_ok_def head_frame_def sorted_audio_def yang_sortBuffer_putFrame_def yang_sortBuffer_getCurFrameRef_def
      yang_sortBuffer_removeFirst_def)

lemma set_first:
  assumes "sort_ok sb" "mem_read (fr_mem fr) (fr_payload fr) (fr_nb fr) = Some bs" "length bs \<le> 1500"
  shows "\<exists>sb' p g. set_frame sb 0 v fr 1 = Some sb' \<and> frame_at sb' 0 = Some (p, \<lparr>sf_pts = v, sf_frame = g\<rparr>) \<and>
    fr_pts g = fr_pts fr \<and> mem_read (sb_bufferManager sb') (fr_payload g) (fr_nb g) = Some bs \<and>
    0 \<le> fr_payload g \<and> fr_payload g + 1500 \<le> int (length (sb_bufferManager sb')) \<and>
    sb_vsize sb' = 1 \<and> sb_cacheNum sb' = 3 \<and> sb_capacity sb' = 8 \<and> sb_frames sb' = sb_frames sb"
proof -
  obtain p f where f: "frame_at sb 0 = Some (p, f)" "0 \<le> fr_payload (sf_frame f)"
      "fr_payload (sf_frame f) + 1500 \<le> int (length (sb_bufferManager sb))"
    using assms(1) by (auto simp: sort_ok_def)
  have l: "mem_load (sb_frames sb) 0 = Some p" "mem_load (sb_store sb) (int p) = Some f"
    using f(1) by (auto simp: frame_at_def split: Option.bind_splits)
  define g where "g = yang_frame_copy_nobuffer fr (sf_frame f)"
  have g: "fr_payload g = fr_payload (sf_frame f)" "fr_nb g = fr_nb fr" "fr_pts g = fr_pts fr"
    by (simp_all add: g_def yang_frame_copy_nobuffer_def)
  have "mem_write (sb_bufferManager sb) (fr_payload g) bs \<noteq> None"
    using f(2,3) assms(3) by (simp add: mem_write_def g)
  then obtain m where m: "mem_write (sb_bufferManager sb) (fr_payload g) bs = Some m" by blast
  have n: "fr_nb fr = int (length bs)" using assms(2) by (auto simp: mem_read_def split: if_splits)
  define store where "store = (sb_store sb)[p := \<lparr>sf_pts = v, sf_frame = g\<rparr>]"
  have s: "mem_store (sb_store sb) (int p) \<lparr>sf_pts = v, sf_frame = g\<rparr> = Some store" "mem_load store (int p) = Some \<lparr>sf_pts = v, sf_frame = g\<rparr>"
    using l(2) by (auto simp: mem_store_def mem_load_def store_def split: if_splits)
  define sb' where "sb' = sb\<lparr>sb_store := store, sb_bufferManager := m, sb_vsize := 1\<rparr>"
  have "set_frame sb 0 v fr 1 = Some sb'"
    using f(1) m s(1) assms(2) by (simp add: set_frame_def yang_frame_copy_buffer_def sb'_def Let_def flip: g_def)
  moreover have "frame_at sb' 0 = Some (p, \<lparr>sf_pts = v, sf_frame = g\<rparr>)"
    using l(1) s(2) by (simp add: frame_at_def sb'_def)
  moreover have "length m = length (sb_bufferManager sb)" "mem_read m (fr_payload g) (fr_nb g) = Some bs"
    using length_mem_write [OF m] mem_read_write_same [OF m] n g(2) by simp_all
  ultimately show ?thesis
    using g f(2,3) assms(1) by (intro exI [of _ sb'] exI [of _ p] exI [of _ g]) (simp add: sb'_def sort_ok_def)
qed

text \<open>A frame in time is delivered at once and stays in the buffer.\<close>

lemma frame_in_time:
  assumes "sort_ok sb" "mem_read (fr_mem fr) (fr_payload fr) (fr_nb fr) = Some bs" "length bs \<le> 1500" "fr_pts fr > sb_lastPts sb"
  shows "\<exists>g sb'. sorted_audio net context sb fr = Some (receive_audio net context g, sb') \<and> sort_ok sb' \<and> head_frame sb' = Some g \<and>
    sb_lastPts sb' = fr_pts fr \<and> fr_pts g = fr_pts fr \<and> mem_read (fr_mem g) (fr_payload g) (fr_nb g) = Some bs"
proof -
  obtain sb1 p g where s: "set_frame sb 0 (fr_pts fr) fr 1 = Some sb1" "frame_at sb1 0 = Some (p, \<lparr>sf_pts = fr_pts fr, sf_frame = g\<rparr>)"
    "fr_pts g = fr_pts fr" "mem_read (sb_bufferManager sb1) (fr_payload g) (fr_nb g) = Some bs" "0 \<le> fr_payload g"
    "fr_payload g + 1500 \<le> int (length (sb_bufferManager sb1))" "sb_vsize sb1 = 1" "sb_cacheNum sb1 = 3" "sb_capacity sb1 = 8"
    "sb_frames sb1 = sb_frames sb"
    using set_first [OF assms(1-3), of "fr_pts fr"] by auto
  have "sb_frames sb \<noteq> []" using assms(1) by (auto simp: sort_ok_def frame_at_def mem_load_def split: Option.bind_splits)
  then have put: "yang_sortBuffer_putFrame sb (fr_pts fr) fr = Some sb1"
    using assms(1,4) s(1) by (simp add: yang_sortBuffer_putFrame_def yang_sortBuffer_insert_def sort_ok_def)
  define sb' where "sb' = sb1\<lparr>sb_lastPts := fr_pts fr, sb_vsize := 0\<rparr>"
  have "yang_sortBuffer_removeFirst sb1 = Some sb'"
    using s(2,7,8) by (simp add: yang_sortBuffer_removeFirst_def sb'_def mem_read_def mem_write_def)
  moreover have "yang_sortBuffer_getCurFrameRef sb1 = Some (Some (g\<lparr>fr_mem := sb_bufferManager sb1\<rparr>))"
    using s(2,7,8) by (simp add: yang_sortBuffer_getCurFrameRef_def)
  moreover have "frame_at sb' 0 = frame_at sb1 0" by (simp add: frame_at_def sb'_def)
  then have "sort_ok sb'" "head_frame sb' = Some (g\<lparr>fr_mem := sb_bufferManager sb1\<rparr>)"
    using s by (simp_all add: sort_ok_def head_frame_def sb'_def)
  ultimately show ?thesis
    using put s(3,4) by (intro exI [of _ "g\<lparr>fr_mem := sb_bufferManager sb1\<rparr>"] exI [of _ sb']) (simp add: sorted_audio_def sb'_def)
qed

text \<open>
  C40: the audio sort buffer never holds a frame back and never sorts. A frame later than all before is delivered at
  once, with its bytes and its time; one that is not makes the buffer deliver the frame before once more, and is itself
  never delivered. In both cases the buffer is as good as empty afterwards, and the frame it gives out next is the one
  it gave out last.
\<close>
theorem audio_never_sorted:
  assumes "sort_ok sb" "mem_read (fr_mem fr) (fr_payload fr) (fr_nb fr) = Some bs" "length bs \<le> 1500"
  shows "\<exists>g sb'. sorted_audio net context sb fr = Some (receive_audio net context g, sb') \<and> sort_ok sb' \<and> head_frame sb' = Some g \<and>
    (if fr_pts fr > sb_lastPts sb
     then sb_lastPts sb' = fr_pts fr \<and> fr_pts g = fr_pts fr \<and> mem_read (fr_mem g) (fr_payload g) (fr_nb g) = Some bs
     else sb' = sb \<and> head_frame sb = Some g)"
  using frame_in_time [OF assms] late_frame [OF assms(1), of fr] assms(1) by (cases "fr_pts fr > sb_lastPts sb") fastforce+

theorem audio_never_sorted_witness:
  "\<exists>g sb'. sorted_audio (log_net (\<lambda>x. x) 5) (sample_context []) (yang_sortBuffer_initFrames (yang_create_sortBuffer 3) 8 1500)
      (sample_frame [1, 2, 3]) = Some (receive_audio (log_net (\<lambda>x. x) 5) (sample_context []) g, sb') \<and> sort_ok sb' \<and>
    head_frame sb' = Some g \<and>
    (if fr_pts (sample_frame [1, 2, 3]) > sb_lastPts (yang_sortBuffer_initFrames (yang_create_sortBuffer 3) 8 1500)
     then sb_lastPts sb' = fr_pts (sample_frame [1, 2, 3]) \<and> fr_pts g = fr_pts (sample_frame [1, 2, 3]) \<and>
       mem_read (fr_mem g) (fr_payload g) (fr_nb g) = Some [1, 2, 3]
     else sb' = yang_sortBuffer_initFrames (yang_create_sortBuffer 3) 8 1500 \<and>
       head_frame (yang_sortBuffer_initFrames (yang_create_sortBuffer 3) 8 1500) = Some g)"
  by (rule audio_never_sorted [OF created_sort_ok]) (simp_all add: sample_frame_def mem_read_def)

end
