(* ===== verification/C_String.thy ===== *)
theory C_String
  imports Buffer
begin

text \<open>
  C strings and the helpers of \<open>yangutil/sys/YangCString.c\<close>.

  A \<open>char*\<close> is the bytes of its allocation from the pointer on; the string is the bytes before the first zero byte, and
  an allocation without one is a fault (\<open>None\<close>). \<open>strtok\<close> is modelled by the token and the rest it remembers; the zero
  bytes it writes into the scanned string are the business of \<open>yang_cstr_split_src\<close>, the string after the call, for the one caller that
  reads it again (\<open>ssrc_msid\<close>). The numbers of \<open>yang_random\<close> come from the outside world, a function \<open>rnd\<close> on its state.
\<close>

section \<open>The C library\<close>

fun c_str :: "u8 list \<Rightarrow> u8 list option" where
  "c_str [] = None"
| "c_str (c # cs) = (if c = 0 then Some [] else map_option (Cons c) (c_str cs))"

text \<open>\<open>strcpy(dst, src)\<close>\<close>

definition c_strcpy :: "u8 list \<Rightarrow> u8 list \<Rightarrow> u8 list option" where
  "c_strcpy dst src = do {
     s \<leftarrow> c_str src;
     mem_write dst 0 (s @ [0])
   }"

text \<open>\<open>strtok\<close> on the characters of a string: the first token and what is left for the next call.\<close>

definition c_strtok :: "u8 list \<Rightarrow> u8 list \<Rightarrow> (u8 list \<times> u8 list) option" where
  "c_strtok s delim =
     (let t = dropWhile (\<lambda>c. c \<in> set delim) s
      in if t = [] then None
         else Some (takeWhile (\<lambda>c. c \<notin> set delim) t, drop 1 (dropWhile (\<lambda>c. c \<notin> set delim) t)))"

text \<open>\<open>strstr\<close>: the offset of the first occurrence.\<close>

fun is_prefix :: "u8 list \<Rightarrow> u8 list \<Rightarrow> bool" where
  "is_prefix [] s = True"
| "is_prefix (m # ms) [] = False"
| "is_prefix (m # ms) (c # s) = (m = c \<and> is_prefix ms s)"

fun c_strstr :: "u8 list \<Rightarrow> u8 list \<Rightarrow> nat option" where
  "c_strstr [] m = (if m = [] then Some 0 else None)"
| "c_strstr (c # s) m = (if is_prefix m (c # s) then Some 0 else map_option Suc (c_strstr s m))"

text \<open>\<open>sprintf("%d")\<close>\<close>

fun dec_nat :: "nat \<Rightarrow> u8 list" where
  "dec_nat n = (if n < 10 then [word_of_nat (48 + n)] else dec_nat (n div 10) @ [word_of_nat (48 + n mod 10)])"

declare dec_nat.simps [simp del]

definition dec_int :: "int \<Rightarrow> u8 list" where
  "dec_int i = (if i < 0 then 45 # dec_nat (nat (- i)) else dec_nat (nat i))"

text \<open>
  \<open>atoi\<close>: white space, a sign, digits. The C standard leaves the overflow undefined; the model has what the common
  implementations do, the clamped 64-bit value of \<open>strtol\<close> cut to 32 bits.
\<close>

definition is_digit :: "u8 \<Rightarrow> bool" where "is_digit c \<longleftrightarrow> 48 \<le> c \<and> c \<le> 57"
definition is_space :: "u8 \<Rightarrow> bool" where "is_space c \<longleftrightarrow> c = 32 \<or> 9 \<le> c \<and> c \<le> 13"

definition digits_value :: "u8 list \<Rightarrow> int" where
  "digits_value ds = foldl (\<lambda>n c. 10 * n + (uint c - 48)) 0 ds"

definition c_atoi :: "u8 list \<Rightarrow> int" where
  "c_atoi s =
     (let t = dropWhile is_space s;
          neg = (t \<noteq> [] \<and> hd t = 45);
          u = (if t \<noteq> [] \<and> (hd t = 45 \<or> hd t = 43) then tl t else t);
          v = digits_value (takeWhile is_digit u);
          l = max (- (2 ^ 63)) (min (2 ^ 63 - 1) (if neg then - v else v))
      in signed_take_bit 31 l)"

section \<open>YangCString.c\<close>

record YangStrings =
  strs_vsize :: int
  strs_capacity :: int
  strs_str :: "u8 list list"

definition strings_grow :: "YangStrings \<Rightarrow> YangStrings" where
  "strings_grow v = (if strs_capacity v \<le> strs_vsize v then v\<lparr>strs_capacity := strs_capacity v + 10\<rparr> else v)"

function split_loop :: "u8 list \<Rightarrow> u8 list \<Rightarrow> YangStrings \<Rightarrow> YangStrings" where
  "split_loop s delim v = (case c_strtok s delim of
     None \<Rightarrow> v
   | Some (p, rest) \<Rightarrow>
       split_loop rest delim (strings_grow (v\<lparr>strs_str := strs_str v @ [p @ [0]], strs_vsize := strs_vsize v + 1\<rparr>)))"
  by pat_completeness auto
termination
proof (relation "measure (\<lambda>(s, _). length s)")
  fix s delim v x p and rest :: "u8 list"
  assume "c_strtok s delim = Some x" "(p, rest) = x"
  then have "length rest < length (dropWhile (\<lambda>c. c \<in> set delim) s)"
    by (cases "dropWhile (\<lambda>c. c \<in> set delim) s")
       (auto simp: c_strtok_def Let_def less_Suc_eq_le intro: order_trans [OF diff_le_self length_dropWhile_le] split: if_splits)
  also have "\<dots> \<le> length s" by (rule length_dropWhile_le)
  finally show "((rest, delim, strings_grow (v\<lparr>strs_str := strs_str v @ [p @ [0]], strs_vsize := strs_vsize v + 1\<rparr>)), s, delim, v)
      \<in> measure (\<lambda>(s, _). length s)" by simp
qed simp

declare split_loop.simps [simp del]

text \<open>\<open>istr\<close> is overwritten; a string without a token gives 1 and an empty array.\<close>

definition yang_cstr_split :: "u8 list \<Rightarrow> u8 list \<Rightarrow> (errcode \<times> YangStrings) option" where
  "yang_cstr_split src delim = do {
     s \<leftarrow> c_str src;
     d \<leftarrow> c_str delim;
     let v = \<lparr>strs_vsize = 0, strs_capacity = 10, strs_str = []\<rparr>;
     Some (if c_strtok s d = None then (1, v) else (Yang_Ok, split_loop s d v))
   }"

text \<open>
  What the call leaves of its first argument: \<open>strtok\<close> overwrites the character that ends a token, unless that is the end of the string,
  and no other. The flag tells whether the character before belongs to a token.
\<close>

fun strtok_ends :: "u8 list \<Rightarrow> bool \<Rightarrow> u8 list \<Rightarrow> u8 list" where
  "strtok_ends d in_token [] = []"
| "strtok_ends d in_token (c # s) =
     (if c \<notin> set d then c # strtok_ends d True s
      else (if in_token then 0 else c) # strtok_ends d False s)"

definition yang_cstr_split_src :: "u8 list \<Rightarrow> u8 list \<Rightarrow> u8 list option" where
  "yang_cstr_split_src src delim = do {
     s \<leftarrow> c_str src;
     d \<leftarrow> c_str delim;
     Some (strtok_ends d False s @ drop (length s) src)
   }"

definition yang_itoa :: "int \<Rightarrow> u8 list \<Rightarrow> u8 list option" where
  "yang_itoa num data = mem_write data 0 (dec_int num @ [0])"

definition c_tolower :: "u8 \<Rightarrow> u8" where
  "c_tolower c = (if 65 \<le> c \<and> c \<le> 90 then c + 32 else c)"

primrec strcmp_loop :: "nat \<Rightarrow> int \<Rightarrow> u8 list \<Rightarrow> u8 list \<Rightarrow> int option" where
  "strcmp_loop 0 i str1 str2 = Some 0"
| "strcmp_loop (Suc k) i str1 str2 = do {
     a \<leftarrow> mem_load str1 i;
     b \<leftarrow> mem_load str2 i;
     if c_tolower a \<noteq> c_tolower b then Some 1 else strcmp_loop k (i + 1) str1 str2
   }"

definition yang_strcmp :: "u8 list \<Rightarrow> u8 list \<Rightarrow> int option" where
  "yang_strcmp str1 str2 = do {
     len \<leftarrow> c_strlen str1;
     strcmp_loop (nat len) 0 str1 str2
   }"

text \<open>The tables hold the ten digits five times, then (\<open>random_table\<close>) the letters.\<close>

definition random_int32_table :: "u8 list" where
  "random_int32_table = concat (replicate 5 (map word_of_nat [48..<58]))"

definition random_table :: "u8 list" where
  "random_table = random_int32_table @ map word_of_nat [97..<123]"

primrec random_loop :: "('w \<Rightarrow> u64 \<times> 'w) \<Rightarrow> u8 list \<Rightarrow> nat \<Rightarrow> int \<Rightarrow> u8 list \<Rightarrow> 'w \<Rightarrow> (u8 list \<times> 'w) option" where
  "random_loop rnd table 0 i data w = Some (data, w)"
| "random_loop rnd table (Suc k) i data w = do {
     let (r, w) = rnd w;
     data \<leftarrow> mem_store data i (table ! (unat r mod length table));
     random_loop rnd table k (i + 1) data w
   }"

definition yang_cstr_random :: "('w \<Rightarrow> u64 \<times> 'w) \<Rightarrow> int \<Rightarrow> u8 list \<Rightarrow> 'w \<Rightarrow> (u8 list \<times> 'w) option" where
  "yang_cstr_random rnd len data w = random_loop rnd random_table (nat len) 0 data w"

definition yang_cint32_random :: "('w \<Rightarrow> u64 \<times> 'w) \<Rightarrow> int \<Rightarrow> u8 list \<Rightarrow> 'w \<Rightarrow> (u8 list \<times> 'w) option" where
  "yang_cint32_random rnd len data w = random_loop rnd random_int32_table (nat len) 0 data w"

lemma random_loop_total:
  "0 \<le> i \<Longrightarrow> i + int k \<le> int (length data) \<Longrightarrow>
    \<exists>data' w'. random_loop rnd table k i data w = Some (data', w') \<and> length data' = length data"
proof (induction k arbitrary: i data w)
  case (Suc k)
  obtain r w1 where r: "rnd w = (r, w1)" by (cases "rnd w")
  have "0 \<le> i + 1" "i + 1 + int k \<le> int (length (data[nat i := table ! (unat r mod length table)]))" using Suc.prems by auto
  from Suc.IH [OF this, of w1] show ?case using Suc.prems r by (auto simp: mem_store_def)
qed simp

text \<open>
  \<open>yang_cstr_replace\<close>: \<open>p\<close> is the offset of a match, \<open>dstlen\<close> what is written. The function does not end when \<open>macth\<close> is
  empty (the value \<open>None\<close>), and after a match it does not write a terminating zero byte.
\<close>

partial_function (option) replace_loop :: "u8 list \<Rightarrow> u8 list \<Rightarrow> u8 list \<Rightarrow> nat \<Rightarrow> u8 list \<Rightarrow> int \<Rightarrow> u8 list option" where
  "replace_loop s macth rep p1 dst dstlen =
     (let from = p1 + length macth in
      case c_strstr (drop from s) macth of
        Some q \<Rightarrow> do {
          dst \<leftarrow> mem_write dst dstlen (take q (drop from s));
          let dstlen = dstlen + int q;
          dst \<leftarrow> mem_write dst dstlen rep;
          replace_loop s macth rep (from + q) dst (dstlen + int (length rep))
        }
      | None \<Rightarrow> mem_write dst dstlen (drop from s))"

definition yang_cstr_replace :: "u8 list \<Rightarrow> u8 list \<Rightarrow> u8 list \<Rightarrow> u8 list \<Rightarrow> u8 list option" where
  "yang_cstr_replace str dst macth rep = do {
     s \<leftarrow> c_str str;
     m \<leftarrow> c_str macth;
     case c_strstr s m of
       None \<Rightarrow> c_strcpy dst str
     | Some p \<Rightarrow> do {
         r \<leftarrow> c_str rep;
         dst \<leftarrow> mem_write dst 0 (take p s);
         dst \<leftarrow> mem_write dst (int p) r;
         replace_loop s m r p dst (int p + int (length r))
       }
   }"

primrec findindex_loop :: "nat \<Rightarrow> int \<Rightarrow> u8 list \<Rightarrow> u8 \<Rightarrow> int option" where
  "findindex_loop 0 i p c = Some 0"
| "findindex_loop (Suc k) i p c = do {
     b \<leftarrow> mem_load p i;
     if b = c then Some (i + 1) else findindex_loop k (i + 1) p c
   }"

definition yang_cstr_userfindindex :: "u8 list \<Rightarrow> u8 \<Rightarrow> int option" where
  "yang_cstr_userfindindex p c = do {
     slen \<leftarrow> c_strlen p;
     findindex_loop (nat slen) 0 p c
   }"

text \<open>Backwards from the offset \<open>p\<close> of an allocation.\<close>

primrec findupindex_loop :: "nat \<Rightarrow> int \<Rightarrow> u8 list \<Rightarrow> int \<Rightarrow> u8 \<Rightarrow> int option" where
  "findupindex_loop 0 i m p c = Some 0"
| "findupindex_loop (Suc k) i m p c = do {
     b \<leftarrow> mem_load m (p - i);
     if b = c then Some (i + 1) else findupindex_loop k (i + 1) m p c
   }"

definition yang_cstr_userfindupindex :: "u8 list \<Rightarrow> int \<Rightarrow> u8 \<Rightarrow> int \<Rightarrow> int option" where
  "yang_cstr_userfindupindex m p c n = findupindex_loop (nat n) 0 m p c"

primrec isnumber_loop :: "nat \<Rightarrow> int \<Rightarrow> u8 list \<Rightarrow> int option" where
  "isnumber_loop 0 i p = Some (- 1)"
| "isnumber_loop (Suc k) i p = do {
     b \<leftarrow> mem_load p i;
     if is_digit b then Some i else isnumber_loop k (i + 1) p
   }"

definition yang_cstr_isnumber :: "u8 list \<Rightarrow> int \<Rightarrow> int option" where
  "yang_cstr_isnumber p n = isnumber_loop (nat n) 0 p"

section \<open>What they compute\<close>

lemma c_str_spec: "c_str m = Some s \<Longrightarrow> \<exists>r. m = s @ 0 # r \<and> 0 \<notin> set s"
proof (induction m arbitrary: s)
  case (Cons c m)
  then show ?case by (cases "c = 0") auto
qed simp

lemma c_str_append: "0 \<notin> set s \<Longrightarrow> c_str (s @ 0 # r) = Some s"
  by (induction s) auto

lemma c_strlen_c_str: "c_strlen m = map_option (\<lambda>s. int (length s)) (c_str m)"
  by (induction m) (auto simp: option.map_comp o_def add.commute)

lemma c_strlen_append: "0 \<notin> set s \<Longrightarrow> c_strlen (s @ 0 # r) = Some (int (length s))"
  by (simp add: c_strlen_c_str c_str_append)

subsection \<open>Splitting\<close>

fun split_on :: "u8 list \<Rightarrow> u8 list \<Rightarrow> u8 list list" where
  "split_on d [] = [[]]"
| "split_on d (c # s) = (if c \<in> set d then [] # split_on d s
     else case split_on d s of f # fs \<Rightarrow> (c # f) # fs | [] \<Rightarrow> [[c]])"

text \<open>The fields of a string that are not empty.\<close>

definition tokens :: "u8 list \<Rightarrow> u8 list \<Rightarrow> u8 list list" where
  "tokens d s = filter (\<lambda>f. f \<noteq> []) (split_on d s)"

lemma split_on_ne: "split_on d s \<noteq> []"
  by (induction s) (auto split: list.splits)

lemma tokens_skip: "tokens d (dropWhile (\<lambda>c. c \<in> set d) s) = tokens d s"
  by (induction s) (auto simp: tokens_def)

lemma split_on_field:
  "split_on d s = takeWhile (\<lambda>c. c \<notin> set d) s #
     (case dropWhile (\<lambda>c. c \<notin> set d) s of [] \<Rightarrow> [] | _ # r \<Rightarrow> split_on d r)"
  by (induction s) (auto split: list.splits)

lemma tokens_strtok: "tokens d s = (case c_strtok s d of None \<Rightarrow> [] | Some (p, r) \<Rightarrow> p # tokens d r)"
proof -
  define t where "t = dropWhile (\<lambda>c. c \<in> set d) s"
  have hd: "hd t \<notin> set d" if "t \<noteq> []" using hd_dropWhile [of "\<lambda>c. c \<in> set d" s] that by (simp add: t_def)
  have "tokens d s = tokens d t" by (simp add: t_def tokens_skip)
  also have "\<dots> = (if t = [] then [] else takeWhile (\<lambda>c. c \<notin> set d) t # tokens d (drop 1 (dropWhile (\<lambda>c. c \<notin> set d) t)))"
  proof (cases t)
    case (Cons c u)
    then have "takeWhile (\<lambda>c. c \<notin> set d) t \<noteq> []" using hd by simp
    then show ?thesis
      using Cons split_on_field [of d t] by (cases "dropWhile (\<lambda>c. c \<notin> set d) t") (simp_all add: tokens_def)
  qed (simp add: tokens_def)
  finally show ?thesis by (simp add: c_strtok_def Let_def flip: t_def)
qed

lemma split_loop_tokens:
  "strs_str (split_loop s d v) = strs_str v @ map (\<lambda>p. p @ [0]) (tokens d s)"
  "strs_vsize (split_loop s d v) = strs_vsize v + int (length (tokens d s))"
proof (induction s d v rule: split_loop.induct)
  case (1 s d v)
  case 1
  show ?case
    using "1.IH"(1) by (subst split_loop.simps, subst tokens_strtok) (auto split: option.splits simp: strings_grow_def)
  case 2
  show ?case
    using "1.IH"(2) by (subst split_loop.simps, subst tokens_strtok) (auto split: option.splits simp: strings_grow_def)
qed

lemma split_loop_room: "strs_vsize v < strs_capacity v \<Longrightarrow> strs_vsize (split_loop s d v) < strs_capacity (split_loop s d v)"
proof (induction s d v rule: split_loop.induct)
  case (1 s d v)
  show ?case
    using 1 by (subst (1 2) split_loop.simps) (auto split: option.splits simp: strings_grow_def)
qed

text \<open>
  Splitting a string gives its non-empty fields in order, each a terminated copy, never more than the array holds, and fails exactly
  when there is none.
\<close>
theorem cstr_split_tokens:
  assumes "c_str src = Some s" "c_str delim = Some d"
  shows "\<exists>v. yang_cstr_split src delim = Some (if tokens d s = [] then 1 else Yang_Ok, v)
    \<and> strs_str v = map (\<lambda>p. p @ [0]) (tokens d s) \<and> strs_vsize v = int (length (strs_str v)) \<and> strs_vsize v < strs_capacity v"
proof -
  have "tokens d s = [] \<longleftrightarrow> c_strtok s d = None" by (subst tokens_strtok) (auto split: option.splits)
  then show ?thesis
    using assms split_loop_room [of "\<lparr>strs_vsize = 0, strs_capacity = 10, strs_str = []\<rparr>"]
    by (auto simp: yang_cstr_split_def split_loop_tokens)
qed

theorem cstr_split_tokens_witness:
  "\<exists>v. yang_cstr_split [97, 58, 58, 98, 0] [58, 0] = Some (Yang_Ok, v) \<and> strs_str v = [[97, 0], [98, 0]]"
proof -
  have "c_str [97, 58, 58, 98, 0] = Some [97, 58, 58, 98]" "c_str [58, 0] = Some [58]" by simp_all
  from cstr_split_tokens [OF this] show ?thesis by (simp add: tokens_def) blast
qed

text \<open>The source keeps its size; reading it again gives the first token only, the whole string if it has no separator.\<close>

lemma strtok_ends_length: "length (strtok_ends d b s) = length s"
  by (induction s arbitrary: b) auto

lemma strtok_ends_plain: "set s \<inter> set d = {} \<Longrightarrow> strtok_ends d b s = s"
  by (induction s arbitrary: b) auto

lemma cstr_split_src_plain:
  assumes "c_str src = Some s" "c_str delim = Some d" "set s \<inter> set d = {}"
  shows "yang_cstr_split_src src delim = Some src"
proof -
  obtain r where "src = s @ 0 # r" using c_str_spec [OF assms(1)] by blast
  then show ?thesis using assms by (simp add: yang_cstr_split_src_def strtok_ends_plain)
qed

lemma strtok_ends_token:
  "set p \<inter> set d = {} \<Longrightarrow> p \<noteq> [] \<or> b \<Longrightarrow> c \<in> set d \<Longrightarrow> strtok_ends d b (p @ c # r) = p @ 0 # strtok_ends d False r"
  by (induction p arbitrary: b) auto

lemma cstr_split_src_token:
  assumes "c_str src = Some (p @ c # r)" "c_str delim = Some d" "set p \<inter> set d = {}" "p \<noteq> []" "c \<in> set d"
  shows "\<exists>src'. yang_cstr_split_src src delim = Some src' \<and> length src' = length src \<and> c_str src' = Some p"
proof -
  obtain q where q: "src = (p @ c # r) @ 0 # q" "0 \<notin> set p" using c_str_spec [OF assms(1)] by auto
  then have "yang_cstr_split_src src delim = Some ((p @ 0 # strtok_ends d False r) @ 0 # q)"
    using assms by (simp add: yang_cstr_split_src_def strtok_ends_token)
  then show ?thesis using q c_str_append [of p] by (simp add: strtok_ends_length)
qed

subsection \<open>Replacing\<close>

function replace_all :: "u8 list \<Rightarrow> u8 list \<Rightarrow> u8 list \<Rightarrow> u8 list" where
  "replace_all m r s =
     (if m = [] \<or> s = [] then s
      else if is_prefix m s then r @ replace_all m r (drop (length m) s)
      else hd s # replace_all m r (tl s))"
  by pat_completeness auto
termination by (relation "measure (\<lambda>(m, r, s). length s)") auto

declare replace_all.simps [simp del]

lemma replace_all_strstr:
  "m \<noteq> [] \<Longrightarrow> replace_all m r s = (case c_strstr s m of None \<Rightarrow> s
     | Some q \<Rightarrow> take q s @ r @ replace_all m r (drop (q + length m) s))"
proof (induction s)
  case (Cons c s)
  show ?case
    using Cons by (subst replace_all.simps) (auto split: option.splits)
qed (simp add: replace_all.simps)

lemma is_prefix_length: "is_prefix m s \<Longrightarrow> length m \<le> length s"
  by (induction m s rule: is_prefix.induct) auto

lemma c_strstr_bound: "c_strstr s m = Some q \<Longrightarrow> q + length m \<le> length s"
  by (induction s arbitrary: q) (auto dest: is_prefix_length split: if_splits)

lemma mem_write_write:
  assumes "0 \<le> i" "i + int (length a + length b) \<le> int (length m)"
  shows "(mem_write m i a \<bind> (\<lambda>m. mem_write m (i + int (length a)) b)) = mem_write m i (a @ b)"
  using assms by (auto simp: mem_write_def nat_add_distrib ac_simps)

lemma mem_write_ex: "0 \<le> i \<Longrightarrow> i + int (length bs) \<le> int (length m) \<Longrightarrow> \<exists>m'. mem_write m i bs = Some m' \<and> length m' = length m"
  by (cases "bs = []") (auto simp: mem_write_def)

lemma replace_loop:
  assumes "m \<noteq> []" "p1 + length m \<le> length s" "0 \<le> n"
    "n + int (length (replace_all m r (drop (p1 + length m) s))) \<le> int (length dst)"
  shows "replace_loop s m r p1 dst n = mem_write dst n (replace_all m r (drop (p1 + length m) s))"
  using assms
proof (induction "length s - p1" arbitrary: p1 dst n rule: less_induct)
  case less
  let ?x = "drop (p1 + length m) s"
  show ?case
  proof (cases "c_strstr ?x m")
    case None
    then show ?thesis
      using less.prems by (subst replace_loop.simps) (simp add: replace_all_strstr [of m r ?x])
  next
    case (Some q)
    let ?p = "p1 + length m + q"
    note qb = c_strstr_bound [OF Some]
    have r: "replace_all m r ?x = take q ?x @ r @ replace_all m r (drop (?p + length m) s)"
      using less.prems(1) Some replace_all_strstr [of m r ?x] by (simp add: ac_simps)
    have lt: "length (take q ?x) = q" using qb by simp
    note room = less.prems(4) [unfolded r]
    obtain d1 where d1: "mem_write dst n (take q ?x) = Some d1" "length d1 = length dst"
      using mem_write_ex [of n "take q ?x" dst] less.prems(3) room by auto
    obtain d2 where d2: "mem_write d1 (n + int q) r = Some d2" "length d2 = length dst"
      using mem_write_ex [of "n + int q" r d1] less.prems(3) room lt d1(2) by auto
    have IH: "replace_loop s m r ?p d2 (n + int q + int (length r)) = mem_write d2 (n + int q + int (length r)) (replace_all m r (drop (?p + length m) s))"
    proof (rule less.hyps)
      show "length s - ?p < length s - p1" using less.prems(1,2) by (cases m) auto
      show "?p + length m \<le> length s" using qb less.prems(2) by simp
      show "n + int q + int (length r) + int (length (replace_all m r (drop (?p + length m) s))) \<le> int (length d2)"
        using room lt d2(2) by simp
    qed (use less.prems in auto)
    have "mem_write d1 (n + int q) (r @ replace_all m r (drop (?p + length m) s)) =
        mem_write d2 (n + int q + int (length r)) (replace_all m r (drop (?p + length m) s))"
      using mem_write_write [of "n + int q" r "replace_all m r (drop (?p + length m) s)" d1] d2 d1(2) room lt less.prems(3) by simp
    moreover have "mem_write dst n (replace_all m r ?x) = mem_write d1 (n + int q) (r @ replace_all m r (drop (?p + length m) s))"
      using mem_write_write [of n "take q ?x" "r @ replace_all m r (drop (?p + length m) s)" dst] d1 room lt less.prems(3) unfolding r by simp
    ultimately show ?thesis
      using Some d1 d2 IH by (subst replace_loop.simps) (simp add: Let_def)
  qed
qed

text \<open>
  In a zeroed destination that is large enough, every occurrence of a non-empty pattern is replaced, from the left, without overlaps.
\<close>
theorem cstr_replace_all:
  assumes "c_str str = Some s" "c_str macth = Some m" "c_str rep = Some r" "m \<noteq> []"
    and "length (replace_all m r s) < k" "0 \<notin> set r"
  shows "yang_cstr_replace str (replicate k 0) macth rep =
    Some (replace_all m r s @ replicate (k - length (replace_all m r s)) 0)"
proof (cases "c_strstr s m")
  case None
  then show ?thesis
    using assms by (simp add: yang_cstr_replace_def replace_all_strstr c_strcpy_def mem_write_def Suc_diff_Suc flip: replicate_Suc)
next
  case (Some p)
  let ?t = "replace_all m r (drop (p + length m) s)"
  note pb = c_strstr_bound [OF Some]
  have R: "replace_all m r s = take p s @ r @ ?t" using assms(4) Some by (subst replace_all_strstr) auto
  have lp: "length (take p s) = p" using pb by simp
  have k: "p + length r + length ?t < k" using assms(5) lp unfolding R by simp
  obtain d1 where d1: "mem_write (replicate k 0) 0 (take p s) = Some d1" "length d1 = k"
    using mem_write_ex [of 0 "take p s" "replicate k 0"] k lp by auto
  obtain d2 where d2: "mem_write d1 (int p) r = Some d2" "length d2 = k"
    using mem_write_ex [of "int p" r d1] k d1(2) by auto
  have "yang_cstr_replace str (replicate k 0) macth rep = mem_write d2 (int p + int (length r)) ?t"
    using assms(1-4) Some d1 d2 k pb by (simp add: yang_cstr_replace_def replace_loop)
  also have "\<dots> = mem_write (replicate k 0) 0 (replace_all m r s)"
    using mem_write_write [of 0 "take p s" "r @ ?t" "replicate k 0"] mem_write_write [of "int p" r ?t d1] d1 d2 k lp unfolding R by simp
  also have "\<dots> = Some (replace_all m r s @ replicate (k - length (replace_all m r s)) 0)"
    using assms(5) by (auto simp: mem_write_def)
  finally show ?thesis .
qed

lemma replicate_9: "replicate 9 x = [x, x, x, x, x, x, x, x, x]" "replicate 5 x = [x, x, x, x, x]"
  by (simp_all add: numeral_eq_Suc)

theorem cstr_replace_all_witness:
  "yang_cstr_replace [97, 13, 10, 98, 0] (replicate 9 0) [13, 10, 0] [92, 114, 0] = Some [97, 92, 114, 98, 0, 0, 0, 0, 0]"
proof -
  have "c_str [97, 13, 10, 98, 0] = Some [97, 13, 10, 98]" "c_str [13, 10, 0] = Some [13, 10]" "c_str [92, 114, 0] = Some [92, 114]"
    by simp_all
  moreover have r: "replace_all [13, 10] [92, 114] [97, 13, 10, 98] = [97, 92, 114, 98]" by (simp add: replace_all.simps)
  ultimately show ?thesis using cstr_replace_all [of "[97, 13, 10, 98, 0]" "[97, 13, 10, 98]" "[13, 10, 0]" "[13, 10]" "[92, 114, 0]" "[92, 114]" 9]
    by (simp add: replicate_9)
qed

end
