(* ===== verification/Crc.thy ===== *)
theory Crc
  imports Buffer
begin

text \<open>
  The CRC-32 of \<open>yangutil/sys/YangSsrc.c\<close>: the table-driven code and, as its specification, the bitwise division by the
  reversed polynomial. The table is static in C and computed by the first call; here it is a constant. The numbers of
  a process (\<open>yang_generate_ssrc\<close>) are a counter whose first value is a parameter (the process id).
\<close>

unbundle bit_operations_syntax

section \<open>The code (YangSsrc.c)\<close>

primrec reflect_loop :: "nat \<Rightarrow> u64 \<Rightarrow> u64 \<Rightarrow> u64" where
  "reflect_loop 0 data res = res"
| "reflect_loop (Suc k) data res =
     (let data = drop_bit 1 data in reflect_loop k data (push_bit 1 res OR (data AND 0x01)))"

definition crc32_reflect :: "u64 \<Rightarrow> nat \<Rightarrow> u64" where
  "crc32_reflect data width = reflect_loop (width - 1) data (data AND 0x01)"

definition msb_mask :: u64 where "msb_mask = 0x80000000"
definition crc_mask :: u64 where "crc_mask = push_bit 1 (msb_mask - 1) OR 1"

primrec divide_loop :: "nat \<Rightarrow> u32 \<Rightarrow> u64 \<Rightarrow> u64" where
  "divide_loop 0 poly reg = reg"
| "divide_loop (Suc k) poly reg =
     divide_loop k poly (if reg AND msb_mask \<noteq> 0 then push_bit 1 reg XOR ucast poly else push_bit 1 reg)"

definition crc32_entry :: "u32 \<Rightarrow> bool \<Rightarrow> nat \<Rightarrow> u32" where
  "crc32_entry poly reflect_in i =
     (let reg = word_of_nat i;
          reg = (if reflect_in then crc32_reflect reg 8 else reg);
          reg = divide_loop 8 poly (push_bit (32 - 8) reg);
          reg = (if reflect_in then crc32_reflect reg 32 else reg)
      in ucast (reg AND crc_mask))"

definition crc32_make_table :: "u32 \<Rightarrow> bool \<Rightarrow> u32 list" where
  "crc32_make_table poly reflect_in = map (crc32_entry poly reflect_in) [0..<256]"

definition crc32_table_driven :: "u32 list \<Rightarrow> u8 list \<Rightarrow> u32 \<Rightarrow> bool \<Rightarrow> u32 \<Rightarrow> bool \<Rightarrow> u32 \<Rightarrow> u32" where
  "crc32_table_driven t buf previous reflect_in xor_in reflect_out xor_out =
     (let reg = (if \<not> reflect_in
                 then fold (\<lambda>b reg. ucast (t ! unat (ucast (drop_bit (32 - 8) reg XOR ucast b) :: u8)) XOR push_bit 8 reg) buf (ucast xor_in)
                 else crc32_reflect (fold (\<lambda>b reg. ucast (t ! unat (ucast (reg XOR ucast b) :: u8)) XOR drop_bit 8 reg) buf
                        (ucast previous XOR crc32_reflect (ucast xor_in) 32)) 32);
          reg = (if reflect_out then crc32_reflect reg 32 else reg);
          reg = reg XOR ucast xor_out
      in ucast (reg AND crc_mask))"

definition yang_crc32_ieee :: "u8 list \<Rightarrow> u32 \<Rightarrow> u32" where
  "yang_crc32_ieee buf previous =
     crc32_table_driven (crc32_make_table 0x04C11DB7 True) buf previous True 0xffffffff True 0xffffffff"

text \<open>\<open>pid\<close> is the process id; the first component is the number given out, the second the new counter.\<close>

definition yang_generate_ssrc :: "u32 \<Rightarrow> u32 \<Rightarrow> u32 \<times> u32" where
  "yang_generate_ssrc pid g_ssrc_num =
     (let n = (if g_ssrc_num = 0 then pid * 10000 + pid * 100 + pid else g_ssrc_num) in (n + 1, n + 1))"

section \<open>The specification\<close>

definition crc_bit :: "u32 \<Rightarrow> u32" where
  "crc_bit r = (if bit r 0 then drop_bit 1 r XOR 0xEDB88320 else drop_bit 1 r)"

definition crc_byte :: "u8 \<Rightarrow> u32 \<Rightarrow> u32" where
  "crc_byte b r = (crc_bit ^^ 8) (r XOR ucast b)"

definition crc32 :: "u8 list \<Rightarrow> u32 \<Rightarrow> u32" where
  "crc32 bs previous = NOT (fold crc_byte bs (NOT previous))"

section \<open>Reflection\<close>

lemma bit_reflect_loop:
  "bit (reflect_loop k data res) n \<longleftrightarrow>
     n < 64 \<and> (if n < k then bit data (k - n) else bit res (n - k))"
proof (induction k arbitrary: data res n)
  case 0
  then show ?case by (auto dest: bit_imp_le_length)
next
  case (Suc k)
  have one: "bit (x AND (1 :: u64)) m \<longleftrightarrow> m = 0 \<and> bit x 0" for x m by (auto simp: bit_simps)
  show ?case
    by (auto simp: Suc.IH Let_def bit_simps one Suc_diff_le not_less less_Suc_eq simp del: push_bit_Suc)
qed

lemma bit_reflect: "0 < w \<Longrightarrow> bit (crc32_reflect data w) n \<longleftrightarrow> n < 64 \<and> n < w \<and> bit data (w - 1 - n)"
  by (auto simp: crc32_reflect_def bit_reflect_loop bit_simps)

lemma reflect_32_32: "ucast (crc32_reflect (crc32_reflect r 32) 32) = (ucast r :: u32)"
  by (rule bit_word_eqI) (auto simp: bit_simps bit_reflect)

lemma crc_mask_eq: "crc_mask = mask 32"
  by (simp add: crc_mask_def msb_mask_def mask_eq_exp_minus_1)

lemma ucast_masked: "(ucast (r AND crc_mask) :: u32) = ucast r"
  by (rule bit_word_eqI) (simp add: crc_mask_eq bit_simps)

lemma msb_bit: "r AND msb_mask \<noteq> 0 \<longleftrightarrow> bit r 31"
proof -
  have m: "msb_mask = push_bit 31 1" by (simp add: msb_mask_def)
  have b: "bit msb_mask n \<longleftrightarrow> n = 31" for n unfolding m by (auto simp: bit_push_bit_iff bit_1_iff simp del: push_bit_numeral push_bit_of_1)
  show ?thesis
  proof
    assume "bit r 31"
    then have "bit (r AND msb_mask) 31" by (simp add: bit_simps b)
    then show "r AND msb_mask \<noteq> 0" by auto
  next
    assume "r AND msb_mask \<noteq> 0"
    then obtain n where "bit (r AND msb_mask) n" by (metis bit_0_eq bot_apply bit_word_eqI bot_bool_def)
    then show "bit r 31" by (auto simp: bit_and_iff b)
  qed
qed

section \<open>The table\<close>

text \<open>The low half of a register, read backwards.\<close>

abbreviation rev32 :: "u64 \<Rightarrow> u32" where "rev32 r \<equiv> ucast (crc32_reflect r 32)"

lemma bit_rev32: "bit (rev32 r) n \<longleftrightarrow> n < 32 \<and> bit r (31 - n)"
  by (auto simp: bit_simps bit_reflect)

lemma rev32_xor: "rev32 (a XOR b) = rev32 a XOR rev32 b"
  by (rule bit_word_eqI) (simp add: bit_simps bit_reflect)

lemma rev32_push: "rev32 (push_bit 1 r) = drop_bit 1 (rev32 r)"
  by (rule bit_word_eqI) (auto simp: bit_simps bit_reflect simp del: push_bit_Suc)

lemma rev32_poly: "rev32 (ucast (0x04C11DB7 :: u32)) = 0xEDB88320"
  by code_simp


lemma divide_step:
  "rev32 (if r AND msb_mask \<noteq> 0 then push_bit 1 r XOR ucast (0x04C11DB7 :: u32) else push_bit 1 r) = crc_bit (rev32 r)"
  unfolding msb_bit crc_bit_def
  using rev32_push [of r] rev32_poly rev32_xor [of "push_bit 1 r" "ucast (0x04C11DB7 :: u32)"] bit_rev32 [of r 0]
  by (cases "bit r 31") (simp_all del: push_bit_Suc push_bit_of_1 unsigned_numeral)

lemma divide_loop: "rev32 (divide_loop k 0x04C11DB7 r) = (crc_bit ^^ k) (rev32 r)"
proof (induction k arbitrary: r)
  case (Suc k)
  show ?case unfolding divide_loop.simps(2) Suc.IH divide_step by (simp add: funpow_swap1)
qed simp

lemma rev32_start: "rev32 (push_bit 24 (crc32_reflect x 8)) = take_bit 8 (ucast x)"
  by (rule bit_word_eqI) (auto simp: bit_simps bit_reflect)

lemma table_entry:
  assumes "i < 256"
  shows "crc32_make_table 0x04C11DB7 True ! i = (crc_bit ^^ 8) (word_of_nat i)"
proof -
  have "take_bit 8 (word_of_nat i) = (word_of_nat i :: u32)"
    using assms by (intro take_bit_less) (simp add: unat_of_nat take_bit_nat_eq_self)
  moreover have "ucast (word_of_nat i :: u64) = (word_of_nat i :: u32)"
    using assms by (simp add: unsigned_of_nat take_bit_nat_eq_self)
  ultimately show ?thesis
    using assms by (simp add: crc32_make_table_def crc32_entry_def Let_def ucast_masked divide_loop rev32_start)
qed

section \<open>The code computes the division\<close>

lemma crc_bit_xor: "crc_bit (a XOR b) = crc_bit a XOR crc_bit b"
  by (rule bit_word_eqI) (auto simp: crc_bit_def bit_simps)

lemma crc_bits_xor: "(crc_bit ^^ k) (a XOR b) = (crc_bit ^^ k) a XOR (crc_bit ^^ k) b"
  by (induction k) (simp_all add: crc_bit_xor)

text \<open>Zeros at the low end are only shifted out.\<close>

lemma crc_bits_zero: "take_bit k r = 0 \<Longrightarrow> (crc_bit ^^ k) r = drop_bit k r"
proof (induction k arbitrary: r)
  case (Suc k)
  have z: "\<not> bit r n" if "n < Suc k" for n using arg_cong [OF Suc.prems, of "\<lambda>x. bit x n"] that by (simp add: bit_simps)
  then have "take_bit k (drop_bit 1 r) = 0" by (intro bit_word_eqI) (auto simp: bit_simps)
  then have "(crc_bit ^^ k) (drop_bit 1 r) = drop_bit k (drop_bit 1 r)" by (rule Suc.IH)
  moreover have "crc_bit r = drop_bit 1 r" using z [of 0] by (simp add: crc_bit_def)
  ultimately show ?case by (simp add: funpow_swap1)
qed simp

lemma byte_step:
  "(crc_bit ^^ 8) (ucast (ucast x :: u8)) XOR drop_bit 8 x = (crc_bit ^^ 8) x"
proof -
  have split: "x = ucast (ucast x :: u8) XOR push_bit 8 (drop_bit 8 x)"
    by (rule bit_word_eqI) (auto simp: bit_simps)
  have low: "take_bit 8 (push_bit 8 (drop_bit 8 x)) = 0"
    by (rule bit_word_eqI) (auto simp: bit_simps)
  have high: "drop_bit 8 (push_bit 8 (drop_bit 8 x)) = drop_bit 8 x"
  proof (rule bit_word_eqI)
    fix n assume "n < LENGTH(32)"
    moreover have "n < 24" if "bit x (8 + n)" using bit_imp_le_length [OF that] by simp
    ultimately show "bit (drop_bit 8 (push_bit 8 (drop_bit 8 x))) n = bit (drop_bit 8 x) n"
      by (auto simp: bit_simps)
  qed
  have "(crc_bit ^^ 8) x = (crc_bit ^^ 8) (ucast (ucast x :: u8) XOR push_bit 8 (drop_bit 8 x))" using split by simp
  also have "\<dots> = (crc_bit ^^ 8) (ucast (ucast x :: u8)) XOR (crc_bit ^^ 8) (push_bit 8 (drop_bit 8 x))" by (rule crc_bits_xor)
  also have "(crc_bit ^^ 8) (push_bit 8 (drop_bit 8 x)) = drop_bit 8 x" unfolding crc_bits_zero [OF low] by (rule high)
  finally show ?thesis by simp
qed

lemma table_at: "crc32_make_table 0x04C11DB7 True ! unat (c :: u8) = (crc_bit ^^ 8) (ucast c)"
proof -
  have "unat c < 2 ^ LENGTH(8)" by (rule unsigned_less)
  then have "unat c < 256" by simp
  then have "crc32_make_table 0x04C11DB7 True ! unat c = (crc_bit ^^ 8) (word_of_nat (unat c))" by (rule table_entry)
  moreover have "word_of_nat (unat c) = (ucast c :: u32)" by simp
  ultimately show ?thesis by (simp only:)
qed

lemma table_byte:
  fixes r :: u32
  shows "ucast (crc32_make_table 0x04C11DB7 True ! unat (ucast (ucast r XOR ucast b :: u64) :: u8)) XOR drop_bit 8 (ucast r)
    = (ucast (crc_byte b r) :: u64)"
proof -
  let ?x = "r XOR ucast b"
  have "(ucast (ucast r XOR ucast b :: u64) :: u8) = ucast ?x" by (rule bit_word_eqI) (auto simp: bit_simps)
  then have *: "crc32_make_table 0x04C11DB7 True ! unat (ucast (ucast r XOR ucast b :: u64) :: u8) = (crc_bit ^^ 8) (ucast (ucast ?x :: u8))"
    by (simp only: table_at)
  have "drop_bit 8 (ucast b :: u32) = 0" by (rule bit_word_eqI) (auto simp: bit_simps dest: bit_imp_le_length)
  then have d: "drop_bit 8 ?x = drop_bit 8 r" by (simp add: drop_bit_xor)
  have "(ucast (crc_byte b r) :: u64) = ucast ((crc_bit ^^ 8) (ucast (ucast ?x :: u8))) XOR ucast (drop_bit 8 r)"
    using byte_step [of ?x] unfolding d crc_byte_def by (simp flip: unsigned_xor_eq)
  also have "ucast (drop_bit 8 r) = (drop_bit 8 (ucast r) :: u64)" by (rule bit_word_eqI) (auto simp: bit_simps dest: bit_imp_le_length)
  finally show ?thesis using * by simp
qed

lemma table_fold:
  "fold (\<lambda>b reg. ucast (crc32_make_table 0x04C11DB7 True ! unat (ucast (reg XOR ucast b) :: u8)) XOR drop_bit 8 reg) bs (ucast (r :: u32))
    = (ucast (fold crc_byte bs r) :: u64)"
  by (induction bs arbitrary: r) (simp_all add: table_byte)

lemma crc32_ieee_bits: "yang_crc32_ieee bs previous = crc32 bs previous"
proof -
  have "ucast previous XOR crc32_reflect (ucast (0xffffffff :: u32)) 32 = (ucast (NOT previous) :: u64)"
  proof (rule bit_word_eqI)
    fix n
    have all: "(0xffffffff :: u32) = - 1" by simp
    have "m < 32" if "bit previous m" for m using bit_imp_le_length [OF that] by simp
    then show "bit (ucast previous XOR crc32_reflect (ucast (0xffffffff :: u32)) 32) n = bit (ucast (NOT previous) :: u64) n"
      unfolding all by (auto simp: bit_simps bit_reflect simp del: unsigned_minus_1_eq_mask)
  qed
  then have "yang_crc32_ieee bs previous =
      ucast (crc32_reflect (crc32_reflect (ucast (fold crc_byte bs (NOT previous))) 32) 32 XOR ucast (0xffffffff :: u32))"
    by (simp add: yang_crc32_ieee_def crc32_table_driven_def Let_def table_fold ucast_masked)
  also have "\<dots> = ucast (crc32_reflect (crc32_reflect (ucast (fold crc_byte bs (NOT previous))) 32) 32) XOR (0xffffffff :: u32)"
    by (rule bit_word_eqI) (auto simp: bit_simps)
  also have "\<dots> = crc32 bs previous"
  proof -
    have all: "(0xffffffff :: u32) = - 1" by simp
    show ?thesis unfolding reflect_32_32 crc32_def all by (rule bit_word_eqI) (auto simp: bit_simps simp del: unsigned_minus_1_eq_mask)
  qed
  finally show ?thesis .
qed

text \<open>
  C27: the table-driven checksum of the code is the bitwise division by the reversed IEEE polynomial.
\<close>
theorem crc32_ieee_bitwise: "yang_crc32_ieee bs previous = crc32 bs previous"
  by (rule crc32_ieee_bits)

end
