(* ===== verification/Stun.thy ===== *)
theory Stun
  imports C_String Crc Video_Meta
begin

text \<open>
  The STUN messages of \<open>yangice/YangRtcStun.c\<close>: the attribute encoders, which the TURN client uses too, the binding request and
  response, and the decoders.

  The encoders fill a local buffer of 1460 bytes and hand out a copy with a zero byte behind it; the model gives the length and that
  copy. The HMAC of the SSL library, the host's addresses, the random numbers and the socket are parameters (\<open>stun_env\<close>).
\<close>

section \<open>Messages and packets (YangRtcStun.h)\<close>

abbreviation (input) kStunMagicCookie :: u32 where "kStunMagicCookie \<equiv> 0x2112A442"

abbreviation (input) StunBindingRequest :: u16 where "StunBindingRequest \<equiv> 0x0001"
abbreviation (input) StunBindingSuccessResponse :: u16 where "StunBindingSuccessResponse \<equiv> 0x0101"

abbreviation (input) StunUsername :: u16 where "StunUsername \<equiv> 0x0006"
abbreviation (input) StunPassword :: u16 where "StunPassword \<equiv> 0x0007"
abbreviation (input) StunMessageIntegrity :: u16 where "StunMessageIntegrity \<equiv> 0x0008"
abbreviation (input) StunChannelNumber :: u16 where "StunChannelNumber \<equiv> 0x000C"
abbreviation (input) StunLifetime :: u16 where "StunLifetime \<equiv> 0x000D"
abbreviation (input) StunXorPeerAddress :: u16 where "StunXorPeerAddress \<equiv> 0x0012"
abbreviation (input) StunData :: u16 where "StunData \<equiv> 0x0013"
abbreviation (input) StunRealm :: u16 where "StunRealm \<equiv> 0x0014"
abbreviation (input) StunNonce :: u16 where "StunNonce \<equiv> 0x0015"
abbreviation (input) StunRequestTransport :: u16 where "StunRequestTransport \<equiv> 0x0019"
abbreviation (input) StunXorMappedAddress :: u16 where "StunXorMappedAddress \<equiv> 0x0020"
abbreviation (input) StunPriority :: u16 where "StunPriority \<equiv> 0x0024"
abbreviation (input) StunUseCandidate :: u16 where "StunUseCandidate \<equiv> 0x0025"
abbreviation (input) StunFingerprint :: u16 where "StunFingerprint \<equiv> 0x8028"
abbreviation (input) StunIceControlled :: u16 where "StunIceControlled \<equiv> 0x8029"
abbreviation (input) StunIceControlling :: u16 where "StunIceControlling \<equiv> 0x802A"

text \<open>The arrays have 16, 32, 13 and 32 bytes; an access beyond one is a fault.\<close>

record YangStunPacket =
  st_message_type :: u16
  st_mapped_port :: u16
  st_use_candidate :: bool
  st_ice_controlled :: bool
  st_ice_controlling :: bool
  st_mapped_address :: u32
  st_local_ufrag :: "u8 list"
  st_remote_ufrag :: "u8 list"
  st_transcation_id :: "u8 list"
  st_username :: "u8 list"

text \<open>\<open>memset(&packet, 0, sizeof(packet))\<close>\<close>

definition stun_packet0 :: YangStunPacket where
  "stun_packet0 = \<lparr>st_message_type = 0, st_mapped_port = 0, st_use_candidate = False, st_ice_controlled = False,
     st_ice_controlling = False, st_mapped_address = 0, st_local_ufrag = replicate 16 0, st_remote_ufrag = replicate 32 0,
     st_transcation_id = replicate 13 0, st_username = replicate 32 0\<rparr>"

text \<open>
  The outside world: \<open>yang_random\<close>; \<open>hmac_encode("sha1", key, .., input, ..)\<close>, its code and the digest; \<open>yang_getLocalInfo\<close>,
  which fills in the local address; \<open>inet_addr\<close>; the socket.
\<close>

record 'w stun_env =
  se_random :: "'w \<Rightarrow> u64 \<times> 'w"
  se_hmac :: "u8 list \<Rightarrow> u8 list \<Rightarrow> errcode \<times> u8 list"
  se_localInfo :: "'w \<Rightarrow> u8 list \<times> 'w"
  se_send :: "'w \<Rightarrow> u8 list \<Rightarrow> errcode \<times> 'w"

section \<open>Attributes\<close>

text \<open>What every encoder does: the local buffer, the padding to a multiple of four, and the copy.\<close>

definition stun_local :: yang_buffer where
  "stun_local = yang_init_buffer (replicate 1460 0) 0 1460"

definition stun_pad :: "yang_buffer \<Rightarrow> yang_buffer option" where
  "stun_pad b = (if yang_buffer_pos b mod 4 \<noteq> 0
     then yang_write_bytes b [0, 0, 0, 0] (4 - yang_buffer_pos b mod 4) else Some b)"

definition stun_copy :: "yang_buffer \<Rightarrow> (int \<times> u8 list) option" where
  "stun_copy b = do {
     bs \<leftarrow> mem_read (buf_mem b) (buf_data b) (yang_buffer_pos b);
     Some (yang_buffer_pos b, bs @ [0])
   }"

definition yang_stun_encode_hmac2 :: "u8 list \<Rightarrow> int \<Rightarrow> (int \<times> u8 list) option" where
  "yang_stun_encode_hmac2 hmac_buf hmac_buf_len = do {
     b \<leftarrow> yang_write_2bytes stun_local StunMessageIntegrity;
     b \<leftarrow> yang_write_2bytes b (word_of_int hmac_buf_len);
     b \<leftarrow> yang_write_bytes b hmac_buf hmac_buf_len;
     stun_copy b
   }"

definition yang_stun_encode_fingerprint2 :: "u32 \<Rightarrow> (int \<times> u8 list) option" where
  "yang_stun_encode_fingerprint2 crc = do {
     b \<leftarrow> yang_write_2bytes stun_local StunFingerprint;
     b \<leftarrow> yang_write_2bytes b 4;
     b \<leftarrow> yang_write_4bytes b crc;
     stun_copy b
   }"

text \<open>
  When the HMAC fails the C function returns the error code where the caller expects the length, and leaves the caller's pointer
  as it was: \<open>None\<close> in the second component.
\<close>

definition yang_stun_encode_hmac :: "'w stun_env \<Rightarrow> yang_buffer \<Rightarrow> u8 list \<Rightarrow> (int \<times> u8 list option) option" where
  "yang_stun_encode_hmac env pstream pwd = do {
     key \<leftarrow> c_str pwd;
     input \<leftarrow> mem_read (buf_mem pstream) (buf_data pstream) (yang_buffer_pos pstream);
     let (ret, h) = se_hmac env key input;
     if ret \<noteq> Yang_Ok then Some (ret, None)
     else do {
       hmac_buf \<leftarrow> mem_write (replicate 20 0) 0 h;
       b \<leftarrow> yang_write_2bytes stun_local StunMessageIntegrity;
       b \<leftarrow> yang_write_2bytes b (word_of_int (int (length h)));
       b \<leftarrow> yang_write_bytes b hmac_buf (int (length h));
       b \<leftarrow> stun_pad b;
       (ret, str) \<leftarrow> stun_copy b;
       Some (ret, Some str)
     }
   }"

definition yang_stun_encode_fingerprint :: "yang_buffer \<Rightarrow> (int \<times> u8 list) option" where
  "yang_stun_encode_fingerprint pstream = do {
     input \<leftarrow> mem_read (buf_mem pstream) (buf_data pstream) (yang_buffer_pos pstream);
     let crc = yang_crc32_ieee input 0 XOR 0x5354554E;
     b \<leftarrow> yang_write_2bytes stun_local StunFingerprint;
     b \<leftarrow> yang_write_2bytes b 4;
     b \<leftarrow> yang_write_4bytes b crc;
     stun_copy b
   }"

definition yang_stun_encode_lifetime :: "int \<Rightarrow> (int \<times> u8 list) option" where
  "yang_stun_encode_lifetime lifetime = do {
     b \<leftarrow> yang_write_2bytes stun_local StunLifetime;
     b \<leftarrow> yang_write_2bytes b 4;
     b \<leftarrow> yang_write_4bytes b (word_of_int lifetime);
     stun_copy b
   }"

definition yang_stun_encode_channelNumber :: "u16 \<Rightarrow> (int \<times> u8 list) option" where
  "yang_stun_encode_channelNumber channelNum = do {
     b \<leftarrow> yang_write_2bytes stun_local StunChannelNumber;
     b \<leftarrow> yang_write_2bytes b 4;
     b \<leftarrow> yang_write_2bytes b channelNum;
     b \<leftarrow> yang_write_2bytes b 0;
     stun_copy b
   }"

text \<open>Realm, data, user name and password are the same code with their own type.\<close>

definition stun_encode_string :: "u16 \<Rightarrow> u8 list \<Rightarrow> (int \<times> u8 list) option" where
  "stun_encode_string type s = do {
     n \<leftarrow> c_strlen s;
     b \<leftarrow> yang_write_2bytes stun_local type;
     b \<leftarrow> yang_write_2bytes b (word_of_int n);
     b \<leftarrow> yang_write_bytes b s n;
     b \<leftarrow> stun_pad b;
     stun_copy b
   }"

definition yang_stun_encode_realm :: "u8 list \<Rightarrow> (int \<times> u8 list) option" where
  "yang_stun_encode_realm realm = stun_encode_string StunRealm realm"

definition yang_stun_encode_data :: "u8 list \<Rightarrow> (int \<times> u8 list) option" where
  "yang_stun_encode_data data = stun_encode_string StunData data"

definition yang_stun_encode_nonce :: "u8 list \<Rightarrow> u16 \<Rightarrow> (int \<times> u8 list) option" where
  "yang_stun_encode_nonce nonce len = do {
     b \<leftarrow> yang_write_2bytes stun_local StunNonce;
     b \<leftarrow> yang_write_2bytes b len;
     b \<leftarrow> yang_write_bytes b nonce (uint len);
     b \<leftarrow> stun_pad b;
     stun_copy b
   }"

definition yang_stun_encode_username :: "u8 list \<Rightarrow> (int \<times> u8 list) option" where
  "yang_stun_encode_username username = stun_encode_string StunUsername username"

definition yang_stun_encode_password :: "u8 list \<Rightarrow> (int \<times> u8 list) option" where
  "yang_stun_encode_password password = stun_encode_string StunPassword password"

definition yang_stun_encode_transport :: "u8 \<Rightarrow> (int \<times> u8 list) option" where
  "yang_stun_encode_transport protocol = do {
     b \<leftarrow> yang_write_2bytes stun_local StunRequestTransport;
     b \<leftarrow> yang_write_2bytes b 4;
     b \<leftarrow> yang_write_bytes b [protocol, 0, 0, 0] 4;
     stun_copy b
   }"

text \<open>\<open>sprintf(username, "%s:%s", remote_ufrag, local_ufrag)\<close> into 128 bytes\<close>

definition yang_stun_encode_rtcusername :: "YangStunPacket \<Rightarrow> (int \<times> u8 list) option" where
  "yang_stun_encode_rtcusername pkt = do {
     r \<leftarrow> c_str (st_remote_ufrag pkt);
     l \<leftarrow> c_str (st_local_ufrag pkt);
     username \<leftarrow> mem_write (replicate 128 0) 0 (r @ [58] @ l @ [0]);
     stun_encode_string StunUsername username
   }"

definition stun_encode_address :: "u16 \<Rightarrow> u32 \<Rightarrow> u16 \<Rightarrow> (int \<times> u8 list) option" where
  "stun_encode_address type address port = do {
     b \<leftarrow> yang_write_2bytes stun_local type;
     b \<leftarrow> yang_write_2bytes b 8;
     b \<leftarrow> yang_write_1bytes b 0;
     b \<leftarrow> yang_write_1bytes b 1;
     b \<leftarrow> yang_write_2bytes b (port XOR ucast (drop_bit 16 kStunMagicCookie));
     b \<leftarrow> yang_write_4bytes b (address XOR kStunMagicCookie);
     stun_copy b
   }"

definition yang_stun_encode_peer_address_ipv4 :: "u32 \<Rightarrow> u16 \<Rightarrow> (int \<times> u8 list) option" where
  "yang_stun_encode_peer_address_ipv4 address port = stun_encode_address StunXorPeerAddress address port"

definition yang_stun_encode_mapped_address_ipv4 :: "YangStunPacket \<Rightarrow> (int \<times> u8 list) option" where
  "yang_stun_encode_mapped_address_ipv4 pkt =
     stun_encode_address StunXorMappedAddress (st_mapped_address pkt) (st_mapped_port pkt)"

text \<open>\<open>p\<close> are the 16 bytes of the address; the loop over \<open>i\<close> is the list of the written bytes.\<close>

primrec write_each :: "yang_buffer \<Rightarrow> u8 list \<Rightarrow> yang_buffer option" where
  "write_each b [] = Some b"
| "write_each b (x # xs) = do {
     b \<leftarrow> yang_write_1bytes b x;
     write_each b xs
   }"

definition yang_stun_encode_mapped_address_ipv6 :: "YangStunPacket \<Rightarrow> u8 list \<Rightarrow> (int \<times> u8 list) option" where
  "yang_stun_encode_mapped_address_ipv6 pkt p = do {
     b \<leftarrow> yang_write_2bytes stun_local StunXorMappedAddress;
     b \<leftarrow> yang_write_2bytes b 20;
     b \<leftarrow> yang_write_1bytes b 0;
     b \<leftarrow> yang_write_1bytes b 2;
     b \<leftarrow> yang_write_2bytes b (st_mapped_port pkt XOR ucast (drop_bit 16 kStunMagicCookie));
     head \<leftarrow> mem_read p 0 4;
     b \<leftarrow> write_each b (map2 (XOR) head [0x21, 0x12, 0xA4, 0x42]);
     rest \<leftarrow> mem_read p 4 12;
     tid \<leftarrow> mem_read (st_transcation_id pkt) 0 12;
     b \<leftarrow> write_each b (map2 (XOR) rest tid);
     stun_copy b
   }"

section \<open>Messages\<close>

text \<open>The length field of the message in \<open>stream->data\<close>.\<close>

definition stun_set_len :: "yang_buffer \<Rightarrow> int \<Rightarrow> yang_buffer option" where
  "stun_set_len b n = do {
     m \<leftarrow> mem_store (buf_mem b) (buf_data b + 2) (ucast (drop_bit 8 ((word_of_int n :: u32) AND 0x0000FF00)));
     m \<leftarrow> mem_store m (buf_data b + 3) (ucast ((word_of_int n :: u32) AND 0x000000FF));
     Some (b\<lparr>buf_mem := m\<rparr>)
   }"

text \<open>The end of every message built here: message integrity and fingerprint.\<close>

definition stun_sign :: "'w stun_env \<Rightarrow> u8 list \<Rightarrow> yang_buffer \<Rightarrow> (errcode \<times> yang_buffer) option" where
  "stun_sign env pwd b = do {
     b \<leftarrow> stun_set_len b (yang_buffer_pos b - 20 + 20 + 4);
     key \<leftarrow> c_str pwd;
     input \<leftarrow> mem_read (buf_mem b) (buf_data b) (yang_buffer_pos b);
     let (err, h) = se_hmac env key input;
     if err \<noteq> Yang_Ok then Some (err, b)
     else do {
       hmac_buf \<leftarrow> mem_write (replicate 20 0) 0 h;
       (hmac_len, hmac) \<leftarrow> yang_stun_encode_hmac2 hmac_buf (int (length h));
       b \<leftarrow> yang_write_bytes b hmac hmac_len;
       b \<leftarrow> stun_set_len b (yang_buffer_pos b - 20 + 8);
       input \<leftarrow> mem_read (buf_mem b) (buf_data b) (yang_buffer_pos b);
       let crc = yang_crc32_ieee input 0 XOR 0x5354554E;
       (fingerprint_len, fingerprint) \<leftarrow> yang_stun_encode_fingerprint2 crc;
       b \<leftarrow> yang_write_bytes b fingerprint fingerprint_len;
       b \<leftarrow> stun_set_len b (yang_buffer_pos b - 20);
       Some (Yang_Ok, b)
     }
   }"

text \<open>
  The header, the user name and the random priority, common to the two requests: \<open>randstr\<close> is a tab and thirty digits.
\<close>

definition stun_request_head :: "'w stun_env \<Rightarrow> u16 \<Rightarrow> u8 list \<Rightarrow> yang_buffer \<Rightarrow> u8 list \<Rightarrow> int \<Rightarrow> 'w \<Rightarrow> (yang_buffer \<times> 'w) option" where
  "stun_request_head env type tid b username username_len w = do {
     b \<leftarrow> yang_write_2bytes b type;
     b \<leftarrow> yang_write_2bytes b (word_of_int username_len);
     b \<leftarrow> yang_write_4bytes b kStunMagicCookie;
     n \<leftarrow> c_strlen tid;
     b \<leftarrow> yang_write_bytes b tid n;
     b \<leftarrow> yang_write_bytes b username username_len;
     (digits, w) \<leftarrow> yang_cint32_random (se_random env) 30 (replicate 31 0) w;
     randstr \<leftarrow> c_str (9 # digits);
     let randint = (word_of_int (c_atoi randstr) :: u32);
     b \<leftarrow> yang_write_2bytes b StunPriority;
     b \<leftarrow> yang_write_2bytes b 4;
     b \<leftarrow> yang_write_4bytes b randint;
     Some (b, w)
   }"

definition stun_ice_controlling :: "'w stun_env \<Rightarrow> yang_buffer \<Rightarrow> 'w \<Rightarrow> (yang_buffer \<times> 'w) option" where
  "stun_ice_controlling env b w = do {
     (randstr, w) \<leftarrow> yang_cstr_random (se_random env) 8 (replicate 32 0) w;
     b \<leftarrow> yang_write_2bytes b StunIceControlling;
     b \<leftarrow> yang_write_2bytes b 8;
     b \<leftarrow> yang_write_bytes b randstr 8;
     Some (b, w)
   }"

definition yang_stun_encode_binding_request ::
    "'w stun_env \<Rightarrow> YangStunPacket \<Rightarrow> yang_buffer \<Rightarrow> u8 list \<Rightarrow> u8 list \<Rightarrow> int \<Rightarrow> 'w \<Rightarrow> (errcode \<times> yang_buffer \<times> 'w) option" where
  "yang_stun_encode_binding_request env pkt b pwd username username_len w = do {
     (b, w) \<leftarrow> stun_request_head env StunBindingRequest (st_transcation_id pkt) b username username_len w;
     b \<leftarrow> yang_write_2bytes b StunUseCandidate;
     b \<leftarrow> yang_write_2bytes b 0;
     (b, w) \<leftarrow> stun_ice_controlling env b w;
     (err, b) \<leftarrow> stun_sign env pwd b;
     Some (err, b, w)
   }"

definition yang_stun_encode_binding_request2 ::
    "'w stun_env \<Rightarrow> YangStunPacket \<Rightarrow> yang_buffer \<Rightarrow> u8 list \<Rightarrow> u8 list \<Rightarrow> int \<Rightarrow> 'w \<Rightarrow> (errcode \<times> yang_buffer \<times> 'w) option" where
  "yang_stun_encode_binding_request2 env pkt b pwd username username_len w = do {
     (b, w) \<leftarrow> stun_request_head env (st_message_type pkt) (st_transcation_id pkt) b username username_len w;
     (b, w) \<leftarrow> stun_ice_controlling env b w;
     (err, b) \<leftarrow> stun_sign env pwd b;
     Some (err, b, w)
   }"

definition yang_stun_encode_binding_response :: "'w stun_env \<Rightarrow> YangStunPacket \<Rightarrow> u8 list \<Rightarrow> yang_buffer \<Rightarrow> (errcode \<times> yang_buffer) option" where
  "yang_stun_encode_binding_response env pkt pwd b = do {
     (ulen, username) \<leftarrow> yang_stun_encode_rtcusername pkt;
     (mlen, mapped_address) \<leftarrow> yang_stun_encode_mapped_address_ipv4 pkt;
     b \<leftarrow> yang_write_2bytes b StunBindingSuccessResponse;
     b \<leftarrow> yang_write_2bytes b (word_of_int (ulen + mlen));
     b \<leftarrow> yang_write_4bytes b kStunMagicCookie;
     b \<leftarrow> yang_write_bytes b (st_transcation_id pkt) 12;
     b \<leftarrow> yang_write_bytes b username ulen;
     b \<leftarrow> yang_write_bytes b mapped_address mlen;
     stun_sign env pwd b
   }"

text \<open>
  What the session has of STUN: its names and passwords, the peer's address as the socket has it (network byte order, in the memory of a
  little-endian host), the local address string, and the request kept for resending.
\<close>

record YangStunData =
  sd_data :: "u8 list option"
  sd_nb :: int

record stun_session =
  ss_local_ufrag :: "u8 list"
  ss_remote_ufrag :: "u8 list"
  ss_localIcePwd :: "u8 list"
  ss_s_addr :: u32
  ss_sin_port :: u16
  ss_localIp :: "u8 list"
  ss_localPort :: u16
  ss_stun :: YangStunData

text \<open>The room is that of the first request; a longer one later does not fit.\<close>

definition yang_stun_setSessionStun :: "stun_session \<Rightarrow> u8 list \<Rightarrow> int \<Rightarrow> stun_session option" where
  "yang_stun_setSessionStun s data nb = do {
     let old = (case sd_data (ss_stun s) of None \<Rightarrow> replicate (nat nb) 0 | Some d \<Rightarrow> d);
     bs \<leftarrow> mem_read data 0 nb;
     d \<leftarrow> mem_write old 0 bs;
     Some (s\<lparr>ss_stun := \<lparr>sd_data = Some d, sd_nb = nb\<rparr>\<rparr>)
   }"

text \<open>\<open>htons\<close> on a little-endian host\<close>

definition htons :: "u16 \<Rightarrow> u16" where
  "htons v = push_bit 8 v OR drop_bit 8 v"

definition yang_stun_createResponseStunPacket ::
    "'w stun_env \<Rightarrow> YangStunPacket \<Rightarrow> stun_session \<Rightarrow> 'w \<Rightarrow> (errcode \<times> 'w) option" where
  "yang_stun_createResponseStunPacket env request s w = do {
     let b = yang_init_buffer (replicate 1024 0) 0 1024;
     let packet = stun_packet0\<lparr>st_mapped_address := ss_s_addr s, st_mapped_port := htons (ss_sin_port s)\<rparr>;
     tid \<leftarrow> mem_read (st_transcation_id request) 0 12;
     tid \<leftarrow> mem_write (st_transcation_id packet) 0 tid;
     l \<leftarrow> c_strcpy (st_local_ufrag packet) (ss_local_ufrag s);
     r \<leftarrow> c_strcpy (st_remote_ufrag packet) (ss_remote_ufrag s);
     let packet = packet\<lparr>st_transcation_id := tid, st_local_ufrag := l, st_remote_ufrag := r\<rparr>;
     (_, b) \<leftarrow> yang_stun_encode_binding_response env packet (ss_localIcePwd s) b;
     bs \<leftarrow> mem_read (buf_mem b) (buf_data b) (yang_buffer_pos b);
     Some (se_send env w bs)
   }"

text \<open>
  The address \<open>packet.mapped_address\<close> that the two builders compute from the local one is written nowhere; it is left out.
\<close>

definition yang_stun_createRequestStunPacket :: "'w stun_env \<Rightarrow> stun_session \<Rightarrow> u8 list \<Rightarrow> 'w \<Rightarrow> (errcode \<times> stun_session \<times> 'w) option" where
  "yang_stun_createRequestStunPacket env s ice_pwd w = do {
     let b = yang_init_buffer (replicate 1024 0) 0 1024;
     (tid, w) \<leftarrow> yang_cstr_random (se_random env) 12 (replicate 13 0) w;
     n \<leftarrow> c_strlen (ss_localIp s);
     let (ip, w) = (if n = 0 then se_localInfo env w else (ss_localIp s, w));
     let s = s\<lparr>ss_localIp := ip\<rparr>;
     l \<leftarrow> c_strcpy (st_local_ufrag stun_packet0) (ss_local_ufrag s);
     r \<leftarrow> c_strcpy (st_remote_ufrag stun_packet0) (ss_remote_ufrag s);
     tid \<leftarrow> c_strcpy (st_transcation_id stun_packet0) tid;
     let packet = stun_packet0\<lparr>st_message_type := StunBindingRequest, st_local_ufrag := l, st_remote_ufrag := r,
       st_transcation_id := tid, st_mapped_port := ss_localPort s\<rparr>;
     (ulen, username) \<leftarrow> yang_stun_encode_rtcusername packet;
     (_, b, w) \<leftarrow> yang_stun_encode_binding_request env packet b ice_pwd username ulen w;
     s \<leftarrow> yang_stun_setSessionStun s (buf_mem b) (yang_buffer_pos b);
     Some (Yang_Ok, s, w)
   }"

definition yang_stun_encode :: "'w stun_env \<Rightarrow> u16 \<Rightarrow> yang_buffer \<Rightarrow> u16 \<Rightarrow> u8 list \<Rightarrow> 'w \<Rightarrow> (errcode \<times> yang_buffer \<times> 'w) option" where
  "yang_stun_encode env stunType b local_sin_port ice_pwd w = do {
     (tid, w) \<leftarrow> yang_cstr_random (se_random env) 12 (replicate 13 0) w;
     let (localIp, w) = se_localInfo env w;
     tid \<leftarrow> c_strcpy (st_transcation_id stun_packet0) tid;
     let packet = stun_packet0\<lparr>st_message_type := stunType, st_transcation_id := tid, st_mapped_port := local_sin_port\<rparr>;
     (ulen, username) \<leftarrow> yang_stun_encode_rtcusername packet;
     (_, b, w) \<leftarrow> yang_stun_encode_binding_request2 env packet b ice_pwd username ulen w;
     Some (Yang_Ok, b, w)
   }"

definition yang_stun_encode_request :: "'w stun_env \<Rightarrow> yang_buffer \<Rightarrow> u16 \<Rightarrow> u8 list \<Rightarrow> 'w \<Rightarrow> (errcode \<times> yang_buffer \<times> 'w) option" where
  "yang_stun_encode_request env b local_sin_port ice_pwd w = yang_stun_encode env StunBindingRequest b local_sin_port ice_pwd w"

definition yang_turn_encode_header ::
    "'w stun_env \<Rightarrow> YangStunPacket \<Rightarrow> yang_buffer \<Rightarrow> int \<Rightarrow> 'w \<Rightarrow> (errcode \<times> YangStunPacket \<times> yang_buffer \<times> 'w) option" where
  "yang_turn_encode_header env pkt b len w = do {
     b \<leftarrow> yang_write_2bytes b (st_message_type pkt);
     b \<leftarrow> yang_write_2bytes b (word_of_int len);
     b \<leftarrow> yang_write_4bytes b kStunMagicCookie;
     (tid, w) \<leftarrow> yang_cstr_random (se_random env) 12 (st_transcation_id pkt) w;
     n \<leftarrow> c_strlen tid;
     b \<leftarrow> yang_write_bytes b tid n;
     Some (Yang_Ok, pkt\<lparr>st_transcation_id := tid\<rparr>, b, w)
   }"

section \<open>Decoding\<close>

text \<open>
  The decoders share the header check and the loop over the attributes; they differ in what they do with an attribute, the argument
  \<open>handle\<close>. The buffer is the memory the packet lies in.
\<close>

definition stun_check_len :: "int \<Rightarrow> u16 \<Rightarrow> bool" where
  "stun_check_len nb_buf message_len \<longleftrightarrow> nb_buf = 20 + uint message_len"

definition stun_skip_pad :: "yang_buffer \<Rightarrow> u16 \<Rightarrow> yang_buffer" where
  "stun_skip_pad b len = (if uint len mod 4 \<noteq> 0 then yang_buffer_skip b (4 - uint len mod 4) else b)"

lemma read_2bytes_sel:
  "yang_read_2bytes b = Some (v, b') \<Longrightarrow> buf_head b' = buf_head b + 2 \<and> buf_data b' = buf_data b \<and> buf_size b' = buf_size b \<and> buf_mem b' = buf_mem b"
  by (auto simp: yang_read_2bytes_def yang_read_1bytes_def bind_eq_Some_conv)

lemma read_bytes_sel:
  "yang_read_bytes b n = Some (v, b') \<Longrightarrow> buf_head b' = buf_head b + n \<and> buf_data b' = buf_data b \<and> buf_size b' = buf_size b \<and> buf_mem b' = buf_mem b"
  by (auto simp: yang_read_bytes_def bind_eq_Some_conv)

lemma skip_pad_sel:
  "buf_head b \<le> buf_head (stun_skip_pad b len)" "buf_data (stun_skip_pad b len) = buf_data b"
  "buf_size (stun_skip_pad b len) = buf_size b" "buf_mem (stun_skip_pad b len) = buf_mem b"
  using pos_mod_bound [of 4 "uint len"] by (simp_all add: stun_skip_pad_def yang_buffer_skip_def less_imp_le)

lemma left_skip_pad: "yang_buffer_left (stun_skip_pad b len) \<le> yang_buffer_left b"
  using skip_pad_sel [of b len] by (simp add: yang_buffer_left_def)

lemma left_skip: "0 \<le> n \<Longrightarrow> yang_buffer_left (yang_buffer_skip b n) \<le> yang_buffer_left b"
  by (simp add: yang_buffer_left_def yang_buffer_skip_def)

function decode2_loop :: "yang_buffer \<Rightarrow> errcode option" where
  "decode2_loop b =
     (if yang_buffer_left b < 4 then Some Yang_Ok
      else do {
        let b = yang_buffer_skip b 2;
        (len, b) \<leftarrow> yang_read_2bytes b;
        if yang_buffer_left b < uint len then Some ERROR_RTC_STUN
        else decode2_loop (stun_skip_pad (yang_buffer_skip b (uint len)) len)
      })"
  by pat_completeness auto
termination
proof (relation "measure (\<lambda>b. nat (yang_buffer_left b))")
  fix b b0 x and len :: u16 and b1
  assume a: "\<not> yang_buffer_left b < 4" "b0 = yang_buffer_skip b 2" "yang_read_2bytes b0 = Some x" "(len, b1) = x"
  have "yang_buffer_left (stun_skip_pad (yang_buffer_skip b1 (uint len)) len) \<le> yang_buffer_left b1"
    by (rule order_trans [OF left_skip_pad left_skip]) simp
  also have "\<dots> = yang_buffer_left b - 4"
    using a(2-4) read_2bytes_sel [of b0 len b1] by (simp add: yang_buffer_left_def yang_buffer_skip_def)
  finally show "(stun_skip_pad (yang_buffer_skip b1 (uint len)) len, b) \<in> measure (\<lambda>b. nat (yang_buffer_left b))"
    using a(1) by simp
qed simp

declare decode2_loop.simps [simp del]

definition yang_decode_stun2 :: "u8 list \<Rightarrow> int \<Rightarrow> errcode option" where
  "yang_decode_stun2 buf nb_buf = do {
     let b = yang_init_buffer buf 0 nb_buf;
     if yang_buffer_left b < 20 then Some ERROR_RTC_STUN
     else do {
       let b = yang_buffer_skip b 2;
       (message_len, b) \<leftarrow> yang_read_2bytes b;
       let b = yang_buffer_skip (yang_buffer_skip b 4) 12;
       if \<not> stun_check_len nb_buf message_len then Some ERROR_RTC_STUN
       else decode2_loop b
     }
   }"

text \<open>\<open>val\<close> is a copy of the value with a zero byte behind it.\<close>

function decode_loop :: "(u16 \<Rightarrow> u16 \<Rightarrow> u8 list \<Rightarrow> 'p \<Rightarrow> 'p option) \<Rightarrow> yang_buffer \<Rightarrow> 'p \<Rightarrow> (errcode \<times> 'p) option" where
  "decode_loop handle b pkt =
     (if yang_buffer_left b < 4 then Some (Yang_Ok, pkt)
      else do {
        (type, b) \<leftarrow> yang_read_2bytes b;
        (len, b) \<leftarrow> yang_read_2bytes b;
        if yang_buffer_left b < uint len then Some (ERROR_RTC_STUN, pkt)
        else do {
          (v, b) \<leftarrow> yang_read_bytes b (uint len);
          let b = stun_skip_pad b len;
          pkt \<leftarrow> handle type len (v @ [0]) pkt;
          decode_loop handle b pkt
        }
      })"
  by pat_completeness auto
termination
proof (relation "measure (\<lambda>(handle, b, pkt). nat (yang_buffer_left b))")
  fix handle :: "u16 \<Rightarrow> u16 \<Rightarrow> u8 list \<Rightarrow> 'p \<Rightarrow> 'p option" and b pkt x1 type b1 x2 len b2 x3 v b3 b4 pkt'
  assume a: "\<not> yang_buffer_left b < 4" "yang_read_2bytes b = Some x1" "(type, b1) = x1" "yang_read_2bytes b1 = Some x2" "(len, b2) = x2"
    "yang_read_bytes b2 (uint len) = Some x3" "(v, b3) = x3" "b4 = stun_skip_pad b3 len"
  have "yang_buffer_left b3 = yang_buffer_left b - 4 - uint len"
    using a(2-7) read_2bytes_sel [of b type b1] read_2bytes_sel [of b1 len b2] read_bytes_sel [of b2 "uint len" v b3]
    by (simp add: yang_buffer_left_def)
  then have "yang_buffer_left b4 \<le> yang_buffer_left b - 4"
    using left_skip_pad [of b3 len] uint_ge_0 [of len] unfolding a(8) by linarith
  then show "((handle, b4, pkt'), handle, b, pkt) \<in> measure (\<lambda>(handle, b, pkt). nat (yang_buffer_left b))"
    using a(1) by simp
qed simp

declare decode_loop.simps [simp del]

text \<open>
  The user name is copied with its own length into 32 bytes; its two halves, cut by \<open>strtok\<close> at colons, are copied into 16 and 32 bytes.
\<close>

definition stun_take_username :: "u16 \<Rightarrow> u8 list \<Rightarrow> YangStunPacket \<Rightarrow> YangStunPacket option" where
  "stun_take_username len val pkt = do {
     bs \<leftarrow> mem_read val 0 (uint len);
     u \<leftarrow> mem_write (st_username pkt) 0 bs;
     let pkt = pkt\<lparr>st_username := u\<rparr>;
     s \<leftarrow> c_str val;
     case c_strtok s [58] of
       None \<Rightarrow> Some pkt
     | Some (p, rest) \<Rightarrow> do {
         l \<leftarrow> c_strcpy (st_local_ufrag pkt) (p @ [0]);
         let pkt = pkt\<lparr>st_local_ufrag := l\<rparr>;
         case c_strtok rest [58] of
           None \<Rightarrow> Some pkt
         | Some (p, rest) \<Rightarrow> do {
             r \<leftarrow> c_strcpy (st_remote_ufrag pkt) (p @ [0]);
             Some (pkt\<lparr>st_remote_ufrag := r\<rparr>)
           }
       }
   }"

definition stun_attribute :: "u16 \<Rightarrow> u16 \<Rightarrow> u8 list \<Rightarrow> YangStunPacket \<Rightarrow> YangStunPacket option" where
  "stun_attribute type len val pkt =
     (if type = StunUsername then stun_take_username len val pkt
      else if type = StunUseCandidate then Some (pkt\<lparr>st_use_candidate := True\<rparr>)
      else if type = StunIceControlled then Some (pkt\<lparr>st_ice_controlled := True\<rparr>)
      else if type = StunIceControlling then Some (pkt\<lparr>st_ice_controlling := True\<rparr>)
      else Some pkt)"

definition rtcstun_attribute :: "u16 \<Rightarrow> u16 \<Rightarrow> u8 list \<Rightarrow> YangStunPacket \<Rightarrow> YangStunPacket option" where
  "rtcstun_attribute type len val pkt =
     (if type = StunUsername then stun_take_username len val pkt
      else if type = StunUseCandidate then Some (pkt\<lparr>st_use_candidate := True\<rparr>)
      else if type = StunXorMappedAddress then do {
        port \<leftarrow> yang_get_be16 val 2;
        address \<leftarrow> yang_get_be32 val 4;
        Some (pkt\<lparr>st_mapped_port := port XOR ucast (drop_bit 16 kStunMagicCookie), st_mapped_address := address XOR kStunMagicCookie\<rparr>)
      }
      else if type = StunIceControlled then Some (pkt\<lparr>st_ice_controlled := True\<rparr>)
      else if type = StunIceControlling then Some (pkt\<lparr>st_ice_controlling := True\<rparr>)
      else Some pkt)"

definition stun_decode_with ::
    "(u16 \<Rightarrow> u16 \<Rightarrow> u8 list \<Rightarrow> YangStunPacket \<Rightarrow> YangStunPacket option) \<Rightarrow> YangStunPacket \<Rightarrow> u8 list \<Rightarrow> int \<Rightarrow>
     (errcode \<times> YangStunPacket) option" where
  "stun_decode_with handle pkt buf nb_buf = do {
     let b = yang_init_buffer buf 0 nb_buf;
     if yang_buffer_left b < 20 then Some (ERROR_RTC_STUN, pkt)
     else do {
       (type, b) \<leftarrow> yang_read_2bytes b;
       let pkt = pkt\<lparr>st_message_type := type\<rparr>;
       (message_len, b) \<leftarrow> yang_read_2bytes b;
       (magic_cookie, b) \<leftarrow> yang_read_bytes b 4;
       (tid, b) \<leftarrow> yang_read_bytes b 12;
       tid \<leftarrow> mem_write (st_transcation_id pkt) 0 tid;
       let pkt = pkt\<lparr>st_transcation_id := tid\<rparr>;
       if \<not> stun_check_len nb_buf message_len then Some (ERROR_RTC_STUN, pkt)
       else decode_loop handle b pkt
     }
   }"

definition yang_decode_stun :: "YangStunPacket \<Rightarrow> u8 list \<Rightarrow> int \<Rightarrow> (errcode \<times> YangStunPacket) option" where
  "yang_decode_stun pkt buf nb_buf = stun_decode_with stun_attribute pkt buf nb_buf"

definition yang_decode_rtcstun :: "YangStunPacket \<Rightarrow> u8 list \<Rightarrow> int \<Rightarrow> (errcode \<times> YangStunPacket) option" where
  "yang_decode_rtcstun pkt buf nb_buf = stun_decode_with rtcstun_attribute pkt buf nb_buf"

end
