(* ===== verification/Stun_Facts.thy ===== *)
theory Stun_Facts
  imports Stun
begin

text \<open>
  What the STUN code computes. A message is its header and a list of attributes (\<open>tlvs\<close>); the decoders fold their handler over that
  list, and the encoded response decodes to what went in.
\<close>

section \<open>The attributes of a message body\<close>

definition padded :: "nat \<Rightarrow> nat" where "padded n = 4 * ((n + 3) div 4)"

function tlvs :: "u8 list \<Rightarrow> (u16 \<times> u8 list) list \<times> bool" where
  "tlvs (t1 # t0 # l1 # l0 # rest) =
     (let n = unat (be_dec [l1, l0] :: u16)
      in if length rest < n then ([], False)
         else let (ts, ok) = tlvs (drop (padded n) rest) in ((be_dec [t1, t0], take n rest) # ts, ok))"
| "tlvs [] = ([], True)"
| "tlvs [x] = ([], True)"
| "tlvs [x, y] = ([], True)"
| "tlvs [x, y, z] = ([], True)"
  by pat_completeness auto
termination by (relation "measure length") auto

declare tlvs.simps(1) [simp del]

lemma tlvs_short: "length bs < 4 \<Longrightarrow> tlvs bs = ([], True)"
  by (cases bs rule: tlvs.cases) auto

primrec fold_attributes :: "(u16 \<Rightarrow> u16 \<Rightarrow> u8 list \<Rightarrow> 'p \<Rightarrow> 'p option) \<Rightarrow> (u16 \<times> u8 list) list \<Rightarrow> 'p \<Rightarrow> 'p option" where
  "fold_attributes h [] p = Some p"
| "fold_attributes h (tv # ts) p = do {
     p \<leftarrow> h (fst tv) (word_of_nat (length (snd tv))) (snd tv @ [0]) p;
     fold_attributes h ts p
   }"

lemma padded_skip: "int (padded n) = int n + (if int n mod 4 \<noteq> 0 then 4 - int n mod 4 else 0)"
  unfolding padded_def by presburger

lemma padded_ge: "n \<le> padded n"
  unfolding padded_def by presburger

lemma skip_pad_adv: "stun_skip_pad (adv b (unat len)) len = adv b (padded (unat len))"
proof -
  have u: "uint len = int (unat len)" by simp
  show ?thesis
    using padded_skip [of "unat len"] unfolding stun_skip_pad_def yang_buffer_skip_def adv_def u by (simp add: add.assoc)
qed

section \<open>The window of a buffer\<close>

text \<open>The bytes between the head and the end of the packet.\<close>

definition window :: "yang_buffer \<Rightarrow> u8 list" where
  "window b = drop (nat (buf_head b)) (take (nat (buf_data b + buf_size b)) (buf_mem b))"

definition windowed :: "yang_buffer \<Rightarrow> bool" where
  "windowed b \<longleftrightarrow> 0 \<le> buf_head b \<and> buf_data b + buf_size b \<le> int (length (buf_mem b))"

lemma length_window: "windowed b \<Longrightarrow> int (length (window b)) = max 0 (yang_buffer_left b)"
  by (auto simp: window_def windowed_def yang_buffer_left_def)

lemma window_adv:
  "windowed b \<Longrightarrow> windowed (adv b n)" "windowed b \<Longrightarrow> window (adv b n) = drop n (window b)"
  by (auto simp: window_def windowed_def adv_def nat_add_distrib add.commute)

lemma left_window: "windowed b \<Longrightarrow> yang_buffer_left b < int (Suc n) \<longleftrightarrow> length (window b) < Suc n"
  using length_window [of b] by linarith

lemma window_room:
  assumes "windowed b" "0 < n" "n \<le> length (window b)"
  shows "room b n" "peek b n = take n (window b)"
proof -
  have *: "nat (buf_head b) + n \<le> nat (buf_data b + buf_size b)" "0 \<le> buf_data b + buf_size b"
    using assms by (auto simp: window_def windowed_def)
  then show "room b n" using assms(1) by (auto simp: room_def windowed_def)
  show "peek b n = take n (window b)"
    using * by (simp add: peek_def window_def take_drop min_absorb1)
qed

lemma read_2_window:
  assumes "windowed b" "window b = x # y # r"
  shows "yang_read_2bytes b = Some (be_dec [x, y], adv b 2)"
  using window_room [OF assms(1), of 2] assms(2) by (simp add: w16.rd_spec)

lemma read_bytes_window:
  assumes "windowed b" "n \<le> length (window b)"
  shows "yang_read_bytes b (int n) = Some (take n (window b), adv b n)"
proof (cases "n = 0")
  case True
  then show ?thesis by (simp add: yang_read_bytes_def mem_read_def adv_def)
next
  case False
  then show ?thesis using window_room [OF assms(1), of n] assms(2) by (simp add: read_bytes_peek)
qed

lemma left_less: "windowed b \<Longrightarrow> yang_buffer_left b < int (Suc n) \<longleftrightarrow> length (window b) < Suc n"
  using length_window [of b] by linarith

section \<open>The loops are folds over the attributes\<close>

lemma window_4:
  assumes "windowed b" "\<not> yang_buffer_left b < 4"
  obtains t1 t0 l1 l0 rest where "window b = t1 # t0 # l1 # l0 # rest"
proof -
  have "4 \<le> length (window b)" using left_less [OF assms(1), of 3] assms(2) by simp
  then show thesis
    by (cases "window b" rule: tlvs.cases) (auto intro: that)
qed

lemma drop_4: "drop (4 + n) (a # b # c # d # r) = drop n r"
  by (simp add: numeral_eq_Suc)

lemma decode_loop_fold:
  "windowed b \<Longrightarrow> decode_loop h b pkt =
     map_option (Pair (if snd (tlvs (window b)) then Yang_Ok else ERROR_RTC_STUN)) (fold_attributes h (fst (tlvs (window b))) pkt)"
proof (induction "length (window b)" arbitrary: b pkt rule: less_induct)
  case less
  show ?case
  proof (cases "yang_buffer_left b < 4")
    case True
    then have "length (window b) < 4" using left_less [OF less.prems, of 3] by simp
    then show ?thesis using True by (subst decode_loop.simps) (simp add: tlvs_short)
  next
    case False
    then obtain t1 t0 l1 l0 rest where w: "window b = t1 # t0 # l1 # l0 # rest" by (rule window_4 [OF less.prems])
    let ?len = "be_dec [l1, l0] :: u16" and ?type = "be_dec [t1, t0] :: u16"
    have w2: "windowed (adv b 2)" "window (adv b 2) = l1 # l0 # rest" using less.prems w by (simp_all add: window_adv)
    have w4: "windowed (adv b 4)" "window (adv b 4) = rest" using less.prems w by (simp_all add: window_adv)
    have r1: "yang_read_2bytes b = Some (?type, adv b 2)" using read_2_window [OF less.prems w] .
    have r2: "yang_read_2bytes (adv b 2) = Some (?len, adv b 4)" using read_2_window [OF w2] by (simp add: adv_adv)
    have u: "uint ?len = int (unat ?len)" by simp
    have short: "yang_buffer_left (adv b 4) < uint ?len \<longleftrightarrow> length rest < unat ?len"
    proof -
      have l: "int (length rest) = yang_buffer_left (adv b 4)"
        using length_window [OF w4(1)] False unfolding w4(2) left_adv by simp
      show ?thesis unfolding l [symmetric] u by (simp only: of_nat_less_iff)
    qed
    show ?thesis
    proof (cases "length rest < unat ?len")
      case True
      then show ?thesis
        using False r1 r2 short by (subst decode_loop.simps) (simp add: w tlvs.simps(1) Let_def)
    next
      case long: False
      let ?v = "take (unat ?len) rest" and ?b = "adv b (4 + padded (unat ?len))"
      have r3: "yang_read_bytes (adv b 4) (uint ?len) = Some (?v, adv b (4 + unat ?len))"
        using read_bytes_window [OF w4(1), of "unat ?len"] long unfolding w4(2) u by (simp add: adv_adv)
      have b: "stun_skip_pad (adv b (4 + unat ?len)) ?len = ?b"
        using skip_pad_adv [of "adv b 4" ?len] by (simp add: adv_adv)
      have wb: "windowed ?b" "window ?b = drop (padded (unat ?len)) rest"
        using less.prems w by (simp_all add: window_adv drop_4)
      have lv: "word_of_nat (length ?v) = ?len" using long by (simp add: min_absorb2)
      have IH: "decode_loop h ?b p = map_option (Pair (if snd (tlvs (window ?b)) then Yang_Ok else ERROR_RTC_STUN))
          (fold_attributes h (fst (tlvs (window ?b))) p)" for p
        using w wb by (intro less.hyps) auto
      show ?thesis
        using False r1 r2 short long r3 b IH lv unfolding wb(2)
        by (subst decode_loop.simps) (simp add: w tlvs.simps(1) Let_def split_beta split: Option.bind_split)
    qed
  qed
qed

lemma decode2_loop_tlvs:
  "windowed b \<Longrightarrow> decode2_loop b = Some (if snd (tlvs (window b)) then Yang_Ok else ERROR_RTC_STUN)"
proof (induction "length (window b)" arbitrary: b rule: less_induct)
  case less
  show ?case
  proof (cases "yang_buffer_left b < 4")
    case True
    then have "length (window b) < 4" using left_less [OF less.prems, of 3] by simp
    then show ?thesis using True by (subst decode2_loop.simps) (simp add: tlvs_short)
  next
    case False
    then obtain t1 t0 l1 l0 rest where w: "window b = t1 # t0 # l1 # l0 # rest" by (rule window_4 [OF less.prems])
    let ?len = "be_dec [l1, l0] :: u16"
    have w2: "windowed (adv b 2)" "window (adv b 2) = l1 # l0 # rest" using less.prems w by (simp_all add: window_adv)
    have w4: "windowed (adv b 4)" "window (adv b 4) = rest" using less.prems w by (simp_all add: window_adv)
    have r1: "yang_buffer_skip b 2 = adv b 2" by (simp add: skip_adv)
    have r2: "yang_read_2bytes (adv b 2) = Some (?len, adv b 4)" using read_2_window [OF w2] by (simp add: adv_adv)
    have u: "uint ?len = int (unat ?len)" by simp
    have short: "yang_buffer_left (adv b 4) < uint ?len \<longleftrightarrow> length rest < unat ?len"
    proof -
      have l: "int (length rest) = yang_buffer_left (adv b 4)"
        using length_window [OF w4(1)] False unfolding w4(2) left_adv by simp
      show ?thesis unfolding l [symmetric] u by (simp only: of_nat_less_iff)
    qed
    let ?b = "adv b (4 + padded (unat ?len))"
    have b: "stun_skip_pad (yang_buffer_skip (adv b 4) (uint ?len)) ?len = ?b"
      using skip_pad_adv [of "adv b 4" ?len] unfolding u by (simp add: adv_adv skip_adv)
    have wb: "windowed ?b" "window ?b = drop (padded (unat ?len)) rest"
      using less.prems w by (simp_all add: window_adv drop_4)
    have IH: "decode2_loop ?b = Some (if snd (tlvs (window ?b)) then Yang_Ok else ERROR_RTC_STUN)"
      using w wb by (intro less.hyps) auto
    show ?thesis
      using False r1 r2 short b IH unfolding wb(2)
      by (subst decode2_loop.simps) (simp add: w tlvs.simps(1) Let_def split_beta)
  qed
qed

section \<open>The decoders\<close>

definition body_of :: "u8 list \<Rightarrow> nat \<Rightarrow> u8 list" where "body_of buf n = drop 20 (take n buf)"

text \<open>A packet whose header is sound: it is complete and its length field is right.\<close>

definition sound_header :: "u8 list \<Rightarrow> nat \<Rightarrow> bool" where
  "sound_header buf n \<longleftrightarrow> 20 \<le> n \<and> n \<le> length buf \<and> n = 20 + unat (be_dec (take 2 (drop 2 buf)) :: u16)"

definition header_taken :: "u8 list \<Rightarrow> YangStunPacket \<Rightarrow> YangStunPacket" where
  "header_taken buf pkt = pkt\<lparr>st_message_type := be_dec (take 2 buf),
     st_transcation_id := take 12 (drop 8 buf) @ drop 12 (st_transcation_id pkt)\<rparr>"

lemma init_room: "room (adv (yang_init_buffer buf 0 n) k) m \<longleftrightarrow> k + m \<le> length buf"
  "room (yang_init_buffer buf 0 n) m \<longleftrightarrow> m \<le> length buf"
  by (auto simp: room_def adv_def yang_init_buffer_def)

lemma init_peek: "peek (adv (yang_init_buffer buf 0 n) k) m = take m (drop k buf)" "peek (yang_init_buffer buf 0 n) m = take m buf"
  by (simp_all add: peek_def adv_def yang_init_buffer_def)

lemma init_left: "yang_buffer_left (adv (yang_init_buffer buf 0 n) k) = n - int k" "yang_buffer_left (yang_init_buffer buf 0 n) = n"
  by (simp_all add: yang_buffer_left_def adv_def yang_init_buffer_def)

lemma check_len: "stun_check_len (int n) l \<longleftrightarrow> n = 20 + unat l"
proof -
  have u: "uint l = int (unat l)" by simp
  show ?thesis unfolding stun_check_len_def u by linarith
qed

lemma init_window:
  assumes "n \<le> length buf"
  shows "windowed (adv (yang_init_buffer buf 0 (int n)) 20)" "window (adv (yang_init_buffer buf 0 (int n)) 20) = body_of buf n"
  using assms by (auto simp: windowed_def window_def body_of_def adv_def yang_init_buffer_def)

lemma stun_decode_with_fold:
  assumes "n \<le> length buf" "12 \<le> length (st_transcation_id pkt)"
  shows "stun_decode_with h pkt buf (int n) =
    (if n < 20 then Some (ERROR_RTC_STUN, pkt)
     else if \<not> sound_header buf n then Some (ERROR_RTC_STUN, header_taken buf pkt)
     else map_option (Pair (if snd (tlvs (body_of buf n)) then Yang_Ok else ERROR_RTC_STUN))
       (fold_attributes h (fst (tlvs (body_of buf n))) (header_taken buf pkt)))"
proof (cases "n < 20")
  case True
  then show ?thesis by (simp add: stun_decode_with_def init_left)
next
  case False
  let ?b = "yang_init_buffer buf 0 (int n)"
  let ?l = "be_dec (take 2 (drop 2 buf)) :: u16"
  have r: "yang_read_2bytes ?b = Some (be_dec (take 2 buf), adv ?b 2)"
    "yang_read_2bytes (adv ?b 2) = Some (?l, adv ?b 4)"
    "yang_read_bytes (adv ?b 4) 4 = Some (take 4 (drop 4 buf), adv ?b 8)"
    "yang_read_bytes (adv ?b 8) 12 = Some (take 12 (drop 8 buf), adv ?b 20)"
    using False assms(1) by (simp_all add: w16.rd_spec init_room init_peek read_bytes_peek adv_adv)
  have "length (take 12 (drop 8 buf)) = 12" using False assms(1) by simp
  then have t: "mem_write (st_transcation_id pkt) 0 (take 12 (drop 8 buf)) =
      Some (take 12 (drop 8 buf) @ drop 12 (st_transcation_id pkt))"
    using assms(2) by (auto simp: mem_write_def)
  have "sound_header buf n \<longleftrightarrow> stun_check_len (int n) ?l"
    unfolding check_len sound_header_def using assms(1) by auto
  then show ?thesis
    using False r t decode_loop_fold [OF init_window(1) [OF assms(1)], of h "header_taken buf pkt"] init_window(2) [OF assms(1)]
    by (simp add: stun_decode_with_def init_left header_taken_def)
qed

text \<open>
  C26: decoding a STUN packet is folding the attribute handler over the packet's attribute list, after the two header checks; the code
  of the result says whether the last attribute is complete.
\<close>
theorem stun_decode_is_fold:
  assumes "n \<le> length buf" "length (st_transcation_id pkt) = 13" "sound_header buf n"
  shows "yang_decode_rtcstun pkt buf (int n) =
    map_option (Pair (if snd (tlvs (body_of buf n)) then Yang_Ok else ERROR_RTC_STUN))
      (fold_attributes rtcstun_attribute (fst (tlvs (body_of buf n))) (header_taken buf pkt))"
  unfolding yang_decode_rtcstun_def
  by (subst stun_decode_with_fold) (use assms in \<open>auto simp: sound_header_def\<close>)

text \<open>
  The check without decoding never faults and accepts exactly the packets with a sound header and complete attributes.
\<close>
theorem stun_decode2_verdict:
  assumes "n \<le> length buf"
  shows "yang_decode_stun2 buf (int n) = Some (if sound_header buf n \<and> snd (tlvs (body_of buf n)) then Yang_Ok else ERROR_RTC_STUN)"
proof (cases "n < 20")
  case True
  then show ?thesis by (simp add: yang_decode_stun2_def init_left sound_header_def)
next
  case False
  let ?b = "yang_init_buffer buf 0 (int n)"
  let ?l = "be_dec (take 2 (drop 2 buf)) :: u16"
  have r: "yang_buffer_skip ?b 2 = adv ?b 2" "yang_read_2bytes (adv ?b 2) = Some (?l, adv ?b 4)"
     "yang_buffer_skip (yang_buffer_skip (adv ?b 4) 4) 12 = adv ?b 20"
    using False assms by (simp_all add: w16.rd_spec init_room init_peek skip_adv adv_adv)
  have "sound_header buf n \<longleftrightarrow> stun_check_len (int n) ?l"
    unfolding check_len sound_header_def using assms False by auto
  then show ?thesis
    using False r decode2_loop_tlvs [OF init_window(1) [OF assms]] init_window(2) [OF assms]
    by (simp add: yang_decode_stun2_def init_left)
qed

subsection \<open>When decoding faults\<close>

text \<open>What fits the fields: at most 32 bytes, of which at most 15 before the first colon.\<close>

definition username_fits :: "u8 list \<Rightarrow> bool" where
  "username_fits v \<longleftrightarrow> length v \<le> 32 \<and>
     (case c_strtok (takeWhile (\<lambda>c. c \<noteq> 0) v) [58] of None \<Rightarrow> True | Some (p, rest) \<Rightarrow> length p < 16)"

definition sized :: "YangStunPacket \<Rightarrow> bool" where
  "sized pkt \<longleftrightarrow> length (st_local_ufrag pkt) = 16 \<and> length (st_remote_ufrag pkt) = 32 \<and> length (st_transcation_id pkt) = 13
     \<and> length (st_username pkt) = 32"

lemma c_str_terminated: "c_str (v @ [0]) = Some (takeWhile (\<lambda>c. c \<noteq> 0) v)"
  by (induction v) auto

lemma c_strcpy_Some: "c_strcpy dst src = Some d \<Longrightarrow> length d = length dst"
  by (auto simp: c_strcpy_def bind_eq_Some_conv dest: length_mem_write)

lemma c_strcpy_token: "0 \<notin> set p \<Longrightarrow> c_strcpy dst (p @ [0]) = (if length p < length dst then Some (p @ 0 # drop (length p + 1) dst) else None)"
  by (auto simp: c_strcpy_def c_str_append mem_write_def)

lemma strtok_subset:
  assumes "c_strtok s d = Some (p, r)"
  shows "set p \<subseteq> set s" "set r \<subseteq> set s" "length p + length r \<le> length s" "r \<noteq> [] \<Longrightarrow> length p + length r < length s" "p \<noteq> []"
proof -
  define t where "t = dropWhile (\<lambda>c. c \<in> set d) s"
  have t: "t \<noteq> []" "p = takeWhile (\<lambda>c. c \<notin> set d) t" "r = drop 1 (dropWhile (\<lambda>c. c \<notin> set d) t)"
    using assms by (auto simp: c_strtok_def Let_def t_def split: if_splits)
  have s: "set t \<subseteq> set s" "length t \<le> length s" by (auto simp: t_def length_dropWhile_le dest: set_dropWhileD)
  have split: "t = p @ dropWhile (\<lambda>c. c \<notin> set d) t" using t by simp
  then have "set t = set p \<union> set (dropWhile (\<lambda>c. c \<notin> set d) t)" by (metis set_append)
  then show "set p \<subseteq> set s" "set r \<subseteq> set s" using s(1) t(3) by (auto dest: in_set_dropD)
  have l: "length t = length p + length (dropWhile (\<lambda>c. c \<notin> set d) t)" using arg_cong [OF split, of length] by simp
  show "length p + length r \<le> length s" using l s(2) t(3) by simp
  show "r \<noteq> [] \<Longrightarrow> length p + length r < length s" using l s(2) t(3) by (cases "dropWhile (\<lambda>c. c \<notin> set d) t") auto
  show "p \<noteq> []" using t(1) hd_dropWhile [of "\<lambda>c. c \<in> set d" s] unfolding t(2) t_def
    by (cases "dropWhile (\<lambda>c. c \<in> set d) s") auto
qed

lemma take_username:
  assumes "sized pkt" "length v < 2 ^ 16"
  shows "stun_take_username (word_of_nat (length v)) (v @ [0]) pkt \<noteq> None \<longleftrightarrow> username_fits v"
    and "stun_take_username (word_of_nat (length v)) (v @ [0]) pkt = Some pkt' \<Longrightarrow> sized pkt'"
proof -
  define s where "s = takeWhile (\<lambda>c. c \<noteq> 0) v"
  have s: "c_str (v @ [0]) = Some s" "0 \<notin> set s" "length s \<le> length v"
    by (auto simp: s_def c_str_terminated length_takeWhile_le dest: set_takeWhileD)
  have u: "uint (word_of_nat (length v) :: u16) = int (length v)"
    using assms(2) by (simp add: uint_nat unsigned_of_nat take_bit_nat_eq_self)
  have r: "mem_read (v @ [0]) 0 (int (length v)) = Some v" by (auto simp: mem_read_def)
  have w: "mem_write (st_username pkt) 0 v = (if length v \<le> 32 then Some (v @ drop (length v) (st_username pkt)) else None)"
    using assms(1) by (auto simp: mem_write_def sized_def)
  have both: "(stun_take_username (word_of_nat (length v)) (v @ [0]) pkt \<noteq> None \<longleftrightarrow> username_fits v) \<and>
      (\<forall>pkt'. stun_take_username (word_of_nat (length v)) (v @ [0]) pkt = Some pkt' \<longrightarrow> sized pkt')"
  proof (cases "c_strtok s [58]")
    case None
    then show ?thesis
      using assms(1) by (auto simp: stun_take_username_def u r w s username_fits_def sized_def simp flip: s_def)
  next
    case (Some pr)
    obtain p rest where pr: "pr = (p, rest)" by (cases pr)
    note tok = strtok_subset [OF Some [unfolded pr]]
    have p0: "0 \<notin> set p" using tok(1) s(2) by blast
    show ?thesis
    proof (cases "c_strtok rest [58]")
      case None
      then show ?thesis
        using assms(1) Some pr p0 by (auto simp: stun_take_username_def u r w s username_fits_def sized_def c_strcpy_token Let_def simp flip: s_def split: if_splits)
    next
      case (Some qr)
      obtain q rest2 where qr: "qr = (q, rest2)" by (cases qr)
      note tok2 = strtok_subset [OF Some [unfolded qr]]
      have q0: "0 \<notin> set q" using tok2(1) tok(2) s(2) by blast
      have "rest \<noteq> []" using Some by (auto simp: c_strtok_def)
      then have "length q < 32" if "length v \<le> 32" using tok(4) tok2(3) s(3) that by linarith
      then show ?thesis
        using assms(1) Some qr q0 \<open>c_strtok s [58] = Some pr\<close> pr p0
        by (auto simp: stun_take_username_def u r w s username_fits_def sized_def c_strcpy_token Let_def simp flip: s_def split: if_splits)
    qed
  qed
  then show "stun_take_username (word_of_nat (length v)) (v @ [0]) pkt \<noteq> None \<longleftrightarrow> username_fits v"
    and "stun_take_username (word_of_nat (length v)) (v @ [0]) pkt = Some pkt' \<Longrightarrow> sized pkt'" by blast+
qed

lemma fold_stun_attributes:
  assumes "sized pkt" "\<forall>tv \<in> set ts. length (snd tv) < 2 ^ 16"
  shows "fold_attributes stun_attribute ts pkt \<noteq> None \<longleftrightarrow> (\<forall>tv \<in> set ts. fst tv = StunUsername \<longrightarrow> username_fits (snd tv))"
  using assms
proof (induction ts arbitrary: pkt)
  case (Cons tv ts)
  note u = take_username [OF Cons.prems(1), of "snd tv"]
  show ?case
  proof (cases "stun_attribute (fst tv) (word_of_nat (length (snd tv))) (snd tv @ [0]) pkt")
    case None
    then show ?thesis using u(1) Cons.prems(2) by (auto simp: stun_attribute_def split: if_splits)
  next
    case (Some p)
    have p: "sized p" using Some u(2) Cons.prems by (auto simp: stun_attribute_def sized_def split: if_splits)
    have "fst tv = StunUsername \<longrightarrow> username_fits (snd tv)" using Some u(1) Cons.prems(2) by (auto simp: stun_attribute_def)
    then show ?thesis using Some Cons.IH [OF p] Cons.prems(2) by auto
  qed
qed simp

lemma tlvs_lengths: "tv \<in> set (fst (tlvs bs)) \<Longrightarrow> length (snd tv) < 2 ^ 16"
proof (induction bs rule: tlvs.induct)
  case (1 t1 t0 l1 l0 rest)
  have "unat (be_dec [l1, l0] :: u16) < 2 ^ LENGTH(16)" by (rule unsigned_less)
  then show ?case using 1 by (auto simp: tlvs.simps(1) Let_def split_beta min_def split: if_splits)
qed simp_all

text \<open>
  C25: decoding a packet with a sound header faults exactly when one of its user names does not fit the arrays it is copied into; the
  sizes come from the packet and are not checked.
\<close>
theorem stun_decode_faults_iff:
  assumes "n \<le> length buf" "sized pkt" "sound_header buf n"
  shows "yang_decode_stun pkt buf (int n) = None \<longleftrightarrow>
    (\<exists>tv \<in> set (fst (tlvs (body_of buf n))). fst tv = StunUsername \<and> \<not> username_fits (snd tv))"
proof -
  have "sized (header_taken buf pkt)"
    using assms by (auto simp: sized_def header_taken_def sound_header_def)
  then show ?thesis
    unfolding yang_decode_stun_def
    by (subst stun_decode_with_fold)
       (use assms fold_stun_attributes [of "header_taken buf pkt" "fst (tlvs (body_of buf n))"] tlvs_lengths
         in \<open>auto simp: sound_header_def sized_def\<close>)
qed

text \<open>A binding request with an unknown attribute and a user name of forty bytes.\<close>

definition long_name_packet :: "u8 list" where
  "long_name_packet = [0, 1, 0, 44, 0x21, 0x12, 0xA4, 0x42] @ replicate 12 48 @ [0, 6, 0, 40] @ replicate 40 97"

lemma long_name_facts:
  "length long_name_packet = 64" "sound_header long_name_packet 64" "tlvs (body_of long_name_packet 64) = ([(StunUsername, replicate 40 97)], True)"
proof -
  have l: "be_dec [0, 44] = (44 :: u16)" "be_dec [0, 40] = (40 :: u16)" "be_dec [0, 6] = (6 :: u16)"
    by code_simp+
  show "length long_name_packet = 64" by (simp add: long_name_packet_def)
  show "sound_header long_name_packet 64" by (simp add: sound_header_def long_name_packet_def l)
  have "body_of long_name_packet 64 = 0 # 6 # 0 # 40 # replicate 40 97" by (simp add: body_of_def long_name_packet_def)
  then show "tlvs (body_of long_name_packet 64) = ([(StunUsername, replicate 40 97)], True)"
    by (simp add: tlvs.simps(1) l padded_def)
qed

theorem stun_decode_faults_iff_witness: "yang_decode_stun stun_packet0 long_name_packet 64 = None"
proof -
  have "sized stun_packet0" by (simp add: sized_def stun_packet0_def)
  from stun_decode_faults_iff [OF _ this long_name_facts(2)] show ?thesis
    by (simp add: long_name_facts username_fits_def)
qed

theorem stun_decode2_verdict_witness: "yang_decode_stun2 long_name_packet 64 = Some Yang_Ok"
  using stun_decode2_verdict [of 64 long_name_packet] by (simp add: long_name_facts)

theorem stun_decode_is_fold_witness: "yang_decode_rtcstun stun_packet0 long_name_packet 64 = None"
proof -
  have "sized (header_taken long_name_packet stun_packet0)"
    by (simp add: sized_def header_taken_def stun_packet0_def long_name_packet_def)
  from take_username(1) [OF this, of "replicate 40 97"]
  have "stun_take_username 40 (replicate 40 97 @ [0]) (header_taken long_name_packet stun_packet0) = None"
    by (simp add: username_fits_def)
  moreover have "length (st_transcation_id stun_packet0) = 13" by (simp add: stun_packet0_def)
  ultimately show ?thesis
    using stun_decode_is_fold [OF _ _ long_name_facts(2), of stun_packet0] by (simp add: long_name_facts rtcstun_attribute_def)
qed

end
