(* ===== verification/Stun_Wire.thy ===== *)
theory Stun_Wire
  imports Stun_Facts
begin

text \<open>
  The bytes the STUN encoders write: the attributes as wire images (\<open>attr\<close>), the binding response with its integrity and fingerprint,
  and its round trip through the decoder.
\<close>

section \<open>A buffer that starts at its memory\<close>

definition fresh :: "yang_buffer \<Rightarrow> bool" where
  "fresh b \<longleftrightarrow> buf_head b = 0 \<and> buf_data b = 0"

text \<open>What has been written so far, seen from the start.\<close>

lemma fresh_room: "fresh b \<Longrightarrow> room b n \<longleftrightarrow> n \<le> length (buf_mem b)"
  by (auto simp: fresh_def room_def)

lemma fresh_put:
  assumes "fresh b" "length bs \<le> length (buf_mem b)"
  shows "buf_mem (put b bs) = bs @ drop (length bs) (buf_mem b)" "yang_buffer_pos (put b bs) = int (length bs)"
    "room (put b bs) n \<longleftrightarrow> length bs + n \<le> length (buf_mem b)"
    "put (put b bs) cs = put b (bs @ cs)"
    "mem_read (buf_mem (put b bs)) 0 (int (length bs)) = Some bs" "buf_data (put b bs) = 0"
  using assms by (auto simp: fresh_def put_def yang_buffer_pos_def room_def mem_read_def add.commute)

definition with_len :: "u8 list \<Rightarrow> int \<Rightarrow> u8 list" where
  "with_len bs n = bs[2 := word_byte (word_of_int n :: u16) 1, 3 := word_byte (word_of_int n :: u16) 0]"

lemma length_with_len [simp]: "length (with_len bs n) = length bs"
  by (simp add: with_len_def)

lemma len_bytes:
  "ucast (drop_bit 8 ((word_of_int n :: u32) AND 0x0000FF00)) = word_byte (word_of_int n :: u16) 1"
  "ucast ((word_of_int n :: u32) AND 0x000000FF) = word_byte (word_of_int n :: u16) 0"
proof -
  have m: "(0x0000FF00 :: u32) = push_bit 8 (mask 8)" "(0x000000FF :: u32) = mask 8"
    by (simp_all add: mask_eq_exp_minus_1 push_bit_eq_mult)
  have b: "bit (word_of_int n :: u16) k \<longleftrightarrow> k < 16 \<and> bit n k" "bit (word_of_int n :: u32) k \<longleftrightarrow> k < 32 \<and> bit n k" for k
    by (simp_all add: bit_simps)
  show "ucast (drop_bit 8 ((word_of_int n :: u32) AND 0x0000FF00)) = word_byte (word_of_int n :: u16) 1"
    by (rule bit_word_eqI) (auto simp: m bit_unsigned_iff bit_drop_bit_eq bit_and_iff bit_push_bit_iff bit_mask_iff bit_word_byte b)
  show "ucast ((word_of_int n :: u32) AND 0x000000FF) = word_byte (word_of_int n :: u16) 0"
    by (rule bit_word_eqI) (auto simp: m bit_unsigned_iff bit_and_iff bit_mask_iff bit_word_byte b)
qed

lemma set_len_put:
  assumes "fresh b" "length bs \<le> length (buf_mem b)" "4 \<le> length bs"
  shows "stun_set_len (put b bs) n = Some (put b (with_len bs n))"
proof -
  note f = fresh_put [OF assms(1,2)]
  have "stun_set_len (put b bs) n = Some (put b bs\<lparr>buf_mem := with_len bs n @ drop (length bs) (buf_mem b)\<rparr>)"
    using assms(3) unfolding stun_set_len_def f(1) f(6) len_bytes
    by (simp add: mem_store_def with_len_def list_update_append)
  also have "put b bs\<lparr>buf_mem := with_len bs n @ drop (length bs) (buf_mem b)\<rparr> = put b (with_len bs n)"
    using assms(1) by (simp add: put_def fresh_def)
  finally show ?thesis .
qed

lemma copy_put:
  assumes "fresh b" "length bs \<le> length (buf_mem b)"
  shows "stun_copy (put b bs) = Some (int (length bs), bs @ [0])"
  using fresh_put [OF assms] by (simp add: stun_copy_def)

lemma pad_put:
  assumes "fresh b" "padded (length bs) \<le> length (buf_mem b)"
  shows "stun_pad (put b bs) = Some (put b (bs @ replicate (padded (length bs) - length bs) 0))"
proof -
  have l: "length bs \<le> length (buf_mem b)" using assms(2) padded_ge [of "length bs"] by linarith
  note f = fresh_put [OF assms(1) l]
  let ?k = "padded (length bs) - length bs"
  show ?thesis
  proof (cases "int (length bs) mod 4 = 0")
    case True
    then have "?k = 0" using padded_skip [of "length bs"] by simp
    then show ?thesis using True by (simp add: stun_pad_def f)
  next
    case False
    then have k: "4 - int (length bs) mod 4 = int ?k" using padded_skip [of "length bs"] padded_ge [of "length bs"] by simp
    have k4: "?k \<le> 4" using k pos_mod_sign [of 4 "int (length bs)"] by linarith
    have t: "take ?k [0, 0, 0, 0] = replicate ?k (0 :: u8)"
    proof -
      have "[0, 0, 0, 0] = replicate 4 (0 :: u8)" by (simp add: numeral_eq_Suc)
      then show ?thesis using k4 by (simp add: min_absorb1)
    qed
    have r: "room (put b bs) ?k" using assms(2) padded_ge [of "length bs"] by (simp add: f)
    have "yang_write_bytes (put b bs) [0, 0, 0, 0] (int ?k) = Some (put (put b bs) (take ?k [0, 0, 0, 0]))"
      using write_bytes_put [of "put b bs" "int ?k" "[0, 0, 0, 0]"] r k4 by simp
    then show ?thesis using False by (simp add: stun_pad_def f k t)
  qed
qed

lemma local_fresh: "fresh stun_local" "length (buf_mem stun_local) = 1460"
  by (simp_all add: fresh_def stun_local_def yang_init_buffer_def)

lemma local_write: "n = 2 \<Longrightarrow> yang_write_2bytes stun_local t = Some (put stun_local (be16 t))"
  by (rule w16.wr_room) (simp add: fresh_room local_fresh)

section \<open>Attributes\<close>

text \<open>An attribute on the wire.\<close>

definition attr :: "u16 \<Rightarrow> u8 list \<Rightarrow> u8 list" where
  "attr t v = be16 t @ be16 (word_of_nat (length v)) @ v @ replicate (padded (length v) - length v) 0"

lemma length_attr: "length (attr t v) = 4 + padded (length v)"
  using padded_ge [of "length v"] by (simp add: attr_def)

lemma be_dec_be16: "be_dec (be16 v) = v"
  using w16.dec_enc [of v] by simp

lemma tlvs_attr:
  assumes "length v < 2 ^ 16"
  shows "tlvs (attr t v @ rest) = ((t, v) # fst (tlvs rest), snd (tlvs rest))"
proof -
  have n: "unat (word_of_nat (length v) :: u16) = length v" using assms by (simp add: unsigned_of_nat take_bit_nat_eq_self)
  have d: "be_dec [word_byte w (Suc 0), word_byte w 0] = w" for w :: u16 using be_dec_be16 [of w] by (simp add: be16_def)
  show ?thesis
    using n padded_ge [of "length v"] by (simp add: attr_def be16_def tlvs.simps(1) Let_def d split_beta)
qed

lemma local_write_attr:
  assumes "padded (length v) \<le> 1456" "src = v @ r"
  shows "do {
     b \<leftarrow> yang_write_2bytes stun_local t;
     b \<leftarrow> yang_write_2bytes b (word_of_int (int (length v)));
     b \<leftarrow> yang_write_bytes b src (int (length v));
     b \<leftarrow> stun_pad b;
     stun_copy b
   } = Some (int (length (attr t v)), attr t v @ [0])"
proof -
  let ?b = stun_local
  let ?h = "be16 t @ be16 (word_of_nat (length v))"
  have lv: "length v \<le> 1456" using assms(1) padded_ge [of "length v"] by linarith
  have pad: "padded (4 + n) = 4 + padded n" for n unfolding padded_def by presburger
  have w1: "yang_write_2bytes ?b t = Some (put ?b (be16 t))" by (rule w16.wr_room) (simp add: fresh_room local_fresh)
  have w2: "yang_write_2bytes (put ?b (be16 t)) x = Some (put ?b (be16 t @ be16 x))" for x
    by (subst w16.wr_room) (simp_all add: fresh_put local_fresh)
  have r3: "room (put ?b ?h) (length v)" using lv by (simp add: fresh_put local_fresh)
  have w3: "yang_write_bytes (put ?b ?h) src (int (length v)) = Some (put ?b (?h @ v))"
    using write_bytes_put [of "put ?b ?h" "int (length v)" src] r3 assms(2) by (simp add: fresh_put local_fresh)
  have lh: "length (?h @ v) = 4 + length v" by simp
  have w4: "stun_pad (put ?b (?h @ v)) = Some (put ?b (attr t v))"
    using pad_put [OF local_fresh(1), of "?h @ v"] assms(1) unfolding lh pad local_fresh(2) attr_def by simp
  have "stun_copy (put ?b (attr t v)) = Some (int (length (attr t v)), attr t v @ [0])"
    using assms(1) by (intro copy_put) (simp_all add: local_fresh length_attr)
  then show ?thesis using w1 w2 w3 w4 by simp
qed

lemma encode_string_attr:
  assumes "0 \<notin> set s" "padded (length s) \<le> 1456"
  shows "stun_encode_string t (s @ 0 # r) = Some (int (length (attr t s)), attr t s @ [0])"
  using local_write_attr [OF assms(2) refl, of t "0 # r"] by (simp add: stun_encode_string_def c_strlen_append assms(1))

lemma encode_nonce_attr:
  assumes "unat len \<le> length nonce" "padded (unat len) \<le> 1456"
  shows "yang_stun_encode_nonce nonce len =
    Some (int (length (attr StunNonce (take (unat len) nonce))), attr StunNonce (take (unat len) nonce) @ [0])"
proof -
  let ?v = "take (unat len) nonce"
  have l: "length ?v = unat len" using assms(1) by simp
  have u: "uint len = int (length ?v)" using l by simp
  have w: "word_of_int (int (length ?v)) = len" using l by simp
  show ?thesis
    using local_write_attr [of ?v nonce "drop (unat len) nonce" StunNonce] assms(2) l unfolding yang_stun_encode_nonce_def u w by simp
qed

lemma hmac2_attr:
  assumes "length h = 20"
  shows "yang_stun_encode_hmac2 h 20 = Some (24, attr StunMessageIntegrity h @ [0])"
proof -
  have p: "padded 20 = 20" by (simp add: padded_def)
  have "stun_pad b = Some b" if "b = put stun_local (be16 StunMessageIntegrity @ be16 20 @ h)" for b
    using pad_put [OF local_fresh(1), of "be16 StunMessageIntegrity @ be16 20 @ h"] assms that by (simp add: local_fresh padded_def)
  moreover have "yang_write_2bytes stun_local t = Some (put stun_local (be16 t))" for t by (rule w16.wr_room) (simp add: fresh_room local_fresh)
  moreover have "yang_write_2bytes (put stun_local (be16 t)) x = Some (put stun_local (be16 t @ be16 x))" for t x
    by (subst w16.wr_room) (simp_all add: fresh_put local_fresh)
  moreover have "yang_write_bytes (put stun_local (be16 t @ be16 x)) h 20 = Some (put stun_local (be16 t @ be16 x @ h))" for t x
    using write_bytes_put [of "put stun_local (be16 t @ be16 x)" 20 h] assms by (simp add: fresh_put local_fresh)
  ultimately show ?thesis
    using local_write_attr [of h h "[]" StunMessageIntegrity] assms
    by (simp add: yang_stun_encode_hmac2_def p length_attr)
qed

lemma fingerprint2_attr: "yang_stun_encode_fingerprint2 c = Some (8, attr StunFingerprint (be32 c) @ [0])"
proof -
  have w: "yang_write_2bytes stun_local t = Some (put stun_local (be16 t))"
    "yang_write_2bytes (put stun_local (be16 t)) x = Some (put stun_local (be16 t @ be16 x))"
    "yang_write_4bytes (put stun_local (be16 t @ be16 x)) c = Some (put stun_local (be16 t @ be16 x @ be32 c))" for t x
    by (simp_all add: w16.wr_room w32.wr_room fresh_room fresh_put local_fresh)
  have "stun_copy (put stun_local (attr StunFingerprint (be32 c))) = Some (8, attr StunFingerprint (be32 c) @ [0])"
    by (subst copy_put) (simp_all add: local_fresh length_attr padded_def)
  then show ?thesis by (simp add: yang_stun_encode_fingerprint2_def w attr_def padded_def)
qed

definition xor_address :: "u32 \<Rightarrow> u16 \<Rightarrow> u8 list" where
  "xor_address address port = [0, 1] @ be16 (port XOR 0x2112) @ be32 (address XOR kStunMagicCookie)"

lemma cookie_high: "(ucast (drop_bit 16 (0x2112A442 :: u32)) :: u16) = 0x2112"
  by code_simp

lemma address_attr: "stun_encode_address t address port = Some (12, attr t (xor_address address port) @ [0])"
proof -
  have w: "yang_write_2bytes stun_local t = Some (put stun_local (be16 t))" for t
    by (simp add: w16.wr_room fresh_room local_fresh)
  have p: "length bs \<le> 100 \<Longrightarrow> yang_write_1bytes (put stun_local bs) x = Some (put stun_local (bs @ [x]))"
    "length bs \<le> 100 \<Longrightarrow> yang_write_2bytes (put stun_local bs) y = Some (put stun_local (bs @ be16 y))"
    "length bs \<le> 100 \<Longrightarrow> yang_write_4bytes (put stun_local bs) z = Some (put stun_local (bs @ be32 z))" for bs x y z
    by (simp_all add: w16.wr_room w32.wr_room write_1_put put_bytes_room fresh_put local_fresh)
  have "stun_copy (put stun_local (attr t (xor_address address port))) = Some (12, attr t (xor_address address port) @ [0])"
    by (subst copy_put) (simp_all add: local_fresh length_attr padded_def xor_address_def)
  then show ?thesis
    by (simp add: stun_encode_address_def w p cookie_high attr_def xor_address_def padded_def)
qed

section \<open>Signed messages\<close>

text \<open>
  A message signed with a key: what goes before, the integrity attribute over it, and the fingerprint over both. The length field
  counts up to the end of the integrity attribute while the HMAC is computed, and up to the end of the message in the result.
\<close>

definition integrity :: "'w stun_env \<Rightarrow> u8 list \<Rightarrow> u8 list \<Rightarrow> u8 list" where
  "integrity env key m = attr StunMessageIntegrity (snd (se_hmac env key (with_len m (int (length m + 24) - 20))))"

definition fingerprint :: "u8 list \<Rightarrow> u8 list" where
  "fingerprint m = attr StunFingerprint (be32 (crc32 m 0 XOR 0x5354554E))"

definition signed_message :: "'w stun_env \<Rightarrow> u8 list \<Rightarrow> u8 list \<Rightarrow> u8 list" where
  "signed_message env key m =
     (let p = with_len m (int (length m + 32) - 20) @ integrity env key m in p @ fingerprint p)"

definition hmac_works :: "'w stun_env \<Rightarrow> bool" where
  "hmac_works env \<longleftrightarrow> (\<forall>key m. fst (se_hmac env key m) = Yang_Ok \<and> length (snd (se_hmac env key m)) = 20)"

lemma length_integrity: "hmac_works env \<Longrightarrow> length (integrity env key m) = 24"
  by (simp add: integrity_def length_attr hmac_works_def padded_def)

lemma length_fingerprint: "length (fingerprint m) = 8"
  by (simp add: fingerprint_def length_attr padded_def)

lemma length_signed: "hmac_works env \<Longrightarrow> length (signed_message env key m) = length m + 32"
  by (simp add: signed_message_def Let_def length_integrity length_fingerprint)

lemma with_len_again:
  "length m \<ge> 4 \<Longrightarrow> with_len (with_len m a @ r) n = with_len m n @ r" "with_len (with_len m a) n = with_len m n"
  by (simp_all add: with_len_def list_update_append list_update_swap)

lemma stun_sign_put:
  assumes "fresh b" "hmac_works env" "c_str pwd = Some key" "20 \<le> length m" "length m + 32 \<le> length (buf_mem b)"
  shows "stun_sign env pwd (put b m) = Some (Yang_Ok, put b (signed_message env key m))"
proof -
  let ?m1 = "with_len m (int (length m + 24) - 20)"
  obtain h where h: "se_hmac env key ?m1 = (0, h)" "length h = 20"
    using assms(2) unfolding hmac_works_def by (metis prod.collapse)
  have I: "integrity env key m = attr StunMessageIntegrity h" unfolding integrity_def h by simp
  let ?i = "attr StunMessageIntegrity h"
  have li: "length ?i = 24" using length_integrity [OF assms(2), of key m] by (simp add: I)
  let ?m2 = "with_len m (int (length m + 32) - 20) @ ?i"
  let ?f = "attr StunFingerprint (be32 (crc32 ?m2 0 XOR 0x5354554E))"
  have lf: "length ?f = 8" using length_fingerprint [of ?m2] by (simp add: fingerprint_def)
  have m1: "stun_set_len (put b m) (int (length m) - 20 + 20 + 4) = Some (put b ?m1)"
    using set_len_put [OF assms(1), of m "int (length m) + 4"] assms(4,5) by (simp add: algebra_simps)
  have f0: "yang_buffer_pos (put b m) = int (length m)" using fresh_put [OF assms(1), of m] assms(5) by simp
  have l1: "length ?m1 \<le> length (buf_mem b)" using assms(5) by simp
  note f1 = fresh_put [OF assms(1) l1]
  have r1: "mem_read (buf_mem (put b ?m1)) (buf_data (put b ?m1)) (yang_buffer_pos (put b ?m1)) = Some ?m1"
    using f1 by simp
  have w1: "yang_write_bytes (put b ?m1) (?i @ [0]) 24 = Some (put b (?m1 @ ?i))"
    using write_bytes_put [of "put b ?m1" 24 "?i @ [0]"] assms(5) li f1(3) [of 24] f1(4) [of ?i] by simp
  have l2: "length (?m1 @ ?i) \<le> length (buf_mem b)" using assms(5) li by simp
  have p2: "yang_buffer_pos (put b (?m1 @ ?i)) = int (length m) + 24" using fresh_put(2) [OF assms(1) l2] li by simp
  have m2: "stun_set_len (put b (?m1 @ ?i)) (int (length m) + 24 - 20 + 8) = Some (put b ?m2)"
    using set_len_put [OF assms(1) l2] assms(4) by (simp add: with_len_again algebra_simps)
  have l3: "length ?m2 \<le> length (buf_mem b)" using assms(5) li by simp
  note f2 = fresh_put [OF assms(1) l3]
  have r2: "mem_read (buf_mem (put b ?m2)) (buf_data (put b ?m2)) (yang_buffer_pos (put b ?m2)) = Some ?m2"
    using f2 by simp
  have w2: "yang_write_bytes (put b ?m2) (?f @ [0]) 8 = Some (put b (?m2 @ ?f))"
    using write_bytes_put [of "put b ?m2" 8 "?f @ [0]"] assms(5) li lf f2(3) [of 8] f2(4) [of ?f] by simp
  have l4: "length (?m2 @ ?f) \<le> length (buf_mem b)" using assms(5) li lf by simp
  have p4: "yang_buffer_pos (put b (?m2 @ ?f)) = int (length m) + 32" using fresh_put(2) [OF assms(1) l4] li lf by simp
  have m4: "stun_set_len (put b (?m2 @ ?f)) (int (length m) + 32 - 20) = Some (put b (?m2 @ ?f))"
    using set_len_put [OF assms(1) l4, of "int (length m) + 32 - 20"] assms(4) with_len_again(1) [of m "int (length m + 32) - 20" "?i @ ?f"]
    by (simp add: add.commute)
  have hb: "mem_write (replicate 20 0) 0 h = Some h" using h(2) by (auto simp: mem_write_def)
  have S: "signed_message env key m = ?m2 @ ?f" by (simp add: signed_message_def Let_def I fingerprint_def)
  show ?thesis
    unfolding stun_sign_def f0 m1 S
    using r1 assms(3) h hb hmac2_attr [OF h(2)] w1 p2 m2 r2 fingerprint2_attr w2 p4 m4
    by (simp add: crc32_ieee_bits Let_def)
qed

section \<open>The binding response\<close>

definition response_head :: "YangStunPacket \<Rightarrow> u8 list \<Rightarrow> u8 list \<Rightarrow> u8 list" where
  "response_head pkt r l =
     be16 StunBindingSuccessResponse @ be16 (word_of_nat (4 + padded (length r + 1 + length l) + 12)) @ be32 kStunMagicCookie
       @ take 12 (st_transcation_id pkt) @ attr StunUsername (r @ [58] @ l)
       @ attr StunXorMappedAddress (xor_address (st_mapped_address pkt) (st_mapped_port pkt))"

lemma rtcusername_attr:
  assumes "c_str (st_remote_ufrag pkt) = Some r" "c_str (st_local_ufrag pkt) = Some l" "length r + length l < 100"
  shows "yang_stun_encode_rtcusername pkt =
    Some (int (length (attr StunUsername (r @ [58] @ l))), attr StunUsername (r @ [58] @ l) @ [0])"
proof -
  let ?u = "r @ [58] @ l"
  have z: "0 \<notin> set ?u" using c_str_spec [OF assms(1)] c_str_spec [OF assms(2)] by auto
  have w: "mem_write (replicate 128 0) 0 (r @ [58] @ l @ [0]) = Some (?u @ 0 # drop (length r + length l + 2) (replicate 128 0))"
    using assms(3) by (simp add: mem_write_def)
  have "padded (length ?u) \<le> 1456" using assms(3) by (simp add: padded_def)
  from encode_string_attr [OF z this] show ?thesis
    using w assms by (simp add: yang_stun_encode_rtcusername_def)
qed

lemma encode_response:
  assumes "c_str (st_remote_ufrag pkt) = Some r" "c_str (st_local_ufrag pkt) = Some l" "length r + length l < 100"
    and "12 \<le> length (st_transcation_id pkt)" "c_str pwd = Some key" "hmac_works env" "fresh b" "1024 \<le> length (buf_mem b)"
  shows "yang_stun_encode_binding_response env pkt pwd b = Some (Yang_Ok, put b (signed_message env key (response_head pkt r l)))"
proof -
  let ?u = "attr StunUsername (r @ [58] @ l)"
  let ?x = "attr StunXorMappedAddress (xor_address (st_mapped_address pkt) (st_mapped_port pkt))"
  let ?t = "take 12 (st_transcation_id pkt)"
  have lu: "length ?u = 4 + padded (length r + 1 + length l)" by (simp add: length_attr)
  have lub: "length ?u \<le> 108" using assms(3) unfolding lu padded_def by presburger
  have lx: "length ?x = 12" by (simp add: length_attr padded_def xor_address_def)
  have lt: "length ?t = 12" using assms(4) by simp
  have p: "length bs \<le> 900 \<Longrightarrow> yang_write_2bytes (put b bs) y = Some (put b (bs @ be16 y))"
    "length bs \<le> 900 \<Longrightarrow> yang_write_4bytes (put b bs) z = Some (put b (bs @ be32 z))" for bs y z
    using assms(8) by (simp_all add: w16.wr_room w32.wr_room fresh_put [OF assms(7)])
  have w1: "yang_write_2bytes b t = Some (put b (be16 t))" for t
    using assms(8) by (simp add: w16.wr_room fresh_room [OF assms(7)])
  have wb: "length bs \<le> 500 \<Longrightarrow> length (take (nat n) src) \<le> 200 \<Longrightarrow> 0 \<le> n \<Longrightarrow> n \<le> int (length src) \<Longrightarrow>
      yang_write_bytes (put b bs) src n = Some (put b (bs @ take (nat n) src))" for bs src n
    using write_bytes_put [of "put b bs" n src] assms(8) fresh_put [OF assms(7), of bs] by simp
  let ?h = "response_head pkt r l"
  have lh: "20 \<le> length ?h" "length ?h \<le> 200" using lt lx lub by (simp_all add: response_head_def)
  have n: "word_of_int (int (length ?u) + 12) = (word_of_nat (4 + padded (length r + 1 + length l) + 12) :: u16)"
    unfolding lu by simp
  have w: "do {
     b \<leftarrow> yang_write_2bytes b StunBindingSuccessResponse;
     b \<leftarrow> yang_write_2bytes b (word_of_int (int (length ?u) + 12));
     b \<leftarrow> yang_write_4bytes b kStunMagicCookie;
     b \<leftarrow> yang_write_bytes b (st_transcation_id pkt) 12;
     b \<leftarrow> yang_write_bytes b (?u @ [0]) (int (length ?u));
     yang_write_bytes b (?x @ [0]) 12
   } = Some (put b ?h)"
    using lub lt lx assms(4) unfolding n by (simp add: w1 p wb response_head_def)
  have "stun_sign env pwd (put b ?h) = Some (Yang_Ok, put b (signed_message env key ?h))"
    using lh assms(8) by (intro stun_sign_put assms) simp_all
  moreover have "yang_stun_encode_binding_response env pkt pwd b = do {
     b \<leftarrow> yang_write_2bytes b StunBindingSuccessResponse;
     b \<leftarrow> yang_write_2bytes b (word_of_int (int (length ?u) + 12));
     b \<leftarrow> yang_write_4bytes b kStunMagicCookie;
     b \<leftarrow> yang_write_bytes b (st_transcation_id pkt) 12;
     b \<leftarrow> yang_write_bytes b (?u @ [0]) (int (length ?u));
     yang_write_bytes b (?x @ [0]) 12
   } \<bind> stun_sign env pwd"
    using rtcusername_attr [OF assms(1-3)]
    by (simp add: yang_stun_encode_binding_response_def yang_stun_encode_mapped_address_ipv4_def address_attr)
  ultimately show ?thesis unfolding w by simp
qed

text \<open>What a receiver of the response finds in it.\<close>

lemma be_dec_be32: "be_dec (be32 v) = v"
  using w32.dec_enc [of v] by simp

lemma tlvs_signed:
  assumes "hmac_works env" "20 \<le> length m"
  shows "\<exists>h c. length h = 20 \<and> length c = 4 \<and> drop 20 (signed_message env key m) =
    drop 20 m @ attr StunMessageIntegrity h @ attr StunFingerprint c"
proof -
  have "length (snd (se_hmac env key m')) = 20" for m' using assms(1) by (simp add: hmac_works_def)
  moreover have "drop 20 (with_len m n) = drop 20 m" for n by (simp add: with_len_def)
  ultimately show ?thesis
    using assms(2) by (auto simp: signed_message_def Let_def integrity_def fingerprint_def intro!: exI)
qed

lemma get_be16_at: "yang_get_be16 (a @ be16 v @ r) (int (length a)) = Some v"
proof -
  have "ucast (word_byte v 0) OR push_bit 8 (ucast (word_byte v (Suc 0))) = v"
    by (rule bit_word_eqI) (auto simp: bit_simps less_diff_conv2)
  moreover have "nat (int (length a) + 1) = length a + 1" by simp
  ultimately show ?thesis by (simp add: yang_get_be16_def mem_load_def be16_def nth_append)
qed

lemma get_be32_behind: "yang_get_be32 (a @ be32 v @ r) (int (length a)) = Some v"
proof -
  have "(ucast (word_byte v 0) :: u32) OR push_bit 8 (ucast (word_byte v 1)) OR push_bit 16 (ucast (word_byte v 2))
      OR push_bit 24 (ucast (word_byte v 3)) = v"
  proof (rule bit_word_eqI)
    fix n assume "n < LENGTH(32)"
    then consider "n < 8" | "8 \<le> n" "n < 16" | "16 \<le> n" "n < 24" | "24 \<le> n" "n < 32" by fastforce
    then show "bit ((ucast (word_byte v 0) :: u32) OR push_bit 8 (ucast (word_byte v 1)) OR push_bit 16 (ucast (word_byte v 2))
      OR push_bit 24 (ucast (word_byte v 3))) n = bit v n" by cases (auto simp: bit_simps)
  qed
  moreover have "nat (int (length a) + 3) = length a + 3" "nat (int (length a) + 2) = length a + 2" "nat (int (length a) + 1) = length a + 1"
    by simp_all
  ultimately show ?thesis by (simp add: yang_get_be32_def mem_load_def be32_def nth_append)
qed

lemma xor_address_taken:
  "yang_get_be16 (xor_address address port @ r) 2 = Some (port XOR 0x2112)"
  "yang_get_be32 (xor_address address port @ r) 4 = Some (address XOR kStunMagicCookie)"
  using get_be16_at [of "[0, 1]" "port XOR 0x2112" "be32 (address XOR kStunMagicCookie) @ r"]
    get_be32_behind [of "[0, 1] @ be16 (port XOR 0x2112)" "address XOR kStunMagicCookie" r]
  by (simp_all add: xor_address_def)

lemma strtok_two:
  assumes "r \<noteq> []" "58 \<notin> set r"
  shows "c_strtok (r @ 58 # l) [58] = Some (r, l)" "c_strtok r [58] = Some (r, [])"
proof -
  have h: "hd r \<noteq> 58" using assms by (metis hd_in_set)
  have "dropWhile (\<lambda>c. c = 58) (r @ x) = r @ x" for x using assms(1) h by (cases r) auto
  moreover have "takeWhile (\<lambda>c. c \<noteq> 58) (r @ 58 # l) = r" "dropWhile (\<lambda>c. c \<noteq> 58) (r @ 58 # l) = 58 # l"
    "takeWhile (\<lambda>c. c \<noteq> 58) r = r" "dropWhile (\<lambda>c. c \<noteq> 58) r = []"
    using assms(2) by (induction r) auto
  moreover have "dropWhile (\<lambda>c. c = 58) r = r" using assms(1) h by (cases r) auto
  ultimately show "c_strtok (r @ 58 # l) [58] = Some (r, l)" "c_strtok r [58] = Some (r, [])"
    using assms(1) by (simp_all add: c_strtok_def del: dropWhile_eq_Nil_conv takeWhile_eq_all_conv)
qed

lemma uint_of_size: "n < 2 ^ 16 \<Longrightarrow> uint (word_of_nat n :: u16) = int n" "n < 2 ^ 16 \<Longrightarrow> unat (word_of_nat n :: u16) = n"
  by (simp_all add: unsigned_of_nat take_bit_nat_eq_self)

lemma mem_read_prefix: "mem_read (v @ x) 0 (int (length v)) = Some v"
  by (auto simp: mem_read_def)

lemma take_name:
  assumes "r \<noteq> []" "l \<noteq> []" "58 \<notin> set r" "58 \<notin> set l" "0 \<notin> set r" "0 \<notin> set l"
    and "length r < 16" "length r + length l < 32" "sized p"
  shows "\<exists>u. stun_take_username (word_of_nat (length (r @ 58 # l))) ((r @ 58 # l) @ [0]) p =
    Some (p\<lparr>st_username := u, st_local_ufrag := r @ 0 # drop (length r + 1) (st_local_ufrag p),
      st_remote_ufrag := l @ 0 # drop (length l + 1) (st_remote_ufrag p)\<rparr>)"
proof -
  let ?v = "r @ 58 # l"
  have u: "uint (word_of_nat (length ?v) :: u16) = int (length ?v)"
    by (rule uint_of_size) (use assms(8) in simp)
  have s: "c_str (?v @ [0]) = Some ?v" using c_str_append [of ?v "[]"] assms(5,6) by simp
  have m: "mem_read (?v @ [0]) 0 (int (length ?v)) = Some ?v" by (rule mem_read_prefix)
  have w: "mem_write (st_username p) 0 ?v = Some (?v @ drop (length ?v) (st_username p))"
    using assms(8,9) by (simp add: mem_write_def sized_def)
  have ll: "length l < 32" using assms(8) by simp
  have t: "c_strtok ?v [58] = Some (r, l)" "c_strtok l [58] = Some (l, [])"
    by (rule strtok_two(1) [OF assms(1,3)]) (rule strtok_two(2) [OF assms(2,4)])
  have "c_strcpy (st_local_ufrag p) (r @ [0]) = Some (r @ 0 # drop (length r + 1) (st_local_ufrag p))"
      "c_strcpy (st_remote_ufrag p) (l @ [0]) = Some (l @ 0 # drop (length l + 1) (st_remote_ufrag p))"
    using assms(5-7,9) ll by (simp_all add: c_strcpy_token sized_def)
  then show ?thesis
    unfolding stun_take_username_def u m s
    using t w by (simp add: Let_def) (rule exI, rule refl)
qed

text \<open>
  C23: the binding response that the library builds for a request is read back by its own decoder: the type, the transaction id, the
  mapped address and port, and the two name fragments, which the receiver sees in its own order.
\<close>
theorem stun_response_roundtrip:
  assumes "c_str (st_remote_ufrag pkt) = Some r" "c_str (st_local_ufrag pkt) = Some l" "r \<noteq> []" "l \<noteq> []" "58 \<notin> set r" "58 \<notin> set l"
    and "length r < 16" "length r + length l < 32" "length (st_transcation_id pkt) = 13" "c_str pwd = Some key" "hmac_works env"
  shows "\<exists>b n pkt'. yang_stun_encode_binding_response env pkt pwd (yang_init_buffer (replicate 1024 0) 0 1024) = Some (Yang_Ok, b)
    \<and> yang_buffer_pos b = int n \<and> yang_decode_rtcstun stun_packet0 (buf_mem b) (int n) = Some (Yang_Ok, pkt')
    \<and> st_message_type pkt' = StunBindingSuccessResponse \<and> take 12 (st_transcation_id pkt') = take 12 (st_transcation_id pkt)
    \<and> st_mapped_address pkt' = st_mapped_address pkt \<and> st_mapped_port pkt' = st_mapped_port pkt
    \<and> c_str (st_local_ufrag pkt') = Some r \<and> c_str (st_remote_ufrag pkt') = Some l"
proof -
  let ?b = "yang_init_buffer (replicate 1024 0) 0 1024"
  let ?m = "response_head pkt r l"
  let ?s = "signed_message env key ?m"
  let ?n = "length ?s"
  have b: "fresh ?b" "length (buf_mem ?b) = 1024" by (simp_all add: fresh_def yang_init_buffer_def)
  have enc: "yang_stun_encode_binding_response env pkt pwd ?b = Some (Yang_Ok, put ?b ?s)"
    using assms b by (intro encode_response) simp_all
  let ?u = "attr StunUsername (r @ [58] @ l)" and ?x = "attr StunXorMappedAddress (xor_address (st_mapped_address pkt) (st_mapped_port pkt))"
  have lm: "20 \<le> length ?m" "length ?m \<le> 200"
    using assms(7-9) by (simp_all add: response_head_def length_attr padded_def xor_address_def)
  have n: "?n = length ?m + 32" by (rule length_signed [OF assms(11)])
  have ln: "?n \<le> length (buf_mem ?b)" using n lm b(2) by simp
  note f = fresh_put [OF b(1) ln]
  have tk: "take ?n (buf_mem (put ?b ?s)) = ?s" by (simp add: f)
  have k: "take k (buf_mem (put ?b ?s)) = take k ?s" if "k \<le> ?n" for k using that by (simp add: f)
  have S: "?s = with_len ?m (int ?n - 20) @ integrity env key ?m @ fingerprint (with_len ?m (int ?n - 20) @ integrity env key ?m)"
    unfolding n by (simp add: signed_message_def Let_def)
  let ?tid = "take 12 (st_transcation_id pkt)"
  have m: "?m = be16 0x0101 @ be16 (word_of_nat (4 + padded (length r + 1 + length l) + 12)) @ be32 kStunMagicCookie @ ?tid @ ?u @ ?x"
    by (simp add: response_head_def)
  have w: "with_len ?m (int ?n - 20) = be16 0x0101 @ be16 (word_of_int (int ?n - 20)) @ be32 kStunMagicCookie @ ?tid @ ?u @ ?x"
    unfolding m with_len_def by (simp add: be16_def numeral_eq_Suc)
  have h: "take 2 (buf_mem (put ?b ?s)) = be16 0x0101" "take 2 (drop 2 (buf_mem (put ?b ?s))) = be16 (word_of_int (int ?n - 20))"
    "take 12 (drop 8 (buf_mem (put ?b ?s))) = ?tid"
    using assms(9) unfolding f(1) by (subst S, unfold w, simp)+
  have "int ?n - 20 = int (?n - 20)" using lm n by simp
  then have "unat (word_of_int (int ?n - 20) :: u16) = ?n - 20"
    using uint_of_size(2) [of "?n - 20"] lm n by simp
  then have sh: "sound_header (buf_mem (put ?b ?s)) ?n"
    unfolding sound_header_def h be_dec_be16 using ln lm n by (simp add: f(1))
  obtain hh c where hc: "length hh = 20" "length c = 4" "drop 20 ?s = drop 20 ?m @ attr StunMessageIntegrity hh @ attr StunFingerprint c"
    using tlvs_signed [OF assms(11) lm(1)] by blast
  have body: "body_of (buf_mem (put ?b ?s)) ?n = ?u @ ?x @ attr StunMessageIntegrity hh @ attr StunFingerprint c"
    unfolding body_of_def tk hc(3) using assms(9) by (simp add: m)
  let ?v = "r @ 58 # l" and ?a = "xor_address (st_mapped_address pkt) (st_mapped_port pkt)"
  have tl: "tlvs (body_of (buf_mem (put ?b ?s)) ?n) = ([(StunUsername, ?v), (StunXorMappedAddress, ?a), (StunMessageIntegrity, hh), (StunFingerprint, c)], True)"
    unfolding body using tlvs_attr [of c StunFingerprint "[]"] assms(8) hc(1,2)
    by (simp add: tlvs_attr xor_address_def)
  let ?p = "header_taken (buf_mem (put ?b ?s)) stun_packet0"
  have p: "sized ?p" "st_message_type ?p = 0x0101" "take 12 (st_transcation_id ?p) = ?tid"
    using assms(9) by (simp_all add: header_taken_def h be_dec_be16 sized_def stun_packet0_def)
  have z: "0 \<notin> set r" "0 \<notin> set l" using c_str_spec [OF assms(1)] c_str_spec [OF assms(2)] by auto
  obtain u where u: "stun_take_username (word_of_nat (length ?v)) (?v @ [0]) ?p =
      Some (?p\<lparr>st_username := u, st_local_ufrag := r @ 0 # drop (length r + 1) (st_local_ufrag ?p),
        st_remote_ufrag := l @ 0 # drop (length l + 1) (st_remote_ufrag ?p)\<rparr>)"
    using take_name [OF assms(3-6) z assms(7,8) p(1)] by blast
  let ?p' = "?p\<lparr>st_username := u, st_local_ufrag := r @ 0 # drop (length r + 1) (st_local_ufrag ?p),
        st_remote_ufrag := l @ 0 # drop (length l + 1) (st_remote_ufrag ?p),
        st_mapped_port := st_mapped_port pkt, st_mapped_address := st_mapped_address pkt\<rparr>"
  have "fold_attributes rtcstun_attribute (fst (tlvs (body_of (buf_mem (put ?b ?s)) ?n))) ?p = Some ?p'"
    unfolding tl using u xor_address_taken [of "st_mapped_address pkt" "st_mapped_port pkt" "[0]"]
    by (simp add: rtcstun_attribute_def cookie_high xor.assoc)
  moreover have "length (st_transcation_id stun_packet0) = 13" by (simp add: stun_packet0_def)
  ultimately have dec: "yang_decode_rtcstun stun_packet0 (buf_mem (put ?b ?s)) (int ?n) = Some (Yang_Ok, ?p')"
    using stun_decode_with_fold [of ?n "buf_mem (put ?b ?s)" stun_packet0 rtcstun_attribute] sh tl
    by (simp add: yang_decode_rtcstun_def sound_header_def)
  show ?thesis
    using enc f(2) dec p(2,3) z
    by (intro exI [of _ "put ?b ?s"] exI [of _ ?n] exI [of _ ?p']) (simp add: c_str_append)
qed

lemma len_field: "4 \<le> length m \<Longrightarrow> take 2 (drop 2 (with_len m n @ r)) = be16 (word_of_int n)"
  by (cases m rule: tlvs.cases) (simp_all add: with_len_def be16_def numeral_eq_Suc)

text \<open>A world with a constant digest, for the examples.\<close>

definition example_env :: "unit stun_env" where
  "example_env = \<lparr>se_random = (\<lambda>w. (0, w)), se_hmac = (\<lambda>key m. (Yang_Ok, replicate 20 7)), se_localInfo = (\<lambda>w. ([0], w)),
     se_send = (\<lambda>w bs. (Yang_Ok, w))\<rparr>"

definition example_packet :: YangStunPacket where
  "example_packet = stun_packet0\<lparr>st_local_ufrag := [98, 0], st_remote_ufrag := [97, 0], st_mapped_address := 0x0100007F, st_mapped_port := 9000\<rparr>"

lemma example_facts:
  "hmac_works example_env" "c_str (st_remote_ufrag example_packet) = Some [97]" "c_str (st_local_ufrag example_packet) = Some [98]"
  "length (st_transcation_id example_packet) = 13" "c_str [99, 0] = Some [99]"
  by (simp_all add: hmac_works_def example_env_def example_packet_def stun_packet0_def)

theorem stun_response_roundtrip_witness:
  "\<exists>b n pkt'. yang_stun_encode_binding_response example_env example_packet [99, 0] (yang_init_buffer (replicate 1024 0) 0 1024) = Some (Yang_Ok, b)
    \<and> yang_decode_rtcstun stun_packet0 (buf_mem b) (int n) = Some (Yang_Ok, pkt') \<and> st_mapped_address pkt' = 0x0100007F
    \<and> st_mapped_port pkt' = 9000"
  using stun_response_roundtrip [OF example_facts(2,3) _ _ _ _ _ _ example_facts(4,5,1)]
  by (fastforce simp: example_packet_def)

text \<open>
  C24: a binding response has the right length field, ends with the CRC-32 fingerprint of all before it, and carries before that the
  HMAC of the message whose length field counts up to the HMAC.
\<close>
theorem stun_response_signed:
  assumes "c_str (st_remote_ufrag pkt) = Some r" "c_str (st_local_ufrag pkt) = Some l" "length r + length l < 100"
    and "12 \<le> length (st_transcation_id pkt)" "c_str pwd = Some key" "hmac_works env"
  shows "\<exists>b n s. yang_stun_encode_binding_response env pkt pwd (yang_init_buffer (replicate 1024 0) 0 1024) = Some (Yang_Ok, b)
    \<and> yang_buffer_pos b = int n \<and> s = take n (buf_mem b) \<and> 52 \<le> n \<and> n < 1024
    \<and> take 2 (drop 2 s) = be16 (word_of_nat (n - 20))
    \<and> drop (n - 8) s = be16 StunFingerprint @ be16 4 @ be32 (crc32 (take (n - 8) s) 0 XOR 0x5354554E)
    \<and> take 24 (drop (n - 32) s) = be16 StunMessageIntegrity @ be16 20 @ snd (se_hmac env key (with_len (take (n - 32) s) (int n - 28)))"
proof -
  let ?b = "yang_init_buffer (replicate 1024 0) 0 1024"
  let ?m = "response_head pkt r l"
  let ?s = "signed_message env key ?m"
  let ?n = "length ?s"
  have b: "fresh ?b" "length (buf_mem ?b) = 1024" by (simp_all add: fresh_def yang_init_buffer_def)
  have enc: "yang_stun_encode_binding_response env pkt pwd ?b = Some (Yang_Ok, put ?b ?s)"
    using assms b by (intro encode_response) simp_all
  have lp: "padded (length r + 1 + length l) \<le> 104" using assms(3) unfolding padded_def by presburger
  have lm: "20 \<le> length ?m" "length ?m \<le> 200"
    using assms(4) lp by (simp_all add: response_head_def length_attr xor_address_def padded_def [of 8])
  have n: "?n = length ?m + 32" by (rule length_signed [OF assms(6)])
  have ln: "?n \<le> length (buf_mem ?b)" using n lm b(2) by simp
  note f = fresh_put [OF b(1) ln]
  let ?w = "with_len ?m (int ?n - 20)"
  let ?i = "integrity env key ?m"
  have li: "length ?i = 24" by (rule length_integrity [OF assms(6)])
  have S: "?s = ?w @ ?i @ fingerprint (?w @ ?i)"
    unfolding n by (simp add: signed_message_def Let_def)
  have lw: "length ?w = length ?m" by simp
  have h20: "length (snd (se_hmac env key x)) = 20" for x using assms(6) by (simp add: hmac_works_def)
  have I: "?i = be16 StunMessageIntegrity @ be16 20 @ snd (se_hmac env key (with_len ?w (int ?n - 28)))"
    using lm h20 unfolding integrity_def attr_def n by (subst with_len_again(2)) (simp_all add: padded_def)
  have F: "fingerprint (?w @ ?i) = be16 StunFingerprint @ be16 4 @ be32 (crc32 (?w @ ?i) 0 XOR 0x5354554E)"
    by (simp add: fingerprint_def attr_def padded_def)
  have nm: "?n - 8 = length (?w @ ?i)" "?n - 32 = length ?w" unfolding n using li by simp_all
  have d8: "drop (?n - 8) ?s = fingerprint (?w @ ?i)" "take (?n - 8) ?s = ?w @ ?i"
    unfolding nm(1) by (subst S, simp)+
  have d32: "take 24 (drop (?n - 32) ?s) = ?i" "take (?n - 32) ?s = ?w"
    unfolding nm(2) using li by (subst S, simp)+
  have d2: "take 2 (drop 2 ?s) = be16 (word_of_nat (?n - 20))"
  proof -
    have "int ?n - 20 = int (?n - 20)" using lm n by simp
    then have w: "word_of_int (int ?n - 20) = (word_of_nat (?n - 20) :: u16)" by (simp only: of_int_of_nat_eq)
    have "take 2 (drop 2 ?s) = be16 (word_of_int (int ?n - 20))"
      using lm(1) by (subst S) (rule len_field, simp)
    then show ?thesis unfolding w .
  qed
  have tk: "take ?n (buf_mem (put ?b ?s)) = ?s" by (simp add: f)
  show ?thesis
  proof (intro exI conjI)
    show "yang_stun_encode_binding_response env pkt pwd ?b = Some (Yang_Ok, put ?b ?s)" by (rule enc)
    show "yang_buffer_pos (put ?b ?s) = int ?n" by (rule f(2))
    show "?s = take ?n (buf_mem (put ?b ?s))" by (rule tk [symmetric])
    show "52 \<le> ?n" "?n < 1024" using lm n by simp_all
    show "take 2 (drop 2 ?s) = be16 (word_of_nat (?n - 20))" by (rule d2)
    show "drop (?n - 8) ?s = be16 StunFingerprint @ be16 4 @ be32 (crc32 (take (?n - 8) ?s) 0 XOR 0x5354554E)"
      unfolding d8 by (rule F)
    show "take 24 (drop (?n - 32) ?s) = be16 StunMessageIntegrity @ be16 20 @ snd (se_hmac env key (with_len (take (?n - 32) ?s) (int ?n - 28)))"
      unfolding d32 by (rule I)
  qed
qed

theorem stun_response_signed_witness:
  "\<exists>b n. yang_stun_encode_binding_response example_env example_packet [99, 0] (yang_init_buffer (replicate 1024 0) 0 1024) = Some (Yang_Ok, b)
    \<and> yang_buffer_pos b = int n
    \<and> drop (n - 8) (take n (buf_mem b)) = be16 StunFingerprint @ be16 4 @ be32 (crc32 (take (n - 8) (take n (buf_mem b))) 0 XOR 0x5354554E)"
  using stun_response_signed [OF example_facts(2,3) _ _ example_facts(5,1)] by (auto simp: example_facts)

end
