(* ===== verification/Turn.thy ===== *)
theory Turn
  imports Stun_Wire Vector
begin

text \<open>
  The TURN client of \<open>yangice/YangTurnConnection.c\<close> with the parts of the UDP session (\<open>yangrtc/YangRtcUdp.c\<close>) it sends through.

  One session runs three threads: its own loop, which sends the next request for the state it is in (\<open>turn_pass\<close>), the thread of the
  socket, which hands in packets (\<open>yang_turnconn_receive\<close>), and the application, which adds and removes peers and sends data. Each of
  these is a function on the session record and the state \<open>'w\<close> of the outside world. Peers are heap objects that only the peer vector
  points to; the vector holds them, a null pointer is \<open>None\<close>. Locking \<open>turnLock\<close> when it is held is the value \<open>None\<close> (the thread waits
  for ever). Fields that nothing reads (\<open>isSending\<close>, \<open>lifetime\<close> and \<open>xorAddress\<close> of a peer) are left out.
\<close>

abbreviation (input) ERROR_RTC_TURN :: errcode where "ERROR_RTC_TURN \<equiv> 4100"
abbreviation (input) ERROR_RTC_UDP :: errcode where "ERROR_RTC_UDP \<equiv> 5010"

section \<open>State (YangTurnConnection.h)\<close>

datatype YangTurnState =
  YangTurnNew | YangTurnCredential | YangTurnAllocate | YangTurnPermission | YangTurnBindChannel | YangTurnReady | YangTurnClose

datatype YangTurnErrorCode =
  YangTurnNoneError | YangTurnAllocateError | YangTurnPermissionError | YangTurnBindChannelError | YangTurnRefreshError | YangTurnKwnownError

text \<open>The code compares states by their numbers.\<close>

primrec turn_rank :: "YangTurnState \<Rightarrow> nat" where
  "turn_rank YangTurnNew = 0"
| "turn_rank YangTurnCredential = 1"
| "turn_rank YangTurnAllocate = 2"
| "turn_rank YangTurnPermission = 3"
| "turn_rank YangTurnBindChannel = 4"
| "turn_rank YangTurnReady = 5"
| "turn_rank YangTurnClose = 6"

instantiation YangTurnState :: linorder
begin

definition less_eq_YangTurnState :: "YangTurnState \<Rightarrow> YangTurnState \<Rightarrow> bool" where
  "less_eq_YangTurnState s t \<longleftrightarrow> turn_rank s \<le> turn_rank t"

definition less_YangTurnState :: "YangTurnState \<Rightarrow> YangTurnState \<Rightarrow> bool" where
  "less_YangTurnState s t \<longleftrightarrow> turn_rank s < turn_rank t"

instance
proof
  fix s t :: YangTurnState
  show "s \<le> t \<Longrightarrow> t \<le> s \<Longrightarrow> s = t" by (cases s; cases t; simp add: less_eq_YangTurnState_def)
qed (auto simp: less_eq_YangTurnState_def less_YangTurnState_def)

end

record YangTurnResponseData =
  tr_errorCode :: u16
  tr_mappedPort :: u16
  tr_mappedAddress :: u32
  tr_lifetime :: int
  tr_nonceLen :: u32
  tr_nonce :: "u8 list"

definition turn_response0 :: YangTurnResponseData where
  "turn_response0 = \<lparr>tr_errorCode = 0, tr_mappedPort = 0, tr_mappedAddress = 0, tr_lifetime = 0, tr_nonceLen = 0, tr_nonce = replicate 128 0\<rparr>"

record YangTurnPeer =
  tp_channelNumber :: u16
  tp_uid :: int
  tp_lifetimeOuttime :: u32
  tp_state :: YangTurnState
  tp_receiveUser :: nat
  tp_mapAddress :: u32
  tp_port :: u16

text \<open>The server of the application, and the UDP session.\<close>

record YangIceServer =
  sv_serverIp :: "u8 list"
  sv_serverPort :: int
  sv_stunIp :: u32
  sv_stunPort :: int
  sv_relayIp :: u32
  sv_relayPort :: int
  sv_username :: "u8 list"
  sv_password :: "u8 list"

record YangUdpSession =
  us_localPort :: int
  us_remotePort :: int
  us_isStart :: bool
  us_isLoop :: bool
  us_notRemoteInit :: bool
  us_turnBuffer :: "u8 list option"
  us_remote_addr :: u32
  us_remote_sin_port :: u16
  us_local_sin_port :: u16

record YangTurnSession =
  ts_channelNum :: u16
  ts_relayPort :: u16
  ts_nonceLen :: u16
  ts_permissionCount :: u16
  ts_relayIp :: u32
  ts_isStart :: bool
  ts_isLoop :: bool
  ts_waitTime :: int
  ts_lifetime :: int
  ts_allocateOuttime :: u32
  ts_state :: YangTurnState
  ts_errorCode :: YangTurnErrorCode
  ts_turnLock :: bool
  ts_response :: YangTurnResponseData
  ts_server :: YangIceServer
  ts_udp :: YangUdpSession
  ts_icePwd :: "u8 list"
  ts_realm :: "u8 list"
  ts_nonce :: "u8 list"
  ts_peers :: "YangTurnPeer option yang_vector"

text \<open>
  Beyond what STUN needs: MD5, the clock in microseconds, \<open>inet_addr\<close>, \<open>yang_getIp\<close>, the callback of a peer (with the memory from the
  data on and the length it is told), and \<open>sendto\<close>.
\<close>

record 'w turn_env = "'w stun_env" +
  te_md5 :: "u8 list \<Rightarrow> u8 list"
  te_time :: "'w \<Rightarrow> int \<times> 'w"
  te_inet_addr :: "u8 list \<Rightarrow> u32"
  te_getIp :: "'w \<Rightarrow> u8 list \<Rightarrow> u8 list \<times> 'w"
  te_receive :: "'w \<Rightarrow> nat \<Rightarrow> u8 list \<Rightarrow> int \<Rightarrow> 'w"
  te_sendto :: "'w \<Rightarrow> u8 list \<Rightarrow> int \<times> 'w"

section \<open>The socket (YangRtcUdp.c)\<close>

definition yang_rtc_sendData :: "'w turn_env \<Rightarrow> YangUdpSession \<Rightarrow> u8 list \<Rightarrow> int \<Rightarrow> 'w \<Rightarrow> (errcode \<times> 'w) option" where
  "yang_rtc_sendData env udp data nb w =
     (if \<not> us_isStart udp \<or> us_notRemoteInit udp then Some (ERROR_RTC_UDP, w)
      else do {
        bs \<leftarrow> mem_read data 0 nb;
        let (n, w) = te_sendto env w bs;
        Some (if 0 < n then Yang_Ok else 1, w)
      })"

text \<open>\<open>be32toh\<close> on a little-endian host\<close>

definition be32toh :: "u32 \<Rightarrow> u32" where
  "be32toh v = be_dec (map (word_byte v) [0..<4])"

definition yang_rtcudp_update_remoteAddr :: "'w turn_env \<Rightarrow> YangUdpSession \<Rightarrow> u8 list \<Rightarrow> int \<Rightarrow> YangUdpSession" where
  "yang_rtcudp_update_remoteAddr env udp remoteIp port =
     udp\<lparr>us_remotePort := port, us_remote_sin_port := htons (word_of_int port), us_remote_addr := te_inet_addr env remoteIp,
         us_notRemoteInit := (port = 0)\<rparr>"

definition yang_rtcudp_update_remoteAddr2 :: "YangUdpSession \<Rightarrow> u32 \<Rightarrow> int \<Rightarrow> YangUdpSession" where
  "yang_rtcudp_update_remoteAddr2 udp remoteIp port =
     udp\<lparr>us_remotePort := port, us_remote_sin_port := htons (word_of_int port), us_remote_addr := remoteIp,
         us_notRemoteInit := (port = 0)\<rparr>"

text \<open>A packet from an address: the first one fixes the remote address when none was set.\<close>

definition udp_receive_from :: "YangUdpSession \<Rightarrow> u32 \<Rightarrow> u16 \<Rightarrow> YangUdpSession" where
  "udp_receive_from udp s_addr sin_port =
     (if us_notRemoteInit udp
      then udp\<lparr>us_remotePort := uint (htons sin_port), us_remote_sin_port := sin_port, us_remote_addr := s_addr, us_notRemoteInit := False\<rparr>
      else udp)"

definition yang_create_rtcudp :: "YangUdpSession \<Rightarrow> int \<Rightarrow> YangUdpSession" where
  "yang_create_rtcudp udp plocalPort =
     udp\<lparr>us_localPort := plocalPort, us_local_sin_port := htons (word_of_int plocalPort), us_notRemoteInit := True\<rparr>"

section \<open>Requests\<close>

text \<open>\<open>snprintf(keystr, 128, "%s:%s:%s", username, realm, password)\<close>: at most 127 characters.\<close>

definition turn_keystr :: "YangTurnSession \<Rightarrow> u8 list option" where
  "turn_keystr ts = do {
     u \<leftarrow> c_str (sv_username (ts_server ts));
     r \<leftarrow> c_str (ts_realm ts);
     p \<leftarrow> c_str (sv_password (ts_server ts));
     Some (take 127 (u @ [58] @ r @ [58] @ p))
   }"

text \<open>The digest is binary, but it is used as a string: the key ends at its first zero byte.\<close>

definition yang_turn_addFingerprint :: "'w turn_env \<Rightarrow> YangTurnSession \<Rightarrow> yang_buffer \<Rightarrow> bool \<Rightarrow> yang_buffer option" where
  "yang_turn_addFingerprint env ts b addFingerprint = do {
     b \<leftarrow> stun_set_len b (yang_buffer_pos b - 20 + 24);
     keystr \<leftarrow> turn_keystr ts;
     key \<leftarrow> mem_write (replicate 128 0) 0 (te_md5 env keystr);
     (ret, hmac) \<leftarrow> yang_stun_encode_hmac (stun_env.truncate env) b key;
     hmac \<leftarrow> hmac;
     b \<leftarrow> yang_write_bytes b hmac ret;
     if addFingerprint then do {
       b \<leftarrow> stun_set_len b (yang_buffer_pos b - 20 + 8);
       (ret, fingerprint) \<leftarrow> yang_stun_encode_fingerprint b;
       yang_write_bytes b fingerprint ret
     } else Some b
   }"

text \<open>What every request starts and ends with.\<close>

definition turn_request :: "'w turn_env \<Rightarrow> u16 \<Rightarrow> 'w \<Rightarrow> (yang_buffer \<times> 'w) option" where
  "turn_request env type w = do {
     let b = yang_init_buffer (replicate 1024 0) 0 1024;
     (_, _, b, w) \<leftarrow> yang_turn_encode_header (stun_env.truncate env) (stun_packet0\<lparr>st_message_type := type\<rparr>) b 0 w;
     Some (b, w)
   }"

definition turn_write :: "yang_buffer \<Rightarrow> (int \<times> u8 list) option \<Rightarrow> yang_buffer option" where
  "turn_write b a = do {
     (ret, str) \<leftarrow> a;
     yang_write_bytes b str ret
   }"

definition turn_credentials :: "'w turn_env \<Rightarrow> YangTurnSession \<Rightarrow> yang_buffer \<Rightarrow> yang_buffer option" where
  "turn_credentials env ts b = do {
     b \<leftarrow> turn_write b (yang_stun_encode_username (sv_username (ts_server ts)));
     b \<leftarrow> turn_write b (yang_stun_encode_realm (ts_realm ts));
     b \<leftarrow> turn_write b (yang_stun_encode_nonce (ts_nonce ts) (ts_nonceLen ts));
     yang_turn_addFingerprint env ts b False
   }"

definition turn_send :: "'w turn_env \<Rightarrow> YangTurnSession \<Rightarrow> yang_buffer \<Rightarrow> 'w \<Rightarrow> (errcode \<times> YangTurnSession \<times> 'w) option" where
  "turn_send env ts b w = do {
     b \<leftarrow> stun_set_len b (yang_buffer_pos b - 20);
     (err, w) \<leftarrow> yang_rtc_sendData env (ts_udp ts) (buf_mem b) (yang_buffer_pos b) w;
     Some (err, ts, w)
   }"

definition yang_turn_encode_allocate :: "'w turn_env \<Rightarrow> YangTurnSession \<Rightarrow> u8 \<Rightarrow> bool \<Rightarrow> 'w \<Rightarrow> (errcode \<times> YangTurnSession \<times> 'w) option" where
  "yang_turn_encode_allocate env ts protocol beforCredential w = do {
     let ts = ts\<lparr>ts_response := turn_response0\<rparr>;
     (b, w) \<leftarrow> turn_request env 0x0003 w;
     b \<leftarrow> turn_write b (yang_stun_encode_transport protocol);
     b \<leftarrow> (if \<not> beforCredential then turn_credentials env ts b else Some b);
     turn_send env ts b w
   }"

definition yang_turn_encode_refresh :: "'w turn_env \<Rightarrow> YangTurnSession \<Rightarrow> bool \<Rightarrow> 'w \<Rightarrow> (errcode \<times> YangTurnSession \<times> 'w) option" where
  "yang_turn_encode_refresh env ts isClose w = do {
     let ts = ts\<lparr>ts_response := turn_response0\<rparr>;
     (b, w) \<leftarrow> turn_request env 0x0004 w;
     b \<leftarrow> (if isClose then turn_write b (yang_stun_encode_lifetime 0) else Some b);
     b \<leftarrow> turn_credentials env ts b;
     turn_send env ts b w
   }"

definition yang_turn_encode_permission :: "'w turn_env \<Rightarrow> YangTurnSession \<Rightarrow> YangTurnPeer \<Rightarrow> 'w \<Rightarrow> (errcode \<times> YangTurnSession \<times> 'w) option" where
  "yang_turn_encode_permission env ts peer w = do {
     let ts = ts\<lparr>ts_response := turn_response0\<rparr>;
     (b, w) \<leftarrow> turn_request env 0x0008 w;
     b \<leftarrow> turn_write b (yang_stun_encode_peer_address_ipv4 (tp_mapAddress peer) (tp_port peer));
     b \<leftarrow> turn_credentials env ts b;
     turn_send env ts b w
   }"

definition yang_turn_encode_bindChannel :: "'w turn_env \<Rightarrow> YangTurnSession \<Rightarrow> YangTurnPeer \<Rightarrow> 'w \<Rightarrow> (errcode \<times> YangTurnSession \<times> 'w) option" where
  "yang_turn_encode_bindChannel env ts peer w = do {
     let ts = ts\<lparr>ts_response := turn_response0\<rparr>;
     (b, w) \<leftarrow> turn_request env 0x0009 w;
     b \<leftarrow> turn_write b (yang_stun_encode_channelNumber (tp_channelNumber peer));
     b \<leftarrow> turn_write b (yang_stun_encode_peer_address_ipv4 (tp_mapAddress peer) (tp_port peer));
     b \<leftarrow> turn_credentials env ts b;
     turn_send env ts b w
   }"

definition yang_turn_encode_sendIndication ::
    "'w turn_env \<Rightarrow> YangTurnSession \<Rightarrow> YangTurnPeer \<Rightarrow> u8 list \<Rightarrow> 'w \<Rightarrow> (errcode \<times> YangTurnSession \<times> 'w) option" where
  "yang_turn_encode_sendIndication env ts peer data w = do {
     let ts = ts\<lparr>ts_response := turn_response0\<rparr>;
     (b, w) \<leftarrow> turn_request env 0x0016 w;
     b \<leftarrow> turn_write b (yang_stun_encode_peer_address_ipv4 (tp_mapAddress peer) (tp_port peer));
     b \<leftarrow> turn_write b (yang_stun_encode_data data);
     turn_send env ts b w
   }"

definition yang_turn_encode_request :: "'w turn_env \<Rightarrow> YangTurnSession \<Rightarrow> 'w \<Rightarrow> (errcode \<times> YangTurnSession \<times> 'w) option" where
  "yang_turn_encode_request env ts w = do {
     let b = yang_init_buffer (replicate 1024 0) 0 1024;
     (_, b, w) \<leftarrow> yang_stun_encode_request (stun_env.truncate env) b (us_local_sin_port (ts_udp ts)) (sv_password (ts_server ts)) w;
     (err, w) \<leftarrow> yang_rtc_sendData env (ts_udp ts) (buf_mem b) (yang_buffer_pos b) w;
     Some (err, ts, w)
   }"

section \<open>Packets from the server\<close>

definition turn_attribute :: "u16 \<Rightarrow> u16 \<Rightarrow> u8 list \<Rightarrow> YangTurnSession \<Rightarrow> YangTurnSession option" where
  "turn_attribute type len val ts =
     (let r = ts_response ts
      in if type = 0x0009 then do {
           stunClass \<leftarrow> mem_load val 2;
           stunCode \<leftarrow> mem_load val 3;
           Some (ts\<lparr>ts_response := r\<lparr>tr_errorCode := word_of_int (100 * uint stunClass + uint stunCode)\<rparr>\<rparr>)
         }
         else if type = 0x0016 then do {
           port \<leftarrow> yang_get_be16 val 2;
           address \<leftarrow> yang_get_be32 val 4;
           Some (ts\<lparr>ts_response := r\<lparr>tr_mappedPort := port XOR ucast (drop_bit 16 kStunMagicCookie),
             tr_mappedAddress := address XOR kStunMagicCookie\<rparr>\<rparr>)
         }
         else if type = StunLifetime then do {
           v \<leftarrow> yang_get_be32 val 0;
           Some (ts\<lparr>ts_response := r\<lparr>tr_lifetime := sint v\<rparr>\<rparr>)
         }
         else if type = StunRealm then do {
           n \<leftarrow> c_strlen (ts_realm ts);
           if n \<noteq> 0 then Some ts
           else do {
             bs \<leftarrow> mem_read val 0 (uint len);
             realm \<leftarrow> mem_write (replicate 129 0) 0 bs;
             Some (ts\<lparr>ts_realm := realm\<rparr>)
           }
         }
         else if type = StunNonce then
           if ts_nonceLen ts \<noteq> 0 then Some ts
           else do {
             bs \<leftarrow> mem_read val 0 (uint len);
             nonce \<leftarrow> mem_write (replicate 128 0) 0 bs;
             Some (ts\<lparr>ts_response := r\<lparr>tr_nonce := nonce, tr_nonceLen := ucast len\<rparr>\<rparr>)
           }
         else Some ts)"

definition yang_turn_decode :: "YangTurnSession \<Rightarrow> u8 list \<Rightarrow> int \<Rightarrow> (errcode \<times> YangTurnSession) option" where
  "yang_turn_decode ts buf nb_buf = do {
     let b = yang_init_buffer buf 0 nb_buf;
     if yang_buffer_left b < 20 then Some (ERROR_RTC_STUN, ts)
     else do {
       let b = yang_buffer_skip b 2;
       (message_len, b) \<leftarrow> yang_read_2bytes b;
       (magic_cookie, b) \<leftarrow> yang_read_bytes b 4;
       let b = yang_buffer_skip b 12;
       if \<not> stun_check_len nb_buf message_len then Some (ERROR_RTC_STUN, ts)
       else decode_loop turn_attribute b ts
     }
   }"

definition yang_turnconn_updateNonce :: "YangTurnSession \<Rightarrow> YangTurnSession option" where
  "yang_turnconn_updateNonce ts =
     (let r = ts_response ts
      in if 0 < tr_nonceLen r then do {
           bs \<leftarrow> mem_read (tr_nonce r) 0 (uint (tr_nonceLen r));
           nonce \<leftarrow> mem_write (replicate 128 0) 0 bs;
           Some (ts\<lparr>ts_nonceLen := ucast (tr_nonceLen r), ts_nonce := nonce\<rparr>)
         }
         else Some ts)"

definition yang_turnconn_handleError :: "YangTurnSession \<Rightarrow> u8 list \<Rightarrow> (errcode \<times> YangTurnSession) option" where
  "yang_turnconn_handleError ts data = do {
     stuntype \<leftarrow> yang_get_be16 data 0;
     let ts =
       (if stuntype = 0x0113 then
          (if ts_state ts < YangTurnAllocate then ts\<lparr>ts_state := YangTurnAllocate\<rparr> else ts)
        else if stuntype = 0x0114 then ts\<lparr>ts_errorCode := YangTurnRefreshError\<rparr>
        else if stuntype = 0x0118 then ts\<lparr>ts_errorCode := YangTurnPermissionError\<rparr>
        else if stuntype = 0x0119 then ts\<lparr>ts_errorCode := YangTurnBindChannelError\<rparr>
        else ts\<lparr>ts_errorCode := YangTurnKwnownError\<rparr>);
     let code = tr_errorCode (ts_response ts);
     ts \<leftarrow> (if code = 401 \<or> code = 438 then yang_turnconn_updateNonce ts else Some ts);
     Some (Yang_Ok, ts)
   }"

text \<open>Seconds of the clock.\<close>

definition turn_seconds :: "'w turn_env \<Rightarrow> 'w \<Rightarrow> int \<times> 'w" where
  "turn_seconds env w = (let (t, w) = te_time env w in (t div 1000000, w))"

text \<open>The loop that takes every peer in one state to the next one and gives it a new expiry.\<close>

primrec advance_peers ::
    "'w turn_env \<Rightarrow> YangTurnState \<Rightarrow> YangTurnState \<Rightarrow> nat \<Rightarrow> int \<Rightarrow> YangTurnPeer option list \<Rightarrow> 'w \<Rightarrow> (YangTurnPeer option list \<times> 'w) option" where
  "advance_peers env from to 0 i ps w = Some (ps, w)"
| "advance_peers env from to (Suc k) i ps w = do {
     p \<leftarrow> mem_load ps i;
     peer \<leftarrow> p;
     if tp_state peer = from then do {
       let (t, w) = turn_seconds env w;
       ps \<leftarrow> mem_store ps i (Some (peer\<lparr>tp_state := to, tp_lifetimeOuttime := word_of_int (t + 300)\<rparr>));
       advance_peers env from to k (i + 1) ps w
     }
     else advance_peers env from to k (i + 1) ps w
   }"

definition advance_all :: "'w turn_env \<Rightarrow> YangTurnState \<Rightarrow> YangTurnState \<Rightarrow> YangTurnSession \<Rightarrow> 'w \<Rightarrow> (YangTurnSession \<times> 'w) option" where
  "advance_all env from to ts w = do {
     let v = ts_peers ts;
     (ps, w) \<leftarrow> advance_peers env from to (nat (vsize v)) 0 (payload v) w;
     Some (ts\<lparr>ts_peers := v\<lparr>payload := ps\<rparr>\<rparr>, w)
   }"

definition turn_allocated :: "'w turn_env \<Rightarrow> YangTurnSession \<Rightarrow> 'w \<Rightarrow> YangTurnSession \<times> 'w" where
  "turn_allocated env ts w =
     (let r = ts_response ts;
          server = (ts_server ts)\<lparr>sv_relayIp := be32toh (tr_mappedAddress r), sv_relayPort := uint (tr_mappedPort r)\<rparr>;
          ts = ts\<lparr>ts_server := server\<rparr>;
          ts = (if ts_relayIp ts = 0 then ts\<lparr>ts_relayIp := sv_relayIp server\<rparr> else ts);
          ts = (if ts_relayPort ts = 0 then ts\<lparr>ts_relayPort := tr_mappedPort r\<rparr> else ts);
          ts = (if 0 < tr_lifetime r then ts\<lparr>ts_lifetime := tr_lifetime r\<rparr> else ts);
          (t, w) = turn_seconds env w
      in (ts\<lparr>ts_allocateOuttime := word_of_int (t + ts_lifetime ts), ts_state := YangTurnPermission\<rparr>, w))"

definition yang_turnconn_handleRecv :: "'w turn_env \<Rightarrow> YangTurnSession \<Rightarrow> u8 list \<Rightarrow> 'w \<Rightarrow> (errcode \<times> YangTurnSession \<times> 'w) option" where
  "yang_turnconn_handleRecv env ts data w = do {
     stuntype \<leftarrow> yang_get_be16 data 0;
     if stuntype = StunBindingSuccessResponse then
       Some (Yang_Ok, if ts_state ts = YangTurnNew then ts\<lparr>ts_state := YangTurnCredential\<rparr> else ts, w)
     else if stuntype = 0x0103 then
       if ts_state ts = YangTurnCredential then Some (Yang_Ok, ts\<lparr>ts_state := YangTurnAllocate\<rparr>, w)
       else Some (Yang_Ok, turn_allocated env ts w)
     else if stuntype = 0x0104 then do {
       let (t, w) = turn_seconds env w;
       Some (Yang_Ok, ts\<lparr>ts_allocateOuttime := word_of_int (t + ts_lifetime ts)\<rparr>, w)
     }
     else if stuntype = 0x0108 then do {
       (ts, w) \<leftarrow> advance_all env YangTurnPermission YangTurnBindChannel ts w;
       let ts = ts\<lparr>ts_permissionCount := ts_permissionCount ts + 1\<rparr>;
       Some (Yang_Ok, if ts_state ts < YangTurnBindChannel then ts\<lparr>ts_state := YangTurnBindChannel\<rparr> else ts, w)
     }
     else if stuntype = 0x0109 then do {
       (ts, w) \<leftarrow> advance_all env YangTurnBindChannel YangTurnReady ts w;
       let ts = (if ts_state ts < YangTurnReady then ts\<lparr>ts_state := YangTurnReady\<rparr> else ts);
       Some (Yang_Ok, ts\<lparr>ts_waitTime := 1000\<rparr>, w)
     }
     else Some (Yang_Ok, ts, w)
   }"

text \<open>The ready peer with a channel number; null pointers are skipped.\<close>

primrec find_channel :: "nat \<Rightarrow> int \<Rightarrow> YangTurnPeer option list \<Rightarrow> u16 \<Rightarrow> YangTurnPeer option option" where
  "find_channel 0 i ps channelNum = Some None"
| "find_channel (Suc k) i ps channelNum = do {
     p \<leftarrow> mem_load ps i;
     case p of
       Some peer \<Rightarrow> (if tp_state peer = YangTurnReady \<and> tp_channelNumber peer = channelNum then Some (Some peer)
                     else find_channel k (i + 1) ps channelNum)
     | None \<Rightarrow> find_channel k (i + 1) ps channelNum
   }"

definition turn_error_type :: "u16 \<Rightarrow> bool" where
  "turn_error_type stuntype \<longleftrightarrow> 0x0111 \<le> stuntype \<and> stuntype \<le> 0x0114 \<or> stuntype = 0x0118 \<or> stuntype = 0x0119"

definition yang_turnconn_receive :: "'w turn_env \<Rightarrow> YangTurnSession \<Rightarrow> u8 list \<Rightarrow> int \<Rightarrow> 'w \<Rightarrow> (errcode \<times> YangTurnSession \<times> 'w) option" where
  "yang_turnconn_receive env ts data nb w = do {
     cookie \<leftarrow> yang_get_be32 data 4;
     if cookie = kStunMagicCookie then do {
       let ts = ts\<lparr>ts_response := turn_response0\<rparr>;
       (_, ts) \<leftarrow> yang_turn_decode ts data nb;
       stuntype \<leftarrow> yang_get_be16 data 0;
       if turn_error_type stuntype then do {
         (err, ts) \<leftarrow> yang_turnconn_handleError ts data;
         Some (err, ts, w)
       }
       else yang_turnconn_handleRecv env ts data w
     }
     else do {
       channelNum \<leftarrow> yang_get_be16 data 0;
       len \<leftarrow> yang_get_be16 data 2;
       found \<leftarrow> find_channel (nat (vsize (ts_peers ts))) 0 (payload (ts_peers ts)) channelNum;
       Some (Yang_Ok, ts, case found of Some peer \<Rightarrow> te_receive env w (tp_receiveUser peer) (drop 4 data) (uint len) | None \<Rightarrow> w)
     }
   }"

text \<open>The callback of the socket\<close>

definition g_yang_turn_receive_data :: "'w turn_env \<Rightarrow> YangTurnSession option \<Rightarrow> u8 list \<Rightarrow> int \<Rightarrow> 'w \<Rightarrow> (YangTurnSession option \<times> 'w) option" where
  "g_yang_turn_receive_data env user data size' w = (case user of
     None \<Rightarrow> Some (None, w)
   | Some ts \<Rightarrow> do {
       (_, ts, w) \<leftarrow> yang_turnconn_receive env ts data size' w;
       Some (Some ts, w)
     })"

section \<open>Sending\<close>

text \<open>The frame of channel data in the socket's own buffer of 1500 bytes.\<close>

definition turn_frame :: "u8 list option \<Rightarrow> u8 list \<Rightarrow> int \<Rightarrow> u8 list option" where
  "turn_frame turnBuffer data nb = do {
     m \<leftarrow> turnBuffer;
     bs \<leftarrow> mem_read data 0 nb;
     m \<leftarrow> mem_write m 4 bs;
     (m, _) \<leftarrow> yang_put_be16 m 2 (word_of_int nb);
     Some m
   }"

definition yang_rtc_turn_sendData :: "'w turn_env \<Rightarrow> YangUdpSession \<Rightarrow> u8 list \<Rightarrow> int \<Rightarrow> 'w \<Rightarrow> (errcode \<times> YangUdpSession \<times> 'w) option" where
  "yang_rtc_turn_sendData env udp data nb w =
     (if \<not> us_isStart udp \<or> us_notRemoteInit udp then Some (ERROR_RTC_UDP, udp, w)
      else do {
        m \<leftarrow> turn_frame (us_turnBuffer udp) data nb;
        bs \<leftarrow> mem_read m 0 (nb + 4);
        let (n, w) = te_sendto env w bs;
        Some (if 0 < n then Yang_Ok else ERROR_RTC_TURN, udp\<lparr>us_turnBuffer := Some m\<rparr>, w)
      })"

primrec find_ready :: "nat \<Rightarrow> int \<Rightarrow> YangTurnPeer option list \<Rightarrow> int \<Rightarrow> YangTurnPeer option option" where
  "find_ready 0 i ps uid = Some None"
| "find_ready (Suc k) i ps uid = do {
     p \<leftarrow> mem_load ps i;
     case p of
       Some peer \<Rightarrow> (if tp_state peer = YangTurnReady \<and> tp_uid peer = uid then Some (Some peer)
                     else find_ready k (i + 1) ps uid)
     | None \<Rightarrow> find_ready k (i + 1) ps uid
   }"

definition yang_turnconn_sendData ::
    "'w turn_env \<Rightarrow> YangTurnSession \<Rightarrow> int \<Rightarrow> u8 list \<Rightarrow> int \<Rightarrow> 'w \<Rightarrow> (errcode \<times> YangTurnSession \<times> 'w) option" where
  "yang_turnconn_sendData env ts uid data nb w =
     (let udp = ts_udp ts
      in if \<not> us_isStart udp \<or> us_notRemoteInit udp \<or> ts_state ts \<noteq> YangTurnReady then Some (ERROR_RTC_UDP, ts, w)
         else do {
           m \<leftarrow> turn_frame (us_turnBuffer udp) data nb;
           found \<leftarrow> find_ready (nat (vsize (ts_peers ts))) 0 (payload (ts_peers ts)) uid;
           case found of
             None \<Rightarrow> Some (ERROR_RTC_TURN, ts\<lparr>ts_udp := udp\<lparr>us_turnBuffer := Some m\<rparr>\<rparr>, w)
           | Some peer \<Rightarrow> do {
               (m, _) \<leftarrow> yang_put_be16 m 0 (tp_channelNumber peer);
               bs \<leftarrow> mem_read m 0 (nb + 4);
               let (n, w) = te_sendto env w bs;
               Some (if 0 < n then Yang_Ok else 1, ts\<lparr>ts_udp := udp\<lparr>us_turnBuffer := Some m\<rparr>\<rparr>, w)
             }
         })"

section \<open>The loop\<close>

text \<open>
  \<open>None\<close> when no peer has expired. The subtraction is in 32 bits, so an expiry of 0 (none yet) never comes.
\<close>

primrec refresh_peer :: "'w turn_env \<Rightarrow> nat \<Rightarrow> int \<Rightarrow> u16 \<Rightarrow> YangTurnPeer option list \<Rightarrow> 'w \<Rightarrow> (YangTurnPeer option list option \<times> 'w) option" where
  "refresh_peer env 0 i permissionCount ps w = Some (None, w)"
| "refresh_peer env (Suc k) i permissionCount ps w = do {
     p \<leftarrow> mem_load ps i;
     peer \<leftarrow> p;
     let (t, w) = turn_seconds env w;
     if uint (tp_lifetimeOuttime peer - 60) < t then do {
       ps \<leftarrow> mem_store ps i (Some (peer\<lparr>tp_state := (if 2 \<le> permissionCount then YangTurnBindChannel else YangTurnPermission)\<rparr>));
       Some (Some ps, w)
     }
     else refresh_peer env k (i + 1) permissionCount ps w
   }"

definition yang_turnconn_refreshAllocate :: "'w turn_env \<Rightarrow> YangTurnSession \<Rightarrow> 'w \<Rightarrow> (YangTurnSession \<times> 'w) option" where
  "yang_turnconn_refreshAllocate env ts w = do {
     let v = ts_peers ts;
     (found, w) \<leftarrow> refresh_peer env (nat (vsize v)) 0 (ts_permissionCount ts) (payload v) w;
     case found of
       Some ps \<Rightarrow> Some (ts\<lparr>ts_peers := v\<lparr>payload := ps\<rparr>, ts_waitTime := 20\<rparr>, w)
     | None \<Rightarrow>
         if ts_allocateOuttime ts \<noteq> 0 then do {
           let (t, w) = turn_seconds env w;
           if uint (ts_allocateOuttime ts - 60) \<le> t then do {
             (_, ts, w) \<leftarrow> yang_turn_encode_refresh env ts False w;
             Some (ts, w)
           }
           else Some (ts, w)
         }
         else Some (ts, w)
   }"

text \<open>A permission for the peers that need one, a channel for the peers that need one.\<close>

primrec request_peers :: "'w turn_env \<Rightarrow> bool \<Rightarrow> bool \<Rightarrow> nat \<Rightarrow> int \<Rightarrow> YangTurnSession \<Rightarrow> 'w \<Rightarrow> (YangTurnSession \<times> 'w) option" where
  "request_peers env perm chan 0 i ts w = Some (ts, w)"
| "request_peers env perm chan (Suc k) i ts w = do {
     p \<leftarrow> mem_load (payload (ts_peers ts)) i;
     peer \<leftarrow> p;
     (ts, w) \<leftarrow> (if perm \<and> tp_state peer = YangTurnPermission then do {
                   (_, ts, w) \<leftarrow> yang_turn_encode_permission env ts peer w;
                   Some (ts, w)
                 }
                 else if chan \<and> tp_state peer = YangTurnBindChannel then do {
                   (_, ts, w) \<leftarrow> yang_turn_encode_bindChannel env ts peer w;
                   Some (ts, w)
                 }
                 else Some (ts, w));
     request_peers env perm chan k (i + 1) ts w
   }"

text \<open>One round of \<open>yang_run_turnconn_app\<close>, after its sleep; \<open>err\<close> is the code of the last round that set it.\<close>

definition turn_pass :: "'w turn_env \<Rightarrow> errcode \<Rightarrow> YangTurnSession \<Rightarrow> 'w \<Rightarrow> (errcode \<times> YangTurnSession \<times> 'w) option" where
  "turn_pass env err ts w =
     (let n = nat (vsize (ts_peers ts)) in case ts_state ts of
        YangTurnNew \<Rightarrow> yang_turn_encode_request env ts w
      | YangTurnCredential \<Rightarrow> yang_turn_encode_allocate env ts 0x11 True w
      | YangTurnAllocate \<Rightarrow> yang_turn_encode_allocate env ts 0x11 False w
      | YangTurnPermission \<Rightarrow> do {
          (ts, w) \<leftarrow> request_peers env True False n 0 ts w;
          Some (err, ts, w)
        }
      | YangTurnBindChannel \<Rightarrow> do {
          (ts, w) \<leftarrow> request_peers env False True n 0 ts w;
          Some (err, ts, w)
        }
      | YangTurnReady \<Rightarrow> do {
          (ts, w) \<leftarrow> yang_turnconn_refreshAllocate env ts w;
          (ts, w) \<leftarrow> request_peers env True True n 0 ts w;
          Some (err, ts, w)
        }
      | YangTurnClose \<Rightarrow> yang_turn_encode_refresh env (ts\<lparr>ts_lifetime := 0\<rparr>) True w)"

text \<open>
  The loop with a bound on its rounds; what other threads do between two rounds is a function on the session.
\<close>

primrec yang_run_turnconn_app ::
    "'w turn_env \<Rightarrow> nat \<Rightarrow> (YangTurnSession \<Rightarrow> 'w \<Rightarrow> YangTurnSession \<times> 'w) \<Rightarrow> errcode \<Rightarrow> YangTurnSession \<Rightarrow> 'w \<Rightarrow> (errcode \<times> YangTurnSession \<times> 'w) option" where
  "yang_run_turnconn_app env 0 others err ts w = Some (err, ts, w)"
| "yang_run_turnconn_app env (Suc k) others err ts w =
     (if \<not> ts_isLoop ts then Some (err, ts, w)
      else do {
        (err, ts, w) \<leftarrow> turn_pass env err ts w;
        let (ts, w) = others ts w;
        yang_run_turnconn_app env k others err ts w
      })"

text \<open>The thread, from its first round to its end\<close>

definition yang_run_turnconn_handle_thread ::
    "'w turn_env \<Rightarrow> nat \<Rightarrow> (YangTurnSession \<Rightarrow> 'w \<Rightarrow> YangTurnSession \<times> 'w) \<Rightarrow> YangTurnSession \<Rightarrow> 'w \<Rightarrow> (YangTurnSession \<times> 'w) option" where
  "yang_run_turnconn_handle_thread env k others ts w = do {
     let ts = ts\<lparr>ts_isStart := True, ts_isLoop := True\<rparr>;
     (_, ts, w) \<leftarrow> yang_run_turnconn_app env k others Yang_Ok ts w;
     Some (ts\<lparr>ts_isStart := False\<rparr>, w)
   }"

section \<open>The application\<close>

text \<open>The two threads it starts run from here on; the rounds of the first are \<open>turn_pass\<close>.\<close>

definition yang_turnconn_start :: "YangTurnSession \<Rightarrow> errcode \<times> YangTurnSession" where
  "yang_turnconn_start ts =
     (if ts_isStart ts then (Yang_Ok, ts)
      else let udp = ts_udp ts;
               udp = (if us_turnBuffer udp = None then udp\<lparr>us_turnBuffer := Some (replicate 1500 0)\<rparr> else udp)
           in (Yang_Ok, ts\<lparr>ts_udp := udp\<rparr>))"

text \<open>It returns when the loop's thread has ended.\<close>

definition yang_turnconn_stop :: "'w turn_env \<Rightarrow> YangTurnSession \<Rightarrow> 'w \<Rightarrow> (YangTurnSession \<times> 'w) option" where
  "yang_turnconn_stop env ts w = do {
     let ts = ts\<lparr>ts_isLoop := False, ts_waitTime := 1, ts_lifetime := 0\<rparr>;
     (_, ts, w) \<leftarrow> yang_turn_encode_refresh env ts True w;
     Some (ts\<lparr>ts_state := YangTurnClose, ts_isStart := False\<rparr>, w)
   }"

definition Yang_Turn_ChannelNumBase :: u16 where "Yang_Turn_ChannelNumBase = 0x4000"

definition yang_turnconn_addPeer ::
    "'w turn_env \<Rightarrow> YangTurnSession \<Rightarrow> int \<Rightarrow> nat \<Rightarrow> u8 list \<Rightarrow> u16 \<Rightarrow> (errcode \<times> YangTurnSession) option" where
  "yang_turnconn_addPeer env ts uid rtcSession remoteIp port =
     (let c = (if Yang_Turn_ChannelNumBase + 31 < ts_channelNum ts then Yang_Turn_ChannelNumBase else ts_channelNum ts);
          peer = \<lparr>tp_channelNumber = c, tp_uid = uid, tp_lifetimeOuttime = 0, tp_state = YangTurnPermission,
                  tp_receiveUser = rtcSession, tp_mapAddress = be32toh (te_inet_addr env remoteIp), tp_port = port\<rparr>
      in if ts_turnLock ts then None
         else do {
           v \<leftarrow> yang_insert_Vector2 None (ts_peers ts) (Some (Some peer));
           Some (Yang_Ok, ts\<lparr>ts_channelNum := c + 1, ts_peers := v, ts_waitTime := 50\<rparr>)
         })"

primrec find_uid :: "nat \<Rightarrow> int \<Rightarrow> YangTurnPeer option list \<Rightarrow> int \<Rightarrow> (int \<times> YangTurnPeer) option option" where
  "find_uid 0 i ps uid = Some None"
| "find_uid (Suc k) i ps uid = do {
     p \<leftarrow> mem_load ps i;
     peer \<leftarrow> p;
     if tp_uid peer = uid then Some (Some (i, peer)) else find_uid k (i + 1) ps uid
   }"

text \<open>The lock is taken first; the return inside the loop does not release it.\<close>

definition yang_turnconn_removePeer :: "YangTurnSession \<Rightarrow> int \<Rightarrow> (errcode \<times> YangTurnSession) option" where
  "yang_turnconn_removePeer ts uid =
     (if ts_turnLock ts then None
      else do {
        let v = ts_peers ts;
        found \<leftarrow> find_uid (nat (vsize v)) 0 (payload v) uid;
        case found of
          Some (i, peer) \<Rightarrow> do {
            ps \<leftarrow> mem_store (payload v) i None;
            v \<leftarrow> yang_remove_Vector2 None (v\<lparr>payload := ps\<rparr>) i;
            Some (Yang_Ok, ts\<lparr>ts_turnLock := True, ts_channelNum := tp_channelNumber peer, ts_peers := v\<rparr>)
          }
        | None \<Rightarrow> Some (Yang_Ok, ts)
      })"

definition yang_turnconn_isReady :: "YangTurnSession \<Rightarrow> bool" where
  "yang_turnconn_isReady ts \<longleftrightarrow> ts_state ts = YangTurnReady"

definition yang_turnconn_isAllocated :: "YangTurnSession \<Rightarrow> bool" where
  "yang_turnconn_isAllocated ts \<longleftrightarrow> ts_state ts = YangTurnPermission"

text \<open>\<open>conn\<close> comes from \<open>calloc\<close>; \<open>ts0\<close> is the session as it was. Nothing reads the random password again.\<close>

definition yang_create_turnConnection ::
    "'w turn_env \<Rightarrow> YangTurnSession \<Rightarrow> YangIceServer \<Rightarrow> YangUdpSession \<Rightarrow> 'w \<Rightarrow> (YangTurnSession \<times> 'w) option" where
  "yang_create_turnConnection env ts0 server udp w = do {
     let (serverIp, w) = te_getIp env w (sv_serverIp server);
     let udp = yang_rtcudp_update_remoteAddr env udp serverIp (sv_serverPort server);
     (icePwd, w) \<leftarrow> yang_cstr_random (se_random env) 32 (replicate 33 0) w;
     Some (ts0\<lparr>ts_udp := udp, ts_server := server, ts_peers := yang_create_Vector2 None, ts_icePwd := icePwd, ts_isLoop := False,
             ts_isStart := False, ts_nonceLen := 0, ts_relayIp := 0, ts_relayPort := 0, ts_allocateOuttime := 0, ts_permissionCount := 0,
             ts_channelNum := Yang_Turn_ChannelNumBase, ts_lifetime := 600, ts_state := YangTurnNew, ts_waitTime := 20,
             ts_turnLock := False\<rparr>, w)
   }"

lemma create_total: "\<exists>ts w'. yang_create_turnConnection env ts0 server udp w = Some (ts, w')"
proof -
  obtain serverIp w1 where g: "te_getIp env w (sv_serverIp server) = (serverIp, w1)"
    by (cases "te_getIp env w (sv_serverIp server)")
  obtain icePwd w2 where "yang_cstr_random (se_random env) 32 (replicate 33 0) w1 = Some (icePwd, w2)"
    using random_loop_total [of 0 32 "replicate 33 0" "se_random env" random_table w1] unfolding yang_cstr_random_def by auto
  then show ?thesis using g by (simp add: yang_create_turnConnection_def)
qed

text \<open>The peers, the socket, the password and the lock are given back.\<close>

definition yang_destroy_turnConnection :: "'w turn_env \<Rightarrow> YangTurnSession \<Rightarrow> 'w \<Rightarrow> (YangTurnSession \<times> 'w) option" where
  "yang_destroy_turnConnection env ts w = do {
     (ts, w) \<leftarrow> yang_turnconn_stop env ts w;
     let udp = (ts_udp ts)\<lparr>us_isLoop := False, us_isStart := False, us_turnBuffer := None\<rparr>;
     Some (ts\<lparr>ts_udp := udp, ts_icePwd := [], ts_peers := yang_destroy_Vector (ts_peers ts)\<rparr>, w)
   }"

end
