(* ===== verification/Turn_Facts.thy ===== *)
theory Turn_Facts
  imports Turn
begin

text \<open>
  What the TURN client does: the automaton its packets drive, what its states keep, its channel numbers, and the places where it stops
  working.
\<close>

section \<open>Decoding changes the response and the realm only\<close>

lemma decode_loop_invariant:
  assumes "decode_loop h b p = Some (e, p')" "P p" "\<And>t l v p p'. h t l v p = Some p' \<Longrightarrow> P p \<Longrightarrow> P p'"
  shows "P p'"
  using assms(1,2)
proof (induction "nat (yang_buffer_left b)" arbitrary: b p rule: less_induct)
  case less
  show ?case
  proof (cases "yang_buffer_left b < 4")
    case True
    then show ?thesis using less.prems by (subst (asm) decode_loop.simps) simp
  next
    case False
    then obtain t b1 l b2 where r: "yang_read_2bytes b = Some (t, b1)" "yang_read_2bytes b1 = Some (l, b2)"
      using less.prems(1) by (subst (asm) decode_loop.simps) (auto simp: bind_eq_Some_conv)
    show ?thesis
    proof (cases "yang_buffer_left b2 < uint l")
      case True
      then show ?thesis using less.prems False r by (subst (asm) decode_loop.simps) simp
    next
      case long: False
      obtain v b3 q where q: "yang_read_bytes b2 (uint l) = Some (v, b3)" "h t l (v @ [0]) p = Some q"
          "decode_loop h (stun_skip_pad b3 l) q = Some (e, p')"
        using less.prems(1) False r long by (subst (asm) decode_loop.simps) (auto simp: bind_eq_Some_conv)
      have "yang_buffer_left b3 = yang_buffer_left b - 4 - uint l"
        using read_2bytes_sel [OF r(1)] read_2bytes_sel [OF r(2)] read_bytes_sel [OF q(1)] by (simp add: yang_buffer_left_def)
      then have "yang_buffer_left (stun_skip_pad b3 l) < yang_buffer_left b"
        using left_skip_pad [of b3 l] uint_ge_0 [of l] by linarith
      then have "nat (yang_buffer_left (stun_skip_pad b3 l)) < nat (yang_buffer_left b)" using False by simp
      from less.hyps [OF this q(3) assms(3) [OF q(2) less.prems(2)]] show ?thesis .
    qed
  qed
qed

lemma turn_decode_invariant:
  assumes "yang_turn_decode ts buf nb = Some (e, ts')" "P ts" "\<And>t l v p p'. turn_attribute t l v p = Some p' \<Longrightarrow> P p \<Longrightarrow> P p'"
  shows "P ts'"
proof -
  have "ts' = ts \<or> (\<exists>b. decode_loop turn_attribute b ts = Some (e, ts'))"
    using assms(1) by (auto simp: yang_turn_decode_def Let_def bind_eq_Some_conv split: if_splits)
  then show ?thesis
  proof
    assume "\<exists>b. decode_loop turn_attribute b ts = Some (e, ts')"
    then obtain b where "decode_loop turn_attribute b ts = Some (e, ts')" ..
    then show ?thesis using assms(2) by (rule decode_loop_invariant [where P = P]) (rule assms(3))
  qed (use assms(2) in simp)
qed

text \<open>What neither decoding nor sending touches.\<close>

definition kept :: "YangTurnSession \<Rightarrow> YangTurnSession \<Rightarrow> bool" where
  "kept ts ts' \<longleftrightarrow> ts_state ts' = ts_state ts \<and> ts_peers ts' = ts_peers ts \<and> ts_turnLock ts' = ts_turnLock ts
     \<and> ts_channelNum ts' = ts_channelNum ts \<and> ts_nonce ts' = ts_nonce ts \<and> ts_nonceLen ts' = ts_nonceLen ts
     \<and> ts_udp ts' = ts_udp ts \<and> (length (ts_realm ts) = 129 \<longrightarrow> length (ts_realm ts') = 129)"

lemma kept_refl [simp]: "kept ts ts" by (simp add: kept_def)

lemma kept_trans: "kept a b \<Longrightarrow> kept b c \<Longrightarrow> kept a c" by (simp add: kept_def)

lemma turn_attribute_kept: "turn_attribute t l v p = Some p' \<Longrightarrow> kept p p'"
  by (auto simp: turn_attribute_def kept_def Let_def bind_eq_Some_conv dest!: length_mem_write split: if_splits)

lemma turn_decode_kept: "yang_turn_decode ts buf nb = Some (e, ts') \<Longrightarrow> kept ts ts'"
  by (erule turn_decode_invariant) (auto intro: kept_trans turn_attribute_kept)

section \<open>The automaton\<close>

text \<open>The state after a packet of a type, as a function of the state before.\<close>

definition turn_next :: "u16 \<Rightarrow> YangTurnState \<Rightarrow> YangTurnState" where
  "turn_next type s =
     (if type = 0x0101 then (if s = YangTurnNew then YangTurnCredential else s)
      else if type = 0x0113 then (if s < YangTurnAllocate then YangTurnAllocate else s)
      else if type = 0x0103 then (if s = YangTurnCredential then YangTurnAllocate else YangTurnPermission)
      else if type = 0x0108 then (if s < YangTurnBindChannel then YangTurnBindChannel else s)
      else if type = 0x0109 then (if s < YangTurnReady then YangTurnReady else s)
      else s)"

text \<open>What happens to the state of each peer.\<close>

definition peer_next :: "u16 \<Rightarrow> YangTurnState \<Rightarrow> YangTurnState" where
  "peer_next type s =
     (if type = 0x0108 \<and> s = YangTurnPermission then YangTurnBindChannel
      else if type = 0x0109 \<and> s = YangTurnBindChannel then YangTurnReady else s)"

definition packet_type :: "u8 list \<Rightarrow> u16" where "packet_type data = be_dec (take 2 data)"

text \<open>Peers in use: a sound vector without null pointers.\<close>

definition peers_ok :: "YangTurnPeer option yang_vector \<Rightarrow> bool" where
  "peers_ok v \<longleftrightarrow> vec_ok v \<and> None \<notin> set (vec_list v)"

definition peer_list :: "YangTurnPeer option yang_vector \<Rightarrow> YangTurnPeer list" where
  "peer_list v = map the (vec_list v)"

lemma take_Some: "None \<notin> set (take n ps) \<Longrightarrow> i < n \<Longrightarrow> n \<le> length ps \<Longrightarrow> \<exists>x. ps ! i = Some x"
  by (metis nth_take nth_mem length_take min_absorb2 not_None_eq)

lemma same_time: "\<exists>t. p = p\<lparr>tp_lifetimeOuttime := t\<rparr>"
  by (rule exI [of _ "tp_lifetimeOuttime p"]) simp

lemma advance_peers_spec:
  assumes "i + k \<le> length ps" "None \<notin> set (take (i + k) ps)"
  shows "\<exists>ps' w'. advance_peers env from to k (int i) ps w = Some (ps', w') \<and> length ps' = length ps
    \<and> None \<notin> set (take (i + k) ps') \<and> take i ps' = take i ps \<and> drop (i + k) ps' = drop (i + k) ps
    \<and> (\<forall>j < i + k. \<exists>t. the (ps' ! j) = (the (ps ! j)) \<lparr>tp_state := (if i \<le> j \<and> tp_state (the (ps ! j)) = from then to else tp_state (the (ps ! j))),
         tp_lifetimeOuttime := t\<rparr>)"
  using assms
proof (induction k arbitrary: i ps w)
  case 0
  then show ?case by (auto intro: same_time)
next
  case (Suc k)
  obtain peer where p: "ps ! i = Some peer"
    using take_Some [OF Suc.prems(2), of i] Suc.prems(1) by auto
  have ld: "mem_load ps (int i) = Some (Some peer)" using Suc.prems(1) p by (simp add: mem_load_def)
  define q where "q = (if tp_state peer = from then (\<lambda>t. Some (peer\<lparr>tp_state := to, tp_lifetimeOuttime := t\<rparr>)) else (\<lambda>t. Some peer))"
  have "\<exists>t w1. advance_peers env from to (Suc k) (int i) ps w = advance_peers env from to k (int (Suc i)) (ps[i := q t]) w1"
  proof (cases "tp_state peer = from")
    case True
    obtain t w1 where t: "turn_seconds env w = (t, w1)" by (cases "turn_seconds env w")
    show ?thesis
      using ld True t Suc.prems(1) by (intro exI [of _ "word_of_int (t + 300)"] exI [of _ w1]) (simp add: mem_store_def q_def add.commute)
  next
    case False
    have same: "ps[i := Some peer] = ps" using p by (metis list_update_id)
    show ?thesis using ld False same by (intro exI [of _ 0] exI [of _ w]) (simp add: q_def add.commute)
  qed
  then obtain t w1 where st: "advance_peers env from to (Suc k) (int i) ps w = advance_peers env from to k (int (Suc i)) (ps[i := q t]) w1" by blast
  let ?ps = "ps[i := q t]"
  have n: "None \<notin> set (take (Suc i + k) ?ps)"
  proof -
    have "set ((take (Suc i + k) ps)[i := q t]) \<subseteq> insert (q t) (set (take (Suc i + k) ps))" by (rule set_update_subset_insert)
    moreover have "q t \<noteq> None" by (simp add: q_def)
    ultimately show ?thesis using Suc.prems(2) unfolding take_update_swap by auto
  qed
  obtain ps' w' where r: "advance_peers env from to k (int (Suc i)) ?ps w1 = Some (ps', w')" "length ps' = length ?ps"
      "None \<notin> set (take (Suc i + k) ps')" "take (Suc i) ps' = take (Suc i) ?ps" "drop (Suc i + k) ps' = drop (Suc i + k) ?ps"
      "\<forall>j < Suc i + k. \<exists>t. the (ps' ! j) = (the (?ps ! j)) \<lparr>tp_state := (if Suc i \<le> j \<and> tp_state (the (?ps ! j)) = from then to else tp_state (the (?ps ! j))),
         tp_lifetimeOuttime := t\<rparr>"
    using Suc.IH [of "Suc i" ?ps w1] Suc.prems(1) n by auto
  have "\<exists>u. the (ps' ! j) = (the (ps ! j)) \<lparr>tp_state := (if i \<le> j \<and> tp_state (the (ps ! j)) = from then to else tp_state (the (ps ! j))),
         tp_lifetimeOuttime := u\<rparr>" if "j < i + Suc k" for j
  proof (cases "j = i")
    case True
    obtain u where "the (ps' ! i) = (the (?ps ! i)) \<lparr>tp_state := tp_state (the (?ps ! i)), tp_lifetimeOuttime := u\<rparr>"
      using r(6) by (auto dest!: spec [of _ i])
    then show ?thesis using True Suc.prems(1) p by (intro exI [of _ u]) (auto simp: q_def)
  next
    case False
    then show ?thesis using r(6) that by (auto dest!: spec [of _ j])
  qed
  moreover have "take i ps' = take i ps" using arg_cong [OF r(4), of "take i"] by simp
  ultimately show ?case using st r(1-3,5) by (intro exI [of _ ps'] exI [of _ w']) auto
qed

lemma peers_vec:
  assumes "peers_ok v"
  shows "nat (vsize v) \<le> length (payload v)" "vec_list v = take (nat (vsize v)) (payload v)" "None \<notin> set (take (nat (vsize v)) (payload v))"
  using assms by (auto simp: peers_ok_def vec_ok_def vec_list_def)

lemma advance_all_spec:
  assumes "peers_ok (ts_peers ts)"
  obtains v w' where "advance_all env from to ts w = Some (ts\<lparr>ts_peers := v\<rparr>, w')" "peers_ok v"
    "list_all2 (\<lambda>p q. q = p\<lparr>tp_state := (if tp_state p = from then to else tp_state p), tp_lifetimeOuttime := tp_lifetimeOuttime q\<rparr>)
       (peer_list (ts_peers ts)) (peer_list v)"
proof -
  let ?v = "ts_peers ts"
  let ?n = "nat (vsize ?v)"
  note pv = peers_vec [OF assms]
  obtain ps w' where r: "advance_peers env from to ?n 0 (payload ?v) w = Some (ps, w')" "length ps = length (payload ?v)"
      "None \<notin> set (take ?n ps)"
      "\<forall>j < ?n. \<exists>t. the (ps ! j) = (the (payload ?v ! j)) \<lparr>tp_state := (if tp_state (the (payload ?v ! j)) = from then to else tp_state (the (payload ?v ! j))),
         tp_lifetimeOuttime := t\<rparr>"
    using advance_peers_spec [of 0 ?n "payload ?v" env "from" to w] pv by auto
  let ?w = "?v\<lparr>payload := ps\<rparr>"
  have ok: "peers_ok ?w" using assms r(2,3) by (simp add: peers_ok_def vec_ok_def vec_list_def)
  have "list_all2 (\<lambda>p q. q = p\<lparr>tp_state := (if tp_state p = from then to else tp_state p), tp_lifetimeOuttime := tp_lifetimeOuttime q\<rparr>)
       (peer_list ?v) (peer_list ?w)"
    using r(2,4) pv(1) by (auto simp: list_all2_conv_all_nth peer_list_def vec_list_def)
  moreover have "advance_all env from to ts w = Some (ts\<lparr>ts_peers := ?w\<rparr>, w')" by (simp add: advance_all_def r(1))
  ultimately show thesis using that ok by blast
qed

lemma get_be16_type: "yang_get_be16 data 0 = Some t \<Longrightarrow> t = packet_type data"
  by (cases data rule: tlvs.cases) (auto simp: yang_get_be16_def mem_load_def packet_type_def be_dec_def or.commute numeral_2_eq_2 le_word.simps split: if_splits)

lemma update_nonce_kept:
  "yang_turnconn_updateNonce ts = Some ts' \<Longrightarrow> ts_state ts' = ts_state ts \<and> ts_peers ts' = ts_peers ts \<and> ts_turnLock ts' = ts_turnLock ts
     \<and> ts_channelNum ts' = ts_channelNum ts \<and> ts_udp ts' = ts_udp ts \<and> ts_realm ts' = ts_realm ts
     \<and> (length (ts_nonce ts) = 128 \<longrightarrow> length (ts_nonce ts') = 128)"
  by (auto simp: yang_turnconn_updateNonce_def Let_def bind_eq_Some_conv dest!: length_mem_write split: if_splits)

lemma handle_error_state:
  assumes "yang_turnconn_handleError ts data = Some (err, ts')"
  shows "ts_state ts' = (if packet_type data = 0x0113 \<and> ts_state ts < YangTurnAllocate then YangTurnAllocate else ts_state ts)
    \<and> ts_peers ts' = ts_peers ts \<and> ts_turnLock ts' = ts_turnLock ts \<and> ts_channelNum ts' = ts_channelNum ts \<and> ts_udp ts' = ts_udp ts
    \<and> ts_realm ts' = ts_realm ts \<and> (length (ts_nonce ts) = 128 \<longrightarrow> length (ts_nonce ts') = 128)"
proof -
  let ?t = "packet_type data"
  let ?u = "if ?t = 0x0113 then (if ts_state ts < YangTurnAllocate then ts\<lparr>ts_state := YangTurnAllocate\<rparr> else ts)
        else if ?t = 0x0114 then ts\<lparr>ts_errorCode := YangTurnRefreshError\<rparr>
        else if ?t = 0x0118 then ts\<lparr>ts_errorCode := YangTurnPermissionError\<rparr>
        else if ?t = 0x0119 then ts\<lparr>ts_errorCode := YangTurnBindChannelError\<rparr>
        else ts\<lparr>ts_errorCode := YangTurnKwnownError\<rparr>"
  have u: "ts_state ?u = (if ?t = 0x0113 \<and> ts_state ts < YangTurnAllocate then YangTurnAllocate else ts_state ts)"
    "ts_peers ?u = ts_peers ts" "ts_turnLock ?u = ts_turnLock ts" "ts_channelNum ?u = ts_channelNum ts" "ts_udp ?u = ts_udp ts"
    "ts_realm ?u = ts_realm ts" "ts_nonce ?u = ts_nonce ts"
    by simp_all
  obtain ty where ty: "yang_get_be16 data 0 = Some ty" using assms by (auto simp: yang_turnconn_handleError_def bind_eq_Some_conv)
  define v where "v = ?u"
  have "ts' = v \<or> yang_turnconn_updateNonce v = Some ts'"
    using assms get_be16_type [OF ty] ty unfolding yang_turnconn_handleError_def Let_def
    by (simp add: bind_eq_Some_conv flip: v_def split: if_split_asm)
  then show ?thesis using u [folded v_def] by (auto dest!: update_nonce_kept)
qed

definition same_peer :: "YangTurnPeer \<Rightarrow> YangTurnPeer \<Rightarrow> bool" where
  "same_peer p q \<longleftrightarrow> tp_channelNumber q = tp_channelNumber p \<and> tp_uid q = tp_uid p \<and> tp_receiveUser q = tp_receiveUser p
     \<and> tp_mapAddress q = tp_mapAddress p \<and> tp_port q = tp_port p"

lemma same_peer_refl: "list_all2 (\<lambda>p q. same_peer p q \<and> tp_state q = tp_state p) ps ps"
  by (simp add: list_all2_same same_peer_def)

lemma turn_allocated_kept:
  "turn_allocated env ts w = (ts', w') \<Longrightarrow> ts_state ts' = YangTurnPermission \<and> ts_peers ts' = ts_peers ts \<and> ts_turnLock ts' = ts_turnLock ts
     \<and> ts_channelNum ts' = ts_channelNum ts \<and> ts_udp ts' = ts_udp ts \<and> ts_realm ts' = ts_realm ts \<and> ts_nonce ts' = ts_nonce ts \<and> ts_nonceLen ts' = ts_nonceLen ts"
  by (auto simp: turn_allocated_def Let_def split: prod.splits if_splits)

lemma advanced_same: "q = p\<lparr>tp_state := s, tp_lifetimeOuttime := t\<rparr> \<Longrightarrow> same_peer p q \<and> tp_state q = s"
  by (simp add: same_peer_def)

lemma list_all2_mono': "list_all2 P xs ys \<Longrightarrow> (\<And>x y. P x y \<Longrightarrow> Q x y) \<Longrightarrow> list_all2 Q xs ys"
  by (auto simp: list_all2_conv_all_nth)

lemma handle_recv_state:
  assumes "peers_ok (ts_peers ts)" "yang_get_be16 data 0 = Some type" "\<not> turn_error_type type"
  shows "\<exists>ts' w'. yang_turnconn_handleRecv env ts data w = Some (Yang_Ok, ts', w') \<and> peers_ok (ts_peers ts')
    \<and> ts_state ts' = turn_next type (ts_state ts)
    \<and> list_all2 (\<lambda>p q. same_peer p q \<and> tp_state q = peer_next type (tp_state p)) (peer_list (ts_peers ts)) (peer_list (ts_peers ts'))
    \<and> ts_turnLock ts' = ts_turnLock ts \<and> ts_channelNum ts' = ts_channelNum ts \<and> ts_udp ts' = ts_udp ts
    \<and> ts_realm ts' = ts_realm ts \<and> ts_nonce ts' = ts_nonce ts \<and> ts_nonceLen ts' = ts_nonceLen ts"
proof -
  have t: "type \<noteq> 0x0113" using assms(3) by (auto simp: turn_error_type_def)
  note refl = same_peer_refl [of "peer_list (ts_peers ts)"]
  consider (perm) "type = 0x0108" | (chan) "type = 0x0109" | (other) "type \<noteq> 0x0108" "type \<noteq> 0x0109" by blast
  then show ?thesis
  proof cases
    case perm
    obtain v w' where a: "advance_all env YangTurnPermission YangTurnBindChannel ts w = Some (ts\<lparr>ts_peers := v\<rparr>, w')" "peers_ok v"
      "list_all2 (\<lambda>p q. q = p\<lparr>tp_state := (if tp_state p = YangTurnPermission then YangTurnBindChannel else tp_state p), tp_lifetimeOuttime := tp_lifetimeOuttime q\<rparr>)
         (peer_list (ts_peers ts)) (peer_list v)" by (rule advance_all_spec [OF assms(1)])
    have "list_all2 (\<lambda>p q. same_peer p q \<and> tp_state q = peer_next type (tp_state p)) (peer_list (ts_peers ts)) (peer_list v)"
      by (rule list_all2_mono' [OF a(3)]) (drule advanced_same, simp add: peer_next_def perm)
    then show ?thesis using a assms(2) perm by (auto simp: yang_turnconn_handleRecv_def turn_next_def Let_def)
  next
    case chan
    obtain v w' where a: "advance_all env YangTurnBindChannel YangTurnReady ts w = Some (ts\<lparr>ts_peers := v\<rparr>, w')" "peers_ok v"
      "list_all2 (\<lambda>p q. q = p\<lparr>tp_state := (if tp_state p = YangTurnBindChannel then YangTurnReady else tp_state p), tp_lifetimeOuttime := tp_lifetimeOuttime q\<rparr>)
         (peer_list (ts_peers ts)) (peer_list v)" by (rule advance_all_spec [OF assms(1)])
    have "list_all2 (\<lambda>p q. same_peer p q \<and> tp_state q = peer_next type (tp_state p)) (peer_list (ts_peers ts)) (peer_list v)"
      by (rule list_all2_mono' [OF a(3)]) (drule advanced_same, simp add: peer_next_def chan)
    then show ?thesis using a assms(2) chan by (auto simp: yang_turnconn_handleRecv_def turn_next_def Let_def)
  next
    case other
    then have pn: "peer_next type = id" by (auto simp: peer_next_def)
    obtain ta wa where al: "turn_allocated env ts w = (ta, wa)" by (cases "turn_allocated env ts w")
    show ?thesis
      using assms(1,2) other t refl turn_allocated_kept [OF al] al
      by (auto simp: yang_turnconn_handleRecv_def turn_next_def pn Let_def split: prod.splits)
  qed
qed

text \<open>The response that decoding leaves can be taken over.\<close>

definition response_ok :: "YangTurnSession \<Rightarrow> bool" where
  "response_ok ts \<longleftrightarrow> length (tr_nonce (ts_response ts)) = 128 \<and> unat (tr_nonceLen (ts_response ts)) \<le> 128"

lemma turn_attribute_response: "turn_attribute t l v p = Some p' \<Longrightarrow> response_ok p \<Longrightarrow> response_ok p'"
proof (cases "t = StunNonce \<and> ts_nonceLen p = 0")
  case True
  assume "turn_attribute t l v p = Some p'"
  then obtain bs nonce where b: "mem_read v 0 (uint l) = Some bs" "mem_write (replicate 128 0) 0 bs = Some nonce"
      "p' = p\<lparr>ts_response := (ts_response p)\<lparr>tr_nonce := nonce, tr_nonceLen := ucast l\<rparr>\<rparr>"
    using True by (auto simp: turn_attribute_def Let_def bind_eq_Some_conv)
  define n where "n = unat l"
  have u: "uint l = int n" by (simp add: n_def)
  have "length bs = n" using b(1) unfolding u by (auto simp: mem_read_def split: if_splits)
  moreover have "length bs \<le> 128" using b(2) by (auto simp: mem_write_def split: if_splits)
  ultimately have "unat (ucast l :: u32) \<le> 128" by (simp add: unsigned_ucast_eq take_bit_nat_eq_self n_def)
  then show "response_ok p'" using b(2,3) length_mem_write [OF b(2)] by (simp add: response_ok_def)
next
  case False
  assume "turn_attribute t l v p = Some p'" "response_ok p"
  then show "response_ok p'" using False
    by (auto simp: turn_attribute_def response_ok_def Let_def bind_eq_Some_conv split: if_splits)
qed

lemma update_nonce_total: "response_ok ts \<Longrightarrow> yang_turnconn_updateNonce ts \<noteq> None"
proof -
  assume r: "response_ok ts"
  define n where "n = unat (tr_nonceLen (ts_response ts))"
  have u: "uint (tr_nonceLen (ts_response ts)) = int n" by (simp add: n_def)
  have "length (tr_nonce (ts_response ts)) = 128" "n \<le> 128" using r by (simp_all add: response_ok_def n_def)
  then have "mem_read (tr_nonce (ts_response ts)) 0 (int n) = Some (take n (tr_nonce (ts_response ts)))"
    "\<exists>m. mem_write (replicate 128 0) 0 (take n (tr_nonce (ts_response ts))) = Some m"
    by (auto simp: mem_read_def mem_write_def)
  then show "yang_turnconn_updateNonce ts \<noteq> None"
    unfolding yang_turnconn_updateNonce_def Let_def u by auto
qed

lemma handle_error_total:
  assumes "response_ok ts" "yang_get_be16 data 0 = Some ty"
  shows "\<exists>ts'. yang_turnconn_handleError ts data = Some (Yang_Ok, ts')"
proof -
  define v where "v = (if ty = 0x0113 then (if ts_state ts < YangTurnAllocate then ts\<lparr>ts_state := YangTurnAllocate\<rparr> else ts)
        else if ty = 0x0114 then ts\<lparr>ts_errorCode := YangTurnRefreshError\<rparr>
        else if ty = 0x0118 then ts\<lparr>ts_errorCode := YangTurnPermissionError\<rparr>
        else if ty = 0x0119 then ts\<lparr>ts_errorCode := YangTurnBindChannelError\<rparr>
        else ts\<lparr>ts_errorCode := YangTurnKwnownError\<rparr>)"
  have "response_ok v" using assms(1) by (simp add: v_def response_ok_def)
  then obtain u where "yang_turnconn_updateNonce v = Some u" using update_nonce_total by blast
  then show ?thesis using assms(2) unfolding yang_turnconn_handleError_def Let_def by (simp flip: v_def)
qed

lemma turn_decode_kept_response:
  assumes "yang_turn_decode (ts\<lparr>ts_response := turn_response0\<rparr>) data nb = Some (e, ts1)"
  shows "kept ts ts1" "response_ok ts1"
proof -
  have "kept (ts\<lparr>ts_response := turn_response0\<rparr>) ts1" by (rule turn_decode_kept [OF assms])
  then show "kept ts ts1" by (simp add: kept_def)
  show "response_ok ts1"
  proof (rule turn_decode_invariant [OF assms, where P = response_ok])
    show "response_ok (ts\<lparr>ts_response := turn_response0\<rparr>)" by (simp add: response_ok_def turn_response0_def)
  qed (rule turn_attribute_response)
qed

lemma get_be16_long: "2 \<le> length data \<Longrightarrow> yang_get_be16 data 0 = Some (packet_type data)"
proof -
  assume l: "2 \<le> length data"
  then have "data \<noteq> []" by auto
  with l obtain t where "yang_get_be16 data 0 = Some t" by (simp add: yang_get_be16_def mem_load_def)
  then show ?thesis using get_be16_type by blast
qed

lemma receive_automaton:
  assumes "peers_ok (ts_peers ts)" "yang_get_be32 data 4 = Some kStunMagicCookie"
    and "yang_turn_decode (ts\<lparr>ts_response := turn_response0\<rparr>) data nb \<noteq> None"
  shows "\<exists>ts' w'. yang_turnconn_receive env ts data nb w = Some (Yang_Ok, ts', w') \<and> peers_ok (ts_peers ts')
    \<and> ts_state ts' = turn_next (packet_type data) (ts_state ts)
    \<and> list_all2 (\<lambda>p q. same_peer p q \<and> tp_state q = peer_next (packet_type data) (tp_state p)) (peer_list (ts_peers ts)) (peer_list (ts_peers ts'))"
proof -
  obtain e ts1 where d: "yang_turn_decode (ts\<lparr>ts_response := turn_response0\<rparr>) data nb = Some (e, ts1)" using assms(3) by auto
  note k = turn_decode_kept_response [OF d]
  have "2 \<le> length data" using assms(2) by (auto simp: yang_get_be32_def bind_eq_Some_conv mem_simps)
  then have ty: "yang_get_be16 data 0 = Some (packet_type data)" by (rule get_be16_long)
  show ?thesis
  proof (cases "turn_error_type (packet_type data)")
    case True
    obtain ts' where h: "yang_turnconn_handleError ts1 data = Some (Yang_Ok, ts')" using handle_error_total [OF k(2) ty] by blast
    note hs = handle_error_state [OF h]
    have "packet_type data \<noteq> 0x0101" "packet_type data \<noteq> 0x0103" "packet_type data \<noteq> 0x0108" "packet_type data \<noteq> 0x0109"
      using True by (auto simp: turn_error_type_def)
    then have "ts_state ts' = turn_next (packet_type data) (ts_state ts)" "\<And>s. peer_next (packet_type data) s = s"
      using hs k(1) by (auto simp: turn_next_def peer_next_def kept_def)
    then show ?thesis
      using assms(1,2) d ty True h hs k(1) same_peer_refl [of "peer_list (ts_peers ts)"]
      by (auto simp: yang_turnconn_receive_def kept_def Let_def)
  next
    case False
    obtain ts' w' where h: "yang_turnconn_handleRecv env ts1 data w = Some (Yang_Ok, ts', w')" "peers_ok (ts_peers ts')"
        "ts_state ts' = turn_next (packet_type data) (ts_state ts1)"
        "list_all2 (\<lambda>p q. same_peer p q \<and> tp_state q = peer_next (packet_type data) (tp_state p)) (peer_list (ts_peers ts1)) (peer_list (ts_peers ts'))"
      using handle_recv_state [OF _ ty False, of ts1 env w] assms(1) k(1) by (auto simp: kept_def)
    then show ?thesis
      using assms(2) d ty False k(1) by (auto simp: yang_turnconn_receive_def kept_def Let_def)
  qed
qed

text \<open>A packet without attributes.\<close>

definition bare_packet :: "u16 \<Rightarrow> u8 list" where
  "bare_packet type = be16 type @ be16 0 @ be32 kStunMagicCookie @ replicate 12 0"

lemma bare_facts:
  "yang_get_be32 (bare_packet type) 4 = Some kStunMagicCookie" "packet_type (bare_packet type) = type"
  "yang_turn_decode ts (bare_packet type) 20 = Some (Yang_Ok, ts)"
proof -
  show "yang_get_be32 (bare_packet type) 4 = Some kStunMagicCookie"
    using get_be32_behind [of "be16 type @ be16 0" kStunMagicCookie "replicate 12 0"] by (simp add: bare_packet_def)
  show "packet_type (bare_packet type) = type" by (simp add: packet_type_def bare_packet_def be_dec_be16)
  let ?b = "yang_init_buffer (bare_packet type) 0 20"
  have l: "length (bare_packet type) = 20" by (simp add: bare_packet_def)
  have "take 2 (drop 2 (bare_packet type)) = be16 0" by (simp add: bare_packet_def)
  then have r: "yang_buffer_skip ?b 2 = adv ?b 2" "yang_read_2bytes (adv ?b 2) = Some (0, adv ?b 4)"
    "yang_read_bytes (adv ?b 4) 4 = Some (take 4 (drop 4 (bare_packet type)), adv ?b 8)" "yang_buffer_skip (adv ?b 8) 12 = adv ?b 20"
    using l be_dec_be16 [of 0] by (simp_all add: skip_adv w16.rd_spec init_room init_peek read_bytes_peek adv_adv)
  have "decode_loop turn_attribute (adv ?b 20) ts = Some (Yang_Ok, ts)"
    by (subst decode_loop.simps) (simp add: init_left)
  then show "yang_turn_decode ts (bare_packet type) 20 = Some (Yang_Ok, ts)"
    using r by (simp add: yang_turn_decode_def init_left stun_check_len_def)
qed

text \<open>A session with one peer, for concrete instances.\<close>

definition example_turn_env :: "unit turn_env" where
  "example_turn_env = \<lparr>se_random = (\<lambda>w. (0, w)), se_hmac = (\<lambda>key m. (Yang_Ok, replicate 20 7)), se_localInfo = (\<lambda>w. ([0], w)),
     se_send = (\<lambda>w d. (Yang_Ok, w)), te_md5 = (\<lambda>d. replicate 16 1), te_time = (\<lambda>w. (5000000, w)), te_inet_addr = (\<lambda>a. 0x0100007F),
     te_getIp = (\<lambda>w a. ([49, 0], w)), te_receive = (\<lambda>w u d n. w), te_sendto = (\<lambda>w d. (int (length d), w))\<rparr>"

definition example_server :: YangIceServer where
  "example_server = \<lparr>sv_serverIp = [49, 0], sv_serverPort = 3478, sv_stunIp = 0, sv_stunPort = 0, sv_relayIp = 0, sv_relayPort = 0,
     sv_username = [97, 0], sv_password = [98, 0]\<rparr>"

definition example_udp :: YangUdpSession where
  "example_udp = \<lparr>us_localPort = 0, us_remotePort = 0, us_isStart = True, us_isLoop = False, us_notRemoteInit = True,
     us_turnBuffer = Some (replicate 1500 0), us_remote_addr = 0, us_remote_sin_port = 0, us_local_sin_port = 0\<rparr>"

definition example_peer :: YangTurnPeer where
  "example_peer = \<lparr>tp_channelNumber = 0x4000, tp_uid = 7, tp_lifetimeOuttime = 0, tp_state = YangTurnPermission, tp_receiveUser = 1,
     tp_mapAddress = 0, tp_port = 9000\<rparr>"

definition example_turn :: YangTurnSession where
  "example_turn = \<lparr>ts_channelNum = 0x4001, ts_relayPort = 0, ts_nonceLen = 0, ts_permissionCount = 0, ts_relayIp = 0, ts_isStart = False,
     ts_isLoop = False, ts_waitTime = 50, ts_lifetime = 600, ts_allocateOuttime = 0, ts_state = YangTurnNew, ts_errorCode = YangTurnNoneError,
     ts_turnLock = False, ts_response = turn_response0, ts_server = example_server, ts_udp = example_udp, ts_icePwd = [], ts_realm = replicate 129 0,
     ts_nonce = replicate 128 0, ts_peers = \<lparr>capacity = 5, vsize = 1, payload = [Some example_peer, None, None, None, None]\<rparr>\<rparr>"

lemma example_turn_peers:
  "peers_ok (ts_peers example_turn)" "peer_list (ts_peers example_turn) = [example_peer]"
  by (simp_all add: example_turn_def peers_ok_def peer_list_def vec_ok_def vec_list_def)

text \<open>
  C16: a packet of the server moves the session and every peer exactly as the automaton says, whatever attributes it has, as long as
  they can be decoded.
\<close>
theorem turn_receive_automaton:
  assumes "peers_ok (ts_peers ts)" "yang_get_be32 data 4 = Some kStunMagicCookie"
    and "yang_turn_decode (ts\<lparr>ts_response := turn_response0\<rparr>) data nb \<noteq> None"
  shows "\<exists>ts' w'. yang_turnconn_receive env ts data nb w = Some (Yang_Ok, ts', w') \<and> peers_ok (ts_peers ts')
    \<and> ts_state ts' = turn_next (packet_type data) (ts_state ts)
    \<and> list_all2 (\<lambda>p q. same_peer p q \<and> tp_state q = peer_next (packet_type data) (tp_state p)) (peer_list (ts_peers ts)) (peer_list (ts_peers ts'))"
  by (rule receive_automaton [OF assms])

theorem turn_receive_automaton_witness:
  "\<exists>ts' w'. yang_turnconn_receive example_turn_env example_turn (bare_packet 0x0101) 20 () = Some (Yang_Ok, ts', w')
    \<and> ts_state ts' = YangTurnCredential \<and> map tp_state (peer_list (ts_peers ts')) = [YangTurnPermission]"
proof -
  have d: "yang_turn_decode (example_turn\<lparr>ts_response := turn_response0\<rparr>) (bare_packet 0x0101) 20 \<noteq> None" by (simp add: bare_facts)
  have n: "turn_next 0x0101 (ts_state example_turn) = YangTurnCredential" by (simp add: turn_next_def example_turn_def)
  obtain ts' w' where "yang_turnconn_receive example_turn_env example_turn (bare_packet 0x0101) 20 () = Some (Yang_Ok, ts', w')"
      "ts_state ts' = YangTurnCredential"
      "list_all2 (\<lambda>p q. same_peer p q \<and> tp_state q = peer_next 0x0101 (tp_state p)) [example_peer] (peer_list (ts_peers ts'))"
    using turn_receive_automaton [OF example_turn_peers(1) bare_facts(1) d, of example_turn_env "()", unfolded bare_facts(2) example_turn_peers(2) n]
    by blast
  then show ?thesis by (auto simp: list_all2_Cons1 peer_next_def example_peer_def)
qed

primrec receive_all :: "'w turn_env \<Rightarrow> u8 list list \<Rightarrow> YangTurnSession \<Rightarrow> 'w \<Rightarrow> (YangTurnSession \<times> 'w) option" where
  "receive_all env [] ts w = Some (ts, w)"
| "receive_all env (d # ds) ts w = do {
     (_, ts, w) \<leftarrow> yang_turnconn_receive env ts d (int (length d)) w;
     receive_all env ds ts w
   }"

lemma receive_bare:
  assumes "peers_ok (ts_peers ts)"
  shows "\<exists>ts' w'. yang_turnconn_receive env ts (bare_packet type) 20 w = Some (Yang_Ok, ts', w') \<and> peers_ok (ts_peers ts')
    \<and> ts_state ts' = turn_next type (ts_state ts)
    \<and> map tp_state (peer_list (ts_peers ts')) = map (peer_next type) (map tp_state (peer_list (ts_peers ts)))"
proof -
  have "yang_turn_decode (ts\<lparr>ts_response := turn_response0\<rparr>) (bare_packet type) 20 \<noteq> None" by (simp add: bare_facts)
  from receive_automaton [OF assms bare_facts(1) this, of env w]
  obtain ts' w' where r: "yang_turnconn_receive env ts (bare_packet type) 20 w = Some (Yang_Ok, ts', w')" "peers_ok (ts_peers ts')"
    "ts_state ts' = turn_next type (ts_state ts)"
    "list_all2 (\<lambda>p q. same_peer p q \<and> tp_state q = peer_next type (tp_state p)) (peer_list (ts_peers ts)) (peer_list (ts_peers ts'))"
    unfolding bare_facts(2) by blast
  then have "map tp_state (peer_list (ts_peers ts')) = map (peer_next type) (map tp_state (peer_list (ts_peers ts)))"
    by (auto simp: list_all2_conv_all_nth intro!: nth_equalityI)
  then show ?thesis using r by blast
qed

text \<open>
  C17: a new session whose peers wait for a permission is ready, with every peer ready, after the five answers of a server: binding
  success, allocate error (the demand for credentials), allocate, permission and channel success.
\<close>
theorem turn_handshake:
  assumes "peers_ok (ts_peers ts)" "ts_state ts = YangTurnNew" "\<forall>p \<in> set (peer_list (ts_peers ts)). tp_state p = YangTurnPermission"
  shows "\<exists>ts' w'. receive_all env [bare_packet 0x0101, bare_packet 0x0113, bare_packet 0x0103, bare_packet 0x0108, bare_packet 0x0109] ts w
      = Some (ts', w') \<and> yang_turnconn_isReady ts' \<and> length (peer_list (ts_peers ts')) = length (peer_list (ts_peers ts))
    \<and> (\<forall>p \<in> set (peer_list (ts_peers ts')). tp_state p = YangTurnReady)"
proof -
  have l: "int (length (bare_packet t)) = 20" for t by (simp add: bare_packet_def)
  obtain t1 w1 where 1: "yang_turnconn_receive env ts (bare_packet 0x0101) 20 w = Some (Yang_Ok, t1, w1)" "peers_ok (ts_peers t1)"
    "ts_state t1 = YangTurnCredential" "map tp_state (peer_list (ts_peers t1)) = map (peer_next 0x0101) (map tp_state (peer_list (ts_peers ts)))"
    using receive_bare [OF assms(1), of env "0x0101" w] assms(2) by (auto simp: turn_next_def)
  obtain t2 w2 where 2: "yang_turnconn_receive env t1 (bare_packet 0x0113) 20 w1 = Some (Yang_Ok, t2, w2)" "peers_ok (ts_peers t2)"
    "ts_state t2 = YangTurnAllocate" "map tp_state (peer_list (ts_peers t2)) = map (peer_next 0x0113) (map tp_state (peer_list (ts_peers t1)))"
    using receive_bare [OF 1(2), of env "0x0113" w1] 1(3) by (auto simp: turn_next_def less_YangTurnState_def)
  obtain t3 w3 where 3: "yang_turnconn_receive env t2 (bare_packet 0x0103) 20 w2 = Some (Yang_Ok, t3, w3)" "peers_ok (ts_peers t3)"
    "ts_state t3 = YangTurnPermission" "map tp_state (peer_list (ts_peers t3)) = map (peer_next 0x0103) (map tp_state (peer_list (ts_peers t2)))"
    using receive_bare [OF 2(2), of env "0x0103" w2] 2(3) by (auto simp: turn_next_def)
  obtain t4 w4 where 4: "yang_turnconn_receive env t3 (bare_packet 0x0108) 20 w3 = Some (Yang_Ok, t4, w4)" "peers_ok (ts_peers t4)"
    "ts_state t4 = YangTurnBindChannel" "map tp_state (peer_list (ts_peers t4)) = map (peer_next 0x0108) (map tp_state (peer_list (ts_peers t3)))"
    using receive_bare [OF 3(2), of env "0x0108" w3] 3(3) by (auto simp: turn_next_def less_YangTurnState_def)
  obtain t5 w5 where 5: "yang_turnconn_receive env t4 (bare_packet 0x0109) 20 w4 = Some (Yang_Ok, t5, w5)" "peers_ok (ts_peers t5)"
    "ts_state t5 = YangTurnReady" "map tp_state (peer_list (ts_peers t5)) = map (peer_next 0x0109) (map tp_state (peer_list (ts_peers t4)))"
    using receive_bare [OF 4(2), of env "0x0109" w4] 4(3) by (auto simp: turn_next_def less_YangTurnState_def)
  let ?n = "length (peer_list (ts_peers ts))"
  have "map tp_state (peer_list (ts_peers ts)) = replicate ?n YangTurnPermission"
    using assms(3) by (metis map_replicate_const map_cong)
  then have "map tp_state (peer_list (ts_peers t3)) = replicate ?n YangTurnPermission"
    using 1(4) 2(4) 3(4) by (simp add: peer_next_def map_replicate)
  then have r: "map tp_state (peer_list (ts_peers t5)) = replicate ?n YangTurnReady"
    unfolding 5(4) 4(4) by (simp add: peer_next_def map_replicate)
  have "length (peer_list (ts_peers t5)) = ?n" using arg_cong [OF r, of length] by simp
  moreover have "\<forall>p \<in> set (peer_list (ts_peers t5)). tp_state p = YangTurnReady"
    using arg_cong [OF r, of set] by (auto split: if_splits)
  ultimately show ?thesis using 1(1) 2(1) 3(1) 4(1) 5(1,3) l by (simp add: yang_turnconn_isReady_def)
qed

theorem turn_handshake_witness:
  "\<exists>ts' w'. receive_all example_turn_env [bare_packet 0x0101, bare_packet 0x0113, bare_packet 0x0103, bare_packet 0x0108, bare_packet 0x0109]
      example_turn () = Some (ts', w') \<and> yang_turnconn_isReady ts' \<and> length (peer_list (ts_peers ts')) = 1"
proof -
  have s: "ts_state example_turn = YangTurnNew" by (simp add: example_turn_def)
  have p: "\<forall>p \<in> set (peer_list (ts_peers example_turn)). tp_state p = YangTurnPermission"
    by (simp add: example_turn_peers(2) example_peer_def)
  show ?thesis using turn_handshake [OF example_turn_peers(1) s p, of example_turn_env "()"] unfolding example_turn_peers(2) list.size
    by (metis One_nat_def add_0)
qed

section \<open>The nonce\<close>

lemma advance_all_frame: "advance_all env from to ts w = Some (ts', w') \<Longrightarrow> \<exists>v. ts' = ts\<lparr>ts_peers := v\<rparr>"
  by (auto simp: advance_all_def Let_def bind_eq_Some_conv)

lemma handle_recv_nonce:
  assumes "yang_turnconn_handleRecv env ts data w = Some (err, ts', w')"
  shows "ts_nonce ts' = ts_nonce ts \<and> ts_nonceLen ts' = ts_nonceLen ts"
proof -
  obtain ty where ty: "yang_get_be16 data 0 = Some ty" using assms by (auto simp: yang_turnconn_handleRecv_def bind_eq_Some_conv)
  note d = yang_turnconn_handleRecv_def ty Let_def
  consider "ty = 0x0101" | "ty = 0x0103" | "ty = 0x0104" | "ty = 0x0108" | "ty = 0x0109"
    | "ty \<noteq> 0x0101" "ty \<noteq> 0x0103" "ty \<noteq> 0x0104" "ty \<noteq> 0x0108" "ty \<noteq> 0x0109" by blast
  then show ?thesis
  proof cases
    case 1 then show ?thesis using assms by (auto simp: d)
  next
    case 2
    obtain ta wa where al: "turn_allocated env ts w = (ta, wa)" by (cases "turn_allocated env ts w")
    show ?thesis using assms 2 al turn_allocated_kept [OF al] by (auto simp: d split: if_split_asm)
  next
    case 3 then show ?thesis using assms by (auto simp: d split: prod.splits)
  next
    case 4
    then obtain u v where "advance_all env YangTurnPermission YangTurnBindChannel ts w = Some (u, v)"
      using assms by (auto simp: d bind_eq_Some_conv)
    with advance_all_frame [OF this] 4 show ?thesis using assms by (auto simp: d)
  next
    case 5
    then obtain u v where "advance_all env YangTurnBindChannel YangTurnReady ts w = Some (u, v)"
      using assms by (auto simp: d bind_eq_Some_conv)
    with advance_all_frame [OF this] 5 show ?thesis using assms by (auto simp: d)
  next
    case 6 then show ?thesis using assms by (simp add: d)
  qed
qed

text \<open>
  C21: once the client has a nonce, no packet changes it: the decoder ignores a nonce attribute when one is set. A server that
  rejects the nonce as stale (error 438) is answered with the same nonce for ever.
\<close>
theorem turn_nonce_frozen:
  assumes "ts_nonceLen ts \<noteq> 0" "yang_turnconn_receive env ts data nb w = Some (err, ts', w')"
  shows "ts_nonce ts' = ts_nonce ts \<and> ts_nonceLen ts' = ts_nonceLen ts"
proof (cases "yang_get_be32 data 4 = Some kStunMagicCookie")
  case False
  then show ?thesis using assms(2) by (auto simp: yang_turnconn_receive_def Let_def bind_eq_Some_conv)
next
  case True
  then obtain e ts1 where d: "yang_turn_decode (ts\<lparr>ts_response := turn_response0\<rparr>) data nb = Some (e, ts1)"
    using assms(2) by (auto simp: yang_turnconn_receive_def Let_def bind_eq_Some_conv)
  let ?P = "\<lambda>p. ts_nonceLen p \<noteq> 0 \<and> tr_nonceLen (ts_response p) = 0"
  have "?P ts1"
  proof (rule turn_decode_invariant [OF d, where P = ?P])
    fix t l v p p' assume "turn_attribute t l v p = Some p'" "?P p"
    then show "?P p'" by (auto simp: turn_attribute_def Let_def bind_eq_Some_conv split: if_splits)
  qed (use assms(1) in \<open>simp add: turn_response0_def\<close>)
  then have n: "tr_nonceLen (ts_response ts1) = 0" by simp
  have k: "ts_nonce ts1 = ts_nonce ts" "ts_nonceLen ts1 = ts_nonceLen ts" using turn_decode_kept_response(1) [OF d] by (simp_all add: kept_def)
  have same: "yang_turnconn_updateNonce v = Some v" if "tr_nonceLen (ts_response v) = 0" for v
    using that by (simp add: yang_turnconn_updateNonce_def Let_def)
  consider u where "yang_turnconn_handleError ts1 data = Some (u, ts')" | "yang_turnconn_handleRecv env ts1 data w = Some (err, ts', w')"
    using assms(2) True d by (auto simp: yang_turnconn_receive_def Let_def bind_eq_Some_conv split: if_splits)
  then show ?thesis
  proof cases
    case 1
    define v where "v ty = (if ty = (0x0113 :: u16) then (if ts_state ts1 < YangTurnAllocate then ts1\<lparr>ts_state := YangTurnAllocate\<rparr> else ts1)
        else if ty = 0x0114 then ts1\<lparr>ts_errorCode := YangTurnRefreshError\<rparr>
        else if ty = 0x0118 then ts1\<lparr>ts_errorCode := YangTurnPermissionError\<rparr>
        else if ty = 0x0119 then ts1\<lparr>ts_errorCode := YangTurnBindChannelError\<rparr>
        else ts1\<lparr>ts_errorCode := YangTurnKwnownError\<rparr>)" for ty
    have v: "ts_nonce (v ty) = ts_nonce ts" "ts_nonceLen (v ty) = ts_nonceLen ts" "tr_nonceLen (ts_response (v ty)) = 0" for ty
      using k n by (simp_all add: v_def)
    from 1 obtain ty where "ts' = v ty"
      unfolding yang_turnconn_handleError_def Let_def v_def [symmetric] by (auto simp: bind_eq_Some_conv same v(3) split: if_splits)
    then show ?thesis using v by simp
  next
    case 2
    from handle_recv_nonce [OF this] show ?thesis using k by simp
  qed
qed

text \<open>Attributes of an error answer: the code 438 and another nonce.\<close>

definition stale_nonce :: "u8 list" where
  "stale_nonce = be16 0x0113 @ be16 16 @ be32 kStunMagicCookie @ replicate 12 0
     @ be16 0x0009 @ be16 4 @ [0, 0, 4, 38] @ be16 StunNonce @ be16 4 @ [110, 101, 119, 33]"

theorem turn_nonce_frozen_witness:
  "\<exists>ts' w'. yang_turnconn_receive example_turn_env (example_turn\<lparr>ts_nonceLen := 3\<rparr>) stale_nonce 36 () = Some (Yang_Ok, ts', w')
    \<and> ts_nonceLen ts' = 3"
proof -
  let ?ts = "example_turn\<lparr>ts_nonceLen := 3\<rparr>"
  have "map_option (\<lambda>(err, ts', w'). err) (yang_turnconn_receive example_turn_env ?ts stale_nonce 36 ()) = Some Yang_Ok" by code_simp
  then obtain ts' w' where r: "yang_turnconn_receive example_turn_env ?ts stale_nonce 36 () = Some (Yang_Ok, ts', w')" by auto
  moreover have "ts_nonceLen ts' = ts_nonceLen ?ts"
    using turn_nonce_frozen [OF _ r] by (simp add: example_turn_def)
  ultimately show ?thesis by simp
qed

end
