(* ===== verification/Turn_Peers.thy ===== *)
theory Turn_Peers
  imports Turn_Facts
begin

text \<open>
  The peers of a TURN session: how they get their channels, how data finds them, what happens when one is removed, and what every
  reachable state of the session keeps.
\<close>

section \<open>Searching the peers\<close>

lemma find_channel_spec:
  "i + k \<le> length ps \<Longrightarrow> None \<notin> set (take (i + k) ps) \<Longrightarrow>
     find_channel k (int i) ps c = Some (find (\<lambda>p. tp_state p = YangTurnReady \<and> tp_channelNumber p = c) (map the (take k (drop i ps))))"
proof (induction k arbitrary: i)
  case (Suc k)
  obtain p where p: "ps ! i = Some p" using take_Some [OF Suc.prems(2), of i] Suc.prems(1) by auto
  have d: "take (Suc k) (drop i ps) = Some p # take k (drop (Suc i) ps)"
    using p Suc.prems(1) by (simp add: Cons_nth_drop_Suc [symmetric])
  show ?case
    using Suc.IH [of "Suc i"] Suc.prems p unfolding d by (simp add: mem_load_def add.commute)
qed simp

lemma find_ready_spec:
  "i + k \<le> length ps \<Longrightarrow> None \<notin> set (take (i + k) ps) \<Longrightarrow>
     find_ready k (int i) ps u = Some (find (\<lambda>p. tp_state p = YangTurnReady \<and> tp_uid p = u) (map the (take k (drop i ps))))"
proof (induction k arbitrary: i)
  case (Suc k)
  obtain p where p: "ps ! i = Some p" using take_Some [OF Suc.prems(2), of i] Suc.prems(1) by auto
  have d: "take (Suc k) (drop i ps) = Some p # take k (drop (Suc i) ps)"
    using p Suc.prems(1) by (simp add: Cons_nth_drop_Suc [symmetric])
  show ?case
    using Suc.IH [of "Suc i"] Suc.prems p unfolding d by (simp add: mem_load_def add.commute)
qed simp

lemma find_uid_spec:
  "i + k \<le> length ps \<Longrightarrow> None \<notin> set (take (i + k) ps) \<Longrightarrow>
     (\<exists>j p. i \<le> j \<and> j < i + k \<and> ps ! j = Some p \<and> tp_uid p = u \<and> find_uid k (int i) ps u = Some (Some (int j, p))
        \<and> (\<forall>l. i \<le> l \<and> l < j \<longrightarrow> tp_uid (the (ps ! l)) \<noteq> u))
     \<or> (\<forall>j. i \<le> j \<and> j < i + k \<longrightarrow> tp_uid (the (ps ! j)) \<noteq> u) \<and> find_uid k (int i) ps u = Some None"
proof (induction k arbitrary: i)
  case (Suc k)
  obtain p where p: "ps ! i = Some p" using take_Some [OF Suc.prems(2), of i] Suc.prems(1) by auto
  have ld: "mem_load ps (int i) = Some (Some p)" using p Suc.prems(1) by (simp add: mem_load_def)
  show ?case
  proof (cases "tp_uid p = u")
    case True
    then show ?thesis using ld p by (intro disjI1 exI [of _ i] exI [of _ p]) simp
  next
    case False
    have st: "find_uid (Suc k) (int i) ps u = find_uid k (int (Suc i)) ps u" using ld False by (simp add: add.commute)
    have "i + Suc k = Suc i + k" by simp
    then consider j q where "Suc i \<le> j" "j < i + Suc k" "ps ! j = Some q" "tp_uid q = u" "find_uid k (int (Suc i)) ps u = Some (Some (int j, q))"
        "\<forall>l. Suc i \<le> l \<and> l < j \<longrightarrow> tp_uid (the (ps ! l)) \<noteq> u"
      | "\<forall>j. Suc i \<le> j \<and> j < i + Suc k \<longrightarrow> tp_uid (the (ps ! j)) \<noteq> u" "find_uid k (int (Suc i)) ps u = Some None"
      using Suc.IH [of "Suc i"] Suc.prems by auto
    then show ?thesis
    proof cases
      case 1
      moreover have "tp_uid (the (ps ! l)) \<noteq> u" if "i \<le> l" "l < j" for l
        using 1(6) that p False by (cases "l = i") auto
      ultimately show ?thesis unfolding st by (intro disjI1 exI [of _ j] exI [of _ q]) auto
    next
      case 2
      moreover have "tp_uid (the (ps ! j)) \<noteq> u" if "i \<le> j" "j < i + Suc k" for j
        using 2(1) that p False by (cases "j = i") auto
      ultimately show ?thesis unfolding st by auto
    qed
  qed
qed simp

section \<open>Channels\<close>

type_synonym turn_join = "int \<times> nat \<times> u8 list \<times> u16"

primrec add_peers :: "'w turn_env \<Rightarrow> turn_join list \<Rightarrow> YangTurnSession \<Rightarrow> YangTurnSession option" where
  "add_peers env [] ts = Some ts"
| "add_peers env (x # xs) ts = (case x of (uid, user, ip, port) \<Rightarrow> do {
     (_, ts) \<leftarrow> yang_turnconn_addPeer env ts uid user ip port;
     add_peers env xs ts
   })"

lemma peer_list_length: "vec_ok v \<Longrightarrow> int (length (peer_list v)) = vsize v"
  by (simp add: peer_list_def length_vec_list)

lemma add_peer:
  assumes "peers_ok (ts_peers ts)" "\<not> ts_turnLock ts"
  defines "c \<equiv> if Yang_Turn_ChannelNumBase + 31 < ts_channelNum ts then Yang_Turn_ChannelNumBase else ts_channelNum ts"
  shows "\<exists>v. yang_turnconn_addPeer env ts uid user ip port = Some (Yang_Ok, ts\<lparr>ts_channelNum := c + 1, ts_peers := v, ts_waitTime := 50\<rparr>)
    \<and> peers_ok v \<and> peer_list v = peer_list (ts_peers ts) @ [\<lparr>tp_channelNumber = c, tp_uid = uid, tp_lifetimeOuttime = 0,
        tp_state = YangTurnPermission, tp_receiveUser = user, tp_mapAddress = be32toh (te_inet_addr env ip), tp_port = port\<rparr>]"
proof -
  let ?p = "\<lparr>tp_channelNumber = c, tp_uid = uid, tp_lifetimeOuttime = 0,
        tp_state = YangTurnPermission, tp_receiveUser = user, tp_mapAddress = be32toh (te_inet_addr env ip), tp_port = port\<rparr>"
  from assms(1) have "vec_ok (ts_peers ts)" by (simp add: peers_ok_def)
  from pvec.insert_elems [OF this, of None "Some ?p"] obtain v
    where "yang_insert_Vector2 None (ts_peers ts) (Some (Some ?p)) = Some v" "vec_ok v" "vec_list v = vec_list (ts_peers ts) @ [Some ?p]" by blast
  then show ?thesis
    using assms(1,2) by (auto simp: yang_turnconn_addPeer_def Let_def peers_ok_def peer_list_def c_def)
qed

text \<open>The channel number after \<open>k\<close> peers.\<close>

definition channel_after :: "nat \<Rightarrow> u16" where
  "channel_after k = (if k = 0 then Yang_Turn_ChannelNumBase else Yang_Turn_ChannelNumBase + word_of_nat ((k - 1) mod 32) + 1)"

lemma channel_next:
  "(if Yang_Turn_ChannelNumBase + 31 < channel_after k then Yang_Turn_ChannelNumBase else channel_after k)
     = Yang_Turn_ChannelNumBase + word_of_nat (k mod 32)"
proof (cases k)
  case 0
  then show ?thesis by (simp add: channel_after_def Yang_Turn_ChannelNumBase_def word_less_nat_alt)
next
  case (Suc j)
  define m where "m = j mod 32"
  have m: "m < 32" by (simp add: m_def)
  have k: "k mod 32 = (if m = 31 then 0 else m + 1)" by (simp add: Suc m_def mod_Suc)
  have w: "(0x4000 + word_of_nat m + 1 :: u16) = word_of_nat (0x4000 + m + 1)" by simp
  have u: "unat (word_of_nat (0x4000 + m + 1) :: u16) = 0x4000 + m + 1" by (rule uint_of_size(2)) (use m in simp)
  have c: "channel_after k = word_of_nat (0x4000 + m + 1)"
    unfolding w [symmetric] by (simp add: channel_after_def Suc Yang_Turn_ChannelNumBase_def m_def)
  have "Yang_Turn_ChannelNumBase + 31 < channel_after k \<longleftrightarrow> m = 31"
    unfolding c word_less_nat_alt u using m by (auto simp: Yang_Turn_ChannelNumBase_def)
  then show ?thesis
    unfolding k c by (simp add: Yang_Turn_ChannelNumBase_def)
qed

lemma add_peers_channels:
  assumes "peers_ok (ts_peers ts)" "\<not> ts_turnLock ts" "ts_channelNum ts = channel_after k"
  shows "\<exists>ts'. add_peers env xs ts = Some ts' \<and> peers_ok (ts_peers ts') \<and> \<not> ts_turnLock ts'
    \<and> map tp_channelNumber (peer_list (ts_peers ts')) = map tp_channelNumber (peer_list (ts_peers ts))
        @ map (\<lambda>i. Yang_Turn_ChannelNumBase + word_of_nat (i mod 32)) [k..<k + length xs]"
  using assms
proof (induction xs arbitrary: ts k)
  case Nil
  then show ?case by simp
next
  case (Cons x xs)
  obtain uid user ip port where x: "x = (uid, user, ip, port)" by (cases x)
  let ?c = "Yang_Turn_ChannelNumBase + word_of_nat (k mod 32) :: u16"
  from add_peer [OF Cons.prems(1,2), of env uid user ip port] obtain v
    where v: "yang_turnconn_addPeer env ts uid user ip port = Some (Yang_Ok, ts\<lparr>ts_channelNum := ?c + 1, ts_peers := v, ts_waitTime := 50\<rparr>)"
      "peers_ok v" "map tp_channelNumber (peer_list v) = map tp_channelNumber (peer_list (ts_peers ts)) @ [?c]"
    unfolding Cons.prems(3) channel_next by auto
  let ?ts = "ts\<lparr>ts_channelNum := ?c + 1, ts_peers := v, ts_waitTime := 50\<rparr>"
  have "ts_channelNum ?ts = channel_after (Suc k)" by (simp add: channel_after_def)
  with Cons.IH [of ?ts "Suc k"] v(2) Cons.prems(2) obtain ts'
    where "add_peers env xs ?ts = Some ts'" "peers_ok (ts_peers ts')" "\<not> ts_turnLock ts'"
      "map tp_channelNumber (peer_list (ts_peers ts')) = map tp_channelNumber (peer_list v)
        @ map (\<lambda>i. Yang_Turn_ChannelNumBase + word_of_nat (i mod 32)) [Suc k..<Suc k + length xs]" by auto
  moreover have "[k..<k + length (x # xs)] = k # [Suc k..<Suc k + length xs]" by (simp add: upt_conv_Cons del: upt_Suc)
  ultimately show ?case using x v(1,3) by simp
qed

lemma channel_inj:
  assumes "i < 32" "j < 32" "Yang_Turn_ChannelNumBase + word_of_nat i = (Yang_Turn_ChannelNumBase + word_of_nat j :: u16)"
  shows "i = j"
proof -
  have "word_of_nat i = (word_of_nat j :: u16)" using assms(3) by simp
  then have "unat (word_of_nat i :: u16) = unat (word_of_nat j :: u16)" by simp
  then show ?thesis using assms(1,2) by (simp add: unsigned_of_nat take_bit_nat_eq_self)
qed

text \<open>
  C20: peers added to a new session get the channel numbers from the base on, modulo 32: they are distinct exactly as long as there are
  at most 32. From the 33rd on a number is used twice.
\<close>
theorem turn_channels:
  assumes "peers_ok (ts_peers ts)" "peer_list (ts_peers ts) = []" "\<not> ts_turnLock ts" "ts_channelNum ts = Yang_Turn_ChannelNumBase"
  shows "\<exists>ts'. add_peers env xs ts = Some ts'
    \<and> map tp_channelNumber (peer_list (ts_peers ts')) = map (\<lambda>i. Yang_Turn_ChannelNumBase + word_of_nat (i mod 32)) [0..<length xs]
    \<and> (distinct (map tp_channelNumber (peer_list (ts_peers ts'))) \<longleftrightarrow> length xs \<le> 32)"
proof -
  let ?f = "\<lambda>i. Yang_Turn_ChannelNumBase + word_of_nat (i mod 32) :: u16"
  have "ts_channelNum ts = channel_after 0" by (simp add: assms(4) channel_after_def)
  from add_peers_channels [OF assms(1,3) this, of env xs] assms(2) obtain ts'
    where t: "add_peers env xs ts = Some ts'" "map tp_channelNumber (peer_list (ts_peers ts')) = map ?f [0..<length xs]" by auto
  have "distinct (map ?f [0..<length xs]) \<longleftrightarrow> length xs \<le> 32"
  proof
    assume d: "distinct (map ?f [0..<length xs])"
    show "length xs \<le> 32"
    proof (rule ccontr)
      assume "\<not> length xs \<le> 32"
      then have l: "0 < length xs" "32 < length xs" by linarith+
      have "inj_on ?f {0..<length xs}" using d by (simp add: distinct_map)
      from inj_onD [OF this, of 0 32] l show False by simp
    qed
  next
    assume "length xs \<le> 32"
    then show "distinct (map ?f [0..<length xs])" by (auto simp: distinct_map intro!: inj_onI channel_inj)
  qed
  then show ?thesis using t by auto
qed

lemma create_facts:
  assumes "yang_create_turnConnection env ts0 server udp w = Some (ts, w')"
  shows "peers_ok (ts_peers ts)" "peer_list (ts_peers ts) = []" "\<not> ts_turnLock ts" "ts_channelNum ts = Yang_Turn_ChannelNumBase"
    "ts_realm ts = ts_realm ts0" "ts_nonce ts = ts_nonce ts0" "ts_nonceLen ts = 0"
  using assms create_Vector_ok [of "None :: YangTurnPeer option"]
  by (auto simp: yang_create_turnConnection_def peers_ok_def peer_list_def Let_def split: prod.splits Option.bind_splits)

definition example_fresh :: YangTurnSession where
  "example_fresh = fst (the (yang_create_turnConnection example_turn_env example_turn example_server example_udp ()))"

lemma example_fresh: "yang_create_turnConnection example_turn_env example_turn example_server example_udp () = Some (example_fresh, ())"
  using create_total [of example_turn_env example_turn example_server example_udp "()"] by (auto simp: example_fresh_def)

lemma example_fresh_facts:
  "peers_ok (ts_peers example_fresh)" "peer_list (ts_peers example_fresh) = []" "\<not> ts_turnLock example_fresh"
  "ts_channelNum example_fresh = Yang_Turn_ChannelNumBase"
  by (rule create_facts [OF example_fresh])+

theorem turn_channels_witness:
  "\<exists>ts'. add_peers example_turn_env (replicate 33 (7, 1, [49, 0], 9000)) example_fresh = Some ts'
    \<and> \<not> distinct (map tp_channelNumber (peer_list (ts_peers ts')))"
  using turn_channels [OF example_fresh_facts, of example_turn_env "replicate 33 (7, 1, [49, 0], 9000)"] by auto

section \<open>Data\<close>

text \<open>
  C19: data on a channel goes to the first ready peer that has this channel, with the memory behind the four header bytes and the length
  the packet announces, and changes nothing; data on an unknown channel is dropped.
\<close>
theorem turn_channel_delivery:
  assumes "peers_ok (ts_peers ts)" "data = be16 c @ be16 n @ rest" "4 \<le> length rest" "take 4 rest \<noteq> be32 kStunMagicCookie"
  shows "yang_turnconn_receive env ts data nb w = Some (Yang_Ok, ts,
    case find (\<lambda>p. tp_state p = YangTurnReady \<and> tp_channelNumber p = c) (peer_list (ts_peers ts)) of
      None \<Rightarrow> w | Some p \<Rightarrow> te_receive env w (tp_receiveUser p) rest (uint n))"
proof -
  note pv = peers_vec [OF assms(1)]
  obtain a b d e r where rest: "rest = a # b # d # e # r" using assms(3) by (cases rest rule: tlvs.cases) auto
  have be: "be32 (be_dec [a, b, d, e]) = [a, b, d, e]"
    by (simp add: be32_def be_dec_def word_byte_le_word numeral_2_eq_2 numeral_3_eq_3)
  have "yang_get_be32 data 4 = Some (be_dec [a, b, d, e])"
    using get_be32_behind [of "be16 c @ be16 n" "be_dec [a, b, d, e]" r] unfolding be by (simp add: assms(2) rest)
  moreover have "be_dec [a, b, d, e] \<noteq> kStunMagicCookie" using assms(4) be by (auto simp: rest)
  moreover have "yang_get_be16 data 0 = Some c" "yang_get_be16 data 2 = Some n"
    using get_be16_at [of "[]" c "be16 n @ rest"] get_be16_at [of "be16 c" n rest] by (simp_all add: assms(2))
  moreover have "find_channel (nat (vsize (ts_peers ts))) 0 (payload (ts_peers ts)) c =
      Some (find (\<lambda>p. tp_state p = YangTurnReady \<and> tp_channelNumber p = c) (peer_list (ts_peers ts)))"
    using find_channel_spec [of 0 "nat (vsize (ts_peers ts))" "payload (ts_peers ts)" c] pv by (simp add: peer_list_def)
  moreover have "drop 4 data = rest" by (simp add: assms(2))
  ultimately show ?thesis by (simp add: yang_turnconn_receive_def split: option.split)
qed

theorem turn_channel_delivery_witness:
  "yang_turnconn_receive example_turn_env example_turn (be16 0x4000 @ be16 4 @ [1, 2, 3, 4]) 8 () = Some (Yang_Ok, example_turn, ())"
  using turn_channel_delivery [OF example_turn_peers(1) refl, of "[1, 2, 3, 4]" example_turn_env "0x4000" 4 8 "()"]
  by (simp add: be32_def word_byte_def)

text \<open>What is written into the socket's buffer.\<close>

lemma turn_frame_works:
  assumes "length m = 1500" "length data = n" "n \<le> 1496"
  shows "turn_frame (Some m) data (int n) = Some (take 2 m @ be16 (word_of_nat n) @ data @ drop (4 + n) m)"
proof -
  obtain a b c d r where m: "m = a # b # c # d # r" using assms(1) by (cases m rule: tlvs.cases) auto
  have "mem_read data 0 (int n) = Some data" using assms(2) by (auto simp: mem_read_def)
  moreover have "mem_write m 4 data = Some (a # b # c # d # data @ drop n r)" using assms by (cases "data = []") (simp_all add: mem_write_def m numeral_eq_Suc)
  moreover have "drop (4 + n) m = drop n r" by (simp add: m numeral_eq_Suc)
  ultimately show ?thesis by (simp add: turn_frame_def put_be16_write mem_write_def be16_def m)
qed

text \<open>
  C18: data for a ready peer leaves as one datagram: the number of its channel, the length and the data; the answer of the
  socket is passed on, and only the socket's buffer changes.
\<close>
theorem turn_send_frame:
  assumes "peers_ok (ts_peers ts)" "us_isStart (ts_udp ts)" "\<not> us_notRemoteInit (ts_udp ts)" "ts_state ts = YangTurnReady"
    and "us_turnBuffer (ts_udp ts) = Some m" "length m = 1500" "length data = n" "n \<le> 1496"
    and "find (\<lambda>p. tp_state p = YangTurnReady \<and> tp_uid p = uid) (peer_list (ts_peers ts)) = Some p"
    and r: "r = te_sendto env w (be16 (tp_channelNumber p) @ be16 (word_of_nat n) @ data)"
  shows "\<exists>m'. yang_turnconn_sendData env ts uid data (int n) w
      = Some (if 0 < fst r then Yang_Ok else 1, ts\<lparr>ts_udp := (ts_udp ts)\<lparr>us_turnBuffer := Some m'\<rparr>\<rparr>, snd r) \<and> length m' = 1500"
proof -
  note pv = peers_vec [OF assms(1)]
  let ?f = "be16 (tp_channelNumber p) @ be16 (word_of_nat n) @ data"
  let ?m = "?f @ drop (4 + n) m"
  have f: "find_ready (nat (vsize (ts_peers ts))) 0 (payload (ts_peers ts)) uid = Some (Some p)"
    using find_ready_spec [of 0 "nat (vsize (ts_peers ts))" "payload (ts_peers ts)" uid] pv assms(9) by (simp add: peer_list_def)
  have l: "length ?m = 1500" using assms(6-8) by simp
  obtain a b s where s: "m = a # b # s" using assms(6) by (cases m rule: tlvs.cases) auto
  have w: "yang_put_be16 (take 2 m @ be16 (word_of_nat n) @ data @ drop (4 + n) m) 0 (tp_channelNumber p) = Some (?m, 2)"
    by (simp add: put_be16_write mem_write_def be16_def s)
  have "mem_read ?m 0 (int n + 4) = Some ?f"
  proof -
    have "nat (int n + 4) = length ?f" using assms(7) by simp
    then have "take (nat (int n + 4)) ?m = ?f" by simp
    moreover have "int n + 4 \<le> int (length ?m)" unfolding l using assms(8) by simp
    ultimately show ?thesis by (simp add: mem_read_def)
  qed
  then have "yang_turnconn_sendData env ts uid data (int n) w
      = Some (if 0 < fst r then Yang_Ok else 1, ts\<lparr>ts_udp := (ts_udp ts)\<lparr>us_turnBuffer := Some ?m\<rparr>\<rparr>, snd r)"
    using assms(2-5) f w turn_frame_works [OF assms(6-8)]
    by (simp add: yang_turnconn_sendData_def Let_def r case_prod_unfold del: append_assoc)
  then show ?thesis using l by blast
qed

definition example_ready :: YangTurnSession where
  "example_ready = example_turn\<lparr>ts_state := YangTurnReady, ts_udp := example_udp\<lparr>us_notRemoteInit := False\<rparr>,
     ts_peers := \<lparr>capacity = 5, vsize = 1, payload = [Some (example_peer\<lparr>tp_state := YangTurnReady\<rparr>), None, None, None, None]\<rparr>\<rparr>"

theorem turn_send_frame_witness:
  "\<exists>ts'. yang_turnconn_sendData example_turn_env example_ready 7 [1, 2, 3] 3 () = Some (Yang_Ok, ts', ())"
proof -
  have p: "peers_ok (ts_peers example_ready)" "peer_list (ts_peers example_ready) = [example_peer\<lparr>tp_state := YangTurnReady\<rparr>]"
    by (simp_all add: example_ready_def peers_ok_def peer_list_def vec_ok_def vec_list_def)
  show ?thesis
    using turn_send_frame [OF p(1) _ _ _ _ _ _ _ _ refl, of "replicate 1500 0" "[1, 2, 3]" 3 7 "example_peer\<lparr>tp_state := YangTurnReady\<rparr>" example_turn_env "()"]
    unfolding p(2) by (auto simp: example_ready_def example_udp_def example_peer_def example_turn_env_def)
qed

section \<open>Removal\<close>

text \<open>
  C22: removing a peer that is there leaves the lock held, so that every later attempt to add or remove a peer waits for ever.
\<close>
theorem turn_remove_blocks:
  assumes "peers_ok (ts_peers ts)" "\<not> ts_turnLock ts" "u \<in> tp_uid ` set (peer_list (ts_peers ts))"
  shows "\<exists>ts'. yang_turnconn_removePeer ts u = Some (Yang_Ok, ts') \<and> length (peer_list (ts_peers ts')) + 1 = length (peer_list (ts_peers ts))
    \<and> yang_turnconn_addPeer env ts' uid user ip port = None \<and> yang_turnconn_removePeer ts' uid = None"
proof -
  let ?v = "ts_peers ts"
  note pv = peers_vec [OF assms(1)]
  have ok: "vec_ok ?v" using assms(1) by (simp add: peers_ok_def)
  have ex: "\<exists>j < nat (vsize ?v). tp_uid (the (payload ?v ! j)) = u"
    using assms(3) pv(1) by (fastforce simp: peer_list_def vec_list_def in_set_conv_nth)
  obtain j p where f: "j < nat (vsize ?v)" "payload ?v ! j = Some p" "find_uid (nat (vsize ?v)) 0 (payload ?v) u = Some (Some (int j, p))"
    using find_uid_spec [of 0 "nat (vsize ?v)" "payload ?v" u] pv ex by auto
  let ?v1 = "?v\<lparr>payload := (payload ?v)[j := None]\<rparr>"
  have ok1: "vec_ok ?v1" using ok by (simp add: vec_ok_def)
  from pvec.remove_elems [OF ok1, of "int j" None] obtain v2
    where r: "yang_remove_Vector2 None ?v1 (int j) = Some v2" "vec_list v2 = take j (vec_list ?v1) @ drop (Suc j) (vec_list ?v1)" by auto
  have l: "length (vec_list ?v1) = nat (vsize ?v)" using pv(1) by (simp add: vec_list_def)
  have lv: "length (peer_list ?v) = nat (vsize ?v)" using pv(1) by (simp add: peer_list_def vec_list_def)
  have "length (peer_list v2) + 1 = length (peer_list ?v)"
    using r(2) f(1) l lv by (simp add: peer_list_def)
  moreover have "mem_store (payload ?v) (int j) None = Some ((payload ?v)[j := None])" using f(1) pv(1) by (simp add: mem_store_def)
  ultimately show ?thesis
    using f(3) r(1) assms(2) by (auto simp: yang_turnconn_removePeer_def yang_turnconn_addPeer_def Let_def)
qed

theorem turn_remove_blocks_witness:
  "\<exists>ts'. yang_turnconn_removePeer example_turn 7 = Some (Yang_Ok, ts') \<and> yang_turnconn_addPeer example_turn_env ts' 8 2 [49, 0] 9000 = None"
proof -
  have l: "\<not> ts_turnLock example_turn" by (simp add: example_turn_def)
  have u: "7 \<in> tp_uid ` set (peer_list (ts_peers example_turn))" by (simp add: example_turn_peers(2) example_peer_def)
  show ?thesis using turn_remove_blocks [OF example_turn_peers(1) l u, of example_turn_env 8 2 "[49, 0]" 9000] by blast
qed

section \<open>Reachable states\<close>

text \<open>The steps of the three threads. The address of a new peer and the data are arbitrary.\<close>

inductive turn_step :: "'w turn_env \<Rightarrow> YangTurnSession \<times> 'w \<Rightarrow> YangTurnSession \<times> 'w \<Rightarrow> bool" for env where
  step_pass: "turn_pass env err ts w = Some (err', ts', w') \<Longrightarrow> turn_step env (ts, w) (ts', w')"
| step_receive: "yang_turnconn_receive env ts data nb w = Some (err, ts', w') \<Longrightarrow> turn_step env (ts, w) (ts', w')"
| step_add: "yang_turnconn_addPeer env ts uid user ip port = Some (err, ts') \<Longrightarrow> turn_step env (ts, w) (ts', w)"
| step_remove: "yang_turnconn_removePeer ts uid = Some (err, ts') \<Longrightarrow> turn_step env (ts, w) (ts', w)"
| step_send: "yang_turnconn_sendData env ts uid data nb w = Some (err, ts', w') \<Longrightarrow> turn_step env (ts, w) (ts', w')"
| step_start: "yang_turnconn_start ts = (err, ts') \<Longrightarrow> turn_step env (ts, w) (ts', w)"
| step_stop: "yang_turnconn_stop env ts w = Some (ts', w') \<Longrightarrow> turn_step env (ts, w) (ts', w')"
| step_world: "turn_step env (ts, w) (ts, w')"

definition peer_ok :: "YangTurnPeer \<Rightarrow> bool" where
  "peer_ok p \<longleftrightarrow> 0x4000 \<le> tp_channelNumber p \<and> tp_channelNumber p \<le> 0x401F
     \<and> tp_state p \<in> {YangTurnPermission, YangTurnBindChannel, YangTurnReady}"

definition turn_inv :: "YangTurnSession \<Rightarrow> bool" where
  "turn_inv ts \<longleftrightarrow> peers_ok (ts_peers ts) \<and> (\<forall>p \<in> set (peer_list (ts_peers ts)). peer_ok p)
     \<and> 0x4000 \<le> ts_channelNum ts \<and> ts_channelNum ts \<le> 0x4020 \<and> length (ts_realm ts) = 129 \<and> length (ts_nonce ts) = 128"

lemma kept_inv: "kept ts ts' \<Longrightarrow> turn_inv ts \<Longrightarrow> turn_inv ts'"
  by (simp add: kept_def turn_inv_def)

lemma kept_response: "kept ts (ts\<lparr>ts_response := r\<rparr>)"
  by (simp add: kept_def)

lemma turn_send_same: "turn_send env ts b w = Some (err, ts', w') \<Longrightarrow> ts' = ts"
  by (auto simp: turn_send_def bind_eq_Some_conv)

lemma encode_kept:
  "yang_turn_encode_allocate env ts protocol before w = Some (err, ts', w') \<Longrightarrow> kept ts ts'"
  "yang_turn_encode_refresh env ts isClose w = Some (err, ts', w') \<Longrightarrow> kept ts ts'"
  "yang_turn_encode_permission env ts peer w = Some (err, ts', w') \<Longrightarrow> kept ts ts'"
  "yang_turn_encode_bindChannel env ts peer w = Some (err, ts', w') \<Longrightarrow> kept ts ts'"
  "yang_turn_encode_request env ts w = Some (err, ts', w') \<Longrightarrow> kept ts ts'"
  by (auto simp: yang_turn_encode_allocate_def yang_turn_encode_refresh_def yang_turn_encode_permission_def
        yang_turn_encode_bindChannel_def yang_turn_encode_request_def Let_def bind_eq_Some_conv kept_response dest!: turn_send_same)

lemma request_peers_kept: "request_peers env perm chan k i ts w = Some (ts', w') \<Longrightarrow> kept ts ts'"
proof (induction k arbitrary: i ts w)
  case (Suc k)
  then obtain peer where p: "mem_load (payload (ts_peers ts)) i = Some (Some peer)" by (auto simp: bind_eq_Some_conv)
  consider "perm \<and> tp_state peer = YangTurnPermission"
    | "\<not> (perm \<and> tp_state peer = YangTurnPermission)" "chan \<and> tp_state peer = YangTurnBindChannel"
    | "\<not> (perm \<and> tp_state peer = YangTurnPermission)" "\<not> (chan \<and> tp_state peer = YangTurnBindChannel)" by blast
  then obtain t1 w1 where t: "kept ts t1" "request_peers env perm chan k (i + 1) t1 w1 = Some (ts', w')"
  proof cases
    case 1
    then obtain err t1 w1 where x: "yang_turn_encode_permission env ts peer w = Some (err, t1, w1)" "request_peers env perm chan k (i + 1) t1 w1 = Some (ts', w')"
      using Suc.prems p by (auto simp: bind_eq_Some_conv)
    show ?thesis by (rule that [OF encode_kept(3) [OF x(1)] x(2)])
  next
    case 2
    then obtain err t1 w1 where x: "yang_turn_encode_bindChannel env ts peer w = Some (err, t1, w1)" "request_peers env perm chan k (i + 1) t1 w1 = Some (ts', w')"
      using Suc.prems p by (auto simp: bind_eq_Some_conv)
    show ?thesis by (rule that [OF encode_kept(4) [OF x(1)] x(2)])
  next
    case 3
    then have "request_peers env perm chan k (i + 1) ts w = Some (ts', w')" using Suc.prems p by auto
    then show ?thesis by (rule that [OF kept_refl])
  qed
  from kept_trans [OF t(1) Suc.IH [OF t(2)]] show ?case .
qed simp

lemma refresh_peer_one:
  assumes "refresh_peer env k (int i) c ps w = Some (Some ps', w')"
  shows "\<exists>j peer s. i \<le> j \<and> j < i + k \<and> j < length ps \<and> ps ! j = Some peer \<and> ps' = ps[j := Some (peer\<lparr>tp_state := s\<rparr>)]
    \<and> s \<in> {YangTurnPermission, YangTurnBindChannel}"
  using assms
proof (induction k arbitrary: i w)
  case (Suc k)
  then obtain peer where p: "mem_load ps (int i) = Some (Some peer)" by (auto simp: bind_eq_Some_conv)
  obtain t w1 where t: "turn_seconds env w = (t, w1)" by (cases "turn_seconds env w")
  show ?case
  proof (cases "uint (tp_lifetimeOuttime peer - 60) < t")
    case True
    let ?s = "if 2 \<le> c then YangTurnBindChannel else YangTurnPermission"
    have i: "i < length ps" "ps ! i = Some peer" using p by (simp_all add: mem_simps)
    then have "ps' = ps[i := Some (peer\<lparr>tp_state := ?s\<rparr>)]" using Suc.prems p t True by (simp add: mem_store_def)
    then show ?thesis using i by (intro exI [of _ i] exI [of _ peer] exI [of _ ?s]) simp
  next
    case False
    then have "refresh_peer env k (int (Suc i)) c ps w1 = Some (Some ps', w')" using Suc.prems p t by (simp add: add.commute)
    from Suc.IH [OF this] obtain j q s where "Suc i \<le> j" "j < Suc i + k" "j < length ps" "ps ! j = Some q"
      "ps' = ps[j := Some (q\<lparr>tp_state := s\<rparr>)]" "s \<in> {YangTurnPermission, YangTurnBindChannel}" by blast
    then show ?thesis by (intro exI [of _ j] exI [of _ q] exI [of _ s]) simp
  qed
qed simp

lemma refresh_inv:
  assumes "yang_turnconn_refreshAllocate env ts w = Some (ts', w')" "turn_inv ts"
  shows "turn_inv ts'"
proof -
  let ?v = "ts_peers ts"
  obtain found w1 where f: "refresh_peer env (nat (vsize ?v)) (int 0) (ts_permissionCount ts) (payload ?v) w = Some (found, w1)"
    using assms(1) by (auto simp: yang_turnconn_refreshAllocate_def Let_def bind_eq_Some_conv)
  show ?thesis
  proof (cases found)
    case None
    then have "kept ts ts'"
      using assms(1) f
      by (auto simp: yang_turnconn_refreshAllocate_def Let_def bind_eq_Some_conv dest: encode_kept split: if_splits prod.splits)
    then show ?thesis using assms(2) by (rule kept_inv)
  next
    case (Some ps)
    then have ts': "ts' = ts\<lparr>ts_peers := ?v\<lparr>payload := ps\<rparr>, ts_waitTime := 20\<rparr>"
      using assms(1) f by (simp add: yang_turnconn_refreshAllocate_def)
    obtain j peer s where j: "j < nat (vsize ?v)" "j < length (payload ?v)" "payload ?v ! j = Some peer"
        "ps = (payload ?v)[j := Some (peer\<lparr>tp_state := s\<rparr>)]" "s \<in> {YangTurnPermission, YangTurnBindChannel}"
      using refresh_peer_one [OF f [unfolded Some]] by auto
    have ok: "peers_ok ?v" using assms(2) by (simp add: turn_inv_def)
    note pv = peers_vec [OF ok]
    have vl: "vec_list (?v\<lparr>payload := ps\<rparr>) = (vec_list ?v)[j := Some (peer\<lparr>tp_state := s\<rparr>)]"
      by (simp add: vec_list_def j(4) take_update_swap)
    have "Some peer \<in> set (vec_list ?v)" using j(1-3) pv(1) by (auto simp: vec_list_def in_set_conv_nth intro!: exI [of _ j])
    then have po: "peer_ok peer" using assms(2) by (force simp: turn_inv_def peer_list_def)
    have sub: "set (vec_list (?v\<lparr>payload := ps\<rparr>)) \<subseteq> insert (Some (peer\<lparr>tp_state := s\<rparr>)) (set (vec_list ?v))"
      unfolding vl by (rule set_update_subset_insert)
    have "peers_ok (?v\<lparr>payload := ps\<rparr>)" using ok sub j(4) by (auto simp: peers_ok_def vec_ok_def)
    moreover have "\<forall>p \<in> set (peer_list (?v\<lparr>payload := ps\<rparr>)). peer_ok p"
      using sub po j(5) assms(2) by (auto simp: peer_list_def turn_inv_def peer_ok_def)
    ultimately show ?thesis using assms(2) by (simp add: ts' turn_inv_def)
  qed
qed

lemma pass_inv:
  assumes "turn_pass env err ts w = Some (err', ts', w')" "turn_inv ts"
  shows "turn_inv ts'"
proof (cases "ts_state ts")
  case YangTurnNew
  then have "yang_turn_encode_request env ts w = Some (err', ts', w')" using assms(1) by (simp add: turn_pass_def)
  from kept_inv [OF encode_kept(5) [OF this] assms(2)] show ?thesis .
next
  case YangTurnCredential
  then have "yang_turn_encode_allocate env ts 0x11 True w = Some (err', ts', w')" using assms(1) by (simp add: turn_pass_def)
  from kept_inv [OF encode_kept(1) [OF this] assms(2)] show ?thesis .
next
  case YangTurnAllocate
  then have "yang_turn_encode_allocate env ts 0x11 False w = Some (err', ts', w')" using assms(1) by (simp add: turn_pass_def)
  from kept_inv [OF encode_kept(1) [OF this] assms(2)] show ?thesis .
next
  case YangTurnReady
  then obtain t1 w1 where r: "yang_turnconn_refreshAllocate env ts w = Some (t1, w1)"
      "request_peers env True True (nat (vsize (ts_peers ts))) 0 t1 w1 = Some (ts', w')"
    using assms(1) by (auto simp: turn_pass_def Let_def bind_eq_Some_conv)
  from kept_inv [OF request_peers_kept [OF r(2)] refresh_inv [OF r(1) assms(2)]] show ?thesis .
next
  case YangTurnClose
  then have "yang_turn_encode_refresh env (ts\<lparr>ts_lifetime := 0\<rparr>) True w = Some (err', ts', w')" using assms(1) by (simp add: turn_pass_def)
  from encode_kept(2) [OF this] have "kept ts ts'" by (simp add: kept_def)
  from kept_inv [OF this assms(2)] show ?thesis .
next
  case YangTurnPermission
  then have "request_peers env True False (nat (vsize (ts_peers ts))) 0 ts w = Some (ts', w')"
    using assms(1) by (auto simp: turn_pass_def Let_def bind_eq_Some_conv)
  from kept_inv [OF request_peers_kept [OF this] assms(2)] show ?thesis .
next
  case YangTurnBindChannel
  then have "request_peers env False True (nat (vsize (ts_peers ts))) 0 ts w = Some (ts', w')"
    using assms(1) by (auto simp: turn_pass_def Let_def bind_eq_Some_conv)
  from kept_inv [OF request_peers_kept [OF this] assms(2)] show ?thesis .
qed

lemma peer_next_ok:
  assumes "list_all2 (\<lambda>p q. same_peer p q \<and> tp_state q = peer_next type (tp_state p)) ps qs" "\<forall>p \<in> set ps. peer_ok p"
  shows "\<forall>q \<in> set qs. peer_ok q"
proof
  fix q assume "q \<in> set qs"
  then obtain i where i: "i < length qs" "q = qs ! i" by (auto simp: in_set_conv_nth)
  with assms(1) have "i < length ps" "same_peer (ps ! i) q" "tp_state q = peer_next type (tp_state (ps ! i))"
    by (auto simp: list_all2_conv_all_nth)
  moreover have "peer_ok (ps ! i)" using assms(2) \<open>i < length ps\<close> by simp
  ultimately show "peer_ok q" by (auto simp: peer_ok_def same_peer_def peer_next_def)
qed

lemma receive_inv:
  assumes "yang_turnconn_receive env ts data nb w = Some (err, ts', w')" "turn_inv ts"
  shows "turn_inv ts'"
proof (cases "yang_get_be32 data 4 = Some kStunMagicCookie")
  case False
  then have "ts' = ts" using assms(1) by (auto simp: yang_turnconn_receive_def Let_def bind_eq_Some_conv)
  then show ?thesis using assms(2) by simp
next
  case True
  then obtain e ts1 ty where d: "yang_turn_decode (ts\<lparr>ts_response := turn_response0\<rparr>) data nb = Some (e, ts1)" "yang_get_be16 data 0 = Some ty"
    using assms(1) by (auto simp: yang_turnconn_receive_def Let_def bind_eq_Some_conv)
  have inv1: "turn_inv ts1" using turn_decode_kept_response(1) [OF d(1)] assms(2) by (rule kept_inv)
  show ?thesis
  proof (cases "turn_error_type ty")
    case err: True
    then obtain u where "yang_turnconn_handleError ts1 data = Some (u, ts')"
      using assms(1) True d by (auto simp: yang_turnconn_receive_def Let_def bind_eq_Some_conv)
    from handle_error_state [OF this] show ?thesis using inv1 by (simp add: turn_inv_def)
  next
    case False
    then have h: "yang_turnconn_handleRecv env ts1 data w = Some (err, ts', w')"
      using assms(1) True d by (auto simp: yang_turnconn_receive_def Let_def bind_eq_Some_conv)
    have "peers_ok (ts_peers ts1)" using inv1 by (simp add: turn_inv_def)
    from handle_recv_state [OF this d(2) False, of env w] h
    have r: "peers_ok (ts_peers ts')" "list_all2 (\<lambda>p q. same_peer p q \<and> tp_state q = peer_next ty (tp_state p)) (peer_list (ts_peers ts1)) (peer_list (ts_peers ts'))"
      "ts_channelNum ts' = ts_channelNum ts1" "ts_realm ts' = ts_realm ts1" "ts_nonce ts' = ts_nonce ts1" by auto
    from peer_next_ok [OF r(2)] inv1 r show ?thesis by (simp add: turn_inv_def)
  qed
qed

lemma add_inv:
  assumes "yang_turnconn_addPeer env ts uid user ip port = Some (err, ts')" "turn_inv ts"
  shows "turn_inv ts'"
proof -
  have l: "\<not> ts_turnLock ts" using assms(1) by (auto simp: yang_turnconn_addPeer_def Let_def)
  have ok: "peers_ok (ts_peers ts)" using assms(2) by (simp add: turn_inv_def)
  let ?c = "if Yang_Turn_ChannelNumBase + 31 < ts_channelNum ts then Yang_Turn_ChannelNumBase else ts_channelNum ts"
  have c: "0x4000 \<le> ?c" "?c \<le> 0x401F" using assms(2) by (auto simp: turn_inv_def Yang_Turn_ChannelNumBase_def not_less)
  then have "unat ?c \<le> 0x401F" "0x4000 \<le> unat ?c" by (simp_all add: word_le_nat_alt)
  then have u: "unat (?c + 1) = unat ?c + 1" by (subst unat_word_ariths) (simp add: take_bit_nat_eq_self)
  have c1: "0x4000 \<le> ?c + 1" "?c + 1 \<le> 0x4020" using c u unfolding word_le_nat_alt by simp_all
  from add_peer [OF ok l, of env uid user ip port] assms(1) obtain v
    where "ts' = ts\<lparr>ts_channelNum := ?c + 1, ts_peers := v, ts_waitTime := 50\<rparr>" "peers_ok v"
      "peer_list v = peer_list (ts_peers ts) @ [\<lparr>tp_channelNumber = ?c, tp_uid = uid, tp_lifetimeOuttime = 0,
        tp_state = YangTurnPermission, tp_receiveUser = user, tp_mapAddress = be32toh (te_inet_addr env ip), tp_port = port\<rparr>]" by auto
  then show ?thesis using assms(2) c c1 by (auto simp: turn_inv_def peer_ok_def)
qed

lemma remove_inv:
  assumes "yang_turnconn_removePeer ts u = Some (err, ts')" "turn_inv ts"
  shows "turn_inv ts'"
proof -
  let ?v = "ts_peers ts"
  have ok: "peers_ok ?v" using assms(2) by (simp add: turn_inv_def)
  note pv = peers_vec [OF ok]
  from find_uid_spec [of 0 "nat (vsize ?v)" "payload ?v" u] pv
  consider j p where "j < nat (vsize ?v)" "payload ?v ! j = Some p" "find_uid (nat (vsize ?v)) 0 (payload ?v) u = Some (Some (int j, p))"
    | "find_uid (nat (vsize ?v)) 0 (payload ?v) u = Some None" by auto
  then show ?thesis
  proof cases
    case 1
    let ?v1 = "?v\<lparr>payload := (payload ?v)[j := None]\<rparr>"
    have ok1: "vec_ok ?v1" using ok by (simp add: vec_ok_def peers_ok_def)
    have l: "length (vec_list ?v1) = nat (vsize ?v)" using pv(1) by (simp add: vec_list_def)
    from pvec.remove_elems [OF ok1, of "int j" None] obtain v2
      where r: "yang_remove_Vector2 None ?v1 (int j) = Some v2" "vec_ok v2" "vec_list v2 = take j (vec_list ?v1) @ drop (Suc j) (vec_list ?v1)"
      using 1(1) l by auto
    have "vec_list ?v1 = (vec_list ?v)[j := None]" by (simp add: vec_list_def take_update_swap)
    then have v2: "vec_list v2 = take j (vec_list ?v) @ drop (Suc j) (vec_list ?v)" using r(3) by simp
    then have sub: "set (vec_list v2) \<subseteq> set (vec_list ?v)" using set_take_subset set_drop_subset by fastforce
    have "mem_store (payload ?v) (int j) None = Some ((payload ?v)[j := None])" using 1(1) pv(1) by (simp add: mem_store_def)
    then have ts': "ts' = ts\<lparr>ts_turnLock := True, ts_channelNum := tp_channelNumber p, ts_peers := v2\<rparr>"
      using assms(1) 1(3) r(1) by (auto simp: yang_turnconn_removePeer_def Let_def split: if_splits)
    have "Some p \<in> set (vec_list ?v)" using 1(1,2) pv(1) by (auto simp: vec_list_def in_set_conv_nth intro!: exI [of _ j])
    then have "peer_ok p" using assms(2) by (force simp: turn_inv_def peer_list_def)
    then have c: "0x4000 \<le> tp_channelNumber p" "tp_channelNumber p \<le> 0x4020"
      by (auto simp: peer_ok_def intro: order_trans)
    have "peers_ok v2" using ok r(2) sub by (auto simp: peers_ok_def)
    moreover have "\<forall>q \<in> set (peer_list v2). peer_ok q" using sub assms(2) by (fastforce simp: turn_inv_def peer_list_def)
    ultimately show ?thesis using assms(2) c by (simp add: ts' turn_inv_def)
  next
    case 2
    then have "ts' = ts" using assms(1) by (auto simp: yang_turnconn_removePeer_def Let_def split: if_splits)
    then show ?thesis using assms(2) by simp
  qed
qed

lemma udp_inv: "turn_inv ts \<Longrightarrow> turn_inv (ts\<lparr>ts_udp := u\<rparr>)"
  by (simp add: turn_inv_def)

lemma send_inv:
  assumes "yang_turnconn_sendData env ts u data nb w = Some (err, ts', w')" "turn_inv ts"
  shows "turn_inv ts'"
proof -
  have "ts' = ts \<or> (\<exists>x. ts' = ts\<lparr>ts_udp := x\<rparr>)"
    using assms(1) unfolding yang_turnconn_sendData_def Let_def bind_eq_Some_conv case_prod_unfold
    by (auto simp: bind_eq_Some_conv split: if_split_asm option.split_asm)
  then show ?thesis using assms(2) udp_inv by auto
qed

lemma start_inv: "yang_turnconn_start ts = (err, ts') \<Longrightarrow> turn_inv ts \<Longrightarrow> turn_inv ts'"
  by (auto simp: yang_turnconn_start_def Let_def turn_inv_def split: if_splits)

lemma stop_inv:
  assumes "yang_turnconn_stop env ts w = Some (ts', w')" "turn_inv ts"
  shows "turn_inv ts'"
proof -
  let ?t = "ts\<lparr>ts_isLoop := False, ts_waitTime := 1, ts_lifetime := 0\<rparr>"
  obtain err t1 w1 where t: "yang_turn_encode_refresh env ?t True w = Some (err, t1, w1)"
      "ts' = t1\<lparr>ts_state := YangTurnClose, ts_isStart := False\<rparr>"
    using assms(1) by (auto simp: yang_turnconn_stop_def bind_eq_Some_conv)
  have "turn_inv ?t" using assms(2) by (simp add: turn_inv_def)
  from kept_inv [OF encode_kept(2) [OF t(1)] this] show ?thesis by (simp add: t(2) turn_inv_def)
qed

inductive_cases turn_stepE: "turn_step env (ts, w) (ts', w')"

lemma turn_step_inv: "turn_step env (ts, w) (ts', w') \<Longrightarrow> turn_inv ts \<Longrightarrow> turn_inv ts'"
  by (erule turn_stepE) (blast intro: pass_inv receive_inv add_inv remove_inv send_inv start_inv stop_inv)+

lemma create_inv:
  assumes "yang_create_turnConnection env ts0 server udp w = Some (ts, w')" "length (ts_realm ts0) = 129" "length (ts_nonce ts0) = 128"
  shows "turn_inv ts"
  using create_facts [OF assms(1)] assms(2,3) by (auto simp: turn_inv_def Yang_Turn_ChannelNumBase_def)

text \<open>
  C15: whatever the server, the application and the session's own thread do and in whichever order: the peers are a sound vector without
  null pointers, each has one of the 32 channel numbers and is in one of the three states of a peer, and the realm and the nonce keep
  their memory.
\<close>
theorem turn_reachable_inv:
  assumes "yang_create_turnConnection env ts0 server udp w0 = Some (ts1, w1)" "length (ts_realm ts0) = 129" "length (ts_nonce ts0) = 128"
    and "(turn_step env)\<^sup>*\<^sup>* (ts1, w1) (ts, w)"
  shows "turn_inv ts"
  using assms(4)
proof (induction rule: rtranclp_induct2)
  case refl
  show ?case by (rule create_inv [OF assms(1-3)])
next
  case (step t1 v1 t2 v2)
  show ?case by (rule turn_step_inv [OF step(2,3)])
qed

theorem turn_reachable_inv_witness:
  "\<exists>ts. yang_turnconn_addPeer example_turn_env example_fresh 7 1 [49, 0] 9000 = Some (Yang_Ok, ts) \<and> turn_inv ts"
proof -
  obtain ts v where a: "yang_turnconn_addPeer example_turn_env example_fresh 7 1 [49, 0] 9000 = Some (Yang_Ok, ts)"
    using add_peer [OF example_fresh_facts(1,3), of example_turn_env 7 1 "[49, 0]" 9000] by blast
  have r: "(turn_step example_turn_env)\<^sup>*\<^sup>* (example_fresh, ()) (ts, ())" using step_add [OF a] by blast
  have "turn_inv ts" by (rule turn_reachable_inv [OF example_fresh _ _ r]) (simp_all add: example_turn_def)
  then show ?thesis using a by blast
qed

end
