(* ===== verification/Ice.thy ===== *)
theory Ice
  imports Turn_Peers
begin

text \<open>
  The choice between a host, a STUN and a TURN candidate (\<open>yangice/YangIce.c\<close>).

  One TURN connection is shared by all sessions through a global pointer. The model gives every connection a number; a session
  keeps the number, and using the number of a connection that has been freed is a fault. The connection also keeps a pointer to
  the server record of the session that made it; the model keeps a copy of the record in each, so that the relay address in the
  session's record is the one of the end of \<open>yang_ice_initTurn\<close>.
\<close>

datatype YangIceCandidateType = YangIceHost | YangIceStun | YangIceTurn

record YangIceSession =
  is_uid :: int
  is_localPort :: int
  is_isTurnAllocated :: bool
  is_isTurnReady :: bool
  is_candidateType :: YangIceCandidateType
  is_turnconn :: "nat option"
  is_server :: YangIceServer

text \<open>\<open>g_yang_turnConnection\<close>, with the number of the connection, and \<open>g_yang_turnCount\<close>\<close>

record ice_global =
  ig_turn :: "(nat \<times> YangTurnSession) option"
  ig_number :: nat
  ig_count :: u32

record YangIceStunRequest =
  rq_ip :: u32
  rq_port :: int
  rq_response :: bool

text \<open>
  What happens while a thread of the application sleeps: whether the new thread of a socket has set \<open>isStart\<close>, the datagrams it has
  handed in (the memory of its buffer and the length), and what the threads of a TURN session have done.
\<close>

record 'w ice_env = "'w turn_env" +
  ie_started :: "'w \<Rightarrow> bool"
  ie_arrived :: "'w \<Rightarrow> (u8 list \<times> int) list \<times> 'w"
  ie_turn :: "YangTurnSession \<Rightarrow> 'w \<Rightarrow> YangTurnSession \<times> 'w"

abbreviation (input) ice_turn_env :: "'w ice_env \<Rightarrow> 'w turn_env" where
  "ice_turn_env env \<equiv> turn_env.truncate env"

section \<open>The shared TURN connection\<close>

text \<open>What \<open>calloc\<close> gives.\<close>

definition udp0 :: YangUdpSession where
  "udp0 = \<lparr>us_localPort = 0, us_remotePort = 0, us_isStart = False, us_isLoop = False, us_notRemoteInit = False,
     us_turnBuffer = None, us_remote_addr = 0, us_remote_sin_port = 0, us_local_sin_port = 0\<rparr>"

definition turn_session0 :: "YangIceServer \<Rightarrow> YangTurnSession" where
  "turn_session0 server = \<lparr>ts_channelNum = 0, ts_relayPort = 0, ts_nonceLen = 0, ts_permissionCount = 0, ts_relayIp = 0, ts_isStart = False,
     ts_isLoop = False, ts_waitTime = 0, ts_lifetime = 0, ts_allocateOuttime = 0, ts_state = YangTurnNew, ts_errorCode = YangTurnNoneError,
     ts_turnLock = False, ts_response = turn_response0, ts_server = server, ts_udp = udp0, ts_icePwd = [], ts_realm = replicate 129 0,
     ts_nonce = replicate 128 0, ts_peers = \<lparr>capacity = 0, vsize = 0, payload = []\<rparr>\<rparr>"

definition yang_ice_getTurn :: "'w ice_env \<Rightarrow> ice_global \<Rightarrow> YangIceServer \<Rightarrow> 'w \<Rightarrow> (nat \<times> ice_global \<times> 'w) option" where
  "yang_ice_getTurn env g server w =
     (case ig_turn g of
        Some (i, ts) \<Rightarrow> Some (i, g\<lparr>ig_count := ig_count g + 1\<rparr>, w)
      | None \<Rightarrow> do {
          let (r, w) = se_random env w;
          let port = 10000 + uint r mod 15000;
          let udp = yang_create_rtcudp udp0 port;
          (ts, w) \<leftarrow> yang_create_turnConnection (ice_turn_env env) (turn_session0 server) server udp w;
          let i = ig_number g;
          Some (i, g\<lparr>ig_turn := Some (i, ts), ig_number := i + 1, ig_count := ig_count g + 1\<rparr>, w)
        })"

text \<open>The connection behind a pointer.\<close>

definition turn_at :: "ice_global \<Rightarrow> nat option \<Rightarrow> YangTurnSession option" where
  "turn_at g p = (case (p, ig_turn g) of (Some i, Some (j, ts)) \<Rightarrow> (if i = j then Some ts else None) | _ \<Rightarrow> None)"

definition set_turn :: "ice_global \<Rightarrow> YangTurnSession \<Rightarrow> ice_global" where
  "set_turn g ts = g\<lparr>ig_turn := map_option (\<lambda>(i, _). (i, ts)) (ig_turn g)\<rparr>"

section \<open>The STUN request\<close>

definition g_yang_ice_stun_receive :: "u8 list \<Rightarrow> int \<Rightarrow> YangIceStunRequest option \<Rightarrow> YangIceStunRequest option option" where
  "g_yang_ice_stun_receive data size' user = (case user of
     None \<Rightarrow> Some None
   | Some request \<Rightarrow> do {
       bt \<leftarrow> mem_load data 0;
       if 0 < size' \<and> (bt = 0 \<or> bt = 1) then do {
         (err, response) \<leftarrow> yang_decode_rtcstun stun_packet0 data size';
         if err \<noteq> 0 then Some (Some request)
         else Some (Some (request\<lparr>rq_ip := be32toh (st_mapped_address response), rq_port := uint (st_mapped_port response),
                                  rq_response := True\<rparr>))
       }
       else Some (Some request)
     })"

primrec stun_receive_all :: "(u8 list \<times> int) list \<Rightarrow> YangIceStunRequest \<Rightarrow> YangIceStunRequest option" where
  "stun_receive_all [] request = Some request"
| "stun_receive_all (d # ds) request = do {
     r \<leftarrow> g_yang_ice_stun_receive (fst d) (snd d) (Some request);
     r \<leftarrow> r;
     stun_receive_all ds r
   }"

text \<open>Encoding into the zeroed local buffer of 1024 bytes and sending.\<close>

definition stun_send_request :: "'w ice_env \<Rightarrow> YangUdpSession \<Rightarrow> u8 list \<Rightarrow> 'w \<Rightarrow> (errcode \<times> 'w) option" where
  "stun_send_request env udp pwd w = do {
     let b = yang_init_buffer (replicate 1024 0) 0 1024;
     (_, b, w) \<leftarrow> yang_stun_encode_request (stun_env.truncate env) b (us_local_sin_port udp) pwd w;
     yang_rtc_sendData (ice_turn_env env) (udp\<lparr>us_isStart := ie_started env w\<rparr>) (buf_mem b) (yang_buffer_pos b) w
   }"

text \<open>The loop, with the number of rounds it has left and \<open>waitTime\<close>.\<close>

primrec stun_wait ::
    "'w ice_env \<Rightarrow> YangUdpSession \<Rightarrow> u8 list \<Rightarrow> nat \<Rightarrow> nat \<Rightarrow> YangIceStunRequest \<Rightarrow> 'w \<Rightarrow> (errcode \<times> YangIceStunRequest \<times> 'w) option" where
  "stun_wait env udp pwd 0 waitTime request w = Some (Yang_Ok, request, w)"
| "stun_wait env udp pwd (Suc k) waitTime request w =
     (if rq_response request then Some (Yang_Ok, request, w)
      else do {
        let (ds, w) = ie_arrived env w;
        request \<leftarrow> stun_receive_all ds request;
        let waitTime = waitTime + 1;
        if waitTime mod 25 = 0 then do {
          (err, w) \<leftarrow> stun_send_request env udp pwd w;
          if err \<noteq> Yang_Ok then Some (err, request, w)
          else stun_wait env udp pwd k waitTime request w
        }
        else stun_wait env udp pwd k waitTime request w
      })"

text \<open>An error of the loop leaves the function at once.\<close>

definition yang_ice_stun_request :: "'w ice_env \<Rightarrow> YangIceServer \<Rightarrow> int \<Rightarrow> 'w \<Rightarrow> (errcode \<times> YangIceServer \<times> 'w) option" where
  "yang_ice_stun_request env server localport w = do {
     let udp = yang_create_rtcudp udp0 localport;
     let (serverIp, w) = te_getIp env w (sv_serverIp server);
     let udp = yang_rtcudp_update_remoteAddr (ice_turn_env env) udp serverIp (sv_serverPort server);
     (pwd, w) \<leftarrow> yang_cstr_random (se_random env) 32 (replicate 33 0) w;
     (err, w) \<leftarrow> stun_send_request env udp pwd w;
     if err \<noteq> Yang_Ok then Some (err, server, w)
     else do {
       (err, request, w) \<leftarrow> stun_wait env udp pwd 500 0 \<lparr>rq_ip = 0, rq_port = 0, rq_response = False\<rparr> w;
       if err \<noteq> Yang_Ok then Some (err, server, w)
       else if rq_response request then Some (Yang_Ok, server\<lparr>sv_stunIp := rq_ip request, sv_stunPort := rq_port request\<rparr>, w)
       else Some (ERROR_RTC_STUN, server, w)
     }
   }"

definition yang_ice_requestStunServer :: "'w ice_env \<Rightarrow> YangIceSession \<Rightarrow> 'w \<Rightarrow> (errcode \<times> YangIceSession \<times> 'w) option" where
  "yang_ice_requestStunServer env s w =
     (if is_candidateType s \<noteq> YangIceStun then Some (1, s, w)
      else do {
        (err, server, w) \<leftarrow> yang_ice_stun_request env (is_server s) (is_localPort s) w;
        Some (err, s\<lparr>is_server := server\<rparr>, w)
      })"

section \<open>The TURN server\<close>

text \<open>Waiting for a state of the connection, at most \<open>k\<close> sleeps; \<open>False\<close> when all of them were used.\<close>

primrec turn_wait :: "'w ice_env \<Rightarrow> (YangTurnSession \<Rightarrow> bool) \<Rightarrow> nat \<Rightarrow> YangTurnSession \<Rightarrow> 'w \<Rightarrow> bool \<times> YangTurnSession \<times> 'w" where
  "turn_wait env there 0 ts w = (False, ts, w)"
| "turn_wait env there (Suc k) ts w =
     (if there ts then (True, ts, w)
      else let (ts, w) = ie_turn env ts w in turn_wait env there k ts w)"

definition yang_ice_initTurn :: "'w ice_env \<Rightarrow> ice_global \<Rightarrow> YangIceSession \<Rightarrow> 'w \<Rightarrow> (errcode \<times> ice_global \<times> YangIceSession \<times> 'w) option" where
  "yang_ice_initTurn env g s w =
     (if is_isTurnAllocated s then Some (Yang_Ok, g, s, w)
      else do {
        (s, g, w) \<leftarrow> (case is_turnconn s of
            None \<Rightarrow> do {
              (i, g, w) \<leftarrow> yang_ice_getTurn env g (is_server s) w;
              Some (s\<lparr>is_turnconn := Some i\<rparr>, g, w)
            }
          | Some i \<Rightarrow> Some (s, g, w));
        ts \<leftarrow> turn_at g (is_turnconn s);
        let (_, ts) = yang_turnconn_start ts;
        let (there, ts, w) = turn_wait env yang_turnconn_isAllocated 100 ts w;
        let s = s\<lparr>is_isTurnAllocated := there,
                  is_server := (is_server s)\<lparr>sv_relayIp := ts_relayIp ts, sv_relayPort := uint (ts_relayPort ts)\<rparr>\<rparr>;
        if there then Some (Yang_Ok, set_turn g ts, s, w)
        else do {
          (ts, w) \<leftarrow> yang_turnconn_stop (ice_turn_env env) ts w;
          Some (ERROR_RTC_TURN, set_turn g ts, s, w)
        }
      })"

text \<open>A failure of \<open>yang_ice_initTurn\<close> is not looked at.\<close>

definition yang_ice_requestTurnServer ::
    "'w ice_env \<Rightarrow> ice_global \<Rightarrow> YangIceSession \<Rightarrow> nat \<Rightarrow> u8 list \<Rightarrow> int \<Rightarrow> 'w \<Rightarrow> (errcode \<times> ice_global \<times> YangIceSession \<times> 'w) option" where
  "yang_ice_requestTurnServer env g s rtcSession remoteIp remotePort w =
     (if is_turnconn s \<noteq> None \<and> \<not> is_isTurnAllocated s then Some (ERROR_RTC_TURN, g, s, w)
      else do {
        (_, g, s, w) \<leftarrow> (if is_turnconn s = None then yang_ice_initTurn env g s w else Some (Yang_Ok, g, s, w));
        ts \<leftarrow> turn_at g (is_turnconn s);
        (_, ts) \<leftarrow> yang_turnconn_addPeer (ice_turn_env env) ts (is_uid s) rtcSession remoteIp (word_of_int remotePort);
        let (there, ts, w) = turn_wait env yang_turnconn_isReady 100 ts w;
        Some (if there then Yang_Ok else ERROR_RTC_TURN, set_turn g ts, s\<lparr>is_isTurnReady := there\<rparr>, w)
      })"

text \<open>The global connection is destroyed, whichever the session's own was.\<close>

definition turn_destroy_global :: "'w ice_env \<Rightarrow> ice_global \<Rightarrow> 'w \<Rightarrow> (ice_global \<times> 'w) option" where
  "turn_destroy_global env g w = (case ig_turn g of
     None \<Rightarrow> None
   | Some (i, ts) \<Rightarrow> do {
       (_, w) \<leftarrow> yang_destroy_turnConnection (ice_turn_env env) ts w;
       Some (g\<lparr>ig_turn := None\<rparr>, w)
     })"

definition yang_ice_closeTurn :: "'w ice_env \<Rightarrow> ice_global \<Rightarrow> YangIceSession \<Rightarrow> 'w \<Rightarrow> (ice_global \<times> YangIceSession \<times> 'w) option" where
  "yang_ice_closeTurn env g s w = do {
     (g, w) \<leftarrow> turn_destroy_global env g w;
     Some (g\<lparr>ig_count := 0\<rparr>, s\<lparr>is_turnconn := None\<rparr>, w)
   }"

section \<open>The choice\<close>

definition yang_ice_initIce :: "'w ice_env \<Rightarrow> ice_global \<Rightarrow> YangIceSession \<Rightarrow> 'w \<Rightarrow> (ice_global \<times> YangIceSession \<times> 'w) option" where
  "yang_ice_initIce env g s w = (case is_candidateType s of
     YangIceHost \<Rightarrow> Some (g, s, w)
   | YangIceStun \<Rightarrow> do {
       (err, s, w) \<leftarrow> yang_ice_requestStunServer env s w;
       Some (g, if err \<noteq> Yang_Ok then s\<lparr>is_candidateType := YangIceHost\<rparr> else s, w)
     }
   | YangIceTurn \<Rightarrow> do {
       (err, g, s, w) \<leftarrow> yang_ice_initTurn env g s w;
       if err \<noteq> Yang_Ok then do {
         let s = s\<lparr>is_candidateType := YangIceStun\<rparr>;
         (err, s, w) \<leftarrow> yang_ice_requestStunServer env s w;
         if err \<noteq> Yang_Ok then do {
           (g, s, w) \<leftarrow> yang_ice_closeTurn env g s w;
           Some (g, s\<lparr>is_candidateType := YangIceHost\<rparr>, w)
         }
         else Some (g, s, w)
       }
       else Some (g, s, w)
     })"

definition yang_ice_handle ::
    "'w ice_env \<Rightarrow> ice_global \<Rightarrow> YangIceSession \<Rightarrow> bool \<Rightarrow> nat \<Rightarrow> u8 list \<Rightarrow> int \<Rightarrow> 'w
       \<Rightarrow> (YangIceCandidateType \<times> ice_global \<times> YangIceSession \<times> 'w) option" where
  "yang_ice_handle env g s isServer rtcSession remoteIp remotePort w = do {
     (g, s, w) \<leftarrow> (case is_candidateType s of
         YangIceHost \<Rightarrow> Some (g, s, w)
       | YangIceStun \<Rightarrow>
           if sv_stunPort (is_server s) = 0 \<and> isServer then do {
             (err, s, w) \<leftarrow> yang_ice_requestStunServer env s w;
             Some (g, if err \<noteq> Yang_Ok then s\<lparr>is_candidateType := YangIceHost\<rparr> else s, w)
           }
           else Some (g, s, w)
       | YangIceTurn \<Rightarrow> do {
           (err, g, s, w) \<leftarrow> yang_ice_requestTurnServer env g s rtcSession remoteIp remotePort w;
           if err \<noteq> Yang_Ok then do {
             (g, s, w) \<leftarrow> yang_ice_closeTurn env g s w;
             let s = s\<lparr>is_candidateType := YangIceStun\<rparr>;
             (err, s, w) \<leftarrow> yang_ice_requestStunServer env s w;
             Some (g, if err \<noteq> Yang_Ok then s\<lparr>is_candidateType := YangIceHost\<rparr> else s, w)
           }
           else Some (g, s, w)
         });
     Some (is_candidateType s, g, s, w)
   }"

text \<open>The configuration as far as it is read; the server's strings have 64 bytes each.\<close>

record ice_config =
  ic_uid :: int
  ic_localPort :: int
  ic_iceServerIP :: "u8 list"
  ic_iceServerPort :: int
  ic_iceCandidateType :: YangIceCandidateType
  ic_iceUserName :: "u8 list"
  ic_icePassword :: "u8 list"

definition yang_create_ice :: "YangIceSession \<Rightarrow> ice_config \<Rightarrow> YangIceSession option" where
  "yang_create_ice s config = do {
     ip \<leftarrow> c_strcpy (sv_serverIp (is_server s)) (ic_iceServerIP config);
     user \<leftarrow> c_strcpy (sv_username (is_server s)) (ic_iceUserName config);
     password \<leftarrow> c_strcpy (sv_password (is_server s)) (ic_icePassword config);
     Some (s\<lparr>is_uid := ic_uid config, is_localPort := ic_localPort config, is_candidateType := ic_iceCandidateType config,
             is_isTurnAllocated := False, is_isTurnReady := False,
             is_server := (is_server s)\<lparr>sv_serverIp := ip, sv_serverPort := ic_iceServerPort config, sv_username := user, sv_password := password\<rparr>\<rparr>)
   }"

definition yang_destroy_ice :: "'w ice_env \<Rightarrow> ice_global \<Rightarrow> YangIceSession \<Rightarrow> 'w \<Rightarrow> (ice_global \<times> YangIceSession \<times> 'w) option" where
  "yang_destroy_ice env g s w = (case is_turnconn s of
     None \<Rightarrow> Some (g, s, w)
   | Some i \<Rightarrow> do {
       ts \<leftarrow> turn_at g (Some i);
       (_, ts) \<leftarrow> yang_turnconn_removePeer ts (is_uid s);
       let g = (set_turn g ts)\<lparr>ig_count := ig_count g - 1\<rparr>;
       (g, w) \<leftarrow> (if ig_count g = 0 then turn_destroy_global env g w else Some (g, w));
       Some (g, s\<lparr>is_turnconn := None\<rparr>, w)
     })"

end
