(* ===== verification/Turn_Wire.thy ===== *)
theory Turn_Wire
  imports Turn_Peers
begin

text \<open>
  The requests of the TURN client on the wire: each is a STUN message with the attributes of the request, then user name, realm and
  nonce, and the integrity attribute over all of it.
\<close>

section \<open>Random strings\<close>

lemma random_table_chars: "\<forall>c \<in> set random_table. c \<noteq> 0" "length random_table = 76"
  by (code_simp)+

lemma random_loop_string:
  assumes "i + k < length m" "\<forall>c \<in> set table. c \<noteq> 0" "table \<noteq> []"
  shows "\<exists>s w'. random_loop rnd table k (int i) m w = Some (take i m @ s @ drop (i + k) m, w') \<and> length s = k \<and> 0 \<notin> set s"
  using assms(1)
proof (induction k arbitrary: i m w)
  case (Suc k)
  obtain r w1 where r: "rnd w = (r, w1)" by (cases "rnd w")
  let ?c = "table ! (unat r mod length table)"
  have "?c \<in> set table" using assms(3) by (intro nth_mem) simp
  then have c: "?c \<noteq> 0" using assms(2) by blast
  let ?m = "m[i := ?c]"
  obtain s w' where s: "random_loop rnd table k (int (Suc i)) ?m w1 = Some (take (Suc i) ?m @ s @ drop (Suc i + k) ?m, w')" "length s = k" "0 \<notin> set s"
    using Suc.IH [of "Suc i" ?m w1] Suc.prems by auto
  have "take (Suc i) ?m = take i m @ [?c]" using Suc.prems by (simp add: take_Suc_conv_app_nth)
  moreover have "drop (Suc i + k) ?m = drop (i + Suc k) m" by simp
  ultimately show ?case
    using s c Suc.prems r by (intro exI [of _ "?c # s"] exI [of _ w']) (simp add: mem_store_def add.commute)
qed simp

lemma random_string:
  "\<exists>s w'. yang_cstr_random rnd (int k) (replicate (Suc k) 0) w = Some (s @ [0], w') \<and> length s = k \<and> 0 \<notin> set s"
proof -
  have t: "random_table \<noteq> []" using random_table_chars(2) by auto
  from random_loop_string [OF _ random_table_chars(1) t, of 0 k "replicate (Suc k) 0" rnd w]
  obtain s w' where "random_loop rnd random_table k (int 0) (replicate (Suc k) 0) w = Some (take 0 (replicate (Suc k) 0) @ s @ drop (0 + k) (replicate (Suc k) 0), w')"
    "length s = k" "0 \<notin> set s" by auto
  moreover have "drop k (replicate (Suc k) (0 :: u8)) = [0]" by (simp flip: replicate_append_same)
  ultimately show ?thesis by (auto simp: yang_cstr_random_def)
qed

section \<open>Messages\<close>

definition c_chars :: "u8 list \<Rightarrow> u8 list" where
  "c_chars m = takeWhile (\<lambda>c. c \<noteq> 0) m"

lemma c_str_chars: "0 \<in> set m \<Longrightarrow> c_str m = Some (c_chars m)"
  by (induction m) (auto simp: c_chars_def)

lemma c_chars_zero: "0 \<notin> set (c_chars m)"
  by (auto simp: c_chars_def dest: set_takeWhileD)

lemma c_chars_less: "0 \<in> set m \<Longrightarrow> length (c_chars m) < length m"
  by (induction m) (auto simp: c_chars_def)

lemma c_chars_append: "0 \<in> set m \<Longrightarrow> \<exists>r. m = c_chars m @ 0 # r"
  using c_str_spec c_str_chars by blast

text \<open>
  What is signed, the key, and the signed message. The long-term key of RFC 5389 (\<open>turn_key\<close>) is the MD5 digest of user name, realm
  and password, joined by colons. The code hands the digest on as a string, and makes the text in an array of 128 characters: what it signs
  with (\<open>signing_key\<close>) is this key exactly when the digest has no zero byte, unless the text is cut.
\<close>

definition turn_plain :: "YangTurnSession \<Rightarrow> u8 list \<Rightarrow> u16 \<Rightarrow> u8 list \<Rightarrow> u8 list" where
  "turn_plain ts tid type body = be16 type @ be16 0 @ be32 kStunMagicCookie @ tid @ body
     @ attr StunUsername (c_chars (sv_username (ts_server ts))) @ attr StunRealm (c_chars (ts_realm ts))
     @ attr StunNonce (take (unat (ts_nonceLen ts)) (ts_nonce ts))"

definition turn_secret :: "YangTurnSession \<Rightarrow> u8 list" where
  "turn_secret ts = c_chars (sv_username (ts_server ts)) @ [58] @ c_chars (ts_realm ts) @ [58] @ c_chars (sv_password (ts_server ts))"

definition turn_key :: "'w turn_env \<Rightarrow> YangTurnSession \<Rightarrow> u8 list" where
  "turn_key env ts = te_md5 env (turn_secret ts)"

definition signing_key :: "'w turn_env \<Rightarrow> YangTurnSession \<Rightarrow> u8 list" where
  "signing_key env ts = c_chars (te_md5 env (take 127 (turn_secret ts)) @ [0])"

lemma c_chars_plain: "0 \<notin> set s \<Longrightarrow> c_chars (s @ [0]) = s"
  by (induction s) (auto simp: c_chars_def)

lemma c_chars_cut: "c_chars (s @ [0]) = s \<longleftrightarrow> 0 \<notin> set s"
  using c_chars_plain c_chars_zero by metis

lemma signing_key_right:
  assumes "length (turn_secret ts) < 128"
  shows "signing_key env ts = turn_key env ts \<longleftrightarrow> 0 \<notin> set (turn_key env ts)"
  using assms by (simp add: signing_key_def turn_key_def c_chars_cut)

definition turn_signed :: "'w turn_env \<Rightarrow> u8 list \<Rightarrow> YangTurnSession \<Rightarrow> u8 list \<Rightarrow> u16 \<Rightarrow> u8 list \<Rightarrow> u8 list" where
  "turn_signed env key ts tid type body =
     (let m = turn_plain ts tid type body
      in with_len m (int (length m + 24) - 20) @ integrity (stun_env.truncate env) key m)"

text \<open>What sending needs: strings that end within their arrays, a nonce within its array, and a digest and an HMAC of their sizes.\<close>

definition can_sign :: "'w turn_env \<Rightarrow> YangTurnSession \<Rightarrow> bool" where
  "can_sign env ts \<longleftrightarrow> 0 \<in> set (sv_username (ts_server ts)) \<and> length (sv_username (ts_server ts)) \<le> 64
     \<and> 0 \<in> set (sv_password (ts_server ts)) \<and> 0 \<in> set (ts_realm ts) \<and> length (ts_realm ts) = 129
     \<and> length (ts_nonce ts) = 128 \<and> unat (ts_nonceLen ts) \<le> 128
     \<and> hmac_works (stun_env.truncate env) \<and> (\<forall>m. length (te_md5 env m) = 16)"

definition turn_buffer :: yang_buffer where
  "turn_buffer = yang_init_buffer (replicate 1024 0) 0 1024"

lemma turn_buffer_fresh: "fresh turn_buffer" "length (buf_mem turn_buffer) = 1024"
  by (simp_all add: turn_buffer_def fresh_def yang_init_buffer_def)

lemma turn_put:
  assumes "length bs \<le> 1000"
  shows "yang_write_2bytes (put turn_buffer bs) y = Some (put turn_buffer (bs @ be16 y))"
    "yang_write_4bytes (put turn_buffer bs) z = Some (put turn_buffer (bs @ be32 z))"
proof -
  note f = fresh_put [OF turn_buffer_fresh(1)]
  have l: "length bs \<le> length (buf_mem turn_buffer)" using assms by (simp add: turn_buffer_fresh)
  show "yang_write_2bytes (put turn_buffer bs) y = Some (put turn_buffer (bs @ be16 y))"
    "yang_write_4bytes (put turn_buffer bs) z = Some (put turn_buffer (bs @ be32 z))"
    using assms by (simp_all add: w16.wr_room w32.wr_room f(3) [OF l] f(4) [OF l] turn_buffer_fresh)
qed

lemma turn_write_put:
  assumes "length bs + n \<le> 1024" "n = length a"
  shows "turn_write (put turn_buffer bs) (Some (int n, a @ r)) = Some (put turn_buffer (bs @ a))"
proof -
  note f = fresh_put [OF turn_buffer_fresh(1)]
  have l: "length bs \<le> length (buf_mem turn_buffer)" using assms by (simp add: turn_buffer_fresh)
  have "room (put turn_buffer bs) n" using assms(1) by (simp add: f(3) [OF l] turn_buffer_fresh)
  then show ?thesis
    using write_bytes_put [of "put turn_buffer bs" "int n" "a @ r"] assms(2) by (simp add: turn_write_def f(4) [OF l])
qed

lemma turn_request_put:
  "\<exists>tid w'. turn_request env type w = Some (put turn_buffer (be16 type @ be16 0 @ be32 kStunMagicCookie @ tid), w') \<and> length tid = 12"
proof -
  obtain tid w' where t: "yang_cstr_random (se_random (stun_env.truncate env)) 12 (replicate 13 0) w = Some (tid @ [0], w')" "length tid = 12" "0 \<notin> set tid"
    using random_string [of "se_random (stun_env.truncate env)" 12 w] by (auto simp: numeral_eq_Suc)
  have p: "yang_write_2bytes turn_buffer y = Some (put turn_buffer (be16 y))" for y
    by (rule w16.wr_room) (simp add: fresh_room turn_buffer_fresh)
  have "turn_write (put turn_buffer (be16 type @ be16 0 @ be32 kStunMagicCookie)) (Some (int 12, tid @ [0])) =
      Some (put turn_buffer (be16 type @ be16 0 @ be32 kStunMagicCookie @ tid))"
    using turn_write_put [OF _ t(2) [symmetric], of "be16 type @ be16 0 @ be32 kStunMagicCookie" "[0]"] by simp
  then have "yang_write_bytes (put turn_buffer (be16 type @ be16 0 @ be32 kStunMagicCookie)) (tid @ [0]) 12 =
      Some (put turn_buffer (be16 type @ be16 0 @ be32 kStunMagicCookie @ tid))" by (simp add: turn_write_def)
  moreover have "c_strlen (tid @ [0]) = Some 12" using c_strlen_append [OF t(3), of "[]"] t(2) by simp
  moreover have "st_transcation_id (stun_packet0\<lparr>st_message_type := type\<rparr>) = replicate 13 0" by (simp add: stun_packet0_def)
  ultimately have "turn_request env type w = Some (put turn_buffer (be16 type @ be16 0 @ be32 kStunMagicCookie @ tid), w')"
    using t(1) unfolding turn_request_def yang_turn_encode_header_def Let_def turn_buffer_def [symmetric] by (simp add: p turn_put)
  then show ?thesis using t(2) by blast
qed

section \<open>The integrity attribute\<close>

lemma hmac_attr:
  assumes "hmac_works env" "c_str pwd = Some key" "fresh b" "length m \<le> length (buf_mem b)"
  shows "yang_stun_encode_hmac env (put b m) pwd =
    Some (24, Some (attr StunMessageIntegrity (snd (se_hmac env key m)) @ [0]))"
proof -
  obtain h where h: "se_hmac env key m = (0, h)" "length h = 20"
    using assms(1) unfolding hmac_works_def by (metis prod.collapse)
  note f = fresh_put [OF assms(3,4)]
  have m: "mem_read (buf_mem (put b m)) (buf_data (put b m)) (yang_buffer_pos (put b m)) = Some m" using f by simp
  have hb: "mem_write (replicate 20 0) 0 h = Some h" using h(2) by (auto simp: mem_write_def)
  have p: "padded 20 = 20" by (simp add: padded_def)
  show ?thesis
    using local_write_attr [of h h "[]" StunMessageIntegrity] h(2) unfolding yang_stun_encode_hmac_def m
    by (simp add: assms(2) h(1) hb p length_attr bind_eq_Some_conv)
qed

lemma c_chars_terminated: "c_chars (x @ 0 # r) = c_chars (x @ [0])"
  by (induction x) (auto simp: c_chars_def)

lemma add_integrity:
  assumes "can_sign env ts" "20 \<le> length m" "length m \<le> 1000"
  shows "yang_turn_addFingerprint env ts (put turn_buffer m) False =
    Some (put turn_buffer (with_len m (int (length m + 24) - 20) @ integrity (stun_env.truncate env) (signing_key env ts) m))"
proof -
  let ?k = "take 127 (turn_secret ts)"
  let ?m = "with_len m (int (length m + 24) - 20)"
  let ?h = "snd (se_hmac (stun_env.truncate env) (signing_key env ts) ?m)"
  let ?a = "attr StunMessageIntegrity ?h"
  note c = assms(1) [unfolded can_sign_def]
  have fm: "length m \<le> length (buf_mem turn_buffer)" using assms(3) by (simp add: turn_buffer_fresh)
  have pos: "yang_buffer_pos (put turn_buffer m) = int (length m)" using fresh_put [OF turn_buffer_fresh(1) fm] by simp
  have e: "int (length m) - 20 + 24 = int (length m + 24) - 20" by simp
  have sl: "stun_set_len (put turn_buffer m) (int (length m) - 20 + 24) = Some (put turn_buffer ?m)"
    unfolding e using set_len_put [OF turn_buffer_fresh(1) fm] assms(2) by simp
  have ks: "turn_keystr ts = Some ?k" using c by (simp add: turn_keystr_def turn_secret_def c_str_chars)
  have l16: "length (te_md5 env ?k) = 16" using c by blast
  have kw: "mem_write (replicate 128 0) 0 (te_md5 env ?k) = Some (te_md5 env ?k @ 0 # replicate 111 0)"
  proof -
    have "drop 16 (replicate 128 (0 :: u8)) = 0 # replicate 111 0" by (simp add: replicate_Suc [symmetric] del: replicate_Suc)
    then show ?thesis using l16 by (auto simp: mem_write_def)
  qed
  have key: "c_str (te_md5 env ?k @ 0 # replicate 111 0) = Some (signing_key env ts)"
    by (subst c_str_chars) (simp_all add: signing_key_def c_chars_terminated [of _ "replicate 111 0"])
  have hw: "hmac_works (stun_env.truncate env)" using c by blast
  have lm: "length ?m \<le> length (buf_mem turn_buffer)" using fm by simp
  note ha = hmac_attr [OF hw key turn_buffer_fresh(1) lm]
  have la: "length ?a = 24" using length_integrity [OF hw, of "signing_key env ts" m] by (simp add: integrity_def)
  have "turn_write (put turn_buffer ?m) (Some (int 24, ?a @ [0])) = Some (put turn_buffer (?m @ ?a))"
    by (rule turn_write_put) (use assms(3) la in simp_all)
  then have wr: "yang_write_bytes (put turn_buffer ?m) (?a @ [0]) 24 = Some (put turn_buffer (?m @ ?a))" by (simp add: turn_write_def)
  show ?thesis
    unfolding yang_turn_addFingerprint_def pos sl using ks kw ha wr by (simp add: integrity_def)
qed

lemma credentials_put:
  assumes "can_sign env ts" "20 \<le> length m" "length m \<le> 600"
  defines "n \<equiv> m @ attr StunUsername (c_chars (sv_username (ts_server ts))) @ attr StunRealm (c_chars (ts_realm ts))
     @ attr StunNonce (take (unat (ts_nonceLen ts)) (ts_nonce ts))"
  shows "turn_credentials env ts (put turn_buffer m) =
      Some (put turn_buffer (with_len n (int (length n + 24) - 20) @ integrity (stun_env.truncate env) (signing_key env ts) n))"
    and "length n \<le> 950"
proof -
  note c = assms(1) [unfolded can_sign_def]
  let ?u = "c_chars (sv_username (ts_server ts))" and ?r = "c_chars (ts_realm ts)" and ?o = "take (unat (ts_nonceLen ts)) (ts_nonce ts)"
  let ?u' = "attr StunUsername ?u" and ?r' = "attr StunRealm ?r" and ?o' = "attr StunNonce ?o"
  have "length ?u < 64" using c c_chars_less [of "sv_username (ts_server ts)"] by linarith
  then have lu: "padded (length ?u) \<le> 64" unfolding padded_def by presburger
  have "length ?r < 129" using c c_chars_less [of "ts_realm ts"] by linarith
  then have lr: "padded (length ?r) \<le> 128" unfolding padded_def by presburger
  have o: "length ?o = unat (ts_nonceLen ts)" "unat (ts_nonceLen ts) \<le> 128" using c by simp_all
  then have lo: "padded (unat (ts_nonceLen ts)) \<le> 128" unfolding padded_def by presburger
  have la: "length ?u' \<le> 68" "length ?r' \<le> 132" "length ?o' \<le> 132"
    using lu lr lo unfolding length_attr o(1) by simp_all
  obtain x where x: "sv_username (ts_server ts) = ?u @ 0 # x" using c c_chars_append by blast
  obtain y where y: "ts_realm ts = ?r @ 0 # y" using c c_chars_append by blast
  have eu: "yang_stun_encode_username (sv_username (ts_server ts)) = Some (int (length ?u'), ?u' @ [0])"
    unfolding yang_stun_encode_username_def by (subst x, rule encode_string_attr) (use lu c_chars_zero in auto)
  have er: "yang_stun_encode_realm (ts_realm ts) = Some (int (length ?r'), ?r' @ [0])"
    unfolding yang_stun_encode_realm_def by (subst y, rule encode_string_attr) (use lr c_chars_zero in auto)
  have eo: "yang_stun_encode_nonce (ts_nonce ts) (ts_nonceLen ts) = Some (int (length ?o'), ?o' @ [0])"
    by (rule encode_nonce_attr) (use o lo c in auto)
  have w1: "turn_write (put turn_buffer m) (Some (int (length ?u'), ?u' @ [0])) = Some (put turn_buffer (m @ ?u'))"
    by (rule turn_write_put) (use assms(3) la in simp_all)
  have w2: "turn_write (put turn_buffer (m @ ?u')) (Some (int (length ?r'), ?r' @ [0])) = Some (put turn_buffer ((m @ ?u') @ ?r'))"
    by (rule turn_write_put) (use assms(3) la in simp_all)
  have w3: "turn_write (put turn_buffer ((m @ ?u') @ ?r')) (Some (int (length ?o'), ?o' @ [0])) = Some (put turn_buffer (((m @ ?u') @ ?r') @ ?o'))"
    by (rule turn_write_put) (use assms(3) la in simp_all)
  have n: "((m @ ?u') @ ?r') @ ?o' = n" by (simp add: n_def)
  show l: "length n \<le> 950" using assms(3) la by (simp add: n_def)
  have "20 \<le> length n" using assms(2) by (simp add: n_def)
  then show "turn_credentials env ts (put turn_buffer m) =
      Some (put turn_buffer (with_len n (int (length n + 24) - 20) @ integrity (stun_env.truncate env) (signing_key env ts) n))"
    unfolding turn_credentials_def eu w1 er using add_integrity [OF assms(1), of n] l
    by (simp add: w1 w2 w3 eo n del: append_assoc)
qed

section \<open>Requests\<close>

lemma signed_send:
  assumes "can_sign env ts" "us_isStart (ts_udp ts)" "\<not> us_notRemoteInit (ts_udp ts)" "length tid = 12" "length body \<le> 500"
    and r: "r = te_sendto env w (turn_signed env (signing_key env ts) ts tid type body)"
  shows "\<exists>b. turn_credentials env ts (put turn_buffer (be16 type @ be16 0 @ be32 kStunMagicCookie @ tid @ body)) = Some b
    \<and> turn_send env ts b w = Some (if 0 < fst r then Yang_Ok else 1, ts, snd r)"
proof -
  let ?m = "be16 type @ be16 0 @ be32 kStunMagicCookie @ tid @ body"
  let ?n = "turn_plain ts tid type body"
  let ?i = "integrity (stun_env.truncate env) (signing_key env ts) ?n"
  let ?s = "with_len ?n (int (length ?n + 24) - 20) @ ?i"
  have n: "?m @ attr StunUsername (c_chars (sv_username (ts_server ts))) @ attr StunRealm (c_chars (ts_realm ts))
     @ attr StunNonce (take (unat (ts_nonceLen ts)) (ts_nonce ts)) = ?n" by (simp add: turn_plain_def)
  have lm: "20 \<le> length ?m" "length ?m \<le> 600" using assms(4,5) by simp_all
  note c = credentials_put [OF assms(1) lm, unfolded n]
  have li: "length ?i = 24" by (rule length_integrity) (use assms(1) in \<open>simp add: can_sign_def\<close>)
  have ls: "length ?s = length ?n + 24" using li by simp
  have l: "length ?s \<le> length (buf_mem turn_buffer)" using c(2) unfolding ls by (simp add: turn_buffer_fresh)
  have l4: "4 \<le> length ?n" "4 \<le> length ?s" by (simp_all add: turn_plain_def)
  note f = fresh_put [OF turn_buffer_fresh(1) l]
  have "stun_set_len (put turn_buffer ?s) (yang_buffer_pos (put turn_buffer ?s) - 20) = Some (put turn_buffer ?s)"
    using set_len_put [OF turn_buffer_fresh(1) l l4(2), of "int (length ?n + 24) - 20"] l4(1)
    unfolding f(2) ls by (simp add: with_len_again)
  moreover have "mem_read (buf_mem (put turn_buffer ?s)) 0 (yang_buffer_pos (put turn_buffer ?s)) = Some ?s" using f(2,5) by simp
  moreover have "?s = turn_signed env (signing_key env ts) ts tid type body" by (simp add: turn_signed_def Let_def)
  ultimately have "turn_send env ts (put turn_buffer ?s) w = Some (if 0 < fst r then Yang_Ok else 1, ts, snd r)"
    using assms(2,3) unfolding turn_send_def yang_rtc_sendData_def r by (simp add: case_prod_unfold)
  then show ?thesis using c(1) by auto
qed

text \<open>What it means that a function sends a signed request.\<close>

definition sends_message ::
    "'w turn_env \<Rightarrow> YangTurnSession \<Rightarrow> (u8 list \<Rightarrow> u8 list) \<Rightarrow> (errcode \<times> YangTurnSession \<times> 'w) option \<Rightarrow> bool" where
  "sends_message env ts message res \<longleftrightarrow> (\<exists>tid w. length tid = 12
     \<and> res = (let (n, w') = te_sendto env w (message tid)
              in Some (if 0 < n then Yang_Ok else 1, ts\<lparr>ts_response := turn_response0\<rparr>, w')))"

definition sends_request ::
    "'w turn_env \<Rightarrow> u8 list \<Rightarrow> YangTurnSession \<Rightarrow> u16 \<Rightarrow> u8 list \<Rightarrow> (errcode \<times> YangTurnSession \<times> 'w) option \<Rightarrow> bool" where
  "sends_request env key ts type body = sends_message env ts (\<lambda>tid. turn_signed env key ts tid type body)"

text \<open>A message without credentials.\<close>

definition turn_bare :: "u16 \<Rightarrow> u8 list \<Rightarrow> u8 list \<Rightarrow> u8 list" where
  "turn_bare type body tid = be16 type @ be16 (word_of_nat (length body)) @ be32 kStunMagicCookie @ tid @ body"

lemma same_signed:
  "turn_signed env key (ts\<lparr>ts_response := x\<rparr>) = turn_signed env key ts" "signing_key env (ts\<lparr>ts_response := x\<rparr>) = signing_key env ts" "can_sign env (ts\<lparr>ts_response := x\<rparr>) \<longleftrightarrow> can_sign env ts"
  by (simp_all add: turn_signed_def turn_plain_def signing_key_def turn_secret_def can_sign_def fun_eq_iff)

lemma request_sends:
  assumes "can_sign env ts" "us_isStart (ts_udp ts)" "\<not> us_notRemoteInit (ts_udp ts)" "length body \<le> 500"
    and "\<And>m. length m = 20 \<Longrightarrow> build (put turn_buffer m) = Some (put turn_buffer (m @ body))"
  shows "sends_request env (signing_key env ts) ts type body (do {
     (b, w) \<leftarrow> turn_request env type w;
     b \<leftarrow> build b;
     b \<leftarrow> turn_credentials env (ts\<lparr>ts_response := turn_response0\<rparr>) b;
     turn_send env (ts\<lparr>ts_response := turn_response0\<rparr>) b w
   })"
proof -
  let ?ts = "ts\<lparr>ts_response := turn_response0\<rparr>"
  obtain tid w1 where t: "turn_request env type w = Some (put turn_buffer (be16 type @ be16 0 @ be32 kStunMagicCookie @ tid), w1)" "length tid = 12"
    using turn_request_put [of env type w] by auto
  have b: "build (put turn_buffer (be16 type @ be16 0 @ be32 kStunMagicCookie @ tid)) =
      Some (put turn_buffer (be16 type @ be16 0 @ be32 kStunMagicCookie @ tid @ body))"
    using assms(5) [of "be16 type @ be16 0 @ be32 kStunMagicCookie @ tid"] t(2) by simp
  have c: "can_sign env ?ts" "us_isStart (ts_udp ?ts)" "\<not> us_notRemoteInit (ts_udp ?ts)"
    using assms(1-3) by (simp_all add: same_signed)
  from signed_send [OF c t(2) assms(4) refl, of type w1] obtain b where
    "turn_credentials env ?ts (put turn_buffer (be16 type @ be16 0 @ be32 kStunMagicCookie @ tid @ body)) = Some b"
    "turn_send env ?ts b w1 = Some (if 0 < fst (te_sendto env w1 (turn_signed env (signing_key env ts) ts tid type body)) then Yang_Ok else 1, ?ts,
       snd (te_sendto env w1 (turn_signed env (signing_key env ts) ts tid type body)))"
    unfolding same_signed by auto
  then show ?thesis using t b unfolding sends_request_def sends_message_def
    by (intro exI [of _ tid] exI [of _ w1]) (simp add: case_prod_unfold Let_def)
qed

lemma write_attr:
  assumes "length m \<le> 600" "length a \<le> 300" "e = Some (int (length a), a @ [0])"
  shows "turn_write (put turn_buffer m) e = Some (put turn_buffer (m @ a))"
  unfolding assms(3) by (rule turn_write_put) (use assms(1,2) in simp_all)

lemma small_attrs:
  "yang_stun_encode_transport protocol = Some (8, attr StunRequestTransport [protocol, 0, 0, 0] @ [0])"
  "yang_stun_encode_lifetime v = Some (8, attr StunLifetime (be32 (word_of_int v)) @ [0])"
  "yang_stun_encode_channelNumber c = Some (8, attr StunChannelNumber (be16 c @ be16 0) @ [0])"
proof -
  have w: "yang_write_2bytes stun_local t = Some (put stun_local (be16 t))"
    "yang_write_2bytes (put stun_local (be16 t)) x = Some (put stun_local (be16 t @ be16 x))"
    "yang_write_2bytes (put stun_local (be16 t @ be16 x)) y = Some (put stun_local (be16 t @ be16 x @ be16 y))"
    "yang_write_2bytes (put stun_local (be16 t @ be16 x @ be16 y)) z = Some (put stun_local (be16 t @ be16 x @ be16 y @ be16 z))"
    "yang_write_4bytes (put stun_local (be16 t @ be16 x)) c = Some (put stun_local (be16 t @ be16 x @ be32 c))" for t x y z c
    by (simp_all add: w16.wr_room w32.wr_room fresh_room fresh_put local_fresh)
  have b: "yang_write_bytes (put stun_local (be16 t @ be16 x)) [p, 0, 0, 0] 4 = Some (put stun_local (be16 t @ be16 x @ [p, 0, 0, 0]))" for t x p
    using write_bytes_put [of "put stun_local (be16 t @ be16 x)" 4 "[p, 0, 0, 0]"] by (simp add: fresh_put local_fresh)
  have c: "stun_copy (put stun_local (attr t v)) = Some (8, attr t v @ [0])" if "length v = 4" for t v
    by (subst copy_put) (simp_all add: local_fresh length_attr padded_def that)
  have a: "be16 t @ be16 4 @ v = attr t v" if "length v = 4" for t v by (simp add: attr_def that padded_def)
  show "yang_stun_encode_transport protocol = Some (8, attr StunRequestTransport [protocol, 0, 0, 0] @ [0])"
    by (simp add: yang_stun_encode_transport_def w b a c del: append_Cons append_Nil)
  show "yang_stun_encode_lifetime v = Some (8, attr StunLifetime (be32 (word_of_int v)) @ [0])"
    by (simp add: yang_stun_encode_lifetime_def w a c)
  show "yang_stun_encode_channelNumber c = Some (8, attr StunChannelNumber (be16 c @ be16 0) @ [0])"
    by (simp add: yang_stun_encode_channelNumber_def w a c)
qed

lemma write_20:
  assumes "length m = 20" "e = Some (int (length a), a @ [0])" "length a \<le> 300"
  shows "turn_write (put turn_buffer m) e = Some (put turn_buffer (m @ a))"
  by (rule write_attr) (use assms in simp_all)

lemma length_8: "length (attr t v) = 8" if "length v = 4"
  by (simp add: length_attr padded_def that)

definition peer_attr :: "YangTurnPeer \<Rightarrow> u8 list" where
  "peer_attr peer = attr StunXorPeerAddress (xor_address (tp_mapAddress peer) (tp_port peer))"

lemma peer_attr: "yang_stun_encode_peer_address_ipv4 (tp_mapAddress peer) (tp_port peer) = Some (int (length (peer_attr peer)), peer_attr peer @ [0])"
  "length (peer_attr peer) = 12"
  by (simp_all add: yang_stun_encode_peer_address_ipv4_def address_attr peer_attr_def length_attr padded_def xor_address_def)

lemma signed_requests:
  assumes "can_sign env ts" "us_isStart (ts_udp ts)" "\<not> us_notRemoteInit (ts_udp ts)"
  shows "sends_request env (signing_key env ts) ts 0x0003 (attr StunRequestTransport [protocol, 0, 0, 0]) (yang_turn_encode_allocate env ts protocol False w)"
    and "sends_request env (signing_key env ts) ts 0x0004 (if isClose then attr StunLifetime (be32 0) else []) (yang_turn_encode_refresh env ts isClose w)"
    and "sends_request env (signing_key env ts) ts 0x0008 (peer_attr peer) (yang_turn_encode_permission env ts peer w)"
    and "sends_request env (signing_key env ts) ts 0x0009 (attr StunChannelNumber (be16 (tp_channelNumber peer) @ be16 0) @ peer_attr peer)
        (yang_turn_encode_bindChannel env ts peer w)"
proof -
  have l: "length (attr StunRequestTransport [protocol, 0, 0, 0]) = 8" "length (attr StunLifetime (be32 0)) = 8"
    "length (attr StunChannelNumber (be16 (tp_channelNumber peer) @ be16 0)) = 8" by (simp_all add: length_8)
  show "sends_request env (signing_key env ts) ts 0x0003 (attr StunRequestTransport [protocol, 0, 0, 0]) (yang_turn_encode_allocate env ts protocol False w)"
    using request_sends [OF assms, of "attr StunRequestTransport [protocol, 0, 0, 0]" "\<lambda>b. turn_write b (yang_stun_encode_transport protocol)" "0x0003" w] l
    by (simp add: yang_turn_encode_allocate_def Let_def write_20 small_attrs)
  show "sends_request env (signing_key env ts) ts 0x0004 (if isClose then attr StunLifetime (be32 0) else []) (yang_turn_encode_refresh env ts isClose w)"
    using request_sends [OF assms, of "if isClose then attr StunLifetime (be32 0) else []"
        "\<lambda>b. if isClose then turn_write b (yang_stun_encode_lifetime 0) else Some b" "0x0004" w] l
    by (simp add: yang_turn_encode_refresh_def Let_def write_20 small_attrs)
  show "sends_request env (signing_key env ts) ts 0x0008 (peer_attr peer) (yang_turn_encode_permission env ts peer w)"
    using request_sends [OF assms, of "peer_attr peer"
        "\<lambda>b. turn_write b (yang_stun_encode_peer_address_ipv4 (tp_mapAddress peer) (tp_port peer))" "0x0008" w]
    by (simp add: yang_turn_encode_permission_def Let_def write_20 peer_attr)
  let ?c = "attr StunChannelNumber (be16 (tp_channelNumber peer) @ be16 0)"
  have w2: "turn_write (put turn_buffer (m @ ?c)) (yang_stun_encode_peer_address_ipv4 (tp_mapAddress peer) (tp_port peer)) =
      Some (put turn_buffer (m @ ?c @ peer_attr peer))" if "length m = 20" for m
    using write_attr [of "m @ ?c" "peer_attr peer"] l that by (simp add: peer_attr)
  show "sends_request env (signing_key env ts) ts 0x0009 (?c @ peer_attr peer) (yang_turn_encode_bindChannel env ts peer w)"
    using request_sends [OF assms, of "?c @ peer_attr peer"
        "\<lambda>b. do {
          b \<leftarrow> turn_write b (yang_stun_encode_channelNumber (tp_channelNumber peer));
          turn_write b (yang_stun_encode_peer_address_ipv4 (tp_mapAddress peer) (tp_port peer)) }" "0x0009" w] l
    by (simp add: yang_turn_encode_bindChannel_def Let_def write_20 small_attrs w2 peer_attr(2))
qed

lemma plain_allocate:
  assumes "us_isStart (ts_udp ts)" "\<not> us_notRemoteInit (ts_udp ts)"
  shows "sends_message env ts (turn_bare 0x0003 (attr StunRequestTransport [protocol, 0, 0, 0])) (yang_turn_encode_allocate env ts protocol True w)"
proof -
  let ?a = "attr StunRequestTransport [protocol, 0, 0, 0]"
  obtain tid w1 where t: "turn_request env 0x0003 w = Some (put turn_buffer (be16 0x0003 @ be16 0 @ be32 kStunMagicCookie @ tid), w1)" "length tid = 12"
    using turn_request_put [of env "0x0003" w] by auto
  let ?m = "(be16 0x0003 @ be16 0 @ be32 kStunMagicCookie @ tid) @ ?a"
  have wr: "turn_write (put turn_buffer (be16 0x0003 @ be16 0 @ be32 kStunMagicCookie @ tid)) (yang_stun_encode_transport protocol) = Some (put turn_buffer ?m)"
    by (rule write_20) (use t(2) in \<open>simp_all add: small_attrs length_8\<close>)
  have l: "length ?m = 28" using t(2) by (simp add: length_8)
  have fm: "length ?m \<le> length (buf_mem turn_buffer)" using l by (simp add: turn_buffer_fresh)
  have sl: "stun_set_len (put turn_buffer ?m) (yang_buffer_pos (put turn_buffer ?m) - 20) = Some (put turn_buffer (turn_bare 0x0003 ?a tid))"
    using set_len_put [OF turn_buffer_fresh(1) fm] l t(2) fresh_put(2) [OF turn_buffer_fresh(1) fm]
    by (simp add: turn_bare_def with_len_def length_8 be16_def)
  have "length (turn_bare 0x0003 ?a tid) = 28" using t(2) by (simp add: turn_bare_def length_8)
  then have fb: "length (turn_bare 0x0003 ?a tid) \<le> length (buf_mem turn_buffer)" by (simp add: turn_buffer_fresh)
  note f = fresh_put [OF turn_buffer_fresh(1) fb]
  have "mem_read (buf_mem (put turn_buffer (turn_bare 0x0003 ?a tid))) 0 (yang_buffer_pos (put turn_buffer (turn_bare 0x0003 ?a tid)))
      = Some (turn_bare 0x0003 ?a tid)" using f(2,5) by simp
  then show ?thesis
    using assms t wr sl unfolding sends_message_def yang_turn_encode_allocate_def Let_def turn_send_def yang_rtc_sendData_def
    by (intro exI [of _ tid] exI [of _ w1]) (simp add: case_prod_unfold)
qed

text \<open>
  C9: the first request for an allocation is sent as a STUN message with its transport attribute only. The requests for an allocation
  after the server has asked for credentials, for its refresh, a permission and a channel are sent as STUN messages of their types: their
  own attributes, then user name, realm and nonce, and the integrity attribute of RFC 5389 over all of this under the long-term key, the
  MD5 digest of the credentials, with the length field counting up to the end of it - provided that the credentials have fewer than 128
  characters and the digest no zero byte; otherwise the key is another one (signing_key_right).
\<close>
theorem turn_requests_signed:
  assumes "can_sign env ts" "us_isStart (ts_udp ts)" "\<not> us_notRemoteInit (ts_udp ts)"
    and "length (turn_secret ts) < 128" "0 \<notin> set (turn_key env ts)"
  shows "sends_message env ts (turn_bare 0x0003 (attr StunRequestTransport [protocol, 0, 0, 0])) (yang_turn_encode_allocate env ts protocol True w)
    \<and> sends_request env (turn_key env ts) ts 0x0003 (attr StunRequestTransport [protocol, 0, 0, 0]) (yang_turn_encode_allocate env ts protocol False w)
    \<and> sends_request env (turn_key env ts) ts 0x0004 (if isClose then attr StunLifetime (be32 0) else []) (yang_turn_encode_refresh env ts isClose w)
    \<and> sends_request env (turn_key env ts) ts 0x0008 (peer_attr peer) (yang_turn_encode_permission env ts peer w)
    \<and> sends_request env (turn_key env ts) ts 0x0009 (attr StunChannelNumber (be16 (tp_channelNumber peer) @ be16 0) @ peer_attr peer)
        (yang_turn_encode_bindChannel env ts peer w)"
proof -
  have k: "signing_key env ts = turn_key env ts" using signing_key_right [OF assms(4), of env] assms(5) by blast
  note r = signed_requests [OF assms(1-3), unfolded k]
  show ?thesis by (intro conjI plain_allocate [OF assms(2,3)] r)
qed

text \<open>A digest with a zero byte: the request is signed with another key than the one the server has.\<close>

theorem turn_key_cut:
  assumes "can_sign env ts" "us_isStart (ts_udp ts)" "\<not> us_notRemoteInit (ts_udp ts)"
    and "length (turn_secret ts) < 128" "0 \<in> set (turn_key env ts)"
  shows "\<exists>key. sends_request env key ts 0x0008 (peer_attr peer) (yang_turn_encode_permission env ts peer w) \<and> length key < length (turn_key env ts)"
proof -
  have "signing_key env ts = takeWhile (\<lambda>c. c \<noteq> 0) (turn_key env ts)"
    using assms(4,5) by (simp add: signing_key_def turn_key_def c_chars_def takeWhile_append1)
  moreover have "length (takeWhile (\<lambda>c. c \<noteq> 0) (turn_key env ts)) < length (turn_key env ts)"
    using c_chars_less [OF assms(5)] by (simp add: c_chars_def)
  ultimately show ?thesis using signed_requests(3) [OF assms(1-3)] by metis
qed

lemma example_ready_facts:
  "can_sign example_turn_env example_ready" "us_isStart (ts_udp example_ready)" "\<not> us_notRemoteInit (ts_udp example_ready)"
  "length (turn_secret example_ready) < 128" "0 \<notin> set (turn_key example_turn_env example_ready)"
  by (simp_all add: can_sign_def example_ready_def example_turn_def example_server_def example_udp_def example_turn_env_def hmac_works_def
      stun_env.defs turn_secret_def turn_key_def c_chars_def)

theorem turn_requests_signed_witness:
  "sends_request example_turn_env (replicate 16 1) example_ready 0x0004 (attr StunLifetime (be32 0)) (yang_turn_encode_refresh example_turn_env example_ready True ())"
proof -
  have "turn_key example_turn_env example_ready = replicate 16 1" by (simp add: turn_key_def example_turn_env_def)
  then show ?thesis using turn_requests_signed [OF example_ready_facts, of 0 "()" True] by simp
qed

end
