(* ===== verification/Ice_Facts.thy ===== *)
theory Ice_Facts
  imports Ice Turn_Wire
begin

text \<open>
  What the choice of a candidate comes to: when the STUN request ends, what an answer changes, and what sessions do to each other
  through the shared TURN connection.
\<close>

section \<open>The STUN request is sent\<close>

text \<open>A property of the world that random numbers and the look-up of the local address keep.\<close>

definition quiet :: "('w, 'e) stun_env_scheme \<Rightarrow> ('w \<Rightarrow> bool) \<Rightarrow> bool" where
  "quiet env P \<longleftrightarrow> (\<forall>w. P w \<longrightarrow> P (snd (se_random env w))) \<and> (\<forall>w. P w \<longrightarrow> P (snd (se_localInfo env w)))"

lemma random_loop_world:
  "random_loop rnd table k i m w = Some (m', w') \<Longrightarrow> (\<And>w. P w \<Longrightarrow> P (snd (rnd w))) \<Longrightarrow> P w \<Longrightarrow> P w'"
proof (induction k arbitrary: i m w)
  case (Suc k)
  obtain r w1 where r: "rnd w = (r, w1)" by (cases "rnd w")
  then obtain m1 where "random_loop rnd table k (i + 1) m1 w1 = Some (m', w')" using Suc.prems(1) by (auto simp: bind_eq_Some_conv)
  moreover have "P w1" using Suc.prems(2) [OF Suc.prems(3)] r by simp
  ultimately show ?case using Suc.IH Suc.prems(2) by blast
qed simp

lemma quiet_random:
  assumes "quiet env P" "P w" "yang_cstr_random (se_random env) n m w = Some (m', w')"
  shows "P w'"
  using assms random_loop_world [of "se_random env" random_table "nat n" 0 m w m' w' P] by (simp add: yang_cstr_random_def quiet_def)

lemma int32_table: "\<forall>c \<in> set random_int32_table. c \<noteq> 0" "random_int32_table \<noteq> []"
  by (code_simp)+

lemma digits:
  assumes "quiet env P" "P w"
  shows "\<exists>s w'. yang_cint32_random (se_random env) 30 (replicate 31 0) w = Some (s @ [0], w') \<and> 0 \<notin> set s \<and> P w'"
proof -
  obtain s w' where r: "random_loop (se_random env) random_int32_table 30 (int 0) (replicate 31 0) w = Some (take 0 (replicate 31 0) @ s @ drop (0 + 30) (replicate 31 0), w')"
    "length s = 30" "0 \<notin> set s"
    using random_loop_string [OF _ int32_table, of 0 30 "replicate 31 0" "se_random env" w] by auto
  have "drop 30 (replicate 31 (0 :: u8)) = [0]" by (simp add: drop_replicate)
  moreover have "P w'"
    by (rule random_loop_world [OF r(1)]) (use assms in \<open>simp_all add: quiet_def\<close>)
  ultimately show ?thesis using r by (intro exI [of _ s] exI [of _ w']) (simp add: yang_cint32_random_def)
qed

lemma turn_put_bytes:
  assumes "length bs \<le> 500" "0 \<le> n" "n \<le> int (length src)" "n \<le> 200"
  shows "yang_write_bytes (put turn_buffer bs) src n = Some (put turn_buffer (bs @ take (nat n) src))"
proof -
  note f = fresh_put [OF turn_buffer_fresh(1)]
  have l: "length bs \<le> length (buf_mem turn_buffer)" using assms(1) by (simp add: turn_buffer_fresh)
  have "room (put turn_buffer bs) (nat n)" using assms by (simp add: f(3) [OF l] turn_buffer_fresh)
  then show ?thesis using write_bytes_put [of "put turn_buffer bs" n src] assms by (simp add: f(4) [OF l])
qed

lemma turn_put_first: "yang_write_2bytes turn_buffer y = Some (put turn_buffer (be16 y))"
  by (rule w16.wr_room) (simp add: fresh_room turn_buffer_fresh)

lemma request_head:
  assumes "quiet env P" "P w" "length tid = 12" "0 \<notin> set tid" "length u \<le> 200"
  shows "\<exists>d w'. stun_request_head env type (tid @ [0]) turn_buffer (u @ r) (int (length u)) w = Some (put turn_buffer d, w')
    \<and> 20 \<le> length d \<and> length d \<le> 300 \<and> P w'"
proof -
  obtain s w' where s: "yang_cint32_random (se_random env) 30 (replicate 31 0) w = Some (s @ [0], w')" "0 \<notin> set s" "P w'"
    using digits [OF assms(1,2)] by blast
  have c: "c_str (9 # s @ [0]) = Some (9 # s)" using c_str_append [OF s(2), of "[]"] by simp
  have n: "c_strlen (tid @ [0]) = Some 12" using c_strlen_append [OF assms(4), of "[]"] assms(3) by simp
  let ?d = "be16 type @ be16 (word_of_nat (length u)) @ be32 kStunMagicCookie @ tid @ u @ be16 StunPriority @ be16 4
    @ be32 (word_of_int (c_atoi (9 # s)))"
  show ?thesis
    using s(1,3) c n assms(3,5)
    by (intro exI [of _ ?d] exI [of _ w']) (simp add: stun_request_head_def Let_def turn_put_first turn_put turn_put_bytes)
qed

lemma encode_request:
  assumes "quiet env P" "P w" "hmac_works (stun_env.truncate env)" "c_str pwd = Some key"
  shows "\<exists>d w'. yang_stun_encode_request (stun_env.truncate env) turn_buffer port pwd w = Some (Yang_Ok, put turn_buffer d, w')
    \<and> length d \<le> 400 \<and> d \<noteq> [] \<and> P w'"
proof -
  let ?env = "stun_env.truncate env"
  have q: "quiet ?env P" using assms(1) by (simp add: quiet_def stun_env.defs)
  obtain tid w1 where t: "yang_cstr_random (se_random ?env) 12 (replicate 13 0) w = Some (tid @ [0], w1)" "length tid = 12" "0 \<notin> set tid"
    using random_string [of "se_random ?env" 12 w] by (auto simp: numeral_eq_Suc)
  have p1: "P w1" by (rule quiet_random [OF q assms(2) t(1)])
  obtain ip w2 where ip: "se_localInfo ?env w1 = (ip, w2)" by (cases "se_localInfo ?env w1")
  have p2: "P w2" using q p1 ip unfolding quiet_def by (metis snd_conv)
  let ?pkt = "stun_packet0\<lparr>st_message_type := StunBindingRequest, st_transcation_id := tid @ [0], st_mapped_port := port\<rparr>"
  have cp: "c_strcpy (st_transcation_id stun_packet0) (tid @ [0]) = Some (tid @ [0])"
    using c_str_append [OF t(3), of "[]"] t(2) by (simp add: c_strcpy_def mem_write_def stun_packet0_def)
  have u: "yang_stun_encode_rtcusername ?pkt = Some (int (length (attr StunUsername [58])), attr StunUsername [58] @ [0])"
  proof -
    have "c_str (replicate (Suc n) 0) = Some []" for n by simp
    from this [of 31] this [of 15] have "c_str (st_remote_ufrag ?pkt) = Some []" "c_str (st_local_ufrag ?pkt) = Some []"
      by (simp_all add: stun_packet0_def del: replicate.simps)
    from rtcusername_attr [OF this] show ?thesis by simp
  qed
  have lu: "length (attr StunUsername [58]) = 8" by (simp add: length_attr padded_def)
  obtain d w3 where d: "stun_request_head ?env StunBindingRequest (tid @ [0]) turn_buffer (attr StunUsername [58] @ [0]) (int (length (attr StunUsername [58]))) w2
      = Some (put turn_buffer d, w3)" "20 \<le> length d" "length d \<le> 300" "P w3"
    using request_head [OF q p2 t(2,3), of "attr StunUsername [58]" StunBindingRequest "[0]"] lu by auto
  obtain s w4 where s: "yang_cstr_random (se_random ?env) 8 (replicate 32 0) w3 = Some (s, w4)" "8 \<le> length s"
  proof -
    have t: "random_table \<noteq> []" using random_table_chars(2) by auto
    from random_loop_string [OF _ random_table_chars(1) t, of 0 8 "replicate 32 0" "se_random ?env" w3]
    show ?thesis using that by (auto simp: yang_cstr_random_def)
  qed
  have p4: "P w4" by (rule quiet_random [OF q d(4) s(1)])
  let ?e = "d @ be16 StunIceControlling @ be16 8 @ take 8 s"
  have c: "stun_ice_controlling ?env (put turn_buffer d) w3 = Some (put turn_buffer ?e, w4)"
    using s d(3) by (simp add: stun_ice_controlling_def turn_put turn_put_bytes)
  have le: "20 \<le> length ?e" "length ?e + 32 \<le> length (buf_mem turn_buffer)" "length ?e \<le> 312"
    using d(2,3) s(2) by (simp_all add: turn_buffer_fresh)
  have sg: "stun_sign ?env pwd (put turn_buffer ?e) = Some (Yang_Ok, put turn_buffer (signed_message ?env key ?e))"
    by (rule stun_sign_put [OF turn_buffer_fresh(1) assms(3,4) le(1,2)])
  have "length (signed_message ?env key ?e) = length ?e + 32" by (rule length_signed [OF assms(3)])
  then have "length (signed_message ?env key ?e) \<le> 400" "signed_message ?env key ?e \<noteq> []" using le(1,3) by auto
  moreover have "yang_stun_encode_request ?env turn_buffer port pwd w = Some (Yang_Ok, put turn_buffer (signed_message ?env key ?e), w4)"
    unfolding yang_stun_encode_request_def yang_stun_encode_def yang_stun_encode_binding_request2_def t(1)
    using ip cp u d(1) c sg by (simp add: stun_packet0_def Let_def)
  ultimately show ?thesis using p4 by blast
qed

text \<open>A world that takes every datagram, counted by \<open>sent\<close>.\<close>

definition counts :: "'w ice_env \<Rightarrow> ('w \<Rightarrow> nat) \<Rightarrow> bool" where
  "counts env sent \<longleftrightarrow> hmac_works (stun_env.truncate env) \<and> (\<forall>n. quiet env (\<lambda>w. sent w = n))
     \<and> (\<forall>w d. 0 < fst (te_sendto env w d) \<and> sent (snd (te_sendto env w d)) = sent w + 1)
     \<and> (\<forall>w a. sent (snd (te_getIp env w a)) = sent w) \<and> (\<forall>w. sent (snd (ie_arrived env w)) = sent w)"

lemma send_request_world:
  assumes "hmac_works (stun_env.truncate env)" "quiet env P" "P w" "c_str pwd = Some key"
  obtains d w1 where "P w1"
    "us_notRemoteInit udp \<or> \<not> (\<exists>w. ie_started env w) \<longrightarrow> stun_send_request env udp pwd w = Some (ERROR_RTC_UDP, w1)"
    "\<not> us_notRemoteInit udp \<and> (\<forall>w. ie_started env w) \<and> (\<forall>w d. 0 < fst (te_sendto env w d))
      \<longrightarrow> stun_send_request env udp pwd w = Some (Yang_Ok, snd (te_sendto env w1 d))"
proof -
  obtain d w1 where d: "yang_stun_encode_request (stun_env.truncate env) turn_buffer (us_local_sin_port udp) pwd w = Some (Yang_Ok, put turn_buffer d, w1)"
    "length d \<le> 400" "P w1"
    using encode_request [OF assms(2,3,1,4), of "us_local_sin_port udp"] by blast
  have ld: "length d \<le> length (buf_mem turn_buffer)" using d(2) by (simp add: turn_buffer_fresh)
  note f = fresh_put [OF turn_buffer_fresh(1) ld]
  have r: "mem_read (buf_mem (put turn_buffer d)) 0 (yang_buffer_pos (put turn_buffer d)) = Some d" using f(2,5) by simp
  have "us_notRemoteInit udp \<or> \<not> (\<exists>w. ie_started env w) \<longrightarrow> stun_send_request env udp pwd w = Some (ERROR_RTC_UDP, w1)"
    using d unfolding stun_send_request_def Let_def turn_buffer_def [symmetric] by (auto simp: yang_rtc_sendData_def)
  moreover have "\<not> us_notRemoteInit udp \<and> (\<forall>w. ie_started env w) \<and> (\<forall>w d. 0 < fst (te_sendto env w d))
      \<longrightarrow> stun_send_request env udp pwd w = Some (Yang_Ok, snd (te_sendto env w1 d))"
    using d r unfolding stun_send_request_def Let_def turn_buffer_def [symmetric]
    by (auto simp: yang_rtc_sendData_def turn_env.defs case_prod_unfold)
  ultimately show thesis by (rule that [OF d(3)])
qed

lemma send_request:
  assumes "counts env sent" "c_str pwd = Some key"
  shows "us_notRemoteInit udp \<or> \<not> (\<exists>w. ie_started env w) \<Longrightarrow> \<exists>w'. stun_send_request env udp pwd w = Some (ERROR_RTC_UDP, w') \<and> sent w' = sent w"
    and "\<not> us_notRemoteInit udp \<Longrightarrow> (\<forall>w. ie_started env w) \<Longrightarrow> \<exists>w'. stun_send_request env udp pwd w = Some (Yang_Ok, w') \<and> sent w' = sent w + 1"
proof -
  have q: "quiet env (\<lambda>v. sent v = sent w)" "hmac_works (stun_env.truncate env)" using assms(1) by (simp_all add: counts_def)
  obtain d w1 where d: "sent w1 = sent w"
    "us_notRemoteInit udp \<or> \<not> (\<exists>w. ie_started env w) \<longrightarrow> stun_send_request env udp pwd w = Some (ERROR_RTC_UDP, w1)"
    "\<not> us_notRemoteInit udp \<and> (\<forall>w. ie_started env w) \<and> (\<forall>w d. 0 < fst (te_sendto env w d))
      \<longrightarrow> stun_send_request env udp pwd w = Some (Yang_Ok, snd (te_sendto env w1 d))"
    by (rule send_request_world [OF q(2,1) refl assms(2), of udp])
  show "\<exists>w'. stun_send_request env udp pwd w = Some (ERROR_RTC_UDP, w') \<and> sent w' = sent w" if "us_notRemoteInit udp \<or> \<not> (\<exists>w. ie_started env w)"
    using d(1,2) that by metis
  have c: "\<forall>w d. 0 < fst (te_sendto env w d)" "sent (snd (te_sendto env w1 d)) = sent w1 + 1" using assms(1) by (simp_all add: counts_def)
  show "\<exists>w'. stun_send_request env udp pwd w = Some (Yang_Ok, w') \<and> sent w' = sent w + 1"
    if "\<not> us_notRemoteInit udp" "\<forall>w. ie_started env w" using d(1,3) that c by simp
qed

lemma div_next: "(Suc t) div 25 = t div 25 + (if Suc t mod 25 = 0 then 1 else 0)" for t :: nat
  by (simp add: div_Suc)

lemma wait_silent:
  assumes "counts env sent" "c_str pwd = Some key" "\<not> us_notRemoteInit udp" "\<forall>w. ie_started env w" "\<forall>w. fst (ie_arrived env w) = []"
    and "\<not> rq_response request"
  shows "\<exists>w'. stun_wait env udp pwd k t request w = Some (Yang_Ok, request, w') \<and> sent w' + t div 25 = sent w + (t + k) div 25"
proof (induction k arbitrary: t w)
  case (Suc k)
  obtain w1 where a: "ie_arrived env w = ([], w1)" using assms(5) by (metis prod.collapse)
  have s1: "sent w1 = sent w" using assms(1) a unfolding counts_def by (metis snd_conv)
  show ?case
  proof (cases "Suc t mod 25 = 0")
    case True
    obtain w2 where w2: "stun_send_request env udp pwd w1 = Some (Yang_Ok, w2)" "sent w2 = sent w1 + 1"
      using send_request(2) [OF assms(1-4)] by blast
    obtain w' where "stun_wait env udp pwd k (Suc t) request w2 = Some (Yang_Ok, request, w')" "sent w' + Suc t div 25 = sent w2 + (Suc t + k) div 25"
      using Suc.IH by blast
    then show ?thesis using a assms(6) True w2 s1 div_next [of t] by auto
  next
    case False
    obtain w' where "stun_wait env udp pwd k (Suc t) request w1 = Some (Yang_Ok, request, w')" "sent w' + Suc t div 25 = sent w1 + (Suc t + k) div 25"
      using Suc.IH by blast
    then show ?thesis using a assms(6) False s1 div_next [of t] by auto
  qed
qed simp

text \<open>Worlds for the examples: the state counts the datagrams.\<close>

definition example_ice_env :: "(u8 list \<times> int) list \<Rightarrow> bool \<Rightarrow> nat ice_env" where
  "example_ice_env arrived started = \<lparr>se_random = (\<lambda>w. (0, w)), se_hmac = (\<lambda>key m. (Yang_Ok, replicate 20 7)), se_localInfo = (\<lambda>w. ([0], w)),
     se_send = (\<lambda>w d. (Yang_Ok, w)), te_md5 = (\<lambda>d. replicate 16 1), te_time = (\<lambda>w. (5000000, w)), te_inet_addr = (\<lambda>a. 0x0100007F),
     te_getIp = (\<lambda>w a. ([49, 0], w)), te_receive = (\<lambda>w u d n. w), te_sendto = (\<lambda>w d. (1, w + 1)),
     ie_started = (\<lambda>w. started), ie_arrived = (\<lambda>w. (arrived, w)), ie_turn = (\<lambda>ts w. (ts, w))\<rparr>"

lemma example_counts: "counts (example_ice_env arrived started) (\<lambda>n. n)"
  by (simp add: counts_def example_ice_env_def hmac_works_def quiet_def stun_env.defs)

definition example_ice :: YangIceSession where
  "example_ice = \<lparr>is_uid = 7, is_localPort = 9000, is_isTurnAllocated = False, is_isTurnReady = False, is_candidateType = YangIceStun,
     is_turnconn = None, is_server = example_server\<rparr>"

text \<open>The part before the wait.\<close>

lemma request_prefix_world:
  assumes "quiet env P" "\<forall>v a. P v \<longrightarrow> P (snd (te_getIp env v a))" "P w"
  obtains udp pwd key w1 where "c_str pwd = Some key" "us_notRemoteInit udp \<longleftrightarrow> sv_serverPort server = 0" "P w1"
    "yang_ice_stun_request env server port w = do {
       (err, w) \<leftarrow> stun_send_request env udp pwd w1;
       if err \<noteq> Yang_Ok then Some (err, server, w)
       else do {
         (err, request, w) \<leftarrow> stun_wait env udp pwd 500 0 \<lparr>rq_ip = 0, rq_port = 0, rq_response = False\<rparr> w;
         if err \<noteq> Yang_Ok then Some (err, server, w)
         else if rq_response request then Some (Yang_Ok, server\<lparr>sv_stunIp := rq_ip request, sv_stunPort := rq_port request\<rparr>, w)
         else Some (ERROR_RTC_STUN, server, w)
       }
     }"
proof -
  obtain ip w0 where ip: "te_getIp env w (sv_serverIp server) = (ip, w0)" by (cases "te_getIp env w (sv_serverIp server)")
  have s0: "P w0" using assms(2,3) ip by (metis snd_conv)
  obtain s w1 where r: "yang_cstr_random (se_random env) 32 (replicate 33 0) w0 = Some (s @ [0], w1)" "0 \<notin> set s"
    using random_string [of "se_random env" 32 w0] by (auto simp: numeral_eq_Suc)
  have s1: "P w1" by (rule quiet_random [OF assms(1) s0 r(1)])
  let ?udp = "yang_rtcudp_update_remoteAddr (ice_turn_env env) (yang_create_rtcudp udp0 port) ip (sv_serverPort server)"
  have "us_notRemoteInit ?udp \<longleftrightarrow> sv_serverPort server = 0" by (simp add: yang_rtcudp_update_remoteAddr_def)
  then show ?thesis
    using that [of "s @ [0]" s ?udp w1] s1 c_str_append [OF r(2), of "[]"] ip r(1) by (simp add: yang_ice_stun_request_def Let_def)
qed

lemma request_prefix:
  assumes "counts env sent"
  obtains udp pwd key w1 where "c_str pwd = Some key" "us_notRemoteInit udp \<longleftrightarrow> sv_serverPort server = 0" "sent w1 = sent w"
    "yang_ice_stun_request env server port w = do {
       (err, w) \<leftarrow> stun_send_request env udp pwd w1;
       if err \<noteq> Yang_Ok then Some (err, server, w)
       else do {
         (err, request, w) \<leftarrow> stun_wait env udp pwd 500 0 \<lparr>rq_ip = 0, rq_port = 0, rq_response = False\<rparr> w;
         if err \<noteq> Yang_Ok then Some (err, server, w)
         else if rq_response request then Some (Yang_Ok, server\<lparr>sv_stunIp := rq_ip request, sv_stunPort := rq_port request\<rparr>, w)
         else Some (ERROR_RTC_STUN, server, w)
       }
     }"
proof (rule request_prefix_world [of env "\<lambda>v. sent v = sent w" w server port])
  show "quiet env (\<lambda>v. sent v = sent w)" "\<forall>v a. sent v = sent w \<longrightarrow> sent (snd (te_getIp env v a)) = sent w"
    using assms by (simp_all add: counts_def)
qed (rule refl that, assumption+)+

text \<open>
  C10: a STUN request that nobody answers ends after 500 waits, with an error, and has sent 21 datagrams.
\<close>
theorem ice_stun_silent:
  assumes "counts env sent" "sv_serverPort server \<noteq> 0" "\<forall>w. ie_started env w" "\<forall>w. fst (ie_arrived env w) = []"
  shows "\<exists>w'. yang_ice_stun_request env server port w = Some (ERROR_RTC_STUN, server, w') \<and> sent w' = sent w + 21"
proof -
  obtain udp pwd key w1 where r: "c_str pwd = Some key" "us_notRemoteInit udp \<longleftrightarrow> sv_serverPort server = 0" "sent w1 = sent w"
    "yang_ice_stun_request env server port w = do {
       (err, w) \<leftarrow> stun_send_request env udp pwd w1;
       if err \<noteq> Yang_Ok then Some (err, server, w)
       else do {
         (err, request, w) \<leftarrow> stun_wait env udp pwd 500 0 \<lparr>rq_ip = 0, rq_port = 0, rq_response = False\<rparr> w;
         if err \<noteq> Yang_Ok then Some (err, server, w)
         else if rq_response request then Some (Yang_Ok, server\<lparr>sv_stunIp := rq_ip request, sv_stunPort := rq_port request\<rparr>, w)
         else Some (ERROR_RTC_STUN, server, w)
       }
     }" by (rule request_prefix [OF assms(1)])
  have n: "\<not> us_notRemoteInit udp" using r(2) assms(2) by simp
  obtain w2 where w2: "stun_send_request env udp pwd w1 = Some (Yang_Ok, w2)" "sent w2 = sent w1 + 1"
    using send_request(2) [OF assms(1) r(1) n assms(3)] by blast
  obtain w3 where "stun_wait env udp pwd 500 0 \<lparr>rq_ip = 0, rq_port = 0, rq_response = False\<rparr> w2
      = Some (Yang_Ok, \<lparr>rq_ip = 0, rq_port = 0, rq_response = False\<rparr>, w3)" "sent w3 = sent w2 + 20"
    using wait_silent [OF assms(1) r(1) n assms(3,4), of "\<lparr>rq_ip = 0, rq_port = 0, rq_response = False\<rparr>" 500 0 w2] by auto
  then show ?thesis using w2 r(3,4) by simp
qed

theorem ice_stun_silent_witness:
  "yang_ice_stun_request (example_ice_env [] True) example_server 9000 0 = Some (ERROR_RTC_STUN, example_server, 21)"
  using ice_stun_silent [OF example_counts, of example_server "[]" True 9000 0] by (simp add: example_server_def example_ice_env_def)

text \<open>
  What a datagram is to the receiver: an answer that can be decoded, or one that is passed over (no STUN message, or one that cannot be
  decoded). What else there may be is a fault of the decoder.
\<close>

definition stun_answer :: "u8 list \<times> int \<Rightarrow> YangStunPacket option" where
  "stun_answer x =
     (if 0 < snd x \<and> (mem_load (fst x) 0 = Some 0 \<or> mem_load (fst x) 0 = Some 1)
      then case yang_decode_rtcstun stun_packet0 (fst x) (snd x) of
          Some (err, p) \<Rightarrow> (if err = Yang_Ok then Some p else None)
        | None \<Rightarrow> None
      else None)"

definition stun_ignored :: "u8 list \<times> int \<Rightarrow> bool" where
  "stun_ignored x =
     (case mem_load (fst x) 0 of
        None \<Rightarrow> False
      | Some bt \<Rightarrow> (if 0 < snd x \<and> (bt = 0 \<or> bt = 1)
          then case yang_decode_rtcstun stun_packet0 (fst x) (snd x) of Some (err, p) \<Rightarrow> err \<noteq> Yang_Ok | None \<Rightarrow> False
          else True))"

definition answered_by :: "YangStunPacket \<Rightarrow> YangIceStunRequest" where
  "answered_by p = \<lparr>rq_ip = be32toh (st_mapped_address p), rq_port = uint (st_mapped_port p), rq_response = True\<rparr>"

lemma receive_ignored: "stun_ignored x \<Longrightarrow> g_yang_ice_stun_receive (fst x) (snd x) (Some r) = Some (Some r)"
  by (auto simp: stun_ignored_def g_yang_ice_stun_receive_def split: option.splits if_splits)

lemma receive_answer: "stun_answer x = Some p \<Longrightarrow> g_yang_ice_stun_receive (fst x) (snd x) (Some r) = Some (Some (answered_by p))"
  by (auto simp: stun_answer_def g_yang_ice_stun_receive_def answered_by_def split: option.splits if_splits)

lemma receive_all_ignored: "\<forall>x \<in> set xs. stun_ignored x \<Longrightarrow> stun_receive_all xs r = Some r"
  by (induction xs arbitrary: r) (simp_all add: receive_ignored)

lemma receive_all_total: "\<forall>x \<in> set xs. stun_ignored x \<or> stun_answer x \<noteq> None \<Longrightarrow> \<exists>r'. stun_receive_all xs r = Some r'"
proof (induction xs arbitrary: r)
  case (Cons x xs)
  then obtain r' where "g_yang_ice_stun_receive (fst x) (snd x) (Some r) = Some (Some r')"
    using receive_ignored receive_answer by (metis list.set_intros(1) not_None_eq)
  then show ?case using Cons by simp
qed simp

lemma receive_all_append: "stun_receive_all (xs @ ys) r = do { r \<leftarrow> stun_receive_all xs r; stun_receive_all ys r }"
  by (induction xs arbitrary: r) (auto simp: bind_eq_Some_conv split: Option.bind_splits)

text \<open>A world with a clock that counts the waits; \<open>arrivals n\<close> are the datagrams that arrive during wait \<open>n\<close>.\<close>

definition clocked :: "'w ice_env \<Rightarrow> ('w \<Rightarrow> nat) \<Rightarrow> (nat \<Rightarrow> (u8 list \<times> int) list) \<Rightarrow> bool" where
  "clocked env clock arrivals \<longleftrightarrow> (\<forall>n. quiet env (\<lambda>w. clock w = n))
     \<and> (\<forall>w d. clock (snd (te_sendto env w d)) = clock w) \<and> (\<forall>w a. clock (snd (te_getIp env w a)) = clock w)
     \<and> (\<forall>w. fst (ie_arrived env w) = arrivals (clock w) \<and> clock (snd (ie_arrived env w)) = clock w + 1)"

lemma send_request_clock:
  assumes "counts env sent" "clocked env clock arrivals" "c_str pwd = Some key" "\<not> us_notRemoteInit udp" "\<forall>w. ie_started env w"
  obtains w' where "stun_send_request env udp pwd w = Some (Yang_Ok, w')" "sent w' = sent w + 1" "clock w' = clock w"
proof -
  have q: "quiet env (\<lambda>v. sent v = sent w \<and> clock v = clock w)" "hmac_works (stun_env.truncate env)"
    using assms(1,2) by (simp_all add: counts_def clocked_def quiet_def)
  obtain d w1 where d: "sent w1 = sent w \<and> clock w1 = clock w"
    "\<not> us_notRemoteInit udp \<and> (\<forall>w. ie_started env w) \<and> (\<forall>w d. 0 < fst (te_sendto env w d))
      \<longrightarrow> stun_send_request env udp pwd w = Some (Yang_Ok, snd (te_sendto env w1 d))"
    by (rule send_request_world [OF q(2,1) _ assms(3), of w udp]) (simp, rule that)
  have "\<forall>w d. 0 < fst (te_sendto env w d)" "sent (snd (te_sendto env w1 d)) = sent w1 + 1" "clock (snd (te_sendto env w1 d)) = clock w1"
    using assms(1,2) by (simp_all add: counts_def clocked_def)
  then show thesis using that d assms(4,5) by simp
qed

lemma wait_answered:
  assumes "counts env sent" "clocked env clock arrivals" "c_str pwd = Some key" "\<not> us_notRemoteInit udp" "\<forall>w. ie_started env w"
    and "j < k" "\<forall>i < j. \<forall>x \<in> set (arrivals (clock w + i)). stun_ignored x"
    and "arrivals (clock w + j) = pre @ x # post" "\<forall>y \<in> set pre. stun_ignored y \<or> stun_answer y \<noteq> None"
    and "stun_answer x = Some p" "\<forall>y \<in> set post. stun_ignored y" "\<not> rq_response request"
  shows "\<exists>w'. stun_wait env udp pwd k t request w = Some (Yang_Ok, answered_by p, w') \<and> sent w' + t div 25 = sent w + (t + j + 1) div 25"
  using assms(6-8)
proof (induction k arbitrary: j t w)
  case (Suc k)
  obtain ds w1 where a: "ie_arrived env w = (ds, w1)" by (cases "ie_arrived env w")
  have w1: "ds = arrivals (clock w)" "clock w1 = clock w + 1" "sent w1 = sent w"
    using assms(1,2) a unfolding clocked_def counts_def by (metis fst_conv, metis snd_conv, metis snd_conv)
  obtain w2 where w2: "stun_send_request env udp pwd w1 = Some (Yang_Ok, w2)" "sent w2 = sent w1 + 1" "clock w2 = clock w1"
    by (rule send_request_clock [OF assms(1-5)])
  let ?w = "if Suc t mod 25 = 0 then w2 else w1"
  have w: "clock ?w = clock w + 1" "sent ?w + t div 25 = sent w + Suc t div 25" using w1 w2 div_next [of t] by auto
  have step: "stun_wait env udp pwd (Suc k) t request w = do { r \<leftarrow> stun_receive_all ds request; stun_wait env udp pwd k (Suc t) r ?w }"
    using a assms(12) w2(1) by (auto split: Option.bind_splits)
  show ?case
  proof (cases j)
    case 0
    have "stun_receive_all ds request = Some (answered_by p)"
      using receive_all_total [OF assms(9), of request] Suc.prems(3) receive_answer [OF assms(10)] receive_all_ignored [OF assms(11)]
      unfolding w1(1) 0 by (auto simp: receive_all_append)
    moreover have "stun_wait env udp pwd k (Suc t) (answered_by p) ?w = Some (Yang_Ok, answered_by p, ?w)"
      by (cases k) (simp_all add: answered_by_def)
    ultimately show ?thesis using step w 0 by simp
  next
    case (Suc i)
    have d: "stun_receive_all ds request = Some request"
      by (rule receive_all_ignored) (use Suc.prems(2) Suc in \<open>auto simp: w1(1)\<close>)
    have "\<exists>w'. stun_wait env udp pwd k (Suc t) request ?w = Some (Yang_Ok, answered_by p, w') \<and> sent w' + Suc t div 25 = sent ?w + (Suc t + i + 1) div 25"
      by (rule Suc.IH) (use Suc.prems Suc w(1) in auto)
    then show ?thesis using step d w(2) Suc by auto
  qed
qed simp

text \<open>
  C11: the answer that ends a STUN request may arrive during any of its 500 waits: when all that arrives during the waits before wait k
  is passed over and p is the last answer of wait k that can be decoded, the request ends with it and gives the server record
  the mapped address of p; one datagram has been sent at first and one after every 25 waits.
\<close>
theorem ice_stun_answered:
  assumes "counts env sent" "clocked env clock arrivals" "sv_serverPort server \<noteq> 0" "\<forall>w. ie_started env w"
    and "k < 500" "\<forall>i < k. \<forall>x \<in> set (arrivals (clock w + i)). stun_ignored x"
    and "arrivals (clock w + k) = pre @ x # post" "\<forall>y \<in> set pre. stun_ignored y \<or> stun_answer y \<noteq> None"
    and "stun_answer x = Some p" "\<forall>y \<in> set post. stun_ignored y"
  shows "\<exists>w'. yang_ice_stun_request env server port w =
      Some (Yang_Ok, server\<lparr>sv_stunIp := be32toh (st_mapped_address p), sv_stunPort := uint (st_mapped_port p)\<rparr>, w')
    \<and> sent w' = sent w + 1 + (k + 1) div 25"
proof -
  let ?r = "\<lparr>rq_ip = 0, rq_port = 0, rq_response = False\<rparr>"
  have q: "quiet env (\<lambda>v. sent v = sent w \<and> clock v = clock w)"
    "\<forall>v a. sent v = sent w \<and> clock v = clock w \<longrightarrow> sent (snd (te_getIp env v a)) = sent w \<and> clock (snd (te_getIp env v a)) = clock w"
    using assms(1,2) by (simp_all add: counts_def clocked_def quiet_def)
  obtain udp pwd key w1 where r: "c_str pwd = Some key" "us_notRemoteInit udp \<longleftrightarrow> sv_serverPort server = 0" "sent w1 = sent w \<and> clock w1 = clock w"
    "yang_ice_stun_request env server port w = do {
       (err, w) \<leftarrow> stun_send_request env udp pwd w1;
       if err \<noteq> Yang_Ok then Some (err, server, w)
       else do {
         (err, request, w) \<leftarrow> stun_wait env udp pwd 500 0 ?r w;
         if err \<noteq> Yang_Ok then Some (err, server, w)
         else if rq_response request then Some (Yang_Ok, server\<lparr>sv_stunIp := rq_ip request, sv_stunPort := rq_port request\<rparr>, w)
         else Some (ERROR_RTC_STUN, server, w)
       }
     }" by (rule request_prefix_world [OF q, of w server port]) simp_all
  have nr: "\<not> us_notRemoteInit udp" using r(2) assms(3) by simp
  obtain w2 where w2: "stun_send_request env udp pwd w1 = Some (Yang_Ok, w2)" "sent w2 = sent w1 + 1" "clock w2 = clock w1"
    by (rule send_request_clock [OF assms(1,2) r(1) nr assms(4)])
  have c: "clock w2 = clock w" using w2(3) r(3) by simp
  have "\<exists>w'. stun_wait env udp pwd 500 0 ?r w2 = Some (Yang_Ok, answered_by p, w') \<and> sent w' + 0 div 25 = sent w2 + (0 + k + 1) div 25"
    by (rule wait_answered [OF assms(1,2) r(1) nr assms(4,5) _ _ assms(8-10)]) (use assms(6,7) c in simp_all)
  then show ?thesis using w2 r(3,4) by (auto simp: answered_by_def)
qed

definition example_answer :: "u8 list" where
  "example_answer = be16 0x0101 @ be16 12 @ be32 kStunMagicCookie @ replicate 12 0 @ attr StunXorMappedAddress (xor_address 0x0100007F 9000)"

text \<open>A world of datagrams sent and waits passed. During wait 30 two datagrams arrive: one that is no STUN message, and an answer.\<close>

definition example_arrivals :: "nat \<Rightarrow> (u8 list \<times> int) list" where
  "example_arrivals n = (if n = 30 then [([22, 1], 2), (example_answer, 32)] else [])"

definition example_clock_env :: "(nat \<times> nat) ice_env" where
  "example_clock_env = \<lparr>se_random = (\<lambda>w. (0, w)), se_hmac = (\<lambda>key m. (Yang_Ok, replicate 20 7)), se_localInfo = (\<lambda>w. ([0], w)),
     se_send = (\<lambda>w d. (Yang_Ok, w)), te_md5 = (\<lambda>d. replicate 16 1), te_time = (\<lambda>w. (5000000, w)), te_inet_addr = (\<lambda>a. 0x0100007F),
     te_getIp = (\<lambda>w a. ([49, 0], w)), te_receive = (\<lambda>w u d n. w), te_sendto = (\<lambda>w d. (1, (fst w + 1, snd w))),
     ie_started = (\<lambda>w. True), ie_arrived = (\<lambda>w. (example_arrivals (snd w), (fst w, snd w + 1))), ie_turn = (\<lambda>ts w. (ts, w))\<rparr>"

lemma example_clock: "counts example_clock_env fst" "clocked example_clock_env snd example_arrivals"
  by (simp_all add: counts_def clocked_def example_clock_env_def hmac_works_def quiet_def stun_env.defs)

theorem ice_stun_answered_witness:
  "\<exists>server' w'. yang_ice_stun_request example_clock_env example_server 9000 (0, 0) = Some (Yang_Ok, server', w')
    \<and> sv_stunPort server' = 9000 \<and> fst w' = 2"
proof -
  have "map_option st_mapped_port (stun_answer (example_answer, 32)) = Some 9000" by code_simp
  then obtain p where p: "stun_answer (example_answer, 32) = Some p" "st_mapped_port p = 9000" by auto
  have s: "sv_serverPort example_server \<noteq> 0" by (simp add: example_server_def)
  have e: "\<forall>w. ie_started example_clock_env w" by (simp add: example_clock_env_def)
  have b: "\<forall>i < 30. \<forall>x \<in> set (example_arrivals (snd (0 :: nat, 0) + i)). stun_ignored x" by (simp add: example_arrivals_def)
  have a: "example_arrivals (snd (0 :: nat, 0) + 30) = [([22, 1], 2)] @ (example_answer, 32) # []" by (simp add: example_arrivals_def)
  have g: "\<forall>y \<in> set [([22, 1], 2)]. stun_ignored y \<or> stun_answer y \<noteq> None" by (simp add: stun_ignored_def mem_load_def)
  obtain w' where "yang_ice_stun_request example_clock_env example_server 9000 (0, 0) =
      Some (Yang_Ok, example_server\<lparr>sv_stunIp := be32toh (st_mapped_address p), sv_stunPort := uint (st_mapped_port p)\<rparr>, w')" "fst w' = 2"
    using ice_stun_answered [OF example_clock s e _ b a g p(1), of 9000] by auto
  then show ?thesis using p(2) by simp
qed

text \<open>
  C14: the request is sent right after the socket's thread has been started, but sending needs the flag that this thread sets: as long
  as it is not set the request fails at once, nothing is sent, and the session falls back to its host candidate.
\<close>
theorem ice_stun_race:
  assumes "counts env sent" "\<forall>w. \<not> ie_started env w" "is_candidateType s = YangIceStun"
  shows "\<exists>w'. yang_ice_initIce env g s w = Some (g, s\<lparr>is_candidateType := YangIceHost\<rparr>, w') \<and> sent w' = sent w"
proof -
  obtain udp pwd key w1 where r: "c_str pwd = Some key" "us_notRemoteInit udp \<longleftrightarrow> sv_serverPort (is_server s) = 0" "sent w1 = sent w"
    "yang_ice_stun_request env (is_server s) (is_localPort s) w = do {
       (err, w) \<leftarrow> stun_send_request env udp pwd w1;
       if err \<noteq> Yang_Ok then Some (err, is_server s, w)
       else do {
         (err, request, w) \<leftarrow> stun_wait env udp pwd 500 0 \<lparr>rq_ip = 0, rq_port = 0, rq_response = False\<rparr> w;
         if err \<noteq> Yang_Ok then Some (err, is_server s, w)
         else if rq_response request then Some (Yang_Ok, (is_server s)\<lparr>sv_stunIp := rq_ip request, sv_stunPort := rq_port request\<rparr>, w)
         else Some (ERROR_RTC_STUN, is_server s, w)
       }
     }" by (rule request_prefix [OF assms(1)])
  have no: "us_notRemoteInit udp \<or> \<not> (\<exists>w. ie_started env w)" using assms(2) by simp
  obtain w2 where "stun_send_request env udp pwd w1 = Some (ERROR_RTC_UDP, w2)" "sent w2 = sent w1"
    using send_request(1) [OF assms(1) r(1) no] by blast
  then have "yang_ice_requestStunServer env s w = Some (ERROR_RTC_UDP, s, w2)" "sent w2 = sent w"
    using r(3,4) assms(3) by (simp_all add: yang_ice_requestStunServer_def)
  then show ?thesis using assms(3) by (simp add: yang_ice_initIce_def)
qed

theorem ice_stun_race_witness:
  "\<exists>w'. yang_ice_initIce (example_ice_env [] False) \<lparr>ig_turn = None, ig_number = 0, ig_count = 0\<rparr> example_ice 0 =
    Some (\<lparr>ig_turn = None, ig_number = 0, ig_count = 0\<rparr>, example_ice\<lparr>is_candidateType := YangIceHost\<rparr>, w') \<and> w' = 0"
  using ice_stun_race [OF example_counts, of "[]" False example_ice "\<lparr>ig_turn = None, ig_number = 0, ig_count = 0\<rparr>" 0] by (simp add: example_ice_env_def example_ice_def)

section \<open>The shared TURN connection\<close>

text \<open>A connection whose allocation is done and whose socket runs.\<close>

definition working :: "'w turn_env \<Rightarrow> YangTurnSession \<Rightarrow> bool" where
  "working env ts \<longleftrightarrow> ts_state ts \<in> {YangTurnBindChannel, YangTurnReady} \<and> ts_isStart ts \<and> can_sign env ts
     \<and> us_isStart (ts_udp ts) \<and> \<not> us_notRemoteInit (ts_udp ts)"

lemma stop_total:
  assumes "can_sign env ts" "us_isStart (ts_udp ts)" "\<not> us_notRemoteInit (ts_udp ts)"
  shows "\<exists>ts' w'. yang_turnconn_stop env ts w = Some (ts', w') \<and> ts_state ts' = YangTurnClose \<and> \<not> ts_isStart ts'"
proof -
  let ?t = "ts\<lparr>ts_isLoop := False, ts_waitTime := 1, ts_lifetime := 0\<rparr>"
  have "can_sign env ?t" "us_isStart (ts_udp ?t)" "\<not> us_notRemoteInit (ts_udp ?t)" using assms by (simp_all add: can_sign_def)
  from signed_requests(2) [OF this, of True w] obtain err t1 w1 where "yang_turn_encode_refresh env ?t True w = Some (err, t1, w1)"
    by (auto simp: sends_request_def sends_message_def Let_def case_prod_unfold)
  then show ?thesis by (simp add: yang_turnconn_stop_def)
qed

lemma wait_working:
  assumes "\<forall>t w. working e t \<longrightarrow> working e (fst (ie_turn env t w))" "working e ts"
  shows "\<exists>ts' w'. turn_wait env yang_turnconn_isAllocated k ts w = (False, ts', w') \<and> working e ts'"
  using assms(2)
proof (induction k arbitrary: ts w)
  case (Suc k)
  obtain t1 w1 where t: "ie_turn env ts w = (t1, w1)" by (cases "ie_turn env ts w")
  then have "working e t1" using assms(1) Suc.prems by (metis fst_conv)
  moreover have "\<not> yang_turnconn_isAllocated ts" using Suc.prems by (auto simp: working_def yang_turnconn_isAllocated_def)
  ultimately show ?case using Suc.IH [of t1 w1] t by simp
qed simp

text \<open>
  C12: a second session that starts while the shared connection already has its channels waits for a state that has passed, gives up,
  and stops the connection under the first session.
\<close>
theorem ice_second_session_stops_turn:
  assumes "ig_turn g = Some (i, ts)" "working (ice_turn_env env) ts"
    and "\<forall>t w. working (ice_turn_env env) t \<longrightarrow> working (ice_turn_env env) (fst (ie_turn env t w))"
    and "is_turnconn s = None" "\<not> is_isTurnAllocated s"
  shows "\<exists>g' s' w' ts'. yang_ice_initTurn env g s w = Some (ERROR_RTC_TURN, g', s', w')
    \<and> turn_at g' (Some i) = Some ts' \<and> ts_state ts' = YangTurnClose \<and> \<not> ts_isStart ts'"
proof -
  let ?g = "g\<lparr>ig_count := ig_count g + 1\<rparr>"
  have started: "yang_turnconn_start ts = (Yang_Ok, ts)" using assms(2) by (simp add: yang_turnconn_start_def working_def)
  obtain t1 w1 where t: "turn_wait env yang_turnconn_isAllocated 100 ts w = (False, t1, w1)" "working (ice_turn_env env) t1"
    using wait_working [OF assms(3,2)] by blast
  obtain t2 w2 where t2: "yang_turnconn_stop (ice_turn_env env) t1 w1 = Some (t2, w2)" "ts_state t2 = YangTurnClose" "\<not> ts_isStart t2"
    using stop_total [of "ice_turn_env env" t1 w1] t(2) by (auto simp: working_def)
  show ?thesis
    using assms(1,4,5) started t(1) t2
    by (simp add: yang_ice_initTurn_def yang_ice_getTurn_def turn_at_def set_turn_def Let_def)
qed

definition example_working :: YangTurnSession where
  "example_working = example_ready\<lparr>ts_isStart := True\<rparr>"

lemma example_working: "working (ice_turn_env (example_ice_env arrived started)) example_working"
  by (simp add: working_def can_sign_def example_working_def example_ready_def example_turn_def example_server_def example_udp_def
      example_ice_env_def hmac_works_def stun_env.defs turn_env.defs)

definition example_global :: ice_global where
  "example_global = \<lparr>ig_turn = Some (0, example_working), ig_number = 1, ig_count = 1\<rparr>"

theorem ice_second_session_stops_turn_witness:
  "\<exists>g' s' w' ts'. yang_ice_initTurn (example_ice_env [] True) example_global example_ice 0 = Some (ERROR_RTC_TURN, g', s', w')
    \<and> turn_at g' (Some 0) = Some ts' \<and> ts_state ts' = YangTurnClose"
proof -
  have g: "ig_turn example_global = Some (0, example_working)" by (simp add: example_global_def)
  have t: "\<forall>t w. working (ice_turn_env (example_ice_env [] True)) t \<longrightarrow>
      working (ice_turn_env (example_ice_env [] True)) (fst (ie_turn (example_ice_env [] True) t w))" by (simp add: example_ice_env_def)
  have s: "is_turnconn example_ice = None" "\<not> is_isTurnAllocated example_ice" by (simp_all add: example_ice_def)
  show ?thesis using ice_second_session_stops_turn [OF g example_working t s, of 0] by blast
qed

lemma new_turn:
  assumes "ig_turn g = None"
  shows "\<exists>j g' w'. yang_ice_getTurn env g server w = Some (j, g', w') \<and> (\<exists>x. ig_turn g' = Some (ig_number g, x))"
proof -
  obtain r w1 where r: "se_random env w = (r, w1)" by (cases "se_random env w")
  obtain ts w2 where "yang_create_turnConnection (ice_turn_env env) (turn_session0 server) server (yang_create_rtcudp udp0 (10000 + uint r mod 15000)) w1 = Some (ts, w2)"
    using create_total [of "ice_turn_env env" "turn_session0 server" server "yang_create_rtcudp udp0 (10000 + uint r mod 15000)" w1] by auto
  then show ?thesis using assms r by (simp add: yang_ice_getTurn_def Let_def)
qed

text \<open>
  C13: when one session closes the shared connection, the others keep a pointer to freed memory: both using it and giving up the
  session are faults, also after a new connection has been made.
\<close>
theorem ice_close_dangles:
  assumes "ig_turn g = Some (i, ts)" "working (ice_turn_env env) ts" "i < ig_number g" "is_turnconn b = Some i"
  shows "\<exists>g' a' w'. yang_ice_closeTurn env g a w = Some (g', a', w')
    \<and> yang_destroy_ice env g' b w' = None
    \<and> (is_candidateType b = YangIceTurn \<and> is_isTurnAllocated b \<longrightarrow> yang_ice_handle env g' b isServer user ip port w' = None)
    \<and> (\<exists>j g'' w''. yang_ice_getTurn env g' server w' = Some (j, g'', w'') \<and> yang_destroy_ice env g'' b w'' = None)"
proof -
  obtain t1 w1 where t: "yang_turnconn_stop (ice_turn_env env) ts w = Some (t1, w1)"
    using stop_total [of "ice_turn_env env" ts w] assms(2) by (auto simp: working_def)
  let ?g = "g\<lparr>ig_turn := None, ig_count := 0\<rparr>"
  have c: "yang_ice_closeTurn env g a w = Some (?g, a\<lparr>is_turnconn := None\<rparr>, w1)"
    using assms(1) t by (simp add: yang_ice_closeTurn_def turn_destroy_global_def yang_destroy_turnConnection_def Let_def)
  have no: "turn_at ?g (Some i) = None" by (simp add: turn_at_def)
  have d: "yang_destroy_ice env ?g b w1 = None" using assms(4) no by (simp add: yang_destroy_ice_def)
  have h: "yang_ice_handle env ?g b isServer user ip port w1 = None" if "is_candidateType b = YangIceTurn" "is_isTurnAllocated b"
    using that assms(4) no by (simp add: yang_ice_handle_def yang_ice_requestTurnServer_def)
  obtain j g2 w2 where g2: "yang_ice_getTurn env ?g server w1 = Some (j, g2, w2)" "\<exists>x. ig_turn g2 = Some (ig_number g, x)"
    using new_turn [of ?g env server w1] by auto
  then have "yang_destroy_ice env g2 b w2 = None" using assms(3,4) by (auto simp: yang_destroy_ice_def turn_at_def)
  then show ?thesis using c d h g2 by blast
qed

theorem ice_close_dangles_witness:
  "\<exists>g' a' w'. yang_ice_closeTurn (example_ice_env [] True) example_global example_ice 0 = Some (g', a', w')
    \<and> yang_destroy_ice (example_ice_env [] True) g' (example_ice\<lparr>is_turnconn := Some 0\<rparr>) w' = None"
proof -
  have g: "ig_turn example_global = Some (0, example_working)" "0 < ig_number example_global" by (simp_all add: example_global_def)
  have b: "is_turnconn (example_ice\<lparr>is_turnconn := Some 0\<rparr>) = Some 0" by simp
  show ?thesis using ice_close_dangles [OF g(1) example_working g(2) b] by blast
qed

end
