(* ===== verification/Twcc.thy ===== *)
theory Twcc
  imports Rtcp_Common Seq_Sort Vector Video_Meta "HOL-Library.Signed_Division"
begin

text \<open>
  Transport-wide congestion control: the feedback packets of the receiver (\<open>yangrtp/YangRtcpTWCC.c\<close>) and their use by the sender
  (\<open>yangrtc/YangRtcTwcc.c\<close>). The code is complete, its callers are compiled out (\<open>Yang_Enable_TWCC\<close>).

  Times are exact integers; the remainders and quotients are those of C.
\<close>

abbreviation (input) kTwccFbDeltaUnit :: int where "kTwccFbDeltaUnit \<equiv> 250"
abbreviation (input) kTwccFbTimeMultiplier :: int where "kTwccFbTimeMultiplier \<equiv> 64000"
abbreviation (input) kTwccFbReferenceTimeDivisor :: int where "kTwccFbReferenceTimeDivisor \<equiv> 1073741824000"
abbreviation (input) kTwccFbMaxRunLength :: u16 where "kTwccFbMaxRunLength \<equiv> 0x1FFF"
abbreviation (input) kRtcpPacketSize :: int where "kRtcpPacketSize \<equiv> 1500"

section \<open>State\<close>

text \<open>The array of a chunk has 14 entries.\<close>

record twcc_chunk =
  ck_deltaSizes :: "u8 list"
  ck_size :: u16
  ck_all_same :: bool
  ck_has_large_delta :: bool

record recv_twcc =
  tw_fb_pkt_count :: u8
  tw_newSnsIndex :: u16
  tw_baseSn :: u16
  tw_nextBaseSn :: u16
  tw_ssrc :: u32
  tw_mediaSsrc :: u32
  tw_pktLen :: int
  tw_referenceTime :: int
  tw_header :: rtcp_header
  tw_tss :: "int list"
  tw_sns :: yang_uint16_sort
  tw_encodedChucks :: "u16 yang_vector"
  tw_pktDeltas :: "u16 yang_vector"

definition yang_twcc_clear :: "recv_twcc \<Rightarrow> recv_twcc option" where
  "yang_twcc_clear twcc = do {
     c \<leftarrow> yang_clear_Vector 0 (tw_encodedChucks twcc);
     d \<leftarrow> yang_clear_Vector 0 (tw_pktDeltas twcc);
     Some (twcc\<lparr>tw_encodedChucks := c, tw_pktDeltas := d, tw_nextBaseSn := 0\<rparr>)
   }"

definition yang_twcc_calculate_delta_us :: "int \<Rightarrow> int \<Rightarrow> int" where
  "yang_twcc_calculate_delta_us ts last_ts =
     (let divisor = kTwccFbReferenceTimeDivisor;
          delta_us = (ts - last_ts) smod divisor;
          delta_us = (if divisor div 2 < delta_us then delta_us - divisor else delta_us);
          delta_us = delta_us + (if delta_us < 0 then - 125 else 125)
      in delta_us sdiv kTwccFbDeltaUnit)"

section \<open>Chunks\<close>

definition yang_twcc_can_add_to_chunk :: "twcc_chunk \<Rightarrow> int \<Rightarrow> bool option" where
  "yang_twcc_can_add_to_chunk chunk delta_size =
     (if ck_size chunk < 7 then Some True
      else if ck_size chunk < 14 \<and> \<not> ck_has_large_delta chunk \<and> delta_size \<noteq> 2 then Some True
      else if ck_size chunk < kTwccFbMaxRunLength \<and> ck_all_same chunk then do {
        first \<leftarrow> mem_load (ck_deltaSizes chunk) 0;
        Some (uint first = delta_size)
      }
      else Some False)"

definition yang_twcc_add_to_chunk :: "twcc_chunk \<Rightarrow> int \<Rightarrow> twcc_chunk option" where
  "yang_twcc_add_to_chunk chunk delta_size = do {
     sizes \<leftarrow> (if ck_size chunk < 14 then mem_store (ck_deltaSizes chunk) (uint (ck_size chunk)) (word_of_int delta_size)
               else Some (ck_deltaSizes chunk));
     first \<leftarrow> mem_load sizes 0;
     Some (chunk\<lparr>ck_deltaSizes := sizes, ck_size := ck_size chunk + 1,
                 ck_all_same := ck_all_same chunk \<and> delta_size = uint first,
                 ck_has_large_delta := ck_has_large_delta chunk \<or> 2 \<le> delta_size\<rparr>)
   }"

text \<open>Appending a finished chunk\<close>

definition twcc_append_chunk :: "recv_twcc \<Rightarrow> u16 \<Rightarrow> recv_twcc option" where
  "twcc_append_chunk twcc encoded_chunk = do {
     v \<leftarrow> yang_insert_Vector 0 (tw_encodedChucks twcc) (Some encoded_chunk);
     Some (twcc\<lparr>tw_encodedChucks := v, tw_pktLen := tw_pktLen twcc + 2\<rparr>)
   }"

definition yang_twcc_encode_chunk_run_length :: "recv_twcc \<Rightarrow> twcc_chunk \<Rightarrow> (errcode \<times> recv_twcc) option" where
  "yang_twcc_encode_chunk_run_length twcc chunk =
     (if \<not> ck_all_same chunk \<or> kTwccFbMaxRunLength < ck_size chunk then Some (ERROR_RTC_RTCP, twcc)
      else do {
        first \<leftarrow> mem_load (ck_deltaSizes chunk) 0;
        twcc \<leftarrow> twcc_append_chunk twcc (push_bit 13 (ucast first) OR ck_size chunk);
        Some (Yang_Ok, twcc)
      })"

primrec one_bit_loop :: "nat \<Rightarrow> nat \<Rightarrow> u8 list \<Rightarrow> u16 \<Rightarrow> u16 option" where
  "one_bit_loop 0 i sizes encoded_chunk = Some encoded_chunk"
| "one_bit_loop (Suc k) i sizes encoded_chunk = do {
     d \<leftarrow> mem_load sizes (int i);
     one_bit_loop k (i + 1) sizes (encoded_chunk OR push_bit (13 - i) (ucast d))
   }"

definition yang_twcc_encode_chunk_one_bit :: "recv_twcc \<Rightarrow> twcc_chunk \<Rightarrow> (errcode \<times> recv_twcc) option" where
  "yang_twcc_encode_chunk_one_bit twcc chunk =
     (if ck_has_large_delta chunk then Some (ERROR_RTC_RTCP, twcc)
      else do {
        encoded_chunk \<leftarrow> one_bit_loop (unat (ck_size chunk)) 0 (ck_deltaSizes chunk) 0x8000;
        twcc \<leftarrow> twcc_append_chunk twcc encoded_chunk;
        Some (Yang_Ok, twcc)
      })"

primrec two_bit_loop :: "nat \<Rightarrow> nat \<Rightarrow> u8 list \<Rightarrow> u16 \<Rightarrow> u16 option" where
  "two_bit_loop 0 i sizes encoded_chunk = Some encoded_chunk"
| "two_bit_loop (Suc k) i sizes encoded_chunk = do {
     d \<leftarrow> mem_load sizes (int i);
     two_bit_loop k (i + 1) sizes (encoded_chunk OR push_bit (2 * (6 - i)) (ucast d))
   }"

text \<open>What is left of a chunk is moved down.\<close>

primrec shift_loop :: "nat \<Rightarrow> nat \<Rightarrow> nat \<Rightarrow> twcc_chunk \<Rightarrow> twcc_chunk option" where
  "shift_loop 0 i size' chunk = Some chunk"
| "shift_loop (Suc k) i size' chunk = do {
     delta_size \<leftarrow> mem_load (ck_deltaSizes chunk) (int (i + size'));
     sizes \<leftarrow> mem_store (ck_deltaSizes chunk) (int i) delta_size;
     first \<leftarrow> mem_load sizes 0;
     shift_loop k (i + 1) size' (chunk\<lparr>ck_deltaSizes := sizes, ck_all_same := ck_all_same chunk \<and> delta_size = first,
       ck_has_large_delta := ck_has_large_delta chunk \<or> delta_size = 2\<rparr>)
   }"

definition yang_twcc_encode_chunk_two_bit ::
    "recv_twcc \<Rightarrow> twcc_chunk \<Rightarrow> nat \<Rightarrow> bool \<Rightarrow> (errcode \<times> recv_twcc \<times> twcc_chunk) option" where
  "yang_twcc_encode_chunk_two_bit twcc chunk size' shift = do {
     encoded_chunk \<leftarrow> two_bit_loop size' 0 (ck_deltaSizes chunk) 0xC000;
     twcc \<leftarrow> twcc_append_chunk twcc encoded_chunk;
     if shift then do {
       let chunk = chunk\<lparr>ck_size := ck_size chunk - word_of_nat size', ck_all_same := True, ck_has_large_delta := False\<rparr>;
       chunk \<leftarrow> shift_loop (unat (ck_size chunk)) 0 size' chunk;
       Some (Yang_Ok, twcc, chunk)
     }
     else Some (Yang_Ok, twcc, chunk)
   }"

definition yang_twcc_reset_chunk :: "twcc_chunk \<Rightarrow> twcc_chunk" where
  "yang_twcc_reset_chunk chunk = chunk\<lparr>ck_size := 0, ck_all_same := True, ck_has_large_delta := False\<rparr>"

definition yang_twcc_encode_chunk :: "recv_twcc \<Rightarrow> twcc_chunk \<Rightarrow> (errcode \<times> recv_twcc \<times> twcc_chunk) option" where
  "yang_twcc_encode_chunk twcc chunk = do {
     c0 \<leftarrow> yang_twcc_can_add_to_chunk chunk 0;
     c1 \<leftarrow> yang_twcc_can_add_to_chunk chunk 1;
     c2 \<leftarrow> yang_twcc_can_add_to_chunk chunk 2;
     if c0 \<and> c1 \<and> c2 then Some (ERROR_RTC_RTCP, twcc, chunk)
     else if ck_all_same chunk then do {
       (err, twcc) \<leftarrow> yang_twcc_encode_chunk_run_length twcc chunk;
       Some (err, twcc, if err \<noteq> Yang_Ok then chunk else yang_twcc_reset_chunk chunk)
     }
     else if ck_size chunk = 14 then do {
       (err, twcc) \<leftarrow> yang_twcc_encode_chunk_one_bit twcc chunk;
       Some (err, twcc, if err \<noteq> Yang_Ok then chunk else yang_twcc_reset_chunk chunk)
     }
     else yang_twcc_encode_chunk_two_bit twcc chunk 7 True
   }"

definition yang_twcc_encode_remaining_chunk :: "recv_twcc \<Rightarrow> twcc_chunk \<Rightarrow> (errcode \<times> recv_twcc) option" where
  "yang_twcc_encode_remaining_chunk twcc chunk =
     (if ck_all_same chunk then yang_twcc_encode_chunk_run_length twcc chunk
      else if ck_size chunk \<le> 7 then do {
        (err, twcc, chunk) \<leftarrow> yang_twcc_encode_chunk_two_bit twcc chunk (unat (ck_size chunk)) False;
        Some (err, twcc)
      }
      else yang_twcc_encode_chunk_one_bit twcc chunk)"

definition yang_twcc_process_pkt_chunk :: "recv_twcc \<Rightarrow> twcc_chunk \<Rightarrow> int \<Rightarrow> (errcode \<times> recv_twcc \<times> twcc_chunk) option" where
  "yang_twcc_process_pkt_chunk twcc chunk delta_size =
     (let needed_chunk_size = (if ck_size chunk = 0 then 2 else 0);
          might_occupied = tw_pktLen twcc + needed_chunk_size + delta_size
      in if kRtcpPacketSize < might_occupied then Some (ERROR_RTC_RTCP, twcc, chunk)
         else do {
           c \<leftarrow> yang_twcc_can_add_to_chunk chunk delta_size;
           if c then do {
             chunk \<leftarrow> yang_twcc_add_to_chunk chunk delta_size;
             Some (Yang_Ok, twcc, chunk)
           }
           else do {
             (err, twcc, chunk) \<leftarrow> yang_twcc_encode_chunk twcc chunk;
             if err \<noteq> Yang_Ok then Some (err, twcc, chunk)
             else do {
               chunk \<leftarrow> yang_twcc_add_to_chunk chunk delta_size;
               Some (Yang_Ok, twcc, chunk)
             }
           }
         })"

section \<open>The feedback packet\<close>

definition yang_twcc_recv_decode :: "recv_twcc \<Rightarrow> yang_buffer \<Rightarrow> errcode" where
  "yang_twcc_recv_decode twcc b = Yang_Ok"

text \<open>\<open>YANG_GET_RECV_BUFFER_INDEX\<close>\<close>

definition twcc_index :: "u16 \<Rightarrow> int" where
  "twcc_index x = uint (x AND 1023)"

text \<open>The loop over the lost packets between two numbers; errors are not looked at.\<close>

primrec twcc_lost :: "nat \<Rightarrow> recv_twcc \<Rightarrow> twcc_chunk \<Rightarrow> u16 \<Rightarrow> (recv_twcc \<times> twcc_chunk \<times> u16) option" where
  "twcc_lost 0 twcc chunk packet_count = Some (twcc, chunk, packet_count)"
| "twcc_lost (Suc k) twcc chunk packet_count = do {
     (_, twcc, chunk) \<leftarrow> yang_twcc_process_pkt_chunk twcc chunk 0;
     twcc_lost k twcc chunk (packet_count + 1)
   }"

text \<open>The loop over the received numbers: \<open>last_sn + 1\<close> is computed in 32 bits, so that it does not wrap around.\<close>

primrec twcc_loop ::
    "nat \<Rightarrow> int \<Rightarrow> yang_buffer \<Rightarrow> recv_twcc \<Rightarrow> twcc_chunk \<Rightarrow> int \<Rightarrow> u16 \<Rightarrow> u16
       \<Rightarrow> (errcode \<times> recv_twcc \<times> twcc_chunk \<times> u16) option" where
  "twcc_loop 0 i b twcc chunk last_ts last_sn packet_count = Some (Yang_Ok, twcc, chunk, packet_count)"
| "twcc_loop (Suc k) i b twcc chunk last_ts last_sn packet_count =
     (if yang_buffer_left b \<le> tw_pktLen twcc + 2 then Some (Yang_Ok, twcc, chunk, packet_count)
      else do {
        sns \<leftarrow> us_payload (tw_sns twcc);
        current_sn \<leftarrow> mem_load sns i;
        let twcc = twcc\<lparr>tw_newSnsIndex := word_of_int i\<rparr>;
        current_ts \<leftarrow> mem_load (tw_tss twcc) (twcc_index current_sn);
        let packet_count = packet_count + 1;
        let delta_us = yang_twcc_calculate_delta_us current_ts last_ts;
        let delta = sint (word_of_int delta_us :: u16);
        if delta \<noteq> delta_us then Some (ERROR_RTC_RTCP, twcc, chunk, packet_count)
        else do {
          (twcc, chunk, packet_count) \<leftarrow>
            (if uint last_sn + 1 < uint current_sn then twcc_lost (nat (uint current_sn - uint last_sn - 1)) twcc chunk packet_count
             else Some (twcc, chunk, packet_count));
          let recv_delta_size = (if 0 \<le> delta \<and> delta \<le> 0xFF then 1 else 2);
          (err, twcc, chunk) \<leftarrow> yang_twcc_process_pkt_chunk twcc chunk recv_delta_size;
          if err \<noteq> Yang_Ok then Some (err, twcc, chunk, packet_count)
          else do {
            v \<leftarrow> yang_insert_Vector 0 (tw_pktDeltas twcc) (Some (word_of_int delta));
            let twcc = twcc\<lparr>tw_pktDeltas := v, tw_pktLen := tw_pktLen twcc + recv_delta_size\<rparr>;
            twcc_loop k (i + 1) b twcc chunk (last_ts + delta * kTwccFbDeltaUnit) current_sn packet_count
          }
        }
      })"

primrec write_chunks :: "u16 list \<Rightarrow> yang_buffer \<Rightarrow> yang_buffer option" where
  "write_chunks [] b = Some b"
| "write_chunks (c # cs) b = do {
     b \<leftarrow> yang_write_2bytes b c;
     write_chunks cs b
   }"

primrec write_deltas :: "u16 list \<Rightarrow> yang_buffer \<Rightarrow> yang_buffer option" where
  "write_deltas [] b = Some b"
| "write_deltas (d # ds) b = do {
     b \<leftarrow> (if d \<le> 0xFF then yang_write_1bytes b (ucast d) else yang_write_2bytes b d);
     write_deltas ds b
   }"

primrec write_zeros :: "nat \<Rightarrow> yang_buffer \<Rightarrow> yang_buffer option" where
  "write_zeros 0 b = Some b"
| "write_zeros (Suc k) b = do {
     b \<leftarrow> yang_write_1bytes b 0;
     write_zeros k b
   }"

text \<open>
  The local chunk is not initialised: \<open>chunk0\<close> is what its memory happens to hold. \<open>nextBaseSn\<close> is always zero at the end, so that
  the vectors are cleared twice.
\<close>

definition yang_twcc_recv_encode :: "twcc_chunk \<Rightarrow> recv_twcc \<Rightarrow> yang_buffer \<Rightarrow> (errcode \<times> recv_twcc \<times> yang_buffer) option" where
  "yang_twcc_recv_encode chunk0 twcc b =
     (if \<not> yang_buffer_require b 1472 then Some (ERROR_RTC_RTCP, twcc, b)
      else do {
        let twcc = twcc\<lparr>tw_pktLen := 20\<rparr>;
        sns \<leftarrow> us_payload (tw_sns twcc);
        base \<leftarrow> (if tw_nextBaseSn twcc = 0 then mem_load sns 0 else Some (tw_nextBaseSn twcc));
        let twcc = twcc\<lparr>tw_baseSn := base\<rparr>;
        ts \<leftarrow> mem_load (tw_tss twcc) (twcc_index base);
        let referenceTime = (ts smod kTwccFbReferenceTimeDivisor) sdiv kTwccFbTimeMultiplier;
        let twcc = twcc\<lparr>tw_referenceTime := referenceTime\<rparr>;
        (err, twcc, chunk, packet_count) \<leftarrow>
          twcc_loop (nat (sint (us_vsize (tw_sns twcc)))) 0 b twcc chunk0 (referenceTime * kTwccFbTimeMultiplier) base 0;
        if err \<noteq> Yang_Ok then Some (err, twcc, b)
        else do {
          let twcc = twcc\<lparr>tw_nextBaseSn := 0\<rparr>;
          (err, twcc) \<leftarrow> (if 0 < ck_size chunk then yang_twcc_encode_remaining_chunk twcc chunk else Some (Yang_Ok, twcc));
          if err \<noteq> Yang_Ok then Some (err, twcc, b)
          else do {
            let n = tw_pktLen twcc;
            let words = (if n mod 4 = 0 then n div 4 else (n + 4 - n mod 4) div 4);
            let twcc = twcc\<lparr>tw_header := (tw_header twcc)\<lparr>rh_length := word_of_int words - 1\<rparr>\<rparr>;
            (err, h, b) \<leftarrow> yang_encode_header_rtcpHeader (tw_header twcc) (tw_ssrc twcc) b;
            let twcc = twcc\<lparr>tw_header := h\<rparr>;
            if err \<noteq> Yang_Ok then Some (err, twcc, b)
            else do {
              b \<leftarrow> yang_write_4bytes b (tw_mediaSsrc twcc);
              b \<leftarrow> yang_write_2bytes b (tw_baseSn twcc);
              b \<leftarrow> yang_write_2bytes b packet_count;
              b \<leftarrow> yang_write_3bytes b (word_of_int (tw_referenceTime twcc));
              b \<leftarrow> yang_write_1bytes b (tw_fb_pkt_count twcc);
              b \<leftarrow> write_chunks (vec_list (tw_encodedChucks twcc)) b;
              b \<leftarrow> write_deltas (vec_list (tw_pktDeltas twcc)) b;
              let pad = (if n mod 4 = 0 then 0 else 4 - n mod 4);
              b \<leftarrow> write_zeros (nat pad) b;
              twcc \<leftarrow> yang_twcc_clear (twcc\<lparr>tw_pktLen := n + pad\<rparr>);
              Some (Yang_Ok, twcc, b)
            }
          }
        }
      })"

definition yang_twcc_rtcp_decode :: "rtcp_common \<Rightarrow> yang_buffer \<Rightarrow> (errcode \<times> rtcp_common \<times> yang_buffer) option" where
  "yang_twcc_rtcp_decode comm b = do {
     let comm = comm\<lparr>rc_data := Some (buf_head b), rc_nb_data := yang_buffer_left b\<rparr>;
     (err, comm, b) \<leftarrow> yang_decode_header_rtcpCommon comm b;
     if err \<noteq> Yang_Ok then Some (err, comm, b)
     else do {
       let n = (uint (rh_length (rc_header comm)) + 1) * 4 - 4 - 4;
       (bs, b) \<leftarrow> yang_read_bytes b n;
       p \<leftarrow> mem_write (rc_payload comm) 0 bs;
       Some (Yang_Ok, comm\<lparr>rc_payloadLen := n, rc_payload := p\<rparr>, b)
     }
   }"

definition twcc_header :: rtcp_header where
  "twcc_header = \<lparr>rh_rc = 15, rh_padding = 0, rh_version = kRtcpVersion, rh_type = YangRtcpType_rtpfb, rh_length = 0\<rparr>"

definition yang_create_recvtwcc :: "recv_twcc \<Rightarrow> recv_twcc" where
  "yang_create_recvtwcc twcc =
     twcc\<lparr>tw_header := twcc_header\<lparr>rh_length := rh_length (tw_header twcc)\<rparr>, tw_sns := yang_create_uint16Sort2 (tw_sns twcc) 1024,
          tw_encodedChucks := yang_create_Vector 0, tw_pktDeltas := yang_create_Vector 0\<rparr>"

definition yang_destroy_recvtwcc :: "recv_twcc \<Rightarrow> recv_twcc" where
  "yang_destroy_recvtwcc twcc =
     twcc\<lparr>tw_sns := yang_destroy_uint16Sort (tw_sns twcc), tw_encodedChucks := yang_destroy_Vector (tw_encodedChucks twcc),
          tw_pktDeltas := yang_destroy_Vector (tw_pktDeltas twcc)\<rparr>"

text \<open>The receiver that \<open>calloc\<close> gives, and the pointer \<open>comm->twcc\<close> to it.\<close>

definition recv_twcc0 :: recv_twcc where
  "recv_twcc0 = \<lparr>tw_fb_pkt_count = 0, tw_newSnsIndex = 0, tw_baseSn = 0, tw_nextBaseSn = 0, tw_ssrc = 0, tw_mediaSsrc = 0, tw_pktLen = 0,
     tw_referenceTime = 0, tw_header = \<lparr>rh_rc = 0, rh_padding = 0, rh_version = 0, rh_type = 0, rh_length = 0\<rparr>, tw_tss = replicate 1024 0,
     tw_sns = \<lparr>us_vsize = 0, us_capacity = 0, us_payload = None\<rparr>, tw_encodedChucks = \<lparr>capacity = 0, vsize = 0, payload = []\<rparr>,
     tw_pktDeltas = \<lparr>capacity = 0, vsize = 0, payload = []\<rparr>\<rparr>"

definition yang_create_rtcptwcc :: "rtcp_common \<Rightarrow> rtcp_common \<times> recv_twcc option" where
  "yang_create_rtcptwcc comm =
     (comm\<lparr>rc_header := twcc_header\<lparr>rh_length := rh_length (rc_header comm)\<rparr>\<rparr>, Some (yang_create_recvtwcc recv_twcc0))"

definition yang_destroy_rtcptwcc :: "recv_twcc option \<Rightarrow> recv_twcc option" where
  "yang_destroy_rtcptwcc twcc = (case twcc of None \<Rightarrow> None | Some t \<Rightarrow> (let t = yang_destroy_recvtwcc t in None))"

section \<open>The sender's side\<close>

record YangTwccPacket =
  tk_sn :: u16
  tk_isUse :: u32
  tk_localTs :: u64
  tk_remoteTs :: u64

record YangTwccSession =
  tz_lastReportedSn :: u16
  tz_sn :: u16
  tz_packetCount :: u64
  tz_packets :: "YangTwccPacket list"

definition yang_insert_twcc_local :: "int \<Rightarrow> YangTwccSession \<Rightarrow> u16 \<Rightarrow> YangTwccSession option" where
  "yang_insert_twcc_local now twcc sn = do {
     p \<leftarrow> mem_load (tz_packets twcc) (twcc_index sn);
     ps \<leftarrow> mem_store (tz_packets twcc) (twcc_index sn) (p\<lparr>tk_isUse := 1, tk_sn := sn, tk_localTs := word_of_int now\<rparr>);
     Some (twcc\<lparr>tz_packets := ps, tz_sn := sn, tz_packetCount := tz_packetCount twcc + 1\<rparr>)
   }"

definition yang_insert_twcc_remote :: "YangTwccSession \<Rightarrow> u16 \<Rightarrow> int \<Rightarrow> YangTwccSession option" where
  "yang_insert_twcc_remote twcc sn ts = do {
     p \<leftarrow> mem_load (tz_packets twcc) (twcc_index sn);
     ps \<leftarrow> mem_store (tz_packets twcc) (twcc_index sn) (p\<lparr>tk_remoteTs := word_of_int ts\<rparr>);
     Some (twcc\<lparr>tz_packets := ps, tz_lastReportedSn := sn\<rparr>)
   }"

definition YANG_TWCC_IS_2BIT :: "u16 \<Rightarrow> bool" where
  "YANG_TWCC_IS_2BIT packetChunk \<longleftrightarrow> bit packetChunk 14"

definition YANG_IS_TWCC_RUNLEN :: "u16 \<Rightarrow> bool" where
  "YANG_IS_TWCC_RUNLEN packetChunk \<longleftrightarrow> \<not> bit packetChunk 15"

definition YANG_TWCC_STATUSVECTOR_STATUS :: "u16 \<Rightarrow> nat \<Rightarrow> u8" where
  "YANG_TWCC_STATUSVECTOR_STATUS packetChunk i =
     (if YANG_TWCC_IS_2BIT packetChunk then ucast (drop_bit (14 - i * 2) packetChunk AND 2)
      else ucast (drop_bit (14 - i) packetChunk AND 1))"

text \<open>How many statuses a chunk of a status vector stands for\<close>

definition twcc_vector_len :: "u16 \<Rightarrow> u16 \<Rightarrow> u16" where
  "twcc_vector_len packetChunk remaining = min (if YANG_TWCC_IS_2BIT packetChunk then 7 else 14) remaining"

text \<open>The first loop skips the chunks; the count of packets may wrap around, then it reads on beyond the payload.\<close>

partial_function (option) twcc_skip :: "yang_buffer \<Rightarrow> u16 \<Rightarrow> yang_buffer option" where
  "twcc_skip b remaining =
     (if remaining = 0 then Some b
      else do {
        (packetChunk, b) \<leftarrow> yang_read_2bytes b;
        twcc_skip b (remaining - (if YANG_IS_TWCC_RUNLEN packetChunk then packetChunk AND 0x1FFF else twcc_vector_len packetChunk remaining))
      })"

text \<open>
  One status. A small delta is read as \<open>char\<close>, which is signed; a large one of \<open>INT16_MIN\<close> counts as none. The reference time is
  an \<open>int32_t\<close>.
\<close>

definition twcc_status :: "u8 \<Rightarrow> YangTwccSession \<Rightarrow> yang_buffer \<Rightarrow> int \<Rightarrow> u16 \<Rightarrow> (YangTwccSession \<times> yang_buffer \<times> int) option" where
  "twcc_status symbol twcc b referenceTime packetSn = do {
     (recvDelta, b) \<leftarrow> (if symbol = 1 then do {
                          (v, b) \<leftarrow> yang_read_1bytes b;
                          Some (sint v, b)
                        }
                        else if symbol = 2 then do {
                          (v, b) \<leftarrow> yang_read_2bytes b;
                          Some (sint v, b)
                        }
                        else Some (- 32768, b));
     twcc \<leftarrow> (if symbol = 0 then yang_insert_twcc_remote twcc packetSn (- 1) else Some twcc);
     if recvDelta \<noteq> - 32768 then do {
       let referenceTime = sint (word_of_int (referenceTime + recvDelta * kTwccFbDeltaUnit) :: u32);
       twcc \<leftarrow> yang_insert_twcc_remote twcc packetSn referenceTime;
       Some (twcc, b, referenceTime)
     }
     else Some (twcc, b, referenceTime)
   }"

primrec twcc_statuses ::
    "nat \<Rightarrow> nat \<Rightarrow> (nat \<Rightarrow> u8) \<Rightarrow> YangTwccSession \<Rightarrow> yang_buffer \<Rightarrow> int \<Rightarrow> u16 \<Rightarrow> u16
       \<Rightarrow> (YangTwccSession \<times> yang_buffer \<times> int \<times> u16 \<times> u16) option" where
  "twcc_statuses 0 i symbol twcc b referenceTime packetSn remaining = Some (twcc, b, referenceTime, packetSn, remaining)"
| "twcc_statuses (Suc k) i symbol twcc b referenceTime packetSn remaining = do {
     (twcc, b, referenceTime) \<leftarrow> twcc_status (symbol i) twcc b referenceTime packetSn;
     twcc_statuses k (i + 1) symbol twcc b referenceTime (packetSn + 1) (remaining - 1)
   }"

partial_function (option) twcc_apply ::
    "u8 list \<Rightarrow> int \<Rightarrow> YangTwccSession \<Rightarrow> yang_buffer \<Rightarrow> int \<Rightarrow> u16 \<Rightarrow> u16 \<Rightarrow> YangTwccSession option" where
  "twcc_apply mem pchunk twcc b referenceTime packetSn remaining =
     (if remaining = 0 then Some twcc
      else do {
        packetChunk \<leftarrow> yang_get_be16 mem pchunk;
        (twcc, b, referenceTime, packetSn, remaining) \<leftarrow>
          (if YANG_IS_TWCC_RUNLEN packetChunk
           then twcc_statuses (unat (packetChunk AND 0x1FFF)) 0 (\<lambda>i. ucast (drop_bit 13 packetChunk AND 3)) twcc b referenceTime packetSn remaining
           else twcc_statuses (unat (twcc_vector_len packetChunk remaining)) 0 (YANG_TWCC_STATUSVECTOR_STATUS packetChunk) twcc b
                  referenceTime packetSn remaining);
        twcc_apply mem (pchunk + 2) twcc b referenceTime packetSn remaining
      })"

definition yang_twcc_decode :: "YangTwccSession \<Rightarrow> rtcp_common \<Rightarrow> (errcode \<times> YangTwccSession) option" where
  "yang_twcc_decode twcc comm = do {
     let b = yang_init_buffer (rc_payload comm) 0 (rc_payloadLen comm);
     (mediaSsrc, b) \<leftarrow> yang_read_4bytes b;
     (baseSn, b) \<leftarrow> yang_read_2bytes b;
     (pkcount, b) \<leftarrow> yang_read_2bytes b;
     (referenceTime, b) \<leftarrow> yang_read_3bytes b;
     (fb_pkt_count, b) \<leftarrow> yang_read_1bytes b;
     let pchunk = buf_head b;
     let referenceTime = sint (word_of_int (sint referenceTime * kTwccFbTimeMultiplier) :: u32);
     b \<leftarrow> twcc_skip b pkcount;
     twcc \<leftarrow> twcc_apply (buf_mem b) pchunk twcc b referenceTime baseSn pkcount;
     Some (Yang_Ok, twcc)
   }"

end
