(* ===== verification/Twcc_Facts.thy ===== *)
theory Twcc_Facts
  imports Twcc
begin

text \<open>
  The chunks of a feedback packet stand for the statuses they were made from, read as the draft defines them; what the code's own
  decoder makes of them; and the times.
\<close>

section \<open>Chunks as the draft reads them\<close>

text \<open>The statuses of a chunk: 0 not received, 1 a small delta, 2 a large one.\<close>

definition chunk_symbols :: "u16 \<Rightarrow> nat list" where
  "chunk_symbols c =
     (if \<not> bit c 15 then replicate (unat (c AND 0x1FFF)) (of_bool (bit c 13) + 2 * of_bool (bit c 14))
      else if \<not> bit c 14 then map (\<lambda>i. of_bool (bit c (13 - i))) [0..<14]
      else map (\<lambda>i. of_bool (bit c (12 - 2 * i)) + 2 * of_bool (bit c (13 - 2 * i))) [0..<7])"

lemma run_length_symbols:
  assumes "x \<le> 2" "n \<le> 0x1FFF"
  shows "chunk_symbols (push_bit 13 (ucast (word_of_nat x :: u8)) OR word_of_nat n) = replicate n x"
proof -
  let ?n = "word_of_nat n :: u16"
  have u: "unat ?n = n" using assms(2) by (simp add: unsigned_of_nat take_bit_nat_eq_self)
  have lo: "bit ?n k \<Longrightarrow> k < 13" for k
  proof (rule ccontr)
    assume b: "bit ?n k" "\<not> k < 13"
    have "bit n k" using b(1) by (simp add: bit_simps)
    moreover have "n < 2 ^ k" using assms(2) b(2) power_increasing [of 13 k "2 :: nat"] by simp
    ultimately show False by (simp add: bit_iff_odd)
  qed
  have m: "(0x1FFF :: u16) = mask 13" by (simp add: mask_eq_exp_minus_1)
  let ?c = "push_bit 13 (ucast (word_of_nat x :: u8)) OR ?n"
  consider "x = 0" | "x = 1" | "x = 2" using assms(1) by linarith
  then have bits: "bit ?c k \<longleftrightarrow> bit ?n k \<or> k = 13 \<and> x = 1 \<or> k = 14 \<and> x = 2" for k
  proof cases
    case 2
    have e: "push_bit 13 (ucast (word_of_nat x :: u8)) = (push_bit 13 1 :: u16)" unfolding 2 by simp
    show ?thesis unfolding bit_or_iff e bit_push_bit_iff bit_1_iff using 2 by auto
  next
    case 3
    have e: "push_bit 13 (ucast (word_of_nat x :: u8)) = (push_bit 14 1 :: u16)" unfolding 3 by simp
    show ?thesis unfolding bit_or_iff e bit_push_bit_iff bit_1_iff using 3 by auto
  qed simp
  have "bit (?c AND 0x1FFF) k \<longleftrightarrow> bit ?n k" for k
    using lo [of k] unfolding m bit_and_iff bits bit_mask_iff by (cases "k < 13") auto
  then have "?c AND 0x1FFF = ?n" by (simp add: bit_eq_iff)
  moreover have "\<not> bit ?n 13" "\<not> bit ?n 14" "\<not> bit ?n 15" using lo by fastforce+
  ultimately show ?thesis using u assms(1) unfolding chunk_symbols_def bits
    by (cases "x = 0"; cases "x = 1") simp_all
qed

lemma one_bit_loop_bits:
  assumes "i + k \<le> 14" "i + k \<le> length sizes" "\<forall>j < i + k. sizes ! j = 0 \<or> sizes ! j = 1"
  shows "\<exists>e'. one_bit_loop k i sizes e = Some e'
    \<and> (\<forall>n. bit e' n \<longleftrightarrow> bit e n \<or> n \<le> 13 \<and> i \<le> 13 - n \<and> 13 - n < i + k \<and> sizes ! (13 - n) = 1)"
  using assms
proof (induction k arbitrary: i e)
  case 0
  then show ?case by auto
next
  case (Suc k)
  let ?e = "e OR push_bit (13 - i) (ucast (sizes ! i))"
  have b: "bit ?e n \<longleftrightarrow> bit e n \<or> n = 13 - i \<and> sizes ! i = 1" for n
  proof -
    have "sizes ! i = 0 \<or> sizes ! i = 1" using Suc.prems by simp
    moreover have "13 - i < 16" by simp
    ultimately show ?thesis by (auto simp: bit_or_iff bit_push_bit_iff bit_1_iff)
  qed
  obtain e' where e': "one_bit_loop k (Suc i) sizes ?e = Some e'"
    "\<forall>n. bit e' n \<longleftrightarrow> bit ?e n \<or> n \<le> 13 \<and> Suc i \<le> 13 - n \<and> 13 - n < Suc i + k \<and> sizes ! (13 - n) = 1"
    using Suc.IH [of "Suc i" ?e] Suc.prems by auto
  have "bit e' n \<longleftrightarrow> bit e n \<or> n \<le> 13 \<and> i \<le> 13 - n \<and> 13 - n < i + Suc k \<and> sizes ! (13 - n) = 1" for n
  proof (cases "n = 13 - i")
    case True
    then have "13 - n = i" "n \<le> 13" using Suc.prems(1) by simp_all
    then show ?thesis unfolding e'(2) [rule_format] b using True by auto
  next
    case False
    then have "i \<le> 13 - n \<and> n \<le> 13 \<longleftrightarrow> Suc i \<le> 13 - n \<and> n \<le> 13" by auto
    then show ?thesis unfolding e'(2) [rule_format] b using False by auto
  qed
  then show ?case using e'(1) Suc.prems(2) by (simp add: mem_load_def)
qed

lemma pair_split:
  fixes n m :: nat
  assumes "\<And>k. P k \<Longrightarrow> k < 2"
  shows "2 * m \<le> n \<and> P (n - 2 * m) \<longleftrightarrow> n div 2 = m \<and> P (n mod 2)"
proof -
  have "2 * m \<le> n \<Longrightarrow> n - 2 * m < 2 \<Longrightarrow> n div 2 = m \<and> n mod 2 = n - 2 * m" by presburger
  moreover have "n div 2 = m \<Longrightarrow> n - 2 * m = n mod 2 \<and> 2 * m \<le> n" by presburger
  ultimately show ?thesis using assms by metis
qed

lemma two_bit_loop_bits:
  assumes "i + k \<le> 7" "i + k \<le> length sizes" "\<forall>j < i + k. sizes ! j = 0 \<or> sizes ! j = 1 \<or> sizes ! j = 2"
  shows "\<exists>e'. two_bit_loop k i sizes e = Some e'
    \<and> (\<forall>n. bit e' n \<longleftrightarrow> bit e n \<or> n \<le> 13 \<and> i \<le> 6 - n div 2 \<and> 6 - n div 2 < i + k \<and> bit (sizes ! (6 - n div 2)) (n mod 2))"
  using assms
proof (induction k arbitrary: i e)
  case 0
  then show ?case by auto
next
  case (Suc k)
  let ?e = "e OR push_bit (2 * (6 - i)) (ucast (sizes ! i))"
  have s: "sizes ! i = 0 \<or> sizes ! i = 1 \<or> sizes ! i = 2" using Suc.prems by simp
  then have low: "bit (sizes ! i) m \<Longrightarrow> m < 2" for m by (auto simp: bit_2_iff bit_1_iff simp del: bit_numeral_word_iff)
  have b: "bit ?e n \<longleftrightarrow> bit e n \<or> n div 2 = 6 - i \<and> bit (sizes ! i) (n mod 2)" for n
  proof -
    have "bit ?e n \<longleftrightarrow> bit e n \<or> 2 * (6 - i) \<le> n \<and> bit (sizes ! i) (n - 2 * (6 - i))"
      using low [of "n - 2 * (6 - i)"] by (auto simp: bit_or_iff bit_push_bit_iff bit_unsigned_iff)
    moreover have "2 * (6 - i) \<le> n \<and> bit (sizes ! i) (n - 2 * (6 - i)) \<longleftrightarrow> n div 2 = 6 - i \<and> bit (sizes ! i) (n mod 2)"
      by (rule pair_split) (rule low)
    ultimately show ?thesis by blast
  qed
  obtain e' where e': "two_bit_loop k (Suc i) sizes ?e = Some e'"
    "\<forall>n. bit e' n \<longleftrightarrow> bit ?e n \<or> n \<le> 13 \<and> Suc i \<le> 6 - n div 2 \<and> 6 - n div 2 < Suc i + k \<and> bit (sizes ! (6 - n div 2)) (n mod 2)"
    using Suc.IH [of "Suc i" ?e] Suc.prems by auto
  have "bit e' n \<longleftrightarrow> bit e n \<or> n \<le> 13 \<and> i \<le> 6 - n div 2 \<and> 6 - n div 2 < i + Suc k \<and> bit (sizes ! (6 - n div 2)) (n mod 2)" for n
  proof (cases "n div 2 = 6 - i")
    case True
    then have "6 - n div 2 = i" "n \<le> 13" using Suc.prems(1) by linarith+
    then show ?thesis unfolding e'(2) [rule_format] b using True by auto
  next
    case False
    then have "i \<le> 6 - n div 2 \<and> n \<le> 13 \<longleftrightarrow> Suc i \<le> 6 - n div 2 \<and> n \<le> 13" by auto
    then show ?thesis unfolding e'(2) [rule_format] b using False by auto
  qed
  then show ?case using e'(1) Suc.prems(2) by (simp add: mem_load_def)
qed

section \<open>What a chunk under construction holds\<close>

definition uniform :: "nat list \<Rightarrow> bool" where
  "uniform xs \<longleftrightarrow> (\<forall>x \<in> set xs. x = hd xs)"

lemma uniform_snoc: "uniform (xs @ [d]) \<longleftrightarrow> uniform xs \<and> d = hd (xs @ [d])"
  by (cases xs) (auto simp: uniform_def)

lemma uniform_replicate: "uniform xs \<Longrightarrow> xs = replicate (length xs) (hd xs)"
  by (auto simp: uniform_def intro!: nth_equalityI)

definition chunk_denotes :: "twcc_chunk \<Rightarrow> nat list \<Rightarrow> bool" where
  "chunk_denotes c xs \<longleftrightarrow> ck_size c = word_of_nat (length xs) \<and> length xs \<le> 8191 \<and> set xs \<subseteq> {0, 1, 2}
     \<and> length (ck_deltaSizes c) = 14 \<and> (\<forall>j < length xs. j < 14 \<longrightarrow> ck_deltaSizes c ! j = word_of_nat (xs ! j))
     \<and> ck_all_same c = uniform xs \<and> ck_has_large_delta c = (2 \<in> set xs)
     \<and> (7 < length xs \<and> 2 \<in> set xs \<or> 14 < length xs \<longrightarrow> uniform xs)"

definition fits :: "nat list \<Rightarrow> nat \<Rightarrow> bool" where
  "fits xs d \<longleftrightarrow> length xs < 7 \<or> length xs < 14 \<and> 2 \<notin> set xs \<and> d \<noteq> 2 \<or> length xs < 8191 \<and> uniform xs \<and> hd xs = d"

lemma symbol_word: "x \<in> {0, 1, 2} \<Longrightarrow> unat (word_of_nat x :: u8) = x" "x \<in> {0, 1, 2} \<Longrightarrow> uint (word_of_nat x :: u8) = int x"
  "x \<in> {0, 1, 2} \<Longrightarrow> y \<in> {0, 1, 2} \<Longrightarrow> (word_of_nat x :: u8) = word_of_nat y \<longleftrightarrow> x = y"
  by auto

lemma chunk_size:
  assumes "chunk_denotes c xs"
  shows "unat (ck_size c) = length xs" "ck_size c < 7 \<longleftrightarrow> length xs < 7" "ck_size c < 14 \<longleftrightarrow> length xs < 14"
    "ck_size c < kTwccFbMaxRunLength \<longleftrightarrow> length xs < 8191" "ck_size c = 14 \<longleftrightarrow> length xs = 14" "ck_size c \<le> 7 \<longleftrightarrow> length xs \<le> 7"
    "kTwccFbMaxRunLength < ck_size c \<longleftrightarrow> 8191 < length xs"
proof -
  show u: "unat (ck_size c) = length xs"
    using assms by (simp add: chunk_denotes_def unsigned_of_nat take_bit_nat_eq_self)
  show "ck_size c < 7 \<longleftrightarrow> length xs < 7" "ck_size c < 14 \<longleftrightarrow> length xs < 14" "ck_size c < kTwccFbMaxRunLength \<longleftrightarrow> length xs < 8191"
    "ck_size c \<le> 7 \<longleftrightarrow> length xs \<le> 7" "kTwccFbMaxRunLength < ck_size c \<longleftrightarrow> 8191 < length xs"
    using u by (simp_all add: word_less_nat_alt word_le_nat_alt)
  show "ck_size c = 14 \<longleftrightarrow> length xs = 14" using u by (simp add: word_unat_eq_iff)
qed

lemma chunk_first:
  assumes "chunk_denotes c xs" "xs \<noteq> []"
  shows "mem_load (ck_deltaSizes c) 0 = Some (word_of_nat (hd xs))" "hd xs \<in> {0, 1, 2}"
proof -
  show "hd xs \<in> {0, 1, 2}" using assms(1) hd_in_set [OF assms(2)] unfolding chunk_denotes_def by blast
  have "ck_deltaSizes c ! 0 = word_of_nat (xs ! 0)" "length (ck_deltaSizes c) = 14" using assms by (simp_all add: chunk_denotes_def)
  then show "mem_load (ck_deltaSizes c) 0 = Some (word_of_nat (hd xs))" using assms(2) by (simp add: mem_load_def hd_conv_nth)
qed

lemma can_add:
  assumes "chunk_denotes c xs" "d \<in> {0, 1, 2}"
  shows "yang_twcc_can_add_to_chunk c (int d) = Some (fits xs d)"
proof (cases "xs = []")
  case True
  then show ?thesis using chunk_size(2) [OF assms(1)] by (simp add: yang_twcc_can_add_to_chunk_def fits_def)
next
  case False
  have e: "uint (word_of_nat (hd xs) :: u8) = int d \<longleftrightarrow> hd xs = d" using chunk_first(2) [OF assms(1) False] symbol_word(2) by auto
  have "ck_all_same c = uniform xs" "ck_has_large_delta c = (2 \<in> set xs)" using assms(1) by (simp_all add: chunk_denotes_def)
  then show ?thesis
    unfolding yang_twcc_can_add_to_chunk_def chunk_size [OF assms(1)] chunk_first(1) [OF assms(1) False]
    by (auto simp: fits_def e)
qed

lemma add_chunk:
  assumes "chunk_denotes c xs" "d \<in> {0, 1, 2}" "fits xs d"
  shows "\<exists>c'. yang_twcc_add_to_chunk c (int d) = Some c' \<and> chunk_denotes c' (xs @ [d])"
proof -
  note c = assms(1) [unfolded chunk_denotes_def]
  note sz = chunk_size [OF assms(1)]
  let ?s = "if length xs < 14 then (ck_deltaSizes c)[length xs := word_of_nat d] else ck_deltaSizes c"
  have st: "(if ck_size c < 14 then mem_store (ck_deltaSizes c) (uint (ck_size c)) (word_of_int (int d)) else Some (ck_deltaSizes c)) = Some ?s"
    using c sz(1) unfolding sz(3) by (auto simp: mem_store_def uint_nat)
  have j: "?s ! j = word_of_nat ((xs @ [d]) ! j)" if "j < length (xs @ [d])" "j < 14" for j
    using that c by (auto simp: nth_append nth_list_update)
  have f: "mem_load ?s 0 = Some (word_of_nat (hd (xs @ [d])))"
    using j [of 0] c by (auto simp: mem_load_def hd_conv_nth)
  have h: "hd (xs @ [d]) \<in> {0, 1, 2}" using c assms(2) by (cases xs) auto
  have n: "length (xs @ [d]) \<le> 8191" using assms(3) by (auto simp: fits_def)
  have w: "ck_size c + 1 = word_of_nat (length (xs @ [d]))" using c by simp
  let ?c = "c\<lparr>ck_deltaSizes := ?s, ck_size := ck_size c + 1, ck_all_same := ck_all_same c \<and> int d = uint (word_of_nat (hd (xs @ [d])) :: u8),
    ck_has_large_delta := ck_has_large_delta c \<or> 2 \<le> int d\<rparr>"
  have a: "yang_twcc_add_to_chunk c (int d) = Some ?c"
    unfolding yang_twcc_add_to_chunk_def st by (simp only: f bind.bind_lunit)
  have u: "(uniform xs \<and> int d = uint (word_of_nat (hd (xs @ [d])) :: u8)) = uniform (xs @ [d])"
    unfolding uniform_snoc symbol_word(2) [OF h] by auto
  have l: "(2 \<in> set xs \<or> 2 \<le> int d) = (2 \<in> set (xs @ [d]))" using assms(2) by auto
  have last: "uniform (xs @ [d])" if "7 < length (xs @ [d]) \<and> 2 \<in> set (xs @ [d]) \<or> 14 < length (xs @ [d])"
    using that assms(3) c unfolding fits_def uniform_snoc by (cases xs) auto
  have "chunk_denotes ?c (xs @ [d])"
    unfolding chunk_denotes_def using c n w j u l last assms(2) by auto
  then show ?thesis using a by blast
qed

section \<open>Finished chunks\<close>

text \<open>The statuses of the chunks written so far, and what a step may change.\<close>

definition written_symbols :: "recv_twcc \<Rightarrow> nat list" where
  "written_symbols t = concat (map chunk_symbols (vec_list (tw_encodedChucks t)))"

definition grown :: "recv_twcc \<Rightarrow> recv_twcc \<Rightarrow> nat \<Rightarrow> bool" where
  "grown t t' n \<longleftrightarrow> (\<exists>v. vec_ok v \<and> t' = t\<lparr>tw_encodedChucks := v, tw_pktLen := tw_pktLen t + 2 * int n\<rparr>)"

lemma grown_refl: "vec_ok (tw_encodedChucks t) \<Longrightarrow> grown t t 0"
  by (auto simp: grown_def intro!: exI [of _ "tw_encodedChucks t"])

lemma grown_trans: "grown a b m \<Longrightarrow> grown b c n \<Longrightarrow> grown a c (m + n)"
  by (auto simp: grown_def)

lemma grown_sel: "grown t t' n \<Longrightarrow> vec_ok (tw_encodedChucks t') \<and> tw_pktLen t' = tw_pktLen t + 2 * int n"
  by (auto simp: grown_def)

lemma append_chunk:
  assumes "vec_ok (tw_encodedChucks t)"
  shows "\<exists>t'. twcc_append_chunk t e = Some t' \<and> grown t t' 1 \<and> written_symbols t' = written_symbols t @ chunk_symbols e"
proof -
  from vec.insert_elems [OF assms, of 0 e] obtain v
    where "yang_insert_Vector 0 (tw_encodedChucks t) (Some e) = Some v" "vec_ok v" "vec_list v = vec_list (tw_encodedChucks t) @ [e]" by blast
  then show ?thesis by (auto simp: twcc_append_chunk_def grown_def written_symbols_def)
qed

lemma encode_run:
  assumes "chunk_denotes c xs" "xs \<noteq> []" "uniform xs" "vec_ok (tw_encodedChucks t)"
  shows "\<exists>t'. yang_twcc_encode_chunk_run_length t c = Some (Yang_Ok, t') \<and> grown t t' 1 \<and> written_symbols t' = written_symbols t @ xs"
proof -
  have c: "ck_all_same c" "\<not> 8191 < length xs" "ck_size c = word_of_nat (length xs)" using assms(1,3) by (auto simp: chunk_denotes_def)
  have "chunk_symbols (push_bit 13 (ucast (word_of_nat (hd xs) :: u8)) OR word_of_nat (length xs)) = replicate (length xs) (hd xs)"
    by (rule run_length_symbols) (use chunk_first(2) [OF assms(1,2)] c in auto)
  also have "\<dots> = xs" using uniform_replicate [OF assms(3)] by simp
  finally show ?thesis
    using append_chunk [OF assms(4), of "push_bit 13 (ucast (word_of_nat (hd xs) :: u8)) OR word_of_nat (length xs)"] c
    unfolding yang_twcc_encode_chunk_run_length_def chunk_size [OF assms(1)] by (auto simp: chunk_first(1) [OF assms(1,2)])
qed

lemma chunk_nth:
  assumes "chunk_denotes c xs" "j < length xs" "j < 14"
  shows "ck_deltaSizes c ! j = word_of_nat (xs ! j)" "xs ! j = 0 \<or> xs ! j = 1 \<or> xs ! j = 2"
proof -
  have "xs ! j \<in> set xs" using assms(2) by simp
  then show "xs ! j = 0 \<or> xs ! j = 1 \<or> xs ! j = 2" using assms(1) unfolding chunk_denotes_def by blast
  show "ck_deltaSizes c ! j = word_of_nat (xs ! j)" using assms by (simp add: chunk_denotes_def)
qed

lemma marks: "bit (0x8000 :: u16) n \<longleftrightarrow> n = 15" "bit (0xC000 :: u16) n \<longleftrightarrow> n = 15 \<or> n = 14"
proof -
  have "(0x8000 :: u16) = push_bit 15 1" "(0xC000 :: u16) = push_bit 15 1 OR push_bit 14 1" by simp_all
  then show "bit (0x8000 :: u16) n \<longleftrightarrow> n = 15" "bit (0xC000 :: u16) n \<longleftrightarrow> n = 15 \<or> n = 14"
    by (auto simp only: bit_or_iff bit_push_bit_iff bit_1_iff possible_bit_word) auto
qed

lemma encode_one_bit:
  assumes "chunk_denotes c xs" "length xs \<le> 14" "2 \<notin> set xs" "vec_ok (tw_encodedChucks t)"
  shows "\<exists>t'. yang_twcc_encode_chunk_one_bit t c = Some (Yang_Ok, t') \<and> grown t t' 1
    \<and> written_symbols t' = written_symbols t @ xs @ replicate (14 - length xs) 0"
proof -
  note nth = chunk_nth [OF assms(1)]
  have x: "xs ! j = 0 \<or> xs ! j = 1" if "j < length xs" for j
  proof -
    have "xs ! j \<noteq> 2" using assms(3) nth_mem [OF that] by metis
    then show ?thesis using nth(2) [OF that] that assms(2) by linarith
  qed
  have l: "length (ck_deltaSizes c) = 14" using assms(1) by (simp add: chunk_denotes_def)
  have z: "\<forall>j < 0 + length xs. ck_deltaSizes c ! j = 0 \<or> ck_deltaSizes c ! j = 1"
  proof (intro allI impI)
    fix j assume "j < 0 + length xs"
    then show "ck_deltaSizes c ! j = 0 \<or> ck_deltaSizes c ! j = 1" using nth(1) [of j] x [of j] assms(2) by auto
  qed
  obtain e where e: "one_bit_loop (length xs) 0 (ck_deltaSizes c) 0x8000 = Some e"
    "\<forall>n. bit e n \<longleftrightarrow> bit (0x8000 :: u16) n \<or> n \<le> 13 \<and> 0 \<le> 13 - n \<and> 13 - n < 0 + length xs \<and> ck_deltaSizes c ! (13 - n) = 1"
    using one_bit_loop_bits [where e = "0x8000", OF _ _ z] assms(2) l by auto
  have b: "bit e 15" "\<not> bit e 14" unfolding e(2) [rule_format] marks by simp_all
  have s: "of_bool (bit e (13 - i)) = (xs @ replicate (14 - length xs) 0) ! i" if "i < 14" for i
  proof -
    have i: "13 - (13 - i) = i" "13 - i \<noteq> 15" "13 - i \<le> 13" using that by simp_all
    have "bit e (13 - i) \<longleftrightarrow> i < length xs \<and> ck_deltaSizes c ! i = 1" unfolding e(2) [rule_format] marks i(1)
      by (simp only: i(2,3) add_0 zero_le simp_thms)
    then show ?thesis using x [of i] nth(1) [of i] that by (auto simp: nth_append)
  qed
  have "chunk_symbols e = xs @ replicate (14 - length xs) 0"
    unfolding chunk_symbols_def using b s assms(2) by (auto intro!: nth_equalityI)
  moreover have "\<not> ck_has_large_delta c" using assms(1,3) by (simp add: chunk_denotes_def)
  ultimately show ?thesis
    using append_chunk [OF assms(4), of e] e(1) unfolding yang_twcc_encode_chunk_one_bit_def chunk_size [OF assms(1)] by auto
qed

lemma two_bits: "x = 0 \<or> x = 1 \<or> x = 2 \<Longrightarrow> of_bool (bit (word_of_nat x :: u8) 0) + 2 * of_bool (bit (word_of_nat x :: u8) 1) = x"
  by (auto simp: bit_2_iff bit_1_iff simp del: bit_numeral_word_iff)

lemma two_bit_chunk:
  assumes "chunk_denotes c xs" "n \<le> length xs" "n \<le> 7"
  shows "\<exists>e. two_bit_loop n 0 (ck_deltaSizes c) 0xC000 = Some e \<and> chunk_symbols e = take n xs @ replicate (7 - n) 0"
proof -
  note nth = chunk_nth [OF assms(1)]
  have l: "length (ck_deltaSizes c) = 14" using assms(1) by (simp add: chunk_denotes_def)
  have z: "\<forall>j < 0 + n. ck_deltaSizes c ! j = 0 \<or> ck_deltaSizes c ! j = 1 \<or> ck_deltaSizes c ! j = 2"
  proof (intro allI impI)
    fix j assume "j < 0 + n"
    then show "ck_deltaSizes c ! j = 0 \<or> ck_deltaSizes c ! j = 1 \<or> ck_deltaSizes c ! j = 2" using nth [of j] assms(2,3) by auto
  qed
  obtain e where e: "two_bit_loop n 0 (ck_deltaSizes c) 0xC000 = Some e"
    "\<forall>k. bit e k \<longleftrightarrow> bit (0xC000 :: u16) k \<or> k \<le> 13 \<and> 0 \<le> 6 - k div 2 \<and> 6 - k div 2 < 0 + n \<and> bit (ck_deltaSizes c ! (6 - k div 2)) (k mod 2)"
    using two_bit_loop_bits [where e = "0xC000", OF _ _ z] assms(3) l by auto
  have b: "bit e 15" "bit e 14" unfolding e(2) [rule_format] marks by simp_all
  have s: "of_bool (bit e (12 - 2 * i)) + 2 * of_bool (bit e (13 - 2 * i)) = (take n xs @ replicate (7 - n) 0) ! i" if "i < 7" for i
  proof -
    have i: "6 - (12 - 2 * i) div 2 = i" "6 - (13 - 2 * i) div 2 = i" "(12 - 2 * i) mod 2 = 0" "(13 - 2 * i) mod 2 = 1"
      "12 - 2 * i \<le> 13" "13 - 2 * i \<le> 13" "12 - 2 * i \<noteq> 15" "12 - 2 * i \<noteq> 14" "13 - 2 * i \<noteq> 15" "13 - 2 * i \<noteq> 14"
      using that by presburger+
    have "bit e (12 - 2 * i) \<longleftrightarrow> i < n \<and> bit (ck_deltaSizes c ! i) 0" "bit e (13 - 2 * i) \<longleftrightarrow> i < n \<and> bit (ck_deltaSizes c ! i) 1"
      unfolding e(2) [rule_format] marks i using i by simp_all
    then show ?thesis
      using two_bits [of "xs ! i"] nth [of i] that assms(2) by (cases "i < n") (auto simp: nth_append)
  qed
  have "chunk_symbols e = take n xs @ replicate (7 - n) 0"
    unfolding chunk_symbols_def using b s assms(2,3) by (auto intro!: nth_equalityI)
  then show ?thesis using e(1) by blast
qed

section \<open>Streaming\<close>

lemma symbol_inj: "x \<in> {0, 1, 2} \<Longrightarrow> (word_of_nat x :: u8) = 2 \<longleftrightarrow> x = 2" by auto

lemma shift_chunk:
  assumes "length (ck_deltaSizes c) = 14" "length zs = i + k" "i + k \<le> 7" "set zs \<subseteq> {0, 1, 2}"
    and "\<forall>j < i. ck_deltaSizes c ! j = word_of_nat (zs ! j)"
    and "\<forall>j. i \<le> j \<and> j < i + k \<longrightarrow> ck_deltaSizes c ! (j + 7) = word_of_nat (zs ! j)"
    and "ck_all_same c = uniform (take i zs)" "ck_has_large_delta c = (2 \<in> set (take i zs))"
  shows "\<exists>c'. shift_loop k i 7 c = Some c' \<and> length (ck_deltaSizes c') = 14 \<and> ck_size c' = ck_size c
    \<and> (\<forall>j < i + k. ck_deltaSizes c' ! j = word_of_nat (zs ! j)) \<and> ck_all_same c' = uniform zs \<and> ck_has_large_delta c' = (2 \<in> set zs)"
  using assms
proof (induction k arbitrary: i c)
  case 0
  then show ?case by auto
next
  case (Suc k)
  have i: "i < length zs" using Suc.prems(2) by simp
  then have zi: "zs ! i \<in> {0, 1, 2}" using Suc.prems(4) nth_mem by blast
  have z0: "zs ! 0 \<in> {0, 1, 2}" using Suc.prems(2,4) nth_mem [of 0 zs] by (metis add_Suc_right subset_iff zero_less_Suc)
  let ?s = "(ck_deltaSizes c)[i := word_of_nat (zs ! i)]"
  have ld: "mem_load (ck_deltaSizes c) (int (i + 7)) = Some (word_of_nat (zs ! i))"
    using Suc.prems(1,3,6) by (simp add: mem_load_def del: of_nat_add)
  have st: "mem_store (ck_deltaSizes c) (int i) (word_of_nat (zs ! i)) = Some ?s" using Suc.prems(1,3) by (simp add: mem_store_def)
  have first: "mem_load ?s 0 = Some (word_of_nat (zs ! 0))"
    using Suc.prems(1,3,5) by (cases "i = 0") (simp_all add: mem_load_def)
  let ?c = "c\<lparr>ck_deltaSizes := ?s, ck_all_same := ck_all_same c \<and> (word_of_nat (zs ! i) :: u8) = word_of_nat (zs ! 0),
       ck_has_large_delta := ck_has_large_delta c \<or> (word_of_nat (zs ! i) :: u8) = 2\<rparr>"
  have tk: "take (Suc i) zs = take i zs @ [zs ! i]" using i by (simp add: take_Suc_conv_app_nth)
  have h0: "hd (take i zs @ [zs ! i]) = zs ! 0" using i by (cases zs; cases i) auto
  have step: "shift_loop (Suc k) i 7 c = shift_loop k (Suc i) 7 ?c"
    unfolding shift_loop.simps ld by (simp only: bind.bind_lunit st first Suc_eq_plus1)
  have "\<exists>c'. shift_loop k (Suc i) 7 ?c = Some c' \<and> length (ck_deltaSizes c') = 14 \<and> ck_size c' = ck_size ?c
    \<and> (\<forall>j < Suc i + k. ck_deltaSizes c' ! j = word_of_nat (zs ! j)) \<and> ck_all_same c' = uniform zs \<and> ck_has_large_delta c' = (2 \<in> set zs)"
  proof (rule Suc.IH)
    show "\<forall>j < Suc i. ck_deltaSizes ?c ! j = word_of_nat (zs ! j)"
      using Suc.prems(1,3,5) by (auto simp: nth_list_update less_Suc_eq)
    show "\<forall>j. Suc i \<le> j \<and> j < Suc i + k \<longrightarrow> ck_deltaSizes ?c ! (j + 7) = word_of_nat (zs ! j)"
      using Suc.prems(6) by auto
    show "ck_all_same ?c = uniform (take (Suc i) zs)"
      unfolding tk uniform_snoc h0 using Suc.prems(7) symbol_word(3) [OF zi z0] by simp
    show "ck_has_large_delta ?c = (2 \<in> set (take (Suc i) zs))"
      unfolding tk using Suc.prems(8) symbol_inj [OF zi] by auto
  qed (use Suc.prems in simp_all)
  then show ?case unfolding step by simp
qed

lemma denotes_reset:
  assumes "length (ck_deltaSizes c) = 14"
  shows "chunk_denotes (yang_twcc_reset_chunk c) []"
  using assms by (simp add: chunk_denotes_def yang_twcc_reset_chunk_def uniform_def)

lemma encode_chunk:
  assumes "chunk_denotes c xs" "d \<in> {0, 1, 2}" "\<not> fits xs d" "vec_ok (tw_encodedChucks t)"
  shows "\<exists>t' c' ys zs. yang_twcc_encode_chunk t c = Some (Yang_Ok, t', c') \<and> grown t t' 1
    \<and> written_symbols t' = written_symbols t @ ys \<and> xs = ys @ zs \<and> 7 \<le> length ys \<and> length zs < 7 \<and> chunk_denotes c' zs"
proof -
  have l7: "7 \<le> length xs" "xs \<noteq> []" using assms(3) by (auto simp: fits_def)
  have len: "length (ck_deltaSizes c) = 14" and same: "ck_all_same c = uniform xs" and sub: "set xs \<subseteq> {0, 1, 2}"
    and last: "7 < length xs \<and> 2 \<in> set xs \<or> 14 < length xs \<Longrightarrow> uniform xs"
    using assms(1) by (auto simp: chunk_denotes_def)
  have not_all: "\<not> (fits xs 0 \<and> fits xs 1 \<and> fits xs 2)" using assms(2,3) by auto
  have can: "yang_twcc_can_add_to_chunk c 0 = Some (fits xs 0)" "yang_twcc_can_add_to_chunk c 1 = Some (fits xs 1)"
    "yang_twcc_can_add_to_chunk c 2 = Some (fits xs 2)"
    using can_add [OF assms(1), of 0] can_add [OF assms(1), of 1] can_add [OF assms(1), of 2] by simp_all
  consider "uniform xs" | "\<not> uniform xs" "length xs = 14" | "\<not> uniform xs" "length xs \<noteq> 14" by blast
  then show ?thesis
  proof cases
    case 1
    obtain t' where "yang_twcc_encode_chunk_run_length t c = Some (Yang_Ok, t')" "grown t t' 1" "written_symbols t' = written_symbols t @ xs"
      using encode_run [OF assms(1) l7(2) 1 assms(4)] by blast
    then show ?thesis
      using can not_all 1 same l7 denotes_reset [OF len]
      by (intro exI [of _ t'] exI [of _ "yang_twcc_reset_chunk c"] exI [of _ xs] exI [of _ "[]"]) (auto simp: yang_twcc_encode_chunk_def)
  next
    case 2
    have "2 \<notin> set xs" using last 2 by auto
    then obtain t' where "yang_twcc_encode_chunk_one_bit t c = Some (Yang_Ok, t')" "grown t t' 1" "written_symbols t' = written_symbols t @ xs"
      using encode_one_bit [OF assms(1) _ _ assms(4)] 2 by auto
    then show ?thesis
      using can not_all 2 same l7 denotes_reset [OF len] chunk_size(5) [OF assms(1)]
      by (intro exI [of _ t'] exI [of _ "yang_twcc_reset_chunk c"] exI [of _ xs] exI [of _ "[]"]) (auto simp: yang_twcc_encode_chunk_def)
  next
    case 3
    have l13: "length xs < 14" using last 3 by (cases "14 < length xs") auto
    let ?zs = "drop 7 xs"
    obtain e where e: "two_bit_loop 7 0 (ck_deltaSizes c) 0xC000 = Some e" "chunk_symbols e = take 7 xs"
      using two_bit_chunk [OF assms(1) l7(1)] by auto
    obtain t' where t': "twcc_append_chunk t e = Some t'" "grown t t' 1" "written_symbols t' = written_symbols t @ chunk_symbols e"
      using append_chunk [OF assms(4)] by blast
    let ?c = "c\<lparr>ck_size := ck_size c - word_of_nat 7, ck_all_same := True, ck_has_large_delta := False\<rparr>"
    have sz: "ck_size c - word_of_nat 7 = word_of_nat (length ?zs)" using assms(1) l7(1) by (simp add: chunk_denotes_def of_nat_diff)
    then have u: "unat (ck_size c - word_of_nat 7) = length ?zs" using l13 by (simp add: unsigned_of_nat take_bit_nat_eq_self)
    have zsub: "set ?zs \<subseteq> {0, 1, 2}" by (rule order_trans [OF set_drop_subset sub])
    have nth: "\<forall>j. 0 \<le> j \<and> j < 0 + length ?zs \<longrightarrow> ck_deltaSizes ?c ! (j + 7) = word_of_nat (?zs ! j)"
      using chunk_nth(1) [OF assms(1)] l13 by (simp add: add.commute)
    have l: "length (ck_deltaSizes ?c) = 14" "length ?zs = 0 + length ?zs" "0 + length ?zs \<le> 7" using len l13 by simp_all
    have "\<exists>c'. shift_loop (length ?zs) 0 7 ?c = Some c' \<and> length (ck_deltaSizes c') = 14 \<and> ck_size c' = ck_size ?c
      \<and> (\<forall>j < 0 + length ?zs. ck_deltaSizes c' ! j = word_of_nat (?zs ! j)) \<and> ck_all_same c' = uniform ?zs \<and> ck_has_large_delta c' = (2 \<in> set ?zs)"
      by (rule shift_chunk [OF l zsub _ nth]) (simp_all add: uniform_def)
    then obtain c' where c': "shift_loop (length ?zs) 0 7 ?c = Some c'" "length (ck_deltaSizes c') = 14" "ck_size c' = ck_size ?c"
      "\<forall>j < 0 + length ?zs. ck_deltaSizes c' ! j = word_of_nat (?zs ! j)" "ck_all_same c' = uniform ?zs" "ck_has_large_delta c' = (2 \<in> set ?zs)"
      by blast
    have "ck_size c' = word_of_nat (length ?zs)" using c'(3) sz by simp
    moreover have "length ?zs \<le> 8191" "\<not> 7 < length ?zs" "\<not> 14 < length ?zs" using l13 by simp_all
    ultimately have den: "chunk_denotes c' ?zs" unfolding chunk_denotes_def using c'(2,4-6) zsub by simp
    have "yang_twcc_encode_chunk t c = Some (Yang_Ok, t', c')"
      unfolding yang_twcc_encode_chunk_def yang_twcc_encode_chunk_two_bit_def using can not_all 3 same e(1) t'(1) u c'(1)
      by (auto simp: chunk_size(5) [OF assms(1)])
    then show ?thesis using t'(2,3) e(2) l7(1) l13 den
      by (intro exI [of _ t'] exI [of _ c'] exI [of _ "take 7 xs"] exI [of _ ?zs]) auto
  qed
qed

text \<open>Adding statuses one after the other, and closing the last chunk.\<close>

primrec twcc_feed :: "recv_twcc \<Rightarrow> twcc_chunk \<Rightarrow> nat list \<Rightarrow> (errcode \<times> recv_twcc \<times> twcc_chunk) option" where
  "twcc_feed t c [] = Some (Yang_Ok, t, c)"
| "twcc_feed t c (d # ds) = do {
     (err, t, c) \<leftarrow> yang_twcc_process_pkt_chunk t c (int d);
     if err \<noteq> Yang_Ok then Some (err, t, c) else twcc_feed t c ds
   }"

text \<open>The chunks written stand for what was added first; each stands for at least seven statuses.\<close>

definition stream_state :: "recv_twcc \<Rightarrow> recv_twcc \<Rightarrow> twcc_chunk \<Rightarrow> nat list \<Rightarrow> bool" where
  "stream_state t0 t c ds \<longleftrightarrow> (\<exists>ys zs n. ds = ys @ zs \<and> written_symbols t = written_symbols t0 @ ys \<and> chunk_denotes c zs
     \<and> grown t0 t n \<and> 7 * n \<le> length ys)"

lemma process_chunk:
  assumes "stream_state t0 t c ds" "d \<in> {0, 1, 2}" "tw_pktLen t0 + 2 * int (length ds div 7) + 4 \<le> kRtcpPacketSize"
  shows "\<exists>t' c'. yang_twcc_process_pkt_chunk t c (int d) = Some (Yang_Ok, t', c') \<and> stream_state t0 t' c' (ds @ [d])
    \<and> (\<exists>zs. zs \<noteq> [] \<and> chunk_denotes c' zs)"
proof -
  obtain ys zs n where s: "ds = ys @ zs" "written_symbols t = written_symbols t0 @ ys" "chunk_denotes c zs" "grown t0 t n" "7 * n \<le> length ys"
    using assms(1) by (auto simp: stream_state_def)
  note g = grown_sel [OF s(4)]
  have "n \<le> length ds div 7" using s(1,5) by simp
  then have room: "tw_pktLen t + (if ck_size c = 0 then 2 else 0) + int d \<le> kRtcpPacketSize" using g assms(2,3) by auto
  have p: "yang_twcc_process_pkt_chunk t c (int d) = do {
      c0 \<leftarrow> yang_twcc_can_add_to_chunk c (int d);
      if c0 then do { chunk \<leftarrow> yang_twcc_add_to_chunk c (int d); Some (Yang_Ok, t, chunk) }
      else do {
        (err, twcc, chunk) \<leftarrow> yang_twcc_encode_chunk t c;
        if err \<noteq> Yang_Ok then Some (err, twcc, chunk)
        else do { chunk \<leftarrow> yang_twcc_add_to_chunk chunk (int d); Some (Yang_Ok, twcc, chunk) }
      }
    }" using room by (simp add: yang_twcc_process_pkt_chunk_def Let_def)
  show ?thesis
  proof (cases "fits zs d")
    case True
    obtain c' where c': "yang_twcc_add_to_chunk c (int d) = Some c'" "chunk_denotes c' (zs @ [d])" using add_chunk [OF s(3) assms(2) True] by blast
    have "stream_state t0 t c' (ds @ [d])"
      unfolding stream_state_def by (intro exI [of _ ys] exI [of _ "zs @ [d]"] exI [of _ n]) (use s c' in simp)
    then show ?thesis using p can_add [OF s(3) assms(2)] True c' by auto
  next
    case False
    obtain t' c' vs us where e: "yang_twcc_encode_chunk t c = Some (Yang_Ok, t', c')" "grown t t' 1" "written_symbols t' = written_symbols t @ vs"
        "zs = vs @ us" "7 \<le> length vs" "length us < 7" "chunk_denotes c' us"
      using encode_chunk [OF s(3) assms(2) False] g by blast
    have "fits us d" using e(6) by (simp add: fits_def)
    then obtain c2 where c2: "yang_twcc_add_to_chunk c' (int d) = Some c2" "chunk_denotes c2 (us @ [d])" using add_chunk [OF e(7) assms(2)] by blast
    have "stream_state t0 t' c2 (ds @ [d])"
      unfolding stream_state_def
      by (intro exI [of _ "ys @ vs"] exI [of _ "us @ [d]"] exI [of _ "n + 1"]) (use s e c2 grown_trans [OF s(4) e(2)] in simp)
    then show ?thesis using p can_add [OF s(3) assms(2)] False e(1) c2 by auto
  qed
qed

lemma feed_chunks:
  assumes "stream_state t0 t c xs" "set ds \<subseteq> {0, 1, 2}" "tw_pktLen t0 + 2 * int ((length xs + length ds) div 7) + 4 \<le> kRtcpPacketSize"
  shows "\<exists>t' c'. twcc_feed t c ds = Some (Yang_Ok, t', c') \<and> stream_state t0 t' c' (xs @ ds)
    \<and> (ds \<noteq> [] \<longrightarrow> (\<exists>zs. zs \<noteq> [] \<and> chunk_denotes c' zs))"
  using assms
proof (induction ds arbitrary: t c xs)
  case (Cons d ds)
  have "length xs div 7 \<le> (length xs + length (d # ds)) div 7" by (simp add: div_le_mono)
  then have "tw_pktLen t0 + 2 * int (length xs div 7) + 4 \<le> kRtcpPacketSize" using Cons.prems(3) by linarith
  moreover have "d \<in> {0, 1, 2}" using Cons.prems(2) by simp
  ultimately obtain t1 c1 where 1: "yang_twcc_process_pkt_chunk t c (int d) = Some (Yang_Ok, t1, c1)" "stream_state t0 t1 c1 (xs @ [d])"
      "\<exists>zs. zs \<noteq> [] \<and> chunk_denotes c1 zs"
    using process_chunk [OF Cons.prems(1)] by blast
  obtain t2 c2 where 2: "twcc_feed t1 c1 ds = Some (Yang_Ok, t2, c2)" "stream_state t0 t2 c2 ((xs @ [d]) @ ds)"
      "ds \<noteq> [] \<longrightarrow> (\<exists>zs. zs \<noteq> [] \<and> chunk_denotes c2 zs)"
    using Cons.IH [OF 1(2)] Cons.prems(2,3) by auto
  moreover have "c2 = c1" if "ds = []" using 2(1) that by simp
  ultimately show ?case using 1 by (cases "ds = []") auto
qed auto

lemma denotes_unique: "chunk_denotes c xs \<Longrightarrow> chunk_denotes c ys \<Longrightarrow> length xs = length ys"
  using chunk_size(1) by metis

lemma remaining_chunk:
  assumes "chunk_denotes c zs" "zs \<noteq> []" "vec_ok (tw_encodedChucks t)"
  shows "\<exists>t' k. yang_twcc_encode_remaining_chunk t c = Some (Yang_Ok, t') \<and> grown t t' 1
    \<and> written_symbols t' = written_symbols t @ zs @ replicate k 0 \<and> k < 14"
proof -
  have same: "ck_all_same c = uniform zs" and last: "7 < length zs \<and> 2 \<in> set zs \<or> 14 < length zs \<Longrightarrow> uniform zs"
    using assms(1) by (auto simp: chunk_denotes_def)
  consider "uniform zs" | "\<not> uniform zs" "length zs \<le> 7" | "\<not> uniform zs" "7 < length zs" by linarith
  then show ?thesis
  proof cases
    case 1
    then show ?thesis using encode_run [OF assms(1,2) 1 assms(3)] same
      by (auto simp: yang_twcc_encode_remaining_chunk_def intro!: exI [of _ 0])
  next
    case 2
    obtain e where e: "two_bit_loop (length zs) 0 (ck_deltaSizes c) 0xC000 = Some e" "chunk_symbols e = zs @ replicate (7 - length zs) 0"
      using two_bit_chunk [OF assms(1) order.refl 2(2)] by auto
    obtain t' where t': "twcc_append_chunk t e = Some t'" "grown t t' 1" "written_symbols t' = written_symbols t @ chunk_symbols e"
      using append_chunk [OF assms(3)] by blast
    then show ?thesis using 2 same e
      by (intro exI [of _ t'] exI [of _ "7 - length zs"])
        (simp add: yang_twcc_encode_remaining_chunk_def yang_twcc_encode_chunk_two_bit_def chunk_size [OF assms(1)])
  next
    case 3
    then have "length zs \<le> 14" "2 \<notin> set zs" using last by (metis not_less)+
    then show ?thesis using encode_one_bit [OF assms(1) _ _ assms(3)] 3 same
      by (auto simp: yang_twcc_encode_remaining_chunk_def chunk_size [OF assms(1)] intro!: exI [of _ "14 - length zs"])
  qed
qed

text \<open>
  C6: whatever sequence of statuses is added, one by one, to a cleared chunk, the chunks written in the end stand for exactly this
  sequence as the draft reads them, with at most 13 further zeros that the count of packets cuts off.
\<close>
theorem twcc_chunks_roundtrip:
  assumes "set ds \<subseteq> {0, 1, 2}" "ds \<noteq> []" "vec_ok (tw_encodedChucks t0)" "vec_list (tw_encodedChucks t0) = []" "length (ck_deltaSizes c) = 14"
    and "tw_pktLen t0 + 2 * int (length ds div 7) + 4 \<le> kRtcpPacketSize"
  shows "\<exists>t c' t' k. twcc_feed t0 (yang_twcc_reset_chunk c) ds = Some (Yang_Ok, t, c') \<and> yang_twcc_encode_remaining_chunk t c' = Some (Yang_Ok, t')
    \<and> concat (map chunk_symbols (vec_list (tw_encodedChucks t'))) = ds @ replicate k 0 \<and> k < 14
    \<and> tw_pktLen t' \<le> tw_pktLen t0 + 2 * int (length ds div 7) + 2"
proof -
  have w0: "written_symbols t0 = []" using assms(4) by (simp add: written_symbols_def)
  have "stream_state t0 t0 (yang_twcc_reset_chunk c) []"
    using denotes_reset [OF assms(5)] grown_refl [OF assms(3)] by (auto simp: stream_state_def w0 intro!: exI [of _ 0])
  then obtain t c' where f: "twcc_feed t0 (yang_twcc_reset_chunk c) ds = Some (Yang_Ok, t, c')" "stream_state t0 t c' ds"
      "\<exists>zs. zs \<noteq> [] \<and> chunk_denotes c' zs"
    using feed_chunks [of t0 t0 "yang_twcc_reset_chunk c" "[]" ds] assms(1,2,6) by auto
  obtain ys zs n where s: "ds = ys @ zs" "written_symbols t = ys" "chunk_denotes c' zs" "grown t0 t n" "7 * n \<le> length ys"
    using f(2) w0 by (auto simp: stream_state_def)
  have z: "zs \<noteq> []" using f(3) denotes_unique [OF s(3)] by fastforce
  obtain t' k where r: "yang_twcc_encode_remaining_chunk t c' = Some (Yang_Ok, t')" "grown t t' 1"
      "written_symbols t' = written_symbols t @ zs @ replicate k 0" "k < 14"
    using remaining_chunk [OF s(3) z] grown_sel [OF s(4)] by blast
  have "n \<le> length ds div 7" using s(1,5) by simp
  then have "tw_pktLen t' \<le> tw_pktLen t0 + 2 * int (length ds div 7) + 2" using grown_sel [OF s(4)] grown_sel [OF r(2)] by simp
  then show ?thesis using f(1) r s(1,2) by (auto simp: written_symbols_def)
qed

section \<open>The code's own decoder\<close>

lemma status_1: "\<not> bit c 14 \<Longrightarrow> unat (YANG_TWCC_STATUSVECTOR_STATUS c i) = of_bool (bit c (14 - i))"
  by (auto simp: YANG_TWCC_STATUSVECTOR_STATUS_def YANG_TWCC_IS_2BIT_def and_one_eq bit_iff_odd_drop_bit mod_2_eq_odd)

lemma status_2:
  assumes "i < 7" "bit c 14"
  shows "unat (YANG_TWCC_STATUSVECTOR_STATUS c i) = 2 * of_bool (bit c (15 - i * 2))"
proof -
  have e: "15 - i * 2 = 14 - i * 2 + 1" using assms(1) by simp
  have two: "bit (2 :: u16) n \<longleftrightarrow> n = 1" for n using bit_exp_iff [of 1 n, where 'a = "16 word"] by auto
  have "(drop_bit (14 - i * 2) c AND 2) = (if bit c (15 - i * 2) then 2 else 0)"
    unfolding e
    by (cases "bit c (14 - i * 2 + 1)"; rule bit_word_eqI)
       (auto simp: bit_and_iff bit_drop_bit_eq two simp del: bit_numeral_word_iff)
  then show ?thesis using assms(2) by (simp add: YANG_TWCC_STATUSVECTOR_STATUS_def YANG_TWCC_IS_2BIT_def)
qed

text \<open>
  C8: the code's decoder looks one position too far to the left into a status vector, and masks two-bit statuses with 2: in a one-bit
  vector every packet gets the status of its predecessor, in a two-bit vector only large deltas are seen, one packet late, and the
  first packet always has one.
\<close>
theorem twcc_status_shifted:
  assumes "bit c 15"
  shows "map (\<lambda>i. unat (YANG_TWCC_STATUSVECTOR_STATUS c i)) [0..<length (chunk_symbols c)] =
    (if bit c 14 then 2 # map (\<lambda>s. if 2 \<le> s then 2 else 0) (butlast (chunk_symbols c)) else 0 # butlast (chunk_symbols c))"
proof (cases "bit c 14")
  case True
  have cs: "chunk_symbols c = map (\<lambda>i. of_bool (bit c (12 - 2 * i)) + 2 * of_bool (bit c (13 - 2 * i))) [0..<7]"
    using assms True by (simp add: chunk_symbols_def)
  have "unat (YANG_TWCC_STATUSVECTOR_STATUS c i) = (2 # map (\<lambda>s. if 2 \<le> s then 2 else 0) (butlast (chunk_symbols c))) ! i" if "i < 7" for i
  proof (cases i)
    case 0
    then show ?thesis using status_2 [of 0, OF _ True] assms by simp
  next
    case (Suc j)
    have "15 - i * 2 = 13 - 2 * j" using Suc that by simp
    then show ?thesis using status_2 [OF that True] Suc that by (simp add: cs nth_butlast)
  qed
  then show ?thesis using True by (auto simp: cs intro!: nth_equalityI)
next
  case False
  have cs: "chunk_symbols c = map (\<lambda>i. of_bool (bit c (13 - i))) [0..<14]" using assms False by (simp add: chunk_symbols_def)
  have "unat (YANG_TWCC_STATUSVECTOR_STATUS c i) = (0 # butlast (chunk_symbols c)) ! i" if "i < 14" for i
  proof (cases i)
    case 0
    then show ?thesis using status_1 [OF False, of 0] False by simp
  next
    case (Suc j)
    have "14 - i = 13 - j" using Suc that by simp
    then show ?thesis using status_1 [OF False, of i] Suc that by (simp add: cs nth_butlast)
  qed
  then show ?thesis using False by (auto simp: cs intro!: nth_equalityI)
qed

theorem twcc_status_shifted_witness:
  "map (\<lambda>i. unat (YANG_TWCC_STATUSVECTOR_STATUS 0xA000 i)) [0..<14] = 0 # butlast (chunk_symbols 0xA000)"
proof -
  have "bit (0xA000 :: u16) 15" "\<not> bit (0xA000 :: u16) 14" "length (chunk_symbols 0xA000) = 14" by code_simp+
  then show ?thesis using twcc_status_shifted [of "0xA000"] by simp
qed

section \<open>Times\<close>




text \<open>Adding a status or writing a chunk leaves the received numbers, the times and the deltas alone.\<close>

definition same_times :: "recv_twcc \<Rightarrow> recv_twcc \<Rightarrow> bool" where
  "same_times t t' \<longleftrightarrow> tw_sns t' = tw_sns t \<and> tw_tss t' = tw_tss t \<and> tw_pktDeltas t' = tw_pktDeltas t"









lemma same_times_trans: "same_times a b \<Longrightarrow> same_times b c \<Longrightarrow> same_times a c"
  by (simp add: same_times_def)




text \<open>A receiver that has the numbers 1 and 2, with their arrival times in the microseconds of the epoch.\<close>

definition example_twcc :: recv_twcc where
  "example_twcc = \<lparr>tw_fb_pkt_count = 0, tw_newSnsIndex = 0, tw_baseSn = 1, tw_nextBaseSn = 0, tw_ssrc = 1, tw_mediaSsrc = 2, tw_pktLen = 20,
     tw_referenceTime = 0, tw_header = \<lparr>rh_rc = 0, rh_padding = 0, rh_version = 2, rh_type = 205, rh_length = 0\<rparr>, tw_tss = [0, 1700000000001000, 1700000000005100],
     tw_sns = \<lparr>us_vsize = 2, us_capacity = 50, us_payload = Some [1, 2]\<rparr>, tw_encodedChucks = yang_create_Vector 0,
     tw_pktDeltas = yang_create_Vector 0\<rparr>"

definition example_chunk :: twcc_chunk where
  "example_chunk = \<lparr>ck_deltaSizes = replicate 14 0, ck_size = 0, ck_all_same = True, ck_has_large_delta = False\<rparr>"



theorem twcc_chunks_roundtrip_witness:
  "\<exists>t c' t' k. twcc_feed example_twcc (yang_twcc_reset_chunk example_chunk) [1, 0, 2] = Some (Yang_Ok, t, c')
    \<and> yang_twcc_encode_remaining_chunk t c' = Some (Yang_Ok, t')
    \<and> concat (map chunk_symbols (vec_list (tw_encodedChucks t'))) = [1, 0, 2] @ replicate k 0 \<and> k < 14"
proof -
  have "vec_ok (tw_encodedChucks example_twcc)" "vec_list (tw_encodedChucks example_twcc) = []" "length (ck_deltaSizes example_chunk) = 14"
    "tw_pktLen example_twcc = 20"
    by (simp_all add: example_twcc_def example_chunk_def create_Vector_ok)
  then show ?thesis using twcc_chunks_roundtrip [of "[1, 0, 2]" example_twcc example_chunk] by auto
qed

end
