(* ===== verification/C_Text.thy ===== *)
theory C_Text
  imports C_String
begin

text \<open>
  Text for the parsers and printers of URLs, configuration files and session descriptions: string literals, the searches of the C
  library, and how decimal numbers and fields separated by a character are read back.
\<close>

section \<open>Literals\<close>

definition ascii :: "string \<Rightarrow> u8 list" where
  "ascii s = map of_char s"

text \<open>The allocation of a literal\<close>

definition lit :: "string \<Rightarrow> u8 list" where
  "lit s = ascii s @ [0]"

lemma of_char_word_iff: "(of_char c :: u8) = of_char d \<longleftrightarrow> c = d"
proof
  assume e: "(of_char c :: u8) = of_char d"
  have u: "unat (of_char x :: u8) = of_char x" for x
  proof -
    have "unat (word_of_nat (of_char x) :: u8) = of_char x" by (simp only: unsigned_of_nat) (simp add: take_bit_eq_mod)
    then show ?thesis by (simp only: of_nat_of_char)
  qed
  have "(of_char c :: nat) = of_char d" by (rule trans [OF sym [OF u [of c, unfolded e]] u [of d]])
  then show "c = d" by (simp only: of_char_eq_iff)
qed simp

lemma ascii_inj [simp]: "ascii s = ascii t \<longleftrightarrow> s = t"
  by (auto simp: ascii_def of_char_word_iff inj_map_eq_map inj_def)

lemma ascii_Nil [simp]: "ascii [] = []"
  by (simp add: ascii_def)

lemma ascii_ne [simp]: "ascii s = [] \<longleftrightarrow> s = []" "[] = ascii s \<longleftrightarrow> s = []"
  by (simp_all add: ascii_def)

lemma ascii_append [simp]: "ascii (s @ t) = ascii s @ ascii t"
  by (simp add: ascii_def)

lemma ascii_single [simp]: "ascii '' '' = [32]" "ascii ''/'' = [47]" "ascii '':'' = [58]" "ascii ''='' = [61]" "ascii '';'' = [59]"
  by (simp_all add: ascii_def)

lemma length_ascii [simp]: "length (ascii s) = length s"
  by (simp add: ascii_def)

lemma ascii_set: "of_char c \<in> set (ascii s) \<longleftrightarrow> c \<in> set s"
  by (auto simp: ascii_def of_char_word_iff)

text \<open>The characters the formats use: zero, line feed, carriage return, space, slash, colon, equals, opening bracket.\<close>

lemma ascii_chars [simp]:
  "0 \<in> set (ascii s) \<longleftrightarrow> CHR 0x00 \<in> set s" "10 \<in> set (ascii s) \<longleftrightarrow> CHR 0x0A \<in> set s"
  "13 \<in> set (ascii s) \<longleftrightarrow> CHR 0x0D \<in> set s" "32 \<in> set (ascii s) \<longleftrightarrow> CHR '' '' \<in> set s"
  "47 \<in> set (ascii s) \<longleftrightarrow> CHR ''/'' \<in> set s" "58 \<in> set (ascii s) \<longleftrightarrow> CHR '':'' \<in> set s"
  "61 \<in> set (ascii s) \<longleftrightarrow> CHR ''='' \<in> set s" "91 \<in> set (ascii s) \<longleftrightarrow> CHR ''['' \<in> set s"
  using ascii_set [of "CHR 0x00" s] ascii_set [of "CHR 0x0A" s] ascii_set [of "CHR 0x0D" s] ascii_set [of "CHR '' ''" s]
    ascii_set [of "CHR ''/''" s] ascii_set [of "CHR '':''" s] ascii_set [of "CHR ''=''" s] ascii_set [of "CHR ''[''" s] by simp_all

lemma c_str_lit [simp]: "CHR 0x00 \<notin> set s \<Longrightarrow> c_str (lit s) = Some (ascii s)"
  by (simp add: lit_def c_str_append)

section \<open>The C library\<close>

text \<open>\<open>strchr\<close> for a character that is not zero, as an offset\<close>

fun c_strchr :: "u8 list \<Rightarrow> u8 \<Rightarrow> nat option" where
  "c_strchr [] c = None"
| "c_strchr (d # s) c = (if d = c then Some 0 else map_option Suc (c_strchr s c))"

text \<open>\<open>strcmp(a, b) == 0\<close>: the comparison ends at the first difference.\<close>

fun c_streq :: "u8 list \<Rightarrow> u8 list \<Rightarrow> bool option" where
  "c_streq (a # s) (b # t) = (if a \<noteq> b then Some False else if a = 0 then Some True else c_streq s t)"
| "c_streq _ _ = None"

text \<open>\<open>strncmp(a, b, n) == 0\<close> and \<open>memcmp\<close>\<close>

primrec c_strneq :: "nat \<Rightarrow> u8 list \<Rightarrow> u8 list \<Rightarrow> bool option" where
  "c_strneq 0 s t = Some True"
| "c_strneq (Suc n) s t = (case (s, t) of (a # s, b # t) \<Rightarrow>
     if a \<noteq> b then Some False else if a = 0 then Some True else c_strneq n s t | _ \<Rightarrow> None)"

lemma c_strchr_None: "c_strchr s c = None \<longleftrightarrow> c \<notin> set s"
  by (induction s) auto

lemma c_strchr_Some: "c \<notin> set s \<Longrightarrow> c_strchr (s @ c # t) c = Some (length s)"
  by (induction s) auto

lemma c_strchr_bound: "c_strchr s c = Some k \<Longrightarrow> k < length s"
  by (induction s arbitrary: k) (auto split: if_splits)

lemma c_strstr_char: "c_strstr s [c] = c_strchr s c"
  by (induction s) auto

lemma c_streq_spec: "c_str a = Some s \<Longrightarrow> 0 \<notin> set t \<Longrightarrow> c_streq a (t @ [0]) = Some (s = t)"
proof (induction a arbitrary: s t)
  case (Cons x a)
  then show ?case by (cases t) (auto split: if_splits)
qed simp

lemma c_streq_lit: "c_str a = Some s \<Longrightarrow> CHR 0x00 \<notin> set t \<Longrightarrow> c_streq a (lit t) = Some (s = ascii t)"
  by (simp add: lit_def c_streq_spec)

section \<open>Numbers\<close>

lemma dec_nat_ne: "dec_nat n \<noteq> []"
  by (subst dec_nat.simps) auto

lemma digit_word:
  assumes "d < 10"
  shows "is_digit (word_of_nat (48 + d))" "uint (word_of_nat (48 + d) :: u8) = int (48 + d)"
proof -
  have u: "unat (word_of_nat (48 + d) :: u8) = 48 + d" using assms by (simp only: unsigned_of_nat) (simp add: take_bit_eq_mod)
  then show "is_digit (word_of_nat (48 + d))" using assms by (simp add: is_digit_def word_le_nat_alt)
  show "uint (word_of_nat (48 + d) :: u8) = int (48 + d)" using u by (metis uint_nat)
qed

lemma digits_value_append: "digits_value (xs @ [c]) = 10 * digits_value xs + (uint c - 48)"
  by (simp add: digits_value_def)

lemma dec_nat_digits: "(\<forall>c \<in> set (dec_nat n). is_digit c) \<and> digits_value (dec_nat n) = int n"
proof (induction n rule: less_induct)
  case (less n)
  show ?case
  proof (cases "n < 10")
    case True
    then show ?thesis using digit_word [of n] by (subst (1 2) dec_nat.simps) (simp add: digits_value_def)
  next
    case False
    then have "n div 10 < n" "n mod 10 < 10" by simp_all
    then show ?thesis
      using less.IH [of "n div 10"] digit_word [of "n mod 10"] False
      by (subst (1 2) dec_nat.simps) (auto simp: digits_value_append zdiv_int zmod_int)
  qed
qed

lemma dec_nat_free [simp]:
  "0 \<notin> set (dec_nat n)" "10 \<notin> set (dec_nat n)" "13 \<notin> set (dec_nat n)" "32 \<notin> set (dec_nat n)" "47 \<notin> set (dec_nat n)"
  "58 \<notin> set (dec_nat n)" "dec_nat n \<noteq> []"
  using dec_nat_digits [of n] dec_nat_ne [of n] by (auto simp: is_digit_def word_le_nat_alt)

lemma dec_int_free [simp]:
  "0 \<notin> set (dec_int i)" "10 \<notin> set (dec_int i)" "13 \<notin> set (dec_int i)" "32 \<notin> set (dec_int i)" "47 \<notin> set (dec_int i)"
  "58 \<notin> set (dec_int i)" "dec_int i \<noteq> []"
  by (simp_all add: dec_int_def)

lemma dec_nat_length: "n < 10 ^ Suc k \<Longrightarrow> length (dec_nat n) \<le> Suc k"
proof (induction k arbitrary: n)
  case (Suc k)
  then have "n div 10 < 10 ^ Suc k" by (simp add: less_mult_imp_div_less mult.commute)
  then show ?case using Suc.IH [of "n div 10"] by (subst dec_nat.simps) auto
qed (subst dec_nat.simps, simp)

text \<open>\<open>atol\<close> gives a \<open>long\<close> of 64 bits.\<close>

definition c_atol :: "u8 list \<Rightarrow> int" where
  "c_atol s =
     (let t = dropWhile is_space s;
          neg = (t \<noteq> [] \<and> hd t = 45);
          u = (if t \<noteq> [] \<and> (hd t = 45 \<or> hd t = 43) then tl t else t);
          v = digits_value (takeWhile is_digit u)
      in max (- (2 ^ 63)) (min (2 ^ 63 - 1) (if neg then - v else v)))"

lemma c_atoi_atol: "c_atoi s = signed_take_bit 31 (c_atol s)"
  by (simp add: c_atoi_def c_atol_def Let_def)

text \<open>A printed number is read back, whatever follows it that is not a digit.\<close>

lemma c_atol_dec_int:
  assumes "- (2 ^ 63) \<le> i" "i < 2 ^ 63" "rest = [] \<or> \<not> is_digit (hd rest)"
  shows "c_atol (dec_int i @ rest) = i"
proof -
  have nd: "\<not> is_space c \<and> c \<noteq> 45 \<and> c \<noteq> 43" if "is_digit c" for c
    using that by (auto simp: is_digit_def is_space_def word_le_nat_alt)
  have tw: "takeWhile is_digit (dec_nat n @ rest) = dec_nat n" for n
    using dec_nat_digits [of n] assms(3) by (cases rest) (simp_all add: takeWhile_append2 takeWhile_append1)
  show ?thesis
  proof (cases "i < 0")
    case True
    have "\<not> is_space 45" by (simp add: is_space_def)
    then show ?thesis using True assms(1,2) dec_nat_digits [of "nat (- i)"]
      by (simp add: c_atol_def dec_int_def Let_def tw)
  next
    case False
    obtain c cs where c: "dec_nat (nat i) = c # cs" "is_digit c"
      using dec_nat_ne [of "nat i"] dec_nat_digits [of "nat i"] by (cases "dec_nat (nat i)") auto
    have h: "hd (dec_nat (nat i) @ rest) = c" "dropWhile is_space (dec_nat (nat i) @ rest) = dec_nat (nat i) @ rest"
      using c nd [OF c(2)] by simp_all
    show ?thesis using False assms(1,2) dec_nat_digits [of "nat i"] nd [OF c(2)]
      by (simp add: c_atol_def dec_int_def Let_def h tw dec_nat_ne)
  qed
qed

lemma c_atoi_dec_int:
  assumes "- (2 ^ 31) \<le> i" "i < 2 ^ 31" "rest = [] \<or> \<not> is_digit (hd rest)"
  shows "c_atoi (dec_int i @ rest) = i"
  using c_atol_dec_int [of i rest] assms by (simp add: c_atoi_atol signed_take_bit_int_eq_self)

section \<open>Fields\<close>

text \<open>Fields that are not empty and do not hold the separator are the tokens of the text they are joined to.\<close>

fun joined :: "u8 \<Rightarrow> u8 list list \<Rightarrow> u8 list" where
  "joined c [] = []"
| "joined c [f] = f"
| "joined c (f # g # fs) = f @ c # joined c (g # fs)"

lemma tokens_plain: "f \<noteq> [] \<Longrightarrow> c \<notin> set f \<Longrightarrow> tokens [c] f = [f]"
proof -
  have "c \<notin> set f \<Longrightarrow> split_on [c] f = [f]" by (induction f) auto
  then show "f \<noteq> [] \<Longrightarrow> c \<notin> set f \<Longrightarrow> tokens [c] f = [f]" by (simp add: tokens_def)
qed

lemma tokens_field: "f \<noteq> [] \<Longrightarrow> c \<notin> set f \<Longrightarrow> tokens [c] (f @ c # s) = f # tokens [c] s"
proof -
  have "c \<notin> set f \<Longrightarrow> split_on [c] (f @ c # s) = f # split_on [c] s" by (induction f) auto
  then show "f \<noteq> [] \<Longrightarrow> c \<notin> set f \<Longrightarrow> tokens [c] (f @ c # s) = f # tokens [c] s" by (simp add: tokens_def)
qed

lemma tokens_sep: "tokens [c] (c # s) = tokens [c] s"
  by (simp add: tokens_def)

lemma tokens_Nil [simp]: "tokens d [] = []"
  by (simp add: tokens_def)

lemma tokens_joined: "\<forall>f \<in> set fs. f \<noteq> [] \<and> c \<notin> set f \<Longrightarrow> tokens [c] (joined c fs) = fs"
  by (induction c fs rule: joined.induct) (simp_all add: tokens_plain tokens_field)

text \<open>Lines, each with its own end\<close>

lemma tokens_lines: "\<forall>f \<in> set fs. f \<noteq> [] \<and> c \<notin> set f \<Longrightarrow> tokens [c] (concat (map (\<lambda>f. f @ [c]) fs)) = fs"
  by (induction fs) (simp_all add: tokens_field)

text \<open>What the splitting of a string gives, as the callers look at it.\<close>

lemma cstr_split:
  assumes "c_str src = Some s" "0 \<notin> set d"
  obtains v where "yang_cstr_split src (d @ [0]) = Some (if tokens d s = [] then 1 else Yang_Ok, v)"
    "strs_str v = map (\<lambda>p. p @ [0]) (tokens d s)" "strs_vsize v = int (length (tokens d s))"
proof -
  have d: "c_str (d @ [0]) = Some d" using assms(2) by (simp add: c_str_append)
  have "tokens d s = [] \<longleftrightarrow> c_strtok s d = None" by (subst tokens_strtok) (auto split: option.splits)
  then show thesis
    using that assms(1) d by (auto simp: yang_cstr_split_def split_loop_tokens)
qed

lemma tokens_no_zero: "0 \<notin> set s \<Longrightarrow> p \<in> set (tokens d s) \<Longrightarrow> 0 \<notin> set p"
proof -
  have "p \<in> set (split_on d s) \<Longrightarrow> set p \<subseteq> set s" for p
    by (induction s arbitrary: p) (fastforce split: if_splits list.splits)+
  then show "0 \<notin> set s \<Longrightarrow> p \<in> set (tokens d s) \<Longrightarrow> 0 \<notin> set p" by (fastforce simp: tokens_def)
qed

section \<open>Character arrays\<close>

text \<open>An array of \<open>n\<close> characters that holds the string \<open>s\<close>\<close>

definition holds_text :: "u8 list \<Rightarrow> nat \<Rightarrow> u8 list \<Rightarrow> bool" where
  "holds_text m n s \<longleftrightarrow> length m = n \<and> c_str m = Some s"

lemma holds_zero: "0 < n \<Longrightarrow> holds_text (replicate n 0) n []"
  by (cases n) (simp_all add: holds_text_def)

lemma strcpy_text:
  assumes "length m = n" "c_str src = Some s" "length s < n"
  shows "\<exists>m'. c_strcpy m src = Some m' \<and> holds_text m' n s"
proof -
  have "0 \<notin> set s" using c_str_spec [OF assms(2)] by auto
  then have "c_str (s @ 0 # drop (Suc (length s)) m) = Some s" by (rule c_str_append)
  then show ?thesis using assms by (auto simp: c_strcpy_def mem_write_def holds_text_def)
qed

lemma strcpy_overflow: "c_str src = Some s \<Longrightarrow> length m \<le> length s \<Longrightarrow> c_strcpy m src = None"
  by (simp add: c_strcpy_def mem_write_def)

lemma memcpy_text:
  assumes "length s < n" "0 \<notin> set s"
  shows "\<exists>m. mem_write (replicate n 0) 0 s = Some m \<and> holds_text m n s"
proof -
  have "c_str (s @ replicate (n - length s) 0) = Some s"
    using assms c_str_append [of s "replicate (n - length s - 1) 0"] by (cases "n - length s") auto
  then show ?thesis using assms by (auto simp: mem_write_def holds_text_def)
qed

end
