(* ===== verification/Url.thy ===== *)
theory Url
  imports C_Text
begin

text \<open>
  The URL parsers of \<open>yangutil/sys/YangUrl.c\<close>.

  Both functions search the string with pointers; the model keeps the offsets, a pointer being the rest of the string. The host
  name is resolved by \<open>gethostbyname\<close>: \<open>resolve\<close> gives the dotted address of a name, \<open>None\<close> when there is none. The three arrays
  have 30, 20 and 128 characters, whatever is copied into them.
\<close>

section \<open>Data\<close>

record YangUrlData =
  ur_netType :: int
  ur_port :: int
  ur_server :: "u8 list"
  ur_app :: "u8 list"
  ur_stream :: "u8 list"

abbreviation (input) Yang_Rtmp :: int where "Yang_Rtmp \<equiv> 0"
abbreviation (input) Yang_Webrtc :: int where "Yang_Webrtc \<equiv> 2"
abbreviation (input) Yang_Websocket_Ws :: int where "Yang_Websocket_Ws \<equiv> 0"
abbreviation (input) Yang_Websocket_Wss :: int where "Yang_Websocket_Wss \<equiv> 1"
abbreviation (input) Yang_Websocket_Http :: int where "Yang_Websocket_Http \<equiv> 2"
abbreviation (input) Yang_Websocket_Https :: int where "Yang_Websocket_Https \<equiv> 3"

section \<open>Parts of a URL\<close>

text \<open>\<open>yang_getIp\<close> of \<open>YangSocket.c\<close>: a name without an address is copied as it is.\<close>

definition yang_getIp :: "(u8 list \<Rightarrow> u8 list option) \<Rightarrow> u8 list \<Rightarrow> u8 list \<Rightarrow> u8 list option" where
  "yang_getIp resolve domain ip = do {
     d \<leftarrow> c_str domain;
     case resolve d of
       None \<Rightarrow> c_strcpy ip domain
     | Some a \<Rightarrow> c_strcpy ip (a @ [0])
   }"

text \<open>The length of the host name at the start of a string\<close>

definition url_hostlen :: "u8 list \<Rightarrow> nat" where
  "url_hostlen p =
     (let hostlen = (case c_strchr p 47 of Some slash \<Rightarrow> slash | None \<Rightarrow> length p)
      in case c_strchr p 58 of
           Some col \<Rightarrow> if col < hostlen then col else hostlen
         | None \<Rightarrow> hostlen)"

text \<open>The port, an \<open>uint32_t\<close>, after the host name\<close>

definition url_port :: "u8 list \<Rightarrow> YangUrlData \<Rightarrow> YangUrlData" where
  "url_port p data =
     (if p \<noteq> [] \<and> hd p = 58 then
        let p2 = word_of_int (c_atoi (tl p)) :: u32
        in if 65535 < p2 then data else data\<lparr>ur_port := uint p2\<rparr>
      else data)"

text \<open>The next slash after the one at an offset\<close>

definition next_slash :: "u8 list \<Rightarrow> nat option \<Rightarrow> nat option" where
  "next_slash p slash = do {
     k \<leftarrow> slash;
     j \<leftarrow> c_strchr (drop (k + 1) p) 47;
     Some (k + 1 + j)
   }"

definition url_applen :: "u8 list \<Rightarrow> nat" where
  "url_applen p =
     (let slash2 = c_strchr p 47; slash3 = next_slash p slash2; slash4 = next_slash p slash3
      in case slash4 of Some k \<Rightarrow> k | None \<Rightarrow>
         (case slash3 of Some k \<Rightarrow> k | None \<Rightarrow> (case slash2 of Some k \<Rightarrow> k | None \<Rightarrow> length p)))"

section \<open>The parsers\<close>

text \<open>A host name of more than 255 characters leaves the server as it was, and the rest is parsed.\<close>

definition yang_url_parse :: "(u8 list \<Rightarrow> u8 list option) \<Rightarrow> u8 list \<Rightarrow> YangUrlData \<Rightarrow> (errcode \<times> YangUrlData) option" where
  "yang_url_parse resolve url data = do {
     s \<leftarrow> c_str url;
     case c_strstr s (ascii ''://'') of
       None \<Rightarrow> Some (1, data)
     | Some len \<Rightarrow>
         if take len s \<noteq> ascii ''rtmp'' \<and> take len s \<noteq> ascii ''webrtc'' then Some (1, data)
         else do {
           let data = (if take len s = ascii ''rtmp'' then data\<lparr>ur_netType := Yang_Rtmp, ur_port := 1935\<rparr>
                       else data\<lparr>ur_netType := Yang_Webrtc, ur_port := 1985\<rparr>);
           let p = drop (len + 3) s;
           if p = [] then Some (1, data)
           else do {
             let hostlen = url_hostlen p;
             data \<leftarrow> (if hostlen < 256 then do {
                        s1 \<leftarrow> mem_write (replicate 256 0) 0 (take hostlen p);
                        server \<leftarrow> yang_getIp resolve s1 (replicate 30 0);
                        Some (data\<lparr>ur_server := server\<rparr>)
                      }
                      else Some data);
             let data = url_port (drop hostlen p) data;
             case c_strchr p 47 of
               None \<Rightarrow> Some (0, data)
             | Some slash \<Rightarrow> do {
                 let p = drop (slash + 1) p;
                 let applen = url_applen p;
                 app \<leftarrow> mem_write (replicate 20 0) 0 (take applen p);
                 let data = data\<lparr>ur_app := app\<rparr>;
                 let p = drop applen p;
                 let p = (if p \<noteq> [] \<and> hd p = 47 then tl p else p);
                 if p \<noteq> [] then do {
                   stream \<leftarrow> mem_write (replicate 128 0) 0 p;
                   Some (Yang_Ok, data\<lparr>ur_stream := stream\<rparr>)
                 }
                 else Some (Yang_Ok, data)
               }
           }
         }
   }"

definition ws_scheme :: "u8 list \<Rightarrow> (int \<times> int) option" where
  "ws_scheme scheme =
     (if scheme = ascii ''ws'' then Some (Yang_Websocket_Ws, 8088)
      else if scheme = ascii ''wss'' then Some (Yang_Websocket_Wss, 8089)
      else if scheme = ascii ''http'' then Some (Yang_Websocket_Http, 8088)
      else if scheme = ascii ''https'' then Some (Yang_Websocket_Https, 8089)
      else None)"

definition yang_ws_url_parse :: "u8 list \<Rightarrow> YangUrlData \<Rightarrow> (errcode \<times> YangUrlData) option" where
  "yang_ws_url_parse url data = do {
     s \<leftarrow> c_str url;
     case c_strstr s (ascii ''://'') of
       None \<Rightarrow> Some (1, data)
     | Some len \<Rightarrow> (case ws_scheme (take len s) of
           None \<Rightarrow> Some (1, data)
         | Some (netType, port) \<Rightarrow> do {
             let data = data\<lparr>ur_netType := netType, ur_port := port\<rparr>;
             let p = drop (len + 3) s;
             if p = [] then Some (1, data)
             else do {
               let hostlen = url_hostlen p;
               data \<leftarrow> (if hostlen < 256 then do {
                          server \<leftarrow> mem_write (replicate 30 0) 0 (take hostlen p);
                          Some (data\<lparr>ur_server := server\<rparr>)
                        }
                        else Some data);
               let data = url_port (drop hostlen p) data;
               case c_strchr p 47 of
                 None \<Rightarrow> Some (0, data)
               | Some slash \<Rightarrow> do {
                   let p = drop (slash + 1) p;
                   app \<leftarrow> mem_write (replicate 20 0) 0 (take (url_applen p) p);
                   Some (Yang_Ok, data\<lparr>ur_app := app\<rparr>)
                 }
             }
           })
   }"

section \<open>What is parsed\<close>

text \<open>The text of a port that is given\<close>

definition port_text :: "nat option \<Rightarrow> u8 list" where
  "port_text port = (case port of None \<Rightarrow> [] | Some n \<Rightarrow> 58 # dec_nat n)"

lemma is_prefix_append: "is_prefix m (m @ s)"
  by (induction m) auto

lemma strstr_scheme:
  assumes "58 \<notin> set scheme"
  shows "c_strstr (scheme @ ascii ''://'' @ r) (ascii ''://'') = Some (length scheme)"
  using assms
proof (induction scheme)
  case Nil
  have "c_strstr (ascii ''://'' @ r) m = Some 0" if "is_prefix m (ascii ''://'' @ r)" for m
    using that by (cases "ascii ''://'' @ r") (auto simp: ascii_def)
  then show ?case by (simp add: is_prefix_append)
next
  case (Cons c s)
  have "ascii ''://'' = 58 # ascii ''//''" by (simp add: ascii_def)
  then have "\<not> is_prefix (ascii ''://'') (c # s @ ascii ''://'' @ r)" using Cons.prems by simp
  then show ?case using Cons by simp
qed

lemma hostlen_parts:
  assumes "58 \<notin> set host" "47 \<notin> set host"
  shows "url_hostlen (host @ port_text port @ 47 # r) = length host"
proof (cases port)
  case None
  have "c_strchr (host @ 47 # r) 58 = None \<or> (\<exists>k \<ge> length host. c_strchr (host @ 47 # r) 58 = Some k)"
  proof (cases "c_strchr (host @ 47 # r) 58")
    case (Some k)
    have "length host \<le> k" using Some assms(1)
      by (induction host arbitrary: k) (auto split: if_splits)
    then show ?thesis using Some by blast
  qed simp
  then show ?thesis using None c_strchr_Some [OF assms(2), of r] by (auto simp: url_hostlen_def port_text_def)
next
  case (Some n)
  have "c_strchr ((host @ 58 # dec_nat n) @ 47 # r) 47 = Some (length (host @ 58 # dec_nat n))"
    using assms(2) by (intro c_strchr_Some) simp
  moreover have "c_strchr (host @ 58 # dec_nat n @ 47 # r) 58 = Some (length host)" using c_strchr_Some [OF assms(1)] .
  ultimately show ?thesis using Some by (simp add: url_hostlen_def port_text_def)
qed

lemma slash_parts:
  assumes "47 \<notin> set host"
  shows "c_strchr (host @ port_text port @ 47 # r) 47 = Some (length (host @ port_text port))"
proof -
  have "47 \<notin> set (port_text port)"
    by (auto simp: port_text_def split: option.splits)
  then show ?thesis using c_strchr_Some [of 47 "host @ port_text port" r] assms by simp
qed

lemma port_parts:
  assumes "\<forall>n. port = Some n \<longrightarrow> n \<le> 65535"
  shows "url_port (port_text port @ 47 # r) data = data\<lparr>ur_port := (case port of None \<Rightarrow> ur_port data | Some n \<Rightarrow> int n)\<rparr>"
proof (cases port)
  case (Some n)
  then have n: "n \<le> 65535" using assms by simp
  have "c_atoi (dec_nat n @ 47 # r) = int n"
    using c_atoi_dec_int [of "int n" "47 # r"] n by (simp add: dec_int_def is_digit_def word_le_nat_alt)
  moreover have "unat (word_of_nat n :: u32) = n" using n by (simp add: unsigned_of_nat take_bit_eq_mod)
  moreover have "uint (word_of_nat n :: u32) = int n" using calculation(2) by (metis uint_nat)
  ultimately show ?thesis using Some n by (simp add: url_port_def port_text_def word_less_nat_alt Let_def)
qed (simp add: url_port_def port_text_def)

lemma applen_simple:
  assumes "47 \<notin> set app" "47 \<notin> set stream"
  shows "url_applen (app @ 47 # stream) = length app"
proof -
  have "c_strchr (app @ 47 # stream) 47 = Some (length app)" using assms(1) by (rule c_strchr_Some)
  moreover have "c_strchr stream 47 = None" using assms(2) by (simp add: c_strchr_None)
  ultimately show ?thesis by (simp add: url_applen_def next_slash_def)
qed

text \<open>
  C4: a URL of the documented form (scheme, host, an optional port, application and stream) gives its parts: the kind of network that the
  scheme names (RTMP or WebRTC), the resolved host, the port or the one of the scheme, the application and the stream, each as a string.
\<close>
theorem url_parse_fields:
  assumes "c_str url = Some (scheme @ ascii ''://'' @ host @ port_text port @ 47 # app @ 47 # stream)"
    and "scheme = ascii ''rtmp'' \<or> scheme = ascii ''webrtc''" "resolve host = Some addr" "0 \<notin> set addr" "length addr < 30"
    and "58 \<notin> set host" "47 \<notin> set host" "length host < 256" "\<forall>n. port = Some n \<longrightarrow> n \<le> 65535"
    and "47 \<notin> set app" "length app < 20" "47 \<notin> set stream" "stream \<noteq> []" "length stream < 128"
  shows "\<exists>d. yang_url_parse resolve url data = Some (Yang_Ok, d)
    \<and> ur_netType d = (if scheme = ascii ''rtmp'' then Yang_Rtmp else Yang_Webrtc)
    \<and> ur_port d = (case port of Some n \<Rightarrow> int n | None \<Rightarrow> if scheme = ascii ''rtmp'' then 1935 else 1985)
    \<and> holds_text (ur_server d) 30 addr \<and> holds_text (ur_app d) 20 app \<and> holds_text (ur_stream d) 128 stream"
proof -
  let ?rest = "app @ 47 # stream"
  let ?p = "host @ port_text port @ 47 # ?rest"
  have z: "0 \<notin> set ?p" using c_str_spec [OF assms(1)] by auto
  have sc: "58 \<notin> set scheme" using assms(2) by auto
  have s: "c_strstr (scheme @ ascii ''://'' @ ?p) (ascii ''://'') = Some (length scheme)" by (rule strstr_scheme [OF sc])
  have d3: "drop (length scheme + 3) (scheme @ ascii ''://'' @ ?p) = ?p" by simp
  have hl: "url_hostlen ?p = length host" by (rule hostlen_parts [OF assms(6,7)])
  obtain s1 where s1: "mem_write (replicate 256 0) 0 host = Some s1" "holds_text s1 256 host"
    using memcpy_text [of host 256] assms(8) z by auto
  obtain srv where srv: "c_strcpy (replicate 30 0) (addr @ [0]) = Some srv" "holds_text srv 30 addr"
    using strcpy_text [of "replicate 30 0" 30 "addr @ [0]" addr] assms(4,5) by (auto simp: c_str_append)
  have ip: "yang_getIp resolve s1 (replicate 30 0) = Some srv"
    using s1(2) assms(3) srv(1) by (simp add: yang_getIp_def holds_text_def)
  have sl: "c_strchr ?p 47 = Some (length (host @ port_text port))" by (rule slash_parts [OF assms(7)])
  have dr: "drop (length (host @ port_text port) + 1) ?p = ?rest" by simp
  have al: "url_applen ?rest = length app" by (rule applen_simple [OF assms(10,12)])
  obtain ap where ap: "mem_write (replicate 20 0) 0 app = Some ap" "holds_text ap 20 app"
    using memcpy_text [of app 20] assms(11) z by auto
  obtain st where st: "mem_write (replicate 128 0) 0 stream = Some st" "holds_text st 128 stream"
    using memcpy_text [of stream 128] assms(14) z by auto
  have port: "url_port (drop (length host) ?p) data = data\<lparr>ur_port := (case port of None \<Rightarrow> ur_port data | Some n \<Rightarrow> int n)\<rparr>" for data
    using port_parts [OF assms(9), of ?rest] by simp
  have tk: "take (length scheme) (scheme @ ascii ''://'' @ ?p) = scheme" "take (length host) ?p = host" "take (length app) ?rest = app"
      "drop (length app) ?rest = 47 # stream" by simp_all
  have ne: "?p \<noteq> []" by simp
  show ?thesis
    unfolding yang_url_parse_def assms(1) bind.bind_lunit s option.case d3 tk Let_def hl sl dr al ap(1) st(1) s1(1) ip port
    using assms(2,8,13) ne srv(2) ap(2) st(2) by (auto simp: bind.bind_lunit ap(1) st(1) port split: option.splits)
qed

theorem url_parse_fields_witness:
  "\<exists>d. yang_url_parse (\<lambda>h. Some (ascii ''10.0.0.7'')) (lit ''webrtc://media:1990/live/camera'')
      \<lparr>ur_netType = 0, ur_port = 0, ur_server = [], ur_app = [], ur_stream = []\<rparr> = Some (Yang_Ok, d)
    \<and> ur_netType d = Yang_Webrtc \<and> ur_port d = 1990 \<and> holds_text (ur_server d) 30 (ascii ''10.0.0.7'') \<and> holds_text (ur_stream d) 128 (ascii ''camera'')"
proof -
  have n: "dec_nat 1990 = ascii ''1990''" by (simp add: dec_nat.simps ascii_def)
  have "c_str (lit ''webrtc://media:1990/live/camera'') =
      Some (ascii ''webrtc'' @ ascii ''://'' @ ascii ''media'' @ port_text (Some 1990) @ 47 # ascii ''live'' @ 47 # ascii ''camera'')"
    by (simp add: port_text_def n ascii_def)
  from url_parse_fields [OF this, of "\<lambda>h. Some (ascii ''10.0.0.7'')" "ascii ''10.0.0.7''"] show ?thesis by auto
qed

text \<open>
  C5: for a URL of the other form (scheme, host, optional port, path) parsing goes outside an array exactly when the host name has
  more than 30 characters (but fewer than 256, longer ones are skipped) or the path more than 20.
\<close>
theorem ws_url_overflow:
  assumes "c_str url = Some (scheme @ ascii ''://'' @ host @ port_text port @ 47 # path)" "ws_scheme scheme \<noteq> None"
    and "58 \<notin> set host" "47 \<notin> set host" "47 \<notin> set path"
  shows "yang_ws_url_parse url data = None \<longleftrightarrow> 30 < length host \<and> length host < 256 \<or> 20 < length path"
proof -
  let ?p = "host @ port_text port @ 47 # path"
  have sc: "58 \<notin> set scheme" using assms(2) by (auto simp: ws_scheme_def split: if_splits)
  obtain nt po where w: "ws_scheme scheme = Some (nt, po)" using assms(2) by auto
  have s: "c_strstr (scheme @ ascii ''://'' @ ?p) (ascii ''://'') = Some (length scheme)" by (rule strstr_scheme [OF sc])
  have d3: "drop (length scheme + 3) (scheme @ ascii ''://'' @ ?p) = ?p" by simp
  have hl: "url_hostlen ?p = length host" by (rule hostlen_parts [OF assms(3,4)])
  have sl: "c_strchr ?p 47 = Some (length (host @ port_text port))" by (rule slash_parts [OF assms(4)])
  have dr: "drop (length (host @ port_text port) + 1) ?p = path" by simp
  have al: "url_applen path = length path"
    using assms(5) by (simp add: url_applen_def next_slash_def c_strchr_None [THEN iffD2])
  have tk: "take (length scheme) (scheme @ ascii ''://'' @ ?p) = scheme" "take (length host) ?p = host" "take (length path) path = path"
    by simp_all
  have ne: "?p \<noteq> []" by simp
  have mw: "mem_write (replicate n 0) 0 xs = None \<longleftrightarrow> n < length xs" for n and xs :: "u8 list"
    by (auto simp: mem_write_def)
  show ?thesis
    unfolding yang_ws_url_parse_def assms(1) bind.bind_lunit s option.case d3 tk Let_def hl sl dr al w prod.case
    using ne by (auto simp: bind_eq_None_conv mw)
qed

theorem ws_url_overflow_witness:
  "yang_ws_url_parse (lit ''ws://h/twenty-one-characters'') \<lparr>ur_netType = 0, ur_port = 0, ur_server = [], ur_app = [], ur_stream = []\<rparr> = None"
proof -
  have "c_str (lit ''ws://h/twenty-one-characters'') = Some (ascii ''ws'' @ ascii ''://'' @ ascii ''h'' @ port_text None @ 47 # ascii ''twenty-one-characters'')"
    by (simp add: port_text_def ascii_def)
  from ws_url_overflow [OF this] show ?thesis by (simp add: ws_scheme_def)
qed

end
