(* ===== verification/Sdp.thy ===== *)
theory Sdp
  imports C_Text Vector
begin

text \<open>
  Session descriptions: the data of \<open>yangsdp/YangRtcSdp.h\<close>, \<open>YangMediaDesc.h\<close>, \<open>YangMediaPayloadType.h\<close> and \<open>YangSSRCInfo.h\<close>, and
  the printers and parsers of the files with these names.

  A character array is the list of its bytes, of the length the C type has; \<open>strcpy\<close> and \<open>memcpy\<close> beyond its end are faults
  (\<open>None\<close>). A pointer to an element of a vector is its index. Flags are \<open>int32_t\<close>.
\<close>

abbreviation (input) ERROR_RTC_SDP_DECODE :: errcode where "ERROR_RTC_SDP_DECODE \<equiv> 5012"

section \<open>String vectors (YangVector.c)\<close>

type_synonym YangStringVector = "u8 list yang_vector"

definition yang_insert_stringVector2 :: "YangStringVector \<Rightarrow> u8 list \<Rightarrow> int \<Rightarrow> YangStringVector option" where
  "yang_insert_stringVector2 vec str plen = do {
     bs \<leftarrow> mem_read str 0 plen;
     yang_insert_Vector [] vec (Some bs)
   }"

definition yang_insert_stringVector :: "YangStringVector \<Rightarrow> u8 list \<Rightarrow> YangStringVector option" where
  "yang_insert_stringVector vec str = do {
     n \<leftarrow> c_strlen str;
     yang_insert_stringVector2 vec str (n + 1)
   }"

definition yang_create_stringVector :: YangStringVector where
  "yang_create_stringVector = yang_create_Vector []"

definition yang_destroy_stringVector :: "YangStringVector \<Rightarrow> YangStringVector" where
  "yang_destroy_stringVector vec = yang_destroy_Vector vec"

text \<open>The strings are not freed.\<close>

definition yang_clear_stringVector :: "YangStringVector \<Rightarrow> YangStringVector option" where
  "yang_clear_stringVector vec = yang_clear_Vector [] vec"

text \<open>A vector whose bytes are all zero\<close>

definition zero_vector :: "'a yang_vector" where
  "zero_vector = \<lparr>capacity = 0, vsize = 0, payload = []\<rparr>"

text \<open>The elements a loop up to \<open>vsize\<close> goes through\<close>

definition vec_all :: "'a yang_vector \<Rightarrow> 'a list option" where
  "vec_all vec = mem_read (payload vec) 0 (vsize vec)"

section \<open>Data\<close>

record YangCandidate =
  cd_port :: int
  cd_ip :: "u8 list"
  cd_type :: "u8 list"

definition zero_candidate :: YangCandidate where
  "zero_candidate = \<lparr>cd_port = 0, cd_ip = replicate 64 0, cd_type = replicate 32 0\<rparr>"

record YangSessionInfo =
  si_ice_ufrag :: "u8 list"
  si_ice_pwd :: "u8 list"
  si_ice_options :: "u8 list"
  si_fingerprint_algo :: "u8 list"
  si_fingerprint :: "u8 list"
  si_setup :: "u8 list"

definition zero_session_info :: YangSessionInfo where
  "zero_session_info =
     \<lparr>si_ice_ufrag = replicate 32 0, si_ice_pwd = replicate 128 0, si_ice_options = replicate 128 0,
      si_fingerprint_algo = replicate 128 0, si_fingerprint = replicate 128 0, si_setup = replicate 128 0\<rparr>"

record YangExtmap =
  em_mapid :: int
  em_extmap :: "u8 list"

definition zero_extmap :: YangExtmap where
  "zero_extmap = \<lparr>em_mapid = 0, em_extmap = replicate 128 0\<rparr>"

record YangMediaPayloadType =
  pt_payload_type :: int
  pt_encoding_name :: "u8 list"
  pt_clock_rate :: int
  pt_encoding_param :: "u8 list"
  pt_format_specific_param :: "u8 list"
  pt_rtcp_fb :: YangStringVector

definition zero_payload_type :: YangMediaPayloadType where
  "zero_payload_type =
     \<lparr>pt_payload_type = 0, pt_encoding_name = replicate 16 0, pt_clock_rate = 0, pt_encoding_param = replicate 256 0,
      pt_format_specific_param = replicate 128 0, pt_rtcp_fb = zero_vector\<rparr>"

record YangSSRCGroup =
  sg_groups :: "u32 yang_vector"
  sg_semantic :: "u8 list"

definition zero_ssrc_group :: YangSSRCGroup where
  "zero_ssrc_group = \<lparr>sg_groups = zero_vector, sg_semantic = replicate 64 0\<rparr>"

record YangSSRCInfo =
  ss_ssrc :: u32
  ss_cname :: "u8 list"
  ss_msid :: "u8 list"
  ss_msid_tracker :: "u8 list"
  ss_mslabel :: "u8 list"
  ss_label :: "u8 list"

definition zero_ssrc_info :: YangSSRCInfo where
  "zero_ssrc_info =
     \<lparr>ss_ssrc = 0, ss_cname = replicate 64 0, ss_msid = replicate 64 0, ss_msid_tracker = replicate 64 0, ss_mslabel = replicate 64 0,
      ss_label = replicate 64 0\<rparr>"

record YangMediaDesc =
  md_port :: int
  md_sctp_port :: int
  md_rtcp_mux :: int
  md_rtcp_rsize :: int
  md_sendonly :: int
  md_recvonly :: int
  md_sendrecv :: int
  md_inactive :: int
  md_type :: "u8 list"
  md_mid :: "u8 list"
  md_msid :: "u8 list"
  md_msid_tracker :: "u8 list"
  md_protos :: "u8 list"
  md_session_info :: YangSessionInfo
  md_payload_types :: "YangMediaPayloadType yang_vector"
  md_candidates :: "YangCandidate yang_vector"
  md_ssrc_groups :: "YangSSRCGroup yang_vector"
  md_ssrc_infos :: "YangSSRCInfo yang_vector"
  md_extmaps :: "YangExtmap yang_vector"

definition zero_media_desc :: YangMediaDesc where
  "zero_media_desc =
     \<lparr>md_port = 0, md_sctp_port = 0, md_rtcp_mux = 0, md_rtcp_rsize = 0, md_sendonly = 0, md_recvonly = 0, md_sendrecv = 0,
      md_inactive = 0, md_type = replicate 16 0, md_mid = replicate 64 0, md_msid = replicate 64 0, md_msid_tracker = replicate 64 0,
      md_protos = replicate 64 0, md_session_info = zero_session_info, md_payload_types = zero_vector, md_candidates = zero_vector,
      md_ssrc_groups = zero_vector, md_ssrc_infos = zero_vector, md_extmaps = zero_vector\<rparr>"

record YangSdp =
  sd_in_media_session :: int
  sd_start_time :: int
  sd_end_time :: int
  sd_session_info :: YangSessionInfo
  sd_groups :: YangStringVector
  sd_group_policy :: "u8 list"
  sd_msid_semantic :: "u8 list"
  sd_msids :: YangStringVector
  sd_media_descs :: "YangMediaDesc yang_vector"
  sd_version :: "u8 list"
  sd_username :: "u8 list"
  sd_session_id :: "u8 list"
  sd_session_version :: "u8 list"
  sd_nettype :: "u8 list"
  sd_addrtype :: "u8 list"
  sd_unicast_address :: "u8 list"
  sd_session_name :: "u8 list"

definition zero_sdp :: YangSdp where
  "zero_sdp =
     \<lparr>sd_in_media_session = 0, sd_start_time = 0, sd_end_time = 0, sd_session_info = zero_session_info, sd_groups = zero_vector,
      sd_group_policy = replicate 16 0, sd_msid_semantic = replicate 64 0, sd_msids = zero_vector, sd_media_descs = zero_vector,
      sd_version = replicate 16 0, sd_username = replicate 128 0, sd_session_id = replicate 32 0, sd_session_version = replicate 128 0,
      sd_nettype = replicate 16 0, sd_addrtype = replicate 32 0, sd_unicast_address = replicate 32 0, sd_session_name = replicate 64 0\<rparr>"

section \<open>Printing\<close>

definition kCRLF :: "u8 list" where "kCRLF = [13, 10, 0]"

text \<open>An integer through \<open>yang_itoa\<close> and the array \<open>intstr\<close>\<close>

definition write_int :: "yang_buffer \<Rightarrow> int \<Rightarrow> yang_buffer option" where
  "write_int os n = do {
     intstr \<leftarrow> yang_itoa n (replicate 32 0);
     yang_write_cstring os intstr
   }"

subsection \<open>YangSSRCInfo.c\<close>

definition yang_encode_ssrcinfo :: "YangSSRCInfo \<Rightarrow> yang_buffer \<Rightarrow> (errcode \<times> yang_buffer) option" where
  "yang_encode_ssrcinfo info os =
     (if ss_ssrc info = 0 then Some (ERROR_RTC_SDP_DECODE, os)
      else do {
        ssrcstr \<leftarrow> yang_itoa (sint (ss_ssrc info)) (replicate 32 0);
        os \<leftarrow> yang_write_cstring os (lit ''a=ssrc:'');
        os \<leftarrow> yang_write_cstring os ssrcstr;
        os \<leftarrow> yang_write_cstring os (lit '' cname:'');
        os \<leftarrow> yang_write_cstring os (ss_cname info);
        os \<leftarrow> yang_write_cstring os kCRLF;
        n \<leftarrow> c_strlen (ss_msid info);
        os \<leftarrow> (if n \<noteq> 0 then do {
                 os \<leftarrow> yang_write_cstring os (lit ''a=ssrc:'');
                 os \<leftarrow> yang_write_cstring os ssrcstr;
                 os \<leftarrow> yang_write_cstring os (lit '' msid:'');
                 os \<leftarrow> yang_write_cstring os (ss_msid info);
                 t \<leftarrow> c_strlen (ss_msid_tracker info);
                 os \<leftarrow> (if t \<noteq> 0 then do {
                          os \<leftarrow> yang_write_cstring os (lit '' '');
                          yang_write_cstring os (ss_msid_tracker info)
                        }
                        else Some os);
                 yang_write_cstring os kCRLF
               }
               else Some os);
        n \<leftarrow> c_strlen (ss_mslabel info);
        os \<leftarrow> (if n \<noteq> 0 then do {
                 os \<leftarrow> yang_write_cstring os (lit ''a=ssrc:'');
                 os \<leftarrow> yang_write_cstring os ssrcstr;
                 os \<leftarrow> yang_write_cstring os (lit '' mslabel:'');
                 os \<leftarrow> yang_write_cstring os (ss_mslabel info);
                 yang_write_cstring os kCRLF
               }
               else Some os);
        n \<leftarrow> c_strlen (ss_label info);
        os \<leftarrow> (if n \<noteq> 0 then do {
                 os \<leftarrow> yang_write_cstring os (lit ''a=ssrc:'');
                 os \<leftarrow> yang_write_cstring os ssrcstr;
                 os \<leftarrow> yang_write_cstring os (lit '' label:'');
                 os \<leftarrow> yang_write_cstring os (ss_label info);
                 yang_write_cstring os kCRLF
               }
               else Some os);
        Some (Yang_Ok, os)
      })"

primrec ssrcgroup_loop :: "u32 list \<Rightarrow> yang_buffer \<Rightarrow> yang_buffer option" where
  "ssrcgroup_loop [] os = Some os"
| "ssrcgroup_loop (s # ss) os = do {
     os \<leftarrow> yang_write_cstring os (lit '' '');
     os \<leftarrow> write_int os (sint s);
     ssrcgroup_loop ss os
   }"

definition yang_encode_ssrcgroup :: "YangSSRCGroup \<Rightarrow> yang_buffer \<Rightarrow> (errcode \<times> yang_buffer) option" where
  "yang_encode_ssrcgroup grp os = do {
     n \<leftarrow> c_strlen (sg_semantic grp);
     if n = 0 then Some (ERROR_RTC_SDP_DECODE, os)
     else if vsize (sg_groups grp) = 0 then Some (ERROR_RTC_SDP_DECODE, os)
     else do {
       os \<leftarrow> yang_write_cstring os (lit ''a=ssrc-group:'');
       os \<leftarrow> yang_write_cstring os (sg_semantic grp);
       ss \<leftarrow> vec_all (sg_groups grp);
       os \<leftarrow> ssrcgroup_loop ss os;
       Some (Yang_Ok, os)
     }
   }"

subsection \<open>YangMediaPayloadType.c\<close>

primrec rtcp_fb_loop :: "int \<Rightarrow> u8 list list \<Rightarrow> yang_buffer \<Rightarrow> yang_buffer option" where
  "rtcp_fb_loop pt [] os = Some os"
| "rtcp_fb_loop pt (f # fs) os = do {
     os \<leftarrow> yang_write_cstring os (lit ''a=rtcp-fb:'');
     os \<leftarrow> write_int os pt;
     os \<leftarrow> yang_write_cstring os (lit '' '');
     os \<leftarrow> yang_write_cstring os f;
     os \<leftarrow> yang_write_cstring os kCRLF;
     rtcp_fb_loop pt fs os
   }"

definition yang_encode_mediapayloadtype :: "YangMediaPayloadType \<Rightarrow> yang_buffer \<Rightarrow> (errcode \<times> yang_buffer) option" where
  "yang_encode_mediapayloadtype pl os = do {
     os \<leftarrow> yang_write_cstring os (lit ''a=rtpmap:'');
     os \<leftarrow> write_int os (pt_payload_type pl);
     os \<leftarrow> yang_write_cstring os (lit '' '');
     os \<leftarrow> yang_write_cstring os (pt_encoding_name pl);
     os \<leftarrow> yang_write_cstring os (lit ''/'');
     os \<leftarrow> write_int os (pt_clock_rate pl);
     n \<leftarrow> c_strlen (pt_encoding_param pl);
     os \<leftarrow> (if n \<noteq> 0 then do {
              os \<leftarrow> yang_write_cstring os (lit ''/'');
              yang_write_cstring os (pt_encoding_param pl)
            }
            else Some os);
     os \<leftarrow> yang_write_cstring os kCRLF;
     fbs \<leftarrow> vec_all (pt_rtcp_fb pl);
     os \<leftarrow> rtcp_fb_loop (pt_payload_type pl) fbs os;
     n \<leftarrow> c_strlen (pt_format_specific_param pl);
     os \<leftarrow> (if n \<noteq> 0 then do {
              os \<leftarrow> yang_write_cstring os (lit ''a=fmtp:'');
              os \<leftarrow> write_int os (pt_payload_type pl);
              os \<leftarrow> yang_write_cstring os (lit '' '');
              os \<leftarrow> yang_write_cstring os (pt_format_specific_param pl);
              yang_write_cstring os kCRLF
            }
            else Some os);
     Some (Yang_Ok, os)
   }"

subsection \<open>YangMediaDesc.c\<close>

text \<open>A line \<open>name:text\<close> that is left out when the text is empty\<close>

definition write_attribute :: "string \<Rightarrow> u8 list \<Rightarrow> yang_buffer \<Rightarrow> yang_buffer option" where
  "write_attribute name text os = do {
     n \<leftarrow> c_strlen text;
     if n \<noteq> 0 then do {
       os \<leftarrow> yang_write_cstring os (lit name);
       os \<leftarrow> yang_write_cstring os text;
       yang_write_cstring os kCRLF
     }
     else Some os
   }"

definition yang_encode_sessionInfo :: "YangSessionInfo \<Rightarrow> yang_buffer \<Rightarrow> (errcode \<times> yang_buffer) option" where
  "yang_encode_sessionInfo info os = do {
     os \<leftarrow> write_attribute ''a=ice-ufrag:'' (si_ice_ufrag info) os;
     os \<leftarrow> write_attribute ''a=ice-pwd:'' (si_ice_pwd info) os;
     os \<leftarrow> write_attribute ''a=ice-options:'' (si_ice_options info) os;
     n \<leftarrow> c_strlen (si_fingerprint_algo info);
     k \<leftarrow> c_strlen (si_fingerprint info);
     os \<leftarrow> (if n \<noteq> 0 \<and> k \<noteq> 0 then do {
              os \<leftarrow> yang_write_cstring os (lit ''a=fingerprint:'');
              os \<leftarrow> yang_write_cstring os (si_fingerprint_algo info);
              os \<leftarrow> yang_write_cstring os (lit '' '');
              os \<leftarrow> yang_write_cstring os (si_fingerprint info);
              yang_write_cstring os kCRLF
            }
            else Some os);
     os \<leftarrow> write_attribute ''a=setup:'' (si_setup info) os;
     Some (Yang_Ok, os)
   }"

text \<open>A line that is written when a flag is set\<close>

definition write_flag :: "int \<Rightarrow> string \<Rightarrow> yang_buffer \<Rightarrow> yang_buffer option" where
  "write_flag flag name os =
     (if flag \<noteq> 0 then do {
        os \<leftarrow> yang_write_cstring os (lit name);
        yang_write_cstring os kCRLF
      }
      else Some os)"

primrec payload_numbers_loop :: "YangMediaPayloadType list \<Rightarrow> yang_buffer \<Rightarrow> yang_buffer option" where
  "payload_numbers_loop [] os = Some os"
| "payload_numbers_loop (p # ps) os = do {
     os \<leftarrow> yang_write_cstring os (lit '' '');
     os \<leftarrow> write_int os (pt_payload_type p);
     payload_numbers_loop ps os
   }"

primrec extmap_loop :: "YangExtmap list \<Rightarrow> yang_buffer \<Rightarrow> yang_buffer option" where
  "extmap_loop [] os = Some os"
| "extmap_loop (e # es) os = do {
     os \<leftarrow> yang_write_cstring os (lit ''a=extmap:'');
     os \<leftarrow> write_int os (em_mapid e);
     os \<leftarrow> yang_write_cstring os (lit '' '');
     os \<leftarrow> yang_write_cstring os (em_extmap e);
     os \<leftarrow> yang_write_cstring os kCRLF;
     extmap_loop es os
   }"

primrec payload_types_loop :: "YangMediaPayloadType list \<Rightarrow> yang_buffer \<Rightarrow> (errcode \<times> yang_buffer) option" where
  "payload_types_loop [] os = Some (Yang_Ok, os)"
| "payload_types_loop (p # ps) os = do {
     (err, os) \<leftarrow> yang_encode_mediapayloadtype p os;
     if err \<noteq> Yang_Ok then Some (1, os) else payload_types_loop ps os
   }"

primrec ssrc_infos_loop :: "YangSSRCInfo list \<Rightarrow> yang_buffer \<Rightarrow> (errcode \<times> yang_buffer) option" where
  "ssrc_infos_loop [] os = Some (Yang_Ok, os)"
| "ssrc_infos_loop (s # ss) os = do {
     (err, os) \<leftarrow> yang_encode_ssrcinfo s os;
     if err \<noteq> Yang_Ok then Some (1, os) else ssrc_infos_loop ss os
   }"

text \<open>The priority of every candidate is the one of a host.\<close>

definition candidate_priority :: int where
  "candidate_priority = 2 ^ 24 * 126 + 2 ^ 8 * 65535 + (256 - 1)"

primrec candidates_loop :: "int \<Rightarrow> YangCandidate list \<Rightarrow> yang_buffer \<Rightarrow> yang_buffer option" where
  "candidates_loop foundation [] os = Some os"
| "candidates_loop foundation (c # cs) os = do {
     os \<leftarrow> yang_write_cstring os (lit ''a=candidate:'');
     os \<leftarrow> write_int os foundation;
     os \<leftarrow> yang_write_cstring os (lit '' '');
     os \<leftarrow> write_int os 1;
     os \<leftarrow> yang_write_cstring os (lit '' udp '');
     os \<leftarrow> write_int os candidate_priority;
     os \<leftarrow> yang_write_cstring os (lit '' '');
     os \<leftarrow> yang_write_cstring os (cd_ip c);
     os \<leftarrow> yang_write_cstring os (lit '' '');
     os \<leftarrow> write_int os (cd_port c);
     os \<leftarrow> yang_write_cstring os (lit '' typ '');
     os \<leftarrow> yang_write_cstring os (cd_type c);
     os \<leftarrow> yang_write_cstring os (lit '' generation 0'');
     os \<leftarrow> yang_write_cstring os kCRLF;
     candidates_loop (foundation + 1) cs os
   }"

text \<open>\<open>printf\<close> returns the number of characters it has printed.\<close>

definition yang_encode_mediadesc :: "YangMediaDesc \<Rightarrow> yang_buffer \<Rightarrow> (errcode \<times> yang_buffer) option" where
  "yang_encode_mediadesc desc os = do {
     os \<leftarrow> yang_write_cstring os (lit ''m='');
     os \<leftarrow> yang_write_cstring os (md_type desc);
     os \<leftarrow> yang_write_cstring os (lit '' '');
     os \<leftarrow> write_int os (md_port desc);
     os \<leftarrow> yang_write_cstring os (lit '' '');
     os \<leftarrow> yang_write_cstring os (md_protos desc);
     pts \<leftarrow> vec_all (md_payload_types desc);
     os \<leftarrow> payload_numbers_loop pts os;
     os \<leftarrow> yang_write_cstring os kCRLF;
     os \<leftarrow> yang_write_cstring os (lit ''c=IN IP4 0.0.0.0'');
     os \<leftarrow> yang_write_cstring os kCRLF;
     (err, os) \<leftarrow> yang_encode_sessionInfo (md_session_info desc) os;
     if err \<noteq> Yang_Ok then Some (26, os)
     else do {
       os \<leftarrow> yang_write_cstring os (lit ''a=mid:'');
       os \<leftarrow> yang_write_cstring os (md_mid desc);
       os \<leftarrow> yang_write_cstring os kCRLF;
       n \<leftarrow> c_strlen (md_msid desc);
       os \<leftarrow> (if n \<noteq> 0 then do {
                os \<leftarrow> yang_write_cstring os (lit ''a=msid:'');
                os \<leftarrow> yang_write_cstring os (md_msid desc);
                t \<leftarrow> c_strlen (md_msid_tracker desc);
                os \<leftarrow> (if t \<noteq> 0 then do {
                         os \<leftarrow> yang_write_cstring os (lit '' '');
                         yang_write_cstring os (md_msid_tracker desc)
                       }
                       else Some os);
                yang_write_cstring os kCRLF
              }
              else Some os);
       es \<leftarrow> vec_all (md_extmaps desc);
       os \<leftarrow> extmap_loop es os;
       os \<leftarrow> write_flag (md_sendonly desc) ''a=sendonly'' os;
       os \<leftarrow> write_flag (md_recvonly desc) ''a=recvonly'' os;
       os \<leftarrow> write_flag (md_sendrecv desc) ''a=sendrecv'' os;
       os \<leftarrow> write_flag (md_inactive desc) ''a=inactive'' os;
       os \<leftarrow> write_flag (md_rtcp_mux desc) ''a=rtcp-mux'' os;
       os \<leftarrow> write_flag (md_rtcp_rsize desc) ''a=rtcp-rsize'' os;
       (err, os) \<leftarrow> payload_types_loop pts os;
       if err \<noteq> Yang_Ok then Some (err, os)
       else do {
         ss \<leftarrow> vec_all (md_ssrc_infos desc);
         (err, os) \<leftarrow> ssrc_infos_loop ss os;
         if err \<noteq> Yang_Ok then Some (err, os)
         else do {
           os \<leftarrow> write_flag (md_sctp_port desc) ''a=sctp-port:5000'' os;
           cs \<leftarrow> vec_all (md_candidates desc);
           os \<leftarrow> candidates_loop 0 cs os;
           Some (Yang_Ok, os)
         }
       }
     }
   }"

primrec update_msid_loop :: "YangSSRCInfo list \<Rightarrow> u8 list \<Rightarrow> YangSSRCInfo list option" where
  "update_msid_loop [] ident = Some []"
| "update_msid_loop (s # ss) ident = do {
     m \<leftarrow> c_strcpy (replicate 64 0) ident;
     l \<leftarrow> c_strcpy (replicate 64 0) ident;
     ss \<leftarrow> update_msid_loop ss ident;
     Some (s\<lparr>ss_msid := m, ss_mslabel := l\<rparr> # ss)
   }"

definition yang_mediadesc_update_msid :: "YangMediaDesc \<Rightarrow> u8 list \<Rightarrow> (errcode \<times> YangMediaDesc) option" where
  "yang_mediadesc_update_msid desc ident = do {
     ss \<leftarrow> vec_all (md_ssrc_infos desc);
     ss \<leftarrow> update_msid_loop ss ident;
     p \<leftarrow> mem_write (payload (md_ssrc_infos desc)) 0 ss;
     Some (Yang_Ok, desc\<lparr>md_ssrc_infos := (md_ssrc_infos desc)\<lparr>payload := p\<rparr>\<rparr>)
   }"

subsection \<open>YangRtcSdp.c\<close>

text \<open>\<open>sprintf\<close> to a position of the array \<open>tmp\<close>\<close>

definition sprintf_at :: "u8 list \<Rightarrow> int \<Rightarrow> u8 list \<Rightarrow> u8 list option" where
  "sprintf_at tmp p s = mem_write tmp p (s @ [0])"

primrec sprintf_names :: "u8 list \<Rightarrow> u8 list list \<Rightarrow> u8 list option" where
  "sprintf_names tmp [] = Some tmp"
| "sprintf_names tmp (n # ns) = do {
     p \<leftarrow> c_strlen tmp;
     s \<leftarrow> c_str n;
     tmp \<leftarrow> sprintf_at tmp p (ascii '' '' @ s);
     sprintf_names tmp ns
   }"

definition yang_rtcsdp_getnull :: "u8 list \<Rightarrow> int option" where
  "yang_rtcsdp_getnull os = c_strlen os"

primrec media_descs_loop :: "YangMediaDesc list \<Rightarrow> yang_buffer \<Rightarrow> (errcode \<times> yang_buffer) option" where
  "media_descs_loop [] os = Some (Yang_Ok, os)"
| "media_descs_loop (d # ds) os = do {
     (err, os) \<leftarrow> yang_encode_mediadesc d os;
     if err \<noteq> Yang_Ok then Some (31, os) else media_descs_loop ds os
   }"

text \<open>The first five lines, the groups and the streams go through an array of 2048 characters.\<close>

definition sdp_head :: "YangSdp \<Rightarrow> u8 list option" where
  "sdp_head sdp = do {
     version \<leftarrow> c_str (sd_version sdp);
     username \<leftarrow> c_str (sd_username sdp);
     session_id \<leftarrow> c_str (sd_session_id sdp);
     session_version \<leftarrow> c_str (sd_session_version sdp);
     nettype \<leftarrow> c_str (sd_nettype sdp);
     addrtype \<leftarrow> c_str (sd_addrtype sdp);
     unicast_address \<leftarrow> c_str (sd_unicast_address sdp);
     session_name \<leftarrow> c_str (sd_session_name sdp);
     Some (ascii ''v='' @ version @ [13, 10] @ ascii ''o='' @ username @ [32] @ session_id @ [32] @ session_version @ [32] @ nettype
       @ [32] @ addrtype @ [32] @ unicast_address @ [13, 10] @ ascii ''s='' @ session_name @ [13, 10] @ ascii ''t='' @
       dec_int (sd_start_time sdp) @ [32] @ dec_int (sd_end_time sdp) @ [13, 10] @ ascii ''a=ice-lite'' @ [13, 10])
   }"

definition sdp_tmp :: "YangSdp \<Rightarrow> u8 list option" where
  "sdp_tmp sdp = do {
     hd \<leftarrow> sdp_head sdp;
     tmp \<leftarrow> sprintf_at (replicate 2048 0) 0 hd;
     tmp \<leftarrow> (if vsize (sd_groups sdp) = 0 then do {
               p \<leftarrow> yang_rtcsdp_getnull tmp;
               policy \<leftarrow> c_str (sd_group_policy sdp);
               tmp \<leftarrow> sprintf_at tmp p (ascii ''a=group:'' @ policy);
               names \<leftarrow> vec_all (sd_groups sdp);
               tmp \<leftarrow> sprintf_names tmp names;
               p \<leftarrow> yang_rtcsdp_getnull tmp;
               sprintf_at tmp p [13, 10]
             }
             else Some tmp);
     p \<leftarrow> yang_rtcsdp_getnull tmp;
     semantic \<leftarrow> c_str (sd_msid_semantic sdp);
     tmp \<leftarrow> sprintf_at tmp p (ascii ''a=msid-semantic: '' @ semantic);
     names \<leftarrow> vec_all (sd_msids sdp);
     tmp \<leftarrow> sprintf_names tmp names;
     p \<leftarrow> yang_rtcsdp_getnull tmp;
     sprintf_at tmp p [13, 10]
   }"

definition yang_rtcsdp_encode :: "YangSdp \<Rightarrow> yang_buffer \<Rightarrow> (errcode \<times> yang_buffer) option" where
  "yang_rtcsdp_encode sdp os = do {
     tmp \<leftarrow> sdp_tmp sdp;
     os \<leftarrow> yang_write_cstring os tmp;
     (err, os) \<leftarrow> yang_encode_sessionInfo (sd_session_info sdp) os;
     if err \<noteq> Yang_Ok then Some (26, os)
     else do {
       ds \<leftarrow> vec_all (sd_media_descs sdp);
       media_descs_loop ds os
     }
   }"

end
