(* ===== verification/Sdp_Parse.thy ===== *)
theory Sdp_Parse
  imports Sdp
begin

text \<open>
  The parsers of session descriptions: \<open>YangMediaDesc.c\<close>, \<open>YangRtcSdp.c\<close> and the small files of \<open>yangsdp\<close>. A value is parsed in
  place; \<open>drop n value\<close> is a pointer into it. The strings of a split are copies, so reading one that is not there is a fault.
\<close>

section \<open>Numbers and fields\<close>

definition atoi :: "u8 list \<Rightarrow> int option" where
  "atoi m = map_option c_atoi (c_str m)"

text \<open>A number in front of a separator at offset \<open>k\<close>, through the array \<open>intstr\<close>\<close>

definition number_before :: "u8 list \<Rightarrow> nat \<Rightarrow> int option" where
  "number_before s k = do {
     intstr \<leftarrow> mem_write (replicate 32 0) 0 (take k s);
     atoi intstr
   }"

definition nth_str :: "YangStrings \<Rightarrow> int \<Rightarrow> u8 list option" where
  "nth_str v i = mem_load (strs_str v) i"

section \<open>YangMediaDesc.c\<close>

primrec attribute_index_loop :: "u8 list \<Rightarrow> int \<Rightarrow> int" where
  "attribute_index_loop [] i = 0"
| "attribute_index_loop (c # cs) i = (if c = 10 \<or> c = 13 \<or> c = 32 then i + 1 else attribute_index_loop cs (i + 1))"

definition yang_getparseAttribute_index :: "u8 list \<Rightarrow> int option" where
  "yang_getparseAttribute_index data = map_option (\<lambda>s. attribute_index_loop s 0) (c_str data)"

text \<open>A field that is set once: an array with a text in it is kept.\<close>

definition set_once :: "u8 list \<Rightarrow> nat \<Rightarrow> u8 list \<Rightarrow> u8 list option" where
  "set_once field n value = do {
     l \<leftarrow> c_strlen field;
     if l > 0 then Some field else c_strcpy (replicate n 0) value
   }"

definition yang_sessioninfo_parse_attribute :: "YangSessionInfo \<Rightarrow> u8 list \<Rightarrow> u8 list \<Rightarrow> (errcode \<times> YangSessionInfo) option" where
  "yang_sessioninfo_parse_attribute info attribute value = do {
     is_ufrag \<leftarrow> c_streq attribute (lit ''ice-ufrag'');
     is_pwd \<leftarrow> c_streq attribute (lit ''ice-pwd'');
     is_options \<leftarrow> c_streq attribute (lit ''ice-options'');
     is_fingerprint \<leftarrow> c_streq attribute (lit ''fingerprint'');
     is_setup \<leftarrow> c_streq attribute (lit ''setup'');
     if is_ufrag then do {
       f \<leftarrow> set_once (si_ice_ufrag info) 32 value;
       Some (Yang_Ok, info\<lparr>si_ice_ufrag := f\<rparr>)
     }
     else if is_pwd then do {
       f \<leftarrow> set_once (si_ice_pwd info) 128 value;
       Some (Yang_Ok, info\<lparr>si_ice_pwd := f\<rparr>)
     }
     else if is_options then do {
       f \<leftarrow> set_once (si_ice_options info) 128 value;
       Some (Yang_Ok, info\<lparr>si_ice_options := f\<rparr>)
     }
     else if is_fingerprint then do {
       l \<leftarrow> c_strlen (si_fingerprint_algo info);
       if l > 0 then Some (Yang_Ok, info)
       else do {
         s \<leftarrow> c_str value;
         case c_strstr s (ascii '' '') of
           None \<Rightarrow> Some (Yang_Ok, info\<lparr>si_fingerprint_algo := replicate 128 0, si_fingerprint := replicate 128 0\<rparr>)
         | Some p \<Rightarrow> do {
             a \<leftarrow> mem_write (replicate 128 0) 0 (take p s);
             f \<leftarrow> c_strcpy (replicate 128 0) (drop (p + 1) value);
             Some (Yang_Ok, info\<lparr>si_fingerprint_algo := a, si_fingerprint := f\<rparr>)
           }
       }
     }
     else if is_setup then do {
       f \<leftarrow> set_once (si_setup info) 128 value;
       Some (Yang_Ok, info\<lparr>si_setup := f\<rparr>)
     }
     else Some (Yang_Ok, info)
   }"

primrec find_payload :: "YangMediaPayloadType list \<Rightarrow> nat \<Rightarrow> int \<Rightarrow> nat option" where
  "find_payload [] i n = None"
| "find_payload (p # ps) i n = (if pt_payload_type p = n then Some i else find_payload ps (i + 1) n)"

definition yang_mediadesc_find_media_with_payload_type :: "YangMediaDesc \<Rightarrow> int \<Rightarrow> nat option option" where
  "yang_mediadesc_find_media_with_payload_type desc payload_type = do {
     ps \<leftarrow> vec_all (md_payload_types desc);
     Some (find_payload ps 0 payload_type)
   }"

primrec encoding_name_loop :: "YangMediaPayloadType list \<Rightarrow> u8 list \<Rightarrow> int option" where
  "encoding_name_loop [] name = Some 0"
| "encoding_name_loop (p # ps) name = do {
     r \<leftarrow> yang_strcmp (pt_encoding_name p) name;
     if r = 0 then Some 1 else encoding_name_loop ps name
   }"

definition yang_mediadesc_find_encoding_name :: "YangMediaDesc \<Rightarrow> u8 list \<Rightarrow> int option" where
  "yang_mediadesc_find_encoding_name desc name = do {
     ps \<leftarrow> vec_all (md_payload_types desc);
     encoding_name_loop ps name
   }"

text \<open>An update through the pointer to payload \<open>i\<close>\<close>

definition update_payload :: "YangMediaDesc \<Rightarrow> nat \<Rightarrow> (YangMediaPayloadType \<Rightarrow> YangMediaPayloadType option) \<Rightarrow> YangMediaDesc option" where
  "update_payload desc i f = do {
     p \<leftarrow> mem_load (payload (md_payload_types desc)) (int i);
     p \<leftarrow> f p;
     ps \<leftarrow> mem_store (payload (md_payload_types desc)) (int i) p;
     Some (desc\<lparr>md_payload_types := (md_payload_types desc)\<lparr>payload := ps\<rparr>\<rparr>)
   }"

definition yang_mediadesc_parse_attr_extmap :: "YangMediaDesc \<Rightarrow> u8 list \<Rightarrow> (errcode \<times> YangMediaDesc) option" where
  "yang_mediadesc_parse_attr_extmap desc value = do {
     s \<leftarrow> c_str value;
     case c_strstr s (ascii '' '') of
       None \<Rightarrow> Some (ERROR_RTC_SDP_DECODE, desc)
     | Some p \<Rightarrow> do {
         n \<leftarrow> number_before s p;
         es \<leftarrow> vec_all (md_extmaps desc);
         if n \<in> set (map em_mapid es) then Some (ERROR_RTC_SDP_DECODE, desc)
         else do {
           e \<leftarrow> c_strcpy (em_extmap zero_extmap) (drop (p + 1) value);
           v \<leftarrow> yang_insert_Vector zero_extmap (md_extmaps desc) (Some (zero_extmap\<lparr>em_mapid := n, em_extmap := e\<rparr>));
           Some (Yang_Ok, desc\<lparr>md_extmaps := v\<rparr>)
         }
       }
   }"

definition yang_mediadesc_parse_attr_rtpmap :: "YangMediaDesc \<Rightarrow> u8 list \<Rightarrow> (errcode \<times> YangMediaDesc) option" where
  "yang_mediadesc_parse_attr_rtpmap desc value = do {
     s \<leftarrow> c_str value;
     case c_strstr s (ascii '' '') of
       None \<Rightarrow> Some (ERROR_RTC_SDP_DECODE, desc)
     | Some p \<Rightarrow> do {
         payload_type \<leftarrow> number_before s p;
         pl \<leftarrow> yang_mediadesc_find_media_with_payload_type desc payload_type;
         case pl of
           None \<Rightarrow> Some (ERROR_RTC_SDP_DECODE, desc)
         | Some i \<Rightarrow> do {
             (_, str) \<leftarrow> yang_cstr_split (drop (p + 1) value) (lit ''/'');
             if strs_vsize str < 2 then Some (ERROR_RTC_SDP_DECODE, desc)
             else do {
               desc \<leftarrow> update_payload desc i (\<lambda>pl. do {
                 s0 \<leftarrow> nth_str str 0;
                 name \<leftarrow> c_strcpy (pt_encoding_name pl) s0;
                 s1 \<leftarrow> nth_str str 1;
                 rate \<leftarrow> atoi s1;
                 param \<leftarrow> (if strs_vsize str = 3 then do {
                              s2 \<leftarrow> nth_str str 2;
                              c_strcpy (pt_encoding_param pl) s2
                            }
                            else Some (pt_encoding_param pl));
                 Some (pl\<lparr>pt_encoding_name := name, pt_clock_rate := rate, pt_encoding_param := param\<rparr>)
               });
               Some (Yang_Ok, desc)
             }
           }
       }
   }"

definition yang_mediadesc_parse_attr_rtcp :: "YangMediaDesc \<Rightarrow> u8 list \<Rightarrow> (errcode \<times> YangMediaDesc) option" where
  "yang_mediadesc_parse_attr_rtcp desc value = Some (Yang_Ok, desc)"

definition yang_mediadesc_parse_attr_rtcp_fb :: "YangMediaDesc \<Rightarrow> u8 list \<Rightarrow> (errcode \<times> YangMediaDesc) option" where
  "yang_mediadesc_parse_attr_rtcp_fb desc value = do {
     s \<leftarrow> c_str value;
     case c_strstr s (ascii '' '') of
       None \<Rightarrow> Some (ERROR_RTC_SDP_DECODE, desc)
     | Some p \<Rightarrow> do {
         payload_type \<leftarrow> number_before s p;
         pl \<leftarrow> yang_mediadesc_find_media_with_payload_type desc payload_type;
         case pl of
           None \<Rightarrow> Some (ERROR_RTC_SDP_DECODE, desc)
         | Some i \<Rightarrow> do {
             desc \<leftarrow> update_payload desc i (\<lambda>pl. do {
               v \<leftarrow> yang_insert_stringVector (pt_rtcp_fb pl) (drop (p + 1) value);
               Some (pl\<lparr>pt_rtcp_fb := v\<rparr>)
             });
             Some (Yang_Ok, desc)
           }
       }
   }"

definition yang_mediadesc_parse_attr_fmtp :: "YangMediaDesc \<Rightarrow> u8 list \<Rightarrow> (errcode \<times> YangMediaDesc) option" where
  "yang_mediadesc_parse_attr_fmtp desc value = do {
     (_, str) \<leftarrow> yang_cstr_split value (lit '' '');
     if strs_vsize str < 1 then Some (ERROR_RTC_SDP_DECODE, desc)
     else do {
       s0 \<leftarrow> nth_str str 0;
       payload_type \<leftarrow> atoi s0;
       pl \<leftarrow> yang_mediadesc_find_media_with_payload_type desc payload_type;
       case pl of
         None \<Rightarrow> Some (ERROR_RTC_SDP_DECODE, desc)
       | Some i \<Rightarrow> do {
           desc \<leftarrow> update_payload desc i (\<lambda>pl. do {
             s1 \<leftarrow> nth_str str 1;
             f \<leftarrow> c_strcpy (pt_format_specific_param pl) s1;
             Some (pl\<lparr>pt_format_specific_param := f\<rparr>)
           });
           Some (Yang_Ok, desc)
         }
     }
   }"

definition yang_mediadesc_parse_attr_mid :: "YangMediaDesc \<Rightarrow> u8 list \<Rightarrow> (errcode \<times> YangMediaDesc) option" where
  "yang_mediadesc_parse_attr_mid desc value = do {
     m \<leftarrow> c_strcpy (md_mid desc) value;
     Some (Yang_Ok, desc\<lparr>md_mid := m\<rparr>)
   }"

definition yang_mediadesc_parse_attr_msid :: "YangMediaDesc \<Rightarrow> u8 list \<Rightarrow> (errcode \<times> YangMediaDesc) option" where
  "yang_mediadesc_parse_attr_msid desc value = do {
     (_, str) \<leftarrow> yang_cstr_split value (lit '' '');
     if strs_vsize str > 1 then do {
       s0 \<leftarrow> nth_str str 0;
       m \<leftarrow> c_strcpy (md_msid desc) s0;
       s1 \<leftarrow> nth_str str 1;
       t \<leftarrow> c_strcpy (md_msid_tracker desc) s1;
       Some (Yang_Ok, desc\<lparr>md_msid := m, md_msid_tracker := t\<rparr>)
     }
     else Some (Yang_Ok, desc)
   }"

primrec group_ssrcs_loop :: "u8 list list \<Rightarrow> u32 yang_vector \<Rightarrow> u32 yang_vector option" where
  "group_ssrcs_loop [] v = Some v"
| "group_ssrcs_loop (s # ss) v = do {
     n \<leftarrow> atoi s;
     v \<leftarrow> yang_insert_Vector 0 v (Some (word_of_int n));
     group_ssrcs_loop ss v
   }"

definition yang_mediadesc_parse_attr_ssrc_group :: "YangMediaDesc \<Rightarrow> u8 list \<Rightarrow> (errcode \<times> YangMediaDesc) option" where
  "yang_mediadesc_parse_attr_ssrc_group desc value = do {
     (_, str) \<leftarrow> yang_cstr_split value (lit '' '');
     if strs_vsize str < 3 then Some (ERROR_RTC_SDP_DECODE, desc)
     else do {
       s0 \<leftarrow> nth_str str 0;
       semantic \<leftarrow> c_strcpy (sg_semantic zero_ssrc_group) s0;
       ss \<leftarrow> mem_read (strs_str str) 1 (strs_vsize str - 1);
       g \<leftarrow> group_ssrcs_loop ss (yang_create_Vector 0);
       v \<leftarrow> yang_insert_Vector zero_ssrc_group (md_ssrc_groups desc) (Some \<lparr>sg_groups = g, sg_semantic = semantic\<rparr>);
       Some (Yang_Ok, desc\<lparr>md_ssrc_groups := v\<rparr>)
     }
   }"

primrec find_ssrc :: "YangSSRCInfo list \<Rightarrow> nat \<Rightarrow> u32 \<Rightarrow> nat option" where
  "find_ssrc [] i ssrc = None"
| "find_ssrc (s # ss) i ssrc = (if ss_ssrc s = ssrc then Some i else find_ssrc ss (i + 1) ssrc)"

definition yang_mediadesc_fetch_or_create_ssrc_info :: "YangMediaDesc \<Rightarrow> u32 \<Rightarrow> (nat \<times> YangMediaDesc) option" where
  "yang_mediadesc_fetch_or_create_ssrc_info desc ssrc = do {
     ss \<leftarrow> vec_all (md_ssrc_infos desc);
     case find_ssrc ss 0 ssrc of
       Some i \<Rightarrow> Some (i, desc)
     | None \<Rightarrow> do {
         v \<leftarrow> yang_insert_Vector zero_ssrc_info (md_ssrc_infos desc) (Some (zero_ssrc_info\<lparr>ss_ssrc := ssrc\<rparr>));
         Some (nat (vsize v - 1), desc\<lparr>md_ssrc_infos := v\<rparr>)
       }
   }"

definition update_ssrc :: "YangMediaDesc \<Rightarrow> nat \<Rightarrow> (YangSSRCInfo \<Rightarrow> YangSSRCInfo option) \<Rightarrow> YangMediaDesc option" where
  "update_ssrc desc i f = do {
     s \<leftarrow> mem_load (payload (md_ssrc_infos desc)) (int i);
     s \<leftarrow> f s;
     ss \<leftarrow> mem_store (payload (md_ssrc_infos desc)) (int i) s;
     Some (desc\<lparr>md_ssrc_infos := (md_ssrc_infos desc)\<lparr>payload := ss\<rparr>\<rparr>)
   }"

text \<open>The identifiers of a stream may be one or two names. A single one is copied from the value itself, as the splitting left it.\<close>

definition ssrc_msid :: "u8 list \<Rightarrow> YangSSRCInfo \<Rightarrow> (errcode \<times> YangSSRCInfo) option" where
  "ssrc_msid ssrc_value info = do {
     (_, str) \<leftarrow> yang_cstr_split ssrc_value (lit '' '');
     ssrc_value \<leftarrow> yang_cstr_split_src ssrc_value (lit '' '');
     if strs_vsize str = 0 then Some (ERROR_RTC_SDP_DECODE, info)
     else do {
       s0 \<leftarrow> nth_str str 0;
       m \<leftarrow> c_strcpy (ss_msid info) (if strs_vsize str = 1 then ssrc_value else s0);
       t \<leftarrow> (if strs_vsize str > 1 then do {
               s1 \<leftarrow> nth_str str 1;
               c_strcpy (ss_msid_tracker info) s1
             }
             else Some (ss_msid_tracker info));
       Some (Yang_Ok, info\<lparr>ss_msid := m, ss_msid_tracker := t\<rparr>)
     }
   }"

text \<open>The attribute \<open>attr\<close> of a source, with its value.\<close>

definition ssrc_attribute :: "u32 \<Rightarrow> u8 list \<Rightarrow> u8 list \<Rightarrow> YangSSRCInfo \<Rightarrow> (errcode \<times> YangSSRCInfo) option" where
  "ssrc_attribute ssrc attr ssrc_value info = do {
     is_cname \<leftarrow> c_streq attr (lit ''cname'');
     is_msid \<leftarrow> c_streq attr (lit ''msid'');
     is_mslabel \<leftarrow> c_streq attr (lit ''mslabel'');
     is_label \<leftarrow> c_streq attr (lit ''label'');
     if is_cname then do {
       c \<leftarrow> c_strcpy (ss_cname info) ssrc_value;
       Some (Yang_Ok, info\<lparr>ss_cname := c, ss_ssrc := ssrc\<rparr>)
     }
     else if is_msid then ssrc_msid ssrc_value info
     else if is_mslabel then do {
       l \<leftarrow> c_strcpy (ss_mslabel info) ssrc_value;
       Some (Yang_Ok, info\<lparr>ss_mslabel := l\<rparr>)
     }
     else if is_label then do {
       l \<leftarrow> c_strcpy (ss_label info) ssrc_value;
       Some (Yang_Ok, info\<lparr>ss_label := l\<rparr>)
     }
     else Some (Yang_Ok, info)
   }"

text \<open>A separator that is not found is a null pointer, and what is done with it a fault.\<close>

definition yang_mediadesc_parse_attr_ssrc :: "YangMediaDesc \<Rightarrow> u8 list \<Rightarrow> (errcode \<times> YangMediaDesc) option" where
  "yang_mediadesc_parse_attr_ssrc desc value = do {
     s \<leftarrow> c_str value;
     p \<leftarrow> c_strstr s (ascii '':'');
     n \<leftarrow> number_before s p;
     let ssrc = word_of_int n;
     p \<leftarrow> c_strstr s (ascii '' '');
     p1 \<leftarrow> c_strstr (drop (p + 1) s) (ascii '':'');
     ssrc_attr \<leftarrow> mem_write (replicate 16 0) 0 (take p1 (drop (p + 1) s));
     let ssrc_value = drop (p + 1 + p1 + 1) value;
     (i, desc) \<leftarrow> yang_mediadesc_fetch_or_create_ssrc_info desc ssrc;
     info \<leftarrow> mem_load (payload (md_ssrc_infos desc)) (int i);
     (err, info) \<leftarrow> ssrc_attribute ssrc ssrc_attr ssrc_value info;
     desc \<leftarrow> update_ssrc desc i (\<lambda>_. Some info);
     Some (err, desc)
   }"

definition yang_mediadesc_parse_attr_candidate :: "YangMediaDesc \<Rightarrow> u8 list \<Rightarrow> (errcode \<times> YangMediaDesc) option" where
  "yang_mediadesc_parse_attr_candidate desc value = do {
     (_, str) \<leftarrow> yang_cstr_split value (lit '' '');
     if strs_vsize str < 8 then Some (ERROR_RTC_SDP_DECODE, desc)
     else do {
       s4 \<leftarrow> nth_str str 4;
       ip \<leftarrow> c_strcpy (cd_ip zero_candidate) s4;
       s5 \<leftarrow> nth_str str 5;
       port \<leftarrow> atoi s5;
       s7 \<leftarrow> nth_str str 7;
       type \<leftarrow> c_strcpy (cd_type zero_candidate) s7;
       v \<leftarrow> yang_insert_Vector zero_candidate (md_candidates desc) (Some \<lparr>cd_port = port, cd_ip = ip, cd_type = type\<rparr>);
       Some (Yang_Ok, desc\<lparr>md_candidates := v\<rparr>)
     }
   }"

text \<open>The name and the value of an attribute are copied into arrays of 128 characters.\<close>

definition split_attribute :: "u8 list \<Rightarrow> (u8 list \<times> u8 list) option" where
  "split_attribute content = do {
     s \<leftarrow> c_str content;
     case c_strstr s (ascii '':'') of
       Some p \<Rightarrow> do {
         attribute \<leftarrow> mem_write (replicate 128 0) 0 (take p s);
         value \<leftarrow> mem_write (replicate 128 0) 0 (drop (p + 1) s);
         Some (attribute, value)
       }
     | None \<Rightarrow> do {
         attribute \<leftarrow> c_strcpy (replicate 128 0) content;
         Some (attribute, replicate 128 0)
       }
   }"

definition yang_mediadesc_parse_attribute :: "YangMediaDesc \<Rightarrow> u8 list \<Rightarrow> (errcode \<times> YangMediaDesc) option" where
  "yang_mediadesc_parse_attribute desc content = do {
     (attribute, value) \<leftarrow> split_attribute content;
     is_extmap \<leftarrow> c_streq attribute (lit ''extmap'');
     is_rtpmap \<leftarrow> c_streq attribute (lit ''rtpmap'');
     is_rtcp \<leftarrow> c_streq attribute (lit ''rtcp'');
     is_rtcp_fb \<leftarrow> c_streq attribute (lit ''rtcp-fb'');
     is_fmtp \<leftarrow> c_streq attribute (lit ''fmtp'');
     is_mid \<leftarrow> c_streq attribute (lit ''mid'');
     is_msid \<leftarrow> c_streq attribute (lit ''msid'');
     is_ssrc \<leftarrow> c_streq attribute (lit ''ssrc'');
     is_ssrc_group \<leftarrow> c_streq attribute (lit ''ssrc-group'');
     is_candidate \<leftarrow> c_streq attribute (lit ''candidate'');
     is_rtcp_mux \<leftarrow> c_streq attribute (lit ''rtcp-mux'');
     is_rtcp_rsize \<leftarrow> c_streq attribute (lit ''rtcp-rsize'');
     is_recvonly \<leftarrow> c_streq attribute (lit ''recvonly'');
     is_sendonly \<leftarrow> c_streq attribute (lit ''sendonly'');
     is_sendrecv \<leftarrow> c_streq attribute (lit ''sendrecv'');
     is_inactive \<leftarrow> c_streq attribute (lit ''inactive'');
     if is_extmap then yang_mediadesc_parse_attr_extmap desc value
     else if is_rtpmap then yang_mediadesc_parse_attr_rtpmap desc value
     else if is_rtcp then yang_mediadesc_parse_attr_rtcp desc value
     else if is_rtcp_fb then yang_mediadesc_parse_attr_rtcp_fb desc value
     else if is_fmtp then yang_mediadesc_parse_attr_fmtp desc value
     else if is_mid then yang_mediadesc_parse_attr_mid desc value
     else if is_msid then yang_mediadesc_parse_attr_msid desc value
     else if is_ssrc then yang_mediadesc_parse_attr_ssrc desc value
     else if is_ssrc_group then yang_mediadesc_parse_attr_ssrc_group desc value
     else if is_candidate then yang_mediadesc_parse_attr_candidate desc value
     else if is_rtcp_mux then Some (Yang_Ok, desc\<lparr>md_rtcp_mux := 1\<rparr>)
     else if is_rtcp_rsize then Some (Yang_Ok, desc\<lparr>md_rtcp_rsize := 1\<rparr>)
     else if is_recvonly then Some (Yang_Ok, desc\<lparr>md_recvonly := 1\<rparr>)
     else if is_sendonly then Some (Yang_Ok, desc\<lparr>md_sendonly := 1\<rparr>)
     else if is_sendrecv then Some (Yang_Ok, desc\<lparr>md_sendrecv := 1\<rparr>)
     else if is_inactive then Some (Yang_Ok, desc\<lparr>md_inactive := 1\<rparr>)
     else do {
       (err, info) \<leftarrow> yang_sessioninfo_parse_attribute (md_session_info desc) attribute value;
       Some (err, desc\<lparr>md_session_info := info\<rparr>)
     }
   }"

definition yang_mediadesc_parse_line :: "YangMediaDesc \<Rightarrow> u8 list \<Rightarrow> (errcode \<times> YangMediaDesc) option" where
  "yang_mediadesc_parse_line desc line = do {
     c \<leftarrow> mem_load line 0;
     if c = of_char (CHR ''a'') then yang_mediadesc_parse_attribute desc (drop 2 line)
     else Some (Yang_Ok, desc)
   }"

section \<open>YangRtcSdp.c\<close>

definition yang_create_rtcsdp :: "YangSdp \<Rightarrow> YangSdp option" where
  "yang_create_rtcsdp sdp = do {
     v \<leftarrow> yang_itoa 0 (sd_version sdp);
     Some (sdp\<lparr>sd_in_media_session := 0, sd_version := v, sd_start_time := 0, sd_end_time := 0\<rparr>)
   }"

text \<open>Destruction frees the vectors; those of the string vectors of the description itself are not among them.\<close>

definition yang_destroy_mediadesc :: "YangMediaDesc \<Rightarrow> YangMediaDesc" where
  "yang_destroy_mediadesc desc =
     desc\<lparr>md_candidates := yang_destroy_Vector (md_candidates desc), md_extmaps := yang_destroy_Vector (md_extmaps desc),
          md_payload_types := yang_destroy_Vector (md_payload_types desc), md_ssrc_groups := yang_destroy_Vector (md_ssrc_groups desc),
          md_ssrc_infos := yang_destroy_Vector (md_ssrc_infos desc)\<rparr>"

definition yang_destroy_rtcsdp :: "YangSdp \<Rightarrow> YangSdp" where
  "yang_destroy_rtcsdp sdp = sdp\<lparr>sd_media_descs := yang_destroy_Vector (sd_media_descs sdp)\<rparr>"

primrec find_media :: "YangMediaDesc list \<Rightarrow> nat \<Rightarrow> u8 list \<Rightarrow> nat option option" where
  "find_media [] i type = Some None"
| "find_media (d # ds) i type = do {
     same \<leftarrow> c_streq (md_type d) type;
     if same then Some (Some i) else find_media ds (i + 1) type
   }"

definition yang_rtcsdp_find_media_descs :: "YangSdp \<Rightarrow> u8 list \<Rightarrow> nat option option" where
  "yang_rtcsdp_find_media_descs sdp type = do {
     ds \<leftarrow> vec_all (sd_media_descs sdp);
     find_media ds 0 type
   }"

text \<open>A change of every media description\<close>

primrec map_media :: "(YangMediaDesc \<Rightarrow> YangMediaDesc option) \<Rightarrow> YangMediaDesc list \<Rightarrow> YangMediaDesc list option" where
  "map_media f [] = Some []"
| "map_media f (d # ds) = do {
     d \<leftarrow> f d;
     ds \<leftarrow> map_media f ds;
     Some (d # ds)
   }"

definition each_media :: "YangSdp \<Rightarrow> (YangMediaDesc \<Rightarrow> YangMediaDesc option) \<Rightarrow> YangSdp option" where
  "each_media sdp f = do {
     ds \<leftarrow> vec_all (sd_media_descs sdp);
     ds \<leftarrow> map_media f ds;
     p \<leftarrow> mem_write (payload (sd_media_descs sdp)) 0 ds;
     Some (sdp\<lparr>sd_media_descs := (sd_media_descs sdp)\<lparr>payload := p\<rparr>\<rparr>)
   }"

definition yang_rtcsdp_set_ice_ufrag :: "YangSdp \<Rightarrow> u8 list \<Rightarrow> YangSdp option" where
  "yang_rtcsdp_set_ice_ufrag sdp ufrag = each_media sdp (\<lambda>d. do {
     f \<leftarrow> c_strcpy (si_ice_ufrag (md_session_info d)) ufrag;
     Some (d\<lparr>md_session_info := (md_session_info d)\<lparr>si_ice_ufrag := f\<rparr>\<rparr>)
   })"

definition yang_rtcsdp_set_ice_pwd :: "YangSdp \<Rightarrow> u8 list \<Rightarrow> YangSdp option" where
  "yang_rtcsdp_set_ice_pwd sdp pwd = each_media sdp (\<lambda>d. do {
     f \<leftarrow> c_strcpy (si_ice_pwd (md_session_info d)) pwd;
     Some (d\<lparr>md_session_info := (md_session_info d)\<lparr>si_ice_pwd := f\<rparr>\<rparr>)
   })"

definition yang_rtcsdp_set_dtls_role :: "YangSdp \<Rightarrow> u8 list \<Rightarrow> YangSdp option" where
  "yang_rtcsdp_set_dtls_role sdp dtls_role = each_media sdp (\<lambda>d. do {
     f \<leftarrow> c_strcpy (si_setup (md_session_info d)) dtls_role;
     Some (d\<lparr>md_session_info := (md_session_info d)\<lparr>si_setup := f\<rparr>\<rparr>)
   })"

definition yang_rtcsdp_set_fingerprint_algo :: "YangSdp \<Rightarrow> u8 list \<Rightarrow> YangSdp option" where
  "yang_rtcsdp_set_fingerprint_algo sdp algo = each_media sdp (\<lambda>d. do {
     f \<leftarrow> c_strcpy (si_fingerprint_algo (md_session_info d)) algo;
     Some (d\<lparr>md_session_info := (md_session_info d)\<lparr>si_fingerprint_algo := f\<rparr>\<rparr>)
   })"

definition yang_rtcsdp_set_fingerprint :: "YangSdp \<Rightarrow> u8 list \<Rightarrow> YangSdp option" where
  "yang_rtcsdp_set_fingerprint sdp fingerprint = each_media sdp (\<lambda>d. do {
     f \<leftarrow> c_strcpy (si_fingerprint (md_session_info d)) fingerprint;
     Some (d\<lparr>md_session_info := (md_session_info d)\<lparr>si_fingerprint := f\<rparr>\<rparr>)
   })"

text \<open>The candidate is a local variable; \<open>garbage\<close> is what its memory holds.\<close>

definition yang_rtcsdp_add_candidate :: "YangCandidate \<Rightarrow> YangSdp \<Rightarrow> u8 list \<Rightarrow> int \<Rightarrow> u8 list \<Rightarrow> YangSdp option" where
  "yang_rtcsdp_add_candidate garbage sdp ip port type = do {
     i \<leftarrow> c_strcpy (cd_ip garbage) ip;
     t \<leftarrow> c_strcpy (cd_type garbage) type;
     each_media sdp (\<lambda>d. do {
       v \<leftarrow> yang_insert_Vector zero_candidate (md_candidates d) (Some \<lparr>cd_port = port, cd_ip = i, cd_type = t\<rparr>);
       Some (d\<lparr>md_candidates := v\<rparr>)
     })
   }"

definition first_media :: "YangSdp \<Rightarrow> (YangMediaDesc \<Rightarrow> u8 list) \<Rightarrow> u8 list option" where
  "first_media sdp f =
     (if 0 < vsize (sd_media_descs sdp) then map_option f (mem_load (payload (sd_media_descs sdp)) 0) else Some (lit []))"

definition yang_rtcsdp_get_ice_ufrag :: "YangSdp \<Rightarrow> u8 list option" where
  "yang_rtcsdp_get_ice_ufrag sdp = first_media sdp (\<lambda>d. si_ice_ufrag (md_session_info d))"

definition yang_rtcsdp_get_ice_pwd :: "YangSdp \<Rightarrow> u8 list option" where
  "yang_rtcsdp_get_ice_pwd sdp = first_media sdp (\<lambda>d. si_ice_pwd (md_session_info d))"

definition yang_rtcsdp_get_dtls_role :: "YangSdp \<Rightarrow> u8 list option" where
  "yang_rtcsdp_get_dtls_role sdp = first_media sdp (\<lambda>d. si_setup (md_session_info d))"

definition yang_rtcsdp_parse_origin :: "YangSdp \<Rightarrow> u8 list \<Rightarrow> (errcode \<times> YangSdp) option" where
  "yang_rtcsdp_parse_origin sdp content = do {
     (_, str) \<leftarrow> yang_cstr_split content (lit '' '');
     if strs_vsize str < 5 then Some (1, sdp)
     else do {
       s \<leftarrow> nth_str str 0;
       username \<leftarrow> c_strcpy (sd_username sdp) s;
       s \<leftarrow> nth_str str 1;
       session_id \<leftarrow> c_strcpy (sd_session_id sdp) s;
       s \<leftarrow> nth_str str 2;
       session_version \<leftarrow> c_strcpy (sd_session_version sdp) s;
       s \<leftarrow> nth_str str 3;
       nettype \<leftarrow> c_strcpy (sd_nettype sdp) s;
       s \<leftarrow> nth_str str 4;
       addrtype \<leftarrow> c_strcpy (sd_addrtype sdp) s;
       s \<leftarrow> nth_str str 5;
       unicast_address \<leftarrow> c_strcpy (sd_unicast_address sdp) s;
       Some (Yang_Ok, sdp\<lparr>sd_username := username, sd_session_id := session_id, sd_session_version := session_version,
                          sd_nettype := nettype, sd_addrtype := addrtype, sd_unicast_address := unicast_address\<rparr>)
     }
   }"

definition yang_rtcsdp_parse_version :: "YangSdp \<Rightarrow> u8 list \<Rightarrow> (errcode \<times> YangSdp) option" where
  "yang_rtcsdp_parse_version sdp content = do {
     n \<leftarrow> c_strlen content;
     v \<leftarrow> (if n \<noteq> 0 then c_strcpy (sd_version sdp) content else yang_itoa 0 (sd_version sdp));
     Some (Yang_Ok, sdp\<lparr>sd_version := v\<rparr>)
   }"

definition yang_rtcsdp_parse_session_name :: "YangSdp \<Rightarrow> u8 list \<Rightarrow> (errcode \<times> YangSdp) option" where
  "yang_rtcsdp_parse_session_name sdp content = do {
     n \<leftarrow> c_strcpy (sd_session_name sdp) content;
     Some (Yang_Ok, sdp\<lparr>sd_session_name := n\<rparr>)
   }"

definition yang_rtcsdp_parse_timing :: "YangSdp \<Rightarrow> u8 list \<Rightarrow> (errcode \<times> YangSdp) option" where
  "yang_rtcsdp_parse_timing sdp content = do {
     (_, str) \<leftarrow> yang_cstr_split content (lit '' '');
     if strs_vsize str < 2 then Some (1, sdp)
     else do {
       s \<leftarrow> nth_str str 0;
       start \<leftarrow> c_str s;
       s \<leftarrow> nth_str str 1;
       stop \<leftarrow> c_str s;
       Some (Yang_Ok, sdp\<lparr>sd_start_time := c_atol start, sd_end_time := c_atol stop\<rparr>)
     }
   }"

primrec insert_strings :: "u8 list list \<Rightarrow> YangStringVector \<Rightarrow> YangStringVector option" where
  "insert_strings [] v = Some v"
| "insert_strings (s # ss) v = do {
     v \<leftarrow> yang_insert_stringVector v s;
     insert_strings ss v
   }"

definition yang_rtcsdp_parse_attr_group :: "YangSdp \<Rightarrow> u8 list \<Rightarrow> (errcode \<times> YangSdp) option" where
  "yang_rtcsdp_parse_attr_group sdp value = do {
     (_, str) \<leftarrow> yang_cstr_split value (lit '' '');
     if strs_vsize str = 0 then Some (1, sdp)
     else do {
       s \<leftarrow> nth_str str 0;
       policy \<leftarrow> c_strcpy (sd_group_policy sdp) s;
       v \<leftarrow> insert_strings (drop 1 (strs_str str)) (sd_groups sdp);
       Some (Yang_Ok, sdp\<lparr>sd_group_policy := policy, sd_groups := v\<rparr>)
     }
   }"

primrec payload_numbers :: "u8 list list \<Rightarrow> YangMediaPayloadType yang_vector \<Rightarrow> YangMediaPayloadType yang_vector option" where
  "payload_numbers [] v = Some v"
| "payload_numbers (s # ss) v = do {
     n \<leftarrow> atoi s;
     v \<leftarrow> yang_insert_Vector zero_payload_type v (Some (zero_payload_type\<lparr>pt_payload_type := n\<rparr>));
     p \<leftarrow> mem_load (payload v) (vsize v - 1);
     ps \<leftarrow> mem_store (payload v) (vsize v - 1) (p\<lparr>pt_rtcp_fb := yang_create_stringVector\<rparr>);
     payload_numbers ss (v\<lparr>payload := ps\<rparr>)
   }"

definition yang_rtcsdp_parse_media_description :: "YangSdp \<Rightarrow> u8 list \<Rightarrow> (errcode \<times> YangSdp) option" where
  "yang_rtcsdp_parse_media_description sdp content = do {
     (_, str) \<leftarrow> yang_cstr_split content (lit '' '');
     if strs_vsize str < 4 then Some (1, sdp)
     else do {
       v \<leftarrow> yang_insert_Vector zero_media_desc (sd_media_descs sdp) (Some zero_media_desc);
       desc \<leftarrow> mem_load (payload v) (vsize v - 1);
       s \<leftarrow> nth_str str 0;
       type \<leftarrow> c_strcpy (md_type desc) s;
       s \<leftarrow> nth_str str 2;
       protos \<leftarrow> c_strcpy (md_protos desc) s;
       s \<leftarrow> nth_str str 1;
       port \<leftarrow> atoi s;
       pts \<leftarrow> payload_numbers (drop 3 (strs_str str)) (md_payload_types desc);
       p \<leftarrow> mem_store (payload v) (vsize v - 1) (desc\<lparr>md_type := type, md_protos := protos, md_port := port, md_payload_types := pts\<rparr>);
       Some (Yang_Ok, sdp\<lparr>sd_media_descs := v\<lparr>payload := p\<rparr>,
                          sd_in_media_session := (if sd_in_media_session sdp = 0 then 1 else sd_in_media_session sdp)\<rparr>)
     }
   }"

text \<open>An attribute of the session; without a colon its name stays empty.\<close>

definition session_attribute :: "u8 list \<Rightarrow> (u8 list \<times> u8 list) option" where
  "session_attribute content = do {
     s \<leftarrow> c_str content;
     case c_strstr s (ascii '':'') of
       Some p \<Rightarrow> do {
         attribute \<leftarrow> mem_write (replicate 256 0) 0 (take p s);
         value \<leftarrow> c_strcpy (replicate 256 0) (drop (p + 1) content);
         Some (attribute, value)
       }
     | None \<Rightarrow> Some (replicate 256 0, replicate 256 0)
   }"

definition yang_rtcsdp_parse_attribute :: "YangSdp \<Rightarrow> u8 list \<Rightarrow> (errcode \<times> YangSdp) option" where
  "yang_rtcsdp_parse_attribute sdp content = do {
     (attribute, value) \<leftarrow> session_attribute content;
     is_group \<leftarrow> c_streq attribute (lit ''group'');
     is_semantic \<leftarrow> c_streq attribute (lit ''msid-semantic'');
     if is_group then yang_rtcsdp_parse_attr_group sdp value
     else if is_semantic then do {
       (_, str) \<leftarrow> yang_cstr_split value (lit '' '');
       s \<leftarrow> nth_str str 0;
       semantic \<leftarrow> c_strcpy (sd_msid_semantic sdp) s;
       v \<leftarrow> insert_strings (drop 1 (strs_str str)) (sd_msids sdp);
       Some (Yang_Ok, sdp\<lparr>sd_msid_semantic := semantic, sd_msids := v\<rparr>)
     }
     else do {
       (err, info) \<leftarrow> yang_sessioninfo_parse_attribute (sd_session_info sdp) attribute value;
       Some (err, sdp\<lparr>sd_session_info := info\<rparr>)
     }
   }"

definition yang_rtcsdp_is_unified :: "YangSdp \<Rightarrow> int" where
  "yang_rtcsdp_is_unified sdp = (if 2 < vsize (sd_media_descs sdp) then 1 else 0)"

definition yang_rtcsdp_update_msid :: "YangSdp \<Rightarrow> u8 list \<Rightarrow> (errcode \<times> YangSdp) option" where
  "yang_rtcsdp_update_msid sdp ident = do {
     v \<leftarrow> yang_clear_stringVector (sd_msids sdp);
     v \<leftarrow> yang_insert_stringVector v ident;
     sdp \<leftarrow> each_media (sdp\<lparr>sd_msids := v\<rparr>) (\<lambda>d. map_option snd (yang_mediadesc_update_msid d ident));
     Some (Yang_Ok, sdp)
   }"

definition yang_rtcsdp_parse_line :: "YangSdp \<Rightarrow> u8 list \<Rightarrow> (errcode \<times> YangSdp) option" where
  "yang_rtcsdp_parse_line sdp line = do {
     c \<leftarrow> mem_load line 0;
     let content = drop 2 line;
     if c = of_char (CHR ''o'') then yang_rtcsdp_parse_origin sdp content
     else if c = of_char (CHR ''v'') then yang_rtcsdp_parse_version sdp content
     else if c = of_char (CHR ''s'') then yang_rtcsdp_parse_session_name sdp content
     else if c = of_char (CHR ''t'') then yang_rtcsdp_parse_timing sdp content
     else if c = of_char (CHR ''a'') then
       (if sd_in_media_session sdp \<noteq> 0 then do {
          let v = sd_media_descs sdp;
          desc \<leftarrow> mem_load (payload v) (vsize v - 1);
          (err, desc) \<leftarrow> yang_mediadesc_parse_line desc line;
          p \<leftarrow> mem_store (payload v) (vsize v - 1) desc;
          Some (err, sdp\<lparr>sd_media_descs := v\<lparr>payload := p\<rparr>\<rparr>)
        }
        else yang_rtcsdp_parse_attribute sdp content)
     else if c = of_char (CHR ''m'') then yang_rtcsdp_parse_media_description sdp content
     else Some (Yang_Ok, sdp)
   }"

primrec parse_lines :: "u8 list list \<Rightarrow> YangSdp \<Rightarrow> (errcode \<times> YangSdp) option" where
  "parse_lines [] sdp = Some (Yang_Ok, sdp)"
| "parse_lines (line # lines) sdp = do {
     n \<leftarrow> c_strlen line;
     c \<leftarrow> (if n < 2 then Some 0 else mem_load line 1);
     if c \<noteq> 61 then Some (ERROR_RTC_SDP_DECODE, sdp)
     else do {
       (err, sdp) \<leftarrow> yang_rtcsdp_parse_line sdp line;
       if err \<noteq> Yang_Ok then Some (1, sdp) else parse_lines lines sdp
     }
   }"

text \<open>The identifiers that a source of the media description leaves out are copied from the description.\<close>

definition copy_if_empty :: "u8 list \<Rightarrow> u8 list \<Rightarrow> u8 list option" where
  "copy_if_empty field text = do {
     n \<leftarrow> c_strlen field;
     if n = 0 then c_strcpy field text else Some field
   }"

primrec complete_ssrcs :: "YangMediaDesc \<Rightarrow> YangSSRCInfo list \<Rightarrow> YangSSRCInfo list option" where
  "complete_ssrcs d [] = Some []"
| "complete_ssrcs d (s # ss) = do {
     m \<leftarrow> copy_if_empty (ss_msid s) (md_msid d);
     t \<leftarrow> copy_if_empty (ss_msid_tracker s) (md_msid_tracker d);
     ml \<leftarrow> copy_if_empty (ss_mslabel s) (md_msid d);
     l \<leftarrow> copy_if_empty (ss_label s) (md_msid_tracker d);
     ss \<leftarrow> complete_ssrcs d ss;
     Some (s\<lparr>ss_msid := m, ss_msid_tracker := t, ss_mslabel := ml, ss_label := l\<rparr> # ss)
   }"

definition complete_media :: "YangMediaDesc \<Rightarrow> YangMediaDesc option" where
  "complete_media d = do {
     ss \<leftarrow> vec_all (md_ssrc_infos d);
     ss \<leftarrow> complete_ssrcs d ss;
     p \<leftarrow> mem_write (payload (md_ssrc_infos d)) 0 ss;
     Some (d\<lparr>md_ssrc_infos := (md_ssrc_infos d)\<lparr>payload := p\<rparr>\<rparr>)
   }"

definition yang_rtcsdp_parse :: "YangSdp \<Rightarrow> u8 list \<Rightarrow> (errcode \<times> YangSdp) option" where
  "yang_rtcsdp_parse sdp sdp_str = do {
     (_, strs) \<leftarrow> yang_cstr_split sdp_str (lit [CHR 0x0A]);
     (err, sdp) \<leftarrow> parse_lines (strs_str strs) sdp;
     if err \<noteq> Yang_Ok then Some (err, sdp)
     else do {
       sdp \<leftarrow> each_media sdp complete_media;
       Some (Yang_Ok, sdp)
     }
   }"

section \<open>YangSdpHandle.c\<close>

definition yang_parse_sdp :: "u8 list \<Rightarrow> YangSdp option" where
  "yang_parse_sdp str = do {
     sdp \<leftarrow> yang_create_rtcsdp zero_sdp;
     (_, sdp) \<leftarrow> yang_rtcsdp_parse sdp str;
     (_, buf) \<leftarrow> yang_rtcsdp_encode sdp (yang_init_buffer (replicate (1024 * 12) 0) 0 (1024 * 12));
     Some (yang_destroy_rtcsdp sdp)
   }"

section \<open>Codec descriptions (YangCodecPayload.c, YangAudioPayload.c, YangRedPayload.c, YangRtxPayloadDes.c)\<close>

record YangFbsVector =
  fb_capacity :: int
  fb_vlen :: int
  fb_groups :: "u8 list list"

record YangCodecPayload =
  cp_type :: "u8 list"
  cp_pt :: u8
  cp_pt_of_publisher :: u8
  cp_name :: "u8 list"
  cp_sample :: int
  cp_rtcp_fbs :: YangFbsVector

record SrsOpusParameter =
  op_minptime :: int
  op_use_inband_fec :: int
  op_usedtx :: int

record YangAudioPayload =
  ap_codecPayload :: YangCodecPayload
  ap_channel :: int
  ap_opus_param :: SrsOpusParameter

definition yang_init_sdpVector :: YangFbsVector where
  "yang_init_sdpVector = \<lparr>fb_capacity = 10, fb_vlen = 0, fb_groups = replicate 10 []\<rparr>"

definition yang_insert_fbsVector :: "YangFbsVector \<Rightarrow> u8 list \<Rightarrow> YangFbsVector option" where
  "yang_insert_fbsVector vec str = do {
     vec \<leftarrow> (if fb_vlen vec \<ge> fb_capacity vec then do {
               tmp \<leftarrow> mem_read (fb_groups vec) 0 (fb_vlen vec);
               g \<leftarrow> mem_write (replicate (nat (fb_capacity vec + 10)) []) 0 tmp;
               Some (vec\<lparr>fb_groups := g, fb_capacity := fb_capacity vec + 10\<rparr>)
             }
             else Some vec);
     s \<leftarrow> c_str str;
     g \<leftarrow> mem_store (fb_groups vec) (fb_vlen vec) (s @ [0]);
     Some (vec\<lparr>fb_groups := g, fb_vlen := fb_vlen vec + 1\<rparr>)
   }"

definition yang_init_audioPayload :: "YangAudioPayload \<Rightarrow> int \<Rightarrow> YangAudioPayload option" where
  "yang_init_audioPayload audio channel = do {
     t \<leftarrow> c_strcpy (cp_type (ap_codecPayload audio)) (lit ''audio'');
     Some (audio\<lparr>ap_codecPayload := (ap_codecPayload audio)\<lparr>cp_type := t\<rparr>, ap_channel := channel,
                 ap_opus_param := \<lparr>op_minptime = 0, op_use_inband_fec = 0, op_usedtx = 0\<rparr>\<rparr>)
   }"

text \<open>
  One parameter \<open>key=value\<close>. For any other form the string that the error message quotes has already been freed, which is a fault.
\<close>

definition opus_param :: "u8 list \<Rightarrow> SrsOpusParameter \<Rightarrow> SrsOpusParameter option" where
  "opus_param str op = do {
     (_, kv) \<leftarrow> yang_cstr_split str (lit ''='');
     if strs_vsize kv = 2 then do {
       key \<leftarrow> nth_str kv 0;
       is_minptime \<leftarrow> c_streq key (lit ''minptime'');
       is_fec \<leftarrow> c_streq key (lit ''useinbandfec'');
       is_dtx \<leftarrow> c_streq key (lit ''usedtx'');
       value \<leftarrow> nth_str kv 1;
       v \<leftarrow> c_str value;
       let n = signed_take_bit 31 (c_atol v);
       Some (if is_minptime then op\<lparr>op_minptime := n\<rparr>
             else if is_fec then op\<lparr>op_use_inband_fec := (if n = 1 then 1 else 0)\<rparr>
             else if is_dtx then op\<lparr>op_usedtx := (if n = 1 then 1 else 0)\<rparr>
             else op)
     }
     else None
   }"

primrec opus_params :: "u8 list list \<Rightarrow> SrsOpusParameter \<Rightarrow> SrsOpusParameter option" where
  "opus_params [] op = Some op"
| "opus_params (s # ss) op = do {
     op \<leftarrow> opus_param s op;
     opus_params ss op
   }"

definition yang_sdp_set_opus_param_desc :: "YangAudioPayload \<Rightarrow> u8 list \<Rightarrow> (errcode \<times> YangAudioPayload) option" where
  "yang_sdp_set_opus_param_desc audio fmtp = do {
     (_, vec) \<leftarrow> yang_cstr_split fmtp (lit '';'');
     op \<leftarrow> opus_params (strs_str vec) (ap_opus_param audio);
     Some (Yang_Ok, audio\<lparr>ap_opus_param := op\<rparr>)
   }"

record YangRedPayload =
  rd_pt :: u8
  rd_channel :: int
  rd_sample :: int
  rd_name :: "u8 list"

definition yang_create_redPayloaddes :: "YangRedPayload \<Rightarrow> u8 \<Rightarrow> u8 list \<Rightarrow> int \<Rightarrow> int \<Rightarrow> YangRedPayload option" where
  "yang_create_redPayloaddes red pt encode_name sample channel = do {
     n \<leftarrow> c_strcpy (rd_name red) encode_name;
     Some (red\<lparr>rd_sample := sample, rd_pt := pt, rd_name := n, rd_channel := channel\<rparr>)
   }"

record YangRtxPayloadDes =
  rx_pt :: u8
  rx_sample :: int
  rx_name :: "u8 list"

definition yang_create_rtxPayloaddes :: "YangRtxPayloadDes \<Rightarrow> u8 \<Rightarrow> u8 list \<Rightarrow> int \<Rightarrow> YangRtxPayloadDes option" where
  "yang_create_rtxPayloaddes des pt encode_name sample = do {
     n \<leftarrow> c_strcpy (rx_name des) (lit ''rtx'');
     Some (des\<lparr>rx_sample := sample, rx_pt := pt, rx_name := n\<rparr>)
   }"

end
