(* ===== verification/Sdp_Text.thy ===== *)
theory Sdp_Text
  imports Sdp_Parse
begin

text \<open>
  What the printers of session descriptions write. A view is what a structure says, with its arrays read as strings and its vectors
  as lists; the printed text is a function of the view (\<open>media_lines\<close>, \<open>sdp_lines\<close>), line by line.
\<close>

section \<open>Strings in arrays\<close>

definition str_of :: "u8 list \<Rightarrow> u8 list" where
  "str_of m = takeWhile (\<lambda>c. c \<noteq> 0) m"

text \<open>A terminated array of \<open>n\<close> characters\<close>

definition arr :: "nat \<Rightarrow> u8 list \<Rightarrow> bool" where
  "arr n m \<longleftrightarrow> length m = n \<and> 0 \<in> set m"

lemma c_str_str_of: "0 \<in> set m \<Longrightarrow> c_str m = Some (str_of m)"
  by (induction m) (auto simp: str_of_def)

lemma str_of_no_zero [simp]: "0 \<notin> set (str_of m)"
  by (auto simp: str_of_def dest: set_takeWhileD)

lemma str_of_c_str: "c_str m = Some s \<Longrightarrow> str_of m = s"
  using c_str_spec [of m s] c_str_str_of [of m] by auto

lemma str_of_append: "0 \<notin> set s \<Longrightarrow> str_of (s @ 0 # r) = s"
  by (rule str_of_c_str) (rule c_str_append)

lemma str_of_zeros [simp]: "str_of (replicate n 0) = []"
  by (cases n) (simp_all add: str_of_def)

lemma arr_c_str: "arr n m \<Longrightarrow> c_str m = Some (str_of m)"
  by (simp add: arr_def c_str_str_of)

lemma arr_c_strlen: "arr n m \<Longrightarrow> c_strlen m = Some (int (length (str_of m)))"
  by (simp add: arr_c_str c_strlen_c_str)

lemma arr_zeros: "0 < n \<Longrightarrow> arr n (replicate n 0)"
  by (simp add: arr_def)

lemma arr_less: "arr n m \<Longrightarrow> length (str_of m) < n"
  by (induction m arbitrary: n) (force simp: arr_def str_of_def)+

lemma holds_arr: "holds_text m n s \<Longrightarrow> arr n m \<and> str_of m = s"
  using c_str_spec [of m s] by (auto simp: holds_text_def arr_def str_of_c_str)

lemma strcpy_arr:
  assumes "length m = n" "c_str src = Some s" "length s < n"
  obtains m' where "c_strcpy m src = Some m'" "arr n m'" "str_of m' = s"
  using strcpy_text [OF assms] holds_arr by blast

section \<open>Printers\<close>

definition emits :: "(yang_buffer \<Rightarrow> yang_buffer option) \<Rightarrow> u8 list \<Rightarrow> bool" where
  "emits f bs \<longleftrightarrow> (\<forall>b. room b 0 \<longrightarrow> f b = put_bytes b bs)"

lemma emitsD: "emits f bs \<Longrightarrow> room b 0 \<Longrightarrow> f b = put_bytes b bs"
  by (simp add: emits_def)

lemma put_bytes_Nil: "room b 0 \<Longrightarrow> put_bytes b [] = Some b"
  by (simp add: put_bytes_def put_def)

lemma emits_bind:
  assumes "emits f xs" "emits g ys"
  shows "emits (\<lambda>b. f b \<bind> g) (xs @ ys)"
proof -
  have "put_bytes b xs \<bind> g = put_bytes b xs \<bind> (\<lambda>b. put_bytes b ys)" if "room b 0" for b
    using assms(2) by (auto simp: put_bytes_def emits_def room_put)
  then show ?thesis using assms(1) by (simp add: emits_def put_bytes_append)
qed

lemma emits_done: "emits Some []"
  by (simp add: emits_def put_bytes_Nil)

lemma emits_cstring:
  assumes "c_str src = Some s"
  shows "emits (\<lambda>b. yang_write_cstring b src) s"
proof -
  have "length s \<le> length src" "take (length s) src = s" using c_str_spec [OF assms] by auto
  then show ?thesis
    using assms
    by (auto simp: emits_def yang_write_cstring_def c_strlen_c_str yang_write_bytes_def mem_read_def mem_write_def put_bytes_def put_def room_def)
qed

lemma emits_lit: "CHR 0x00 \<notin> set s \<Longrightarrow> emits (\<lambda>b. yang_write_cstring b (lit s)) (ascii s)"
  by (rule emits_cstring) simp

lemma emits_CRLF: "emits (\<lambda>b. yang_write_cstring b kCRLF) [13, 10]"
  by (rule emits_cstring) (simp add: kCRLF_def)

lemma emits_arr: "0 \<in> set m \<Longrightarrow> emits (\<lambda>b. yang_write_cstring b m) (str_of m)"
  by (rule emits_cstring) (rule c_str_str_of)

lemma strlen_str_of: "0 \<in> set m \<Longrightarrow> c_strlen m = Some (int (length (str_of m)))"
  by (simp add: c_str_str_of c_strlen_c_str)

lemma arr_end: "arr n m \<Longrightarrow> 0 \<in> set m"
  by (simp add: arr_def)

text \<open>Numbers of 32 bits fit the array they are printed through.\<close>

definition is_int32 :: "int \<Rightarrow> bool" where
  "is_int32 i \<longleftrightarrow> - (2 ^ 31) \<le> i \<and> i < 2 ^ 31"

lemma is_int32_sint [simp]: "is_int32 (sint (w :: u32))"
  using sint_ge [of w] sint_lt [of w] by (simp add: is_int32_def)

lemma dec_int_length: "is_int32 i \<Longrightarrow> length (dec_int i) \<le> 11"
proof -
  assume i: "is_int32 i"
  have "length (dec_nat (nat \<bar>i\<bar>)) \<le> Suc 9"
    by (rule dec_nat_length) (use i in \<open>simp add: is_int32_def nat_less_iff abs_if\<close>)
  then show ?thesis by (auto simp: dec_int_def)
qed

lemma itoa_arr:
  assumes "is_int32 i"
  obtains m where "yang_itoa i (replicate 32 0) = Some m" "arr 32 m" "str_of m = dec_int i"
proof -
  have l: "length (dec_int i) \<le> 11" by (rule dec_int_length [OF assms])
  let ?m = "dec_int i @ 0 # drop (Suc (length (dec_int i))) (replicate 32 0)"
  have "yang_itoa i (replicate 32 0) = Some ?m" using l by (simp add: yang_itoa_def mem_write_def)
  moreover have "arr 32 ?m" using l by (simp add: arr_def)
  moreover have "str_of ?m = dec_int i" by (rule str_of_append) simp
  ultimately show thesis by (rule that)
qed

lemma emits_int: "is_int32 i \<Longrightarrow> emits (\<lambda>b. write_int b i) (dec_int i)"
  using emits_arr by (fastforce simp: write_int_def arr_def elim: itoa_arr)

lemma emits_bind_eq: "emits f xs \<Longrightarrow> emits g ys \<Longrightarrow> zs = xs @ ys \<Longrightarrow> emits (\<lambda>b. f b \<bind> g) zs"
  by (simp add: emits_bind)

lemma emits_eq: "emits f xs \<Longrightarrow> xs = ys \<Longrightarrow> emits f ys"
  by simp

lemmas emits_rules = emits_bind emits_lit emits_CRLF emits_arr emits_int emits_done

section \<open>Views\<close>

record info_view =
  iv_ufrag :: "u8 list"
  iv_pwd :: "u8 list"
  iv_options :: "u8 list"
  iv_algo :: "u8 list"
  iv_fingerprint :: "u8 list"
  iv_setup :: "u8 list"

definition view_info :: "YangSessionInfo \<Rightarrow> info_view" where
  "view_info i = \<lparr>iv_ufrag = str_of (si_ice_ufrag i), iv_pwd = str_of (si_ice_pwd i), iv_options = str_of (si_ice_options i),
     iv_algo = str_of (si_fingerprint_algo i), iv_fingerprint = str_of (si_fingerprint i), iv_setup = str_of (si_setup i)\<rparr>"

definition info_ok :: "YangSessionInfo \<Rightarrow> bool" where
  "info_ok i \<longleftrightarrow> arr 32 (si_ice_ufrag i) \<and> arr 128 (si_ice_pwd i) \<and> arr 128 (si_ice_options i) \<and> arr 128 (si_fingerprint_algo i)
     \<and> arr 128 (si_fingerprint i) \<and> arr 128 (si_setup i)"

record payload_view =
  pv_type :: int
  pv_name :: "u8 list"
  pv_rate :: int
  pv_param :: "u8 list"
  pv_fmtp :: "u8 list"
  pv_fbs :: "u8 list list"

definition view_payload :: "YangMediaPayloadType \<Rightarrow> payload_view" where
  "view_payload p = \<lparr>pv_type = pt_payload_type p, pv_name = str_of (pt_encoding_name p), pv_rate = pt_clock_rate p,
     pv_param = str_of (pt_encoding_param p), pv_fmtp = str_of (pt_format_specific_param p),
     pv_fbs = map str_of (vec_list (pt_rtcp_fb p))\<rparr>"

definition payload_ok :: "YangMediaPayloadType \<Rightarrow> bool" where
  "payload_ok p \<longleftrightarrow> is_int32 (pt_payload_type p) \<and> is_int32 (pt_clock_rate p) \<and> arr 16 (pt_encoding_name p) \<and> arr 256 (pt_encoding_param p)
     \<and> arr 128 (pt_format_specific_param p) \<and> vec_ok (pt_rtcp_fb p) \<and> (\<forall>m \<in> set (vec_list (pt_rtcp_fb p)). 0 \<in> set m)"

record ssrc_view =
  sv_ssrc :: u32
  sv_cname :: "u8 list"
  sv_msid :: "u8 list"
  sv_tracker :: "u8 list"
  sv_mslabel :: "u8 list"
  sv_label :: "u8 list"

definition view_ssrc :: "YangSSRCInfo \<Rightarrow> ssrc_view" where
  "view_ssrc s = \<lparr>sv_ssrc = ss_ssrc s, sv_cname = str_of (ss_cname s), sv_msid = str_of (ss_msid s), sv_tracker = str_of (ss_msid_tracker s),
     sv_mslabel = str_of (ss_mslabel s), sv_label = str_of (ss_label s)\<rparr>"

definition ssrc_ok :: "YangSSRCInfo \<Rightarrow> bool" where
  "ssrc_ok s \<longleftrightarrow> arr 64 (ss_cname s) \<and> arr 64 (ss_msid s) \<and> arr 64 (ss_msid_tracker s) \<and> arr 64 (ss_mslabel s) \<and> arr 64 (ss_label s)"

record candidate_view =
  cv_port :: int
  cv_ip :: "u8 list"
  cv_type :: "u8 list"

definition view_candidate :: "YangCandidate \<Rightarrow> candidate_view" where
  "view_candidate c = \<lparr>cv_port = cd_port c, cv_ip = str_of (cd_ip c), cv_type = str_of (cd_type c)\<rparr>"

definition candidate_ok :: "YangCandidate \<Rightarrow> bool" where
  "candidate_ok c \<longleftrightarrow> is_int32 (cd_port c) \<and> arr 64 (cd_ip c) \<and> arr 32 (cd_type c)"

definition view_extmap :: "YangExtmap \<Rightarrow> int \<times> u8 list" where
  "view_extmap e = (em_mapid e, str_of (em_extmap e))"

definition extmap_ok :: "YangExtmap \<Rightarrow> bool" where
  "extmap_ok e \<longleftrightarrow> is_int32 (em_mapid e) \<and> arr 128 (em_extmap e)"

record media_view =
  mv_type :: "u8 list"
  mv_port :: int
  mv_protos :: "u8 list"
  mv_payloads :: "payload_view list"
  mv_info :: info_view
  mv_mid :: "u8 list"
  mv_msid :: "u8 list"
  mv_tracker :: "u8 list"
  mv_extmaps :: "(int \<times> u8 list) list"
  mv_sendonly :: bool
  mv_recvonly :: bool
  mv_sendrecv :: bool
  mv_inactive :: bool
  mv_mux :: bool
  mv_rsize :: bool
  mv_ssrcs :: "ssrc_view list"
  mv_sctp :: bool
  mv_candidates :: "candidate_view list"

definition view_media :: "YangMediaDesc \<Rightarrow> media_view" where
  "view_media d = \<lparr>mv_type = str_of (md_type d), mv_port = md_port d, mv_protos = str_of (md_protos d),
     mv_payloads = map view_payload (vec_list (md_payload_types d)), mv_info = view_info (md_session_info d), mv_mid = str_of (md_mid d),
     mv_msid = str_of (md_msid d), mv_tracker = str_of (md_msid_tracker d), mv_extmaps = map view_extmap (vec_list (md_extmaps d)),
     mv_sendonly = (md_sendonly d \<noteq> 0), mv_recvonly = (md_recvonly d \<noteq> 0), mv_sendrecv = (md_sendrecv d \<noteq> 0),
     mv_inactive = (md_inactive d \<noteq> 0), mv_mux = (md_rtcp_mux d \<noteq> 0), mv_rsize = (md_rtcp_rsize d \<noteq> 0),
     mv_ssrcs = map view_ssrc (vec_list (md_ssrc_infos d)), mv_sctp = (md_sctp_port d \<noteq> 0),
     mv_candidates = map view_candidate (vec_list (md_candidates d))\<rparr>"

definition media_ok :: "YangMediaDesc \<Rightarrow> bool" where
  "media_ok d \<longleftrightarrow> is_int32 (md_port d) \<and> arr 16 (md_type d) \<and> arr 64 (md_mid d) \<and> arr 64 (md_msid d) \<and> arr 64 (md_msid_tracker d)
     \<and> arr 64 (md_protos d) \<and> info_ok (md_session_info d)
     \<and> vec_ok (md_payload_types d) \<and> (\<forall>p \<in> set (vec_list (md_payload_types d)). payload_ok p)
     \<and> vec_ok (md_extmaps d) \<and> (\<forall>e \<in> set (vec_list (md_extmaps d)). extmap_ok e)
     \<and> vec_ok (md_ssrc_infos d) \<and> (\<forall>s \<in> set (vec_list (md_ssrc_infos d)). ssrc_ok s)
     \<and> vec_ok (md_candidates d) \<and> (\<forall>c \<in> set (vec_list (md_candidates d)). candidate_ok c) \<and> vec_ok (md_ssrc_groups d)"

lemma vec_all_ok: "vec_ok v \<Longrightarrow> vec_all v = Some (vec_list v)"
  by (auto simp: vec_all_def vec_ok_def vec_list_def mem_read_def)

section \<open>Lines\<close>

definition named_line :: "string \<Rightarrow> u8 list \<Rightarrow> u8 list list" where
  "named_line name text = (if text = [] then [] else [ascii name @ text])"

definition info_lines :: "info_view \<Rightarrow> u8 list list" where
  "info_lines i = named_line ''a=ice-ufrag:'' (iv_ufrag i) @ named_line ''a=ice-pwd:'' (iv_pwd i) @ named_line ''a=ice-options:'' (iv_options i)
     @ (if iv_algo i \<noteq> [] \<and> iv_fingerprint i \<noteq> [] then [ascii ''a=fingerprint:'' @ iv_algo i @ [32] @ iv_fingerprint i] else [])
     @ named_line ''a=setup:'' (iv_setup i)"

definition payload_lines :: "payload_view \<Rightarrow> u8 list list" where
  "payload_lines p =
     (ascii ''a=rtpmap:'' @ dec_int (pv_type p) @ [32] @ pv_name p @ [47] @ dec_int (pv_rate p) @ (if pv_param p = [] then [] else 47 # pv_param p))
     # map (\<lambda>f. ascii ''a=rtcp-fb:'' @ dec_int (pv_type p) @ [32] @ f) (pv_fbs p)
     @ (if pv_fmtp p = [] then [] else [ascii ''a=fmtp:'' @ dec_int (pv_type p) @ [32] @ pv_fmtp p])"

definition ssrc_line :: "u32 \<Rightarrow> string \<Rightarrow> u8 list \<Rightarrow> u8 list" where
  "ssrc_line s name text = ascii ''a=ssrc:'' @ dec_int (sint s) @ [32] @ ascii name @ [58] @ text"

definition ssrc_lines :: "ssrc_view \<Rightarrow> u8 list list" where
  "ssrc_lines s = ssrc_line (sv_ssrc s) ''cname'' (sv_cname s)
     # (if sv_msid s = [] then []
        else [ssrc_line (sv_ssrc s) ''msid'' (sv_msid s @ (if sv_tracker s = [] then [] else 32 # sv_tracker s))])
     @ (if sv_mslabel s = [] then [] else [ssrc_line (sv_ssrc s) ''mslabel'' (sv_mslabel s)])
     @ (if sv_label s = [] then [] else [ssrc_line (sv_ssrc s) ''label'' (sv_label s)])"

definition candidate_line :: "int \<Rightarrow> candidate_view \<Rightarrow> u8 list" where
  "candidate_line foundation c = ascii ''a=candidate:'' @ dec_int foundation @ [32] @ dec_int 1 @ ascii '' udp '' @ dec_int candidate_priority
     @ [32] @ cv_ip c @ [32] @ dec_int (cv_port c) @ ascii '' typ '' @ cv_type c @ ascii '' generation 0''"

definition candidate_lines :: "candidate_view list \<Rightarrow> u8 list list" where
  "candidate_lines cs = map (\<lambda>(i, c). candidate_line (int i) c) (enumerate 0 cs)"

definition flag_line :: "bool \<Rightarrow> string \<Rightarrow> u8 list list" where
  "flag_line flag name = (if flag then [ascii name] else [])"

definition media_line :: "media_view \<Rightarrow> u8 list" where
  "media_line v = ascii ''m='' @ mv_type v @ [32] @ dec_int (mv_port v) @ [32] @ mv_protos v
     @ concat (map (\<lambda>p. 32 # dec_int (pv_type p)) (mv_payloads v))"

definition msid_lines :: "u8 list \<Rightarrow> u8 list \<Rightarrow> u8 list list" where
  "msid_lines msid tracker = (if msid = [] then [] else [ascii ''a=msid:'' @ msid @ (if tracker = [] then [] else 32 # tracker)])"

definition extmap_line :: "int \<times> u8 list \<Rightarrow> u8 list" where
  "extmap_line e = ascii ''a=extmap:'' @ dec_int (fst e) @ [32] @ snd e"

definition media_lines :: "media_view \<Rightarrow> u8 list list" where
  "media_lines v = [media_line v, ascii ''c=IN IP4 0.0.0.0''] @ info_lines (mv_info v) @ [ascii ''a=mid:'' @ mv_mid v]
     @ msid_lines (mv_msid v) (mv_tracker v) @ map extmap_line (mv_extmaps v)
     @ flag_line (mv_sendonly v) ''a=sendonly'' @ flag_line (mv_recvonly v) ''a=recvonly'' @ flag_line (mv_sendrecv v) ''a=sendrecv''
     @ flag_line (mv_inactive v) ''a=inactive'' @ flag_line (mv_mux v) ''a=rtcp-mux'' @ flag_line (mv_rsize v) ''a=rtcp-rsize''
     @ concat (map payload_lines (mv_payloads v)) @ concat (map ssrc_lines (mv_ssrcs v)) @ flag_line (mv_sctp v) ''a=sctp-port:5000''
     @ candidate_lines (mv_candidates v)"

definition crlf :: "u8 list list \<Rightarrow> u8 list" where
  "crlf ls = concat (map (\<lambda>l. l @ [13, 10]) ls)"

lemma crlf_simps [simp]: "crlf [] = []" "crlf (l # ls) = l @ 13 # 10 # crlf ls" "crlf (ls @ ks) = crlf ls @ crlf ks"
  by (simp_all add: crlf_def)

section \<open>What is printed\<close>

lemma emits_if: "(c \<Longrightarrow> emits f xs) \<Longrightarrow> (\<not> c \<Longrightarrow> emits g ys) \<Longrightarrow> emits (if c then f else g) (if c then xs else ys)"
  by simp

text \<open>A printer with a return code, which is always \<open>Yang_Ok\<close>\<close>

definition emits_ok :: "(yang_buffer \<Rightarrow> (errcode \<times> yang_buffer) option) \<Rightarrow> u8 list \<Rightarrow> bool" where
  "emits_ok f bs \<longleftrightarrow> (\<forall>b. room b 0 \<longrightarrow> f b = map_option (Pair Yang_Ok) (put_bytes b bs))"

lemma emits_ok_bind:
  assumes "emits f xs" "emits_ok g ys"
  shows "emits_ok (\<lambda>b. f b \<bind> g) (xs @ ys)"
proof -
  have "put_bytes b xs \<bind> g = map_option (Pair Yang_Ok) (put_bytes b (xs @ ys))" if "room b 0" for b
    using assms(2) by (auto simp: put_bytes_def emits_ok_def room_put put_put room_addD)
  then show ?thesis using assms(1) by (simp add: emits_def emits_ok_def)
qed

lemma emits_ok_done: "emits_ok (\<lambda>b. Some (Yang_Ok, b)) []"
  by (simp add: emits_ok_def put_bytes_Nil)

lemma emits_ok_step:
  assumes "emits_ok f xs" "emits_ok g ys"
  shows "emits_ok (\<lambda>b. f b \<bind> (\<lambda>(err, b). if err \<noteq> Yang_Ok then h err b else g b)) (xs @ ys)"
proof -
  have "map_option (Pair Yang_Ok) (put_bytes b xs) \<bind> (\<lambda>(err, b). if err \<noteq> Yang_Ok then h err b else g b)
      = map_option (Pair Yang_Ok) (put_bytes b (xs @ ys))" if "room b 0" for b
    using assms(2) by (auto simp: put_bytes_def emits_ok_def room_put put_put room_addD)
  then show ?thesis using assms(1) by (simp add: emits_ok_def)
qed

lemma emits_ok_eq: "emits_ok f xs \<Longrightarrow> xs = ys \<Longrightarrow> emits_ok f ys"
  by simp

text \<open>The condition of a line does not depend on the buffer.\<close>

lemma emits_cond: "(c \<Longrightarrow> emits f xs) \<Longrightarrow> (\<not> c \<Longrightarrow> emits g ys) \<Longrightarrow> emits (\<lambda>b. if c then f b else g b) (if c then xs else ys)"
  by simp

lemma emits_attribute:
  assumes "0 \<in> set m" "CHR 0x00 \<notin> set name"
  shows "emits (\<lambda>b. write_attribute name m b) (crlf (named_line name (str_of m)))"
proof (cases "str_of m = []")
  case True
  then show ?thesis using assms by (simp add: write_attribute_def strlen_str_of named_line_def emits_done)
next
  case False
  have "emits (\<lambda>os. yang_write_cstring os (lit name) \<bind> (\<lambda>os. yang_write_cstring os m \<bind> (\<lambda>os. yang_write_cstring os kCRLF)))
      (ascii name @ str_of m @ [13, 10])"
    by (intro emits_rules assms)
  then show ?thesis using assms False by (simp add: write_attribute_def strlen_str_of named_line_def)
qed

lemma emits_flag: "CHR 0x00 \<notin> set name \<Longrightarrow> emits (\<lambda>b. write_flag flag name b) (crlf (flag_line (flag \<noteq> 0) name))"
proof -
  assume n: "CHR 0x00 \<notin> set name"
  have "emits (\<lambda>os. yang_write_cstring os (lit name) \<bind> (\<lambda>os. yang_write_cstring os kCRLF)) (ascii name @ [13, 10])"
    by (intro emits_rules n)
  then show ?thesis by (simp add: write_flag_def flag_line_def emits_done)
qed

lemmas text_rules = emits_ok_bind emits_ok_step emits_ok_done emits_attribute emits_flag emits_cond emits_bind emits_CRLF emits_lit
  emits_int emits_arr emits_done

lemma encode_sessionInfo_text:
  assumes "info_ok i"
  shows "emits_ok (yang_encode_sessionInfo i) (crlf (info_lines (view_info i)))"
proof -
  have a: "0 \<in> set (si_ice_ufrag i)" "0 \<in> set (si_ice_pwd i)" "0 \<in> set (si_ice_options i)" "0 \<in> set (si_fingerprint_algo i)"
    "0 \<in> set (si_fingerprint i)" "0 \<in> set (si_setup i)" using assms by (simp_all add: info_ok_def arr_def)
  show ?thesis
    unfolding yang_encode_sessionInfo_def [abs_def] strlen_str_of [OF a(4)] strlen_str_of [OF a(5)] bind.bind_lunit
    by (rule emits_ok_eq, (rule text_rules | simp add: a; fail)+) (simp add: info_lines_def view_info_def)
qed


lemma rtcp_fb_text:
  assumes "is_int32 n" "\<forall>m \<in> set fs. 0 \<in> set m"
  shows "emits (rtcp_fb_loop n fs) (crlf (map (\<lambda>f. ascii ''a=rtcp-fb:'' @ dec_int n @ [32] @ f) (map str_of fs)))"
  using assms(2)
proof (induction fs)
  case (Cons f fs)
  then have IH: "emits (rtcp_fb_loop n fs) (crlf (map (\<lambda>f. ascii ''a=rtcp-fb:'' @ dec_int n @ [32] @ f) (map str_of fs)))" and f: "0 \<in> set f"
    by simp_all
  show ?case
    unfolding rtcp_fb_loop.simps
    by (rule emits_eq, (rule text_rules IH | simp add: f assms(1); fail)+)
qed (simp add: emits_def put_bytes_Nil)

lemma encode_payload_text:
  assumes "payload_ok p"
  shows "emits_ok (yang_encode_mediapayloadtype p) (crlf (payload_lines (view_payload p)))"
proof -
  have a: "is_int32 (pt_payload_type p)" "is_int32 (pt_clock_rate p)" "0 \<in> set (pt_encoding_name p)" "0 \<in> set (pt_encoding_param p)"
    "0 \<in> set (pt_format_specific_param p)" using assms by (simp_all add: payload_ok_def arr_def)
  have v: "vec_all (pt_rtcp_fb p) = Some (vec_list (pt_rtcp_fb p))" "\<forall>m \<in> set (vec_list (pt_rtcp_fb p)). 0 \<in> set m"
    using assms by (simp_all add: payload_ok_def vec_all_ok)
  note fb = rtcp_fb_text [OF a(1) v(2)]
  show ?thesis
    unfolding yang_encode_mediapayloadtype_def [abs_def] strlen_str_of [OF a(4)] strlen_str_of [OF a(5)] v(1) bind.bind_lunit
    by (rule emits_ok_eq, (rule text_rules fb | simp add: a; fail)+) (simp add: payload_lines_def view_payload_def)
qed

lemma encode_ssrc_text:
  assumes "ssrc_ok s" "ss_ssrc s \<noteq> 0"
  shows "emits_ok (yang_encode_ssrcinfo s) (crlf (ssrc_lines (view_ssrc s)))"
proof -
  have a: "0 \<in> set (ss_cname s)" "0 \<in> set (ss_msid s)" "0 \<in> set (ss_msid_tracker s)" "0 \<in> set (ss_mslabel s)" "0 \<in> set (ss_label s)"
    using assms by (simp_all add: ssrc_ok_def arr_def)
  obtain m where m: "yang_itoa (sint (ss_ssrc s)) (replicate 32 0) = Some m" "0 \<in> set m" "str_of m = dec_int (sint (ss_ssrc s))"
    by (rule itoa_arr [OF is_int32_sint]) (auto simp: arr_def)
  have c: "ascii '' cname:'' = 32 # ascii ''cname'' @ [58]" "ascii '' msid:'' = 32 # ascii ''msid'' @ [58]"
    "ascii '' mslabel:'' = 32 # ascii ''mslabel'' @ [58]" "ascii '' label:'' = 32 # ascii ''label'' @ [58]" by (simp_all add: ascii_def)
  have n: "(if ss_ssrc s = 0 then x else y) = y" for x y :: 'a using assms(2) by simp
  show ?thesis
    unfolding yang_encode_ssrcinfo_def [abs_def] n m(1) strlen_str_of [OF a(2)] strlen_str_of [OF a(3)] strlen_str_of [OF a(4)]
      strlen_str_of [OF a(5)] bind.bind_lunit
    by (rule emits_ok_eq, (rule text_rules | simp add: a m(2); fail)+) (simp add: ssrc_lines_def ssrc_line_def view_ssrc_def m(3) c)
qed

lemma payload_numbers_text:
  "\<forall>p \<in> set ps. payload_ok p \<Longrightarrow>
     emits (payload_numbers_loop ps) (concat (map (\<lambda>p. 32 # dec_int (pv_type p)) (map view_payload ps)))"
proof (induction ps)
  case (Cons p ps)
  then have IH: "emits (payload_numbers_loop ps) (concat (map (\<lambda>p. 32 # dec_int (pv_type p)) (map view_payload ps)))"
    and p: "is_int32 (pt_payload_type p)" by (simp_all add: payload_ok_def)
  show ?case
    unfolding payload_numbers_loop.simps
    by (rule emits_eq, (rule text_rules IH p | simp; fail)+) (simp add: view_payload_def [of p])
qed (simp add: emits_def put_bytes_Nil)

lemma extmap_text: "\<forall>e \<in> set es. extmap_ok e \<Longrightarrow> emits (extmap_loop es) (crlf (map extmap_line (map view_extmap es)))"
proof (induction es)
  case (Cons e es)
  then have IH: "emits (extmap_loop es) (crlf (map extmap_line (map view_extmap es)))"
    and e: "is_int32 (em_mapid e)" "0 \<in> set (em_extmap e)" by (simp_all add: extmap_ok_def arr_def)
  show ?case
    unfolding extmap_loop.simps
    by (rule emits_eq, (rule text_rules IH | simp add: e; fail)+) (simp add: view_extmap_def [of e] extmap_line_def [of "(_, _)"])
qed (simp add: emits_def put_bytes_Nil)

lemma payload_types_text:
  "\<forall>p \<in> set ps. payload_ok p \<Longrightarrow> emits_ok (payload_types_loop ps) (crlf (concat (map payload_lines (map view_payload ps))))"
proof (induction ps)
  case (Cons p ps)
  then have IH: "emits_ok (payload_types_loop ps) (crlf (concat (map payload_lines (map view_payload ps))))"
    and p: "emits_ok (yang_encode_mediapayloadtype p) (crlf (payload_lines (view_payload p)))" by (simp_all add: encode_payload_text)
  show ?case
    unfolding payload_types_loop.simps
    by (rule emits_ok_eq, rule emits_ok_step, rule p, rule IH) simp
qed (simp add: emits_ok_def put_bytes_Nil)

lemma ssrc_infos_text:
  "\<forall>s \<in> set ss. ssrc_ok s \<and> ss_ssrc s \<noteq> 0 \<Longrightarrow> emits_ok (ssrc_infos_loop ss) (crlf (concat (map ssrc_lines (map view_ssrc ss))))"
proof (induction ss)
  case (Cons s ss)
  then have IH: "emits_ok (ssrc_infos_loop ss) (crlf (concat (map ssrc_lines (map view_ssrc ss))))"
    and s: "emits_ok (yang_encode_ssrcinfo s) (crlf (ssrc_lines (view_ssrc s)))" by (simp_all add: encode_ssrc_text)
  show ?case
    unfolding ssrc_infos_loop.simps
    by (rule emits_ok_eq, rule emits_ok_step, rule s, rule IH) simp
qed (simp add: emits_ok_def put_bytes_Nil)

lemma priority_int32: "is_int32 candidate_priority" "is_int32 1"
  by (simp_all add: is_int32_def candidate_priority_def)

lemma candidates_text:
  assumes "\<forall>c \<in> set cs. candidate_ok c" "is_int32 (int k + int (length cs))"
  shows "emits (candidates_loop (int k) cs) (crlf (map (\<lambda>(i, c). candidate_line (int i) c) (enumerate k (map view_candidate cs))))"
  using assms
proof (induction cs arbitrary: k)
  case (Cons c cs)
  have IH: "emits (candidates_loop (int k + 1) cs) (crlf (map (\<lambda>(i, c). candidate_line (int i) c) (enumerate (Suc k) (map view_candidate cs))))"
    using Cons.IH [of "Suc k"] Cons.prems by (simp add: ac_simps)
  have c: "is_int32 (cd_port c)" "0 \<in> set (cd_ip c)" "0 \<in> set (cd_type c)" using Cons.prems by (simp_all add: candidate_ok_def arr_def)
  have k: "is_int32 (int k)" using Cons.prems(2) by (simp add: is_int32_def)
  show ?case
    unfolding candidates_loop.simps
    by (rule emits_eq, (rule text_rules IH k priority_int32 | simp add: c; fail)+) (simp add: view_candidate_def [of c] candidate_line_def [of "int k"])
qed (simp add: emits_def put_bytes_Nil)

lemma encode_mediadesc_text:
  assumes "media_ok d" "\<forall>s \<in> set (vec_list (md_ssrc_infos d)). ss_ssrc s \<noteq> 0" "is_int32 (vsize (md_candidates d))"
  shows "emits_ok (yang_encode_mediadesc d) (crlf (media_lines (view_media d)))"
proof -
  note ok = assms(1) [unfolded media_ok_def]
  have a: "is_int32 (md_port d)" "0 \<in> set (md_type d)" "0 \<in> set (md_protos d)" "0 \<in> set (md_mid d)" "0 \<in> set (md_msid d)"
    "0 \<in> set (md_msid_tracker d)" using ok by (simp_all add: arr_def)
  have v: "vec_all (md_payload_types d) = Some (vec_list (md_payload_types d))" "vec_all (md_extmaps d) = Some (vec_list (md_extmaps d))"
    "vec_all (md_ssrc_infos d) = Some (vec_list (md_ssrc_infos d))" "vec_all (md_candidates d) = Some (vec_list (md_candidates d))"
    using ok by (simp_all add: vec_all_ok)
  have p: "emits (payload_numbers_loop (vec_list (md_payload_types d)))
      (concat (map (\<lambda>p. 32 # dec_int (pv_type p)) (map view_payload (vec_list (md_payload_types d)))))"
    using ok by (intro payload_numbers_text) simp
  have e: "emits (extmap_loop (vec_list (md_extmaps d))) (crlf (map extmap_line (map view_extmap (vec_list (md_extmaps d)))))"
    using ok by (intro extmap_text) simp
  have t: "emits_ok (payload_types_loop (vec_list (md_payload_types d))) (crlf (concat (map payload_lines (map view_payload (vec_list (md_payload_types d))))))"
    using ok by (intro payload_types_text) simp
  have s: "emits_ok (ssrc_infos_loop (vec_list (md_ssrc_infos d))) (crlf (concat (map ssrc_lines (map view_ssrc (vec_list (md_ssrc_infos d))))))"
    using ok assms(2) by (intro ssrc_infos_text) simp
  have i: "emits_ok (yang_encode_sessionInfo (md_session_info d)) (crlf (info_lines (view_info (md_session_info d))))"
    using ok by (intro encode_sessionInfo_text) simp
  have c: "emits (candidates_loop 0 (vec_list (md_candidates d))) (crlf (candidate_lines (map view_candidate (vec_list (md_candidates d)))))"
    using candidates_text [of "vec_list (md_candidates d)" 0] ok assms(3) length_vec_list [of "md_candidates d"]
    by (simp add: candidate_lines_def)
  show ?thesis
    unfolding yang_encode_mediadesc_def [abs_def] strlen_str_of [OF a(5)] strlen_str_of [OF a(6)] v bind.bind_lunit
    by (rule emits_ok_eq, (rule p e t s i c text_rules | simp add: a; fail)+)
       (simp add: media_lines_def media_line_def view_media_def msid_lines_def)
qed

section \<open>The whole description\<close>

record sdp_view =
  dv_version :: "u8 list"
  dv_username :: "u8 list"
  dv_session_id :: "u8 list"
  dv_session_version :: "u8 list"
  dv_nettype :: "u8 list"
  dv_addrtype :: "u8 list"
  dv_address :: "u8 list"
  dv_name :: "u8 list"
  dv_start :: int
  dv_end :: int
  dv_policy :: "u8 list"
  dv_groups :: "u8 list list"
  dv_semantic :: "u8 list"
  dv_msids :: "u8 list list"
  dv_info :: info_view
  dv_media :: "media_view list"

definition view_sdp :: "YangSdp \<Rightarrow> sdp_view" where
  "view_sdp d = \<lparr>dv_version = str_of (sd_version d), dv_username = str_of (sd_username d), dv_session_id = str_of (sd_session_id d),
     dv_session_version = str_of (sd_session_version d), dv_nettype = str_of (sd_nettype d), dv_addrtype = str_of (sd_addrtype d),
     dv_address = str_of (sd_unicast_address d), dv_name = str_of (sd_session_name d), dv_start = sd_start_time d, dv_end = sd_end_time d,
     dv_policy = str_of (sd_group_policy d), dv_groups = map str_of (vec_list (sd_groups d)), dv_semantic = str_of (sd_msid_semantic d),
     dv_msids = map str_of (vec_list (sd_msids d)), dv_info = view_info (sd_session_info d),
     dv_media = map view_media (vec_list (sd_media_descs d))\<rparr>"

definition strings_ok :: "YangStringVector \<Rightarrow> bool" where
  "strings_ok v \<longleftrightarrow> vec_ok v \<and> (\<forall>m \<in> set (vec_list v). 0 \<in> set m)"

definition sdp_ok :: "YangSdp \<Rightarrow> bool" where
  "sdp_ok d \<longleftrightarrow> arr 16 (sd_version d) \<and> arr 128 (sd_username d) \<and> arr 32 (sd_session_id d) \<and> arr 128 (sd_session_version d)
     \<and> arr 16 (sd_nettype d) \<and> arr 32 (sd_addrtype d) \<and> arr 32 (sd_unicast_address d) \<and> arr 64 (sd_session_name d)
     \<and> arr 16 (sd_group_policy d) \<and> arr 64 (sd_msid_semantic d) \<and> info_ok (sd_session_info d) \<and> strings_ok (sd_groups d)
     \<and> strings_ok (sd_msids d) \<and> vec_ok (sd_media_descs d) \<and> (\<forall>m \<in> set (vec_list (sd_media_descs d)). media_ok m)"

definition origin_text :: "sdp_view \<Rightarrow> u8 list" where
  "origin_text v = dv_username v @ [32] @ dv_session_id v @ [32] @ dv_session_version v @ [32] @ dv_nettype v @ [32] @ dv_addrtype v
     @ [32] @ dv_address v"

definition semantic_line :: "u8 list \<Rightarrow> u8 list list \<Rightarrow> u8 list" where
  "semantic_line s names = ascii ''a=msid-semantic: '' @ s @ concat (map (Cons 32) names)"

definition head_lines :: "sdp_view \<Rightarrow> u8 list list" where
  "head_lines v = [ascii ''v='' @ dv_version v, ascii ''o='' @ origin_text v, ascii ''s='' @ dv_name v,
     ascii ''t='' @ dec_int (dv_start v) @ [32] @ dec_int (dv_end v), ascii ''a=ice-lite'']
     @ (if dv_groups v = [] then [ascii ''a=group:'' @ dv_policy v] else []) @ [semantic_line (dv_semantic v) (dv_msids v)]"

definition sdp_lines :: "sdp_view \<Rightarrow> u8 list list" where
  "sdp_lines v = head_lines v @ info_lines (dv_info v) @ concat (map media_lines (dv_media v))"

lemma sprintf_text:
  assumes "holds_text tmp n s" "0 \<notin> set t" "length (s @ t) < n"
  obtains tmp' where "sprintf_at tmp (int (length s)) t = Some tmp'" "holds_text tmp' n (s @ t)"
proof -
  obtain r where r: "tmp = s @ 0 # r" "0 \<notin> set s" using c_str_spec [of tmp s] assms(1) by (auto simp: holds_text_def)
  let ?t = "take (length s) tmp @ (t @ [0]) @ drop (length s + length (t @ [0])) tmp"
  have "sprintf_at tmp (int (length s)) t = Some ?t"
    using assms(1,3) by (simp add: sprintf_at_def mem_write_def holds_text_def)
  moreover have "c_str ((s @ t) @ 0 # drop (length t) r) = Some (s @ t)" using assms(2) r(2) by (intro c_str_append) simp
  then have "holds_text ?t n (s @ t)" using assms(1,3) r(1) by (simp add: holds_text_def)
  ultimately show thesis by (rule that)
qed

lemma sprintf_first:
  assumes "0 \<notin> set t" "length t < n"
  obtains tmp' where "sprintf_at (replicate n 0) 0 t = Some tmp'" "holds_text tmp' n t"
  using sprintf_text [OF holds_zero [of n] assms(1)] assms(2) by force

lemma holds_strlen: "holds_text m n s \<Longrightarrow> c_strlen m = Some (int (length s))"
  by (simp add: holds_text_def c_strlen_c_str)

lemma sprintf_names_text:
  assumes "holds_text tmp n s" "\<forall>m \<in> set ns. 0 \<in> set m" "length (s @ concat (map (Cons 32) (map str_of ns))) < n"
  shows "\<exists>tmp'. sprintf_names tmp ns = Some tmp' \<and> holds_text tmp' n (s @ concat (map (Cons 32) (map str_of ns)))"
  using assms
proof (induction ns arbitrary: tmp s)
  case (Cons m ns)
  obtain t1 where t1: "sprintf_at tmp (int (length s)) (ascii '' '' @ str_of m) = Some t1" "holds_text t1 n (s @ ascii '' '' @ str_of m)"
    by (rule sprintf_text [OF Cons.prems(1), of "ascii '' '' @ str_of m"]) (use Cons.prems(3) in auto)
  have "\<exists>tmp'. sprintf_names t1 ns = Some tmp' \<and> holds_text tmp' n ((s @ ascii '' '' @ str_of m) @ concat (map (Cons 32) (map str_of ns)))"
    by (rule Cons.IH [OF t1(2)]) (use Cons.prems(2,3) in simp_all)
  then show ?case using Cons.prems(1,2) t1(1) by (simp add: holds_strlen c_str_str_of)
qed simp

lemma media_descs_text:
  assumes "\<forall>d \<in> set ds. media_ok d \<and> (\<forall>s \<in> set (vec_list (md_ssrc_infos d)). ss_ssrc s \<noteq> 0) \<and> is_int32 (vsize (md_candidates d))"
  shows "emits_ok (media_descs_loop ds) (crlf (concat (map media_lines (map view_media ds))))"
  using assms
proof (induction ds)
  case (Cons d ds)
  then have IH: "emits_ok (media_descs_loop ds) (crlf (concat (map media_lines (map view_media ds))))"
    and d: "emits_ok (yang_encode_mediadesc d) (crlf (media_lines (view_media d)))" by (simp_all add: encode_mediadesc_text)
  show ?case
    unfolding media_descs_loop.simps
    by (rule emits_ok_eq, rule emits_ok_step, rule d, rule IH) simp
qed (simp add: emits_ok_def put_bytes_Nil)

text \<open>What a description can be printed for\<close>

definition printable :: "YangSdp \<Rightarrow> bool" where
  "printable d \<longleftrightarrow> sdp_ok d \<and> length (crlf (head_lines (view_sdp d))) < 2048
     \<and> (\<forall>m \<in> set (vec_list (sd_media_descs d)). (\<forall>s \<in> set (vec_list (md_ssrc_infos m)). ss_ssrc s \<noteq> 0) \<and> is_int32 (vsize (md_candidates m)))"

text \<open>What is appended to the string in an array of \<open>n\<close> characters, as long as it fits\<close>

definition appends :: "nat \<Rightarrow> (u8 list \<Rightarrow> u8 list option) \<Rightarrow> u8 list \<Rightarrow> bool" where
  "appends n f s \<longleftrightarrow> (\<forall>tmp t. holds_text tmp n t \<and> length (t @ s) < n \<longrightarrow> (\<exists>tmp'. f tmp = Some tmp' \<and> holds_text tmp' n (t @ s)))"

lemma appends_done: "appends n Some []"
  by (simp add: appends_def)

lemma appends_print:
  assumes "0 \<notin> set s" "appends n g u"
  shows "appends n (\<lambda>tmp. yang_rtcsdp_getnull tmp \<bind> (\<lambda>p. sprintf_at tmp p s \<bind> g)) (s @ u)"
  unfolding appends_def
proof (intro allI impI)
  fix tmp t
  assume a: "holds_text tmp n t \<and> length (t @ s @ u) < n"
  obtain t1 where t1: "sprintf_at tmp (int (length t)) s = Some t1" "holds_text t1 n (t @ s)"
    by (rule sprintf_text [of tmp n t s]) (use a assms(1) in simp_all)
  then show "\<exists>tmp'. yang_rtcsdp_getnull tmp \<bind> (\<lambda>p. sprintf_at tmp p s \<bind> g) = Some tmp' \<and> holds_text tmp' n (t @ s @ u)"
    using assms(2) a holds_strlen [of tmp n t] by (force simp: appends_def yang_rtcsdp_getnull_def)
qed

lemma appends_last: "0 \<notin> set s \<Longrightarrow> appends n (\<lambda>tmp. yang_rtcsdp_getnull tmp \<bind> (\<lambda>p. sprintf_at tmp p s)) s"
  using appends_print [OF _ appends_done, of s n] by simp

lemma appends_bind:
  assumes "appends n f s" "appends n g u"
  shows "appends n (\<lambda>tmp. f tmp \<bind> g) (s @ u)"
  unfolding appends_def
proof (intro allI impI)
  fix tmp t
  assume a: "holds_text tmp n t \<and> length (t @ s @ u) < n"
  then obtain t1 where "f tmp = Some t1" "holds_text t1 n (t @ s)" using assms(1) by (force simp: appends_def)
  then show "\<exists>tmp'. f tmp \<bind> g = Some tmp' \<and> holds_text tmp' n (t @ s @ u)" using assms(2) a by (force simp: appends_def)
qed

lemma appends_names: "\<forall>m \<in> set ns. 0 \<in> set m \<Longrightarrow> appends n (\<lambda>tmp. sprintf_names tmp ns) (concat (map (Cons 32) (map str_of ns)))"
  using sprintf_names_text by (fastforce simp: appends_def)

lemma appends_cond: "appends n f s \<Longrightarrow> appends n (\<lambda>tmp. if c then f tmp else Some tmp) (if c then s else [])"
  using appends_done by simp

lemma appends_eq: "appends n f s \<Longrightarrow> s = t \<Longrightarrow> appends n f t"
  by simp

lemma sdp_head_text:
  assumes "sdp_ok d"
  shows "sdp_head d = Some (crlf [ascii ''v='' @ dv_version (view_sdp d), ascii ''o='' @ origin_text (view_sdp d), ascii ''s='' @ dv_name (view_sdp d),
     ascii ''t='' @ dec_int (dv_start (view_sdp d)) @ [32] @ dec_int (dv_end (view_sdp d)), ascii ''a=ice-lite''])"
  using assms
  by (simp add: sdp_ok_def sdp_head_def arr_c_str [where n = 16] arr_c_str [where n = 128] arr_c_str [where n = 32] arr_c_str [where n = 64]
      view_sdp_def origin_text_def)

lemma sdp_tmp_text:
  assumes "sdp_ok d" "length (crlf (head_lines (view_sdp d))) < 2048"
  shows "\<exists>tmp. sdp_tmp d = Some tmp \<and> holds_text tmp 2048 (crlf (head_lines (view_sdp d)))"
proof -
  let ?v = "view_sdp d"
  note ok = assms(1) [unfolded sdp_ok_def strings_ok_def]
  let ?h5 = "crlf [ascii ''v='' @ dv_version ?v, ascii ''o='' @ origin_text ?v, ascii ''s='' @ dv_name ?v,
     ascii ''t='' @ dec_int (dv_start ?v) @ [32] @ dec_int (dv_end ?v), ascii ''a=ice-lite'']"
  have z: "0 \<notin> set ?h5" by (simp add: view_sdp_def origin_text_def)
  have ends: "0 \<in> set (sd_group_policy d)" "0 \<in> set (sd_msid_semantic d)" using ok by (simp_all add: arr_def)
  have vs: "vec_all (sd_groups d) = Some (vec_list (sd_groups d))" "vec_all (sd_msids d) = Some (vec_list (sd_msids d))"
    using ok by (simp_all add: vec_all_ok)
  have names: "\<forall>m \<in> set (vec_list (sd_groups d)). 0 \<in> set m" "\<forall>m \<in> set (vec_list (sd_msids d)). 0 \<in> set m" using ok by simp_all
  have empty: "vsize (sd_groups d) = 0 \<longleftrightarrow> vec_list (sd_groups d) = []"
    using ok length_vec_list [of "sd_groups d"] by auto
  let ?g = "\<lambda>tmp. if vsize (sd_groups d) = 0 then do {
       p \<leftarrow> yang_rtcsdp_getnull tmp;
       tmp \<leftarrow> sprintf_at tmp p (ascii ''a=group:'' @ str_of (sd_group_policy d));
       tmp \<leftarrow> sprintf_names tmp (vec_list (sd_groups d));
       p \<leftarrow> yang_rtcsdp_getnull tmp;
       sprintf_at tmp p [13, 10]
     } else Some tmp"
  let ?s = "\<lambda>tmp. do {
       p \<leftarrow> yang_rtcsdp_getnull tmp;
       tmp \<leftarrow> sprintf_at tmp p (ascii ''a=msid-semantic: '' @ str_of (sd_msid_semantic d));
       tmp \<leftarrow> sprintf_names tmp (vec_list (sd_msids d));
       p \<leftarrow> yang_rtcsdp_getnull tmp;
       sprintf_at tmp p [13, 10]
     }"
  let ?r = "(if vec_list (sd_groups d) = [] then crlf [ascii ''a=group:'' @ str_of (sd_group_policy d)] else [])
     @ crlf [semantic_line (str_of (sd_msid_semantic d)) (map str_of (vec_list (sd_msids d)))]"
  have app: "appends 2048 (\<lambda>tmp. ?g tmp \<bind> ?s) ?r"
    by (rule appends_eq, (rule appends_cond appends_print appends_last appends_names [OF names(1)] appends_names [OF names(2)] appends_bind | simp; fail)+)
       (simp add: empty semantic_line_def)
  have h: "crlf (head_lines ?v) = ?h5 @ ?r" by (simp add: head_lines_def view_sdp_def)
  have l: "length (?h5 @ ?r) < 2048" using assms(2) unfolding h .
  have "length ?h5 < 2048" using l unfolding length_append by (rule add_lessD1)
  then obtain t1 where t1: "sprintf_at (replicate 2048 0) 0 ?h5 = Some t1" "holds_text t1 2048 ?h5" by (rule sprintf_first [OF z])
  have "\<exists>tmp. ?g t1 \<bind> ?s = Some tmp \<and> holds_text tmp 2048 (?h5 @ ?r)"
    using app t1(2) l unfolding appends_def by blast
  then obtain tmp where "?g t1 \<bind> ?s = Some tmp" "holds_text tmp 2048 (crlf (head_lines ?v))"
    unfolding h by blast
  then show ?thesis
    unfolding sdp_tmp_def sdp_head_text [OF assms(1)] bind.bind_lunit t1(1) vs c_str_str_of [OF ends(1)] c_str_str_of [OF ends(2)] by blast
qed

lemma encode_text:
  assumes "printable d"
  shows "emits_ok (yang_rtcsdp_encode d) (crlf (sdp_lines (view_sdp d)))"
proof -
  note ok = assms [unfolded printable_def sdp_ok_def]
  obtain tmp where tmp: "sdp_tmp d = Some tmp" "holds_text tmp 2048 (crlf (head_lines (view_sdp d)))"
    using sdp_tmp_text [of d] assms by (auto simp: printable_def)
  have c: "emits (\<lambda>b. yang_write_cstring b tmp) (crlf (head_lines (view_sdp d)))"
    using emits_cstring [of tmp] tmp(2) by (simp add: holds_text_def)
  have i: "emits_ok (yang_encode_sessionInfo (sd_session_info d)) (crlf (info_lines (view_info (sd_session_info d))))"
    using ok by (intro encode_sessionInfo_text) simp
  have m: "emits_ok (media_descs_loop (vec_list (sd_media_descs d))) (crlf (concat (map media_lines (map view_media (vec_list (sd_media_descs d))))))"
    using ok by (intro media_descs_text) simp
  have v: "vec_all (sd_media_descs d) = Some (vec_list (sd_media_descs d))" using ok by (simp add: vec_all_ok)
  show ?thesis
    unfolding yang_rtcsdp_encode_def [abs_def] tmp(1) v bind.bind_lunit
    by (rule emits_ok_eq, (rule emits_ok_bind emits_ok_step c i m)+) (simp add: sdp_lines_def view_sdp_def)
qed

end
