(* ===== verification/Sdp_Read.thy ===== *)
theory Sdp_Read
  imports Sdp_Text
begin

text \<open>
  What the parsers of session descriptions make of the lines that the printers write: each line changes the view of the media
  description in one field. \<open>media_step\<close> says that of one line, \<open>media_steps\<close> of several.
\<close>

section \<open>Strings\<close>

lemma c_str_drop: "c_str m = Some s \<Longrightarrow> k \<le> length s \<Longrightarrow> c_str (drop k m) = Some (drop k s)"
proof (induction k arbitrary: m s)
  case (Suc k)
  then show ?case by (cases m) (auto split: if_splits)
qed simp

lemma c_str_text [simp]: "0 \<notin> set s \<Longrightarrow> c_str (s @ [0]) = Some s"
  using c_str_append [of s "[]"] by simp

lemma c_strstr_sep [simp]: "c \<notin> set s \<Longrightarrow> c_strstr (s @ c # t) [c] = Some (length s)"
  by (simp add: c_strstr_char c_strchr_Some)

lemma c_strstr_none [simp]: "c \<notin> set s \<Longrightarrow> c_strstr s [c] = None"
  by (simp add: c_strstr_char c_strchr_None)

lemma strcpy_field:
  assumes "arr n m" "c_str src = Some s" "length s < n"
  obtains m' where "c_strcpy m src = Some m'" "arr n m'" "str_of m' = s"
  using strcpy_arr [of m n src s] assms by (auto simp: arr_def)

text \<open>A number in front of a separator\<close>

lemma number_before_dec:
  assumes "is_int32 i" "length r < 20" "0 \<notin> set r" "r = [] \<or> \<not> is_digit (hd r)"
  shows "number_before (dec_int i @ r @ t) (length (dec_int i @ r)) = Some i"
proof -
  have l: "length (dec_int i @ r) < 32" using dec_int_length [OF assms(1)] assms(2) by simp
  obtain m where "mem_write (replicate 32 0) 0 (dec_int i @ r) = Some m" "c_str m = Some (dec_int i @ r)"
    using memcpy_text [OF l] assms(3) by (auto simp: holds_text_def)
  then show ?thesis
    using assms(1,4) by (simp add: number_before_def atoi_def c_atoi_dec_int is_int32_def)
qed

lemma number_before_space [simp]: "is_int32 i \<Longrightarrow> number_before (dec_int i @ 32 # t) (length (dec_int i)) = Some i"
  using number_before_dec [of i "[]" "32 # t"] by simp

lemma atoi_dec: "is_int32 i \<Longrightarrow> c_str m = Some (dec_int i) \<Longrightarrow> atoi m = Some i"
  using c_atoi_dec_int [of i "[]"] by (simp add: atoi_def is_int32_def)

lemma cstr_split_char:
  assumes "c_str src = Some s" "c \<noteq> 0"
  obtains e v where "yang_cstr_split src [c, 0] = Some (e, v)" "strs_str v = map (\<lambda>p. p @ [0]) (tokens [c] s)"
    "strs_vsize v = int (length (tokens [c] s))"
  by (rule cstr_split [OF assms(1), of "[c]"]) (use assms(2) that in auto)

lemma lit_char [simp]: "lit '' '' = [32, 0]" "lit ''/'' = [47, 0]" "lit [CHR 0x0A] = [10, 0]"
  by (simp_all add: lit_def ascii_def)

section \<open>Attributes\<close>

lemma split_attribute_text:
  assumes "CHR '':'' \<notin> set name" "CHR 0x00 \<notin> set name" "length name < 128" "0 \<notin> set t" "length t < 128"
  obtains A V where "split_attribute (ascii name @ 58 # t @ [0]) = Some (A, V)" "c_str A = Some (ascii name)" "c_str V = Some t"
proof -
  have s: "c_str (ascii name @ 58 # t @ [0]) = Some (ascii name @ 58 # t)"
    using c_str_text [of "ascii name @ 58 # t"] assms(2,4) by simp
  obtain A where A: "mem_write (replicate 128 0) 0 (ascii name) = Some A" "c_str A = Some (ascii name)"
    using memcpy_text [of "ascii name" 128] assms(2,3) by (auto simp: holds_text_def)
  obtain V where V: "mem_write (replicate 128 0) 0 t = Some V" "c_str V = Some t"
    using memcpy_text [of t 128] assms(4,5) by (auto simp: holds_text_def)
  have "split_attribute (ascii name @ 58 # t @ [0]) = Some (A, V)"
    using assms(1) A(1) V(1) by (simp add: split_attribute_def s)
  then show thesis using A(2) V(2) by (rule that)
qed

lemma split_attribute_flag:
  assumes "CHR '':'' \<notin> set name" "CHR 0x00 \<notin> set name" "length name < 128"
  obtains A V where "split_attribute (ascii name @ [0]) = Some (A, V)" "c_str A = Some (ascii name)" "c_str V = Some []"
proof -
  obtain A where A: "c_strcpy (replicate 128 0) (ascii name @ [0]) = Some A" "c_str A = Some (ascii name)"
    using strcpy_text [of "replicate 128 0" 128 "ascii name @ [0]" "ascii name"] assms(2,3) by (auto simp: holds_text_def)
  have "split_attribute (ascii name @ [0]) = Some (A, replicate 128 0)" using assms(1,2) A(1) by (simp add: split_attribute_def)
  moreover have "c_str (replicate 128 0) = Some []" using holds_zero [of 128] by (simp add: holds_text_def)
  ultimately show thesis using A(2) that by blast
qed

definition media_step :: "u8 list \<Rightarrow> media_view \<Rightarrow> media_view \<Rightarrow> bool" where
  "media_step l v v' \<longleftrightarrow> (\<forall>d. media_ok d \<and> view_media d = v \<longrightarrow>
     (\<exists>d'. yang_mediadesc_parse_line d (l @ [0]) = Some (Yang_Ok, d') \<and> media_ok d' \<and> view_media d' = v'))"

primrec media_steps :: "u8 list list \<Rightarrow> media_view \<Rightarrow> media_view \<Rightarrow> bool" where
  "media_steps [] v v' \<longleftrightarrow> v = v'"
| "media_steps (l # ls) v v' \<longleftrightarrow> (\<exists>u. media_step l v u \<and> media_steps ls u v')"

lemma media_steps_append: "media_steps xs v u \<Longrightarrow> media_steps ys u v' \<Longrightarrow> media_steps (xs @ ys) v v'"
  by (induction xs arbitrary: v) auto

lemma media_steps_one: "media_step l v v' \<Longrightarrow> media_steps [l] v v'"
  by simp

lemma media_steps_eq: "media_steps ls v v' \<Longrightarrow> v' = u \<Longrightarrow> media_steps ls v u"
  by simp

text \<open>An attribute with a value, and one without\<close>

lemma media_step_value:
  assumes "CHR '':'' \<notin> set name" "CHR 0x00 \<notin> set name" "length name < 128" "0 \<notin> set t" "length t < 128"
    and "\<And>d A V. media_ok d \<Longrightarrow> view_media d = v \<Longrightarrow> split_attribute (ascii name @ 58 # t @ [0]) = Some (A, V)
      \<Longrightarrow> c_str A = Some (ascii name) \<Longrightarrow> c_str V = Some t
      \<Longrightarrow> \<exists>d'. yang_mediadesc_parse_attribute d (ascii name @ 58 # t @ [0]) = Some (Yang_Ok, d') \<and> media_ok d' \<and> view_media d' = v'"
  shows "media_step (ascii (''a='' @ name @ '':'') @ t) v v'"
proof -
  have l: "yang_mediadesc_parse_line d ((ascii (''a='' @ name @ '':'') @ t) @ [0]) = yang_mediadesc_parse_attribute d (ascii name @ 58 # t @ [0])" for d
    by (simp add: yang_mediadesc_parse_line_def mem_load_def ascii_def)
  show ?thesis
    unfolding media_step_def l
    by (rule split_attribute_text [OF assms(1-5)]) (use assms(6) in blast)
qed

lemma media_step_flag:
  assumes "CHR '':'' \<notin> set name" "CHR 0x00 \<notin> set name" "length name < 128"
    and "\<And>d A V. media_ok d \<Longrightarrow> view_media d = v \<Longrightarrow> split_attribute (ascii name @ [0]) = Some (A, V)
      \<Longrightarrow> c_str A = Some (ascii name) \<Longrightarrow> c_str V = Some []
      \<Longrightarrow> \<exists>d'. yang_mediadesc_parse_attribute d (ascii name @ [0]) = Some (Yang_Ok, d') \<and> media_ok d' \<and> view_media d' = v'"
  shows "media_step (ascii (''a='' @ name)) v v'"
proof -
  have l: "yang_mediadesc_parse_line d (ascii (''a='' @ name) @ [0]) = yang_mediadesc_parse_attribute d (ascii name @ [0])" for d
    by (simp add: yang_mediadesc_parse_line_def mem_load_def ascii_def)
  show ?thesis
    unfolding media_step_def l
    by (rule split_attribute_flag [OF assms(1-3)]) (use assms(4) in blast)
qed


lemma attribute_dispatch:
  assumes "split_attribute content = Some (A, V)" "c_str A = Some (ascii name)"
  shows "yang_mediadesc_parse_attribute d content =
    (if name = ''extmap'' then yang_mediadesc_parse_attr_extmap d V
     else if name = ''rtpmap'' then yang_mediadesc_parse_attr_rtpmap d V
     else if name = ''rtcp'' then yang_mediadesc_parse_attr_rtcp d V
     else if name = ''rtcp-fb'' then yang_mediadesc_parse_attr_rtcp_fb d V
     else if name = ''fmtp'' then yang_mediadesc_parse_attr_fmtp d V
     else if name = ''mid'' then yang_mediadesc_parse_attr_mid d V
     else if name = ''msid'' then yang_mediadesc_parse_attr_msid d V
     else if name = ''ssrc'' then yang_mediadesc_parse_attr_ssrc d V
     else if name = ''ssrc-group'' then yang_mediadesc_parse_attr_ssrc_group d V
     else if name = ''candidate'' then yang_mediadesc_parse_attr_candidate d V
     else if name = ''rtcp-mux'' then Some (Yang_Ok, d\<lparr>md_rtcp_mux := 1\<rparr>)
     else if name = ''rtcp-rsize'' then Some (Yang_Ok, d\<lparr>md_rtcp_rsize := 1\<rparr>)
     else if name = ''recvonly'' then Some (Yang_Ok, d\<lparr>md_recvonly := 1\<rparr>)
     else if name = ''sendonly'' then Some (Yang_Ok, d\<lparr>md_sendonly := 1\<rparr>)
     else if name = ''sendrecv'' then Some (Yang_Ok, d\<lparr>md_sendrecv := 1\<rparr>)
     else if name = ''inactive'' then Some (Yang_Ok, d\<lparr>md_inactive := 1\<rparr>)
     else do {
       (err, info) \<leftarrow> yang_sessioninfo_parse_attribute (md_session_info d) A V;
       Some (err, d\<lparr>md_session_info := info\<rparr>)
     })"
  using assms by (simp add: yang_mediadesc_parse_attribute_def c_streq_lit cong: if_cong split del: if_split)

lemma view_media_updates [simp]:
  "view_media (d\<lparr>md_mid := m\<rparr>) = (view_media d)\<lparr>mv_mid := str_of m\<rparr>"
  "view_media (d\<lparr>md_msid := m\<rparr>) = (view_media d)\<lparr>mv_msid := str_of m\<rparr>"
  "view_media (d\<lparr>md_msid_tracker := m\<rparr>) = (view_media d)\<lparr>mv_tracker := str_of m\<rparr>"
  "view_media (d\<lparr>md_sendonly := k\<rparr>) = (view_media d)\<lparr>mv_sendonly := k \<noteq> 0\<rparr>"
  "view_media (d\<lparr>md_recvonly := k\<rparr>) = (view_media d)\<lparr>mv_recvonly := k \<noteq> 0\<rparr>"
  "view_media (d\<lparr>md_sendrecv := k\<rparr>) = (view_media d)\<lparr>mv_sendrecv := k \<noteq> 0\<rparr>"
  "view_media (d\<lparr>md_inactive := k\<rparr>) = (view_media d)\<lparr>mv_inactive := k \<noteq> 0\<rparr>"
  "view_media (d\<lparr>md_rtcp_mux := k\<rparr>) = (view_media d)\<lparr>mv_mux := k \<noteq> 0\<rparr>"
  "view_media (d\<lparr>md_rtcp_rsize := k\<rparr>) = (view_media d)\<lparr>mv_rsize := k \<noteq> 0\<rparr>"
  "view_media (d\<lparr>md_session_info := i\<rparr>) = (view_media d)\<lparr>mv_info := view_info i\<rparr>"
  "view_media (d\<lparr>md_payload_types := ps\<rparr>) = (view_media d)\<lparr>mv_payloads := map view_payload (vec_list ps)\<rparr>"
  "view_media (d\<lparr>md_extmaps := es\<rparr>) = (view_media d)\<lparr>mv_extmaps := map view_extmap (vec_list es)\<rparr>"
  "view_media (d\<lparr>md_ssrc_infos := ss\<rparr>) = (view_media d)\<lparr>mv_ssrcs := map view_ssrc (vec_list ss)\<rparr>"
  "view_media (d\<lparr>md_candidates := cs\<rparr>) = (view_media d)\<lparr>mv_candidates := map view_candidate (vec_list cs)\<rparr>"
  by (simp_all add: view_media_def)

lemma media_ok_updates [simp]:
  "media_ok d \<Longrightarrow> media_ok (d\<lparr>md_mid := m\<rparr>) \<longleftrightarrow> arr 64 m"
  "media_ok d \<Longrightarrow> media_ok (d\<lparr>md_msid := m, md_msid_tracker := t\<rparr>) \<longleftrightarrow> arr 64 m \<and> arr 64 t"
  "media_ok d \<Longrightarrow> media_ok (d\<lparr>md_sendonly := k\<rparr>)" "media_ok d \<Longrightarrow> media_ok (d\<lparr>md_recvonly := k\<rparr>)"
  "media_ok d \<Longrightarrow> media_ok (d\<lparr>md_sendrecv := k\<rparr>)" "media_ok d \<Longrightarrow> media_ok (d\<lparr>md_inactive := k\<rparr>)"
  "media_ok d \<Longrightarrow> media_ok (d\<lparr>md_rtcp_mux := k\<rparr>)" "media_ok d \<Longrightarrow> media_ok (d\<lparr>md_rtcp_rsize := k\<rparr>)"
  "media_ok d \<Longrightarrow> media_ok (d\<lparr>md_session_info := i\<rparr>) \<longleftrightarrow> info_ok i"
  "media_ok d \<Longrightarrow> media_ok (d\<lparr>md_payload_types := ps\<rparr>) \<longleftrightarrow> vec_ok ps \<and> (\<forall>p \<in> set (vec_list ps). payload_ok p)"
  "media_ok d \<Longrightarrow> media_ok (d\<lparr>md_extmaps := es\<rparr>) \<longleftrightarrow> vec_ok es \<and> (\<forall>e \<in> set (vec_list es). extmap_ok e)"
  "media_ok d \<Longrightarrow> media_ok (d\<lparr>md_ssrc_infos := ss\<rparr>) \<longleftrightarrow> vec_ok ss \<and> (\<forall>s \<in> set (vec_list ss). ssrc_ok s)"
  "media_ok d \<Longrightarrow> media_ok (d\<lparr>md_candidates := cs\<rparr>) \<longleftrightarrow> vec_ok cs \<and> (\<forall>c \<in> set (vec_list cs). candidate_ok c)"
  by (auto simp: media_ok_def)

subsection \<open>Flags and names\<close>

lemma mid_step:
  assumes "0 \<notin> set t" "length t < 64"
  shows "media_step (ascii ''a=mid:'' @ t) v (v\<lparr>mv_mid := t\<rparr>)"
proof -
  have "media_step (ascii (''a='' @ ''mid'' @ '':'') @ t) v (v\<lparr>mv_mid := t\<rparr>)"
  proof (rule media_step_value)
    fix d A V
    assume d: "media_ok d" "view_media d = v" and A: "split_attribute (ascii ''mid'' @ 58 # t @ [0]) = Some (A, V)" "c_str A = Some (ascii ''mid'')"
      and V: "c_str V = Some t"
    have "arr 64 (md_mid d)" using d(1) by (simp add: media_ok_def)
    then obtain m where "c_strcpy (md_mid d) V = Some m" "arr 64 m" "str_of m = t" by (rule strcpy_field) (use V assms in simp_all)
    then show "\<exists>d'. yang_mediadesc_parse_attribute d (ascii ''mid'' @ 58 # t @ [0]) = Some (Yang_Ok, d') \<and> media_ok d' \<and> view_media d' = v\<lparr>mv_mid := t\<rparr>"
      using d by (simp add: attribute_dispatch [OF A] yang_mediadesc_parse_attr_mid_def)
  qed (use assms in simp_all)
  then show ?thesis by simp
qed

lemma flag_steps:
  "media_steps (flag_line x ''a=sendonly'') v (if x then v\<lparr>mv_sendonly := True\<rparr> else v)"
  "media_steps (flag_line x ''a=recvonly'') v (if x then v\<lparr>mv_recvonly := True\<rparr> else v)"
  "media_steps (flag_line x ''a=sendrecv'') v (if x then v\<lparr>mv_sendrecv := True\<rparr> else v)"
  "media_steps (flag_line x ''a=inactive'') v (if x then v\<lparr>mv_inactive := True\<rparr> else v)"
  "media_steps (flag_line x ''a=rtcp-mux'') v (if x then v\<lparr>mv_mux := True\<rparr> else v)"
  "media_steps (flag_line x ''a=rtcp-rsize'') v (if x then v\<lparr>mv_rsize := True\<rparr> else v)"
  using media_step_flag [of "''sendonly''" v "v\<lparr>mv_sendonly := True\<rparr>"] media_step_flag [of "''recvonly''" v "v\<lparr>mv_recvonly := True\<rparr>"]
    media_step_flag [of "''sendrecv''" v "v\<lparr>mv_sendrecv := True\<rparr>"] media_step_flag [of "''inactive''" v "v\<lparr>mv_inactive := True\<rparr>"]
    media_step_flag [of "''rtcp-mux''" v "v\<lparr>mv_mux := True\<rparr>"] media_step_flag [of "''rtcp-rsize''" v "v\<lparr>mv_rsize := True\<rparr>"]
  by (simp_all add: flag_line_def attribute_dispatch)

lemma msid_steps:
  assumes "0 \<notin> set m" "0 \<notin> set t" "32 \<notin> set m" "32 \<notin> set t" "m = [] \<longleftrightarrow> t = []" "length m < 64" "length t < 64" "length (m @ 32 # t) < 128"
    "mv_msid v = []" "mv_tracker v = []"
  shows "media_steps (msid_lines m t) v (v\<lparr>mv_msid := m, mv_tracker := t\<rparr>)"
proof (cases "m = []")
  case False
  then have t: "t \<noteq> []" using assms(5) by simp
  have "media_step (ascii (''a='' @ ''msid'' @ '':'') @ (m @ 32 # t)) v (v\<lparr>mv_msid := m, mv_tracker := t\<rparr>)"
  proof (rule media_step_value)
    fix d A V
    assume d: "media_ok d" "view_media d = v" and A: "split_attribute (ascii ''msid'' @ 58 # (m @ 32 # t) @ [0]) = Some (A, V)" "c_str A = Some (ascii ''msid'')"
      and V: "c_str V = Some (m @ 32 # t)"
    have tk: "tokens [32] (m @ 32 # t) = [m, t]" using False t assms(3,4) by (simp add: tokens_field tokens_plain)
    obtain e s where s: "yang_cstr_split V [32, 0] = Some (e, s)" "strs_str s = [m @ [0], t @ [0]]" "strs_vsize s = 2"
      by (rule cstr_split_char [OF V, of 32]) (simp_all add: tk)
    have "arr 64 (md_msid d)" "arr 64 (md_msid_tracker d)" using d(1) by (simp_all add: media_ok_def)
    then obtain m' t' where "c_strcpy (md_msid d) (m @ [0]) = Some m'" "arr 64 m'" "str_of m' = m"
      "c_strcpy (md_msid_tracker d) (t @ [0]) = Some t'" "arr 64 t'" "str_of t' = t"
      by (metis assms(1,2,6,7) c_str_text strcpy_field)
    then show "\<exists>d'. yang_mediadesc_parse_attribute d (ascii ''msid'' @ 58 # (m @ 32 # t) @ [0]) = Some (Yang_Ok, d') \<and> media_ok d'
        \<and> view_media d' = v\<lparr>mv_msid := m, mv_tracker := t\<rparr>"
      using d s
      by (simp add: attribute_dispatch [OF A [simplified]] yang_mediadesc_parse_attr_msid_def nth_str_def mem_load_def)
  qed (use assms in simp_all)
  then show ?thesis using False t by (simp add: msid_lines_def)
qed (use assms in \<open>simp add: msid_lines_def\<close>)

subsection \<open>The session information\<close>

lemma set_once_empty:
  assumes "arr n f" "str_of f = []" "c_str V = Some t" "length t < n"
  obtains m where "set_once f n V = Some m" "arr n m" "str_of m = t"
proof -
  obtain m where m: "c_strcpy (replicate n 0) V = Some m" "arr n m" "str_of m = t"
    by (rule strcpy_arr [of "replicate n 0" n V t]) (use assms(3,4) in simp_all)
  moreover have "set_once f n V = Some m" using arr_c_strlen [OF assms(1)] assms(2) m(1) by (simp add: set_once_def)
  ultimately show thesis using that by blast
qed

text \<open>What one attribute does to the view of a session information, at both levels\<close>

definition info_step :: "string \<Rightarrow> u8 list \<Rightarrow> info_view \<Rightarrow> info_view \<Rightarrow> bool" where
  "info_step name t i i' \<longleftrightarrow> (\<forall>info A V. info_ok info \<and> view_info info = i \<and> c_str A = Some (ascii name) \<and> c_str V = Some t \<longrightarrow>
     (\<exists>info'. yang_sessioninfo_parse_attribute info A V = Some (Yang_Ok, info') \<and> info_ok info' \<and> view_info info' = i'))"

lemma info_dispatch:
  assumes "c_str A = Some (ascii name)"
  shows "yang_sessioninfo_parse_attribute info A V =
    (if name = ''ice-ufrag'' then map_option (\<lambda>f. (Yang_Ok, info\<lparr>si_ice_ufrag := f\<rparr>)) (set_once (si_ice_ufrag info) 32 V)
     else if name = ''ice-pwd'' then map_option (\<lambda>f. (Yang_Ok, info\<lparr>si_ice_pwd := f\<rparr>)) (set_once (si_ice_pwd info) 128 V)
     else if name = ''ice-options'' then map_option (\<lambda>f. (Yang_Ok, info\<lparr>si_ice_options := f\<rparr>)) (set_once (si_ice_options info) 128 V)
     else if name = ''fingerprint'' then do {
       l \<leftarrow> c_strlen (si_fingerprint_algo info);
       if l > 0 then Some (Yang_Ok, info)
       else do {
         s \<leftarrow> c_str V;
         case c_strstr s [32] of
           None \<Rightarrow> Some (Yang_Ok, info\<lparr>si_fingerprint_algo := replicate 128 0, si_fingerprint := replicate 128 0\<rparr>)
         | Some p \<Rightarrow> do {
             a \<leftarrow> mem_write (replicate 128 0) 0 (take p s);
             f \<leftarrow> c_strcpy (replicate 128 0) (drop (p + 1) V);
             Some (Yang_Ok, info\<lparr>si_fingerprint_algo := a, si_fingerprint := f\<rparr>)
           }
       }
     }
     else if name = ''setup'' then map_option (\<lambda>f. (Yang_Ok, info\<lparr>si_setup := f\<rparr>)) (set_once (si_setup info) 128 V)
     else Some (Yang_Ok, info))"
  using assms by (simp add: yang_sessioninfo_parse_attribute_def c_streq_lit map_conv_bind_option o_def cong: if_cong split del: if_split)

lemma view_info_updates [simp]:
  "view_info (i\<lparr>si_ice_ufrag := m\<rparr>) = (view_info i)\<lparr>iv_ufrag := str_of m\<rparr>"
  "view_info (i\<lparr>si_ice_pwd := m\<rparr>) = (view_info i)\<lparr>iv_pwd := str_of m\<rparr>"
  "view_info (i\<lparr>si_ice_options := m\<rparr>) = (view_info i)\<lparr>iv_options := str_of m\<rparr>"
  "view_info (i\<lparr>si_fingerprint_algo := m\<rparr>) = (view_info i)\<lparr>iv_algo := str_of m\<rparr>"
  "view_info (i\<lparr>si_fingerprint := m\<rparr>) = (view_info i)\<lparr>iv_fingerprint := str_of m\<rparr>"
  "view_info (i\<lparr>si_setup := m\<rparr>) = (view_info i)\<lparr>iv_setup := str_of m\<rparr>"
  by (simp_all add: view_info_def)

lemma info_ok_updates [simp]:
  "info_ok i \<Longrightarrow> info_ok (i\<lparr>si_ice_ufrag := m\<rparr>) \<longleftrightarrow> arr 32 m" "info_ok i \<Longrightarrow> info_ok (i\<lparr>si_ice_pwd := m\<rparr>) \<longleftrightarrow> arr 128 m"
  "info_ok i \<Longrightarrow> info_ok (i\<lparr>si_ice_options := m\<rparr>) \<longleftrightarrow> arr 128 m" "info_ok i \<Longrightarrow> info_ok (i\<lparr>si_setup := m\<rparr>) \<longleftrightarrow> arr 128 m"
  "info_ok i \<Longrightarrow> info_ok (i\<lparr>si_fingerprint_algo := m, si_fingerprint := f\<rparr>) \<longleftrightarrow> arr 128 m \<and> arr 128 f"
  by (simp_all add: info_ok_def)

lemma info_step_set:
  assumes "\<And>info. info_ok info \<Longrightarrow> view_info info = i \<Longrightarrow> arr n (get info) \<and> str_of (get info) = []"
    and "\<And>info A V. c_str A = Some (ascii name) \<Longrightarrow>
      yang_sessioninfo_parse_attribute info A V = map_option (\<lambda>f. (Yang_Ok, upd info f)) (set_once (get info) n V)"
    and "\<And>info m. info_ok info \<Longrightarrow> arr n m \<Longrightarrow> view_info info = i \<Longrightarrow> str_of m = t \<Longrightarrow> info_ok (upd info m) \<and> view_info (upd info m) = i'"
    and "length t < n"
  shows "info_step name t i i'"
  unfolding info_step_def
proof (intro allI impI, elim conjE)
  fix info A V
  assume i: "info_ok info" "view_info info = i" and A: "c_str A = Some (ascii name)" and V: "c_str V = Some t"
  have g: "arr n (get info)" "str_of (get info) = []" using assms(1) [OF i] by simp_all
  obtain m where "set_once (get info) n V = Some m" "arr n m" "str_of m = t" by (rule set_once_empty [OF g V assms(4)])
  then show "\<exists>info'. yang_sessioninfo_parse_attribute info A V = Some (Yang_Ok, info') \<and> info_ok info' \<and> view_info info' = i'"
    using assms(2) [OF A] assms(3) [OF i(1) _ i(2)] by simp
qed

lemma info_step_names:
  "iv_ufrag i = [] \<Longrightarrow> length t < 32 \<Longrightarrow> info_step ''ice-ufrag'' t i (i\<lparr>iv_ufrag := t\<rparr>)"
  "iv_pwd i = [] \<Longrightarrow> length t < 128 \<Longrightarrow> info_step ''ice-pwd'' t i (i\<lparr>iv_pwd := t\<rparr>)"
  "iv_options i = [] \<Longrightarrow> length t < 128 \<Longrightarrow> info_step ''ice-options'' t i (i\<lparr>iv_options := t\<rparr>)"
  "iv_setup i = [] \<Longrightarrow> length t < 128 \<Longrightarrow> info_step ''setup'' t i (i\<lparr>iv_setup := t\<rparr>)"
  by (rule info_step_set [where get = si_ice_ufrag and n = 32 and upd = "\<lambda>info f. info\<lparr>si_ice_ufrag := f\<rparr>"]
      info_step_set [where get = si_ice_pwd and n = 128 and upd = "\<lambda>info f. info\<lparr>si_ice_pwd := f\<rparr>"]
      info_step_set [where get = si_ice_options and n = 128 and upd = "\<lambda>info f. info\<lparr>si_ice_options := f\<rparr>"]
      info_step_set [where get = si_setup and n = 128 and upd = "\<lambda>info f. info\<lparr>si_setup := f\<rparr>"],
      auto simp: info_dispatch info_ok_def view_info_def; fail)+

lemma info_step_fingerprint:
  assumes "iv_algo i = []" "length (a @ 32 # f) < 128" "32 \<notin> set a" "0 \<notin> set a"
  shows "info_step ''fingerprint'' (a @ 32 # f) i (i\<lparr>iv_algo := a, iv_fingerprint := f\<rparr>)"
  unfolding info_step_def
proof (intro allI impI, elim conjE)
  fix info A V
  assume i: "info_ok info" "view_info info = i" and A: "c_str A = Some (ascii ''fingerprint'')" and V: "c_str V = Some (a @ 32 # f)"
  have "c_strlen (si_fingerprint_algo info) = Some 0"
    using i assms(1) arr_c_strlen [of 128 "si_fingerprint_algo info"] by (auto simp: info_ok_def view_info_def)
  moreover obtain a' where "mem_write (replicate 128 0) 0 a = Some a'" "arr 128 a'" "str_of a' = a"
    using memcpy_text [of a 128] assms(2,4) holds_arr by auto
  moreover have "c_str (drop (Suc (length a)) V) = Some f" using c_str_drop [OF V, of "Suc (length a)"] by simp
  then obtain f' where "c_strcpy (replicate 128 0) (drop (Suc (length a)) V) = Some f'" "arr 128 f'" "str_of f' = f"
    by (rule strcpy_arr [OF length_replicate [of 128 0]]) (use assms(2) in simp_all)
  ultimately show "\<exists>info'. yang_sessioninfo_parse_attribute info A V = Some (Yang_Ok, info') \<and> info_ok info'
      \<and> view_info info' = i\<lparr>iv_algo := a, iv_fingerprint := f\<rparr>"
    using i assms(3) by (simp add: info_dispatch [OF A] V)
qed

text \<open>In a media description\<close>

lemma attribute_info:
  assumes "split_attribute content = Some (A, V)" "c_str A = Some (ascii name)"
    "name \<in> {''ice-ufrag'', ''ice-pwd'', ''ice-options'', ''fingerprint'', ''setup''}"
  shows "yang_mediadesc_parse_attribute d content = do {
     (err, info) \<leftarrow> yang_sessioninfo_parse_attribute (md_session_info d) A V;
     Some (err, d\<lparr>md_session_info := info\<rparr>)
   }"
  unfolding attribute_dispatch [OF assms(1,2)] using assms(3) by (elim insertE emptyE) simp_all

lemma media_step_info:
  assumes "info_step name t (mv_info v) i" "name \<in> {''ice-ufrag'', ''ice-pwd'', ''ice-options'', ''fingerprint'', ''setup''}"
    "0 \<notin> set t" "length t < 128"
  shows "media_step (ascii (''a='' @ name @ '':'') @ t) v (v\<lparr>mv_info := i\<rparr>)"
proof (rule media_step_value)
  fix d A V
  assume d: "media_ok d" "view_media d = v" and A: "split_attribute (ascii name @ 58 # t @ [0]) = Some (A, V)" "c_str A = Some (ascii name)"
    and V: "c_str V = Some t"
  have "info_ok (md_session_info d)" "view_info (md_session_info d) = mv_info v" using d by (auto simp: media_ok_def view_media_def)
  then obtain info where "yang_sessioninfo_parse_attribute (md_session_info d) A V = Some (Yang_Ok, info)" "info_ok info" "view_info info = i"
    using assms(1) A(2) V unfolding info_step_def by blast
  then show "\<exists>d'. yang_mediadesc_parse_attribute d (ascii name @ 58 # t @ [0]) = Some (Yang_Ok, d') \<and> media_ok d' \<and> view_media d' = v\<lparr>mv_info := i\<rparr>"
    using d by (simp add: attribute_info [OF A assms(2)])
qed (use assms in auto)

lemma sctp_steps: "media_steps (flag_line x ''a=sctp-port:5000'') v v"
proof -
  have "media_step (ascii (''a='' @ ''sctp-port'' @ '':'') @ ascii ''5000'') v v"
  proof (rule media_step_value)
    fix d A V
    assume d: "media_ok d" "view_media d = v"
      and A: "split_attribute (ascii ''sctp-port'' @ 58 # ascii ''5000'' @ [0]) = Some (A, V)" "c_str A = Some (ascii ''sctp-port'')"
    show "\<exists>d'. yang_mediadesc_parse_attribute d (ascii ''sctp-port'' @ 58 # ascii ''5000'' @ [0]) = Some (Yang_Ok, d') \<and> media_ok d' \<and> view_media d' = v"
      using d by (simp add: attribute_dispatch [OF A] info_dispatch [OF A(2)])
  qed simp_all
  then show ?thesis by (simp add: flag_line_def flip: ascii_append)
qed

definition blank_info :: info_view where
  "blank_info = \<lparr>iv_ufrag = [], iv_pwd = [], iv_options = [], iv_algo = [], iv_fingerprint = [], iv_setup = []\<rparr>"

lemma blank_info_fields [simp]:
  "iv_ufrag blank_info = []" "iv_pwd blank_info = []" "iv_options blank_info = []" "iv_algo blank_info = []"
  "iv_fingerprint blank_info = []" "iv_setup blank_info = []"
  by (simp_all add: blank_info_def)

text \<open>What can be read back: no end of string or line in a text, and room for it in the arrays of the parsers\<close>

definition plain :: "u8 list \<Rightarrow> bool" where
  "plain t \<longleftrightarrow> 0 \<notin> set t \<and> 10 \<notin> set t"

lemma plain_simps [simp]:
  "plain []" "plain (a @ b) \<longleftrightarrow> plain a \<and> plain b" "plain (c # a) \<longleftrightarrow> c \<noteq> 0 \<and> c \<noteq> 10 \<and> plain a" "plain (dec_int i)"
  "plain (ascii s) \<longleftrightarrow> CHR 0x00 \<notin> set s \<and> CHR 0x0A \<notin> set s"
  by (auto simp: plain_def)

definition info_readable :: "info_view \<Rightarrow> bool" where
  "info_readable i \<longleftrightarrow> plain (iv_ufrag i) \<and> plain (iv_pwd i) \<and> plain (iv_options i) \<and> plain (iv_algo i) \<and> plain (iv_fingerprint i)
     \<and> plain (iv_setup i) \<and> length (iv_ufrag i) < 32 \<and> length (iv_pwd i) < 128 \<and> length (iv_options i) < 128 \<and> length (iv_setup i) < 128
     \<and> length (iv_algo i @ 32 # iv_fingerprint i) < 128 \<and> 32 \<notin> set (iv_algo i) \<and> (iv_algo i = [] \<longleftrightarrow> iv_fingerprint i = [])"

text \<open>The attributes that are printed, and the views they lead through, for both places where they are parsed\<close>

definition info_attrs :: "info_view \<Rightarrow> (string \<times> u8 list) list" where
  "info_attrs i = filter (\<lambda>a. snd a \<noteq> [])
     [(''ice-ufrag'', iv_ufrag i), (''ice-pwd'', iv_pwd i), (''ice-options'', iv_options i),
      (''fingerprint'', if iv_algo i \<noteq> [] \<and> iv_fingerprint i \<noteq> [] then iv_algo i @ 32 # iv_fingerprint i else []), (''setup'', iv_setup i)]"

definition attr_text :: "string \<times> u8 list \<Rightarrow> u8 list" where
  "attr_text a = ascii (''a='' @ fst a @ '':'') @ snd a"

primrec info_chain :: "(string \<times> u8 list) list \<Rightarrow> info_view \<Rightarrow> info_view \<Rightarrow> bool" where
  "info_chain [] i i' \<longleftrightarrow> i = i'"
| "info_chain (a # as) i i' \<longleftrightarrow> (\<exists>u. info_step (fst a) (snd a) i u \<and> info_chain as u i'
     \<and> fst a \<in> {''ice-ufrag'', ''ice-pwd'', ''ice-options'', ''fingerprint'', ''setup''} \<and> plain (snd a) \<and> length (snd a) < 128)"

lemma info_lines_attrs: "info_lines i = map attr_text (info_attrs i)"
  by (simp add: info_lines_def info_attrs_def attr_text_def named_line_def flip: ascii_append)

lemma info_chain_append: "info_chain xs i u \<Longrightarrow> info_chain ys u i' \<Longrightarrow> info_chain (xs @ ys) i i'"
  by (induction xs arbitrary: i) auto

lemma info_chain_one:
  assumes "t \<noteq> [] \<Longrightarrow> info_step name t i i'" "t = [] \<Longrightarrow> i' = i"
    "name \<in> {''ice-ufrag'', ''ice-pwd'', ''ice-options'', ''fingerprint'', ''setup''}" "plain t" "length t < 128"
  shows "info_chain (filter (\<lambda>a. snd a \<noteq> []) [(name, t)]) i i'"
  using assms by (cases "t = []") auto

lemma info_chain_attrs:
  assumes "info_readable i"
  shows "info_chain (info_attrs i) blank_info i"
proof -
  note r = assms [unfolded info_readable_def]
  let ?i1 = "blank_info\<lparr>iv_ufrag := iv_ufrag i\<rparr>" let ?i2 = "?i1\<lparr>iv_pwd := iv_pwd i\<rparr>" let ?i3 = "?i2\<lparr>iv_options := iv_options i\<rparr>"
  let ?i4 = "?i3\<lparr>iv_algo := iv_algo i, iv_fingerprint := iv_fingerprint i\<rparr>"
  let ?p = "filter (\<lambda>a. snd a \<noteq> []) :: (string \<times> u8 list) list \<Rightarrow> _"
  let ?f = "if iv_algo i \<noteq> [] \<and> iv_fingerprint i \<noteq> [] then iv_algo i @ 32 # iv_fingerprint i else []"
  have 1: "info_chain (?p [(''ice-ufrag'', iv_ufrag i)]) blank_info ?i1"
    by (rule info_chain_one) (use r in \<open>(simp add: info_step_names; fail | simp add: blank_info_def; fail)+\<close>)
  have 2: "info_chain (?p [(''ice-pwd'', iv_pwd i)]) ?i1 ?i2"
    by (rule info_chain_one) (use r in \<open>(simp add: info_step_names; fail | simp add: blank_info_def; fail)+\<close>)
  have 3: "info_chain (?p [(''ice-options'', iv_options i)]) ?i2 ?i3"
    by (rule info_chain_one) (use r in \<open>(simp add: info_step_names; fail | simp add: blank_info_def; fail)+\<close>)
  have 4: "info_chain (?p [(''fingerprint'', ?f)]) ?i3 ?i4"
  proof (rule info_chain_one)
    show "info_step ''fingerprint'' ?f ?i3 ?i4" if "?f \<noteq> []"
      using that r by (auto intro!: info_step_fingerprint simp: plain_def split: if_splits)
    show "?i4 = ?i3" if "?f = []" using that r by (auto simp: blank_info_def split: if_splits)
  qed (use r in \<open>auto simp: plain_def\<close>)
  have "info_chain (?p [(''setup'', iv_setup i)]) ?i4 (?i4\<lparr>iv_setup := iv_setup i\<rparr>)"
    by (rule info_chain_one) (use r in \<open>(simp add: info_step_names; fail | simp add: blank_info_def; fail)+\<close>)
  moreover have "?i4\<lparr>iv_setup := iv_setup i\<rparr> = i" by (simp add: blank_info_def)
  ultimately have 5: "info_chain (?p [(''setup'', iv_setup i)]) ?i4 i" by (simp only:)
  have "info_attrs i = ?p [(''ice-ufrag'', iv_ufrag i)] @ ?p [(''ice-pwd'', iv_pwd i)] @ ?p [(''ice-options'', iv_options i)] @ ?p [(''fingerprint'', ?f)]
      @ ?p [(''setup'', iv_setup i)]" by (simp add: info_attrs_def)
  then show ?thesis by (simp only:) (intro info_chain_append, (rule 1 2 3 4 5)+)
qed

lemma media_chain: "info_chain as (mv_info v) i \<Longrightarrow> media_steps (map attr_text as) v (v\<lparr>mv_info := i\<rparr>)"
proof (induction as arbitrary: v)
  case (Cons a as)
  then obtain u where u: "info_step (fst a) (snd a) (mv_info v) u" "info_chain as u i"
    "fst a \<in> {''ice-ufrag'', ''ice-pwd'', ''ice-options'', ''fingerprint'', ''setup''}" "plain (snd a)" "length (snd a) < 128" by auto
  have "media_step (attr_text a) v (v\<lparr>mv_info := u\<rparr>)"
    unfolding attr_text_def by (rule media_step_info [OF u(1,3)]) (use u(4,5) in \<open>simp_all add: plain_def\<close>)
  moreover have "media_steps (map attr_text as) (v\<lparr>mv_info := u\<rparr>) (v\<lparr>mv_info := u\<rparr>\<lparr>mv_info := i\<rparr>)" by (rule Cons.IH) (use u(2) in simp)
  ultimately show ?case by auto
qed simp

lemma media_info_steps:
  assumes "info_readable i" "mv_info v = blank_info"
  shows "media_steps (info_lines i) v (v\<lparr>mv_info := i\<rparr>)"
  unfolding info_lines_attrs by (rule media_chain) (simp add: assms info_chain_attrs)

section \<open>Elements of vectors\<close>

lemma copied_string:
  assumes "c_str m = Some s"
  obtains t where "mem_read m 0 (int (length s) + 1) = Some t" "0 \<in> set t" "str_of t = s"
proof -
  obtain r where "m = s @ 0 # r" "0 \<notin> set s" using c_str_spec [OF assms] by blast
  then have "mem_read m 0 (int (length s) + 1) = Some (s @ [0])" "str_of (s @ [0]) = s"
    by (simp_all add: mem_read_def str_of_append nat_add_distrib)
  then show thesis using that [of "s @ [0]"] by simp
qed


lemma vec_update:
  assumes "vec_ok v" "i < length (vec_list v)"
  obtains ps where "mem_load (payload v) (int i) = Some (vec_list v ! i)" "mem_store (payload v) (int i) x = Some ps"
    "vec_ok (v\<lparr>payload := ps\<rparr>)" "vec_list (v\<lparr>payload := ps\<rparr>) = (vec_list v)[i := x]"
proof -
  have i: "int i < vsize v" using assms length_vec_list [of v] by simp
  have "mem_load (payload v) (int i) = Some (vec_list v ! i)" using vec_load [OF assms(1), of "int i"] i by simp
  moreover have "mem_store (payload v) (int i) x = Some ((payload v)[i := x])" using assms(1) i by (simp add: mem_store_def vec_ok_def)
  moreover have "vec_ok (v\<lparr>payload := (payload v)[i := x]\<rparr>)" using assms(1) by (simp add: vec_ok_def)
  moreover have "vec_list (v\<lparr>payload := (payload v)[i := x]\<rparr>) = (vec_list v)[i := x]" by (simp add: vec_list_def take_update_swap)
  ultimately show thesis by (rule that)
qed

subsection \<open>Extensions\<close>

lemma extmap_step:
  assumes "is_int32 n" "0 \<notin> set t" "length (dec_int n @ 32 # t) < 128" "n \<notin> fst ` set (mv_extmaps v)"
  shows "media_step (extmap_line (n, t)) v (v\<lparr>mv_extmaps := mv_extmaps v @ [(n, t)]\<rparr>)"
proof -
  have "media_step (ascii (''a='' @ ''extmap'' @ '':'') @ (dec_int n @ 32 # t)) v (v\<lparr>mv_extmaps := mv_extmaps v @ [(n, t)]\<rparr>)"
  proof (rule media_step_value)
    fix d A V
    assume d: "media_ok d" "view_media d = v"
      and A: "split_attribute (ascii ''extmap'' @ 58 # (dec_int n @ 32 # t) @ [0]) = Some (A, V)" "c_str A = Some (ascii ''extmap'')"
      and V: "c_str V = Some (dec_int n @ 32 # t)"
    have e: "vec_ok (md_extmaps d)" "\<forall>e \<in> set (vec_list (md_extmaps d)). extmap_ok e" using d by (simp_all add: media_ok_def)
    have m: "mv_extmaps v = map view_extmap (vec_list (md_extmaps d))" using d by (auto simp: view_media_def)
    have n: "n \<notin> em_mapid ` set (vec_list (md_extmaps d))" using assms(4) by (auto simp: m view_extmap_def image_iff)
    have z: "length (em_extmap zero_extmap) = 128" by (simp add: zero_extmap_def)
    have "c_str (drop (Suc (length (dec_int n))) V) = Some t" using c_str_drop [OF V, of "Suc (length (dec_int n))"] by simp
    then obtain t' where t: "c_strcpy (em_extmap zero_extmap) (drop (Suc (length (dec_int n))) V) = Some t'" "arr 128 t'" "str_of t' = t"
      by (rule strcpy_arr [OF z]) (use assms(3) in simp_all)
    obtain es where es: "yang_insert_Vector zero_extmap (md_extmaps d) (Some (zero_extmap\<lparr>em_mapid := n, em_extmap := t'\<rparr>)) = Some es" "vec_ok es"
      "vec_list es = vec_list (md_extmaps d) @ [zero_extmap\<lparr>em_mapid := n, em_extmap := t'\<rparr>]"
      using vec.insert_elems [OF e(1)] by blast
    show "\<exists>d'. yang_mediadesc_parse_attribute d (ascii ''extmap'' @ 58 # (dec_int n @ 32 # t) @ [0]) = Some (Yang_Ok, d')
        \<and> media_ok d' \<and> view_media d' = v\<lparr>mv_extmaps := mv_extmaps v @ [(n, t)]\<rparr>"
      using d e t es n assms(1) m
      by (simp add: attribute_dispatch [OF A [simplified]] yang_mediadesc_parse_attr_extmap_def V vec_all_ok extmap_ok_def view_extmap_def)
  qed (use assms in simp_all)
  then show ?thesis by (simp add: extmap_line_def)
qed

lemma extmap_steps:
  assumes "\<forall>(n, t) \<in> set es. is_int32 n \<and> 0 \<notin> set t \<and> length (dec_int n @ 32 # t) < 128" "distinct (map fst (mv_extmaps v @ es))"
  shows "media_steps (map extmap_line es) v (v\<lparr>mv_extmaps := mv_extmaps v @ es\<rparr>)"
  using assms
proof (induction es arbitrary: v)
  case (Cons e es)
  obtain n t where e: "e = (n, t)" by force
  have "media_step (extmap_line e) v (v\<lparr>mv_extmaps := mv_extmaps v @ [(n, t)]\<rparr>)"
    unfolding e by (rule extmap_step) (use Cons.prems in \<open>auto simp: e\<close>)
  moreover have "media_steps (map extmap_line es) (v\<lparr>mv_extmaps := mv_extmaps v @ [(n, t)]\<rparr>)
      ((v\<lparr>mv_extmaps := mv_extmaps v @ [(n, t)]\<rparr>)\<lparr>mv_extmaps := mv_extmaps (v\<lparr>mv_extmaps := mv_extmaps v @ [(n, t)]\<rparr>) @ es\<rparr>)"
    by (rule Cons.IH) (use Cons.prems in \<open>auto simp: e\<close>)
  ultimately show ?case by (auto simp: e)
qed simp

subsection \<open>Payload types\<close>

definition blank_payload :: "int \<Rightarrow> payload_view" where
  "blank_payload n = \<lparr>pv_type = n, pv_name = [], pv_rate = 0, pv_param = [], pv_fmtp = [], pv_fbs = []\<rparr>"

lemma find_payload_index:
  "distinct (map pt_payload_type ps) \<Longrightarrow> i < length ps \<Longrightarrow> pt_payload_type (ps ! i) = n \<Longrightarrow> find_payload ps k n = Some (k + i)"
proof (induction ps arbitrary: i k)
  case (Cons p ps)
  then show ?case by (cases i) (auto simp: image_iff dest: nth_mem)
qed simp

text \<open>One line about the payload type at position \<open>i\<close>: \<open>f\<close> is what it does to the element, \<open>q\<close> to its view.\<close>

lemma payload_line_step:
  assumes "distinct (map pv_type (mv_payloads v))" "i < length (mv_payloads v)" "pv_type (mv_payloads v ! i) = n"
    and "media_ok d" "view_media d = v"
    and "\<And>p. payload_ok p \<Longrightarrow> view_payload p = mv_payloads v ! i \<Longrightarrow> \<exists>p'. f p = Some p' \<and> payload_ok p' \<and> view_payload p' = q"
  obtains d' where "yang_mediadesc_find_media_with_payload_type d n = Some (Some i)" "update_payload d i f = Some d'" "media_ok d'"
    "view_media d' = v\<lparr>mv_payloads := (mv_payloads v)[i := q]\<rparr>"
proof -
  let ?ps = "md_payload_types d"
  have m: "mv_payloads v = map view_payload (vec_list ?ps)" using assms(5) by (auto simp: view_media_def)
  have ok: "vec_ok ?ps" "\<forall>p \<in> set (vec_list ?ps). payload_ok p" using assms(4) by (simp_all add: media_ok_def)
  have i: "i < length (vec_list ?ps)" using assms(2) m by simp
  have "map pv_type (mv_payloads v) = map pt_payload_type (vec_list ?ps)" by (simp add: m view_payload_def)
  then have d: "distinct (map pt_payload_type (vec_list ?ps))" using assms(1) by simp
  have n: "pt_payload_type (vec_list ?ps ! i) = n" using assms(3) i by (simp add: m view_payload_def)
  have find: "yang_mediadesc_find_media_with_payload_type d n = Some (Some i)"
    using find_payload_index [OF d i n, of 0] ok(1) by (simp add: yang_mediadesc_find_media_with_payload_type_def vec_all_ok)
  obtain p' where p: "f (vec_list ?ps ! i) = Some p'" "payload_ok p'" "view_payload p' = q"
    using assms(6) [of "vec_list ?ps ! i"] ok(2) i by (auto simp: m)
  obtain qs where q: "mem_load (payload ?ps) (int i) = Some (vec_list ?ps ! i)" "mem_store (payload ?ps) (int i) p' = Some qs"
    "vec_ok (?ps\<lparr>payload := qs\<rparr>)" "vec_list (?ps\<lparr>payload := qs\<rparr>) = (vec_list ?ps)[i := p']"
    by (rule vec_update [OF ok(1) i])
  have u: "update_payload d i f = Some (d\<lparr>md_payload_types := ?ps\<lparr>payload := qs\<rparr>\<rparr>)" using p(1) q(1,2) by (simp add: update_payload_def)
  have "media_ok (d\<lparr>md_payload_types := ?ps\<lparr>payload := qs\<rparr>\<rparr>)"
    using assms(4) q(3,4) ok(2) p(2) set_update_subset_insert [of "vec_list ?ps" i p'] by (auto simp del: media_ok_updates simp: media_ok_def)
  moreover have "view_media (d\<lparr>md_payload_types := ?ps\<lparr>payload := qs\<rparr>\<rparr>) = v\<lparr>mv_payloads := (mv_payloads v)[i := q]\<rparr>"
    using assms(5) q(4) p(3) by (simp add: m map_update)
  ultimately show thesis using that [OF find u] by blast
qed

lemma view_payload_updates [simp]:
  "view_payload (p\<lparr>pt_encoding_name := a, pt_clock_rate := r, pt_encoding_param := c\<rparr>)
    = (view_payload p)\<lparr>pv_name := str_of a, pv_rate := r, pv_param := str_of c\<rparr>"
  "view_payload (p\<lparr>pt_rtcp_fb := g\<rparr>) = (view_payload p)\<lparr>pv_fbs := map str_of (vec_list g)\<rparr>"
  "view_payload (p\<lparr>pt_format_specific_param := f\<rparr>) = (view_payload p)\<lparr>pv_fmtp := str_of f\<rparr>"
  by (simp_all add: view_payload_def)

lemma payload_ok_updates [simp]:
  "payload_ok p \<Longrightarrow> payload_ok (p\<lparr>pt_encoding_name := a, pt_clock_rate := r, pt_encoding_param := c\<rparr>) \<longleftrightarrow> arr 16 a \<and> is_int32 r \<and> arr 256 c"
  "payload_ok p \<Longrightarrow> payload_ok (p\<lparr>pt_rtcp_fb := g\<rparr>) \<longleftrightarrow> vec_ok g \<and> (\<forall>m \<in> set (vec_list g). 0 \<in> set m)"
  "payload_ok p \<Longrightarrow> payload_ok (p\<lparr>pt_format_specific_param := f\<rparr>) \<longleftrightarrow> arr 128 f"
  by (auto simp: payload_ok_def)

lemma rtpmap_fields:
  assumes "payload_ok p" "view_payload p = blank_payload n" "strs_str s = map (\<lambda>p. p @ [0]) (a # dec_int r # (if c = [] then [] else [c]))"
    "strs_vsize s = int (length (a # dec_int r # (if c = [] then [] else [c])))"
    and "is_int32 r" "plain a" "plain c" "length a < 16" "length c < 256"
  shows "\<exists>p'. do {
       s0 \<leftarrow> nth_str s 0;
       name \<leftarrow> c_strcpy (pt_encoding_name p) s0;
       s1 \<leftarrow> nth_str s 1;
       rate \<leftarrow> atoi s1;
       param \<leftarrow> (if strs_vsize s = 3 then do {
                    s2 \<leftarrow> nth_str s 2;
                    c_strcpy (pt_encoding_param p) s2
                  }
                  else Some (pt_encoding_param p));
       Some (p\<lparr>pt_encoding_name := name, pt_clock_rate := rate, pt_encoding_param := param\<rparr>)
     } = Some p' \<and> payload_ok p' \<and> view_payload p' = (blank_payload n)\<lparr>pv_name := a, pv_rate := r, pv_param := c\<rparr>"
proof -
  have ok: "arr 16 (pt_encoding_name p)" "arr 256 (pt_encoding_param p)" using assms(1) by (simp_all add: payload_ok_def)
  have e: "str_of (pt_encoding_param p) = []" using arg_cong [OF assms(2), of pv_param] by (simp add: view_payload_def blank_payload_def)
  have z: "0 \<notin> set a" "0 \<notin> set c" using assms(6,7) by (simp_all add: plain_def)
  obtain a' where a: "c_strcpy (pt_encoding_name p) (a @ [0]) = Some a'" "arr 16 a'" "str_of a' = a"
    by (rule strcpy_field [OF ok(1) c_str_text [OF z(1)] assms(8)])
  obtain c' where c: "c_strcpy (pt_encoding_param p) (c @ [0]) = Some c'" "arr 256 c'" "str_of c' = c"
    by (rule strcpy_field [OF ok(2) c_str_text [OF z(2)] assms(9)])
  show ?thesis
    using assms(1-5) ok(2) e a c by (cases "c = []")
      (simp_all add: nth_str_def mem_load_def atoi_dec payload_ok_def view_payload_def blank_payload_def del: payload_ok_updates view_payload_updates)
qed

lemma rtpmap_step:
  assumes "distinct (map pv_type (mv_payloads v))" "i < length (mv_payloads v)" "mv_payloads v ! i = blank_payload n"
    and "is_int32 n" "is_int32 r" "plain a" "plain c" "a \<noteq> []" "47 \<notin> set a" "47 \<notin> set c" "length a < 16" "length c < 256"
    and "length (dec_int n @ [32] @ a @ [47] @ dec_int r @ (if c = [] then [] else 47 # c)) < 128"
  shows "media_step (ascii ''a=rtpmap:'' @ dec_int n @ [32] @ a @ [47] @ dec_int r @ (if c = [] then [] else 47 # c)) v
    (v\<lparr>mv_payloads := (mv_payloads v)[i := (blank_payload n)\<lparr>pv_name := a, pv_rate := r, pv_param := c\<rparr>]\<rparr>)"
proof -
  let ?u = "a @ 47 # dec_int r @ (if c = [] then [] else 47 # c)" let ?t = "dec_int n @ 32 # ?u"
  let ?q = "(blank_payload n)\<lparr>pv_name := a, pv_rate := r, pv_param := c\<rparr>"
  let ?fs = "a # dec_int r # (if c = [] then [] else [c])"
  have z: "0 \<notin> set ?u" using assms(6,7) by (simp add: plain_def)
  have "media_step (ascii (''a='' @ ''rtpmap'' @ '':'') @ ?t) v (v\<lparr>mv_payloads := (mv_payloads v)[i := ?q]\<rparr>)"
  proof (rule media_step_value)
    fix d A V
    assume d: "media_ok d" "view_media d = v" and A: "split_attribute (ascii ''rtpmap'' @ 58 # ?t @ [0]) = Some (A, V)" "c_str A = Some (ascii ''rtpmap'')"
      and V: "c_str V = Some ?t"
    have tk: "tokens [47] ?u = ?fs"
      using assms(8-10) tokens_field [of "dec_int r" 47 c] by (simp add: tokens_field tokens_plain)
    have "c_str (drop (Suc (length (dec_int n))) V) = Some ?u" using c_str_drop [OF V, of "Suc (length (dec_int n))"] by simp
    then obtain e s where s: "yang_cstr_split (drop (Suc (length (dec_int n))) V) [47, 0] = Some (e, s)" "strs_str s = map (\<lambda>p. p @ [0]) ?fs"
      "strs_vsize s = int (length ?fs)" by (rule cstr_split_char [of _ ?u 47]) (simp_all only: tk zero_neq_numeral not_False_eq_True, simp)
    let ?f = "\<lambda>pl. do {
       s0 \<leftarrow> nth_str s 0;
       name \<leftarrow> c_strcpy (pt_encoding_name pl) s0;
       s1 \<leftarrow> nth_str s 1;
       rate \<leftarrow> atoi s1;
       param \<leftarrow> (if strs_vsize s = 3 then do {
                    s2 \<leftarrow> nth_str s 2;
                    c_strcpy (pt_encoding_param pl) s2
                  }
                  else Some (pt_encoding_param pl));
       Some (pl\<lparr>pt_encoding_name := name, pt_clock_rate := rate, pt_encoding_param := param\<rparr>)
     }"
    have f: "\<exists>p'. ?f p = Some p' \<and> payload_ok p' \<and> view_payload p' = ?q" if p: "payload_ok p" "view_payload p = mv_payloads v ! i" for p
      by (rule rtpmap_fields [OF p(1) p(2) [unfolded assms(3)] s(2,3)]) (use assms in simp_all)
    obtain d' where "yang_mediadesc_find_media_with_payload_type d n = Some (Some i)" "update_payload d i ?f = Some d'" "media_ok d'"
      "view_media d' = v\<lparr>mv_payloads := (mv_payloads v)[i := ?q]\<rparr>"
      by (rule payload_line_step [OF assms(1,2) _ d f]) (use assms(3) in \<open>simp_all add: blank_payload_def\<close>)
    then show "\<exists>d'. yang_mediadesc_parse_attribute d (ascii ''rtpmap'' @ 58 # ?t @ [0]) = Some (Yang_Ok, d') \<and> media_ok d'
        \<and> view_media d' = v\<lparr>mv_payloads := (mv_payloads v)[i := ?q]\<rparr>"
      unfolding attribute_dispatch [OF A] yang_mediadesc_parse_attr_rtpmap_def using s assms(4) by (simp add: V split del: if_split)
  qed (use assms z in \<open>simp_all add: plain_def\<close>)
  then show ?thesis by simp
qed

lemma rtcp_fb_step:
  assumes "distinct (map pv_type (mv_payloads v))" "i < length (mv_payloads v)" "pv_type (mv_payloads v ! i) = n"
    and "is_int32 n" "plain f" "length (dec_int n @ 32 # f) < 128"
  shows "media_step (ascii ''a=rtcp-fb:'' @ dec_int n @ [32] @ f) v
    (v\<lparr>mv_payloads := (mv_payloads v)[i := (mv_payloads v ! i)\<lparr>pv_fbs := pv_fbs (mv_payloads v ! i) @ [f]\<rparr>]\<rparr>)"
proof -
  let ?t = "dec_int n @ 32 # f" let ?q = "(mv_payloads v ! i)\<lparr>pv_fbs := pv_fbs (mv_payloads v ! i) @ [f]\<rparr>"
  have "media_step (ascii (''a='' @ ''rtcp-fb'' @ '':'') @ ?t) v (v\<lparr>mv_payloads := (mv_payloads v)[i := ?q]\<rparr>)"
  proof (rule media_step_value)
    fix d A V
    assume d: "media_ok d" "view_media d = v" and A: "split_attribute (ascii ''rtcp-fb'' @ 58 # ?t @ [0]) = Some (A, V)" "c_str A = Some (ascii ''rtcp-fb'')"
      and V: "c_str V = Some ?t"
    let ?W = "drop (Suc (length (dec_int n))) V"
    have W: "c_str ?W = Some f" using c_str_drop [OF V, of "Suc (length (dec_int n))"] by simp
    obtain m where m: "mem_read ?W 0 (int (length f) + 1) = Some m" "0 \<in> set m" "str_of m = f"
      by (rule copied_string [OF W])
    let ?f = "\<lambda>pl. do {
       v \<leftarrow> yang_insert_stringVector (pt_rtcp_fb pl) ?W;
       Some (pl\<lparr>pt_rtcp_fb := v\<rparr>)
     }"
    have f: "\<exists>p'. ?f p = Some p' \<and> payload_ok p' \<and> view_payload p' = ?q" if p: "payload_ok p" "view_payload p = mv_payloads v ! i" for p
    proof -
      have ok: "vec_ok (pt_rtcp_fb p)" "\<forall>m \<in> set (vec_list (pt_rtcp_fb p)). 0 \<in> set m" using p(1) by (simp_all add: payload_ok_def)
      have e: "pv_fbs (mv_payloads v ! i) = map str_of (vec_list (pt_rtcp_fb p))" using arg_cong [OF p(2), of pv_fbs] by (simp add: view_payload_def)
      obtain vs where vs: "yang_insert_Vector [] (pt_rtcp_fb p) (Some m) = Some vs" "vec_ok vs" "vec_list vs = vec_list (pt_rtcp_fb p) @ [m]"
        using vec.insert_elems [OF ok(1)] by blast
      show ?thesis
        using p ok vs m e W by (simp add: yang_insert_stringVector_def yang_insert_stringVector2_def c_strlen_c_str add.commute)
    qed
    obtain d' where "yang_mediadesc_find_media_with_payload_type d n = Some (Some i)" "update_payload d i ?f = Some d'" "media_ok d'"
      "view_media d' = v\<lparr>mv_payloads := (mv_payloads v)[i := ?q]\<rparr>"
      by (rule payload_line_step [OF assms(1-3) d f])
    then show "\<exists>d'. yang_mediadesc_parse_attribute d (ascii ''rtcp-fb'' @ 58 # ?t @ [0]) = Some (Yang_Ok, d') \<and> media_ok d'
        \<and> view_media d' = v\<lparr>mv_payloads := (mv_payloads v)[i := ?q]\<rparr>"
      unfolding attribute_dispatch [OF A] yang_mediadesc_parse_attr_rtcp_fb_def using assms(4) by (simp add: V)
  qed (use assms in \<open>simp_all add: plain_def\<close>)
  then show ?thesis by simp
qed

lemma fmtp_step:
  assumes "distinct (map pv_type (mv_payloads v))" "i < length (mv_payloads v)" "pv_type (mv_payloads v ! i) = n"
    and "is_int32 n" "plain f" "f \<noteq> []" "32 \<notin> set f" "length (dec_int n @ 32 # f) < 128"
  shows "media_step (ascii ''a=fmtp:'' @ dec_int n @ [32] @ f) v
    (v\<lparr>mv_payloads := (mv_payloads v)[i := (mv_payloads v ! i)\<lparr>pv_fmtp := f\<rparr>]\<rparr>)"
proof -
  let ?t = "dec_int n @ 32 # f" let ?q = "(mv_payloads v ! i)\<lparr>pv_fmtp := f\<rparr>"
  have "media_step (ascii (''a='' @ ''fmtp'' @ '':'') @ ?t) v (v\<lparr>mv_payloads := (mv_payloads v)[i := ?q]\<rparr>)"
  proof (rule media_step_value)
    fix d A V
    assume d: "media_ok d" "view_media d = v" and A: "split_attribute (ascii ''fmtp'' @ 58 # ?t @ [0]) = Some (A, V)" "c_str A = Some (ascii ''fmtp'')"
      and V: "c_str V = Some ?t"
    have tk: "tokens [32] ?t = [dec_int n, f]" using assms(6,7) by (simp add: tokens_field tokens_plain)
    obtain e s where s: "yang_cstr_split V [32, 0] = Some (e, s)" "strs_str s = [dec_int n @ [0], f @ [0]]" "strs_vsize s = 2"
      by (rule cstr_split_char [OF V, of 32]) (simp_all add: tk)
    let ?f = "\<lambda>pl. do {
       s1 \<leftarrow> nth_str s 1;
       f \<leftarrow> c_strcpy (pt_format_specific_param pl) s1;
       Some (pl\<lparr>pt_format_specific_param := f\<rparr>)
     }"
    have f: "\<exists>p'. ?f p = Some p' \<and> payload_ok p' \<and> view_payload p' = ?q" if p: "payload_ok p" "view_payload p = mv_payloads v ! i" for p
    proof -
      have ok: "arr 128 (pt_format_specific_param p)" using p(1) by (simp add: payload_ok_def)
      obtain f' where "c_strcpy (pt_format_specific_param p) (f @ [0]) = Some f'" "arr 128 f'" "str_of f' = f"
        by (rule strcpy_field [OF ok c_str_text [of f]]) (use assms(5,8) in \<open>simp_all add: plain_def\<close>)
      then show ?thesis using p s by (simp add: nth_str_def mem_load_def)
    qed
    obtain d' where "yang_mediadesc_find_media_with_payload_type d n = Some (Some i)" "update_payload d i ?f = Some d'" "media_ok d'"
      "view_media d' = v\<lparr>mv_payloads := (mv_payloads v)[i := ?q]\<rparr>"
      by (rule payload_line_step [OF assms(1-3) d f])
    then show "\<exists>d'. yang_mediadesc_parse_attribute d (ascii ''fmtp'' @ 58 # ?t @ [0]) = Some (Yang_Ok, d') \<and> media_ok d'
        \<and> view_media d' = v\<lparr>mv_payloads := (mv_payloads v)[i := ?q]\<rparr>"
      unfolding attribute_dispatch [OF A] yang_mediadesc_parse_attr_fmtp_def
      using s assms(4) atoi_dec [OF assms(4), of "dec_int n @ [0]"] by (simp add: nth_str_def mem_load_def)
  qed (use assms in \<open>simp_all add: plain_def\<close>)
  then show ?thesis by simp
qed

definition payload_readable :: "payload_view \<Rightarrow> bool" where
  "payload_readable p \<longleftrightarrow> is_int32 (pv_type p) \<and> is_int32 (pv_rate p) \<and> plain (pv_name p) \<and> plain (pv_param p) \<and> plain (pv_fmtp p)
     \<and> pv_name p \<noteq> [] \<and> 47 \<notin> set (pv_name p) \<and> 47 \<notin> set (pv_param p) \<and> 32 \<notin> set (pv_fmtp p) \<and> length (pv_name p) < 16
     \<and> length (dec_int (pv_type p) @ [32] @ pv_name p @ [47] @ dec_int (pv_rate p) @ (if pv_param p = [] then [] else 47 # pv_param p)) < 128
     \<and> length (dec_int (pv_type p) @ 32 # pv_fmtp p) < 128
     \<and> (\<forall>f \<in> set (pv_fbs p). plain f \<and> length (dec_int (pv_type p) @ 32 # f) < 128)"

lemma distinct_types_update:
  "distinct (map pv_type ps) \<Longrightarrow> pv_type q = pv_type (ps ! i) \<Longrightarrow> i < length ps \<Longrightarrow> distinct (map pv_type (ps[i := q]))"
  by (metis list_update_id map_update)

lemma rtcp_fb_steps:
  assumes "distinct (map pv_type (mv_payloads v))" "i < length (mv_payloads v)" "pv_type (mv_payloads v ! i) = n" "is_int32 n"
    "\<forall>f \<in> set fs. plain f \<and> length (dec_int n @ 32 # f) < 128"
  shows "media_steps (map (\<lambda>f. ascii ''a=rtcp-fb:'' @ dec_int n @ [32] @ f) fs) v
    (v\<lparr>mv_payloads := (mv_payloads v)[i := (mv_payloads v ! i)\<lparr>pv_fbs := pv_fbs (mv_payloads v ! i) @ fs\<rparr>]\<rparr>)"
  using assms
proof (induction fs arbitrary: v)
  case (Cons f fs)
  let ?q = "(mv_payloads v ! i)\<lparr>pv_fbs := pv_fbs (mv_payloads v ! i) @ [f]\<rparr>"
  let ?v = "v\<lparr>mv_payloads := (mv_payloads v)[i := ?q]\<rparr>"
  have "media_step (ascii ''a=rtcp-fb:'' @ dec_int n @ [32] @ f) v ?v" by (rule rtcp_fb_step) (use Cons.prems in simp_all)
  moreover have "media_steps (map (\<lambda>f. ascii ''a=rtcp-fb:'' @ dec_int n @ [32] @ f) fs) ?v
      (?v\<lparr>mv_payloads := (mv_payloads ?v)[i := (mv_payloads ?v ! i)\<lparr>pv_fbs := pv_fbs (mv_payloads ?v ! i) @ fs\<rparr>]\<rparr>)"
    by (rule Cons.IH) (use Cons.prems distinct_types_update [of "mv_payloads v" ?q i] in simp_all)
  ultimately show ?case using Cons.prems(2) by auto
qed simp

lemma payload_steps:
  assumes "payload_readable p" "distinct (map pv_type (mv_payloads v))" "i < length (mv_payloads v)"
    "mv_payloads v ! i = blank_payload (pv_type p)"
  shows "media_steps (payload_lines p) v (v\<lparr>mv_payloads := (mv_payloads v)[i := p]\<rparr>)"
proof -
  note r = assms(1) [unfolded payload_readable_def]
  let ?q1 = "(blank_payload (pv_type p))\<lparr>pv_name := pv_name p, pv_rate := pv_rate p, pv_param := pv_param p\<rparr>"
  let ?q2 = "?q1\<lparr>pv_fbs := pv_fbs p\<rparr>"
  let ?v = "\<lambda>q. v\<lparr>mv_payloads := (mv_payloads v)[i := q]\<rparr>"
  have t: "pv_type (blank_payload (pv_type p)) = pv_type p" "pv_fbs ?q1 = []" by (simp_all add: blank_payload_def)
  have d: "distinct (map pv_type ((mv_payloads v)[i := q]))" if "pv_type q = pv_type p" for q
    using distinct_types_update [OF assms(2) _ assms(3)] that t assms(4) by simp
  have 1: "media_step (ascii ''a=rtpmap:'' @ dec_int (pv_type p) @ [32] @ pv_name p @ [47] @ dec_int (pv_rate p)
      @ (if pv_param p = [] then [] else 47 # pv_param p)) v (?v ?q1)"
    by (rule rtpmap_step [OF assms(2-4)]) (use r in \<open>auto split: if_splits\<close>)
  have "media_steps (map (\<lambda>f. ascii ''a=rtcp-fb:'' @ dec_int (pv_type p) @ [32] @ f) (pv_fbs p)) (?v ?q1)
      (?v ?q1\<lparr>mv_payloads := (mv_payloads (?v ?q1))[i := (mv_payloads (?v ?q1) ! i)\<lparr>pv_fbs := pv_fbs (mv_payloads (?v ?q1) ! i) @ pv_fbs p\<rparr>]\<rparr>)"
    by (rule rtcp_fb_steps) (use r assms(3) d t in simp_all)
  then have 2: "media_steps (map (\<lambda>f. ascii ''a=rtcp-fb:'' @ dec_int (pv_type p) @ [32] @ f) (pv_fbs p)) (?v ?q1) (?v ?q2)"
    using assms(3) t by simp
  have 3: "media_steps (if pv_fmtp p = [] then [] else [ascii ''a=fmtp:'' @ dec_int (pv_type p) @ [32] @ pv_fmtp p]) (?v ?q2) (?v p)"
  proof (cases "pv_fmtp p = []")
    case True
    then have "?q2 = p" by (simp add: blank_payload_def)
    then show ?thesis using True by simp
  next
    case False
    have q: "?q2\<lparr>pv_fmtp := pv_fmtp p\<rparr> = p" by (simp add: blank_payload_def)
    have "media_step (ascii ''a=fmtp:'' @ dec_int (pv_type p) @ [32] @ pv_fmtp p) (?v ?q2) (?v (?q2\<lparr>pv_fmtp := pv_fmtp p\<rparr>))"
      using False fmtp_step [of "?v ?q2" i "pv_type p" "pv_fmtp p"] r assms(3) d [of ?q2] t by (simp add: plain_def)
    then show ?thesis using False unfolding q by simp
  qed
  show ?thesis unfolding payload_lines_def using 1 media_steps_append [OF 2 3] by auto
qed

lemma payloads_steps:
  assumes "\<forall>p \<in> set qs. payload_readable p" "distinct (map pv_type (ps @ qs))"
  shows "media_steps (concat (map payload_lines qs)) (v\<lparr>mv_payloads := ps @ map (\<lambda>q. blank_payload (pv_type q)) qs\<rparr>) (v\<lparr>mv_payloads := ps @ qs\<rparr>)"
  using assms
proof (induction qs arbitrary: ps)
  case (Cons q qs)
  let ?b = "\<lambda>q. blank_payload (pv_type q)"
  have t: "map (\<lambda>x. pv_type (?b x)) qs = map pv_type qs" by (simp add: blank_payload_def)
  have "media_steps (payload_lines q) (v\<lparr>mv_payloads := ps @ map ?b (q # qs)\<rparr>)
      (v\<lparr>mv_payloads := ps @ map ?b (q # qs)\<rparr>\<lparr>mv_payloads := (mv_payloads (v\<lparr>mv_payloads := ps @ map ?b (q # qs)\<rparr>))[length ps := q]\<rparr>)"
    by (rule payload_steps) (use Cons.prems t in \<open>simp_all add: nth_append o_def blank_payload_def\<close>)
  then have "media_steps (payload_lines q) (v\<lparr>mv_payloads := ps @ map ?b (q # qs)\<rparr>) (v\<lparr>mv_payloads := (ps @ [q]) @ map ?b qs\<rparr>)"
    by (simp add: list_update_append)
  moreover have "media_steps (concat (map payload_lines qs)) (v\<lparr>mv_payloads := (ps @ [q]) @ map ?b qs\<rparr>) (v\<lparr>mv_payloads := (ps @ [q]) @ qs\<rparr>)"
    by (rule Cons.IH) (use Cons.prems in simp_all)
  ultimately show ?case using media_steps_append by fastforce
qed simp

subsection \<open>Sources\<close>

definition blank_ssrc :: "u32 \<Rightarrow> ssrc_view" where
  "blank_ssrc k = \<lparr>sv_ssrc = k, sv_cname = [], sv_msid = [], sv_tracker = [], sv_mslabel = [], sv_label = []\<rparr>"

lemma view_ssrc_updates [simp]:
  "view_ssrc (s\<lparr>ss_cname := m, ss_ssrc := k\<rparr>) = (view_ssrc s)\<lparr>sv_cname := str_of m, sv_ssrc := k\<rparr>"
  "view_ssrc (s\<lparr>ss_msid := m, ss_msid_tracker := t\<rparr>) = (view_ssrc s)\<lparr>sv_msid := str_of m, sv_tracker := str_of t\<rparr>"
  "view_ssrc (s\<lparr>ss_mslabel := m\<rparr>) = (view_ssrc s)\<lparr>sv_mslabel := str_of m\<rparr>"
  "view_ssrc (s\<lparr>ss_label := m\<rparr>) = (view_ssrc s)\<lparr>sv_label := str_of m\<rparr>"
  "view_ssrc (zero_ssrc_info\<lparr>ss_ssrc := k\<rparr>) = blank_ssrc k"
  by (simp_all add: view_ssrc_def zero_ssrc_info_def blank_ssrc_def)

lemma ssrc_ok_updates [simp]:
  "ssrc_ok s \<Longrightarrow> ssrc_ok (s\<lparr>ss_cname := m, ss_ssrc := k\<rparr>) \<longleftrightarrow> arr 64 m"
  "ssrc_ok s \<Longrightarrow> ssrc_ok (s\<lparr>ss_msid := m, ss_msid_tracker := t\<rparr>) \<longleftrightarrow> arr 64 m \<and> arr 64 t"
  "ssrc_ok s \<Longrightarrow> ssrc_ok (s\<lparr>ss_mslabel := m\<rparr>) \<longleftrightarrow> arr 64 m"
  "ssrc_ok s \<Longrightarrow> ssrc_ok (s\<lparr>ss_label := m\<rparr>) \<longleftrightarrow> arr 64 m"
  "ssrc_ok (zero_ssrc_info\<lparr>ss_ssrc := k\<rparr>)"
  by (auto simp: ssrc_ok_def zero_ssrc_info_def arr_zeros)

lemma find_ssrc_last: "k \<notin> ss_ssrc ` set pre \<Longrightarrow> ss_ssrc u = k \<Longrightarrow> find_ssrc (pre @ [u]) n k = Some (n + length pre)"
  by (induction pre arbitrary: n) auto

lemma find_ssrc_none: "k \<notin> ss_ssrc ` set ss \<Longrightarrow> find_ssrc ss n k = None"
  by (induction ss arbitrary: n) auto

text \<open>The lines about a source follow each other: it is the last of the list, or there is none yet.\<close>

definition fetched :: "u32 \<Rightarrow> media_view \<Rightarrow> ssrc_view list \<Rightarrow> ssrc_view \<Rightarrow> bool" where
  "fetched k v pre u \<longleftrightarrow> sv_ssrc u = k \<and> k \<notin> sv_ssrc ` set pre \<and> (mv_ssrcs v = pre @ [u] \<or> mv_ssrcs v = pre \<and> u = blank_ssrc k)"

lemma fetch_ssrc:
  assumes "media_ok d" "view_media d = v" "fetched k v pre u"
  obtains d1 where "yang_mediadesc_fetch_or_create_ssrc_info d k = Some (length pre, d1)" "media_ok d1"
    "view_media d1 = v\<lparr>mv_ssrcs := pre @ [u]\<rparr>"
proof -
  let ?ss = "md_ssrc_infos d"
  have m: "mv_ssrcs v = map view_ssrc (vec_list ?ss)" using assms(2) by (auto simp: view_media_def)
  have ok: "vec_ok ?ss" "\<forall>s \<in> set (vec_list ?ss). ssrc_ok s" using assms(1) by (simp_all add: media_ok_def)
  have k: "sv_ssrc ` set (map view_ssrc xs) = ss_ssrc ` set xs" for xs by (simp add: image_image view_ssrc_def)
  from assms(3) consider (old) "mv_ssrcs v = pre @ [u]" | (new) "mv_ssrcs v = pre" "u = blank_ssrc k" unfolding fetched_def by blast
  then show thesis
  proof cases
    case old
    then obtain xs x where x: "vec_list ?ss = xs @ [x]" "map view_ssrc xs = pre" "view_ssrc x = u"
      using m by (auto simp: map_eq_append_conv append_eq_map_conv)
    have "sv_ssrc (view_ssrc x) = ss_ssrc x" by (simp add: view_ssrc_def)
    then have "ss_ssrc x = k" "k \<notin> ss_ssrc ` set xs" using assms(3) x k [of xs] by (simp_all add: fetched_def)
    then have "find_ssrc (vec_list ?ss) 0 k = Some (length pre)" using find_ssrc_last [of k xs x 0] x(1,2) by auto
    then have "yang_mediadesc_fetch_or_create_ssrc_info d k = Some (length pre, d)"
      using ok(1) by (simp add: yang_mediadesc_fetch_or_create_ssrc_info_def vec_all_ok)
    moreover have "view_media d = v\<lparr>mv_ssrcs := pre @ [u]\<rparr>" using assms(2) old by simp
    ultimately show thesis using that assms(1) by blast
  next
    case new
    have n: "find_ssrc (vec_list ?ss) 0 k = None"
      using find_ssrc_none [of k "vec_list ?ss" 0] assms(3) new m k [of "vec_list ?ss"] by (simp add: fetched_def)
    obtain ss where ss: "yang_insert_Vector zero_ssrc_info ?ss (Some (zero_ssrc_info\<lparr>ss_ssrc := k\<rparr>)) = Some ss" "vec_ok ss"
      "vec_list ss = vec_list ?ss @ [zero_ssrc_info\<lparr>ss_ssrc := k\<rparr>]" using vec.insert_elems [OF ok(1)] by blast
    have "nat (vsize ss - 1) = length pre"
      using length_vec_list [OF ss(2)] ss(3) m new by (simp add: nat_diff_distrib)
    then have "yang_mediadesc_fetch_or_create_ssrc_info d k = Some (length pre, d\<lparr>md_ssrc_infos := ss\<rparr>)"
      using ok(1) n ss(1) by (simp add: yang_mediadesc_fetch_or_create_ssrc_info_def vec_all_ok)
    moreover have "media_ok (d\<lparr>md_ssrc_infos := ss\<rparr>)" using assms(1) ss(2,3) ok(2) by simp
    moreover have "view_media (d\<lparr>md_ssrc_infos := ss\<rparr>) = v\<lparr>mv_ssrcs := pre @ [u]\<rparr>" using assms(2) ss(3) new m by simp
    ultimately show thesis by (rule that)
  qed
qed

lemma ssrc_line_step:
  assumes "fetched k v pre u" "0 \<notin> set t" "CHR '':'' \<notin> set name" "CHR '' '' \<notin> set name" "CHR 0x00 \<notin> set name" "length name < 16"
    and "length (dec_int (sint k) @ [32] @ ascii name @ [58] @ t) < 128"
    and "\<And>info attr W. ssrc_ok info \<Longrightarrow> view_ssrc info = u \<Longrightarrow> c_str attr = Some (ascii name) \<Longrightarrow> c_str W = Some t
      \<Longrightarrow> \<exists>info'. ssrc_attribute k attr W info = Some (Yang_Ok, info') \<and> ssrc_ok info' \<and> view_ssrc info' = q"
  shows "media_step (ssrc_line k name t) v (v\<lparr>mv_ssrcs := pre @ [q]\<rparr>)"
proof -
  let ?n = "dec_int (sint k)" let ?t = "?n @ 32 # ascii name @ 58 # t"
  have "media_step (ascii (''a='' @ ''ssrc'' @ '':'') @ ?t) v (v\<lparr>mv_ssrcs := pre @ [q]\<rparr>)"
  proof (rule media_step_value)
    fix d A V
    assume d: "media_ok d" "view_media d = v" and A: "split_attribute (ascii ''ssrc'' @ 58 # ?t @ [0]) = Some (A, V)" "c_str A = Some (ascii ''ssrc'')"
      and V: "c_str V = Some ?t"
    obtain d1 where d1: "yang_mediadesc_fetch_or_create_ssrc_info d k = Some (length pre, d1)" "media_ok d1"
      "view_media d1 = v\<lparr>mv_ssrcs := pre @ [u]\<rparr>" by (rule fetch_ssrc [OF d assms(1)])
    let ?ss = "md_ssrc_infos d1"
    have m: "map view_ssrc (vec_list ?ss) = pre @ [u]" using arg_cong [OF d1(3), of mv_ssrcs] by (simp add: view_media_def)
    have ok: "vec_ok ?ss" "\<forall>s \<in> set (vec_list ?ss). ssrc_ok s" using d1(2) by (simp_all add: media_ok_def)
    have i: "length pre < length (vec_list ?ss)" using arg_cong [OF m, of length] by simp
    have x: "ssrc_ok (vec_list ?ss ! length pre)" "view_ssrc (vec_list ?ss ! length pre) = u"
      using ok(2) i arg_cong [OF m, of "\<lambda>l. l ! length pre"] by simp_all
    obtain attr where attr: "mem_write (replicate 16 0) 0 (ascii name) = Some attr" "c_str attr = Some (ascii name)"
      using memcpy_text [of "ascii name" 16] assms(5,6) by (auto simp: holds_text_def)
    let ?k = "Suc (length ?n) + length name + 1"
    have W: "c_str (drop ?k V) = Some t" using c_str_drop [OF V, of ?k] by simp
    obtain info where info: "ssrc_attribute k attr (drop ?k V) (vec_list ?ss ! length pre) = Some (Yang_Ok, info)" "ssrc_ok info" "view_ssrc info = q"
      using assms(8) [OF x attr(2) W] by blast
    obtain qs where qs: "mem_load (payload ?ss) (int (length pre)) = Some (vec_list ?ss ! length pre)"
      "mem_store (payload ?ss) (int (length pre)) info = Some qs" "vec_ok (?ss\<lparr>payload := qs\<rparr>)"
      "vec_list (?ss\<lparr>payload := qs\<rparr>) = (vec_list ?ss)[length pre := info]" by (rule vec_update [OF ok(1) i])
    have r: "map view_ssrc ((vec_list ?ss)[length pre := info]) = pre @ [q]" using m info(3) by (simp add: map_update)
    have p: "c_strstr ?t [58] = Some (length (?n @ 32 # ascii name))"
      using c_strstr_sep [of 58 "?n @ 32 # ascii name" t] assms(3) by simp
    have n: "number_before ?t (length (?n @ 32 # ascii name)) = Some (sint k)"
      using number_before_dec [of "sint k" "32 # ascii name" "58 # t"] assms(5,6) by (simp add: is_digit_def)
    have "\<forall>s \<in> set ((vec_list ?ss)[length pre := info]). ssrc_ok s"
      using set_update_subset_insert [of "vec_list ?ss" "length pre" info] ok(2) info(2) by auto
    then show "\<exists>d'. yang_mediadesc_parse_attribute d (ascii ''ssrc'' @ 58 # ?t @ [0]) = Some (Yang_Ok, d') \<and> media_ok d'
        \<and> view_media d' = v\<lparr>mv_ssrcs := pre @ [q]\<rparr>"
      unfolding attribute_dispatch [OF A] yang_mediadesc_parse_attr_ssrc_def update_ssrc_def
      using p n d1 qs info(1) r assms(3) attr(1) by (simp add: V)
  qed (use assms in simp_all)
  then show ?thesis by (simp add: ssrc_line_def)
qed

definition ssrc_readable :: "ssrc_view \<Rightarrow> bool" where
  "ssrc_readable s \<longleftrightarrow> plain (sv_cname s) \<and> plain (sv_msid s) \<and> plain (sv_tracker s) \<and> plain (sv_mslabel s) \<and> plain (sv_label s)
     \<and> length (sv_cname s) < 64 \<and> length (sv_msid s) < 64 \<and> length (sv_tracker s) < 64 \<and> length (sv_mslabel s) < 64 \<and> length (sv_label s) < 64
     \<and> 32 \<notin> set (sv_msid s) \<and> 32 \<notin> set (sv_tracker s) \<and> length (sv_msid s) + length (sv_tracker s) < 110 \<and> (sv_msid s = [] \<longrightarrow> sv_tracker s = [])"

lemma ssrc_dispatch:
  assumes "c_str attr = Some (ascii name)"
  shows "ssrc_attribute k attr W info =
    (if name = ''cname'' then map_option (\<lambda>c. (Yang_Ok, info\<lparr>ss_cname := c, ss_ssrc := k\<rparr>)) (c_strcpy (ss_cname info) W)
     else if name = ''msid'' then ssrc_msid W info
     else if name = ''mslabel'' then map_option (\<lambda>l. (Yang_Ok, info\<lparr>ss_mslabel := l\<rparr>)) (c_strcpy (ss_mslabel info) W)
     else if name = ''label'' then map_option (\<lambda>l. (Yang_Ok, info\<lparr>ss_label := l\<rparr>)) (c_strcpy (ss_label info) W)
     else Some (Yang_Ok, info))"
  using assms by (simp add: ssrc_attribute_def c_streq_lit map_conv_bind_option o_def cong: if_cong split del: if_split)

lemma ssrc_cname:
  assumes "ssrc_ok info" "view_ssrc info = u" "sv_ssrc u = k" "c_str attr = Some (ascii ''cname'')" "c_str W = Some t" "length t < 64"
  shows "\<exists>info'. ssrc_attribute k attr W info = Some (Yang_Ok, info') \<and> ssrc_ok info' \<and> view_ssrc info' = u\<lparr>sv_cname := t\<rparr>"
proof -
  have "arr 64 (ss_cname info)" using assms(1) by (simp add: ssrc_ok_def)
  then obtain m where "c_strcpy (ss_cname info) W = Some m" "arr 64 m" "str_of m = t" by (rule strcpy_field [OF _ assms(5,6)])
  then show ?thesis using assms(1-3) by (simp add: ssrc_dispatch [OF assms(4)])
qed

lemma ssrc_labels:
  assumes "ssrc_ok info" "view_ssrc info = u" "c_str W = Some t" "length t < 64"
  shows "c_str attr = Some (ascii ''mslabel'') \<Longrightarrow> \<exists>info'. ssrc_attribute k attr W info = Some (Yang_Ok, info') \<and> ssrc_ok info' \<and> view_ssrc info' = u\<lparr>sv_mslabel := t\<rparr>"
    "c_str attr = Some (ascii ''label'') \<Longrightarrow> \<exists>info'. ssrc_attribute k attr W info = Some (Yang_Ok, info') \<and> ssrc_ok info' \<and> view_ssrc info' = u\<lparr>sv_label := t\<rparr>"
proof -
  have a: "arr 64 (ss_mslabel info)" "arr 64 (ss_label info)" using assms(1) by (simp_all add: ssrc_ok_def)
  obtain m where "c_strcpy (ss_mslabel info) W = Some m" "arr 64 m" "str_of m = t" by (rule strcpy_field [OF a(1) assms(3,4)])
  then show "c_str attr = Some (ascii ''mslabel'') \<Longrightarrow> \<exists>info'. ssrc_attribute k attr W info = Some (Yang_Ok, info') \<and> ssrc_ok info' \<and> view_ssrc info' = u\<lparr>sv_mslabel := t\<rparr>"
    using assms(1,2) by (simp add: ssrc_dispatch)
  obtain l where "c_strcpy (ss_label info) W = Some l" "arr 64 l" "str_of l = t" by (rule strcpy_field [OF a(2) assms(3,4)])
  then show "c_str attr = Some (ascii ''label'') \<Longrightarrow> \<exists>info'. ssrc_attribute k attr W info = Some (Yang_Ok, info') \<and> ssrc_ok info' \<and> view_ssrc info' = u\<lparr>sv_label := t\<rparr>"
    using assms(1,2) by (simp add: ssrc_dispatch)
qed

lemma ssrc_msid_text:
  assumes "ssrc_ok info" "view_ssrc info = u" "c_str attr = Some (ascii ''msid'')" "c_str W = Some (m @ (if t = [] then [] else 32 # t))"
    "m \<noteq> []" "32 \<notin> set m" "32 \<notin> set t" "0 \<notin> set m" "0 \<notin> set t" "length m < 64" "length t < 64" "sv_tracker u = []"
  shows "\<exists>info'. ssrc_attribute k attr W info = Some (Yang_Ok, info') \<and> ssrc_ok info' \<and> view_ssrc info' = u\<lparr>sv_msid := m, sv_tracker := t\<rparr>"
proof -
  have a: "arr 64 (ss_msid info)" "arr 64 (ss_msid_tracker info)" using assms(1) by (simp_all add: ssrc_ok_def)
  have e: "str_of (ss_msid_tracker info) = []" using assms(2,12) by (auto simp: view_ssrc_def)
  have tk: "tokens [32] (m @ (if t = [] then [] else 32 # t)) = (if t = [] then [m] else [m, t])"
    using assms(5-7) by (simp add: tokens_field tokens_plain)
  obtain r s where s: "yang_cstr_split W [32, 0] = Some (r, s)" "strs_str s = map (\<lambda>p. p @ [0]) (if t = [] then [m] else [m, t])"
    "strs_vsize s = int (length (if t = [] then [m] else [m, t]))" by (rule cstr_split_char [OF assms(4), of 32]) (simp_all only: tk zero_neq_numeral not_False_eq_True, simp)
  obtain v where v: "yang_cstr_split_src W [32, 0] = Some v" "t = [] \<longrightarrow> v = W"
    using assms(4,6) cstr_split_src_plain [of W m "[32, 0]" "[32]"] by (cases "t = []") (auto simp: yang_cstr_split_src_def)
  obtain m' where m: "c_strcpy (ss_msid info) (m @ [0]) = Some m'" "arr 64 m'" "str_of m' = m"
    by (rule strcpy_field [OF a(1) c_str_text [OF assms(8)] assms(10)])
  obtain t' where t: "c_strcpy (ss_msid_tracker info) (t @ [0]) = Some t'" "arr 64 t'" "str_of t' = t"
    by (rule strcpy_field [OF a(2) c_str_text [OF assms(9)] assms(11)])
  show ?thesis
  proof (cases "t = []")
    case True
    then have W: "c_str W = Some m" using assms(4) by simp
    obtain w where w: "c_strcpy (ss_msid info) W = Some w" "arr 64 w" "str_of w = m" by (rule strcpy_field [OF a(1) W assms(10)])
    show ?thesis
      using True s v w e a assms(1,2) ssrc_ok_updates(2) [where s = info and m = w and t = "ss_msid_tracker info"]
        view_ssrc_updates(2) [where s = info and m = w and t = "ss_msid_tracker info"]
      by (simp add: ssrc_dispatch [OF assms(3)] ssrc_msid_def nth_str_def mem_load_def)
  next
    case False
    then show ?thesis
      using s v m t assms(1,2) by (simp add: ssrc_dispatch [OF assms(3)] ssrc_msid_def nth_str_def mem_load_def)
  qed
qed

lemma ssrc_steps:
  assumes "ssrc_readable s" "sv_ssrc s \<notin> sv_ssrc ` set (mv_ssrcs v)"
  shows "media_steps (ssrc_lines s) v (v\<lparr>mv_ssrcs := mv_ssrcs v @ [s]\<rparr>)"
proof -
  note r = assms(1) [unfolded ssrc_readable_def plain_def]
  let ?k = "sv_ssrc s" let ?pre = "mv_ssrcs v" let ?v = "\<lambda>u. v\<lparr>mv_ssrcs := ?pre @ [u]\<rparr>"
  have l: "length (dec_int (sint ?k)) \<le> 11" by (rule dec_int_length) simp
  let ?u1 = "(blank_ssrc ?k)\<lparr>sv_cname := sv_cname s\<rparr>" let ?u2 = "?u1\<lparr>sv_msid := sv_msid s, sv_tracker := sv_tracker s\<rparr>"
  let ?u3 = "?u2\<lparr>sv_mslabel := sv_mslabel s\<rparr>"
  have b: "sv_ssrc (blank_ssrc ?k) = ?k" "sv_tracker (blank_ssrc ?k) = []" by (simp_all add: blank_ssrc_def)
  have 1: "media_step (ssrc_line ?k ''cname'' (sv_cname s)) v (?v ?u1)"
    by (rule ssrc_line_step [where u = "blank_ssrc ?k"]) (use r assms(2) l b ssrc_cname in \<open>auto simp: fetched_def\<close>)
  have 2: "media_steps (if sv_msid s = [] then [] else [ssrc_line ?k ''msid'' (sv_msid s @ (if sv_tracker s = [] then [] else 32 # sv_tracker s))])
      (?v ?u1) (?v ?u2)"
  proof (cases "sv_msid s = []")
    case True
    then have "?u2 = ?u1" using r by (simp add: blank_ssrc_def)
    then show ?thesis using True by simp
  next
    case False
    have "media_step (ssrc_line ?k ''msid'' (sv_msid s @ (if sv_tracker s = [] then [] else 32 # sv_tracker s))) (?v ?u1)
        ((?v ?u1)\<lparr>mv_ssrcs := ?pre @ [?u2]\<rparr>)"
      by (rule ssrc_line_step [where u = ?u1]) (use False r assms(2) l b in \<open>auto simp: fetched_def intro!: ssrc_msid_text\<close>)
    then show ?thesis using False by simp
  qed
  have 3: "media_steps (if sv_mslabel s = [] then [] else [ssrc_line ?k ''mslabel'' (sv_mslabel s)]) (?v ?u2) (?v ?u3)"
  proof (cases "sv_mslabel s = []")
    case False
    have "media_step (ssrc_line ?k ''mslabel'' (sv_mslabel s)) (?v ?u2) ((?v ?u2)\<lparr>mv_ssrcs := ?pre @ [?u3]\<rparr>)"
      by (rule ssrc_line_step [where u = ?u2]) (use r assms(2) l b in \<open>auto simp: fetched_def intro!: ssrc_labels\<close>)
    then show ?thesis using False by simp
  qed (simp add: blank_ssrc_def)
  have 4: "media_steps (if sv_label s = [] then [] else [ssrc_line ?k ''label'' (sv_label s)]) (?v ?u3) (?v s)"
  proof (cases "sv_label s = []")
    case True
    then have "?u3 = s" by (simp add: blank_ssrc_def)
    then show ?thesis using True by simp
  next
    case False
    have q: "?u3\<lparr>sv_label := sv_label s\<rparr> = s" by (simp add: blank_ssrc_def)
    have "media_step (ssrc_line ?k ''label'' (sv_label s)) (?v ?u3) ((?v ?u3)\<lparr>mv_ssrcs := ?pre @ [?u3\<lparr>sv_label := sv_label s\<rparr>]\<rparr>)"
      by (rule ssrc_line_step [where u = ?u3]) (use r assms(2) l b in \<open>auto simp: fetched_def intro!: ssrc_labels\<close>)
    then show ?thesis using False unfolding q by simp
  qed
  show ?thesis unfolding ssrc_lines_def using 1 media_steps_append [OF 2 media_steps_append [OF 3 4]] by auto
qed

end
