(* ===== verification/Sdp_Facts.thy ===== *)
theory Sdp_Facts
  imports Sdp_Read
begin

text \<open>
  A printed session description is read back: \<open>heard\<close> is what the parser gets from the lines of a description, and what it loses.
\<close>

section \<open>A media description\<close>

lemma ssrcs_steps:
  assumes "\<forall>s \<in> set ss. ssrc_readable s" "distinct (map sv_ssrc (mv_ssrcs v @ ss))"
  shows "media_steps (concat (map ssrc_lines ss)) v (v\<lparr>mv_ssrcs := mv_ssrcs v @ ss\<rparr>)"
  using assms
proof (induction ss arbitrary: v)
  case (Cons s ss)
  let ?v = "v\<lparr>mv_ssrcs := mv_ssrcs v @ [s]\<rparr>"
  have "media_steps (ssrc_lines s) v ?v" by (rule ssrc_steps) (use Cons.prems in auto)
  moreover have "media_steps (concat (map ssrc_lines ss)) ?v (?v\<lparr>mv_ssrcs := mv_ssrcs ?v @ ss\<rparr>)"
    by (rule Cons.IH) (use Cons.prems in auto)
  ultimately show ?case using media_steps_append by fastforce
qed simp

definition candidate_readable :: "candidate_view \<Rightarrow> bool" where
  "candidate_readable c \<longleftrightarrow> is_int32 (cv_port c) \<and> plain (cv_ip c) \<and> plain (cv_type c) \<and> cv_ip c \<noteq> [] \<and> cv_type c \<noteq> [] \<and> 32 \<notin> set (cv_ip c)
     \<and> 32 \<notin> set (cv_type c) \<and> length (cv_ip c) < 64 \<and> length (cv_type c) < 32 \<and> length (cv_ip c) + length (cv_type c) < 60"

definition candidate_fields :: "int \<Rightarrow> candidate_view \<Rightarrow> u8 list list" where
  "candidate_fields i c = [dec_int i, dec_int 1, ascii ''udp'', dec_int candidate_priority, cv_ip c, dec_int (cv_port c), ascii ''typ'', cv_type c,
     ascii ''generation'', ascii ''0'']"

lemma candidate_line_fields: "candidate_line i c = ascii ''a=candidate:'' @ joined 32 (candidate_fields i c)"
proof -
  have "ascii '' udp '' = [32] @ ascii ''udp'' @ [32]" "ascii '' typ '' = [32] @ ascii ''typ'' @ [32]"
    "ascii '' generation 0'' = [32] @ ascii ''generation'' @ [32] @ ascii ''0''" by (simp_all add: ascii_def)
  then show ?thesis by (simp add: candidate_line_def candidate_fields_def)
qed

lemma candidate_step:
  assumes "candidate_readable c" "is_int32 i"
  shows "media_step (candidate_line i c) v (v\<lparr>mv_candidates := mv_candidates v @ [c]\<rparr>)"
proof -
  note r = assms(1) [unfolded candidate_readable_def plain_def]
  let ?t = "joined 32 (candidate_fields i c)"
  have p: "is_int32 candidate_priority" "is_int32 1" by (simp_all add: is_int32_def candidate_priority_def)
  have o: "dec_int 1 = [49]" by (simp add: dec_int_def dec_nat.simps)
  have l: "length ?t < 128"
    using dec_int_length [OF assms(2)] dec_int_length [OF p(1)] dec_int_length [of "cv_port c"] r
    by (simp add: candidate_fields_def o)
  have z: "0 \<notin> set ?t" using r by (simp add: candidate_fields_def)
  have tk: "tokens [32] ?t = candidate_fields i c" by (rule tokens_joined) (use r in \<open>simp add: candidate_fields_def\<close>)
  have "media_step (ascii (''a='' @ ''candidate'' @ '':'') @ ?t) v (v\<lparr>mv_candidates := mv_candidates v @ [c]\<rparr>)"
  proof (rule media_step_value)
    fix d A V
    assume d: "media_ok d" "view_media d = v" and A: "split_attribute (ascii ''candidate'' @ 58 # ?t @ [0]) = Some (A, V)" "c_str A = Some (ascii ''candidate'')"
      and V: "c_str V = Some ?t"
    have e: "vec_ok (md_candidates d)" "\<forall>c \<in> set (vec_list (md_candidates d)). candidate_ok c" using d by (simp_all add: media_ok_def)
    have m: "mv_candidates v = map view_candidate (vec_list (md_candidates d))" using d by (auto simp: view_media_def)
    obtain q s where s: "yang_cstr_split V [32, 0] = Some (q, s)" "strs_str s = map (\<lambda>p. p @ [0]) (candidate_fields i c)"
      "strs_vsize s = int (length (candidate_fields i c))"
      by (rule cstr_split_char [OF V, of 32]) (simp_all only: tk zero_neq_numeral not_False_eq_True, simp)
    have n: "strs_vsize s = 10" by (simp add: s(3) candidate_fields_def)
    have nth: "nth_str s 4 = Some (cv_ip c @ [0])" "nth_str s 5 = Some (dec_int (cv_port c) @ [0])" "nth_str s 7 = Some (cv_type c @ [0])"
      by (simp_all add: nth_str_def s(2) mem_load_def candidate_fields_def)
    have z: "length (cd_ip zero_candidate) = 64" "length (cd_type zero_candidate) = 32" by (simp_all add: zero_candidate_def)
    obtain ip where ip: "c_strcpy (cd_ip zero_candidate) (cv_ip c @ [0]) = Some ip" "arr 64 ip" "str_of ip = cv_ip c"
      by (rule strcpy_arr [OF z(1) c_str_text [of "cv_ip c"]]) (use r in simp_all)
    obtain ty where ty: "c_strcpy (cd_type zero_candidate) (cv_type c @ [0]) = Some ty" "arr 32 ty" "str_of ty = cv_type c"
      by (rule strcpy_arr [OF z(2) c_str_text [of "cv_type c"]]) (use r in simp_all)
    let ?c = "\<lparr>cd_port = cv_port c, cd_ip = ip, cd_type = ty\<rparr>"
    obtain cs where cs: "yang_insert_Vector zero_candidate (md_candidates d) (Some ?c) = Some cs" "vec_ok cs" "vec_list cs = vec_list (md_candidates d) @ [?c]"
      using vec.insert_elems [OF e(1)] by blast
    have c: "candidate_ok ?c" "view_candidate ?c = c" using ip(2,3) ty(2,3) r by (simp_all add: candidate_ok_def view_candidate_def)
    show "\<exists>d'. yang_mediadesc_parse_attribute d (ascii ''candidate'' @ 58 # ?t @ [0]) = Some (Yang_Ok, d') \<and> media_ok d'
        \<and> view_media d' = v\<lparr>mv_candidates := mv_candidates v @ [c]\<rparr>"
      unfolding attribute_dispatch [OF A] yang_mediadesc_parse_attr_candidate_def
      using d s(1) n nth ip(1) ty(1) cs e c m atoi_dec [of "cv_port c" "dec_int (cv_port c) @ [0]"] r by simp
  qed (use l z in simp_all)
  then show ?thesis by (simp add: candidate_line_fields)
qed

lemma candidate_steps:
  assumes "\<forall>c \<in> set cs. candidate_readable c" "is_int32 (int (n + length cs))"
  shows "media_steps (map (\<lambda>(i, c). candidate_line (int i) c) (enumerate n cs)) v (v\<lparr>mv_candidates := mv_candidates v @ cs\<rparr>)"
  using assms
proof (induction cs arbitrary: n v)
  case (Cons c cs)
  let ?v = "v\<lparr>mv_candidates := mv_candidates v @ [c]\<rparr>"
  have "media_step (candidate_line (int n) c) v ?v" by (rule candidate_step) (use Cons.prems in \<open>simp_all add: is_int32_def\<close>)
  moreover have "media_steps (map (\<lambda>(i, c). candidate_line (int i) c) (enumerate (Suc n) cs)) ?v (?v\<lparr>mv_candidates := mv_candidates ?v @ cs\<rparr>)"
    by (rule Cons.IH) (use Cons.prems in simp_all)
  ultimately show ?case by auto
qed simp

text \<open>What the parser has after the first line of a media description, and after all of them\<close>

definition opened :: "media_view \<Rightarrow> media_view" where
  "opened v = \<lparr>mv_type = mv_type v, mv_port = mv_port v, mv_protos = mv_protos v, mv_payloads = map (\<lambda>p. blank_payload (pv_type p)) (mv_payloads v),
     mv_info = blank_info, mv_mid = [], mv_msid = [], mv_tracker = [], mv_extmaps = [], mv_sendonly = False, mv_recvonly = False,
     mv_sendrecv = False, mv_inactive = False, mv_mux = False, mv_rsize = False, mv_ssrcs = [], mv_sctp = False, mv_candidates = []\<rparr>"

definition media_readable :: "media_view \<Rightarrow> bool" where
  "media_readable v \<longleftrightarrow> is_int32 (mv_port v) \<and> plain (mv_type v) \<and> plain (mv_protos v) \<and> mv_type v \<noteq> [] \<and> mv_protos v \<noteq> []
     \<and> 32 \<notin> set (mv_type v) \<and> 32 \<notin> set (mv_protos v) \<and> length (mv_type v) < 16 \<and> length (mv_protos v) < 64
     \<and> mv_payloads v \<noteq> [] \<and> (\<forall>p \<in> set (mv_payloads v). payload_readable p) \<and> distinct (map pv_type (mv_payloads v))
     \<and> info_readable (mv_info v) \<and> plain (mv_mid v) \<and> length (mv_mid v) < 64
     \<and> plain (mv_msid v) \<and> plain (mv_tracker v) \<and> 32 \<notin> set (mv_msid v) \<and> 32 \<notin> set (mv_tracker v) \<and> (mv_msid v = [] \<longleftrightarrow> mv_tracker v = [])
     \<and> length (mv_msid v) < 64 \<and> length (mv_tracker v) < 64 \<and> length (mv_msid v @ 32 # mv_tracker v) < 128
     \<and> (\<forall>(n, t) \<in> set (mv_extmaps v). is_int32 n \<and> plain t \<and> length (dec_int n @ 32 # t) < 128) \<and> distinct (map fst (mv_extmaps v))
     \<and> (\<forall>s \<in> set (mv_ssrcs v). ssrc_readable s) \<and> distinct (map sv_ssrc (mv_ssrcs v))
     \<and> (\<forall>c \<in> set (mv_candidates v). candidate_readable c) \<and> is_int32 (int (length (mv_candidates v)))"

definition media_rest :: "media_view \<Rightarrow> u8 list list" where
  "media_rest v = drop 2 (media_lines v)"

lemma media_lines_rest: "media_lines v = [media_line v, ascii ''c=IN IP4 0.0.0.0''] @ media_rest v"
  by (simp add: media_rest_def media_lines_def)

lemma media_rest_steps:
  assumes "media_readable v"
  shows "media_steps (media_rest v) (opened v) (v\<lparr>mv_sctp := False\<rparr>)"
proof -
  note r = assms [unfolded media_readable_def]
  let ?v1 = "(opened v)\<lparr>mv_info := mv_info v\<rparr>" let ?v2 = "?v1\<lparr>mv_mid := mv_mid v\<rparr>"
  let ?v3 = "?v2\<lparr>mv_msid := mv_msid v, mv_tracker := mv_tracker v\<rparr>" let ?v4 = "?v3\<lparr>mv_extmaps := mv_extmaps v\<rparr>"
  let ?f1 = "?v4\<lparr>mv_sendonly := mv_sendonly v\<rparr>" let ?f2 = "?f1\<lparr>mv_recvonly := mv_recvonly v\<rparr>" let ?f3 = "?f2\<lparr>mv_sendrecv := mv_sendrecv v\<rparr>"
  let ?f4 = "?f3\<lparr>mv_inactive := mv_inactive v\<rparr>" let ?f5 = "?f4\<lparr>mv_mux := mv_mux v\<rparr>" let ?f6 = "?f5\<lparr>mv_rsize := mv_rsize v\<rparr>"
  let ?v5 = "?f6\<lparr>mv_payloads := mv_payloads v\<rparr>" let ?v6 = "?v5\<lparr>mv_ssrcs := mv_ssrcs v\<rparr>" let ?v7 = "?v6\<lparr>mv_candidates := mv_candidates v\<rparr>"
  note b = opened_def
  have 1: "media_steps (info_lines (mv_info v)) (opened v) ?v1" by (rule media_info_steps) (use r in \<open>simp_all add: b\<close>)
  have 2: "media_steps [ascii ''a=mid:'' @ mv_mid v] ?v1 ?v2" by (rule media_steps_one, rule mid_step) (use r in \<open>simp_all add: plain_def\<close>)
  have 3: "media_steps (msid_lines (mv_msid v) (mv_tracker v)) ?v2 ?v3" by (rule msid_steps) (use r in \<open>simp_all add: b plain_def\<close>)
  have "media_steps (map extmap_line (mv_extmaps v)) ?v3 (?v3\<lparr>mv_extmaps := mv_extmaps ?v3 @ mv_extmaps v\<rparr>)"
    by (rule extmap_steps) (use r in \<open>auto simp: b plain_def\<close>)
  then have 4: "media_steps (map extmap_line (mv_extmaps v)) ?v3 ?v4" by (simp add: b)
  have f: "media_steps (flag_line (mv_sendonly v) ''a=sendonly'') ?v4 ?f1" "media_steps (flag_line (mv_recvonly v) ''a=recvonly'') ?f1 ?f2"
    "media_steps (flag_line (mv_sendrecv v) ''a=sendrecv'') ?f2 ?f3" "media_steps (flag_line (mv_inactive v) ''a=inactive'') ?f3 ?f4"
    "media_steps (flag_line (mv_mux v) ''a=rtcp-mux'') ?f4 ?f5" "media_steps (flag_line (mv_rsize v) ''a=rtcp-rsize'') ?f5 ?f6"
    by (rule media_steps_eq, rule flag_steps, simp add: b)+
  have "media_steps (concat (map payload_lines (mv_payloads v))) (?f6\<lparr>mv_payloads := [] @ map (\<lambda>q. blank_payload (pv_type q)) (mv_payloads v)\<rparr>)
      (?f6\<lparr>mv_payloads := [] @ mv_payloads v\<rparr>)" by (rule payloads_steps) (use r in simp_all)
  then have 5: "media_steps (concat (map payload_lines (mv_payloads v))) ?f6 ?v5" by (simp add: b)
  have "media_steps (concat (map ssrc_lines (mv_ssrcs v))) ?v5 (?v5\<lparr>mv_ssrcs := mv_ssrcs ?v5 @ mv_ssrcs v\<rparr>)"
    by (rule ssrcs_steps) (use r in \<open>simp_all add: b\<close>)
  then have 6: "media_steps (concat (map ssrc_lines (mv_ssrcs v))) ?v5 ?v6" by (simp add: b)
  have "media_steps (candidate_lines (mv_candidates v)) ?v6 (?v6\<lparr>mv_candidates := mv_candidates ?v6 @ mv_candidates v\<rparr>)"
    unfolding candidate_lines_def by (rule candidate_steps) (use r in simp_all)
  then have 7: "media_steps (candidate_lines (mv_candidates v)) ?v6 ?v7" by (simp add: b)
  have e: "?v7 = v\<lparr>mv_sctp := False\<rparr>" by (simp add: b)
  have l: "media_rest v = info_lines (mv_info v) @ [ascii ''a=mid:'' @ mv_mid v]
     @ msid_lines (mv_msid v) (mv_tracker v) @ map extmap_line (mv_extmaps v)
     @ flag_line (mv_sendonly v) ''a=sendonly'' @ flag_line (mv_recvonly v) ''a=recvonly'' @ flag_line (mv_sendrecv v) ''a=sendrecv''
     @ flag_line (mv_inactive v) ''a=inactive'' @ flag_line (mv_mux v) ''a=rtcp-mux'' @ flag_line (mv_rsize v) ''a=rtcp-rsize''
     @ concat (map payload_lines (mv_payloads v)) @ concat (map ssrc_lines (mv_ssrcs v)) @ flag_line (mv_sctp v) ''a=sctp-port:5000''
     @ candidate_lines (mv_candidates v)" by (simp add: media_rest_def media_lines_def)
  show ?thesis
    unfolding l e [symmetric]
    by (rule media_steps_append 1 2 3 4 f 5 6 sctp_steps 7)+
qed

section \<open>The session\<close>

lemma view_sdp_updates [simp]:
  "view_sdp (d\<lparr>sd_version := m\<rparr>) = (view_sdp d)\<lparr>dv_version := str_of m\<rparr>"
  "view_sdp (d\<lparr>sd_username := m1, sd_session_id := m2, sd_session_version := m3, sd_nettype := m4, sd_addrtype := m5, sd_unicast_address := m6\<rparr>)
    = (view_sdp d)\<lparr>dv_username := str_of m1, dv_session_id := str_of m2, dv_session_version := str_of m3, dv_nettype := str_of m4,
       dv_addrtype := str_of m5, dv_address := str_of m6\<rparr>"
  "view_sdp (d\<lparr>sd_session_name := m\<rparr>) = (view_sdp d)\<lparr>dv_name := str_of m\<rparr>"
  "view_sdp (d\<lparr>sd_start_time := i, sd_end_time := j\<rparr>) = (view_sdp d)\<lparr>dv_start := i, dv_end := j\<rparr>"
  "view_sdp (d\<lparr>sd_group_policy := m, sd_groups := g\<rparr>) = (view_sdp d)\<lparr>dv_policy := str_of m, dv_groups := map str_of (vec_list g)\<rparr>"
  "view_sdp (d\<lparr>sd_msid_semantic := m, sd_msids := g\<rparr>) = (view_sdp d)\<lparr>dv_semantic := str_of m, dv_msids := map str_of (vec_list g)\<rparr>"
  "view_sdp (d\<lparr>sd_session_info := k\<rparr>) = (view_sdp d)\<lparr>dv_info := view_info k\<rparr>"
  "view_sdp (d\<lparr>sd_media_descs := ds\<rparr>) = (view_sdp d)\<lparr>dv_media := map view_media (vec_list ds)\<rparr>"
  "view_sdp (d\<lparr>sd_media_descs := ds, sd_in_media_session := x\<rparr>) = (view_sdp d)\<lparr>dv_media := map view_media (vec_list ds)\<rparr>"
  by (simp_all add: view_sdp_def)

lemma sdp_ok_updates [simp]:
  "sdp_ok d \<Longrightarrow> sdp_ok (d\<lparr>sd_version := m\<rparr>) \<longleftrightarrow> arr 16 m"
  "sdp_ok d \<Longrightarrow> sdp_ok (d\<lparr>sd_username := m1, sd_session_id := m2, sd_session_version := m3, sd_nettype := m4, sd_addrtype := m5, sd_unicast_address := m6\<rparr>)
    \<longleftrightarrow> arr 128 m1 \<and> arr 32 m2 \<and> arr 128 m3 \<and> arr 16 m4 \<and> arr 32 m5 \<and> arr 32 m6"
  "sdp_ok d \<Longrightarrow> sdp_ok (d\<lparr>sd_session_name := m\<rparr>) \<longleftrightarrow> arr 64 m"
  "sdp_ok d \<Longrightarrow> sdp_ok (d\<lparr>sd_start_time := i, sd_end_time := j\<rparr>)"
  "sdp_ok d \<Longrightarrow> sdp_ok (d\<lparr>sd_group_policy := m, sd_groups := g\<rparr>) \<longleftrightarrow> arr 16 m \<and> strings_ok g"
  "sdp_ok d \<Longrightarrow> sdp_ok (d\<lparr>sd_msid_semantic := m, sd_msids := g\<rparr>) \<longleftrightarrow> arr 64 m \<and> strings_ok g"
  "sdp_ok d \<Longrightarrow> sdp_ok (d\<lparr>sd_session_info := k\<rparr>) \<longleftrightarrow> info_ok k"
  "sdp_ok d \<Longrightarrow> sdp_ok (d\<lparr>sd_media_descs := ds\<rparr>) \<longleftrightarrow> vec_ok ds \<and> (\<forall>m \<in> set (vec_list ds). media_ok m)"
  "sdp_ok d \<Longrightarrow> sdp_ok (d\<lparr>sd_media_descs := ds, sd_in_media_session := x\<rparr>) \<longleftrightarrow> vec_ok ds \<and> (\<forall>m \<in> set (vec_list ds). media_ok m)"
  by (auto simp: sdp_ok_def)

text \<open>A step of the parser from the view \<open>v\<close>; \<open>m\<close> says whether a media description has been opened.\<close>

definition sdp_at :: "YangSdp \<Rightarrow> sdp_view \<Rightarrow> bool \<Rightarrow> bool" where
  "sdp_at d v m \<longleftrightarrow> sdp_ok d \<and> view_sdp d = v \<and> (sd_in_media_session d \<noteq> 0 \<longleftrightarrow> m)"

definition line_ok :: "u8 list \<Rightarrow> bool" where
  "line_ok l \<longleftrightarrow> plain l \<and> (\<exists>x t. l = x # 61 # t)"

definition sdp_step :: "u8 list \<Rightarrow> sdp_view \<times> bool \<Rightarrow> sdp_view \<times> bool \<Rightarrow> bool" where
  "sdp_step l s s' \<longleftrightarrow> line_ok l \<and> (\<forall>d. sdp_at d (fst s) (snd s) \<longrightarrow>
     (\<exists>d'. yang_rtcsdp_parse_line d (l @ [0]) = Some (Yang_Ok, d') \<and> sdp_at d' (fst s') (snd s')))"

primrec sdp_steps :: "u8 list list \<Rightarrow> sdp_view \<times> bool \<Rightarrow> sdp_view \<times> bool \<Rightarrow> bool" where
  "sdp_steps [] s s' \<longleftrightarrow> s = s'"
| "sdp_steps (l # ls) s s' \<longleftrightarrow> (\<exists>u. sdp_step l s u \<and> sdp_steps ls u s')"

lemma sdp_steps_append: "sdp_steps xs s u \<Longrightarrow> sdp_steps ys u s' \<Longrightarrow> sdp_steps (xs @ ys) s s'"
  by (induction xs arbitrary: s) auto

lemma sdp_steps_cons: "sdp_step l s u \<Longrightarrow> sdp_steps ls u s' \<Longrightarrow> sdp_steps (l # ls) s s'"
  by (auto simp del: split_paired_Ex)

lemma sdp_steps_one: "sdp_step l s s' \<Longrightarrow> sdp_steps [l] s s'"
  by (simp del: split_paired_Ex)

lemma parse_lines_steps:
  assumes "sdp_steps ls s s'" "sdp_at d (fst s) (snd s)"
  shows "\<exists>d'. parse_lines (map (\<lambda>l. l @ [0]) ls) d = Some (Yang_Ok, d') \<and> sdp_at d' (fst s') (snd s')"
  using assms
proof (induction ls arbitrary: s d)
  case (Cons l ls)
  from Cons.prems(1) obtain u where u: "sdp_step l s u" "sdp_steps ls u s'" by auto
  from u(1) obtain x t where l: "l = x # 61 # t" "plain l" unfolding sdp_step_def line_ok_def by blast
  have n: "c_strlen (l @ [0]) = Some (int (length l))" using l(2) by (simp add: c_strlen_c_str plain_def)
  obtain d1 where "yang_rtcsdp_parse_line d (l @ [0]) = Some (Yang_Ok, d1)" "sdp_at d1 (fst u) (snd u)"
    using u(1) Cons.prems(2) unfolding sdp_step_def by blast
  then show ?case using Cons.IH [OF u(2)] n l(1) by (simp add: mem_load_def)
qed simp

lemma sdp_stepI:
  assumes "line_ok l"
    and "\<And>d. sdp_ok d \<Longrightarrow> view_sdp d = v \<Longrightarrow> (sd_in_media_session d \<noteq> 0) = m \<Longrightarrow> \<exists>d'. yang_rtcsdp_parse_line d (l @ [0]) = Some (Yang_Ok, d')
      \<and> sdp_ok d' \<and> view_sdp d' = v' \<and> (sd_in_media_session d' \<noteq> 0) = m'"
  shows "sdp_step l (v, m) (v', m')"
  using assms unfolding sdp_step_def sdp_at_def by auto

lemma parse_line_cases:
  "yang_rtcsdp_parse_line d ((ascii ''v='' @ t) @ [0]) = yang_rtcsdp_parse_version d (t @ [0])"
  "yang_rtcsdp_parse_line d ((ascii ''o='' @ t) @ [0]) = yang_rtcsdp_parse_origin d (t @ [0])"
  "yang_rtcsdp_parse_line d ((ascii ''s='' @ t) @ [0]) = yang_rtcsdp_parse_session_name d (t @ [0])"
  "yang_rtcsdp_parse_line d ((ascii ''t='' @ t) @ [0]) = yang_rtcsdp_parse_timing d (t @ [0])"
  "yang_rtcsdp_parse_line d ((ascii ''m='' @ t) @ [0]) = yang_rtcsdp_parse_media_description d (t @ [0])"
  by (simp_all add: yang_rtcsdp_parse_line_def mem_load_def ascii_def)

lemma line_ok_letter: "plain t \<Longrightarrow> s = [CHR ''v'', CHR ''=''] \<or> s = [CHR ''o'', CHR ''=''] \<or> s = [CHR ''s'', CHR ''=''] \<or> s = [CHR ''t'', CHR ''='']
    \<or> s = [CHR ''m'', CHR ''=''] \<Longrightarrow> line_ok (ascii s @ t)"
  by (auto simp: line_ok_def plain_def ascii_def)

lemma line_ok_attribute: "plain t \<Longrightarrow> CHR 0x00 \<notin> set name \<Longrightarrow> CHR 0x0A \<notin> set name \<Longrightarrow> line_ok (ascii (''a='' @ name) @ t)"
  by (auto simp: line_ok_def plain_def) (simp add: ascii_def)

lemma version_step:
  assumes "plain t" "t \<noteq> []" "length t < 16"
  shows "sdp_step (ascii ''v='' @ t) (v, m) (v\<lparr>dv_version := t\<rparr>, m)"
proof (rule sdp_stepI)
  fix d
  assume d: "sdp_ok d" "view_sdp d = v" "(sd_in_media_session d \<noteq> 0) = m"
  have a: "arr 16 (sd_version d)" using d(1) by (simp add: sdp_ok_def)
  have c: "c_str (t @ [0]) = Some t" using assms(1) by (simp add: plain_def)
  obtain m' where "c_strcpy (sd_version d) (t @ [0]) = Some m'" "arr 16 m'" "str_of m' = t" by (rule strcpy_field [OF a c assms(3)])
  then show "\<exists>d'. yang_rtcsdp_parse_line d ((ascii ''v='' @ t) @ [0]) = Some (Yang_Ok, d') \<and> sdp_ok d'
      \<and> view_sdp d' = v\<lparr>dv_version := t\<rparr> \<and> (sd_in_media_session d' \<noteq> 0) = m"
    unfolding parse_line_cases using d assms(2) by (simp add: yang_rtcsdp_parse_version_def c_strlen_c_str c)
qed (use assms in \<open>simp add: line_ok_letter\<close>)

lemma name_step:
  assumes "plain t" "length t < 64"
  shows "sdp_step (ascii ''s='' @ t) (v, m) (v\<lparr>dv_name := t\<rparr>, m)"
proof (rule sdp_stepI)
  fix d
  assume d: "sdp_ok d" "view_sdp d = v" "(sd_in_media_session d \<noteq> 0) = m"
  have a: "arr 64 (sd_session_name d)" using d(1) by (simp add: sdp_ok_def)
  have c: "c_str (t @ [0]) = Some t" using assms(1) by (simp add: plain_def)
  obtain m' where "c_strcpy (sd_session_name d) (t @ [0]) = Some m'" "arr 64 m'" "str_of m' = t" by (rule strcpy_field [OF a c assms(2)])
  then show "\<exists>d'. yang_rtcsdp_parse_line d ((ascii ''s='' @ t) @ [0]) = Some (Yang_Ok, d') \<and> sdp_ok d'
      \<and> view_sdp d' = v\<lparr>dv_name := t\<rparr> \<and> (sd_in_media_session d' \<noteq> 0) = m"
    unfolding parse_line_cases using d by (simp add: yang_rtcsdp_parse_session_name_def)
qed (use assms in \<open>simp add: line_ok_letter\<close>)

text \<open>A field that is a single name\<close>

definition word :: "nat \<Rightarrow> u8 list \<Rightarrow> bool" where
  "word n t \<longleftrightarrow> plain t \<and> t \<noteq> [] \<and> 32 \<notin> set t \<and> length t < n"

lemma word_copy:
  assumes "word n t" "arr n f"
  obtains m where "c_strcpy f (t @ [0]) = Some m" "arr n m" "str_of m = t"
  by (rule strcpy_field [OF assms(2), of "t @ [0]" t]) (use assms(1) that in \<open>simp_all add: word_def plain_def\<close>)

lemma split_words:
  assumes "\<forall>f \<in> set fs. plain f \<and> f \<noteq> [] \<and> 32 \<notin> set f"
  obtains e s where "yang_cstr_split (joined 32 fs @ [0]) [32, 0] = Some (e, s)" "strs_str s = map (\<lambda>p. p @ [0]) fs" "strs_vsize s = int (length fs)"
proof -
  have "0 \<notin> set (joined 32 fs)" using assms by (induction "32 :: u8" fs rule: joined.induct) (auto simp: plain_def)
  then have c: "c_str (joined 32 fs @ [0]) = Some (joined 32 fs)" by simp
  have "tokens [32] (joined 32 fs) = fs" by (rule tokens_joined) (use assms in blast)
  then show thesis using cstr_split_char [OF c, of 32] that by auto
qed

lemma origin_step:
  assumes "word 128 a1" "word 32 a2" "word 128 a3" "word 16 a4" "word 32 a5" "word 32 a6"
  shows "sdp_step (ascii ''o='' @ joined 32 [a1, a2, a3, a4, a5, a6]) (v, m)
    (v\<lparr>dv_username := a1, dv_session_id := a2, dv_session_version := a3, dv_nettype := a4, dv_addrtype := a5, dv_address := a6\<rparr>, m)"
proof (rule sdp_stepI)
  fix d
  assume d: "sdp_ok d" "view_sdp d = v" "(sd_in_media_session d \<noteq> 0) = m"
  have ok: "arr 128 (sd_username d)" "arr 32 (sd_session_id d)" "arr 128 (sd_session_version d)" "arr 16 (sd_nettype d)" "arr 32 (sd_addrtype d)"
    "arr 32 (sd_unicast_address d)" using d(1) by (simp_all add: sdp_ok_def)
  have w: "\<forall>f \<in> set [a1, a2, a3, a4, a5, a6]. plain f \<and> f \<noteq> [] \<and> 32 \<notin> set f" using assms by (simp add: word_def)
  obtain e s where s: "yang_cstr_split (joined 32 [a1, a2, a3, a4, a5, a6] @ [0]) [32, 0] = Some (e, s)"
    "strs_str s = map (\<lambda>p. p @ [0]) [a1, a2, a3, a4, a5, a6]" "strs_vsize s = int (length [a1, a2, a3, a4, a5, a6])" by (rule split_words [OF w])
  have nth: "nth_str s 0 = Some (a1 @ [0])" "nth_str s 1 = Some (a2 @ [0])" "nth_str s 2 = Some (a3 @ [0])" "nth_str s 3 = Some (a4 @ [0])"
    "nth_str s 4 = Some (a5 @ [0])" "nth_str s 5 = Some (a6 @ [0])" by (simp_all add: nth_str_def s(2) mem_load_def)
  obtain m1 where m1: "c_strcpy (sd_username d) (a1 @ [0]) = Some m1" "arr 128 m1" "str_of m1 = a1" by (rule word_copy [OF assms(1) ok(1)])
  obtain m2 where m2: "c_strcpy (sd_session_id d) (a2 @ [0]) = Some m2" "arr 32 m2" "str_of m2 = a2" by (rule word_copy [OF assms(2) ok(2)])
  obtain m3 where m3: "c_strcpy (sd_session_version d) (a3 @ [0]) = Some m3" "arr 128 m3" "str_of m3 = a3" by (rule word_copy [OF assms(3) ok(3)])
  obtain m4 where m4: "c_strcpy (sd_nettype d) (a4 @ [0]) = Some m4" "arr 16 m4" "str_of m4 = a4" by (rule word_copy [OF assms(4) ok(4)])
  obtain m5 where m5: "c_strcpy (sd_addrtype d) (a5 @ [0]) = Some m5" "arr 32 m5" "str_of m5 = a5" by (rule word_copy [OF assms(5) ok(5)])
  obtain m6 where m6: "c_strcpy (sd_unicast_address d) (a6 @ [0]) = Some m6" "arr 32 m6" "str_of m6 = a6" by (rule word_copy [OF assms(6) ok(6)])
  show "\<exists>d'. yang_rtcsdp_parse_line d ((ascii ''o='' @ joined 32 [a1, a2, a3, a4, a5, a6]) @ [0]) = Some (Yang_Ok, d') \<and> sdp_ok d'
      \<and> view_sdp d' = v\<lparr>dv_username := a1, dv_session_id := a2, dv_session_version := a3, dv_nettype := a4, dv_addrtype := a5, dv_address := a6\<rparr>
      \<and> (sd_in_media_session d' \<noteq> 0) = m"
    unfolding parse_line_cases yang_rtcsdp_parse_origin_def lit_char s(1) using d s(3) nth m1 m2 m3 m4 m5 m6 by simp
qed (use assms in \<open>simp add: line_ok_letter word_def plain_def\<close>)

definition is_int64 :: "int \<Rightarrow> bool" where
  "is_int64 i \<longleftrightarrow> - (2 ^ 63) \<le> i \<and> i < 2 ^ 63"

lemma timing_step:
  assumes "is_int64 i" "is_int64 j"
  shows "sdp_step (ascii ''t='' @ joined 32 [dec_int i, dec_int j]) (v, m) (v\<lparr>dv_start := i, dv_end := j\<rparr>, m)"
proof (rule sdp_stepI)
  fix d
  assume d: "sdp_ok d" "view_sdp d = v" "(sd_in_media_session d \<noteq> 0) = m"
  obtain e s where s: "yang_cstr_split (joined 32 [dec_int i, dec_int j] @ [0]) [32, 0] = Some (e, s)"
    "strs_str s = map (\<lambda>p. p @ [0]) [dec_int i, dec_int j]" "strs_vsize s = int (length [dec_int i, dec_int j])"
    by (rule split_words [of "[dec_int i, dec_int j]"]) simp
  have nth: "nth_str s 0 = Some (dec_int i @ [0])" "nth_str s 1 = Some (dec_int j @ [0])" by (simp_all add: nth_str_def s(2) mem_load_def)
  show "\<exists>d'. yang_rtcsdp_parse_line d ((ascii ''t='' @ joined 32 [dec_int i, dec_int j]) @ [0]) = Some (Yang_Ok, d') \<and> sdp_ok d'
      \<and> view_sdp d' = v\<lparr>dv_start := i, dv_end := j\<rparr> \<and> (sd_in_media_session d' \<noteq> 0) = m"
    unfolding parse_line_cases yang_rtcsdp_parse_timing_def lit_char s(1)
    using d s(3) nth assms c_atol_dec_int [of i "[]"] c_atol_dec_int [of j "[]"] by (simp add: is_int64_def)
qed (simp add: line_ok_letter)

subsection \<open>Attributes of the session\<close>

lemma session_attribute_text:
  assumes "CHR '':'' \<notin> set name" "CHR 0x00 \<notin> set name" "length name < 256" "0 \<notin> set t" "length t < 256"
  obtains A V where "session_attribute (ascii name @ 58 # t @ [0]) = Some (A, V)" "c_str A = Some (ascii name)" "c_str V = Some t"
proof -
  have s: "c_str (ascii name @ 58 # t @ [0]) = Some (ascii name @ 58 # t)"
    using c_str_text [of "ascii name @ 58 # t"] assms(2,4) by simp
  obtain A where A: "mem_write (replicate 256 0) 0 (ascii name) = Some A" "c_str A = Some (ascii name)"
    using memcpy_text [of "ascii name" 256] assms(2,3) by (auto simp: holds_text_def)
  have "c_str (t @ [0]) = Some t" using assms(4) by simp
  then obtain V where V: "c_strcpy (replicate 256 0) (t @ [0]) = Some V" "c_str V = Some t"
    using strcpy_text [of "replicate 256 0" 256 "t @ [0]" t] assms(5) by (auto simp: holds_text_def)
  have "session_attribute (ascii name @ 58 # t @ [0]) = Some (A, V)"
    using assms(1) A(1) V(1) by (simp add: session_attribute_def s)
  then show thesis using A(2) V(2) by (rule that)
qed

lemma attribute_step:
  assumes "CHR '':'' \<notin> set name" "CHR 0x00 \<notin> set name" "CHR 0x0A \<notin> set name" "length name < 256" "plain t" "length t < 256"
    and "\<And>d A V. sdp_ok d \<Longrightarrow> view_sdp d = v \<Longrightarrow> sd_in_media_session d = 0 \<Longrightarrow> session_attribute (ascii name @ 58 # t @ [0]) = Some (A, V)
      \<Longrightarrow> c_str A = Some (ascii name) \<Longrightarrow> c_str V = Some t
      \<Longrightarrow> \<exists>d'. yang_rtcsdp_parse_attribute d (ascii name @ 58 # t @ [0]) = Some (Yang_Ok, d') \<and> sdp_ok d' \<and> view_sdp d' = v'
        \<and> sd_in_media_session d' = 0"
  shows "sdp_step (ascii (''a='' @ name @ '':'') @ t) (v, False) (v', False)"
proof (rule sdp_stepI)
  show "line_ok (ascii (''a='' @ name @ '':'') @ t)" using line_ok_attribute [of t "name @ '':''"] assms by simp
  fix d
  assume d: "sdp_ok d" "view_sdp d = v" "(sd_in_media_session d \<noteq> 0) = False"
  have l: "yang_rtcsdp_parse_line d ((ascii (''a='' @ name @ '':'') @ t) @ [0]) = yang_rtcsdp_parse_attribute d (ascii name @ 58 # t @ [0])"
    using d(3) by (simp add: yang_rtcsdp_parse_line_def mem_load_def ascii_def)
  have z: "0 \<notin> set t" using assms(5) by (simp add: plain_def)
  obtain A V where A: "session_attribute (ascii name @ 58 # t @ [0]) = Some (A, V)" "c_str A = Some (ascii name)" "c_str V = Some t"
    by (rule session_attribute_text [OF assms(1,2,4) z assms(6)])
  show "\<exists>d'. yang_rtcsdp_parse_line d ((ascii (''a='' @ name @ '':'') @ t) @ [0]) = Some (Yang_Ok, d') \<and> sdp_ok d' \<and> view_sdp d' = v'
      \<and> (sd_in_media_session d' \<noteq> 0) = False"
    unfolding l using assms(7) [OF d(1,2) _ A] d(3) by auto
qed

lemma session_dispatch:
  assumes "session_attribute content = Some (A, V)" "c_str A = Some (ascii name)"
  shows "yang_rtcsdp_parse_attribute d content =
    (if name = ''group'' then yang_rtcsdp_parse_attr_group d V
     else if name = ''msid-semantic'' then do {
       (_, str) \<leftarrow> yang_cstr_split V [32, 0];
       s \<leftarrow> nth_str str 0;
       semantic \<leftarrow> c_strcpy (sd_msid_semantic d) s;
       v \<leftarrow> insert_strings (drop 1 (strs_str str)) (sd_msids d);
       Some (Yang_Ok, d\<lparr>sd_msid_semantic := semantic, sd_msids := v\<rparr>)
     }
     else do {
       (err, info) \<leftarrow> yang_sessioninfo_parse_attribute (sd_session_info d) A V;
       Some (err, d\<lparr>sd_session_info := info\<rparr>)
     })"
  using assms by (simp add: yang_rtcsdp_parse_attribute_def c_streq_lit cong: if_cong split del: if_split)

lemma session_info_step:
  assumes "info_step name t (dv_info v) i" "name \<in> {''ice-ufrag'', ''ice-pwd'', ''ice-options'', ''fingerprint'', ''setup''}"
    "plain t" "length t < 256"
  shows "sdp_step (ascii (''a='' @ name @ '':'') @ t) (v, False) (v\<lparr>dv_info := i\<rparr>, False)"
proof (rule attribute_step)
  fix d A V
  assume d: "sdp_ok d" "view_sdp d = v" "sd_in_media_session d = 0" and A: "session_attribute (ascii name @ 58 # t @ [0]) = Some (A, V)" "c_str A = Some (ascii name)"
    and V: "c_str V = Some t"
  have "info_ok (sd_session_info d)" "view_info (sd_session_info d) = dv_info v" using d by (auto simp: sdp_ok_def view_sdp_def)
  then obtain info where "yang_sessioninfo_parse_attribute (sd_session_info d) A V = Some (Yang_Ok, info)" "info_ok info" "view_info info = i"
    using assms(1) A(2) V unfolding info_step_def by blast
  moreover have "name \<noteq> ''group''" "name \<noteq> ''msid-semantic''" using assms(2) by auto
  ultimately show "\<exists>d'. yang_rtcsdp_parse_attribute d (ascii name @ 58 # t @ [0]) = Some (Yang_Ok, d') \<and> sdp_ok d' \<and> view_sdp d' = v\<lparr>dv_info := i\<rparr>
      \<and> sd_in_media_session d' = 0" using d by (simp add: session_dispatch [OF A])
qed (use assms in auto)

lemma session_chain: "info_chain as (dv_info v) i \<Longrightarrow> sdp_steps (map attr_text as) (v, False) (v\<lparr>dv_info := i\<rparr>, False)"
proof (induction as arbitrary: v)
  case (Cons a as)
  then obtain u where u: "info_step (fst a) (snd a) (dv_info v) u" "info_chain as u i"
    "fst a \<in> {''ice-ufrag'', ''ice-pwd'', ''ice-options'', ''fingerprint'', ''setup''}" "plain (snd a)" "length (snd a) < 128" by auto
  have "sdp_step (attr_text a) (v, False) (v\<lparr>dv_info := u\<rparr>, False)"
    unfolding attr_text_def by (rule session_info_step [OF u(1,3)]) (use u(4,5) in simp_all)
  moreover have "sdp_steps (map attr_text as) (v\<lparr>dv_info := u\<rparr>, False) (v\<lparr>dv_info := u\<rparr>\<lparr>dv_info := i\<rparr>, False)"
    by (rule Cons.IH) (use u(2) in simp)
  ultimately show ?case by auto
qed simp

lemma session_info_steps:
  assumes "info_readable i" "dv_info v = blank_info"
  shows "sdp_steps (info_lines i) (v, False) (v\<lparr>dv_info := i\<rparr>, False)"
  unfolding info_lines_attrs by (rule session_chain) (simp add: assms info_chain_attrs)

text \<open>A name without a value is not read at this level.\<close>

lemma ice_lite_step: "sdp_step (ascii ''a=ice-lite'') (v, False) (v, False)"
proof (rule sdp_stepI)
  show "line_ok (ascii ''a=ice-lite'')" by (simp add: line_ok_def) (simp add: ascii_def)
  fix d
  assume d: "sdp_ok d" "view_sdp d = v" "(sd_in_media_session d \<noteq> 0) = False"
  have l: "yang_rtcsdp_parse_line d (ascii ''a=ice-lite'' @ [0]) = yang_rtcsdp_parse_attribute d (ascii ''ice-lite'' @ [0])"
    using d(3) by (simp add: yang_rtcsdp_parse_line_def mem_load_def ascii_def)
  have A: "session_attribute (ascii ''ice-lite'' @ [0]) = Some (replicate 256 0, replicate 256 0)" by (simp add: session_attribute_def)
  have e: "c_str (replicate 256 0) = Some (ascii [])" using holds_zero [of 256] by (simp add: holds_text_def)
  show "\<exists>d'. yang_rtcsdp_parse_line d (ascii ''a=ice-lite'' @ [0]) = Some (Yang_Ok, d') \<and> sdp_ok d' \<and> view_sdp d' = v \<and> (sd_in_media_session d' \<noteq> 0) = False"
    unfolding l using d by (simp add: session_dispatch [OF A e] info_dispatch [OF e])
qed

lemma insert_strings_text:
  assumes "strings_ok v" "\<forall>s \<in> set ss. plain s"
  shows "\<exists>v'. insert_strings (map (\<lambda>p. p @ [0]) ss) v = Some v' \<and> strings_ok v' \<and> map str_of (vec_list v') = map str_of (vec_list v) @ ss"
  using assms
proof (induction ss arbitrary: v)
  case (Cons s ss)
  have c: "c_str (s @ [0]) = Some s" using Cons.prems(2) by (simp add: plain_def)
  obtain t where t: "mem_read (s @ [0]) 0 (int (length s) + 1) = Some t" "0 \<in> set t" "str_of t = s" by (rule copied_string [OF c])
  obtain u where u: "yang_insert_Vector [] v (Some t) = Some u" "vec_ok u" "vec_list u = vec_list v @ [t]"
    using vec.insert_elems [of v "[]" t] Cons.prems(1) by (auto simp: strings_ok_def)
  have i: "yang_insert_stringVector v (s @ [0]) = Some u"
    using t(1) u(1) c by (simp add: yang_insert_stringVector_def yang_insert_stringVector2_def c_strlen_c_str add.commute)
  have "strings_ok u" using Cons.prems(1) u(2,3) t(2) by (simp add: strings_ok_def)
  then show ?case using Cons.IH [of u] Cons.prems(2) i u(3) t(3) by simp
qed simp

lemma group_step:
  assumes "word 16 p" "dv_groups v = []"
  shows "sdp_step (ascii ''a=group:'' @ p) (v, False) (v\<lparr>dv_policy := p\<rparr>, False)"
proof -
  have p: "plain p" "p \<noteq> []" "32 \<notin> set p" "length p < 16" using assms(1) by (simp_all add: word_def)
  have "sdp_step (ascii (''a='' @ ''group'' @ '':'') @ p) (v, False) (v\<lparr>dv_policy := p\<rparr>, False)"
  proof (rule attribute_step)
    fix d A V
    assume d: "sdp_ok d" "view_sdp d = v" "sd_in_media_session d = 0" and A: "session_attribute (ascii ''group'' @ 58 # p @ [0]) = Some (A, V)" "c_str A = Some (ascii ''group'')"
      and V: "c_str V = Some p"
    have ok: "arr 16 (sd_group_policy d)" "strings_ok (sd_groups d)" using d(1) by (simp_all add: sdp_ok_def)
    have g: "map str_of (vec_list (sd_groups d)) = []" using arg_cong [OF d(2), of dv_groups] assms(2) by (simp add: view_sdp_def)
    have tk: "tokens [32] p = [p]" using p by (simp add: tokens_plain)
    obtain e s where s: "yang_cstr_split V [32, 0] = Some (e, s)" "strs_str s = [p @ [0]]" "strs_vsize s = 1"
      by (rule cstr_split_char [OF V, of 32]) (simp_all add: tk)
    obtain m where m: "c_strcpy (sd_group_policy d) (p @ [0]) = Some m" "arr 16 m" "str_of m = p" by (rule word_copy [OF assms(1) ok(1)])
    have v: "v\<lparr>dv_policy := p, dv_groups := []\<rparr> = v\<lparr>dv_policy := p\<rparr>" using assms(2) by simp
    show "\<exists>d'. yang_rtcsdp_parse_attribute d (ascii ''group'' @ 58 # p @ [0]) = Some (Yang_Ok, d') \<and> sdp_ok d' \<and> view_sdp d' = v\<lparr>dv_policy := p\<rparr>
        \<and> sd_in_media_session d' = 0"
      using d s m ok g v sdp_ok_updates(5) [where d = d and m = m and g = "sd_groups d"] view_sdp_updates(5) [where d = d and m = m and g = "sd_groups d"]
      by (simp add: session_dispatch [OF A] yang_rtcsdp_parse_attr_group_def nth_str_def mem_load_def)
  qed (use p in simp_all)
  then show ?thesis by simp
qed

lemma semantic_line_joined: "semantic_line s names = ascii ''a=msid-semantic:'' @ 32 # joined 32 (s # names)"
proof -
  have j: "joined 32 (s # names) = s @ concat (map (Cons 32) names)" for s
    by (induction names arbitrary: s) simp_all
  have "ascii ''a=msid-semantic: '' = ascii ''a=msid-semantic:'' @ [32]" by (simp add: ascii_def)
  then show ?thesis by (simp add: semantic_line_def j)
qed

lemma semantic_step:
  assumes "word 64 p" "\<forall>n \<in> set ns. plain n \<and> n \<noteq> [] \<and> 32 \<notin> set n" "length (32 # joined 32 (p # ns)) < 256" "dv_msids v = []"
  shows "sdp_step (semantic_line p ns) (v, False) (v\<lparr>dv_semantic := p, dv_msids := ns\<rparr>, False)"
proof -
  let ?t = "32 # joined 32 (p # ns)"
  have f: "\<forall>f \<in> set (p # ns). plain f \<and> f \<noteq> [] \<and> 32 \<notin> set f" using assms(1,2) by (simp add: word_def)
  have "plain (joined 32 fs)" if "\<forall>f \<in> set fs. plain f" for fs
    using that by (induction "32 :: u8" fs rule: joined.induct) simp_all
  then have pl: "plain ?t" using f by simp
  have "sdp_step (ascii (''a='' @ ''msid-semantic'' @ '':'') @ ?t) (v, False) (v\<lparr>dv_semantic := p, dv_msids := ns\<rparr>, False)"
  proof (rule attribute_step)
    fix d A V
    assume d: "sdp_ok d" "view_sdp d = v" "sd_in_media_session d = 0"
      and A: "session_attribute (ascii ''msid-semantic'' @ 58 # ?t @ [0]) = Some (A, V)" "c_str A = Some (ascii ''msid-semantic'')"
      and V: "c_str V = Some ?t"
    have ok: "arr 64 (sd_msid_semantic d)" "strings_ok (sd_msids d)" using d(1) by (simp_all add: sdp_ok_def)
    have g: "map str_of (vec_list (sd_msids d)) = []" using arg_cong [OF d(2), of dv_msids] assms(4) by (simp add: view_sdp_def)
    have "tokens [32] (joined 32 (p # ns)) = p # ns" by (rule tokens_joined) (use f in blast)
    then have tk: "tokens [32] ?t = p # ns" by (simp only: tokens_sep)
    obtain e s where s: "yang_cstr_split V [32, 0] = Some (e, s)" "strs_str s = map (\<lambda>p. p @ [0]) (p # ns)"
      by (rule cstr_split_char [OF V, of 32]) (simp_all only: tk zero_neq_numeral not_False_eq_True, simp)
    obtain m where m: "c_strcpy (sd_msid_semantic d) (p @ [0]) = Some m" "arr 64 m" "str_of m = p" by (rule word_copy [OF assms(1) ok(1)])
    obtain g' where g': "insert_strings (map (\<lambda>p. p @ [0]) ns) (sd_msids d) = Some g'" "strings_ok g'" "map str_of (vec_list g') = ns"
      using insert_strings_text [OF ok(2), of ns] assms(2) g by auto
    show "\<exists>d'. yang_rtcsdp_parse_attribute d (ascii ''msid-semantic'' @ 58 # ?t @ [0]) = Some (Yang_Ok, d') \<and> sdp_ok d'
        \<and> view_sdp d' = v\<lparr>dv_semantic := p, dv_msids := ns\<rparr> \<and> sd_in_media_session d' = 0"
      unfolding session_dispatch [OF A] using d s m g' by (simp add: nth_str_def mem_load_def)
  qed (use pl assms(3) in simp_all)
  then show ?thesis by (simp add: semantic_line_joined)
qed

subsection \<open>Opening a media description\<close>

lemma view_blank_payload: "view_payload (zero_payload_type\<lparr>pt_payload_type := n, pt_rtcp_fb := yang_create_stringVector\<rparr>) = blank_payload n"
  by (simp add: view_payload_def zero_payload_type_def blank_payload_def yang_create_stringVector_def create_Vector_ok)

lemma blank_payload_ok: "is_int32 n \<Longrightarrow> payload_ok (zero_payload_type\<lparr>pt_payload_type := n, pt_rtcp_fb := yang_create_stringVector\<rparr>)"
  by (simp add: payload_ok_def zero_payload_type_def yang_create_stringVector_def create_Vector_ok arr_zeros is_int32_def)

lemma payload_numbers_view:
  assumes "vec_ok v" "\<forall>p \<in> set (vec_list v). payload_ok p" "\<forall>n \<in> set ns. is_int32 n"
  shows "\<exists>v'. payload_numbers (map (\<lambda>n. dec_int n @ [0]) ns) v = Some v' \<and> vec_ok v' \<and> (\<forall>p \<in> set (vec_list v'). payload_ok p)
    \<and> map view_payload (vec_list v') = map view_payload (vec_list v) @ map blank_payload ns"
  using assms
proof (induction ns arbitrary: v)
  case (Cons n ns)
  have n: "is_int32 n" using Cons.prems(3) by simp
  let ?z = "zero_payload_type\<lparr>pt_payload_type := n\<rparr>" let ?p = "?z\<lparr>pt_rtcp_fb := yang_create_stringVector\<rparr>"
  obtain u where u: "yang_insert_Vector zero_payload_type v (Some ?z) = Some u" "vec_ok u" "vec_list u = vec_list v @ [?z]"
    using vec.insert_elems [OF Cons.prems(1)] by blast
  have k: "vsize u - 1 = int (length (vec_list v))" using length_vec_list [OF u(2)] u(3) by simp
  have i: "length (vec_list v) < length (vec_list u)" by (simp add: u(3))
  obtain ps where ps: "mem_load (payload u) (int (length (vec_list v))) = Some (vec_list u ! length (vec_list v))"
    "mem_store (payload u) (int (length (vec_list v))) ?p = Some ps" "vec_ok (u\<lparr>payload := ps\<rparr>)"
    "vec_list (u\<lparr>payload := ps\<rparr>) = (vec_list u)[length (vec_list v) := ?p]" by (rule vec_update [OF u(2) i])
  have l: "vec_list (u\<lparr>payload := ps\<rparr>) = vec_list v @ [?p]" by (simp add: ps(4) u(3))
  have "\<forall>p \<in> set (vec_list (u\<lparr>payload := ps\<rparr>)). payload_ok p" using Cons.prems(2) blank_payload_ok [OF n] by (simp add: l)
  then obtain v' where v': "payload_numbers (map (\<lambda>n. dec_int n @ [0]) ns) (u\<lparr>payload := ps\<rparr>) = Some v'" "vec_ok v'"
    "\<forall>p \<in> set (vec_list v'). payload_ok p" "map view_payload (vec_list v') = map view_payload (vec_list v @ [?p]) @ map blank_payload ns"
    using Cons.IH [OF ps(3)] Cons.prems(3) by (auto simp: l)
  have "payload_numbers (map (\<lambda>n. dec_int n @ [0]) (n # ns)) v = Some v'"
    using u(1) ps(1,2) v'(1) atoi_dec [OF n, of "dec_int n @ [0]"] by (simp add: k u(3))
  then show ?case using v'(2-4) by (simp add: view_blank_payload del: view_payload_updates payload_numbers.simps)
qed simp

lemma media_line_joined:
  "media_line v = ascii ''m='' @ joined 32 ([mv_type v, dec_int (mv_port v), mv_protos v] @ map (\<lambda>p. dec_int (pv_type p)) (mv_payloads v))"
proof -
  have j: "joined 32 (f # map (\<lambda>p. dec_int (pv_type p)) ps) = f @ concat (map (\<lambda>p. 32 # dec_int (pv_type p)) ps)" for f ps
    by (induction ps arbitrary: f) simp_all
  show ?thesis by (simp add: media_line_def j)
qed

lemma zero_media_ok: "media_ok zero_media_desc"
  by (simp add: media_ok_def zero_media_desc_def info_ok_def zero_session_info_def arr_zeros is_int32_def zero_vector_def vec_ok_def vec_list_def)

lemma view_zero_media:
  "view_media (zero_media_desc\<lparr>md_type := t, md_protos := p, md_port := n, md_payload_types := ps\<rparr>)
    = \<lparr>mv_type = str_of t, mv_port = n, mv_protos = str_of p, mv_payloads = map view_payload (vec_list ps), mv_info = blank_info, mv_mid = [],
       mv_msid = [], mv_tracker = [], mv_extmaps = [], mv_sendonly = False, mv_recvonly = False, mv_sendrecv = False, mv_inactive = False,
       mv_mux = False, mv_rsize = False, mv_ssrcs = [], mv_sctp = False, mv_candidates = []\<rparr>"
  by (simp add: view_media_def zero_media_desc_def view_info_def zero_session_info_def blank_info_def zero_vector_def vec_list_def)

lemma open_step:
  assumes "media_readable u"
  shows "sdp_step (media_line u) (v, m) (v\<lparr>dv_media := dv_media v @ [opened u]\<rparr>, True)"
proof -
  note r = assms [unfolded media_readable_def]
  let ?fs = "[mv_type u, dec_int (mv_port u), mv_protos u] @ map (\<lambda>p. dec_int (pv_type p)) (mv_payloads u)"
  have f: "\<forall>f \<in> set ?fs. plain f \<and> f \<noteq> [] \<and> 32 \<notin> set f" using r by auto
  have "plain (joined 32 fs)" if "\<forall>f \<in> set fs. plain f" for fs
    using that by (induction "32 :: u8" fs rule: joined.induct) simp_all
  then have pl: "plain (joined 32 ?fs)" using f by blast
  show ?thesis
    unfolding media_line_joined
  proof (rule sdp_stepI)
    fix d
    assume d: "sdp_ok d" "view_sdp d = v" "(sd_in_media_session d \<noteq> 0) = m"
    have ok: "vec_ok (sd_media_descs d)" "\<forall>x \<in> set (vec_list (sd_media_descs d)). media_ok x" using d(1) by (simp_all add: sdp_ok_def)
    have mv: "dv_media v = map view_media (vec_list (sd_media_descs d))" using arg_cong [OF d(2), of dv_media] by (simp add: view_sdp_def)
    obtain e s where s: "yang_cstr_split (joined 32 ?fs @ [0]) [32, 0] = Some (e, s)" "strs_str s = map (\<lambda>p. p @ [0]) ?fs"
      "strs_vsize s = int (length ?fs)" by (rule split_words [OF f])
    have n: "\<not> strs_vsize s < 4" using s(3) r by (cases "mv_payloads u") simp_all
    have nth: "nth_str s 0 = Some (mv_type u @ [0])" "nth_str s 1 = Some (dec_int (mv_port u) @ [0])" "nth_str s 2 = Some (mv_protos u @ [0])"
      by (simp_all add: nth_str_def s(2) mem_load_def)
    obtain w where w: "yang_insert_Vector zero_media_desc (sd_media_descs d) (Some zero_media_desc) = Some w" "vec_ok w"
      "vec_list w = vec_list (sd_media_descs d) @ [zero_media_desc]" using vec.insert_elems [OF ok(1)] by blast
    have a: "arr 16 (md_type zero_media_desc)" "arr 64 (md_protos zero_media_desc)" using zero_media_ok by (simp_all add: media_ok_def)
    have t: "word 16 (mv_type u)" "word 64 (mv_protos u)" using r by (simp_all add: word_def)
    obtain ty where ty: "c_strcpy (md_type zero_media_desc) (mv_type u @ [0]) = Some ty" "arr 16 ty" "str_of ty = mv_type u" by (rule word_copy [OF t(1) a(1)])
    obtain pr where pr: "c_strcpy (md_protos zero_media_desc) (mv_protos u @ [0]) = Some pr" "arr 64 pr" "str_of pr = mv_protos u" by (rule word_copy [OF t(2) a(2)])
    have z: "vec_ok (md_payload_types zero_media_desc)" "vec_list (md_payload_types zero_media_desc) = []"
      by (simp_all add: zero_media_desc_def zero_vector_def vec_ok_def vec_list_def)
    obtain ps where ps: "payload_numbers (map (\<lambda>n. dec_int n @ [0]) (map pv_type (mv_payloads u))) (md_payload_types zero_media_desc) = Some ps"
      "vec_ok ps" "\<forall>p \<in> set (vec_list ps). payload_ok p" "map view_payload (vec_list ps) = map blank_payload (map pv_type (mv_payloads u))"
      using payload_numbers_view [OF z(1), of "map pv_type (mv_payloads u)"] r by (auto simp: z(2) payload_readable_def)
    let ?d = "zero_media_desc\<lparr>md_type := ty, md_protos := pr, md_port := mv_port u, md_payload_types := ps\<rparr>"
    have dok: "media_ok ?d" using zero_media_ok ty(2) pr(2) ps(2,3) r by (simp add: media_ok_def)
    have dv: "view_media ?d = opened u" unfolding view_zero_media using ty(3) pr(3) ps(4) by (simp add: opened_def o_def)
    have k: "vsize w - 1 = int (length (vec_list (sd_media_descs d)))" using length_vec_list [OF w(2)] w(3) by simp
    have i: "length (vec_list (sd_media_descs d)) < length (vec_list w)" by (simp add: w(3))
    obtain q where q: "mem_load (payload w) (int (length (vec_list (sd_media_descs d)))) = Some (vec_list w ! length (vec_list (sd_media_descs d)))"
      "mem_store (payload w) (int (length (vec_list (sd_media_descs d)))) ?d = Some q" "vec_ok (w\<lparr>payload := q\<rparr>)"
      "vec_list (w\<lparr>payload := q\<rparr>) = (vec_list w)[length (vec_list (sd_media_descs d)) := ?d]" by (rule vec_update [OF w(2) i])
    have l: "vec_list (w\<lparr>payload := q\<rparr>) = vec_list (sd_media_descs d) @ [?d]" by (simp add: q(4) w(3))
    have p3: "drop 3 (strs_str s) = map (\<lambda>n. dec_int n @ [0]) (map pv_type (mv_payloads u))" by (simp add: s(2))
    show "\<exists>d'. yang_rtcsdp_parse_line d ((ascii ''m='' @ joined 32 ?fs) @ [0]) = Some (Yang_Ok, d') \<and> sdp_ok d'
        \<and> view_sdp d' = v\<lparr>dv_media := dv_media v @ [opened u]\<rparr> \<and> (sd_in_media_session d' \<noteq> 0) = True"
      unfolding parse_line_cases yang_rtcsdp_parse_media_description_def lit_char s(1)
      using d n nth w(1) ty(1) pr(1) q(1,2,3) ok l dok dv mv atoi_dec [of "mv_port u" "dec_int (mv_port u) @ [0]"] r
      by (simp add: k w(3) p3 ps(1) [simplified])
  qed (use pl in \<open>simp add: line_ok_letter\<close>)
qed

subsection \<open>The lines of a media description\<close>

definition attr_line :: "u8 list \<Rightarrow> bool" where
  "attr_line l \<longleftrightarrow> plain l \<and> (\<exists>t. l = 97 # 61 # t)"

lemma attr_line_ascii [simp]:
  "attr_line (ascii (CHR ''a'' # CHR ''='' # s) @ t) \<longleftrightarrow> CHR 0x00 \<notin> set s \<and> CHR 0x0A \<notin> set s \<and> plain t"
  "attr_line (ascii (CHR ''a'' # CHR ''='' # s)) \<longleftrightarrow> CHR 0x00 \<notin> set s \<and> CHR 0x0A \<notin> set s"
  by (auto simp: attr_line_def) (simp_all add: ascii_def)

lemma attr_flag_line: "(\<forall>l \<in> set (flag_line x s). attr_line l) \<longleftrightarrow> (x \<longrightarrow> attr_line (ascii s))"
  by (simp add: flag_line_def)

lemma media_sdp_step:
  assumes "media_step l u u'" "attr_line l"
  shows "sdp_step l (v\<lparr>dv_media := ms @ [u]\<rparr>, True) (v\<lparr>dv_media := ms @ [u']\<rparr>, True)"
proof (rule sdp_stepI)
  obtain t where l: "l = 97 # 61 # t" using assms(2) unfolding attr_line_def by blast
  show "line_ok l" using assms(2) unfolding attr_line_def line_ok_def by blast
  fix d
  assume d: "sdp_ok d" "view_sdp d = v\<lparr>dv_media := ms @ [u]\<rparr>" "(sd_in_media_session d \<noteq> 0) = True"
  let ?ds = "sd_media_descs d"
  have ok: "vec_ok ?ds" "\<forall>x \<in> set (vec_list ?ds). media_ok x" using d(1) by (simp_all add: sdp_ok_def)
  have m: "map view_media (vec_list ?ds) = ms @ [u]" using arg_cong [OF d(2), of dv_media] by (simp add: view_sdp_def)
  have len: "length (vec_list ?ds) = Suc (length ms)" using arg_cong [OF m, of length] by simp
  have k: "vsize ?ds - 1 = int (length ms)" using length_vec_list [OF ok(1)] len by simp
  have x: "media_ok (vec_list ?ds ! length ms)" "view_media (vec_list ?ds ! length ms) = u"
    using ok(2) len arg_cong [OF m, of "\<lambda>l. l ! length ms"] by simp_all
  obtain e where e: "yang_mediadesc_parse_line (vec_list ?ds ! length ms) (l @ [0]) = Some (Yang_Ok, e)" "media_ok e" "view_media e = u'"
    using assms(1) x unfolding media_step_def by blast
  have i: "length ms < length (vec_list ?ds)" using len by simp
  obtain q where q: "mem_load (payload ?ds) (int (length ms)) = Some (vec_list ?ds ! length ms)" "mem_store (payload ?ds) (int (length ms)) e = Some q"
    "vec_ok (?ds\<lparr>payload := q\<rparr>)" "vec_list (?ds\<lparr>payload := q\<rparr>) = (vec_list ?ds)[length ms := e]" by (rule vec_update [OF ok(1) i])
  have "map view_media ((vec_list ?ds)[length ms := e]) = ms @ [u']" using m e(3) by (simp add: map_update)
  moreover have "\<forall>x \<in> set ((vec_list ?ds)[length ms := e]). media_ok x"
    using set_update_subset_insert [of "vec_list ?ds" "length ms" e] ok(2) e(2) by auto
  ultimately have n: "sdp_ok (d\<lparr>sd_media_descs := ?ds\<lparr>payload := q\<rparr>\<rparr>)"
    "view_sdp (d\<lparr>sd_media_descs := ?ds\<lparr>payload := q\<rparr>\<rparr>) = v\<lparr>dv_media := ms @ [u']\<rparr>" using d(1,2) q(3,4) by simp_all
  have c: "mem_load (l @ [0]) 0 = Some 97" by (simp add: l mem_load_def)
  have "yang_rtcsdp_parse_line d (l @ [0]) = Some (Yang_Ok, d\<lparr>sd_media_descs := ?ds\<lparr>payload := q\<rparr>\<rparr>)"
    using d(3) e(1) q(1,2) by (simp add: yang_rtcsdp_parse_line_def c k)
  then show "\<exists>d'. yang_rtcsdp_parse_line d (l @ [0]) = Some (Yang_Ok, d') \<and> sdp_ok d' \<and> view_sdp d' = v\<lparr>dv_media := ms @ [u']\<rparr>
      \<and> (sd_in_media_session d' \<noteq> 0) = True" using n d(3) by simp
qed

lemma media_sdp_steps:
  assumes "media_steps ls u u'" "\<forall>l \<in> set ls. attr_line l"
  shows "sdp_steps ls (v\<lparr>dv_media := ms @ [u]\<rparr>, True) (v\<lparr>dv_media := ms @ [u']\<rparr>, True)"
  using assms by (induction ls arbitrary: u) (auto intro: sdp_steps_cons media_sdp_step simp del: sdp_steps.simps(2))

lemma info_attr_lines: "info_readable i \<Longrightarrow> \<forall>l \<in> set (info_lines i). attr_line l"
  by (auto simp: info_readable_def info_lines_def named_line_def)

lemma payload_attr_lines: "payload_readable p \<Longrightarrow> \<forall>l \<in> set (payload_lines p). attr_line l"
  by (auto simp: payload_readable_def payload_lines_def)

lemma ssrc_attr_lines: "ssrc_readable s \<Longrightarrow> \<forall>l \<in> set (ssrc_lines s). attr_line l"
  by (auto simp: ssrc_readable_def ssrc_lines_def ssrc_line_def)

lemma candidate_attr_line: "candidate_readable c \<Longrightarrow> attr_line (candidate_line i c)"
  by (auto simp: candidate_readable_def candidate_line_def)

lemma media_rest_attr_lines:
  assumes "media_readable v"
  shows "\<forall>l \<in> set (media_rest v). attr_line l"
proof -
  note r = assms [unfolded media_readable_def]
  have 1: "\<forall>l \<in> set (candidate_lines (mv_candidates v)). attr_line l"
    using r candidate_attr_line by (auto simp: candidate_lines_def in_set_enumerate_eq)
  have 2: "\<forall>l \<in> set (concat (map payload_lines (mv_payloads v))). attr_line l" using r payload_attr_lines by auto
  have 3: "\<forall>l \<in> set (concat (map ssrc_lines (mv_ssrcs v))). attr_line l" using r ssrc_attr_lines by auto
  have 4: "\<forall>l \<in> set (map extmap_line (mv_extmaps v)). attr_line l" using r by (auto simp: extmap_line_def)
  have 5: "\<forall>l \<in> set (info_lines (mv_info v)). attr_line l" using r info_attr_lines by blast
  have 6: "\<forall>l \<in> set (msid_lines (mv_msid v) (mv_tracker v)). attr_line l" using r by (simp add: msid_lines_def)
  have "set (media_rest v) = set (info_lines (mv_info v)) \<union> {ascii ''a=mid:'' @ mv_mid v} \<union> set (msid_lines (mv_msid v) (mv_tracker v))
     \<union> set (map extmap_line (mv_extmaps v)) \<union> set (flag_line (mv_sendonly v) ''a=sendonly'') \<union> set (flag_line (mv_recvonly v) ''a=recvonly'')
     \<union> set (flag_line (mv_sendrecv v) ''a=sendrecv'') \<union> set (flag_line (mv_inactive v) ''a=inactive'') \<union> set (flag_line (mv_mux v) ''a=rtcp-mux'')
     \<union> set (flag_line (mv_rsize v) ''a=rtcp-rsize'') \<union> set (concat (map payload_lines (mv_payloads v))) \<union> set (concat (map ssrc_lines (mv_ssrcs v)))
     \<union> set (flag_line (mv_sctp v) ''a=sctp-port:5000'') \<union> set (candidate_lines (mv_candidates v))"
    by (simp add: media_rest_def media_lines_def Un_assoc del: set_concat set_map)
  then show ?thesis using 1 2 3 4 5 6 r by (simp only: ball_Un attr_flag_line) simp
qed

lemma c_line_step: "sdp_step (ascii ''c=IN IP4 0.0.0.0'') (v, m) (v, m)"
proof (rule sdp_stepI)
  show "line_ok (ascii ''c=IN IP4 0.0.0.0'')" by (simp add: line_ok_def) (simp add: ascii_def)
qed (simp add: yang_rtcsdp_parse_line_def mem_load_def ascii_def)

lemma media_lines_steps:
  assumes "media_readable u"
  shows "sdp_steps (media_lines u) (v, m) (v\<lparr>dv_media := dv_media v @ [u\<lparr>mv_sctp := False\<rparr>]\<rparr>, True)"
proof -
  have "sdp_steps [media_line u, ascii ''c=IN IP4 0.0.0.0''] (v, m) (v\<lparr>dv_media := dv_media v @ [opened u]\<rparr>, True)"
    by (intro sdp_steps_cons [OF open_step [OF assms]] sdp_steps_one c_line_step)
  moreover have "sdp_steps (media_rest u) (v\<lparr>dv_media := dv_media v @ [opened u]\<rparr>, True) (v\<lparr>dv_media := dv_media v @ [u\<lparr>mv_sctp := False\<rparr>]\<rparr>, True)"
    by (rule media_sdp_steps [OF media_rest_steps [OF assms] media_rest_attr_lines [OF assms]])
  ultimately show ?thesis unfolding media_lines_rest by (rule sdp_steps_append)
qed

lemma medias_steps:
  assumes "\<forall>u \<in> set us. media_readable u"
  shows "sdp_steps (concat (map media_lines us)) (v, m) (v\<lparr>dv_media := dv_media v @ map (mv_sctp_update (\<lambda>_. False)) us\<rparr>, m \<or> us \<noteq> [])"
  using assms
proof (induction us arbitrary: v m)
  case (Cons u us)
  let ?v = "v\<lparr>dv_media := dv_media v @ [u\<lparr>mv_sctp := False\<rparr>]\<rparr>"
  have "sdp_steps (media_lines u) (v, m) (?v, True)" by (rule media_lines_steps) (use Cons.prems in simp)
  moreover have "sdp_steps (concat (map media_lines us)) (?v, True) (?v\<lparr>dv_media := dv_media ?v @ map (mv_sctp_update (\<lambda>_. False)) us\<rparr>, True \<or> us \<noteq> [])"
    by (rule Cons.IH) (use Cons.prems in simp)
  ultimately show ?case using sdp_steps_append by fastforce
qed simp

end
