(* ===== verification/Sdp_Trip.thy ===== *)
theory Sdp_Trip
  imports Sdp_Facts
begin

text \<open>
  What the parser makes of a whole description, and what the setters do to it: the round trip from a description through its text, and
  the faults that a text from the network can cause.
\<close>

section \<open>All media descriptions\<close>

lemma vec_write_all:
  assumes "vec_ok v" "length xs = length (vec_list v)"
  obtains p where "mem_write (payload v) 0 xs = Some p" "vec_ok (v\<lparr>payload := p\<rparr>)" "vec_list (v\<lparr>payload := p\<rparr>) = xs"
proof -
  have n: "nat (vsize v) = length xs" "length xs \<le> length (payload v)" using assms by (auto simp: vec_ok_def vec_list_def)
  have "mem_write (payload v) 0 xs = Some (xs @ drop (length xs) (payload v))" using n(2) by (simp add: mem_write_def)
  moreover have "vec_ok (v\<lparr>payload := xs @ drop (length xs) (payload v)\<rparr>)" using assms(1) n(2) by (simp add: vec_ok_def)
  moreover have "vec_list (v\<lparr>payload := xs @ drop (length xs) (payload v)\<rparr>) = xs" by (simp add: vec_list_def n(1))
  ultimately show thesis by (rule that)
qed

lemma map_media_views:
  assumes "\<forall>d \<in> set ds. media_ok d" "\<And>d. media_ok d \<Longrightarrow> \<exists>d'. f d = Some d' \<and> media_ok d' \<and> view_media d' = g (view_media d)"
  shows "\<exists>ds'. map_media f ds = Some ds' \<and> (\<forall>d \<in> set ds'. media_ok d) \<and> map view_media ds' = map g (map view_media ds)"
  using assms(1)
proof (induction ds)
  case (Cons d ds)
  then obtain ds' d' where "map_media f ds = Some ds'" "\<forall>d \<in> set ds'. media_ok d" "map view_media ds' = map g (map view_media ds)"
    "f d = Some d'" "media_ok d'" "view_media d' = g (view_media d)" using assms(2) [of d] by auto
  then show ?case by simp
qed simp

text \<open>A function that changes the view of every media description by \<open>g\<close> changes nothing else.\<close>

lemma each_media_views:
  assumes "sdp_ok d" "\<And>m. media_ok m \<Longrightarrow> \<exists>m'. f m = Some m' \<and> media_ok m' \<and> view_media m' = g (view_media m)"
  obtains d' where "each_media d f = Some d'" "sdp_ok d'" "view_sdp d' = (view_sdp d)\<lparr>dv_media := map g (dv_media (view_sdp d))\<rparr>"
    "sd_in_media_session d' = sd_in_media_session d"
proof -
  let ?ds = "sd_media_descs d"
  have ok: "vec_ok ?ds" "\<forall>x \<in> set (vec_list ?ds). media_ok x" using assms(1) by (simp_all add: sdp_ok_def)
  obtain ds where ds: "map_media f (vec_list ?ds) = Some ds" "\<forall>d \<in> set ds. media_ok d" "map view_media ds = map g (map view_media (vec_list ?ds))"
    using map_media_views [OF ok(2), of f g] assms(2) by blast
  have "length ds = length (vec_list ?ds)" using arg_cong [OF ds(3), of length] by simp
  then obtain p where p: "mem_write (payload ?ds) 0 ds = Some p" "vec_ok (?ds\<lparr>payload := p\<rparr>)" "vec_list (?ds\<lparr>payload := p\<rparr>) = ds"
    by (rule vec_write_all [OF ok(1)])
  have "each_media d f = Some (d\<lparr>sd_media_descs := ?ds\<lparr>payload := p\<rparr>\<rparr>)" using ok(1) ds(1) p(1) by (simp add: each_media_def vec_all_ok)
  then show thesis
    using that assms(1) p(2,3) ds(2,3) by (simp add: view_sdp_def [of d])
qed

section \<open>Completion\<close>

definition complete_ssrc_view :: "media_view \<Rightarrow> ssrc_view \<Rightarrow> ssrc_view" where
  "complete_ssrc_view m s =
     s\<lparr>sv_msid := (if sv_msid s = [] then mv_msid m else sv_msid s), sv_tracker := (if sv_tracker s = [] then mv_tracker m else sv_tracker s),
       sv_mslabel := (if sv_mslabel s = [] then mv_msid m else sv_mslabel s), sv_label := (if sv_label s = [] then mv_tracker m else sv_label s)\<rparr>"

definition complete_view :: "media_view \<Rightarrow> media_view" where
  "complete_view m = m\<lparr>mv_ssrcs := map (complete_ssrc_view m) (mv_ssrcs m)\<rparr>"

lemma copy_if_empty_text:
  assumes "arr n f" "arr n t"
  obtains m where "copy_if_empty f t = Some m" "arr n m" "str_of m = (if str_of f = [] then str_of t else str_of f)"
proof (cases "str_of f = []")
  case True
  obtain m where "c_strcpy f t = Some m" "arr n m" "str_of m = str_of t"
    by (rule strcpy_field [OF assms(1) arr_c_str [OF assms(2)] arr_less [OF assms(2)]])
  then show thesis using that True arr_c_strlen [OF assms(1)] by (simp add: copy_if_empty_def)
next
  case False
  then show thesis using that assms(1) arr_c_strlen [OF assms(1)] by (simp add: copy_if_empty_def)
qed

lemma complete_ssrcs_views:
  assumes "media_ok d" "\<forall>s \<in> set ss. ssrc_ok s"
  shows "\<exists>ss'. complete_ssrcs d ss = Some ss' \<and> (\<forall>s \<in> set ss'. ssrc_ok s) \<and> map view_ssrc ss' = map (complete_ssrc_view (view_media d)) (map view_ssrc ss)"
  using assms(2)
proof (induction ss)
  case (Cons s ss)
  have a: "arr 64 (ss_msid s)" "arr 64 (ss_msid_tracker s)" "arr 64 (ss_mslabel s)" "arr 64 (ss_label s)" using Cons.prems by (simp_all add: ssrc_ok_def)
  have b: "arr 64 (md_msid d)" "arr 64 (md_msid_tracker d)" using assms(1) by (simp_all add: media_ok_def)
  obtain m where m: "copy_if_empty (ss_msid s) (md_msid d) = Some m" "arr 64 m" "str_of m = (if str_of (ss_msid s) = [] then str_of (md_msid d) else str_of (ss_msid s))"
    by (rule copy_if_empty_text [OF a(1) b(1)])
  obtain t where t: "copy_if_empty (ss_msid_tracker s) (md_msid_tracker d) = Some t" "arr 64 t"
    "str_of t = (if str_of (ss_msid_tracker s) = [] then str_of (md_msid_tracker d) else str_of (ss_msid_tracker s))" by (rule copy_if_empty_text [OF a(2) b(2)])
  obtain ml where ml: "copy_if_empty (ss_mslabel s) (md_msid d) = Some ml" "arr 64 ml"
    "str_of ml = (if str_of (ss_mslabel s) = [] then str_of (md_msid d) else str_of (ss_mslabel s))" by (rule copy_if_empty_text [OF a(3) b(1)])
  obtain l where l: "copy_if_empty (ss_label s) (md_msid_tracker d) = Some l" "arr 64 l"
    "str_of l = (if str_of (ss_label s) = [] then str_of (md_msid_tracker d) else str_of (ss_label s))" by (rule copy_if_empty_text [OF a(4) b(2)])
  obtain ss' where ss: "complete_ssrcs d ss = Some ss'" "\<forall>s \<in> set ss'. ssrc_ok s" "map view_ssrc ss' = map (complete_ssrc_view (view_media d)) (map view_ssrc ss)"
    using Cons by auto
  let ?s = "s\<lparr>ss_msid := m, ss_msid_tracker := t, ss_mslabel := ml, ss_label := l\<rparr>"
  have "ssrc_ok ?s" using Cons.prems m(2) t(2) ml(2) l(2) by (simp add: ssrc_ok_def)
  moreover have "view_ssrc ?s = complete_ssrc_view (view_media d) (view_ssrc s)"
    by (simp add: complete_ssrc_view_def view_ssrc_def view_media_def m(3) t(3) ml(3) l(3))
  ultimately show ?case using ss m(1) t(1) ml(1) l(1) by simp
qed simp

lemma complete_media_view:
  assumes "media_ok d"
  shows "\<exists>d'. complete_media d = Some d' \<and> media_ok d' \<and> view_media d' = complete_view (view_media d)"
proof -
  let ?ss = "md_ssrc_infos d"
  have ok: "vec_ok ?ss" "\<forall>s \<in> set (vec_list ?ss). ssrc_ok s" using assms by (simp_all add: media_ok_def)
  obtain ss where ss: "complete_ssrcs d (vec_list ?ss) = Some ss" "\<forall>s \<in> set ss. ssrc_ok s"
    "map view_ssrc ss = map (complete_ssrc_view (view_media d)) (map view_ssrc (vec_list ?ss))" using complete_ssrcs_views [OF assms ok(2)] by blast
  have "length ss = length (vec_list ?ss)" using arg_cong [OF ss(3), of length] by simp
  then obtain p where p: "mem_write (payload ?ss) 0 ss = Some p" "vec_ok (?ss\<lparr>payload := p\<rparr>)" "vec_list (?ss\<lparr>payload := p\<rparr>) = ss"
    by (rule vec_write_all [OF ok(1)])
  have s: "mv_ssrcs (view_media d) = map view_ssrc (vec_list ?ss)" by (simp add: view_media_def)
  have "complete_media d = Some (d\<lparr>md_ssrc_infos := ?ss\<lparr>payload := p\<rparr>\<rparr>)" using ok(1) ss(1) p(1) by (simp add: complete_media_def vec_all_ok)
  then show ?thesis using assms p(2,3) ss(2,3) by (simp add: complete_view_def s)
qed

section \<open>The whole text\<close>

text \<open>What is heard of a description: the groups and the line of the data channel are lost, empty identifiers of sources are filled in.\<close>

definition heard :: "sdp_view \<Rightarrow> sdp_view" where
  "heard v = v\<lparr>dv_policy := (if dv_groups v = [] then dv_policy v else []), dv_groups := [],
     dv_media := map (\<lambda>m. complete_view (m\<lparr>mv_sctp := False\<rparr>)) (dv_media v)\<rparr>"

definition sdp_readable :: "sdp_view \<Rightarrow> bool" where
  "sdp_readable v \<longleftrightarrow> plain (dv_version v) \<and> dv_version v \<noteq> [] \<and> length (dv_version v) < 16 \<and> word 128 (dv_username v) \<and> word 32 (dv_session_id v)
     \<and> word 128 (dv_session_version v) \<and> word 16 (dv_nettype v) \<and> word 32 (dv_addrtype v) \<and> word 32 (dv_address v)
     \<and> plain (dv_name v) \<and> length (dv_name v) < 64 \<and> is_int64 (dv_start v) \<and> is_int64 (dv_end v) \<and> (dv_groups v = [] \<longrightarrow> word 16 (dv_policy v))
     \<and> word 64 (dv_semantic v) \<and> (\<forall>n \<in> set (dv_msids v). plain n \<and> n \<noteq> [] \<and> 32 \<notin> set n)
     \<and> length (32 # joined 32 (dv_semantic v # dv_msids v)) < 256 \<and> info_readable (dv_info v) \<and> (\<forall>m \<in> set (dv_media v). media_readable m)"

definition created :: sdp_view where
  "created = \<lparr>dv_version = [48], dv_username = [], dv_session_id = [], dv_session_version = [], dv_nettype = [], dv_addrtype = [], dv_address = [],
     dv_name = [], dv_start = 0, dv_end = 0, dv_policy = [], dv_groups = [], dv_semantic = [], dv_msids = [], dv_info = blank_info, dv_media = []\<rparr>"

lemma create_rtcsdp_view: "\<exists>d. yang_create_rtcsdp zero_sdp = Some d \<and> sdp_at d created False"
proof -
  have z: "sdp_ok zero_sdp"
    by (simp add: sdp_ok_def zero_sdp_def arr_zeros info_ok_def zero_session_info_def strings_ok_def zero_vector_def vec_ok_def vec_list_def)
  have d: "dec_int 0 = [48]" by (simp add: dec_int_def dec_nat.simps)
  let ?m = "[48, 0] @ replicate 14 0"
  have i: "yang_itoa 0 (sd_version zero_sdp) = Some ?m" by (simp add: yang_itoa_def d zero_sdp_def mem_write_def)
  have s: "str_of ?m = [48]" by (simp add: str_of_def)
  have a: "arr 16 ?m" by (simp add: arr_def)
  let ?d = "zero_sdp\<lparr>sd_in_media_session := 0, sd_version := ?m, sd_start_time := 0, sd_end_time := 0\<rparr>"
  have "sdp_ok ?d" using z a by (simp add: sdp_ok_def)
  moreover have "view_sdp ?d = created"
    by (simp add: view_sdp_def zero_sdp_def created_def view_info_def zero_session_info_def blank_info_def zero_vector_def vec_list_def s [simplified])
  ultimately show ?thesis using i by (simp add: yang_create_rtcsdp_def sdp_at_def)
qed

lemma head_steps:
  assumes "sdp_readable v"
  shows "sdp_steps (head_lines v) (created, False)
    (created\<lparr>dv_version := dv_version v, dv_username := dv_username v, dv_session_id := dv_session_id v, dv_session_version := dv_session_version v,
       dv_nettype := dv_nettype v, dv_addrtype := dv_addrtype v, dv_address := dv_address v, dv_name := dv_name v, dv_start := dv_start v,
       dv_end := dv_end v, dv_policy := (if dv_groups v = [] then dv_policy v else []), dv_semantic := dv_semantic v, dv_msids := dv_msids v\<rparr>, False)"
proof -
  note r = assms [unfolded sdp_readable_def]
  let ?v1 = "created\<lparr>dv_version := dv_version v\<rparr>"
  let ?v2 = "?v1\<lparr>dv_username := dv_username v, dv_session_id := dv_session_id v, dv_session_version := dv_session_version v,
       dv_nettype := dv_nettype v, dv_addrtype := dv_addrtype v, dv_address := dv_address v\<rparr>"
  let ?v3 = "?v2\<lparr>dv_name := dv_name v\<rparr>" let ?v4 = "?v3\<lparr>dv_start := dv_start v, dv_end := dv_end v\<rparr>"
  let ?v5 = "?v4\<lparr>dv_policy := (if dv_groups v = [] then dv_policy v else [])\<rparr>" let ?v6 = "?v5\<lparr>dv_semantic := dv_semantic v, dv_msids := dv_msids v\<rparr>"
  have o: "origin_text v = joined 32 [dv_username v, dv_session_id v, dv_session_version v, dv_nettype v, dv_addrtype v, dv_address v]"
    by (simp add: origin_text_def)
  have t: "dec_int (dv_start v) @ 32 # dec_int (dv_end v) = joined 32 [dec_int (dv_start v), dec_int (dv_end v)]" by simp
  have 1: "sdp_step (ascii ''v='' @ dv_version v) (created, False) (?v1, False)" by (rule version_step) (use r in simp_all)
  have 2: "sdp_step (ascii ''o='' @ origin_text v) (?v1, False) (?v2, False)" unfolding o by (rule origin_step) (use r in simp_all)
  have 3: "sdp_step (ascii ''s='' @ dv_name v) (?v2, False) (?v3, False)" by (rule name_step) (use r in simp_all)
  have 4: "sdp_step (ascii ''t='' @ dec_int (dv_start v) @ 32 # dec_int (dv_end v)) (?v3, False) (?v4, False)"
    unfolding t by (rule timing_step) (use r in simp_all)
  have 5: "sdp_steps (if dv_groups v = [] then [ascii ''a=group:'' @ dv_policy v] else []) (?v4, False) (?v5, False)"
  proof (cases "dv_groups v = []")
    case True
    have "sdp_step (ascii ''a=group:'' @ dv_policy v) (?v4, False) (?v4\<lparr>dv_policy := dv_policy v\<rparr>, False)"
      by (rule group_step) (use r True in \<open>simp_all add: created_def\<close>)
    then show ?thesis unfolding if_P [OF True] by (rule sdp_steps_one)
  qed (simp add: created_def)
  have 6: "sdp_step (semantic_line (dv_semantic v) (dv_msids v)) (?v5, False) (?v6, False)"
    by (rule semantic_step) (use r in \<open>simp_all add: created_def\<close>)
  show ?thesis
    unfolding head_lines_def append_Cons append_Nil
    by (intro sdp_steps_cons [OF 1] sdp_steps_cons [OF 2] sdp_steps_cons [OF 3] sdp_steps_cons [OF 4] sdp_steps_cons [OF ice_lite_step]
        sdp_steps_append [OF 5] sdp_steps_one 6)
qed

lemma sdp_lines_steps:
  assumes "sdp_readable v"
  shows "sdp_steps (sdp_lines v) (created, False)
    (v\<lparr>dv_policy := (if dv_groups v = [] then dv_policy v else []), dv_groups := [], dv_media := map (mv_sctp_update (\<lambda>_. False)) (dv_media v)\<rparr>, dv_media v \<noteq> [])"
proof -
  note r = assms [unfolded sdp_readable_def]
  let ?v6 = "created\<lparr>dv_version := dv_version v, dv_username := dv_username v, dv_session_id := dv_session_id v, dv_session_version := dv_session_version v,
       dv_nettype := dv_nettype v, dv_addrtype := dv_addrtype v, dv_address := dv_address v, dv_name := dv_name v, dv_start := dv_start v,
       dv_end := dv_end v, dv_policy := (if dv_groups v = [] then dv_policy v else []), dv_semantic := dv_semantic v, dv_msids := dv_msids v\<rparr>"
  let ?v7 = "?v6\<lparr>dv_info := dv_info v\<rparr>"
  have 1: "sdp_steps (head_lines v) (created, False) (?v6, False)" by (rule head_steps [OF assms])
  have 2: "sdp_steps (info_lines (dv_info v)) (?v6, False) (?v7, False)" by (rule session_info_steps) (use r in \<open>simp_all add: created_def\<close>)
  have 3: "sdp_steps (concat (map media_lines (dv_media v))) (?v7, False)
      (?v7\<lparr>dv_media := dv_media ?v7 @ map (mv_sctp_update (\<lambda>_. False)) (dv_media v)\<rparr>, False \<or> dv_media v \<noteq> [])" by (rule medias_steps) (use r in simp)
  have e: "?v7\<lparr>dv_media := dv_media ?v7 @ map (mv_sctp_update (\<lambda>_. False)) (dv_media v)\<rparr>
      = v\<lparr>dv_policy := (if dv_groups v = [] then dv_policy v else []), dv_groups := [], dv_media := map (mv_sctp_update (\<lambda>_. False)) (dv_media v)\<rparr>"
    by (simp add: created_def)
  show ?thesis unfolding sdp_lines_def using sdp_steps_append [OF 1 sdp_steps_append [OF 2 3]] unfolding e by simp
qed

text \<open>Lines that each end with a line feed\<close>

definition lf :: "u8 list list \<Rightarrow> u8 list" where
  "lf ls = concat (map (\<lambda>l. l @ [10]) ls)"

lemma sdp_steps_ok: "sdp_steps ls s s' \<Longrightarrow> \<forall>l \<in> set ls. line_ok l"
  by (induction ls arbitrary: s) (auto simp: sdp_step_def)

lemma parse_text:
  assumes "sdp_readable v" "c_str str = Some (lf (sdp_lines v))" "sdp_at d created False"
  shows "\<exists>d'. yang_rtcsdp_parse d str = Some (Yang_Ok, d') \<and> sdp_ok d' \<and> view_sdp d' = heard v"
proof -
  let ?w = "v\<lparr>dv_policy := (if dv_groups v = [] then dv_policy v else []), dv_groups := [], dv_media := map (mv_sctp_update (\<lambda>_. False)) (dv_media v)\<rparr>"
  obtain m where m: "sdp_steps (sdp_lines v) (created, False) (?w, m)" using sdp_lines_steps [OF assms(1)] by blast
  have "\<forall>l \<in> set (sdp_lines v). l \<noteq> [] \<and> 10 \<notin> set l"
    using sdp_steps_ok [OF m] by (auto simp: line_ok_def plain_def)
  then have tk: "tokens [10] (lf (sdp_lines v)) = sdp_lines v" unfolding lf_def by (rule tokens_lines)
  obtain e s where s: "yang_cstr_split str [10, 0] = Some (e, s)" "strs_str s = map (\<lambda>p. p @ [0]) (sdp_lines v)"
    by (rule cstr_split_char [OF assms(2), of 10]) (simp_all add: tk)
  obtain d1 where d1: "parse_lines (map (\<lambda>l. l @ [0]) (sdp_lines v)) d = Some (Yang_Ok, d1)" "sdp_ok d1" "view_sdp d1 = ?w"
    using parse_lines_steps [OF m] assms(3) by (auto simp: sdp_at_def)
  obtain d2 where d2: "each_media d1 complete_media = Some d2" "sdp_ok d2"
    "view_sdp d2 = (view_sdp d1)\<lparr>dv_media := map complete_view (dv_media (view_sdp d1))\<rparr>" 
    by (rule each_media_views [OF d1(2), of complete_media complete_view]) (use complete_media_view in blast)+
  have "view_sdp d2 = heard v" unfolding d2(3) d1(3) by (simp add: heard_def o_def)
  then show ?thesis using s d1(1) d2(1,2) by (simp add: yang_rtcsdp_parse_def)
qed

lemma replace_crlf:
  assumes "\<forall>l \<in> set ls. 13 \<notin> set l"
  shows "replace_all [13, 10] [10] (crlf ls) = lf ls"
  using assms
proof (induction ls)
  case (Cons l ls)
  have step: "replace_all [13, 10] [10] (l @ 13 # 10 # t) = l @ 10 # replace_all [13, 10] [10] t" if "13 \<notin> set l" for l t
    using that by (induction l) (auto simp: replace_all.simps)
  show ?case using Cons step [of l "crlf ls"] by (simp add: crlf_def lf_def)
qed (simp add: crlf_def lf_def replace_all.simps)

lemma plain_lf: "\<forall>l \<in> set ls. 0 \<notin> set l \<Longrightarrow> 0 \<notin> set (lf ls)"
  by (auto simp: lf_def)

text \<open>
  Printing into a zeroed buffer, replacing the line ends as \<open>yang_sdp_genLocalSdp2\<close> does, and parsing
\<close>

lemma printed_and_heard:
  assumes "printable d" "sdp_readable (view_sdp d)" "\<forall>l \<in> set (sdp_lines (view_sdp d)). 13 \<notin> set l"
    and "length (crlf (sdp_lines (view_sdp d))) < n"
  shows "\<exists>os dst d0 d'. yang_rtcsdp_encode d (yang_init_buffer (replicate n 0) 0 (int n)) = Some (Yang_Ok, os)
    \<and> yang_cstr_replace (buf_mem os) (replicate n 0) [13, 10, 0] [10, 0] = Some dst
    \<and> yang_create_rtcsdp zero_sdp = Some d0 \<and> yang_rtcsdp_parse d0 dst = Some (Yang_Ok, d') \<and> sdp_ok d' \<and> view_sdp d' = heard (view_sdp d)"
proof -
  let ?b = "yang_init_buffer (replicate n 0) 0 (int n)" let ?ls = "sdp_lines (view_sdp d)" let ?t = "crlf ?ls"
  obtain m where "sdp_steps ?ls (created, False) m" using sdp_lines_steps [OF assms(2)] by blast
  then have z: "\<forall>l \<in> set ?ls. 0 \<notin> set l" using sdp_steps_ok by (fastforce simp: line_ok_def plain_def)
  have zt: "0 \<notin> set ?t" using z by (auto simp: crlf_def)
  have r: "room ?b (length ?t)" "room ?b 0" using assms(4) by (simp_all add: room_def yang_init_buffer_def)
  have enc: "yang_rtcsdp_encode d ?b = Some (Yang_Ok, put ?b ?t)"
    using encode_text [OF assms(1)] r by (simp add: emits_ok_def put_bytes_def)
  have mem: "buf_mem (put ?b ?t) = ?t @ 0 # replicate (n - length ?t - 1) 0"
    using assms(4) by (simp add: put_def yang_init_buffer_def Suc_diff_Suc flip: replicate_Suc)
  have c: "c_str (buf_mem (put ?b ?t)) = Some ?t" unfolding mem by (rule c_str_append [OF zt])
  have rep: "replace_all [13, 10] [10] ?t = lf ?ls" by (rule replace_crlf [OF assms(3)])
  have "length (lf ls) \<le> length (crlf ls)" for ls by (induction ls) (simp_all add: lf_def crlf_def)
  then have l: "length (lf ?ls) < n" using assms(4) le_less_trans by blast
  have dst: "yang_cstr_replace (buf_mem (put ?b ?t)) (replicate n 0) [13, 10, 0] [10, 0] = Some (lf ?ls @ replicate (n - length (lf ?ls)) 0)"
    using cstr_replace_all [OF c, of "[13, 10, 0]" "[13, 10]" "[10, 0]" "[10]" n] l rep by simp
  have cd: "c_str (lf ?ls @ replicate (n - length (lf ?ls)) 0) = Some (lf ?ls)"
    using c_str_append [OF plain_lf [OF z], of "replicate (n - length (lf ?ls) - 1) 0"] l by (simp add: Suc_diff_Suc flip: replicate_Suc)
  obtain d0 where d0: "yang_create_rtcsdp zero_sdp = Some d0" "sdp_at d0 created False" using create_rtcsdp_view by blast
  obtain d' where "yang_rtcsdp_parse d0 (lf ?ls @ replicate (n - length (lf ?ls)) 0) = Some (Yang_Ok, d')" "sdp_ok d'" "view_sdp d' = heard (view_sdp d)"
    using parse_text [OF assms(2) cd d0(2)] by blast
  then show ?thesis using enc dst d0(1) by blast
qed

section \<open>An attribute that is too long\<close>

lemma parse_lines_fault:
  assumes "sdp_steps ls s s'" "sdp_at d (fst s) (snd s)" "line_ok l"
    and "\<And>d'. sdp_at d' (fst s') (snd s') \<Longrightarrow> yang_rtcsdp_parse_line d' (l @ [0]) = None"
  shows "parse_lines (map (\<lambda>l. l @ [0]) (ls @ [l])) d = None"
  using assms(1,2)
proof (induction ls arbitrary: s d)
  case Nil
  then have "sdp_at d (fst s') (snd s')" by simp
  from assms(3) obtain x t where "l = x # 61 # t" "plain l" unfolding line_ok_def by blast
  then show ?case using assms(4) [OF \<open>sdp_at d (fst s') (snd s')\<close>] by (auto simp: c_strlen_c_str plain_def mem_load_def)
next
  case (Cons k ls)
  from Cons.prems(1) obtain u where u: "sdp_step k s u" "sdp_steps ls u s'" by auto
  from u(1) obtain x t where k: "k = x # 61 # t" "plain k" unfolding sdp_step_def line_ok_def by blast
  have n: "c_strlen (k @ [0]) = Some (int (length k))" using k(2) by (simp add: c_strlen_c_str plain_def)
  obtain d1 where "yang_rtcsdp_parse_line d (k @ [0]) = Some (Yang_Ok, d1)" "sdp_at d1 (fst u) (snd u)"
    using u(1) Cons.prems(2) unfolding sdp_step_def by blast
  then show ?case using Cons.IH [OF u(2)] n k(1) by (simp add: mem_load_def)
qed

lemma long_value_fault:
  assumes "0 \<notin> set t" "128 < length t" "CHR '':'' \<notin> set name" "CHR 0x00 \<notin> set name" "length name \<le> 128"
  shows "yang_mediadesc_parse_line d ((ascii (''a='' @ name @ '':'') @ t) @ [0]) = None"
proof -
  have s: "c_str (ascii name @ 58 # t @ [0]) = Some (ascii name @ 58 # t)" using c_str_text [of "ascii name @ 58 # t"] assms(1,4) by simp
  have "split_attribute (ascii name @ 58 # t @ [0]) = None"
    using assms(2,3) by (auto simp: split_attribute_def s mem_write_def)
  moreover have "yang_mediadesc_parse_line d ((ascii (''a='' @ name @ '':'') @ t) @ [0]) = yang_mediadesc_parse_attribute d (ascii name @ 58 # t @ [0])"
    by (simp add: yang_mediadesc_parse_line_def mem_load_def ascii_def)
  ultimately show ?thesis by (simp add: yang_mediadesc_parse_attribute_def)
qed

lemma long_line_fault:
  assumes "sdp_at d v True" "dv_media v \<noteq> []" "0 \<notin> set t" "128 < length t" "CHR '':'' \<notin> set name" "CHR 0x00 \<notin> set name" "length name \<le> 128"
  shows "yang_rtcsdp_parse_line d ((ascii (''a='' @ name @ '':'') @ t) @ [0]) = None"
proof -
  let ?ds = "sd_media_descs d"
  have ok: "vec_ok ?ds" "sd_in_media_session d \<noteq> 0" using assms(1) by (simp_all add: sdp_at_def sdp_ok_def)
  have "dv_media v = map view_media (vec_list ?ds)" using assms(1) by (auto simp: sdp_at_def view_sdp_def)
  then have "0 < vsize ?ds" using assms(2) length_vec_list [OF ok(1)] by (cases "vec_list ?ds") auto
  then obtain m where m: "mem_load (payload ?ds) (vsize ?ds - 1) = Some m" using vec_load [OF ok(1), of "vsize ?ds - 1"] by simp
  have c: "mem_load ((ascii (''a='' @ name @ '':'') @ t) @ [0]) 0 = Some 97" by (simp add: mem_load_def ascii_def)
  show ?thesis
    unfolding yang_rtcsdp_parse_line_def c bind.bind_lunit
    using ok(2) m long_value_fault [OF assms(3-7), of m] by (simp del: append_assoc)
qed

lemma long_text_fault:
  assumes "sdp_readable v" "dv_media v \<noteq> []" "yang_create_rtcsdp zero_sdp = Some d" "plain t" "128 < length t"
    and "CHR '':'' \<notin> set name" "CHR 0x00 \<notin> set name" "CHR 0x0A \<notin> set name" "length name \<le> 128"
  shows "yang_rtcsdp_parse d (lf (sdp_lines v @ [ascii (''a='' @ name @ '':'') @ t]) @ [0]) = None"
proof -
  let ?l = "ascii (''a='' @ name @ '':'') @ t" let ?ls = "sdp_lines v @ [?l]"
  let ?w = "v\<lparr>dv_policy := (if dv_groups v = [] then dv_policy v else []), dv_groups := [], dv_media := map (mv_sctp_update (\<lambda>_. False)) (dv_media v)\<rparr>"
  note m = sdp_lines_steps [OF assms(1)]
  have d: "sdp_at d created False" using create_rtcsdp_view assms(3) by simp
  have l: "line_ok ?l" using line_ok_attribute [OF assms(4), of "name @ '':''"] assms(7,8) by simp
  have ok: "\<forall>l \<in> set ?ls. line_ok l" using sdp_steps_ok [OF m] l by simp
  then have ls: "\<forall>l \<in> set ?ls. l \<noteq> [] \<and> 10 \<notin> set l" "\<forall>l \<in> set ?ls. 0 \<notin> set l" by (auto simp: line_ok_def plain_def)
  have tk: "tokens [10] (lf ?ls) = ?ls" unfolding lf_def by (rule tokens_lines [OF ls(1)])
  have c: "c_str (lf ?ls @ [0]) = Some (lf ?ls)" by (rule c_str_text [OF plain_lf [OF ls(2)]])
  obtain e s where s: "yang_cstr_split (lf ?ls @ [0]) [10, 0] = Some (e, s)" "strs_str s = map (\<lambda>p. p @ [0]) ?ls"
    by (rule cstr_split_char [OF c, of 10]) (simp_all only: tk zero_neq_numeral not_False_eq_True, simp)
  have f: "parse_lines (map (\<lambda>l. l @ [0]) ?ls) d = None"
  proof (rule parse_lines_fault [OF m _ l])
    fix d'
    assume "sdp_at d' (fst (?w, dv_media v \<noteq> [])) (snd (?w, dv_media v \<noteq> []))"
    then have a: "sdp_at d' ?w True" using assms(2) by simp
    show "yang_rtcsdp_parse_line d' (?l @ [0]) = None"
      by (rule long_line_fault [OF a]) (use assms(2,4-7,9) in \<open>simp_all add: plain_def\<close>)
  qed (simp add: d)
  show ?thesis unfolding yang_rtcsdp_parse_def lit_char s(1) using f by (simp only: s(2) bind.bind_lunit prod.case f bind.bind_lzero)
qed

end
