(* ===== verification/Sdp_Claims.thy ===== *)
theory Sdp_Claims
  imports Sdp_Trip
begin

text \<open>
  The properties of session descriptions, each on an example: a description with an audio and a video section.
\<close>

section \<open>An example\<close>

definition text_array :: "nat \<Rightarrow> string \<Rightarrow> u8 list" where
  "text_array n s = ascii s @ replicate (n - length s) 0"

definition listed :: "'a list \<Rightarrow> 'a yang_vector" where
  "listed xs = \<lparr>capacity = int (length xs), vsize = int (length xs), payload = xs\<rparr>"

lemma text_array_arr: "length s < n \<Longrightarrow> CHR 0x00 \<notin> set s \<Longrightarrow> arr n (text_array n s)"
  by (simp add: text_array_def arr_def)

lemma str_of_text_array: "length s < n \<Longrightarrow> CHR 0x00 \<notin> set s \<Longrightarrow> str_of (text_array n s) = ascii s"
  using str_of_append [of "ascii s" "replicate (n - length s - 1) 0"] by (simp add: text_array_def Suc_diff_Suc flip: replicate_Suc)

lemma listed_ok [simp]: "vec_ok (listed xs)" "vec_list (listed xs) = xs"
  by (simp_all add: listed_def vec_ok_def vec_list_def)

lemma str_of_lit [simp]: "CHR 0x00 \<notin> set s \<Longrightarrow> str_of (lit s) = ascii s" "0 \<in> set (lit s)"
  using str_of_append [of "ascii s" "[]"] by (simp_all add: lit_def)

definition example_info :: YangSessionInfo where
  "example_info = \<lparr>si_ice_ufrag = text_array 32 ''a1b2'', si_ice_pwd = text_array 128 ''secret0123456789'', si_ice_options = text_array 128 '''',
     si_fingerprint_algo = text_array 128 ''sha-256'', si_fingerprint = text_array 128 ''EF:7A:50'', si_setup = text_array 128 ''actpass''\<rparr>"

definition example_audio :: YangMediaDesc where
  "example_audio = zero_media_desc\<lparr>md_port := 9, md_rtcp_mux := 1, md_rtcp_rsize := 1, md_sendonly := 1, md_type := text_array 16 ''audio'',
     md_mid := text_array 64 ''0'', md_protos := text_array 64 ''UDP/TLS/RTP/SAVPF'', md_session_info := example_info,
     md_payload_types := listed [zero_payload_type\<lparr>pt_payload_type := 111, pt_encoding_name := text_array 16 ''opus'', pt_clock_rate := 48000,
       pt_encoding_param := text_array 256 ''2'', pt_format_specific_param := text_array 128 ''minptime=10;useinbandfec=1'',
       pt_rtcp_fb := listed [lit ''transport-cc'']\<rparr>],
     md_extmaps := listed [\<lparr>em_mapid = 3, em_extmap = text_array 128 ''http://transport-wide-cc''\<rparr>],
     md_ssrc_infos := listed [zero_ssrc_info\<lparr>ss_ssrc := 1001, ss_cname := text_array 64 ''c16'', ss_msid := text_array 64 ''-'', ss_msid_tracker := text_array 64 ''t1'',
       ss_mslabel := text_array 64 ''-'', ss_label := text_array 64 ''t1''\<rparr>],
     md_candidates := listed [\<lparr>cd_port = 16000, cd_ip = text_array 64 ''10.0.0.1'', cd_type = text_array 32 ''host''\<rparr>]\<rparr>"

definition example_video :: YangMediaDesc where
  "example_video = example_audio\<lparr>md_type := text_array 16 ''video'', md_mid := text_array 64 ''1'',
     md_payload_types := listed [zero_payload_type\<lparr>pt_payload_type := 125, pt_encoding_name := text_array 16 ''H264'', pt_clock_rate := 90000,
       pt_encoding_param := text_array 256 '''', pt_format_specific_param := text_array 128 ''packetization-mode=1'',
       pt_rtcp_fb := listed [lit ''nack'', lit ''nack pli'']\<rparr>],
     md_ssrc_infos := listed [zero_ssrc_info\<lparr>ss_ssrc := 2002, ss_cname := text_array 64 ''c16'', ss_msid := text_array 64 '''', ss_msid_tracker := text_array 64 '''',
       ss_mslabel := text_array 64 ''-'', ss_label := text_array 64 ''''\<rparr>]\<rparr>"

definition example_sdp :: YangSdp where
  "example_sdp = zero_sdp\<lparr>sd_version := text_array 16 ''0'', sd_username := text_array 128 ''MetaRtc'', sd_session_id := text_array 32 ''140'',
     sd_session_version := text_array 128 ''2'', sd_nettype := text_array 16 ''IN'', sd_addrtype := text_array 32 ''IP4'', sd_unicast_address := text_array 32 ''0.0.0.0'',
     sd_session_name := text_array 64 ''MetaRtcSession'', sd_group_policy := text_array 16 ''BUNDLE'', sd_msid_semantic := text_array 64 ''WMS'',
     sd_msids := listed [lit ''live/1''], sd_media_descs := listed [example_audio, example_video]\<rparr>"

lemma example_info_view:
  "info_ok example_info" "view_info example_info = \<lparr>iv_ufrag = ascii ''a1b2'', iv_pwd = ascii ''secret0123456789'', iv_options = [],
     iv_algo = ascii ''sha-256'', iv_fingerprint = ascii ''EF:7A:50'', iv_setup = ascii ''actpass''\<rparr>"
  "info_readable (view_info example_info)"
  by (simp_all add: example_info_def info_ok_def view_info_def text_array_arr str_of_text_array info_readable_def)

lemmas example_media_defs = example_audio_def example_video_def zero_media_desc_def zero_payload_type_def zero_ssrc_info_def

lemma dec_1 [simp]: "dec_int 0 = ascii ''0''" "dec_int 1 = ascii ''1''" "dec_int 3 = ascii ''3''" "dec_int 111 = ascii ''111''" "dec_int 125 = ascii ''125''"
  "dec_int 48000 = ascii ''48000''" "dec_int 90000 = ascii ''90000''" "dec_int 9 = ascii ''9''"
  by (simp_all add: dec_int_def dec_nat.simps ascii_def)

lemma example_audio_ok: "media_ok example_audio"
  by (simp add: media_ok_def payload_ok_def ssrc_ok_def candidate_ok_def extmap_ok_def example_media_defs text_array_arr arr_zeros is_int32_def example_info_view(1)
      zero_vector_def [where 'a = YangSSRCGroup] vec_ok_def [where 'a = YangSSRCGroup])

lemma example_video_ok: "media_ok example_video"
  by (simp add: media_ok_def payload_ok_def ssrc_ok_def candidate_ok_def extmap_ok_def example_media_defs text_array_arr arr_zeros is_int32_def example_info_view(1)
      zero_vector_def [where 'a = YangSSRCGroup] vec_ok_def [where 'a = YangSSRCGroup])

definition example_media_view :: "media_view" where
  "example_media_view = \<lparr>mv_type = ascii ''audio'', mv_port = 9, mv_protos = ascii ''UDP/TLS/RTP/SAVPF'',
     mv_payloads = [\<lparr>pv_type = 111, pv_name = ascii ''opus'', pv_rate = 48000, pv_param = ascii ''2'', pv_fmtp = ascii ''minptime=10;useinbandfec=1'',
       pv_fbs = [ascii ''transport-cc'']\<rparr>],
     mv_info = view_info example_info, mv_mid = ascii ''0'', mv_msid = [], mv_tracker = [], mv_extmaps = [(3, ascii ''http://transport-wide-cc'')],
     mv_sendonly = True, mv_recvonly = False, mv_sendrecv = False, mv_inactive = False, mv_mux = True, mv_rsize = True,
     mv_ssrcs = [\<lparr>sv_ssrc = 1001, sv_cname = ascii ''c16'', sv_msid = ascii ''-'', sv_tracker = ascii ''t1'', sv_mslabel = ascii ''-'', sv_label = ascii ''t1''\<rparr>],
     mv_sctp = False, mv_candidates = [\<lparr>cv_port = 16000, cv_ip = ascii ''10.0.0.1'', cv_type = ascii ''host''\<rparr>]\<rparr>"

lemma example_audio_view: "view_media example_audio = example_media_view"
  by (simp add: view_media_def example_media_view_def view_payload_def view_ssrc_def view_candidate_def view_extmap_def example_media_defs str_of_text_array)

lemma example_video_view: "view_media example_video = example_media_view\<lparr>mv_type := ascii ''video'', mv_mid := ascii ''1'',
     mv_payloads := [\<lparr>pv_type = 125, pv_name = ascii ''H264'', pv_rate = 90000, pv_param = [], pv_fmtp = ascii ''packetization-mode=1'',
       pv_fbs = [ascii ''nack'', ascii ''nack pli'']\<rparr>],
     mv_ssrcs := [\<lparr>sv_ssrc = 2002, sv_cname = ascii ''c16'', sv_msid = [], sv_tracker = [], sv_mslabel = ascii ''-'', sv_label = []\<rparr>]\<rparr>"
  by (simp add: view_media_def example_media_view_def view_payload_def view_ssrc_def view_candidate_def view_extmap_def example_media_defs str_of_text_array)

lemma ascii_47 [simp]: "47 \<in> set (ascii s) \<longleftrightarrow> CHR ''/'' \<in> set s"
  by simp

lemma example_audio_readable: "media_readable (view_media example_audio)"
  unfolding example_audio_view
  by (simp add: media_readable_def example_media_view_def example_info_view(3) payload_readable_def ssrc_readable_def candidate_readable_def is_int32_def)

lemma example_video_readable: "media_readable (view_media example_video)"
  unfolding example_video_view
  by (simp add: media_readable_def example_media_view_def example_info_view(3) payload_readable_def ssrc_readable_def candidate_readable_def is_int32_def)

lemma zero_info_view: "info_ok zero_session_info" "view_info zero_session_info = blank_info"
  by (simp_all add: info_ok_def view_info_def zero_session_info_def arr_zeros blank_info_def)

lemma example_sdp_view: "view_sdp example_sdp = \<lparr>dv_version = ascii ''0'', dv_username = ascii ''MetaRtc'', dv_session_id = ascii ''140'',
     dv_session_version = ascii ''2'', dv_nettype = ascii ''IN'', dv_addrtype = ascii ''IP4'', dv_address = ascii ''0.0.0.0'',
     dv_name = ascii ''MetaRtcSession'', dv_start = 0, dv_end = 0, dv_policy = ascii ''BUNDLE'', dv_groups = [], dv_semantic = ascii ''WMS'',
     dv_msids = [ascii ''live/1''], dv_info = blank_info, dv_media = [view_media example_audio, view_media example_video]\<rparr>"
  by (simp add: view_sdp_def example_sdp_def zero_sdp_def str_of_text_array zero_info_view zero_vector_def vec_list_def [of "zero_vector", unfolded zero_vector_def])

lemma example_sdp_ok: "sdp_ok example_sdp"
  by (simp add: sdp_ok_def example_sdp_def zero_sdp_def text_array_arr zero_info_view(1) strings_ok_def example_audio_ok example_video_ok
      zero_vector_def vec_ok_def [of "zero_vector", unfolded zero_vector_def] vec_list_def [of "zero_vector", unfolded zero_vector_def])

lemma example_printable: "printable example_sdp"
proof -
  have "length (crlf (head_lines (view_sdp example_sdp))) < 2048"
    by (simp add: example_sdp_view head_lines_def crlf_def origin_text_def semantic_line_def)
  moreover have "vec_list (sd_media_descs example_sdp) = [example_audio, example_video]" by (simp add: example_sdp_def)
  ultimately show ?thesis
    using example_sdp_ok by (simp add: printable_def) (simp add: example_media_defs is_int32_def listed_def vec_list_def)
qed

lemma example_readable: "sdp_readable (view_sdp example_sdp)"
  by (simp add: sdp_readable_def example_sdp_view word_def is_int64_def info_readable_def example_audio_readable example_video_readable)

lemmas lines_defs = sdp_lines_def head_lines_def origin_text_def semantic_line_def media_lines_def media_line_def info_lines_def named_line_def
  msid_lines_def extmap_line_def flag_line_def payload_lines_def ssrc_lines_def ssrc_line_def candidate_lines_def candidate_line_def
  candidate_priority_def example_media_view_def

lemma example_lines:
  "\<forall>l \<in> set (sdp_lines (view_sdp example_sdp)). 13 \<notin> set l" "length (crlf (sdp_lines (view_sdp example_sdp))) < 12288"
proof -
  have d: "length (dec_int i) \<le> 11" if "is_int32 i" for i by (rule dec_int_length [OF that])
  show "\<forall>l \<in> set (sdp_lines (view_sdp example_sdp)). 13 \<notin> set l"
    by (simp add: example_sdp_view example_audio_view example_video_view example_info_view(2) lines_defs blank_info_def)
  show "length (crlf (sdp_lines (view_sdp example_sdp))) < 12288"
    using d [of 1001] d [of 2002] d [of 16000] d [of 2130706431]
    by (simp add: example_sdp_view example_audio_view example_video_view example_info_view(2) lines_defs blank_info_def crlf_def is_int32_def)
qed

section \<open>Printing\<close>

text \<open>
  C3: Printing a session description writes exactly its lines, each ended by a carriage return and a line feed, in the order of the
  specification - or is a memory fault when the buffer has no room for them. The description may be any whose arrays are terminated and
  whose sources are not zero, as long as the first lines fit the local array of 2048 characters.
\<close>
theorem sdp_encode_lines:
  assumes "printable d" "room os 0"
  shows "yang_rtcsdp_encode d os = map_option (Pair Yang_Ok) (put_bytes os (crlf (sdp_lines (view_sdp d))))"
  using encode_text [OF assms(1)] assms(2) by (simp add: emits_ok_def)

theorem sdp_encode_lines_witness:
  "\<exists>os. yang_rtcsdp_encode example_sdp (yang_init_buffer (replicate 12288 0) 0 12288) = Some (Yang_Ok, os)
     \<and> buf_head os = int (length (crlf (sdp_lines (view_sdp example_sdp))))"
proof -
  let ?b = "yang_init_buffer (replicate 12288 0) 0 12288"
  have "room ?b 0" "room ?b (length (crlf (sdp_lines (view_sdp example_sdp))))"
    using example_lines(2) by (simp_all add: room_def yang_init_buffer_def)
  then show ?thesis
    using sdp_encode_lines [OF example_printable, of ?b] by (simp add: put_bytes_def put_def yang_init_buffer_def)
qed

section \<open>The round trip\<close>

text \<open>
  C1: A description that is printed into a zeroed buffer, has its line ends replaced by line feeds, and is parsed by the other side into
  a new description, is heard as it was: every field of the session, every media section with its payload types, feedback, extensions,
  sources and candidates, except that empty identifiers of sources are filled in from the section, and that the groups (printed only when
  there is none) and the line of the data channel are lost.
\<close>
theorem sdp_roundtrip:
  assumes "printable d" "sdp_readable (view_sdp d)" "\<forall>l \<in> set (sdp_lines (view_sdp d)). 13 \<notin> set l"
    and "length (crlf (sdp_lines (view_sdp d))) < n"
  shows "\<exists>os dst d0 d'. yang_rtcsdp_encode d (yang_init_buffer (replicate n 0) 0 (int n)) = Some (Yang_Ok, os)
    \<and> yang_cstr_replace (buf_mem os) (replicate n 0) [13, 10, 0] [10, 0] = Some dst
    \<and> yang_create_rtcsdp zero_sdp = Some d0 \<and> yang_rtcsdp_parse d0 dst = Some (Yang_Ok, d') \<and> view_sdp d' = heard (view_sdp d)"
  using printed_and_heard [OF assms] by blast

theorem sdp_roundtrip_witness:
  "\<exists>os dst d0 d'. yang_rtcsdp_encode example_sdp (yang_init_buffer (replicate 12288 0) 0 12288) = Some (Yang_Ok, os)
    \<and> yang_cstr_replace (buf_mem os) (replicate 12288 0) [13, 10, 0] [10, 0] = Some dst
    \<and> yang_create_rtcsdp zero_sdp = Some d0 \<and> yang_rtcsdp_parse d0 dst = Some (Yang_Ok, d')
    \<and> map sv_ssrc (mv_ssrcs (hd (dv_media (view_sdp d')))) = [1001]"
proof -
  have v: "map sv_ssrc (mv_ssrcs (hd (dv_media (heard (view_sdp example_sdp))))) = [1001]"
    by (simp add: heard_def example_sdp_view example_audio_view example_media_view_def complete_view_def complete_ssrc_view_def)
  show ?thesis
    using sdp_roundtrip [OF example_printable example_readable example_lines, unfolded of_nat_numeral] v by fastforce
qed

section \<open>Faults\<close>

text \<open>
  C2: A remote description is copied without bounds: after any well-formed description, one attribute line of a media section whose value
  is longer than 128 characters makes the parser write beyond its local array, whatever the name of the attribute.
\<close>
theorem remote_sdp_overflow:
  assumes "sdp_readable v" "dv_media v \<noteq> []" "plain t" "128 < length t"
    and "CHR '':'' \<notin> set name" "CHR 0x00 \<notin> set name" "CHR 0x0A \<notin> set name" "length name \<le> 128"
  shows "(yang_create_rtcsdp zero_sdp \<bind> (\<lambda>d. yang_rtcsdp_parse d (lf (sdp_lines v @ [ascii (''a='' @ name @ '':'') @ t]) @ [0]))) = None"
  using long_text_fault [OF assms(1,2) _ assms(3-8)] create_rtcsdp_view by auto

theorem remote_sdp_overflow_witness:
  "(yang_create_rtcsdp zero_sdp \<bind> (\<lambda>d. yang_rtcsdp_parse d
     (lf (sdp_lines (view_sdp example_sdp) @ [ascii ''a=setup:'' @ replicate 129 65]) @ [0]))) = None"
  using remote_sdp_overflow [OF example_readable, of "replicate 129 65" "''setup''"] by (simp add: example_sdp_view plain_def)

end
