(* ===== verification/Spec2Isabelle.thy ===== *)
theory Spec2Isabelle
  imports Rtp_Payload Rtcp_Compound Recv_Nack Vector Video_Meta Push_Facts Rtc_Loss Play_Frame Sort_Facts Ice_Facts Twcc_Facts Url Sdp_Claims
begin

text \<open>
  A model of the core of metaRTC: the C library under \<open>src/libmetartccore5/src\<close> that describes a session (SDP), finds a way to the
  peer (STUN, TURN, ICE), packs coded audio and video into RTP packets, protects and sends them, collects the packets of the peer into
  frames, and reports and answers losses (RTCP). Everything is modelled at the level of bytes; the SRTP, HMAC and MD5 functions, the
  socket, the clock, random numbers, name resolution and the application's callbacks are parameters (\<open>rtc_net\<close> in \<open>Rtc_Context\<close>,
  \<open>stun_env\<close>, \<open>turn_env\<close> and \<open>ice_env\<close>).

  \<^bold>\<open>Conventions.\<close> A C function on a struct becomes a function from the old state to the new one. A pointer
  into an array is the array together with an offset (\<open>buf_mem\<close> and \<open>buf_data\<close>, \<open>buf_head\<close> of a buffer), or the rest of the
  array; every access goes through \<open>mem_load\<close>, \<open>mem_store\<close>, \<open>mem_read\<close> or \<open>mem_write\<close> of \<open>Prelude\<close>, which give \<open>None\<close>
  outside the array. So \<open>None\<close> is a fault: an access out of bounds, a null pointer, a mutex locked twice. Error codes are
  values, \<open>Yang_Ok\<close> is 0. Fields of fixed width are words, \<open>int32_t\<close> counts and offsets that cannot overflow are
  \<open>int\<close>. Memory from \<open>malloc\<close> and local arrays are filled with zeros where C leaves them uninitialised. The world
  outside is a value of type \<open>'w\<close> that is passed along. The build options are those of the repository: DTLS on, transport-wide
  congestion control and the meta payload off.

  \<^bold>\<open>Foundations.\<close>
  \<^item> \<open>Prelude\<close>: memory, bytes of words, error codes, collections of lemmas.
  \<^item> \<open>Buffer\<close> (\<open>yangutil/sys/YangBuffer.c\<close>): the byte buffer. Its contract, a locale for a pair of writer and reader,
    is proved for each width; the wire lemmas (\<open>put\<close>, \<open>ahead\<close>) carry all codecs.
  \<^item> \<open>Vector\<close> (\<open>YangVector.h\<close>) and \<open>Seq_Sort\<close> (\<open>YangMath.c\<close>, \<open>YangVector.c\<close>): growing arrays, sorting, the order
    of 16-bit sequence numbers, sorted arrays of them.
  \<^item> \<open>C_String\<close> (\<open>YangCString.c\<close>) and \<open>C_Text\<close>: C strings with the functions of the C library on them, what splitting and
    replacing compute and what \<open>strtok\<close> leaves of its argument; literals, decimal numbers and separated fields read back.
  \<^item> \<open>Crc\<close> (\<open>YangSsrc.c\<close>): the table-driven CRC-32 against the bitwise division. \<open>Url\<close> (\<open>YangUrl.c\<close>): the URL parsers.

  \<^bold>\<open>RTP and RTCP.\<close>
  \<^item> \<open>Rtp_Header\<close> (\<open>yangrtp/YangRtp.c\<close>, \<open>YangRtpHeader.c\<close>) and \<open>Rtp_Payload\<close> (\<open>yangrtp/YangRtpPacket.c\<close>, \<open>YangRtpBuffer.c\<close>,
    \<open>YangRtpSTAPPayload.c\<close>, \<open>YangRtpFUAPayload2.c\<close>, \<open>YangRtpRawPayload.c\<close>): headers, payloads, the packet ring.
    Wire images (\<open>rtp_wire\<close>, \<open>fua2_wire\<close>, \<open>h264_stap_wire\<close>) say what each coder writes; the decoders read it back.
  \<^item> \<open>Rtcp_Common\<close>, \<open>Rtcp_Nack\<close>, \<open>Rtcp_Compound\<close> (\<open>yangrtp/YangRtcp*.c\<close>): the RTCP packets and the walk over
    a compound packet. The walk may run for ever, so it takes fuel; the bytes of the packet suffice as fuel unless it
    reaches a position that consumes nothing (\<open>stuck\<close>), and then no fuel does.
  \<^item> \<open>Recv_Nack\<close> (\<open>YangReceiveNackBuffer.c\<close>, \<open>YangPublishNackBuffer.c\<close>, \<open>YangRtpRecvNack.c\<close>): the receive window,
    the store of sent packets and the list of missing packets, against an abstract set of numbers.
  \<^item> \<open>Twcc\<close> (\<open>yangrtp/YangRtcpTWCC.c\<close>, \<open>yangrtc/YangRtcTwcc.c\<close>): transport-wide congestion control, complete although its callers are
    compiled out. \<open>Twcc_Facts\<close>: the chunks stand for the statuses that were added, the deltas for the recorded times to within 125
    microseconds modulo the period of the reference time, and the code's own decoder reads the statuses one position late.

  \<^bold>\<open>Media streams.\<close>
  \<^item> \<open>Video_Meta\<close> (\<open>yangavutil/YangMeta.c\<close>): parameter sets and configuration records of H.264 and H.265.
  \<^item> \<open>Rtc_Context\<close> (\<open>YangSRtp.c\<close>, \<open>YangTime.c\<close>, \<open>YangRtcStats.c\<close>, \<open>YangBandwidth.c\<close>, \<open>YangRtcContextH.h\<close>): the state
    shared by the streams of a session; \<open>Rtc_Loss\<close> proves what the statistics count.
  \<^item> \<open>Rtc_Rtcp\<close> (\<open>YangRtcRtcp.c\<close>): the senders of RTCP packets.
  \<^item> \<open>Push_Stream\<close> (\<open>YangPush.c\<close>, \<open>YangPushStream.c\<close>) and \<open>Push_Media\<close> (\<open>YangPushH264.c\<close>, \<open>YangPushH265.c\<close>): the
    sending side; \<open>Push_Facts\<close> proves what becomes of a frame and of a request for a lost packet.
  \<^item> \<open>Nalu\<close> (\<open>yangavutil/YangNalu.c\<close>): the scans of a frame for key units and parameter sets. \<open>Sort_Buffer\<close>
    (\<open>yangutil/buffer2/YangSortBuffer.c\<close>): the audio sort buffer, with the aliasing of its frame pointers; \<open>Sort_Facts\<close> shows what
    it does.
  \<^item> \<open>Play_Media\<close> (\<open>YangPlayTrackH264.c\<close>, \<open>YangPlayTrackH265.c\<close>, \<open>yang_playtrack_receiveVideo\<close>): the caches of packets
    and the frames made from them. What the two files share is defined once over a record of their differences
    (\<open>track_codec\<close>); each C function is an instance. The recursion over consecutive complete frames ends because each
    frame frees a slot. \<open>Play_Stream\<close> (\<open>YangPlayTrack.c\<close>, \<open>YangPlayTrackAudio.c\<close>, \<open>YangPlayTrackVideo.c\<close>,
    \<open>YangPlayStream.c\<close>): the tracks and the dispatch of packets and reports.
  \<^item> \<open>Play_Facts\<close> refines the cache to the set of the fragments that have arrived: whatever their order, the frame is
    delivered when the set is complete. \<open>Play_Frame\<close> gives the bytes of a frame of single units, and the size from which writing it
    is a fault.

  \<^bold>\<open>Finding the peer.\<close>
  \<^item> \<open>Stun\<close> (\<open>yangice/YangRtcStun.c\<close>): the STUN messages. \<open>Stun_Facts\<close>: decoding is a fold over the attributes of the body, and
    when it faults. \<open>Stun_Wire\<close>: the bytes of the attributes, and the binding response with its integrity and fingerprint, read back.
  \<^item> \<open>Turn\<close> (\<open>yangice/YangTurnConnection.c\<close>, \<open>yangrtc/YangRtcUdp.c\<close>): the TURN client, its three threads as functions on the
    session. \<open>Turn_Facts\<close>: the automaton its packets drive. \<open>Turn_Peers\<close>: channels and data, and what every reachable state
    (\<open>turn_step\<close>, all interleavings of the operations) keeps. \<open>Turn_Wire\<close>: the requests as they are sent and signed.
  \<^item> \<open>Ice\<close> (\<open>yangice/YangIce.c\<close>): the choice between host, STUN and TURN, with the connection all sessions share behind a pointer
    that may dangle. \<open>Ice_Facts\<close>: how a STUN request ends, and what sessions do to each other. The loops that wait are bounded in
    the code (500 waits for STUN, 100 for TURN), and recursion over these numbers models them.

  \<^bold>\<open>Session descriptions.\<close>
  \<^item> \<open>Sdp\<close> (\<open>yangsdp/YangRtcSdp.c\<close>, \<open>YangMediaDesc.c\<close>, \<open>YangMediaPayloadType.c\<close>, \<open>YangSSRCInfo.c\<close>): the data and the printers;
    \<open>Sdp_Parse\<close>: the parsers, setters and getters, with \<open>YangSdpHandle.c\<close> and the payload descriptions.
  \<^item> \<open>Sdp_Text\<close>: the printed text is a function of what the structure says (\<open>sdp_lines\<close> of \<open>view_sdp\<close>). \<open>Sdp_Read\<close>,
    \<open>Sdp_Facts\<close> and \<open>Sdp_Trip\<close>: what the parser makes of each line, of a media section and of the whole text (\<open>heard\<close>), and the
    faults a text from the network can cause. \<open>Sdp_Claims\<close>: the properties of session descriptions with an example.

  \<^bold>\<open>How the parts interact.\<close> A description is printed by \<open>yang_rtcsdp_encode\<close>, its line ends are replaced for the signalling
  (\<open>yang_cstr_replace\<close>), and the other side parses it (\<open>yang_rtcsdp_parse\<close>). A session whose candidate is not its own address
  asks a STUN server for the address it is seen under (\<open>yang_ice_stun_request\<close>, with the messages of \<open>Stun\<close>) or uses the shared TURN
  connection of \<open>Turn\<close>, which signs its requests with the same coders; if one fails it falls back to the next. A frame is cut by
  \<open>yang_push_h264_video\<close> into packets; each is coded by \<open>push_encodeVideo\<close> into a slot of the packet ring, counted by the
  statistics, noted in the store of sent packets, protected in place and given to the socket (\<open>yang_send_avpacket\<close>). A NACK from
  the peer is decoded by \<open>Rtcp_Compound\<close>, dispatched by \<open>yang_rtcpush_on_rtcp\<close>, looked up in the store and sent again. A
  received packet is unprotected, decoded and given to the track of its source (\<open>yang_rtcplay_on_rtp\<close>); the video track collects
  the packets of a frame and hands the frame to the application, the audio track passes the packet on, and the receive window of
  the track asks for what is missing (\<open>yang_playtrack_on_nack\<close>).

  \<^bold>\<open>Interfaces.\<close> The locales state what one part relies on in another: a writer and a reader of one width (\<open>wire_int\<close> in
  \<open>Buffer\<close>), a container (\<open>container\<close> in \<open>Vector\<close>), the binary search over sequence numbers (\<open>seq_search\<close> in \<open>Seq_Sort\<close>), a store of
  packets by sequence number (\<open>slot_store\<close> in \<open>Recv_Nack\<close>), and the decoder of one RTCP packet as the walk over a compound needs it
  (\<open>rtcp_decoder\<close> in \<open>Rtcp_Compound\<close>). Each is interpreted on the definitions of the code.

  \<^bold>\<open>Not modelled.\<close> Sockets, threads, timers, DTLS and the set-up of a connection, which are calls into the operating system and
  OpenSSL, and the files that glue these to the session (\<open>YangRtcConnection.c\<close>, \<open>YangPeerConnection.c\<close>, \<open>YangSdp.c\<close>,
  \<open>YangAnswerSdp.c\<close>); the configuration file reader; the RTMP client with its AMF coder and the patched FFmpeg files, which are
  vendored; device capture, codecs and user interfaces. The older fragment payload (\<open>YangRtpFUAPayload.c\<close>) is not used by the
  streams. The conversion from NTP to milliseconds computes in \<open>double\<close>; so does the mix of the round-trip time into the NACK
  interval (\<open>yang_recvnack_update_rtt\<close>), which is a parameter.
\<close>

end
